(* ===== verification/Prelude.thy ===== *)
theory Prelude
  imports Main "HOL-Library.Word" "HOL-Library.List_Lexorder" "HOL-Library.Sublist"
begin

text \<open>
  Shared vocabulary of the development: Rust's machine integers and byte strings, the
  big-endian byte encoding of integers that every database key of the program relies on,
  the decimal printing and parsing of unsigned integers, and the generic lemmas on lists,
  folds and paging that several components use.

  A Rust \<open>String\<close> is its UTF-8 byte sequence, so \<open>str\<close> and \<open>bytes\<close> are the same type and
  \<open>as_bytes\<close> is the identity. A computation that may panic returns an \<open>option\<close>;
  \<open>None\<close> is the panic.
\<close>

type_synonym byte = "8 word"
type_synonym bytes = "byte list"
type_synonym str = bytes
type_synonym u64 = "64 word"
type_synonym u16 = "16 word"
type_synonym slot = u64
type_synonym hash28 = "224 word"
type_synonym hash32 = "256 word"

named_theorems store_simps \<open>what a lookup returns after a store operation\<close>
named_theorems key_simps \<open>injectivity and shape of database keys\<close>

definition lit :: "string \<Rightarrow> str" where
  "lit s = map of_char s"

definition u64_max :: u64 where
  "u64_max = - 1"

subsection \<open>Big-endian encoding\<close>

fun be_nat :: "nat \<Rightarrow> nat \<Rightarrow> bytes" where
  "be_nat 0 v = []"
| "be_nat (Suc n) v = word_of_nat (v div 256 ^ n) # be_nat n v"

definition u64_to_be_bytes :: "u64 \<Rightarrow> bytes" where
  "u64_to_be_bytes w = be_nat 8 (unat w)"

definition hash28_bytes :: "hash28 \<Rightarrow> bytes" where
  "hash28_bytes h = be_nat 28 (unat h)"

definition hash32_bytes :: "hash32 \<Rightarrow> bytes" where
  "hash32_bytes h = be_nat 32 (unat h)"

lemma length_be_nat [simp]: "length (be_nat n v) = n"
  by (induction n) auto

lemma length_u64_to_be_bytes [simp]: "length (u64_to_be_bytes w) = 8"
  by (simp add: u64_to_be_bytes_def)

lemma length_hash28_bytes [simp]: "length (hash28_bytes h) = 28"
  by (simp add: hash28_bytes_def)

lemma length_hash32_bytes [simp]: "length (hash32_bytes h) = 32"
  by (simp add: hash32_bytes_def)

lemma unat_byte_of_nat: "unat (word_of_nat v :: byte) = v mod 256"
  by (simp add: unat_of_nat)

lemma mod_pow_Suc: "v mod 256 ^ Suc n = (v div 256 ^ n mod 256) * 256 ^ n + v mod (256 ^ n :: nat)"
  using mod_mult2_eq [of v "256 ^ n" 256] by (simp add: mult.commute)

lemma digits_less_iff:
  fixes a b r s p :: nat
  assumes "r < p" "s < p"
  shows "a * p + r < b * p + s \<longleftrightarrow> a < b \<or> (a = b \<and> r < s)"
proof -
  have *: "x * p + t < y * p + u" if "x < y" "t < p" for x y t u
  proof -
    have "x * p + t < Suc x * p" using that by simp
    also have "\<dots> \<le> y * p" using that by (intro mult_le_mono1) simp
    finally show ?thesis by simp
  qed
  show ?thesis
    using * [of a b r s] * [of b a s r] assms by (cases a b rule: linorder_cases) auto
qed

lemma be_nat_less_iff: "be_nat n v < be_nat n w \<longleftrightarrow> v mod 256 ^ n < w mod 256 ^ n"
proof (induction n)
  case 0
  then show ?case by simp
next
  case (Suc n)
  have "be_nat (Suc n) v < be_nat (Suc n) w \<longleftrightarrow>
      v div 256 ^ n mod 256 < w div 256 ^ n mod 256 \<or>
      (v div 256 ^ n mod 256 = w div 256 ^ n mod 256 \<and> v mod 256 ^ n < w mod 256 ^ n)"
    by (simp add: Suc word_less_nat_alt word_unat_eq_iff unat_byte_of_nat)
  also have "\<dots> \<longleftrightarrow> v mod 256 ^ Suc n < w mod 256 ^ Suc n"
    unfolding mod_pow_Suc by (rule digits_less_iff [symmetric]) simp_all
  finally show ?case .
qed

lemma be_nat_eq_iff: "be_nat n v = be_nat n w \<longleftrightarrow> v mod 256 ^ n = w mod 256 ^ n"
  using be_nat_less_iff [of n v w] be_nat_less_iff [of n w v]
  by (metis linorder_neq_iff)

lemma unat_mod_less:
  assumes "LENGTH('a::len) \<le> k" shows "unat (w :: 'a word) mod 2 ^ k = unat w"
proof -
  have "unat w < 2 ^ LENGTH('a)" by (rule unsigned_less)
  also have "\<dots> \<le> (2::nat) ^ k" using assms by (intro power_increasing) simp_all
  finally show ?thesis by simp
qed

lemma pow256: "(256::nat) ^ n = 2 ^ (8 * n)"
  by (simp add: power_mult)

lemma u64_to_be_bytes_less_iff [key_simps]: "u64_to_be_bytes a < u64_to_be_bytes b \<longleftrightarrow> a < b"
  by (simp add: u64_to_be_bytes_def be_nat_less_iff pow256 unat_mod_less word_less_nat_alt
      del: power_numeral)

lemma u64_to_be_bytes_eq_iff [key_simps]: "u64_to_be_bytes a = u64_to_be_bytes b \<longleftrightarrow> a = b"
  by (simp add: u64_to_be_bytes_def be_nat_eq_iff pow256 unat_mod_less word_unat_eq_iff
      del: power_numeral)

lemma hash28_bytes_eq_iff [key_simps]: "hash28_bytes a = hash28_bytes b \<longleftrightarrow> a = b"
  by (simp add: hash28_bytes_def be_nat_eq_iff pow256 unat_mod_less word_unat_eq_iff
      del: power_numeral)

lemma hash32_bytes_eq_iff [key_simps]: "hash32_bytes a = hash32_bytes b \<longleftrightarrow> a = b"
  by (simp add: hash32_bytes_def be_nat_eq_iff pow256 unat_mod_less word_unat_eq_iff
      del: power_numeral)

subsection \<open>Lexicographic order of keys\<close>

lemma list_le_prefix: "(p :: 'a::linorder list) \<le> p @ q"
  by (induction p) auto

lemma list_append_le_iff [key_simps]: "p @ q \<le> p @ (r :: 'a::linorder list) \<longleftrightarrow> q \<le> r"
  by (induction p) auto

lemma list_append_less_iff [key_simps]: "p @ q < p @ (r :: 'a::linorder list) \<longleftrightarrow> q < r"
  by (induction p) auto

lemma list_le_append_same_length:
  assumes "length p = length q"
  shows "p \<le> q @ (r :: 'a::linorder list) \<longleftrightarrow> p \<le> q"
  using assms by (induction p q rule: list_induct2) auto

end
