(* ===== verification/Cardano_Types.thy ===== *)
theory Cardano_Types
  imports Prelude
begin

text \<open>
  The ledger data that flows through the program: output references with their textual form
  (packages/spectrum-cardano-lib/src/lib.rs), addresses and credentials, transaction outputs
  with the accessors of packages/spectrum-cardano-lib/src/transaction.rs, the transaction view
  of packages/bloom-offchain-cardano/src/event_sink/tx_view.rs, and the ledger and mempool
  events (packages/cardano-chain-sync/src/data.rs, packages/cardano-mempool-sync/src/data.rs).

  The types of the third-party crate \<open>cml\<close> appear with the constructors and fields the source
  reads. Plutus data and scripts are opaque to the source, so they are represented by
  their serialised bytes. Hashes are fixed-width words.
\<close>

subsection \<open>Unsigned integers as text\<close>

fun dec_digits :: "nat \<Rightarrow> str" where
  "dec_digits n = (if n < 10 then [word_of_nat (48 + n)]
                   else dec_digits (n div 10) @ [word_of_nat (48 + n mod 10)])"

declare dec_digits.simps [simp del]

definition u64_display :: "u64 \<Rightarrow> str" where
  "u64_display w = dec_digits (unat w)"

fun parse_digits :: "nat \<Rightarrow> str \<Rightarrow> nat option" where
  "parse_digits acc [] = Some acc"
| "parse_digits acc (d # ds) =
     (if 48 \<le> d \<and> d \<le> 57 then
        (let v = acc * 10 + (unat d - 48) in if v < 2 ^ 64 then parse_digits v ds else None)
      else None)"

text \<open>
  \<open>u64::from_str\<close>: an empty text and a lone sign are errors, one leading \<open>+\<close> is skipped,
  a character that is no digit or a value past \<open>u64::MAX\<close> is an error.
\<close>

definition u64_from_str :: "str \<Rightarrow> u64 option" where
  "u64_from_str s =
     (let ds = (case s of c # rest \<Rightarrow> if c = 43 then rest else s | [] \<Rightarrow> [])
      in if ds = [] then None else map_option word_of_nat (parse_digits 0 ds))"

lemma byte_digit: "n < 10 \<Longrightarrow> unat (word_of_nat (48 + n) :: byte) = 48 + n"
  by (simp add: unat_of_nat del: of_nat_add)

lemma byte_digit_range:
  "n < 10 \<Longrightarrow> (48 :: byte) \<le> word_of_nat (48 + n) \<and> (word_of_nat (48 + n) :: byte) \<le> 57"
  by (simp add: word_le_nat_alt byte_digit del: of_nat_add)

lemma dec_digits_nonempty: "dec_digits n \<noteq> []"
  by (subst dec_digits.simps) simp

lemma dec_digits_range: "d \<in> set (dec_digits n) \<Longrightarrow> 48 \<le> d \<and> d \<le> 57"
proof (induction n rule: dec_digits.induct)
  case (1 n)
  show ?case
  proof (cases "n < 10")
    case True
    then show ?thesis
      using 1(2) byte_digit_range [of n] by (simp add: dec_digits.simps [of n] del: of_nat_add)
  next
    case False
    then show ?thesis
      using 1 byte_digit_range [of "n mod 10"]
      by (auto simp: dec_digits.simps [of n] simp del: of_nat_add)
  qed
qed

lemma parse_digits_append:
  "parse_digits acc (xs @ ys) = Option.bind (parse_digits acc xs) (\<lambda>v. parse_digits v ys)"
  by (induction xs arbitrary: acc) (auto simp: Let_def)

lemma parse_dec_digits: "n < 2 ^ 64 \<Longrightarrow> parse_digits 0 (dec_digits n) = Some n"
proof (induction n rule: dec_digits.induct)
  case (1 n)
  show ?case
  proof (cases "n < 10")
    case True
    then show ?thesis
      using byte_digit_range [of n]
      by (simp add: dec_digits.simps [of n] byte_digit Let_def del: of_nat_add)
  next
    case False
    have IH: "parse_digits 0 (dec_digits (n div 10)) = Some (n div 10)"
      using 1 False by (meson div_le_dividend order_le_less_trans)
    have "n div 10 * 10 + n mod 10 = n" by simp
    then show ?thesis
      using False IH "1.prems" byte_digit_range [of "n mod 10"]
      by (simp add: dec_digits.simps [of n] parse_digits_append byte_digit Let_def del: of_nat_add)
  qed
qed

lemma u64_from_str_display: "u64_from_str (u64_display w) = Some w"
proof -
  obtain c rest where d: "dec_digits (unat w) = c # rest"
    using dec_digits_nonempty by (cases "dec_digits (unat w)") auto
  have "c \<noteq> 43" using dec_digits_range [of c "unat w"] d by (auto simp: word_le_nat_alt)
  moreover have "parse_digits 0 (dec_digits (unat w)) = Some (unat w)"
    using parse_dec_digits [of "unat w"] unsigned_less [of w] by simp
  ultimately show ?thesis
    by (simp add: u64_from_str_def u64_display_def d Let_def)
qed

subsection \<open>Output references\<close>

datatype output_ref = OutputRef (tx_hash: hash32) (out_index: u64)

fun split_once :: "byte \<Rightarrow> str \<Rightarrow> (str \<times> str) option" where
  "split_once c [] = None"
| "split_once c (x # xs) =
     (if x = c then Some ([], xs) else map_option (\<lambda>(a, b). (x # a, b)) (split_once c xs))"

lemma split_once_append: "c \<notin> set xs \<Longrightarrow> split_once c (xs @ c # ys) = Some (xs, ys)"
  by (induction xs) auto

text \<open>
  \<open>TransactionHash::to_hex\<close> and \<open>from_hex\<close> belong to a third-party crate and are
  parameters. Parsing panics (\<open>None\<close>) on a bad hash or index and returns the error \<open>Inl\<close>
  when there is no \<open>#\<close>.
\<close>

definition output_ref_display :: "(hash32 \<Rightarrow> str) \<Rightarrow> output_ref \<Rightarrow> str" where
  "output_ref_display to_hex r = to_hex (tx_hash r) @ 35 # u64_display (out_index r)"

definition output_ref_from_str ::
    "(str \<Rightarrow> hash32 option) \<Rightarrow> str \<Rightarrow> (str + output_ref) option" where
  "output_ref_from_str from_hex s =
     (case split_once 35 s of
        None \<Rightarrow> Some (Inl (lit ''Invalid OutputRef''))
      | Some (raw_tx_id, str_idx) \<Rightarrow>
          (case from_hex raw_tx_id of
             None \<Rightarrow> None
           | Some h \<Rightarrow>
               (case u64_from_str str_idx of
                  None \<Rightarrow> None
                | Some i \<Rightarrow> Some (Inr (OutputRef h i)))))"

lemma output_ref_from_str_display:
  assumes "\<And>h. from_hex (to_hex h) = Some h" and "\<And>h. 35 \<notin> set (to_hex h)"
  shows "output_ref_from_str from_hex (output_ref_display to_hex r) = Some (Inr r)"
  using assms
  by (simp add: output_ref_from_str_def output_ref_display_def split_once_append
      u64_from_str_display)

subsection \<open>Credentials and addresses\<close>

datatype credential = PubKey hash28 | Script hash28

datatype address =
    Base credential credential
  | Enterprise credential
  | Ptr credential
  | Reward credential
  | Byron

subsection \<open>Transaction outputs\<close>

datatype tx_value = Value (coin: u64) (multiasset: "(hash28 \<times> (bytes \<times> u64) list) list")

datatype datum_option = DatumHash hash32 | InlineDatum bytes

datatype script_ref =
    NativeScript bytes
  | PlutusV1Script bytes
  | PlutusV2Script bytes
  | PlutusV3Script bytes

datatype tx_output =
    AlonzoFormatTxOut address tx_value "hash32 option"
  | ConwayFormatTxOut address tx_value "datum_option option" "script_ref option"

fun output_address :: "tx_output \<Rightarrow> address" where
  "output_address (AlonzoFormatTxOut a v d) = a"
| "output_address (ConwayFormatTxOut a v d s) = a"

fun output_value :: "tx_output \<Rightarrow> tx_value" where
  "output_value (AlonzoFormatTxOut a v d) = v"
| "output_value (ConwayFormatTxOut a v d s) = v"

fun output_datum :: "tx_output \<Rightarrow> datum_option option" where
  "output_datum (AlonzoFormatTxOut a v d) = map_option DatumHash d"
| "output_datum (ConwayFormatTxOut a v d s) = d"

end
