(* ===== verification/Codec.thy ===== *)
theory Codec
  imports Cardano_Types
begin

text \<open>
  Executable serialisers that satisfy the laws the index asks of its third-party ones: hexadecimal
  text, the MessagePack string header, and a tagged encoding of rows and transaction outputs.
  They are not the encodings on disk; they show that the laws can hold together.
\<close>

subsection \<open>Big-endian decoding and hexadecimal text\<close>

definition nat_be :: "bytes \<Rightarrow> nat" where
  "nat_be bs = foldl (\<lambda>a b. a * 256 + unat b) 0 bs"

lemma nat_be_snoc: "nat_be (bs @ [b]) = nat_be bs * 256 + unat b"
  by (simp add: nat_be_def)

lemma nat_be_append: "nat_be (xs @ ys) = nat_be xs * 256 ^ length ys + nat_be ys"
  by (induction ys rule: rev_induct) (simp_all add: nat_be_def flip: append_assoc)

lemma nat_be_single [simp]: "nat_be [b] = unat b"
  by (simp add: nat_be_def)

lemma nat_be_be_nat: "nat_be (be_nat n v) = v mod 256 ^ n"
proof (induction n)
  case 0
  then show ?case by (simp add: nat_be_def)
next
  case (Suc n)
  have "nat_be (be_nat (Suc n) v) = unat (word_of_nat (v div 256 ^ n) :: byte) * 256 ^ n + nat_be (be_nat n v)"
    using nat_be_append [of "[word_of_nat (v div 256 ^ n)]" "be_nat n v"] by simp
  then show ?case by (simp add: Suc mod_pow_Suc unat_byte_of_nat del: power_Suc)
qed

definition hex_digit :: "nat \<Rightarrow> byte" where
  "hex_digit n = word_of_nat (if n < 10 then 48 + n else 87 + n)"

definition hex_value :: "byte \<Rightarrow> nat option" where
  "hex_value b =
     (if 48 \<le> b \<and> b \<le> 57 then Some (unat b - 48)
      else if 97 \<le> b \<and> b \<le> 102 then Some (unat b - 87)
      else if 65 \<le> b \<and> b \<le> 70 then Some (unat b - 55) else None)"

definition hex_encode :: "bytes \<Rightarrow> str" where
  "hex_encode bs = concat (map (\<lambda>b. [hex_digit (unat b div 16), hex_digit (unat b mod 16)]) bs)"

fun hex_decode :: "str \<Rightarrow> bytes option" where
  "hex_decode [] = Some []"
| "hex_decode (a # b # s) =
     (case (hex_value a, hex_value b, hex_decode s) of
        (Some x, Some y, Some bs) \<Rightarrow> Some (word_of_nat (x * 16 + y) # bs)
      | _ \<Rightarrow> None)"
| "hex_decode [_] = None"

lemma high_nibble: "unat (b :: byte) div 16 < 16"
proof -
  have "unat b < 2 ^ LENGTH(8)" by (rule unsigned_less)
  then show ?thesis by (simp add: less_mult_imp_div_less)
qed

lemma hex_digit_range: "n < 16 \<Longrightarrow> (48 \<le> hex_digit n \<and> hex_digit n \<le> 57) \<or> (97 \<le> hex_digit n \<and> hex_digit n \<le> 102)"
  by (auto simp: hex_digit_def word_le_nat_alt unat_of_nat simp del: of_nat_add)

lemma hex_value_digit: "n < 16 \<Longrightarrow> hex_value (hex_digit n) = Some n"
  by (auto simp: hex_digit_def hex_value_def word_le_nat_alt unat_of_nat simp del: of_nat_add)

lemma hex_decode_encode [simp]: "hex_decode (hex_encode bs) = Some bs"
proof (induction bs)
  case Nil
  then show ?case by (simp add: hex_encode_def)
next
  case (Cons b bs)
  have "word_of_nat (unat b div 16 * 16 + unat b mod 16) = b"
    by (simp del: of_nat_add of_nat_mult)
  with high_nibble [of b] show ?case
    using Cons by (simp add: hex_encode_def hex_value_digit del: of_nat_add of_nat_mult)
qed

lemma hex_encode_char: "b \<in> set (hex_encode bs) \<Longrightarrow> (48 \<le> b \<and> b \<le> 57) \<or> (97 \<le> b \<and> b \<le> 102)"
proof (induction bs)
  case Nil
  then show ?case by (simp add: hex_encode_def)
next
  case (Cons x bs)
  show ?case
    using Cons high_nibble [of x] hex_digit_range [of "unat x div 16"] hex_digit_range [of "unat x mod 16"]
    by (auto simp: hex_encode_def)
qed

lemma hex_encode_ascii: "b \<in> set (hex_encode bs) \<Longrightarrow> b < 128"
  using hex_encode_char [of b bs] by (auto simp: word_le_nat_alt word_less_nat_alt)

lemma hex_encode_no_hash: "35 \<notin> set (hex_encode bs)"
  using hex_encode_char [of 35 bs] by (auto simp: word_le_nat_alt)

definition hash32_hex :: "hash32 \<Rightarrow> str" where
  "hash32_hex h = hex_encode (hash32_bytes h)"

definition hash32_unhex :: "str \<Rightarrow> hash32 option" where
  "hash32_unhex s =
     Option.bind (hex_decode s)
       (\<lambda>bs. if length bs = 32 then Some (word_of_nat (nat_be bs)) else None)"

lemma nat_be_hash32: "word_of_nat (nat_be (hash32_bytes h)) = h"
  by (simp add: hash32_bytes_def nat_be_be_nat pow256 unat_mod_less del: power_numeral)

lemma nat_be_hash28: "word_of_nat (nat_be (hash28_bytes h)) = h"
  by (simp add: hash28_bytes_def nat_be_be_nat pow256 unat_mod_less del: power_numeral)

lemma nat_be_u64: "word_of_nat (nat_be (u64_to_be_bytes h)) = h"
  by (simp add: u64_to_be_bytes_def nat_be_be_nat pow256 unat_mod_less del: power_numeral)

lemma hash32_unhex_hex [simp]: "hash32_unhex (hash32_hex h) = Some h"
  by (simp add: hash32_unhex_def hash32_hex_def nat_be_hash32)

subsection \<open>Tagged encodings\<close>

type_synonym 'a dec = "bytes \<Rightarrow> ('a \<times> bytes) option"

definition decodes :: "('a \<Rightarrow> bytes) \<Rightarrow> 'a dec \<Rightarrow> bool" where
  "decodes e d \<longleftrightarrow> (\<forall>x rest. d (e x @ rest) = Some (x, rest))"

lemma decodesD: "decodes e d \<Longrightarrow> d (e x @ rest) = Some (x, rest)"
  by (simp add: decodes_def)

definition dec_fixed :: "nat \<Rightarrow> (nat \<Rightarrow> 'a) \<Rightarrow> 'a dec" where
  "dec_fixed n f bs = (if length bs < n then None else Some (f (nat_be (take n bs)), drop n bs))"

definition enc_pair :: "('a \<Rightarrow> bytes) \<Rightarrow> ('b \<Rightarrow> bytes) \<Rightarrow> 'a \<times> 'b \<Rightarrow> bytes" where
  "enc_pair e1 e2 p = e1 (fst p) @ e2 (snd p)"

definition dec_pair :: "'a dec \<Rightarrow> 'b dec \<Rightarrow> ('a \<times> 'b) dec" where
  "dec_pair d1 d2 bs =
     Option.bind (d1 bs) (\<lambda>(x, r). map_option (\<lambda>(y, r'). ((x, y), r')) (d2 r))"

fun enc_list :: "('a \<Rightarrow> bytes) \<Rightarrow> 'a list \<Rightarrow> bytes" where
  "enc_list e [] = [0]"
| "enc_list e (x # xs) = 1 # e x @ enc_list e xs"

fun dec_list :: "nat \<Rightarrow> 'a dec \<Rightarrow> 'a list dec" where
  "dec_list 0 d bs = None"
| "dec_list (Suc n) d [] = None"
| "dec_list (Suc n) d (b # bs) =
     (if b = 0 then Some ([], bs)
      else Option.bind (d bs) (\<lambda>(x, r). map_option (\<lambda>(xs, r'). (x # xs, r')) (dec_list n d r)))"

definition enc_option :: "('a \<Rightarrow> bytes) \<Rightarrow> 'a option \<Rightarrow> bytes" where
  "enc_option e v = (case v of None \<Rightarrow> [0] | Some x \<Rightarrow> 1 # e x)"

definition dec_option :: "'a dec \<Rightarrow> 'a option dec" where
  "dec_option d bs =
     (case bs of
        [] \<Rightarrow> None
      | b # r \<Rightarrow> if b = 0 then Some (None, r) else map_option (\<lambda>(x, r'). (Some x, r')) (d r))"

definition enc_sum :: "('a \<Rightarrow> bytes) \<Rightarrow> ('b \<Rightarrow> bytes) \<Rightarrow> 'a + 'b \<Rightarrow> bytes" where
  "enc_sum e1 e2 v = (case v of Inl x \<Rightarrow> 0 # e1 x | Inr y \<Rightarrow> 1 # e2 y)"

definition dec_sum :: "'a dec \<Rightarrow> 'b dec \<Rightarrow> ('a + 'b) dec" where
  "dec_sum d1 d2 bs =
     (case bs of
        [] \<Rightarrow> None
      | b # r \<Rightarrow> if b = 0 then map_option (\<lambda>(x, r'). (Inl x, r')) (d1 r)
                 else map_option (\<lambda>(x, r'). (Inr x, r')) (d2 r))"

definition dec_conv :: "('a \<Rightarrow> 'b) \<Rightarrow> 'a dec \<Rightarrow> 'b dec" where
  "dec_conv f d bs = map_option (\<lambda>(x, r). (f x, r)) (d bs)"

lemma decodes_pair: "decodes e1 d1 \<Longrightarrow> decodes e2 d2 \<Longrightarrow> decodes (enc_pair e1 e2) (dec_pair d1 d2)"
  by (auto simp: decodes_def enc_pair_def dec_pair_def)

lemma decodes_option: "decodes e d \<Longrightarrow> decodes (enc_option e) (dec_option d)"
  by (auto simp: decodes_def enc_option_def dec_option_def split: option.splits)

lemma decodes_sum: "decodes e1 d1 \<Longrightarrow> decodes e2 d2 \<Longrightarrow> decodes (enc_sum e1 e2) (dec_sum d1 d2)"
  by (auto simp: decodes_def enc_sum_def dec_sum_def split: sum.splits)

lemma decodes_conv: "decodes e d \<Longrightarrow> (\<And>x. f (g x) = x) \<Longrightarrow> decodes (\<lambda>x. e (g x)) (dec_conv f d)"
  by (auto simp: decodes_def dec_conv_def)

lemma decodes_list:
  assumes "decodes e d"
  shows "decodes (enc_list e) (\<lambda>bs. dec_list (length bs) d bs)"
proof -
  have "dec_list n d (enc_list e xs @ rest) = Some (xs, rest)" if "length (enc_list e xs) \<le> n" for xs n rest
    using that
  proof (induction xs arbitrary: n)
    case Nil
    then show ?case by (cases n) auto
  next
    case (Cons x xs)
    then show ?case by (cases n) (auto simp: decodesD [OF assms])
  qed
  then show ?thesis by (simp add: decodes_def)
qed

lemma decodes_u64: "decodes u64_to_be_bytes (dec_fixed 8 word_of_nat)"
  by (simp add: decodes_def dec_fixed_def nat_be_u64)

lemma decodes_hash28: "decodes hash28_bytes (dec_fixed 28 word_of_nat)"
  by (simp add: decodes_def dec_fixed_def nat_be_hash28)

lemma decodes_hash32: "decodes hash32_bytes (dec_fixed 32 word_of_nat)"
  by (simp add: decodes_def dec_fixed_def nat_be_hash32)

lemma decodes_byte: "decodes (\<lambda>b :: byte. [b]) (\<lambda>bs. case bs of [] \<Rightarrow> None | b # r \<Rightarrow> Some (b, r))"
  by (simp add: decodes_def)

lemma decodes_unit: "decodes (\<lambda>_ :: unit. []) (\<lambda>bs. Some ((), bs))"
  by (simp add: decodes_def)

end
