(* ===== verification/Assets.thy ===== *)
theory Assets
  imports Cardano_Types Codec
begin

text \<open>
  Asset names, tokens and asset classes of packages/spectrum-cardano-lib/src/lib.rs, with their
  byte and text forms. A name is a length byte and a 32-byte array; slices past the array,
  \<open>unwrap\<close> and slicing a text off a character boundary are panics (\<open>None\<close>). Hexadecimal
  conversion and the ledger library's own asset name belong to third-party crates.
\<close>

datatype asset_name = AssetName (an_len: byte) (an_raw: bytes)

definition an_zero :: asset_name where
  "an_zero = AssetName 1 (replicate 32 0)"

definition pad32 :: "bytes \<Rightarrow> bytes" where
  "pad32 xs = xs @ replicate (32 - length xs) 0"

definition an_padded_bytes :: "asset_name \<Rightarrow> bytes" where
  "an_padded_bytes n = an_raw n"

definition an_as_bytes :: "asset_name \<Rightarrow> bytes option" where
  "an_as_bytes n =
     (if unat (an_len n) \<le> length (an_raw n) then Some (take (unat (an_len n)) (an_raw n)) else None)"

text \<open>\<open>TryFrom<Vec<u8>>\<close>: the error is the outer \<open>None\<close>.\<close>

definition an_try_from :: "bytes \<Rightarrow> asset_name option" where
  "an_try_from xs = (if 32 < length xs then None else Some (AssetName (word_of_nat (length xs)) (pad32 xs)))"

definition an_try_from_hex :: "(str \<Rightarrow> bytes option) \<Rightarrow> str \<Rightarrow> asset_name option" where
  "an_try_from_hex hex_dec s = Option.bind (hex_dec s) an_try_from"

definition is_char_boundary :: "str \<Rightarrow> nat \<Rightarrow> bool" where
  "is_char_boundary s i \<longleftrightarrow> i = 0 \<or> i = length s \<or> (i < length s \<and> \<not> (128 \<le> s ! i \<and> s ! i < 192))"

definition an_from_utf8 :: "str \<Rightarrow> asset_name option" where
  "an_from_utf8 tn =
     (let orig_len = length tn in
      if 32 < orig_len
      then (if is_char_boundary tn 32 then Some (AssetName (word_of_nat orig_len) (pad32 (take 32 tn))) else None)
      else Some (AssetName (word_of_nat orig_len) (pad32 tn)))"

definition cont :: "byte \<Rightarrow> bool" where
  "cont b \<longleftrightarrow> 128 \<le> b \<and> b \<le> 191"

fun utf8_valid :: "bytes \<Rightarrow> bool" where
  "utf8_valid [] = True"
| "utf8_valid (b # bs) =
     (if b < 128 then utf8_valid bs
      else if 194 \<le> b \<and> b \<le> 223 then
        (case bs of c1 # rest \<Rightarrow> cont c1 \<and> utf8_valid rest | _ \<Rightarrow> False)
      else if 224 \<le> b \<and> b \<le> 239 then
        (case bs of
           c1 # c2 # rest \<Rightarrow>
             cont c1 \<and> cont c2 \<and> (b = 224 \<longrightarrow> 160 \<le> c1) \<and> (b = 237 \<longrightarrow> c1 \<le> 159) \<and> utf8_valid rest
         | _ \<Rightarrow> False)
      else if 240 \<le> b \<and> b \<le> 244 then
        (case bs of
           c1 # c2 # c3 # rest \<Rightarrow>
             cont c1 \<and> cont c2 \<and> cont c3 \<and> (b = 240 \<longrightarrow> 144 \<le> c1) \<and> (b = 244 \<longrightarrow> c1 \<le> 143) \<and> utf8_valid rest
         | _ \<Rightarrow> False)
      else False)"

definition an_display :: "(bytes \<Rightarrow> str) \<Rightarrow> asset_name \<Rightarrow> str option" where
  "an_display hex_enc n =
     map_option (\<lambda>slice. if utf8_valid slice then slice else hex_enc slice) (an_as_bytes n)"

definition an_serialize :: "(bytes \<Rightarrow> str) \<Rightarrow> asset_name \<Rightarrow> str option" where
  "an_serialize hex_enc n = an_display hex_enc n"

definition an_deserialize :: "(str \<Rightarrow> bytes option) \<Rightarrow> str \<Rightarrow> asset_name option" where
  "an_deserialize hex_dec s =
     (case an_try_from_hex hex_dec s of Some n \<Rightarrow> Some n | None \<Rightarrow> an_from_utf8 s)"

definition an_into_cml :: "asset_name \<Rightarrow> bytes option" where
  "an_into_cml n = (if unat (an_len n) \<le> length (an_raw n) then Some (take (unat (an_len n)) (an_raw n)) else None)"

definition an_from_cml :: "bytes \<Rightarrow> asset_name option" where
  "an_from_cml name = an_try_from name"

subsection \<open>Tokens\<close>

datatype token = Token (tk_policy: hash28) (tk_name: asset_name)

definition currency_symbol_hex_string_length :: nat where
  "currency_symbol_hex_string_length = 56"

definition token_try_from_string ::
    "(str \<Rightarrow> hash28 option) \<Rightarrow> (str \<Rightarrow> bytes option) \<Rightarrow> str \<Rightarrow> token option" where
  "token_try_from_string policy_dec hex_dec s =
     (case split_once 46 s of
        None \<Rightarrow> None
      | Some (pol, an) \<Rightarrow>
          (case (policy_dec pol, an_try_from_hex hex_dec an) of
             (Some p, Some n) \<Rightarrow> Some (Token p n)
           | _ \<Rightarrow> None))"

fun str_split :: "byte \<Rightarrow> str \<Rightarrow> str list" where
  "str_split c [] = [[]]"
| "str_split c (x # xs) =
     (if x = c then [] # str_split c xs
      else (case str_split c xs of [] \<Rightarrow> [[x]] | p # ps \<Rightarrow> (x # p) # ps))"

definition token_from_string_unsafe ::
    "(str \<Rightarrow> hash28 option) \<Rightarrow> (str \<Rightarrow> bytes option) \<Rightarrow> str \<Rightarrow> token option" where
  "token_from_string_unsafe policy_dec hex_dec s =
     (case str_split 46 s of
        p0 # p1 # _ \<Rightarrow>
          (case (policy_dec p0, an_try_from_hex hex_dec p1) of
             (Some p, Some n) \<Rightarrow> Some (Token p n)
           | _ \<Rightarrow> None)
      | _ \<Rightarrow> None)"

text \<open>The outer option is the panic of \<open>split_at\<close>.\<close>

definition token_try_from_raw_string ::
    "(str \<Rightarrow> hash28 option) \<Rightarrow> (str \<Rightarrow> bytes option) \<Rightarrow> str \<Rightarrow> token option option" where
  "token_try_from_raw_string policy_dec hex_dec s =
     (if is_char_boundary s currency_symbol_hex_string_length
      then Some
        (case (policy_dec (take currency_symbol_hex_string_length s),
               an_try_from_hex hex_dec (drop currency_symbol_hex_string_length s)) of
           (Some p, Some n) \<Rightarrow> Some (Token p n)
         | _ \<Rightarrow> None)
      else None)"

definition token_to_array :: "token \<Rightarrow> bytes" where
  "token_to_array t = hash28_bytes (tk_policy t) @ an_padded_bytes (tk_name t)"

definition token_from_array :: "bytes \<Rightarrow> token option" where
  "token_from_array arr =
     map_option (Token (word_of_nat (nat_be (take 28 arr)))) (an_try_from (drop 28 arr))"

definition token_display :: "(hash28 \<Rightarrow> str) \<Rightarrow> (bytes \<Rightarrow> str) \<Rightarrow> token \<Rightarrow> str option" where
  "token_display policy_enc hex_enc t =
     map_option (\<lambda>n. policy_enc (tk_policy t) @ lit ''.'' @ n) (an_display hex_enc (tk_name t))"

subsection \<open>Asset classes\<close>

datatype asset_class = Native | TokenClass token

definition ac_is_native :: "asset_class \<Rightarrow> bool" where
  "ac_is_native ac = (ac = Native)"

fun ac_into_token :: "asset_class \<Rightarrow> token option" where
  "ac_into_token (TokenClass tkn) = Some tkn"
| "ac_into_token Native = None"

fun ac_into_value :: "asset_class \<Rightarrow> u64 \<Rightarrow> tx_value option" where
  "ac_into_value Native amt = Some (Value amt [])"
| "ac_into_value (TokenClass (Token policy an)) amt =
     map_option (\<lambda>name. Value 0 [(policy, [(name, amt)])]) (an_into_cml an)"

fun ac_to_bytes :: "asset_class \<Rightarrow> bytes option" where
  "ac_to_bytes Native = Some [0]"
| "ac_to_bytes (TokenClass (Token pol an)) = map_option (\<lambda>n. hash28_bytes pol @ n) (an_as_bytes an)"

text \<open>\<open>cml_new\<close> is the constructor of the ledger library, which refuses long names.\<close>

definition ac_from_bytes :: "(bytes \<Rightarrow> bytes option) \<Rightarrow> bytes \<Rightarrow> asset_class option" where
  "ac_from_bytes cml_new bs =
     (if bs = [0] then Some Native
      else if 28 \<le> length bs then
        Option.bind (cml_new (drop 28 bs)) (\<lambda>nm.
          map_option (\<lambda>an. TokenClass (Token (word_of_nat (nat_be (take 28 bs))) an)) (an_from_cml nm))
      else None)"

definition asset_class_into_hex :: "(bytes \<Rightarrow> str) \<Rightarrow> asset_class \<Rightarrow> str option" where
  "asset_class_into_hex hex_enc ac = map_option hex_enc (ac_to_bytes ac)"

definition asset_class_try_from_hex ::
    "(bytes \<Rightarrow> bytes option) \<Rightarrow> (str \<Rightarrow> bytes option) \<Rightarrow> str \<Rightarrow> asset_class option" where
  "asset_class_try_from_hex cml_new hex_dec s = Option.bind (hex_dec s) (ac_from_bytes cml_new)"

subsection \<open>Lemmas\<close>

definition an_wf :: "asset_name \<Rightarrow> bool" where
  "an_wf n \<longleftrightarrow> (\<exists>xs. an_try_from xs = Some n)"

lemma length_pad32: "length xs \<le> 32 \<Longrightarrow> length (pad32 xs) = 32"
  by (simp add: pad32_def)

lemma unat_len32: "length xs \<le> 32 \<Longrightarrow> unat (word_of_nat (length xs) :: byte) = length xs"
  by (simp add: unat_of_nat)

lemma an_try_from_as_bytes: "an_try_from xs = Some n \<Longrightarrow> an_as_bytes n = Some xs"
  by (auto simp: an_try_from_def an_as_bytes_def unat_len32 length_pad32 split: if_splits)
    (simp add: pad32_def)

lemma an_into_cml_as_bytes: "an_into_cml n = an_as_bytes n"
  by (simp add: an_into_cml_def an_as_bytes_def)

lemma an_wf_as_bytes: "an_wf n \<Longrightarrow> \<exists>xs. an_as_bytes n = Some xs \<and> an_try_from xs = Some n \<and> length xs \<le> 32"
  using an_try_from_as_bytes by (force simp: an_wf_def an_try_from_def split: if_splits)

text \<open>
  Names of the ledger and names of the program are isomorphic, and an asset class survives
  its byte and hexadecimal forms: decoding what was encoded gives the class back, for the native
  class and for every token whose name came from at most 32 bytes.
\<close>
theorem asset_class_roundtrip:
  assumes "\<And>bs. cml_new bs = (if length bs \<le> 32 then Some bs else None)"
    and "\<And>bs. hex_dec (hex_enc bs) = Some bs"
    and "\<And>tkn. ac = TokenClass tkn \<Longrightarrow> an_wf (tk_name tkn)"
  shows "\<exists>bs. ac_to_bytes ac = Some bs \<and> ac_from_bytes cml_new bs = Some ac \<and>
     Option.bind (asset_class_into_hex hex_enc ac) (asset_class_try_from_hex cml_new hex_dec) = Some ac"
proof -
  have "\<exists>bs. ac_to_bytes ac = Some bs \<and> ac_from_bytes cml_new bs = Some ac"
  proof (cases ac)
    case Native
    then show ?thesis by (simp add: ac_from_bytes_def)
  next
    case (TokenClass tkn)
    obtain pol n where tkn: "tkn = Token pol n" by (cases tkn)
    obtain xs where xs: "an_as_bytes n = Some xs" "an_try_from xs = Some n" "length xs \<le> 32"
      using an_wf_as_bytes assms(3) [OF TokenClass] tkn by auto
    have "hash28_bytes pol @ xs \<noteq> [0]"
      using length_hash28_bytes [of pol] by (cases "hash28_bytes pol") auto
    then show ?thesis
      using xs by (simp add: TokenClass tkn ac_from_bytes_def assms(1) an_from_cml_def nat_be_hash28)
  qed
  then show ?thesis
    by (auto simp: asset_class_into_hex_def asset_class_try_from_hex_def assms(2))
qed

theorem asset_class_roundtrip_witness:
  "\<exists>bs. ac_to_bytes (TokenClass (Token 5 (AssetName 2 (pad32 [97, 98])))) = Some bs \<and>
     ac_from_bytes (\<lambda>bs. if length bs \<le> 32 then Some bs else None) bs =
       Some (TokenClass (Token 5 (AssetName 2 (pad32 [97, 98])))) \<and>
     Option.bind (asset_class_into_hex hex_encode (TokenClass (Token 5 (AssetName 2 (pad32 [97, 98])))))
       (asset_class_try_from_hex (\<lambda>bs. if length bs \<le> 32 then Some bs else None) hex_decode) =
       Some (TokenClass (Token 5 (AssetName 2 (pad32 [97, 98]))))"
  by (rule asset_class_roundtrip) (auto simp: an_wf_def an_try_from_def intro!: exI [of _ "[97, 98]"])

text \<open>
  The text form of an asset name does not survive serialisation when it reads as
  hexadecimal: a name of at most 32 bytes whose bytes are valid UTF-8 is written as its text,
  and the reader tries hexadecimal first, so it comes back as another name.
\<close>
theorem asset_name_serde_ambiguous:
  assumes "an_try_from xs = Some n" "utf8_valid xs" "hex_dec xs = Some ys" "ys \<noteq> xs" "length ys \<le> 32"
  shows "\<exists>s n'. an_serialize hex_enc n = Some s \<and> an_deserialize hex_dec s = Some n' \<and>
     an_as_bytes n = Some xs \<and> an_as_bytes n' = Some ys \<and> n' \<noteq> n"
proof -
  have n: "an_as_bytes n = Some xs" by (rule an_try_from_as_bytes [OF assms(1)])
  obtain n' where n': "an_try_from ys = Some n'" using assms(5) by (simp add: an_try_from_def)
  then have "an_as_bytes n' = Some ys" by (rule an_try_from_as_bytes)
  moreover have "n' \<noteq> n" using calculation n assms(4) by auto
  ultimately show ?thesis
    using n n' assms(2,3)
    by (simp add: an_serialize_def an_display_def an_deserialize_def an_try_from_hex_def)
qed

theorem asset_name_serde_ambiguous_witness:
  "\<exists>s n'. an_serialize hex_encode (AssetName 2 (pad32 [97, 98])) = Some s \<and>
     an_deserialize hex_decode s = Some n' \<and>
     an_as_bytes (AssetName 2 (pad32 [97, 98])) = Some [97, 98] \<and> an_as_bytes n' = Some [171] \<and>
     n' \<noteq> AssetName 2 (pad32 [97, 98])"
  by (rule asset_name_serde_ambiguous) (simp_all add: an_try_from_def hex_value_def)

text \<open>
  The fixed array form of a token drops the length of the name: reading the array back
  never panics and yields the same token exactly when the name has all 32 bytes.
\<close>
theorem token_array_keeps_full_names:
  assumes "an_wf (tk_name t)"
  shows "\<exists>t'. token_from_array (token_to_array t) = Some t' \<and> (t' = t \<longleftrightarrow> an_len (tk_name t) = 32) \<and>
     length (token_to_array t) = 60"
proof -
  obtain pol n where t: "t = Token pol n" by (cases t)
  obtain xs where xs: "an_try_from xs = Some n" "length xs \<le> 32"
    using an_wf_as_bytes assms t by auto
  then have n: "n = AssetName (word_of_nat (length xs)) (pad32 xs)" "length (pad32 xs) = 32"
    by (auto simp: an_try_from_def length_pad32 split: if_splits)
  then show ?thesis
    by (simp add: t token_from_array_def token_to_array_def an_padded_bytes_def an_try_from_def
        nat_be_hash28 pad32_def [of "pad32 xs"])
qed

theorem token_array_keeps_full_names_witness:
  "\<exists>t'. token_from_array (token_to_array (Token 5 (AssetName 2 (pad32 [97, 98])))) = Some t' \<and>
     t' \<noteq> Token 5 (AssetName 2 (pad32 [97, 98]))"
proof -
  have "an_wf (tk_name (Token 5 (AssetName 2 (pad32 [97, 98]))))"
    unfolding an_wf_def by (rule exI [of _ "[97, 98]"]) (simp add: an_try_from_def)
  from token_array_keeps_full_names [OF this] show ?thesis by auto
qed

text \<open>
  A text longer than 32 bytes becomes a name whose recorded length exceeds its array, so
  every later use of its bytes panics; shorter texts keep their bytes.
\<close>
theorem long_text_name_panics:
  assumes "length tn < 256" "an_from_utf8 tn = Some n"
  shows "an_as_bytes n = (if length tn \<le> 32 then Some tn else None)"
proof (cases "length tn \<le> 32")
  case True
  then have "an_try_from tn = Some n" using assms(2) by (simp add: an_from_utf8_def an_try_from_def Let_def)
  then show ?thesis using an_try_from_as_bytes True by simp
next
  case False
  then have "n = AssetName (word_of_nat (length tn)) (pad32 (take 32 tn))"
    using assms(2) by (simp add: an_from_utf8_def Let_def split: if_splits)
  moreover have "length (pad32 (take 32 tn)) = 32" by (rule length_pad32) simp
  ultimately show ?thesis
    using False assms(1) by (simp add: an_as_bytes_def unat_of_nat)
qed

theorem long_text_name_panics_witness:
  "an_as_bytes (AssetName 33 (pad32 (replicate 32 97))) = None"
  using long_text_name_panics [of "replicate 33 97" "AssetName 33 (pad32 (replicate 32 97))"]
  by (simp add: an_from_utf8_def is_char_boundary_def Let_def)

end
