(* ===== verification/Collections.thy ===== *)
theory Collections
  imports Prelude
begin

text \<open>
  The small containers of packages/spectrum-offchain/src/data: the fixed-capacity vector
  \<open>SmallVec\<close> (small_vec.rs), the bounded membership filter \<open>CircularFilter\<close>
  (circular_filter.rs) and the inclusive-or \<open>Ior\<close> (ior.rs). The ring buffer below the filter
  is a third-party type, represented by the list of its elements, front first.
\<close>

subsection \<open>SmallVec\<close>

type_synonym 'a small_vec = "'a option list"

definition sv_size :: nat where
  "sv_size = 32"

fun sv_fill :: "nat \<Rightarrow> 'a small_vec \<Rightarrow> 'a list \<Rightarrow> 'a small_vec" where
  "sv_fill i bf [] = bf"
| "sv_fill i bf (x # xs) = (if sv_size \<le> i then bf else sv_fill (i + 1) (bf[i := Some x]) xs)"

definition sv_new :: "'a list \<Rightarrow> 'a small_vec" where
  "sv_new refs = sv_fill 0 (replicate sv_size None) refs"

definition sv_is_empty :: "'a small_vec \<Rightarrow> bool" where
  "sv_is_empty v = (v ! 0 = None)"

fun sv_exists :: "('a \<Rightarrow> bool) \<Rightarrow> 'a small_vec \<Rightarrow> bool" where
  "sv_exists f [] = False"
| "sv_exists f (cell # cells) =
     (case cell of
        Some t \<Rightarrow> if f t then True else sv_exists f cells
      | None \<Rightarrow> False)"

fun sv_contains :: "'a \<Rightarrow> 'a small_vec \<Rightarrow> bool" where
  "sv_contains item [] = False"
| "sv_contains item (cell # cells) =
     (case cell of
        Some t \<Rightarrow> if t = item then True else sv_contains item cells
      | None \<Rightarrow> False)"

definition sv_count :: "('a \<Rightarrow> bool) \<Rightarrow> 'a small_vec \<Rightarrow> nat" where
  "sv_count f v = foldl (\<lambda>t x. case x of Some elt \<Rightarrow> if f elt then t + 1 else t | None \<Rightarrow> t) 0 v"

definition sv_into_vec :: "'a small_vec \<Rightarrow> 'a list" where
  "sv_into_vec v = foldl (\<lambda>acc opt_elem. case opt_elem of Some elem \<Rightarrow> acc @ [elem] | None \<Rightarrow> acc) [] v"

definition sv_default :: "'a small_vec" where
  "sv_default = replicate sv_size None"

fun sv_display :: "('a \<Rightarrow> str) \<Rightarrow> bool \<Rightarrow> str \<Rightarrow> 'a small_vec \<Rightarrow> str" where
  "sv_display fmt first acc [] = acc"
| "sv_display fmt first acc (cell # cells) =
     (case cell of
        Some v \<Rightarrow> sv_display fmt False ((if \<not> first then acc @ lit '', '' else acc) @ fmt v) cells
      | None \<Rightarrow> acc)"

definition sv_fmt :: "('a \<Rightarrow> str) \<Rightarrow> 'a small_vec \<Rightarrow> str" where
  "sv_fmt fmt v = sv_display fmt True (lit ''['') v @ lit '']''"

lemma sv_fill_split:
  assumes "length pre = i" "length pre + length post = sv_size" "\<forall>c \<in> set post. c = None"
  shows "sv_fill i (pre @ post) xs =
     pre @ map Some (take (length post) xs) @ replicate (length post - length xs) None"
  using assms
proof (induction xs arbitrary: i pre post)
  case Nil
  then show ?case by (simp add: replicate_length_same)
next
  case (Cons x xs)
  show ?case
  proof (cases post)
    case Nil
    then show ?thesis using Cons.prems by simp
  next
    case (Cons c cs)
    have "sv_fill (i + 1) ((pre @ [Some x]) @ cs) xs =
        (pre @ [Some x]) @ map Some (take (length cs) xs) @ replicate (length cs - length xs) None"
      using Cons.prems Cons by (intro Cons.IH) auto
    moreover have "(pre @ post)[i := Some x] = (pre @ [Some x]) @ cs"
      using Cons Cons.prems(1) by (simp add: list_update_append)
    ultimately show ?thesis using Cons Cons.prems by simp
  qed
qed

lemma sv_new_eq: "sv_new xs = map Some (take sv_size xs) @ replicate (sv_size - length xs) None"
  using sv_fill_split [of "[]" 0 "replicate sv_size None" xs] by (simp add: sv_new_def)

lemma sv_exists_cells: "sv_exists f (map Some xs @ replicate n None) \<longleftrightarrow> list_ex f xs"
  by (induction xs) (cases n, auto)

lemma sv_contains_cells: "sv_contains y (map Some xs @ replicate n None) \<longleftrightarrow> y \<in> set xs"
  by (induction xs) (cases n, auto)

lemma sv_into_vec_cells: "sv_into_vec (map Some xs @ replicate n None) = xs"
proof -
  have 1: "foldl (\<lambda>acc c. case c of Some e \<Rightarrow> acc @ [e] | None \<Rightarrow> acc) acc (replicate n None) = acc" for acc :: "'b list"
    by (induction n) auto
  have "foldl (\<lambda>acc c. case c of Some e \<Rightarrow> acc @ [e] | None \<Rightarrow> acc) acc (map Some xs) = acc @ xs" for acc
    by (induction xs arbitrary: acc) auto
  with 1 show ?thesis by (simp add: sv_into_vec_def)
qed

lemma sv_count_cells: "sv_count f (map Some xs @ replicate n None) = length (filter f xs)"
proof -
  have 1: "foldl (\<lambda>t x. case x of Some e \<Rightarrow> if f e then t + 1 else t | None \<Rightarrow> t) m (replicate n None) = m" for m :: nat
    by (induction n) auto
  have "foldl (\<lambda>t x. case x of Some e \<Rightarrow> if f e then t + 1 else t | None \<Rightarrow> t) m (map Some xs) =
      m + length (filter f xs)" for m :: nat
    by (induction xs arbitrary: m) auto
  with 1 show ?thesis by (simp add: sv_count_def)
qed

text \<open>
  A \<open>SmallVec\<close> is the list of its first 32 elements: conversion back, membership, the
  existence test, counting and emptiness agree with that list, and whatever comes after the
  32nd element is dropped.
\<close>
theorem small_vec_is_prefix:
  "sv_into_vec (sv_new xs) = take 32 xs \<and>
   (sv_contains y (sv_new xs) \<longleftrightarrow> y \<in> set (take 32 xs)) \<and>
   (sv_exists f (sv_new xs) \<longleftrightarrow> list_ex f (take 32 xs)) \<and>
   sv_count f (sv_new xs) = length (filter f (take 32 xs)) \<and>
   (sv_is_empty (sv_new xs) \<longleftrightarrow> xs = []) \<and> length (sv_new xs) = 32"
  unfolding sv_new_eq sv_into_vec_cells sv_contains_cells sv_exists_cells sv_count_cells sv_is_empty_def
  by (cases xs) (auto simp: sv_size_def)

subsection \<open>CircularFilter\<close>

record 'a circular_filter =
  cf_cap :: nat
  cf_buffer :: "'a list"
  cf_filter :: "'a set"

definition cf_new :: "nat \<Rightarrow> 'a circular_filter" where
  "cf_new n = \<lparr> cf_cap = n, cf_buffer = [], cf_filter = {} \<rparr>"

text \<open>\<open>CircularBuffer::from([x])\<close> keeps the last \<open>N\<close> elements of the array.\<close>

definition cf_one :: "nat \<Rightarrow> 'a \<Rightarrow> 'a circular_filter" where
  "cf_one n x = \<lparr> cf_cap = n, cf_buffer = (if n = 0 then [] else [x]), cf_filter = {x} \<rparr>"

definition cf_add :: "'a \<Rightarrow> 'a circular_filter \<Rightarrow> 'a option \<times> 'a circular_filter" where
  "cf_add a f =
     (if a \<in> cf_filter f then (None, f)
      else
        (let f1 = f\<lparr>cf_filter := insert a (cf_filter f)\<rparr>
         in if length (cf_buffer f1) < cf_cap f1 then (None, f1\<lparr>cf_buffer := cf_buffer f1 @ [a]\<rparr>)
            else
              (case cf_buffer f1 of
                 [] \<Rightarrow> (None, f1)
               | evicted # rest \<Rightarrow>
                   (Some evicted,
                    f1\<lparr>cf_filter := cf_filter f1 - {evicted}, cf_buffer := rest @ [a]\<rparr>))))"

definition cf_remove :: "'a \<Rightarrow> 'a circular_filter \<Rightarrow> bool \<times> 'a circular_filter" where
  "cf_remove a f = (a \<in> cf_filter f, f\<lparr>cf_filter := cf_filter f - {a}\<rparr>)"

definition cf_back :: "'a circular_filter \<Rightarrow> 'a option" where
  "cf_back f = (if cf_buffer f = [] then None else Some (last (cf_buffer f)))"

definition cf_pop_back :: "'a circular_filter \<Rightarrow> 'a option \<times> 'a circular_filter" where
  "cf_pop_back f =
     (if cf_buffer f = [] then (None, f)
      else
        (let x = last (cf_buffer f)
         in (Some x, f\<lparr>cf_buffer := butlast (cf_buffer f), cf_filter := cf_filter f - {x}\<rparr>)))"

definition cf_contains :: "'a \<Rightarrow> 'a circular_filter \<Rightarrow> bool" where
  "cf_contains a f = (a \<in> cf_filter f)"

definition cf_wf :: "'a circular_filter \<Rightarrow> bool" where
  "cf_wf f \<longleftrightarrow>
     0 < cf_cap f \<and> length (cf_buffer f) \<le> cf_cap f \<and> distinct (cf_buffer f) \<and>
     set (cf_buffer f) = cf_filter f"

lemma cf_wf_pop_back:
  assumes "cf_wf f"
  shows "cf_wf (snd (cf_pop_back f))"
proof (cases "cf_buffer f" rule: rev_cases)
  case Nil
  then show ?thesis using assms by (simp add: cf_pop_back_def)
next
  case (snoc ys y)
  then have "snd (cf_pop_back f) = f\<lparr>cf_buffer := ys, cf_filter := cf_filter f - {y}\<rparr>"
    by (simp add: cf_pop_back_def Let_def)
  moreover have "cf_filter f = insert y (set ys)" "y \<notin> set ys"
    using assms snoc by (auto simp: cf_wf_def)
  ultimately show ?thesis using assms snoc by (simp add: cf_wf_def)
qed

lemma cf_add_eq:
  assumes "cf_wf f"
  shows "cf_add a f =
       (if cf_contains a f then (None, f)
        else if length (cf_buffer f) < cf_cap f
        then (None, f\<lparr>cf_buffer := cf_buffer f @ [a], cf_filter := insert a (cf_filter f)\<rparr>)
        else (Some (hd (cf_buffer f)),
              f\<lparr>cf_buffer := tl (cf_buffer f) @ [a],
                cf_filter := insert a (cf_filter f - {hd (cf_buffer f)})\<rparr>))"
proof (cases "cf_buffer f")
  case Nil
  then show ?thesis using assms by (simp add: cf_wf_def cf_add_def cf_contains_def)
next
  case (Cons e rest)
  then have "e \<in> cf_filter f" using assms by (auto simp: cf_wf_def)
  then show ?thesis
    using Cons by (simp add: cf_add_def cf_contains_def insert_Diff_if)
qed

lemma cf_wf_add:
  assumes "cf_wf f"
  shows "cf_wf (snd (cf_add a f)) \<and> cf_contains a (snd (cf_add a f))"
proof (cases "a \<in> cf_filter f \<or> length (cf_buffer f) < cf_cap f")
  case True
  then show ?thesis using assms by (auto simp: cf_add_eq [OF assms] cf_contains_def cf_wf_def)
next
  case False
  then obtain e rest where e: "cf_buffer f = e # rest"
    using assms by (cases "cf_buffer f") (auto simp: cf_wf_def)
  then have "cf_filter f = insert e (set rest)" "e \<notin> set rest" "distinct rest"
    "Suc (length rest) \<le> cf_cap f" "0 < cf_cap f"
    using assms by (auto simp: cf_wf_def)
  then show ?thesis using False e by (simp add: cf_add_eq [OF assms] cf_contains_def cf_wf_def)
qed

text \<open>
  While elements only come in through \<open>add\<close> and leave through eviction and \<open>pop_back\<close>,
  the filter holds exactly the elements of its ring buffer, at most \<open>N\<close> of them; a full filter
  evicts and returns its oldest element when a new one is added, and a known element changes
  nothing.
\<close>
theorem circular_filter_add:
  assumes "cf_wf f"
  shows "cf_wf (snd (cf_add a f)) \<and> cf_contains a (snd (cf_add a f)) \<and> cf_wf (snd (cf_pop_back f)) \<and>
     cf_add a f =
       (if cf_contains a f then (None, f)
        else if length (cf_buffer f) < cf_cap f
        then (None, f\<lparr>cf_buffer := cf_buffer f @ [a], cf_filter := insert a (cf_filter f)\<rparr>)
        else (Some (hd (cf_buffer f)),
              f\<lparr>cf_buffer := tl (cf_buffer f) @ [a],
                cf_filter := insert a (cf_filter f - {hd (cf_buffer f)})\<rparr>))"
  using cf_wf_pop_back [OF assms] cf_add_eq [OF assms] cf_wf_add [OF assms] by blast

theorem circular_filter_add_witness:
  "cf_add (3 :: nat) \<lparr> cf_cap = 2, cf_buffer = [1, 2], cf_filter = {1, 2} \<rparr> =
     (Some 1, \<lparr> cf_cap = 2, cf_buffer = [2, 3], cf_filter = {2, 3} \<rparr>)"
  using circular_filter_add [of "\<lparr> cf_cap = 2, cf_buffer = [1, 2], cf_filter = {1, 2 :: nat} \<rparr>" 3]
  by (auto simp: cf_wf_def cf_contains_def)

text \<open>
  \<open>remove\<close> forgets an element in the filter and leaves it in the ring buffer: when it is
  added again, the buffer holds it twice, and the eviction of the stale copy drops the live
  element although a younger copy is still in the buffer.
\<close>
theorem circular_filter_remove_then_add:
  assumes "cf_wf f" "cf_buffer f = a # rest" "length (cf_buffer f) < cf_cap f"
    "b \<notin> cf_filter f" "length (a # rest) + 1 = cf_cap f"
  shows "(let f1 = snd (cf_add a (snd (cf_remove a f))); f2 = snd (cf_add b f1)
          in cf_contains a f1 \<and> cf_buffer f2 = rest @ [a, b] \<and> \<not> cf_contains a f2)"
proof -
  let ?f1 = "f\<lparr>cf_filter := insert a (cf_filter f - {a}), cf_buffer := (a # rest) @ [a]\<rparr>"
  have f1: "snd (cf_add a (snd (cf_remove a f))) = ?f1"
    using assms(2,3) by (simp add: cf_remove_def cf_add_def)
  have "b \<noteq> a" using assms by (auto simp: cf_wf_def)
  then have "snd (cf_add b ?f1) =
      ?f1\<lparr>cf_filter := insert b (cf_filter ?f1) - {a}, cf_buffer := rest @ [a, b]\<rparr>"
    using assms(4,5) by (simp add: cf_add_def)
  then show ?thesis using \<open>b \<noteq> a\<close> by (simp add: f1 cf_contains_def)
qed

theorem circular_filter_remove_then_add_witness:
  "let f = \<lparr> cf_cap = 3, cf_buffer = [1 :: nat, 2], cf_filter = {1, 2} \<rparr>;
       f1 = snd (cf_add 1 (snd (cf_remove 1 f))); f2 = snd (cf_add 9 f1)
   in cf_contains 1 f1 \<and> cf_buffer f2 = [2, 1, 9] \<and> \<not> cf_contains 1 f2"
  using circular_filter_remove_then_add [of "\<lparr> cf_cap = 3, cf_buffer = [1 :: nat, 2], cf_filter = {1, 2} \<rparr>" 1 "[2]" 9]
  by (simp add: cf_wf_def Let_def insert_commute)

subsection \<open>Ior\<close>

datatype ('a, 'b) ior = Left 'a | Right 'b | Both 'a 'b

fun ior_swap :: "('a, 'b) ior \<Rightarrow> ('b, 'a) ior" where
  "ior_swap (Left a) = Right a"
| "ior_swap (Right b) = Left b"
| "ior_swap (Both a b) = Both b a"

fun ior_bimap :: "('a \<Rightarrow> 'c) \<Rightarrow> ('b \<Rightarrow> 'd) \<Rightarrow> ('a, 'b) ior \<Rightarrow> ('c, 'd) ior" where
  "ior_bimap f g (Left a) = Left (f a)"
| "ior_bimap f g (Right b) = Right (g b)"
| "ior_bimap f g (Both a b) = Both (f a) (g b)"

fun ior_inspect :: "('a \<Rightarrow> bool) \<Rightarrow> ('a, 'a) ior \<Rightarrow> bool" where
  "ior_inspect p (Left a) = p a"
| "ior_inspect p (Right b) = p b"
| "ior_inspect p (Both a b) = (p a \<and> p b)"

fun ior_try_from :: "'a option \<times> 'b option \<Rightarrow> ('a, 'b) ior option" where
  "ior_try_from (Some l, Some r) = Some (Both l r)"
| "ior_try_from (Some l, None) = Some (Left l)"
| "ior_try_from (None, Some r) = Some (Right r)"
| "ior_try_from (None, None) = None"

fun ior_stable_id :: "('a \<Rightarrow> 'id) \<Rightarrow> ('a, 'a) ior \<Rightarrow> 'id" where
  "ior_stable_id sid (Left a) = sid a"
| "ior_stable_id sid (Right b) = sid b"
| "ior_stable_id sid (Both a b) = sid a"

fun ior_is_quasi_permanent :: "('a \<Rightarrow> bool) \<Rightarrow> ('a, 'a) ior \<Rightarrow> bool" where
  "ior_is_quasi_permanent qp (Left a) = qp a"
| "ior_is_quasi_permanent qp (Right b) = qp b"
| "ior_is_quasi_permanent qp (Both a b) = qp a"

lemma ior_swap_swap [simp]: "ior_swap (ior_swap x) = x"
  by (cases x) auto

lemma ior_swap_bimap: "ior_swap (ior_bimap f g x) = ior_bimap g f (ior_swap x)"
  by (cases x) auto

lemma ior_try_from_swap: "ior_try_from (b, a) = map_option ior_swap (ior_try_from (a, b))"
  by (cases a; cases b) auto

end
