(* ===== verification/Rocks.thy ===== *)
theory Rocks
  imports Prelude "HOL-Library.AList"
begin

text \<open>
  The interface of the key-value database. RocksDB is third-party code, so its operations
  are a parameter of every definition that uses it: a record over the type of database states
  \<open>'s\<close> and the type of column families \<open>'cf\<close> (\<open>unit\<close> where the source uses the default
  family only). The locale \<open>rocksdb\<close> states the documented behaviour the program relies on:
  a get returns what the last put of the key wrote, a delete removes the key, families are
  independent, and an iterator bounded to a prefix yields the stored pairs with that prefix
  from a given key on, in ascending bytewise order of the keys.

  A RocksDB transaction reads its own writes and publishes them on commit, so a transaction
  body is the same operations on a working copy of the state.
\<close>

record ('s, 'cf) rocks =
  r_get :: "'s \<Rightarrow> 'cf \<Rightarrow> bytes \<Rightarrow> bytes option"
  r_put :: "'s \<Rightarrow> 'cf \<Rightarrow> bytes \<Rightarrow> bytes \<Rightarrow> 's"
  r_del :: "'s \<Rightarrow> 'cf \<Rightarrow> bytes \<Rightarrow> 's"
  r_iter :: "'s \<Rightarrow> 'cf \<Rightarrow> bytes \<Rightarrow> bytes \<Rightarrow> (bytes \<times> bytes) list"

locale rocksdb =
  fixes db :: "('s, 'cf) rocks"
  assumes get_put: "r_get db (r_put db s cf k v) cf' k' =
      (if cf' = cf \<and> k' = k then Some v else r_get db s cf' k')"
    and get_del: "r_get db (r_del db s cf k) cf' k' =
      (if cf' = cf \<and> k' = k then None else r_get db s cf' k')"
    and iter_set: "set (r_iter db s cf p f) = {(k, v). r_get db s cf k = Some v \<and> prefix p k \<and> f \<le> k}"
    and iter_sorted: "sorted_wrt (<) (map fst (r_iter db s cf p f))"
begin

lemma iter_distinct: "distinct (map fst (r_iter db s cf p f))"
  using iter_sorted [of s cf p f] strict_sorted_iff by blast

lemma iter_keys: "fst ` set (r_iter db s cf p f) = {k. r_get db s cf k \<noteq> None \<and> prefix p k \<and> f \<le> k}"
  by (force simp: iter_set)

lemma iter_get: "(k, v) \<in> set (r_iter db s cf p f) \<Longrightarrow> r_get db s cf k = Some v"
  by (simp add: iter_set)

text \<open>Two stores that answer every get alike iterate alike.\<close>

lemma iter_cong:
  assumes "\<And>k. r_get db s cf k = r_get db s' cf' k"
  shows "r_iter db s cf p f = r_iter db s' cf' p f"
proof -
  have keys: "map fst (r_iter db s cf p f) = map fst (r_iter db s' cf' p f)"
    by (rule sorted_distinct_set_unique)
      (use iter_sorted [of s cf p f] iter_sorted [of s' cf' p f] assms
        in \<open>simp_all add: strict_sorted_iff iter_keys\<close>)
  have "the (r_get db s cf (fst kv)) = snd kv" if "kv \<in> set (r_iter db s cf p f)" for kv
    using that iter_get [of "fst kv" "snd kv"] by simp
  then have 1: "r_iter db s cf p f =
      map (\<lambda>k. (k, the (r_get db s cf k))) (map fst (r_iter db s cf p f))"
    by (simp add: map_idI)
  have "the (r_get db s' cf' (fst kv)) = snd kv" if "kv \<in> set (r_iter db s' cf' p f)" for kv
    using that iter_get [of "fst kv" "snd kv" s' cf'] by simp
  then have 2: "r_iter db s' cf' p f =
      map (\<lambda>k. (k, the (r_get db s' cf' k))) (map fst (r_iter db s' cf' p f))"
    by (simp add: map_idI)
  show ?thesis
    by (subst 1, subst 2) (simp add: keys [simplified] assms)
qed

end

subsection \<open>A reference store\<close>

text \<open>
  Association lists per family, read with \<open>map_of\<close>; the iterator sorts the keys. It
  satisfies the laws, so they are consistent, and every witness of the development runs on it.
\<close>

type_synonym 'cf assoc_store = "'cf \<Rightarrow> (bytes \<times> bytes) list"

definition assoc_iter :: "'cf assoc_store \<Rightarrow> 'cf \<Rightarrow> bytes \<Rightarrow> bytes \<Rightarrow> (bytes \<times> bytes) list" where
  "assoc_iter s cf p f =
     map (\<lambda>k. (k, the (map_of (s cf) k)))
       (filter (\<lambda>k. prefix p k \<and> f \<le> k) (sort (remdups (map fst (s cf)))))"

definition assoc_rocks :: "('cf assoc_store, 'cf) rocks" where
  "assoc_rocks = \<lparr>
     r_get = (\<lambda>s cf k. map_of (s cf) k),
     r_put = (\<lambda>s cf k v. s(cf := AList.update k v (s cf))),
     r_del = (\<lambda>s cf k. s(cf := AList.delete k (s cf))),
     r_iter = assoc_iter \<rparr>"

lemma assoc_iter_keys:
  "map fst (assoc_iter s cf p f) =
     filter (\<lambda>k. prefix p k \<and> f \<le> k) (sort (remdups (map fst (s cf))))"
  by (simp add: assoc_iter_def comp_def)

interpretation assoc: rocksdb assoc_rocks
proof (unfold_locales, goal_cases)
  case (1 s cf k v cf' k')
  show ?case by (simp add: assoc_rocks_def update_conv')
next
  case (2 s cf k cf' k')
  show ?case by (simp add: assoc_rocks_def delete_conv')
next
  case (3 s cf p f)
  show ?case
    by (auto simp: assoc_rocks_def assoc_iter_def dom_map_of_conv_image_fst [symmetric] domIff
        dest: map_of_SomeD)
next
  case (4 s cf p f)
  show ?case
    by (simp add: assoc_rocks_def assoc_iter_keys strict_sorted_iff sorted_wrt_filter)
qed

definition empty_store :: "'cf assoc_store" where
  "empty_store = (\<lambda>_. [])"

lemma get_empty_store: "r_get assoc_rocks empty_store cf k = None"
  by (simp add: assoc_rocks_def empty_store_def)

end
