(* ===== verification/Utxo_Index.thy ===== *)
theory Utxo_Index
  imports Cardano_Types Rocks
begin

text \<open>
  The write side of the UTxO index, src/index.rs: the column families, the key layout of the
  secondary indexes, the row of the \<open>txo\<close> table and the transactions \<open>apply\<close> and
  \<open>unapply\<close>. The environment bundles the third-party parameters: the database and the
  serialisers (MessagePack for rows and output references, CBOR for outputs, hexadecimal for
  hashes and asset names).
\<close>

datatype cf = TxoCf | PaymentEventsCf | PaymentUnspentCf | StakeEventsCf | StakeUnspentCf | UnitUnspentCf

datatype credential_kind = Payment | Stake

type_synonym txo_row = "tx_output \<times> slot option \<times> bool"

record 's env =
  rdb :: "('s, cf) rocks"
  mp_str :: "str \<Rightarrow> bytes"
  mp_str_dec :: "bytes \<Rightarrow> str option"
  mp_row :: "bytes \<times> slot option \<times> bool \<Rightarrow> bytes"
  mp_row_dec :: "bytes \<Rightarrow> (bytes \<times> slot option \<times> bool) option"
  cbor_out :: "tx_output \<Rightarrow> bytes"
  cbor_out_dec :: "bytes \<Rightarrow> tx_output option"
  hash_hex :: "hash32 \<Rightarrow> str"
  hash_unhex :: "str \<Rightarrow> hash32 option"
  policy_hex :: "hash28 \<Rightarrow> str"
  asset_hex :: "bytes \<Rightarrow> str"

subsection \<open>Column families and keys\<close>

fun index_cfs :: "credential_kind \<Rightarrow> cf \<times> cf" where
  "index_cfs Payment = (PaymentEventsCf, PaymentUnspentCf)"
| "index_cfs Stake = (StakeEventsCf, StakeUnspentCf)"

definition utxo_key :: "'s env \<Rightarrow> output_ref \<Rightarrow> bytes" where
  "utxo_key E rf = mp_str E (output_ref_display (hash_hex E) rf)"

text \<open>\<open>rmp_serde::from_slice::<OutputRef>(..).unwrap()\<close>: every failure is a panic.\<close>

definition utxo_key_dec :: "'s env \<Rightarrow> bytes \<Rightarrow> output_ref option" where
  "utxo_key_dec E k =
     (case mp_str_dec E k of
        None \<Rightarrow> None
      | Some s \<Rightarrow>
          (case output_ref_from_str (hash_unhex E) s of
             Some (Inr r) \<Rightarrow> Some r
           | _ \<Rightarrow> None))"

fun credential_tag_and_bytes :: "credential \<Rightarrow> byte \<times> bytes" where
  "credential_tag_and_bytes (PubKey h) = (0, hash28_bytes h)"
| "credential_tag_and_bytes (Script h) = (1, hash28_bytes h)"

definition credential_key_prefix :: "credential \<Rightarrow> bytes" where
  "credential_key_prefix cr = (case credential_tag_and_bytes cr of (tag, bs) \<Rightarrow> tag # bs)"

definition settled_at_key :: "slot option \<Rightarrow> bytes" where
  "settled_at_key settled_at =
     u64_to_be_bytes (case settled_at of None \<Rightarrow> u64_max | Some sl \<Rightarrow> sl)"

definition credential_to_utxo_all_key ::
    "'s env \<Rightarrow> credential \<Rightarrow> slot option \<Rightarrow> output_ref \<Rightarrow> bytes" where
  "credential_to_utxo_all_key E cr settled_at rf =
     credential_key_prefix cr @ settled_at_key settled_at @ utxo_key E rf"

definition credential_to_utxo_unspent_key :: "'s env \<Rightarrow> credential \<Rightarrow> output_ref \<Rightarrow> bytes" where
  "credential_to_utxo_unspent_key E cr rf = credential_key_prefix cr @ utxo_key E rf"

definition unit_index_sentinel :: byte where
  "unit_index_sentinel = 0"

definition unit_index_key_prefix :: "str \<Rightarrow> bytes" where
  "unit_index_key_prefix un = un"

definition unit_index_entry_key :: "'s env \<Rightarrow> bytes \<Rightarrow> output_ref \<Rightarrow> bytes" where
  "unit_index_entry_key E p oref = p @ utxo_key E oref"

definition unit_index_sentinel_key :: "bytes \<Rightarrow> bytes" where
  "unit_index_sentinel_key p = p @ [unit_index_sentinel]"

subsection \<open>Units and credentials of an output\<close>

definition ascii_lower :: "byte \<Rightarrow> byte" where
  "ascii_lower b = (if 65 \<le> b \<and> b \<le> 90 then b + 32 else b)"

definition to_ascii_lowercase :: "str \<Rightarrow> str" where
  "to_ascii_lowercase s = map ascii_lower s"

definition output_units :: "'s env \<Rightarrow> tx_output \<Rightarrow> str list" where
  "output_units E out =
     concat (map (\<lambda>(policy_id, assets).
        map (\<lambda>(asset_name, _). to_ascii_lowercase (policy_hex E policy_id @ asset_hex E asset_name))
          assets) (multiasset (output_value out)))"

definition output_contains_unit :: "'s env \<Rightarrow> tx_output \<Rightarrow> str \<Rightarrow> bool" where
  "output_contains_unit E out un = list_ex (\<lambda>candidate. candidate = to_ascii_lowercase un) (output_units E out)"

fun address_credentials :: "address \<Rightarrow> (credential_kind \<times> credential) list" where
  "address_credentials (Base pay stk) = [(Payment, pay), (Stake, stk)]"
| "address_credentials (Enterprise pay) = [(Payment, pay)]"
| "address_credentials (Ptr pay) = [(Payment, pay)]"
| "address_credentials (Reward pay) = [(Stake, pay)]"
| "address_credentials Byron = []"

abbreviation output_credentials :: "tx_output \<Rightarrow> (credential_kind \<times> credential) list" where
  "output_credentials out \<equiv> address_credentials (output_address out)"

subsection \<open>Reads and writes inside a transaction\<close>

definition decode_row :: "'s env \<Rightarrow> bytes \<Rightarrow> txo_row option" where
  "decode_row E bs =
     (case mp_row_dec E bs of
        None \<Rightarrow> None
      | Some (utxo_bytes, settled_at, spent) \<Rightarrow>
          map_option (\<lambda>out. (out, settled_at, spent)) (cbor_out_dec E utxo_bytes))"

definition get_utxo_by_ref :: "'s env \<Rightarrow> 's \<Rightarrow> output_ref \<Rightarrow> txo_row option" where
  "get_utxo_by_ref E tx output_ref =
     Option.bind (r_get (rdb E) tx TxoCf (utxo_key E output_ref)) (decode_row E)"

definition write_txo :: "'s env \<Rightarrow> 's \<Rightarrow> output_ref \<Rightarrow> tx_output \<Rightarrow> slot option \<Rightarrow> bool \<Rightarrow> 's" where
  "write_txo E tx oref txo settled_at spent =
     r_put (rdb E) tx TxoCf (utxo_key E oref) (mp_row E (cbor_out E txo, settled_at, spent))"

definition write_unit_indexes :: "'s env \<Rightarrow> 's \<Rightarrow> tx_output \<Rightarrow> output_ref \<Rightarrow> 's" where
  "write_unit_indexes E tx out oref =
     fold (\<lambda>un tx.
        let p = unit_index_key_prefix un;
            tx1 = r_del (rdb E) tx UnitUnspentCf (unit_index_sentinel_key p)
        in r_put (rdb E) tx1 UnitUnspentCf (unit_index_entry_key E p oref) [])
      (output_units E out) tx"

definition delete_unit_indexes :: "'s env \<Rightarrow> 's \<Rightarrow> tx_output \<Rightarrow> output_ref \<Rightarrow> 's" where
  "delete_unit_indexes E tx out oref =
     fold (\<lambda>un tx.
        r_del (rdb E) tx UnitUnspentCf (unit_index_entry_key E (unit_index_key_prefix un) oref))
      (output_units E out) tx"

definition write_secondary_indexes ::
    "'s env \<Rightarrow> 's \<Rightarrow> cf \<Rightarrow> cf \<Rightarrow> credential \<Rightarrow> output_ref \<Rightarrow> slot option \<Rightarrow> bool \<Rightarrow> 's" where
  "write_secondary_indexes E tx events_cf unspent_cf cr oref sl spent =
     (let tx1 = r_put (rdb E) tx events_cf (credential_to_utxo_all_key E cr sl oref) []
      in if \<not> spent then r_put (rdb E) tx1 unspent_cf (credential_to_utxo_unspent_key E cr oref) []
         else tx1)"

definition delete_indexes ::
    "'s env \<Rightarrow> 's \<Rightarrow> cf \<Rightarrow> cf \<Rightarrow> credential \<Rightarrow> slot option \<Rightarrow> output_ref \<Rightarrow> 's" where
  "delete_indexes E tx events_cf unspent_cf cr settled_at oref =
     (let tx1 = r_del (rdb E) tx events_cf (credential_to_utxo_all_key E cr settled_at oref)
      in r_del (rdb E) tx1 unspent_cf (credential_to_utxo_unspent_key E cr oref))"

definition delete_all_indexes ::
    "'s env \<Rightarrow> (credential_kind \<times> credential) list \<Rightarrow> slot option \<Rightarrow> output_ref \<Rightarrow> 's \<Rightarrow> 's" where
  "delete_all_indexes E credentials settled_at oref =
     fold (\<lambda>(kind, cr) tx.
        case index_cfs kind of (events_cf, unspent_cf) \<Rightarrow>
          delete_indexes E tx events_cf unspent_cf cr settled_at oref) credentials"

definition write_all_indexes ::
    "'s env \<Rightarrow> (credential_kind \<times> credential) list \<Rightarrow> output_ref \<Rightarrow> slot option \<Rightarrow> bool \<Rightarrow> 's \<Rightarrow> 's" where
  "write_all_indexes E credentials oref sl spent =
     fold (\<lambda>(kind, cr) tx.
        case index_cfs kind of (events_cf, unspent_cf) \<Rightarrow>
          write_secondary_indexes E tx events_cf unspent_cf cr oref sl spent) credentials"

definition update_unspent_txo ::
    "'s env \<Rightarrow> 's \<Rightarrow> output_ref \<Rightarrow> tx_output \<Rightarrow> slot option \<Rightarrow> 's" where
  "update_unspent_txo E tx oref txo settled_at =
     (let credentials = output_credentials txo;
          (tx1, spent) =
            (case get_utxo_by_ref E tx oref of
               Some (existing_out, existing_settled_at, existing_spent) \<Rightarrow>
                 (r_del (rdb E)
                    (delete_unit_indexes E
                       (delete_all_indexes E (output_credentials existing_out) existing_settled_at oref tx)
                       existing_out oref)
                    TxoCf (utxo_key E oref),
                  existing_spent)
             | None \<Rightarrow> (tx, False));
          tx2 = write_all_indexes E credentials oref settled_at spent tx1;
          tx3 = (if \<not> spent then write_unit_indexes E tx2 txo oref else tx2)
      in write_txo E tx3 oref txo settled_at spent)"

definition reindex_credentials ::
    "'s env \<Rightarrow> (credential_kind \<times> credential) list \<Rightarrow> slot option \<Rightarrow> output_ref \<Rightarrow> slot option \<Rightarrow> bool \<Rightarrow>
     's \<Rightarrow> 's" where
  "reindex_credentials E credentials settled_at oref sl spent =
     fold (\<lambda>(kind, cr) tx.
        case index_cfs kind of (events_cf, unspent_cf) \<Rightarrow>
          let tx' = delete_indexes E tx events_cf unspent_cf cr settled_at oref;
              (index_slot, index_spent) = (if spent then (sl, True) else (settled_at, False))
          in write_secondary_indexes E tx' events_cf unspent_cf cr oref index_slot index_spent)
       credentials"

definition update_txo_by_ref ::
    "'s env \<Rightarrow> 's \<Rightarrow> output_ref \<Rightarrow> slot option \<Rightarrow> bool \<Rightarrow> 's" where
  "update_txo_by_ref E tx oref sl spent =
     (case get_utxo_by_ref E tx oref of
        Some (out, settled_at, already_spent) \<Rightarrow>
          (let credentials = output_credentials out;
               tx1 = reindex_credentials E credentials settled_at oref sl spent tx;
               tx2 = delete_unit_indexes E tx1 out oref;
               tx3 = (if \<not> spent then write_unit_indexes E tx2 out oref else tx2)
           in write_txo E tx3 oref out settled_at spent)
      | None \<Rightarrow> tx)"

definition delete_txo_and_indexes :: "'s env \<Rightarrow> 's \<Rightarrow> output_ref \<Rightarrow> 's" where
  "delete_txo_and_indexes E tx oref =
     (case get_utxo_by_ref E tx oref of
        Some (out, settled_at, spent) \<Rightarrow>
          r_del (rdb E)
            (delete_unit_indexes E
               (delete_all_indexes E (output_credentials out) settled_at oref tx) out oref)
            TxoCf (utxo_key E oref)
      | None \<Rightarrow> tx)"

definition index_apply ::
    "'s env \<Rightarrow> hash32 \<Rightarrow> output_ref list \<Rightarrow> (nat \<times> tx_output) list \<Rightarrow> slot option \<Rightarrow> 's \<Rightarrow> 's" where
  "index_apply E txh inputs outputs confirmed_at s =
     (let tx1 = fold (\<lambda>oref tx. update_txo_by_ref E tx oref confirmed_at True) inputs s
      in fold (\<lambda>(ix, out) tx. update_unspent_txo E tx (OutputRef txh (word_of_nat ix)) out confirmed_at)
           outputs tx1)"

definition index_unapply ::
    "'s env \<Rightarrow> hash32 \<Rightarrow> output_ref list \<Rightarrow> (nat \<times> tx_output) list \<Rightarrow> 's \<Rightarrow> 's" where
  "index_unapply E txh inputs outputs s =
     (let tx1 = fold (\<lambda>oref tx. update_txo_by_ref E tx oref None False) inputs s
      in fold (\<lambda>(ix, out) tx. delete_txo_and_indexes E tx (OutputRef txh (word_of_nat ix))) outputs tx1)"

end
