(* ===== verification/Ledger_Events.thy ===== *)
theory Ledger_Events
  imports Assets Collections Utxo_Index
begin

text \<open>
  The events that reach the index and what it does with them: transactions of the two supported
  eras and their uniform view (packages/bloom-offchain-cardano/src/event_sink/tx_view.rs), the
  ledger and mempool events (packages/cardano-chain-sync/src/data.rs,
  packages/cardano-mempool-sync/src/data.rs), the minted tokens
  (packages/spectrum-offchain-cardano/src/handler_context.rs) and the handler of
  src/handler.rs with its summary function in src/main.rs.
\<close>

subsection \<open>Transactions\<close>

record tx_input =
  ti_transaction_id :: hash32
  ti_index :: u64

definition output_ref_from_input :: "tx_input \<Rightarrow> output_ref" where
  "output_ref_from_input i = OutputRef (ti_transaction_id i) (ti_index i)"

datatype babbage_script_ref = BNativeScript bytes | BPlutusV1Script bytes | BPlutusV2Script bytes

datatype babbage_output =
    BAlonzoFormatTxOut address tx_value "hash32 option"
  | BabbageFormatTxOut address tx_value "datum_option option" "babbage_script_ref option"

fun babbage_address :: "babbage_output \<Rightarrow> address" where
  "babbage_address (BAlonzoFormatTxOut a v d) = a"
| "babbage_address (BabbageFormatTxOut a v d s) = a"

fun babbage_value :: "babbage_output \<Rightarrow> tx_value" where
  "babbage_value (BAlonzoFormatTxOut a v d) = v"
| "babbage_value (BabbageFormatTxOut a v d s) = v"

fun babbage_datum :: "babbage_output \<Rightarrow> datum_option option" where
  "babbage_datum (BAlonzoFormatTxOut a v d) = map_option DatumHash d"
| "babbage_datum (BabbageFormatTxOut a v d s) = d"

fun script_ref_upcast :: "babbage_script_ref \<Rightarrow> script_ref" where
  "script_ref_upcast (BNativeScript bs) = NativeScript bs"
| "script_ref_upcast (BPlutusV1Script bs) = PlutusV1Script bs"
| "script_ref_upcast (BPlutusV2Script bs) = PlutusV2Script bs"

fun output_upcast :: "babbage_output \<Rightarrow> tx_output" where
  "output_upcast (BAlonzoFormatTxOut a v d) = AlonzoFormatTxOut a v d"
| "output_upcast (BabbageFormatTxOut a v d s) = ConwayFormatTxOut a v d (map_option script_ref_upcast s)"

type_synonym mint = "(hash28 \<times> (bytes \<times> int) list) list"

record 'out tx_body =
  tb_inputs :: "tx_input list"
  tb_outputs :: "'out list"
  tb_mint :: "mint option"

datatype babbage_aux = ShelleyAux bytes | ShelleyMAAux bytes | BabbageAux "bytes option"

record ('out, 'aux) transaction =
  tr_body :: "'out tx_body"
  tr_vkeys :: "bytes list option"
  tr_is_valid :: bool
  tr_aux :: "'aux option"

type_synonym babbage_transaction = "(babbage_output, babbage_aux) transaction"
type_synonym conway_transaction = "(tx_output, bytes) transaction"

text \<open>Third-party parts: body serialisation, Blake2b, key hashes and Conway metadata.\<close>

record ledger_lib =
  blake2b256 :: "bytes \<Rightarrow> hash32"
  babbage_body_cbor :: "babbage_output tx_body \<Rightarrow> bytes"
  conway_body_cbor :: "tx_output tx_body \<Rightarrow> bytes"
  vkey_hash :: "bytes \<Rightarrow> hash28"
  aux_metadata :: "bytes \<Rightarrow> bytes option"

definition hash_transaction_canonical :: "ledger_lib \<Rightarrow> ('body \<Rightarrow> bytes) \<Rightarrow> 'body \<Rightarrow> hash32" where
  "hash_transaction_canonical lb to_cbor_bytes tx_body = blake2b256 lb (to_cbor_bytes tx_body)"

text \<open>
  \<open>AssetName::from\<close> unwraps, so a name of more than 32 bytes panics; \<open>SmallVec::new\<close> draws
  one element past its capacity before it stops, and the iterator is lazy.
\<close>

definition mint_tokens :: "mint \<Rightarrow> token option list" where
  "mint_tokens m =
     concat (map (\<lambda>(pol, v). map (\<lambda>(tn, _). map_option (Token pol) (an_from_cml tn)) v) m)"

definition mints_from :: "mint \<Rightarrow> token small_vec option" where
  "mints_from m =
     (let drawn = take (sv_size + 1) (mint_tokens m)
      in if list_all (\<lambda>t. t \<noteq> None) drawn then Some (sv_new (map the drawn)) else None)"

definition contains_mint :: "token small_vec \<Rightarrow> hash28 \<Rightarrow> bool" where
  "contains_mint ms pol = sv_exists (\<lambda>t. tk_policy t = pol) ms"

subsection \<open>The view of a transaction\<close>

record tx_view_mut =
  tv_hash :: hash32
  tv_inputs :: "tx_input list"
  tv_outputs :: "(nat \<times> tx_output) list"
  tv_metadata :: "bytes option"
  tv_mints :: "token small_vec option"
  tv_signers :: "hash28 list"

definition signers_of :: "ledger_lib \<Rightarrow> bytes list option \<Rightarrow> hash28 list" where
  "signers_of lb vkeys = (case vkeys of Some vks \<Rightarrow> map (vkey_hash lb) vks | None \<Rightarrow> [])"

definition opt_mints :: "mint option \<Rightarrow> token small_vec option option" where
  "opt_mints m = (case m of None \<Rightarrow> Some None | Some inner \<Rightarrow> map_option Some (mints_from inner))"

definition tx_view_from_conway :: "ledger_lib \<Rightarrow> conway_transaction \<Rightarrow> tx_view_mut option" where
  "tx_view_from_conway lb tx =
     map_option (\<lambda>ms.
       \<lparr> tv_hash = hash_transaction_canonical lb (conway_body_cbor lb) (tr_body tx),
         tv_inputs = tb_inputs (tr_body tx),
         tv_outputs = enumerate 0 (tb_outputs (tr_body tx)),
         tv_metadata = Option.bind (tr_aux tx) (aux_metadata lb),
         tv_mints = ms,
         tv_signers = signers_of lb (tr_vkeys tx) \<rparr>) (opt_mints (tb_mint (tr_body tx)))"

definition babbage_metadata :: "babbage_aux \<Rightarrow> bytes option" where
  "babbage_metadata aux_data =
     (case aux_data of
        ShelleyAux shelley \<Rightarrow> Some shelley
      | ShelleyMAAux shelley_ma \<Rightarrow> Some shelley_ma
      | BabbageAux metadata \<Rightarrow> metadata)"

definition tx_view_from_babbage :: "ledger_lib \<Rightarrow> babbage_transaction \<Rightarrow> tx_view_mut option" where
  "tx_view_from_babbage lb tx =
     map_option (\<lambda>ms.
       \<lparr> tv_hash = hash_transaction_canonical lb (babbage_body_cbor lb) (tr_body tx),
         tv_inputs = tb_inputs (tr_body tx),
         tv_outputs = enumerate 0
           (map (\<lambda>out. ConwayFormatTxOut (babbage_address out) (babbage_value out) (babbage_datum out) None)
              (tb_outputs (tr_body tx))),
         tv_metadata = Option.bind (tr_aux tx) babbage_metadata,
         tv_mints = ms,
         tv_signers = signers_of lb (tr_vkeys tx) \<rparr>) (opt_mints (tb_mint (tr_body tx)))"

definition tx_view_from :: "ledger_lib \<Rightarrow> babbage_transaction + conway_transaction \<Rightarrow> tx_view_mut option" where
  "tx_view_from lb tx =
     (case tx of Inl tx \<Rightarrow> tx_view_from_babbage lb tx | Inr tx \<Rightarrow> tx_view_from_conway lb tx)"

subsection \<open>Events\<close>

datatype 'tx ledger_tx_event =
    TxApplied 'tx slot u64 hash32
  | TxUnapplied 'tx slot u64 hash32

datatype 'tx mempool_update = TxAccepted 'tx | TxDropped 'tx

datatype 'blk ledger_block_event = RollForwardBlock 'blk | RollBackwardBlock 'blk

fun ledger_event_map :: "('a \<Rightarrow> 'b) \<Rightarrow> 'a ledger_tx_event \<Rightarrow> 'b ledger_tx_event" where
  "ledger_event_map f (TxApplied tx sl n h) = TxApplied (f tx) sl n h"
| "ledger_event_map f (TxUnapplied tx sl n h) = TxUnapplied (f tx) sl n h"

fun mempool_update_map :: "('a \<Rightarrow> 'b) \<Rightarrow> 'a mempool_update \<Rightarrow> 'b mempool_update" where
  "mempool_update_map f (TxAccepted tx) = TxAccepted (f tx)"
| "mempool_update_map f (TxDropped tx) = TxDropped (f tx)"

fun block_event_map :: "('a \<Rightarrow> 'b) \<Rightarrow> 'a ledger_block_event \<Rightarrow> 'b ledger_block_event" where
  "block_event_map f (RollForwardBlock b) = RollForwardBlock (f b)"
| "block_event_map f (RollBackwardBlock b) = RollBackwardBlock (f b)"

subsection \<open>The handler\<close>

definition handler_apply_tx :: "'s env \<Rightarrow> tx_view_mut \<Rightarrow> slot option \<Rightarrow> 's \<Rightarrow> 's" where
  "handler_apply_tx E tx settled_at s =
     index_apply E (tv_hash tx) (map output_ref_from_input (tv_inputs tx)) (tv_outputs tx) settled_at s"

definition handler_unapply_tx :: "'s env \<Rightarrow> tx_view_mut \<Rightarrow> 's \<Rightarrow> 's" where
  "handler_unapply_tx E tx s =
     index_unapply E (tv_hash tx) (map output_ref_from_input (tv_inputs tx)) (tv_outputs tx) s"

text \<open>\<open>try_handle\<close> consumes the event: it never hands one on to a later handler.\<close>

fun handle_ledger_event ::
    "'s env \<Rightarrow> tx_view_mut ledger_tx_event \<Rightarrow> 's \<Rightarrow> tx_view_mut ledger_tx_event option \<times> 's" where
  "handle_ledger_event E (TxApplied tx sl n h) s = (None, handler_apply_tx E tx (Some sl) s)"
| "handle_ledger_event E (TxUnapplied tx sl n h) s = (None, handler_unapply_tx E tx s)"

fun handle_mempool_update ::
    "'s env \<Rightarrow> tx_view_mut mempool_update \<Rightarrow> 's \<Rightarrow> tx_view_mut mempool_update option \<times> 's" where
  "handle_mempool_update E (TxAccepted tx) s = (None, handler_apply_tx E tx None s)"
| "handle_mempool_update E (TxDropped tx) s = (None, handler_unapply_tx E tx s)"

fun succinct_tx :: "tx_view_mut ledger_tx_event \<Rightarrow> hash32 \<times> u64" where
  "succinct_tx (TxApplied tx sl block_number h) = (tv_hash tx, block_number)"
| "succinct_tx (TxUnapplied tx sl block_number h) = (tv_hash tx, block_number)"

end
