(* ===== verification/Event_Handlers.thy ===== *)
theory Event_Handlers
  imports Ledger_Events
begin

text \<open>
  Event handlers, packages/spectrum-offchain/src/event_sink.rs and event_sink/event_handler.rs,
  and the two handler lists of src/main.rs. A handler takes an event and the state it shares with
  its surroundings (sinks, database) and returns the event when it is to be processed further. A
  sink is the function that sends an item to it; a failed send panics and is not modelled.
\<close>

type_synonym ('w, 'ev) event_handler = "'ev \<Rightarrow> 'w \<Rightarrow> 'ev option \<times> 'w"

definition forward_with :: "('b \<Rightarrow> 'w \<Rightarrow> 'w) \<Rightarrow> ('ev \<Rightarrow> 'b) \<Rightarrow> ('w, 'ev) event_handler" where
  "forward_with send transform ev w = (None, send (transform ev) w)"

definition forward_with_ref :: "('b \<Rightarrow> 'w \<Rightarrow> 'w) \<Rightarrow> ('ev \<Rightarrow> 'b) \<Rightarrow> ('w, 'ev) event_handler" where
  "forward_with_ref send transform ev w = (Some ev, send (transform ev) w)"

text \<open>The state of \<open>try_forward_with\<close> is kept beside the shared one.\<close>

definition try_forward_with ::
    "('b \<Rightarrow> 'w \<Rightarrow> 'w) \<Rightarrow> ('t \<Rightarrow> 'ev \<Rightarrow> ('b \<times> 't) option) \<Rightarrow> ('t \<times> 'w, 'ev) event_handler" where
  "try_forward_with send transform ev tw =
     (case transform (fst tw) ev of
        Some (result, new_state) \<Rightarrow> (Some ev, new_state, send result (snd tw))
      | None \<Rightarrow> (Some ev, tw))"

fun apply_handlers :: "('w, 'ev) event_handler list \<Rightarrow> 'ev option \<Rightarrow> 'w \<Rightarrow> 'w" where
  "apply_handlers [] unhandled_ev w = w"
| "apply_handlers (han # hans) (Some ev) w =
     (let (unhandled_ev, w') = han ev w in apply_handlers hans unhandled_ev w')"
| "apply_handlers (han # hans) None w = w"

text \<open>\<open>then\<close> runs the futures of a stream one after the other.\<close>

definition process_events :: "'ev list \<Rightarrow> ('w, 'ev) event_handler list \<Rightarrow> 'w \<Rightarrow> 'w" where
  "process_events upstream handlers w = fold (\<lambda>ev. apply_handlers handlers (Some ev)) upstream w"

subsection \<open>The handlers of the program\<close>

text \<open>The state they share: the database and the channel of confirmed transactions.\<close>

record 's shared =
  sh_db :: 's
  sh_confirmed :: "(hash32 \<times> u64) list"

definition confirmed_send :: "hash32 \<times> u64 \<Rightarrow> 's shared \<Rightarrow> 's shared" where
  "confirmed_send x w = w\<lparr>sh_confirmed := sh_confirmed w @ [x]\<rparr>"

definition on_db :: "('ev \<Rightarrow> 's \<Rightarrow> 'ev option \<times> 's) \<Rightarrow> ('s shared, 'ev) event_handler" where
  "on_db h ev w = (let (unhandled_ev, db) = h ev (sh_db w) in (unhandled_ev, w\<lparr>sh_db := db\<rparr>))"

definition handlers_ledger :: "'s env \<Rightarrow> ('s shared, tx_view_mut ledger_tx_event) event_handler list" where
  "handlers_ledger E = [forward_with_ref confirmed_send succinct_tx, on_db (handle_ledger_event E)]"

definition handlers_mempool :: "'s env \<Rightarrow> ('s shared, tx_view_mut mempool_update) event_handler list" where
  "handlers_mempool E = [on_db (handle_mempool_update E)]"

lemma handle_ledger_consumes: "fst (handle_ledger_event E ev s) = None"
  by (cases ev) auto

lemma handle_mempool_consumes: "fst (handle_mempool_update E ev s) = None"
  by (cases ev) auto

lemma ledger_handlers_run:
  "apply_handlers (handlers_ledger E) (Some ev) w =
     w\<lparr>sh_db := snd (handle_ledger_event E ev (sh_db w)),
       sh_confirmed := sh_confirmed w @ [succinct_tx ev]\<rparr>"
  by (simp add: handlers_ledger_def forward_with_ref_def confirmed_send_def on_db_def case_prod_beta)

lemma mempool_handlers_run:
  "apply_handlers (handlers_mempool E) (Some ev) w = w\<lparr>sh_db := snd (handle_mempool_update E ev (sh_db w))\<rparr>"
  by (simp add: handlers_mempool_def on_db_def case_prod_beta)


lemma forward_with_ref_run:
  "apply_handlers (forward_with_ref send f # hs) (Some ev) w = apply_handlers hs (Some ev) (send (f ev) w)"
  by (simp add: forward_with_ref_def)

lemma forward_with_run: "apply_handlers (forward_with send f # hs) (Some ev) w = send (f ev) w"
  by (cases hs) (simp_all add: forward_with_def)

lemma try_forward_with_run:
  "apply_handlers (try_forward_with send g # hs) (Some ev) (t, w) =
     (case g t ev of None \<Rightarrow> apply_handlers hs (Some ev) (t, w)
      | Some (b, t') \<Rightarrow> apply_handlers hs (Some ev) (t', send b w))"
  by (simp add: try_forward_with_def split: option.split)

lemma ledger_events_run:
  "process_events evs (handlers_ledger E) \<lparr> sh_db = s, sh_confirmed = c \<rparr> =
     \<lparr> sh_db = fold (\<lambda>ev s. snd (handle_ledger_event E ev s)) evs s, sh_confirmed = c @ map succinct_tx evs \<rparr>"
  by (induction evs arbitrary: s c) (simp_all add: process_events_def ledger_handlers_run)

lemma mempool_events_run:
  "process_events upds (handlers_mempool E) \<lparr> sh_db = s, sh_confirmed = c \<rparr> =
     \<lparr> sh_db = fold (\<lambda>ev s. snd (handle_mempool_update E ev s)) upds s, sh_confirmed = c \<rparr>"
  by (induction upds arbitrary: s c) (simp_all add: process_events_def mempool_handlers_run)

text \<open>
  The event loop runs the handlers in order until one consumes the event: a handler that
  forwards by reference lets every later handler see the event, one that forwards by value or
  the index handler lets none, whatever follows it. On the ledger stream each event therefore
  reaches the tracker's channel exactly once and in order, and is then applied to the index.
\<close>
theorem process_events_handlers:
  "apply_handlers (forward_with_ref send f # hs) (Some ev) w = apply_handlers hs (Some ev) (send (f ev) w) \<and>
   apply_handlers (forward_with send f # hs) (Some ev) w = send (f ev) w \<and>
   process_events evs (handlers_ledger E) \<lparr> sh_db = s, sh_confirmed = c \<rparr> =
     \<lparr> sh_db = fold (\<lambda>ev s. snd (handle_ledger_event E ev s)) evs s, sh_confirmed = c @ map succinct_tx evs \<rparr> \<and>
   process_events upds (handlers_mempool E) \<lparr> sh_db = s, sh_confirmed = c \<rparr> =
     \<lparr> sh_db = fold (\<lambda>ev s. snd (handle_mempool_update E ev s)) upds s, sh_confirmed = c \<rparr>"
  by (intro conjI forward_with_ref_run forward_with_run ledger_events_run mempool_events_run)

end
