(* ===== verification/Tx_Tracker.thy ===== *)
theory Tx_Tracker
  imports Prelude Collections "HOL-Library.AList" "HOL-Library.Sublist" "HOL-Library.Multiset"
begin

text \<open>
  The tracker of pending transactions, packages/spectrum-offchain-cardano/src/tx_tracker: the
  deadline queue (pending_txs.rs) and the agent that feeds it from the mempool and the ledger
  (mod.rs). Hash maps and B-tree maps are
  association lists, the latter in key order; a reading of the clock is a natural number passed
  in. The deadline is computed in 64 bits and wraps, as in a release build.
\<close>

subsection \<open>Pending transactions\<close>

type_synonym instant = nat

type_synonym ('h, 'tx) bucket = "('h \<times> 'tx \<times> instant) list"

record ('h, 'tx) pending_txs =
  pt_delay :: u64
  pt_current :: u64
  pt_index :: "('h \<times> u64) list"
  pt_queue :: "(u64 \<times> ('h, 'tx) bucket) list"

definition pt_new :: "u64 \<Rightarrow> ('h, 'tx) pending_txs" where
  "pt_new delay = \<lparr> pt_delay = delay, pt_current = 0, pt_index = [], pt_queue = [] \<rparr>"

fun queue_insert ::
    "u64 \<Rightarrow> 'h \<Rightarrow> 'tx \<times> instant \<Rightarrow> (u64 \<times> ('h, 'tx) bucket) list \<Rightarrow> (u64 \<times> ('h, 'tx) bucket) list" where
  "queue_insert k tx v [] = [(k, [(tx, v)])]"
| "queue_insert k tx v ((k', b) # q) =
     (if k < k' then (k, [(tx, v)]) # (k', b) # q
      else if k = k' then (k', AList.update tx v b) # q
      else (k', b) # queue_insert k tx v q)"

definition pt_append :: "instant \<Rightarrow> 'h \<Rightarrow> 'tx \<Rightarrow> ('h, 'tx) pending_txs \<Rightarrow> ('h, 'tx) pending_txs" where
  "pt_append now tx trs p =
     (let should_confirm_until = pt_current p + pt_delay p
      in p\<lparr>pt_index := AList.update tx should_confirm_until (pt_index p),
           pt_queue := queue_insert should_confirm_until tx (trs, now) (pt_queue p)\<rparr>)"

fun queue_remove :: "u64 \<Rightarrow> 'h \<Rightarrow> (u64 \<times> ('h, 'tx) bucket) list \<Rightarrow> (u64 \<times> ('h, 'tx) bucket) list" where
  "queue_remove k tx [] = []"
| "queue_remove k tx ((k', b) # q) =
     (if k = k' then (k', AList.delete tx b) # q else (k', b) # queue_remove k tx q)"

definition pt_confirm_tx :: "'h \<Rightarrow> ('h, 'tx) pending_txs \<Rightarrow> ('h, 'tx) pending_txs" where
  "pt_confirm_tx tx p =
     (case map_of (pt_index p) tx of
        None \<Rightarrow> p
      | Some key \<Rightarrow>
          p\<lparr>pt_index := AList.delete tx (pt_index p), pt_queue := queue_remove key tx (pt_queue p)\<rparr>)"

text \<open>Insertion into the map of failed transactions, whose keys are \<open>Reverse(instant)\<close>.\<close>

fun rev_insert :: "instant \<Rightarrow> 'tx \<Rightarrow> (instant \<times> 'tx) list \<Rightarrow> (instant \<times> 'tx) list" where
  "rev_insert i x [] = [(i, x)]"
| "rev_insert i x ((j, y) # r) =
     (if j < i then (i, x) # (j, y) # r else if i = j then (i, x) # r else (j, y) # rev_insert i x r)"

fun drain ::
    "u64 \<Rightarrow> (u64 \<times> ('h, 'tx) bucket) list \<Rightarrow> ('h \<times> u64) list \<Rightarrow> (instant \<times> 'tx) list \<Rightarrow>
     (u64 \<times> ('h, 'tx) bucket) list \<times> ('h \<times> u64) list \<times> (instant \<times> 'tx) list" where
  "drain new_block [] index failed = ([], index, failed)"
| "drain new_block ((k, txs) # q) index failed =
     (if k \<le> new_block
      then drain new_block q
             (fold (\<lambda>(h, _). AList.delete h) txs index)
             (fold (\<lambda>(_, tx, i). rev_insert i tx) txs failed)
      else ((k, txs) # q, index, failed))"

definition pt_try_advance :: "u64 \<Rightarrow> ('h, 'tx) pending_txs \<Rightarrow> 'tx list option \<times> ('h, 'tx) pending_txs" where
  "pt_try_advance new_block p =
     (if pt_current p < new_block
      then (case drain new_block (pt_queue p) (pt_index p) [] of
              (q, index, failed) \<Rightarrow>
                (Some (map snd failed), p\<lparr>pt_current := new_block, pt_index := index, pt_queue := q\<rparr>))
      else (None, p))"

subsection \<open>The agent\<close>

record ('h, 'tx) tracker =
  tr_recent :: "'h circular_filter"
  tr_pending :: "('h, 'tx) pending_txs"

definition tracker_new :: "u64 \<Rightarrow> ('h, 'tx) tracker" where
  "tracker_new max_confirmation_delay_blocks =
     \<lparr> tr_recent = cf_new 256, tr_pending = pt_new max_confirmation_delay_blocks \<rparr>"

definition process_incoming_tx :: "instant \<Rightarrow> 'h \<times> 'tx \<Rightarrow> ('h, 'tx) tracker \<Rightarrow> ('h, 'tx) tracker" where
  "process_incoming_tx now = (\<lambda>(tx, trs) t.
     if \<not> cf_contains tx (tr_recent t)
     then t\<lparr>tr_pending := pt_append now tx trs (tr_pending t)\<rparr> else t)"

text \<open>The batch of failed transactions sent downstream, and the agent after it.\<close>

definition process_confirmed_tx :: "'h \<times> u64 \<Rightarrow> ('h, 'tx) tracker \<Rightarrow> 'tx list \<times> ('h, 'tx) tracker" where
  "process_confirmed_tx = (\<lambda>(tx, block) t.
     (let recent = snd (cf_add tx (tr_recent t));
          (advance_result, pending) = pt_try_advance block (pt_confirm_tx tx (tr_pending t))
      in (case advance_result of Some unsuccessful_txs \<Rightarrow> unsuccessful_txs | None \<Rightarrow> [],
          \<lparr> tr_recent = recent, tr_pending = pending \<rparr>)))"

subsection \<open>Invariant of the queue\<close>

definition queue_entries :: "(u64 \<times> ('h, 'tx) bucket) list \<Rightarrow> (u64 \<times> 'h \<times> 'tx \<times> instant) set" where
  "queue_entries q = {(k, h, tx, i). \<exists>b. (k, b) \<in> set q \<and> (h, tx, i) \<in> set b}"

abbreviation entries :: "('h, 'tx) pending_txs \<Rightarrow> (u64 \<times> 'h \<times> 'tx \<times> instant) set" where
  "entries p \<equiv> queue_entries (pt_queue p)"

definition instants :: "(u64 \<times> ('h, 'tx) bucket) list \<Rightarrow> instant list" where
  "instants q = concat (map (\<lambda>(k, b). map (\<lambda>(h, tx, i). i) b) q)"

definition queue_wf :: "(u64 \<times> ('h, 'tx) bucket) list \<Rightarrow> bool" where
  "queue_wf q \<longleftrightarrow>
     sorted_wrt (<) (map fst q) \<and> (\<forall>(k, b) \<in> set q. distinct (map fst b)) \<and> distinct (instants q)"

text \<open>
  The index names exactly the queued transactions with their deadlines, and submission instants
  are distinct.
\<close>

definition pt_wf :: "('h, 'tx) pending_txs \<Rightarrow> bool" where
  "pt_wf p \<longleftrightarrow>
     queue_wf (pt_queue p) \<and> distinct (map fst (pt_index p)) \<and>
     (\<forall>h k. map_of (pt_index p) h = Some k \<longleftrightarrow> (\<exists>tx i. (k, h, tx, i) \<in> entries p))"

lemma queue_entries_Cons:
  "queue_entries ((k, b) # q) = {(k, h, tx, i) | h tx i. (h, tx, i) \<in> set b} \<union> queue_entries q"
  by (auto simp: queue_entries_def)

lemma queue_entries_Nil [simp]: "queue_entries [] = {}"
  by (simp add: queue_entries_def)

lemma drain_queue:
  assumes "sorted_wrt (<) (map fst q)"
  shows "queue_entries (fst (drain nb q index failed)) = {e \<in> queue_entries q. nb < fst e}"
    and "sorted_wrt (<) (map fst (fst (drain nb q index failed)))"
    and "set (fst (drain nb q index failed)) \<subseteq> set q"
proof -
  have "queue_entries (fst (drain nb q index failed)) = {e \<in> queue_entries q. nb < fst e} \<and>
      sorted_wrt (<) (map fst (fst (drain nb q index failed))) \<and> set (fst (drain nb q index failed)) \<subseteq> set q"
    using assms
  proof (induction nb q index failed rule: drain.induct)
    case (1 nb index failed)
    then show ?case by simp
  next
    case (2 nb k txs q index failed)
    show ?case
    proof (cases "k \<le> nb")
      case True
      with 2 show ?thesis by (auto simp: queue_entries_Cons)
    next
      case False
      have "nb < k'" if "(k', b) \<in> set q" for k' b
        using 2(2) that False by fastforce
      then show ?thesis using False 2(2) by (auto simp: queue_entries_def)
    qed
  qed
  then show "queue_entries (fst (drain nb q index failed)) = {e \<in> queue_entries q. nb < fst e}"
    "sorted_wrt (<) (map fst (fst (drain nb q index failed)))"
    "set (fst (drain nb q index failed)) \<subseteq> set q" by blast+
qed


lemma instants_simps [simp]: "instants [] = []" "instants ((k, b) # q) = map (\<lambda>(h, tx, i). i) b @ instants q"
  by (simp_all add: instants_def)

lemma set_instants: "set (instants q) = {i. \<exists>k h tx. (k, h, tx, i) \<in> queue_entries q}"
  by (induction q) (force simp: queue_entries_Cons)+

lemma map_of_fold_delete:
  "map_of (fold (\<lambda>(h, _). AList.delete h) b index) h' = (if h' \<in> fst ` set b then None else map_of index h')"
  by (induction b arbitrary: index) (auto simp: delete_conv')

lemma distinct_fold_delete:
  "distinct (map fst index) \<Longrightarrow> distinct (map fst (fold (\<lambda>(h, _). AList.delete h) b index))"
  by (induction b arbitrary: index) (auto simp: distinct_delete)

lemma if_if_disj: "(if D then a else if A then a else b) = (if A \<or> D then a else b)"
  by auto

lemma drain_index:
  assumes "sorted_wrt (<) (map fst q)"
  shows "map_of (fst (snd (drain nb q index failed))) h =
     (if \<exists>k tx i. (k, h, tx, i) \<in> queue_entries q \<and> k \<le> nb then None else map_of index h)"
  using assms
proof (induction nb q index failed rule: drain.induct)
  case (1 nb index failed)
  then show ?case by simp
next
  case (2 nb k txs q index failed)
  show ?case
  proof (cases "k \<le> nb")
    case True
    have "(\<exists>k' tx i. (k', h, tx, i) \<in> queue_entries ((k, txs) # q) \<and> k' \<le> nb) \<longleftrightarrow>
        h \<in> fst ` set txs \<or> (\<exists>k' tx i. (k', h, tx, i) \<in> queue_entries q \<and> k' \<le> nb)"
      using True unfolding queue_entries_Cons by force
    note eq = this
    have srt: "sorted_wrt (<) (map fst q)" using 2(2) by simp
    have "drain nb ((k, txs) # q) index failed = drain nb q (fold (\<lambda>(h, _). AList.delete h) txs index)
        (fold (\<lambda>(_, tx, i). rev_insert i tx) txs failed)"
      using True by simp
    then show ?thesis
      unfolding eq if_if_disj [symmetric] using 2(1) [OF True srt] unfolding map_of_fold_delete by (rule ssubst)
  next
    case False
    have "\<not> k' \<le> nb" if "(k', h, tx, i) \<in> queue_entries ((k, txs) # q)" for k' tx i
      using that False 2(2) by (force simp: queue_entries_def)
    then show ?thesis using False by auto
  qed
qed

lemma drain_index_distinct:
  "distinct (map fst index) \<Longrightarrow> distinct (map fst (fst (snd (drain nb q index failed))))"
  by (induction nb q index failed rule: drain.induct) (auto simp: distinct_fold_delete)

lemma drain_suffix: "\<exists>pre. q = pre @ fst (drain nb q index failed)"
  by (induction nb q index failed rule: drain.induct) (auto, metis append_Cons)

lemma rev_insert_spec:
  assumes "sorted_wrt (>) (map fst r)" "i \<notin> fst ` set r"
  shows "sorted_wrt (>) (map fst (rev_insert i x r))" "set (rev_insert i x r) = insert (i, x) (set r)"
proof -
  have "sorted_wrt (>) (map fst (rev_insert i x r)) \<and> set (rev_insert i x r) = insert (i, x) (set r)"
    using assms
  proof (induction i x r rule: rev_insert.induct)
    case (1 i x)
    then show ?case by simp
  next
    case (2 i x j y r)
    then show ?case by (cases "j < i") (auto dest: less_trans)
  qed
  then show "sorted_wrt (>) (map fst (rev_insert i x r))" "set (rev_insert i x r) = insert (i, x) (set r)"
    by blast+
qed

lemma fold_rev_insert:
  assumes "sorted_wrt (>) (map fst failed)" "distinct (map (\<lambda>(h, tx, i). i) b)"
    and "fst ` set failed \<inter> set (map (\<lambda>(h, tx, i). i) b) = {}"
  shows "sorted_wrt (>) (map fst (fold (\<lambda>(_, tx, i). rev_insert i tx) b failed)) \<and>
     set (fold (\<lambda>(_, tx, i). rev_insert i tx) b failed) = set failed \<union> {(i, tx) | h tx i. (h, tx, i) \<in> set b}"
  using assms
proof (induction b arbitrary: failed)
  case Nil
  then show ?case by simp
next
  case (Cons x b)
  obtain h tx i where x: "x = (h, tx, i)" by (cases x)
  have i: "i \<notin> fst ` set failed" using Cons.prems x by auto
  note ins = rev_insert_spec [OF Cons.prems(1) i, of tx]
  have "fst ` set (rev_insert i tx failed) \<inter> set (map (\<lambda>(h, tx, i). i) b) = {}"
    using Cons.prems by (auto simp: ins x)
  from Cons.IH [OF ins(1) _ this] show ?case
    using Cons.prems(2) by (auto simp: x ins)
qed

lemma drain_failed:
  assumes "sorted_wrt (<) (map fst q)" "distinct (instants q)"
    and "sorted_wrt (>) (map fst failed)" "fst ` set failed \<inter> set (instants q) = {}"
  shows "sorted_wrt (>) (map fst (snd (snd (drain nb q index failed)))) \<and>
     set (snd (snd (drain nb q index failed))) =
       set failed \<union> {(i, tx) | k h tx i. (k, h, tx, i) \<in> queue_entries q \<and> k \<le> nb}"
  using assms
proof (induction nb q index failed rule: drain.induct)
  case (1 nb index failed)
  then show ?case by simp
next
  case (2 nb k txs q index failed)
  show ?case
  proof (cases "k \<le> nb")
    case True
    have f: "sorted_wrt (>) (map fst (fold (\<lambda>(_, tx, i). rev_insert i tx) txs failed)) \<and>
       set (fold (\<lambda>(_, tx, i). rev_insert i tx) txs failed) = set failed \<union> {(i, tx) | h tx i. (h, tx, i) \<in> set txs}"
    proof (rule fold_rev_insert)
      show "fst ` set failed \<inter> set (map (\<lambda>(h, tx, i). i) txs) = {}"
        using 2(5) by (simp only: instants_simps set_append) blast
    qed (use 2(3,4) in simp_all)
    have "fst ` set (fold (\<lambda>(_, tx, i). rev_insert i tx) txs failed) \<inter> set (instants q) = {}"
      using f 2(3,5) by (force simp: image_iff)
    with 2(1) [OF True] 2(2,3) f have "sorted_wrt (>) (map fst (snd (snd (drain nb ((k, txs) # q) index failed)))) \<and>
       set (snd (snd (drain nb ((k, txs) # q) index failed))) =
         set failed \<union> {(i, tx) | h tx i. (h, tx, i) \<in> set txs} \<union>
         {(i, tx) | k h tx i. (k, h, tx, i) \<in> queue_entries q \<and> k \<le> nb}"
      using True by simp
    moreover have "{(i, tx) | k' h tx i. (k', h, tx, i) \<in> queue_entries ((k, txs) # q) \<and> k' \<le> nb} =
        {(i, tx) | h tx i. (h, tx, i) \<in> set txs} \<union>
        {(i, tx) | k h tx i. (k, h, tx, i) \<in> queue_entries q \<and> k \<le> nb}"
      using True unfolding queue_entries_Cons by blast
    ultimately show ?thesis by (simp add: Un_assoc)
  next
    case False
    have "\<not> k' \<le> nb" if "(k', h, tx, i) \<in> queue_entries ((k, txs) # q)" for k' h tx i
      using that False 2(2) by (force simp: queue_entries_def)
    then show ?thesis using False 2(4) by auto
  qed
qed


subsection \<open>The operations keep the invariant\<close>

lemma queue_insert_entries:
  assumes "sorted_wrt (<) (map fst q)" "\<And>k' tx i. (k', h, tx, i) \<notin> queue_entries q"
  shows "queue_entries (queue_insert k h v q) = insert (k, h, v) (queue_entries q)"
  using assms
proof (induction k h v q rule: queue_insert.induct)
  case (1 k tx v)
  then show ?case by (auto simp: queue_entries_def)
next
  case (2 k h v k' b q)
  have fresh: "h \<notin> fst ` set b" "\<And>k'' tx i. (k'', h, tx, i) \<notin> queue_entries q"
    using 2(3) by (force simp: queue_entries_Cons)+
  have "set (AList.update h v b) = insert (h, v) (set b)"
    using fresh(1) by (induction b) auto
  then show ?case
    using 2 fresh by (auto simp: queue_entries_Cons)
qed

lemma queue_insert_instants:
  assumes "h \<notin> (\<lambda>(k, h, tx, i). h) ` queue_entries q"
  shows "mset (instants (queue_insert k h (tx, i) q)) = add_mset i (mset (instants q))"
  using assms
proof (induction k h "(tx, i)" q rule: queue_insert.induct)
  case (1 k h)
  then show ?case by simp
next
  case (2 k h k' b q)
  have fresh: "h \<notin> fst ` set b" "h \<notin> (\<lambda>(k, h, tx, i). h) ` queue_entries q"
    using 2(2) by (force simp: queue_entries_Cons)+
  have "AList.update h (tx, i) b = b @ [(h, tx, i)]"
    using fresh(1) by (induction b) auto
  then show ?case using 2(1) fresh(2) by auto
qed

lemma queue_insert_sorted:
  "sorted_wrt (<) (map fst q) \<Longrightarrow>
     sorted_wrt (<) (map fst (queue_insert k h v q)) \<and> fst ` set (queue_insert k h v q) = insert k (fst ` set q)"
  by (induction k h v q rule: queue_insert.induct) (auto simp: image_iff)

lemma queue_insert_buckets:
  "\<forall>(k, b) \<in> set q. distinct (map fst b) \<Longrightarrow> \<forall>(k, b) \<in> set (queue_insert k h v q). distinct (map fst b)"
  by (induction k h v q rule: queue_insert.induct) (auto simp: distinct_update)

lemma pt_wf_append:
  assumes wf: "pt_wf p" and fresh: "map_of (pt_index p) h = None" "now \<notin> set (instants (pt_queue p))"
  shows "pt_wf (pt_append now h tx p)"
    and "entries (pt_append now h tx p) = insert (pt_current p + pt_delay p, h, tx, now) (entries p)"
proof -
  let ?k = "pt_current p + pt_delay p"
  have q: "queue_wf (pt_queue p)" and idx: "\<And>h k. map_of (pt_index p) h = Some k \<longleftrightarrow> (\<exists>tx i. (k, h, tx, i) \<in> entries p)"
    using wf unfolding pt_wf_def by blast+
  have none: "(k', h, tx', i) \<notin> entries p" for k' tx' i
    using idx fresh(1) by (metis option.distinct(1))
  then have none': "h \<notin> (\<lambda>(k, h, tx, i). h) ` entries p" by auto
  have srt: "sorted_wrt (<) (map fst (pt_queue p))" using q by (simp add: queue_wf_def)
  note ent = queue_insert_entries [OF srt none, of ?k "(tx, now)"]
  show e: "entries (pt_append now h tx p) = insert (?k, h, tx, now) (entries p)"
    by (simp add: pt_append_def Let_def ent)
  have "mset (instants (queue_insert ?k h (tx, now) (pt_queue p))) = mset (now # instants (pt_queue p))"
    using queue_insert_instants [OF none', of ?k tx now] by simp
  from mset_eq_imp_distinct_iff [OF this]
  have "distinct (instants (queue_insert ?k h (tx, now) (pt_queue p)))"
    using q fresh(2) by (simp add: queue_wf_def)
  then have "queue_wf (queue_insert ?k h (tx, now) (pt_queue p))"
    using q queue_insert_sorted [OF srt, of ?k h "(tx, now)"]
      queue_insert_buckets [of "pt_queue p" ?k h "(tx, now)"] by (simp add: queue_wf_def)
  moreover have "map_of (AList.update h ?k (pt_index p)) h' = Some k' \<longleftrightarrow>
      (\<exists>tx' i. (k', h', tx', i) \<in> insert (?k, h, tx, now) (entries p))" for h' k'
    using idx none by (auto simp: update_conv')
  ultimately show "pt_wf (pt_append now h tx p)"
    using wf ent by (simp add: pt_wf_def pt_append_def Let_def distinct_update)
qed

lemma queue_remove_entries:
  assumes "sorted_wrt (<) (map fst q)"
  shows "queue_entries (queue_remove k h q) = {e \<in> queue_entries q. \<not> (fst e = k \<and> fst (snd e) = h)}"
  using assms
proof (induction k h q rule: queue_remove.induct)
  case (1 k h)
  then show ?case by simp
next
  case (2 k h k' b q)
  have del: "set (AList.delete h b) = {x \<in> set b. fst x \<noteq> h}"
    by (induction b) auto
  have "k' \<notin> fst ` set q" using 2(2) by auto
  then have "(k', x) \<notin> queue_entries q" for x by (cases x) (force simp: queue_entries_def)
  then show ?case using 2 del by (auto simp: queue_entries_Cons)
qed

lemma queue_remove_wf: "queue_wf q \<Longrightarrow> queue_wf (queue_remove k h q)"
proof -
  have f: "map fst (queue_remove k h q) = map fst q" by (induction k h q rule: queue_remove.induct) auto
  have b: "\<forall>(k, b) \<in> set q. distinct (map fst b) \<Longrightarrow> \<forall>(k, b) \<in> set (queue_remove k h q). distinct (map fst b)"
    by (induction k h q rule: queue_remove.induct) (auto simp: distinct_delete)
  have i: "subseq (instants (queue_remove k h q)) (instants q)"
  proof (induction k h q rule: queue_remove.induct)
    case (1 k h)
    then show ?case by simp
  next
    case (2 k h k' b q)
    have "subseq (map (\<lambda>(h, tx, i). i) (AList.delete h b)) (map (\<lambda>(h, tx, i). i) b)"
      unfolding AList.delete_eq by (rule subseq_map [OF subseq_filter_left])
    with 2 show ?case by (auto intro: list_emb_append_mono)
  qed
  assume wf: "queue_wf q"
  then have "distinct (instants (queue_remove k h q))"
    using i by (auto simp: queue_wf_def subseq_conv_nths intro: distinct_nthsI)
  then show ?thesis using wf f b by (simp add: queue_wf_def)
qed


lemma pt_wf_confirm:
  assumes wf: "pt_wf p"
  shows "pt_wf (pt_confirm_tx h p)"
    and "entries (pt_confirm_tx h p) = {e \<in> entries p. fst (snd e) \<noteq> h}"
proof -
  have q: "queue_wf (pt_queue p)" and dist: "distinct (map fst (pt_index p))"
    and idx: "\<And>h k. map_of (pt_index p) h = Some k \<longleftrightarrow> (\<exists>tx i. (k, h, tx, i) \<in> entries p)"
    using wf unfolding pt_wf_def by blast+
  have "pt_wf (pt_confirm_tx h p) \<and> entries (pt_confirm_tx h p) = {e \<in> entries p. fst (snd e) \<noteq> h}"
  proof (cases "map_of (pt_index p) h")
    case None
    then have "\<nexists>k tx i. (k, h, tx, i) \<in> entries p" using idx by (metis option.distinct(1))
    then show ?thesis using None wf by (auto simp: pt_confirm_tx_def)
  next
    case (Some k)
    have srt: "sorted_wrt (<) (map fst (pt_queue p))" using q by (simp add: queue_wf_def)
    have "k' = k" if "(k', h, tx, i) \<in> entries p" for k' tx i using that idx Some by (metis option.inject)
    then have ent: "queue_entries (queue_remove k h (pt_queue p)) = {e \<in> entries p. fst (snd e) \<noteq> h}"
      unfolding queue_remove_entries [OF srt] by auto
    have "map_of (AList.delete h (pt_index p)) h' = Some k' \<longleftrightarrow>
        (\<exists>tx i. (k', h', tx, i) \<in> {e \<in> entries p. fst (snd e) \<noteq> h})" for h' k'
      using idx by (auto simp: delete_conv')
    then show ?thesis
      using Some ent queue_remove_wf [OF q] dist by (simp add: pt_wf_def pt_confirm_tx_def distinct_delete)
  qed
  then show "pt_wf (pt_confirm_tx h p)" "entries (pt_confirm_tx h p) = {e \<in> entries p. fst (snd e) \<noteq> h}"
    by blast+
qed

lemma pt_wf_advance:
  assumes wf: "pt_wf p" and later: "pt_current p < nb"
  shows "\<exists>L p'. pt_try_advance nb p = (Some (map snd L), p') \<and> pt_wf p' \<and> pt_current p' = nb \<and>
     entries p' = {e \<in> entries p. nb < fst e} \<and>
     sorted_wrt (>) (map fst L) \<and> set L = {(i, tx) | k h tx i. (k, h, tx, i) \<in> entries p \<and> k \<le> nb}"
proof -
  have q: "queue_wf (pt_queue p)" and dist: "distinct (map fst (pt_index p))"
    and idx: "\<And>h k. map_of (pt_index p) h = Some k \<longleftrightarrow> (\<exists>tx i. (k, h, tx, i) \<in> entries p)"
    using wf unfolding pt_wf_def by blast+
  have srt: "sorted_wrt (<) (map fst (pt_queue p))" and di: "distinct (instants (pt_queue p))"
    using q by (simp_all add: queue_wf_def)
  obtain q' index' L where dr: "drain nb (pt_queue p) (pt_index p) [] = (q', index', L)"
    by (metis prod_cases3)
  note drq = drain_queue [OF srt, of nb "pt_index p" "[]", unfolded dr fst_conv]
  obtain pre where pre: "pt_queue p = pre @ q'"
    using drain_suffix [of "pt_queue p" nb "pt_index p" "[]"] dr by auto
  have "distinct (instants q')" using di by (simp add: pre instants_def)
  then have wf': "queue_wf q'" using q drq(2,3) by (auto simp: queue_wf_def)
  have "map_of index' h = Some k \<longleftrightarrow> (\<exists>tx i. (k, h, tx, i) \<in> queue_entries q')" for h k
  proof -
    have "map_of index' h = (if \<exists>k tx i. (k, h, tx, i) \<in> entries p \<and> k \<le> nb then None else map_of (pt_index p) h)"
      using drain_index [OF srt, of nb "pt_index p" "[]" h] dr by simp
    note new = this
    show ?thesis
    proof (cases "\<exists>k tx i. (k, h, tx, i) \<in> entries p \<and> k \<le> nb")
      case True
      then obtain k0 where k0: "map_of (pt_index p) h = Some k0" "k0 \<le> nb" using idx by blast
      have "k = k0" if "(k, h, tx, i) \<in> entries p" for tx i using that idx k0(1) by (metis option.inject)
      then show ?thesis using new True k0(2) unfolding drq(1) by (metis (mono_tags, lifting) fst_conv leD mem_Collect_eq option.distinct(1))
    next
      case False
      then have "(k, h, tx, i) \<in> queue_entries q' \<longleftrightarrow> (k, h, tx, i) \<in> entries p" for tx i
        unfolding drq(1) by fastforce
      then show ?thesis using idx [of h k] unfolding new if_not_P [OF False] by blast
    qed
  qed
  moreover have "distinct (map fst index')"
    using drain_index_distinct [OF dist, of nb "pt_queue p" "[]"] dr by simp
  moreover have "sorted_wrt (>) (map fst L) \<and> set L = {(i, tx) | k h tx i. (k, h, tx, i) \<in> entries p \<and> k \<le> nb}"
    using drain_failed [OF srt di, of "[]" nb "pt_index p"] dr by simp
  ultimately show ?thesis
    using later wf' drq(1)
    by (intro exI [of _ L] exI [of _ "p\<lparr>pt_current := nb, pt_index := index', pt_queue := q'\<rparr>"])
      (simp add: pt_try_advance_def dr pt_wf_def)
qed

subsection \<open>The properties\<close>

text \<open>
  C30. The queue of pending transactions is exact. A new transaction is due \<open>delay\<close> blocks after
  the current one; a confirmation takes it off; and when a later block arrives, exactly the
  transactions that are due by then are reported failed and taken off, the latest submitted
  first, while all others stay. The index and the queue agree throughout.
\<close>
theorem pending_txs_exact:
  assumes "pt_wf p"
  shows "(map_of (pt_index p) h = None \<and> now \<notin> set (instants (pt_queue p)) \<longrightarrow>
       pt_wf (pt_append now h tx p) \<and>
       entries (pt_append now h tx p) = insert (pt_current p + pt_delay p, h, tx, now) (entries p)) \<and>
     pt_wf (pt_confirm_tx h p) \<and> entries (pt_confirm_tx h p) = {e \<in> entries p. fst (snd e) \<noteq> h} \<and>
     (pt_current p < nb \<longrightarrow>
       (\<exists>L p'. pt_try_advance nb p = (Some (map snd L), p') \<and> pt_wf p' \<and> pt_current p' = nb \<and>
          entries p' = {e \<in> entries p. nb < fst e} \<and>
          sorted_wrt (>) (map fst L) \<and> set L = {(i, tx) | k h tx i. (k, h, tx, i) \<in> entries p \<and> k \<le> nb})) \<and>
     (nb \<le> pt_current p \<longrightarrow> pt_try_advance nb p = (None, p))"
proof -
  have "nb \<le> pt_current p \<longrightarrow> pt_try_advance nb p = (None, p)"
    unfolding pt_try_advance_def by auto
  then show ?thesis
    using pt_wf_append [OF assms] pt_wf_confirm [OF assms] pt_wf_advance [OF assms] by simp
qed

lemma pt_wf_new: "pt_wf (pt_new d)"
  by (simp add: pt_wf_def pt_new_def queue_wf_def)

theorem pending_txs_exact_witness:
  "pt_wf (pt_append 1 (4 :: nat) (9 :: nat) (pt_new 6)) \<and>
   entries (pt_append 1 (4 :: nat) (9 :: nat) (pt_new 6)) = {(6, 4, 9, 1)}"
  using pending_txs_exact [OF pt_wf_new [of 6], where h = "4 :: nat" and now = 1 and tx = "9 :: nat"] by (simp add: pt_new_def)

text \<open>
  A transaction that is announced again while it is still pending leaves its first queue
  entry behind: the confirmation removes only the latest entry, and when the first deadline
  passes the confirmed transaction is reported failed.
\<close>
theorem reannounced_tx_fails_after_confirmation:
  assumes "map_of (pt_index p) h = None" "pt_queue p = []" "pt_current p < b"
    "b < pt_current p + pt_delay p" "pt_current p + pt_delay p < b + pt_delay p"
  shows "let d = pt_current p + pt_delay p;
             p1 = pt_append i h tx p;
             p2 = snd (pt_try_advance b p1);
             p3 = pt_confirm_tx h (pt_append j h tx p2)
         in map_of (pt_index p3) h = None \<and> fst (pt_try_advance d p3) = Some [tx]"
proof -
  let ?d = "pt_current p + pt_delay p"
  let ?p1 = "pt_append i h tx p"
  have p1: "pt_queue ?p1 = [(?d, [(h, tx, i)])]" "pt_current ?p1 = pt_current p" "pt_delay ?p1 = pt_delay p"
    using assms(2) by (simp_all add: pt_append_def Let_def)
  let ?p2 = "snd (pt_try_advance b ?p1)"
  have p2: "pt_queue ?p2 = [(?d, [(h, tx, i)])]" "pt_current ?p2 = b" "pt_delay ?p2 = pt_delay p"
    using assms(3,4) p1 by (simp_all add: pt_try_advance_def)
  let ?p3 = "pt_confirm_tx h (pt_append j h tx ?p2)"
  have ne: "?d < b + pt_delay p" "?d \<noteq> b + pt_delay p" "\<not> b + pt_delay p < ?d" "b < ?d"
    using assms(4,5) by auto
  have "pt_queue ?p3 = [(?d, [(h, tx, i)]), (b + pt_delay p, [])]" "map_of (pt_index ?p3) h = None"
    "pt_current ?p3 = b"
    using p2 ne by (simp_all add: pt_append_def pt_confirm_tx_def Let_def update_conv' delete_conv')
  then show ?thesis
    using ne by (simp add: Let_def pt_try_advance_def)
qed

theorem reannounced_tx_fails_after_confirmation_witness:
  "let p1 = pt_append 1 (4 :: nat) (9 :: nat) (pt_new 6);
       p2 = snd (pt_try_advance 3 p1);
       p3 = pt_confirm_tx 4 (pt_append 2 4 9 p2)
   in map_of (pt_index p3) 4 = None \<and> fst (pt_try_advance 6 p3) = Some [9]"
  using reannounced_tx_fails_after_confirmation [where p = "pt_new 6" and h = "4 :: nat" and b = 3 and i = 1 and tx = "9 :: nat" and j = 2]
  by (simp add: pt_new_def Let_def)

end
