(* ===== verification/Mempool.thy ===== *)
theory Mempool
  imports Ledger_Events Tx_Tracker
begin

text \<open>
  The mempool side of the program: the client that polls snapshots of the node's mempool and
  filters out transactions it has seen (packages/cardano-mempool-sync/src/client.rs), and the
  stream of mempool updates built on it (packages/cardano-mempool-sync/src/lib.rs). The hash of
  the raw bytes and the decoder of transactions are parameters; the answers of the node are an
  input.
\<close>

subsection \<open>The filter\<close>

record 'h tx_filter =
  tf_known :: "'h set"
  tf_queue :: "'h list"
  tf_cap :: nat

definition filter_cap :: nat where
  "filter_cap = 4096"

definition tf_new :: "nat \<Rightarrow> 'h tx_filter" where
  "tf_new cap = \<lparr> tf_known = {}, tf_queue = [], tf_cap = cap \<rparr>"

definition tf_register :: "'h \<Rightarrow> 'h tx_filter \<Rightarrow> bool \<times> 'h tx_filter" where
  "tf_register tx f =
     (if tx \<in> tf_known f then (True, f)
      else
        let f1 =
          (if tf_cap f < card (tf_known f)
           then (if tf_queue f = [] then f
                 else f\<lparr>tf_queue := butlast (tf_queue f),
                        tf_known := tf_known f - {last (tf_queue f)}\<rparr>)
           else f)
        in (False, f1\<lparr>tf_known := insert tx (tf_known f1), tf_queue := tx # tf_queue f1\<rparr>))"

subsection \<open>Polling the node\<close>

text \<open>
  An answer to \<open>query_next_tx\<close>: an error, no further transaction, or the bytes of one. A poll
  is the answer to \<open>acquire\<close> with the answers that follow it. The loop never ends, so the stream
  is described by what it yields on any finite run of polls.
\<close>

type_synonym query_answer = "unit + bytes option"

type_synonym poll_answers = "(unit + unit) \<times> query_answer list"

record ('h, 'tx) mempool_codec =
  hash_tx_bytes :: "bytes \<Rightarrow> 'h"
  tx_from_cbor_bytes :: "bytes \<Rightarrow> 'tx option"

fun poll_snapshot ::
    "('h, 'tx) mempool_codec \<Rightarrow> query_answer list \<Rightarrow> 'h tx_filter \<Rightarrow> 'tx list \<times> 'h tx_filter" where
  "poll_snapshot mc (Inr (Some bytes) # answers) f =
     (let (known, f1) = tf_register (hash_tx_bytes mc bytes) f;
          (txs, f2) = poll_snapshot mc answers f1
      in (if \<not> known
          then (case tx_from_cbor_bytes mc bytes of Some tx \<Rightarrow> tx # txs | None \<Rightarrow> txs)
          else txs, f2))"
| "poll_snapshot mc _ f = ([], f)"

fun stream_updates ::
    "('h, 'tx) mempool_codec \<Rightarrow> poll_answers list \<Rightarrow> 'h tx_filter \<Rightarrow> 'tx list \<times> 'h tx_filter" where
  "stream_updates mc [] f = ([], f)"
| "stream_updates mc ((acquired, answers) # polls) f =
     (let (txs, f1) = (case acquired of Inr _ \<Rightarrow> poll_snapshot mc answers f | Inl _ \<Rightarrow> ([], f));
          (more, f2) = stream_updates mc polls f1
      in (txs @ more, f2))"

subsection \<open>The stream of updates\<close>

text \<open>
  The stream starts once the ledger is in sync. From then on it interleaves two sources: a
  transaction of the client, announced to the tracker before it is handed on as accepted, and a
  transaction of the tracker's channel of failed ones, handed on as dropped.
\<close>

record ('h, 'tx) mempool_state =
  ms_synced :: bool
  ms_tracked :: "('h \<times> 'tx) list"
  ms_updates :: "'tx mempool_update list"

datatype 'tx mempool_source = StateSynced | FromClient 'tx | FromFailed 'tx

definition mempool_init :: "('h, 'tx) mempool_state" where
  "mempool_init = \<lparr> ms_synced = False, ms_tracked = [], ms_updates = [] \<rparr>"

fun mempool_stream ::
    "('tx \<Rightarrow> 'h) \<Rightarrow> 'tx mempool_source \<Rightarrow> ('h, 'tx) mempool_state \<Rightarrow> ('h, 'tx) mempool_state" where
  "mempool_stream canonical_hash StateSynced st = st\<lparr>ms_synced := True\<rparr>"
| "mempool_stream canonical_hash (FromClient tx) st =
     (if ms_synced st
      then st\<lparr>ms_tracked := ms_tracked st @ [(canonical_hash tx, tx)],
              ms_updates := ms_updates st @ [TxAccepted tx]\<rparr>
      else st)"
| "mempool_stream canonical_hash (FromFailed tx) st =
     (if ms_synced st then st\<lparr>ms_updates := ms_updates st @ [TxDropped tx]\<rparr> else st)"

subsection \<open>The filter keeps the latest hashes\<close>

definition filter_inv :: "'h tx_filter \<Rightarrow> bool" where
  "filter_inv f \<longleftrightarrow> tf_known f = set (tf_queue f) \<and> distinct (tf_queue f) \<and>
     length (tf_queue f) \<le> tf_cap f + 1"

lemma filter_inv_new: "filter_inv (tf_new cap)"
  by (simp add: filter_inv_def tf_new_def)

lemma set_butlast_distinct:
  assumes "distinct xs" "xs \<noteq> []"
  shows "set (butlast xs) = set xs - {last xs}"
proof -
  from assms(2) obtain ys y where "xs = ys @ [y]" by (metis append_butlast_last_id)
  then show ?thesis using assms(1) by auto
qed

lemma take_butlast_length: "length xs = Suc n \<Longrightarrow> take n xs = butlast xs"
  by (simp add: butlast_conv_take)

lemma register_known: "filter_inv f \<Longrightarrow> fst (tf_register h f) \<longleftrightarrow> h \<in> set (tf_queue f)"
  by (simp add: tf_register_def filter_inv_def Let_def)

lemma register_queue:
  assumes inv: "filter_inv f"
  shows "tf_queue (snd (tf_register h f)) =
      (if h \<in> set (tf_queue f) then tf_queue f else take (tf_cap f + 1) (h # tf_queue f))"
    and "filter_inv (snd (tf_register h f))" and "tf_cap (snd (tf_register h f)) = tf_cap f"
proof -
  have known: "tf_known f = set (tf_queue f)" and dist: "distinct (tf_queue f)"
    and len: "length (tf_queue f) \<le> tf_cap f + 1" using inv by (simp_all add: filter_inv_def)
  have card: "card (tf_known f) = length (tf_queue f)" using known dist by (simp add: distinct_card)
  have "tf_queue (snd (tf_register h f)) =
      (if h \<in> set (tf_queue f) then tf_queue f else take (tf_cap f + 1) (h # tf_queue f)) \<and>
    filter_inv (snd (tf_register h f)) \<and> tf_cap (snd (tf_register h f)) = tf_cap f"
  proof (cases "h \<in> set (tf_queue f)")
    case True
    then show ?thesis using inv known by (simp add: tf_register_def)
  next
    case fresh: False
    show ?thesis
    proof (cases "tf_cap f < length (tf_queue f)")
      case True
      then have l: "length (tf_queue f) = Suc (tf_cap f)" using len by simp
      then have "tf_queue f \<noteq> []" by auto
      moreover have "set (butlast (tf_queue f)) = set (tf_queue f) - {last (tf_queue f)}"
        using set_butlast_distinct [OF dist] l by fastforce
      moreover have "h \<notin> set (butlast (tf_queue f))" using fresh by (meson in_set_butlastD)
      ultimately show ?thesis
        using fresh True known card l dist take_butlast_length [OF l]
        by (simp add: tf_register_def filter_inv_def Let_def distinct_butlast)
    next
      case False
      then show ?thesis
        using fresh known card dist by (simp add: tf_register_def filter_inv_def Let_def)
    qed
  qed
  then show "tf_queue (snd (tf_register h f)) =
      (if h \<in> set (tf_queue f) then tf_queue f else take (tf_cap f + 1) (h # tf_queue f))"
    "filter_inv (snd (tf_register h f))" "tf_cap (snd (tf_register h f)) = tf_cap f" by blast+
qed

subsection \<open>What the poll admits\<close>

fun raw_txs :: "query_answer list \<Rightarrow> bytes list" where
  "raw_txs (Inr (Some bytes) # answers) = bytes # raw_txs answers"
| "raw_txs _ = []"

definition polled :: "poll_answers list \<Rightarrow> bytes list" where
  "polled polls = concat (map (\<lambda>(acquired, answers). case acquired of Inr _ \<Rightarrow> raw_txs answers | Inl _ \<Rightarrow> []) polls)"

text \<open>Any \<open>n\<close> consecutive elements are distinct.\<close>

definition windows :: "nat \<Rightarrow> 'a list \<Rightarrow> bool" where
  "windows n xs \<longleftrightarrow> (\<forall>i. distinct (take n (drop i xs)))"

lemma windows_snoc:
  assumes w: "windows (Suc n) xs" and fresh: "x \<notin> set (take n (rev xs))"
  shows "windows (Suc n) (xs @ [x])"
  unfolding windows_def
proof
  fix i
  show "distinct (take (Suc n) (drop i (xs @ [x])))"
  proof (cases "n < length xs - i \<or> length xs < i")
    case True
    then show ?thesis using w [unfolded windows_def, rule_format, of i] by auto
  next
    case False
    then have i: "i \<le> length xs" "length xs - n \<le> i" by auto
    have "distinct (drop i xs)" using w [unfolded windows_def, rule_format, of i] False by simp
    moreover have "set (drop i xs) \<subseteq> set (take n (rev xs))"
      using set_drop_subset_set_drop [OF i(2)] by (simp add: take_rev)
    ultimately show ?thesis using fresh i False by auto
  qed
qed

lemma windows_all: "windows n xs \<Longrightarrow> length xs \<le> n \<Longrightarrow> distinct xs"
  unfolding windows_def by (metis drop0 take_all)

lemma windows_card: "windows n xs \<Longrightarrow> card (set xs) < n \<Longrightarrow> distinct xs"
proof (rule windows_all)
  assume w: "windows n xs" and c: "card (set xs) < n"
  show "length xs \<le> n"
  proof (rule ccontr)
    assume "\<not> length xs \<le> n"
    then have "card (set (take n xs)) = n"
      using w distinct_card [of "take n xs"] unfolding windows_def by (metis drop0 length_take min.absorb4 not_le)
    moreover have "card (set (take n xs)) \<le> card (set xs)" by (simp add: card_mono set_take_subset)
    ultimately show False using c by simp
  qed
qed

definition admits :: "('h, 'tx) mempool_codec \<Rightarrow> nat \<Rightarrow> bytes list \<Rightarrow> 'h tx_filter \<Rightarrow> bool" where
  "admits mc cap rs f \<longleftrightarrow> filter_inv f \<and> tf_cap f = cap \<and>
     tf_queue f = take (cap + 1) (rev (map (hash_tx_bytes mc) rs)) \<and>
     windows (cap + 2) (map (hash_tx_bytes mc) rs)"

lemma admits_new: "admits mc cap [] (tf_new cap)"
  by (simp add: admits_def filter_inv_new, simp add: tf_new_def windows_def)

lemma admits_register:
  assumes a: "admits mc cap rs f"
  shows "if fst (tf_register (hash_tx_bytes mc b) f)
     then admits mc cap rs (snd (tf_register (hash_tx_bytes mc b) f)) \<and> hash_tx_bytes mc b \<in> hash_tx_bytes mc ` set rs
     else admits mc cap (rs @ [b]) (snd (tf_register (hash_tx_bytes mc b) f))"
proof -
  let ?h = "hash_tx_bytes mc b"
  have inv: "filter_inv f" and cap: "tf_cap f = cap"
    and q: "tf_queue f = take (cap + 1) (rev (map (hash_tx_bytes mc) rs))"
    and w: "windows (Suc (cap + 1)) (map (hash_tx_bytes mc) rs)"
    using a by (simp_all add: admits_def)
  show ?thesis
  proof (cases "?h \<in> set (tf_queue f)")
    case True
    then have "?h \<in> hash_tx_bytes mc ` set rs" using q by (auto dest: in_set_takeD)
    then show ?thesis
      using a True register_known [OF inv] register_queue [OF inv, of ?h] by (simp add: admits_def)
  next
    case False
    then have "windows (Suc (cap + 1)) (map (hash_tx_bytes mc) (rs @ [b]))"
      using windows_snoc [OF w] q by simp
    then show ?thesis
      using a False register_known [OF inv] register_queue [OF inv, of ?h] q cap
      by (simp add: admits_def)
  qed
qed

definition emits ::
    "('h, 'tx) mempool_codec \<Rightarrow> nat \<Rightarrow> bytes list \<Rightarrow> bytes list \<Rightarrow> 'tx list \<times> 'h tx_filter \<Rightarrow> bool" where
  "emits mc cap rs raws r \<longleftrightarrow> (\<exists>B. fst r = List.map_filter (tx_from_cbor_bytes mc) B \<and> subseq B raws \<and>
     admits mc cap (rs @ B) (snd r) \<and>
     hash_tx_bytes mc ` set (rs @ B) = hash_tx_bytes mc ` set (rs @ raws))"

lemma emits_Nil: "admits mc cap rs f \<Longrightarrow> emits mc cap rs [] ([], f)"
  by (auto simp: emits_def List.map_filter_def intro!: exI [of _ "[]"])

lemma emits_append:
  assumes 1: "emits mc cap rs raws r1"
    and 2: "\<And>rs'. admits mc cap rs' (snd r1) \<Longrightarrow> emits mc cap rs' raws' r2"
  shows "emits mc cap rs (raws @ raws') (fst r1 @ fst r2, snd r2)"
proof -
  from 1 obtain B where B: "fst r1 = List.map_filter (tx_from_cbor_bytes mc) B" "subseq B raws"
    "admits mc cap (rs @ B) (snd r1)" "hash_tx_bytes mc ` set (rs @ B) = hash_tx_bytes mc ` set (rs @ raws)"
    by (auto simp: emits_def)
  from 2 [OF B(3)] obtain C where C: "fst r2 = List.map_filter (tx_from_cbor_bytes mc) C" "subseq C raws'"
    "admits mc cap ((rs @ B) @ C) (snd r2)"
    "hash_tx_bytes mc ` set ((rs @ B) @ C) = hash_tx_bytes mc ` set ((rs @ B) @ raws')"
    by (auto simp: emits_def)
  have "hash_tx_bytes mc ` set (rs @ B @ C) = hash_tx_bytes mc ` set (rs @ raws @ raws')"
    using B(4) C(4) by (simp add: image_Un Un_assoc [symmetric])
  then show ?thesis
    using B C list_emb_append_mono [OF B(2) C(2)]
    by (auto simp: emits_def List.map_filter_def intro!: exI [of _ "B @ C"])
qed

lemma emits_poll: "admits mc cap rs f \<Longrightarrow> emits mc cap rs (raw_txs answers) (poll_snapshot mc answers f)"
proof (induction mc answers f arbitrary: rs rule: poll_snapshot.induct)
  case (1 mc b answers f)
  obtain known f1 where reg: "tf_register (hash_tx_bytes mc b) f = (known, f1)" by force
  have one: "emits mc cap rs [b] (if known then [] else List.map_filter (tx_from_cbor_bytes mc) [b], f1)"
  proof (cases known)
    case True
    then show ?thesis
      using admits_register [OF 1(2), of b] by (auto simp: reg emits_def List.map_filter_def intro!: exI [of _ "[]"])
  next
    case False
    then show ?thesis
      using admits_register [OF 1(2), of b] by (auto simp: reg emits_def intro!: exI [of _ "[b]"])
  qed
  have "emits mc cap rs' (raw_txs answers) (poll_snapshot mc answers f1)" if "admits mc cap rs' f1" for rs'
    using 1(1) [OF reg [symmetric]] that by simp
  from emits_append [OF one, simplified, OF this]
  show ?case
    by (auto simp: reg case_prod_beta List.map_filter_def Let_def split: option.splits)
qed (simp_all add: emits_Nil)

lemma emits_stream: "admits mc cap rs f \<Longrightarrow> emits mc cap rs (polled polls) (stream_updates mc polls f)"
proof (induction mc polls f arbitrary: rs rule: stream_updates.induct)
  case (1 mc f)
  then show ?case by (simp add: polled_def emits_Nil)
next
  case (2 mc acquired answers polls f)
  let ?r = "case acquired of Inr _ \<Rightarrow> poll_snapshot mc answers f | Inl _ \<Rightarrow> ([], f)"
  have "emits mc cap rs (case acquired of Inr _ \<Rightarrow> raw_txs answers | Inl _ \<Rightarrow> []) ?r"
    using 2(2) by (cases acquired) (simp_all add: emits_Nil emits_poll)
  moreover have "emits mc cap rs' (polled polls) (stream_updates mc polls (snd ?r))" if "admits mc cap rs' (snd ?r)" for rs'
    using 2(1) [OF refl _ that] by (metis prod.collapse)
  ultimately have "emits mc cap rs ((case acquired of Inr _ \<Rightarrow> raw_txs answers | Inl _ \<Rightarrow> []) @ polled polls)
      (fst ?r @ fst (stream_updates mc polls (snd ?r)), snd (stream_updates mc polls (snd ?r)))"
    by (rule emits_append)
  then show ?case by (simp add: polled_def case_prod_beta Let_def)
qed

text \<open>
  The mempool client hands on what it polls without repetition. It admits every distinct hash
  it is offered at least once; any \<open>cap + 2\<close> consecutive admissions have distinct hashes; while
  no more than \<open>cap + 1\<close> different hashes have been seen, each is admitted exactly once; and what
  it yields is the admitted transactions that decode, in the order of the node.
\<close>
theorem mempool_polls_without_repetition:
  "\<exists>B. fst (stream_updates mc polls (tf_new cap)) = List.map_filter (tx_from_cbor_bytes mc) B \<and>
     subseq B (polled polls) \<and> hash_tx_bytes mc ` set B = hash_tx_bytes mc ` set (polled polls) \<and>
     windows (cap + 2) (map (hash_tx_bytes mc) B) \<and>
     (card (hash_tx_bytes mc ` set (polled polls)) \<le> cap + 1 \<longrightarrow> distinct (map (hash_tx_bytes mc) B))"
proof -
  obtain B where B: "fst (stream_updates mc polls (tf_new cap)) = List.map_filter (tx_from_cbor_bytes mc) B"
    "subseq B (polled polls)" "windows (cap + 2) (map (hash_tx_bytes mc) B)"
    "hash_tx_bytes mc ` set B = hash_tx_bytes mc ` set (polled polls)"
    using emits_stream [OF admits_new, of mc cap polls] by (auto simp: emits_def admits_def)
  then show ?thesis using windows_card [OF B(3)] by (intro exI [of _ B]) simp
qed

definition sample_mempool_codec :: "(bytes, bytes) mempool_codec" where
  "sample_mempool_codec = \<lparr> hash_tx_bytes = id, tx_from_cbor_bytes = (\<lambda>b. if b = [] then None else Some b) \<rparr>"

definition sample_polls :: "poll_answers list" where
  "sample_polls = [(Inr (), [Inr (Some [1]), Inr (Some [2]), Inr None]), (Inr (), [Inr (Some [1]), Inr (Some [3])])]"

theorem mempool_polls_without_repetition_witness:
  "\<exists>B. fst (stream_updates sample_mempool_codec sample_polls (tf_new 4)) =
       List.map_filter (tx_from_cbor_bytes sample_mempool_codec) B \<and>
     hash_tx_bytes sample_mempool_codec ` set B = {[1], [2], [3]} \<and>
     distinct (map (hash_tx_bytes sample_mempool_codec) B)"
proof -
  have set: "hash_tx_bytes sample_mempool_codec ` set (polled sample_polls) = {[1], [2], [3]}"
    by (auto simp: polled_def sample_polls_def sample_mempool_codec_def)
  have "card (hash_tx_bytes sample_mempool_codec ` set (polled sample_polls)) \<le> 4 + 1"
    unfolding set by (simp add: card_insert_if)
  then show ?thesis
    using mempool_polls_without_repetition [of sample_mempool_codec sample_polls 4] unfolding set by blast
qed

end
