(* ===== verification/Utxo_Query.thy ===== *)
theory Utxo_Query
  imports Utxo_Index
begin

text \<open>
  The read side of the UTxO index, src/index.rs: the back-fill of the unit index, the bounded
  iterator and \<open>get_utxos\<close>. A panicking slice or \<open>unwrap\<close> is \<open>None\<close>. Offsets, limits and
  key lengths (\<open>usize\<close>) count items held in memory and are naturals.
\<close>

datatype txo = Txo (txo_oref: output_ref) (txo_out: tx_output) (txo_settled_at: "slot option")
  (txo_spent: bool)

datatype txo_query =
    AllTxos "slot option"
  | Unspent
  | UnspentByUnit str
  | ByOutputRef output_ref

definition get_range_iterator ::
    "'s env \<Rightarrow> 's \<Rightarrow> cf \<Rightarrow> bytes \<Rightarrow> bytes option \<Rightarrow> (bytes \<times> bytes) list" where
  "get_range_iterator E s c pre lower_bound =
     (let from = (case lower_bound of Some lb \<Rightarrow> pre @ lb | None \<Rightarrow> pre)
      in r_iter (rdb E) s c pre from)"

definition is_unit_sentinel :: "bytes \<Rightarrow> bytes \<Rightarrow> bool" where
  "is_unit_sentinel p key \<longleftrightarrow> length key = length p + 1 \<and> key ! length p = unit_index_sentinel"

definition backfill_step ::
    "'s env \<Rightarrow> str \<Rightarrow> bytes \<times> bytes \<Rightarrow> bool \<times> 's \<Rightarrow> bool \<times> 's" where
  "backfill_step E unit_prefix = (\<lambda>(key, bs) (found, tx).
     case mp_row_dec E bs of
       None \<Rightarrow> (found, tx)
     | Some (utxo_bytes, _, spent) \<Rightarrow>
         if spent then (found, tx)
         else (case cbor_out_dec E utxo_bytes of
                 None \<Rightarrow> (found, tx)
               | Some out \<Rightarrow>
                   if output_contains_unit E out unit_prefix
                   then (True, r_put (rdb E) tx UnitUnspentCf (unit_index_key_prefix unit_prefix @ key) [])
                   else (found, tx)))"

definition ensure_unit_index :: "'s env \<Rightarrow> 's \<Rightarrow> str \<Rightarrow> 's" where
  "ensure_unit_index E s unit_prefix =
     (let p = unit_index_key_prefix unit_prefix;
          sentinel = unit_index_sentinel_key p
      in if list_ex (\<lambda>(key, _). \<not> is_unit_sentinel p key) (get_range_iterator E s UnitUnspentCf p None)
         then s
         else (case fold (backfill_step E unit_prefix) (r_iter (rdb E) s TxoCf [] []) (False, s) of
                 (found, tx) \<Rightarrow>
                   if found then r_del (rdb E) tx UnitUnspentCf sentinel
                   else r_put (rdb E) tx UnitUnspentCf sentinel []))"

subsection \<open>The two paging loops\<close>

definition lookup_row :: "'s env \<Rightarrow> 's \<Rightarrow> bytes \<Rightarrow> txo_row option" where
  "lookup_row E s key = Option.bind (r_get (rdb E) s TxoCf key) (decode_row E)"

fun scoped_loop ::
    "'s env \<Rightarrow> 's \<Rightarrow> nat \<Rightarrow> str option \<Rightarrow> nat \<Rightarrow> nat \<Rightarrow> nat \<Rightarrow> txo list \<Rightarrow> (bytes \<times> bytes) list \<Rightarrow>
     txo list option" where
  "scoped_loop E s n unit_filter offset limit matched txo_set [] = Some txo_set"
| "scoped_loop E s n unit_filter offset limit matched txo_set ((index, v) # rest) =
     (if length index < n then None
      else
        (case lookup_row E s (drop n index) of
           None \<Rightarrow> scoped_loop E s n unit_filter offset limit matched txo_set rest
         | Some (output, confirmed_at, spent) \<Rightarrow>
             (case utxo_key_dec E (drop n index) of
                None \<Rightarrow> None
              | Some oref \<Rightarrow>
                  if (case unit_filter of Some un \<Rightarrow> \<not> output_contains_unit E output un | None \<Rightarrow> False)
                  then scoped_loop E s n unit_filter offset limit matched txo_set rest
                  else if matched < offset
                  then scoped_loop E s n unit_filter offset limit (matched + 1) txo_set rest
                  else
                    (let txo_set' = txo_set @ [Txo oref output confirmed_at spent]
                     in if limit \<le> length txo_set' then Some txo_set'
                        else scoped_loop E s n unit_filter offset limit (matched + 1) txo_set' rest))))"

fun unit_loop ::
    "'s env \<Rightarrow> 's \<Rightarrow> bytes \<Rightarrow> nat \<Rightarrow> nat \<Rightarrow> nat \<Rightarrow> txo list \<Rightarrow> (bytes \<times> bytes) list \<Rightarrow> txo list option" where
  "unit_loop E s p offset limit matched txo_set [] = Some txo_set"
| "unit_loop E s p offset limit matched txo_set ((key, v) # rest) =
     (if is_unit_sentinel p key then unit_loop E s p offset limit matched txo_set rest
      else if length key < length p then None
      else
        (case lookup_row E s (drop (length p) key) of
           None \<Rightarrow> unit_loop E s p offset limit matched txo_set rest
         | Some (output, settled_at, spent) \<Rightarrow>
             if spent then unit_loop E s p offset limit matched txo_set rest
             else if matched < offset then unit_loop E s p offset limit (matched + 1) txo_set rest
             else
               (case utxo_key_dec E (drop (length p) key) of
                  None \<Rightarrow> None
                | Some oref \<Rightarrow>
                    (let txo_set' = txo_set @ [Txo oref output settled_at spent]
                     in if limit \<le> length txo_set' then Some txo_set'
                        else unit_loop E s p offset limit (matched + 1) txo_set' rest))))"

subsection \<open>The query\<close>

definition get_by_output_ref ::
    "'s env \<Rightarrow> 's \<Rightarrow> (credential \<times> credential_kind) option \<Rightarrow> output_ref \<Rightarrow> nat \<Rightarrow> txo list" where
  "get_by_output_ref E s scope oref offset =
     (if offset > 0 then []
      else
        (case lookup_row E s (utxo_key E oref) of
           None \<Rightarrow> []
         | Some (output, settled_at, spent) \<Rightarrow>
             (case scope of
                None \<Rightarrow> [Txo oref output settled_at spent]
              | Some (cr, kind) \<Rightarrow>
                  if list_ex (\<lambda>(candidate_kind, candidate). candidate_kind = kind \<and> candidate = cr)
                       (output_credentials output)
                  then [Txo oref output settled_at spent] else [])))"

definition get_scoped ::
    "'s env \<Rightarrow> 's \<Rightarrow> cf \<Rightarrow> credential \<Rightarrow> nat \<Rightarrow> bytes option \<Rightarrow> str option \<Rightarrow> nat \<Rightarrow> nat \<Rightarrow>
     txo list option" where
  "get_scoped E s index_cf cr n lower_bound unit_filter offset limit =
     scoped_loop E s n unit_filter offset limit 0 []
       (get_range_iterator E s index_cf (credential_key_prefix cr) lower_bound)"

text \<open>The result, with the database the query leaves; \<open>None\<close> is a panic of the blocking task.\<close>

definition get_utxos ::
    "'s env \<Rightarrow> (credential \<times> credential_kind) option \<Rightarrow> txo_query \<Rightarrow> nat \<Rightarrow> nat \<Rightarrow> 's \<Rightarrow>
     (txo list \<times> 's) option" where
  "get_utxos E scope query offset limit s =
     (if limit = 0 then Some ([], s)
      else
        (case (scope, query) of
           (_, ByOutputRef oref) \<Rightarrow> Some (get_by_output_ref E s scope oref offset, s)
         | (Some (cr, kind), AllTxos least_slot) \<Rightarrow>
             map_option (\<lambda>xs. (xs, s))
               (get_scoped E s (fst (index_cfs kind)) cr (length (credential_key_prefix cr) + 8)
                  (Some (settled_at_key least_slot)) None offset limit)
         | (Some (cr, kind), Unspent) \<Rightarrow>
             map_option (\<lambda>xs. (xs, s))
               (get_scoped E s (snd (index_cfs kind)) cr (length (credential_key_prefix cr))
                  None None offset limit)
         | (Some (cr, kind), UnspentByUnit un) \<Rightarrow>
             map_option (\<lambda>xs. (xs, s))
               (get_scoped E s (snd (index_cfs kind)) cr (length (credential_key_prefix cr))
                  None (Some un) offset limit)
         | (None, UnspentByUnit un) \<Rightarrow>
             (let unit_prefix = to_ascii_lowercase un;
                  s' = ensure_unit_index E s unit_prefix
              in map_option (\<lambda>xs. (xs, s'))
                   (unit_loop E s' unit_prefix offset limit 0 []
                      (get_range_iterator E s' UnitUnspentCf (unit_index_key_prefix unit_prefix) None)))
         | (None, _) \<Rightarrow> Some ([], s)))"

end
