(* ===== verification/Server.thy ===== *)
theory Server
  imports Utxo_Query
begin

text \<open>
  The HTTP handlers of src/server.rs: request types, resolution of the credential a request
  asks for, the response objects, the handlers of \<open>/getUtxos\<close>, \<open>/getUtxosBatch\<close> and
  \<open>/health\<close>. The resolver behind the handlers is the trait \<open>UtxoResolver\<close>, an argument of
  the definitions; \<open>None\<close> is a panic of the handler. Parsing of hashes and bech32 addresses,
  hexadecimal text and the datum hash belong to third-party crates: the record \<open>api\<close>.
\<close>

record api =
  keyhash_from_hex :: "str \<Rightarrow> hash28 option"
  scripthash_from_hex :: "str \<Rightarrow> hash28 option"
  txhash_from_hex :: "str \<Rightarrow> hash32 option"
  addr_from_bech32 :: "str \<Rightarrow> address option"
  addr_payment_cred :: "address \<Rightarrow> credential option"
  hex_enc :: "bytes \<Rightarrow> str"
  raw_hex32 :: "hash32 \<Rightarrow> str"
  raw_hex28 :: "hash28 \<Rightarrow> str"
  datum_hash_of :: "bytes \<Rightarrow> hash32"
  out_to_cbor :: "tx_output \<Rightarrow> bytes"

datatype address_query_mode = ByPaymentCredential | ByStakingCredential

datatype api_output_ref = ApiOutputRef (api_tx_hash: str) (api_output_index: u64)

datatype api_txo_query =
    ApiAll "slot option"
  | ApiUnspent
  | ApiUnspentByUnit str
  | ApiByOutputRef api_output_ref

fun txo_query_try_from :: "api \<Rightarrow> api_txo_query \<Rightarrow> str + txo_query" where
  "txo_query_try_from A (ApiAll sl) = Inr (AllTxos sl)"
| "txo_query_try_from A ApiUnspent = Inr Unspent"
| "txo_query_try_from A (ApiUnspentByUnit un) = Inr (UnspentByUnit un)"
| "txo_query_try_from A (ApiByOutputRef out_ref) =
     (case txhash_from_hex A (api_tx_hash out_ref) of
        None \<Rightarrow> Inl (lit ''Invalid transaction hash format. Expected hex-encoded hash.'')
      | Some h \<Rightarrow> Inr (ByOutputRef (OutputRef h (api_output_index out_ref))))"

record get_txos_lookup =
  lk_address :: "str option"
  lk_hash :: "str option"
  lk_mode :: address_query_mode
  lk_query :: api_txo_query

record get_txos_request =
  rq_lookup :: get_txos_lookup
  rq_offset :: nat
  rq_limit :: nat
  rq_include_cbor_hex :: bool

subsection \<open>Resolution of the credential\<close>

definition credential_from_hash :: "api \<Rightarrow> str \<Rightarrow> str + credential" where
  "credential_from_hash A hash_str =
     (case keyhash_from_hex A hash_str of
        Some h \<Rightarrow> Inr (PubKey h)
      | None \<Rightarrow>
          (case scripthash_from_hex A hash_str of
             Some h \<Rightarrow> Inr (Script h)
           | None \<Rightarrow> Inl (lit ''Invalid key hash format. Expected hex-encoded hash.'')))"

definition resolve_request_credentials ::
    "api \<Rightarrow> str option \<Rightarrow> str option \<Rightarrow> address_query_mode \<Rightarrow> api_txo_query \<Rightarrow>
     str + (credential \<times> credential_kind) option" where
  "resolve_request_credentials A addr hsh mode query =
     (case addr of
        Some a \<Rightarrow>
          (case addr_from_bech32 A a of
             None \<Rightarrow> Inl (lit ''Invalid address format.'')
           | Some ad \<Rightarrow>
               (case mode of
                  ByPaymentCredential \<Rightarrow>
                    (case addr_payment_cred A ad of
                       Some cr \<Rightarrow> Inr (Some (cr, Payment))
                     | None \<Rightarrow> Inl (lit ''Address does not contain a payment credential.''))
                | ByStakingCredential \<Rightarrow>
                    (case ad of
                       Base pay stk \<Rightarrow> Inr (Some (stk, Stake))
                     | Reward pay \<Rightarrow> Inr (Some (pay, Stake))
                     | _ \<Rightarrow> Inl (lit ''Address does not provide a staking credential for the requested mode.''))))
      | None \<Rightarrow>
          (case hsh of
             Some h \<Rightarrow>
               (case credential_from_hash A h of
                  Inl err \<Rightarrow> Inl err
                | Inr cr \<Rightarrow>
                    Inr (Some (cr, case mode of ByPaymentCredential \<Rightarrow> Payment | ByStakingCredential \<Rightarrow> Stake)))
           | None \<Rightarrow>
               (case query of
                  ApiUnspentByUnit _ \<Rightarrow> Inr None
                | ApiByOutputRef _ \<Rightarrow> Inr None
                | _ \<Rightarrow> Inl (lit ''Either address or hash field is required unless querying unspentByUnit without a credential or byOutputRef.''))))"

subsection \<open>Response objects\<close>

datatype asset = Asset (policy_id: str) (base16_name: str) (amount: str)

datatype script_type = NativeT | PlutusV1T | PlutusV2T | PlutusV3T

datatype script_ref_dto = ScriptRefDto (script_type: script_type) (script: str)

fun from_script_ref :: "api \<Rightarrow> script_ref \<Rightarrow> script_ref_dto" where
  "from_script_ref A (NativeScript bs) = ScriptRefDto NativeT (hex_enc A bs)"
| "from_script_ref A (PlutusV1Script bs) = ScriptRefDto PlutusV1T (hex_enc A bs)"
| "from_script_ref A (PlutusV2Script bs) = ScriptRefDto PlutusV2T (hex_enc A bs)"
| "from_script_ref A (PlutusV3Script bs) = ScriptRefDto PlutusV3T (hex_enc A bs)"

record utxo_dto =
  ux_transaction_hash :: hash32
  ux_index :: u64
  ux_address :: address
  ux_value :: "asset list"
  ux_settled_at :: "slot option"
  ux_spent :: bool
  ux_datum_hash :: "str option"
  ux_datum :: "str option"
  ux_script_ref :: "script_ref_dto option"

record utxo_cbor =
  uc_transaction_hash :: hash32
  uc_index :: u64
  uc_cbor :: str

fun datum_fields :: "api \<Rightarrow> datum_option option \<Rightarrow> str option \<times> str option" where
  "datum_fields A None = (None, None)"
| "datum_fields A (Some (DatumHash h)) = (Some (raw_hex32 A h), None)"
| "datum_fields A (Some (InlineDatum bs)) = (Some (raw_hex32 A (datum_hash_of A bs)), Some (hex_enc A bs))"

definition asset_list :: "api \<Rightarrow> tx_value \<Rightarrow> asset list" where
  "asset_list A v =
     Asset [] [] (u64_display (coin v)) #
     concat (map (\<lambda>(pol, assets). map (\<lambda>(name, amt). Asset (raw_hex28 A pol) (hex_enc A name) (u64_display amt)) assets)
       (multiasset v))"

fun output_script_ref :: "tx_output \<Rightarrow> script_ref option" where
  "output_script_ref (AlonzoFormatTxOut a v d) = None"
| "output_script_ref (ConwayFormatTxOut a v d s) = s"

definition utxo_from_txo :: "api \<Rightarrow> txo \<Rightarrow> utxo_dto" where
  "utxo_from_txo A t =
     (case datum_fields A (output_datum (txo_out t)) of (dh, d) \<Rightarrow>
       \<lparr> ux_transaction_hash = tx_hash (txo_oref t),
         ux_index = out_index (txo_oref t),
         ux_address = output_address (txo_out t),
         ux_value = asset_list A (output_value (txo_out t)),
         ux_settled_at = txo_settled_at t,
         ux_spent = txo_spent t,
         ux_datum_hash = dh,
         ux_datum = d,
         ux_script_ref = map_option (from_script_ref A) (output_script_ref (txo_out t)) \<rparr>)"

definition utxo_cbor_from_txo :: "api \<Rightarrow> txo \<Rightarrow> utxo_cbor" where
  "utxo_cbor_from_txo A t =
     \<lparr> uc_transaction_hash = tx_hash (txo_oref t),
       uc_index = out_index (txo_oref t),
       uc_cbor = hex_enc A (out_to_cbor A (txo_out t)) \<rparr>"

datatype utxo_response = Detailed utxo_dto | Compact utxo_cbor

definition to_response :: "api \<Rightarrow> bool \<Rightarrow> txo \<Rightarrow> utxo_response" where
  "to_response A include_cbor_hex t =
     (if include_cbor_hex then Compact (utxo_cbor_from_txo A t) else Detailed (utxo_from_txo A t))"

subsection \<open>The handlers\<close>

type_synonym 's resolver =
  "(credential \<times> credential_kind) option \<Rightarrow> txo_query \<Rightarrow> nat \<Rightarrow> nat \<Rightarrow> 's \<Rightarrow> (txo list \<times> 's) option"

datatype 'b http = HttpOk 'b | HttpBadRequest str | HttpServiceUnavailable | HttpFound str

definition handle_get_utxos ::
    "api \<Rightarrow> 's resolver \<Rightarrow> get_txos_request \<Rightarrow> 's \<Rightarrow> (utxo_response list http \<times> 's) option" where
  "handle_get_utxos A db req s =
     (let lookup = rq_lookup req; query_api = lk_query lookup in
      case resolve_request_credentials A (lk_address lookup) (lk_hash lookup) (lk_mode lookup) query_api of
        Inl err \<Rightarrow> Some (HttpBadRequest err, s)
      | Inr scope \<Rightarrow>
          (case txo_query_try_from A query_api of
             Inl err \<Rightarrow> Some (HttpBadRequest err, s)
           | Inr query \<Rightarrow>
               map_option (\<lambda>(utxos, s'). (HttpOk (map (to_response A (rq_include_cbor_hex req)) utxos), s'))
                 (db scope query (rq_offset req) (rq_limit req) s)))"

record batch_item =
  bi_request :: get_txos_lookup
  bi_utxos :: "utxo_response list"
  bi_error :: "str option"

record batch_request =
  br_requests :: "get_txos_lookup list"
  br_offset :: nat
  br_limit :: nat
  br_include_cbor_hex :: bool

record batch_response =
  bs_offset :: nat
  bs_limit :: nat
  bs_responses :: "batch_item list"

fun batch_loop ::
    "api \<Rightarrow> 's resolver \<Rightarrow> nat \<Rightarrow> nat \<Rightarrow> bool \<Rightarrow> batch_item list \<Rightarrow> get_txos_lookup list \<Rightarrow> 's \<Rightarrow>
     (batch_item list \<times> 's) option" where
  "batch_loop A db offset limit cbor responses [] s = Some (responses, s)"
| "batch_loop A db offset limit cbor responses (request # requests) s =
     (case resolve_request_credentials A (lk_address request) (lk_hash request) (lk_mode request) (lk_query request) of
        Inr scope \<Rightarrow>
          (case txo_query_try_from A (lk_query request) of
             Inl err \<Rightarrow>
               batch_loop A db offset limit cbor
                 (responses @ [\<lparr> bi_request = request, bi_utxos = [], bi_error = Some err \<rparr>]) requests s
           | Inr query \<Rightarrow>
               (case db scope query offset limit s of
                  None \<Rightarrow> None
                | Some (utxos, s') \<Rightarrow>
                    batch_loop A db offset limit cbor
                      (responses @ [\<lparr> bi_request = request, bi_utxos = map (to_response A cbor) utxos,
                                      bi_error = None \<rparr>]) requests s'))
      | Inl err \<Rightarrow>
          batch_loop A db offset limit cbor
            (responses @ [\<lparr> bi_request = request, bi_utxos = [], bi_error = Some err \<rparr>]) requests s)"

definition handle_get_utxos_batch ::
    "api \<Rightarrow> 's resolver \<Rightarrow> batch_request \<Rightarrow> 's \<Rightarrow> (batch_response http \<times> 's) option" where
  "handle_get_utxos_batch A db req s =
     map_option (\<lambda>(responses, s').
         (HttpOk \<lparr> bs_offset = br_offset req, bs_limit = br_limit req, bs_responses = responses \<rparr>, s'))
       (batch_loop A db (br_offset req) (br_limit req) (br_include_cbor_hex req) [] (br_requests req) s)"

definition healthcheck :: "bool \<Rightarrow> unit http" where
  "healthcheck state_synced = (if state_synced then HttpOk () else HttpServiceUnavailable)"

definition swagger_ui_redirect :: "unit http" where
  "swagger_ui_redirect = HttpFound (lit ''/docs/'')"

end
