(* ===== verification/Utxo_Index_Laws.thy ===== *)
theory Utxo_Index_Laws
  imports Utxo_Index
begin

text \<open>
  What the UTxO index relies on, and what each of its write operations does to every column
  family. The locale \<open>index_env\<close> extends the database interface by the laws of the
  serialisers: decoding inverts encoding, a MessagePack string is a header whose first byte
  is at least 128 followed by the text, hexadecimal text is ASCII and has no \<open>#\<close>.
\<close>

abbreviation cf_events :: "credential_kind \<Rightarrow> cf" where
  "cf_events kind \<equiv> fst (index_cfs kind)"

abbreviation cf_unspent :: "credential_kind \<Rightarrow> cf" where
  "cf_unspent kind \<equiv> snd (index_cfs kind)"

lemma cf_simps [simp]:
  "cf_events kind = cf_events kind' \<longleftrightarrow> kind = kind'"
  "cf_unspent kind = cf_unspent kind' \<longleftrightarrow> kind = kind'"
  "cf_events kind \<noteq> cf_unspent kind'" "cf_unspent kind' \<noteq> cf_events kind"
  "cf_events kind \<noteq> TxoCf" "cf_unspent kind \<noteq> TxoCf"
  "TxoCf \<noteq> cf_events kind" "TxoCf \<noteq> cf_unspent kind"
  "cf_events kind \<noteq> UnitUnspentCf" "cf_unspent kind \<noteq> UnitUnspentCf"
  "UnitUnspentCf \<noteq> cf_events kind" "UnitUnspentCf \<noteq> cf_unspent kind"
  by (cases kind; cases kind'; simp)+

lemma case_index_cfs: "(case index_cfs kind of (a, b) \<Rightarrow> f a b) = f (cf_events kind) (cf_unspent kind)"
  by (simp add: case_prod_beta)

lemma length_credential_key_prefix [simp]: "length (credential_key_prefix cr) = 29"
  by (cases cr) (simp_all add: credential_key_prefix_def)

lemma credential_key_prefix_eq_iff [key_simps]:
  "credential_key_prefix a = credential_key_prefix b \<longleftrightarrow> a = b"
  by (cases a; cases b) (simp_all add: credential_key_prefix_def key_simps)

lemma length_settled_at_key [simp]: "length (settled_at_key sl) = 8"
  by (simp add: settled_at_key_def)

abbreviation event_slot :: "slot option \<Rightarrow> slot" where
  "event_slot sl \<equiv> (case sl of None \<Rightarrow> u64_max | Some x \<Rightarrow> x)"

lemma settled_at_key_eq_iff [key_simps]:
  "settled_at_key a = settled_at_key b \<longleftrightarrow> event_slot a = event_slot b"
  by (simp add: settled_at_key_def key_simps)

lemma ascii_lower_less: "b < 128 \<Longrightarrow> ascii_lower b < 128"
  by (auto simp: ascii_lower_def word_less_nat_alt word_le_nat_alt unat_word_ariths)

locale index_env = rocksdb "rdb E" for E :: "'s env" +
  assumes mp_str_dec: "mp_str_dec E (mp_str E x) = Some x"
    and mp_str_shape: "\<exists>b hdr. mp_str E x = b # hdr @ x \<and> 128 \<le> b"
    and mp_row_dec: "mp_row_dec E (mp_row E row) = Some row"
    and cbor_out_dec: "cbor_out_dec E (cbor_out E out) = Some out"
    and hash_unhex: "hash_unhex E (hash_hex E h) = Some h"
    and hash_hex_char: "35 \<notin> set (hash_hex E h)"
    and policy_ascii: "b \<in> set (policy_hex E p) \<Longrightarrow> b < 128"
    and asset_ascii: "b \<in> set (asset_hex E a) \<Longrightarrow> b < 128"
begin

subsection \<open>Keys\<close>

lemma utxo_key_dec [simp]: "utxo_key_dec E (utxo_key E r) = Some r"
  by (simp add: utxo_key_dec_def utxo_key_def mp_str_dec
      output_ref_from_str_display hash_unhex hash_hex_char)

lemma utxo_key_eq_iff [key_simps]: "utxo_key E r = utxo_key E r' \<longleftrightarrow> r = r'"
  by (metis utxo_key_dec option.inject)

lemma utxo_key_head: "\<exists>b bs. utxo_key E r = b # bs \<and> 128 \<le> b"
  using mp_str_shape [of "output_ref_display (hash_hex E) r"] by (auto simp: utxo_key_def)

lemma utxo_key_last: "utxo_key E r \<noteq> [] \<and> 48 \<le> last (utxo_key E r)"
proof -
  obtain b hdr where k: "utxo_key E r = b # hdr @ hash_hex E (tx_hash r) @ 35 # u64_display (out_index r)"
    using mp_str_shape [of "output_ref_display (hash_hex E) r"]
    by (auto simp: utxo_key_def output_ref_display_def)
  have ne: "u64_display (out_index r) \<noteq> []"
    by (simp add: u64_display_def dec_digits_nonempty)
  then have "last (utxo_key E r) \<in> set (u64_display (out_index r))"
    by (simp add: k)
  then show ?thesis
    using dec_digits_range by (auto simp: k u64_display_def)
qed

lemma unspent_key_eq_iff [key_simps]:
  "credential_to_utxo_unspent_key E cr r = credential_to_utxo_unspent_key E cr' r' \<longleftrightarrow>
     cr = cr' \<and> r = r'"
  by (simp add: credential_to_utxo_unspent_key_def append_eq_append_conv key_simps)

lemma all_key_eq_iff [key_simps]:
  "credential_to_utxo_all_key E cr sl r = credential_to_utxo_all_key E cr' sl' r' \<longleftrightarrow>
     cr = cr' \<and> event_slot sl = event_slot sl' \<and> r = r'"
  by (simp add: credential_to_utxo_all_key_def append_eq_append_conv key_simps)

lemma drop_unspent_key [simp]:
  "drop (length (credential_key_prefix cr')) (credential_to_utxo_unspent_key E cr r) = utxo_key E r"
  by (simp add: credential_to_utxo_unspent_key_def)

lemma drop_all_key [simp]:
  "drop (length (credential_key_prefix cr') + 8) (credential_to_utxo_all_key E cr sl r) = utxo_key E r"
  by (simp add: credential_to_utxo_all_key_def)

lemma prefix_unspent_key [key_simps]:
  "prefix (credential_key_prefix cr') (credential_to_utxo_unspent_key E cr r) \<longleftrightarrow> cr' = cr"
proof
  assume "prefix (credential_key_prefix cr') (credential_to_utxo_unspent_key E cr r)"
  then obtain zs where "credential_key_prefix cr @ utxo_key E r = credential_key_prefix cr' @ zs"
    by (auto simp: prefix_def credential_to_utxo_unspent_key_def)
  then show "cr' = cr" by (simp add: append_eq_append_conv key_simps)
qed (simp add: credential_to_utxo_unspent_key_def)

lemma prefix_all_key [key_simps]:
  "prefix (credential_key_prefix cr') (credential_to_utxo_all_key E cr sl r) \<longleftrightarrow> cr' = cr"
proof
  assume "prefix (credential_key_prefix cr') (credential_to_utxo_all_key E cr sl r)"
  then obtain zs where "credential_key_prefix cr @ settled_at_key sl @ utxo_key E r =
      credential_key_prefix cr' @ zs"
    by (auto simp: prefix_def credential_to_utxo_all_key_def)
  then show "cr' = cr" by (simp add: append_eq_append_conv key_simps)
qed (simp add: credential_to_utxo_all_key_def)

lemma units_ascii: "un \<in> set (output_units E out) \<Longrightarrow> b \<in> set un \<Longrightarrow> b < 128"
  by (auto simp: output_units_def to_ascii_lowercase_def intro!: ascii_lower_less
      dest: policy_ascii asset_ascii)

lemma entry_key_split:
  assumes "\<And>b. b \<in> set un \<Longrightarrow> b < 128"
  shows "takeWhile (\<lambda>b. b < 128) (unit_index_entry_key E un r) = un"
proof -
  obtain b bs where "utxo_key E r = b # bs" "128 \<le> b" using utxo_key_head by blast
  then show ?thesis
    using assms by (simp add: unit_index_entry_key_def takeWhile_append2 takeWhile_tail not_less)
qed

lemma entry_key_eq_iff:
  assumes "\<And>b. b \<in> set un \<Longrightarrow> b < 128" "\<And>b. b \<in> set un' \<Longrightarrow> b < 128"
  shows "unit_index_entry_key E un r = unit_index_entry_key E un' r' \<longleftrightarrow> un = un' \<and> r = r'"
proof
  assume eq: "unit_index_entry_key E un r = unit_index_entry_key E un' r'"
  then have "un = un'" using entry_key_split [OF assms(1)] entry_key_split [OF assms(2)] by metis
  with eq show "un = un' \<and> r = r'" by (simp add: unit_index_entry_key_def key_simps)
qed simp

lemma entry_not_sentinel: "unit_index_entry_key E un r \<noteq> unit_index_sentinel_key un'"
proof
  assume "unit_index_entry_key E un r = unit_index_sentinel_key un'"
  then have "last (un @ utxo_key E r) = last (un' @ [0])"
    by (simp add: unit_index_entry_key_def unit_index_sentinel_key_def unit_index_sentinel_def)
  moreover have "last (un @ utxo_key E r) = last (utxo_key E r)" using utxo_key_last by simp
  ultimately have "last (utxo_key E r) = 0" by simp
  moreover have "48 \<le> last (utxo_key E r)" using utxo_key_last by blast
  ultimately show False by simp
qed

lemma decode_row_enc [simp]: "decode_row E (mp_row E (cbor_out E out, st, sp)) = Some (out, st, sp)"
  by (simp add: decode_row_def mp_row_dec cbor_out_dec)

end

end
