(* ===== verification/Utxo_Index_Inv.thy ===== *)
theory Utxo_Index_Inv
  imports Utxo_Index_Laws
begin

text \<open>
  The effect of every write operation of src/index.rs on every column family, the invariant
  that the unspent and unit indexes list exactly the unspent outputs, and its preservation by
  \<open>apply\<close> and \<open>unapply\<close>.
\<close>

definition written_key ::
    "'s env \<Rightarrow> (credential_kind \<times> credential) list \<Rightarrow> output_ref \<Rightarrow> slot option \<Rightarrow> bool \<Rightarrow> cf \<Rightarrow> bytes \<Rightarrow> bool" where
  "written_key E creds r sl spent c k \<longleftrightarrow>
     (\<exists>(kind, cr) \<in> set creds.
        (c = cf_events kind \<and> k = credential_to_utxo_all_key E cr sl r) \<or>
        (\<not> spent \<and> c = cf_unspent kind \<and> k = credential_to_utxo_unspent_key E cr r))"

definition deleted_key ::
    "'s env \<Rightarrow> (credential_kind \<times> credential) list \<Rightarrow> output_ref \<Rightarrow> slot option \<Rightarrow> cf \<Rightarrow> bytes \<Rightarrow> bool" where
  "deleted_key E creds r st c k \<longleftrightarrow>
     (\<exists>(kind, cr) \<in> set creds.
        (c = cf_events kind \<and> k = credential_to_utxo_all_key E cr st r) \<or>
        (c = cf_unspent kind \<and> k = credential_to_utxo_unspent_key E cr r))"

definition unit_entry :: "'s env \<Rightarrow> tx_output \<Rightarrow> output_ref \<Rightarrow> cf \<Rightarrow> bytes \<Rightarrow> bool" where
  "unit_entry E out r c k \<longleftrightarrow>
     c = UnitUnspentCf \<and> (\<exists>un \<in> set (output_units E out). k = unit_index_entry_key E un r)"

definition unit_sentinel :: "'s env \<Rightarrow> tx_output \<Rightarrow> cf \<Rightarrow> bytes \<Rightarrow> bool" where
  "unit_sentinel E out c k \<longleftrightarrow>
     c = UnitUnspentCf \<and> (\<exists>un \<in> set (output_units E out). k = unit_index_sentinel_key un)"

lemmas index_key_defs = written_key_def deleted_key_def unit_entry_def unit_sentinel_def

lemma index_keys_not_txo [simp]:
  "\<not> written_key E creds r sl spent TxoCf k" "\<not> deleted_key E creds r st TxoCf k"
  "\<not> unit_entry E out r TxoCf k" "\<not> unit_sentinel E out TxoCf k"
  by (auto simp: index_key_defs)

lemma index_keys_unit [simp]:
  "\<not> written_key E creds r sl spent UnitUnspentCf k" "\<not> deleted_key E creds r st UnitUnspentCf k"
  by (auto simp: index_key_defs)

lemma unit_keys_credential [simp]:
  "\<not> unit_entry E out r (cf_events kind) k" "\<not> unit_entry E out r (cf_unspent kind) k"
  "\<not> unit_sentinel E out (cf_events kind) k" "\<not> unit_sentinel E out (cf_unspent kind) k"
  by (auto simp: index_key_defs)

subsection \<open>The invariant\<close>

text \<open>
  Every row of the table is stored under the key of its reference and decodes; the two
  unspent indexes hold exactly the keys of the unspent outputs and their credentials; the unit
  index holds exactly the entries of the unspent outputs and their units, beside sentinels.
\<close>

definition txo_inv :: "'s env \<Rightarrow> 's \<Rightarrow> bool" where
  "txo_inv E s \<longleftrightarrow>
     (\<forall>k v. r_get (rdb E) s TxoCf k = Some v \<longrightarrow>
        (\<exists>r row. k = utxo_key E r \<and> decode_row E v = Some row))"

definition unspent_with :: "'s env \<Rightarrow> 's \<Rightarrow> output_ref \<Rightarrow> (tx_output \<Rightarrow> bool) \<Rightarrow> bool" where
  "unspent_with E s r P \<longleftrightarrow>
     (case get_utxo_by_ref E s r of Some (out, st, sp) \<Rightarrow> \<not> sp \<and> P out | None \<Rightarrow> False)"

definition unspent_inv :: "'s env \<Rightarrow> 's \<Rightarrow> bool" where
  "unspent_inv E s \<longleftrightarrow>
     (\<forall>kind k. r_get (rdb E) s (cf_unspent kind) k \<noteq> None \<longrightarrow>
        (\<exists>cr r. k = credential_to_utxo_unspent_key E cr r)) \<and>
     (\<forall>kind cr r. r_get (rdb E) s (cf_unspent kind) (credential_to_utxo_unspent_key E cr r) \<noteq> None \<longleftrightarrow>
        unspent_with E s r (\<lambda>out. (kind, cr) \<in> set (output_credentials out)))"

definition ascii_text :: "str \<Rightarrow> bool" where
  "ascii_text x \<longleftrightarrow> (\<forall>b \<in> set x. b < 128)"

definition unit_inv :: "'s env \<Rightarrow> 's \<Rightarrow> bool" where
  "unit_inv E s \<longleftrightarrow>
     (\<forall>k. r_get (rdb E) s UnitUnspentCf k \<noteq> None \<longrightarrow>
        (\<exists>un r. ascii_text un \<and> k = unit_index_entry_key E un r) \<or>
        (\<exists>un. k = unit_index_sentinel_key un)) \<and>
     (\<forall>un r. ascii_text un \<longrightarrow>
        r_get (rdb E) s UnitUnspentCf (unit_index_entry_key E un r) \<noteq> None \<longleftrightarrow>
        unspent_with E s r (\<lambda>out. un \<in> set (output_units E out)))"

definition index_inv :: "'s env \<Rightarrow> 's \<Rightarrow> bool" where
  "index_inv E s \<longleftrightarrow> txo_inv E s \<and> unspent_inv E s \<and> unit_inv E s"

text \<open>
  The event indexes are weaker: every key belongs to some output with that credential, and
  every known output has a key, at its settlement slot while it is unspent. Which output a
  reference names is fixed by the transaction hash, so it is the function \<open>outs\<close>.
\<close>

definition events_inv :: "'s env \<Rightarrow> (output_ref \<Rightarrow> tx_output) \<Rightarrow> 's \<Rightarrow> bool" where
  "events_inv E outs s \<longleftrightarrow>
     (\<forall>r out st sp. get_utxo_by_ref E s r = Some (out, st, sp) \<longrightarrow> out = outs r) \<and>
     (\<forall>kind k. r_get (rdb E) s (cf_events kind) k \<noteq> None \<longrightarrow>
        (\<exists>cr sl r. k = credential_to_utxo_all_key E cr sl r \<and> (kind, cr) \<in> set (output_credentials (outs r)))) \<and>
     (\<forall>r out st sp kind cr. get_utxo_by_ref E s r = Some (out, st, sp) \<and>
        (kind, cr) \<in> set (output_credentials out) \<longrightarrow>
        (\<exists>sl. r_get (rdb E) s (cf_events kind) (credential_to_utxo_all_key E cr sl r) \<noteq> None \<and>
              (\<not> sp \<longrightarrow> sl = st)))"

context index_env
begin

subsection \<open>Effects on the column families\<close>

lemma get_delete_all_indexes [store_simps]:
  "r_get (rdb E) (delete_all_indexes E creds st r s) c k =
     (if deleted_key E creds r st c k then None else r_get (rdb E) s c k)"
  by (induction creds arbitrary: s)
    (auto simp: delete_all_indexes_def case_index_cfs delete_indexes_def get_del Let_def deleted_key_def
      split: prod.splits)

lemma get_write_all_indexes [store_simps]:
  "r_get (rdb E) (write_all_indexes E creds r sl spent s) c k =
     (if written_key E creds r sl spent c k then Some [] else r_get (rdb E) s c k)"
  by (induction creds arbitrary: s)
    (auto simp: write_all_indexes_def case_index_cfs write_secondary_indexes_def get_put Let_def
      written_key_def split: prod.splits)

lemma get_delete_unit_indexes [store_simps]:
  "r_get (rdb E) (delete_unit_indexes E s out r) c k =
     (if unit_entry E out r c k then None else r_get (rdb E) s c k)"
proof -
  have "r_get (rdb E) (fold (\<lambda>un tx. r_del (rdb E) tx UnitUnspentCf
          (unit_index_entry_key E (unit_index_key_prefix un) r)) us s) c k =
        (if c = UnitUnspentCf \<and> (\<exists>un \<in> set us. k = unit_index_entry_key E un r)
         then None else r_get (rdb E) s c k)" for us
    by (induction us arbitrary: s) (auto simp: get_del unit_index_key_prefix_def)
  then show ?thesis by (simp add: delete_unit_indexes_def unit_entry_def)
qed

lemma get_write_unit_indexes [store_simps]:
  "r_get (rdb E) (write_unit_indexes E s out r) c k =
     (if unit_entry E out r c k then Some []
      else if unit_sentinel E out c k then None else r_get (rdb E) s c k)"
proof -
  have "r_get (rdb E) (fold (\<lambda>un tx.
        let p = unit_index_key_prefix un;
            tx1 = r_del (rdb E) tx UnitUnspentCf (unit_index_sentinel_key p)
        in r_put (rdb E) tx1 UnitUnspentCf (unit_index_entry_key E p r) []) us s) c k =
      (if c = UnitUnspentCf \<and> (\<exists>un \<in> set us. k = unit_index_entry_key E un r) then Some []
       else if c = UnitUnspentCf \<and> (\<exists>un \<in> set us. k = unit_index_sentinel_key un) then None
       else r_get (rdb E) s c k)" for us
    by (induction us arbitrary: s)
      (auto simp: get_del get_put unit_index_key_prefix_def Let_def entry_not_sentinel
        entry_not_sentinel [symmetric])
  note * = this
  show ?thesis unfolding write_unit_indexes_def unit_entry_def unit_sentinel_def by (rule *)
qed

lemma get_write_txo [store_simps]:
  "r_get (rdb E) (write_txo E s r out st sp) c k =
     (if c = TxoCf \<and> k = utxo_key E r then Some (mp_row E (cbor_out E out, st, sp))
      else r_get (rdb E) s c k)"
  by (simp add: write_txo_def get_put)

text \<open>The interleaved loop of \<open>update_txo_by_ref\<close>: delete, then write, per credential.\<close>

lemma get_reindex_credentials [store_simps]:
  "r_get (rdb E) (reindex_credentials E creds st r sl sp s) c k =
     (if written_key E creds r (if sp then sl else st) sp c k then Some []
      else if deleted_key E creds r st c k then None else r_get (rdb E) s c k)"
proof -
  define w where "w = (if sp then sl else st)"
  define f where "f = (\<lambda>(kind, cr) tx.
        case index_cfs kind of (events_cf, unspent_cf) \<Rightarrow>
          let tx' = delete_indexes E tx events_cf unspent_cf cr st r;
              (index_slot, index_spent) = (if sp then (sl, True) else (st, False))
          in write_secondary_indexes E tx' events_cf unspent_cf cr r index_slot index_spent)"
  have step: "r_get (rdb E) (f (kind, cr) t) c k =
      (if written_key E [(kind, cr)] r w sp c k then Some []
       else if deleted_key E [(kind, cr)] r st c k then None else r_get (rdb E) t c k)" for kind cr t
    by (simp add: f_def case_index_cfs delete_indexes_def write_secondary_indexes_def
        get_put get_del Let_def w_def written_key_def deleted_key_def)
  have "r_get (rdb E) (fold f creds s) c k =
     (if written_key E creds r w sp c k then Some []
      else if deleted_key E creds r st c k then None else r_get (rdb E) s c k)"
  proof (induction creds rule: rev_induct)
    case Nil
    then show ?case by (simp add: written_key_def deleted_key_def)
  next
    case (snoc x xs)
    obtain kind cr where x: "x = (kind, cr)" by (cases x)
    have written: "written_key E (xs @ [x]) r w sp c k \<longleftrightarrow>
        written_key E xs r w sp c k \<or> written_key E [(kind, cr)] r w sp c k"
      by (auto simp: written_key_def x)
    have deleted: "deleted_key E (xs @ [x]) r st c k \<longleftrightarrow>
        deleted_key E xs r st c k \<or> deleted_key E [(kind, cr)] r st c k"
      by (auto simp: deleted_key_def x)
    have over: "written_key E [(kind, cr)] r w sp c k"
      if "written_key E xs r w sp c k" "deleted_key E [(kind, cr)] r st c k"
      using that by (auto simp: written_key_def deleted_key_def key_simps)
    show ?case
      unfolding written deleted by (auto simp: step x snoc dest: over)
  qed
  then show ?thesis by (simp only: reindex_credentials_def f_def w_def)
qed

subsection \<open>Effects of the transaction steps\<close>

lemma get_update_unspent_txo:
  "r_get (rdb E) (update_unspent_txo E s r out st) c k =
     (let old = get_utxo_by_ref E s r;
          spent = (case old of Some (_, _, sp) \<Rightarrow> sp | None \<Rightarrow> False)
      in if c = TxoCf \<and> k = utxo_key E r then Some (mp_row E (cbor_out E out, st, spent))
         else if \<not> spent \<and> unit_entry E out r c k then Some []
         else if \<not> spent \<and> unit_sentinel E out c k then None
         else if written_key E (output_credentials out) r st spent c k then Some []
         else (case old of
                 Some (o', st', _) \<Rightarrow>
                   if unit_entry E o' r c k \<or> deleted_key E (output_credentials o') r st' c k
                   then None else r_get (rdb E) s c k
               | None \<Rightarrow> r_get (rdb E) s c k))"
  by (auto simp: update_unspent_txo_def Let_def store_simps get_del split: option.splits prod.splits)

lemma get_update_txo_by_ref:
  "r_get (rdb E) (update_txo_by_ref E s r sl sp) c k =
     (case get_utxo_by_ref E s r of
        None \<Rightarrow> r_get (rdb E) s c k
      | Some (out, st, _) \<Rightarrow>
          if c = TxoCf \<and> k = utxo_key E r then Some (mp_row E (cbor_out E out, st, sp))
          else if \<not> sp \<and> unit_entry E out r c k then Some []
          else if unit_entry E out r c k then None
          else if \<not> sp \<and> unit_sentinel E out c k then None
          else if written_key E (output_credentials out) r (if sp then sl else st) sp c k then Some []
          else if deleted_key E (output_credentials out) r st c k then None
          else r_get (rdb E) s c k)"
  by (auto simp: update_txo_by_ref_def Let_def store_simps
      split: option.splits prod.splits)

lemma get_delete_txo_and_indexes:
  "r_get (rdb E) (delete_txo_and_indexes E s r) c k =
     (case get_utxo_by_ref E s r of
        None \<Rightarrow> r_get (rdb E) s c k
      | Some (out, st, _) \<Rightarrow>
          if (c = TxoCf \<and> k = utxo_key E r) \<or> unit_entry E out r c k \<or>
             deleted_key E (output_credentials out) r st c k
          then None else r_get (rdb E) s c k)"
  by (auto simp: delete_txo_and_indexes_def store_simps get_del split: option.splits prod.splits)

subsection \<open>Effects on the table of outputs\<close>

lemma view_update_unspent_txo:
  "get_utxo_by_ref E (update_unspent_txo E s r out st) r' =
     (if r' = r then
        Some (out, st, case get_utxo_by_ref E s r of Some (_, _, sp) \<Rightarrow> sp | None \<Rightarrow> False)
      else get_utxo_by_ref E s r')"
  by (auto simp: get_utxo_by_ref_def [of _ _ r'] get_update_unspent_txo key_simps Let_def
      split: option.splits prod.splits)

lemma view_update_txo_by_ref:
  "get_utxo_by_ref E (update_txo_by_ref E s r sl sp) r' =
     (if r' = r then map_option (\<lambda>(out, st, _). (out, st, sp)) (get_utxo_by_ref E s r)
      else get_utxo_by_ref E s r')"
  by (auto simp: get_utxo_by_ref_def [of _ _ r'] get_update_txo_by_ref key_simps
      split: option.splits prod.splits)
    (auto simp: get_utxo_by_ref_def)

lemma view_delete_txo_and_indexes:
  "get_utxo_by_ref E (delete_txo_and_indexes E s r) r' =
     (if r' = r then None else get_utxo_by_ref E s r')"
  by (auto simp: get_utxo_by_ref_def [of _ _ r'] get_delete_txo_and_indexes key_simps
      split: option.splits prod.splits)
    (auto simp: get_utxo_by_ref_def)

subsection \<open>Preservation\<close>

lemmas step_gets = get_update_unspent_txo get_update_txo_by_ref get_delete_txo_and_indexes
lemmas step_views = view_update_unspent_txo view_update_txo_by_ref view_delete_txo_and_indexes

lemma txo_inv_steps:
  assumes "txo_inv E s"
  shows "txo_inv E (update_unspent_txo E s r out st)"
    and "txo_inv E (update_txo_by_ref E s r sl sp)"
    and "txo_inv E (delete_txo_and_indexes E s r)"
  using assms unfolding txo_inv_def
  by (auto simp: step_gets Let_def split: option.splits prod.splits if_splits)

lemma unspent_key_cases:
  "written_key E creds r sl sp (cf_unspent kind) k \<longleftrightarrow>
     \<not> sp \<and> (\<exists>cr. (kind, cr) \<in> set creds \<and> k = credential_to_utxo_unspent_key E cr r)"
  "deleted_key E creds r sl (cf_unspent kind) k \<longleftrightarrow>
     (\<exists>cr. (kind, cr) \<in> set creds \<and> k = credential_to_utxo_unspent_key E cr r)"
  by (auto simp: written_key_def deleted_key_def)

lemma unspent_inv_form:
  "unspent_inv E s \<Longrightarrow> r_get (rdb E) s (cf_unspent kind) k \<noteq> None \<Longrightarrow>
     \<exists>cr r. k = credential_to_utxo_unspent_key E cr r"
  unfolding unspent_inv_def by blast

lemma unspent_inv_iff:
  "unspent_inv E s \<Longrightarrow>
     r_get (rdb E) s (cf_unspent kind) (credential_to_utxo_unspent_key E cr r) \<noteq> None \<longleftrightarrow>
     unspent_with E s r (\<lambda>out. (kind, cr) \<in> set (output_credentials out))"
  unfolding unspent_inv_def by blast

lemma unspent_invI:
  assumes "\<And>kind k. r_get (rdb E) s (cf_unspent kind) k \<noteq> None \<Longrightarrow>
      \<exists>cr r. k = credential_to_utxo_unspent_key E cr r"
    and "\<And>kind cr r. r_get (rdb E) s (cf_unspent kind) (credential_to_utxo_unspent_key E cr r) \<noteq> None \<longleftrightarrow>
      unspent_with E s r (\<lambda>out. (kind, cr) \<in> set (output_credentials out))"
  shows "unspent_inv E s"
  using assms unfolding unspent_inv_def by blast

lemmas unspent_facts = step_gets step_views unspent_key_cases key_simps Let_def unspent_with_def

lemma unspent_inv_update_unspent_txo:
  assumes inv: "unspent_inv E s"
  shows "unspent_inv E (update_unspent_txo E s r out st)"
proof (rule unspent_invI, goal_cases)
  case (1 kind k)
  then show ?case
    using unspent_inv_form [OF inv, of kind k]
    by (auto simp: unspent_facts split: option.splits prod.splits if_splits)
next
  case (2 kind cr r')
  then show ?case
    using unspent_inv_iff [OF inv, of kind cr r']
    by (cases "get_utxo_by_ref E s r"; cases "r' = r") (auto simp: unspent_facts split: prod.splits)
qed

lemma unspent_inv_update_txo_by_ref:
  assumes inv: "unspent_inv E s"
  shows "unspent_inv E (update_txo_by_ref E s r sl sp)"
proof (rule unspent_invI, goal_cases)
  case (1 kind k)
  then show ?case
    using unspent_inv_form [OF inv, of kind k]
    by (auto simp: unspent_facts split: option.splits prod.splits if_splits)
next
  case (2 kind cr r')
  then show ?case
    using unspent_inv_iff [OF inv, of kind cr r']
    by (cases "get_utxo_by_ref E s r"; cases "r' = r") (auto simp: unspent_facts split: prod.splits)
qed

lemma unspent_inv_delete_txo_and_indexes:
  assumes inv: "unspent_inv E s"
  shows "unspent_inv E (delete_txo_and_indexes E s r)"
proof (rule unspent_invI, goal_cases)
  case (1 kind k)
  then show ?case
    using unspent_inv_form [OF inv, of kind k]
    by (auto simp: unspent_facts split: option.splits prod.splits if_splits)
next
  case (2 kind cr r')
  then show ?case
    using unspent_inv_iff [OF inv, of kind cr r']
    by (cases "get_utxo_by_ref E s r"; cases "r' = r") (auto simp: unspent_facts split: prod.splits)
qed

text \<open>The unit index.\<close>

lemma units_ascii_text: "un \<in> set (output_units E out) \<Longrightarrow> ascii_text un"
  using units_ascii by (auto simp: ascii_text_def)

lemma unit_entry_entry_key:
  assumes "ascii_text un"
  shows "unit_entry E out r' UnitUnspentCf (unit_index_entry_key E un r) \<longleftrightarrow>
     r' = r \<and> un \<in> set (output_units E out)"
proof -
  have "unit_index_entry_key E un r = unit_index_entry_key E un' r' \<longleftrightarrow> un = un' \<and> r = r'"
    if "un' \<in> set (output_units E out)" for un'
    using that assms units_ascii_text [OF that] by (intro entry_key_eq_iff) (auto simp: ascii_text_def)
  then show ?thesis by (auto simp: unit_entry_def)
qed

lemma unit_sentinel_entry_key:
  "\<not> unit_sentinel E out UnitUnspentCf (unit_index_entry_key E un r)"
  using entry_not_sentinel by (auto simp: unit_sentinel_def)

lemma unit_inv_form:
  "unit_inv E s \<Longrightarrow> r_get (rdb E) s UnitUnspentCf k \<noteq> None \<Longrightarrow>
     (\<exists>un r. ascii_text un \<and> k = unit_index_entry_key E un r) \<or> (\<exists>un. k = unit_index_sentinel_key un)"
  unfolding unit_inv_def by blast

lemma unit_inv_iff:
  "unit_inv E s \<Longrightarrow> ascii_text un \<Longrightarrow>
     r_get (rdb E) s UnitUnspentCf (unit_index_entry_key E un r) \<noteq> None \<longleftrightarrow>
     unspent_with E s r (\<lambda>out. un \<in> set (output_units E out))"
  unfolding unit_inv_def by blast

lemma unit_invI:
  assumes "\<And>k. r_get (rdb E) s UnitUnspentCf k \<noteq> None \<Longrightarrow>
      (\<exists>un r. ascii_text un \<and> k = unit_index_entry_key E un r) \<or> (\<exists>un. k = unit_index_sentinel_key un)"
    and "\<And>un r. ascii_text un \<Longrightarrow>
      r_get (rdb E) s UnitUnspentCf (unit_index_entry_key E un r) \<noteq> None \<longleftrightarrow>
      unspent_with E s r (\<lambda>out. un \<in> set (output_units E out))"
  shows "unit_inv E s"
  using assms unfolding unit_inv_def by blast

lemma unit_entry_form:
  "unit_entry E out r UnitUnspentCf k \<Longrightarrow> \<exists>un r. ascii_text un \<and> k = unit_index_entry_key E un r"
  using units_ascii_text by (auto simp: unit_entry_def)

lemmas unit_facts = step_gets step_views unit_entry_entry_key unit_sentinel_entry_key key_simps
  Let_def unspent_with_def

lemma unit_inv_update_unspent_txo:
  assumes inv: "unit_inv E s"
  shows "unit_inv E (update_unspent_txo E s r out st)"
proof (rule unit_invI, goal_cases)
  case (1 k)
  then show ?case
    using unit_inv_form [OF inv, of k] unit_entry_form [of out r k]
    by (auto simp: unit_facts split: option.splits prod.splits if_splits)
next
  case (2 un r')
  then show ?case
    using unit_inv_iff [OF inv, of un r']
    by (cases "get_utxo_by_ref E s r"; cases "r' = r") (auto simp: unit_facts split: prod.splits)
qed

lemma unit_inv_update_txo_by_ref:
  assumes inv: "unit_inv E s"
  shows "unit_inv E (update_txo_by_ref E s r sl sp)"
proof (rule unit_invI, goal_cases)
  case (1 k)
  then show ?case
    using unit_inv_form [OF inv, of k] unit_entry_form [of _ r k]
    by (auto simp: unit_facts split: option.splits prod.splits if_splits)
next
  case (2 un r')
  then show ?case
    using unit_inv_iff [OF inv, of un r']
    by (cases "get_utxo_by_ref E s r"; cases "r' = r") (auto simp: unit_facts split: prod.splits)
qed

lemma unit_inv_delete_txo_and_indexes:
  assumes inv: "unit_inv E s"
  shows "unit_inv E (delete_txo_and_indexes E s r)"
proof (rule unit_invI, goal_cases)
  case (1 k)
  then show ?case
    using unit_inv_form [OF inv, of k]
    by (auto simp: unit_facts split: option.splits prod.splits if_splits)
next
  case (2 un r')
  then show ?case
    using unit_inv_iff [OF inv, of un r']
    by (cases "get_utxo_by_ref E s r"; cases "r' = r") (auto simp: unit_facts split: prod.splits)
qed

text \<open>The event indexes.\<close>

lemma events_inv_outs:
  "events_inv E outs s \<Longrightarrow> get_utxo_by_ref E s r = Some (out, st, sp) \<Longrightarrow> out = outs r"
  unfolding events_inv_def by blast

lemma events_inv_form:
  "events_inv E outs s \<Longrightarrow> r_get (rdb E) s (cf_events kind) k \<noteq> None \<Longrightarrow>
     \<exists>cr sl r. k = credential_to_utxo_all_key E cr sl r \<and> (kind, cr) \<in> set (output_credentials (outs r))"
  unfolding events_inv_def by blast

lemma events_inv_key:
  "events_inv E outs s \<Longrightarrow> get_utxo_by_ref E s r = Some (out, st, sp) \<Longrightarrow>
     (kind, cr) \<in> set (output_credentials out) \<Longrightarrow>
     \<exists>sl. r_get (rdb E) s (cf_events kind) (credential_to_utxo_all_key E cr sl r) \<noteq> None \<and>
          (\<not> sp \<longrightarrow> sl = st)"
  unfolding events_inv_def by blast

lemma events_invI:
  assumes "\<And>r out st sp. get_utxo_by_ref E s r = Some (out, st, sp) \<Longrightarrow> out = outs r"
    and "\<And>kind k. r_get (rdb E) s (cf_events kind) k \<noteq> None \<Longrightarrow>
        \<exists>cr sl r. k = credential_to_utxo_all_key E cr sl r \<and> (kind, cr) \<in> set (output_credentials (outs r))"
    and "\<And>r out st sp kind cr. get_utxo_by_ref E s r = Some (out, st, sp) \<Longrightarrow>
        (kind, cr) \<in> set (output_credentials out) \<Longrightarrow>
        \<exists>sl. r_get (rdb E) s (cf_events kind) (credential_to_utxo_all_key E cr sl r) \<noteq> None \<and>
              (\<not> sp \<longrightarrow> sl = st)"
  shows "events_inv E outs s"
  using assms unfolding events_inv_def by blast

lemma events_key_cases:
  "written_key E creds r sl sp (cf_events kind) k \<longleftrightarrow>
     (\<exists>cr. (kind, cr) \<in> set creds \<and> k = credential_to_utxo_all_key E cr sl r)"
  "deleted_key E creds r sl (cf_events kind) k \<longleftrightarrow>
     (\<exists>cr. (kind, cr) \<in> set creds \<and> k = credential_to_utxo_all_key E cr sl r)"
  by (auto simp: written_key_def deleted_key_def)

lemmas events_facts = step_gets step_views events_key_cases key_simps Let_def

lemma events_inv_update_unspent_txo:
  assumes inv: "events_inv E outs s" and out: "outs r = out"
  shows "events_inv E outs (update_unspent_txo E s r out st)"
proof (rule events_invI, goal_cases)
  case (1 r' out' st' sp')
  then show ?case
    using events_inv_outs [OF inv, of r'] out by (auto simp: step_views split: if_splits)
next
  case (2 kind k)
  then show ?case
    using events_inv_form [OF inv, of kind k] out
    by (auto simp: events_facts split: option.splits prod.splits if_splits)
next
  case (3 r' out' st' sp' kind cr)
  show ?case
  proof (cases "r' = r")
    case True
    with 3 have "out' = out" "st' = st" by (auto simp: step_views)
    with 3 show ?thesis
      by (intro exI [of _ st]) (auto simp: True events_facts)
  next
    case False
    with 3 have "get_utxo_by_ref E s r' = Some (out', st', sp')" by (simp add: step_views)
    from events_inv_key [OF inv this 3(2)] False show ?thesis
      by (auto simp: events_facts split: option.splits)
  qed
qed

lemma events_inv_update_txo_by_ref:
  assumes inv: "events_inv E outs s"
  shows "events_inv E outs (update_txo_by_ref E s r sl sp)"
proof (rule events_invI, goal_cases)
  case (1 r' out' st' sp')
  then show ?case
    using events_inv_outs [OF inv, of r'] by (auto simp: step_views split: if_splits)
next
  case (2 kind k)
  then show ?case
    using events_inv_form [OF inv, of kind k] events_inv_outs [OF inv, of r]
    by (auto simp: events_facts split: option.splits prod.splits if_splits)
next
  case (3 r' out' st' sp' kind cr)
  show ?case
  proof (cases "r' = r")
    case True
    with 3 obtain sp0 where g: "get_utxo_by_ref E s r = Some (out', st', sp0)" and "sp' = sp"
      by (auto simp: step_views)
    with 3 show ?thesis
      by (intro exI [of _ "if sp then sl else st'"]) (auto simp: True events_facts)
  next
    case False
    with 3 have "get_utxo_by_ref E s r' = Some (out', st', sp')" by (simp add: step_views)
    from events_inv_key [OF inv this 3(2)] False show ?thesis
      by (auto simp: events_facts split: option.splits)
  qed
qed

lemma events_inv_delete_txo_and_indexes:
  assumes inv: "events_inv E outs s"
  shows "events_inv E outs (delete_txo_and_indexes E s r)"
proof (rule events_invI, goal_cases)
  case (1 r' out' st' sp')
  then show ?case
    using events_inv_outs [OF inv, of r'] by (auto simp: step_views split: if_splits)
next
  case (2 kind k)
  then show ?case
    using events_inv_form [OF inv, of kind k]
    by (auto simp: events_facts split: option.splits prod.splits if_splits)
next
  case (3 r' out' st' sp' kind cr)
  then have g: "r' \<noteq> r" "get_utxo_by_ref E s r' = Some (out', st', sp')"
    by (auto simp: step_views split: if_splits)
  from events_inv_key [OF inv g(2) 3(2)] g(1) show ?case
    by (auto simp: events_facts split: option.splits)
qed

text \<open>The invariant as a whole, step by step and over the loops of a transaction.\<close>

lemma index_inv_steps:
  assumes "index_inv E s"
  shows index_inv_update_unspent_txo: "index_inv E (update_unspent_txo E s r out st)"
    and index_inv_update_txo_by_ref: "index_inv E (update_txo_by_ref E s r sl sp)"
    and index_inv_delete_txo_and_indexes: "index_inv E (delete_txo_and_indexes E s r)"
  using assms unfolding index_inv_def
  by (simp_all add: txo_inv_steps unspent_inv_update_unspent_txo unspent_inv_update_txo_by_ref
      unspent_inv_delete_txo_and_indexes unit_inv_update_unspent_txo unit_inv_update_txo_by_ref
      unit_inv_delete_txo_and_indexes)

lemma fold_invariant: "(\<And>x s. P s \<Longrightarrow> P (f x s)) \<Longrightarrow> P s \<Longrightarrow> P (fold f xs s)"
  by (induction xs arbitrary: s) auto

lemma index_inv_apply: "index_inv E s \<Longrightarrow> index_inv E (index_apply E h ins outs st s)"
  unfolding index_apply_def Let_def
  by (intro fold_invariant [where P = "index_inv E"])
    (auto intro: index_inv_steps split: prod.splits)

lemma index_inv_unapply: "index_inv E s \<Longrightarrow> index_inv E (index_unapply E h ins outs s)"
  unfolding index_unapply_def Let_def
  by (intro fold_invariant [where P = "index_inv E"])
    (auto intro: index_inv_steps split: prod.splits)

lemma fold_invariant_in: "(\<And>x s. x \<in> set xs \<Longrightarrow> P s \<Longrightarrow> P (f x s)) \<Longrightarrow> P s \<Longrightarrow> P (fold f xs s)"
  by (induction xs arbitrary: s) auto

lemma events_inv_apply:
  assumes "events_inv E ref_outs s"
    and "\<And>ix out. (ix, out) \<in> set outs \<Longrightarrow> ref_outs (OutputRef h (word_of_nat ix)) = out"
  shows "events_inv E ref_outs (index_apply E h ins outs st s)"
  unfolding index_apply_def Let_def
  by (rule fold_invariant_in [where P = "events_inv E ref_outs"])
    (auto intro!: fold_invariant_in [where P = "events_inv E ref_outs"] events_inv_update_txo_by_ref
      events_inv_update_unspent_txo assms split: prod.splits)

lemma events_inv_unapply:
  assumes "events_inv E ref_outs s"
  shows "events_inv E ref_outs (index_unapply E h ins outs s)"
  unfolding index_unapply_def Let_def
  by (rule fold_invariant_in [where P = "events_inv E ref_outs"])
    (auto intro!: fold_invariant_in [where P = "events_inv E ref_outs"] events_inv_update_txo_by_ref
      events_inv_delete_txo_and_indexes assms split: prod.splits)

end

end
