(* ===== verification/Utxo_Query_Laws.thy ===== *)
theory Utxo_Query_Laws
  imports Utxo_Query Utxo_Index_Inv
begin

text \<open>
  What the queries of src/index.rs return: both paging loops compute one page of the hits of
  the iterator, and under the index invariants the hits are exactly the outputs asked for.
\<close>

definition page :: "nat \<Rightarrow> nat \<Rightarrow> 'a list \<Rightarrow> 'a list" where
  "page offset limit xs = take limit (drop offset xs)"

definition scoped_hit :: "'s env \<Rightarrow> 's \<Rightarrow> nat \<Rightarrow> str option \<Rightarrow> bytes \<times> bytes \<Rightarrow> txo option" where
  "scoped_hit E s n unit_filter kv =
     (case lookup_row E s (drop n (fst kv)) of
        None \<Rightarrow> None
      | Some (output, settled, spent) \<Rightarrow>
          if (case unit_filter of Some un \<Rightarrow> output_contains_unit E output un | None \<Rightarrow> True)
          then map_option (\<lambda>r. Txo r output settled spent) (utxo_key_dec E (drop n (fst kv)))
          else None)"

definition unit_hit :: "'s env \<Rightarrow> 's \<Rightarrow> bytes \<Rightarrow> bytes \<times> bytes \<Rightarrow> txo option" where
  "unit_hit E s p kv =
     (if is_unit_sentinel p (fst kv) then None
      else
        (case lookup_row E s (drop (length p) (fst kv)) of
           Some (output, settled, False) \<Rightarrow>
             map_option (\<lambda>r. Txo r output settled False) (utxo_key_dec E (drop (length p) (fst kv)))
         | _ \<Rightarrow> None))"

text \<open>Keys on which the loops neither slice past the end nor fail to decode.\<close>

definition key_ok :: "'s env \<Rightarrow> 's \<Rightarrow> nat \<Rightarrow> bytes \<times> bytes \<Rightarrow> bool" where
  "key_ok E s n kv \<longleftrightarrow>
     n \<le> length (fst kv) \<and>
     (lookup_row E s (drop n (fst kv)) \<noteq> None \<longrightarrow> utxo_key_dec E (drop n (fst kv)) \<noteq> None)"

text \<open>Both loops are one loop over the hits.\<close>

fun paged :: "('a \<Rightarrow> 'b option) \<Rightarrow> nat \<Rightarrow> nat \<Rightarrow> nat \<Rightarrow> 'b list \<Rightarrow> 'a list \<Rightarrow> 'b list" where
  "paged hit offset limit matched acc [] = acc"
| "paged hit offset limit matched acc (x # xs) =
     (case hit x of
        None \<Rightarrow> paged hit offset limit matched acc xs
      | Some t \<Rightarrow>
          if matched < offset then paged hit offset limit (matched + 1) acc xs
          else if limit \<le> length acc + 1 then acc @ [t]
          else paged hit offset limit (matched + 1) (acc @ [t]) xs)"

lemma page_Cons_skip: "0 < n \<Longrightarrow> page n l (x # xs) = page (n - 1) l xs"
  by (simp add: page_def drop_Cons')

lemma page_Cons_take: "0 < l \<Longrightarrow> page 0 l (x # xs) = x # page 0 (l - 1) xs"
  by (simp add: page_def take_Cons')

lemma page_0_0 [simp]: "page n 0 xs = []"
  by (simp add: page_def)

lemma paged_page:
  assumes "length acc < limit" "matched < offset \<longrightarrow> acc = []"
  shows "paged hit offset limit matched acc xs =
     acc @ page (offset - matched) (limit - length acc) (List.map_filter hit xs)"
  using assms
proof (induction xs arbitrary: matched acc)
  case Nil
  then show ?case by (simp add: page_def)
next
  case (Cons x xs)
  show ?case
  proof (cases "hit x")
    case None
    then show ?thesis using Cons by simp
  next
    case (Some t)
    then show ?thesis
      using Cons.IH [of acc "matched + 1"] Cons.IH [of "acc @ [t]" "matched + 1"] Cons.prems
      by (cases "matched < offset"; cases "limit \<le> length acc + 1")
        (auto simp: page_Cons_skip page_Cons_take)
  qed
qed

lemma scoped_loop_paged:
  assumes "\<forall>kv \<in> set items. key_ok E s n kv"
  shows "scoped_loop E s n unit_filter offset limit matched acc items =
     Some (paged (scoped_hit E s n unit_filter) offset limit matched acc items)"
  using assms
  by (induction E s n unit_filter offset limit matched acc items rule: scoped_loop.induct)
    (auto simp: key_ok_def scoped_hit_def Let_def split: option.splits)

lemma unit_loop_paged:
  assumes "\<forall>kv \<in> set items. is_unit_sentinel p (fst kv) \<or> key_ok E s (length p) kv"
  shows "unit_loop E s p offset limit matched acc items =
     Some (paged (unit_hit E s p) offset limit matched acc items)"
  using assms
  by (induction E s p offset limit matched acc items rule: unit_loop.induct)
    (auto simp: key_ok_def unit_hit_def Let_def split: option.splits bool.splits)

lemma scoped_loop_spec:
  assumes "\<forall>kv \<in> set items. key_ok E s n kv" "0 < limit"
  shows "scoped_loop E s n unit_filter offset limit 0 [] items =
     Some (page offset limit (List.map_filter (scoped_hit E s n unit_filter) items))"
  using assms by (simp add: scoped_loop_paged paged_page)

lemma unit_loop_spec:
  assumes "\<forall>kv \<in> set items. is_unit_sentinel p (fst kv) \<or> key_ok E s (length p) kv" "0 < limit"
  shows "unit_loop E s p offset limit 0 [] items =
     Some (page offset limit (List.map_filter (unit_hit E s p) items))"
  using assms by (simp add: unit_loop_paged paged_page)

subsection \<open>Hits of a credential index\<close>

lemma sorted_wrt_map_filter:
  assumes "sorted_wrt R (map f xs)" "\<And>x t. x \<in> set xs \<Longrightarrow> hit x = Some t \<Longrightarrow> f x = g t"
  shows "sorted_wrt R (map g (List.map_filter hit xs))"
proof -
  have mem: "\<exists>x \<in> set ys. hit x = Some t" if "t \<in> set (List.map_filter hit ys)" for t and ys
    using that by (auto simp: List.map_filter_def)
  show ?thesis
    using assms
  proof (induction xs)
    case Nil
    then show ?case by simp
  next
    case (Cons x xs)
    show ?case
    proof (cases "hit x")
      case None
      then show ?thesis using Cons by simp
    next
      case (Some t)
      have "R (g t) (g u)" if u: "u \<in> set (List.map_filter hit xs)" for u
      proof -
        obtain y where "y \<in> set xs" "hit y = Some u" using mem [OF u] by blast
        then show ?thesis using Cons.prems Some by (metis list.simps(9) list.set_intros set_map
              image_eqI sorted_wrt.simps(2))
      qed
      then show ?thesis using Cons Some by (auto simp: sorted_wrt.simps)
    qed
  qed
qed

lemma set_map_filter_eq: "set (List.map_filter hit xs) = {t. \<exists>x \<in> set xs. hit x = Some t}"
  by (force simp: List.map_filter_def)

definition unspent_of ::
    "'s env \<Rightarrow> 's \<Rightarrow> credential_kind \<Rightarrow> credential \<Rightarrow> (tx_output \<Rightarrow> bool) \<Rightarrow> txo set" where
  "unspent_of E s kind cr P =
     {Txo r out st False | r out st. get_utxo_by_ref E s r = Some (out, st, False) \<and>
        (kind, cr) \<in> set (output_credentials out) \<and> P out}"

text \<open>An enumeration of a set of outputs in the order of their keys, without repetition.\<close>

definition enumerates :: "'s env \<Rightarrow> txo list \<Rightarrow> txo set \<Rightarrow> bool" where
  "enumerates E L T \<longleftrightarrow> set L = T \<and> sorted_wrt (<) (map (\<lambda>t. utxo_key E (txo_oref t)) L)"

context index_env
begin

lemma lookup_row_utxo_key [simp]: "lookup_row E s (utxo_key E r) = get_utxo_by_ref E s r"
  by (simp add: lookup_row_def get_utxo_by_ref_def)

lemma range_mem:
  "kv \<in> set (get_range_iterator E s c p None) \<longleftrightarrow>
     r_get (rdb E) s c (fst kv) = Some (snd kv) \<and> prefix p (fst kv)"
  by (cases kv) (auto simp: get_range_iterator_def iter_set prefix_def list_le_prefix)

lemma range_sorted: "sorted_wrt (<) (map fst (get_range_iterator E s c p lb))"
  by (simp add: get_range_iterator_def iter_sorted)

lemma unspent_items:
  assumes inv: "unspent_inv E s"
    and kv: "kv \<in> set (get_range_iterator E s (cf_unspent kind) (credential_key_prefix cr) None)"
  obtains r out st where "fst kv = credential_to_utxo_unspent_key E cr r"
    "get_utxo_by_ref E s r = Some (out, st, False)" "(kind, cr) \<in> set (output_credentials out)"
proof -
  have some: "r_get (rdb E) s (cf_unspent kind) (fst kv) \<noteq> None"
    and pre: "prefix (credential_key_prefix cr) (fst kv)"
    using kv by (auto simp: range_mem)
  obtain cr' r where key: "fst kv = credential_to_utxo_unspent_key E cr' r"
    using unspent_inv_form [OF inv some] by blast
  with pre have "cr' = cr" by (simp add: key_simps)
  moreover have "unspent_with E s r (\<lambda>out. (kind, cr) \<in> set (output_credentials out))"
    using unspent_inv_iff [OF inv, of kind cr r] some key \<open>cr' = cr\<close> by simp
  ultimately show thesis
    using that key by (auto simp: unspent_with_def split: option.splits)
qed

lemma unspent_hits:
  fixes kind :: credential_kind and cr :: credential and flt :: "str option"
  assumes inv: "unspent_inv E s"
  defines "items \<equiv> get_range_iterator E s (cf_unspent kind) (credential_key_prefix cr) None"
    and "n \<equiv> length (credential_key_prefix cr)"
  shows "\<forall>kv \<in> set items. key_ok E s n kv"
    and "enumerates E (List.map_filter (scoped_hit E s n flt) items)
      (unspent_of E s kind cr
        (\<lambda>out. case flt of Some un \<Rightarrow> output_contains_unit E out un | None \<Rightarrow> True))"
proof -
  have item: "\<exists>r out st. fst kv = credential_to_utxo_unspent_key E cr r \<and>
      get_utxo_by_ref E s r = Some (out, st, False) \<and> (kind, cr) \<in> set (output_credentials out)"
    if "kv \<in> set items" for kv
    using unspent_items [OF inv that [unfolded items_def]] by metis
  have drp: "drop n (credential_to_utxo_unspent_key E cr r) = utxo_key E r"
    and len: "n \<le> length (credential_to_utxo_unspent_key E cr r)" for r
    by (simp_all add: n_def credential_to_utxo_unspent_key_def)
  show "\<forall>kv \<in> set items. key_ok E s n kv"
    using item by (fastforce simp: key_ok_def drp len)
  have key: "fst kv = credential_key_prefix cr @ utxo_key E (txo_oref t)"
    if "kv \<in> set items" "scoped_hit E s n flt kv = Some t" for kv t
  proof -
    note hit = that(2)
    from item [OF that(1)] obtain r out st where "fst kv = credential_to_utxo_unspent_key E cr r"
      "get_utxo_by_ref E s r = Some (out, st, False)" by blast
    then show ?thesis
      using hit by (auto simp: scoped_hit_def drp split: if_splits)
        (simp_all add: credential_to_utxo_unspent_key_def)
  qed
  have "sorted_wrt (<) (map (\<lambda>t. credential_key_prefix cr @ utxo_key E (txo_oref t))
      (List.map_filter (scoped_hit E s n flt) items))"
    by (rule sorted_wrt_map_filter [where f = fst]) (use key in \<open>auto simp: items_def range_sorted\<close>)
  then have sorted: "sorted_wrt (<) (map (\<lambda>t. utxo_key E (txo_oref t))
      (List.map_filter (scoped_hit E s n flt) items))"
    by (simp add: sorted_wrt_map key_simps)
  have "\<exists>kv \<in> set items. fst kv = credential_to_utxo_unspent_key E cr r"
    if "get_utxo_by_ref E s r = Some (out, st, False)" "(kind, cr) \<in> set (output_credentials out)"
    for r out st
  proof -
    have "r_get (rdb E) s (cf_unspent kind) (credential_to_utxo_unspent_key E cr r) \<noteq> None"
      using that unspent_inv_iff [OF inv, of kind cr r] by (simp add: unspent_with_def)
    then obtain v where "r_get (rdb E) s (cf_unspent kind) (credential_to_utxo_unspent_key E cr r) = Some v"
      by blast
    then show ?thesis
      by (intro bexI [of _ "(credential_to_utxo_unspent_key E cr r, v)"])
        (simp_all add: items_def range_mem key_simps)
  qed
  note complete = this
  have "t \<in> set (List.map_filter (scoped_hit E s n flt) items) \<longleftrightarrow>
      t \<in> unspent_of E s kind cr
        (\<lambda>out. case flt of Some un \<Rightarrow> output_contains_unit E out un | None \<Rightarrow> True)" for t
  proof
    assume "t \<in> set (List.map_filter (scoped_hit E s n flt) items)"
    then obtain kv where kv: "kv \<in> set items" "scoped_hit E s n flt kv = Some t"
      by (auto simp: set_map_filter_eq)
    from item [OF kv(1)] kv(2)
    show "t \<in> unspent_of E s kind cr
        (\<lambda>out. case flt of Some un \<Rightarrow> output_contains_unit E out un | None \<Rightarrow> True)"
      by (auto simp: scoped_hit_def drp unspent_of_def split: if_splits)
  next
    assume "t \<in> unspent_of E s kind cr
        (\<lambda>out. case flt of Some un \<Rightarrow> output_contains_unit E out un | None \<Rightarrow> True)"
    then obtain r out st where t: "t = Txo r out st False"
      "get_utxo_by_ref E s r = Some (out, st, False)" "(kind, cr) \<in> set (output_credentials out)"
      "case flt of Some un \<Rightarrow> output_contains_unit E out un | None \<Rightarrow> True"
      by (auto simp: unspent_of_def)
    from complete [OF t(2,3)] obtain kv where
      "kv \<in> set items" "fst kv = credential_to_utxo_unspent_key E cr r" by blast
    then show "t \<in> set (List.map_filter (scoped_hit E s n flt) items)"
      using t by (auto simp: set_map_filter_eq scoped_hit_def drp intro!: bexI [of _ kv])
  qed
  then show "enumerates E (List.map_filter (scoped_hit E s n flt) items)
      (unspent_of E s kind cr
        (\<lambda>out. case flt of Some un \<Rightarrow> output_contains_unit E out un | None \<Rightarrow> True))"
    using sorted by (auto simp: enumerates_def)
qed

end

end
