(* ===== verification/Utxo_Unit_Query.thy ===== *)
theory Utxo_Unit_Query
  imports Utxo_Query_Laws
begin

text \<open>
  The unit index of src/index.rs: the back-fill before a query changes neither the table nor
  the invariants, and the scan of one unit yields exactly the unspent outputs that hold it,
  past sentinels and the entries of longer units.
\<close>

definition backfill_match :: "'s env \<Rightarrow> str \<Rightarrow> bytes \<Rightarrow> bool" where
  "backfill_match E un bs \<longleftrightarrow>
     (case decode_row E bs of
        Some (out, _, spent) \<Rightarrow> \<not> spent \<and> output_contains_unit E out un
      | None \<Rightarrow> False)"

definition unspent_with_unit :: "'s env \<Rightarrow> 's \<Rightarrow> str \<Rightarrow> txo set" where
  "unspent_with_unit E s un =
     {Txo r out st False | r out st. get_utxo_by_ref E s r = Some (out, st, False) \<and>
        output_contains_unit E out un}"

lemma backfill_step_eq:
  "backfill_step E un (k, v) (found, tx) =
     (if backfill_match E un v
      then (True, r_put (rdb E) tx UnitUnspentCf (un @ k) []) else (found, tx))"
  by (auto simp: backfill_step_def backfill_match_def decode_row_def unit_index_key_prefix_def
      split: option.splits)

lemma ascii_lower_idem [simp]: "ascii_lower (ascii_lower b) = ascii_lower b"
  by (auto simp: ascii_lower_def word_le_nat_alt unat_word_ariths)

lemma to_ascii_lowercase_idem [simp]: "to_ascii_lowercase (to_ascii_lowercase s) = to_ascii_lowercase s"
  by (simp add: to_ascii_lowercase_def comp_def)

lemma contains_unit_iff: "output_contains_unit E out un \<longleftrightarrow> to_ascii_lowercase un \<in> set (output_units E out)"
  by (auto simp: output_contains_unit_def list_ex_iff)

lemma ascii_text_lower: "ascii_text un \<Longrightarrow> ascii_text (to_ascii_lowercase un)"
  by (auto simp: ascii_text_def to_ascii_lowercase_def intro!: ascii_lower_less)

lemma prefix_sentinel_iff:
  assumes "prefix p k"
  shows "is_unit_sentinel p k \<longleftrightarrow> k = unit_index_sentinel_key p"
proof -
  from assms obtain q where "k = p @ q" by (auto simp: prefix_def)
  then show ?thesis
    by (cases q) (auto simp: is_unit_sentinel_def unit_index_sentinel_key_def)
qed

text \<open>An ASCII text that starts a longer key ends before the first byte past 127.\<close>

lemma ascii_prefix_append:
  assumes "prefix p (un @ b # bs)" "ascii_text p" "128 \<le> b"
  shows "prefix p un"
  using assms
proof (induction p arbitrary: un)
  case Nil
  then show ?case by simp
next
  case (Cons x p)
  show ?case
  proof (cases un)
    case Nil
    with Cons.prems have "x < 128" "x = b" by (simp_all add: ascii_text_def)
    with Cons.prems(3) show ?thesis by simp
  next
    case (Cons y ys)
    with Cons.prems Cons.IH [of ys] show ?thesis by (simp add: ascii_text_def)
  qed
qed

context index_env
begin

lemma get_backfill:
  "fold (backfill_step E un) items (f, s) = (f', s') \<Longrightarrow>
     r_get (rdb E) s' c k =
       (if c = UnitUnspentCf \<and> (\<exists>kv \<in> set items. backfill_match E un (snd kv) \<and> k = un @ fst kv)
        then Some [] else r_get (rdb E) s c k)"
proof (induction items arbitrary: f s)
  case Nil
  then show ?case by simp
next
  case (Cons kv items)
  then show ?case
    by (cases kv; cases "backfill_match E un (snd kv)") (auto simp: backfill_step_eq get_put)
qed

lemma get_ensure_unit_index:
  "r_get (rdb E) (ensure_unit_index E s un) c k = r_get (rdb E) s c k \<or>
   (c = UnitUnspentCf \<and>
      (k = unit_index_sentinel_key un \<or>
       (\<exists>k' v. k = un @ k' \<and> r_get (rdb E) s TxoCf k' = Some v \<and> backfill_match E un v \<and>
          r_get (rdb E) (ensure_unit_index E s un) c k = Some [])))"
proof (cases "list_ex (\<lambda>(key, _). \<not> is_unit_sentinel un key) (get_range_iterator E s UnitUnspentCf un None)")
  case True
  then show ?thesis by (simp add: ensure_unit_index_def unit_index_key_prefix_def)
next
  case False
  obtain f' s' where fold: "fold (backfill_step E un) (r_iter (rdb E) s TxoCf [] []) (False, s) = (f', s')"
    by fastforce
  have "ensure_unit_index E s un =
      (if f' then r_del (rdb E) s' UnitUnspentCf (unit_index_sentinel_key un)
       else r_put (rdb E) s' UnitUnspentCf (unit_index_sentinel_key un) [])"
    using False by (simp add: ensure_unit_index_def unit_index_key_prefix_def Let_def fold)
  then show ?thesis
    by (auto simp: get_del get_put get_backfill [OF fold] iter_set split: if_splits)
qed

lemma view_ensure [simp]: "get_utxo_by_ref E (ensure_unit_index E s un) r = get_utxo_by_ref E s r"
  using get_ensure_unit_index [of s un TxoCf] by (auto simp: get_utxo_by_ref_def)

lemma txo_inv_ensure: "txo_inv E s \<Longrightarrow> txo_inv E (ensure_unit_index E s un)"
  using get_ensure_unit_index [of s un TxoCf] unfolding txo_inv_def by auto

lemma unspent_inv_ensure: "unspent_inv E s \<Longrightarrow> unspent_inv E (ensure_unit_index E s un)"
  using get_ensure_unit_index [of s un "cf_unspent _"]
  unfolding unspent_inv_def unspent_with_def by auto

text \<open>A back-filled entry is one the index already holds.\<close>

lemma backfill_entry:
  assumes tinv: "txo_inv E s" and v: "r_get (rdb E) s TxoCf k' = Some v" "backfill_match E (to_ascii_lowercase un) v"
  obtains r where "k' = utxo_key E r"
    "unspent_with E s r (\<lambda>out. to_ascii_lowercase un \<in> set (output_units E out))"
    "ascii_text (to_ascii_lowercase un)"
proof -
  obtain r row where r: "k' = utxo_key E r" "decode_row E v = Some row"
    using tinv v(1) unfolding txo_inv_def by blast
  obtain out st where row: "row = (out, st, False)"
    "to_ascii_lowercase un \<in> set (output_units E out)"
    using v(2) r(2) by (cases row) (auto simp: backfill_match_def contains_unit_iff)
  have "unspent_with E s r (\<lambda>out. to_ascii_lowercase un \<in> set (output_units E out))"
    using v(1) r row by (simp add: unspent_with_def get_utxo_by_ref_def)
  then show thesis using that r(1) units_ascii_text [OF row(2)] by blast
qed

lemma unit_inv_ensure:
  assumes tinv: "txo_inv E s" and inv: "unit_inv E s"
  shows "unit_inv E (ensure_unit_index E s (to_ascii_lowercase un))"
proof (rule unit_invI, goal_cases)
  case (1 k)
  let ?p = "to_ascii_lowercase un"
  consider "r_get (rdb E) s UnitUnspentCf k \<noteq> None" | "k = unit_index_sentinel_key ?p"
    | k' v where "k = ?p @ k'" "r_get (rdb E) s TxoCf k' = Some v" "backfill_match E ?p v"
    using 1 get_ensure_unit_index [of s ?p UnitUnspentCf k] by force
  then show ?case
  proof cases
    case 1
    then show ?thesis using unit_inv_form [OF inv] by blast
  next
    case 2
    then show ?thesis by blast
  next
    case 3
    from backfill_entry [OF tinv 3(2,3)] obtain r where "k' = utxo_key E r" "ascii_text ?p" by blast
    with 3(1) show ?thesis unfolding unit_index_entry_key_def by blast
  qed
next
  case (2 un' r)
  let ?p = "to_ascii_lowercase un"
  let ?k = "unit_index_entry_key E un' r"
  have same: "unspent_with E (ensure_unit_index E s ?p) r Q \<longleftrightarrow> unspent_with E s r Q" for Q
    by (simp add: unspent_with_def)
  have old: "r_get (rdb E) s UnitUnspentCf ?k \<noteq> None \<longleftrightarrow>
      unspent_with E s r (\<lambda>out. un' \<in> set (output_units E out))"
    using unit_inv_iff [OF inv 2] .
  consider "r_get (rdb E) (ensure_unit_index E s ?p) UnitUnspentCf ?k = r_get (rdb E) s UnitUnspentCf ?k"
    | k' v where "?k = ?p @ k'" "r_get (rdb E) s TxoCf k' = Some v" "backfill_match E ?p v"
      "r_get (rdb E) (ensure_unit_index E s ?p) UnitUnspentCf ?k = Some []"
    using get_ensure_unit_index [of s ?p UnitUnspentCf ?k] entry_not_sentinel by blast
  then show ?case
  proof cases
    case 1
    then show ?thesis using old same by simp
  next
    case 3: 2
    from backfill_entry [OF tinv 3(2,3)] obtain r' where r': "k' = utxo_key E r'"
      "unspent_with E s r' (\<lambda>out. ?p \<in> set (output_units E out))" "ascii_text ?p" by blast
    have "unit_index_entry_key E un' r = unit_index_entry_key E ?p r'"
      using 3(1) r'(1) by (simp add: unit_index_entry_key_def)
    then have "un' = ?p" "r = r'"
      using entry_key_eq_iff [of un' ?p r r'] 2 r'(3) by (auto simp: ascii_text_def)
    then show ?thesis using r'(2) 3(4) same by simp
  qed
qed

lemma index_inv_ensure:
  "index_inv E s \<Longrightarrow> index_inv E (ensure_unit_index E s (to_ascii_lowercase un))"
  by (simp add: index_inv_def txo_inv_ensure unspent_inv_ensure unit_inv_ensure)

lemma events_inv_ensure: "events_inv E outs s \<Longrightarrow> events_inv E outs (ensure_unit_index E s un)"
  using get_ensure_unit_index [of s un "cf_events _"] unfolding events_inv_def by auto

subsection \<open>The scan of one unit\<close>

lemma utxo_key_no_row:
  assumes "txo_inv E s" "\<And>r. key \<noteq> utxo_key E r"
  shows "lookup_row E s key = None"
  using assms unfolding txo_inv_def lookup_row_def
  by (cases "r_get (rdb E) s TxoCf key") auto

lemma sentinel_not_utxo_key: "utxo_key E r \<noteq> q @ [0]" "utxo_key E r \<noteq> []"
proof -
  show "utxo_key E r \<noteq> q @ [0]"
  proof
    assume "utxo_key E r = q @ [0]"
    then have "last (utxo_key E r) = 0" by simp
    with utxo_key_last [of r] show False by simp
  qed
  show "utxo_key E r \<noteq> []" using utxo_key_last by blast
qed

text \<open>What a stored pair with the prefix of an ASCII unit can be.\<close>

lemma unit_items:
  assumes tinv: "txo_inv E s" and inv: "unit_inv E s" and un: "ascii_text un"
    and kv: "kv \<in> set (get_range_iterator E s UnitUnspentCf un None)"
  shows "(\<exists>r out st. fst kv = unit_index_entry_key E un r \<and> \<not> is_unit_sentinel un (fst kv) \<and>
            get_utxo_by_ref E s r = Some (out, st, False) \<and> un \<in> set (output_units E out)) \<or>
         lookup_row E s (drop (length un) (fst kv)) = None"
proof -
  have some: "r_get (rdb E) s UnitUnspentCf (fst kv) \<noteq> None" and pre: "prefix un (fst kv)"
    using kv by (auto simp: range_mem)
  show ?thesis
  proof (cases "\<exists>un'. fst kv = unit_index_sentinel_key un'")
    case True
    then obtain un' where k: "fst kv = un' @ [0]"
      by (auto simp: unit_index_sentinel_key_def unit_index_sentinel_def)
    have "drop (length un) (fst kv) = [] \<or> (\<exists>q. drop (length un) (fst kv) = q @ [0])"
    proof -
      from pre obtain q where "un' @ [0] = un @ q" by (auto simp: k prefix_def)
      then show ?thesis by (cases q rule: rev_cases) (auto simp: k)
    qed
    then show ?thesis using utxo_key_no_row [OF tinv] sentinel_not_utxo_key by metis
  next
    case False
    then obtain un' r where k: "ascii_text un'" "fst kv = unit_index_entry_key E un' r"
      using unit_inv_form [OF inv some] by blast
    obtain b bs where b: "utxo_key E r = b # bs" "128 \<le> b" using utxo_key_head by blast
    have "prefix un un'"
      using pre un b by (intro ascii_prefix_append [of un un' b bs]) (simp_all add: k(2) unit_index_entry_key_def)
    then obtain q where q: "un' = un @ q" by (auto simp: prefix_def)
    show ?thesis
    proof (cases q)
      case Nil
      then have "unspent_with E s r (\<lambda>out. un \<in> set (output_units E out))"
        using unit_inv_iff [OF inv un, of r] some k(2) q by simp
      moreover have "\<not> is_unit_sentinel un (fst kv)"
        using prefix_sentinel_iff [OF pre] entry_not_sentinel k(2) by metis
      ultimately show ?thesis
        using k(2) q Nil by (auto simp: unspent_with_def split: option.splits)
    next
      case (Cons c cs)
      have "c < 128" using k(1) q Cons by (simp add: ascii_text_def)
      have "drop (length un) (fst kv) \<noteq> utxo_key E r'" for r'
      proof
        assume "drop (length un) (fst kv) = utxo_key E r'"
        moreover obtain b' bs' where "utxo_key E r' = b' # bs'" "128 \<le> b'" using utxo_key_head by blast
        ultimately show False
          using \<open>c < 128\<close> by (simp add: k(2) q Cons unit_index_entry_key_def)
      qed
      then have "lookup_row E s (drop (length un) (fst kv)) = None" by (rule utxo_key_no_row [OF tinv])
      then show ?thesis ..
    qed
  qed
qed

lemma unit_entry_stored:
  assumes inv: "unit_inv E s" and un: "ascii_text un"
    and r: "get_utxo_by_ref E s r = Some (out, st, False)" "un \<in> set (output_units E out)"
  obtains kv where "kv \<in> set (get_range_iterator E s UnitUnspentCf un None)"
    "fst kv = unit_index_entry_key E un r" "\<not> is_unit_sentinel un (fst kv)"
proof -
  have pre: "prefix un (unit_index_entry_key E un r)" by (simp add: unit_index_entry_key_def)
  have "r_get (rdb E) s UnitUnspentCf (unit_index_entry_key E un r) \<noteq> None"
    using unit_inv_iff [OF inv un, of r] r by (simp add: unspent_with_def)
  then obtain v where "r_get (rdb E) s UnitUnspentCf (unit_index_entry_key E un r) = Some v" by blast
  then show thesis
    using that [of "(unit_index_entry_key E un r, v)"] pre prefix_sentinel_iff [OF pre] entry_not_sentinel
    by (simp add: range_mem)
qed

lemma unit_hits:
  fixes un :: str
  assumes tinv: "txo_inv E s" and inv: "unit_inv E s" and un: "ascii_text un"
  defines "items \<equiv> get_range_iterator E s UnitUnspentCf un None"
  shows "\<forall>kv \<in> set items. is_unit_sentinel un (fst kv) \<or> key_ok E s (length un) kv"
    and "set (List.map_filter (unit_hit E s un) items) =
      {Txo r out st False | r out st. get_utxo_by_ref E s r = Some (out, st, False) \<and>
         un \<in> set (output_units E out)}" (is "_ = ?T")
    and "sorted_wrt (<) (map (\<lambda>t. utxo_key E (txo_oref t)) (List.map_filter (unit_hit E s un) items))"
proof -
  have drp: "drop (length un) (unit_index_entry_key E un r) = utxo_key E r" for r
    by (simp add: unit_index_entry_key_def)
  note item = unit_items [OF tinv inv un, folded items_def]
  show "\<forall>kv \<in> set items. is_unit_sentinel un (fst kv) \<or> key_ok E s (length un) kv"
  proof
    fix kv assume kv: "kv \<in> set items"
    then have "length un \<le> length (fst kv)"
      by (auto simp: items_def range_mem prefix_length_le)
    then show "is_unit_sentinel un (fst kv) \<or> key_ok E s (length un) kv"
      using item [OF kv] by (auto simp: key_ok_def drp)
  qed
  have hit: "\<exists>r out st. fst kv = unit_index_entry_key E un r \<and> t = Txo r out st False \<and>
      get_utxo_by_ref E s r = Some (out, st, False) \<and> un \<in> set (output_units E out)"
    if "kv \<in> set items" "unit_hit E s un kv = Some t" for kv t
    using item [OF that(1)] that(2) by (auto simp: unit_hit_def drp split: if_splits)
  have "t \<in> set (List.map_filter (unit_hit E s un) items)" if t: "t \<in> ?T" for t
  proof -
    from t obtain r out st where t': "t = Txo r out st False"
      "get_utxo_by_ref E s r = Some (out, st, False)" "un \<in> set (output_units E out)" by blast
    obtain kv where "kv \<in> set items" "fst kv = unit_index_entry_key E un r" "\<not> is_unit_sentinel un (fst kv)"
      using unit_entry_stored [OF inv un t'(2,3), folded items_def] by blast
    then show ?thesis
      using t' by (auto simp: set_map_filter_eq unit_hit_def drp intro!: bexI [of _ kv])
  qed
  then show "set (List.map_filter (unit_hit E s un) items) = ?T"
    using hit by (fastforce simp: set_map_filter_eq)
  have "sorted_wrt (<) (map (\<lambda>t. un @ utxo_key E (txo_oref t)) (List.map_filter (unit_hit E s un) items))"
  proof (rule sorted_wrt_map_filter [where f = fst])
    show "sorted_wrt (<) (map fst items)" by (simp add: items_def range_sorted)
    fix kv t assume "kv \<in> set items" "unit_hit E s un kv = Some t"
    from hit [OF this] show "fst kv = un @ utxo_key E (txo_oref t)"
      by (auto simp: unit_index_entry_key_def)
  qed
  then show "sorted_wrt (<) (map (\<lambda>t. utxo_key E (txo_oref t)) (List.map_filter (unit_hit E s un) items))"
    by (simp add: sorted_wrt_map key_simps)
qed

end

end
