(* ===== verification/Utxo_All_Query.thy ===== *)
theory Utxo_All_Query
  imports Utxo_Unit_Query
begin

text \<open>
  The events index of src/index.rs: what the query \<open>All\<close> returns. Its keys order the
  outputs of a credential by the slot of the last event, unconfirmed events last; spending an
  output in the mempool and confirming the spend leaves two keys of the same output. A
  key is never written but at the slot of a transaction that creates or spends the output.
\<close>

definition txos_of :: "'s env \<Rightarrow> 's \<Rightarrow> credential_kind \<Rightarrow> credential \<Rightarrow> txo set" where
  "txos_of E s kind cr =
     {Txo r out st sp | r out st sp. get_utxo_by_ref E s r = Some (out, st, sp) \<and>
        (kind, cr) \<in> set (output_credentials out)}"

lemma map_filter_repeats:
  assumes "x \<in> set xs" "y \<in> set xs" "x \<noteq> y" "hit x = Some t" "hit y = Some t"
  shows "\<not> distinct (List.map_filter hit xs)"
  using assms
  by (induction xs) (auto simp: set_map_filter_eq split: option.splits)

context index_env
begin

abbreviation event_items :: "'s \<Rightarrow> credential_kind \<Rightarrow> credential \<Rightarrow> slot option \<Rightarrow> (bytes \<times> bytes) list" where
  "event_items s kind cr least \<equiv>
     get_range_iterator E s (cf_events kind) (credential_key_prefix cr) (Some (settled_at_key least))"

abbreviation event_hit :: "'s \<Rightarrow> credential \<Rightarrow> bytes \<times> bytes \<Rightarrow> txo option" where
  "event_hit s cr \<equiv> scoped_hit E s (length (credential_key_prefix cr) + 8) None"

lemma settled_prefix_le_iff:
  "settled_at_key least \<le> settled_at_key sl @ k \<longleftrightarrow> event_slot least \<le> event_slot sl"
proof -
  have "u64_to_be_bytes a \<le> u64_to_be_bytes b \<longleftrightarrow> a \<le> b" for a b
    by (simp add: u64_to_be_bytes_less_iff flip: linorder_not_less)
  then show ?thesis by (simp add: list_le_append_same_length settled_at_key_def)
qed

lemma event_key_range:
  "kv \<in> set (event_items s kind cr least) \<and> fst kv = credential_to_utxo_all_key E cr' sl r \<longleftrightarrow>
     r_get (rdb E) s (cf_events kind) (fst kv) = Some (snd kv) \<and>
     fst kv = credential_to_utxo_all_key E cr' sl r \<and> cr' = cr \<and> event_slot least \<le> event_slot sl"
proof -
  have "(prefix (credential_key_prefix cr) (credential_to_utxo_all_key E cr' sl r) \<and>
      credential_key_prefix cr @ settled_at_key least \<le> credential_to_utxo_all_key E cr' sl r) \<longleftrightarrow>
      cr' = cr \<and> event_slot least \<le> event_slot sl"
    unfolding prefix_all_key
    by (auto simp: credential_to_utxo_all_key_def list_append_le_iff settled_prefix_le_iff)
  then show ?thesis
    by (cases kv) (auto simp: get_range_iterator_def iter_set)
qed

lemma event_item:
  assumes inv: "events_inv E outs s" and kv: "kv \<in> set (event_items s kind cr least)"
  obtains sl r where "fst kv = credential_to_utxo_all_key E cr sl r"
    "event_slot least \<le> event_slot sl" "(kind, cr) \<in> set (output_credentials (outs r))"
proof -
  have "r_get (rdb E) s (cf_events kind) (fst kv) \<noteq> None"
    using kv by (auto simp: get_range_iterator_def iter_set)
  from events_inv_form [OF inv this] obtain cr' sl r where
    k: "fst kv = credential_to_utxo_all_key E cr' sl r" "(kind, cr') \<in> set (output_credentials (outs r))"
    by blast
  with kv event_key_range have "cr' = cr" "event_slot least \<le> event_slot sl" by blast+
  with k show thesis using that by blast
qed

lemma event_hits:
  assumes inv: "events_inv E outs s"
  shows "\<forall>kv \<in> set (event_items s kind cr least). key_ok E s (length (credential_key_prefix cr) + 8) kv"
    and "set (List.map_filter (event_hit s cr) (event_items s kind cr least)) \<subseteq> txos_of E s kind cr"
proof -
  have len: "length (credential_key_prefix cr) + 8 \<le> length (credential_to_utxo_all_key E cr sl r)" for sl r
    by (simp add: credential_to_utxo_all_key_def)
  show "\<forall>kv \<in> set (event_items s kind cr least). key_ok E s (length (credential_key_prefix cr) + 8) kv"
  proof
    fix kv assume "kv \<in> set (event_items s kind cr least)"
    from event_item [OF inv this] obtain sl r where "fst kv = credential_to_utxo_all_key E cr sl r" by metis
    then show "key_ok E s (length (credential_key_prefix cr) + 8) kv"
      using len by (simp only: key_ok_def drop_all_key utxo_key_dec) simp
  qed
  show "set (List.map_filter (event_hit s cr) (event_items s kind cr least)) \<subseteq> txos_of E s kind cr"
  proof
    fix t assume "t \<in> set (List.map_filter (event_hit s cr) (event_items s kind cr least))"
    then obtain kv where kv: "kv \<in> set (event_items s kind cr least)" "event_hit s cr kv = Some t"
      by (auto simp: set_map_filter_eq)
    from event_item [OF inv kv(1)] obtain sl r where
      k: "fst kv = credential_to_utxo_all_key E cr sl r" "(kind, cr) \<in> set (output_credentials (outs r))"
      by metis
    obtain out st sp where "get_utxo_by_ref E s r = Some (out, st, sp)" "t = Txo r out st sp"
      using kv(2) by (auto simp only: scoped_hit_def k drop_all_key lookup_row_utxo_key utxo_key_dec
          option.simps split: option.splits prod.splits) auto
    moreover from this events_inv_outs [OF inv] have "out = outs r" by blast
    ultimately show "t \<in> txos_of E s kind cr" using k(2) by (auto simp: txos_of_def)
  qed
qed

lemma event_hit_key:
  "fst kv = credential_to_utxo_all_key E cr' sl r \<Longrightarrow>
     event_hit s cr kv = map_option (\<lambda>(out, st, sp). Txo r out st sp) (get_utxo_by_ref E s r)"
  by (simp only: scoped_hit_def drop_all_key lookup_row_utxo_key utxo_key_dec)
    (simp split: option.splits prod.splits)

lemma event_stored:
  assumes "r_get (rdb E) s (cf_events kind) (credential_to_utxo_all_key E cr sl r) \<noteq> None"
    and "event_slot least \<le> event_slot sl"
  obtains kv where "kv \<in> set (event_items s kind cr least)" "fst kv = credential_to_utxo_all_key E cr sl r"
proof -
  from assms(1) obtain v where
    "r_get (rdb E) s (cf_events kind) (credential_to_utxo_all_key E cr sl r) = Some v" by blast
  then show thesis
    using that [of "(credential_to_utxo_all_key E cr sl r, v)"] assms(2)
      event_key_range [of "(credential_to_utxo_all_key E cr sl r, v)" s kind cr least cr sl r] by auto
qed

lemma event_complete:
  assumes inv: "events_inv E outs s"
    and t: "get_utxo_by_ref E s r = Some (out, st, sp)" "(kind, cr) \<in> set (output_credentials out)"
    and slot: "event_slot least = 0 \<or> (\<not> sp \<and> event_slot least \<le> event_slot st)"
  shows "Txo r out st sp \<in> set (List.map_filter (event_hit s cr) (event_items s kind cr least))"
proof -
  obtain sl where sl: "r_get (rdb E) s (cf_events kind) (credential_to_utxo_all_key E cr sl r) \<noteq> None"
    "\<not> sp \<longrightarrow> sl = st"
    using events_inv_key [OF inv t] by blast
  have "event_slot least \<le> event_slot sl" using slot sl(2) by auto
  from event_stored [OF sl(1) this] obtain kv where
    "kv \<in> set (event_items s kind cr least)" "fst kv = credential_to_utxo_all_key E cr sl r" by blast
  moreover from this t have "event_hit s cr kv = Some (Txo r out st sp)"
    by (subst event_hit_key) simp_all
  ultimately show ?thesis unfolding set_map_filter_eq by blast
qed

text \<open>The answers are the outputs with a key at or past the bound, and no others.\<close>

lemma event_hits_exact:
  assumes inv: "events_inv E outs s"
  shows "set (List.map_filter (event_hit s cr) (event_items s kind cr least)) =
     {t \<in> txos_of E s kind cr. \<exists>sl. event_slot least \<le> event_slot sl \<and>
        r_get (rdb E) s (cf_events kind) (credential_to_utxo_all_key E cr sl (txo_oref t)) \<noteq> None}" (is "?L = ?R")
proof
  show "?L \<subseteq> ?R"
  proof
    fix t assume t: "t \<in> ?L"
    then obtain kv where kv: "kv \<in> set (event_items s kind cr least)" "event_hit s cr kv = Some t"
      by (auto simp: set_map_filter_eq)
    from event_item [OF inv kv(1)] obtain sl r where
      k: "fst kv = credential_to_utxo_all_key E cr sl r" "event_slot least \<le> event_slot sl" by metis
    have "r_get (rdb E) s (cf_events kind) (fst kv) \<noteq> None"
      using kv(1) by (auto simp: get_range_iterator_def iter_set)
    moreover have "txo_oref t = r" using kv(2) unfolding event_hit_key [OF k(1)] by (auto split: prod.splits)
    ultimately show "t \<in> ?R" using event_hits(2) [OF inv] t k by auto
  qed
  show "?R \<subseteq> ?L"
  proof
    fix t assume t: "t \<in> ?R"
    then obtain sl where sl: "r_get (rdb E) s (cf_events kind) (credential_to_utxo_all_key E cr sl (txo_oref t)) \<noteq> None"
      "event_slot least \<le> event_slot sl" by blast
    from event_stored [OF this] obtain kv where kv: "kv \<in> set (event_items s kind cr least)"
      "fst kv = credential_to_utxo_all_key E cr sl (txo_oref t)" by blast
    have "event_hit s cr kv = Some t"
      unfolding event_hit_key [OF kv(2)] using t by (auto simp: txos_of_def)
    then show "t \<in> ?L" using kv(1) unfolding set_map_filter_eq by blast
  qed
qed

end

subsection \<open>Where the keys come from\<close>

text \<open>The transactions that the index is given, and the outputs each of them creates or spends, with its slot.\<close>

datatype index_step =
    Apply_tx hash32 "output_ref list" "(nat \<times> tx_output) list" "slot option"
  | Unapply_tx hash32 "output_ref list" "(nat \<times> tx_output) list"

fun index_call :: "'s env \<Rightarrow> index_step \<Rightarrow> 's \<Rightarrow> 's" where
  "index_call E (Apply_tx h ins outs st) s = index_apply E h ins outs st s"
| "index_call E (Unapply_tx h ins outs) s = index_unapply E h ins outs s"

fun call_events :: "index_step \<Rightarrow> (output_ref \<times> slot) set" where
  "call_events (Apply_tx h ins outs st) =
     (\<lambda>r. (r, event_slot st)) ` (set ins \<union> (\<lambda>(ix, _). OutputRef h (word_of_nat ix)) ` set outs)"
| "call_events (Unapply_tx _ _ _) = {}"

context index_env
begin

definition keys_from :: "(output_ref \<times> slot) set \<Rightarrow> 's \<Rightarrow> bool" where
  "keys_from T s \<longleftrightarrow>
     (\<forall>kind cr sl r. r_get (rdb E) s (cf_events kind) (credential_to_utxo_all_key E cr sl r) \<noteq> None \<longrightarrow>
        (r, event_slot sl) \<in> T) \<and>
     (\<forall>r out st sp. get_utxo_by_ref E s r = Some (out, st, sp) \<longrightarrow> (r, event_slot st) \<in> T)"

lemma keys_fromI:
  assumes "\<And>kind cr sl r. r_get (rdb E) s (cf_events kind) (credential_to_utxo_all_key E cr sl r) \<noteq> None \<Longrightarrow> (r, event_slot sl) \<in> T"
    and "\<And>r out st sp. get_utxo_by_ref E s r = Some (out, st, sp) \<Longrightarrow> (r, event_slot st) \<in> T"
  shows "keys_from T s"
  using assms unfolding keys_from_def by blast

lemma keys_fromD:
  assumes "keys_from T s"
  shows "r_get (rdb E) s (cf_events kind) (credential_to_utxo_all_key E cr sl r) \<noteq> None \<Longrightarrow> (r, event_slot sl) \<in> T"
    and "get_utxo_by_ref E s r = Some (out, st, sp) \<Longrightarrow> (r, event_slot st) \<in> T"
  using assms unfolding keys_from_def by blast+

lemma keys_from_update_unspent_txo:
  assumes "keys_from T s" "(r, event_slot st) \<in> T"
  shows "keys_from T (update_unspent_txo E s r out st)"
proof (rule keys_fromI, goal_cases)
  case (1 kind cr sl r')
  then show ?case using keys_fromD(1) [OF assms(1), of kind cr sl r'] assms(2)
    by (auto simp: events_facts split: option.splits prod.splits if_splits)
next
  case (2 r' out' st' sp')
  then show ?case using keys_fromD(2) [OF assms(1), of r'] assms(2) by (auto simp: step_views split: if_splits)
qed

lemma keys_from_update_txo_by_ref:
  assumes "keys_from T s" "sp \<Longrightarrow> (r, event_slot sl) \<in> T"
  shows "keys_from T (update_txo_by_ref E s r sl sp)"
proof (rule keys_fromI, goal_cases)
  case (1 kind cr sl' r')
  then show ?case using keys_fromD(1) [OF assms(1), of kind cr sl' r'] assms(2)
    by (auto simp: events_facts split: option.splits prod.splits if_splits dest: keys_fromD(2) [OF assms(1)])
next
  case (2 r' out' st' sp')
  then show ?case using keys_fromD(2) [OF assms(1), of r'] by (auto simp: step_views split: if_splits)
qed

lemma keys_from_delete_txo_and_indexes:
  assumes "keys_from T s"
  shows "keys_from T (delete_txo_and_indexes E s r)"
proof (rule keys_fromI, goal_cases)
  case (1 kind cr sl r')
  then show ?case using keys_fromD(1) [OF assms(1), of kind cr sl r']
    by (auto simp: events_facts split: option.splits prod.splits if_splits)
next
  case (2 r' out' st' sp')
  then show ?case using keys_fromD(2) [OF assms(1), of r'] by (auto simp: step_views split: if_splits)
qed

lemma keys_from_call:
  assumes "keys_from T s" "call_events call \<subseteq> T"
  shows "keys_from T (index_call E call s)"
proof (cases call)
  case (Apply_tx h ins outs st)
  then show ?thesis using assms unfolding Apply_tx index_call.simps index_apply_def Let_def
    by (intro fold_invariant_in [where P = "keys_from T"])
      (auto intro!: keys_from_update_txo_by_ref keys_from_update_unspent_txo split: prod.splits)
next
  case (Unapply_tx h ins outs)
  then show ?thesis using assms unfolding Unapply_tx index_call.simps index_unapply_def Let_def
    by (intro fold_invariant_in [where P = "keys_from T"])
      (auto intro!: keys_from_update_txo_by_ref keys_from_delete_txo_and_indexes split: prod.splits)
qed

lemma keys_from_calls:
  assumes "\<And>c k. r_get (rdb E) s c k = None"
  shows "keys_from (\<Union>(call_events ` set calls)) (fold (index_call E) calls s)"
proof (rule fold_invariant_in [where P = "keys_from (\<Union>(call_events ` set calls))"])
  show "keys_from (\<Union>(call_events ` set calls)) s"
    using assms by (simp add: keys_from_def get_utxo_by_ref_def)
qed (auto intro!: keys_from_call)

end

end
