(* ===== verification/Reference_Env.thy ===== *)
theory Reference_Env
  imports Codec Utxo_Unit_Query
begin

text \<open>
  A concrete environment for the index: the association-list store of \<open>Rocks\<close> and the
  serialisers of \<open>Codec\<close>. It interprets the locale \<open>index_env\<close>, so the laws of the
  environment hold together, and the witnesses of the index run on it.
\<close>

abbreviation enc_bytes :: "bytes \<Rightarrow> bytes" where
  "enc_bytes \<equiv> enc_list (\<lambda>b. [b])"

abbreviation dec_bytes :: "bytes dec" where
  "dec_bytes \<equiv> (\<lambda>bs. dec_list (length bs) (\<lambda>bs. case bs of [] \<Rightarrow> None | b # r \<Rightarrow> Some (b, r)) bs)"

definition credential_sum :: "credential \<Rightarrow> hash28 + hash28" where
  "credential_sum cr = (case cr of PubKey h \<Rightarrow> Inl h | Script h \<Rightarrow> Inr h)"

definition sum_credential :: "hash28 + hash28 \<Rightarrow> credential" where
  "sum_credential v = (case v of Inl h \<Rightarrow> PubKey h | Inr h \<Rightarrow> Script h)"

definition enc_credential :: "credential \<Rightarrow> bytes" where
  "enc_credential cr = enc_sum hash28_bytes hash28_bytes (credential_sum cr)"

definition dec_credential :: "credential dec" where
  "dec_credential = dec_conv sum_credential
     (dec_sum (dec_fixed 28 word_of_nat) (dec_fixed 28 word_of_nat))"

definition address_sum :: "address \<Rightarrow> (credential \<times> credential) + credential + credential + credential + unit" where
  "address_sum a =
     (case a of
        Base p s \<Rightarrow> Inl (p, s)
      | Enterprise p \<Rightarrow> Inr (Inl p)
      | Ptr p \<Rightarrow> Inr (Inr (Inl p))
      | Reward p \<Rightarrow> Inr (Inr (Inr (Inl p)))
      | Byron \<Rightarrow> Inr (Inr (Inr (Inr ()))))"

definition sum_address :: "(credential \<times> credential) + credential + credential + credential + unit \<Rightarrow> address" where
  "sum_address v =
     (case v of
        Inl (p, s) \<Rightarrow> Base p s
      | Inr (Inl p) \<Rightarrow> Enterprise p
      | Inr (Inr (Inl p)) \<Rightarrow> Ptr p
      | Inr (Inr (Inr (Inl p))) \<Rightarrow> Reward p
      | Inr (Inr (Inr (Inr _))) \<Rightarrow> Byron)"

definition enc_address :: "address \<Rightarrow> bytes" where
  "enc_address a =
     enc_sum (enc_pair enc_credential enc_credential)
       (enc_sum enc_credential (enc_sum enc_credential (enc_sum enc_credential (\<lambda>_. []))))
       (address_sum a)"

definition dec_address :: "address dec" where
  "dec_address = dec_conv sum_address
     (dec_sum (dec_pair dec_credential dec_credential)
       (dec_sum dec_credential (dec_sum dec_credential (dec_sum dec_credential (\<lambda>bs. Some ((), bs))))))"

definition enc_value :: "tx_value \<Rightarrow> bytes" where
  "enc_value v =
     enc_pair u64_to_be_bytes
       (enc_list (enc_pair hash28_bytes (enc_list (enc_pair enc_bytes u64_to_be_bytes))))
       (coin v, multiasset v)"

definition dec_value :: "tx_value dec" where
  "dec_value = dec_conv (\<lambda>(c, m). Value c m)
     (dec_pair (dec_fixed 8 word_of_nat)
       (\<lambda>bs. dec_list (length bs)
          (dec_pair (dec_fixed 28 word_of_nat)
             (\<lambda>bs. dec_list (length bs) (dec_pair dec_bytes (dec_fixed 8 word_of_nat)) bs)) bs))"

definition datum_sum :: "datum_option \<Rightarrow> hash32 + bytes" where
  "datum_sum d = (case d of DatumHash h \<Rightarrow> Inl h | InlineDatum b \<Rightarrow> Inr b)"

definition sum_datum :: "hash32 + bytes \<Rightarrow> datum_option" where
  "sum_datum v = (case v of Inl h \<Rightarrow> DatumHash h | Inr b \<Rightarrow> InlineDatum b)"

definition script_sum :: "script_ref \<Rightarrow> bytes + bytes + bytes + bytes" where
  "script_sum s =
     (case s of NativeScript b \<Rightarrow> Inl b | PlutusV1Script b \<Rightarrow> Inr (Inl b)
      | PlutusV2Script b \<Rightarrow> Inr (Inr (Inl b)) | PlutusV3Script b \<Rightarrow> Inr (Inr (Inr b)))"

definition sum_script :: "bytes + bytes + bytes + bytes \<Rightarrow> script_ref" where
  "sum_script v =
     (case v of Inl b \<Rightarrow> NativeScript b | Inr (Inl b) \<Rightarrow> PlutusV1Script b
      | Inr (Inr (Inl b)) \<Rightarrow> PlutusV2Script b | Inr (Inr (Inr b)) \<Rightarrow> PlutusV3Script b)"

definition output_sum ::
    "tx_output \<Rightarrow> (address \<times> tx_value \<times> hash32 option) +
       (address \<times> tx_value \<times> (hash32 + bytes) option \<times> (bytes + bytes + bytes + bytes) option)" where
  "output_sum out =
     (case out of
        AlonzoFormatTxOut a v d \<Rightarrow> Inl (a, v, d)
      | ConwayFormatTxOut a v d s \<Rightarrow> Inr (a, v, map_option datum_sum d, map_option script_sum s))"

definition sum_output ::
    "(address \<times> tx_value \<times> hash32 option) +
       (address \<times> tx_value \<times> (hash32 + bytes) option \<times> (bytes + bytes + bytes + bytes) option) \<Rightarrow>
     tx_output" where
  "sum_output x =
     (case x of
        Inl (a, v, d) \<Rightarrow> AlonzoFormatTxOut a v d
      | Inr (a, v, d, s) \<Rightarrow> ConwayFormatTxOut a v (map_option sum_datum d) (map_option sum_script s))"

definition enc_output :: "tx_output \<Rightarrow> bytes" where
  "enc_output out =
     enc_sum (enc_pair enc_address (enc_pair enc_value (enc_option hash32_bytes)))
       (enc_pair enc_address (enc_pair enc_value
          (enc_pair (enc_option (enc_sum hash32_bytes enc_bytes))
            (enc_option (enc_sum enc_bytes (enc_sum enc_bytes (enc_sum enc_bytes enc_bytes)))))))
       (output_sum out)"

definition dec_output :: "tx_output dec" where
  "dec_output = dec_conv sum_output
     (dec_sum (dec_pair dec_address (dec_pair dec_value (dec_option (dec_fixed 32 word_of_nat))))
       (dec_pair dec_address (dec_pair dec_value
          (dec_pair (dec_option (dec_sum (dec_fixed 32 word_of_nat) dec_bytes))
            (dec_option (dec_sum dec_bytes (dec_sum dec_bytes (dec_sum dec_bytes dec_bytes))))))))"

lemma decodes_bytes: "decodes enc_bytes dec_bytes"
  by (rule decodes_list [OF decodes_byte])

lemma decodes_credential: "decodes enc_credential dec_credential"
  unfolding enc_credential_def [abs_def] dec_credential_def
  by (intro decodes_conv decodes_sum decodes_hash28)
    (simp add: credential_sum_def sum_credential_def split: credential.splits)

lemma decodes_address: "decodes enc_address dec_address"
  unfolding enc_address_def [abs_def] dec_address_def
  by (intro decodes_conv decodes_sum decodes_pair decodes_credential decodes_unit)
    (simp add: address_sum_def sum_address_def split: address.splits)

lemma decodes_value: "decodes enc_value dec_value"
  unfolding enc_value_def [abs_def] dec_value_def
  by (intro decodes_conv decodes_pair decodes_list decodes_u64 decodes_hash28 decodes_bytes) simp

lemma datum_conv: "sum_datum (datum_sum d) = d"
  by (simp add: datum_sum_def sum_datum_def split: datum_option.splits)

lemma script_conv: "sum_script (script_sum s) = s"
  by (simp add: script_sum_def sum_script_def split: script_ref.splits)

lemma decodes_output: "decodes enc_output dec_output"
  unfolding enc_output_def [abs_def] dec_output_def
  by (intro decodes_conv decodes_sum decodes_pair decodes_option decodes_address decodes_value
      decodes_hash32 decodes_bytes)
    (simp add: output_sum_def sum_output_def datum_conv script_conv option.map_comp comp_def
      option.map_ident split: tx_output.splits)

subsection \<open>The environment\<close>

definition ref_row :: "bytes \<times> slot option \<times> bool \<Rightarrow> bytes" where
  "ref_row row = (case row of (bs, st, sp) \<Rightarrow>
     enc_option u64_to_be_bytes st @ (if sp then 1 else 0) # bs)"

definition ref_row_dec :: "bytes \<Rightarrow> (bytes \<times> slot option \<times> bool) option" where
  "ref_row_dec bs =
     (case dec_option (dec_fixed 8 word_of_nat) bs of
        Some (st, b # rest) \<Rightarrow> Some (rest, st, b = 1)
      | _ \<Rightarrow> None)"

definition ref_str :: "str \<Rightarrow> bytes" where
  "ref_str x = 219 # be_nat 4 (length x) @ x"

definition ref_str_dec :: "bytes \<Rightarrow> str option" where
  "ref_str_dec bs = (case bs of b # rest \<Rightarrow> if b = 219 then Some (drop 4 rest) else None | [] \<Rightarrow> None)"

definition ref_env :: "cf assoc_store env" where
  "ref_env = \<lparr>
     rdb = assoc_rocks,
     mp_str = ref_str, mp_str_dec = ref_str_dec,
     mp_row = ref_row, mp_row_dec = ref_row_dec,
     cbor_out = enc_output,
     cbor_out_dec = (\<lambda>bs. map_option fst (dec_output bs)),
     hash_hex = hash32_hex, hash_unhex = hash32_unhex,
     policy_hex = (\<lambda>h. hex_encode (hash28_bytes h)), asset_hex = hex_encode \<rparr>"

lemma ref_env_rdb [simp]: "rdb ref_env = assoc_rocks"
  by (simp add: ref_env_def)

interpretation ref: index_env ref_env
proof (unfold_locales, simp_all only: ref_env_rdb assoc.get_put assoc.get_del assoc.iter_set
    assoc.iter_sorted, goal_cases)
  case (1 x)
  show ?case by (simp add: ref_env_def ref_str_def ref_str_dec_def)
next
  case (2 x)
  show ?case by (simp add: ref_env_def ref_str_def)
next
  case (3 row)
  show ?case
    using decodesD [OF decodes_option [OF decodes_u64]]
    by (cases row) (simp add: ref_env_def ref_row_def ref_row_dec_def)
next
  case (4 out)
  show ?case using decodesD [OF decodes_output, of out "[]"] by (simp add: ref_env_def)
next
  case (5 h)
  show ?case by (simp add: ref_env_def)
next
  case (6 h)
  show ?case by (simp add: ref_env_def hash32_hex_def hex_encode_no_hash)
next
  case (7 b p)
  then show ?case by (simp add: ref_env_def hex_encode_ascii)
next
  case (8 b a)
  then show ?case by (simp add: ref_env_def hex_encode_ascii)
qed

lemma get_ref_empty [simp]: "get_utxo_by_ref ref_env empty_store r = None"
  by (simp add: get_utxo_by_ref_def get_empty_store)

text \<open>A fresh database satisfies the invariants.\<close>

lemma index_inv_empty: "index_inv ref_env empty_store"
  by (simp add: index_inv_def txo_inv_def unspent_inv_def unit_inv_def unspent_with_def get_empty_store)

lemma events_inv_empty: "events_inv ref_env outs empty_store"
  by (simp add: events_inv_def get_empty_store)

end
