(* ===== verification/Utxo_Spec.thy ===== *)
theory Utxo_Spec
  imports Utxo_All_Query Reference_Env
begin

text \<open>
  The contract of the UTxO index. The abstract state is a finite map from output references to
  outputs, settlement slots and spent flags; \<open>apply\<close> and \<open>unapply\<close> refine its operations,
  and the queries return pages of enumerations of it.
\<close>

type_synonym ledger = "output_ref \<Rightarrow> txo_row option"

definition ledger_spend :: "bool \<Rightarrow> output_ref list \<Rightarrow> ledger \<Rightarrow> ledger" where
  "ledger_spend spent ins m r =
     (if r \<in> set ins then map_option (\<lambda>(out, st, _). (out, st, spent)) (m r) else m r)"

definition created :: "hash32 \<Rightarrow> (nat \<times> tx_output) list \<Rightarrow> output_ref \<Rightarrow> tx_output option" where
  "created h outs = map_of (rev (map (\<lambda>(ix, out). (OutputRef h (word_of_nat ix), out)) outs))"

definition ledger_apply ::
    "hash32 \<Rightarrow> output_ref list \<Rightarrow> (nat \<times> tx_output) list \<Rightarrow> slot option \<Rightarrow> ledger \<Rightarrow> ledger" where
  "ledger_apply h ins outs st m r =
     (let old = ledger_spend True ins m r
      in case created h outs r of
           None \<Rightarrow> old
         | Some out \<Rightarrow> Some (out, st, case old of Some (_, _, spent) \<Rightarrow> spent | None \<Rightarrow> False))"

definition ledger_unapply ::
    "hash32 \<Rightarrow> output_ref list \<Rightarrow> (nat \<times> tx_output) list \<Rightarrow> ledger \<Rightarrow> ledger" where
  "ledger_unapply h ins outs m r =
     (if created h outs r \<noteq> None then None else ledger_spend False ins m r)"

lemma created_Nil [simp]: "created h [] r = None"
  by (simp add: created_def)

lemma created_snoc:
  "created h (outs @ [(ix, out)]) r = (if r = OutputRef h (word_of_nat ix) then Some out else created h outs r)"
  by (simp add: created_def)

lemma ledger_unapply_apply:
  assumes "\<And>r. created h outs r \<noteq> None \<Longrightarrow> m r = None"
    and "\<And>r row. r \<in> set ins \<Longrightarrow> m r = Some row \<Longrightarrow> \<not> snd (snd row)"
  shows "ledger_unapply h ins outs (ledger_apply h ins outs st m) = m"
proof
  fix r
  show "ledger_unapply h ins outs (ledger_apply h ins outs st m) r = m r"
    using assms(1) [of r] assms(2) [of r]
    by (cases "created h outs r"; cases "m r")
      (auto simp: ledger_unapply_def ledger_apply_def ledger_spend_def)
qed

context index_env
begin

lemma view_fold_update:
  "get_utxo_by_ref E (fold (\<lambda>oref tx. update_txo_by_ref E tx oref st sp) ins s) =
     ledger_spend sp ins (get_utxo_by_ref E s)"
proof (induction ins rule: rev_induct)
  case Nil
  then show ?case by (auto simp: ledger_spend_def)
next
  case (snoc x xs)
  show ?case
    by (rule ext) (auto simp: snoc step_views ledger_spend_def option.map_comp comp_def split_def)
qed

lemma view_apply:
  "get_utxo_by_ref E (index_apply E h ins outs st s) = ledger_apply h ins outs st (get_utxo_by_ref E s)"
proof -
  let ?m = "ledger_spend True ins (get_utxo_by_ref E s)"
  have "get_utxo_by_ref E (fold (\<lambda>(ix, out) tx.
          update_unspent_txo E tx (OutputRef h (word_of_nat ix)) out st) outs t) r =
      (case created h outs r of
         None \<Rightarrow> ?m r
       | Some out \<Rightarrow> Some (out, st, case ?m r of Some (_, _, spent) \<Rightarrow> spent | None \<Rightarrow> False))"
    if "get_utxo_by_ref E t = ?m" for t r
  proof (induction outs rule: rev_induct)
    case Nil
    then show ?case by (simp add: that)
  next
    case (snoc x xs)
    obtain ix out where x: "x = (ix, out)" by (cases x)
    show ?case
      using snoc by (cases "r = OutputRef h (word_of_nat ix)")
        (auto simp: x step_views created_snoc split: option.splits)
  qed
  then show ?thesis
    by (auto simp: index_apply_def Let_def ledger_apply_def view_fold_update intro!: ext)
qed

lemma view_unapply:
  "get_utxo_by_ref E (index_unapply E h ins outs s) = ledger_unapply h ins outs (get_utxo_by_ref E s)"
proof -
  let ?m = "ledger_spend False ins (get_utxo_by_ref E s)"
  have "get_utxo_by_ref E (fold (\<lambda>(ix, out) tx.
          delete_txo_and_indexes E tx (OutputRef h (word_of_nat ix))) outs t) r =
      (if created h outs r \<noteq> None then None else ?m r)"
    if "get_utxo_by_ref E t = ?m" for t r
  proof (induction outs rule: rev_induct)
    case Nil
    then show ?case by (simp add: that)
  next
    case (snoc x xs)
    obtain ix out where x: "x = (ix, out)" by (cases x)
    show ?case by (auto simp: x snoc step_views created_snoc)
  qed
  then show ?thesis
    by (auto simp: index_unapply_def Let_def ledger_unapply_def view_fold_update intro!: ext)
qed

end

subsection \<open>Queries under the invariants, inside the interface\<close>

context index_env
begin

lemma unspent_query:
  assumes "index_inv E s"
  shows "\<exists>L. enumerates E L (unspent_of E s kind cr (\<lambda>_. True)) \<and>
     (\<forall>offset limit. get_utxos E (Some (cr, kind)) Unspent offset limit s = Some (page offset limit L, s))"
proof -
  let ?items = "get_range_iterator E s (cf_unspent kind) (credential_key_prefix cr) None"
  let ?L = "List.map_filter (scoped_hit E s (length (credential_key_prefix cr)) None) ?items"
  have inv: "unspent_inv E s" using assms by (simp add: index_inv_def)
  have "enumerates E ?L (unspent_of E s kind cr (\<lambda>_. True))"
    using unspent_hits(2) [OF inv, where kind = kind and cr = cr and flt = None] by simp
  moreover have "get_utxos E (Some (cr, kind)) Unspent offset limit s = Some (page offset limit ?L, s)"
    for offset limit
    using scoped_loop_spec [OF unspent_hits(1) [OF inv]]
    by (cases "limit = 0") (simp_all add: get_utxos_def get_scoped_def)
  ultimately show ?thesis by blast
qed

lemma unspent_unit_query:
  assumes "index_inv E s"
  shows "\<exists>L. enumerates E L (unspent_of E s kind cr (\<lambda>out. output_contains_unit E out un)) \<and>
     (\<forall>offset limit. get_utxos E (Some (cr, kind)) (UnspentByUnit un) offset limit s =
        Some (page offset limit L, s))"
proof -
  let ?items = "get_range_iterator E s (cf_unspent kind) (credential_key_prefix cr) None"
  let ?L = "List.map_filter (scoped_hit E s (length (credential_key_prefix cr)) (Some un)) ?items"
  have inv: "unspent_inv E s" using assms by (simp add: index_inv_def)
  have "enumerates E ?L (unspent_of E s kind cr (\<lambda>out. output_contains_unit E out un))"
    using unspent_hits(2) [OF inv, where kind = kind and cr = cr and flt = "Some un"] by simp
  moreover have "get_utxos E (Some (cr, kind)) (UnspentByUnit un) offset limit s = Some (page offset limit ?L, s)"
    for offset limit
    using scoped_loop_spec [OF unspent_hits(1) [OF inv]]
    by (cases "limit = 0") (simp_all add: get_utxos_def get_scoped_def)
  ultimately show ?thesis by blast
qed

lemma unit_query:
  assumes "index_inv E s" "ascii_text un"
  shows "\<exists>L. enumerates E L (unspent_with_unit E s un) \<and>
     (\<forall>offset limit. limit > 0 \<longrightarrow>
        get_utxos E None (UnspentByUnit un) offset limit s =
          Some (page offset limit L, ensure_unit_index E s (to_ascii_lowercase un)))"
proof -
  let ?p = "to_ascii_lowercase un"
  let ?s = "ensure_unit_index E s ?p"
  let ?L = "List.map_filter (unit_hit E ?s ?p) (get_range_iterator E ?s UnitUnspentCf ?p None)"
  have inv: "txo_inv E ?s" "unit_inv E ?s"
    using index_inv_ensure [OF assms(1), of un] by (simp_all add: index_inv_def)
  note hits = unit_hits [OF inv ascii_text_lower [OF assms(2)]]
  have "enumerates E ?L (unspent_with_unit E s un)"
    using hits(2,3) by (simp add: enumerates_def unspent_with_unit_def contains_unit_iff)
  moreover have "get_utxos E None (UnspentByUnit un) offset limit s = Some (page offset limit ?L, ?s)"
    if "limit > 0" for offset limit
    using that unit_loop_spec [OF hits(1) that]
    by (simp add: get_utxos_def Let_def unit_index_key_prefix_def)
  ultimately show ?thesis by blast
qed

lemma all_query_list:
  assumes "events_inv E outs s"
  shows "get_utxos E (Some (cr, kind)) (AllTxos least) offset limit s =
     Some (page offset limit (List.map_filter (event_hit s cr) (event_items s kind cr least)), s)"
  using scoped_loop_spec [OF event_hits(1) [OF assms, where kind = kind and cr = cr and least = least]]
  by (cases "limit = 0") (simp_all add: get_utxos_def get_scoped_def)

lemma all_query:
  assumes "events_inv E outs s"
  shows "\<exists>L. (\<forall>offset limit. get_utxos E (Some (cr, kind)) (AllTxos least) offset limit s =
        Some (page offset limit L, s)) \<and>
     set L \<subseteq> txos_of E s kind cr \<and>
     {t \<in> txos_of E s kind cr. \<not> txo_spent t \<and> event_slot least \<le> event_slot (txo_settled_at t)} \<subseteq> set L \<and>
     (least = Some 0 \<longrightarrow> set L = txos_of E s kind cr) \<and>
     set L = {t \<in> txos_of E s kind cr. \<exists>sl. event_slot least \<le> event_slot sl \<and>
        r_get (rdb E) s (cf_events kind) (credential_to_utxo_all_key E cr sl (txo_oref t)) \<noteq> None} \<and>
     (\<forall>calls s0. (\<forall>c k. r_get (rdb E) s0 c k = None) \<and> s = fold (index_call E) calls s0 \<longrightarrow>
        (\<forall>t \<in> set L. \<exists>call \<in> set calls. \<exists>x. (txo_oref t, x) \<in> call_events call \<and> event_slot least \<le> x))"
proof -
  let ?L = "List.map_filter (event_hit s cr) (event_items s kind cr least)"
  have "t \<in> set ?L"
    if "t \<in> txos_of E s kind cr" "\<not> txo_spent t \<and> event_slot least \<le> event_slot (txo_settled_at t) \<or> least = Some 0"
    for t
    using that event_complete [OF assms, of "txo_oref t" "txo_out t" "txo_settled_at t" "txo_spent t"]
    by (auto simp: txos_of_def)
  moreover note exact = event_hits_exact [OF assms, where kind = kind and cr = cr and least = least]
  moreover have "\<exists>call \<in> set calls. \<exists>x. (txo_oref t, x) \<in> call_events call \<and> event_slot least \<le> x"
    if s0: "\<forall>c k. r_get (rdb E) s0 c k = None" and s: "s = fold (index_call E) calls s0" and t: "t \<in> set ?L" for calls s0 t
  proof -
    from t [unfolded exact] obtain sl where "event_slot least \<le> event_slot sl"
      "r_get (rdb E) s (cf_events kind) (credential_to_utxo_all_key E cr sl (txo_oref t)) \<noteq> None" by blast
    moreover from keys_fromD(1) [OF keys_from_calls [of s0 calls, folded s] this(2)] s0
    have "(txo_oref t, event_slot sl) \<in> (\<Union>call \<in> set calls. call_events call)" by blast
    ultimately show ?thesis by blast
  qed
  ultimately show ?thesis
    using all_query_list [OF assms] event_hits(2) [OF assms, where kind = kind and cr = cr and least = least]
    by (intro exI [of _ ?L] conjI allI impI) blast+
qed

text \<open>A spend seen in the mempool and then confirmed leaves two event keys of the output.\<close>

lemma spent_twice:
  fixes h :: hash32 and sl :: slot
  assumes inv: "events_inv E outs s"
    and r: "get_utxo_by_ref E s r = Some (out, Some x, False)" "(kind, cr) \<in> set (output_credentials out)"
    and slots: "x \<noteq> u64_max" "sl \<noteq> u64_max"
  defines "s' \<equiv> index_apply E h [r] [] (Some sl) (index_apply E h [r] [] None s)"
  shows "\<exists>L. (\<forall>offset limit. get_utxos E (Some (cr, kind)) (AllTxos (Some 0)) offset limit s' =
        Some (page offset limit L, s')) \<and> \<not> distinct L"
proof -
  let ?s1 = "update_txo_by_ref E s r None True"
  have s': "s' = update_txo_by_ref E ?s1 r (Some sl) True"
    by (simp add: s'_def index_apply_def)
  have row1: "get_utxo_by_ref E ?s1 r = Some (out, Some x, True)"
    and row: "get_utxo_by_ref E s' r = Some (out, Some x, True)"
    by (simp_all add: s' view_update_txo_by_ref r)
  have inv': "events_inv E outs s'"
    unfolding s' by (intro events_inv_update_txo_by_ref inv)
  have keys: "r_get (rdb E) s' (cf_events kind) (credential_to_utxo_all_key E cr None r) \<noteq> None"
    "r_get (rdb E) s' (cf_events kind) (credential_to_utxo_all_key E cr (Some sl) r) \<noteq> None"
    using r slots by (auto simp: s' events_facts row1)
  obtain kv where kv: "kv \<in> set (event_items s' kind cr (Some 0))"
    "fst kv = credential_to_utxo_all_key E cr None r" using event_stored [OF keys(1), of "Some 0"] by auto
  obtain kv' where kv': "kv' \<in> set (event_items s' kind cr (Some 0))"
    "fst kv' = credential_to_utxo_all_key E cr (Some sl) r" using event_stored [OF keys(2), of "Some 0"] by auto
  have "kv \<noteq> kv'" using kv(2) kv'(2) slots by (auto simp: all_key_eq_iff)
  then have "\<not> distinct (List.map_filter (event_hit s' cr) (event_items s' kind cr (Some 0)))"
    using map_filter_repeats [OF kv(1) kv'(1), of "event_hit s' cr" "Txo r out (Some x) True"]
      event_hit_key [OF kv(2), of s' cr] event_hit_key [OF kv'(2), of s' cr] row by simp
  then show ?thesis using all_query_list [OF inv'] by blast
qed

lemma by_ref_query:
  "get_utxos E scope (ByOutputRef r) offset limit s =
     Some (if limit = 0 \<or> offset > 0 then []
           else
             (case get_utxo_by_ref E s r of
                None \<Rightarrow> []
              | Some (out, st, sp) \<Rightarrow>
                  if (case scope of None \<Rightarrow> True
                      | Some (cr, kind) \<Rightarrow> (kind, cr) \<in> set (output_credentials out))
                  then [Txo r out st sp] else []), s)"
  by (auto simp: get_utxos_def get_by_output_ref_def list_ex_iff split: option.splits prod.splits)

end

subsection \<open>A sample state\<close>

definition sample_out :: tx_output where
  "sample_out = ConwayFormatTxOut (Enterprise (PubKey 1)) (Value 5 []) None None"

definition sample_state :: "cf assoc_store" where
  "sample_state = index_apply ref_env 7 [] [(0, sample_out)] (Some 5) empty_store"

lemma sample_inv: "index_inv ref_env sample_state"
  unfolding sample_state_def by (rule ref.index_inv_apply [OF index_inv_empty])

lemma sample_events_inv: "events_inv ref_env (\<lambda>_. sample_out) sample_state"
  unfolding sample_state_def by (rule ref.events_inv_apply [OF events_inv_empty]) auto

lemma sample_row: "get_utxo_by_ref ref_env sample_state (OutputRef 7 0) = Some (sample_out, Some 5, False)"
  by (simp add: sample_state_def ref.view_apply ledger_apply_def ledger_spend_def created_def)

subsection \<open>The properties\<close>

text \<open>
  C1. The index refines an abstract ledger: after \<open>apply\<close> the table holds the ledger in which
  the inputs that are known are marked spent and the outputs are created (keeping the spent
  flag of an entry that a re-application overwrites); \<open>unapply\<close> marks the inputs unspent and
  forgets the outputs.
\<close>
theorem index_refines_ledger:
  assumes "index_env E"
  shows "get_utxo_by_ref E (index_apply E h ins outs st s) = ledger_apply h ins outs st (get_utxo_by_ref E s) \<and>
     get_utxo_by_ref E (index_unapply E h ins outs s) = ledger_unapply h ins outs (get_utxo_by_ref E s)"
  using index_env.view_apply [OF assms] index_env.view_unapply [OF assms] by blast

theorem index_refines_ledger_witness:
  "get_utxo_by_ref ref_env (index_apply ref_env 7 [] [(0, sample_out)] (Some 5) empty_store) =
     ledger_apply 7 [] [(0, sample_out)] (Some 5) (get_utxo_by_ref ref_env empty_store)"
  using index_refines_ledger [OF ref.index_env_axioms] by blast

text \<open>
  C28. Every transaction keeps the invariant of the index: each row of the table decodes and
  sits under the key of its reference, the two unspent indexes hold exactly the unspent outputs
  with their credentials, and the unit index exactly the unspent outputs with their units.
\<close>
theorem index_inv_preserved:
  assumes "index_env E" and "index_inv E s"
  shows "index_inv E (index_apply E h ins outs st s) \<and> index_inv E (index_unapply E h ins outs s) \<and>
     index_inv E (ensure_unit_index E s (to_ascii_lowercase un))"
  using index_env.index_inv_apply [OF assms] index_env.index_inv_unapply [OF assms]
    index_env.index_inv_ensure [OF assms] by blast

theorem index_inv_preserved_witness:
  "index_inv ref_env (index_apply ref_env 8 [OutputRef 7 0] [(0, ConwayFormatTxOut Byron (Value 1 []) None None)]
     (Some 5) empty_store)"
  using index_inv_preserved [OF ref.index_env_axioms index_inv_empty] by blast

text \<open>
  C7. The query \<open>Unspent\<close> of a credential never panics and is exact: its pages are the pages
  of one list, in the order of the output keys and without repetition, of all outputs of the
  ledger that are unspent and carry the credential in the asked role.
\<close>
theorem unspent_query_exact:
  assumes "index_env E" and "index_inv E s"
  shows "\<exists>L. enumerates E L (unspent_of E s kind cr (\<lambda>_. True)) \<and>
     (\<forall>offset limit. get_utxos E (Some (cr, kind)) Unspent offset limit s = Some (page offset limit L, s))"
  by (rule index_env.unspent_query [OF assms])

theorem unspent_query_exact_witness:
  "\<exists>L. enumerates ref_env L (unspent_of ref_env sample_state Payment (PubKey 1) (\<lambda>_. True)) \<and>
     (\<forall>offset limit. get_utxos ref_env (Some (PubKey 1, Payment)) Unspent offset limit sample_state =
        Some (page offset limit L, sample_state))"
  by (rule unspent_query_exact [OF ref.index_env_axioms sample_inv])

text \<open>
  C11. Queries by unit are exact for ASCII units, in any letter case: without a scope, after the
  back-fill of the index, the pages enumerate all unspent outputs that hold the unit, past
  sentinels and past the entries of longer units with the same prefix; with a scope they
  enumerate those with the credential in that role. No slice or decoding panics.
\<close>
theorem unit_query_exact:
  assumes "index_env E" and "index_inv E s" and "ascii_text un"
  shows "(\<exists>L. enumerates E L (unspent_with_unit E s un) \<and>
       (\<forall>offset limit. limit > 0 \<longrightarrow>
          get_utxos E None (UnspentByUnit un) offset limit s =
            Some (page offset limit L, ensure_unit_index E s (to_ascii_lowercase un)))) \<and>
     (\<exists>L. enumerates E L (unspent_of E s kind cr (\<lambda>out. output_contains_unit E out un)) \<and>
       (\<forall>offset limit. get_utxos E (Some (cr, kind)) (UnspentByUnit un) offset limit s =
          Some (page offset limit L, s)))"
  using index_env.unit_query [OF assms] index_env.unspent_unit_query [OF assms(1,2)] by blast

theorem unit_query_exact_witness:
  "\<exists>L. enumerates ref_env L (unspent_with_unit ref_env sample_state [97, 98]) \<and>
     (\<forall>offset limit. limit > 0 \<longrightarrow>
        get_utxos ref_env None (UnspentByUnit [97, 98]) offset limit sample_state =
          Some (page offset limit L, ensure_unit_index ref_env sample_state (to_ascii_lowercase [97, 98])))"
  using unit_query_exact [OF ref.index_env_axioms sample_inv, of "[97, 98]"] by (simp add: ascii_text_def)

text \<open>
  C34. The query \<open>All\<close> of a credential never panics; each answer is an output of the ledger with
  that credential and its current settlement and spent flag; every unspent output whose slot
  (the largest slot while unsettled) is at or past the bound is answered, and from slot zero
  on every output, spent or not, is. Nothing from before the bound is answered: the answers
  are exactly the outputs with an event key at or past the bound, and, whatever transactions were
  applied to and taken back from an index that was empty, every answer was created or spent by one
  of them that was applied at the bound or later (in the mempool counting as the largest slot).
\<close>
theorem all_query_sound_complete:
  assumes "index_env E" and "events_inv E outs s"
  shows "\<exists>L. (\<forall>offset limit. get_utxos E (Some (cr, kind)) (AllTxos least) offset limit s =
        Some (page offset limit L, s)) \<and>
     set L \<subseteq> txos_of E s kind cr \<and>
     {t \<in> txos_of E s kind cr. \<not> txo_spent t \<and> event_slot least \<le> event_slot (txo_settled_at t)} \<subseteq> set L \<and>
     (least = Some 0 \<longrightarrow> set L = txos_of E s kind cr) \<and>
     set L = {t \<in> txos_of E s kind cr. \<exists>sl. event_slot least \<le> event_slot sl \<and>
        r_get (rdb E) s (cf_events kind) (credential_to_utxo_all_key E cr sl (txo_oref t)) \<noteq> None} \<and>
     (\<forall>calls s0. (\<forall>c k. r_get (rdb E) s0 c k = None) \<and> s = fold (index_call E) calls s0 \<longrightarrow>
        (\<forall>t \<in> set L. \<exists>call \<in> set calls. \<exists>x. (txo_oref t, x) \<in> call_events call \<and> event_slot least \<le> x))"
  by (rule index_env.all_query [OF assms])

text \<open>The output of the sample was created in slot 5: it is answered from slot 0 on, and not from slot 6 on.\<close>

theorem all_query_sound_complete_witness:
  "(\<exists>L. (\<forall>offset limit. get_utxos ref_env (Some (PubKey 1, Payment)) (AllTxos (Some 0)) offset limit sample_state =
        Some (page offset limit L, sample_state)) \<and>
     set L = txos_of ref_env sample_state Payment (PubKey 1)) \<and>
   get_utxos ref_env (Some (PubKey 1, Payment)) (AllTxos (Some 6)) 0 10 sample_state = Some ([], sample_state)"
proof -
  note all = all_query_sound_complete [OF ref.index_env_axioms sample_events_inv, where cr = "PubKey 1" and kind = Payment]
  obtain L where L: "\<forall>offset limit. get_utxos ref_env (Some (PubKey 1, Payment)) (AllTxos (Some 6)) offset limit sample_state =
      Some (page offset limit L, sample_state)"
    and late: "(\<forall>c k. r_get (rdb ref_env) s0 c k = None) \<and> sample_state = fold (index_call ref_env) calls s0 \<longrightarrow>
      (\<forall>t \<in> set L. \<exists>call \<in> set calls. \<exists>x. (txo_oref t, x) \<in> call_events call \<and> event_slot (Some 6) \<le> x)" for calls s0
    using all [where least = "Some 6"] by blast
  have "set L = {}"
    using late [of empty_store "[Apply_tx 7 [] [(0, sample_out)] (Some 5)]"] by (auto simp: sample_state_def get_empty_store)
  then have "L = []" by simp
  then show ?thesis using L all [where least = "Some 0"] by (auto simp: page_def)
qed

text \<open>
  Keeping the event keys of earlier slots has a cost: an output settled on the chain whose
  spend is first seen in the mempool and then confirmed is answered more than once by \<open>All\<close>,
  because the confirmation deletes the key of the settlement slot and not the key the mempool
  spend wrote.
\<close>
theorem all_query_repeats_spent:
  assumes "index_env E" and "events_inv E outs s"
    and "get_utxo_by_ref E s r = Some (out, Some x, False)" "(kind, cr) \<in> set (output_credentials out)"
    and "x \<noteq> u64_max" "sl \<noteq> u64_max"
  shows "\<exists>L. (\<forall>offset limit.
       get_utxos E (Some (cr, kind)) (AllTxos (Some 0)) offset limit
         (index_apply E h [r] [] (Some sl) (index_apply E h [r] [] None s)) =
       Some (page offset limit L, index_apply E h [r] [] (Some sl) (index_apply E h [r] [] None s))) \<and>
     \<not> distinct L"
  by (rule index_env.spent_twice [OF assms])

theorem all_query_repeats_spent_witness:
  "\<exists>L. (\<forall>offset limit.
       get_utxos ref_env (Some (PubKey 1, Payment)) (AllTxos (Some 0)) offset limit
         (index_apply ref_env 8 [OutputRef 7 0] [] (Some 9) (index_apply ref_env 8 [OutputRef 7 0] [] None sample_state)) =
       Some (page offset limit L,
         index_apply ref_env 8 [OutputRef 7 0] [] (Some 9) (index_apply ref_env 8 [OutputRef 7 0] [] None sample_state))) \<and>
     \<not> distinct L"
  by (rule all_query_repeats_spent [OF ref.index_env_axioms sample_events_inv sample_row])
    (simp_all add: sample_out_def u64_max_def)

text \<open>
  C27. \<open>unapply\<close> undoes \<open>apply\<close> for a transaction that spends unspent outputs and creates new
  ones: the ledger, both unspent indexes and the entries of the unit index are as before.
\<close>
theorem unapply_undoes_apply:
  fixes h :: hash32 and st :: "slot option" and outs :: "(nat \<times> tx_output) list"
  assumes env: "index_env E" and inv: "index_inv E s"
    and new: "\<And>r. created h outs r \<noteq> None \<Longrightarrow> get_utxo_by_ref E s r = None"
    and unspent: "\<And>r row. r \<in> set ins \<Longrightarrow> get_utxo_by_ref E s r = Some row \<Longrightarrow> \<not> snd (snd row)"
  defines "s' \<equiv> index_unapply E h ins outs (index_apply E h ins outs st s)"
  shows "get_utxo_by_ref E s' = get_utxo_by_ref E s \<and>
     (\<forall>kind k. r_get (rdb E) s' (cf_unspent kind) k = None \<longleftrightarrow> r_get (rdb E) s (cf_unspent kind) k = None) \<and>
     (\<forall>un r. ascii_text un \<longrightarrow>
        (r_get (rdb E) s' UnitUnspentCf (unit_index_entry_key E un r) = None \<longleftrightarrow>
         r_get (rdb E) s UnitUnspentCf (unit_index_entry_key E un r) = None))"
proof -
  have view: "get_utxo_by_ref E s' = get_utxo_by_ref E s"
    unfolding s'_def index_env.view_apply [OF env] index_env.view_unapply [OF env]
    by (rule ledger_unapply_apply) (use new unspent in auto)
  have inv': "index_inv E s'"
    unfolding s'_def by (intro index_env.index_inv_unapply index_env.index_inv_apply env inv)
  have same: "unspent_with E s' r P \<longleftrightarrow> unspent_with E s r P" for r P
    by (simp add: unspent_with_def view)
  have "r_get (rdb E) s' (cf_unspent kind) k = None \<longleftrightarrow> r_get (rdb E) s (cf_unspent kind) k = None" for kind k
    using inv inv' same unfolding index_inv_def unspent_inv_def by metis
  moreover have "r_get (rdb E) s' UnitUnspentCf (unit_index_entry_key E un r) = None \<longleftrightarrow>
      r_get (rdb E) s UnitUnspentCf (unit_index_entry_key E un r) = None" if "ascii_text un" for un r
    using that inv inv' same unfolding index_inv_def unit_inv_def by metis
  ultimately show ?thesis using view by blast
qed

theorem unapply_undoes_apply_witness:
  "get_utxo_by_ref ref_env (index_unapply ref_env 8 [OutputRef 7 0] [(0, sample_out)]
      (index_apply ref_env 8 [OutputRef 7 0] [(0, sample_out)] (Some 9) sample_state)) =
   get_utxo_by_ref ref_env sample_state"
proof -
  have "get_utxo_by_ref ref_env sample_state r = None" if "created 8 [(0, sample_out)] r \<noteq> None" for r
    using that
    by (auto simp: sample_state_def ref.view_apply ledger_apply_def ledger_spend_def created_def
        split: if_splits)
  moreover have "\<not> snd (snd row)" if "r \<in> set [OutputRef 7 0]" "get_utxo_by_ref ref_env sample_state r = Some row" for r row
    using that by (auto simp: sample_row)
  ultimately show ?thesis
    using unapply_undoes_apply [OF ref.index_env_axioms sample_inv, of 8 "[(0, sample_out)]" "[OutputRef 7 0]" "Some 9"]
    by blast
qed

text \<open>
  A query by output reference answers the row of that reference, spent or not, on the first
  page only, and within a scope only when the output carries the credential in that role.
\<close>
theorem by_ref_query_exact:
  assumes "index_env E"
  shows "get_utxos E scope (ByOutputRef r) offset limit s =
     Some (if limit = 0 \<or> offset > 0 then []
           else
             (case get_utxo_by_ref E s r of
                None \<Rightarrow> []
              | Some (out, st, sp) \<Rightarrow>
                  if (case scope of None \<Rightarrow> True
                      | Some (cr, kind) \<Rightarrow> (kind, cr) \<in> set (output_credentials out))
                  then [Txo r out st sp] else []), s)"
  by (rule index_env.by_ref_query [OF assms])

theorem by_ref_query_exact_witness:
  "get_utxos ref_env (Some (PubKey 1, Payment)) (ByOutputRef (OutputRef 7 0)) 0 1 sample_state =
     Some ([Txo (OutputRef 7 0) sample_out (Some 5) False], sample_state)"
  unfolding by_ref_query_exact [OF ref.index_env_axioms] by (simp add: sample_row sample_out_def)

end
