(* ===== verification/Server_Spec.thy ===== *)
theory Server_Spec
  imports Server Utxo_Spec
begin

text \<open>
  What a client of the API may rely on. The locale \<open>utxo_resolver\<close> is the contract between the
  handlers of src/server.rs and the index: a query on a well-formed database answers, keeps it
  well-formed, answers at most \<open>limit\<close> outputs, and changes no later answer. It is interpreted
  on \<open>get_utxos\<close>; the properties of the handlers rest on it.
\<close>

text \<open>The answer to a lookup when it is asked alone, as an item of a batch.\<close>

definition single_item ::
    "api \<Rightarrow> 's resolver \<Rightarrow> nat \<Rightarrow> nat \<Rightarrow> bool \<Rightarrow> 's \<Rightarrow> get_txos_lookup \<Rightarrow> batch_item option" where
  "single_item A R offset limit cbor s lookup =
     (case handle_get_utxos A R \<lparr> rq_lookup = lookup, rq_offset = offset, rq_limit = limit,
                                   rq_include_cbor_hex = cbor \<rparr> s of
        Some (HttpOk xs, _) \<Rightarrow> Some \<lparr> bi_request = lookup, bi_utxos = xs, bi_error = None \<rparr>
      | Some (HttpBadRequest err, _) \<Rightarrow> Some \<lparr> bi_request = lookup, bi_utxos = [], bi_error = Some err \<rparr>
      | _ \<Rightarrow> None)"

definition lookup_ok :: "api \<Rightarrow> (txo_query \<Rightarrow> bool) \<Rightarrow> get_txos_lookup \<Rightarrow> bool" where
  "lookup_ok A query_ok lookup \<longleftrightarrow>
     (case txo_query_try_from A (lk_query lookup) of Inr q \<Rightarrow> query_ok q | Inl _ \<Rightarrow> True)"

locale utxo_resolver =
  fixes R :: "'s resolver" and inv :: "'s \<Rightarrow> bool" and query_ok :: "txo_query \<Rightarrow> bool"
  assumes answers: "inv s \<Longrightarrow> \<exists>xs s'. R scope q offset limit s = Some (xs, s')"
    and keeps: "inv s \<Longrightarrow> R scope q offset limit s = Some (xs, s') \<Longrightarrow> inv s'"
    and bounded: "inv s \<Longrightarrow> R scope q offset limit s = Some (xs, s') \<Longrightarrow> length xs \<le> limit"
    and undisturbed: "inv s \<Longrightarrow> query_ok q \<Longrightarrow> R scope' q' offset' limit' s = Some (ys, s') \<Longrightarrow>
      map_option fst (R scope q offset limit s') = map_option fst (R scope q offset limit s)"
begin

lemma handler_answers: "inv s \<Longrightarrow> \<exists>r s'. handle_get_utxos A R req s = Some (r, s') \<and> inv s'"
  using answers [of s] keeps [of s]
  by (fastforce simp: handle_get_utxos_def Let_def split: sum.splits)

lemma batch_loop_answers:
  "inv s \<Longrightarrow> \<exists>rs s'. batch_loop A R offset limit cbor acc reqs s = Some (rs, s') \<and> inv s'"
proof (induction reqs arbitrary: acc s)
  case Nil
  then show ?case by simp
next
  case (Cons q reqs)
  note IH = Cons.IH
  show ?case
  proof (cases "resolve_request_credentials A (lk_address q) (lk_hash q) (lk_mode q) (lk_query q)")
    case (Inl e)
    then show ?thesis using IH [OF Cons.prems] by simp
  next
    case scope: (Inr scope)
    show ?thesis
    proof (cases "txo_query_try_from A (lk_query q)")
      case (Inl e)
      then show ?thesis using IH [OF Cons.prems] scope by simp
    next
      case (Inr query)
      obtain xs s1 where "R scope query offset limit s = Some (xs, s1)" using answers [OF Cons.prems] by blast
      then show ?thesis using IH keeps [OF Cons.prems] scope Inr by simp
    qed
  qed
qed

lemma single_item_undisturbed:
  assumes "inv s" "lookup_ok A query_ok lookup" "R scope' q' offset' limit' s = Some (ys, s')"
  shows "single_item A R offset limit cbor s' lookup = single_item A R offset limit cbor s lookup"
proof (cases "txo_query_try_from A (lk_query lookup)")
  case (Inl e)
  then show ?thesis by (simp add: single_item_def handle_get_utxos_def Let_def split: sum.splits)
next
  case (Inr q)
  with assms(2) have "query_ok q" by (simp add: lookup_ok_def)
  note same = undisturbed [OF assms(1) this assms(3)]
  have "single_item A R offset limit cbor t lookup =
      (case resolve_request_credentials A (lk_address lookup) (lk_hash lookup) (lk_mode lookup) (lk_query lookup) of
         Inl err \<Rightarrow> Some \<lparr> bi_request = lookup, bi_utxos = [], bi_error = Some err \<rparr>
       | Inr scope \<Rightarrow>
           map_option (\<lambda>xs. \<lparr> bi_request = lookup, bi_utxos = map (to_response A cbor) xs, bi_error = None \<rparr>)
             (map_option fst (R scope q offset limit t)))" for t
    using Inr by (simp add: single_item_def handle_get_utxos_def Let_def split: sum.splits option.splits prod.splits)
  then show ?thesis by (simp only: same)
qed

lemma single_item_step:
  "batch_loop A R offset limit cbor acc (q # reqs) s =
     (case single_item A R offset limit cbor s q of
        None \<Rightarrow> None
      | Some item \<Rightarrow>
          (case handle_get_utxos A R \<lparr> rq_lookup = q, rq_offset = offset, rq_limit = limit,
                                       rq_include_cbor_hex = cbor \<rparr> s of
             Some (_, s') \<Rightarrow> batch_loop A R offset limit cbor (acc @ [item]) reqs s'
           | None \<Rightarrow> None))"
  by (simp add: single_item_def handle_get_utxos_def Let_def split: sum.splits option.splits prod.splits)

lemma handler_state:
  assumes "handle_get_utxos A R req s = Some (r, s')"
  shows "s' = s \<or> (\<exists>scope q offset limit ys. R scope q offset limit s = Some (ys, s'))"
  using assms by (auto simp: handle_get_utxos_def Let_def split: sum.splits)

lemma batch_is_single:
  assumes "inv s" "\<forall>q \<in> set reqs. lookup_ok A query_ok q"
  shows "\<exists>items s'. batch_loop A R offset limit cbor acc reqs s = Some (acc @ items, s') \<and>
     map Some items = map (single_item A R offset limit cbor s) reqs"
  using assms
proof (induction reqs arbitrary: acc s)
  case Nil
  then show ?case by simp
next
  case (Cons q reqs)
  let ?req = "\<lparr> rq_lookup = q, rq_offset = offset, rq_limit = limit, rq_include_cbor_hex = cbor \<rparr>"
  obtain r s1 where h: "handle_get_utxos A R ?req s = Some (r, s1)" "inv s1"
    using handler_answers [OF Cons.prems(1)] by blast
  then have "r \<noteq> HttpServiceUnavailable" "\<And>l. r \<noteq> HttpFound l"
    by (auto simp: handle_get_utxos_def Let_def split: sum.splits)
  with h obtain item where item: "single_item A R offset limit cbor s q = Some item"
    by (cases r) (auto simp: single_item_def)
  have "single_item A R offset limit cbor s1 lk = single_item A R offset limit cbor s lk"
    if "lk \<in> set reqs" for lk
    using handler_state [OF h(1)] single_item_undisturbed [OF Cons.prems(1)] Cons.prems(2) that by auto
  then have same: "map (single_item A R offset limit cbor s1) reqs = map (single_item A R offset limit cbor s) reqs"
    by simp
  have "\<forall>q \<in> set reqs. lookup_ok A query_ok q" using Cons.prems(2) by simp
  from Cons.IH [OF h(2) this, of "acc @ [item]"] obtain items s2 where
    "batch_loop A R offset limit cbor (acc @ [item]) reqs s1 = Some ((acc @ [item]) @ items, s2)"
    "map Some items = map (single_item A R offset limit cbor s1) reqs" by blast
  then show ?case
    using item h(1) same by (intro exI [of _ "item # items"] exI [of _ s2]) (simp add: single_item_step del: batch_loop.simps)
qed

end

subsection \<open>The index is a resolver\<close>

definition queryable :: "'s env \<Rightarrow> 's \<Rightarrow> bool" where
  "queryable E s \<longleftrightarrow> index_inv E s \<and> (\<exists>outs. events_inv E outs s)"

fun ascii_query :: "txo_query \<Rightarrow> bool" where
  "ascii_query (UnspentByUnit un) = ascii_text un"
| "ascii_query _ = True"

lemma length_page: "length (page offset limit xs) \<le> limit"
  by (simp add: page_def)

context index_env
begin

lemma enumerates_unique: "enumerates E L T \<Longrightarrow> enumerates E L' T \<Longrightarrow> inj_on txo_oref T \<Longrightarrow> L = L'"
proof -
  assume L: "enumerates E L T" and L': "enumerates E L' T" and inj: "inj_on txo_oref T"
  let ?f = "\<lambda>t. utxo_key E (txo_oref t)"
  have "map ?f L = map ?f L'"
    by (rule sorted_distinct_set_unique)
      (use L L' in \<open>auto simp: enumerates_def strict_sorted_iff\<close>)
  moreover have "inj_on ?f (set L \<union> set L')"
    using L L' inj by (auto simp: enumerates_def inj_on_def key_simps)
  ultimately show "L = L'" by (metis map_inj_on)
qed

lemma row_key: "txo_inv E s \<Longrightarrow> lookup_row E s key \<noteq> None \<Longrightarrow> \<exists>r. key = utxo_key E r"
  unfolding txo_inv_def lookup_row_def by (cases "r_get (rdb E) s TxoCf key") auto

lemma index_answers_unit:
  assumes inv: "index_inv E s"
  shows "\<exists>L. \<forall>offset limit. limit > 0 \<longrightarrow>
     get_utxos E None (UnspentByUnit un) offset limit s =
       Some (page offset limit L, ensure_unit_index E s (to_ascii_lowercase un))"
proof -
  let ?p = "to_ascii_lowercase un"
  let ?s = "ensure_unit_index E s ?p"
  have tinv: "txo_inv E ?s" using index_inv_ensure [OF inv, of un] by (simp add: index_inv_def)
  have "key_ok E ?s (length ?p) kv" if "kv \<in> set (get_range_iterator E ?s UnitUnspentCf ?p None)" for kv
  proof -
    have "length ?p \<le> length (fst kv)" using that by (auto simp: range_mem prefix_length_le)
    moreover have "utxo_key_dec E (drop (length ?p) (fst kv)) \<noteq> None"
      if "lookup_row E ?s (drop (length ?p) (fst kv)) \<noteq> None"
    proof -
      from row_key [OF tinv that] obtain r where "drop (length ?p) (fst kv) = utxo_key E r" ..
      then show ?thesis by simp
    qed
    ultimately show ?thesis by (simp add: key_ok_def)
  qed
  then have "\<forall>kv \<in> set (get_range_iterator E ?s UnitUnspentCf ?p None).
      is_unit_sentinel ?p (fst kv) \<or> key_ok E ?s (length ?p) kv" by blast
  note loop = unit_loop_spec [OF this]
  show ?thesis
    by (intro exI allI impI) (simp add: get_utxos_def Let_def unit_index_key_prefix_def loop)
qed

text \<open>A query changes the database at most by a back-fill of the unit index.\<close>

lemma get_utxos_state:
  "get_utxos E scope q offset limit s = Some (xs, s') \<Longrightarrow>
     s' = s \<or> (\<exists>un. s' = ensure_unit_index E s (to_ascii_lowercase un))"
  by (cases scope; cases q) (auto simp: get_utxos_def Let_def split: if_splits)

lemma queryable_ensure: "queryable E s \<Longrightarrow> queryable E (ensure_unit_index E s (to_ascii_lowercase un))"
  unfolding queryable_def using index_inv_ensure events_inv_ensure by blast

lemma index_answers:
  assumes "queryable E s"
  shows "\<exists>L s'. get_utxos E scope q offset limit s = Some (page offset limit L, s')"
proof -
  obtain outs where inv: "index_inv E s" "events_inv E outs s"
    using assms unfolding queryable_def by blast
  show ?thesis
  proof (cases "limit = 0")
    case True
    then show ?thesis by (intro exI [of _ "[]"] exI [of _ s]) (simp add: get_utxos_def page_def)
  next
    case lim: False
    have ref: "\<exists>L s'. get_utxos E scope (ByOutputRef r) offset limit s = Some (page offset limit L, s')" for r
    proof -
      obtain L where L: "get_utxos E scope (ByOutputRef r) offset limit s = Some (L, s)" "length L \<le> 1" "offset > 0 \<longrightarrow> L = []"
        by (simp add: by_ref_query split: option.splits)
      then have "page offset limit L = L" using lim by (cases L) (auto simp: page_def take_Cons')
      then show ?thesis using L(1) by metis
    qed
    show ?thesis
    proof (cases scope)
      case None
      show ?thesis
      proof (cases q)
        case (UnspentByUnit un)
        then show ?thesis using index_answers_unit [OF inv(1), of un] lim None by blast
      next
        case (ByOutputRef r)
        then show ?thesis using ref by simp
      qed (use None lim in \<open>auto simp: get_utxos_def page_def intro!: exI [of _ "[]"]\<close>)
    next
      case (Some sc)
      then obtain cr kind where sc: "scope = Some (cr, kind)" by (cases sc) simp
      show ?thesis
      proof (cases q)
        case (AllTxos sl)
        then show ?thesis using all_query [OF inv(2), where cr = cr and kind = kind and least = sl] sc by blast
      next
        case Unspent
        then show ?thesis using unspent_query [OF inv(1), where cr = cr and kind = kind] sc by blast
      next
        case (UnspentByUnit un)
        then show ?thesis using unspent_unit_query [OF inv(1), where cr = cr and kind = kind and un = un] sc by blast
      next
        case (ByOutputRef r)
        then show ?thesis using ref by simp
      qed
    qed
  qed
qed

lemma lookup_row_ensure: "lookup_row E (ensure_unit_index E s un) = lookup_row E s"
  using get_ensure_unit_index [of s un TxoCf] by (auto simp: lookup_row_def intro!: ext)

lemma scoped_loop_cong:
  assumes "lookup_row E s' = lookup_row E s"
  shows "scoped_loop E s' n flt offset limit m acc items = scoped_loop E s n flt offset limit m acc items"
  by (induction items arbitrary: m acc) (auto simp: assms Let_def split: option.splits)

lemma get_scoped_ensure:
  assumes "c \<noteq> UnitUnspentCf"
  shows "get_scoped E (ensure_unit_index E s un) c cr n lb flt offset limit =
     get_scoped E s c cr n lb flt offset limit"
proof -
  have "r_get (rdb E) (ensure_unit_index E s un) c k = r_get (rdb E) s c k" for k
    using get_ensure_unit_index [of s un c] assms by blast
  then have "get_range_iterator E (ensure_unit_index E s un) c p lb = get_range_iterator E s c p lb" for p
    unfolding get_range_iterator_def Let_def by (intro iter_cong) simp
  then show ?thesis
    by (simp add: get_scoped_def scoped_loop_cong [OF lookup_row_ensure])
qed

lemma inj_unspent_with_unit: "inj_on txo_oref (unspent_with_unit E s un)"
  by (auto simp: inj_on_def unspent_with_unit_def)

lemma index_undisturbed:
  assumes inv: "queryable E s" and ok: "ascii_query q"
  shows "map_option fst (get_utxos E scope q offset limit (ensure_unit_index E s (to_ascii_lowercase un))) =
     map_option fst (get_utxos E scope q offset limit s)" (is "?lhs = ?rhs")
proof -
  let ?s = "ensure_unit_index E s (to_ascii_lowercase un)"
  have ref: "get_by_output_ref E ?s sc r offset = get_by_output_ref E s sc r offset" for r sc
    by (simp add: get_by_output_ref_def lookup_row_ensure)
  show ?thesis
  proof (cases "limit = 0 \<or> scope \<noteq> None \<or> (\<forall>x. q \<noteq> UnspentByUnit x)")
    case True
    then show ?thesis
      by (cases scope; cases q)
        (auto simp: get_utxos_def ref get_scoped_ensure option.map_comp comp_def)
  next
    case False
    then obtain x where x: "scope = None" "q = UnspentByUnit x" and lim: "limit > 0"
      by (cases scope) auto
    have asc: "ascii_text x" using ok x by simp
    have idx: "index_inv E s" "index_inv E ?s"
      using inv queryable_ensure [OF inv] by (auto simp: queryable_def)
    obtain L where L: "enumerates E L (unspent_with_unit E s x)"
      "get_utxos E None (UnspentByUnit x) offset limit s = Some (page offset limit L, ensure_unit_index E s (to_ascii_lowercase x))"
      using unit_query [OF idx(1) asc] lim by blast
    obtain L' where L': "enumerates E L' (unspent_with_unit E ?s x)"
      "get_utxos E None (UnspentByUnit x) offset limit ?s = Some (page offset limit L', ensure_unit_index E ?s (to_ascii_lowercase x))"
      using unit_query [OF idx(2) asc] lim by blast
    have "unspent_with_unit E ?s x = unspent_with_unit E s x"
      by (simp add: unspent_with_unit_def)
    then have "L' = L" using enumerates_unique [OF _ L(1) inj_unspent_with_unit, of L'] L'(1) by simp
    then show ?thesis using L(2) L'(2) x by simp
  qed
qed

text \<open>The contract of the trait, on the model of the index.\<close>

lemma index_is_resolver: "utxo_resolver (get_utxos E) (queryable E) ascii_query"
proof (unfold_locales, goal_cases)
  case (1 s scope q offset limit)
  then show ?case using index_answers by blast
next
  case (2 s scope q offset limit xs s')
  then show ?case using get_utxos_state queryable_ensure by blast
next
  case (3 s scope q offset limit xs s')
  then obtain L where "xs = page offset limit L"
    using index_answers [of s scope q offset limit] by auto
  then show ?case by (simp add: length_page)
next
  case (4 s q scope' q' offset' limit' ys s' scope offset limit)
  then show ?case using get_utxos_state [OF 4(3)] index_undisturbed [OF 4(1,2)] by auto
qed

end

interpretation api: utxo_resolver "get_utxos ref_env" "queryable ref_env" ascii_query
  by (rule ref.index_is_resolver)

subsection \<open>A sample API\<close>

definition hash28_from_hex :: "str \<Rightarrow> hash28 option" where
  "hash28_from_hex s =
     Option.bind (hex_decode s) (\<lambda>bs. if length bs = 28 then Some (word_of_nat (nat_be bs)) else None)"

definition sample_api :: api where
  "sample_api = \<lparr>
     keyhash_from_hex = hash28_from_hex,
     scripthash_from_hex = hash28_from_hex,
     txhash_from_hex = hash32_unhex,
     addr_from_bech32 = (\<lambda>bs. map_option fst (dec_address bs)),
     addr_payment_cred = (\<lambda>a. case a of Base p s \<Rightarrow> Some p | Enterprise p \<Rightarrow> Some p | Ptr p \<Rightarrow> Some p
                            | Reward p \<Rightarrow> Some p | Byron \<Rightarrow> None),
     hex_enc = hex_encode, raw_hex32 = hash32_hex, raw_hex28 = (\<lambda>h. hex_encode (hash28_bytes h)),
     datum_hash_of = (\<lambda>bs. word_of_nat (nat_be bs)), out_to_cbor = enc_output \<rparr>"

lemma sample_queryable: "queryable ref_env sample_state"
  unfolding queryable_def using sample_inv sample_events_inv by blast

subsection \<open>The properties\<close>

text \<open>
  C32. A batch request on a well-formed database never panics and answers each lookup, in order,
  exactly as if it had been sent alone: the errors of malformed lookups are reported in their
  place and no lookup disturbs another.
\<close>
theorem batch_answers_each_alone:
  assumes "index_env E" and "queryable E s"
    and "\<forall>lookup \<in> set (br_requests req). lookup_ok A ascii_query lookup"
  shows "\<exists>items s'. handle_get_utxos_batch A (get_utxos E) req s =
       Some (HttpOk \<lparr> bs_offset = br_offset req, bs_limit = br_limit req, bs_responses = items \<rparr>, s') \<and>
     map Some items =
       map (single_item A (get_utxos E) (br_offset req) (br_limit req) (br_include_cbor_hex req) s) (br_requests req)"
  using utxo_resolver.batch_is_single [OF index_env.index_is_resolver [OF assms(1)] assms(2,3),
      of "br_offset req" "br_limit req" "br_include_cbor_hex req" "[]"]
  by (auto simp: handle_get_utxos_batch_def)

theorem batch_answers_each_alone_witness:
  "\<exists>items s'. handle_get_utxos_batch sample_api (get_utxos ref_env)
       \<lparr> br_requests =
          [\<lparr> lk_address = None, lk_hash = None, lk_mode = ByPaymentCredential, lk_query = ApiUnspent \<rparr>,
           \<lparr> lk_address = None, lk_hash = None, lk_mode = ByPaymentCredential,
             lk_query = ApiUnspentByUnit [97, 98] \<rparr>],
         br_offset = 0, br_limit = 10, br_include_cbor_hex = True \<rparr> sample_state =
       Some (HttpOk \<lparr> bs_offset = 0, bs_limit = 10, bs_responses = items \<rparr>, s') \<and> length items = 2"
proof -
  let ?req = "\<lparr> br_requests =
          [\<lparr> lk_address = None, lk_hash = None, lk_mode = ByPaymentCredential, lk_query = ApiUnspent \<rparr>,
           \<lparr> lk_address = None, lk_hash = None, lk_mode = ByPaymentCredential,
             lk_query = ApiUnspentByUnit [97, 98] \<rparr>],
         br_offset = 0, br_limit = 10, br_include_cbor_hex = True \<rparr>"
  have "\<forall>lookup \<in> set (br_requests ?req). lookup_ok sample_api ascii_query lookup"
    by (simp add: lookup_ok_def ascii_text_def)
  from batch_answers_each_alone [OF ref.index_env_axioms sample_queryable this]
  obtain items s' where *: "handle_get_utxos_batch sample_api (get_utxos ref_env) ?req sample_state =
       Some (HttpOk \<lparr> bs_offset = br_offset ?req, bs_limit = br_limit ?req, bs_responses = items \<rparr>, s')"
    "map Some items = map (single_item sample_api (get_utxos ref_env) (br_offset ?req) (br_limit ?req)
       (br_include_cbor_hex ?req) sample_state) (br_requests ?req)" by blast
  from *(2) have "length items = 2" by (metis length_map list.size(3,4) Suc_1 One_nat_def
      batch_request.select_convs(1) add.right_neutral add_Suc_right)
  with *(1) show ?thesis by auto
qed

text \<open>
  The single-lookup handler never panics on a well-formed database and keeps it well-formed.
  It answers 400 exactly when the credential or the query of the request is malformed, without
  touching the database; otherwise 200 with at most \<open>limit\<close> entries, all in the compact or all
  in the detailed form the request chose.
\<close>
theorem handler_outcome:
  assumes "index_env E" and "queryable E s"
  shows "\<exists>r s'. handle_get_utxos A (get_utxos E) req s = Some (r, s') \<and> queryable E s' \<and>
     (case r of
        HttpOk xs \<Rightarrow> length xs \<le> rq_limit req \<and>
          list_all (\<lambda>x. case x of Compact _ \<Rightarrow> rq_include_cbor_hex req | Detailed _ \<Rightarrow> \<not> rq_include_cbor_hex req) xs
      | HttpBadRequest err \<Rightarrow> s' = s \<and>
          (resolve_request_credentials A (lk_address (rq_lookup req)) (lk_hash (rq_lookup req))
             (lk_mode (rq_lookup req)) (lk_query (rq_lookup req)) = Inl err \<or>
           txo_query_try_from A (lk_query (rq_lookup req)) = Inl err)
      | _ \<Rightarrow> False)"
proof -
  note res = index_env.index_is_resolver [OF assms(1)]
  obtain r s' where h: "handle_get_utxos A (get_utxos E) req s = Some (r, s')" "queryable E s'"
    using utxo_resolver.handler_answers [OF res assms(2)] by blast
  have "list_all (\<lambda>x. case x of Compact _ \<Rightarrow> rq_include_cbor_hex req | Detailed _ \<Rightarrow> \<not> rq_include_cbor_hex req)
      (map (to_response A (rq_include_cbor_hex req)) xs)" for xs
    by (simp add: list_all_iff to_response_def)
  then show ?thesis
    using h utxo_resolver.bounded [OF res assms(2)]
    by (intro exI [of _ r] exI [of _ s'])
      (auto simp: handle_get_utxos_def Let_def split: sum.splits)
qed

theorem handler_outcome_witness:
  "\<exists>r s'. handle_get_utxos sample_api (get_utxos ref_env)
      \<lparr> rq_lookup = \<lparr> lk_address = None, lk_hash = None, lk_mode = ByPaymentCredential,
          lk_query = ApiByOutputRef (ApiOutputRef [] 0) \<rparr>, rq_offset = 0, rq_limit = 3, rq_include_cbor_hex = False \<rparr>
      sample_state = Some (r, s') \<and> queryable ref_env s'"
  using handler_outcome [OF ref.index_env_axioms sample_queryable] by blast

text \<open>
  A request by \<open>hash\<close> always means a key hash: key hashes and script hashes have the same
  textual form, the parser of key hashes is tried first, and the script branch is never
  reached. Outputs locked by a script are indexed under a different tag, so they can not be
  found by the hash of the script.
\<close>
theorem hash_lookup_never_script:
  assumes "\<And>x. keyhash_from_hex A x = None \<longleftrightarrow> scripthash_from_hex A x = None"
  shows "credential_from_hash A hsh \<noteq> Inr (Script h) \<and>
     resolve_request_credentials A None (Some hsh) mode query \<noteq> Inr (Some (Script h, kind))"
  using assms [of hsh]
  by (auto simp: credential_from_hash_def resolve_request_credentials_def split: option.splits)

theorem hash_lookup_never_script_witness:
  "credential_from_hash sample_api (hex_encode (hash28_bytes 5)) \<noteq> Inr (Script 5) \<and>
   resolve_request_credentials sample_api None (Some (hex_encode (hash28_bytes 5))) ByPaymentCredential ApiUnspent
     \<noteq> Inr (Some (Script 5, Payment))"
  by (rule hash_lookup_never_script) (simp add: sample_api_def)

end
