(* ===== verification/Handler_Spec.thy ===== *)
theory Handler_Spec
  imports Ledger_Events Server_Spec
begin

text \<open>
  The monitor as a state machine: the database evolves by ledger events, mempool updates and
  queries. Every reachable database satisfies the invariants of the index, so every query on it
  is answered exactly; the events of a rolled back block undo those of the block.
\<close>

definition tx_refs :: "tx_view_mut \<Rightarrow> output_ref list" where
  "tx_refs tx = map output_ref_from_input (tv_inputs tx)"

text \<open>The outputs of a transaction are fixed by its hash.\<close>

definition tx_consistent :: "(output_ref \<Rightarrow> tx_output) \<Rightarrow> tx_view_mut \<Rightarrow> bool" where
  "tx_consistent outs tx \<longleftrightarrow>
     (\<forall>(ix, out) \<in> set (tv_outputs tx). outs (OutputRef (tv_hash tx) (word_of_nat ix)) = out)"

fun ledger_event_tx :: "'tx ledger_tx_event \<Rightarrow> 'tx" where
  "ledger_event_tx (TxApplied tx sl n h) = tx"
| "ledger_event_tx (TxUnapplied tx sl n h) = tx"

fun mempool_update_tx :: "'tx mempool_update \<Rightarrow> 'tx" where
  "mempool_update_tx (TxAccepted tx) = tx"
| "mempool_update_tx (TxDropped tx) = tx"

inductive monitor_reachable :: "'s env \<Rightarrow> (output_ref \<Rightarrow> tx_output) \<Rightarrow> 's \<Rightarrow> bool"
  for E :: "'s env" and outs :: "output_ref \<Rightarrow> tx_output" where
  fresh: "(\<And>c k. r_get (rdb E) s c k = None) \<Longrightarrow> monitor_reachable E outs s"
| ledger: "monitor_reachable E outs s \<Longrightarrow> tx_consistent outs (ledger_event_tx ev) \<Longrightarrow>
     monitor_reachable E outs (snd (handle_ledger_event E ev s))"
| mempool: "monitor_reachable E outs s \<Longrightarrow> tx_consistent outs (mempool_update_tx ev) \<Longrightarrow>
     monitor_reachable E outs (snd (handle_mempool_update E ev s))"
| lookup: "monitor_reachable E outs s \<Longrightarrow> get_utxos E scope q offset limit s = Some (xs, s') \<Longrightarrow>
     monitor_reachable E outs s'"

context index_env
begin

lemma handler_keeps:
  assumes "index_inv E s" "events_inv E outs s" "tx_consistent outs tx"
  shows "index_inv E (handler_apply_tx E tx st s)" "events_inv E outs (handler_apply_tx E tx st s)"
    "index_inv E (handler_unapply_tx E tx s)" "events_inv E outs (handler_unapply_tx E tx s)"
  using assms
  by (auto simp: handler_apply_tx_def handler_unapply_tx_def tx_consistent_def
      intro!: index_inv_apply index_inv_unapply events_inv_apply events_inv_unapply)

lemma reachable_inv: "monitor_reachable E outs s \<Longrightarrow> index_inv E s \<and> events_inv E outs s"
proof (induction rule: monitor_reachable.induct)
  case (fresh s)
  then show ?case
    by (simp add: index_inv_def txo_inv_def unspent_inv_def unit_inv_def unspent_with_def
        events_inv_def get_utxo_by_ref_def)
next
  case (ledger s ev)
  then show ?case by (cases ev) (auto intro: handler_keeps)
next
  case (mempool s ev)
  then show ?case by (cases ev) (auto intro: handler_keeps)
next
  case (lookup s scope q offset limit xs s')
  then show ?case using get_utxos_state index_inv_ensure events_inv_ensure by blast
qed

lemma view_handler_apply:
  "get_utxo_by_ref E (handler_apply_tx E tx st s) =
     ledger_apply (tv_hash tx) (tx_refs tx) (tv_outputs tx) st (get_utxo_by_ref E s)"
  by (simp add: handler_apply_tx_def tx_refs_def view_apply)

lemma view_handler_unapply:
  "get_utxo_by_ref E (handler_unapply_tx E tx s) =
     ledger_unapply (tv_hash tx) (tx_refs tx) (tv_outputs tx) (get_utxo_by_ref E s)"
  by (simp add: handler_unapply_tx_def tx_refs_def view_unapply)

end

subsection \<open>Blocks\<close>

text \<open>
  A block extends a ledger when, one after the other, each of its transactions spends only
  outputs that are unspent as far as they are known, and creates only new ones.
\<close>

definition tx_extends :: "ledger \<Rightarrow> tx_view_mut \<Rightarrow> bool" where
  "tx_extends m tx \<longleftrightarrow>
     list_all (\<lambda>(ix, _). m (OutputRef (tv_hash tx) (word_of_nat ix)) = None) (tv_outputs tx) \<and>
     list_all (\<lambda>r. case m r of Some (_, _, spent) \<Rightarrow> \<not> spent | None \<Rightarrow> True) (tx_refs tx)"

fun block_extends :: "slot \<Rightarrow> ledger \<Rightarrow> tx_view_mut list \<Rightarrow> bool" where
  "block_extends sl m [] = True"
| "block_extends sl m (tx # txs) =
     (tx_extends m tx \<and>
      block_extends sl (ledger_apply (tv_hash tx) (tx_refs tx) (tv_outputs tx) (Some sl) m) txs)"

definition handle_ledger_events :: "'s env \<Rightarrow> tx_view_mut ledger_tx_event list \<Rightarrow> 's \<Rightarrow> 's" where
  "handle_ledger_events E evs s = fold (\<lambda>ev s. snd (handle_ledger_event E ev s)) evs s"

definition apply_events :: "slot \<Rightarrow> u64 \<Rightarrow> hash32 \<Rightarrow> 'tx list \<Rightarrow> 'tx ledger_tx_event list" where
  "apply_events sl n h txs = map (\<lambda>tx. TxApplied tx sl n h) txs"

definition unapply_events :: "slot \<Rightarrow> u64 \<Rightarrow> hash32 \<Rightarrow> 'tx list \<Rightarrow> 'tx ledger_tx_event list" where
  "unapply_events sl n h txs = rev (map (\<lambda>tx. TxUnapplied tx sl n h) txs)"

lemma created_some: "created h outs r \<noteq> None \<Longrightarrow> \<exists>(ix, out) \<in> set outs. r = OutputRef h (word_of_nat ix)"
  unfolding created_def by (auto simp: map_of_eq_None_iff image_iff) force

lemma tx_extends_undo:
  assumes "tx_extends m tx"
  shows "ledger_unapply (tv_hash tx) (tx_refs tx) (tv_outputs tx)
     (ledger_apply (tv_hash tx) (tx_refs tx) (tv_outputs tx) st m) = m"
proof (rule ledger_unapply_apply)
  fix r assume "created (tv_hash tx) (tv_outputs tx) r \<noteq> None"
  from created_some [OF this] assms show "m r = None"
    by (auto simp: tx_extends_def list_all_iff)
next
  fix r row assume r: "r \<in> set (tx_refs tx)" "m r = Some row"
  have "case m r of Some (_, _, spent) \<Rightarrow> \<not> spent | None \<Rightarrow> True"
    using assms r(1) unfolding tx_extends_def list_all_iff by blast
  then show "\<not> snd (snd row)" using r(2) by (cases row) simp
qed

context index_env
begin

lemma view_apply_events:
  "get_utxo_by_ref E (handle_ledger_events E (apply_events sl n h txs) s) =
     fold (\<lambda>tx. ledger_apply (tv_hash tx) (tx_refs tx) (tv_outputs tx) (Some sl)) txs (get_utxo_by_ref E s)"
  by (induction txs arbitrary: s) (simp_all add: handle_ledger_events_def apply_events_def view_handler_apply)

lemma view_unapply_events:
  "get_utxo_by_ref E (handle_ledger_events E (unapply_events sl n h txs) s) =
     fold (\<lambda>tx. ledger_unapply (tv_hash tx) (tx_refs tx) (tv_outputs tx)) (rev txs) (get_utxo_by_ref E s)"
proof (induction txs arbitrary: s rule: rev_induct)
  case Nil
  then show ?case by (simp add: handle_ledger_events_def unapply_events_def)
next
  case (snoc tx txs)
  then show ?case by (simp add: handle_ledger_events_def unapply_events_def view_handler_unapply)
qed

end

lemma block_undo:
  "block_extends sl m txs \<Longrightarrow>
     fold (\<lambda>tx. ledger_unapply (tv_hash tx) (tx_refs tx) (tv_outputs tx)) (rev txs)
       (fold (\<lambda>tx. ledger_apply (tv_hash tx) (tx_refs tx) (tv_outputs tx) (Some sl)) txs m) = m"
  by (induction txs arbitrary: m) (auto simp: tx_extends_undo)

subsection \<open>The properties\<close>

text \<open>
  C10. From a fresh database, whatever ledger events (blocks and rollbacks), mempool updates and
  queries arrive and in whatever order, the database stays queryable: the unspent and unit
  indexes are exact and the event indexes sound and complete, so the query properties apply at
  every moment of the service.
\<close>
theorem reachable_queryable:
  assumes "index_env E" and "monitor_reachable E outs s"
  shows "index_inv E s \<and> events_inv E outs s \<and> queryable E s"
  using index_env.reachable_inv [OF assms] unfolding queryable_def by blast

theorem reachable_queryable_witness:
  "queryable ref_env (snd (handle_ledger_event ref_env
     (TxApplied \<lparr> tv_hash = 7, tv_inputs = [], tv_outputs = [(0, sample_out)], tv_metadata = None,
                  tv_mints = None, tv_signers = [] \<rparr> 5 1 0) empty_store))"
proof -
  let ?ev = "TxApplied \<lparr> tv_hash = 7, tv_inputs = [], tv_outputs = [(0, sample_out)], tv_metadata = None,
                  tv_mints = None, tv_signers = [] \<rparr> 5 1 0"
  have "monitor_reachable ref_env (\<lambda>_. sample_out) (snd (handle_ledger_event ref_env ?ev empty_store))"
    by (rule monitor_reachable.ledger [OF monitor_reachable.fresh])
      (simp_all add: get_empty_store tx_consistent_def)
  from reachable_queryable [OF ref.index_env_axioms this] show ?thesis by blast
qed

text \<open>
  The events of a rollback undo a block: after the transactions of a block that extends the
  ledger are applied in order and unapplied in reverse order, the table of outputs is what it
  was, whatever the transactions of the block spend of each other.
\<close>
theorem block_rollback_restores:
  assumes "index_env E" and "block_extends sl (get_utxo_by_ref E s) txs"
  shows "get_utxo_by_ref E (handle_ledger_events E
       (apply_events sl n h txs @ unapply_events sl n' h' txs) s) = get_utxo_by_ref E s"
proof -
  have "handle_ledger_events E (apply_events sl n h txs @ unapply_events sl n' h' txs) s =
      handle_ledger_events E (unapply_events sl n' h' txs) (handle_ledger_events E (apply_events sl n h txs) s)"
    by (simp add: handle_ledger_events_def)
  then show ?thesis
    by (simp add: index_env.view_unapply_events [OF assms(1)] index_env.view_apply_events [OF assms(1)]
        block_undo [OF assms(2)])
qed

theorem block_rollback_restores_witness:
  "get_utxo_by_ref ref_env (handle_ledger_events ref_env
     (apply_events 9 2 0 [\<lparr> tv_hash = 8, tv_inputs = [\<lparr> ti_transaction_id = 7, ti_index = 0 \<rparr>],
         tv_outputs = [(0, sample_out)], tv_metadata = None, tv_mints = None, tv_signers = [] \<rparr>] @
      unapply_events 9 2 0 [\<lparr> tv_hash = 8, tv_inputs = [\<lparr> ti_transaction_id = 7, ti_index = 0 \<rparr>],
         tv_outputs = [(0, sample_out)], tv_metadata = None, tv_mints = None, tv_signers = [] \<rparr>]) sample_state) =
   get_utxo_by_ref ref_env sample_state"
proof -
  have "get_utxo_by_ref ref_env sample_state (OutputRef 8 0) = None"
    by (simp add: sample_state_def ref.view_apply ledger_apply_def ledger_spend_def created_def)
  then show ?thesis
    by (intro block_rollback_restores [OF ref.index_env_axioms])
      (simp add: tx_extends_def tx_refs_def output_ref_from_input_def sample_row)
qed

text \<open>
  C35. Dropping a transaction from the mempool marks its inputs unspent without asking who else
  spent them: when a pending transaction loses a double spend against a confirmed one and is
  dropped, the output that the confirmed transaction consumed is offered as unspent again.
\<close>
theorem dropped_conflict_revives_input:
  assumes "index_env E"
    and "get_utxo_by_ref E s r = Some (out, st, False)"
    and "r \<in> set (tx_refs a)" "r \<in> set (tx_refs b)" "tx_hash r \<noteq> tv_hash a" "tx_hash r \<noteq> tv_hash b"
  shows "let s1 = snd (handle_mempool_update E (TxAccepted a) s);
             s2 = snd (handle_ledger_event E (TxApplied b sl n h) s1);
             s3 = snd (handle_mempool_update E (TxDropped a) s2)
         in get_utxo_by_ref E s2 r = Some (out, st, True) \<and> get_utxo_by_ref E s3 r = Some (out, st, False)"
proof -
  have "created (tv_hash a) os r = None" "created (tv_hash b) os r = None" for os
    using created_some [of "tv_hash a" os r] created_some [of "tv_hash b" os r] assms(5,6) by force+
  then show ?thesis
    using assms(2-4)
    by (auto simp: Let_def index_env.view_handler_apply [OF assms(1)] index_env.view_handler_unapply [OF assms(1)]
        ledger_apply_def ledger_unapply_def ledger_spend_def)
qed

theorem dropped_conflict_revives_input_witness:
  "let a = \<lparr> tv_hash = 20, tv_inputs = [\<lparr> ti_transaction_id = 7, ti_index = 0 \<rparr>], tv_outputs = [],
             tv_metadata = None, tv_mints = None, tv_signers = [] \<rparr>;
       b = a\<lparr> tv_hash := 21 \<rparr>;
       s1 = snd (handle_mempool_update ref_env (TxAccepted a) sample_state);
       s2 = snd (handle_ledger_event ref_env (TxApplied b 9 2 0) s1);
       s3 = snd (handle_mempool_update ref_env (TxDropped a) s2)
   in get_utxo_by_ref ref_env s2 (OutputRef 7 0) = Some (sample_out, Some 5, True) \<and>
      get_utxo_by_ref ref_env s3 (OutputRef 7 0) = Some (sample_out, Some 5, False)"
  using dropped_conflict_revives_input [OF ref.index_env_axioms sample_row,
      of "\<lparr> tv_hash = 20, tv_inputs = [\<lparr> ti_transaction_id = 7, ti_index = 0 \<rparr>], tv_outputs = [],
             tv_metadata = None, tv_mints = None, tv_signers = [] \<rparr>"
         "\<lparr> tv_hash = 21, tv_inputs = [\<lparr> ti_transaction_id = 7, ti_index = 0 \<rparr>], tv_outputs = [],
             tv_metadata = None, tv_mints = None, tv_signers = [] \<rparr>" 9 2 0]
  by (simp add: Let_def tx_refs_def output_ref_from_input_def)

end
