(* ===== verification/Pipeline.thy ===== *)
theory Pipeline
  imports Event_Handlers Mempool Handler_Spec
begin

text \<open>
  The processes of src/main.rs put together. Ledger stream, mempool stream and the two loops of
  the transaction tracker run concurrently and talk through queues, so the program is a step
  relation: any process may take its next step. \<open>view\<close> is \<open>TxViewMut::from\<close> and \<open>canonical_hash\<close>
  the hash of a mempool transaction; both are given by the transaction.
\<close>

record ('s, 'tx) pipeline =
  pl_shared :: "'s shared"
  pl_mempool :: "(hash32, 'tx) mempool_state"
  pl_taken :: nat
  pl_tracker :: "(hash32, 'tx) tracker"
  pl_failed :: "'tx list"

definition max_confirmation_delay_blocks :: u64 where
  "max_confirmation_delay_blocks = 6"

definition pipeline_init :: "'s \<Rightarrow> ('s, 'tx) pipeline" where
  "pipeline_init s =
     \<lparr> pl_shared = \<lparr> sh_db = s, sh_confirmed = [] \<rparr>, pl_mempool = mempool_init, pl_taken = 0,
       pl_tracker = tracker_new max_confirmation_delay_blocks, pl_failed = [] \<rparr>"

text \<open>
  The steps: an event of the ledger stream; the beacon; a transaction of the mempool client; the
  tracker takes the next announced transaction (\<open>pl_taken\<close> counts them) or the next confirmed
  one; the mempool stream takes the next failed transaction; the API server answers a lookup.
\<close>

datatype 'tx pipeline_action =
    LedgerEvent "tx_view_mut ledger_tx_event"
  | Synced
  | ClientTx 'tx
  | TrackNext instant
  | ConfirmNext
  | DropNext
  | ApiLookup "(credential \<times> credential_kind) option" txo_query nat nat

definition on_mempool ::
    "'s env \<Rightarrow> ('tx \<Rightarrow> tx_view_mut) \<Rightarrow> ('tx \<Rightarrow> hash32) \<Rightarrow> 'tx mempool_source \<Rightarrow>
     ('s, 'tx) pipeline \<Rightarrow> ('s, 'tx) pipeline" where
  "on_mempool E view canonical_hash src p =
     (let before = length (ms_updates (pl_mempool p));
          ms = mempool_stream canonical_hash src (pl_mempool p)
      in p\<lparr>pl_mempool := ms,
           pl_shared := process_events (map (mempool_update_map view) (drop before (ms_updates ms)))
             (handlers_mempool E) (pl_shared p)\<rparr>)"

fun pipeline_step ::
    "'s env \<Rightarrow> ('tx \<Rightarrow> tx_view_mut) \<Rightarrow> ('tx \<Rightarrow> hash32) \<Rightarrow> 'tx pipeline_action \<Rightarrow>
     ('s, 'tx) pipeline \<Rightarrow> ('s, 'tx) pipeline option" where
  "pipeline_step E view ch (LedgerEvent ev) p =
     Some (p\<lparr>pl_shared := process_events [ev] (handlers_ledger E) (pl_shared p)\<rparr>)"
| "pipeline_step E view ch Synced p = Some (on_mempool E view ch StateSynced p)"
| "pipeline_step E view ch (ClientTx tx) p =
     (if ms_synced (pl_mempool p) then Some (on_mempool E view ch (FromClient tx) p) else None)"
| "pipeline_step E view ch (TrackNext now) p =
     (if pl_taken p < length (ms_tracked (pl_mempool p))
      then Some (p\<lparr>pl_taken := pl_taken p + 1,
                   pl_tracker := process_incoming_tx now (ms_tracked (pl_mempool p) ! pl_taken p) (pl_tracker p)\<rparr>)
      else None)"
| "pipeline_step E view ch ConfirmNext p =
     (case sh_confirmed (pl_shared p) of
        [] \<Rightarrow> None
      | x # rest \<Rightarrow>
          let (failed, tracker) = process_confirmed_tx x (pl_tracker p)
          in Some (p\<lparr>pl_shared := (pl_shared p)\<lparr>sh_confirmed := rest\<rparr>,
                     pl_tracker := tracker, pl_failed := pl_failed p @ failed\<rparr>))"
| "pipeline_step E view ch DropNext p =
     (case pl_failed p of
        [] \<Rightarrow> None
      | tx # rest \<Rightarrow>
          if ms_synced (pl_mempool p)
          then Some (on_mempool E view ch (FromFailed tx) (p\<lparr>pl_failed := rest\<rparr>)) else None)"
| "pipeline_step E view ch (ApiLookup scope query offset limit) p =
     map_option (\<lambda>(txos, db). p\<lparr>pl_shared := (pl_shared p)\<lparr>sh_db := db\<rparr>\<rparr>)
       (get_utxos E scope query offset limit (sh_db (pl_shared p)))"

text \<open>
  Transactions that enter from outside agree with \<open>outs\<close>, the outputs fixed by their hashes.
\<close>

fun action_consistent ::
    "('tx \<Rightarrow> tx_view_mut) \<Rightarrow> (output_ref \<Rightarrow> tx_output) \<Rightarrow> 'tx pipeline_action \<Rightarrow> bool" where
  "action_consistent view outs (LedgerEvent ev) = tx_consistent outs (ledger_event_tx ev)"
| "action_consistent view outs (ClientTx tx) = tx_consistent outs (view tx)"
| "action_consistent view outs _ = True"

inductive pipeline_reachable ::
    "'s env \<Rightarrow> ('tx \<Rightarrow> tx_view_mut) \<Rightarrow> ('tx \<Rightarrow> hash32) \<Rightarrow> (output_ref \<Rightarrow> tx_output) \<Rightarrow>
     ('s, 'tx) pipeline \<Rightarrow> bool"
  for E :: "'s env" and view :: "'tx \<Rightarrow> tx_view_mut" and ch :: "'tx \<Rightarrow> hash32"
    and outs :: "output_ref \<Rightarrow> tx_output" where
  init: "(\<And>c k. r_get (rdb E) s c k = None) \<Longrightarrow> pipeline_reachable E view ch outs (pipeline_init s)"
| act: "pipeline_reachable E view ch outs p \<Longrightarrow> action_consistent view outs a \<Longrightarrow>
     pipeline_step E view ch a p = Some p' \<Longrightarrow> pipeline_reachable E view ch outs p'"

subsection \<open>Conservation of transactions\<close>

fun accepted_txs :: "'tx mempool_update list \<Rightarrow> 'tx multiset" where
  "accepted_txs [] = {#}"
| "accepted_txs (TxAccepted tx # us) = add_mset tx (accepted_txs us)"
| "accepted_txs (TxDropped tx # us) = accepted_txs us"

fun dropped_txs :: "'tx mempool_update list \<Rightarrow> 'tx multiset" where
  "dropped_txs [] = {#}"
| "dropped_txs (TxAccepted tx # us) = dropped_txs us"
| "dropped_txs (TxDropped tx # us) = add_mset tx (dropped_txs us)"

lemma accepted_txs_append [simp]: "accepted_txs (us @ vs) = accepted_txs us + accepted_txs vs"
  by (induction us rule: accepted_txs.induct) auto

lemma dropped_txs_append [simp]: "dropped_txs (us @ vs) = dropped_txs us + dropped_txs vs"
  by (induction us rule: dropped_txs.induct) auto

definition bucket_txs :: "('h, 'tx) bucket \<Rightarrow> 'tx multiset" where
  "bucket_txs b = mset (map (\<lambda>(h, tx, i). tx) b)"

definition queue_txs :: "(u64 \<times> ('h, 'tx) bucket) list \<Rightarrow> 'tx multiset" where
  "queue_txs q = sum_list (map (\<lambda>(k, b). bucket_txs b) q)"

lemma queue_txs_simps [simp]: "queue_txs [] = {#}" "queue_txs ((k, b) # q) = bucket_txs b + queue_txs q"
  by (simp_all add: queue_txs_def)

lemma bucket_update: "bucket_txs (AList.update h (tx, i) b) \<subseteq># add_mset tx (bucket_txs b)"
  by (induction b) (auto simp: bucket_txs_def intro: subset_mset.trans)

lemma bucket_delete: "bucket_txs (AList.delete h b) \<subseteq># bucket_txs b"
  by (induction b) (auto simp: bucket_txs_def intro: subset_mset.trans)

lemma queue_insert_txs: "queue_txs (queue_insert k h (tx, i) q) \<subseteq># add_mset tx (queue_txs q)"
proof (induction k h "(tx, i)" q rule: queue_insert.induct)
  case (1 k h)
  then show ?case by (simp add: bucket_txs_def)
next
  case (2 k h k' b q)
  have "bucket_txs (AList.update h (tx, i) b) + queue_txs q \<subseteq># add_mset tx (bucket_txs b) + queue_txs q"
    by (rule subset_mset.add_right_mono [OF bucket_update])
  moreover have "bucket_txs b + queue_txs (queue_insert k h (tx, i) q) \<subseteq># bucket_txs b + add_mset tx (queue_txs q)"
    if "\<not> k < k'" "k \<noteq> k'" by (rule subset_mset.add_left_mono [OF 2 [OF that]])
  ultimately show ?case by (simp add: bucket_txs_def)
qed

lemma queue_remove_txs: "queue_txs (queue_remove k h q) \<subseteq># queue_txs q"
  by (induction k h q rule: queue_remove.induct)
    (auto intro: subset_mset.add_right_mono subset_mset.add_left_mono bucket_delete)

lemma rev_insert_txs: "mset (map snd (rev_insert i x r)) \<subseteq># add_mset x (mset (map snd r))"
  by (induction i x r rule: rev_insert.induct) (auto intro: subset_mset.trans)

lemma fold_rev_insert_txs:
  "mset (map snd (fold (\<lambda>(_, tx, i). rev_insert i tx) b r)) \<subseteq># bucket_txs b + mset (map snd r)"
proof (induction b arbitrary: r)
  case Nil
  then show ?case by (simp add: bucket_txs_def)
next
  case (Cons e b)
  obtain h tx i where e: "e = (h, tx, i)" by (cases e)
  have "bucket_txs b + mset (map snd (rev_insert i tx r)) \<subseteq># bucket_txs b + add_mset tx (mset (map snd r))"
    by (rule subset_mset.add_left_mono [OF rev_insert_txs])
  from subset_mset.trans [OF Cons this] show ?case by (simp add: e bucket_txs_def)
qed

lemma drain_txs:
  "queue_txs (fst (drain nb q index failed)) + mset (map snd (snd (snd (drain nb q index failed)))) \<subseteq>#
     queue_txs q + mset (map snd failed)"
proof (induction nb q index failed rule: drain.induct)
  case (2 nb k txs q index failed)
  show ?case
  proof (cases "k \<le> nb")
    case True
    have "queue_txs q + mset (map snd (fold (\<lambda>(_, tx, i). rev_insert i tx) txs failed)) \<subseteq>#
        queue_txs q + (bucket_txs txs + mset (map snd failed))"
      by (rule subset_mset.add_left_mono [OF fold_rev_insert_txs])
    from subset_mset.trans [OF 2 [OF True] this] show ?thesis using True by (simp add: ac_simps)
  qed simp
qed simp

definition pending_of :: "(hash32, 'tx) tracker \<Rightarrow> 'tx multiset" where
  "pending_of t = queue_txs (pt_queue (tr_pending t))"

lemma incoming_txs: "pending_of (process_incoming_tx now (h, tx) t) \<subseteq># add_mset tx (pending_of t)"
  by (simp add: process_incoming_tx_def pt_append_def pending_of_def Let_def queue_insert_txs)

lemma confirmed_txs:
  assumes "process_confirmed_tx x t = (failed, t')"
  shows "pending_of t' + mset failed \<subseteq># pending_of t"
proof -
  obtain h b where x: "x = (h, b)" by force
  let ?p = "pt_confirm_tx h (tr_pending t)"
  have c: "queue_txs (pt_queue ?p) \<subseteq># pending_of t"
    using queue_remove_txs by (auto simp: pt_confirm_tx_def pending_of_def split: option.split)
  show ?thesis
  proof (cases "pt_current ?p < b")
    case True
    then have "pending_of t' + mset failed \<subseteq># queue_txs (pt_queue ?p)"
      using assms drain_txs [of b "pt_queue ?p" "pt_index ?p" "[]"]
      by (auto simp: x process_confirmed_tx_def pt_try_advance_def pending_of_def Let_def split: prod.splits)
    with c show ?thesis by (rule subset_mset.trans [rotated])
  next
    case False
    then show ?thesis
      using assms c by (auto simp: x process_confirmed_tx_def pt_try_advance_def pending_of_def Let_def)
  qed
qed

text \<open>What is on its way from acceptance to being dropped.\<close>

definition in_flight :: "('s, 'tx) pipeline \<Rightarrow> 'tx multiset" where
  "in_flight p = mset (map snd (drop (pl_taken p) (ms_tracked (pl_mempool p)))) +
     pending_of (pl_tracker p) + mset (pl_failed p)"

definition pipeline_inv :: "('s, 'tx) pipeline \<Rightarrow> bool" where
  "pipeline_inv p \<longleftrightarrow>
     dropped_txs (ms_updates (pl_mempool p)) + in_flight p \<subseteq># accepted_txs (ms_updates (pl_mempool p)) \<and>
     (ms_updates (pl_mempool p) \<noteq> [] \<longrightarrow> ms_synced (pl_mempool p)) \<and>
     pl_taken p \<le> length (ms_tracked (pl_mempool p))"

lemma pipeline_inv_init: "pipeline_inv (pipeline_init s)"
  by (simp add: pipeline_inv_def pipeline_init_def in_flight_def mempool_init_def pending_of_def
      tracker_new_def pt_new_def)

lemma pipeline_inv_less:
  assumes inv: "pipeline_inv p" and less: "in_flight p' \<subseteq># in_flight p"
    and same: "pl_mempool p' = pl_mempool p" "pl_taken p' \<le> length (ms_tracked (pl_mempool p))"
  shows "pipeline_inv p'"
proof -
  have "dropped_txs (ms_updates (pl_mempool p)) + in_flight p' \<subseteq>#
      dropped_txs (ms_updates (pl_mempool p)) + in_flight p"
    by (rule subset_mset.add_left_mono [OF less])
  also have "\<dots> \<subseteq># accepted_txs (ms_updates (pl_mempool p))" using inv by (simp add: pipeline_inv_def)
  finally show ?thesis using inv same by (simp add: pipeline_inv_def)
qed

lemma pipeline_inv_step:
  assumes inv: "pipeline_inv p" and step: "pipeline_step E view ch a p = Some p'"
  shows "pipeline_inv p'"
proof (cases a)
  case (LedgerEvent ev)
  then show ?thesis using assms by (auto simp: pipeline_inv_def in_flight_def)
next
  case Synced
  then show ?thesis using assms by (auto simp: pipeline_inv_def in_flight_def on_mempool_def Let_def)
next
  case (ClientTx tx)
  then show ?thesis
    using assms by (auto simp: pipeline_inv_def in_flight_def on_mempool_def Let_def add.assoc split: if_splits)
next
  case (TrackNext now)
  then have lt: "pl_taken p < length (ms_tracked (pl_mempool p))"
    and p': "p' = p\<lparr>pl_taken := pl_taken p + 1,
      pl_tracker := process_incoming_tx now (ms_tracked (pl_mempool p) ! pl_taken p) (pl_tracker p)\<rparr>"
    using step by (auto split: if_splits)
  obtain h tx where x: "ms_tracked (pl_mempool p) ! pl_taken p = (h, tx)" by force
  have "drop (pl_taken p) (ms_tracked (pl_mempool p)) = (h, tx) # drop (pl_taken p + 1) (ms_tracked (pl_mempool p))"
    using lt x by (simp add: Cons_nth_drop_Suc [symmetric])
  then have "in_flight p' \<subseteq># in_flight p"
    using incoming_txs [of now h tx "pl_tracker p"] by (simp add: in_flight_def p' x)
  then show ?thesis by (rule pipeline_inv_less [OF inv]) (use lt in \<open>simp_all add: p'\<close>)
next
  case ConfirmNext
  then obtain x rest failed t where c: "sh_confirmed (pl_shared p) = x # rest"
    "process_confirmed_tx x (pl_tracker p) = (failed, t)"
    and p': "p' = p\<lparr>pl_shared := (pl_shared p)\<lparr>sh_confirmed := rest\<rparr>, pl_tracker := t, pl_failed := pl_failed p @ failed\<rparr>"
    using step by (auto split: list.splits prod.splits)
  have "in_flight p' \<subseteq># in_flight p"
    using confirmed_txs [OF c(2)] by (simp add: in_flight_def p' ac_simps)
  then show ?thesis
    by (rule pipeline_inv_less [OF inv]) (use inv in \<open>simp_all add: p' pipeline_inv_def\<close>)
next
  case DropNext
  then show ?thesis
    using assms by (auto simp: pipeline_inv_def in_flight_def on_mempool_def Let_def split: list.splits if_splits)
next
  case (ApiLookup scope query offset limit)
  then show ?thesis using assms by (auto simp: pipeline_inv_def in_flight_def)
qed

lemma pipeline_reachable_inv: "pipeline_reachable E view ch outs p \<Longrightarrow> pipeline_inv p"
  by (induction rule: pipeline_reachable.induct) (auto intro: pipeline_inv_init pipeline_inv_step)

subsection \<open>The database behind the pipeline\<close>

lemma ledger_shared:
  "process_events [ev] (handlers_ledger E) w =
     w\<lparr>sh_db := snd (handle_ledger_event E ev (sh_db w)), sh_confirmed := sh_confirmed w @ [succinct_tx ev]\<rparr>"
  by (simp add: process_events_def ledger_handlers_run)

lemma mempool_shared:
  "process_events [ev] (handlers_mempool E) w = w\<lparr>sh_db := snd (handle_mempool_update E ev (sh_db w))\<rparr>"
  by (simp add: process_events_def mempool_handlers_run)

definition accepted_consistent ::
    "('tx \<Rightarrow> tx_view_mut) \<Rightarrow> (output_ref \<Rightarrow> tx_output) \<Rightarrow> ('s, 'tx) pipeline \<Rightarrow> bool" where
  "accepted_consistent view outs p \<longleftrightarrow>
     (\<forall>tx \<in># accepted_txs (ms_updates (pl_mempool p)). tx_consistent outs (view tx))"

lemma failed_consistent:
  assumes "pipeline_inv p" "accepted_consistent view outs p" "tx \<in> set (pl_failed p)"
  shows "tx_consistent outs (view tx)"
proof -
  have "tx \<in># in_flight p" using assms(3) by (simp add: in_flight_def)
  then have "tx \<in># accepted_txs (ms_updates (pl_mempool p))"
    using assms(1) by (meson mset_subset_eqD pipeline_inv_def union_iff)
  then show ?thesis using assms(2) by (simp add: accepted_consistent_def)
qed

lemma pipeline_db_step:
  assumes inv: "pipeline_inv p" and acc: "accepted_consistent view outs p"
    and db: "monitor_reachable E outs (sh_db (pl_shared p))"
    and a: "action_consistent view outs a" and step: "pipeline_step E view ch a p = Some p'"
  shows "accepted_consistent view outs p' \<and> monitor_reachable E outs (sh_db (pl_shared p'))"
proof (cases a)
  case (LedgerEvent ev)
  then show ?thesis
    using acc a step monitor_reachable.ledger [OF db]
    by (auto simp: ledger_shared accepted_consistent_def)
next
  case Synced
  then show ?thesis
    using acc db step by (auto simp: on_mempool_def process_events_def accepted_consistent_def Let_def)
next
  case (ClientTx tx)
  then have "tx_consistent outs (mempool_update_tx (TxAccepted (view tx)))" using a by simp
  with ClientTx show ?thesis
    using acc a step monitor_reachable.mempool [OF db]
    by (auto simp: on_mempool_def mempool_shared accepted_consistent_def Let_def split: if_splits
        simp del: handle_mempool_update.simps)
next
  case (TrackNext now)
  then show ?thesis using acc db step by (auto simp: accepted_consistent_def split: if_splits)
next
  case ConfirmNext
  then show ?thesis using acc db step by (auto simp: accepted_consistent_def split: list.splits prod.splits)
next
  case DropNext
  then obtain tx rest where f: "pl_failed p = tx # rest"
    and p': "p' = on_mempool E view ch (FromFailed tx) (p\<lparr>pl_failed := rest\<rparr>)" "ms_synced (pl_mempool p)"
    using step by (auto split: list.splits if_splits)
  have "tx_consistent outs (mempool_update_tx (TxDropped (view tx)))"
    using failed_consistent [OF inv acc, of tx] f by simp
  from monitor_reachable.mempool [OF db this] show ?thesis
    using acc p' by (auto simp: on_mempool_def mempool_shared accepted_consistent_def Let_def
        simp del: handle_mempool_update.simps)
next
  case (ApiLookup scope query offset limit)
  then show ?thesis
    using acc step monitor_reachable.lookup [OF db] by (auto simp: accepted_consistent_def)
qed

lemma pipeline_db:
  "pipeline_reachable E view ch outs p \<Longrightarrow>
     accepted_consistent view outs p \<and> monitor_reachable E outs (sh_db (pl_shared p))"
proof (induction rule: pipeline_reachable.induct)
  case (init s)
  then show ?case
    by (auto simp: pipeline_init_def accepted_consistent_def mempool_init_def intro: monitor_reachable.fresh)
next
  case (act p a p')
  then show ?case using pipeline_db_step pipeline_reachable_inv by blast
qed

text \<open>
  C2. The processes of the program together keep the index sound. However ledger stream, mempool
  stream, tracker and API lookups interleave: the database stays queryable; no mempool update is
  handled before the ledger is in sync; and no transaction is dropped, or on its way to being
  dropped, more often than it was accepted, so a drop never unapplies a transaction that the
  mempool did not deliver.
\<close>
theorem pipeline_sound:
  assumes "index_env E" and "pipeline_reachable E view ch outs p"
  shows "queryable E (sh_db (pl_shared p)) \<and>
     (ms_updates (pl_mempool p) \<noteq> [] \<longrightarrow> ms_synced (pl_mempool p)) \<and>
     dropped_txs (ms_updates (pl_mempool p)) + in_flight p \<subseteq># accepted_txs (ms_updates (pl_mempool p))"
  using pipeline_reachable_inv [OF assms(2)] pipeline_db [OF assms(2)] index_env.reachable_inv [OF assms(1)]
  unfolding pipeline_inv_def queryable_def by blast

definition sample_tx_view :: "nat \<Rightarrow> tx_view_mut" where
  "sample_tx_view n = \<lparr> tv_hash = word_of_nat n, tv_inputs = [], tv_outputs = [(0, sample_out)],
     tv_metadata = None, tv_mints = None, tv_signers = [] \<rparr>"

theorem pipeline_sound_witness:
  "\<exists>p. pipeline_step ref_env sample_tx_view word_of_nat Synced (pipeline_init empty_store) = Some p \<and>
     queryable ref_env (sh_db (pl_shared p)) \<and>
     (\<exists>p'. pipeline_step ref_env sample_tx_view word_of_nat (ClientTx 7) p = Some p' \<and>
        queryable ref_env (sh_db (pl_shared p')))"
proof -
  let ?r = "pipeline_reachable ref_env sample_tx_view word_of_nat (\<lambda>_. sample_out)"
  obtain p where p: "pipeline_step ref_env sample_tx_view word_of_nat Synced (pipeline_init empty_store) = Some p"
    by simp
  have init: "?r (pipeline_init empty_store)"
    by (rule pipeline_reachable.init) (simp add: get_empty_store)
  have rp: "?r p" by (rule pipeline_reachable.act [OF init _ p]) simp
  have "ms_synced (pl_mempool p)" using p by (auto simp: on_mempool_def Let_def)
  then obtain p' where p': "pipeline_step ref_env sample_tx_view word_of_nat (ClientTx 7) p = Some p'" by simp
  have "?r p'"
    by (rule pipeline_reachable.act [OF rp _ p']) (simp add: tx_consistent_def sample_tx_view_def)
  then show ?thesis
    using p p' pipeline_sound [OF ref.index_env_axioms rp] pipeline_sound [OF ref.index_env_axioms, of _ _ _ p'] by blast
qed

end
