(* ===== verification/Ledger_Cache.thy ===== *)
theory Ledger_Cache
  imports Rocks Codec "HOL-Library.AList"
begin

text \<open>
  The cache of linked blocks, packages/cardano-chain-sync/src/cache.rs, with the points of
  client.rs. The trait \<open>LedgerCache\<close> is a record of operations; its RocksDB implementation
  stores the tip under \<open>a:\<close> and each block, with the point before it, under \<open>b:\<close>, its slot and
  its hash. Bincode is a third-party serialiser.
\<close>

datatype point = Origin | Specific slot hash32

fun get_slot :: "point \<Rightarrow> slot" where
  "get_slot Origin = 0"
| "get_slot (Specific s h) = s"

datatype linked_block = LinkedBlock (lb_bytes: bytes) (lb_prev: point)

record 'c ledger_cache =
  lc_set_tip :: "'c \<Rightarrow> point \<Rightarrow> 'c"
  lc_get_tip :: "'c \<Rightarrow> point option"
  lc_put_block :: "'c \<Rightarrow> point \<Rightarrow> linked_block \<Rightarrow> 'c"
  lc_get_block :: "'c \<Rightarrow> point \<Rightarrow> linked_block option"
  lc_delete :: "'c \<Rightarrow> point \<Rightarrow> bool \<times> 'c"
  lc_replay :: "'c \<Rightarrow> point \<Rightarrow> linked_block list"

subsection \<open>The implementation\<close>

record bincode =
  bc_point :: "point \<Rightarrow> bytes"
  bc_point_dec :: "bytes \<Rightarrow> point option"
  bc_block :: "linked_block \<Rightarrow> bytes"
  bc_block_dec :: "bytes \<Rightarrow> linked_block option"

definition latest_point :: bytes where
  "latest_point = lit ''a:''"

definition point_prefix :: bytes where
  "point_prefix = lit ''b:''"

definition point_key :: "bytes \<Rightarrow> point \<Rightarrow> bytes" where
  "point_key pre point =
     (case (case point of Origin \<Rightarrow> (0, []) | Specific pt h \<Rightarrow> (pt, hash32_bytes h)) of
        (sl, h) \<Rightarrow> pre @ u64_to_be_bytes sl @ h)"

definition set_tip :: "('s, unit) rocks \<Rightarrow> bincode \<Rightarrow> 's \<Rightarrow> point \<Rightarrow> 's" where
  "set_tip db bc s point = r_put db s () latest_point (bc_point bc point)"

definition get_tip :: "('s, unit) rocks \<Rightarrow> bincode \<Rightarrow> 's \<Rightarrow> point option" where
  "get_tip db bc s = Option.bind (r_get db s () latest_point) (bc_point_dec bc)"

definition put_block :: "('s, unit) rocks \<Rightarrow> bincode \<Rightarrow> 's \<Rightarrow> point \<Rightarrow> linked_block \<Rightarrow> 's" where
  "put_block db bc s point block = r_put db s () (point_key point_prefix point) (bc_block bc block)"

definition get_block :: "('s, unit) rocks \<Rightarrow> bincode \<Rightarrow> 's \<Rightarrow> point \<Rightarrow> linked_block option" where
  "get_block db bc s point = Option.bind (r_get db s () (point_key point_prefix point)) (bc_block_dec bc)"

definition delete_block :: "('s, unit) rocks \<Rightarrow> 's \<Rightarrow> point \<Rightarrow> bool \<times> 's" where
  "delete_block db s point = (True, r_del db s () (point_key point_prefix point))"

text \<open>The iterator runs from the key to the end of the database; undecodable values are skipped.\<close>

definition replay :: "('s, unit) rocks \<Rightarrow> bincode \<Rightarrow> 's \<Rightarrow> point \<Rightarrow> linked_block list" where
  "replay db bc s from_point =
     List.map_filter (\<lambda>(_, raw_blk). bc_block_dec bc raw_blk)
       (r_iter db s () [] (point_key point_prefix from_point))"

definition rocks_cache :: "('s, unit) rocks \<Rightarrow> bincode \<Rightarrow> 's ledger_cache" where
  "rocks_cache db bc = \<lparr>
     lc_set_tip = set_tip db bc, lc_get_tip = get_tip db bc,
     lc_put_block = put_block db bc, lc_get_block = get_block db bc,
     lc_delete = delete_block db, lc_replay = replay db bc \<rparr>"

subsection \<open>The contract of the trait\<close>

locale block_cache =
  fixes C :: "'c ledger_cache"
  assumes tip_set: "lc_get_tip C (lc_set_tip C c p) = Some p"
    and tip_put: "lc_get_tip C (lc_put_block C c p b) = lc_get_tip C c"
    and tip_delete: "lc_get_tip C (snd (lc_delete C c p)) = lc_get_tip C c"
    and block_set: "lc_get_block C (lc_set_tip C c p) q = lc_get_block C c q"
    and block_put: "lc_get_block C (lc_put_block C c p b) q = (if q = p then Some b else lc_get_block C c q)"
    and block_delete: "lc_get_block C (snd (lc_delete C c p)) q = (if q = p then None else lc_get_block C c q)"

locale bincode_env = rocksdb db for db :: "('s, unit) rocks" +
  fixes bc :: bincode
  assumes bc_point_dec: "bc_point_dec bc (bc_point bc p) = Some p"
    and bc_block_dec: "bc_block_dec bc (bc_block bc b) = Some b"
begin

lemma point_key_eq_iff [simp]: "point_key point_prefix p = point_key point_prefix q \<longleftrightarrow> p = q"
proof
  assume eq: "point_key point_prefix p = point_key point_prefix q"
  have "length (point_key point_prefix Origin) = 10" "length (point_key point_prefix (Specific s h)) = 42" for s h
    by (simp_all add: point_key_def point_prefix_def lit_def)
  with eq arg_cong [OF eq, of length] show "p = q"
    by (cases p; cases q) (auto simp: point_key_def key_simps dest: arg_cong [where f = length])
qed simp

lemma point_key_not_latest [simp]: "point_key point_prefix p \<noteq> latest_point" "latest_point \<noteq> point_key point_prefix p"
proof -
  have "hd (point_key point_prefix p) = 98" "hd latest_point = 97"
    by (cases p; simp add: point_key_def point_prefix_def latest_point_def lit_def of_char_def)+
  then show "point_key point_prefix p \<noteq> latest_point" "latest_point \<noteq> point_key point_prefix p"
    by auto
qed

lemma rocks_cache_laws: "block_cache (rocks_cache db bc)"
  by unfold_locales
    (auto simp: rocks_cache_def set_tip_def get_tip_def put_block_def get_block_def delete_block_def
      get_put get_del bc_point_dec bc_block_dec)

end

subsection \<open>Replay\<close>

text \<open>What the cache writes: the tip and blocks under the keys of their points.\<close>

definition cache_inv :: "('s, unit) rocks \<Rightarrow> bincode \<Rightarrow> 's \<Rightarrow> bool" where
  "cache_inv db bc s \<longleftrightarrow>
     (\<forall>k v. r_get db s () k = Some v \<longrightarrow>
        k = latest_point \<or> (\<exists>q b. k = point_key point_prefix q \<and> v = bc_block bc b))"

definition cached_from :: "('s, unit) rocks \<Rightarrow> bincode \<Rightarrow> 's \<Rightarrow> point \<Rightarrow> point set" where
  "cached_from db bc s p =
     {q. get_block db bc s q \<noteq> None \<and> point_key point_prefix p \<le> point_key point_prefix q}"

lemma point_key_slot_mono: "point_key pre p \<le> point_key pre q \<Longrightarrow> get_slot p \<le> get_slot q"
proof -
  have key: "point_key pre p = pre @ u64_to_be_bytes (get_slot p) @ (case p of Origin \<Rightarrow> [] | Specific s h \<Rightarrow> hash32_bytes h)" for p
    by (cases p) (simp_all add: point_key_def)
  assume "point_key pre p \<le> point_key pre q"
  then have le: "u64_to_be_bytes (get_slot p) @ (case p of Origin \<Rightarrow> [] | Specific s h \<Rightarrow> hash32_bytes h) \<le>
      u64_to_be_bytes (get_slot q) @ (case q of Origin \<Rightarrow> [] | Specific s h \<Rightarrow> hash32_bytes h)"
    by (simp add: key list_append_le_iff)
  then have "u64_to_be_bytes (get_slot p) \<le>
      u64_to_be_bytes (get_slot q) @ (case q of Origin \<Rightarrow> [] | Specific s h \<Rightarrow> hash32_bytes h)"
    using list_le_prefix order_trans by blast
  then have "u64_to_be_bytes (get_slot p) \<le> u64_to_be_bytes (get_slot q)"
    by (simp add: list_le_append_same_length)
  then show ?thesis using u64_to_be_bytes_less_iff [of "get_slot q" "get_slot p"]
    by (auto simp flip: linorder_not_less)
qed

context bincode_env
begin

lemma cache_inv_steps:
  assumes "cache_inv db bc s"
  shows "cache_inv db bc (set_tip db bc s p)" "cache_inv db bc (put_block db bc s p b)"
    "cache_inv db bc (snd (delete_block db s p))"
  using assms
  by (auto simp: cache_inv_def set_tip_def put_block_def delete_block_def get_put get_del split: if_splits)

lemma point_key_lt: "97 # xs < (98 :: byte) # ys"
  by simp

lemma latest_below: "\<not> point_key point_prefix p \<le> latest_point"
proof -
  have "point_key point_prefix p = 98 # tl (point_key point_prefix p)" "latest_point = 97 # tl latest_point"
    by (cases p; simp add: point_key_def point_prefix_def latest_point_def lit_def of_char_def)+
  then show ?thesis using point_key_lt by (metis leD)
qed

lemma replay_items:
  assumes inv: "cache_inv db bc s"
  shows "kv \<in> set (r_iter db s () [] (point_key point_prefix p)) \<longleftrightarrow>
     (\<exists>q b. fst kv = point_key point_prefix q \<and> snd kv = bc_block bc b \<and>
        r_get db s () (fst kv) = Some (snd kv) \<and> point_key point_prefix p \<le> point_key point_prefix q)"
proof -
  have mem: "kv \<in> set (r_iter db s () [] (point_key point_prefix p)) \<longleftrightarrow>
      r_get db s () (fst kv) = Some (snd kv) \<and> point_key point_prefix p \<le> fst kv"
    by (cases kv) (simp add: iter_set)
  show ?thesis
  proof
    assume "kv \<in> set (r_iter db s () [] (point_key point_prefix p))"
    with mem have kv: "r_get db s () (fst kv) = Some (snd kv)" "point_key point_prefix p \<le> fst kv" by auto
    have "fst kv \<noteq> latest_point" using kv(2) latest_below [of p] by auto
    then show "\<exists>q b. fst kv = point_key point_prefix q \<and> snd kv = bc_block bc b \<and>
        r_get db s () (fst kv) = Some (snd kv) \<and> point_key point_prefix p \<le> point_key point_prefix q"
      using inv kv unfolding cache_inv_def by metis
  qed (use mem in auto)
qed

lemma replay_in_order:
  assumes inv: "cache_inv db bc s"
  shows "\<exists>qs. set qs = cached_from db bc s p \<and> distinct qs \<and> sorted (map get_slot qs) \<and>
     map Some (replay db bc s p) = map (get_block db bc s) qs"
proof -
  let ?items = "r_iter db s () [] (point_key point_prefix p)"
  define pt where "pt k = (SOME q. k = point_key point_prefix q)" for k
  have pt [simp]: "pt (point_key point_prefix q) = q" for q
    unfolding pt_def by (rule some_equality) auto
  let ?qs = "map (\<lambda>kv. pt (fst kv)) ?items"
  have keys: "map (point_key point_prefix) ?qs = map fst ?items"
    unfolding map_map by (rule map_cong [OF refl]) (use replay_items [OF inv] in \<open>force simp: comp_def\<close>)
  have srt: "sorted_wrt (<) (map (point_key point_prefix) ?qs)"
    unfolding keys by (rule iter_sorted)
  have "set ?qs = cached_from db bc s p"
  proof (intro set_eqI iffI)
    fix q assume "q \<in> set ?qs"
    then obtain kv where "kv \<in> set ?items" "q = pt (fst kv)" by auto
    then show "q \<in> cached_from db bc s p"
      using replay_items [OF inv, of kv p] by (auto simp: cached_from_def get_block_def bc_block_dec)
  next
    fix q assume q: "q \<in> cached_from db bc s p"
    then obtain v where v: "r_get db s () (point_key point_prefix q) = Some v"
      "point_key point_prefix p \<le> point_key point_prefix q"
      by (auto simp: cached_from_def get_block_def bind_eq_Some_conv)
    then have "(point_key point_prefix q, v) \<in> set ?items" by (simp add: iter_set)
    then show "q \<in> set ?qs" by force
  qed
  moreover have "distinct ?qs"
    using srt by (metis distinct_map strict_sorted_iff)
  moreover have "sorted (map get_slot ?qs)"
    using srt unfolding sorted_wrt_map
    by (rule sorted_wrt_mono_rel [rotated]) (auto intro: point_key_slot_mono order.strict_implies_order)
  moreover have "map Some (replay db bc s p) = map (get_block db bc s) ?qs"
  proof -
    have "map Some (List.map_filter (\<lambda>(_, raw). bc_block_dec bc raw) items) =
        map (get_block db bc s) (map (\<lambda>kv. pt (fst kv)) items)"
      if "set items \<subseteq> set ?items" for items
      using that
    proof (induction items)
      case Nil
      then show ?case by simp
    next
      case (Cons kv items)
      then obtain q b where "fst kv = point_key point_prefix q" "snd kv = bc_block bc b"
        "r_get db s () (fst kv) = Some (snd kv)"
        using replay_items [OF inv, of kv p] by auto
      then show ?case
        using Cons by (cases kv) (simp add: get_block_def bc_block_dec)
    qed
    then show ?thesis by (simp add: replay_def)
  qed
  ultimately show ?thesis by (intro exI [of _ ?qs]) blast
qed

end

subsection \<open>A reference instance\<close>

definition point_sum :: "point \<Rightarrow> unit + (u64 \<times> hash32)" where
  "point_sum p = (case p of Origin \<Rightarrow> Inl () | Specific s h \<Rightarrow> Inr (s, h))"

definition sum_point :: "unit + (u64 \<times> hash32) \<Rightarrow> point" where
  "sum_point v = (case v of Inl _ \<Rightarrow> Origin | Inr (s, h) \<Rightarrow> Specific s h)"

definition enc_point :: "point \<Rightarrow> bytes" where
  "enc_point p = enc_sum (\<lambda>_. []) (enc_pair u64_to_be_bytes hash32_bytes) (point_sum p)"

definition dec_point :: "point dec" where
  "dec_point = dec_conv sum_point
     (dec_sum (\<lambda>bs. Some ((), bs)) (dec_pair (dec_fixed 8 word_of_nat) (dec_fixed 32 word_of_nat)))"

lemma decodes_point: "decodes enc_point dec_point"
  unfolding enc_point_def [abs_def] dec_point_def
  by (intro decodes_conv decodes_sum decodes_pair decodes_unit decodes_u64 decodes_hash32)
    (simp add: point_sum_def sum_point_def split: point.splits)

definition ref_bincode :: bincode where
  "ref_bincode = \<lparr>
     bc_point = enc_point, bc_point_dec = (\<lambda>bs. map_option fst (dec_point bs)),
     bc_block = (\<lambda>b. enc_point (lb_prev b) @ lb_bytes b),
     bc_block_dec = (\<lambda>bs. map_option (\<lambda>(p, r). LinkedBlock r p) (dec_point bs)) \<rparr>"

interpretation refbc: bincode_env assoc_rocks ref_bincode
  using decodesD [OF decodes_point, of _ "[]"] decodesD [OF decodes_point]
  by unfold_locales (simp_all add: ref_bincode_def)

definition ref_cache :: "(unit assoc_store) ledger_cache" where
  "ref_cache = rocks_cache assoc_rocks ref_bincode"

interpretation refcache: block_cache ref_cache
  unfolding ref_cache_def by (rule refbc.rocks_cache_laws)


subsection \<open>The properties\<close>

text \<open>
  The cache keeps blocks and the tip apart: a stored block is read back under its point
  until it is deleted, no other block or the tip is disturbed by storing, deleting or moving the
  tip, and a replay from a point yields exactly the cached blocks from that point on, each once
  and in the order of their slots.
\<close>
theorem cache_lookup_and_replay:
  assumes "bincode_env db bc" and "cache_inv db bc s"
  shows "get_block db bc (put_block db bc s p b) q = (if q = p then Some b else get_block db bc s q) \<and>
     get_block db bc (snd (delete_block db s p)) q = (if q = p then None else get_block db bc s q) \<and>
     get_block db bc (set_tip db bc s t) q = get_block db bc s q \<and>
     get_tip db bc (set_tip db bc s t) = Some t \<and>
     get_tip db bc (put_block db bc s p b) = get_tip db bc s \<and>
     get_tip db bc (snd (delete_block db s p)) = get_tip db bc s \<and>
     (\<exists>qs. set qs = cached_from db bc s p \<and> distinct qs \<and> sorted (map get_slot qs) \<and>
        map Some (replay db bc s p) = map (get_block db bc s) qs)"
proof -
  note laws = bincode_env.rocks_cache_laws [OF assms(1)]
  show ?thesis
    using block_cache.block_put [OF laws] block_cache.block_delete [OF laws] block_cache.block_set [OF laws]
      block_cache.tip_set [OF laws] block_cache.tip_put [OF laws] block_cache.tip_delete [OF laws]
      bincode_env.replay_in_order [OF assms]
    by (simp add: rocks_cache_def)
qed

lemma cache_inv_empty: "cache_inv assoc_rocks ref_bincode empty_store"
  by (simp add: cache_inv_def get_empty_store)

theorem cache_lookup_and_replay_witness:
  "get_block assoc_rocks ref_bincode
     (put_block assoc_rocks ref_bincode empty_store (Specific 5 7) (LinkedBlock [1] Origin)) (Specific 5 7) =
     Some (LinkedBlock [1] Origin)"
  using cache_lookup_and_replay [OF refbc.bincode_env_axioms cache_inv_empty, of "Specific 5 7" "LinkedBlock [1] Origin" "Specific 5 7"]
  by simp

end
