(* ===== verification/Chain_Sync.thy ===== *)
theory Chain_Sync
  imports Ledger_Cache Ledger_Events
begin

text \<open>
  The ledger side of the monitor: the chain-sync client
  (packages/cardano-chain-sync/src/client.rs), the translation of chain upgrades into ledger
  events with the block cache (event_source.rs) and the transactional block flow
  (atomic_flow.rs), over the block types of the ledger library and the hashes of
  packages/spectrum-cardano-lib/src/hash.rs.

  The streams are lists. A rollback unwinds the cache until the requested point, a point with no
  cached block, or no tip is reached; its loop takes fuel, and \<open>rollback_enough_fuel\<close> in
  \<open>Chain_Sync_Spec\<close> shows how much suffices.
\<close>

datatype era_header = ShelleyHeader bytes | BabbageHeader bytes | OtherHeader

record ('out, 'aux) era_block =
  eb_slot :: slot
  eb_block_number :: u64
  eb_bodies :: "'out tx_body list"
  eb_witness_sets :: "bytes list option list"
  eb_aux :: "(u16 \<times> 'aux) list"
  eb_invalid :: "u16 list"

datatype multi_era_block =
    BabbageBlk "(babbage_output, babbage_aux) era_block"
  | ConwayBlk "(tx_output, bytes) era_block"
  | OtherBlk bytes

text \<open>Third-party parts: the header of a block, its fields, and block serialisation.\<close>

record chain_lib =
  cl_blake2b256 :: "bytes \<Rightarrow> hash32"
  blk_header :: "multi_era_block \<Rightarrow> era_header"
  hdr_slot :: "era_header \<Rightarrow> slot"
  hdr_block_number :: "era_header \<Rightarrow> u64"
  babbage_block_cbor :: "(babbage_output, babbage_aux) era_block \<Rightarrow> bytes"
  conway_block_cbor :: "(tx_output, bytes) era_block \<Rightarrow> bytes"
  blk_from_cbor :: "bytes \<Rightarrow> multi_era_block option"

definition hash_block_header_canonical :: "chain_lib \<Rightarrow> ('h \<Rightarrow> bytes) \<Rightarrow> 'h \<Rightarrow> hash32" where
  "hash_block_header_canonical cl to_cbor header = cl_blake2b256 cl (to_cbor header)"

fun hash_block_header_canonical_multi_era :: "chain_lib \<Rightarrow> era_header \<Rightarrow> hash32 option" where
  "hash_block_header_canonical_multi_era cl (ShelleyHeader bs) = Some (cl_blake2b256 cl bs)"
| "hash_block_header_canonical_multi_era cl (BabbageHeader bs) = Some (cl_blake2b256 cl bs)"
| "hash_block_header_canonical_multi_era cl OtherHeader = None"

subsection \<open>Transactions of a block\<close>

fun unpack_loop ::
    "u16 list \<Rightarrow> nat \<Rightarrow> (u16 \<times> 'aux) list \<Rightarrow> ('out tx_body \<times> bytes list option) list \<Rightarrow>
     ('out, 'aux) transaction list" where
  "unpack_loop invalid ix aux [] = []"
| "unpack_loop invalid ix aux ((tb, tw) # rest) =
     (let tx_ix = word_of_nat ix :: u16
      in if tx_ix \<in> set invalid then unpack_loop invalid (ix + 1) aux rest
         else \<lparr> tr_body = tb, tr_vkeys = tw, tr_is_valid = True, tr_aux = map_of aux tx_ix \<rparr> #
              unpack_loop invalid (ix + 1) (AList.delete tx_ix aux) rest)"

definition unpack_valid_transactions ::
    "hash32 \<Rightarrow> ('out, 'aux) era_block \<Rightarrow> (('out, 'aux) transaction \<times> slot \<times> u64 \<times> hash32) list" where
  "unpack_valid_transactions block_hash blk =
     map (\<lambda>tx. (tx, eb_slot blk, eb_block_number blk, block_hash))
       (unpack_loop (eb_invalid blk) 0 (eb_aux blk) (zip (eb_bodies blk) (eb_witness_sets blk)))"

definition unpack_valid_transactions_babbage ::
    "chain_lib \<Rightarrow> (babbage_output, babbage_aux) era_block \<Rightarrow>
     (babbage_transaction \<times> slot \<times> u64 \<times> hash32) list" where
  "unpack_valid_transactions_babbage cl blk =
     unpack_valid_transactions (hash_block_header_canonical cl (babbage_block_cbor cl) blk) blk"

definition unpack_valid_transactions_conway ::
    "chain_lib \<Rightarrow> (tx_output, bytes) era_block \<Rightarrow> (conway_transaction \<times> slot \<times> u64 \<times> hash32) list" where
  "unpack_valid_transactions_conway cl blk =
     unpack_valid_transactions (hash_block_header_canonical cl (conway_block_cbor cl) blk) blk"

type_synonym any_transaction = "babbage_transaction + conway_transaction"

fun unpack_valid_transactions_multi_era ::
    "chain_lib \<Rightarrow> multi_era_block \<Rightarrow> (any_transaction \<times> slot \<times> u64 \<times> hash32) list" where
  "unpack_valid_transactions_multi_era cl (BabbageBlk blk) =
     map (\<lambda>(tx, sl, n, h). (Inl tx, sl, n, h)) (unpack_valid_transactions_babbage cl blk)"
| "unpack_valid_transactions_multi_era cl (ConwayBlk blk) =
     map (\<lambda>(tx, sl, n, h). (Inr tx, sl, n, h)) (unpack_valid_transactions_conway cl blk)"
| "unpack_valid_transactions_multi_era cl (OtherBlk bs) = []"

subsection \<open>The client\<close>

datatype chain_upgrade =
    RollForward multi_era_block bytes bool
  | RollBackward point

datatype net_point = NetOrigin | NetSpecific slot bytes

fun point_into_net :: "point \<Rightarrow> net_point" where
  "point_into_net Origin = NetOrigin"
| "point_into_net (Specific tip pt) = NetSpecific tip (hash32_bytes pt)"

text \<open>A hash that has not 32 bytes panics.\<close>

fun point_from_net :: "net_point \<Rightarrow> point option" where
  "point_from_net NetOrigin = Some Origin"
| "point_from_net (NetSpecific tip pt) =
     (if length pt = 32 then Some (Specific tip (word_of_nat (nat_be pt))) else None)"

datatype next_response = RespRollForward bytes | RespRollBackward net_point | RespAwait

datatype client_state = MustReply | CanRequest

datatype client_call = RecvWhileCanAwait | RequestNext

definition pull_call :: "client_state \<Rightarrow> client_call" where
  "pull_call st = (case st of MustReply \<Rightarrow> RecvWhileCanAwait | CanRequest \<Rightarrow> RequestNext)"

definition blk_start :: nat where
  "blk_start = 2"

text \<open>
  \<open>try_pull_next\<close> on the answer of the node (\<open>Inl\<close> a protocol error); the outer option is a
  panic: a message shorter than its two-byte prefix or a block that does not decode.
\<close>

definition try_pull_next ::
    "chain_lib \<Rightarrow> ('err + next_response) \<Rightarrow> chain_upgrade option option" where
  "try_pull_next cl response =
     (case response of
        Inr (RespRollForward raw) \<Rightarrow>
          (if length raw < blk_start then None
           else
             (let original_bytes = drop blk_start raw
              in case blk_from_cbor cl original_bytes of
                   Some blk \<Rightarrow> Some (Some (RollForward blk original_bytes False))
                 | None \<Rightarrow> None))
      | Inr (RespRollBackward pt) \<Rightarrow> map_option (\<lambda>p. Some (RollBackward p)) (point_from_net pt)
      | _ \<Rightarrow> Some None)"

definition best_point :: "'c ledger_cache \<Rightarrow> 'c \<Rightarrow> point \<Rightarrow> point" where
  "best_point C c starting_point = (case lc_get_tip C c of Some p \<Rightarrow> p | None \<Rightarrow> starting_point)"

subsection \<open>Caching\<close>

definition header_point :: "chain_lib \<Rightarrow> era_header \<Rightarrow> point option" where
  "header_point cl hdr =
     map_option (Specific (hdr_slot cl hdr)) (hash_block_header_canonical_multi_era cl hdr)"

definition cache_block ::
    "chain_lib \<Rightarrow> 'c ledger_cache \<Rightarrow> era_header \<Rightarrow> bytes \<Rightarrow> 'c \<Rightarrow> 'c option" where
  "cache_block cl C hdr blk_bytes c =
     map_option (\<lambda>point.
         let prev_point = (case lc_get_tip C c of Some p \<Rightarrow> p | None \<Rightarrow> Origin);
             c1 = lc_set_tip C c point
         in lc_put_block C c1 point (LinkedBlock blk_bytes prev_point)) (header_point cl hdr)"

definition cache_point :: "chain_lib \<Rightarrow> 'c ledger_cache \<Rightarrow> era_header \<Rightarrow> 'c \<Rightarrow> 'c option" where
  "cache_point cl C hdr c = map_option (lc_set_tip C c) (header_point cl hdr)"

definition cache_forward ::
    "chain_lib \<Rightarrow> 'c ledger_cache \<Rightarrow> slot \<Rightarrow> multi_era_block \<Rightarrow> bytes \<Rightarrow> bool \<Rightarrow> 'c \<Rightarrow> 'c option" where
  "cache_forward cl C handle_rollbacks_after blk blk_bytes replayed c =
     (if \<not> replayed then
        (if hdr_slot cl (blk_header cl blk) > handle_rollbacks_after
         then cache_block cl C (blk_header cl blk) blk_bytes c
         else cache_point cl C (blk_header cl blk) c)
      else Some c)"

subsection \<open>Rollback\<close>

datatype 'a run = OutOfFuel | Panic | Done 'a

fun run_map :: "('a \<Rightarrow> 'b) \<Rightarrow> 'a run \<Rightarrow> 'b run" where
  "run_map f OutOfFuel = OutOfFuel"
| "run_map f Panic = Panic"
| "run_map f (Done x) = Done (f x)"

text \<open>The blocks in the order they are unwound, and the cache and beacon at the end.\<close>

fun rollback ::
    "chain_lib \<Rightarrow> 'c ledger_cache \<Rightarrow> nat \<Rightarrow> point \<Rightarrow> 'c \<times> bool \<Rightarrow> (multi_era_block list \<times> 'c \<times> bool) run" where
  "rollback cl C 0 to_point (c, beacon) = OutOfFuel"
| "rollback cl C (Suc n) to_point (c, beacon) =
     (let finished = Done ([], c, False) in
      case lc_get_tip C c of
        None \<Rightarrow> finished
      | Some tip \<Rightarrow>
          if tip = to_point then finished
          else
            (case lc_get_block C c tip of
               None \<Rightarrow> finished
             | Some (LinkedBlock block_bytes prev_point) \<Rightarrow>
                 (let c1 = snd (lc_delete C c tip); c2 = lc_set_tip C c1 prev_point in
                  case blk_from_cbor cl block_bytes of
                    None \<Rightarrow> Panic
                  | Some block \<Rightarrow>
                      run_map (\<lambda>(blks, r). (block # blks, r)) (rollback cl C n to_point (c2, True)))))"

subsection \<open>From upgrades to events\<close>

definition applied_events :: "chain_lib \<Rightarrow> multi_era_block \<Rightarrow> any_transaction ledger_tx_event list" where
  "applied_events cl blk =
     map (\<lambda>(tx, sl, n, h). TxApplied tx sl n h) (unpack_valid_transactions_multi_era cl blk)"

definition unapplied_events :: "chain_lib \<Rightarrow> multi_era_block \<Rightarrow> any_transaction ledger_tx_event list" where
  "unapplied_events cl blk =
     rev (map (\<lambda>(tx, sl, n, h). TxUnapplied tx sl n h) (unpack_valid_transactions_multi_era cl blk))"

definition process_upstream_by_txs ::
    "chain_lib \<Rightarrow> 'c ledger_cache \<Rightarrow> nat \<Rightarrow> slot \<Rightarrow> chain_upgrade \<Rightarrow> 'c \<times> bool \<Rightarrow>
     (any_transaction ledger_tx_event list \<times> 'c \<times> bool) run" where
  "process_upstream_by_txs cl C fuel handle_rollbacks_after upgrade st =
     (case upgrade of
        RollForward blk blk_bytes replayed \<Rightarrow>
          (case cache_forward cl C handle_rollbacks_after blk blk_bytes replayed (fst st) of
             None \<Rightarrow> Panic
           | Some c \<Rightarrow>
               (case hash_block_header_canonical_multi_era cl (blk_header cl blk) of
                  None \<Rightarrow> Panic
                | Some _ \<Rightarrow> Done (applied_events cl blk, c, snd st)))
      | RollBackward point \<Rightarrow>
          (if get_slot point > handle_rollbacks_after
           then run_map (\<lambda>(blks, r). (concat (map (unapplied_events cl) blks), r))
                  (rollback cl C fuel point st)
           else Done ([], st)))"

definition process_upstream_by_blocks ::
    "chain_lib \<Rightarrow> 'c ledger_cache \<Rightarrow> nat \<Rightarrow> slot \<Rightarrow> chain_upgrade \<Rightarrow> 'c \<times> bool \<Rightarrow>
     (multi_era_block ledger_block_event list \<times> 'c \<times> bool) run" where
  "process_upstream_by_blocks cl C fuel handle_rollbacks_after upgr st =
     (case upgr of
        RollForward blk blk_bytes replayed \<Rightarrow>
          (case cache_forward cl C handle_rollbacks_after blk blk_bytes replayed (fst st) of
             None \<Rightarrow> Panic
           | Some c \<Rightarrow> Done ([RollForwardBlock blk], c, snd st))
      | RollBackward point \<Rightarrow>
          (if get_slot point > handle_rollbacks_after
           then run_map (\<lambda>(blks, r). (map RollBackwardBlock blks, r)) (rollback cl C fuel point st)
           else Done ([], st)))"

text \<open>The stream: replayed blocks first, then what the node sends.\<close>

definition replayed_upgrades :: "chain_lib \<Rightarrow> 'c ledger_cache \<Rightarrow> point option \<Rightarrow> 'c \<Rightarrow> chain_upgrade list" where
  "replayed_upgrades cl C replay_from c =
     (case replay_from of
        None \<Rightarrow> []
      | Some p \<Rightarrow>
          List.map_filter (\<lambda>b. map_option (\<lambda>blk. RollForward blk (lb_bytes b) True) (blk_from_cbor cl (lb_bytes b)))
            (lc_replay C c p))"

fun process_all ::
    "(chain_upgrade \<Rightarrow> 'st \<Rightarrow> ('ev list \<times> 'st) run) \<Rightarrow> chain_upgrade list \<Rightarrow> 'st \<Rightarrow> ('ev list \<times> 'st) run" where
  "process_all f [] st = Done ([], st)"
| "process_all f (u # us) st =
     (case f u st of
        Done (evs, st') \<Rightarrow> run_map (\<lambda>(evs', r). (evs @ evs', r)) (process_all f us st')
      | OutOfFuel \<Rightarrow> OutOfFuel
      | Panic \<Rightarrow> Panic)"

definition ledger_transactions ::
    "chain_lib \<Rightarrow> 'c ledger_cache \<Rightarrow> nat \<Rightarrow> chain_upgrade list \<Rightarrow> slot \<Rightarrow> point option \<Rightarrow> 'c \<times> bool \<Rightarrow>
     (any_transaction ledger_tx_event list \<times> 'c \<times> bool) run" where
  "ledger_transactions cl C fuel upstream handle_rollbacks_after replay_from st =
     process_all (process_upstream_by_txs cl C fuel handle_rollbacks_after)
       (replayed_upgrades cl C replay_from (fst st) @ upstream) st"

definition ledger_blocks ::
    "chain_lib \<Rightarrow> 'c ledger_cache \<Rightarrow> nat \<Rightarrow> chain_upgrade list \<Rightarrow> slot \<Rightarrow> 'c \<times> bool \<Rightarrow>
     (multi_era_block ledger_block_event list \<times> 'c \<times> bool) run" where
  "ledger_blocks cl C fuel upstream handle_rollbacks_after st =
     process_all (process_upstream_by_blocks cl C fuel handle_rollbacks_after) upstream st"

end
