(* ===== verification/Atomic_Flow.thy ===== *)
theory Atomic_Flow
  imports Chain_Sync
begin

text \<open>
  The transactional block flow, packages/cardano-chain-sync/src/atomic_flow.rs: the events of a
  block are sent downstream as one batch, and the cache changes only after the receiver has
  committed the batch. The effects are a trace of actions; a send that finds no receiver or a
  handle dropped without commit is a panic of the source and outside the trace.
\<close>

datatype 'tx block_events =
    BlockForward (be_events: "'tx list") (be_block_num: u64) (be_block_slot: slot)
  | BlockBackward (be_events: "'tx list") (be_block_num: u64) (be_block_slot: slot)

fun block_events_map :: "('a list \<Rightarrow> 'b list) \<Rightarrow> 'a block_events \<Rightarrow> 'b block_events" where
  "block_events_map f (BlockForward evs n sl) = BlockForward (f evs) n sl"
| "block_events_map f (BlockBackward evs n sl) = BlockBackward (f evs) n sl"

fun block_slot :: "'a block_events \<Rightarrow> slot" where
  "block_slot (BlockForward evs n sl) = sl"
| "block_slot (BlockBackward evs n sl) = sl"

datatype flow_action =
    Send "any_transaction block_events"
  | AwaitCommit
  | CacheBlock point
  | DropBlock point point

definition forward_batch :: "chain_lib \<Rightarrow> multi_era_block \<Rightarrow> any_transaction block_events" where
  "forward_batch cl blk =
     BlockForward (map (\<lambda>(tx, _, _, _). tx) (unpack_valid_transactions_multi_era cl blk))
       (hdr_block_number cl (blk_header cl blk)) (hdr_slot cl (blk_header cl blk))"

definition backward_batch :: "chain_lib \<Rightarrow> multi_era_block \<Rightarrow> any_transaction block_events" where
  "backward_batch cl blk =
     BlockBackward (rev (map (\<lambda>(tx, _, _, _). tx) (unpack_valid_transactions_multi_era cl blk)))
       (hdr_block_number cl (blk_header cl blk)) (hdr_slot cl (blk_header cl blk))"

fun flow_rollback ::
    "chain_lib \<Rightarrow> 'c ledger_cache \<Rightarrow> nat \<Rightarrow> point \<Rightarrow> 'c \<Rightarrow> (flow_action list \<times> 'c) run" where
  "flow_rollback cl C 0 point c = OutOfFuel"
| "flow_rollback cl C (Suc n) point c =
     (case lc_get_tip C c of
        None \<Rightarrow> Done ([], c)
      | Some tip \<Rightarrow>
          if tip = point then Done ([], c)
          else
            (case lc_get_block C c tip of
               None \<Rightarrow> Done ([], c)
             | Some (LinkedBlock block_bytes prev_point) \<Rightarrow>
                 (case blk_from_cbor cl block_bytes of
                    None \<Rightarrow> Panic
                  | Some block \<Rightarrow>
                      (let c1 = snd (lc_delete C c tip); c2 = lc_set_tip C c1 prev_point in
                       run_map (\<lambda>(acts, r).
                           ([Send (backward_batch cl block), AwaitCommit, DropBlock tip prev_point] @ acts, r))
                         (flow_rollback cl C n point c2)))))"

definition flow_step ::
    "chain_lib \<Rightarrow> 'c ledger_cache \<Rightarrow> nat \<Rightarrow> chain_upgrade \<Rightarrow> 'c \<Rightarrow> (flow_action list \<times> 'c) run" where
  "flow_step cl C fuel upgrade c =
     (case upgrade of
        RollForward blk blk_bytes replayed \<Rightarrow>
          (let hdr = blk_header cl blk in
           case (header_point cl hdr, cache_block cl C hdr blk_bytes c) of
             (Some p, Some c') \<Rightarrow> Done ([Send (forward_batch cl blk), AwaitCommit, CacheBlock p], c')
           | _ \<Rightarrow> Panic)
      | RollBackward point \<Rightarrow> flow_rollback cl C fuel point c)"

definition atomic_flow_run ::
    "chain_lib \<Rightarrow> 'c ledger_cache \<Rightarrow> nat \<Rightarrow> chain_upgrade list \<Rightarrow> 'c \<Rightarrow> (flow_action list \<times> 'c) run" where
  "atomic_flow_run cl C fuel upstream c = process_all (flow_step cl C fuel) upstream c"

subsection \<open>What the trace promises\<close>

text \<open>A trace of complete transactions: send, commit, one change of the cache.\<close>

inductive committed_trace :: "flow_action list \<Rightarrow> bool" where
  "committed_trace []"
| "committed_trace acts \<Longrightarrow> committed_trace ([Send (BlockForward evs n sl), AwaitCommit, CacheBlock p] @ acts)"
| "committed_trace acts \<Longrightarrow> committed_trace ([Send (BlockBackward evs n sl), AwaitCommit, DropBlock p q] @ acts)"

inductive_cases committed_trace_ConsE: "committed_trace (a # acts)"

definition cache_actions :: "flow_action list \<Rightarrow> nat" where
  "cache_actions acts = length (filter (\<lambda>a. case a of CacheBlock _ \<Rightarrow> True | DropBlock _ _ \<Rightarrow> True | _ \<Rightarrow> False) acts)"

definition commits :: "flow_action list \<Rightarrow> nat" where
  "commits acts = length (filter (\<lambda>a. a = AwaitCommit) acts)"

lemma committed_append: "committed_trace xs \<Longrightarrow> committed_trace ys \<Longrightarrow> committed_trace (xs @ ys)"
  by (induction rule: committed_trace.induct) (auto intro: committed_trace.intros [simplified])

lemma committed_prefix:
  assumes "committed_trace acts"
  shows "cache_actions (take n acts) \<le> commits (take n acts)"
  using assms
proof (induction arbitrary: n rule: committed_trace.induct)
  case 1
  then show ?case by (simp add: cache_actions_def commits_def)
next
  case (2 acts evs k sl p)
  from 2(2) [of "n - 3"] show ?case
    by (cases n rule: nat.exhaust; cases "n - 1"; cases "n - 2")
      (auto simp: cache_actions_def commits_def take_Cons' numeral_3_eq_3)
next
  case (3 acts evs k sl p q)
  from 3(2) [of "n - 3"] show ?case
    by (cases n rule: nat.exhaust; cases "n - 1"; cases "n - 2")
      (auto simp: cache_actions_def commits_def take_Cons' numeral_3_eq_3)
qed

lemma run_map_Done: "run_map f r = Done y \<longleftrightarrow> (\<exists>x. r = Done x \<and> y = f x)"
  by (cases r) auto

lemma flow_rollback_committed:
  "flow_rollback cl C fuel p c = Done (acts, c') \<Longrightarrow> committed_trace acts"
proof (induction fuel arbitrary: c acts)
  case 0
  then show ?case by simp
next
  case (Suc n)
  then show ?case
    by (auto simp: run_map_Done Let_def backward_batch_def split: option.splits linked_block.splits if_splits
        intro: committed_trace.intros [simplified])
qed

lemma process_all_invariant:
  assumes "\<And>u st evs st'. f u st = Done (evs, st') \<Longrightarrow> P evs" "P []"
    and "\<And>xs ys. P xs \<Longrightarrow> P ys \<Longrightarrow> P (xs @ ys)"
  shows "process_all f us st = Done (evs, st') \<Longrightarrow> P evs"
proof (induction us arbitrary: st evs)
  case Nil
  then show ?case using assms(2) by simp
next
  case (Cons u us)
  then show ?case
    by (auto simp: run_map_Done split: run.splits intro!: assms(3) dest: assms(1))
qed

text \<open>
  The block flow is transactional: its actions are a sequence of complete transactions, each
  a batch sent downstream, the commit of the receiver, and then the one change of the cache that
  records it. So wherever the flow is interrupted, the cache never records a block whose
  events, forward or backward, were not committed.
\<close>
theorem atomic_flow_commits_first:
  assumes "atomic_flow_run cl C fuel upstream c = Done (acts, c')"
  shows "committed_trace acts \<and> (\<forall>n. cache_actions (take n acts) \<le> commits (take n acts))"
proof -
  have step: "committed_trace evs" if "flow_step cl C fuel u st = Done (evs, st')" for u st evs st'
    using that
    by (auto simp: flow_step_def Let_def forward_batch_def flow_rollback_committed
        split: chain_upgrade.splits option.splits intro: committed_trace.intros [simplified])
  have "committed_trace acts"
    by (rule process_all_invariant [OF _ _ _ assms [unfolded atomic_flow_run_def]])
      (auto intro: step committed_append committed_trace.intros)
  then show ?thesis using committed_prefix by blast
qed

theorem atomic_flow_commits_first_witness:
  "let p = Specific 3 0;
       cl = \<lparr> cl_blake2b256 = (\<lambda>_. 0), blk_header = (\<lambda>_. BabbageHeader []), hdr_slot = (\<lambda>_. 3),
              hdr_block_number = (\<lambda>_. 1), babbage_block_cbor = (\<lambda>_. []), conway_block_cbor = (\<lambda>_. []),
              blk_from_cbor = (\<lambda>_. None) \<rparr>;
       acts = [Send (BlockForward [] 1 3), AwaitCommit, CacheBlock p]
   in committed_trace acts \<and> cache_actions (take 2 acts) \<le> commits (take 2 acts)"
proof -
  let ?cl = "\<lparr> cl_blake2b256 = (\<lambda>_. 0), blk_header = (\<lambda>_. BabbageHeader []), hdr_slot = (\<lambda>_. 3),
              hdr_block_number = (\<lambda>_. 1), babbage_block_cbor = (\<lambda>_. []), conway_block_cbor = (\<lambda>_. []),
              blk_from_cbor = (\<lambda>_. None) \<rparr>"
  have "\<exists>c'. atomic_flow_run ?cl ref_cache 1 [RollForward (OtherBlk []) [] False] empty_store =
      Done ([Send (BlockForward [] 1 3), AwaitCommit, CacheBlock (Specific 3 0)], c')"
    by (simp add: atomic_flow_run_def flow_step_def header_point_def cache_block_def forward_batch_def Let_def)
  then show ?thesis using atomic_flow_commits_first by (metis (no_types, lifting))
qed

end
