(* ===== verification/Chain_Sync_Spec.thy ===== *)
theory Chain_Sync_Spec
  imports Atomic_Flow Handler_Spec
begin

text \<open>
  What the ledger stream promises: the transactions of a block are its valid ones in order with
  their own auxiliary data; a rollback terminates, unwinds exactly the cached blocks above the
  requested point, newest first, and leaves the cache at that point; and, over the handler, a
  fork that is followed and then rolled back leaves the index as it was, up to what the index
  already knew of the transactions of the fork.
\<close>

subsection \<open>Valid transactions\<close>

text \<open>The closed form of the transaction at an index.\<close>

definition nth_tx :: "('out, 'aux) era_block \<Rightarrow> nat \<Rightarrow> ('out, 'aux) transaction" where
  "nth_tx blk i =
     \<lparr> tr_body = eb_bodies blk ! i, tr_vkeys = eb_witness_sets blk ! i, tr_is_valid = True,
       tr_aux = map_of (eb_aux blk) (word_of_nat i) \<rparr>"

lemma u16_inj: "i < 65536 \<Longrightarrow> j < 65536 \<Longrightarrow> (word_of_nat i :: u16) = word_of_nat j \<longleftrightarrow> i = j"
proof -
  assume "i < 65536" "j < 65536"
  then have "unat (word_of_nat i :: u16) = i" "unat (word_of_nat j :: u16) = j"
    by (simp_all add: unat_of_nat)
  then show ?thesis by metis
qed

lemma unpack_loop_spec:
  assumes "ix + length items \<le> 65536"
    and "\<And>i. ix \<le> i \<Longrightarrow> i < ix + length items \<Longrightarrow> map_of aux (word_of_nat i) = map_of aux0 (word_of_nat i :: u16)"
  shows "unpack_loop invalid ix aux items =
     map (\<lambda>i. \<lparr> tr_body = fst (items ! (i - ix)), tr_vkeys = snd (items ! (i - ix)), tr_is_valid = True,
                tr_aux = map_of aux0 (word_of_nat i) \<rparr>)
       (filter (\<lambda>i. (word_of_nat i :: u16) \<notin> set invalid) [ix ..< ix + length items])"
  using assms
proof (induction items arbitrary: ix aux)
  case Nil
  then show ?case by simp
next
  case (Cons x items)
  obtain tb tw where x: "x = (tb, tw)" by (cases x)
  have upt: "[ix ..< ix + length (x # items)] = ix # [Suc ix ..< Suc ix + length items]"
    by (simp add: upt_rec)
  have shift: "map (\<lambda>i. \<lparr> tr_body = fst (items ! (i - Suc ix)), tr_vkeys = snd (items ! (i - Suc ix)),
        tr_is_valid = True, tr_aux = map_of aux0 (word_of_nat i :: u16) \<rparr>)
       (filter (\<lambda>i. (word_of_nat i :: u16) \<notin> set invalid) [Suc ix ..< Suc ix + length items]) =
     map (\<lambda>i. \<lparr> tr_body = fst ((x # items) ! (i - ix)), tr_vkeys = snd ((x # items) ! (i - ix)),
        tr_is_valid = True, tr_aux = map_of aux0 (word_of_nat i :: u16) \<rparr>)
       (filter (\<lambda>i. (word_of_nat i :: u16) \<notin> set invalid) [Suc ix ..< Suc ix + length items])"
    by (rule map_cong [OF refl]) (auto simp: nth_Cons' Suc_diff_le)
  have IH: "unpack_loop invalid (Suc ix) aux' items =
      map (\<lambda>i. \<lparr> tr_body = fst ((x # items) ! (i - ix)), tr_vkeys = snd ((x # items) ! (i - ix)),
        tr_is_valid = True, tr_aux = map_of aux0 (word_of_nat i :: u16) \<rparr>)
       (filter (\<lambda>i. (word_of_nat i :: u16) \<notin> set invalid) [Suc ix ..< Suc ix + length items])"
    if "\<And>i. Suc ix \<le> i \<Longrightarrow> i < Suc ix + length items \<Longrightarrow> map_of aux' (word_of_nat i) = map_of aux (word_of_nat i :: u16)"
    for aux'
    unfolding shift [symmetric] using Cons.prems that by (intro Cons.IH) auto
  have rest: "map_of (AList.delete (word_of_nat ix) aux) (word_of_nat i) = map_of aux (word_of_nat i :: u16)"
    if "Suc ix \<le> i" "i < Suc ix + length items" for i
    using that Cons.prems(1) u16_inj [of i ix] by (simp add: delete_conv')
  show ?case
    unfolding upt using Cons.prems(2) [of ix] IH [OF rest] IH [of aux]
    by (simp add: x Let_def)
qed

subsection \<open>Chains in the cache\<close>

fun chain_in ::
    "chain_lib \<Rightarrow> 'c ledger_cache \<Rightarrow> 'c \<Rightarrow> point \<Rightarrow> (point \<times> multi_era_block) list \<Rightarrow> point \<Rightarrow> bool" where
  "chain_in cl C c tip [] base = (tip = base)"
| "chain_in cl C c tip ((p, blk) # ps) base =
     (tip = p \<and>
      (case lc_get_block C c p of
         Some (LinkedBlock bs prev) \<Rightarrow> blk_from_cbor cl bs = Some blk \<and> chain_in cl C c prev ps base
       | None \<Rightarrow> False))"

lemma chain_in_cong:
  assumes "\<And>q. q \<in> fst ` set ps \<Longrightarrow> lc_get_block C c' q = lc_get_block C c q"
  shows "chain_in cl C c' tip ps base = chain_in cl C c tip ps base"
  using assms
proof (induction ps arbitrary: tip)
  case Nil
  then show ?case by simp
next
  case (Cons x ps)
  then show ?case by (cases x) (auto split: option.splits linked_block.splits)
qed

definition on_chain :: "chain_lib \<Rightarrow> 'c ledger_cache \<Rightarrow> 'c \<Rightarrow> (point \<times> multi_era_block) list \<Rightarrow> point \<Rightarrow> bool" where
  "on_chain cl C c ps base \<longleftrightarrow>
     (\<exists>tip. lc_get_tip C c = Some tip \<and> chain_in cl C c tip ps base) \<and>
     distinct (map fst ps) \<and> base \<notin> fst ` set ps"

context block_cache
begin

lemma rollback_unwinds:
  assumes "on_chain cl C c ps base" "length ps < fuel"
  shows "\<exists>c'. rollback cl C fuel base (c, b) = Done (map snd ps, c', False) \<and>
     lc_get_tip C c' = Some base \<and>
     (\<forall>q. lc_get_block C c' q = (if q \<in> fst ` set ps then None else lc_get_block C c q))"
  using assms
proof (induction ps arbitrary: c b fuel)
  case Nil
  then obtain n where "fuel = Suc n" by (cases fuel) auto
  then show ?case using Nil by (auto simp: on_chain_def)
next
  case (Cons x ps)
  obtain p blk where x: "x = (p, blk)" by (cases x)
  obtain n where n: "fuel = Suc n" "length ps < n" using Cons.prems(2) by (cases fuel) auto
  from Cons.prems(1) have tip: "lc_get_tip C c = Some p" "p \<noteq> base"
    by (auto simp: on_chain_def x)
  from Cons.prems(1) tip obtain bs prev where blk: "lc_get_block C c p = Some (LinkedBlock bs prev)"
    "blk_from_cbor cl bs = Some blk" "chain_in cl C c prev ps base"
    by (auto simp: on_chain_def x split: option.splits linked_block.splits)
  let ?c2 = "lc_set_tip C (snd (lc_delete C c p)) prev"
  have get2: "lc_get_block C ?c2 q = (if q = p then None else lc_get_block C c q)" for q
    by (simp add: block_set block_delete)
  have dist: "p \<notin> fst ` set ps" "distinct (map fst ps)" "base \<notin> fst ` set ps"
    using Cons.prems(1) by (auto simp: on_chain_def x)
  have "chain_in cl C ?c2 prev ps base"
    using blk(3) dist(1) by (subst chain_in_cong [of _ C _ c]) (auto simp: get2)
  then have "on_chain cl C ?c2 ps base"
    using dist by (simp add: on_chain_def tip_set)
  from Cons.IH [OF this n(2), of True] obtain c' where
    c': "rollback cl C n base (?c2, True) = Done (map snd ps, c', False)" "lc_get_tip C c' = Some base"
      "\<forall>q. lc_get_block C c' q = (if q \<in> fst ` set ps then None else lc_get_block C ?c2 q)" by blast
  then show ?case
    using tip blk by (intro exI [of _ c']) (auto simp: n(1) x Let_def get2)
qed

lemma cache_block_extends:
  assumes chain: "on_chain cl C c ps base"
    and pt: "header_point cl hdr = Some p" "p \<notin> fst ` set ps" "p \<noteq> base"
    and dec: "blk_from_cbor cl bytes = Some blk"
  shows "\<exists>c'. cache_block cl C hdr bytes c = Some c' \<and> on_chain cl C c' ((p, blk) # ps) base"
proof -
  obtain tip where tip: "lc_get_tip C c = Some tip" "chain_in cl C c tip ps base"
    using chain by (auto simp: on_chain_def)
  let ?c' = "lc_put_block C (lc_set_tip C c p) p (LinkedBlock bytes tip)"
  have get: "lc_get_block C ?c' q = (if q = p then Some (LinkedBlock bytes tip) else lc_get_block C c q)" for q
    by (simp add: block_put block_set)
  have "chain_in cl C ?c' tip ps base"
    using tip(2) pt(2) by (subst chain_in_cong [of _ C _ c]) (auto simp: get)
  then have "on_chain cl C ?c' ((p, blk) # ps) base"
    using chain pt dec by (simp add: on_chain_def tip_put tip_set get)
  then show ?thesis using pt(1) tip(1) by (simp add: cache_block_def)
qed

end

definition good_block :: "chain_lib \<Rightarrow> slot \<Rightarrow> multi_era_block \<times> bytes \<Rightarrow> point \<Rightarrow> bool" where
  "good_block cl threshold b p \<longleftrightarrow>
     header_point cl (blk_header cl (fst b)) = Some p \<and>
     hdr_slot cl (blk_header cl (fst b)) > threshold \<and> blk_from_cbor cl (snd b) = Some (fst b)"

definition forward_upgrades :: "(multi_era_block \<times> bytes) list \<Rightarrow> chain_upgrade list" where
  "forward_upgrades bs = map (\<lambda>(blk, bytes). RollForward blk bytes False) bs"

lemma run_map_run_map: "run_map f (run_map g r) = run_map (f \<circ> g) r"
  by (cases r) auto

lemma process_all_append:
  "process_all f (us @ vs) st =
     (case process_all f us st of
        Done (evs, st') \<Rightarrow> run_map (\<lambda>(evs', r). (evs @ evs', r)) (process_all f vs st')
      | OutOfFuel \<Rightarrow> OutOfFuel
      | Panic \<Rightarrow> Panic)"
proof (induction us arbitrary: st)
  case Nil
  then show ?case by (cases "process_all f vs st") auto
next
  case (Cons u us)
  then show ?case
    by (cases "f u st") (auto simp: run_map_run_map comp_def split_def split: run.splits)
qed

context block_cache
begin

lemma forward_all:
  assumes "list_all2 (good_block cl threshold) bs pts" "on_chain cl C c ps base"
    and "distinct pts" "set pts \<inter> fst ` set ps = {}" "base \<notin> set pts"
  shows "\<exists>c'. process_all (process_upstream_by_txs cl C fuel threshold) (forward_upgrades bs) (c, b) =
       Done (concat (map (\<lambda>x. applied_events cl (fst x)) bs), c', b) \<and>
     on_chain cl C c' (rev (zip pts (map fst bs)) @ ps) base"
  using assms
proof (induction bs pts arbitrary: c ps rule: list_all2_induct)
  case Nil
  then show ?case by (simp add: forward_upgrades_def)
next
  case (Cons x bs p pts)
  obtain blk bytes where x: "x = (blk, bytes)" by (cases x)
  have good: "header_point cl (blk_header cl blk) = Some p" "hdr_slot cl (blk_header cl blk) > threshold"
    "blk_from_cbor cl bytes = Some blk"
    using Cons.hyps(1) by (simp_all add: good_block_def x)
  then have hash: "hash_block_header_canonical_multi_era cl (blk_header cl blk) \<noteq> None"
    by (auto simp: header_point_def)
  have "p \<notin> fst ` set ps" "p \<noteq> base" using Cons.prems by auto
  from cache_block_extends [OF Cons.prems(1) good(1) this good(3)] obtain c1 where
    c1: "cache_block cl C (blk_header cl blk) bytes c = Some c1" "on_chain cl C c1 ((p, blk) # ps) base" by blast
  have "set pts \<inter> fst ` set ((p, blk) # ps) = {}" using Cons.prems by auto
  from Cons.IH [OF c1(2) _ this] Cons.prems obtain c' where
    "process_all (process_upstream_by_txs cl C fuel threshold) (forward_upgrades bs) (c1, b) =
       Done (concat (map (\<lambda>x. applied_events cl (fst x)) bs), c', b)"
    "on_chain cl C c' (rev (zip pts (map fst bs)) @ (p, blk) # ps) base" by auto
  moreover have "process_upstream_by_txs cl C fuel threshold (RollForward blk bytes False) (c, b) =
      Done (applied_events cl blk, c1, b)"
    using c1(1) good(2) hash by (auto simp: process_upstream_by_txs_def cache_forward_def)
  ultimately show ?case by (auto simp: x forward_upgrades_def)
qed

lemma follow_and_rollback:
  assumes "list_all2 (good_block cl threshold) bs pts" "lc_get_tip C c = Some base"
    and "distinct pts" "base \<notin> set pts" "get_slot base > threshold" "length bs < fuel"
  shows "\<exists>c'. ledger_transactions cl C fuel (forward_upgrades bs @ [RollBackward base]) threshold None (c, b) =
       Done (concat (map (applied_events cl) (map fst bs)) @
             concat (map (unapplied_events cl) (rev (map fst bs))), c', False) \<and>
     lc_get_tip C c' = Some base"
proof -
  have "on_chain cl C c [] base" using assms(2) by (simp add: on_chain_def)
  from forward_all [OF assms(1) this assms(3) _ assms(4)] obtain c1 where
    c1: "process_all (process_upstream_by_txs cl C fuel threshold) (forward_upgrades bs) (c, b) =
       Done (concat (map (\<lambda>x. applied_events cl (fst x)) bs), c1, b)"
    "on_chain cl C c1 (rev (zip pts (map fst bs))) base" by auto
  have len: "length pts = length bs" using assms(1) by (simp add: list_all2_lengthD)
  then have "length (rev (zip pts (map fst bs))) < fuel" using assms(6) by simp
  from rollback_unwinds [OF c1(2) this] obtain c' where
    "rollback cl C fuel base (c1, b) = Done (map snd (rev (zip pts (map fst bs))), c', False)"
    "lc_get_tip C c' = Some base" by blast
  moreover have "map snd (rev (zip pts (map fst bs))) = rev (map fst bs)"
    using len by (simp add: rev_map [symmetric])
  ultimately show ?thesis
    using assms(5) c1(1)
    by (simp add: ledger_transactions_def replayed_upgrades_def process_all_append process_upstream_by_txs_def comp_def)
qed

end

subsection \<open>Over the index\<close>

text \<open>The events as the handler sees them; \<open>None\<close> when the view of a transaction panics.\<close>

definition view_events ::
    "ledger_lib \<Rightarrow> any_transaction ledger_tx_event list \<Rightarrow> tx_view_mut ledger_tx_event list option" where
  "view_events lb evs =
     (if list_all (\<lambda>ev. tx_view_from lb (ledger_event_tx ev) \<noteq> None) evs
      then Some (map (ledger_event_map (\<lambda>tx. the (tx_view_from lb tx))) evs) else None)"

definition block_slot_of :: "multi_era_block \<Rightarrow> slot" where
  "block_slot_of blk = (case blk of BabbageBlk b \<Rightarrow> eb_slot b | ConwayBlk b \<Rightarrow> eb_slot b | OtherBlk _ \<Rightarrow> 0)"

definition block_number_of :: "multi_era_block \<Rightarrow> u64" where
  "block_number_of blk =
     (case blk of BabbageBlk b \<Rightarrow> eb_block_number b | ConwayBlk b \<Rightarrow> eb_block_number b | OtherBlk _ \<Rightarrow> 0)"

definition block_hash_of :: "chain_lib \<Rightarrow> multi_era_block \<Rightarrow> hash32" where
  "block_hash_of cl blk =
     (case blk of
        BabbageBlk b \<Rightarrow> hash_block_header_canonical cl (babbage_block_cbor cl) b
      | ConwayBlk b \<Rightarrow> hash_block_header_canonical cl (conway_block_cbor cl) b
      | OtherBlk _ \<Rightarrow> 0)"

definition block_txs :: "chain_lib \<Rightarrow> multi_era_block \<Rightarrow> any_transaction list" where
  "block_txs cl blk = map fst (unpack_valid_transactions_multi_era cl blk)"

definition block_views :: "chain_lib \<Rightarrow> ledger_lib \<Rightarrow> multi_era_block \<Rightarrow> tx_view_mut list" where
  "block_views cl lb blk = map (\<lambda>tx. the (tx_view_from lb tx)) (block_txs cl blk)"

lemma block_events_eq:
  "applied_events cl blk = apply_events (block_slot_of blk) (block_number_of blk) (block_hash_of cl blk) (block_txs cl blk)"
  "unapplied_events cl blk = unapply_events (block_slot_of blk) (block_number_of blk) (block_hash_of cl blk) (block_txs cl blk)"
  by (cases blk; simp add: applied_events_def unapplied_events_def apply_events_def unapply_events_def
      block_txs_def block_slot_of_def block_number_of_def block_hash_of_def
      unpack_valid_transactions_babbage_def unpack_valid_transactions_conway_def
      unpack_valid_transactions_def comp_def)+

fun blocks_extend :: "chain_lib \<Rightarrow> ledger_lib \<Rightarrow> ledger \<Rightarrow> multi_era_block list \<Rightarrow> bool" where
  "blocks_extend cl lb m [] = True"
| "blocks_extend cl lb m (blk # blks) =
     (block_extends (block_slot_of blk) m (block_views cl lb blk) \<and>
      blocks_extend cl lb
        (fold (\<lambda>tx. ledger_apply (tv_hash tx) (tx_refs tx) (tv_outputs tx) (Some (block_slot_of blk)))
           (block_views cl lb blk) m) blks)"

definition views_ok :: "chain_lib \<Rightarrow> ledger_lib \<Rightarrow> multi_era_block \<Rightarrow> bool" where
  "views_ok cl lb blk \<longleftrightarrow> list_all (\<lambda>tx. tx_view_from lb tx \<noteq> None) (block_txs cl blk)"

definition view_map :: "ledger_lib \<Rightarrow> any_transaction ledger_tx_event list \<Rightarrow> tx_view_mut ledger_tx_event list" where
  "view_map lb evs = map (ledger_event_map (\<lambda>tx. the (tx_view_from lb tx))) evs"

lemma view_map_blocks:
  "view_map lb (applied_events cl blk) =
     apply_events (block_slot_of blk) (block_number_of blk) (block_hash_of cl blk) (block_views cl lb blk)"
  "view_map lb (unapplied_events cl blk) =
     unapply_events (block_slot_of blk) (block_number_of blk) (block_hash_of cl blk) (block_views cl lb blk)"
  by (simp_all add: block_events_eq view_map_def apply_events_def unapply_events_def block_views_def rev_map comp_def)

lemma handle_append: "handle_ledger_events E (xs @ ys) s = handle_ledger_events E ys (handle_ledger_events E xs s)"
  by (simp add: handle_ledger_events_def)

text \<open>
  What is left of a ledger when transactions are applied and taken back: their outputs are
  gone, whether they were known before or not, and their inputs are unspent, whatever they were.
\<close>

definition taken_back :: "tx_view_mut list \<Rightarrow> ledger \<Rightarrow> ledger" where
  "taken_back txs m r =
     (if list_ex (\<lambda>tx. created (tv_hash tx) (tv_outputs tx) r \<noteq> None) txs then None
      else ledger_spend False (concat (map tx_refs txs)) m r)"

lemma taken_back_exact:
  "fold (\<lambda>tx. ledger_unapply (tv_hash tx) (tx_refs tx) (tv_outputs tx)) (rev txs)
     (fold (\<lambda>(sl, tx). ledger_apply (tv_hash tx) (tx_refs tx) (tv_outputs tx) (Some sl)) (zip sls txs) m) =
   taken_back txs m" if "length sls = length txs"
  using that
proof (induction sls txs arbitrary: m rule: list_induct2)
  case Nil then show ?case by (simp add: taken_back_def ledger_spend_def fun_eq_iff)
next
  case (Cons sl sls tx txs)
  let ?m = "ledger_apply (tv_hash tx) (tx_refs tx) (tv_outputs tx) (Some sl) m"
  have "ledger_unapply (tv_hash tx) (tx_refs tx) (tv_outputs tx) (taken_back txs ?m) r = taken_back (tx # txs) m r" for r
    by (cases "m r") (auto simp: ledger_unapply_def taken_back_def ledger_spend_def ledger_apply_def)
  then have "ledger_unapply (tv_hash tx) (tx_refs tx) (tv_outputs tx) (taken_back txs ?m) = taken_back (tx # txs) m" by (rule ext)
  then show ?case by (simp add: Cons.IH)
qed

context index_env
begin

lemma fork_view:
  "get_utxo_by_ref E (handle_ledger_events E
       (view_map lb (concat (map (applied_events cl) blks) @ concat (map (unapplied_events cl) (rev blks)))) s) =
     taken_back (concat (map (block_views cl lb) blks)) (get_utxo_by_ref E s)"
proof -
  let ?ap = "\<lambda>(sl, tx). ledger_apply (tv_hash tx) (tx_refs tx) (tv_outputs tx) (Some sl)"
  let ?un = "\<lambda>tx. ledger_unapply (tv_hash tx) (tx_refs tx) (tv_outputs tx)"
  let ?sls = "concat (map (\<lambda>blk. replicate (length (block_views cl lb blk)) (block_slot_of blk)) blks)"
  have zip1: "zip (replicate (length txs) sl) txs = map (Pair sl) txs" for txs :: "tx_view_mut list" and sl :: slot
    by (induction txs) auto
  have ap: "get_utxo_by_ref E (handle_ledger_events E (view_map lb (concat (map (applied_events cl) blks))) s) =
      fold ?ap (zip ?sls (concat (map (block_views cl lb) blks))) (get_utxo_by_ref E s)" for s
  proof (induction blks arbitrary: s)
    case Nil then show ?case by (simp add: view_map_def handle_ledger_events_def)
  next
    case (Cons blk blks)
    have "view_map lb (concat (map (applied_events cl) (blk # blks))) =
        view_map lb (applied_events cl blk) @ view_map lb (concat (map (applied_events cl) blks))"
      by (simp add: view_map_def)
    then show ?case using Cons.IH
      by (simp add: handle_append view_map_blocks view_apply_events zip1 fold_map o_def)
  qed
  have un: "get_utxo_by_ref E (handle_ledger_events E (view_map lb (concat (map (unapplied_events cl) bs))) s) =
      fold ?un (concat (map (\<lambda>blk. rev (block_views cl lb blk)) bs)) (get_utxo_by_ref E s)" for bs s
  proof (induction bs arbitrary: s)
    case Nil then show ?case by (simp add: view_map_def handle_ledger_events_def)
  next
    case (Cons blk bs)
    have "view_map lb (concat (map (unapplied_events cl) (blk # bs))) =
        view_map lb (unapplied_events cl blk) @ view_map lb (concat (map (unapplied_events cl) bs))"
      by (simp add: view_map_def)
    then show ?case using Cons.IH by (simp add: handle_append view_map_blocks view_unapply_events)
  qed
  have "length ?sls = length (concat (map (block_views cl lb) blks))" by (induction blks) auto
  from taken_back_exact [OF this] show ?thesis
    using ap un [of "rev blks"] by (simp add: view_map_def handle_append rev_concat rev_map o_def)
qed

lemma fork_undone:
  assumes "blocks_extend cl lb m blks"
  shows "taken_back (concat (map (block_views cl lb) blks)) m = m"
proof -
  have keep: "taken_back (txs @ txs') m = m" if "block_extends sl m txs"
    "taken_back txs' (fold (\<lambda>tx. ledger_apply (tv_hash tx) (tx_refs tx) (tv_outputs tx) (Some sl)) txs m) =
     fold (\<lambda>tx. ledger_apply (tv_hash tx) (tx_refs tx) (tv_outputs tx) (Some sl)) txs m" for sl txs txs' m
    using that
  proof (induction txs arbitrary: m)
    case (Cons tx txs)
    let ?m = "ledger_apply (tv_hash tx) (tx_refs tx) (tv_outputs tx) (Some sl) m"
    have step: "taken_back (txs @ txs') ?m = ?m" using Cons by simp
    have "taken_back (tx # txs @ txs') m = ledger_unapply (tv_hash tx) (tx_refs tx) (tv_outputs tx) (taken_back (txs @ txs') ?m)"
    proof
      fix r show "taken_back (tx # txs @ txs') m r =
          ledger_unapply (tv_hash tx) (tx_refs tx) (tv_outputs tx) (taken_back (txs @ txs') ?m) r"
        by (cases "m r") (auto simp: ledger_unapply_def taken_back_def ledger_spend_def ledger_apply_def)
    qed
    then show ?case using step tx_extends_undo [of m tx] Cons.prems(1) by simp
  qed simp
  show ?thesis using assms
  proof (induction blks arbitrary: m)
    case Nil then show ?case by (simp add: taken_back_def ledger_spend_def fun_eq_iff)
  next
    case (Cons blk blks)
    then show ?case using keep [of "block_slot_of blk" m "block_views cl lb blk"] by simp
  qed
qed

end

subsection \<open>A sample chain\<close>

definition sample_block :: multi_era_block where
  "sample_block = ConwayBlk
     \<lparr> eb_slot = 9, eb_block_number = 2,
       eb_bodies = [\<lparr> tb_inputs = [\<lparr> ti_transaction_id = 7, ti_index = 0 \<rparr>], tb_outputs = [sample_out],
                      tb_mint = None \<rparr>],
       eb_witness_sets = [None], eb_aux = [], eb_invalid = [] \<rparr>"

definition sample_cl :: chain_lib where
  "sample_cl = \<lparr>
     cl_blake2b256 = (\<lambda>bs. word_of_nat (nat_be bs)),
     blk_header = (\<lambda>_. BabbageHeader [5]), hdr_slot = (\<lambda>_. 9), hdr_block_number = (\<lambda>_. 2),
     babbage_block_cbor = (\<lambda>_. []), conway_block_cbor = (\<lambda>_. []),
     blk_from_cbor = (\<lambda>bs. if bs = [5] then Some sample_block else None) \<rparr>"

definition sample_lb :: ledger_lib where
  "sample_lb = \<lparr>
     blake2b256 = (\<lambda>bs. word_of_nat (nat_be bs)),
     babbage_body_cbor = (\<lambda>_. []), conway_body_cbor = (\<lambda>_. [8]),
     vkey_hash = (\<lambda>bs. word_of_nat (nat_be bs)), aux_metadata = (\<lambda>bs. Some bs) \<rparr>"

definition sample_cache :: "unit assoc_store" where
  "sample_cache = lc_set_tip ref_cache empty_store (Specific 7 3)"

lemma sample_good: "list_all2 (good_block sample_cl 1) [(sample_block, [5])] [Specific 9 5]"
  by (simp add: good_block_def sample_cl_def header_point_def)

lemma sample_tip: "lc_get_tip ref_cache sample_cache = Some (Specific 7 3)"
  unfolding sample_cache_def by (rule refcache.tip_set)

lemma sample_block_txs:
  "block_txs sample_cl sample_block =
     [Inr \<lparr> tr_body = \<lparr> tb_inputs = [\<lparr> ti_transaction_id = 7, ti_index = 0 \<rparr>], tb_outputs = [sample_out],
                      tb_mint = None \<rparr>, tr_vkeys = None, tr_is_valid = True, tr_aux = None \<rparr>]"
  by (simp add: block_txs_def sample_block_def unpack_valid_transactions_conway_def unpack_valid_transactions_def)

lemma sample_views:
  "block_views sample_cl sample_lb sample_block =
     [\<lparr> tv_hash = 8, tv_inputs = [\<lparr> ti_transaction_id = 7, ti_index = 0 \<rparr>], tv_outputs = [(0, sample_out)],
        tv_metadata = None, tv_mints = None, tv_signers = [] \<rparr>]"
  by (simp add: block_views_def sample_block_txs tx_view_from_def tx_view_from_conway_def opt_mints_def
      hash_transaction_canonical_def sample_lb_def signers_of_def)

lemma sample_extends:
  "blocks_extend sample_cl sample_lb (get_utxo_by_ref ref_env sample_state) [sample_block]"
proof -
  have "get_utxo_by_ref ref_env sample_state (OutputRef 8 0) = None"
    by (simp add: sample_state_def ref.view_apply ledger_apply_def ledger_spend_def created_def)
  then show ?thesis
    by (simp add: sample_views tx_extends_def tx_refs_def output_ref_from_input_def sample_row)
qed

subsection \<open>The properties\<close>

text \<open>
  The valid transactions of a block come out in block order, each with the body, the
  witnesses and the auxiliary data of its own index, marked valid, and with the slot, number and
  hash of the block; exactly the indices the block declares invalid are left out.
\<close>
theorem valid_transactions_in_order:
  assumes "length (eb_bodies blk) \<le> 65536" and "length (eb_witness_sets blk) = length (eb_bodies blk)"
  shows "unpack_valid_transactions h blk =
     map (\<lambda>i. (nth_tx blk i, eb_slot blk, eb_block_number blk, h))
       (filter (\<lambda>i. (word_of_nat i :: u16) \<notin> set (eb_invalid blk)) [0 ..< length (eb_bodies blk)])"
  using unpack_loop_spec [of 0 "zip (eb_bodies blk) (eb_witness_sets blk)" "eb_aux blk" "eb_aux blk" "eb_invalid blk"] assms
  by (auto simp: unpack_valid_transactions_def nth_tx_def)

theorem valid_transactions_in_order_witness:
  "unpack_valid_transactions 0 \<lparr> eb_slot = 9, eb_block_number = 2,
       eb_bodies = [\<lparr> tb_inputs = [], tb_outputs = [1 :: nat], tb_mint = None \<rparr>,
                    \<lparr> tb_inputs = [], tb_outputs = [2], tb_mint = None \<rparr>],
       eb_witness_sets = [None, Some []], eb_aux = [(1, [4 :: byte])], eb_invalid = [0] \<rparr> =
     [(\<lparr> tr_body = \<lparr> tb_inputs = [], tb_outputs = [2], tb_mint = None \<rparr>, tr_vkeys = Some [],
         tr_is_valid = True, tr_aux = Some [4] \<rparr>, 9, 2, 0)]"
  by (subst valid_transactions_in_order) (simp_all add: nth_tx_def upt_rec)

text \<open>
  C16. A rollback to a point on the cached chain terminates, with fuel for one round more than
  there are blocks above the point: its events unapply exactly those blocks, newest first and
  each block's transactions in reverse; afterwards the cache is at the point, the unwound blocks
  are gone, every other block is kept and the rollback beacon is off.
\<close>
theorem rollback_to_cached_point:
  assumes "block_cache C" and "on_chain cl C c ps base" and "get_slot base > threshold"
    and "length ps < fuel"
  shows "\<exists>c'. process_upstream_by_txs cl C fuel threshold (RollBackward base) (c, b) =
       Done (concat (map (unapplied_events cl) (map snd ps)), c', False) \<and>
     lc_get_tip C c' = Some base \<and>
     (\<forall>q. lc_get_block C c' q = (if q \<in> fst ` set ps then None else lc_get_block C c q))"
  using block_cache.rollback_unwinds [OF assms(1,2,4), of b] assms(3)
  by (auto simp: process_upstream_by_txs_def)

theorem rollback_to_cached_point_witness:
  "\<exists>c c'. process_upstream_by_txs sample_cl ref_cache 2 1 (RollBackward (Specific 7 3)) (c, False) =
       Done (unapplied_events sample_cl sample_block, c', False) \<and>
     lc_get_tip ref_cache c' = Some (Specific 7 3)"
proof -
  have "on_chain sample_cl ref_cache sample_cache [] (Specific 7 3)"
    by (simp add: on_chain_def sample_tip)
  from refcache.cache_block_extends [OF this, of "BabbageHeader [5]" "Specific 9 5" "[5]" sample_block]
  obtain c where "on_chain sample_cl ref_cache c [(Specific 9 5, sample_block)] (Specific 7 3)"
    by (auto simp: header_point_def sample_cl_def)
  from rollback_to_cached_point [OF refcache.block_cache_axioms this, of 1 2 False]
  show ?thesis by auto
qed

text \<open>
  C8. End to end: a fork of any number of blocks that the node announces and then rolls back
  leaves no trace of its own. The ledger stream terminates with one round of fuel more than blocks, its
  cache is back at the fork point, and the index, fed with the resulting events, holds the
  table of outputs it held before the fork, except that the outputs of the fork are gone and
  its inputs are unspent. So nothing has changed if no output of a transaction of the fork was known
  before and no input of it was spent; what the mempool had told of a transaction before
  the fork contained it is taken back with the fork.
\<close>
theorem fork_leaves_no_trace:
  assumes "index_env E" and "block_cache C"
    and "list_all2 (good_block cl threshold) bs pts" and "lc_get_tip C c = Some base"
    and "distinct pts" "base \<notin> set pts" "get_slot base > threshold" "length bs < fuel"
  shows "\<exists>evs c'. ledger_transactions cl C fuel (forward_upgrades bs @ [RollBackward base]) threshold None (c, b) =
       Done (evs, c', False) \<and>
     lc_get_tip C c' = Some base \<and>
     get_utxo_by_ref E (handle_ledger_events E (view_map lb evs) s) =
       taken_back (concat (map (block_views cl lb \<circ> fst) bs)) (get_utxo_by_ref E s) \<and>
     (blocks_extend cl lb (get_utxo_by_ref E s) (map fst bs) \<longrightarrow>
        get_utxo_by_ref E (handle_ledger_events E (view_map lb evs) s) = get_utxo_by_ref E s)"
proof -
  note view = index_env.fork_view [OF assms(1), where lb = lb and cl = cl and blks = "map fst bs" and s = s, unfolded map_map]
  from block_cache.follow_and_rollback [OF assms(2-8), of b] obtain c' where
    "ledger_transactions cl C fuel (forward_upgrades bs @ [RollBackward base]) threshold None (c, b) =
       Done (concat (map (applied_events cl) (map fst bs)) @ concat (map (unapplied_events cl) (rev (map fst bs))), c', False)"
    "lc_get_tip C c' = Some base" by blast
  then show ?thesis
    using view index_env.fork_undone [OF assms(1), of cl lb "get_utxo_by_ref E s" "map fst bs"] by auto
qed

theorem fork_leaves_no_trace_witness:
  "\<exists>evs c'. ledger_transactions sample_cl ref_cache 2
       (forward_upgrades [(sample_block, [5])] @ [RollBackward (Specific 7 3)]) 1 None (sample_cache, False) =
       Done (evs, c', False) \<and>
     lc_get_tip ref_cache c' = Some (Specific 7 3) \<and>
     get_utxo_by_ref ref_env (handle_ledger_events ref_env (view_map sample_lb evs) sample_state) =
       get_utxo_by_ref ref_env sample_state"
proof -
  from fork_leaves_no_trace [OF ref.index_env_axioms refcache.block_cache_axioms sample_good sample_tip, where fuel = 2]
  obtain evs c' where "ledger_transactions sample_cl ref_cache 2
       (forward_upgrades [(sample_block, [5])] @ [RollBackward (Specific 7 3)]) 1 None (sample_cache, False) =
       Done (evs, c', False)"
    "lc_get_tip ref_cache c' = Some (Specific 7 3)"
    "blocks_extend sample_cl sample_lb (get_utxo_by_ref ref_env sample_state) (map fst [(sample_block, [5])]) \<longrightarrow>
     get_utxo_by_ref ref_env (handle_ledger_events ref_env (view_map sample_lb evs) sample_state) =
       get_utxo_by_ref ref_env sample_state" by fastforce
  then show ?thesis using sample_extends by (intro exI [of _ evs] exI [of _ c']) simp
qed

text \<open>A rollback that meets no cached block stops where it is and clears the beacon.\<close>

lemma rollback_stops_without_block:
  assumes "lc_get_tip C c = Some tip" "lc_get_block C c tip = None"
  shows "rollback cl C (Suc n) to_point (c, b) = Done ([], c, False)"
  using assms by (simp add: Let_def)

end
