(* ===== verification/Tx_Store.thy ===== *)
theory Tx_Store
  imports Rocks Codec
begin

text \<open>
  The store of tracked transactions by block, packages/spectrum-offchain-cardano/src/tx_tracker/
  tx_store.rs, on a RocksDB with the default column family only. The serialisation of hashes and
  transactions is a parameter.
\<close>

record ('h, 'tx) tx_codec =
  tc_hash_bytes :: "'h \<Rightarrow> bytes"
  tc_hash_dec :: "bytes \<Rightarrow> 'h option"
  tc_cbor :: "'tx \<Rightarrow> bytes"
  tc_cbor_dec :: "bytes \<Rightarrow> 'tx option"

definition block_key :: "u64 \<Rightarrow> bytes" where
  "block_key block_num = u64_to_be_bytes block_num"

definition full_key :: "('h, 'tx) tx_codec \<Rightarrow> u64 \<Rightarrow> 'h \<Rightarrow> bytes" where
  "full_key tc block_num h = u64_to_be_bytes block_num @ tc_hash_bytes tc h"

text \<open>The outer option is the panic of the slice.\<close>

definition from_full_key :: "('h, 'tx) tx_codec \<Rightarrow> bytes \<Rightarrow> 'h option option" where
  "from_full_key tc key = (if length key < 8 then None else Some (tc_hash_dec tc (drop 8 key)))"

definition ts_insert :: "('s, unit) rocks \<Rightarrow> ('h, 'tx) tx_codec \<Rightarrow> u64 \<Rightarrow> 'h \<Rightarrow> 'tx \<Rightarrow> 's \<Rightarrow> 's" where
  "ts_insert db tc block_num h tx s = r_put db s () (full_key tc block_num h) (tc_cbor tc tx)"

definition ts_remove :: "('s, unit) rocks \<Rightarrow> ('h, 'tx) tx_codec \<Rightarrow> u64 \<Rightarrow> 'h \<Rightarrow> 's \<Rightarrow> 's" where
  "ts_remove db tc block_num h s = r_del db s () (full_key tc block_num h)"

fun remove_loop ::
    "('s, unit) rocks \<Rightarrow> ('h, 'tx) tx_codec \<Rightarrow> (bytes \<times> bytes) list \<Rightarrow> ('h \<times> 'tx) list \<Rightarrow> 's \<Rightarrow>
     (('h \<times> 'tx) list \<times> 's) option" where
  "remove_loop db tc [] bf s = Some (bf, s)"
| "remove_loop db tc ((key, v) # items) bf s =
     (case (from_full_key tc key, tc_cbor_dec tc v) of
        (Some (Some h), Some tx) \<Rightarrow> remove_loop db tc items (bf @ [(h, tx)]) (r_del db s () key)
      | _ \<Rightarrow> None)"

definition ts_remove_all ::
    "('s, unit) rocks \<Rightarrow> ('h, 'tx) tx_codec \<Rightarrow> u64 \<Rightarrow> 's \<Rightarrow> (('h \<times> 'tx) list \<times> 's) option" where
  "ts_remove_all db tc block_num s =
     remove_loop db tc (r_iter db s () (block_key block_num) (block_key block_num)) [] s"

subsection \<open>What the store holds\<close>

text \<open>The store holds exactly the transactions of \<open>M\<close>, a map by block and hash.\<close>

definition stores ::
    "('s, unit) rocks \<Rightarrow> ('h, 'tx) tx_codec \<Rightarrow> 's \<Rightarrow> (u64 \<times> 'h \<Rightarrow> 'tx option) \<Rightarrow> bool" where
  "stores db tc s M \<longleftrightarrow> (\<forall>k v. r_get db s () k = Some v \<longleftrightarrow>
     (\<exists>b h tx. M (b, h) = Some tx \<and> k = full_key tc b h \<and> v = tc_cbor tc tx))"

abbreviation item_of :: "('h, 'tx) tx_codec \<Rightarrow> u64 \<Rightarrow> bytes \<times> bytes \<Rightarrow> 'h \<times> 'tx \<Rightarrow> bool" where
  "item_of tc b kv x \<equiv> kv = (full_key tc b (fst x), tc_cbor tc (snd x))"

locale tx_store_env = rocksdb db for db :: "('s, unit) rocks" +
  fixes tc :: "('h, 'tx) tx_codec"
  assumes hash_dec: "tc_hash_dec tc (tc_hash_bytes tc h) = Some h"
    and cbor_dec: "tc_cbor_dec tc (tc_cbor tc tx) = Some tx"
begin

lemma full_key_eq_iff [simp]: "full_key tc b h = full_key tc b' h' \<longleftrightarrow> b = b' \<and> h = h'"
  using hash_dec by (auto simp: full_key_def key_simps) (metis option.inject)

lemma cbor_eq_iff [simp]: "tc_cbor tc tx = tc_cbor tc tx' \<longleftrightarrow> tx = tx'"
  using cbor_dec by (metis option.inject)

lemma from_full_key [simp]: "from_full_key tc (full_key tc b h) = Some (Some h)"
  by (simp add: from_full_key_def full_key_def hash_dec)

lemma prefix_full_key: "prefix (block_key b) (full_key tc b' h) \<longleftrightarrow> b' = b"
proof -
  have "prefix (u64_to_be_bytes b) (u64_to_be_bytes b' @ r) \<longleftrightarrow> u64_to_be_bytes b = u64_to_be_bytes b'" for r
    by (auto simp: prefix_def append_eq_append_conv)
  then show ?thesis by (auto simp: block_key_def full_key_def key_simps)
qed

lemma stores_insert:
  "stores db tc s M \<Longrightarrow> stores db tc (ts_insert db tc b h tx s) (M((b, h) \<mapsto> tx))"
  by (auto simp: stores_def ts_insert_def get_put split: if_splits) blast+

lemma stores_remove:
  "stores db tc s M \<Longrightarrow> stores db tc (ts_remove db tc b h s) (M((b, h) := None))"
  by (auto simp: stores_def ts_remove_def get_del split: if_splits) blast+

lemma remove_loop_run:
  assumes "list_all2 (item_of tc b) items L"
  shows "\<exists>s'. remove_loop db tc items bf s = Some (bf @ L, s') \<and>
     (\<forall>k. r_get db s' () k = (if k \<in> fst ` set items then None else r_get db s () k))"
  using assms
proof (induction items L arbitrary: bf s rule: list_all2_induct)
  case Nil
  then show ?case by simp
next
  case (Cons kv items x L)
  then obtain s' where "remove_loop db tc items (bf @ [x]) (r_del db s () (fst kv)) = Some ((bf @ [x]) @ L, s')"
    "\<forall>k. r_get db s' () k = (if k \<in> fst ` set items then None else r_get db (r_del db s () (fst kv)) () k)"
    by blast
  then show ?case using Cons(1) by (cases x) (auto simp: cbor_dec get_del)
qed

lemma block_items:
  assumes st: "stores db tc s M"
  shows "\<exists>L. list_all2 (item_of tc b) (r_iter db s () (block_key b) (block_key b)) L \<and>
     set L = {(h, tx). M (b, h) = Some tx} \<and> sorted_wrt (<) (map (tc_hash_bytes tc \<circ> fst) L)"
proof -
  let ?items = "r_iter db s () (block_key b) (block_key b)"
  have le: "block_key b \<le> full_key tc b h" for h
    unfolding block_key_def full_key_def by (rule list_le_prefix)
  have "\<exists>x. item_of tc b kv x" if "kv \<in> set ?items" for kv
  proof -
    from that have "r_get db s () (fst kv) = Some (snd kv)" "prefix (block_key b) (fst kv)"
      by (simp_all add: iter_set case_prod_beta)
    with st obtain h tx where "kv = (full_key tc b h, tc_cbor tc tx)"
      by (cases kv) (auto simp: stores_def prefix_full_key)
    then show ?thesis by (metis fst_conv snd_conv)
  qed
  then obtain f where "\<And>kv. kv \<in> set ?items \<Longrightarrow> item_of tc b kv (f kv)"
    using bchoice [of "set ?items" "item_of tc b"] by blast
  then have "list_all2 (item_of tc b) ?items (map f ?items)"
    unfolding list_all2_map2 list_all2_same by blast
  then obtain L where L: "list_all2 (item_of tc b) ?items L" by blast
  then have it: "?items = map (\<lambda>x. (full_key tc b (fst x), tc_cbor tc (snd x))) L"
    by (induction rule: list_all2_induct) auto
  have "(h, tx) \<in> set L \<longleftrightarrow> (full_key tc b h, tc_cbor tc tx) \<in> set ?items" for h tx
    unfolding it by force
  then have "set L = {(h, tx). M (b, h) = Some tx}"
    using st by (auto simp: iter_set stores_def prefix_full_key le)
  moreover have "sorted_wrt (<) (map (tc_hash_bytes tc \<circ> fst) L)"
    using iter_sorted [of s "()" "block_key b" "block_key b"] unfolding it
    by (simp add: sorted_wrt_map full_key_def key_simps)
  ultimately show ?thesis using L by blast
qed

lemma remove_all_block:
  assumes st: "stores db tc s M"
  shows "\<exists>L s'. ts_remove_all db tc b s = Some (L, s') \<and>
     set L = {(h, tx). M (b, h) = Some tx} \<and> sorted_wrt (<) (map (tc_hash_bytes tc \<circ> fst) L) \<and>
     stores db tc s' (\<lambda>(b', h). if b' = b then None else M (b', h))"
proof -
  obtain L where L: "list_all2 (item_of tc b) (r_iter db s () (block_key b) (block_key b)) L"
    "set L = {(h, tx). M (b, h) = Some tx}" "sorted_wrt (<) (map (tc_hash_bytes tc \<circ> fst) L)"
    using block_items [OF st] by blast
  then obtain s' where run: "ts_remove_all db tc b s = Some (L, s')"
    and get: "\<And>k. r_get db s' () k =
      (if k \<in> fst ` set (r_iter db s () (block_key b) (block_key b)) then None else r_get db s () k)"
    using remove_loop_run [OF L(1), of "[]" s] unfolding ts_remove_all_def by auto
  have "k \<in> fst ` set (r_iter db s () (block_key b) (block_key b)) \<longleftrightarrow>
      (\<exists>h tx. M (b, h) = Some tx \<and> k = full_key tc b h)" for k
  proof -
    have "k \<in> fst ` set (r_iter db s () (block_key b) (block_key b)) \<longleftrightarrow>
        (\<exists>v. r_get db s () k = Some v) \<and> prefix (block_key b) k"
      by (auto simp: iter_keys prefix_def list_le_prefix)
    also have "\<dots> \<longleftrightarrow> (\<exists>h tx. M (b, h) = Some tx \<and> k = full_key tc b h)"
      using st unfolding stores_def by (metis prefix_full_key)
    finally show ?thesis .
  qed
  note in_block = this
  have "stores db tc s' (\<lambda>(b', h). if b' = b then None else M (b', h))"
    unfolding stores_def
  proof (intro allI)
    fix k v
    show "r_get db s' () k = Some v \<longleftrightarrow> (\<exists>b' h tx. (case (b', h) of (b', h) \<Rightarrow>
        if b' = b then None else M (b', h)) = Some tx \<and> k = full_key tc b' h \<and> v = tc_cbor tc tx)"
      using st unfolding get in_block stores_def by (auto split: if_splits) (metis option.distinct(1))+
  qed
  then show ?thesis using run L by blast
qed

end

subsection \<open>A reference instance\<close>

definition ref_tx_codec :: "(u64, bytes) tx_codec" where
  "ref_tx_codec = \<lparr> tc_hash_bytes = u64_to_be_bytes,
     tc_hash_dec = (\<lambda>bs. if length bs = 8 then Some (word_of_nat (nat_be bs)) else None),
     tc_cbor = id, tc_cbor_dec = Some \<rparr>"

interpretation refts: tx_store_env assoc_rocks ref_tx_codec
  by unfold_locales (simp_all add: ref_tx_codec_def nat_be_u64)

lemma stores_empty: "stores assoc_rocks tc empty_store (\<lambda>_. None)"
  by (simp add: stores_def get_empty_store)

text \<open>
  The store is a map by block and hash. Inserting and removing a transaction update the map
  at its block and hash; taking a block out returns exactly the transactions stored for that
  block, ordered by hash, never panics, and leaves those of every other block.
\<close>
theorem tx_store_refines_map:
  assumes "tx_store_env db tc" and "stores db tc s M"
  shows "stores db tc (ts_insert db tc b h tx s) (M((b, h) \<mapsto> tx)) \<and>
     stores db tc (ts_remove db tc b h s) (M((b, h) := None)) \<and>
     (\<exists>L s'. ts_remove_all db tc b s = Some (L, s') \<and>
        set L = {(h, tx). M (b, h) = Some tx} \<and> sorted_wrt (<) (map (tc_hash_bytes tc \<circ> fst) L) \<and>
        stores db tc s' (\<lambda>(b', h). if b' = b then None else M (b', h)))"
  using tx_store_env.stores_insert [OF assms] tx_store_env.stores_remove [OF assms]
    tx_store_env.remove_all_block [OF assms] by blast

theorem tx_store_refines_map_witness:
  "stores assoc_rocks ref_tx_codec (ts_insert assoc_rocks ref_tx_codec 1 4 [7] empty_store) [(1, 4) \<mapsto> [7]]"
  using tx_store_refines_map [OF refts.tx_store_env_axioms stores_empty, of 1 4 "[7]"] by blast

end
