(* ===== verification/Kv_Store.thy ===== *)
theory Kv_Store
  imports Rocks
begin

text \<open>
  Key-value stores, packages/spectrum-offchain/src/kv_store.rs: the trait as a record of
  operations, its contract as the locale \<open>kv_store\<close>, the in-memory, the tracing and the RocksDB
  implementation. An operation that unwraps a failed decoding panics, which is the value \<open>None\<close>.
\<close>

record ('s, 'k, 'v) kv_ops =
  kv_insert :: "'k \<Rightarrow> 'v \<Rightarrow> 's \<Rightarrow> ('v option \<times> 's) option"
  kv_get :: "'k \<Rightarrow> 's \<Rightarrow> 'v option option"
  kv_remove :: "'k \<Rightarrow> 's \<Rightarrow> ('v option \<times> 's) option"

text \<open>The contract: the store is a map, and an update answers the previous value.\<close>

locale kv_store =
  fixes kv :: "('s, 'k, 'v) kv_ops" and ok :: "'s \<Rightarrow> bool" and content :: "'s \<Rightarrow> 'k \<Rightarrow> 'v option"
  assumes get: "ok s \<Longrightarrow> kv_get kv k s = Some (content s k)"
    and insert: "ok s \<Longrightarrow> \<exists>s'. kv_insert kv k v s = Some (content s k, s') \<and> ok s' \<and> content s' = (content s)(k \<mapsto> v)"
    and remove: "ok s \<Longrightarrow> \<exists>s'. kv_remove kv k s = Some (content s k, s') \<and> ok s' \<and> content s' = (content s)(k := None)"

subsection \<open>Implementations\<close>

text \<open>The hash map.\<close>

definition memory_kv :: "('k \<Rightarrow> 'v option, 'k, 'v) kv_ops" where
  "memory_kv = \<lparr>
     kv_insert = (\<lambda>k v m. Some (m k, m(k \<mapsto> v))),
     kv_get = (\<lambda>k m. Some (m k)),
     kv_remove = (\<lambda>k m. Some (m k, m(k := None))) \<rparr>"

text \<open>Tracing logs and hands the call on.\<close>

definition tracing_kv :: "('s, 'k, 'v) kv_ops \<Rightarrow> ('s, 'k, 'v) kv_ops" where
  "tracing_kv inner = \<lparr>
     kv_insert = (\<lambda>k v s. kv_insert inner k v s),
     kv_get = (\<lambda>k s. kv_get inner k s),
     kv_remove = (\<lambda>k s. kv_remove inner k s) \<rparr>"

record ('k, 'v) kv_codec =
  kc_key :: "'k \<Rightarrow> bytes"
  kc_value :: "'v \<Rightarrow> bytes"
  kc_value_dec :: "bytes \<Rightarrow> 'v option"

text \<open>The value read and decoded; \<open>None\<close> when the decoding panics.\<close>

definition rkv_get :: "('s, unit) rocks \<Rightarrow> ('k, 'v) kv_codec \<Rightarrow> 'k \<Rightarrow> 's \<Rightarrow> 'v option option" where
  "rkv_get db kc key s =
     (case r_get db s () (kc_key kc key) of
        None \<Rightarrow> Some None
      | Some old_value_bytes \<Rightarrow> map_option Some (kc_value_dec kc old_value_bytes))"

definition rkv_insert ::
    "('s, unit) rocks \<Rightarrow> ('k, 'v) kv_codec \<Rightarrow> 'k \<Rightarrow> 'v \<Rightarrow> 's \<Rightarrow> ('v option \<times> 's) option" where
  "rkv_insert db kc key value s =
     map_option (\<lambda>old_value. (old_value, r_put db s () (kc_key kc key) (kc_value kc value))) (rkv_get db kc key s)"

definition rkv_remove ::
    "('s, unit) rocks \<Rightarrow> ('k, 'v) kv_codec \<Rightarrow> 'k \<Rightarrow> 's \<Rightarrow> ('v option \<times> 's) option" where
  "rkv_remove db kc key s =
     map_option (\<lambda>old_value. (old_value, r_del db s () (kc_key kc key))) (rkv_get db kc key s)"

definition rocks_kv :: "('s, unit) rocks \<Rightarrow> ('k, 'v) kv_codec \<Rightarrow> ('s, 'k, 'v) kv_ops" where
  "rocks_kv db kc = \<lparr> kv_insert = rkv_insert db kc, kv_get = rkv_get db kc, kv_remove = rkv_remove db kc \<rparr>"

subsection \<open>The implementations meet the contract\<close>

lemma memory_kv_ops [simp]:
  "kv_insert memory_kv k v m = Some (m k, m(k \<mapsto> v))" "kv_get memory_kv k m = Some (m k)"
  "kv_remove memory_kv k m = Some (m k, m(k := None))"
  by (simp_all add: memory_kv_def)

interpretation memkv: kv_store memory_kv "\<lambda>_. True" "\<lambda>m. m"
  by unfold_locales simp_all

text \<open>Every stored value decodes.\<close>

definition rkv_ok :: "('s, unit) rocks \<Rightarrow> ('k, 'v) kv_codec \<Rightarrow> 's \<Rightarrow> bool" where
  "rkv_ok db kc s \<longleftrightarrow> (\<forall>k v. r_get db s () (kc_key kc k) = Some v \<longrightarrow> kc_value_dec kc v \<noteq> None)"

definition rkv_content :: "('s, unit) rocks \<Rightarrow> ('k, 'v) kv_codec \<Rightarrow> 's \<Rightarrow> 'k \<Rightarrow> 'v option" where
  "rkv_content db kc s k = Option.bind (r_get db s () (kc_key kc k)) (kc_value_dec kc)"

locale kv_rocks = rocksdb db for db :: "('s, unit) rocks" +
  fixes kc :: "('k, 'v) kv_codec"
  assumes key_inj: "kc_key kc k = kc_key kc k' \<Longrightarrow> k = k'"
    and value_dec: "kc_value_dec kc (kc_value kc v) = Some v"
begin

lemma rkv_get_content: "rkv_ok db kc s \<Longrightarrow> rkv_get db kc k s = Some (rkv_content db kc s k)"
  by (cases "r_get db s () (kc_key kc k)") (simp_all add: rkv_get_def rkv_content_def rkv_ok_def, force)

lemma rocks_kv_laws: "kv_store (rocks_kv db kc) (rkv_ok db kc) (rkv_content db kc)"
proof
  fix s k
  assume ok: "rkv_ok db kc s"
  show "kv_get (rocks_kv db kc) k s = Some (rkv_content db kc s k)"
    using rkv_get_content [OF ok] by (simp add: rocks_kv_def)
  show "\<exists>s'. kv_insert (rocks_kv db kc) k v s = Some (rkv_content db kc s k, s') \<and>
      rkv_ok db kc s' \<and> rkv_content db kc s' = (rkv_content db kc s)(k \<mapsto> v)" for v
  proof (intro exI conjI)
    show "kv_insert (rocks_kv db kc) k v s =
        Some (rkv_content db kc s k, r_put db s () (kc_key kc k) (kc_value kc v))"
      using rkv_get_content [OF ok] by (simp add: rocks_kv_def rkv_insert_def)
    show "rkv_ok db kc (r_put db s () (kc_key kc k) (kc_value kc v))"
      using ok by (auto simp: rkv_ok_def get_put value_dec)
    show "rkv_content db kc (r_put db s () (kc_key kc k) (kc_value kc v)) = (rkv_content db kc s)(k \<mapsto> v)"
      by (rule ext) (auto simp: rkv_content_def get_put value_dec dest: key_inj)
  qed
  show "\<exists>s'. kv_remove (rocks_kv db kc) k s = Some (rkv_content db kc s k, s') \<and>
      rkv_ok db kc s' \<and> rkv_content db kc s' = (rkv_content db kc s)(k := None)"
  proof (intro exI conjI)
    show "kv_remove (rocks_kv db kc) k s = Some (rkv_content db kc s k, r_del db s () (kc_key kc k))"
      using rkv_get_content [OF ok] by (simp add: rocks_kv_def rkv_remove_def)
    show "rkv_ok db kc (r_del db s () (kc_key kc k))" using ok by (auto simp: rkv_ok_def get_del)
    show "rkv_content db kc (r_del db s () (kc_key kc k)) = (rkv_content db kc s)(k := None)"
      by (rule ext) (auto simp: rkv_content_def get_del dest: key_inj)
  qed
qed

end

lemma tracing_kv_laws: "kv_store kv ok content \<Longrightarrow> kv_store (tracing_kv kv) ok content"
  by (simp add: kv_store_def tracing_kv_def)

definition ref_kv_codec :: "(u64, bytes) kv_codec" where
  "ref_kv_codec = \<lparr> kc_key = u64_to_be_bytes, kc_value = id, kc_value_dec = Some \<rparr>"

interpretation refkv: kv_rocks assoc_rocks ref_kv_codec
  by unfold_locales (simp_all add: ref_kv_codec_def key_simps)

subsection \<open>Programs over a store\<close>

datatype ('k, 'v) kv_call = Insert 'k 'v | Get 'k | Remove 'k

text \<open>The answers to a sequence of calls; \<open>None\<close> when one of them panics.\<close>

fun kv_run :: "('s, 'k, 'v) kv_ops \<Rightarrow> ('k, 'v) kv_call list \<Rightarrow> 's \<Rightarrow> 'v option list option" where
  "kv_run kv [] s = Some []"
| "kv_run kv (Insert k v # calls) s =
     Option.bind (kv_insert kv k v s) (\<lambda>(old, s'). map_option ((#) old) (kv_run kv calls s'))"
| "kv_run kv (Get k # calls) s =
     Option.bind (kv_get kv k s) (\<lambda>x. map_option ((#) x) (kv_run kv calls s))"
| "kv_run kv (Remove k # calls) s =
     Option.bind (kv_remove kv k s) (\<lambda>(old, s'). map_option ((#) old) (kv_run kv calls s'))"

context kv_store
begin

lemma run_as_map: "ok s \<Longrightarrow> kv_run kv calls s = kv_run memory_kv calls (content s)"
proof (induction calls arbitrary: s)
  case (Cons c calls)
  show ?case
  proof (cases c)
    case (Insert k v)
    obtain s' where "kv_insert kv k v s = Some (content s k, s')" "ok s'" "content s' = (content s)(k \<mapsto> v)"
      using insert [OF Cons(2)] by blast
    with Insert Cons(1) show ?thesis by (simp del: fun_upd_apply)
  next
    case (Get k)
    with get [OF Cons(2), of k] Cons show ?thesis by simp
  next
    case (Remove k)
    obtain s' where "kv_remove kv k s = Some (content s k, s')" "ok s'" "content s' = (content s)(k := None)"
      using remove [OF Cons(2)] by blast
    with Remove Cons(1) show ?thesis by (simp del: fun_upd_apply)
  qed
qed simp

end

lemma memory_runs: "kv_run memory_kv calls m \<noteq> None"
proof (induction calls arbitrary: m)
  case (Cons c calls)
  then show ?case by (cases c) simp_all
qed simp

text \<open>
  The persistent store is the in-memory one: on a database whose values decode, every
  sequence of inserts, lookups and removals gets the same answers from RocksDB, with or without
  tracing, as from a hash map with the same content, and none of them panics.
\<close>
theorem kv_stores_agree:
  assumes "kv_rocks db kc" and "rkv_ok db kc s"
  shows "kv_run (rocks_kv db kc) calls s = kv_run memory_kv calls (rkv_content db kc s) \<and>
     kv_run (tracing_kv (rocks_kv db kc)) calls s = kv_run memory_kv calls (rkv_content db kc s) \<and>
     kv_run (rocks_kv db kc) calls s \<noteq> None"
proof -
  note laws = kv_rocks.rocks_kv_laws [OF assms(1)]
  have "kv_run memory_kv calls m \<noteq> None" for m :: "'b \<Rightarrow> 'c option"
    by (rule memory_runs)
  then show ?thesis
    using kv_store.run_as_map [OF laws assms(2)] kv_store.run_as_map [OF tracing_kv_laws [OF laws] assms(2)] by simp
qed

theorem kv_stores_agree_witness:
  "kv_run (rocks_kv assoc_rocks ref_kv_codec) [Insert 1 [5], Insert 1 [6], Get 1, Remove 1, Get 1] empty_store =
     Some [None, Some [5], Some [6], Some [6], None]"
proof -
  have "rkv_ok assoc_rocks ref_kv_codec empty_store" by (simp add: rkv_ok_def get_empty_store)
  moreover have "rkv_content assoc_rocks ref_kv_codec empty_store = (\<lambda>_. None)"
    by (rule ext) (simp add: rkv_content_def get_empty_store)
  ultimately show ?thesis
    using kv_stores_agree [OF refkv.kv_rocks_axioms,
        of empty_store "[Insert 1 [5], Insert 1 [6], Get 1, Remove 1, Get 1]"]
    by simp
qed

end
