(* ===== verification/Backlog_Store.thy ===== *)
theory Backlog_Store
  imports Rocks
begin

text \<open>
  What the order backlog stands on: the priority queue of the crate priority-queue, an interface
  with its documented behaviour (a map from items to priorities; \<open>pop\<close> takes an item of greatest
  priority), and the persistent store of orders, packages/spectrum-offchain/src/backlog/
  persistence.rs, on RocksDB.
\<close>

subsection \<open>Priority queues\<close>

record ('q, 'k, 'w) pq_ops =
  pq_new :: 'q
  pq_push :: "'k \<Rightarrow> 'w \<Rightarrow> 'q \<Rightarrow> 'q"
  pq_pop :: "'q \<Rightarrow> (('k \<times> 'w) \<times> 'q) option"
  pq_remove :: "'k \<Rightarrow> 'q \<Rightarrow> 'q"
  pq_iter :: "'q \<Rightarrow> ('k \<times> 'w) list"

definition pq_map :: "('q, 'k, 'w) pq_ops \<Rightarrow> 'q \<Rightarrow> 'k \<Rightarrow> 'w option" where
  "pq_map pq q = map_of (pq_iter pq q)"

locale priority_queue =
  fixes pq :: "('q, 'k, 'w::linorder) pq_ops"
  assumes iter_distinct: "distinct (map fst (pq_iter pq q))"
    and map_new: "pq_map pq (pq_new pq) = (\<lambda>_. None)"
    and map_push: "pq_map pq (pq_push pq k w q) = (pq_map pq q)(k \<mapsto> w)"
    and map_remove: "pq_map pq (pq_remove pq k q) = (pq_map pq q)(k := None)"
    and pop_none: "pq_pop pq q = None \<longleftrightarrow> pq_iter pq q = []"
    and pop_some: "pq_pop pq q = Some ((k, w), q') \<Longrightarrow>
      pq_map pq q k = Some w \<and> pq_map pq q' = (pq_map pq q)(k := None) \<and>
      (\<forall>k' w'. pq_map pq q k' = Some w' \<longrightarrow> w' \<le> w)"
begin

lemma iter_map: "(k, w) \<in> set (pq_iter pq q) \<longleftrightarrow> pq_map pq q k = Some w"
  using iter_distinct by (simp add: pq_map_def)

lemma pop_smaller: "pq_pop pq q = Some (kw, q') \<Longrightarrow> length (pq_iter pq q') < length (pq_iter pq q)"
proof -
  assume pop: "pq_pop pq q = Some (kw, q')"
  obtain k w where kw: "kw = (k, w)" by force
  note spec = pop_some [OF pop [unfolded kw]]
  have "dom (pq_map pq q') \<subset> dom (pq_map pq q)" using spec by auto
  then have "card (dom (pq_map pq q')) < card (dom (pq_map pq q))"
    by (simp add: pq_map_def finite_dom_map_of psubset_card_mono)
  then show ?thesis
    using distinct_card [OF iter_distinct [of q]] distinct_card [OF iter_distinct [of q']]
    by (simp add: pq_map_def dom_map_of_conv_image_fst)
qed

end

text \<open>A reference queue: an association list whose \<open>pop\<close> takes the first of the greatest priority.\<close>

fun list_max :: "('k \<times> 'w::linorder) list \<Rightarrow> ('k \<times> 'w) option" where
  "list_max [] = None"
| "list_max ((k, w) # q) =
     (case list_max q of None \<Rightarrow> Some (k, w) | Some (k', w') \<Rightarrow> Some (if w' \<le> w then (k, w) else (k', w')))"

definition list_pq :: "(('k \<times> 'w::linorder) list, 'k, 'w) pq_ops" where
  "list_pq = \<lparr> pq_new = [],
     pq_push = AList.update,
     pq_pop = (\<lambda>q. case list_max (AList.clearjunk q) of None \<Rightarrow> None | Some (k, w) \<Rightarrow> Some ((k, w), AList.delete k q)),
     pq_remove = AList.delete,
     pq_iter = AList.clearjunk \<rparr>"

lemma list_max_none: "list_max q = None \<longleftrightarrow> q = []"
  by (induction q rule: list_max.induct) (auto split: option.splits)

lemma list_max_some:
  "list_max q = Some (k, w) \<Longrightarrow> (k, w) \<in> set q \<and> (\<forall>(k', w') \<in> set q. w' \<le> w)"
proof (induction q arbitrary: k w rule: list_max.induct)
  case (2 k0 w0 q)
  show ?case
  proof (cases "list_max q")
    case None
    then show ?thesis using 2(2) by (simp add: list_max_none)
  next
    case (Some kw)
    obtain k1 w1 where kw: "kw = (k1, w1)" by force
    note ih = 2(1) [OF Some [unfolded kw]]
    show ?thesis
      using 2(2) ih by (cases "w1 \<le> w0") (auto simp: Some kw dest: order.trans)
  qed
qed simp

interpretation listpq: priority_queue list_pq
proof (unfold_locales, goal_cases)
  case (1 q)
  show ?case by (simp add: list_pq_def)
next
  case 2
  show ?case by (rule ext) (simp add: list_pq_def pq_map_def)
next
  case (3 k w q)
  show ?case by (simp add: list_pq_def pq_map_def map_of_clearjunk update_conv')
next
  case (4 k q)
  show ?case by (simp add: list_pq_def pq_map_def map_of_clearjunk delete_conv')
next
  case (5 q)
  show ?case using list_max_none [of "AList.clearjunk q"] by (auto simp: list_pq_def split: option.split)
next
  case (6 q k w q')
  then have m: "list_max (AList.clearjunk q) = Some (k, w)" and q': "q' = AList.delete k q"
    by (auto simp: list_pq_def split: option.splits)
  have "map_of (AList.clearjunk q) k = Some w"
    using list_max_some [OF m] by simp
  moreover have "w' \<le> w" if "map_of (AList.clearjunk q) k' = Some w'" for k' w'
    using list_max_some [OF m] map_of_SomeD [OF that] by fastforce
  ultimately show ?case
    by (simp add: list_pq_def pq_map_def map_of_clearjunk delete_conv' q')
qed

subsection \<open>The store of orders\<close>

record 'ord backlog_order =
  bo_order :: 'ord
  bo_timestamp :: int

text \<open>The trait. An operation that unwraps a failed decoding panics, which is \<open>None\<close>.\<close>

record ('s, 'id, 'ord) backlog_store =
  bs_put :: "'ord backlog_order \<Rightarrow> 's \<Rightarrow> 's"
  bs_exists :: "'id \<Rightarrow> 's \<Rightarrow> bool"
  bs_remove :: "'id \<Rightarrow> 's \<Rightarrow> 's"
  bs_get :: "'id \<Rightarrow> 's \<Rightarrow> 'ord backlog_order option option"
  bs_find_orders :: "('ord \<Rightarrow> bool) \<Rightarrow> 's \<Rightarrow> 'ord backlog_order list"

locale order_store =
  fixes bs :: "('s, 'id, 'ord) backlog_store" and self_ref :: "'ord \<Rightarrow> 'id"
    and ok :: "'s \<Rightarrow> bool" and orders :: "'s \<Rightarrow> 'id \<Rightarrow> 'ord backlog_order option"
  assumes get: "ok s \<Longrightarrow> bs_get bs i s = Some (orders s i)"
    and exists_iff: "ok s \<Longrightarrow> bs_exists bs i s \<longleftrightarrow> orders s i \<noteq> None"
    and put: "ok s \<Longrightarrow> ok (bs_put bs bo s) \<and> orders (bs_put bs bo s) = (orders s)(self_ref (bo_order bo) \<mapsto> bo)"
    and remove: "ok s \<Longrightarrow> ok (bs_remove bs i s) \<and> orders (bs_remove bs i s) = (orders s)(i := None)"
    and keyed: "ok s \<Longrightarrow> orders s i = Some bo \<Longrightarrow> self_ref (bo_order bo) = i"
    and find: "ok s \<Longrightarrow> set (bs_find_orders bs f s) = {bo. \<exists>i. orders s i = Some bo \<and> f (bo_order bo)} \<and>
      distinct (map (self_ref \<circ> bo_order) (bs_find_orders bs f s))"

record ('id, 'ord) order_codec =
  oc_ref :: "'ord \<Rightarrow> 'id"
  oc_id :: "'id \<Rightarrow> bytes"
  oc_order :: "'ord backlog_order \<Rightarrow> bytes"
  oc_order_dec :: "bytes \<Rightarrow> 'ord backlog_order option"

definition rbs_put :: "('s, unit) rocks \<Rightarrow> ('id, 'ord) order_codec \<Rightarrow> 'ord backlog_order \<Rightarrow> 's \<Rightarrow> 's" where
  "rbs_put db oc ord s = r_put db s () (oc_id oc (oc_ref oc (bo_order ord))) (oc_order oc ord)"

definition rbs_exists :: "('s, unit) rocks \<Rightarrow> ('id, 'ord) order_codec \<Rightarrow> 'id \<Rightarrow> 's \<Rightarrow> bool" where
  "rbs_exists db oc ord_id s \<longleftrightarrow> r_get db s () (oc_id oc ord_id) \<noteq> None"

definition rbs_remove :: "('s, unit) rocks \<Rightarrow> ('id, 'ord) order_codec \<Rightarrow> 'id \<Rightarrow> 's \<Rightarrow> 's" where
  "rbs_remove db oc ord_id s = r_del db s () (oc_id oc ord_id)"

definition rbs_get ::
    "('s, unit) rocks \<Rightarrow> ('id, 'ord) order_codec \<Rightarrow> 'id \<Rightarrow> 's \<Rightarrow> 'ord backlog_order option option" where
  "rbs_get db oc ord_id s =
     (case r_get db s () (oc_id oc ord_id) of
        None \<Rightarrow> Some None
      | Some b \<Rightarrow> map_option Some (oc_order_dec oc b))"

text \<open>The iterator starts at the first key and has no bound.\<close>

definition rbs_find_orders ::
    "('s, unit) rocks \<Rightarrow> ('id, 'ord) order_codec \<Rightarrow> ('ord \<Rightarrow> bool) \<Rightarrow> 's \<Rightarrow> 'ord backlog_order list" where
  "rbs_find_orders db oc f s =
     List.map_filter (\<lambda>(_, v). case oc_order_dec oc v of
         Some b \<Rightarrow> if f (bo_order b) then Some b else None
       | None \<Rightarrow> None) (r_iter db s () [] [])"

definition rocks_backlog :: "('s, unit) rocks \<Rightarrow> ('id, 'ord) order_codec \<Rightarrow> ('s, 'id, 'ord) backlog_store" where
  "rocks_backlog db oc = \<lparr> bs_put = rbs_put db oc, bs_exists = rbs_exists db oc, bs_remove = rbs_remove db oc,
     bs_get = rbs_get db oc, bs_find_orders = rbs_find_orders db oc \<rparr>"

text \<open>Every entry is an order stored under its own identifier.\<close>

definition rbs_ok :: "('s, unit) rocks \<Rightarrow> ('id, 'ord) order_codec \<Rightarrow> 's \<Rightarrow> bool" where
  "rbs_ok db oc s \<longleftrightarrow> (\<forall>k v. r_get db s () k = Some v \<longrightarrow>
     (\<exists>bo. v = oc_order oc bo \<and> k = oc_id oc (oc_ref oc (bo_order bo))))"

definition rbs_orders :: "('s, unit) rocks \<Rightarrow> ('id, 'ord) order_codec \<Rightarrow> 's \<Rightarrow> 'id \<Rightarrow> 'ord backlog_order option" where
  "rbs_orders db oc s i = Option.bind (r_get db s () (oc_id oc i)) (oc_order_dec oc)"

locale order_rocks = rocksdb db for db :: "('s, unit) rocks" +
  fixes oc :: "('id, 'ord) order_codec"
  assumes id_inj: "oc_id oc i = oc_id oc j \<Longrightarrow> i = j"
    and order_dec: "oc_order_dec oc (oc_order oc bo) = Some bo"
begin

lemma entry: "rbs_ok db oc s \<Longrightarrow> r_get db s () (oc_id oc i) = Some v \<Longrightarrow>
    \<exists>bo. v = oc_order oc bo \<and> oc_ref oc (bo_order bo) = i"
  unfolding rbs_ok_def by (metis id_inj)

lemma orders_iff:
  "rbs_ok db oc s \<Longrightarrow> rbs_orders db oc s i = Some bo \<longleftrightarrow>
     r_get db s () (oc_id oc i) = Some (oc_order oc bo) \<and> oc_ref oc (bo_order bo) = i"
  using entry [of s i] by (auto simp: rbs_orders_def order_dec bind_eq_Some_conv)

lemma orders_none: "rbs_ok db oc s \<Longrightarrow> rbs_orders db oc s i = None \<longleftrightarrow> r_get db s () (oc_id oc i) = None"
  using entry [of s i] by (cases "r_get db s () (oc_id oc i)") (auto simp: rbs_orders_def order_dec)

lemma find_orders_set:
  assumes ok: "rbs_ok db oc s"
  shows "set (rbs_find_orders db oc f s) = {bo. \<exists>i. rbs_orders db oc s i = Some bo \<and> f (bo_order bo)}"
proof -
  have "bo \<in> set (rbs_find_orders db oc f s) \<longleftrightarrow>
      (\<exists>k v. r_get db s () k = Some v \<and> oc_order_dec oc v = Some bo \<and> f (bo_order bo))" for bo
    by (force simp: rbs_find_orders_def List.map_filter_def iter_set image_iff split: option.splits if_splits)
  then show ?thesis
    using ok unfolding rbs_ok_def by (auto simp: orders_iff [OF ok] order_dec) (metis order_dec option.inject)+
qed

lemma find_orders_distinct:
  assumes ok: "rbs_ok db oc s"
  shows "distinct (map (oc_ref oc \<circ> bo_order) (rbs_find_orders db oc f s))"
proof -
  have good: "\<exists>bo. kv = (oc_id oc (oc_ref oc (bo_order bo)), oc_order oc bo)" if "kv \<in> set (r_iter db s () [] [])" for kv
    using ok iter_get [of "fst kv" "snd kv"] that unfolding rbs_ok_def by (metis prod.collapse)
  have "set items \<subseteq> set (r_iter db s () [] []) \<Longrightarrow> distinct (map fst items) \<Longrightarrow>
      distinct (map (oc_ref oc \<circ> bo_order) (List.map_filter (\<lambda>(_, v). case oc_order_dec oc v of
         Some b \<Rightarrow> if f (bo_order b) then Some b else None | None \<Rightarrow> None) items)) \<and>
      (oc_id oc \<circ> (oc_ref oc \<circ> bo_order)) ` set (List.map_filter (\<lambda>(_, v). case oc_order_dec oc v of
         Some b \<Rightarrow> if f (bo_order b) then Some b else None | None \<Rightarrow> None) items) \<subseteq> fst ` set items" for items
  proof (induction items)
    case (Cons kv items)
    obtain bo where kv: "kv = (oc_id oc (oc_ref oc (bo_order bo)), oc_order oc bo)" using good [of kv] Cons(2) by auto
    show ?case using Cons by (auto simp: kv order_dec List.map_filter_simps image_subset_iff image_iff) force
  qed (simp add: List.map_filter_simps)
  from this [of "r_iter db s () [] []"] show ?thesis
    using iter_distinct by (simp add: rbs_find_orders_def)
qed

lemma rocks_backlog_laws: "order_store (rocks_backlog db oc) (oc_ref oc) (rbs_ok db oc) (rbs_orders db oc)"
proof (unfold_locales, goal_cases)
  case (1 s i)
  then show ?case using entry [of s i]
    by (cases "r_get db s () (oc_id oc i)") (auto simp: rocks_backlog_def rbs_get_def rbs_orders_def order_dec)
next
  case (2 s i)
  then show ?case by (simp add: rocks_backlog_def rbs_exists_def orders_none)
next
  case (3 s bo)
  then show ?case
    by (auto simp: rocks_backlog_def rbs_put_def rbs_ok_def rbs_orders_def get_put order_dec
        intro!: ext dest: id_inj)
next
  case (4 s i)
  then show ?case
    by (auto simp: rocks_backlog_def rbs_remove_def rbs_ok_def rbs_orders_def get_del intro!: ext dest: id_inj)
next
  case (5 s i bo)
  then show ?case by (simp add: orders_iff)
next
  case (6 s f)
  then show ?case using find_orders_set [OF 6] find_orders_distinct [OF 6] by (simp add: rocks_backlog_def)
qed

end

end
