(* ===== verification/Backlog.thy ===== *)
theory Backlog
  imports Backlog_Store Collections
begin

text \<open>
  The backlogs of orders, packages/spectrum-offchain/src/backlog.rs: the in-memory backlog of
  "hot" orders and the persistent one with its three queues. Orders, their identifiers and
  weights are type variables; the order store and the priority queues are the interfaces of
  \<open>Backlog_Store\<close>. The clock is a sequence of readings in seconds and a random number is an
  argument.
\<close>

subsection \<open>The hot backlog\<close>

record ('q, 'id, 'ord) hot_backlog =
  hb_queue :: 'q
  hb_store :: "'id \<Rightarrow> 'ord option"
  hb_soft_evicted :: "'id circular_filter"
  hb_capacity :: "32 word"

record ('id, 'ord, 'w) order_ops =
  oo_ref :: "'ord \<Rightarrow> 'id"
  oo_weight :: "'ord \<Rightarrow> 'w"

definition hb_new :: "('q, 'id, 'w) pq_ops \<Rightarrow> 32 word \<Rightarrow> ('q, 'id, 'ord) hot_backlog" where
  "hb_new pq capacity = \<lparr> hb_queue = pq_new pq, hb_store = (\<lambda>_. None), hb_soft_evicted = cf_new 256,
     hb_capacity = capacity \<rparr>"

definition hb_put ::
    "('q, 'id, 'w) pq_ops \<Rightarrow> ('id, 'ord, 'w) order_ops \<Rightarrow> 'ord \<Rightarrow> ('q, 'id, 'ord) hot_backlog \<Rightarrow>
     ('q, 'id, 'ord) hot_backlog" where
  "hb_put pq oo ord b =
     (let i = oo_ref oo ord
      in if 0 < hb_capacity b \<and> hb_store b i = None \<and> \<not> cf_contains i (hb_soft_evicted b)
         then b\<lparr>hb_queue := pq_push pq i (oo_weight oo ord) (hb_queue b),
                hb_store := (hb_store b)(i \<mapsto> ord),
                hb_capacity := hb_capacity b - 1\<rparr>
         else b)"

partial_function (option) hb_try_pop ::
    "('q, 'id, 'w) pq_ops \<Rightarrow> ('q, 'id, 'ord) hot_backlog \<Rightarrow> ('ord option \<times> ('q, 'id, 'ord) hot_backlog) option" where
  "hb_try_pop pq b =
     (case pq_pop pq (hb_queue b) of
        None \<Rightarrow> Some (None, b)
      | Some ((oid, _), q) \<Rightarrow>
          (case hb_store b oid of
             Some ord \<Rightarrow>
               Some (Some ord, b\<lparr>hb_queue := q, hb_store := (hb_store b)(oid := None),
                                 hb_capacity := hb_capacity b + 1\<rparr>)
           | None \<Rightarrow> hb_try_pop pq (b\<lparr>hb_queue := q\<rparr>)))"

definition hb_exists :: "'id \<Rightarrow> ('q, 'id, 'ord) hot_backlog \<Rightarrow> bool" where
  "hb_exists i b \<longleftrightarrow> hb_store b i \<noteq> None"

definition hb_remove :: "'id \<Rightarrow> ('q, 'id, 'ord) hot_backlog \<Rightarrow> ('q, 'id, 'ord) hot_backlog" where
  "hb_remove i b =
     (let b1 = b\<lparr>hb_soft_evicted := snd (cf_remove i (hb_soft_evicted b))\<rparr>
      in if hb_store b1 i \<noteq> None
         then b1\<lparr>hb_store := (hb_store b1)(i := None), hb_capacity := hb_capacity b1 + 1\<rparr>
         else b1)"

definition hb_soft_evict :: "'id \<Rightarrow> ('q, 'id, 'ord) hot_backlog \<Rightarrow> ('q, 'id, 'ord) hot_backlog" where
  "hb_soft_evict i b = b\<lparr>hb_soft_evicted := snd (cf_add i (hb_soft_evicted b))\<rparr>"

text \<open>
  Every stored order waits in the queue under its weight, and the free capacity and the stored
  orders add up to \<open>n\<close>.
\<close>

definition hot_inv ::
    "('q, 'id, 'w) pq_ops \<Rightarrow> ('id, 'ord, 'w) order_ops \<Rightarrow> nat \<Rightarrow> ('q, 'id, 'ord) hot_backlog \<Rightarrow> bool" where
  "hot_inv pq oo n b \<longleftrightarrow>
     (\<forall>i ord. hb_store b i = Some ord \<longrightarrow>
        oo_ref oo ord = i \<and> pq_map pq (hb_queue b) i = Some (oo_weight oo ord)) \<and>
     finite (dom (hb_store b)) \<and> unat (hb_capacity b) + card (dom (hb_store b)) = n"

context priority_queue
begin

lemma hot_inv_new: "hot_inv pq oo (unat c) (hb_new pq c)"
  by (simp add: hot_inv_def hb_new_def)

lemma capacity_inc:
  assumes "hot_inv pq oo n b" "hb_store b i = Some ord" "n < 2 ^ 32"
  shows "unat (hb_capacity b + 1) + card (dom (hb_store b) - {i}) = n"
proof -
  have fin: "finite (dom (hb_store b))" and eq: "unat (hb_capacity b) + card (dom (hb_store b)) = n"
    using assms(1) by (simp_all add: hot_inv_def)
  have "i \<in> dom (hb_store b)" using assms(2) by blast
  then have c: "card (dom (hb_store b) - {i}) + 1 = card (dom (hb_store b))"
    using card_Suc_Diff1 [OF fin] by simp
  then have "unat (hb_capacity b) + 1 < 2 ^ 32" using eq assms(3) by linarith
  then have "unat (hb_capacity b + 1) = unat (hb_capacity b) + 1"
    by (simp add: unat_word_ariths unat_of_nat)
  then show ?thesis using c eq by simp
qed

lemma hot_inv_put: "hot_inv pq oo n b \<Longrightarrow> hot_inv pq oo n (hb_put pq oo ord b)"
proof -
  assume inv: "hot_inv pq oo n b"
  let ?i = "oo_ref oo ord"
  show ?thesis
  proof (cases "0 < hb_capacity b \<and> hb_store b ?i = None \<and> \<not> cf_contains ?i (hb_soft_evicted b)")
    case True
    then have "unat (hb_capacity b - 1) + 1 = unat (hb_capacity b)"
      by (simp add: unat_minus_one word_gt_0 unat_gt_0)
    moreover have "?i \<notin> dom (hb_store b)" using True by (simp add: domIff)
    ultimately show ?thesis
      using True inv by (auto simp: hb_put_def Let_def hot_inv_def map_push)
  next
    case False
    then show ?thesis using inv by (auto simp: hb_put_def Let_def)
  qed
qed

lemma hot_inv_remove: "hot_inv pq oo n b \<Longrightarrow> n < 2 ^ 32 \<Longrightarrow> hot_inv pq oo n (hb_remove i b)"
  using capacity_inc [of oo n b i]
  by (auto simp: hb_remove_def Let_def hot_inv_def)

lemma hot_inv_soft_evict: "hot_inv pq oo n b \<Longrightarrow> hot_inv pq oo n (hb_soft_evict i b)"
  by (simp add: hot_inv_def hb_soft_evict_def)

lemma hot_try_pop:
  assumes "hot_inv pq oo n b" "n < 2 ^ 32"
  shows "\<exists>r b'. hb_try_pop pq b = Some (r, b') \<and> hot_inv pq oo n b' \<and>
     (case r of
        None \<Rightarrow> hb_store b = (\<lambda>_. None) \<and> hb_store b' = (\<lambda>_. None)
      | Some ord \<Rightarrow> hb_store b (oo_ref oo ord) = Some ord \<and>
          hb_store b' = (hb_store b)(oo_ref oo ord := None) \<and>
          (\<forall>i ord'. hb_store b i = Some ord' \<longrightarrow> oo_weight oo ord' \<le> oo_weight oo ord))"
  using assms(1)
proof (induction "length (pq_iter pq (hb_queue b))" arbitrary: b rule: less_induct)
  case less
  show ?case
  proof (cases "pq_pop pq (hb_queue b)")
    case None
    then have "pq_map pq (hb_queue b) = (\<lambda>_. None)" using pop_none by (simp add: pq_map_def)
    then have "hb_store b = (\<lambda>_. None)"
      using less(2) by (auto simp: hot_inv_def intro!: ext)
    then show ?thesis using None less(2) by (simp add: hb_try_pop.simps)
  next
    case (Some r)
    obtain oid w q where r: "r = ((oid, w), q)" by (metis prod.exhaust)
    note pop = Some [unfolded r]
    note spec = pop_some [OF pop]
    show ?thesis
    proof (cases "hb_store b oid")
      case None
      have "hot_inv pq oo n (b\<lparr>hb_queue := q\<rparr>)"
        using less(2) spec None by (auto simp: hot_inv_def)
      from less(1) [OF _ this] pop_smaller [OF pop] show ?thesis
        by (subst hb_try_pop.simps) (simp add: pop None cong: option.case_cong)
    next
      case (Some ord)
      let ?b = "b\<lparr>hb_queue := q, hb_store := (hb_store b)(oid := None), hb_capacity := hb_capacity b + 1\<rparr>"
      have run: "hb_try_pop pq b = Some (Some ord, ?b)"
        by (subst hb_try_pop.simps) (simp add: pop Some)
      have id: "oo_ref oo ord = oid" "w = oo_weight oo ord"
        using less(2) Some spec by (auto simp: hot_inv_def)
      have "hot_inv pq oo n ?b"
        using less(2) spec capacity_inc [OF less(2) Some assms(2)] by (auto simp: hot_inv_def)
      moreover have "oo_weight oo ord' \<le> oo_weight oo ord" if "hb_store b i = Some ord'" for i ord'
        using less(2) that spec id(2) by (auto simp: hot_inv_def)
      ultimately show ?thesis using run id Some by simp
    qed
  qed
qed

end

subsection \<open>The persistent backlog\<close>

record 'id weighted_order =
  wo_order :: 'id
  wo_timestamp :: int

record backlog_config =
  order_lifespan :: int
  order_exec_time :: int
  retry_suspended_prob :: nat

record ('s, 'q, 'id, 'ord, 'w) backlog_env =
  be_store :: "('s, 'id, 'ord) backlog_store"
  be_pq :: "('q, 'id weighted_order, 'w) pq_ops"
  be_ord :: "('id, 'ord, 'w) order_ops"
  be_conf :: backlog_config

record ('s, 'q, 'id) backlog =
  bl_store :: 's
  bl_pending :: 'q
  bl_suspended :: 'q
  bl_revisit :: "'id weighted_order list"

definition weighted_of :: "('s, 'q, 'id, 'ord, 'w) backlog_env \<Rightarrow> 'ord backlog_order \<Rightarrow> 'id weighted_order" where
  "weighted_of B bo = \<lparr> wo_order = oo_ref (be_ord B) (bo_order bo), wo_timestamp = bo_timestamp bo \<rparr>"

definition push_pending ::
    "('s, 'q, 'id, 'ord, 'w) backlog_env \<Rightarrow> 'ord backlog_order \<Rightarrow> 'q \<Rightarrow> 'q" where
  "push_pending B bo q = pq_push (be_pq B) (weighted_of B bo) (oo_weight (be_ord B) (bo_order bo)) q"

definition backlog_new :: "('s, 'q, 'id, 'ord, 'w) backlog_env \<Rightarrow> 's \<Rightarrow> ('s, 'q, 'id) backlog" where
  "backlog_new B s =
     \<lparr> bl_store = s,
       bl_pending = fold (push_pending B) (bs_find_orders (be_store B) (\<lambda>_. True) s) (pq_new (be_pq B)),
       bl_suspended = pq_new (be_pq B), bl_revisit = [] \<rparr>"

text \<open>
  The revisit loop on the store, the pending queue and the revisit queue, from the \<open>n\<close>-th
  reading of the clock; it returns the index of the next reading.
\<close>

fun revisit_loop ::
    "('s, 'q, 'id, 'ord, 'w) backlog_env \<Rightarrow> (nat \<Rightarrow> int) \<Rightarrow> nat \<Rightarrow> 's \<Rightarrow> 'q \<Rightarrow> 'id weighted_order list \<Rightarrow>
     (nat \<times> 's \<times> 'q \<times> 'id weighted_order list) option" where
  "revisit_loop B clock n s q [] = Some (n, s, q, [])"
| "revisit_loop B clock n s q (ord # rest) =
     (let elapsed_secs = clock n - wo_timestamp ord
      in if order_exec_time (be_conf B) < elapsed_secs
         then if elapsed_secs \<le> order_lifespan (be_conf B)
              then (case bs_get (be_store B) (wo_order ord) s of
                      None \<Rightarrow> None
                    | Some None \<Rightarrow> revisit_loop B clock (n + 1) s q rest
                    | Some (Some bo) \<Rightarrow> revisit_loop B clock (n + 1) s (push_pending B bo q) rest)
              else revisit_loop B clock (n + 1) (bs_remove (be_store B) (wo_order ord) s) q rest
         else Some (n + 1, s, q, ord # rest))"

text \<open>The outer option says whether the loop returns, the inner one whether it panics.\<close>

partial_function (option) try_pop_max_order ::
    "('s, 'q, 'id, 'ord, 'w) backlog_env \<Rightarrow> (nat \<Rightarrow> int) \<Rightarrow> nat \<Rightarrow> 's \<Rightarrow> 'q \<Rightarrow>
     ('ord option \<times> 's \<times> 'q) option option" where
  "try_pop_max_order B clock n s q =
     (case pq_pop (be_pq B) q of
        None \<Rightarrow> Some (Some (None, s, q))
      | Some ((ord, _), q') \<Rightarrow>
          if order_lifespan (be_conf B) < clock n - wo_timestamp ord
          then try_pop_max_order B clock (n + 1) (bs_remove (be_store B) (wo_order ord) s) q'
          else (case bs_get (be_store B) (wo_order ord) s of
                  None \<Rightarrow> Some None
                | Some (Some bo) \<Rightarrow> Some (Some (Some (bo_order bo), s, q'))
                | Some None \<Rightarrow> try_pop_max_order B clock (n + 1) s q'))"

definition backlog_try_pop ::
    "('s, 'q, 'id, 'ord, 'w) backlog_env \<Rightarrow> (nat \<Rightarrow> int) \<Rightarrow> nat \<Rightarrow> ('s, 'q, 'id) backlog \<Rightarrow>
     ('ord option \<times> ('s, 'q, 'id) backlog) option option" where
  "backlog_try_pop B clock rng b =
     (case revisit_loop B clock 0 (bl_store b) (bl_pending b) (bl_revisit b) of
        None \<Rightarrow> Some None
      | Some (n, s, pending, revisit) \<Rightarrow>
          if retry_suspended_prob (be_conf B) \<le> rng
          then map_option (map_option (\<lambda>(r, s', q).
                 (r, b\<lparr>bl_store := s', bl_pending := q, bl_revisit := revisit\<rparr>)))
                 (try_pop_max_order B clock n s pending)
          else map_option (map_option (\<lambda>(r, s', q).
                 (r, b\<lparr>bl_store := s', bl_pending := pending, bl_suspended := q, bl_revisit := revisit\<rparr>)))
                 (try_pop_max_order B clock n s (bl_suspended b)))"

fun remove_first :: "('a \<Rightarrow> bool) \<Rightarrow> 'a list \<Rightarrow> 'a list" where
  "remove_first p [] = []"
| "remove_first p (x # xs) = (if p x then xs else x # remove_first p xs)"

definition backlog_put ::
    "('s, 'q, 'id, 'ord, 'w) backlog_env \<Rightarrow> 'ord backlog_order \<Rightarrow> ('s, 'q, 'id) backlog \<Rightarrow> ('s, 'q, 'id) backlog" where
  "backlog_put B ord b =
     (let i = oo_ref (be_ord B) (bo_order ord);
          s = (if \<not> bs_exists (be_store B) i (bl_store b) then bs_put (be_store B) ord (bl_store b) else bl_store b);
          revisit = remove_first (\<lambda>wo. wo_order wo = i) (bl_revisit b);
          suspended = (case find (\<lambda>wo. wo_order (fst wo) = i) (pq_iter (be_pq B) (bl_suspended b)) of
                         Some element \<Rightarrow> pq_remove (be_pq B) (fst element) (bl_suspended b)
                       | None \<Rightarrow> bl_suspended b);
          pending = (if \<not> list_ex (\<lambda>wo. wo_order (fst wo) = i) (pq_iter (be_pq B) (bl_pending b))
                     then push_pending B ord (bl_pending b) else bl_pending b)
      in \<lparr> bl_store = s, bl_pending = pending, bl_suspended = suspended, bl_revisit = revisit \<rparr>)"

definition backlog_suspend ::
    "('s, 'q, 'id, 'ord, 'w) backlog_env \<Rightarrow> 'ord \<Rightarrow> ('s, 'q, 'id) backlog \<Rightarrow> (bool \<times> ('s, 'q, 'id) backlog) option" where
  "backlog_suspend B ord b =
     (let i = oo_ref (be_ord B) ord
      in if bs_exists (be_store B) i (bl_store b)
         then (case bs_get (be_store B) i (bl_store b) of
                 None \<Rightarrow> None
               | Some None \<Rightarrow> Some (False, b)
               | Some (Some bo) \<Rightarrow>
                   Some (True, b\<lparr>bl_suspended := pq_push (be_pq B)
                     \<lparr> wo_order = i, wo_timestamp = bo_timestamp bo \<rparr> (oo_weight (be_ord B) ord) (bl_suspended b)\<rparr>))
         else Some (False, b))"

definition backlog_check_later ::
    "('s, 'q, 'id, 'ord, 'w) backlog_env \<Rightarrow> 'ord backlog_order \<Rightarrow> ('s, 'q, 'id) backlog \<Rightarrow>
     bool \<times> ('s, 'q, 'id) backlog" where
  "backlog_check_later B ord b =
     (if bs_exists (be_store B) (oo_ref (be_ord B) (bo_order ord)) (bl_store b)
      then (True, b\<lparr>bl_revisit := bl_revisit b @ [weighted_of B ord]\<rparr>) else (False, b))"

definition backlog_recharge ::
    "('s, 'q, 'id, 'ord, 'w) backlog_env \<Rightarrow> 'ord \<Rightarrow> ('s, 'q, 'id) backlog \<Rightarrow> ('s, 'q, 'id) backlog option" where
  "backlog_recharge B ord b =
     (let i = oo_ref (be_ord B) ord
      in (case bs_get (be_store B) i (bl_store b) of
            None \<Rightarrow> None
          | Some None \<Rightarrow> Some b
          | Some (Some bo) \<Rightarrow>
              Some (b\<lparr>bl_pending := pq_push (be_pq B)
                \<lparr> wo_order = i, wo_timestamp = bo_timestamp bo \<rparr> (oo_weight (be_ord B) ord) (bl_pending b)\<rparr>)))"

definition backlog_exists :: "('s, 'q, 'id, 'ord, 'w) backlog_env \<Rightarrow> 'id \<Rightarrow> ('s, 'q, 'id) backlog \<Rightarrow> bool" where
  "backlog_exists B i b \<longleftrightarrow> bs_exists (be_store B) i (bl_store b)"

definition backlog_remove ::
    "('s, 'q, 'id, 'ord, 'w) backlog_env \<Rightarrow> 'id \<Rightarrow> ('s, 'q, 'id) backlog \<Rightarrow> ('s, 'q, 'id) backlog" where
  "backlog_remove B i b = b\<lparr>bl_store := bs_remove (be_store B) i (bl_store b)\<rparr>"

definition backlog_find_orders ::
    "('s, 'q, 'id, 'ord, 'w) backlog_env \<Rightarrow> ('ord \<Rightarrow> bool) \<Rightarrow> ('s, 'q, 'id) backlog \<Rightarrow> 'ord list" where
  "backlog_find_orders B f b = map bo_order (bs_find_orders (be_store B) f (bl_store b))"

end
