(* ===== verification/Backlog_Spec.thy ===== *)
theory Backlog_Spec
  imports Backlog Codec
begin

text \<open>
  What the backlogs promise: the hot backlog pops its stored orders best first within its
  capacity; the persistent one pops the best live order of the queue it draws from, drops only
  expired orders from the store, and loses no order that is due for a revisit.
\<close>

locale backlog_laws = q: priority_queue "be_pq B" + st: order_store "be_store B" "oo_ref (be_ord B)" ok orders
  for B :: "('s, 'q, 'id, 'ord, 'w::linorder) backlog_env"
    and ok :: "'s \<Rightarrow> bool" and orders :: "'s \<Rightarrow> 'id \<Rightarrow> 'ord backlog_order option"

definition expired :: "('s, 'q, 'id, 'ord, 'w) backlog_env \<Rightarrow> (nat \<Rightarrow> int) \<Rightarrow> 'id weighted_order \<Rightarrow> bool" where
  "expired B clock wo \<longleftrightarrow> (\<exists>i. order_lifespan (be_conf B) < clock i - wo_timestamp wo)"

definition fresh :: "('s, 'q, 'id, 'ord, 'w) backlog_env \<Rightarrow> (nat \<Rightarrow> int) \<Rightarrow> 'id weighted_order \<Rightarrow> bool" where
  "fresh B clock wo \<longleftrightarrow> (\<exists>i. clock i - wo_timestamp wo \<le> order_lifespan (be_conf B))"

text \<open>
  The outcome of popping from a queue: \<open>m\<close> and \<open>m'\<close> are the queue before and after, \<open>os\<close> and
  \<open>os'\<close> the stored orders, \<open>ex\<close> the popped entries that had expired.
\<close>

definition pop_outcome ::
    "('s, 'q, 'id, 'ord, 'w::linorder) backlog_env \<Rightarrow> (nat \<Rightarrow> int) \<Rightarrow> ('id weighted_order \<Rightarrow> 'w option) \<Rightarrow>
     ('id \<Rightarrow> 'ord backlog_order option) \<Rightarrow> 'id weighted_order set \<Rightarrow> 'ord option \<Rightarrow>
     ('id weighted_order \<Rightarrow> 'w option) \<Rightarrow> ('id \<Rightarrow> 'ord backlog_order option) \<Rightarrow> bool" where
  "pop_outcome B clock m os ex r m' os' \<longleftrightarrow>
     m' \<subseteq>\<^sub>m m \<and> ex \<subseteq> dom m - dom m' \<and> (\<forall>wo \<in> ex. expired B clock wo) \<and>
     os' = os |` (- wo_order ` ex) \<and>
     (case r of
        None \<Rightarrow> m' = (\<lambda>_. None) \<and> (\<forall>wo \<in> dom m - ex. os' (wo_order wo) = None)
      | Some ord \<Rightarrow>
          (\<exists>wo w bo. m wo = Some w \<and> wo \<notin> dom m' \<and> wo \<notin> ex \<and> fresh B clock wo \<and>
             os' (wo_order wo) = Some bo \<and> bo_order bo = ord \<and>
             (\<forall>wo' w'. m' wo' = Some w' \<longrightarrow> w' \<le> w) \<and>
             (\<forall>wo' \<in> dom m - dom m' - ex - {wo}. os' (wo_order wo') = None)))"

lemma pop_outcome_skip:
  assumes m1: "m1 = m(wo := None)" "wo \<in> dom m"
    and out: "pop_outcome B clock m1 os1 ex r m' os'"
    and step: "expired B clock wo \<and> os1 = os(wo_order wo := None) \<and> ex' = insert wo ex \<or>
      os (wo_order wo) = None \<and> os1 = os \<and> ex' = ex"
  shows "pop_outcome B clock m os ex' r m' os'"
proof -
  have sub: "m' \<subseteq>\<^sub>m m" "ex \<subseteq> dom m - dom m'" "wo \<notin> dom m'" "wo \<notin> ex"
    using out m1(1) by (auto simp: pop_outcome_def map_le_def dom_def split: if_splits) (metis fun_upd_apply option.distinct(1))+
  have dm: "dom m = insert wo (dom m1)" using m1 by auto
  have os': "os' = os |` (- wo_order ` ex')" "os' (wo_order wo) = None"
    using step out by (auto simp: pop_outcome_def restrict_map_def intro!: ext)
  have ex': "ex' \<subseteq> dom m - dom m'" "\<forall>wo \<in> ex'. expired B clock wo"
    using step sub m1(2) out by (auto simp: pop_outcome_def)
  show ?thesis
  proof (cases r)
    case None
    then have "m' = (\<lambda>_. None)" "\<forall>wo' \<in> dom m1 - ex. os' (wo_order wo') = None"
      using out by (auto simp: pop_outcome_def)
    moreover from this have "\<forall>wo' \<in> dom m - ex'. os' (wo_order wo') = None"
      using os'(2) step unfolding dm by blast
    ultimately show ?thesis using None sub(1) os'(1) ex' unfolding pop_outcome_def by simp
  next
    case (Some ord)
    then obtain wo1 w bo where 1: "m1 wo1 = Some w" "wo1 \<notin> dom m'" "wo1 \<notin> ex" "fresh B clock wo1"
      "os' (wo_order wo1) = Some bo" "bo_order bo = ord" "\<forall>wo' w'. m' wo' = Some w' \<longrightarrow> w' \<le> w"
      "\<forall>wo' \<in> dom m1 - dom m' - ex - {wo1}. os' (wo_order wo') = None"
      using out by (auto simp: pop_outcome_def)
    have "m wo1 = Some w" "wo1 \<noteq> wo" using 1(1) m1(1) by (auto split: if_splits)
    moreover have "\<forall>wo' \<in> dom m - dom m' - ex' - {wo1}. os' (wo_order wo') = None"
      using 1(8) os'(2) step unfolding dm by blast
    moreover have "wo1 \<notin> ex'" using 1(3) step \<open>wo1 \<noteq> wo\<close> by auto
    ultimately have "\<exists>wo w bo. m wo = Some w \<and> wo \<notin> dom m' \<and> wo \<notin> ex' \<and> fresh B clock wo \<and>
        os' (wo_order wo) = Some bo \<and> bo_order bo = ord \<and> (\<forall>wo' w'. m' wo' = Some w' \<longrightarrow> w' \<le> w) \<and>
        (\<forall>wo' \<in> dom m - dom m' - ex' - {wo}. os' (wo_order wo') = None)"
      using 1(2,4-7) by blast
    then show ?thesis using sub(1) os'(1) ex' Some unfolding pop_outcome_def by simp
  qed
qed

text \<open>
  The outcome of the revisit loop that took the entries \<open>past\<close> off the revisit queue.
\<close>

definition revisit_outcome ::
    "('s, 'q, 'id, 'ord, 'w) backlog_env \<Rightarrow> (nat \<Rightarrow> int) \<Rightarrow> ('id weighted_order \<Rightarrow> 'w option) \<Rightarrow>
     ('id \<Rightarrow> 'ord backlog_order option) \<Rightarrow> 'id weighted_order list \<Rightarrow>
     ('id weighted_order \<Rightarrow> 'w option) \<Rightarrow> ('id \<Rightarrow> 'ord backlog_order option) \<Rightarrow> bool" where
  "revisit_outcome B clock m os past m' os' \<longleftrightarrow>
     os' \<subseteq>\<^sub>m os \<and> dom m \<subseteq> dom m' \<and>
     (\<forall>wo \<in> set past. os' (wo_order wo) = None \<or>
        (\<exists>bo. os (wo_order wo) = Some bo \<and> weighted_of B bo \<in> dom m')) \<and>
     (\<forall>i \<in> dom os - dom os'. \<exists>wo \<in> set past. wo_order wo = i \<and> expired B clock wo)"

lemma revisit_outcome_Nil: "revisit_outcome B clock m os [] m os"
  by (simp add: revisit_outcome_def)

lemma map_le_None: "f \<subseteq>\<^sub>m g \<Longrightarrow> g a = None \<Longrightarrow> f a = None"
  by (cases "f a") (force simp: map_le_def)+

lemma revisit_outcome_gone:
  assumes "os (wo_order wo) = None" "revisit_outcome B clock m os past m' os'"
  shows "revisit_outcome B clock m os (wo # past) m' os'"
proof -
  have "os' (wo_order wo) = None" using assms map_le_None unfolding revisit_outcome_def by metis
  then show ?thesis using assms(2) unfolding revisit_outcome_def by auto
qed

lemma revisit_outcome_push:
  assumes bo: "os (wo_order wo) = Some bo" and out: "revisit_outcome B clock (m(weighted_of B bo \<mapsto> w)) os past m' os'"
  shows "revisit_outcome B clock m os (wo # past) m' os'"
proof -
  have "weighted_of B bo \<in> dom m'" "dom m \<subseteq> dom m'" using out by (auto simp: revisit_outcome_def)
  moreover have "\<forall>i \<in> dom os - dom os'. \<exists>wo' \<in> set (wo # past). wo_order wo' = i \<and> expired B clock wo'"
    using out unfolding revisit_outcome_def by (meson list.set_intros(2))
  ultimately show ?thesis using bo out unfolding revisit_outcome_def by simp
qed

lemma revisit_outcome_expired:
  assumes out: "revisit_outcome B clock m (os(wo_order wo := None)) past m' os'" and ex: "expired B clock wo"
  shows "revisit_outcome B clock m os (wo # past) m' os'"
proof -
  have le: "os' \<subseteq>\<^sub>m os(wo_order wo := None)" "dom m \<subseteq> dom m'" using out by (simp_all add: revisit_outcome_def)
  have none: "os' (wo_order wo) = None" using map_le_None [OF le(1)] by simp
  have "os' \<subseteq>\<^sub>m os" using le(1) none unfolding map_le_def by (metis domIff fun_upd_other)
  moreover have "\<forall>wo' \<in> set past. os' (wo_order wo') = None \<or> (\<exists>bo. os (wo_order wo') = Some bo \<and> weighted_of B bo \<in> dom m')"
    using out none unfolding revisit_outcome_def by (metis fun_upd_other)
  moreover have "\<forall>i \<in> dom os - dom os'. \<exists>wo' \<in> set (wo # past). wo_order wo' = i \<and> expired B clock wo'"
  proof
    fix i assume i: "i \<in> dom os - dom os'"
    show "\<exists>wo' \<in> set (wo # past). wo_order wo' = i \<and> expired B clock wo'"
    proof (cases "i = wo_order wo")
      case False
      then have "i \<in> dom (os(wo_order wo := None)) - dom os'" using i by simp
      then show ?thesis using out unfolding revisit_outcome_def by (meson list.set_intros(2))
    qed (use ex in simp)
  qed
  ultimately show ?thesis using le(2) none unfolding revisit_outcome_def by simp
qed

context backlog_laws
begin

lemma try_pop_max:
  "ok s \<Longrightarrow> \<exists>r s' q' ex. try_pop_max_order B clock n s q = Some (Some (r, s', q')) \<and> ok s' \<and>
     pop_outcome B clock (pq_map (be_pq B) q) (orders s) ex r (pq_map (be_pq B) q') (orders s')"
proof (induction "length (pq_iter (be_pq B) q)" arbitrary: q s n rule: less_induct)
  case less
  show ?case
  proof (cases "pq_pop (be_pq B) q")
    case None
    then have "pq_map (be_pq B) q = (\<lambda>_. None)" using q.pop_none by (simp add: pq_map_def)
    then have "pop_outcome B clock (pq_map (be_pq B) q) (orders s) {} None (pq_map (be_pq B) q) (orders s)"
      by (simp add: pop_outcome_def restrict_map_def)
    then show ?thesis using None less(2) by (subst try_pop_max_order.simps) auto
  next
    case (Some x)
    obtain wo w q' where x: "x = ((wo, w), q')" by (metis prod.exhaust)
    note pop = Some [unfolded x]
    note spec = q.pop_some [OF pop]
    have m: "pq_map (be_pq B) q' = (pq_map (be_pq B) q)(wo := None)" "wo \<in> dom (pq_map (be_pq B) q)"
      using spec by auto
    note ih = less(1) [OF q.pop_smaller [OF pop]]
    show ?thesis
    proof (cases "order_lifespan (be_conf B) < clock n - wo_timestamp wo")
      case True
      then have ex: "expired B clock wo" unfolding expired_def by blast
      note rm = st.remove [OF less(2), of "wo_order wo"]
      from ih [OF conjunct1 [OF rm], of "n + 1"] obtain r s' q'' ex where run:
        "try_pop_max_order B clock (n + 1) (bs_remove (be_store B) (wo_order wo) s) q' = Some (Some (r, s', q''))"
        "ok s'" and out: "pop_outcome B clock (pq_map (be_pq B) q') ((orders s)(wo_order wo := None)) ex r
          (pq_map (be_pq B) q'') (orders s')" using rm by auto
      have "pop_outcome B clock (pq_map (be_pq B) q) (orders s) (insert wo ex) r (pq_map (be_pq B) q'') (orders s')"
        by (rule pop_outcome_skip [OF m out]) (simp add: ex)
      moreover have "try_pop_max_order B clock n s q = Some (Some (r, s', q''))"
        using True pop run(1) by (subst try_pop_max_order.simps) simp
      ultimately show ?thesis using run(2) by blast
    next
      case False
      show ?thesis
      proof (cases "orders s (wo_order wo)")
        case None
        from ih [OF less(2), of "n + 1"] obtain r s' q'' ex where run:
          "try_pop_max_order B clock (n + 1) s q' = Some (Some (r, s', q''))" "ok s'"
          and out: "pop_outcome B clock (pq_map (be_pq B) q') (orders s) ex r (pq_map (be_pq B) q'') (orders s')"
          by blast
        have "pop_outcome B clock (pq_map (be_pq B) q) (orders s) ex r (pq_map (be_pq B) q'') (orders s')"
          by (rule pop_outcome_skip [OF m out]) (simp add: None)
        moreover have "try_pop_max_order B clock n s q = Some (Some (r, s', q''))"
          using False None pop run(1) st.get [OF less(2)] by (subst try_pop_max_order.simps) simp
        ultimately show ?thesis using run(2) by blast
      next
        case (Some bo)
        have "fresh B clock wo" using False unfolding fresh_def by (metis linorder_not_less)
        then have "pop_outcome B clock (pq_map (be_pq B) q) (orders s) {} (Some (bo_order bo))
            (pq_map (be_pq B) q') (orders s)"
          unfolding pop_outcome_def m(1) option.case
          using spec Some by (intro conjI exI [of _ wo] exI [of _ w] exI [of _ bo])
            (auto simp: restrict_map_def map_le_def split: if_splits)
        then show ?thesis
          using False Some pop st.get [OF less(2)] less(2) by (subst try_pop_max_order.simps) auto
      qed
    qed
  qed
qed

lemma revisit:
  "ok s \<Longrightarrow> \<exists>n' s' q' past rest. revisit_loop B clock n s q queue = Some (n', s', q', rest) \<and> ok s' \<and>
     queue = past @ rest \<and>
     revisit_outcome B clock (pq_map (be_pq B) q) (orders s) past (pq_map (be_pq B) q') (orders s')"
proof (induction queue arbitrary: n s q)
  case Nil
  then show ?case using revisit_outcome_Nil by fastforce
next
  case (Cons wo queue)
  let ?el = "clock n - wo_timestamp wo"
  consider (early) "\<not> order_exec_time (be_conf B) < ?el"
    | (due) "order_exec_time (be_conf B) < ?el" "?el \<le> order_lifespan (be_conf B)"
    | (old) "order_exec_time (be_conf B) < ?el" "order_lifespan (be_conf B) < ?el" by linarith
  then show ?case
  proof cases
    case early
    then have "revisit_loop B clock n s q (wo # queue) = Some (n + 1, s, q, wo # queue)" by (simp add: Let_def)
    then show ?thesis using revisit_outcome_Nil Cons(2) by (metis append_Nil)
  next
    case due
    show ?thesis
    proof (cases "orders s (wo_order wo)")
      case None
      have run: "revisit_loop B clock n s q (wo # queue) = revisit_loop B clock (n + 1) s q queue"
        using due None st.get [OF Cons(2)] by (simp add: Let_def)
      show ?thesis
        using Cons(1) [OF Cons(2), of "n + 1" q] revisit_outcome_gone [of "orders s", OF None] unfolding run
        by (metis append_Cons)
    next
      case (Some bo)
      have run: "revisit_loop B clock n s q (wo # queue) = revisit_loop B clock (n + 1) s (push_pending B bo q) queue"
        using due Some st.get [OF Cons(2)] by (simp add: Let_def)
      have "pq_map (be_pq B) (push_pending B bo q) =
          (pq_map (be_pq B) q)(weighted_of B bo \<mapsto> oo_weight (be_ord B) (bo_order bo))"
        by (simp add: push_pending_def q.map_push)
      with Cons(1) [OF Cons(2), of "n + 1" "push_pending B bo q"] revisit_outcome_push [of "orders s", OF Some]
      show ?thesis unfolding run by (metis append_Cons)
    qed
  next
    case old
    note rm = st.remove [OF Cons(2), of "wo_order wo"]
    have run: "revisit_loop B clock n s q (wo # queue) =
        revisit_loop B clock (n + 1) (bs_remove (be_store B) (wo_order wo) s) q queue"
      using old by (simp add: Let_def)
    have "expired B clock wo" using old(2) unfolding expired_def by blast
    with Cons(1) [OF conjunct1 [OF rm], of "n + 1" q] revisit_outcome_expired show ?thesis
      unfolding run conjunct2 [OF rm] by (metis append_Cons)
  qed
qed

lemma backlog_pop:
  assumes ok: "ok (bl_store b)"
  shows "\<exists>n s1 q1 past r b'.
     revisit_loop B clock 0 (bl_store b) (bl_pending b) (bl_revisit b) = Some (n, s1, q1, bl_revisit b') \<and>
     bl_revisit b = past @ bl_revisit b' \<and>
     revisit_outcome B clock (pq_map (be_pq B) (bl_pending b)) (orders (bl_store b)) past
       (pq_map (be_pq B) q1) (orders s1) \<and>
     backlog_try_pop B clock rng b = Some (Some (r, b')) \<and> ok (bl_store b') \<and>
     (\<exists>ex. if retry_suspended_prob (be_conf B) \<le> rng
        then pop_outcome B clock (pq_map (be_pq B) q1) (orders s1) ex r
               (pq_map (be_pq B) (bl_pending b')) (orders (bl_store b')) \<and> bl_suspended b' = bl_suspended b
        else pop_outcome B clock (pq_map (be_pq B) (bl_suspended b)) (orders s1) ex r
               (pq_map (be_pq B) (bl_suspended b')) (orders (bl_store b')) \<and> bl_pending b' = q1)"
proof -
  from revisit [OF ok, of clock 0 "bl_pending b" "bl_revisit b"] obtain n s1 q1 past rest where rv:
    "revisit_loop B clock 0 (bl_store b) (bl_pending b) (bl_revisit b) = Some (n, s1, q1, rest)" "ok s1"
    "bl_revisit b = past @ rest"
    "revisit_outcome B clock (pq_map (be_pq B) (bl_pending b)) (orders (bl_store b)) past (pq_map (be_pq B) q1) (orders s1)"
    by blast
  show ?thesis
  proof (cases "retry_suspended_prob (be_conf B) \<le> rng")
    case True
    from try_pop_max [OF rv(2), of clock n q1] obtain r s' q' ex where
      "try_pop_max_order B clock n s1 q1 = Some (Some (r, s', q'))" "ok s'"
      "pop_outcome B clock (pq_map (be_pq B) q1) (orders s1) ex r (pq_map (be_pq B) q') (orders s')" by blast
    with rv True show ?thesis
      by (intro exI [of _ n] exI [of _ s1] exI [of _ q1] exI [of _ past] exI [of _ r]
          exI [of _ "b\<lparr>bl_store := s', bl_pending := q', bl_revisit := rest\<rparr>"])
        (auto simp: backlog_try_pop_def)
  next
    case False
    from try_pop_max [OF rv(2), of clock n "bl_suspended b"] obtain r s' q' ex where
      "try_pop_max_order B clock n s1 (bl_suspended b) = Some (Some (r, s', q'))" "ok s'"
      "pop_outcome B clock (pq_map (be_pq B) (bl_suspended b)) (orders s1) ex r (pq_map (be_pq B) q') (orders s')" by blast
    with rv False show ?thesis
      by (intro exI [of _ n] exI [of _ s1] exI [of _ q1] exI [of _ past] exI [of _ r]
          exI [of _ "b\<lparr>bl_store := s', bl_pending := q1, bl_suspended := q', bl_revisit := rest\<rparr>"])
        (auto simp: backlog_try_pop_def)
  qed
qed

end

context backlog_laws
begin

lemma put_again_put:
  assumes ok: "ok (bl_store b)"
    and m: "pq_map (be_pq B) (bl_pending b) = [\<lparr> wo_order = i, wo_timestamp = t0 \<rparr> \<mapsto> w]"
    and ref: "oo_ref (be_ord B) (bo_order bo) = i"
  shows "ok (bl_store (backlog_put B bo (backlog_remove B i b)))"
    and "orders (bl_store (backlog_put B bo (backlog_remove B i b))) = (orders (bl_store b))(i \<mapsto> bo)"
    and "bl_pending (backlog_put B bo (backlog_remove B i b)) = bl_pending b"
    and "bl_revisit (backlog_put B bo (backlog_remove B i b)) = remove_first (\<lambda>wo. wo_order wo = i) (bl_revisit b)"
proof -
  note rm = st.remove [OF ok, of i]
  have "\<not> bs_exists (be_store B) i (bs_remove (be_store B) i (bl_store b))"
    using st.exists_iff [OF conjunct1 [OF rm], of i] rm by simp
  then have s: "bl_store (backlog_put B bo (backlog_remove B i b)) = bs_put (be_store B) bo (bs_remove (be_store B) i (bl_store b))"
    by (simp add: backlog_put_def backlog_remove_def Let_def ref)
  show "ok (bl_store (backlog_put B bo (backlog_remove B i b)))"
    "orders (bl_store (backlog_put B bo (backlog_remove B i b))) = (orders (bl_store b))(i \<mapsto> bo)"
    using st.put [OF conjunct1 [OF rm], of bo] rm ref unfolding s by simp_all
  have "(\<lparr> wo_order = i, wo_timestamp = t0 \<rparr>, w) \<in> set (pq_iter (be_pq B) (bl_pending b))"
    using m by (simp add: q.iter_map)
  then have "list_ex (\<lambda>wo. wo_order (fst wo) = i) (pq_iter (be_pq B) (bl_pending b))"
    by (force simp: list_ex_iff)
  then show "bl_pending (backlog_put B bo (backlog_remove B i b)) = bl_pending b"
    by (simp add: backlog_put_def backlog_remove_def Let_def ref)
  show "bl_revisit (backlog_put B bo (backlog_remove B i b)) = remove_first (\<lambda>wo. wo_order wo = i) (bl_revisit b)"
    by (simp add: backlog_put_def backlog_remove_def Let_def ref)
qed

lemma put_again_stored:
  assumes "ok (bl_store b)" "pq_map (be_pq B) (bl_pending b) = [\<lparr> wo_order = i, wo_timestamp = t0 \<rparr> \<mapsto> w]"
    "oo_ref (be_ord B) (bo_order bo) = i"
  shows "orders (bl_store (backlog_put B bo (backlog_remove B i b))) i = Some bo"
  using put_again_put(2) [OF assms] by simp

lemma put_again_expires:
  assumes ok: "ok (bl_store b)" and m: "pq_map (be_pq B) (bl_pending b) = [\<lparr> wo_order = i, wo_timestamp = t0 \<rparr> \<mapsto> w]"
    and rv: "bl_revisit b = []" and ref: "oo_ref (be_ord B) (bo_order bo) = i"
    and old: "order_lifespan (be_conf B) < c - t0" and rng: "retry_suspended_prob (be_conf B) \<le> rng"
  shows "\<exists>b3. backlog_try_pop B (\<lambda>_. c) rng (backlog_put B bo (backlog_remove B i b)) = Some (Some (None, b3)) \<and>
    orders (bl_store b3) i = None"
proof -
  let ?b2 = "backlog_put B bo (backlog_remove B i b)" and ?wo = "\<lparr> wo_order = i, wo_timestamp = t0 \<rparr>"
  note put = put_again_put [OF ok m ref]
  have "bl_revisit ?b2 = []" using put(4) rv by simp
  then have "revisit_loop B (\<lambda>_. c) 0 (bl_store ?b2) (bl_pending ?b2) (bl_revisit ?b2) =
      Some (0, bl_store ?b2, bl_pending ?b2, [])" by simp
  with backlog_pop [OF put(1), of "\<lambda>_. c" rng] rng put(3) m obtain r b3 ex os where
    run: "backlog_try_pop B (\<lambda>_. c) rng ?b2 = Some (Some (r, b3))"
    and out: "pop_outcome B (\<lambda>_. c) [?wo \<mapsto> w] os ex r (pq_map (be_pq B) (bl_pending b3)) (orders (bl_store b3))"
    by auto
  have "\<not> fresh B (\<lambda>_. c) ?wo" using old by (simp add: fresh_def)
  then have r: "r = None" using out by (cases r) (auto simp: pop_outcome_def split: if_splits)
  have "orders (bl_store b3) i = None"
  proof (cases "?wo \<in> ex")
    case True
    then have "i \<in> wo_order ` ex" by force
    then show ?thesis using out by (simp add: pop_outcome_def restrict_map_def)
  next
    case False
    then show ?thesis using out r by (auto simp: pop_outcome_def)
  qed
  then show ?thesis using run r by blast
qed

end

subsection \<open>A reference instance\<close>

text \<open>Orders are words, weighed by their value; a timestamp is encoded by its sign and in unary.\<close>

definition ref_order_ops :: "(u64, u64, nat) order_ops" where
  "ref_order_ops = \<lparr> oo_ref = id, oo_weight = unat \<rparr>"

definition ref_order_codec :: "(u64, u64) order_codec" where
  "ref_order_codec = \<lparr> oc_ref = id, oc_id = u64_to_be_bytes,
     oc_order = (\<lambda>bo. u64_to_be_bytes (bo_order bo) @ (if bo_timestamp bo < 0 then 1 else 0) #
       replicate (nat \<bar>bo_timestamp bo\<bar>) 0),
     oc_order_dec = (\<lambda>bs. case drop 8 bs of
         [] \<Rightarrow> None
       | sg # un \<Rightarrow> Some \<lparr> bo_order = word_of_nat (nat_be (take 8 bs)),
           bo_timestamp = (if sg = 1 then - int (length un) else int (length un)) \<rparr>) \<rparr>"

interpretation reforders: order_rocks assoc_rocks ref_order_codec
  by unfold_locales (simp_all add: ref_order_codec_def key_simps nat_be_u64)

definition ref_backlog :: "(unit assoc_store, (u64 weighted_order \<times> nat) list, u64, u64, nat) backlog_env" where
  "ref_backlog = \<lparr> be_store = rocks_backlog assoc_rocks ref_order_codec, be_pq = list_pq, be_ord = ref_order_ops,
     be_conf = \<lparr> order_lifespan = 10, order_exec_time = 5, retry_suspended_prob = 50 \<rparr> \<rparr>"

interpretation refbacklog: backlog_laws ref_backlog
  "rbs_ok assoc_rocks ref_order_codec" "rbs_orders assoc_rocks ref_order_codec"
proof -
  have "oo_ref ref_order_ops = oc_ref ref_order_codec" by (simp add: ref_order_ops_def ref_order_codec_def)
  then show "backlog_laws ref_backlog (rbs_ok assoc_rocks ref_order_codec) (rbs_orders assoc_rocks ref_order_codec)"
    using reforders.rocks_backlog_laws listpq.priority_queue_axioms
    by (simp add: backlog_laws_def ref_backlog_def)
qed

lemma ref_store_ok: "rbs_ok assoc_rocks ref_order_codec empty_store"
  by (simp add: rbs_ok_def get_empty_store)

subsection \<open>The properties\<close>

text \<open>
  The hot backlog is a bounded priority store. Its capacity and its stored orders always add
  up to the initial capacity, whatever is put, removed, popped or soft-evicted; a pop always
  returns, takes out a stored order that no other stored order outweighs, and answers nothing
  only when no order is stored, although removed orders linger in the queue.
\<close>
theorem hot_backlog_pops_best:
  assumes "priority_queue pq" and "hot_inv pq oo n b" and "n < 2 ^ 32"
  shows "hot_inv pq oo n (hb_put pq oo ord b) \<and> hot_inv pq oo n (hb_remove i b) \<and>
     hot_inv pq oo n (hb_soft_evict i b) \<and>
     (\<exists>r b'. hb_try_pop pq b = Some (r, b') \<and> hot_inv pq oo n b' \<and>
       (case r of
          None \<Rightarrow> hb_store b = (\<lambda>_. None) \<and> hb_store b' = (\<lambda>_. None)
        | Some ord \<Rightarrow> hb_store b (oo_ref oo ord) = Some ord \<and>
            hb_store b' = (hb_store b)(oo_ref oo ord := None) \<and>
            (\<forall>i ord'. hb_store b i = Some ord' \<longrightarrow> oo_weight oo ord' \<le> oo_weight oo ord)))"
  using priority_queue.hot_inv_put [OF assms(1,2)] priority_queue.hot_inv_remove [OF assms(1-3)]
    priority_queue.hot_inv_soft_evict [OF assms(1,2)] priority_queue.hot_try_pop [OF assms(1-3)] by blast

theorem hot_backlog_pops_best_witness:
  "hot_inv list_pq ref_order_ops 2
     (hb_remove 5 (hb_put list_pq ref_order_ops 7 (hb_put list_pq ref_order_ops 5 (hb_new list_pq 2))))"
proof -
  note step = hot_backlog_pops_best [OF listpq.priority_queue_axioms, of ref_order_ops 2]
  have 0: "hot_inv list_pq ref_order_ops 2 (hb_new list_pq 2)"
    using listpq.hot_inv_new [of ref_order_ops 2] by simp
  from step [OF 0, of 5] have 1: "hot_inv list_pq ref_order_ops 2 (hb_put list_pq ref_order_ops 5 (hb_new list_pq 2))"
    by simp
  from step [OF 1, of 7] have 2: "hot_inv list_pq ref_order_ops 2
      (hb_put list_pq ref_order_ops 7 (hb_put list_pq ref_order_ops 5 (hb_new list_pq 2)))" by simp
  from step [OF 2, of _ 5] show ?thesis by simp
qed

text \<open>
  C29. The persistent backlog pops the best live order. The call always returns and never panics.
  First the orders due for a revisit, from the front of the revisit queue, go back to the pending
  queue if they are still stored, and only expired ones are deleted from the store. Then, from
  the queue chosen by the random number, it answers an order that is stored and not expired;
  every entry of greater weight was expired, and is deleted from the store, or no longer stored;
  it answers nothing only when no entry of that queue is live. All other stored orders stay.
\<close>
theorem backlog_pops_best_live:
  assumes "backlog_laws B ok orders" and "ok (bl_store b)"
  shows "\<exists>n s1 q1 past r b'.
     revisit_loop B clock 0 (bl_store b) (bl_pending b) (bl_revisit b) = Some (n, s1, q1, bl_revisit b') \<and>
     bl_revisit b = past @ bl_revisit b' \<and>
     revisit_outcome B clock (pq_map (be_pq B) (bl_pending b)) (orders (bl_store b)) past
       (pq_map (be_pq B) q1) (orders s1) \<and>
     backlog_try_pop B clock rng b = Some (Some (r, b')) \<and> ok (bl_store b') \<and>
     (\<exists>ex. if retry_suspended_prob (be_conf B) \<le> rng
        then pop_outcome B clock (pq_map (be_pq B) q1) (orders s1) ex r
               (pq_map (be_pq B) (bl_pending b')) (orders (bl_store b')) \<and> bl_suspended b' = bl_suspended b
        else pop_outcome B clock (pq_map (be_pq B) (bl_suspended b)) (orders s1) ex r
               (pq_map (be_pq B) (bl_suspended b')) (orders (bl_store b')) \<and> bl_pending b' = q1)"
  by (rule backlog_laws.backlog_pop [OF assms])

theorem backlog_pops_best_live_witness:
  "\<exists>r b'. backlog_try_pop ref_backlog (\<lambda>_. 3) 70
     (backlog_put ref_backlog \<lparr> bo_order = 4, bo_timestamp = 1 \<rparr> (backlog_new ref_backlog empty_store)) = Some (Some (r, b'))"
proof -
  have "rbs_ok assoc_rocks ref_order_codec (bl_store
      (backlog_put ref_backlog \<lparr> bo_order = 4, bo_timestamp = 1 \<rparr> (backlog_new ref_backlog empty_store)))"
    using refbacklog.st.put [OF ref_store_ok] ref_store_ok by (simp add: backlog_put_def backlog_new_def Let_def)
  then show ?thesis
    using backlog_pops_best_live [OF refbacklog.backlog_laws_axioms, where clock = "\<lambda>_. 3" and rng = 70] by blast
qed

text \<open>
  An order that is removed and put again inherits the age of the removed one: removing leaves
  the entry in the pending queue, putting finds it there and keeps its old timestamp, so the next
  pop deletes the order from the store as expired however recent it is.
\<close>
theorem order_put_again_expires_early:
  assumes "backlog_laws B ok orders" and "ok (bl_store b)"
    and "pq_map (be_pq B) (bl_pending b) = [\<lparr> wo_order = i, wo_timestamp = t0 \<rparr> \<mapsto> w]" "bl_revisit b = []"
    and "oo_ref (be_ord B) (bo_order bo) = i" "order_lifespan (be_conf B) < c - t0"
    and "retry_suspended_prob (be_conf B) \<le> rng"
  shows "let b2 = backlog_put B bo (backlog_remove B i b)
     in orders (bl_store b2) i = Some bo \<and>
        (\<exists>b3. backlog_try_pop B (\<lambda>_. c) rng b2 = Some (Some (None, b3)) \<and> orders (bl_store b3) i = None)"
  unfolding Let_def
  using backlog_laws.put_again_stored [OF assms(1-3,5)] backlog_laws.put_again_expires [OF assms] by blast

theorem order_put_again_expires_early_witness:
  "let b = backlog_put ref_backlog \<lparr> bo_order = 4, bo_timestamp = 1 \<rparr> (backlog_new ref_backlog empty_store);
       b2 = backlog_put ref_backlog \<lparr> bo_order = 4, bo_timestamp = 20 \<rparr> (backlog_remove ref_backlog 4 b)
   in rbs_orders assoc_rocks ref_order_codec (bl_store b2) 4 = Some \<lparr> bo_order = 4, bo_timestamp = 20 \<rparr> \<and>
      (\<exists>b3. backlog_try_pop ref_backlog (\<lambda>_. 20) 70 b2 = Some (Some (None, b3)) \<and>
         rbs_orders assoc_rocks ref_order_codec (bl_store b3) 4 = None)"
proof -
  let ?b = "backlog_put ref_backlog \<lparr> bo_order = 4, bo_timestamp = 1 \<rparr> (backlog_new ref_backlog empty_store)"
  have ok: "rbs_ok assoc_rocks ref_order_codec (bl_store ?b)"
    using refbacklog.st.put [OF ref_store_ok] ref_store_ok by (simp add: backlog_put_def backlog_new_def Let_def)
  have new: "backlog_new ref_backlog empty_store =
      \<lparr> bl_store = empty_store, bl_pending = [], bl_suspended = [], bl_revisit = [] \<rparr>"
  proof -
    have "bs_find_orders (be_store ref_backlog) (\<lambda>_. True) empty_store = []"
      using refbacklog.st.find [OF ref_store_ok, of "\<lambda>_. True"] by (simp add: rbs_orders_def get_empty_store)
    then show ?thesis by (simp add: backlog_new_def ref_backlog_def list_pq_def)
  qed
  have "pq_map (be_pq ref_backlog) (bl_pending ?b) = [\<lparr> wo_order = 4, wo_timestamp = 1 \<rparr> \<mapsto> 4] \<and> bl_revisit ?b = []"
    unfolding new by (simp add: backlog_put_def Let_def push_pending_def weighted_of_def ref_backlog_def
        list_pq_def ref_order_ops_def pq_map_def)
  then show ?thesis
    using ok order_put_again_expires_early [OF refbacklog.backlog_laws_axioms, of ?b 4 1 4
        "\<lparr> bo_order = 4, bo_timestamp = 20 \<rparr>" 20 70]
    by (simp add: ref_backlog_def ref_order_ops_def Let_def)
qed

end
