(* ===== verification/Lb_Types.thy ===== *)
theory Lb_Types
  imports Complex_Main Prelude
begin

text \<open>
  The vocabulary of the liquidity book, packages/bloom-offchain/src/execution_engine/
  liquidity_book: sides (side.rs), prices (types.rs), time bounds (time.rs), price ranges
  (state/price_range.rs), weights (weight.rs), and the interfaces of takers (market_taker.rs) and
  makers (market_maker.rs). A \<open>Ratio<u128>\<close> is the rational number it stands for: a price has a
  nonzero denominator, and comparisons and arithmetic of ratios are exact as long as numerators
  and denominators fit 128 bits, which is assumed. Amounts are 64-bit words; a signed 64-bit
  integer is an integer, reduced into range where the code can overflow.
\<close>

type_synonym price = rat

subsection \<open>Sides\<close>

datatype side = Bid | Ask

datatype 'a on_side = OnBid 'a | OnAsk 'a

fun side_not :: "side \<Rightarrow> side" where
  "side_not Bid = Ask"
| "side_not Ask = Bid"

fun side_wrap :: "side \<Rightarrow> 'a \<Rightarrow> 'a on_side" where
  "side_wrap Bid x = OnBid x"
| "side_wrap Ask x = OnAsk x"

fun os_any :: "'a on_side \<Rightarrow> 'a" where
  "os_any (OnBid t) = t"
| "os_any (OnAsk t) = t"

fun os_unwrap :: "'a on_side \<Rightarrow> 'a" where
  "os_unwrap (OnBid t) = t"
| "os_unwrap (OnAsk t) = t"

fun os_marker :: "'a on_side \<Rightarrow> side" where
  "os_marker (OnBid _) = Bid"
| "os_marker (OnAsk _) = Ask"

fun os_map :: "('a \<Rightarrow> 'b) \<Rightarrow> 'a on_side \<Rightarrow> 'b on_side" where
  "os_map f (OnBid t) = OnBid (f t)"
| "os_map f (OnAsk t) = OnAsk (f t)"

lemma side_wrap_unwrap [simp]: "os_unwrap (side_wrap s x) = x" "os_marker (side_wrap s x) = s"
  by (cases s; simp)+

lemma side_not_neq [simp]: "side_not s \<noteq> s" "side_not (side_not s) = s"
  by (cases s; simp)+

subsection \<open>Prices\<close>

text \<open>In case of a bid the price in the order is base by quote and is inverted.\<close>

definition price_from :: "side \<Rightarrow> rat \<Rightarrow> price" where
  "price_from side p = (case side of Bid \<Rightarrow> inverse p | Ask \<Rightarrow> p)"

definition price_new :: "u64 \<Rightarrow> u64 \<Rightarrow> price option" where
  "price_new numer denom = (if denom \<noteq> 0 then Some (of_nat (unat numer) / of_nat (unat denom)) else None)"

definition price_zero :: price where
  "price_zero = 0"

fun overlaps :: "price on_side \<Rightarrow> price \<Rightarrow> bool" where
  "overlaps (OnBid this) that \<longleftrightarrow> that \<le> this"
| "overlaps (OnAsk this) that \<longleftrightarrow> this \<le> that"

fun better_than :: "price on_side \<Rightarrow> price \<Rightarrow> bool" where
  "better_than (OnBid this) that \<longleftrightarrow> that \<le> this"
| "better_than (OnAsk this) that \<longleftrightarrow> this \<le> that"

subsection \<open>Time bounds\<close>

datatype 'a time_bounds = Until 'a | After 'a | Within 'a 'a | NoBounds

fun contain :: "'a::linorder time_bounds \<Rightarrow> 'a \<Rightarrow> bool" where
  "contain (Until t) time_slot \<longleftrightarrow> time_slot \<le> t"
| "contain (After t) time_slot \<longleftrightarrow> time_slot \<le> t"
| "contain (Within t0 t1) time_slot \<longleftrightarrow> time_slot \<le> t0 \<and> time_slot \<le> t1"
| "contain NoBounds time_slot \<longleftrightarrow> True"

fun lower_bound :: "'a time_bounds \<Rightarrow> 'a option" where
  "lower_bound (After t) = Some t"
| "lower_bound (Within t0 _) = Some t0"
| "lower_bound (Until _) = None"
| "lower_bound NoBounds = None"

subsection \<open>Next states\<close>

datatype ('s, 't) next_state = Succ 's | Term 't

fun map_succ :: "('s \<Rightarrow> 's1) \<Rightarrow> ('s, 't) next_state \<Rightarrow> ('s1, 't) next_state" where
  "map_succ f (Succ s) = Succ (f s)"
| "map_succ f (Term t) = Term t"

fun next_fold :: "('s \<Rightarrow> 'r) \<Rightarrow> ('t \<Rightarrow> 'r) \<Rightarrow> ('s, 't) next_state \<Rightarrow> 'r" where
  "next_fold f1 f2 (Succ s) = f1 s"
| "next_fold f1 f2 (Term t) = f2 t"

text \<open>The terminal state of a take.\<close>

record terminal_take =
  remaining_input :: u64
  accumulated_output :: u64
  remaining_budget :: u64
  remaining_fee :: u64

text \<open>Addition of signed 64-bit integers, and the casts between them and unsigned ones.\<close>

definition i64_add :: "int \<Rightarrow> int \<Rightarrow> int" where
  "i64_add a b = signed_take_bit 63 (a + b)"

definition i64_of_u64 :: "u64 \<Rightarrow> int" where
  "i64_of_u64 w = sint w"

definition u64_of_i64 :: "int \<Rightarrow> u64" where
  "u64_of_i64 i = word_of_int i"

text \<open>The correction shared by takes and orders: the real change and the new budget.\<close>

definition corrected_budget :: "u64 \<Rightarrow> int \<Rightarrow> int \<times> u64" where
  "corrected_budget budget delta =
     (let budget_remainder = i64_of_u64 budget;
          corrected_remainder = i64_add budget_remainder delta;
          updated_budget_remainder = max corrected_remainder 0
      in (i64_add updated_budget_remainder (- budget_remainder), u64_of_i64 updated_budget_remainder))"

definition tt_with_budget_corrected :: "int \<Rightarrow> terminal_take \<Rightarrow> int \<times> terminal_take" where
  "tt_with_budget_corrected delta t =
     (let (real_delta, b) = corrected_budget (remaining_budget t) delta in (real_delta, t\<lparr>remaining_budget := b\<rparr>))"

definition tt_with_output_added :: "u64 \<Rightarrow> terminal_take \<Rightarrow> terminal_take" where
  "tt_with_output_added added_output t = t\<lparr>accumulated_output := accumulated_output t + added_output\<rparr>"

definition tt_with_fee_charged :: "u64 \<Rightarrow> terminal_take \<Rightarrow> terminal_take" where
  "tt_with_fee_charged charged t = t\<lparr>remaining_fee := remaining_fee t - charged\<rparr>"

subsection \<open>Checked arithmetic\<close>

definition checked_div :: "u64 \<Rightarrow> u64 \<Rightarrow> u64 option" where
  "checked_div a b = (if b = 0 then None else Some (a div b))"

definition checked_sub :: "u64 \<Rightarrow> u64 \<Rightarrow> u64 option" where
  "checked_sub a b = (if b \<le> a then Some (a - b) else None)"

definition saturating_mul :: "u64 \<Rightarrow> u64 \<Rightarrow> u64" where
  "saturating_mul a b = word_of_nat (min (unat a * unat b) (2 ^ 64 - 1))"

text \<open>Ratios of the program are in lowest terms or not, but always of a nonzero denominator.\<close>

definition linear_output_relative :: "u64 \<Rightarrow> rat \<Rightarrow> u64 option" where
  "linear_output_relative input price =
     (let out = \<lfloor>of_nat (unat input) * price\<rfloor> in if 0 \<le> out \<and> out < 2 ^ 64 then Some (word_of_int out) else None)"

subsection \<open>Takers and makers\<close>

text \<open>
  The traits as records of operations. \<open>tk_key\<close> stands for the ordering of takers: two takers
  compare as their keys do.
\<close>

record ('t, 'k, 'id, 'u) taker_ops =
  tk_key :: "'t \<Rightarrow> 'k"
  tk_id :: "'t \<Rightarrow> 'id"
  tk_side :: "'t \<Rightarrow> side"
  tk_input :: "'t \<Rightarrow> u64"
  tk_output :: "'t \<Rightarrow> u64"
  tk_price :: "'t \<Rightarrow> price"
  tk_operator_fee :: "u64 \<Rightarrow> 't \<Rightarrow> u64"
  tk_fee :: "'t \<Rightarrow> u64"
  tk_budget :: "'t \<Rightarrow> u64"
  tk_consumable_budget :: "'t \<Rightarrow> u64"
  tk_marginal_cost_hint :: "'t \<Rightarrow> 'u"
  tk_min_marginal_output :: "'t \<Rightarrow> u64"
  tk_time_bounds :: "'t \<Rightarrow> u64 time_bounds"
  tk_with_updated_time :: "u64 \<Rightarrow> 't \<Rightarrow> ('t, unit) next_state"
  tk_with_applied_trade :: "u64 \<Rightarrow> u64 \<Rightarrow> 't \<Rightarrow> ('t, terminal_take) next_state"
  tk_with_budget_corrected :: "int \<Rightarrow> 't \<Rightarrow> int \<times> 't"
  tk_with_fee_charged :: "u64 \<Rightarrow> 't \<Rightarrow> 't"
  tk_with_output_added :: "u64 \<Rightarrow> 't \<Rightarrow> 't"
  tk_try_terminate :: "'t \<Rightarrow> ('t, terminal_take) next_state"

record reserves =
  rs_base :: u64
  rs_quote :: u64

record available_liquidity =
  al_input :: u64
  al_output :: u64

record ('m, 'id, 'u) maker_ops =
  mk_id :: "'m \<Rightarrow> 'id"
  mk_static_price :: "'m \<Rightarrow> price"
  mk_real_price :: "u64 on_side \<Rightarrow> 'm \<Rightarrow> price option"
  mk_quality :: "'m \<Rightarrow> nat"
  mk_marginal_cost_hint :: "'m \<Rightarrow> 'u"
  mk_liquidity :: "'m \<Rightarrow> reserves"
  mk_available_liquidity_on_side :: "price on_side \<Rightarrow> 'm \<Rightarrow> available_liquidity option"
  mk_estimated_trade :: "u64 on_side \<Rightarrow> 'm \<Rightarrow> available_liquidity option"
  mk_is_active :: "'m \<Rightarrow> bool"
  mk_swap :: "u64 on_side \<Rightarrow> 'm \<Rightarrow> 'm"

text \<open>\<open>Next<Self, Void>\<close> has no terminal state, so a swap is its successor.\<close>

subsection \<open>Price ranges\<close>

record price_range =
  max_ask_price :: "price option"
  min_bid_price :: "price option"

definition default_price_range :: price_range where
  "default_price_range = \<lparr> max_ask_price = None, min_bid_price = None \<rparr>"

definition test_ask :: "('t, 'k, 'id, 'u) taker_ops \<Rightarrow> price_range \<Rightarrow> 't \<Rightarrow> 't option" where
  "test_ask T r ask =
     (case max_ask_price r of None \<Rightarrow> Some ask
      | Some max_ask \<Rightarrow> if tk_price T ask \<le> max_ask then Some ask else None)"

definition test_bid :: "('t, 'k, 'id, 'u) taker_ops \<Rightarrow> price_range \<Rightarrow> 't \<Rightarrow> 't option" where
  "test_bid T r bid =
     (case max_ask_price r of None \<Rightarrow> Some bid
      | Some min_bid \<Rightarrow> if min_bid \<le> tk_price T bid then Some bid else None)"

lemma test_bid_only_ask: "test_bid T (r\<lparr>min_bid_price := p\<rparr>) = test_bid T r"
  by (rule ext) (simp add: test_bid_def)

lemma test_ask_some: "test_ask T r x = Some y \<Longrightarrow> y = x"
  by (auto simp: test_ask_def split: option.splits if_splits)

lemma test_bid_some: "test_bid T r x = Some y \<Longrightarrow> y = x"
  by (auto simp: test_bid_def split: option.splits if_splits)

subsection \<open>Weights\<close>

text \<open>A higher fee weighs more; at equal fees the lower cost does.\<close>

definition weight_le :: "u64 \<times> 'u::linorder \<Rightarrow> u64 \<times> 'u \<Rightarrow> bool" where
  "weight_le = (\<lambda>(f1, c1) (f2, c2). f1 < f2 \<or> f1 = f2 \<and> c2 \<le> c1)"

definition taker_weight :: "('t, 'k, 'id, 'u) taker_ops \<Rightarrow> 't \<Rightarrow> u64 \<times> 'u" where
  "taker_weight T t = (tk_fee T t, tk_marginal_cost_hint T t)"

end
