(* ===== verification/Lb_State.thy ===== *)
theory Lb_State
  imports Lb_Types "HOL-Library.AList"
begin

text \<open>
  The state of the liquidity book, packages/bloom-offchain/src/execution_engine/liquidity_book/
  state/mod.rs and state/queries.rs: takers across the time axis, makers, and the state automaton
  Idle, PartialPreview, Preview with its commit and rollback. A B-tree set of takers is the list of
  its elements in strictly ascending order of their keys; a hash map of makers is an association
  list whose order stands for the iteration order.
\<close>

subsection \<open>Ordered sets\<close>

fun bts_insert :: "('t \<Rightarrow> 'k::linorder) \<Rightarrow> 't \<Rightarrow> 't list \<Rightarrow> 't list" where
  "bts_insert key x [] = [x]"
| "bts_insert key x (y # ys) =
     (if key x < key y then x # y # ys
      else if key x = key y then y # ys
      else y # bts_insert key x ys)"

definition bts_remove :: "('t \<Rightarrow> 'k::linorder) \<Rightarrow> 't \<Rightarrow> 't list \<Rightarrow> 't list" where
  "bts_remove key x ys = filter (\<lambda>y. key y \<noteq> key x) ys"

fun bts_first :: "'t list \<Rightarrow> 't option" where
  "bts_first [] = None"
| "bts_first (x # xs) = Some x"

abbreviation bts_ok :: "('t \<Rightarrow> 'k::linorder) \<Rightarrow> 't list \<Rightarrow> bool" where
  "bts_ok key xs \<equiv> sorted_wrt (<) (map key xs)"

lemma bts_insert_keys: "key ` set (bts_insert key x xs) = insert (key x) (key ` set xs)"
  by (induction key x xs rule: bts_insert.induct) (auto simp: image_iff)

lemma bts_insert_set: "set (bts_insert key x xs) \<subseteq> insert x (set xs)"
  by (induction key x xs rule: bts_insert.induct) auto

lemma bts_insert_mono: "set xs \<subseteq> set (bts_insert key x xs)"
  by (induction key x xs rule: bts_insert.induct) auto

lemma bts_insert_fresh: "key x \<notin> key ` set xs \<Longrightarrow> set (bts_insert key x xs) = insert x (set xs)"
  by (induction key x xs rule: bts_insert.induct) (auto simp: image_iff)

lemma bts_insert_ok: "bts_ok key xs \<Longrightarrow> bts_ok key (bts_insert key x xs)"
proof (induction key x xs rule: bts_insert.induct)
  case (2 key x y ys)
  have "key y < key z" if "z \<in> set (bts_insert key x ys)" "\<not> key x < key y" "key x \<noteq> key y" for z
    using bts_insert_set [of key x ys] that 2(2) by fastforce
  then show ?case using 2 by auto
qed simp

lemma bts_remove_ok: "bts_ok key xs \<Longrightarrow> bts_ok key (bts_remove key x xs)"
  by (simp add: bts_remove_def sorted_wrt_map sorted_wrt_filter)

lemma bts_remove_set: "set (bts_remove key x xs) = {y \<in> set xs. key y \<noteq> key x}"
  by (auto simp: bts_remove_def)

lemma bts_inj: "bts_ok key xs \<Longrightarrow> x \<in> set xs \<Longrightarrow> y \<in> set xs \<Longrightarrow> key x = key y \<Longrightarrow> x = y"
  by (auto simp: strict_sorted_iff distinct_map dest: inj_onD)

text \<open>A sorted list is determined by its elements.\<close>

lemma bts_unique:
  assumes "bts_ok key xs" "bts_ok key ys" "set xs = set ys"
  shows "xs = ys"
proof -
  have "map key xs = map key ys"
    using assms by (intro sorted_distinct_set_unique) (simp_all add: strict_sorted_iff)
  moreover have "inj_on key (set xs)" using bts_inj [OF assms(1)] by (meson inj_onI)
  ultimately show ?thesis using assms(3) by (metis inj_on_map_eq_map Un_absorb)
qed

subsection \<open>Takers\<close>

record 't market_takers =
  mt_asks :: "'t list"
  mt_bids :: "'t list"

definition mt_new :: "'t market_takers" where
  "mt_new = \<lparr> mt_asks = [], mt_bids = [] \<rparr>"

definition mt_insert :: "('t, 'k::linorder, 'id, 'u) taker_ops \<Rightarrow> 't \<Rightarrow> 't market_takers \<Rightarrow> 't market_takers" where
  "mt_insert T fr m =
     (case tk_side T fr of
        Bid \<Rightarrow> m\<lparr>mt_bids := bts_insert (tk_key T) fr (mt_bids m)\<rparr>
      | Ask \<Rightarrow> m\<lparr>mt_asks := bts_insert (tk_key T) fr (mt_asks m)\<rparr>)"

definition mt_remove :: "('t, 'k::linorder, 'id, 'u) taker_ops \<Rightarrow> 't \<Rightarrow> 't market_takers \<Rightarrow> 't market_takers" where
  "mt_remove T fr m =
     (case tk_side T fr of
        Bid \<Rightarrow> m\<lparr>mt_bids := bts_remove (tk_key T) fr (mt_bids m)\<rparr>
      | Ask \<Rightarrow> m\<lparr>mt_asks := bts_remove (tk_key T) fr (mt_asks m)\<rparr>)"

record 't chronology =
  ch_time_now :: u64
  ch_active :: "'t market_takers"
  ch_inactive :: "u64 \<Rightarrow> 't market_takers option"

definition ch_new :: "u64 \<Rightarrow> 't chronology" where
  "ch_new time_now = \<lparr> ch_time_now = time_now, ch_active = mt_new, ch_inactive = (\<lambda>_. None) \<rparr>"

definition advance_side ::
    "('t, 'k::linorder, 'id, 'u) taker_ops \<Rightarrow> u64 \<Rightarrow> 't list \<Rightarrow> 't list \<Rightarrow> 't list" where
  "advance_side T new_time frs acc =
     fold (\<lambda>fr acc. case tk_with_updated_time T new_time fr of
         Succ next_fr \<Rightarrow> bts_insert (tk_key T) next_fr acc
       | Term _ \<Rightarrow> acc) frs acc"

definition ch_advance_clocks ::
    "('t, 'k::linorder, 'id, 'u) taker_ops \<Rightarrow> u64 \<Rightarrow> 't chronology \<Rightarrow> 't chronology" where
  "ch_advance_clocks T new_time c =
     (let new_slot = (case ch_inactive c new_time of Some m \<Rightarrow> m | None \<Rightarrow> mt_new)
      in \<lparr> ch_time_now = new_time,
           ch_active = \<lparr> mt_asks = advance_side T new_time (mt_asks (ch_active c)) (mt_asks new_slot),
                         mt_bids = advance_side T new_time (mt_bids (ch_active c)) (mt_bids new_slot) \<rparr>,
           ch_inactive = (ch_inactive c)(new_time := None) \<rparr>)"

text \<open>The entry of the inactive takers that become active at a given time.\<close>

definition inactive_insert ::
    "('t, 'k::linorder, 'id, 'u) taker_ops \<Rightarrow> u64 \<Rightarrow> 't \<Rightarrow> (u64 \<Rightarrow> 't market_takers option) \<Rightarrow>
     u64 \<Rightarrow> 't market_takers option" where
  "inactive_insert T time fr inactive =
     (case inactive time of
        None \<Rightarrow> inactive(time \<mapsto> mt_insert T fr mt_new)
      | Some m \<Rightarrow> inactive(time \<mapsto> mt_insert T fr m))"

definition ch_remove_fragment ::
    "('t, 'k::linorder, 'id, 'u) taker_ops \<Rightarrow> 't \<Rightarrow> 't chronology \<Rightarrow> 't chronology" where
  "ch_remove_fragment T fr c =
     (case lower_bound (tk_time_bounds T fr) of
        Some lb \<Rightarrow>
          if ch_time_now c < lb
          then (case ch_inactive c lb of
                  Some m \<Rightarrow> c\<lparr>ch_inactive := (ch_inactive c)(lb \<mapsto> mt_remove T fr m)\<rparr>
                | None \<Rightarrow> c)
          else c\<lparr>ch_active := mt_remove T fr (ch_active c)\<rparr>
      | None \<Rightarrow> c\<lparr>ch_active := mt_remove T fr (ch_active c)\<rparr>)"

definition ch_add_fragment ::
    "('t, 'k::linorder, 'id, 'u) taker_ops \<Rightarrow> 't \<Rightarrow> 't chronology \<Rightarrow> 't chronology" where
  "ch_add_fragment T fr c =
     (case lower_bound (tk_time_bounds T fr) of
        Some lb \<Rightarrow>
          if ch_time_now c < lb
          then c\<lparr>ch_inactive := inactive_insert T lb fr (ch_inactive c)\<rparr>
          else c\<lparr>ch_active := mt_insert T fr (ch_active c)\<rparr>
      | None \<Rightarrow> c\<lparr>ch_active := mt_insert T fr (ch_active c)\<rparr>)"

subsection \<open>Makers\<close>

record ('m, 'id) market_makers =
  mm_values :: "('id \<times> 'm) list"
  mm_quality_index :: "nat \<Rightarrow> 'id option"

definition mm_new :: "('m, 'id) market_makers" where
  "mm_new = \<lparr> mm_values = [], mm_quality_index = (\<lambda>_. None) \<rparr>"

definition mm_update_pool :: "('m, 'id, 'u) maker_ops \<Rightarrow> 'm \<Rightarrow> ('m, 'id) market_makers \<Rightarrow> ('m, 'id) market_makers" where
  "mm_update_pool M pool ms =
     (let index = (case map_of (mm_values ms) (mk_id M pool) of
                     Some old_pool \<Rightarrow> (mm_quality_index ms)(mk_quality M old_pool := None)
                   | None \<Rightarrow> mm_quality_index ms)
      in \<lparr> mm_values = AList.update (mk_id M pool) pool (mm_values ms),
           mm_quality_index = index(mk_quality M pool \<mapsto> mk_id M pool) \<rparr>)"

definition mm_remove_pool :: "('m, 'id, 'u) maker_ops \<Rightarrow> 'm \<Rightarrow> ('m, 'id) market_makers \<Rightarrow> ('m, 'id) market_makers" where
  "mm_remove_pool M pool ms =
     \<lparr> mm_values = AList.delete (mk_id M pool) (mm_values ms),
       mm_quality_index = (mm_quality_index ms)(mk_quality M pool := None) \<rparr>"

subsection \<open>The automaton\<close>

record ('t, 'm, 'id) idle_state =
  id_takers :: "'t chronology"
  id_makers :: "('m, 'id) market_makers"

record ('t, 'm, 'id) partial_preview_state =
  pp_takers_preview :: "'t chronology"
  pp_consumed_active_takers :: "'t list"
  pp_stashed_active_takers :: "'t list"
  pp_makers_intact :: "('m, 'id) market_makers"
  pp_makers_preview :: "('m, 'id) market_makers"

record ('t, 'm, 'id) preview_state =
  pv_takers_intact :: "'t chronology"
  pv_active_takers_preview :: "'t market_takers"
  pv_stashed_active_takers :: "'t list"
  pv_inactive_takers_changeset :: "(u64 \<times> 't) list"
  pv_makers_intact :: "('m, 'id) market_makers"
  pv_makers_preview :: "('m, 'id) market_makers"

datatype ('t, 'm, 'id) tlb_state =
    Idle "('t, 'm, 'id) idle_state"
  | PartialPreview "('t, 'm, 'id) partial_preview_state"
  | Preview "('t, 'm, 'id) preview_state"

datatype 't stashing_option = Stash "'t list" | Unstash

definition idle_new :: "u64 \<Rightarrow> ('t, 'm, 'id) idle_state" where
  "idle_new time_now = \<lparr> id_takers = ch_new time_now, id_makers = mm_new \<rparr>"

definition tlb_state_new :: "u64 \<Rightarrow> ('t, 'm, 'id) tlb_state" where
  "tlb_state_new time = Idle (idle_new time)"

text \<open>Reinsertion of takers into the active ones, in the order the list is taken.\<close>

definition reinsert ::
    "('t, 'k::linorder, 'id, 'u) taker_ops \<Rightarrow> 't list \<Rightarrow> 't chronology \<Rightarrow> 't chronology" where
  "reinsert T frs c = c\<lparr>ch_active := fold (mt_insert T) frs (ch_active c)\<rparr>"

definition take_out ::
    "('t, 'k::linorder, 'id, 'u) taker_ops \<Rightarrow> 't list \<Rightarrow> 't chronology \<Rightarrow> 't chronology" where
  "take_out T frs c = c\<lparr>ch_active := fold (mt_remove T) frs (ch_active c)\<rparr>"

definition pp_commit :: "('t, 'm, 'id) partial_preview_state \<Rightarrow> ('t, 'm, 'id) idle_state" where
  "pp_commit st = \<lparr> id_takers = pp_takers_preview st, id_makers = pp_makers_preview st \<rparr>"

definition pp_rollback ::
    "('t, 'k::linorder, 'id, 'u) taker_ops \<Rightarrow> 't stashing_option \<Rightarrow> ('t, 'm, 'id) partial_preview_state \<Rightarrow>
     ('t, 'm, 'id) tlb_state" where
  "pp_rollback T stashing_opt st =
     (let restored = reinsert T (rev (pp_consumed_active_takers st)) (pp_takers_preview st);
          (takers, stashed) =
            (case stashing_opt of
               Stash to_stash \<Rightarrow> (take_out T to_stash restored, pp_stashed_active_takers st @ to_stash)
             | Unstash \<Rightarrow> (reinsert T (pp_stashed_active_takers st) restored, []))
      in if stashed = [] then Idle \<lparr> id_takers = takers, id_makers = pp_makers_intact st \<rparr>
         else PartialPreview \<lparr> pp_takers_preview = takers, pp_consumed_active_takers = [],
                pp_stashed_active_takers = stashed, pp_makers_intact = pp_makers_intact st,
                pp_makers_preview = pp_makers_intact st \<rparr>)"

definition pv_commit ::
    "('t, 'k::linorder, 'id, 'u) taker_ops \<Rightarrow> ('t, 'm, 'id) preview_state \<Rightarrow> ('t, 'm, 'id) idle_state" where
  "pv_commit T st =
     (let inactive = fold (\<lambda>(time, t). inactive_insert T time t) (rev (pv_inactive_takers_changeset st))
            (ch_inactive (pv_takers_intact st));
          takers = (pv_takers_intact st)\<lparr>ch_active := pv_active_takers_preview st, ch_inactive := inactive\<rparr>
      in \<lparr> id_takers = reinsert T (pv_stashed_active_takers st) takers, id_makers = pv_makers_preview st \<rparr>)"

definition pv_rollback ::
    "('t, 'k::linorder, 'id, 'u) taker_ops \<Rightarrow> 't stashing_option \<Rightarrow> ('t, 'm, 'id) preview_state \<Rightarrow>
     ('t, 'm, 'id) tlb_state" where
  "pv_rollback T stashing_opt st =
     (let (takers, stashed) =
            (case stashing_opt of
               Stash to_stash \<Rightarrow> (take_out T to_stash (pv_takers_intact st), pv_stashed_active_takers st @ to_stash)
             | Unstash \<Rightarrow> (reinsert T (pv_stashed_active_takers st) (pv_takers_intact st), []))
      in if stashed = [] then Idle \<lparr> id_takers = takers, id_makers = pv_makers_intact st \<rparr>
         else PartialPreview \<lparr> pp_takers_preview = takers, pp_consumed_active_takers = [],
                pp_stashed_active_takers = stashed, pp_makers_intact = pv_makers_intact st,
                pp_makers_preview = pv_makers_intact st \<rparr>)"

fun tlb_commit ::
    "('t, 'k::linorder, 'id, 'u) taker_ops \<Rightarrow> ('t, 'm, 'id) tlb_state \<Rightarrow> ('t, 'm, 'id) tlb_state" where
  "tlb_commit T (PartialPreview st) = Idle (pp_commit st)"
| "tlb_commit T (Preview st) = Idle (pv_commit T st)"
| "tlb_commit T (Idle st) = Idle st"

fun tlb_rollback ::
    "('t, 'k::linorder, 'id, 'u) taker_ops \<Rightarrow> 't stashing_option \<Rightarrow> ('t, 'm, 'id) tlb_state \<Rightarrow>
     ('t, 'm, 'id) tlb_state" where
  "tlb_rollback T stashing_opt (PartialPreview st) = pp_rollback T stashing_opt st"
| "tlb_rollback T stashing_opt (Preview st) = pv_rollback T stashing_opt st"
| "tlb_rollback T stashing_opt (Idle st) = Idle st"

text \<open>
  The moves between states. Moving a state that is already a preview panics in the code; no
  operation does so.
\<close>

definition move_into_partial_preview :: "('t, 'm, 'id) idle_state \<Rightarrow> ('t, 'm, 'id) partial_preview_state" where
  "move_into_partial_preview st = \<lparr> pp_takers_preview = id_takers st, pp_consumed_active_takers = [],
     pp_stashed_active_takers = [], pp_makers_intact = id_makers st, pp_makers_preview = id_makers st \<rparr>"

fun move_into_preview ::
    "('t, 'k::linorder, 'id, 'u) taker_ops \<Rightarrow> ('t, 'm, 'id) tlb_state \<Rightarrow> ('t, 'm, 'id) preview_state option" where
  "move_into_preview T (Idle st) =
     Some \<lparr> pv_takers_intact = id_takers st, pv_active_takers_preview = ch_active (id_takers st),
       pv_stashed_active_takers = [], pv_inactive_takers_changeset = [],
       pv_makers_intact = id_makers st, pv_makers_preview = id_makers st \<rparr>"
| "move_into_preview T (PartialPreview st) =
     Some \<lparr> pv_takers_intact = reinsert T (rev (pp_consumed_active_takers st)) (pp_takers_preview st),
       pv_active_takers_preview = ch_active (pp_takers_preview st),
       pv_stashed_active_takers = pp_stashed_active_takers st, pv_inactive_takers_changeset = [],
       pv_makers_intact = pp_makers_intact st, pv_makers_preview = pp_makers_preview st \<rparr>"
| "move_into_preview T (Preview st) = None"

fun current_time :: "('t, 'm, 'id) tlb_state \<Rightarrow> u64" where
  "current_time (Idle st) = ch_time_now (id_takers st)"
| "current_time (PartialPreview st) = ch_time_now (pp_takers_preview st)"
| "current_time (Preview st) = ch_time_now (pv_takers_intact st)"

fun active_fragments :: "('t, 'm, 'id) tlb_state \<Rightarrow> 't market_takers" where
  "active_fragments (Idle st) = ch_active (id_takers st)"
| "active_fragments (PartialPreview st) = ch_active (pp_takers_preview st)"
| "active_fragments (Preview st) = pv_active_takers_preview st"

fun pools :: "('t, 'm, 'id) tlb_state \<Rightarrow> ('m, 'id) market_makers" where
  "pools (Idle st) = id_makers st"
| "pools (PartialPreview st) = pp_makers_preview st"
| "pools (Preview st) = pv_makers_preview st"

subsection \<open>Operations on the state\<close>

record lb_size =
  num_active_takers :: nat
  num_active_makers :: nat
  num_idle_takers :: nat
  num_idle_makers :: nat

definition mt_len :: "'t market_takers \<Rightarrow> nat" where
  "mt_len m = length (mt_asks m) + length (mt_bids m)"

fun tlb_size :: "('t, 'm, 'id) tlb_state \<Rightarrow> lb_size" where
  "tlb_size (Idle st) =
     \<lparr> num_active_takers = mt_len (ch_active (id_takers st)), num_active_makers = length (mm_values (id_makers st)),
       num_idle_takers = card (dom (ch_inactive (id_takers st))), num_idle_makers = 0 \<rparr>"
| "tlb_size (PartialPreview st) =
     \<lparr> num_active_takers = mt_len (ch_active (pp_takers_preview st)),
       num_active_makers = length (mm_values (pp_makers_preview st)),
       num_idle_takers = card (dom (ch_inactive (pp_takers_preview st))), num_idle_makers = 0 \<rparr>"
| "tlb_size (Preview st) =
     \<lparr> num_active_takers = mt_len (pv_active_takers_preview st),
       num_active_makers = length (mm_values (pv_makers_preview st)),
       num_idle_takers = card (dom (ch_inactive (pv_takers_intact st))) + length (pv_inactive_takers_changeset st),
       num_idle_makers = 0 \<rparr>"

text \<open>The least and the greatest element by a key, of the first and the last kind as the iterator methods.\<close>

fun min_by_key :: "('a \<Rightarrow> 'k::linorder) \<Rightarrow> 'a list \<Rightarrow> 'a option" where
  "min_by_key f [] = None"
| "min_by_key f (x # xs) =
     (case min_by_key f xs of None \<Rightarrow> Some x | Some y \<Rightarrow> Some (if f x \<le> f y then x else y))"

fun max_by_key :: "('a \<Rightarrow> 'k::linorder) \<Rightarrow> 'a list \<Rightarrow> 'a option" where
  "max_by_key f [] = None"
| "max_by_key f (x # xs) =
     (case max_by_key f xs of None \<Rightarrow> Some x | Some y \<Rightarrow> Some (if f y < f x then x else y))"

definition stashed_price_range ::
    "('t, 'k, 'id, 'u) taker_ops \<Rightarrow> 't list \<Rightarrow> price_range" where
  "stashed_price_range T stashed =
     \<lparr> max_ask_price = min_by_key id (map (tk_price T) (filter (\<lambda>tk. tk_side T tk = Ask) stashed)),
       min_bid_price = max_by_key id (map (tk_price T) (filter (\<lambda>tk. tk_side T tk = Bid) stashed)) \<rparr>"

fun allowed_price_range :: "('t, 'k, 'id, 'u) taker_ops \<Rightarrow> ('t, 'm, 'id) tlb_state \<Rightarrow> price_range" where
  "allowed_price_range T (Idle _) = default_price_range"
| "allowed_price_range T (PartialPreview st) = stashed_price_range T (pp_stashed_active_takers st)"
| "allowed_price_range T (Preview st) = stashed_price_range T (pv_stashed_active_takers st)"

definition best_taker_price ::
    "('t, 'k, 'id, 'u) taker_ops \<Rightarrow> side \<Rightarrow> ('t, 'm, 'id) tlb_state \<Rightarrow> price on_side option" where
  "best_taker_price T side st =
     (let side_store = (case side of Bid \<Rightarrow> mt_bids (active_fragments st) | Ask \<Rightarrow> mt_asks (active_fragments st))
      in map_option (\<lambda>fr. side_wrap side (tk_price T fr)) (bts_first side_store))"

fun pick_active_taker ::
    "('t market_takers \<Rightarrow> 't option \<times> 't market_takers) \<Rightarrow> ('t, 'm, 'id) tlb_state \<Rightarrow>
     't option \<times> ('t, 'm, 'id) tlb_state" where
  "pick_active_taker f (Idle st) =
     (let (res, active) = f (ch_active (id_takers st));
          st' = st\<lparr>id_takers := (id_takers st)\<lparr>ch_active := active\<rparr>\<rparr>
      in (case res of
            Some choice \<Rightarrow>
              (Some choice, PartialPreview ((move_into_partial_preview st')\<lparr>pp_consumed_active_takers := [choice]\<rparr>))
          | None \<Rightarrow> (None, Idle st')))"
| "pick_active_taker f (PartialPreview st) =
     (let (res, active) = f (ch_active (pp_takers_preview st));
          st' = st\<lparr>pp_takers_preview := (pp_takers_preview st)\<lparr>ch_active := active\<rparr>\<rparr>
      in (case res of
            Some choice \<Rightarrow>
              (Some choice, PartialPreview (st'\<lparr>pp_consumed_active_takers := pp_consumed_active_takers st @ [choice]\<rparr>))
          | None \<Rightarrow> (None, PartialPreview st')))"
| "pick_active_taker f (Preview st) =
     (let (res, active) = f (pv_active_takers_preview st)
      in (res, Preview (st\<lparr>pv_active_takers_preview := active\<rparr>)))"

definition try_pick_fr ::
    "('t, 'k::linorder, 'id, 'u) taker_ops \<Rightarrow> side \<Rightarrow> ('t \<Rightarrow> bool) \<Rightarrow> 't market_takers \<Rightarrow>
     't option \<times> 't market_takers" where
  "try_pick_fr T side test m =
     (case (case side of Bid \<Rightarrow> mt_bids m | Ask \<Rightarrow> mt_asks m) of
        [] \<Rightarrow> (None, m)
      | best_fr # rest \<Rightarrow>
          if test best_fr
          then (Some best_fr, case side of Bid \<Rightarrow> m\<lparr>mt_bids := rest\<rparr> | Ask \<Rightarrow> m\<lparr>mt_asks := rest\<rparr>)
          else (None, case side of Bid \<Rightarrow> m\<lparr>mt_bids := bts_insert (tk_key T) best_fr rest\<rparr>
                      | Ask \<Rightarrow> m\<lparr>mt_asks := bts_insert (tk_key T) best_fr rest\<rparr>))"

definition try_pick_taker ::
    "('t, 'k::linorder, 'id, 'u) taker_ops \<Rightarrow> side \<Rightarrow> ('t \<Rightarrow> bool) \<Rightarrow> ('t, 'm, 'id) tlb_state \<Rightarrow>
     't option \<times> ('t, 'm, 'id) tlb_state" where
  "try_pick_taker T side test st = pick_active_taker (try_pick_fr T side test) st"

definition pick_best_fr_either_from ::
    "('t, 'k::linorder, 'id, 'u::linorder) taker_ops \<Rightarrow> price option \<Rightarrow> 't market_takers \<Rightarrow>
     't option \<times> 't market_takers" where
  "pick_best_fr_either_from T index_price m =
     (let m' = \<lparr> mt_asks = tl (mt_asks m), mt_bids = tl (mt_bids m) \<rparr>
      in (case (bts_first (mt_bids m), bts_first (mt_asks m)) of
            (Some bid, Some ask) \<Rightarrow>
              let bid_is_underpriced = (case index_price of Some ip \<Rightarrow> tk_price T bid < ip | None \<Rightarrow> False);
                  ask_is_overpriced = (case index_price of Some ip \<Rightarrow> ip < tk_price T ask | None \<Rightarrow> False);
                  bid_is_heavier = weight_le (taker_weight T ask) (taker_weight T bid)
              in if bid_is_heavier \<and> \<not> bid_is_underpriced \<or> ask_is_overpriced
                 then (Some bid, m'\<lparr>mt_asks := bts_insert (tk_key T) ask (mt_asks m')\<rparr>)
                 else (Some ask, m'\<lparr>mt_bids := bts_insert (tk_key T) bid (mt_bids m')\<rparr>)
          | (Some any, None) \<Rightarrow> (Some any, m')
          | (None, Some any) \<Rightarrow> (Some any, m')
          | (None, None) \<Rightarrow> (None, m')))"

definition pick_best_fr_either ::
    "('t, 'k::linorder, 'id, 'u::linorder) taker_ops \<Rightarrow> price option \<Rightarrow> ('t, 'm, 'id) tlb_state \<Rightarrow>
     't option \<times> ('t, 'm, 'id) tlb_state" where
  "pick_best_fr_either T index_price st = pick_active_taker (pick_best_fr_either_from T index_price) st"

text \<open>\<open>choose_max_volume\<close> is \<open>_max_by_volume\<close>.\<close>

definition choose_max_volume :: "('t, 'k, 'id, 'u) taker_ops \<Rightarrow> 't \<Rightarrow> 't \<Rightarrow> price option \<Rightarrow> 't" where
  "choose_max_volume T ask bid spot_price =
     (let ask_vol = of_nat (unat (tk_input T ask));
          bid_vol = 1 / of_nat (unat (tk_input T bid)) * (case spot_price of Some p \<Rightarrow> p | None \<Rightarrow> tk_price T bid)
      in if bid_vol < ask_vol then ask else bid)"

definition max_by_distance_to_spot ::
    "('t, 'k::linorder, 'id, 'u) taker_ops \<Rightarrow> price \<Rightarrow> price_range \<Rightarrow> 't market_takers \<Rightarrow>
     't option \<times> 't market_takers" where
  "max_by_distance_to_spot T spot_price prange m =
     (let best_bid = Option.bind (bts_first (mt_bids m)) (test_bid T prange);
          best_ask = Option.bind (bts_first (mt_asks m)) (test_ask T prange);
          choice =
            (case (best_ask, best_bid) of
               (Some ask, Some bid) \<Rightarrow>
                 let distance_from_ask = spot_price - tk_price T ask;
                     distance_from_bid = (spot_price - tk_price T bid) * - 1
                 in if distance_from_bid < distance_from_ask then Some ask
                    else if distance_from_ask < distance_from_bid then Some bid
                    else Some (choose_max_volume T ask bid (Some spot_price))
             | (Some taker, _) \<Rightarrow> Some taker
             | (None, Some taker) \<Rightarrow> Some taker
             | (None, None) \<Rightarrow> None)
      in (choice, case choice of Some taker \<Rightarrow> mt_remove T taker m | None \<Rightarrow> m))"

fun pre_add_taker ::
    "('t, 'k::linorder, 'id, 'u) taker_ops \<Rightarrow> 't \<Rightarrow> ('t, 'm, 'id) tlb_state \<Rightarrow> ('t, 'm, 'id) tlb_state" where
  "pre_add_taker T taker st =
     (let time = current_time st;
          preview_st = (case st of Preview v \<Rightarrow> v | _ \<Rightarrow> the (move_into_preview T st))
      in Preview
          (case lower_bound (tk_time_bounds T taker) of
             Some lb \<Rightarrow>
               if time < lb
               then preview_st\<lparr>pv_inactive_takers_changeset := pv_inactive_takers_changeset preview_st @ [(lb, taker)]\<rparr>
               else preview_st\<lparr>pv_active_takers_preview := mt_insert T taker (pv_active_takers_preview preview_st)\<rparr>
           | None \<Rightarrow>
               preview_st\<lparr>pv_active_takers_preview := mt_insert T taker (pv_active_takers_preview preview_st)\<rparr>))"

definition pre_add_maker ::
    "('t, 'k::linorder, 'id, 'u) taker_ops \<Rightarrow> ('m, 'id, 'u) maker_ops \<Rightarrow> 'm \<Rightarrow> ('t, 'm, 'id) tlb_state \<Rightarrow>
     ('t, 'm, 'id) tlb_state" where
  "pre_add_maker T M pool st =
     (let preview_st = (case st of Preview v \<Rightarrow> v | _ \<Rightarrow> the (move_into_preview T st))
      in Preview (preview_st\<lparr>pv_makers_preview := mm_update_pool M pool (pv_makers_preview preview_st)\<rparr>))"

definition best_market_maker :: "('m, 'id, 'u) maker_ops \<Rightarrow> ('t, 'm, 'id) tlb_state \<Rightarrow> 'm option" where
  "best_market_maker M st = max_by_key (mk_quality M) (map snd (mm_values (pools st)))"

record fill_preview =
  fp_price :: price
  fp_input :: u64

definition dummy_swap :: "('m, 'id, 'u) maker_ops \<Rightarrow> u64 \<Rightarrow> side \<Rightarrow> 'm \<Rightarrow> ('id \<times> fill_preview) option" where
  "dummy_swap M demand side maker =
     map_option (\<lambda>real_price. (mk_id M maker, \<lparr> fp_price = real_price, fp_input = demand \<rparr>))
       (mk_real_price M (side_wrap side demand) maker)"

definition try_optimized_swap ::
    "('m, 'id, 'u) maker_ops \<Rightarrow> price \<Rightarrow> u64 \<Rightarrow> side \<Rightarrow> 'm \<Rightarrow> ('id \<times> fill_preview) option" where
  "try_optimized_swap M price demand side maker =
     Option.bind (mk_available_liquidity_on_side M (side_wrap side price) maker) (\<lambda>al.
       Option.bind (case side of Bid \<Rightarrow> price_new (al_input al) (al_output al)
                    | Ask \<Rightarrow> price_new (al_output al) (al_input al)) (\<lambda>absolute_price.
         if 0 < al_input al \<and> al_input al \<le> demand
         then Some (mk_id M maker, \<lparr> fp_price = absolute_price, fp_input = al_input al \<rparr>)
         else None))"

definition preselect_market_maker ::
    "('m, 'id, 'u) maker_ops \<Rightarrow> price \<Rightarrow> u64 \<Rightarrow> side \<Rightarrow> bool \<Rightarrow> ('t, 'm, 'id) tlb_state \<Rightarrow>
     ('id \<times> fill_preview) option" where
  "preselect_market_maker M price demand side optimized st =
     (let candidates = List.map_filter (\<lambda>p.
            if optimized
            then (case try_optimized_swap M price demand side p of
                    Some x \<Rightarrow> Some x | None \<Rightarrow> dummy_swap M demand side p)
            else dummy_swap M demand side p)
          (filter (mk_is_active M) (map snd (mm_values (pools st))))
      in (case side of
            Bid \<Rightarrow> min_by_key (\<lambda>(_, rp). fp_price rp) candidates
          | Ask \<Rightarrow> max_by_key (\<lambda>(_, rp). fp_price rp) candidates))"

text \<open>Picking a maker takes it out of the preview of makers only; its quality stays indexed.\<close>

fun pick_maker_by_id :: "'id \<Rightarrow> ('t, 'm, 'id) tlb_state \<Rightarrow> 'm option \<times> ('t, 'm, 'id) tlb_state" where
  "pick_maker_by_id pid (Idle st) =
     (let busy = move_into_partial_preview st; ms = pp_makers_preview busy
      in (map_of (mm_values ms) pid,
          PartialPreview (busy\<lparr>pp_makers_preview := ms\<lparr>mm_values := AList.delete pid (mm_values ms)\<rparr>\<rparr>)))"
| "pick_maker_by_id pid (PartialPreview st) =
     (let ms = pp_makers_preview st
      in (map_of (mm_values ms) pid,
          PartialPreview (st\<lparr>pp_makers_preview := ms\<lparr>mm_values := AList.delete pid (mm_values ms)\<rparr>\<rparr>)))"
| "pick_maker_by_id pid (Preview st) =
     (let ms = pv_makers_preview st
      in (map_of (mm_values ms) pid,
          Preview (st\<lparr>pv_makers_preview := ms\<lparr>mm_values := AList.delete pid (mm_values ms)\<rparr>\<rparr>)))"

end
