(* ===== verification/Lb_Core.thy ===== *)
theory Lb_Core
  imports Lb_State "HOL-Library.Monad_Syntax"
begin

text \<open>
  Recipes, packages/bloom-offchain/src/execution_engine/liquidity_book/core.rs: the transitions of
  takers and makers, the accumulation of a matchmaking attempt, its finalisation, the checks that
  make it a recipe, and the linking of a recipe to ledger outputs. \<open>None\<close> is a panic, an
  expectation of the code that does not hold; where a function of the code returns an option, its
  model returns an option of an option. A hash map is an association list in its order of
  iteration, a new or replaced entry coming last.
\<close>

subsection \<open>Transitions\<close>

datatype ('i, 'c, 't) trans = Trans (tr_target: 'i) (tr_result: "('c, 't) next_state")

definition trans_map :: "('c \<Rightarrow> 'b) \<Rightarrow> ('c, 'c, 't) trans \<Rightarrow> ('b, 'b, 't) trans" where
  "trans_map f tr = Trans (f (tr_target tr)) (map_succ f (tr_result tr))"

definition trans_map_target :: "('i \<Rightarrow> 'b) \<Rightarrow> ('i, 'c, 't) trans \<Rightarrow> ('b, 'c, 't) trans" where
  "trans_map_target f tr = Trans (f (tr_target tr)) (tr_result tr)"

definition trans_map_cont :: "('c \<Rightarrow> 'b) \<Rightarrow> ('i, 'c, 't) trans \<Rightarrow> ('i, 'b, 't) trans" where
  "trans_map_cont f tr = Trans (tr_target tr) (map_succ f (tr_result tr))"

definition combine :: "('i, 'c, 't) trans \<Rightarrow> ('i, 'c, 't) trans \<Rightarrow> ('i, 'c, 't) trans" where
  "combine this that = Trans (tr_target this) (tr_result that)"

text \<open>A maker has no terminal state: \<open>Void\<close> has no value, and the unit type stands for it.\<close>

type_synonym 't take_in_progress = "('t, 't, terminal_take) trans"
type_synonym 'm make_in_progress = "('m, 'm, unit) trans"

datatype ('t, 'b) bundled = Bundled (bd_entity: 't) (bd_bearer: 'b)

type_synonym ('t, 'b) take = "(('t, 'b) bundled, 't, terminal_take) trans"
type_synonym ('m, 'b) make = "(('m, 'b) bundled, 'm, unit) trans"

record excess =
  ex_base :: u64
  ex_quote :: u64

subsection \<open>Takes in progress\<close>

definition tip_removed_input :: "('t, 'k, 'id, 'u) taker_ops \<Rightarrow> 't take_in_progress \<Rightarrow> u64 option" where
  "tip_removed_input T tr =
     checked_sub (tk_input T (tr_target tr)) (next_fold (tk_input T) remaining_input (tr_result tr))"

definition tip_added_output :: "('t, 'k, 'id, 'u) taker_ops \<Rightarrow> 't take_in_progress \<Rightarrow> u64 option" where
  "tip_added_output T tr =
     checked_sub (next_fold (tk_output T) accumulated_output (tr_result tr)) (tk_output T (tr_target tr))"

definition take_finalized ::
    "('t, 'k, 'id, 'u) taker_ops \<Rightarrow> u64 \<Rightarrow> 't take_in_progress \<Rightarrow> 't take_in_progress option" where
  "take_finalized T excess tr =
     do {
       removed \<leftarrow> tip_removed_input T tr;
       let fee = tk_operator_fee T removed (tr_target tr);
       let budget = i64_of_u64 (tk_consumable_budget T (tr_target tr));
       Some (Trans (tr_target tr)
         (case tr_result tr of
            Succ next \<Rightarrow>
              tk_try_terminate T (snd (tk_with_budget_corrected T (- budget)
                (tk_with_fee_charged T fee (tk_with_output_added T excess next))))
          | Term t \<Rightarrow>
              Term (snd (tt_with_budget_corrected (- budget)
                (tt_with_fee_charged fee (tt_with_output_added excess t))))))
     }"

subsection \<open>Linked takes\<close>

definition take_added_output :: "('t, 'k, 'id, 'u) taker_ops \<Rightarrow> ('t, 'b) take \<Rightarrow> u64 option" where
  "take_added_output T tr =
     checked_sub (next_fold (tk_output T) accumulated_output (tr_result tr)) (tk_output T (bd_entity (tr_target tr)))"

definition take_removed_input :: "('t, 'k, 'id, 'u) taker_ops \<Rightarrow> ('t, 'b) take \<Rightarrow> u64 option" where
  "take_removed_input T tr =
     checked_sub (tk_input T (bd_entity (tr_target tr))) (next_fold (tk_input T) remaining_input (tr_result tr))"

definition take_consumed_fee :: "('t, 'k, 'id, 'u) taker_ops \<Rightarrow> ('t, 'b) take \<Rightarrow> u64 option" where
  "take_consumed_fee T tr =
     checked_sub (tk_fee T (bd_entity (tr_target tr))) (next_fold (tk_fee T) remaining_fee (tr_result tr))"

definition take_consumed_budget :: "('t, 'k, 'id, 'u) taker_ops \<Rightarrow> ('t, 'b) take \<Rightarrow> u64 option" where
  "take_consumed_budget T tr =
     checked_sub (tk_budget T (bd_entity (tr_target tr))) (next_fold (tk_budget T) remaining_budget (tr_result tr))"

text \<open>Corrections return the change of the consumed budget that was possible.\<close>

definition take_correct_consumed_budget ::
    "('t, 'k, 'id, 'u) taker_ops \<Rightarrow> int \<Rightarrow> ('t, 'b) take \<Rightarrow> int \<times> ('t, 'b) take" where
  "take_correct_consumed_budget T delta tr =
     (case tr_result tr of
        Succ next \<Rightarrow>
          (let (delta_budget, updated) = tk_with_budget_corrected T (- delta) next
           in (- delta_budget, Trans (tr_target tr) (Succ updated)))
      | Term t \<Rightarrow>
          (let (delta_budget, updated) = tt_with_budget_corrected (- delta) t
           in (- delta_budget, Trans (tr_target tr) (Term updated))))"

definition take_scale_consumed_budget ::
    "('t, 'k, 'id, 'u) taker_ops \<Rightarrow> u64 \<times> u64 \<Rightarrow> ('t, 'b) take \<Rightarrow> (int \<times> ('t, 'b) take) option" where
  "take_scale_consumed_budget T scale tr =
     do {
       old_val \<leftarrow> take_consumed_budget T tr;
       new_val \<leftarrow> checked_div (old_val * fst scale) (snd scale);
       let delta_consumed_budget = i64_add (i64_of_u64 new_val) (- i64_of_u64 old_val);
       Some (take_correct_consumed_budget T delta_consumed_budget tr)
     }"

subsection \<open>Makes\<close>

text \<open>Side, gain and loss of a maker, of its reserves before and after.\<close>

definition reserves_trade_side :: "reserves \<Rightarrow> reserves \<Rightarrow> side option" where
  "reserves_trade_side init succ =
     (if rs_base succ < rs_base init \<and> rs_quote init < rs_quote succ then Some Bid
      else if rs_base init < rs_base succ \<and> rs_quote succ < rs_quote init then Some Ask
      else None)"

definition reserves_gain :: "reserves \<Rightarrow> reserves \<Rightarrow> u64 on_side option" where
  "reserves_gain init succ =
     (case checked_sub (rs_base succ) (rs_base init) of
        Some b \<Rightarrow> Some (OnAsk b)
      | None \<Rightarrow> map_option OnBid (checked_sub (rs_quote succ) (rs_quote init)))"

definition reserves_loss :: "reserves \<Rightarrow> reserves \<Rightarrow> u64 on_side option" where
  "reserves_loss init succ =
     (case checked_sub (rs_base init) (rs_base succ) of
        Some b \<Rightarrow> Some (OnBid b)
      | None \<Rightarrow> map_option OnAsk (checked_sub (rs_quote init) (rs_quote succ)))"

definition mip_trade_side :: "('m, 'id, 'u) maker_ops \<Rightarrow> 'm make_in_progress \<Rightarrow> side option" where
  "mip_trade_side M tr = (case tr_result tr of
     Succ succ \<Rightarrow> reserves_trade_side (mk_liquidity M (tr_target tr)) (mk_liquidity M succ) | _ \<Rightarrow> None)"

definition mip_is_zero :: "('m, 'id, 'u) maker_ops \<Rightarrow> 'm make_in_progress \<Rightarrow> bool" where
  "mip_is_zero M tr \<longleftrightarrow> mip_trade_side M tr = None"

definition mip_gain :: "('m, 'id, 'u) maker_ops \<Rightarrow> 'm make_in_progress \<Rightarrow> u64 on_side option" where
  "mip_gain M tr = (case tr_result tr of
     Succ succ \<Rightarrow> reserves_gain (mk_liquidity M (tr_target tr)) (mk_liquidity M succ) | _ \<Rightarrow> None)"

definition mip_loss :: "('m, 'id, 'u) maker_ops \<Rightarrow> 'm make_in_progress \<Rightarrow> u64 on_side option" where
  "mip_loss M tr = (case tr_result tr of
     Succ succ \<Rightarrow> reserves_loss (mk_liquidity M (tr_target tr)) (mk_liquidity M succ) | _ \<Rightarrow> None)"

definition make_trade_side :: "('m, 'id, 'u) maker_ops \<Rightarrow> ('m, 'b) make \<Rightarrow> side option" where
  "make_trade_side M tr = (case tr_result tr of
     Succ succ \<Rightarrow> reserves_trade_side (mk_liquidity M (bd_entity (tr_target tr))) (mk_liquidity M succ)
   | _ \<Rightarrow> None)"

definition make_gain :: "('m, 'id, 'u) maker_ops \<Rightarrow> ('m, 'b) make \<Rightarrow> u64 option" where
  "make_gain M tr = (case tr_result tr of
     Succ succ \<Rightarrow> map_option os_unwrap
       (reserves_gain (mk_liquidity M (bd_entity (tr_target tr))) (mk_liquidity M succ))
   | _ \<Rightarrow> None)"

definition make_loss :: "('m, 'id, 'u) maker_ops \<Rightarrow> ('m, 'b) make \<Rightarrow> u64 option" where
  "make_loss M tr = (case tr_result tr of
     Succ succ \<Rightarrow> map_option os_unwrap
       (reserves_loss (mk_liquidity M (bd_entity (tr_target tr))) (mk_liquidity M succ))
   | _ \<Rightarrow> None)"

text \<open>Rebalancing replaces many swaps by one of the same input; what it gains is the excess.\<close>

definition make_finalized ::
    "('m, 'id, 'u) maker_ops \<Rightarrow> 'm make_in_progress \<Rightarrow> ('m make_in_progress \<times> excess) option option" where
  "make_finalized M tr =
     (case tr_result tr of
        Term _ \<Rightarrow> None
      | Succ next \<Rightarrow>
          Some (let target = tr_target tr;
                    target_reserves = mk_liquidity M target;
                    next_reserves = mk_liquidity M next
                in case checked_sub (rs_base next_reserves) (rs_base target_reserves) of
                     Some d_base \<Rightarrow>
                       (let rebalanced = mk_swap M (OnAsk d_base) target
                        in map_option (\<lambda>excess_quote. (Trans target (Succ rebalanced), \<lparr> ex_base = 0, ex_quote = excess_quote \<rparr>))
                             (checked_sub (rs_quote next_reserves) (rs_quote (mk_liquidity M rebalanced))))
                   | None \<Rightarrow>
                       do {
                         trade_input \<leftarrow> checked_sub (rs_quote next_reserves) (rs_quote target_reserves);
                         let rebalanced = mk_swap M (OnBid trade_input) target;
                         map_option (\<lambda>excess_base. (Trans target (Succ rebalanced), \<lparr> ex_base = excess_base, ex_quote = 0 \<rparr>))
                           (checked_sub (rs_base next_reserves) (rs_base (mk_liquidity M rebalanced)))
                       }))"

subsection \<open>Attempts\<close>

record ('t, 'm, 'id) final_recipe =
  fr_takes :: "('id \<times> 't take_in_progress) list"
  fr_makes :: "('id \<times> 'm make_in_progress) list"
  fr_ordering :: "'id list"

record ('t, 'm, 'id, 'u) matchmaking_attempt =
  ma_takes :: "('id \<times> 't take_in_progress) list"
  ma_makes :: "('id \<times> 'm make_in_progress) list"
  ma_ordering :: "'id list"
  ma_execution_units_consumed :: 'u
  ma_num_aggregated_makes :: nat

definition attempt_empty :: "('t, 'm, 'id, 'u::zero) matchmaking_attempt" where
  "attempt_empty = \<lparr> ma_takes = [], ma_makes = [], ma_ordering = [], ma_execution_units_consumed = 0,
     ma_num_aggregated_makes = 0 \<rparr>"

definition is_complete :: "('t, 'm, 'id, 'u) matchmaking_attempt \<Rightarrow> bool" where
  "is_complete a \<longleftrightarrow> 1 < length (ma_takes a) \<or> length (ma_takes a) = 1 \<and> 0 < length (ma_makes a)"

definition needs_rebalancing :: "('t, 'm, 'id, 'u) matchmaking_attempt \<Rightarrow> bool" where
  "needs_rebalancing a \<longleftrightarrow> 0 < ma_num_aggregated_makes a"

definition num_takes :: "('t, 'm, 'id, 'u) matchmaking_attempt \<Rightarrow> nat" where
  "num_takes a = length (ma_takes a)"

definition next_offered_chunk ::
    "('t, 'k, 'id, 'u) taker_ops \<Rightarrow> 't \<Rightarrow> ('t, 'm, 'id, 'u) matchmaking_attempt \<Rightarrow> u64 on_side" where
  "next_offered_chunk T taker a =
     (let initial_state = (case map_of (ma_takes a) (tk_id T taker) of Some tr \<Rightarrow> tr_target tr | None \<Rightarrow> taker);
          initial_chunk = tk_input T initial_state;
          chunk = (if 0 < initial_chunk then min initial_chunk (tk_input T taker) else tk_input T taker)
      in side_wrap (tk_side T taker) chunk)"

definition add_take ::
    "('t, 'k, 'id, 'u::plus) taker_ops \<Rightarrow> 't take_in_progress \<Rightarrow> ('t, 'm, 'id, 'u) matchmaking_attempt \<Rightarrow>
     ('t, 'm, 'id, 'u) matchmaking_attempt" where
  "add_take T taken a =
     (let sid = tk_id T (tr_target taken); rest = AList.delete sid (ma_takes a)
      in case map_of (ma_takes a) sid of
           None \<Rightarrow> a\<lparr>ma_execution_units_consumed :=
                      ma_execution_units_consumed a + tk_marginal_cost_hint T (tr_target taken),
                    ma_ordering := ma_ordering a @ [sid],
                    ma_takes := rest @ [(sid, taken)]\<rparr>
         | Some existing_transition \<Rightarrow> a\<lparr>ma_takes := rest @ [(sid, combine existing_transition taken)]\<rparr>)"

definition add_make ::
    "('m, 'id, 'u::plus) maker_ops \<Rightarrow> 'm make_in_progress \<Rightarrow> ('t, 'm, 'id, 'u) matchmaking_attempt \<Rightarrow>
     ('t, 'm, 'id, 'u) matchmaking_attempt" where
  "add_make M made a =
     (let sid = mk_id M (tr_target made); rest = AList.delete sid (ma_makes a)
      in case map_of (ma_makes a) sid of
           None \<Rightarrow> a\<lparr>ma_execution_units_consumed :=
                      ma_execution_units_consumed a + mk_marginal_cost_hint M (tr_target made),
                    ma_makes := rest @ [(sid, made)]\<rparr>
         | Some accumulated_trans \<Rightarrow>
             a\<lparr>ma_num_aggregated_makes := ma_num_aggregated_makes a + 1,
               ma_makes := rest @ [(sid, combine accumulated_trans made)]\<rparr>)"

text \<open>
  The two loops of the finalisation: makes give excess, and the first take of the matching side
  receives all of it.
\<close>

fun finalize_makes ::
    "('m, 'id, 'u) maker_ops \<Rightarrow> ('id \<times> 'm make_in_progress) list \<Rightarrow> excess \<Rightarrow>
     (('id \<times> 'm make_in_progress) list \<times> excess) option option" where
  "finalize_makes M [] acc = Some (Some ([], acc))"
| "finalize_makes M ((mid, made) # makes) acc =
     (case make_finalized M made of
        None \<Rightarrow> None
      | Some None \<Rightarrow> Some None
      | Some (Some (final_make, e)) \<Rightarrow>
          map_option (map_option (\<lambda>(fms, e'). ((mid, final_make) # fms, e')))
            (finalize_makes M makes \<lparr> ex_base = ex_base acc + ex_base e, ex_quote = ex_quote acc + ex_quote e \<rparr>))"

fun finalize_takes ::
    "('t, 'k, 'id, 'u) taker_ops \<Rightarrow> ('id \<times> 't take_in_progress) list \<Rightarrow> excess \<Rightarrow>
     (('id \<times> 't take_in_progress) list \<times> excess) option" where
  "finalize_takes T [] e = Some ([], e)"
| "finalize_takes T ((tid, taken) # takes) e =
     (let (excess, e') = (case tk_side T (tr_target taken) of
          Bid \<Rightarrow> (ex_base e, e\<lparr>ex_base := 0\<rparr>)
        | Ask \<Rightarrow> (ex_quote e, e\<lparr>ex_quote := 0\<rparr>))
      in do {
        final_take \<leftarrow> take_finalized T excess taken;
        (fts, rest) \<leftarrow> finalize_takes T takes e';
        Some ((tid, final_take) # fts, rest)
      })"

definition attempt_finalized ::
    "('t, 'k, 'id, 'u) taker_ops \<Rightarrow> ('m, 'id, 'u) maker_ops \<Rightarrow> ('t, 'm, 'id, 'u) matchmaking_attempt \<Rightarrow>
     ('t, 'm, 'id) final_recipe option option" where
  "attempt_finalized T M a =
     (case finalize_makes M (ma_makes a) \<lparr> ex_base = 0, ex_quote = 0 \<rparr> of
        None \<Rightarrow> None
      | Some None \<Rightarrow> Some None
      | Some (Some (makes, e)) \<Rightarrow>
          map_option (\<lambda>(takes, rest).
              if ex_base rest = 0 \<and> ex_quote rest = 0
              then Some \<lparr> fr_takes = takes, fr_makes = makes, fr_ordering = ma_ordering a \<rparr>
              else None)
            (finalize_takes T (ma_takes a) e))"

subsection \<open>Recipes\<close>

fun unsatisfied_of ::
    "('t, 'k, 'id, 'u) taker_ops \<Rightarrow> ('id \<times> 't take_in_progress) list \<Rightarrow> 't list option" where
  "unsatisfied_of T [] = Some []"
| "unsatisfied_of T ((_, apply) # takes) =
     do {
       added \<leftarrow> tip_added_output T apply;
       rest \<leftarrow> unsatisfied_of T takes;
       Some (if added < tk_min_marginal_output T (tr_target apply) then tr_target apply # rest else rest)
     }"

definition unsatisfied_fragments ::
    "('t, 'k, 'id, 'u) taker_ops \<Rightarrow> ('t, 'm, 'id) final_recipe \<Rightarrow> 't list option" where
  "unsatisfied_fragments T r = unsatisfied_of T (fr_takes r)"

type_synonym ('t, 'm) instruction = "'t take_in_progress + 'm make_in_progress"
type_synonym ('t, 'm) matchmaking_recipe = "('t, 'm) instruction list"

datatype downgrade_needed = DowngradeNeeded

definition base_take_to_make_ratio :: rat where
  "base_take_to_make_ratio = 1 / 2"

definition check_recipe_complexity ::
    "('t, 'k, 'id, 'u) taker_ops \<Rightarrow> u64 \<Rightarrow> ('t, 'm, 'id) final_recipe \<Rightarrow> bool" where
  "check_recipe_complexity T base_step_budget recipe =
     (let n_takes = length (fr_takes recipe); n_makes = length (fr_makes recipe)
      in if 0 < n_makes
         then let takes_to_makes = (of_nat n_takes :: rat) / of_nat n_makes;
                  base_budget = max base_step_budget 1;
                  total_budget = sum_list (map (\<lambda>(_, taken). tk_consumable_budget T (tr_target taken)) (fr_takes recipe));
                  budget_ratio = of_nat (unat total_budget) / of_nat (unat base_budget)
              in base_take_to_make_ratio \<le> takes_to_makes * budget_ratio
         else True)"

text \<open>
  Takes are put in the order they were added: each key is looked up and taken out of the map of
  positions, so a take without a position of its own is a panic. A single take is not looked up.
\<close>

fun take_positions ::
    "('t, 'k, 'id, 'u) taker_ops \<Rightarrow> ('id \<times> nat) list \<Rightarrow> 't take_in_progress list \<Rightarrow>
     (nat \<times> 't take_in_progress) list option" where
  "take_positions T index [] = Some []"
| "take_positions T index (x # xs) =
     do {
       i \<leftarrow> map_of index (tk_id T (tr_target x));
       rest \<leftarrow> take_positions T (filter (\<lambda>(k, _). k \<noteq> tk_id T (tr_target x)) index) xs;
       Some ((i, x) # rest)
     }"

definition sort_takes ::
    "('t, 'k, 'id, 'u) taker_ops \<Rightarrow> 'id list \<Rightarrow> 't take_in_progress list \<Rightarrow> 't take_in_progress list option" where
  "sort_takes T order takes =
     (if length takes < 2 then Some takes
      else map_option (\<lambda>ps. map snd (sort_key fst ps))
        (take_positions T (rev (zip order [0..<length order])) takes))"

definition recipe_try_from ::
    "('t, 'k, 'id, 'u) taker_ops \<Rightarrow> ('m, 'id, 'u) maker_ops \<Rightarrow> u64 \<Rightarrow> ('t, 'm, 'id, 'u) matchmaking_attempt \<Rightarrow>
     (('t list + downgrade_needed) option + ('t, 'm) matchmaking_recipe) option" where
  "recipe_try_from T M base_step_budget a =
     (if is_complete a
      then (case attempt_finalized T M a of
          None \<Rightarrow> None
        | Some None \<Rightarrow> Some (Inl None)
        | Some (Some recipe) \<Rightarrow>
            do {
              unsatisfied \<leftarrow> unsatisfied_fragments T recipe;
              if unsatisfied = []
              then do {
                let complexity_ok = check_recipe_complexity T base_step_budget recipe;
                takes \<leftarrow> sort_takes T (fr_ordering recipe) (map snd (fr_takes recipe));
                let makes = map snd (fr_makes recipe);
                let has_zero_makes = (\<exists>made \<in> set makes. mip_is_zero M made);
                Some (if \<not> has_zero_makes
                      then if complexity_ok then Inr (map Inl takes @ map Inr makes)
                           else Inl (Some (Inr DowngradeNeeded))
                      else Inl None)
              }
              else Some (Inl (Some (Inl unsatisfied)))
            })
      else Some (Inl None))"

subsection \<open>Linking\<close>

type_synonym ('t, 'm, 'b) execution = "('t, 'b) take + ('m, 'b) make"

fun link_instructions ::
    "('t, 'k, 'id, 'u) taker_ops \<Rightarrow> ('m, 'id, 'u) maker_ops \<Rightarrow> ('id \<Rightarrow> ('v \<times> 'b) option) \<Rightarrow>
     ('t, 'm) instruction list \<Rightarrow> ('t, 'm, 'b) execution list \<times> 'v list \<times> ('t + 'm) list" where
  "link_instructions T M lnk [] = ([], [], [])"
| "link_instructions T M lnk (Inl tr # rest) =
     (let (is, vs, os) = link_instructions T M lnk rest
      in case lnk (tk_id T (tr_target tr)) of
           Some (ver, bearer) \<Rightarrow> (Inl (Trans (Bundled (tr_target tr) bearer) (tr_result tr)) # is, ver # vs, os)
         | None \<Rightarrow> (is, vs, Inl (tr_target tr) # os))"
| "link_instructions T M lnk (Inr tr # rest) =
     (let (is, vs, os) = link_instructions T M lnk rest
      in case lnk (mk_id M (tr_target tr)) of
           Some (ver, bearer) \<Rightarrow> (Inr (Trans (Bundled (tr_target tr) bearer) (tr_result tr)) # is, ver # vs, os)
         | None \<Rightarrow> (is, vs, Inr (tr_target tr) # os))"

definition recipe_link ::
    "('t, 'k, 'id, 'u) taker_ops \<Rightarrow> ('m, 'id, 'u) maker_ops \<Rightarrow> ('id \<Rightarrow> ('v \<times> 'b) option) \<Rightarrow>
     ('t, 'm) matchmaking_recipe \<Rightarrow> ('t + 'm) list + ('t, 'm, 'b) execution list \<times> 'v set" where
  "recipe_link T M lnk recipe =
     (let (translated_instructions, consumed_versions, orphaned_targets) = link_instructions T M lnk recipe
      in if orphaned_targets \<noteq> [] then Inl orphaned_targets
         else Inr (translated_instructions, set consumed_versions))"

end
