(* ===== verification/Lb_Book.thy ===== *)
theory Lb_Book
  imports Lb_Core
begin

text \<open>
  The liquidity book, packages/bloom-offchain/src/execution_engine/liquidity_book/mod.rs: external
  events, feedback, the settlement of a price, the execution of a taker against a maker or another
  taker, and the matchmaking attempt. An attempt is two loops with no bound in the code: the outer
  one retries, the inner one fills a batch. Each has fuel, and a run ends with a result, in a panic,
  or out of fuel.
\<close>

datatype 'a run = Ret 'a | Panicked | Out_of_fuel

definition run_bind :: "'a run \<Rightarrow> ('a \<Rightarrow> 'b run) \<Rightarrow> 'b run" where
  "run_bind m f = (case m of Ret x \<Rightarrow> f x | Panicked \<Rightarrow> Panicked | Out_of_fuel \<Rightarrow> Out_of_fuel)"

fun run_of :: "'a option \<Rightarrow> 'a run" where
  "run_of (Some x) = Ret x"
| "run_of None = Panicked"

lemma run_bind_simps [simp]:
  "run_bind (Ret x) f = f x" "run_bind Panicked f = Panicked" "run_bind Out_of_fuel f = Out_of_fuel"
  by (simp_all add: run_bind_def)

lemma run_bind_Ret: "run_bind m f = Ret y \<longleftrightarrow> (\<exists>x. m = Ret x \<and> f x = Ret y)"
  by (cases m) auto

lemma run_of_Ret [simp]: "run_of r = Ret x \<longleftrightarrow> r = Some x"
  by (cases r) auto

lemma run_of_fuel [simp]: "run_of r \<noteq> Out_of_fuel"
  by (cases r) auto

subsection \<open>Prices and executions\<close>

definition clamp :: "'a::linorder \<Rightarrow> 'a \<Rightarrow> 'a \<Rightarrow> 'a" where
  "clamp v low high = (if low \<le> v \<and> v \<le> high then v else if v < low then low else high)"

definition max_bias_percent :: nat where
  "max_bias_percent = 3"

text \<open>Division of signed integers truncates; a zero divisor gives no bias.\<close>

definition bias_percent :: "u64 \<Rightarrow> u64 \<Rightarrow> int" where
  "bias_percent fee_ask fee_bid =
     (if fee_ask < fee_bid then - (uint fee_ask * 100 div uint fee_bid)
      else if fee_ask = 0 then 0 else uint fee_bid * 100 div uint fee_ask)"

definition settle_price :: "('t, 'k, 'id, 'u) taker_ops \<Rightarrow> 't \<Rightarrow> 't \<Rightarrow> price option \<Rightarrow> price" where
  "settle_price T ask bid index_price =
     (let price_ask = tk_price T ask;
          price_bid = tk_price T bid;
          d = price_bid - price_ask;
          pivotal_price = (case index_price of Some ip \<Rightarrow> clamp ip price_ask price_bid | None \<Rightarrow> price_ask + d / 2);
          max_deviation = pivotal_price * (of_nat max_bias_percent / 100);
          deviation = max_deviation * (of_int (bias_percent (tk_fee T ask) (tk_fee T bid)) / 100);
          corrected_price = pivotal_price + deviation
      in clamp corrected_price price_ask price_bid)"

text \<open>A price of zero on the bid side and an output past 64 bits are panics.\<close>

definition linear_output_unsafe :: "u64 \<Rightarrow> price on_side \<Rightarrow> u64 option" where
  "linear_output_unsafe input p =
     (case p of
        OnBid price \<Rightarrow> if price = 0 then None else linear_output_relative input (inverse price)
      | OnAsk price \<Rightarrow> linear_output_relative input price)"

definition execute_with_maker ::
    "('t, 'k, 'id, 'u) taker_ops \<Rightarrow> ('m, 'id, 'u) maker_ops \<Rightarrow> 't \<Rightarrow> 'm \<Rightarrow> u64 on_side \<Rightarrow>
     't take_in_progress \<times> 'm make_in_progress" where
  "execute_with_maker T M target_taker maker chunk_size =
     (let next_maker = Succ (mk_swap M chunk_size maker);
          made = Trans maker next_maker;
          trade_output = (case mip_loss M made of Some val \<Rightarrow> os_unwrap val | None \<Rightarrow> 0);
          next_taker = tk_with_applied_trade T (os_unwrap chunk_size) trade_output target_taker
      in (Trans target_taker next_taker, made))"

definition traded_amounts :: "u64 \<Rightarrow> u64 \<Rightarrow> price \<Rightarrow> (u64 \<times> u64) option" where
  "traded_amounts supply_base quote_input price =
     do {
       demand_base \<leftarrow> linear_output_unsafe quote_input (OnBid price);
       if demand_base < supply_base then Some (quote_input, demand_base)
       else if supply_base < demand_base
       then map_option (\<lambda>quote_executed. (quote_executed, supply_base))
              (linear_output_unsafe supply_base (OnAsk price))
       else Some (quote_input, demand_base)
     }"

definition execute_with_taker ::
    "('t, 'k, 'id, 'u) taker_ops \<Rightarrow> 't \<Rightarrow> 't \<Rightarrow> ('t \<Rightarrow> 't \<Rightarrow> price) \<Rightarrow>
     ('t take_in_progress \<times> 't take_in_progress) option" where
  "execute_with_taker T target_taker counter_taker matchmaker =
     (let (ask, bid) = (case tk_side T target_taker of
            Ask \<Rightarrow> (target_taker, counter_taker) | Bid \<Rightarrow> (counter_taker, target_taker));
          price = matchmaker ask bid
      in do {
        (quote, base) \<leftarrow> traded_amounts (tk_input T ask) (tk_input T bid) price;
        Some (Trans ask (tk_with_applied_trade T base quote ask), Trans bid (tk_with_applied_trade T quote base bid))
      })"

subsection \<open>The book\<close>

record 'u execution_config =
  soft_cap :: 'u
  hard_cap :: 'u
  o2o_allowed :: bool
  base_step_budget :: u64

datatype execution_event =
    SpotPrice price
  | SpotPriceNotAvailable
  | LiquidityBookSizePreAttempt lb_size
  | LiquidityBookSizePostAttempt lb_size

definition spot_price :: "('m, 'id, 'u) maker_ops \<Rightarrow> ('t, 'm, 'id) tlb_state \<Rightarrow> price option" where
  "spot_price M st = map_option (mk_static_price M) (best_market_maker M st)"

definition on_take ::
    "('t, 'k::linorder, 'id, 'u) taker_ops \<Rightarrow> ('t, 'x) next_state \<Rightarrow> ('t, 'm, 'id) tlb_state \<Rightarrow>
     ('t, 'm, 'id) tlb_state" where
  "on_take T tx st = (case tx of Succ next \<Rightarrow> pre_add_taker T next st | Term _ \<Rightarrow> st)"

definition on_make ::
    "('t, 'k::linorder, 'id, 'u) taker_ops \<Rightarrow> ('m, 'id, 'u) maker_ops \<Rightarrow> ('m, 'x) next_state \<Rightarrow>
     ('t, 'm, 'id) tlb_state \<Rightarrow> ('t, 'm, 'id) tlb_state" where
  "on_make T M tx st = (case tx of Succ next \<Rightarrow> pre_add_maker T M next st | Term _ \<Rightarrow> st)"

text \<open>Events from outside are for a book at rest; elsewhere they panic.\<close>

definition requiring_settled_state ::
    "(('t, 'm, 'id) idle_state \<Rightarrow> ('t, 'm, 'id) idle_state) \<Rightarrow> ('t, 'm, 'id) tlb_state \<Rightarrow>
     ('t, 'm, 'id) tlb_state option" where
  "requiring_settled_state f st = (case st of Idle i \<Rightarrow> Some (Idle (f i)) | _ \<Rightarrow> None)"

definition book_advance_clocks ::
    "('t, 'k::linorder, 'id, 'u) taker_ops \<Rightarrow> u64 \<Rightarrow> ('t, 'm, 'id) tlb_state \<Rightarrow> ('t, 'm, 'id) tlb_state option" where
  "book_advance_clocks T new_time =
     requiring_settled_state (\<lambda>i. i\<lparr>id_takers := ch_advance_clocks T new_time (id_takers i)\<rparr>)"

definition update_taker ::
    "('t, 'k::linorder, 'id, 'u) taker_ops \<Rightarrow> 't \<Rightarrow> ('t, 'm, 'id) tlb_state \<Rightarrow> ('t, 'm, 'id) tlb_state option" where
  "update_taker T fr = requiring_settled_state (\<lambda>i. i\<lparr>id_takers := ch_add_fragment T fr (id_takers i)\<rparr>)"

definition remove_taker ::
    "('t, 'k::linorder, 'id, 'u) taker_ops \<Rightarrow> 't \<Rightarrow> ('t, 'm, 'id) tlb_state \<Rightarrow> ('t, 'm, 'id) tlb_state option" where
  "remove_taker T fr = requiring_settled_state (\<lambda>i. i\<lparr>id_takers := ch_remove_fragment T fr (id_takers i)\<rparr>)"

definition update_maker ::
    "('m, 'id, 'u) maker_ops \<Rightarrow> 'm \<Rightarrow> ('t, 'm, 'id) tlb_state \<Rightarrow> ('t, 'm, 'id) tlb_state option" where
  "update_maker M pool = requiring_settled_state (\<lambda>i. i\<lparr>id_makers := mm_update_pool M pool (id_makers i)\<rparr>)"

definition remove_maker ::
    "('m, 'id, 'u) maker_ops \<Rightarrow> 'm \<Rightarrow> ('t, 'm, 'id) tlb_state \<Rightarrow> ('t, 'm, 'id) tlb_state option" where
  "remove_maker M pool = requiring_settled_state (\<lambda>i. i\<lparr>id_makers := mm_remove_pool M pool (id_makers i)\<rparr>)"

definition on_recipe_succeeded ::
    "('t, 'k::linorder, 'id, 'u) taker_ops \<Rightarrow> ('t, 'm, 'id) tlb_state \<Rightarrow> ('t, 'm, 'id) tlb_state" where
  "on_recipe_succeeded T st = tlb_commit T st"

definition on_recipe_failed ::
    "('t, 'k::linorder, 'id, 'u) taker_ops \<Rightarrow> ('t, 'm, 'id) tlb_state \<Rightarrow> ('t, 'm, 'id) tlb_state" where
  "on_recipe_failed T st = tlb_rollback T Unstash st"

subsection \<open>The attempt\<close>

text \<open>
  One turn of the inner loop with a taker already chosen: it is matched with another taker, or with
  a maker, or put back. The result says whether the loop goes on.
\<close>

type_synonym ('t, 'm, 'id, 'u) match_state =
  "('t, 'm, 'id) tlb_state \<times> ('t, 'm, 'id, 'u) matchmaking_attempt"

definition match_with_taker ::
    "('t, 'k::linorder, 'id, 'u::plus) taker_ops \<Rightarrow> price \<Rightarrow> 't \<Rightarrow> ('t, 'm, 'id, 'u) match_state \<Rightarrow>
     (bool \<times> ('t, 'm, 'id, 'u) match_state) option" where
  "match_with_taker T spot target_taker = (\<lambda>(st, batch).
     (case try_pick_taker T (side_not (tk_side T target_taker)) (\<lambda>_. True) st of
        (None, st') \<Rightarrow> Some (False, st', batch)
      | (Some counter_taker, st') \<Rightarrow>
          do {
            (take_a, take_b) \<leftarrow> execute_with_taker T target_taker counter_taker
              (\<lambda>ask bid. settle_price T ask bid (Some spot));
            Some (True, on_take T (tr_result take_b) (on_take T (tr_result take_a) st'),
              add_take T take_b (add_take T take_a batch))
          }))"

definition match_with_maker ::
    "('t, 'k::linorder, 'id, 'u::plus) taker_ops \<Rightarrow> ('m, 'id, 'u) maker_ops \<Rightarrow> 't \<Rightarrow> 'id \<Rightarrow> u64 \<Rightarrow>
     ('t, 'm, 'id, 'u) match_state \<Rightarrow> bool \<times> ('t, 'm, 'id, 'u) match_state" where
  "match_with_maker T M target_taker maker_sid input = (\<lambda>(st, batch).
     (case pick_maker_by_id maker_sid st of
        (None, st') \<Rightarrow> (False, st', batch)
      | (Some maker, st') \<Rightarrow>
          let (tip, mip) = execute_with_maker T M target_taker maker (side_wrap (tk_side T target_taker) input)
          in (True, on_make T M (tr_result mip) (on_take T (tr_result tip) st'),
              add_take T tip (add_make M mip batch))))"

definition match_target ::
    "('t, 'k::linorder, 'id, 'u::plus) taker_ops \<Rightarrow> ('m, 'id, 'u) maker_ops \<Rightarrow> bool \<Rightarrow> bool \<Rightarrow> price \<Rightarrow> 't \<Rightarrow>
     ('t, 'm, 'id, 'u) match_state \<Rightarrow> (bool \<times> ('t, 'm, 'id, 'u) match_state) option" where
  "match_target T M o2o optimized spot target_taker = (\<lambda>(st, batch).
     (let target_side = tk_side T target_taker;
          target_price = side_wrap target_side (tk_price T target_taker);
          maybe_price_counter_taker = best_taker_price T (side_not target_side) st;
          maybe_price_maker = preselect_market_maker M (tk_price T target_taker) (tk_input T target_taker)
            target_side optimized st;
          o2o_match = (case maybe_price_counter_taker of
              None \<Rightarrow> False
            | Some price_counter_taker \<Rightarrow> o2o \<and> overlaps target_price (os_unwrap price_counter_taker) \<and>
                (case maybe_price_maker of
                   Some (_, fp) \<Rightarrow> better_than price_counter_taker (fp_price fp) | None \<Rightarrow> False))
      in if o2o_match then match_with_taker T spot target_taker (st, batch)
         else case maybe_price_maker of
                Some (maker_sid, fp) \<Rightarrow>
                  if overlaps target_price (fp_price fp)
                  then Some (match_with_maker T M target_taker maker_sid (fp_input fp) (st, batch))
                  else Some (False, pre_add_taker T target_taker st, batch)
              | None \<Rightarrow> Some (False, pre_add_taker T target_taker st, batch)))"

fun fill_batch ::
    "nat \<Rightarrow> ('t, 'k::linorder, 'id, 'u::{plus,linorder}) taker_ops \<Rightarrow> ('m, 'id, 'u) maker_ops \<Rightarrow>
     'u execution_config \<Rightarrow> bool \<Rightarrow> ('t, 'm, 'id, 'u) match_state \<Rightarrow> execution_event list \<Rightarrow>
     (('t, 'm, 'id, 'u) match_state \<times> execution_event list) run" where
  "fill_batch 0 T M conf optimized sb events = Out_of_fuel"
| "fill_batch (Suc fuel) T M conf optimized (st, batch) events =
     (if ma_execution_units_consumed batch < soft_cap conf \<and> num_takes batch < 15
      then (case spot_price M st of
          None \<Rightarrow> Ret ((st, batch), events @ [SpotPriceNotAvailable])
        | Some spot \<Rightarrow>
            (let events' = events @ [SpotPrice spot]; prange = allowed_price_range T st
             in case pick_active_taker (max_by_distance_to_spot T spot prange) st of
                  (None, st') \<Rightarrow> Ret ((st', batch), events')
                | (Some target_taker, st') \<Rightarrow>
                    run_bind (run_of (match_target T M (o2o_allowed conf) optimized spot target_taker (st', batch)))
                      (\<lambda>(go_on, sb). if go_on then fill_batch fuel T M conf optimized sb events' else Ret (sb, events'))))
      else Ret ((st, batch), events))"

fun attempt ::
    "nat \<Rightarrow> nat \<Rightarrow> ('t, 'k::linorder, 'id, 'u::{plus,zero,linorder}) taker_ops \<Rightarrow> ('m, 'id, 'u) maker_ops \<Rightarrow>
     'u execution_config \<Rightarrow> bool \<Rightarrow> ('t, 'm, 'id) tlb_state \<Rightarrow>
     (('t, 'm) matchmaking_recipe option \<times> execution_event list \<times> ('t, 'm, 'id) tlb_state) run" where
  "attempt 0 inner T M conf optimized st = Out_of_fuel"
| "attempt (Suc fuel) inner T M conf optimized st =
     run_bind (fill_batch inner T M conf optimized (st, attempt_empty) [LiquidityBookSizePreAttempt (tlb_size st)])
       (\<lambda>((st', batch), events0).
          let events = events0 @ [LiquidityBookSizePostAttempt (tlb_size st')]
          in run_bind (run_of (recipe_try_from T M (base_step_budget conf) batch)) (\<lambda>r. case r of
               Inr ex_recipe \<Rightarrow> Ret (Some ex_recipe, events, st')
             | Inl None \<Rightarrow> Ret (None, events, tlb_rollback T Unstash st')
             | Inl (Some (Inl unsatisfied_takers)) \<Rightarrow>
                 attempt fuel inner T M conf optimized (tlb_rollback T (Stash unsatisfied_takers) st')
             | Inl (Some (Inr DowngradeNeeded)) \<Rightarrow>
                 attempt fuel inner T M conf False (tlb_rollback T (Stash []) st')))"

text \<open>\<open>LiquidityBook::attempt\<close> starts with optimised matchmaking.\<close>

definition book_attempt ::
    "nat \<Rightarrow> nat \<Rightarrow> ('t, 'k::linorder, 'id, 'u::{plus,zero,linorder}) taker_ops \<Rightarrow> ('m, 'id, 'u) maker_ops \<Rightarrow>
     'u execution_config \<Rightarrow> ('t, 'm, 'id) tlb_state \<Rightarrow>
     (('t, 'm) matchmaking_recipe option \<times> execution_event list \<times> ('t, 'm, 'id) tlb_state) run" where
  "book_attempt fuel inner T M conf st = attempt fuel inner T M conf True st"

end
