(* ===== verification/Value_Ops.thy ===== *)
theory Value_Ops
  imports Assets "HOL-Library.AList" "HOL-Library.Product_Lexorder"
begin

text \<open>
  Multi-asset values, packages/spectrum-cardano-lib/src/value.rs, and the order of asset classes
  that decides the two assets of a trading pair, packages/spectrum-offchain-cardano/src/data/
  pair.rs. The ledger library's value keeps insertion order, so its maps are association lists.
  An asset name whose length byte exceeds its array panics when it is converted to the ledger
  library's name: the outer \<open>None\<close>.
\<close>

subsection \<open>Amounts of a value\<close>

definition amount_of :: "tx_value \<Rightarrow> asset_class \<Rightarrow> u64 option option" where
  "amount_of v ac =
     (case ac of
        Native \<Rightarrow> Some (Some (coin v))
      | TokenClass (Token policy an) \<Rightarrow>
          map_option (\<lambda>name. Option.bind (map_of (multiasset v) policy) (\<lambda>bundle. map_of bundle name))
            (an_into_cml an))"

definition sub_unsafe :: "asset_class \<Rightarrow> u64 \<Rightarrow> tx_value \<Rightarrow> tx_value option" where
  "sub_unsafe ac amt v =
     (case ac of
        Native \<Rightarrow> Some (Value (coin v - amt) (multiasset v))
      | TokenClass (Token policy an) \<Rightarrow>
          (case map_of (multiasset v) policy of
             None \<Rightarrow> Some v
           | Some bundle \<Rightarrow>
               map_option (\<lambda>name.
                   let bundle' = (case map_of bundle name of
                         Some value \<Rightarrow>
                           if amt < value then AList.update name (value - amt) bundle else AList.delete name bundle
                       | None \<Rightarrow> bundle)
                   in Value (coin v)
                        (if bundle' = [] then AList.delete policy (multiasset v)
                         else AList.update policy bundle' (multiasset v)))
                 (an_into_cml an)))"

definition add_unsafe :: "asset_class \<Rightarrow> u64 \<Rightarrow> tx_value \<Rightarrow> tx_value option" where
  "add_unsafe ac amt v =
     (case ac of
        Native \<Rightarrow> Some (Value (coin v + amt) (multiasset v))
      | TokenClass (Token policy an) \<Rightarrow>
          map_option (\<lambda>name.
              Value (coin v) (AList.update policy
                (case map_of (multiasset v) policy of
                   Some bundle \<Rightarrow>
                     (case map_of bundle name of
                        Some asset \<Rightarrow> AList.update name (asset + amt) bundle
                      | None \<Rightarrow> AList.update name amt bundle)
                 | None \<Rightarrow> [(name, amt)])
                (multiasset v)))
            (an_into_cml an))"

lemma map_of_update [simp]: "map_of (AList.update k v xs) = (map_of xs)(k \<mapsto> v)"
  by (simp add: update_conv')

lemma map_of_delete [simp]: "map_of (AList.delete k xs) = (map_of xs)(k := None)"
  by (simp add: delete_conv')

text \<open>What a value holds of an asset, no entry being nothing.\<close>

definition held :: "tx_value \<Rightarrow> asset_class \<Rightarrow> u64" where
  "held v ac = (case amount_of v ac of Some (Some a) \<Rightarrow> a | _ \<Rightarrow> 0)"

text \<open>A value without empty bundles and zero entries, as the ledger has them.\<close>

definition normal_value :: "tx_value \<Rightarrow> bool" where
  "normal_value v \<longleftrightarrow> (\<forall>p b. map_of (multiasset v) p = Some b \<longrightarrow> b \<noteq> [] \<and> (\<forall>n a. map_of b n = Some a \<longrightarrow> a \<noteq> 0))"

fun ac_ok :: "asset_class \<Rightarrow> bool" where
  "ac_ok Native \<longleftrightarrow> True"
| "ac_ok (TokenClass t) \<longleftrightarrow> an_wf (tk_name t)"

subsection \<open>The canonical order of a pair\<close>

text \<open>
  The derived order of asset classes: the native one first, then policies, then names by their
  length byte and array.
\<close>

definition asset_name_key :: "asset_name \<Rightarrow> byte \<times> bytes" where
  "asset_name_key n = (an_len n, an_raw n)"

definition asset_class_key :: "asset_class \<Rightarrow> bool \<times> hash28 \<times> byte \<times> bytes" where
  "asset_class_key ac = (case ac of Native \<Rightarrow> (False, 0, 0, [])
     | TokenClass (Token p n) \<Rightarrow> (True, p, asset_name_key n))"

lemma asset_class_key_inj: "asset_class_key x = asset_class_key y \<longleftrightarrow> x = y"
  by (auto simp: asset_class_key_def asset_name_key_def asset_name.expand split: asset_class.splits token.splits)

instantiation token :: linorder
begin

definition less_eq_token :: "token \<Rightarrow> token \<Rightarrow> bool" where
  "s \<le> t \<longleftrightarrow> asset_class_key (TokenClass s) \<le> asset_class_key (TokenClass t)"

definition less_token :: "token \<Rightarrow> token \<Rightarrow> bool" where
  "s < t \<longleftrightarrow> asset_class_key (TokenClass s) < asset_class_key (TokenClass t)"

instance
  by standard (auto simp: less_eq_token_def less_token_def asset_class_key_inj
      dest: antisym [of "asset_class_key _"])

end

instantiation asset_class :: linorder
begin

definition less_eq_asset_class :: "asset_class \<Rightarrow> asset_class \<Rightarrow> bool" where
  "x \<le> y \<longleftrightarrow> asset_class_key x \<le> asset_class_key y"

definition less_asset_class :: "asset_class \<Rightarrow> asset_class \<Rightarrow> bool" where
  "x < y \<longleftrightarrow> asset_class_key x < asset_class_key y"

instance
  by standard (auto simp: less_eq_asset_class_def less_asset_class_def asset_class_key_inj
      dest: antisym [of "asset_class_key _"])

end

definition order_canonical :: "asset_class \<Rightarrow> asset_class \<Rightarrow> asset_class \<times> asset_class" where
  "order_canonical x y = (if y < x then (y, x) else (x, y))"

datatype pair_id = PairId asset_class asset_class

definition pair_id_canonical :: "asset_class \<Rightarrow> asset_class \<Rightarrow> pair_id" where
  "pair_id_canonical x y = (let xs = order_canonical x y in PairId (fst xs) (snd xs))"

lemma pair_id_canonical_comm: "pair_id_canonical x y = pair_id_canonical y x"
  by (auto simp: pair_id_canonical_def order_canonical_def)

subsection \<open>Laws of the value operations\<close>

lemma an_into_cml_inj: "an_wf n \<Longrightarrow> an_wf m \<Longrightarrow> an_into_cml n = an_into_cml m \<longleftrightarrow> n = m"
  using an_wf_as_bytes [of n] an_wf_as_bytes [of m] by (auto simp: an_into_cml_as_bytes)

lemma an_into_cml_some: "an_wf n \<Longrightarrow> \<exists>name. an_into_cml n = Some name"
  using an_wf_as_bytes [of n] by (auto simp: an_into_cml_as_bytes)

lemma amount_of_some: "ac_ok ac \<Longrightarrow> \<exists>r. amount_of v ac = Some r"
  using an_into_cml_some by (fastforce simp: amount_of_def split: asset_class.splits token.splits)

lemma add_unsafe_some: "ac_ok ac \<Longrightarrow> \<exists>v'. add_unsafe ac amt v = Some v'"
  using an_into_cml_some by (fastforce simp: add_unsafe_def split: asset_class.splits token.splits)

lemma sub_unsafe_some: "ac_ok ac \<Longrightarrow> \<exists>v'. sub_unsafe ac amt v = Some v'"
  using an_into_cml_some
  by (fastforce simp: sub_unsafe_def Let_def split: asset_class.splits token.splits option.splits)

lemma amount_of_native [simp]: "amount_of v Native = Some (Some (coin v))"
  by (simp add: amount_of_def)

lemma amount_of_coin [simp]: "amount_of (Value c (multiasset v)) (TokenClass t) = amount_of v (TokenClass t)"
  by (simp add: amount_of_def split: token.splits)

lemma amount_of_token:
  "an_into_cml n = Some name \<Longrightarrow> amount_of v (TokenClass (Token p n)) =
    Some (Option.bind (map_of (multiasset v) p) (\<lambda>bundle. map_of bundle name))"
  by (simp add: amount_of_def)

lemma ac_ok_cases:
  assumes "ac_ok ac"
  obtains "ac = Native"
    | p n name where "ac = TokenClass (Token p n)" "an_wf n" "an_into_cml n = Some name"
proof (cases ac)
  case (TokenClass t)
  then show ?thesis using assms that an_into_cml_some by (cases t) fastforce
qed (rule that)

lemma amount_of_add:
  assumes "ac_ok ac" "ac_ok ac'" "add_unsafe ac amt v = Some v'"
  shows "amount_of v' ac' = (if ac' = ac then Some (Some (held v ac + amt)) else amount_of v ac')"
  using assms(1)
proof (cases ac rule: ac_ok_cases)
  case 1
  then show ?thesis using assms(3) by (cases ac') (auto simp: add_unsafe_def held_def)
next
  case (2 p n name)
  define b' where "b' = (case map_of (multiasset v) p of
      Some bundle \<Rightarrow> (case map_of bundle name of
          Some asset \<Rightarrow> AList.update name (asset + amt) bundle | None \<Rightarrow> AList.update name amt bundle)
    | None \<Rightarrow> [(name, amt)])"
  have held: "held v ac = (case Option.bind (map_of (multiasset v) p) (\<lambda>b. map_of b name) of Some a \<Rightarrow> a | None \<Rightarrow> 0)"
    by (simp add: 2(1) held_def amount_of_token [OF 2(3)])
  have b': "map_of b' m = (if m = name then Some (held v ac + amt)
      else Option.bind (map_of (multiasset v) p) (\<lambda>b. map_of b m))" for m
    unfolding b'_def held by (auto split: option.splits)
  have v': "v' = Value (coin v) (AList.update p b' (multiasset v))"
    using assms(3) 2 by (simp add: add_unsafe_def b'_def)
  have look: "Option.bind (map_of (multiasset v') q) (\<lambda>bundle. map_of bundle m) =
      (if q = p \<and> m = name then Some (held v ac + amt)
       else Option.bind (map_of (multiasset v) q) (\<lambda>bundle. map_of bundle m))" for q m
    by (simp add: v' b')
  from assms(2) show ?thesis
  proof (cases ac' rule: ac_ok_cases)
    case 1
    then show ?thesis using 2 v' by simp
  next
    case q: (2 q m nm)
    have "nm = name \<longleftrightarrow> m = n" using an_into_cml_inj [OF q(2) 2(2)] 2(3) q(3) by simp
    then show ?thesis using 2(1) q(1) by (simp add: amount_of_token [OF q(3)] look)
  qed
qed

lemma amount_of_sub:
  assumes "ac_ok ac" "ac_ok ac'" "sub_unsafe ac amt v = Some v'"
  shows "amount_of v' ac' =
    (if ac' \<noteq> ac then amount_of v ac'
     else if ac = Native then Some (Some (held v ac - amt))
     else if amt < held v ac then Some (Some (held v ac - amt)) else Some None)"
  using assms(1)
proof (cases ac rule: ac_ok_cases)
  case 1
  then show ?thesis using assms(3) by (cases ac') (auto simp: sub_unsafe_def held_def)
next
  case (2 p n name)
  have held: "held v ac = (case Option.bind (map_of (multiasset v) p) (\<lambda>b. map_of b name) of Some a \<Rightarrow> a | None \<Rightarrow> 0)"
    by (simp add: 2(1) held_def amount_of_token [OF 2(3)])
  have "Option.bind (map_of (multiasset v') q) (\<lambda>bundle. map_of bundle m) =
      (if q = p \<and> m = name then if amt < held v ac then Some (held v ac - amt) else None
       else Option.bind (map_of (multiasset v) q) (\<lambda>bundle. map_of bundle m)) \<and> coin v' = coin v" for q m
  proof (cases "map_of (multiasset v) p")
    case None
    then show ?thesis using assms(3) 2 held by (auto simp: sub_unsafe_def)
  next
    case (Some b)
    define b' where "b' = (case map_of b name of
        Some value \<Rightarrow> if amt < value then AList.update name (value - amt) b else AList.delete name b | None \<Rightarrow> b)"
    have b': "map_of b' m = (if m = name then if amt < held v ac then Some (held v ac - amt) else None
        else map_of b m)" for m
      unfolding b'_def held using Some by (auto split: option.splits)
    have "Value (coin v) (if b' = [] then AList.delete p (multiasset v) else AList.update p b' (multiasset v)) = v'"
      using assms(3) 2 Some unfolding b'_def by (simp add: sub_unsafe_def Let_def)
    from this [symmetric] show ?thesis using b' [of m] Some by (cases "b' = []") (auto split: if_splits)
  qed
  note look = this
  from assms(2) show ?thesis
  proof (cases ac' rule: ac_ok_cases)
    case 1
    then show ?thesis using 2 look by simp
  next
    case q: (2 q m nm)
    have "nm = name \<longleftrightarrow> m = n" using an_into_cml_inj [OF q(2) 2(2)] 2(3) q(3) by simp
    then show ?thesis using 2(1) q(1) look [of q nm] by (auto simp: amount_of_token [OF q(3)])
  qed
qed

text \<open>
  Crediting a value and then debiting it leaves what the value held: for every asset whose name
  is well formed, and provided the sum stays in 64 bits and the value has no entry of zero, adding
  an amount and subtracting it again does not panic and restores every amount, entries created by
  the addition being removed again.
\<close>

theorem value_add_then_sub:
  assumes "ac_ok ac" "unat (held v ac) + unat amt < 2 ^ 64" "amount_of v ac \<noteq> Some (Some 0) \<or> ac = Native"
  shows "\<exists>v' v''. add_unsafe ac amt v = Some v' \<and> sub_unsafe ac amt v' = Some v'' \<and>
    (\<forall>ac'. ac_ok ac' \<longrightarrow> amount_of v'' ac' = amount_of v ac')"
proof -
  obtain v' where v': "add_unsafe ac amt v = Some v'" using add_unsafe_some [OF assms(1)] by blast
  obtain v'' where v'': "sub_unsafe ac amt v' = Some v''" using sub_unsafe_some [OF assms(1)] by blast
  have h: "held v' ac = held v ac + amt" using amount_of_add [OF assms(1,1) v'] by (simp add: held_def)
  have native: "ac = Native \<Longrightarrow> amount_of v ac = Some (Some (held v ac))"
    by (simp add: held_def amount_of_def)
  have less: "amt < held v ac + amt \<longleftrightarrow> held v ac \<noteq> 0"
    using assms(2) by (simp add: word_less_nat_alt unat_add_lem [THEN iffD1] unat_eq_zero [symmetric])
  have "amount_of v'' ac' = amount_of v ac'" if "ac_ok ac'" for ac'
    using amount_of_sub [OF assms(1) that v''] amount_of_add [OF assms(1) that v'] h native less
      amount_of_some [OF assms(1), of v] assms(3)
    by (cases "ac' = ac") (auto simp: held_def split: option.splits if_splits)
  then show ?thesis using v' v'' by blast
qed

theorem value_add_then_sub_witness:
  "\<exists>v' v''. add_unsafe (TokenClass (Token 7 an_zero)) 5 (Value 3 []) = Some v' \<and>
    sub_unsafe (TokenClass (Token 7 an_zero)) 5 v' = Some v'' \<and>
    (\<forall>ac'. ac_ok ac' \<longrightarrow> amount_of v'' ac' = amount_of (Value 3 []) ac')"
proof -
  have name: "an_into_cml an_zero = Some [0]" by (simp add: an_into_cml_def an_zero_def)
  have "an_try_from [0] = Some an_zero" by (simp add: an_try_from_def an_zero_def pad32_def numeral_eq_Suc)
  then have "an_wf an_zero" unfolding an_wf_def by blast
  then show ?thesis
    by (intro value_add_then_sub) (simp_all add: held_def amount_of_def name)
qed

end
