(* ===== verification/Limit_Order.thy ===== *)
theory Limit_Order
  imports Value_Ops Lb_Types "HOL-Library.Monad_Syntax"
begin

text \<open>
  Limit orders, packages/bloom-offchain-cardano/src/orders/limit.rs, the taker of the liquidity
  book: the order and its place among the orders of its side, its transitions, and its recognition
  on the ledger. Execution units are those of packages/spectrum-cardano-lib/src/ex_units.rs. A
  datum is read by the ledger library, so a recognised order starts from its parsed fields; hashing
  and the encoding of a datum are parameters.
\<close>

subsection \<open>Execution units\<close>

datatype ex_units = ExUnits (eu_mem: u64) (eu_steps: u64)

instantiation ex_units :: linorder
begin

definition less_eq_ex_units :: "ex_units \<Rightarrow> ex_units \<Rightarrow> bool" where
  "a \<le> b \<longleftrightarrow> (eu_mem a, eu_steps a) \<le> (eu_mem b, eu_steps b)"

definition less_ex_units :: "ex_units \<Rightarrow> ex_units \<Rightarrow> bool" where
  "a < b \<longleftrightarrow> (eu_mem a, eu_steps a) < (eu_mem b, eu_steps b)"

instance
  by standard (auto simp: less_eq_ex_units_def less_ex_units_def ex_units.expand)

end

definition units_combine :: "ex_units \<Rightarrow> ex_units \<Rightarrow> ex_units" where
  "units_combine a b = ExUnits (eu_mem a + eu_mem b) (eu_steps a + eu_steps b)"

definition units_empty :: ex_units where
  "units_empty = ExUnits 0 0"

instantiation ex_units :: "{plus, zero}"
begin

definition plus_ex_units :: "ex_units \<Rightarrow> ex_units \<Rightarrow> ex_units" where
  "a + b = units_combine a b"

definition zero_ex_units :: ex_units where
  "0 = units_empty"

instance ..

end

definition ex_units_scale :: "u64 \<Rightarrow> ex_units \<Rightarrow> ex_units" where
  "ex_units_scale factor u = ExUnits (eu_mem u * factor) (eu_steps u * factor)"

subsection \<open>Sides and prices of orders\<close>

definition side_of :: "asset_class \<Rightarrow> asset_class \<Rightarrow> side" where
  "side_of input output = (if fst (order_canonical input output) = input then Ask else Bid)"

definition max_price_denom :: nat where
  "max_price_denom = 1125899906842624"

definition harden_price :: "rat \<Rightarrow> u64 \<Rightarrow> rat" where
  "harden_price p input =
     (let min_output = \<lceil>of_nat (unat input) * p\<rceil>
      in if 0 < min_output then of_int min_output / of_nat (unat input) else 1 / of_nat max_price_denom)"

subsection \<open>The order\<close>

record limit_order =
  lo_beacon :: hash28
  lo_input_asset :: asset_class
  lo_input_amount :: u64
  lo_output_asset :: asset_class
  lo_output_amount :: u64
  lo_base_price :: rat
  lo_fee_asset :: asset_class
  lo_execution_budget :: u64
  lo_fee :: u64
  lo_max_cost_per_ex_step :: u64
  lo_min_marginal_output :: u64
  lo_redeemer_address :: address
  lo_cancellation_pkh :: hash28
  lo_requires_executor_sig :: bool
  lo_marginal_cost :: ex_units
  lo_virgin :: bool

definition lo_side :: "limit_order \<Rightarrow> side" where
  "lo_side lo = side_of (lo_input_asset lo) (lo_output_asset lo)"

definition lo_price :: "limit_order \<Rightarrow> price" where
  "lo_price lo = price_from (lo_side lo) (lo_base_price lo)"

definition lo_stable_id :: "limit_order \<Rightarrow> token" where
  "lo_stable_id lo = Token (lo_beacon lo) an_zero"

text \<open>
  The order of orders of one side: by price, best first, then by weight (fees, and at equal fees
  the reversed cost), then by identifier.
\<close>

definition lo_key :: "limit_order \<Rightarrow> rat \<times> u64 \<times> int \<times> int \<times> token" where
  "lo_key lo =
     (if lo_side lo = Bid then - lo_price lo else lo_price lo,
      lo_fee lo, - uint (eu_mem (lo_marginal_cost lo)), - uint (eu_steps (lo_marginal_cost lo)), lo_stable_id lo)"

definition lo_operator_fee :: "u64 \<Rightarrow> limit_order \<Rightarrow> u64" where
  "lo_operator_fee input_consumed lo =
     (case checked_div (saturating_mul (lo_fee lo) input_consumed) (lo_input_amount lo) of
        Some f \<Rightarrow> f | None \<Rightarrow> 0)"

definition lo_terminal :: "limit_order \<Rightarrow> terminal_take" where
  "lo_terminal lo = \<lparr> remaining_input = lo_input_amount lo, accumulated_output = lo_output_amount lo,
     remaining_budget = lo_execution_budget lo, remaining_fee = lo_fee lo \<rparr>"

definition lo_with_updated_time :: "u64 \<Rightarrow> limit_order \<Rightarrow> (limit_order, unit) next_state" where
  "lo_with_updated_time t lo = Succ lo"

definition lo_with_applied_trade :: "u64 \<Rightarrow> u64 \<Rightarrow> limit_order \<Rightarrow> (limit_order, terminal_take) next_state" where
  "lo_with_applied_trade removed_input added_output lo =
     (let lo' = lo\<lparr>lo_input_amount := lo_input_amount lo - removed_input,
                 lo_output_amount := lo_output_amount lo + added_output\<rparr>
      in if lo_input_amount lo' = 0 then Term (lo_terminal lo') else Succ lo')"

definition lo_with_budget_corrected :: "int \<Rightarrow> limit_order \<Rightarrow> int \<times> limit_order" where
  "lo_with_budget_corrected delta lo =
     (let (real_delta, b) = corrected_budget (lo_execution_budget lo) delta
      in (real_delta, lo\<lparr>lo_execution_budget := b\<rparr>))"

definition lo_with_fee_charged :: "u64 \<Rightarrow> limit_order \<Rightarrow> limit_order" where
  "lo_with_fee_charged charged lo = lo\<lparr>lo_fee := lo_fee lo - charged\<rparr>"

definition lo_with_output_added :: "u64 \<Rightarrow> limit_order \<Rightarrow> limit_order" where
  "lo_with_output_added added lo = lo\<lparr>lo_output_amount := lo_output_amount lo + added\<rparr>"

definition lo_try_terminate :: "limit_order \<Rightarrow> (limit_order, terminal_take) next_state" where
  "lo_try_terminate lo =
     (if lo_execution_budget lo < lo_max_cost_per_ex_step lo then Term (lo_terminal lo) else Succ lo)"

definition limit_taker ::
    "(limit_order, rat \<times> u64 \<times> int \<times> int \<times> token, token, ex_units) taker_ops" where
  "limit_taker = \<lparr>
     tk_key = lo_key, tk_id = lo_stable_id, tk_side = lo_side, tk_input = lo_input_amount,
     tk_output = lo_output_amount, tk_price = lo_price, tk_operator_fee = lo_operator_fee, tk_fee = lo_fee,
     tk_budget = lo_execution_budget, tk_consumable_budget = lo_max_cost_per_ex_step,
     tk_marginal_cost_hint = lo_marginal_cost, tk_min_marginal_output = lo_min_marginal_output,
     tk_time_bounds = (\<lambda>_. NoBounds), tk_with_updated_time = lo_with_updated_time,
     tk_with_applied_trade = lo_with_applied_trade, tk_with_budget_corrected = lo_with_budget_corrected,
     tk_with_fee_charged = lo_with_fee_charged, tk_with_output_added = lo_with_output_added,
     tk_try_terminate = lo_try_terminate \<rparr>"

subsection \<open>Recognising an order\<close>

record limit_datum =
  ld_beacon :: hash28
  ld_input :: asset_class
  ld_tradable_input :: u64
  ld_cost_per_ex_step :: u64
  ld_min_marginal_output :: u64
  ld_output :: asset_class
  ld_base_price :: rat
  ld_fee :: u64
  ld_redeemer_address :: address
  ld_cancellation_pkh :: hash28
  ld_permitted_executors :: "hash28 list"

text \<open>
  The context of a transaction output: what the program selects from it, and of the ledger library
  the test of the address, the parsed datum, the hash of the datum without its beacon, and Blake2b.
\<close>

record limit_context =
  lc_output_ref :: output_ref
  lc_consumed_inputs :: "output_ref list"
  lc_consumed_identifiers :: "token list"
  lc_operator_cred :: hash28
  lc_marginal_cost :: ex_units
  lc_min_cost_per_ex_step :: u64
  lc_min_fee_lovelace :: u64
  lc_test_address :: "address \<Rightarrow> bool"
  lc_read_datum :: "tx_output \<Rightarrow> limit_datum option"
  lc_datum_hash :: "tx_output \<Rightarrow> bytes"
  lc_blake2b224 :: "bytes \<Rightarrow> hash28"

definition beacon_from_oref :: "limit_context \<Rightarrow> output_ref \<Rightarrow> bytes \<Rightarrow> u64 \<Rightarrow> hash28" where
  "beacon_from_oref c some_input_oref datum_hash order_index =
     lc_blake2b224 c (hash32_bytes (tx_hash some_input_oref) @ u64_to_be_bytes (out_index some_input_oref) @
       u64_to_be_bytes order_index @ datum_hash)"

definition min_lovelace :: u64 where
  "min_lovelace = 1500000"

datatype order_status = NewOrder | Subsequent

definition order_state :: "limit_context \<Rightarrow> hash28 \<Rightarrow> tx_output \<Rightarrow> order_status option" where
  "order_state c beacon repr =
     (let order_index = out_index (lc_output_ref c);
          valid_fresh_beacon = (\<exists>oref \<in> set (lc_consumed_inputs c).
             beacon_from_oref c oref (lc_datum_hash c repr) order_index = beacon);
          consumed_ids = lc_consumed_identifiers c;
          consumed_beacons = length (filter (\<lambda>b. tk_policy b = beacon) consumed_ids)
      in if consumed_beacons = 1 then Some Subsequent
         else if valid_fresh_beacon \<and> consumed_ids = [] then Some NewOrder
         else None)"

text \<open>
  The outer option is the panic of an ill-formed asset name. \<open>lo_configuration\<close> is the computed
  configuration of an order: its budget, its least output per step, and whether it can pay for the
  steps it may need.
\<close>

definition reserved_and_tradable :: "limit_datum \<Rightarrow> u64 \<times> u64" where
  "reserved_and_tradable conf =
     (if ld_input conf = Native then (min_lovelace, ld_tradable_input conf)
      else if ld_output conf = Native then (0, 0)
      else (min_lovelace, 0))"

definition execution_budget_of :: "limit_datum \<Rightarrow> u64 \<Rightarrow> u64 option" where
  "execution_budget_of conf total_ada_input =
     (let (reserved_lovelace, tradable_lovelace) = reserved_and_tradable conf in
      do {
        lov1 \<leftarrow> checked_sub total_ada_input reserved_lovelace;
        lov2 \<leftarrow> checked_sub lov1 (ld_fee conf);
        checked_sub lov2 tradable_lovelace
      })"

definition limit_order_of ::
    "limit_context \<Rightarrow> limit_datum \<Rightarrow> order_status option \<Rightarrow> u64 \<Rightarrow> u64 \<Rightarrow>
     (u64 \<Rightarrow> limit_order) option" where
  "limit_order_of c conf ostate total_input_asset_amount execution_budget =
     do {
       base_output \<leftarrow> linear_output_relative (ld_tradable_input conf) (ld_base_price conf);
       let min_output = min (ld_min_marginal_output conf) base_output;
       max_execution_steps_possible \<leftarrow> checked_div base_output min_output;
       max_execution_steps_available \<leftarrow> checked_div execution_budget (ld_cost_per_ex_step conf);
       let sufficient_input = (ld_tradable_input conf \<le> total_input_asset_amount);
       let sufficient_execution_budget = (max_execution_steps_possible \<le> max_execution_steps_available);
       let is_permissionless = (ld_permitted_executors conf = []);
       let executable = (is_permissionless \<or> lc_operator_cred c \<in> set (ld_permitted_executors conf));
       let valid_configuration = (lc_min_cost_per_ex_step c \<le> ld_cost_per_ex_step conf \<and>
             ld_cost_per_ex_step conf \<le> execution_budget);
       let sufficient_fee = (case ostate of Some Subsequent \<Rightarrow> True | _ \<Rightarrow> lc_min_fee_lovelace c \<le> ld_fee conf);
       let valid_beacon = (ostate \<noteq> None);
       if sufficient_input \<and> sufficient_execution_budget \<and> sufficient_fee \<and> executable \<and>
          valid_configuration \<and> valid_beacon
       then Some (\<lambda>output_amount. \<lparr>
         lo_beacon = ld_beacon conf, lo_input_asset = ld_input conf, lo_input_amount = ld_tradable_input conf,
         lo_output_asset = ld_output conf, lo_output_amount = output_amount,
         lo_base_price = harden_price (ld_base_price conf) (ld_tradable_input conf),
         lo_fee_asset = Native, lo_execution_budget = execution_budget, lo_fee = ld_fee conf,
         lo_max_cost_per_ex_step = ld_cost_per_ex_step conf, lo_min_marginal_output = min_output,
         lo_redeemer_address = ld_redeemer_address conf, lo_cancellation_pkh = ld_cancellation_pkh conf,
         lo_requires_executor_sig = (\<not> is_permissionless), lo_marginal_cost = lc_marginal_cost c,
         lo_virgin = (ostate = Some NewOrder) \<rparr>)
       else None
     }"

definition limit_order_try_from_ledger :: "limit_context \<Rightarrow> tx_output \<Rightarrow> limit_order option option" where
  "limit_order_try_from_ledger c repr =
     (if lc_test_address c (output_address repr)
      then (case lc_read_datum c repr of
          None \<Rightarrow> Some None
        | Some conf \<Rightarrow>
            (let v = output_value repr in
             do {
               total_input \<leftarrow> amount_of v (ld_input conf);
               total_ada \<leftarrow> amount_of v Native;
               (case (do {
                        total_input_asset_amount \<leftarrow> total_input;
                        total_ada_input \<leftarrow> total_ada;
                        execution_budget \<leftarrow> execution_budget_of conf total_ada_input;
                        limit_order_of c conf (order_state c (ld_beacon conf) repr) total_input_asset_amount
                          execution_budget
                      }) of
                  None \<Rightarrow> Some None
                | Some build \<Rightarrow> map_option (\<lambda>output. Some (build (case output of Some a \<Rightarrow> a | None \<Rightarrow> 0)))
                    (amount_of v (ld_output conf)))
             }))
      else Some None)"

end
