(* ===== verification/Lb_Trade_Spec.thy ===== *)
theory Lb_Trade_Spec
  imports Lb_Book Limit_Order "HOL-Library.Multiset"
begin

text \<open>
  What a trade between two takers and a recipe promise: the settled price stays in the spread and
  near the spot price, the traded amounts respect both limits, linking is all or nothing, and a
  recipe holds only satisfied takes and makes that are one swap each.
\<close>

subsection \<open>Settlement\<close>

lemma clamp_range: "low \<le> high \<Longrightarrow> low \<le> clamp v low high \<and> clamp v low high \<le> (high :: 'a::linorder)"
  by (auto simp: clamp_def)

lemma clamp_closer:
  fixes p x :: rat
  assumes "low \<le> p" "p \<le> high"
  shows "\<bar>clamp x low high - p\<bar> \<le> \<bar>x - p\<bar>"
  using assms by (auto simp: clamp_def)

lemma bias_percent_bound: "\<bar>bias_percent a b\<bar> \<le> 100"
proof -
  have "0 \<le> x * 100 div y \<and> x * 100 div y \<le> 100" if "0 \<le> x" "x \<le> y" "0 < y" for x y :: int
  proof -
    have "x * 100 \<le> y * 100" using that(2) by (rule mult_right_mono) simp
    then have "x * 100 div y \<le> y * 100 div y" using that(3) by (rule zdiv_mono1)
    then show ?thesis using that by (simp add: pos_imp_zdiv_nonneg_iff)
  qed
  note quot = this
  have "a < b \<Longrightarrow> uint a \<le> uint b \<and> 0 < uint b"
    by (metis le_less_trans less_imp_le unsigned_greater_eq word_less_def)
  moreover have "\<not> a < b \<Longrightarrow> a \<noteq> 0 \<Longrightarrow> uint b \<le> uint a \<and> 0 < uint a"
    by (metis linorder_not_less unsigned_eq_0_iff unsigned_greater_eq word_le_def order_le_less)
  ultimately show ?thesis using quot [of "uint a" "uint b"] quot [of "uint b" "uint a"]
    by (auto simp: bias_percent_def)
qed

lemma settle_pivot:
  assumes "tk_price T ask \<le> tk_price T bid" "0 \<le> tk_price T ask"
  shows "\<bar>settle_price T ask bid (Some spot) - clamp spot (tk_price T ask) (tk_price T bid)\<bar> \<le>
    clamp spot (tk_price T ask) (tk_price T bid) * (3 / 100)"
proof -
  define p where "p = clamp spot (tk_price T ask) (tk_price T bid)"
  define b where "b = (of_int (bias_percent (tk_fee T ask) (tk_fee T bid)) :: rat)"
  have p: "tk_price T ask \<le> p" "p \<le> tk_price T bid" "0 \<le> p"
    using clamp_range [OF assms(1), of spot] assms(2) by (auto simp: p_def)
  have b: "\<bar>b\<bar> \<le> 100"
    using bias_percent_bound [of "tk_fee T ask" "tk_fee T bid"] unfolding b_def by linarith
  have s: "settle_price T ask bid (Some spot) =
      clamp (p + p * (3 / 100) * (b / 100)) (tk_price T ask) (tk_price T bid)"
    by (simp add: settle_price_def max_bias_percent_def p_def b_def Let_def)
  have "\<bar>settle_price T ask bid (Some spot) - p\<bar> \<le> \<bar>p + p * (3 / 100) * (b / 100) - p\<bar>"
    unfolding s by (rule clamp_closer) (use p in auto)
  also have "\<dots> = p * (3 / 100) * (\<bar>b\<bar> / 100)" using p(3) by (simp add: abs_mult)
  also have "\<dots> \<le> p * (3 / 100) * 1" using b p(3) by (intro mult_left_mono) auto
  finally show ?thesis by (simp add: p_def)
qed

lemma settle_range:
  assumes "tk_price T ask \<le> tk_price T bid"
  shows "tk_price T ask \<le> settle_price T ask bid ip \<and> settle_price T ask bid ip \<le> tk_price T bid"
  unfolding settle_price_def Let_def by (rule clamp_range [OF assms])

subsection \<open>Traded amounts\<close>

lemma linear_output_floor:
  assumes "linear_output_relative input p = Some out"
  shows "of_nat (unat out) \<le> of_nat (unat input) * p \<and> of_nat (unat input) * p < of_nat (unat out) + 1"
proof -
  define f where "f = \<lfloor>of_nat (unat input) * p\<rfloor>"
  have f: "0 \<le> f" "f < 2 ^ 64" "out = word_of_int f"
    using assms by (auto simp: linear_output_relative_def f_def Let_def split: if_splits)
  have "int (unat out) = f" using f by (simp add: unsigned_of_int take_bit_int_eq_self)
  then have "(of_nat (unat out) :: rat) = of_int f" by (metis of_int_of_nat_eq)
  then show ?thesis using floor_correct [of "of_nat (unat input) * p"] by (simp add: f_def)
qed

lemma traded_amounts_ok:
  assumes "traded_amounts supply quote_input p = Some (quote, base)" "0 < p"
  shows "unat base \<le> unat supply \<and> unat quote \<le> unat quote_input \<and>
    ((of_nat (unat base) * p \<le> of_nat (unat quote) \<and> of_nat (unat quote) < (of_nat (unat base) + 1) * p) \<or>
     (of_nat (unat quote) \<le> of_nat (unat base) * p \<and> of_nat (unat base) * p < of_nat (unat quote) + 1))"
proof -
  obtain demand where d: "linear_output_relative quote_input (inverse p) = Some demand"
    using assms by (auto simp: traded_amounts_def linear_output_unsafe_def bind_eq_Some_conv split: if_splits)
  have fl: "of_nat (unat demand) * p \<le> of_nat (unat quote_input) \<and>
      of_nat (unat quote_input) < (of_nat (unat demand) + 1) * p"
    using linear_output_floor [OF d] assms(2) by (auto simp: field_simps)
  show ?thesis
  proof (cases "supply < demand")
    case True
    then have "\<not> demand < supply" by simp
    then have "traded_amounts supply quote_input p =
        map_option (\<lambda>q. (q, supply)) (linear_output_relative supply p)"
      using True assms(2) d by (simp add: traded_amounts_def linear_output_unsafe_def)
    then obtain q where q: "linear_output_relative supply p = Some q" "quote = q" "base = supply"
      using assms(1) by (cases "linear_output_relative supply p") simp_all
    note lo = linear_output_floor [OF q(1)]
    have "unat supply \<le> unat demand" using True by (simp only: word_less_nat_alt less_imp_le)
    then have "(of_nat (unat supply) :: rat) \<le> of_nat (unat demand)" by (simp only: of_nat_le_iff)
    then have "of_nat (unat supply) * p \<le> of_nat (unat demand) * p"
      using assms(2) by (intro mult_right_mono) simp_all
    then have "(of_nat (unat q) :: rat) \<le> of_nat (unat quote_input)"
      using lo fl by (meson order_trans)
    then have "unat q \<le> unat quote_input" by (simp only: of_nat_le_iff)
    then show ?thesis unfolding q(2,3) using lo by blast
  next
    case False
    have "traded_amounts supply quote_input p = Some (quote_input, demand)"
      using False assms(2) d by (auto simp: traded_amounts_def linear_output_unsafe_def)
    then have e: "quote = quote_input" "base = demand" using assms(1) by simp_all
    have "unat demand \<le> unat supply" using False by (simp only: word_less_nat_alt not_less)
    then show ?thesis unfolding e using fl by blast
  qed
qed

text \<open>Two orders at 37/100 and 38/100, for the instances below.\<close>

definition sample_order :: "asset_class \<Rightarrow> asset_class \<Rightarrow> u64 \<Rightarrow> rat \<Rightarrow> u64 \<Rightarrow> hash28 \<Rightarrow> limit_order" where
  "sample_order i out amount p budget b = \<lparr>
     lo_beacon = b, lo_input_asset = i, lo_input_amount = amount, lo_output_asset = out, lo_output_amount = 0,
     lo_base_price = p, lo_fee_asset = Native, lo_execution_budget = budget, lo_fee = 0,
     lo_max_cost_per_ex_step = budget, lo_min_marginal_output = 1, lo_redeemer_address = undefined,
     lo_cancellation_pkh = 0, lo_requires_executor_sig = False, lo_marginal_cost = ExUnits 1 1,
     lo_virgin = True \<rparr>"

definition sample_token :: asset_class where
  "sample_token = TokenClass (Token 5 an_zero)"

definition sample_ask :: limit_order where
  "sample_ask = sample_order Native sample_token 1000 (37 / 100) 10 1"

definition sample_bid :: limit_order where
  "sample_bid = sample_order sample_token Native 380 (100 / 38) 10 2"

lemma sample_side [simp]:
  "side_of Native sample_token = Ask" "side_of sample_token Native = Bid"
  by (simp_all add: side_of_def order_canonical_def sample_token_def less_asset_class_def asset_class_key_def)

lemmas sample_defs = sample_ask_def sample_bid_def sample_order_def limit_taker_def lo_price_def lo_side_def
  price_from_def

text \<open>
  Two crossing takers are settled at a price that neither of them would refuse: between the
  ask and the bid, and within three percent of the spot price moved into that spread, whatever
  fees the takers pay.
\<close>

theorem settled_price_in_spread:
  assumes "0 \<le> tk_price T ask" "tk_price T ask \<le> tk_price T bid"
  shows "tk_price T ask \<le> settle_price T ask bid (Some spot) \<and>
    settle_price T ask bid (Some spot) \<le> tk_price T bid \<and>
    \<bar>settle_price T ask bid (Some spot) - clamp spot (tk_price T ask) (tk_price T bid)\<bar> \<le>
      clamp spot (tk_price T ask) (tk_price T bid) * (3 / 100)"
  using settle_range [OF assms(2)] settle_pivot [OF assms(2,1)] by blast

theorem settled_price_in_spread_witness:
  "37 / 100 \<le> settle_price limit_taker sample_ask sample_bid (Some (1 / 2)) \<and>
   settle_price limit_taker sample_ask sample_bid (Some (1 / 2)) \<le> 38 / 100"
  using settled_price_in_spread [of limit_taker sample_ask sample_bid "1 / 2"] by (simp add: sample_defs)

text \<open>
  C24. A trade between two takers takes from neither more than it offers and gives both their limit
  price or a better one, up to the rounding of a single unit: the ask receives at least its price
  for the base it sells, less than one unit of the quote short, and the bid pays less than its
  price for one unit of base more than it receives. What one side gives, the other receives.
\<close>

theorem trade_within_limits:
  assumes "execute_with_taker T target counter (\<lambda>a b. settle_price T a b (Some spot)) = Some (ta, tb)"
    and "0 < tk_price T (tr_target ta)" "tk_price T (tr_target ta) \<le> tk_price T (tr_target tb)"
  shows "{tr_target ta, tr_target tb} = {target, counter} \<and>
    (\<exists>base quote.
      tr_result ta = tk_with_applied_trade T base quote (tr_target ta) \<and>
      tr_result tb = tk_with_applied_trade T quote base (tr_target tb) \<and>
      unat base \<le> unat (tk_input T (tr_target ta)) \<and> unat quote \<le> unat (tk_input T (tr_target tb)) \<and>
      of_nat (unat base) * tk_price T (tr_target ta) < of_nat (unat quote) + 1 \<and>
      of_nat (unat quote) < (of_nat (unat base) + 1) * tk_price T (tr_target tb))"
proof -
  obtain ask bid where ab: "(ask, bid) = (case tk_side T target of Ask \<Rightarrow> (target, counter) | Bid \<Rightarrow> (counter, target))"
    by (metis surj_pair)
  define p where "p = settle_price T ask bid (Some spot)"
  obtain quote base where q: "traded_amounts (tk_input T ask) (tk_input T bid) p = Some (quote, base)"
    and ta: "ta = Trans ask (tk_with_applied_trade T base quote ask)"
    and tb: "tb = Trans bid (tk_with_applied_trade T quote base bid)"
    using assms(1) unfolding execute_with_taker_def ab [symmetric] p_def
    by (auto simp: Let_def bind_eq_Some_conv)
  have spread: "tk_price T ask \<le> p" "p \<le> tk_price T bid"
    using settle_range [of T ask bid "Some spot"] assms(3) ta tb by (auto simp: p_def)
  have "0 < p" using spread assms(2) ta by simp
  note t = traded_amounts_ok [OF q this]
  have "of_nat (unat base) * tk_price T ask \<le> of_nat (unat base) * p"
    by (intro mult_left_mono spread of_nat_0_le_iff)
  moreover have "(of_nat (unat base) + 1) * p \<le> (of_nat (unat base) + 1) * tk_price T bid"
    by (intro mult_left_mono spread add_nonneg_nonneg of_nat_0_le_iff zero_le_one)
  moreover have "of_nat (unat base) * p \<le> (of_nat (unat base) + 1) * p - p" by (simp add: algebra_simps)
  ultimately have "of_nat (unat base) * tk_price T ask < of_nat (unat quote) + 1 \<and>
      of_nat (unat quote) < (of_nat (unat base) + 1) * tk_price T bid"
    using t \<open>0 < p\<close> by linarith
  moreover have "{ask, bid} = {target, counter}" using ab by (cases "tk_side T target") auto
  ultimately show ?thesis using t unfolding ta tb by auto
qed

theorem trade_within_limits_witness:
  "\<exists>ta tb base quote.
    execute_with_taker limit_taker sample_ask sample_bid
      (\<lambda>a b. settle_price limit_taker a b (Some (38 / 100))) = Some (ta, tb) \<and>
    tr_result ta = lo_with_applied_trade base quote sample_ask \<and>
    tr_result tb = lo_with_applied_trade quote base sample_bid \<and>
    unat base \<le> 1000 \<and> unat quote \<le> 380"
proof -
  have fields: "tk_price limit_taker sample_ask = 37 / 100" "tk_price limit_taker sample_bid = 38 / 100"
    "tk_input limit_taker sample_ask = 1000" "tk_input limit_taker sample_bid = 380"
    "tk_side limit_taker sample_ask = Ask" "tk_with_applied_trade limit_taker = lo_with_applied_trade"
    by (simp_all add: sample_defs)
  have p: "settle_price limit_taker sample_ask sample_bid (Some (38 / 100)) = 38 / 100"
    by (simp add: settle_price_def sample_defs clamp_def bias_percent_def)
  have amounts: "traded_amounts 1000 380 (38 / 100) = Some (380, 1000)"
    by (simp add: traded_amounts_def linear_output_unsafe_def linear_output_relative_def)
  obtain ta tb where x: "execute_with_taker limit_taker sample_ask sample_bid
      (\<lambda>a b. settle_price limit_taker a b (Some (38 / 100))) = Some (ta, tb)"
    and t: "tr_target ta = sample_ask" "tr_target tb = sample_bid"
    unfolding execute_with_taker_def fields Let_def
    by (simp only: side.case prod.case p fields amounts Option.bind.bind_lunit option.inject prod.inject) simp
  show ?thesis using trade_within_limits [OF x] x unfolding t by (auto simp: fields)
qed

subsection \<open>Recipes\<close>

lemma take_finalized_target: "take_finalized T e tr = Some tr' \<Longrightarrow> tr_target tr' = tr_target tr"
  by (auto simp: take_finalized_def bind_eq_Some_conv Let_def)

lemma finalize_takes_targets:
  "finalize_takes T takes e = Some (fts, rest) \<Longrightarrow>
    map (\<lambda>(i, tr). (i, tr_target tr)) fts = map (\<lambda>(i, tr). (i, tr_target tr)) takes"
proof (induction T takes e arbitrary: fts rest rule: finalize_takes.induct)
  case (2 T tid taken takes e)
  obtain x e' where xe: "(case tk_side T (tr_target taken) of
      Bid \<Rightarrow> (ex_base e, e\<lparr>ex_base := 0\<rparr>) | Ask \<Rightarrow> (ex_quote e, e\<lparr>ex_quote := 0\<rparr>)) = (x, e')"
    by (metis surj_pair)
  from 2(2) obtain ft fts' rest' where
    f: "take_finalized T x taken = Some ft" "finalize_takes T takes e' = Some (fts', rest')" "fts = (tid, ft) # fts'"
    by (auto simp: xe bind_eq_Some_conv)
  show ?case using 2(1) [OF xe [symmetric] refl f(1) f(2)] f take_finalized_target [OF f(1)] by simp
qed simp

lemma make_finalized_swap:
  "make_finalized M tr = Some (Some (tr', e)) \<Longrightarrow>
    \<exists>input. tr' = Trans (tr_target tr) (Succ (mk_swap M input (tr_target tr)))"
  by (auto simp: make_finalized_def Let_def bind_eq_Some_conv split: next_state.splits option.splits)

lemma finalize_makes_swaps:
  "finalize_makes M makes e = Some (Some (fms, e')) \<Longrightarrow>
    \<forall>x \<in> set fms. \<exists>input. snd x = Trans (tr_target (snd x)) (Succ (mk_swap M input (tr_target (snd x))))"
proof (induction M makes e arbitrary: fms e' rule: finalize_makes.induct)
  case (2 M mid made makes acc)
  from 2(2) obtain fm e1 fms1 where
    f: "make_finalized M made = Some (Some (fm, e1))"
    "finalize_makes M makes \<lparr> ex_base = ex_base acc + ex_base e1, ex_quote = ex_quote acc + ex_quote e1 \<rparr> =
      Some (Some (fms1, e'))" "fms = (mid, fm) # fms1"
    by (auto split: option.splits)
  show ?case using 2(1) [OF f(1) refl refl f(2)] make_finalized_swap [OF f(1)] f(3) by auto
qed simp

lemma attempt_finalized_some:
  assumes "attempt_finalized T M a = Some (Some r)"
  shows "map (\<lambda>(i, tr). (i, tr_target tr)) (fr_takes r) = map (\<lambda>(i, tr). (i, tr_target tr)) (ma_takes a) \<and>
    (\<forall>x \<in> set (fr_makes r). \<exists>input. snd x = Trans (tr_target (snd x)) (Succ (mk_swap M input (tr_target (snd x))))) \<and>
    fr_ordering r = ma_ordering a"
  using assms finalize_makes_swaps [of M "ma_makes a" "\<lparr> ex_base = 0, ex_quote = 0 \<rparr>"]
  by (auto simp: attempt_finalized_def split: option.splits prod.splits if_splits dest: finalize_takes_targets)

lemma unsatisfied_of_iff:
  "unsatisfied_of T takes = Some us \<Longrightarrow>
    set us = {tr_target tr | i tr added. (i, tr) \<in> set takes \<and> tip_added_output T tr = Some added \<and>
      added < tk_min_marginal_output T (tr_target tr)} \<and>
    (\<forall>(i, tr) \<in> set takes. \<exists>added. tip_added_output T tr = Some added)"
proof (induction takes arbitrary: us)
  case (Cons x takes)
  obtain i tr where x: "x = (i, tr)" by (cases x)
  from Cons.prems x obtain added rest where
    a: "tip_added_output T tr = Some added" "unsatisfied_of T takes = Some rest"
    "us = (if added < tk_min_marginal_output T (tr_target tr) then tr_target tr # rest else rest)"
    by (auto simp: bind_eq_Some_conv)
  show ?case using Cons.IH [OF a(2)] a(1,3) x by (auto split: if_splits)
qed simp

lemma take_positions_snd: "take_positions T index xs = Some ps \<Longrightarrow> map snd ps = xs"
  by (induction T index xs arbitrary: ps rule: take_positions.induct) (auto simp: bind_eq_Some_conv)

lemma sort_takes_mset: "sort_takes T ordr takes = Some takes' \<Longrightarrow> mset takes' = mset takes"
proof (cases "length takes < 2")
  case False
  assume "sort_takes T ordr takes = Some takes'"
  then obtain ps where ps: "take_positions T (rev (zip ordr [0..<length ordr])) takes = Some ps"
    "takes' = map snd (sort_key fst ps)"
    using False by (auto simp: sort_takes_def)
  have "mset takes' = image_mset snd (mset ps)" using ps(2) by simp
  also have "\<dots> = mset takes" using take_positions_snd [OF ps(1)] by (metis mset_map)
  finally show ?thesis .
qed (auto simp: sort_takes_def)

text \<open>
  C12. A recipe that comes out of an attempt can be executed as it is: it lists the takes, then the
  makes; its takes are those of the attempt, each started from the taker as it stood in the book
  and each given at least the taker's least output per step; every make is a single swap of the
  maker as it stood in the book, in one direction; and takes have budget for at least half a step
  per make.
\<close>

theorem recipe_executable:
  assumes "recipe_try_from T M b a = Some (Inr recipe)"
  shows "\<exists>takes makes. recipe = map Inl takes @ map Inr makes \<and>
    mset (map tr_target takes) = mset (map (tr_target \<circ> snd) (ma_takes a)) \<and>
    (\<forall>tr \<in> set takes. \<exists>added. tip_added_output T tr = Some added \<and> tk_min_marginal_output T (tr_target tr) \<le> added) \<and>
    (\<forall>tr \<in> set makes. mip_trade_side M tr \<noteq> None \<and> (\<exists>input. tr_result tr = Succ (mk_swap M input (tr_target tr)))) \<and>
    (makes \<noteq> [] \<longrightarrow> 1 / 2 \<le> (of_nat (length takes) / of_nat (length makes) :: rat) *
       (of_nat (unat (\<Sum>tr \<leftarrow> takes. tk_consumable_budget T (tr_target tr))) / of_nat (unat (max b 1))))"
proof -
  from assms obtain r us where
    r: "attempt_finalized T M a = Some (Some r)" and us: "unsatisfied_fragments T r = Some us"
    and rest: "us = []" "check_recipe_complexity T b r"
    by (auto simp: recipe_try_from_def bind_eq_Some_conv Let_def split: if_splits option.splits)
  then obtain takes where
    takes: "sort_takes T (fr_ordering r) (map snd (fr_takes r)) = Some takes"
    and zero: "\<not> (\<exists>x \<in> set (map snd (fr_makes r)). mip_is_zero M x)"
    and recipe: "recipe = map Inl takes @ map Inr (map snd (fr_makes r))"
    using assms by (auto simp: recipe_try_from_def bind_eq_Some_conv Let_def split: if_splits)
  note fin = attempt_finalized_some [OF r]
  note m = sort_takes_mset [OF takes]
  have "map (tr_target \<circ> snd) (fr_takes r) = map (snd \<circ> (\<lambda>(i, tr). (i, tr_target tr))) (fr_takes r)"
    by (simp add: case_prod_beta')
  also have "\<dots> = map (snd \<circ> (\<lambda>(i, tr). (i, tr_target tr))) (ma_takes a)"
    using fin by (metis map_map)
  also have "\<dots> = map (tr_target \<circ> snd) (ma_takes a)" by (simp add: case_prod_beta')
  finally have targets: "mset (map tr_target takes) = mset (map (tr_target \<circ> snd) (ma_takes a))"
    using m by (metis map_map mset_map)
  have sat: "\<exists>added. tip_added_output T tr = Some added \<and> tk_min_marginal_output T (tr_target tr) \<le> added"
    if "tr \<in> set takes" for tr
  proof -
    have "tr \<in> snd ` set (fr_takes r)" using that m by (metis mset_eq_setD set_map)
    then obtain i where i: "(i, tr) \<in> set (fr_takes r)" by auto
    note u = unsatisfied_of_iff [OF us [unfolded unsatisfied_fragments_def]]
    obtain added where "tip_added_output T tr = Some added" using u i by blast
    moreover from this have "\<not> added < tk_min_marginal_output T (tr_target tr)" using u i rest(1) by auto
    ultimately show ?thesis by auto
  qed
  have makes: "mip_trade_side M tr \<noteq> None \<and> (\<exists>input. tr_result tr = Succ (mk_swap M input (tr_target tr)))"
    if tr: "tr \<in> set (map snd (fr_makes r))" for tr
  proof -
    obtain i where "(i, tr) \<in> set (fr_makes r)" using tr by auto
    then obtain input where "tr = Trans (tr_target tr) (Succ (mk_swap M input (tr_target tr)))" using fin by fastforce
    then show ?thesis using zero tr by (metis mip_is_zero_def trans.sel(2))
  qed
  have "length takes = length (fr_takes r)" using m by (metis length_map size_mset)
  moreover have "(\<Sum>tr \<leftarrow> takes. tk_consumable_budget T (tr_target tr)) =
      (\<Sum>(_, tr) \<leftarrow> fr_takes r. tk_consumable_budget T (tr_target tr))"
    using arg_cong [OF m, of "\<lambda>x. \<Sum>tr \<in># x. tk_consumable_budget T (tr_target tr)"]
    by (simp add: sum_mset_sum_list [symmetric] case_prod_beta' image_mset.compositionality comp_def)
  ultimately have "1 / 2 \<le> (of_nat (length takes) / of_nat (length (fr_makes r)) :: rat) *
       (of_nat (unat (\<Sum>tr \<leftarrow> takes. tk_consumable_budget T (tr_target tr))) / of_nat (unat (max b 1)))"
    if "fr_makes r \<noteq> []"
    using rest(2) that unfolding check_recipe_complexity_def base_take_to_make_ratio_def Let_def
    by (simp only: length_greater_0_conv if_True simp_thms)
  then show ?thesis using recipe targets sat makes by (intro exI [of _ takes] exI [of _ "map snd (fr_makes r)"]) auto
qed

definition sample_take :: "limit_order \<Rightarrow> u64 \<Rightarrow> limit_order take_in_progress" where
  "sample_take ordr received = Trans ordr (lo_with_applied_trade (lo_input_amount ordr) received ordr)"

definition sample_batch :: "(limit_order, 'm, token, ex_units) matchmaking_attempt" where
  "sample_batch = add_take limit_taker (sample_take sample_bid 1000)
     (add_take limit_taker (sample_take sample_ask 380) attempt_empty)"

lemma sample_batch_recipe:
  "\<exists>takes. length takes = 2 \<and> recipe_try_from limit_taker M 10 sample_batch = Some (Inr (map Inl takes))"
proof -
  have ids: "lo_stable_id sample_ask \<noteq> lo_stable_id sample_bid"
    by (simp add: lo_stable_id_def sample_ask_def sample_bid_def sample_order_def)
  have ops: "tk_id limit_taker = lo_stable_id" "tk_marginal_cost_hint limit_taker = lo_marginal_cost"
    "tk_side limit_taker sample_ask = Ask" "tk_side limit_taker sample_bid = Bid"
    "tk_min_marginal_output limit_taker = lo_min_marginal_output"
    by (simp_all add: sample_defs)
  define a where "a = sample_take sample_ask 380"
  define b where "b = sample_take sample_bid 1000"
  have targets [simp]: "tr_target a = sample_ask" "tr_target b = sample_bid"
    by (simp_all add: a_def b_def sample_take_def)
  have batch: "ma_takes sample_batch = [(lo_stable_id sample_ask, a), (lo_stable_id sample_bid, b)]"
    "ma_makes sample_batch = []" "ma_ordering sample_batch = [lo_stable_id sample_ask, lo_stable_id sample_bid]"
    using ids unfolding sample_batch_def a_def [symmetric] b_def [symmetric]
    by (simp_all add: add_take_def attempt_empty_def ops Let_def AList.delete_eq)
  obtain a' b' where fin: "take_finalized limit_taker 0 a = Some a'" "take_finalized limit_taker 0 b = Some b'"
    "tip_added_output limit_taker a' = Some 380" "tip_added_output limit_taker b' = Some 1000"
    by (simp add: a_def b_def sample_take_def take_finalized_def tip_removed_input_def tip_added_output_def
        sample_defs lo_with_applied_trade_def lo_terminal_def checked_sub_def Let_def tt_with_budget_corrected_def
        tt_with_fee_charged_def tt_with_output_added_def corrected_budget_def)
  have t': "tr_target a' = sample_ask" "tr_target b' = sample_bid"
    using fin(1,2) take_finalized_target by fastforce+
  have min: "lo_min_marginal_output sample_ask = 1" "lo_min_marginal_output sample_bid = 1"
    by (simp_all add: sample_ask_def sample_bid_def sample_order_def)
  have "recipe_try_from limit_taker M 10 sample_batch = Some (Inr (map Inl [a', b']))"
    using ids by (simp add: recipe_try_from_def is_complete_def attempt_finalized_def batch ops fin t' min
        unsatisfied_fragments_def check_recipe_complexity_def sort_takes_def Let_def upt_rec)
  then show ?thesis by (intro exI [of _ "[a', b']"]) simp
qed

theorem recipe_executable_witness:
  "\<forall>M :: (unit, token, ex_units) maker_ops. \<exists>takes makes.
    recipe_try_from limit_taker M 10 sample_batch = Some (Inr (map Inl takes @ map Inr makes)) \<and>
    mset (map tr_target takes) = mset (map (tr_target \<circ> snd)
      (ma_takes (sample_batch :: (limit_order, unit, token, ex_units) matchmaking_attempt))) \<and>
    (\<forall>tr \<in> set takes. \<exists>added. tip_added_output limit_taker tr = Some added \<and>
      lo_min_marginal_output (tr_target tr) \<le> added)"
proof
  fix M :: "(unit, token, ex_units) maker_ops"
  obtain ts where "recipe_try_from limit_taker M 10 sample_batch = Some (Inr (map Inl ts))"
    using sample_batch_recipe by blast
  from recipe_executable [OF this] this show "\<exists>takes makes.
    recipe_try_from limit_taker M 10 sample_batch = Some (Inr (map Inl takes @ map Inr makes)) \<and>
    mset (map tr_target takes) = mset (map (tr_target \<circ> snd)
      (ma_takes (sample_batch :: (limit_order, unit, token, ex_units) matchmaking_attempt))) \<and>
    (\<forall>tr \<in> set takes. \<exists>added. tip_added_output limit_taker tr = Some added \<and>
      lo_min_marginal_output (tr_target tr) \<le> added)"
    by (fastforce simp: limit_taker_def)
qed

subsection \<open>Linking\<close>

fun instruction_id :: "('t, 'k, 'id, 'u) taker_ops \<Rightarrow> ('m, 'id, 'u) maker_ops \<Rightarrow> ('t, 'm) instruction \<Rightarrow> 'id" where
  "instruction_id T M (Inl tr) = tk_id T (tr_target tr)"
| "instruction_id T M (Inr tr) = mk_id M (tr_target tr)"

definition unlinked :: "('t, 'm, 'b) execution \<Rightarrow> ('t, 'm) instruction" where
  "unlinked = map_sum (trans_map_target bd_entity) (trans_map_target bd_entity)"

fun bearer_of :: "('t, 'm, 'b) execution \<Rightarrow> 'b" where
  "bearer_of (Inl tr) = bd_bearer (tr_target tr)"
| "bearer_of (Inr tr) = bd_bearer (tr_target tr)"

lemma link_instructions_ok:
  assumes "\<forall>i \<in> set recipe. lnk (instruction_id T M i) \<noteq> None"
  shows "\<exists>is vs. link_instructions T M lnk recipe = (is, vs, []) \<and> map unlinked is = recipe \<and>
    map (\<lambda>i. lnk (instruction_id T M i)) recipe = map Some (zip vs (map bearer_of is)) \<and> length vs = length is"
  using assms
proof (induction recipe)
  case (Cons i recipe)
  then obtain "is" vs where IH: "link_instructions T M lnk recipe = (is, vs, [])" "map unlinked is = recipe"
    "map (\<lambda>i. lnk (instruction_id T M i)) recipe = map Some (zip vs (map bearer_of is))" "length vs = length is"
    by auto
  obtain v b where "lnk (instruction_id T M i) = Some (v, b)" using Cons.prems by fastforce
  then show ?case using IH by (cases i) (auto simp: unlinked_def trans_map_target_def)
qed simp

lemma link_instructions_orphans:
  "link_instructions T M lnk recipe = (is, vs, os) \<Longrightarrow>
    os = map (map_sum tr_target tr_target) (filter (\<lambda>i. lnk (instruction_id T M i) = None) recipe)"
  by (induction T M lnk recipe arbitrary: "is" vs os rule: link_instructions.induct)
    (auto split: prod.splits option.splits)

text \<open>
  Linking a recipe to the ledger is all or nothing: it fails with exactly the takers and makers
  that have no output on the ledger, in the order of the recipe, or it gives the recipe back with
  every target bundled with its own output, in the same order, and the set of the versions used.
\<close>

theorem link_all_or_orphans:
  "case recipe_link T M lnk recipe of
     Inl orphans \<Rightarrow> orphans \<noteq> [] \<and>
       orphans = map (map_sum tr_target tr_target) (filter (\<lambda>i. lnk (instruction_id T M i) = None) recipe)
   | Inr (is, versions) \<Rightarrow> map unlinked is = recipe \<and>
       map (\<lambda>i. map_option snd (lnk (instruction_id T M i))) recipe = map (Some \<circ> bearer_of) is \<and>
       versions = {v. \<exists>i b. i \<in> set recipe \<and> lnk (instruction_id T M i) = Some (v, b)}"
proof (cases "\<forall>i \<in> set recipe. lnk (instruction_id T M i) \<noteq> None")
  case True
  from link_instructions_ok [OF this] obtain "is" vs where
    l: "link_instructions T M lnk recipe = (is, vs, [])" "map unlinked is = recipe"
    "map (\<lambda>i. lnk (instruction_id T M i)) recipe = map Some (zip vs (map bearer_of is))" "length vs = length is"
    by auto
  have "map (\<lambda>i. map_option snd (lnk (instruction_id T M i))) recipe =
      map (map_option snd) (map (\<lambda>i. lnk (instruction_id T M i)) recipe)" by simp
  also have "\<dots> = map (Some \<circ> snd) (zip vs (map bearer_of is))" unfolding l(3) by simp
  also have "\<dots> = map Some (map snd (zip vs (map bearer_of is)))" by simp
  also have "\<dots> = map (Some \<circ> bearer_of) is" using l(4) by simp
  finally have bearers: "map (\<lambda>i. map_option snd (lnk (instruction_id T M i))) recipe = map (Some \<circ> bearer_of) is" .
  define pairs where "pairs = zip vs (map bearer_of is)"
  have "(v, b) \<in> set pairs \<longleftrightarrow> (\<exists>i \<in> set recipe. lnk (instruction_id T M i) = Some (v, b))" for v b
  proof -
    have "(v, b) \<in> set pairs \<longleftrightarrow> Some (v, b) \<in> Some ` set pairs" by blast
    also have "\<dots> \<longleftrightarrow> Some (v, b) \<in> (\<lambda>i. lnk (instruction_id T M i)) ` set recipe"
      using arg_cong [OF l(3), of set] unfolding pairs_def by (simp only: set_map)
    also have "\<dots> \<longleftrightarrow> (\<exists>i \<in> set recipe. lnk (instruction_id T M i) = Some (v, b))"
      unfolding image_iff by (metis (mono_tags))
    finally show ?thesis .
  qed
  note member = this
  have "set vs = fst ` set pairs" using l(4) unfolding pairs_def by (metis length_map map_fst_zip set_map)
  also have "\<dots> = {v. \<exists>b. (v, b) \<in> set pairs}" by force
  finally have "set vs = {v. \<exists>i b. i \<in> set recipe \<and> lnk (instruction_id T M i) = Some (v, b)}"
    unfolding member by blast
  then show ?thesis using l bearers by (simp add: recipe_link_def)
next
  case False
  obtain "is" vs os where l: "link_instructions T M lnk recipe = (is, vs, os)" by (metis surj_pair)
  have "os \<noteq> []" using False unfolding link_instructions_orphans [OF l] by (auto simp: filter_empty_conv)
  then show ?thesis using l link_instructions_orphans [OF l] by (simp add: recipe_link_def)
qed

end
