(* ===== verification/Lb_State_Spec.thy ===== *)
theory Lb_State_Spec
  imports Lb_State
begin

text \<open>
  What the state automaton of the liquidity book promises. The takers of a book form a finite set
  on which side and key identify a taker; every operation on such sets is a set operation
  (\<open>mt_insert_elems\<close>, \<open>mt_remove_elems\<close>), and two sets with the same elements are the same
  set (\<open>mt_unique\<close>). From that follows the abstract view of a preview: the book it was taken
  from. The relation \<open>preview_step\<close> holds the operations of a matchmaking attempt, and
  \<open>previews\<close>, kept by all of them, says that the state is a preview of a given book.
\<close>

subsection \<open>Sets of takers\<close>

definition skey :: "('t, 'k, 'id, 'u) taker_ops \<Rightarrow> 't \<Rightarrow> side \<times> 'k" where
  "skey T t = (tk_side T t, tk_key T t)"

definition mt_elems :: "'t market_takers \<Rightarrow> 't set" where
  "mt_elems m = set (mt_asks m) \<union> set (mt_bids m)"

definition mt_ok :: "('t, 'k::linorder, 'id, 'u) taker_ops \<Rightarrow> 't market_takers \<Rightarrow> bool" where
  "mt_ok T m \<longleftrightarrow> bts_ok (tk_key T) (mt_asks m) \<and> bts_ok (tk_key T) (mt_bids m) \<and>
     (\<forall>t \<in> set (mt_asks m). tk_side T t = Ask) \<and> (\<forall>t \<in> set (mt_bids m). tk_side T t = Bid)"

lemma mt_new_elems [simp]: "mt_elems mt_new = {}" "mt_ok T mt_new"
  by (simp_all add: mt_elems_def mt_new_def mt_ok_def)

lemma mt_unique:
  assumes "mt_ok T m" "mt_ok T m'" "mt_elems m = mt_elems m'"
  shows "m = m'"
proof -
  have sides: "set (mt_asks x) = {t \<in> mt_elems x. tk_side T t = Ask}"
    "set (mt_bids x) = {t \<in> mt_elems x. tk_side T t = Bid}" if "mt_ok T x" for x
    using that by (auto simp: mt_ok_def mt_elems_def)
  have "mt_asks m = mt_asks m'" "mt_bids m = mt_bids m'"
    using assms sides [OF assms(1)] sides [OF assms(2)] by (auto simp: mt_ok_def intro: bts_unique)
  then show ?thesis by simp
qed

lemma mt_insert_ok [intro]: "mt_ok T m \<Longrightarrow> mt_ok T (mt_insert T t m)"
  using bts_insert_set [of "tk_key T" t "mt_asks m"] bts_insert_set [of "tk_key T" t "mt_bids m"]
  by (auto simp: mt_ok_def mt_insert_def bts_insert_ok split: side.splits)

lemma mt_remove_ok [intro]: "mt_ok T m \<Longrightarrow> mt_ok T (mt_remove T t m)"
  by (auto simp: mt_ok_def mt_remove_def bts_remove_ok bts_remove_set split: side.splits)

lemma bts_insert_elems:
  assumes "inj_on (skey T) E" "set xs \<subseteq> E" "t \<in> E" "\<forall>x \<in> set xs. tk_side T x = tk_side T t"
  shows "set (bts_insert (tk_key T) t xs) = insert t (set xs)"
proof (cases "t \<in> set xs")
  case True
  then show ?thesis using bts_insert_mono bts_insert_set by fastforce
next
  case False
  have "tk_key T t \<notin> tk_key T ` set xs"
  proof
    assume "tk_key T t \<in> tk_key T ` set xs"
    then obtain x where "x \<in> set xs" "skey T x = skey T t" using assms(4) by (auto simp: skey_def)
    then show False using assms(1-3) False by (metis inj_onD subsetD)
  qed
  then show ?thesis by (rule bts_insert_fresh)
qed

lemma mt_insert_elems:
  assumes "inj_on (skey T) E" "mt_elems m \<subseteq> E" "t \<in> E" "mt_ok T m"
  shows "mt_elems (mt_insert T t m) = insert t (mt_elems m)"
proof -
  have "set (mt_asks m) \<subseteq> E" "set (mt_bids m) \<subseteq> E" using assms(2) by (auto simp: mt_elems_def)
  then show ?thesis
    using assms bts_insert_elems [OF assms(1), of "mt_asks m" t] bts_insert_elems [OF assms(1), of "mt_bids m" t]
    by (cases "tk_side T t") (auto simp: mt_insert_def mt_elems_def mt_ok_def)
qed

lemma mt_remove_elems:
  assumes "inj_on (skey T) E" "mt_elems m \<subseteq> E" "t \<in> E" "mt_ok T m"
  shows "mt_elems (mt_remove T t m) = mt_elems m - {t}"
proof -
  have same: "x = t" if "x \<in> mt_elems m" "tk_key T x = tk_key T t" "tk_side T x = tk_side T t" for x
    using that assms(1-3) by (metis inj_onD skey_def subsetD)
  show ?thesis
    using assms(4) same
    by (cases "tk_side T t") (auto simp: mt_remove_def mt_elems_def bts_remove_set mt_ok_def)
qed

lemma mt_ok_inj: "mt_ok T m \<Longrightarrow> inj_on (skey T) (mt_elems m)"
  by (rule inj_onI) (auto simp: mt_ok_def mt_elems_def skey_def dest: bts_inj)

lemma fold_insert_elems:
  assumes "inj_on (skey T) E" "set ts \<subseteq> E" "mt_elems m \<subseteq> E" "mt_ok T m"
  shows "mt_ok T (fold (mt_insert T) ts m) \<and> mt_elems (fold (mt_insert T) ts m) = set ts \<union> mt_elems m"
  using assms(2-)
proof (induction ts arbitrary: m)
  case (Cons t ts)
  have "mt_elems (mt_insert T t m) = insert t (mt_elems m)"
    using Cons.prems assms(1) by (intro mt_insert_elems) auto
  then show ?case using Cons.IH [of "mt_insert T t m"] Cons.prems by auto
qed simp

lemma fold_remove_elems:
  assumes "inj_on (skey T) E" "set ts \<subseteq> E" "mt_elems m \<subseteq> E" "mt_ok T m"
  shows "mt_ok T (fold (mt_remove T) ts m) \<and> mt_elems (fold (mt_remove T) ts m) = mt_elems m - set ts"
  using assms(2-)
proof (induction ts arbitrary: m)
  case (Cons t ts)
  have "mt_elems (mt_remove T t m) = mt_elems m - {t}"
    using Cons.prems assms(1) by (intro mt_remove_elems) auto
  then show ?case using Cons.IH [of "mt_remove T t m"] Cons.prems by auto
qed simp

subsection \<open>Choices\<close>

text \<open>A choice takes out of a set of takers the one it returns, and nothing else.\<close>

definition picks :: "('t, 'k::linorder, 'id, 'u) taker_ops \<Rightarrow>
    ('t market_takers \<Rightarrow> 't option \<times> 't market_takers) \<Rightarrow> bool" where
  "picks T f \<longleftrightarrow> (\<forall>m res m'. mt_ok T m \<longrightarrow> f m = (res, m') \<longrightarrow>
     mt_ok T m' \<and> mt_elems m = mt_elems m' \<union> set_option res \<and> mt_elems m' \<inter> set_option res = {})"

lemma picksD:
  assumes "picks T f" "mt_ok T m" "f m = (res, m')"
  shows "mt_ok T m' \<and> mt_elems m = mt_elems m' \<union> set_option res \<and> mt_elems m' \<inter> set_option res = {}"
  using assms unfolding picks_def by blast

lemma bts_reinsert_first: "bts_ok key (x # xs) \<Longrightarrow> bts_insert key x xs = x # xs"
  by (cases xs) auto

lemma mt_ok_asks_tl: "mt_ok T m \<Longrightarrow> mt_ok T (m\<lparr>mt_asks := tl (mt_asks m)\<rparr>)"
  and mt_ok_bids_tl: "mt_ok T m \<Longrightarrow> mt_ok T (m\<lparr>mt_bids := tl (mt_bids m)\<rparr>)"
  by (cases "mt_asks m"; cases "mt_bids m"; simp add: mt_ok_def)+

lemma mt_side_disjoint: "mt_ok T m \<Longrightarrow> set (mt_asks m) \<inter> set (mt_bids m) = {}"
  by (auto simp: mt_ok_def)

lemma take_first_ask:
  assumes "mt_ok T m" "mt_asks m = x # xs"
  shows "mt_ok T (m\<lparr>mt_asks := xs\<rparr>) \<and> mt_elems m = mt_elems (m\<lparr>mt_asks := xs\<rparr>) \<union> {x} \<and>
    x \<notin> mt_elems (m\<lparr>mt_asks := xs\<rparr>)"
  using assms mt_ok_asks_tl [OF assms(1)] mt_side_disjoint [OF assms(1)]
  by (auto simp: mt_elems_def mt_ok_def)

lemma take_first_bid:
  assumes "mt_ok T m" "mt_bids m = x # xs"
  shows "mt_ok T (m\<lparr>mt_bids := xs\<rparr>) \<and> mt_elems m = mt_elems (m\<lparr>mt_bids := xs\<rparr>) \<union> {x} \<and>
    x \<notin> mt_elems (m\<lparr>mt_bids := xs\<rparr>)"
  using assms mt_ok_bids_tl [OF assms(1)] mt_side_disjoint [OF assms(1)]
  by (auto simp: mt_elems_def mt_ok_def)

lemma mt_ok_sorted: "mt_ok T m \<Longrightarrow> bts_ok (tk_key T) (mt_asks m) \<and> bts_ok (tk_key T) (mt_bids m)"
  by (simp add: mt_ok_def)

lemma bts_remove_first: "bts_ok key (x # xs) \<Longrightarrow> bts_remove key x (x # xs) = xs"
  by (auto simp: bts_remove_def intro!: filter_True)

lemma mt_remove_first_ask:
  assumes "mt_ok T m" "mt_asks m = x # xs"
  shows "mt_remove T x m = m\<lparr>mt_asks := xs\<rparr>"
  using assms bts_remove_first [of "tk_key T" x xs] by (simp add: mt_ok_def mt_remove_def)

lemma mt_remove_first_bid:
  assumes "mt_ok T m" "mt_bids m = y # ys"
  shows "mt_remove T y m = m\<lparr>mt_bids := ys\<rparr>"
  using assms bts_remove_first [of "tk_key T" y ys] by (simp add: mt_ok_def mt_remove_def)

lemma picks_nothing: "mt_ok T m \<Longrightarrow> mt_ok T m \<and> mt_elems m = mt_elems m \<union> set_option None \<and>
    mt_elems m \<inter> set_option None = {}"
  by simp

lemma bts_first_cons: "bts_first xs = Some x \<longleftrightarrow> (\<exists>ys. xs = x # ys)"
  by (cases xs) auto

lemma bts_first_none [simp]: "bts_first xs = None \<longleftrightarrow> xs = []"
  by (cases xs) auto

lemma picks_max_by_distance: "picks T (max_by_distance_to_spot T spot r)"
proof (unfold picks_def, intro allI impI)
  fix m res m'
  assume ok: "mt_ok T m" and run: "max_by_distance_to_spot T spot r m = (res, m')"
  have "m' = (case res of Some t \<Rightarrow> mt_remove T t m | None \<Rightarrow> m)"
    using run by (auto simp: max_by_distance_to_spot_def Let_def)
  moreover have "(\<exists>xs. mt_asks m = t # xs) \<or> (\<exists>xs. mt_bids m = t # xs)" if "res = Some t" for t
    using run that
    by (auto simp: max_by_distance_to_spot_def Let_def choose_max_volume_def bind_eq_Some_conv bts_first_cons
        dest!: test_ask_some test_bid_some split: option.splits if_splits)
  ultimately show "mt_ok T m' \<and> mt_elems m = mt_elems m' \<union> set_option res \<and> mt_elems m' \<inter> set_option res = {}"
    using ok take_first_ask [OF ok] take_first_bid [OF ok] mt_remove_first_ask [OF ok] mt_remove_first_bid [OF ok]
    by (cases res) fastforce+
qed

lemma market_takers_same [simp]: "m\<lparr>mt_asks := mt_asks m\<rparr> = m" "m\<lparr>mt_bids := mt_bids m\<rparr> = m"
  by simp_all

lemma picks_try_pick_fr: "picks T (try_pick_fr T side test)"
proof (unfold picks_def, intro allI impI)
  fix m res m'
  assume ok: "mt_ok T m" and run: "try_pick_fr T side test m = (res, m')"
  have putback: "mt_asks m = x # xs \<Longrightarrow> m\<lparr>mt_asks := bts_insert (tk_key T) x xs\<rparr> = m"
    "mt_bids m = x # xs \<Longrightarrow> m\<lparr>mt_bids := bts_insert (tk_key T) x xs\<rparr> = m" for x xs
    using bts_reinsert_first [of "tk_key T" x xs] mt_ok_sorted [OF ok] by (metis market_takers_same)+
  show "mt_ok T m' \<and> mt_elems m = mt_elems m' \<union> set_option res \<and> mt_elems m' \<inter> set_option res = {}"
    using run ok take_first_ask [OF ok] take_first_bid [OF ok] putback
    by (cases side) (fastforce simp: try_pick_fr_def split: list.splits if_splits)+
qed

lemma picks_best_fr_either: "picks T (pick_best_fr_either_from T ip)"
proof (unfold picks_def, intro allI impI)
  fix m res m'
  assume ok: "mt_ok T m" and run: "pick_best_fr_either_from T ip m = (res, m')"
  have putback: "mt_asks m = x # xs \<Longrightarrow> bts_insert (tk_key T) x xs = mt_asks m"
    "mt_bids m = x # xs \<Longrightarrow> bts_insert (tk_key T) x xs = mt_bids m" for x xs
    using bts_reinsert_first [of "tk_key T" x xs] mt_ok_sorted [OF ok] by metis+
  have shape: "m' = m \<and> res = None \<or> (\<exists>x xs. mt_asks m = x # xs \<and> res = Some x \<and> m' = m\<lparr>mt_asks := xs\<rparr>) \<or>
    (\<exists>x xs. mt_bids m = x # xs \<and> res = Some x \<and> m' = m\<lparr>mt_bids := xs\<rparr>)"
    using run putback
    by (cases "mt_asks m"; cases "mt_bids m")
      (auto simp: pick_best_fr_either_from_def Let_def split: option.splits if_splits)
  show "mt_ok T m' \<and> mt_elems m = mt_elems m' \<union> set_option res \<and> mt_elems m' \<inter> set_option res = {}"
    using shape ok take_first_ask [OF ok] take_first_bid [OF ok] by fastforce
qed

subsection \<open>Previews of a book\<close>

definition book_elems :: "('t, 'm, 'id) idle_state \<Rightarrow> 't set" where
  "book_elems st0 = mt_elems (ch_active (id_takers st0))"

definition book_ok :: "('t, 'k::linorder, 'id, 'u) taker_ops \<Rightarrow> ('t, 'm, 'id) idle_state \<Rightarrow> bool" where
  "book_ok T st0 \<longleftrightarrow> mt_ok T (ch_active (id_takers st0))"

definition part_of :: "('t, 'k::linorder, 'id, 'u) taker_ops \<Rightarrow> ('t, 'm, 'id) idle_state \<Rightarrow> 't chronology \<Rightarrow> bool" where
  "part_of T st0 c \<longleftrightarrow> ch_time_now c = ch_time_now (id_takers st0) \<and>
     ch_inactive c = ch_inactive (id_takers st0) \<and> mt_ok T (ch_active c)"

fun previews ::
    "('t, 'k::linorder, 'id, 'u) taker_ops \<Rightarrow> ('t, 'm, 'id) idle_state \<Rightarrow> ('t, 'm, 'id) tlb_state \<Rightarrow> bool" where
  "previews T st0 (Idle st) \<longleftrightarrow> st = st0"
| "previews T st0 (PartialPreview st) \<longleftrightarrow>
     part_of T st0 (pp_takers_preview st) \<and> pp_makers_intact st = id_makers st0 \<and>
     mt_elems (ch_active (pp_takers_preview st)) \<union> set (pp_consumed_active_takers st) \<union>
       set (pp_stashed_active_takers st) = book_elems st0 \<and>
     (mt_elems (ch_active (pp_takers_preview st)) \<union> set (pp_consumed_active_takers st)) \<inter>
       set (pp_stashed_active_takers st) = {}"
| "previews T st0 (Preview st) \<longleftrightarrow>
     part_of T st0 (pv_takers_intact st) \<and> pv_makers_intact st = id_makers st0 \<and>
     mt_elems (ch_active (pv_takers_intact st)) \<union> set (pv_stashed_active_takers st) = book_elems st0 \<and>
     mt_elems (ch_active (pv_takers_intact st)) \<inter> set (pv_stashed_active_takers st) = {} \<and>
     mt_ok T (pv_active_takers_preview st)"

lemma part_of_reinsert:
  assumes "book_ok T st0" "part_of T st0 c" "mt_elems (ch_active c) \<subseteq> book_elems st0" "set ts \<subseteq> book_elems st0"
  shows "part_of T st0 (reinsert T ts c) \<and>
    mt_elems (ch_active (reinsert T ts c)) = set ts \<union> mt_elems (ch_active c)"
proof -
  have "inj_on (skey T) (book_elems st0)" using assms(1) mt_ok_inj by (auto simp: book_ok_def book_elems_def)
  from fold_insert_elems [OF this assms(4,3)] assms(2) show ?thesis
    by (simp add: part_of_def reinsert_def)
qed

lemma part_of_take_out:
  assumes "book_ok T st0" "part_of T st0 c" "mt_elems (ch_active c) \<subseteq> book_elems st0" "set ts \<subseteq> book_elems st0"
  shows "part_of T st0 (take_out T ts c) \<and>
    mt_elems (ch_active (take_out T ts c)) = mt_elems (ch_active c) - set ts"
proof -
  have "inj_on (skey T) (book_elems st0)" using assms(1) mt_ok_inj by (auto simp: book_ok_def book_elems_def)
  from fold_remove_elems [OF this assms(4,3)] assms(2) show ?thesis
    by (simp add: part_of_def take_out_def)
qed

lemma part_of_whole:
  assumes "book_ok T st0" "part_of T st0 c" "mt_elems (ch_active c) = book_elems st0"
  shows "c = id_takers st0"
proof -
  have "ch_active c = ch_active (id_takers st0)"
    using assms by (auto simp: part_of_def book_ok_def book_elems_def intro: mt_unique)
  then show ?thesis using assms(2) by (simp add: part_of_def)
qed

lemma part_of_self: "book_ok T st0 \<Longrightarrow> part_of T st0 (id_takers st0)"
  by (simp add: part_of_def book_ok_def)

subsection \<open>The operations of an attempt keep the book\<close>

lemma previews_pick:
  assumes "book_ok T st0" "previews T st0 st" "picks T f" "pick_active_taker f st = (res, st')"
  shows "previews T st0 st'"
proof (cases st)
  case (Idle i)
  then have i: "i = st0" "mt_ok T (ch_active (id_takers st0))" using assms by (auto simp: book_ok_def)
  obtain r active where f: "f (ch_active (id_takers st0)) = (r, active)" by (metis surj_pair)
  note pk = picksD [OF assms(3) i(2) f]
  show ?thesis
  proof (cases r)
    case None
    then have "active = ch_active (id_takers st0)" using pk i(2) by (intro mt_unique [of T]) auto
    then show ?thesis using assms(4) Idle i f None by auto
  next
    case (Some t)
    then show ?thesis
      using pk assms(4) Idle i f by (auto simp: move_into_partial_preview_def part_of_def book_elems_def)
  qed
next
  case (PartialPreview p)
  then have ok: "mt_ok T (ch_active (pp_takers_preview p))" using assms by (auto simp: part_of_def)
  obtain r active where f: "f (ch_active (pp_takers_preview p)) = (r, active)" by (metis surj_pair)
  from picksD [OF assms(3) ok f] f show ?thesis
    using assms(2,4) PartialPreview by (cases r) (auto simp: part_of_def)
next
  case (Preview v)
  then have ok: "mt_ok T (pv_active_takers_preview v)" using assms by auto
  obtain r active where f: "f (pv_active_takers_preview v) = (r, active)" by (metis surj_pair)
  from picksD [OF assms(3) ok f] f show ?thesis
    using assms(2,4) Preview by auto
qed

lemma previews_into_preview:
  assumes "book_ok T st0" "previews T st0 st" "\<forall>v. st \<noteq> Preview v"
  shows "previews T st0 (Preview (the (move_into_preview T st)))"
proof (cases st)
  case (Idle i)
  then show ?thesis using assms by (auto simp: part_of_self book_elems_def book_ok_def)
next
  case (PartialPreview p)
  let ?c = "reinsert T (rev (pp_consumed_active_takers p)) (pp_takers_preview p)"
  have "part_of T st0 ?c \<and> mt_elems (ch_active ?c) =
      set (rev (pp_consumed_active_takers p)) \<union> mt_elems (ch_active (pp_takers_preview p))"
    using assms(1,2) PartialPreview by (intro part_of_reinsert) auto
  then show ?thesis using assms(2) PartialPreview by (auto simp: part_of_def)
qed (use assms in auto)

lemma previews_as_preview:
  assumes "book_ok T st0" "previews T st0 st"
  shows "previews T st0 (Preview (case st of Preview v \<Rightarrow> v | _ \<Rightarrow> the (move_into_preview T st)))"
  using assms previews_into_preview [OF assms] by (cases st) auto

lemma previews_pre_add:
  assumes "book_ok T st0" "previews T st0 st"
  shows "previews T st0 (pre_add_taker T t st)" "previews T st0 (pre_add_maker T M m st)"
  using previews_as_preview [OF assms]
  by (auto simp: pre_add_maker_def Let_def split: option.splits)

lemma previews_pick_maker:
  assumes "book_ok T st0" "previews T st0 st" "pick_maker_by_id pid st = (m, st')"
  shows "previews T st0 st'"
  using assms part_of_self [OF assms(1)]
  by (cases st) (auto simp: Let_def move_into_partial_preview_def book_elems_def)

text \<open>The takers that are not stashed.\<close>

fun live_takers :: "('t, 'm, 'id) tlb_state \<Rightarrow> 't set" where
  "live_takers (Idle st) = mt_elems (ch_active (id_takers st))"
| "live_takers (PartialPreview st) =
     mt_elems (ch_active (pp_takers_preview st)) \<union> set (pp_consumed_active_takers st)"
| "live_takers (Preview st) = mt_elems (ch_active (pv_takers_intact st))"

fun stashed_takers :: "('t, 'm, 'id) tlb_state \<Rightarrow> 't list" where
  "stashed_takers (Idle st) = []"
| "stashed_takers (PartialPreview st) = pp_stashed_active_takers st"
| "stashed_takers (Preview st) = pv_stashed_active_takers st"

lemma previews_live:
  "previews T st0 st \<Longrightarrow> live_takers st = book_elems st0 - set (stashed_takers st) \<and>
    set (stashed_takers st) \<subseteq> book_elems st0"
  by (cases st) (auto simp: book_elems_def)

lemma idle_state_eq: "id_takers x = id_takers y \<Longrightarrow> id_makers x = id_makers y \<Longrightarrow> x = (y :: ('t, 'm, 'id) idle_state)"
  by simp

text \<open>
  Rolling back is putting together a stash and the rest of the book, whichever of the two previews
  it starts from.
\<close>

lemma rollback_pieces:
  assumes "book_ok T st0" "previews T st0 st" "st \<noteq> Idle st0"
  shows "\<exists>c. part_of T st0 c \<and> mt_elems (ch_active c) = live_takers st \<and>
    tlb_rollback T opt st =
      (let (takers, stashed) = (case opt of
           Stash ts \<Rightarrow> (take_out T ts c, stashed_takers st @ ts)
         | Unstash \<Rightarrow> (reinsert T (stashed_takers st) c, []))
       in if stashed = [] then Idle \<lparr> id_takers = takers, id_makers = id_makers st0 \<rparr>
          else PartialPreview \<lparr> pp_takers_preview = takers, pp_consumed_active_takers = [],
            pp_stashed_active_takers = stashed, pp_makers_intact = id_makers st0,
            pp_makers_preview = id_makers st0 \<rparr>)"
proof (cases st)
  case (PartialPreview p)
  let ?c = "reinsert T (rev (pp_consumed_active_takers p)) (pp_takers_preview p)"
  have "part_of T st0 ?c \<and> mt_elems (ch_active ?c) =
      set (rev (pp_consumed_active_takers p)) \<union> mt_elems (ch_active (pp_takers_preview p))"
    using assms(1,2) PartialPreview by (intro part_of_reinsert) auto
  moreover have "live_takers st = set (rev (pp_consumed_active_takers p)) \<union> mt_elems (ch_active (pp_takers_preview p))"
    using PartialPreview by auto
  ultimately show ?thesis
    using assms(2) PartialPreview
    by (intro exI [of _ ?c]) (auto simp: pp_rollback_def Let_def split: stashing_option.splits)
next
  case (Preview v)
  then show ?thesis
    using assms(2) by (intro exI [of _ "pv_takers_intact v"]) (auto simp: pv_rollback_def Let_def split: stashing_option.splits)
qed (use assms in auto)

lemma rollback_unstash:
  assumes "book_ok T st0" "previews T st0 st"
  shows "tlb_rollback T Unstash st = Idle st0"
proof (cases "st = Idle st0")
  case False
  from rollback_pieces [OF assms False, of Unstash] obtain c where
    c: "part_of T st0 c" "mt_elems (ch_active c) = live_takers st"
    and r: "tlb_rollback T Unstash st = Idle \<lparr> id_takers = reinsert T (stashed_takers st) c, id_makers = id_makers st0 \<rparr>"
    by auto
  have "part_of T st0 (reinsert T (stashed_takers st) c) \<and>
      mt_elems (ch_active (reinsert T (stashed_takers st) c)) = set (stashed_takers st) \<union> mt_elems (ch_active c)"
    using c previews_live [OF assms(2)] by (intro part_of_reinsert [OF assms(1)]) auto
  then have "reinsert T (stashed_takers st) c = id_takers st0"
    using c previews_live [OF assms(2)] by (intro part_of_whole [OF assms(1)]) auto
  then show ?thesis using r by simp
qed simp

lemma rollback_stash:
  assumes "book_ok T st0" "previews T st0 st" "set ts \<subseteq> live_takers st" "st \<noteq> Idle st0"
  shows "previews T st0 (tlb_rollback T (Stash ts) st) \<and>
    stashed_takers (tlb_rollback T (Stash ts) st) = stashed_takers st @ ts"
proof -
  from rollback_pieces [OF assms(1,2,4), of "Stash ts"] obtain c where
    c: "part_of T st0 c" "mt_elems (ch_active c) = live_takers st"
    and r: "tlb_rollback T (Stash ts) st =
      (if stashed_takers st @ ts = [] then Idle \<lparr> id_takers = take_out T ts c, id_makers = id_makers st0 \<rparr>
       else PartialPreview \<lparr> pp_takers_preview = take_out T ts c, pp_consumed_active_takers = [],
          pp_stashed_active_takers = stashed_takers st @ ts, pp_makers_intact = id_makers st0,
          pp_makers_preview = id_makers st0 \<rparr>)"
    by auto
  note live = previews_live [OF assms(2)]
  have out: "part_of T st0 (take_out T ts c) \<and>
      mt_elems (ch_active (take_out T ts c)) = mt_elems (ch_active c) - set ts"
    using c live assms(3) by (intro part_of_take_out [OF assms(1)]) auto
  show ?thesis
  proof (cases "stashed_takers st @ ts = []")
    case True
    then have "take_out T ts c = id_takers st0"
      using out c live by (intro part_of_whole [OF assms(1)]) auto
    then show ?thesis using r True by (auto simp: idle_state_eq)
  qed (use out c live assms(3) r in auto)
qed

subsection \<open>Preview steps\<close>

inductive preview_step ::
    "('t, 'k::linorder, 'id, 'u) taker_ops \<Rightarrow> ('m, 'id, 'u) maker_ops \<Rightarrow> ('t, 'm, 'id) tlb_state \<Rightarrow>
     ('t, 'm, 'id) tlb_state \<Rightarrow> bool"
  for T M where
  picked_taker: "picks T f \<Longrightarrow> pick_active_taker f st = (res, st') \<Longrightarrow> preview_step T M st st'"
| added_taker: "preview_step T M st (pre_add_taker T t st)"
| added_maker: "preview_step T M st (pre_add_maker T M m st)"
| picked_maker: "pick_maker_by_id pid st = (m, st') \<Longrightarrow> preview_step T M st st'"
| stashed: "set ts \<subseteq> live_takers st \<Longrightarrow> preview_step T M st (tlb_rollback T (Stash ts) st)"
| unstashed: "preview_step T M st (tlb_rollback T Unstash st)"

lemma previews_step:
  assumes "book_ok T st0" "preview_step T M st st'" "previews T st0 st"
  shows "previews T st0 st'"
  using assms(2)
proof cases
  case (picked_taker f res)
  then show ?thesis by (rule previews_pick [OF assms(1,3)])
next
  case (picked_maker pid m)
  then show ?thesis by (rule previews_pick_maker [OF assms(1,3)])
next
  case (stashed ts)
  show ?thesis
  proof (cases "st = Idle st0")
    case False
    then show ?thesis using stashed rollback_stash [OF assms(1,3)] by simp
  qed (use stashed in simp)
qed (use previews_pre_add [OF assms(1,3)] rollback_unstash [OF assms(1,3)] in auto)

lemma previews_steps: "book_ok T st0 \<Longrightarrow> (preview_step T M)\<^sup>*\<^sup>* (Idle st0) st \<Longrightarrow> previews T st0 st"
  by (rotate_tac) (induction rule: rtranclp_induct; auto intro: previews_step)

end
