(* ===== verification/Lb_Batch.thy ===== *)
theory Lb_Batch
  imports Lb_Trade_Spec Lb_State_Spec
begin

text \<open>
  One turn of the inner loop of an attempt. What every operation does to the active takers and the
  stash, the contract \<open>taker_laws\<close> of takers, the invariant \<open>batch_inv\<close> of a batch in progress,
  and the load of a book, which every turn that goes on lowers.
\<close>

subsection \<open>What the operations do to the active takers\<close>

lemma pick_active_taker_frame:
  "pick_active_taker f st = (res, st') \<Longrightarrow>
    f (active_fragments st) = (res, active_fragments st') \<and> stashed_takers st' = stashed_takers st \<and>
    (res \<noteq> None \<longrightarrow> (\<forall>i. st' \<noteq> Idle i)) \<and> (\<forall>i. st \<noteq> Idle i \<longrightarrow> st' \<noteq> Idle i \<or> (\<exists>j. st = Idle j))"
  by (cases st) (auto simp: Let_def move_into_partial_preview_def split: prod.splits option.splits)

lemma mt_insert_elems_sub: "mt_elems (mt_insert T t m) \<subseteq> insert t (mt_elems m)"
  using bts_insert_set [of "tk_key T" t "mt_asks m"] bts_insert_set [of "tk_key T" t "mt_bids m"]
  by (auto simp: mt_insert_def mt_elems_def split: side.splits)

lemma pre_add_taker_frame:
  "mt_elems (active_fragments (pre_add_taker T t st)) \<subseteq> insert t (mt_elems (active_fragments st)) \<and>
    stashed_takers (pre_add_taker T t st) = stashed_takers st \<and> (\<forall>i. pre_add_taker T t st \<noteq> Idle i)"
proof -
  obtain v where v: "(case st of Preview v \<Rightarrow> v | _ \<Rightarrow> the (move_into_preview T st)) = v"
    "pv_active_takers_preview v = active_fragments st" "pv_stashed_active_takers v = stashed_takers st"
    by (cases st) auto
  show ?thesis
    using mt_insert_elems_sub [of T t "active_fragments st"] v
    by (auto simp: Let_def split: option.splits)
qed

lemma pre_add_maker_frame:
  "active_fragments (pre_add_maker T M m st) = active_fragments st \<and>
    stashed_takers (pre_add_maker T M m st) = stashed_takers st \<and> (\<forall>i. pre_add_maker T M m st \<noteq> Idle i)"
  by (cases st) (auto simp: pre_add_maker_def Let_def)

declare pre_add_taker.simps [simp del]

lemma pick_maker_frame:
  "pick_maker_by_id pid st = (m, st') \<Longrightarrow>
    active_fragments st' = active_fragments st \<and> stashed_takers st' = stashed_takers st \<and> (\<forall>i. st' \<noteq> Idle i)"
  by (cases st) (auto simp: Let_def move_into_partial_preview_def)

lemma previews_active_ok: "book_ok T st0 \<Longrightarrow> previews T st0 st \<Longrightarrow> mt_ok T (active_fragments st)"
  by (cases st) (auto simp: book_ok_def part_of_def)

lemma previews_active_live:
  "previews T st0 st \<Longrightarrow> \<forall>v. st \<noteq> Preview v \<Longrightarrow> mt_elems (active_fragments st) \<subseteq> live_takers st"
  by (cases st) auto

subsection \<open>Chosen makers\<close>

lemma min_by_key_in: "min_by_key f xs = Some x \<Longrightarrow> x \<in> set xs"
  by (induction xs arbitrary: x) (auto split: option.splits if_splits)

lemma max_by_key_in: "max_by_key f xs = Some x \<Longrightarrow> x \<in> set xs"
  by (induction xs arbitrary: x) (auto split: option.splits if_splits)

lemma map_filter_in: "y \<in> set (List.map_filter f xs) \<Longrightarrow> \<exists>x \<in> set xs. f x = Some y"
  by (induction xs) (auto simp: List.map_filter_simps split: option.splits)

lemma preselected_input:
  assumes "preselect_market_maker M p demand sd opt st = Some (pid, fp)"
  shows "fp_input fp = demand \<or> (0 < fp_input fp \<and> fp_input fp \<le> demand)"
proof -
  from assms obtain xs x where "(pid, fp) \<in> set (List.map_filter (\<lambda>p'.
      if opt then (case try_optimized_swap M p demand sd p' of Some x \<Rightarrow> Some x | None \<Rightarrow> dummy_swap M demand sd p')
      else dummy_swap M demand sd p') xs)"
    by (cases sd) (auto simp: preselect_market_maker_def Let_def dest!: min_by_key_in max_by_key_in)
  then obtain maker where "(if opt then (case try_optimized_swap M p demand sd maker of
        Some x \<Rightarrow> Some x | None \<Rightarrow> dummy_swap M demand sd maker) else dummy_swap M demand sd maker) = Some (pid, fp)"
    using map_filter_in by fastforce
  then show ?thesis
    by (auto simp: dummy_swap_def try_optimized_swap_def bind_eq_Some_conv split: if_splits option.splits)
qed

lemma traded_amounts_le:
  assumes "traded_amounts s q p = Some (quote, base)"
  shows "unat base \<le> unat s \<and> unat quote \<le> unat q \<and> (quote = q \<or> base = s)"
proof (cases "0 < p")
  case True
  have "quote = q \<or> base = s" using assms by (auto simp: traded_amounts_def bind_eq_Some_conv split: if_splits)
  then show ?thesis using traded_amounts_ok [OF assms True] by blast
next
  case False
  from assms obtain demand where d: "linear_output_relative q (inverse p) = Some demand" "p \<noteq> 0"
    by (auto simp: traded_amounts_def linear_output_unsafe_def bind_eq_Some_conv split: if_splits)
  have "p < 0" using False d(2) by simp
  then have "inverse p < 0" by simp
  moreover have "0 \<le> of_nat (unat q) * inverse p"
    using d(1) by (auto simp: linear_output_relative_def Let_def split: if_splits)
  ultimately have "of_nat (unat q) = (0 :: rat)"
    by (metis mult_neg_pos mult.commute of_nat_0_less_iff of_nat_eq_0_iff gr0I not_le)
  then have "unat q = 0" by (simp only: of_nat_eq_0_iff)
  then have "q = 0" by (simp only: unat_eq_zero)
  then have "q = 0" "demand = 0" using d(1) by (auto simp: linear_output_relative_def)
  then show ?thesis using assms d by (auto simp: traded_amounts_def linear_output_unsafe_def split: if_splits)
qed

subsection \<open>The contract of takers\<close>

locale taker_laws =
  fixes T :: "('t, 'k::linorder, 'id, 'u::{plus,zero,linorder}) taker_ops"
  assumes applied_id: "tk_with_applied_trade T i out t = Succ t' \<Longrightarrow> tk_id T t' = tk_id T t"
    and applied_input: "tk_with_applied_trade T i out t = Succ t' \<Longrightarrow>
      tk_input T t' = tk_input T t - i \<and> tk_input T t' \<noteq> 0"
begin

definition weight_of :: "'t \<Rightarrow> nat" where
  "weight_of t = unat (tk_input T t) + 1"

definition load :: "'t set \<Rightarrow> nat" where
  "load A = sum weight_of A"

lemma load_insert: "finite A \<Longrightarrow> load (insert t A) \<le> load A + weight_of t"
  by (cases "t \<in> A") (auto simp: load_def insert_absorb)

lemma load_mono: "finite B \<Longrightarrow> A \<subseteq> B \<Longrightarrow> load A \<le> load B"
  unfolding load_def by (rule sum_mono2) auto

lemma load_disjoint: "finite A \<Longrightarrow> t \<notin> A \<Longrightarrow> load (insert t A) = load A + weight_of t"
  by (simp add: load_def)

lemma finite_elems [simp]: "finite (mt_elems m)"
  by (simp add: mt_elems_def)

text \<open>The weight of what is left of a taker.\<close>

definition left_weight :: "('t, terminal_take) next_state \<Rightarrow> nat" where
  "left_weight r = (case r of Succ t \<Rightarrow> weight_of t | Term _ \<Rightarrow> 0)"

lemma applied_le:
  assumes "unat i \<le> unat (tk_input T t)"
  shows "left_weight (tk_with_applied_trade T i out t) \<le> weight_of t"
proof (cases "tk_with_applied_trade T i out t")
  case (Succ t')
  have "unat (tk_input T t - i) \<le> unat (tk_input T t)" using assms by (simp add: unat_sub word_le_nat_alt)
  then show ?thesis using applied_input [OF Succ] Succ by (simp add: left_weight_def weight_of_def)
qed (simp add: left_weight_def)

lemma applied_all: "left_weight (tk_with_applied_trade T (tk_input T t) out t) = 0"
  using applied_input [of "tk_input T t" out t]
  by (cases "tk_with_applied_trade T (tk_input T t) out t") (auto simp: left_weight_def)

lemma applied_less:
  assumes "0 < i" "i \<le> tk_input T t"
  shows "left_weight (tk_with_applied_trade T i out t) < weight_of t"
proof (cases "tk_with_applied_trade T i out t")
  case (Succ t')
  have "unat (tk_input T t - i) < unat (tk_input T t)"
    using assms by (simp add: unat_sub word_le_nat_alt word_less_nat_alt)
  then show ?thesis using applied_input [OF Succ] Succ by (simp add: left_weight_def weight_of_def)
qed (simp add: left_weight_def weight_of_def)

subsection \<open>One turn of the inner loop\<close>

text \<open>
  A batch in progress: the state previews the book, the stash is as it was, every take starts from
  a taker of the live book, and so does every active taker, unless it is the rest of one.
\<close>

definition takes_from :: "'t set \<Rightarrow> ('t, 'm, 'id, 'u) matchmaking_attempt \<Rightarrow> bool" where
  "takes_from B batch \<longleftrightarrow>
     (\<forall>x \<in> set (ma_takes batch). fst x = tk_id T (tr_target (snd x)) \<and> tr_target (snd x) \<in> B)"

definition from_book :: "'t set \<Rightarrow> ('t, 'm, 'id, 'u) matchmaking_attempt \<Rightarrow> 't \<Rightarrow> bool" where
  "from_book B batch t \<longleftrightarrow> t \<in> B \<or> tk_id T t \<in> fst ` set (ma_takes batch)"

definition batch_inv ::
    "('t, 'm, 'id) idle_state \<Rightarrow> 't list \<Rightarrow> ('t, 'm, 'id) tlb_state \<Rightarrow> ('t, 'm, 'id, 'u) matchmaking_attempt \<Rightarrow> bool" where
  "batch_inv st0 S st batch \<longleftrightarrow>
     previews T st0 st \<and> stashed_takers st = S \<and> takes_from (book_elems st0 - set S) batch \<and>
     (\<forall>t \<in> mt_elems (active_fragments st). from_book (book_elems st0 - set S) batch t) \<and>
     (ma_takes batch \<noteq> [] \<longrightarrow> (\<forall>i. st \<noteq> Idle i))"

lemma add_take_takes:
  "ma_takes (add_take T tr batch) = AList.delete (tk_id T (tr_target tr)) (ma_takes batch) @
    [(tk_id T (tr_target tr), case map_of (ma_takes batch) (tk_id T (tr_target tr)) of
        None \<Rightarrow> tr | Some e \<Rightarrow> combine e tr)]"
  by (simp add: add_take_def Let_def split: option.splits)

lemma delete_keys: "fst ` set (AList.delete k xs) = fst ` set xs - {k}"
  by (auto simp: AList.delete_eq image_iff)

lemma add_take_keys:
  "fst ` set (ma_takes (add_take T tr batch)) = insert (tk_id T (tr_target tr)) (fst ` set (ma_takes batch))"
  by (simp add: add_take_takes image_Un delete_keys)

lemma from_book_add: "from_book B batch t \<Longrightarrow> from_book B (add_take T tr batch) t"
  by (auto simp: from_book_def add_take_keys)

lemma takes_from_add:
  assumes "from_book B batch (tr_target tr)" "takes_from B batch"
  shows "takes_from B (add_take T tr batch)"
proof -
  have old: "takes_from B (batch\<lparr>ma_takes := AList.delete k (ma_takes batch)\<rparr>)" for k
    using assms(2) by (auto simp: takes_from_def AList.delete_eq)
  let ?sid = "tk_id T (tr_target tr)"
  define e where "e = (case map_of (ma_takes batch) ?sid of None \<Rightarrow> tr | Some e \<Rightarrow> combine e tr)"
  have ma: "ma_takes (add_take T tr batch) = AList.delete ?sid (ma_takes batch) @ [(?sid, e)]"
    unfolding e_def by (rule add_take_takes)
  have e: "tk_id T (tr_target e) = ?sid \<and> tr_target e \<in> B"
  proof (cases "map_of (ma_takes batch) ?sid")
    case None
    then have "?sid \<notin> fst ` set (ma_takes batch)" by (simp add: map_of_eq_None_iff)
    then show ?thesis using None assms(1) by (simp add: from_book_def e_def)
  next
    case (Some x)
    from map_of_SomeD [OF this] assms(2) have "?sid = tk_id T (tr_target x) \<and> tr_target x \<in> B"
      unfolding takes_from_def by fastforce
    then show ?thesis using Some by (simp add: combine_def e_def)
  qed
  show ?thesis
    unfolding takes_from_def ma
  proof
    fix x
    assume "x \<in> set (AList.delete ?sid (ma_takes batch) @ [(?sid, e)])"
    then consider "x \<in> set (AList.delete ?sid (ma_takes batch))" | "x = (?sid, e)" by auto
    then show "fst x = tk_id T (tr_target (snd x)) \<and> tr_target (snd x) \<in> B"
    proof cases
      case 1
      then show ?thesis using old [of ?sid] by (simp add: takes_from_def)
    next
      case 2
      then show ?thesis using e by simp
    qed
  qed
qed

lemma batch_inv_take:
  assumes inv: "batch_inv st0 S st batch" and ok: "book_ok T st0"
    and t: "from_book (book_elems st0 - set S) batch (tr_target tr)"
    and id: "\<And>t'. tr_result tr = Succ t' \<Longrightarrow> tk_id T t' = tk_id T (tr_target tr)"
    and idle: "\<forall>i. st \<noteq> Idle i"
  shows "batch_inv st0 S (on_take T (tr_result tr) st) (add_take T tr batch) \<and>
    (\<forall>i. on_take T (tr_result tr) st \<noteq> Idle i) \<and>
    load (mt_elems (active_fragments (on_take T (tr_result tr) st))) \<le>
      load (mt_elems (active_fragments st)) + left_weight (tr_result tr)"
proof -
  let ?B = "book_elems st0 - set S"
  have inv': "previews T st0 st" "stashed_takers st = S" "takes_from ?B batch"
    "\<forall>t \<in> mt_elems (active_fragments st). from_book ?B batch t"
    using inv by (auto simp: batch_inv_def)
  have takes: "takes_from ?B (add_take T tr batch)" using t inv'(3) by (rule takes_from_add)
  have actives: "\<forall>t \<in> mt_elems (active_fragments st). from_book ?B (add_take T tr batch) t"
    using inv'(4) from_book_add by fast
  show ?thesis
  proof (cases "tr_result tr")
    case (Succ t')
    note f = pre_add_taker_frame [of T t' st]
    have "load (mt_elems (active_fragments (pre_add_taker T t' st))) \<le> load (insert t' (mt_elems (active_fragments st)))"
      using f by (intro load_mono) auto
    also have "\<dots> \<le> load (mt_elems (active_fragments st)) + weight_of t'" by (rule load_insert) simp
    finally have l: "load (mt_elems (active_fragments (pre_add_taker T t' st))) \<le>
      load (mt_elems (active_fragments st)) + weight_of t'" .
    have new: "from_book ?B (add_take T tr batch) t'"
      unfolding from_book_def add_take_keys id [OF Succ] by simp
    have "\<forall>x \<in> mt_elems (active_fragments (pre_add_taker T t' st)). from_book ?B (add_take T tr batch) x"
    proof
      fix x
      assume "x \<in> mt_elems (active_fragments (pre_add_taker T t' st))"
      then have "x = t' \<or> x \<in> mt_elems (active_fragments st)" using f by blast
      then show "from_book ?B (add_take T tr batch) x" using new actives by auto
    qed
    then have "batch_inv st0 S (pre_add_taker T t' st) (add_take T tr batch)"
      unfolding batch_inv_def using previews_pre_add(1) [OF ok inv'(1)] f inv'(2) takes by simp
    then show ?thesis using f l Succ by (simp add: on_take_def left_weight_def)
  next
    case (Term x)
    have "batch_inv st0 S st (add_take T tr batch)"
      unfolding batch_inv_def using inv' takes actives idle by simp
    then show ?thesis using Term idle by (simp add: on_take_def left_weight_def)
  qed
qed

lemma batch_inv_pick:
  assumes inv: "batch_inv st0 S st batch" and ok: "book_ok T st0"
    and f: "picks T f" and pick: "pick_active_taker f st = (res, st')"
  shows "batch_inv st0 S st' batch \<and>
    (\<forall>t. res = Some t \<longrightarrow> from_book (book_elems st0 - set S) batch t \<and> (\<forall>i. st' \<noteq> Idle i)) \<and>
    load (mt_elems (active_fragments st)) = load (mt_elems (active_fragments st')) +
      (case res of Some t \<Rightarrow> weight_of t | None \<Rightarrow> 0)"
proof -
  let ?B = "book_elems st0 - set S"
  have inv': "previews T st0 st" "stashed_takers st = S" "takes_from ?B batch"
    "\<forall>t \<in> mt_elems (active_fragments st). from_book ?B batch t" "ma_takes batch \<noteq> [] \<longrightarrow> (\<forall>i. st \<noteq> Idle i)"
    using inv by (auto simp: batch_inv_def)
  note fr = pick_active_taker_frame [OF pick]
  have p: "mt_elems (active_fragments st) = mt_elems (active_fragments st') \<union> set_option res"
      "mt_elems (active_fragments st') \<inter> set_option res = {}"
    using picksD [OF f previews_active_ok [OF ok inv'(1)], of res "active_fragments st'"] fr by auto
  have "load (mt_elems (active_fragments st)) = load (mt_elems (active_fragments st')) +
      (case res of Some t \<Rightarrow> weight_of t | None \<Rightarrow> 0)"
  proof (cases res)
    case (Some t)
    then have "mt_elems (active_fragments st) = insert t (mt_elems (active_fragments st'))"
      "t \<notin> mt_elems (active_fragments st')" using p by auto
    then show ?thesis using Some load_disjoint [of "mt_elems (active_fragments st')" t] by simp
  qed (use p in simp)
  moreover have "ma_takes batch \<noteq> [] \<longrightarrow> (\<forall>i. st' \<noteq> Idle i)" using fr inv'(5) by metis
  then have "batch_inv st0 S st' batch"
    unfolding batch_inv_def using previews_pick [OF ok inv'(1) f pick] fr inv'(2-4) p(1) by simp
  moreover have "from_book ?B batch t" if "res = Some t" for t
    using inv'(4) p(1) that by simp
  ultimately show ?thesis using fr by (cases res) simp_all
qed

lemma batch_inv_maker:
  assumes "batch_inv st0 S st batch" "book_ok T st0"
  shows "pick_maker_by_id pid st = (m, st') \<Longrightarrow> batch_inv st0 S st' batch"
    and "batch_inv st0 S (pre_add_maker T M mk st) batch"
  using assms previews_pick_maker [OF assms(2), of st pid m st'] pick_maker_frame [of pid st m st']
    previews_pre_add(2) [OF assms(2), of st M mk] pre_add_maker_frame [of T M mk st]
  by (auto simp: batch_inv_def)

lemma batch_inv_add_make: "batch_inv st0 S st (add_make M mip batch) = batch_inv st0 S st batch"
  by (auto simp: batch_inv_def takes_from_def from_book_def add_make_def Let_def split: option.splits)

lemma from_book_add_make: "from_book B (add_make M mip batch) = from_book B batch"
  by (auto simp: from_book_def add_make_def Let_def fun_eq_iff split: option.splits)

lemma batch_inv_back:
  assumes "batch_inv st0 S st batch" "book_ok T st0" "from_book (book_elems st0 - set S) batch t"
  shows "batch_inv st0 S (pre_add_taker T t st) batch"
proof -
  note f = pre_add_taker_frame [of T t st]
  have "previews T st0 (pre_add_taker T t st)"
    using assms(1) previews_pre_add(1) [OF assms(2)] by (simp add: batch_inv_def)
  moreover have "\<forall>x \<in> mt_elems (active_fragments (pre_add_taker T t st)). from_book (book_elems st0 - set S) batch x"
  proof
    fix x
    assume "x \<in> mt_elems (active_fragments (pre_add_taker T t st))"
    then have "x = t \<or> x \<in> mt_elems (active_fragments st)" using f by blast
    then show "from_book (book_elems st0 - set S) batch x" using assms(1,3) by (auto simp: batch_inv_def)
  qed
  ultimately show ?thesis using assms(1) f by (simp add: batch_inv_def)
qed

lemma execute_with_taker_parts:
  assumes "execute_with_taker T t c mm = Some (ta, tb)"
  shows "{tr_target ta, tr_target tb} = {t, c} \<and>
    (\<forall>t'. tr_result ta = Succ t' \<longrightarrow> tk_id T t' = tk_id T (tr_target ta)) \<and>
    (\<forall>t'. tr_result tb = Succ t' \<longrightarrow> tk_id T t' = tk_id T (tr_target tb)) \<and>
    left_weight (tr_result ta) + left_weight (tr_result tb) < weight_of t + weight_of c"
proof -
  obtain ask bid where ab: "(ask, bid) = (case tk_side T t of Ask \<Rightarrow> (t, c) | Bid \<Rightarrow> (c, t))"
    by (metis surj_pair)
  obtain quote base where q: "traded_amounts (tk_input T ask) (tk_input T bid) (mm ask bid) = Some (quote, base)"
    and ta: "ta = Trans ask (tk_with_applied_trade T base quote ask)"
    and tb: "tb = Trans bid (tk_with_applied_trade T quote base bid)"
    using assms unfolding execute_with_taker_def ab [symmetric] by (auto simp: Let_def bind_eq_Some_conv)
  note le = traded_amounts_le [OF q]
  have "left_weight (tr_result ta) \<le> weight_of ask" "left_weight (tr_result tb) \<le> weight_of bid"
    using le applied_le unfolding ta tb by auto
  moreover have "left_weight (tr_result ta) = 0 \<or> left_weight (tr_result tb) = 0"
    using le applied_all unfolding ta tb by auto
  moreover have "0 < weight_of x" for x by (simp add: weight_of_def)
  ultimately have "left_weight (tr_result ta) + left_weight (tr_result tb) < weight_of ask + weight_of bid"
    by (metis add_less_le_mono add_le_less_mono)
  moreover have "(ask = t \<and> bid = c) \<or> (ask = c \<and> bid = t)" using ab by (cases "tk_side T t") auto
  ultimately show ?thesis using applied_id unfolding ta tb by auto
qed

text \<open>A turn keeps the invariant, and a turn that goes on consumes input.\<close>

lemma match_with_taker_turn:
  assumes inv: "batch_inv st0 S st batch" and ok: "book_ok T st0"
    and t: "from_book (book_elems st0 - set S) batch t"
    and run: "match_with_taker T spot t (st, batch) = Some (go_on, st', batch')"
  shows "batch_inv st0 S st' batch' \<and>
    (go_on \<longrightarrow> load (mt_elems (active_fragments st')) < load (mt_elems (active_fragments st)) + weight_of t)"
proof -
  let ?B = "book_elems st0 - set S"
  obtain res st1 where pick: "try_pick_taker T (side_not (tk_side T t)) (\<lambda>_. True) st = (res, st1)"
    by (metis surj_pair)
  note p = batch_inv_pick [OF inv ok picks_try_pick_fr pick [unfolded try_pick_taker_def]]
  show ?thesis
  proof (cases res)
    case None
    then show ?thesis using run pick p by (simp add: match_with_taker_def)
  next
    case (Some c)
    from run pick Some obtain ta tb where x: "execute_with_taker T t c (\<lambda>ask bid. settle_price T ask bid (Some spot)) = Some (ta, tb)"
      and st': "st' = on_take T (tr_result tb) (on_take T (tr_result ta) st1)"
      and batch': "batch' = add_take T tb (add_take T ta batch)"
      by (auto simp: match_with_taker_def bind_eq_Some_conv)
    note parts = execute_with_taker_parts [OF x]
    have c: "from_book ?B batch c" "\<forall>i. st1 \<noteq> Idle i" using p Some by auto
    have targets: "tr_target ta \<in> {t, c}" "tr_target tb \<in> {t, c}" using parts by auto
    then have fa: "from_book ?B batch (tr_target ta)" and fb: "from_book ?B batch (tr_target tb)"
      using t c(1) by auto
    have ia: "\<And>t'. tr_result ta = Succ t' \<Longrightarrow> tk_id T t' = tk_id T (tr_target ta)"
      and ib: "\<And>t'. tr_result tb = Succ t' \<Longrightarrow> tk_id T t' = tk_id T (tr_target tb)" using parts by auto
    have inv1: "batch_inv st0 S st1 batch" using p by simp
    note one = batch_inv_take [OF inv1 ok fa ia c(2)]
    have inv2: "batch_inv st0 S (on_take T (tr_result ta) st1) (add_take T ta batch)"
      and idle2: "\<forall>i. on_take T (tr_result ta) st1 \<noteq> Idle i" using one by auto
    note two = batch_inv_take [OF inv2 ok from_book_add [OF fb] ib idle2]
    show ?thesis using one two parts p Some unfolding st' batch' by auto
  qed
qed

lemma match_with_maker_turn:
  assumes inv: "batch_inv st0 S st batch" and ok: "book_ok T st0"
    and t: "from_book (book_elems st0 - set S) batch t"
    and input: "input = tk_input T t \<or> (0 < input \<and> input \<le> tk_input T t)"
    and run: "match_with_maker T M t pid input (st, batch) = (go_on, st', batch')"
  shows "batch_inv st0 S st' batch' \<and>
    (go_on \<longrightarrow> load (mt_elems (active_fragments st')) < load (mt_elems (active_fragments st)) + weight_of t)"
proof -
  let ?B = "book_elems st0 - set S"
  obtain res st1 where pick: "pick_maker_by_id pid st = (res, st1)" by (metis surj_pair)
  have inv1: "batch_inv st0 S st1 batch" by (rule batch_inv_maker(1) [OF inv ok pick])
  have fr: "active_fragments st1 = active_fragments st" "\<forall>i. st1 \<noteq> Idle i" using pick_maker_frame [OF pick] by auto
  show ?thesis
  proof (cases res)
    case None
    then show ?thesis using run pick inv1 by (simp add: match_with_maker_def)
  next
    case (Some maker)
    obtain tip mip where x: "execute_with_maker T M t maker (side_wrap (tk_side T t) input) = (tip, mip)"
      by (metis surj_pair)
    then have st': "st' = on_make T M (tr_result mip) (on_take T (tr_result tip) st1)"
      and batch': "batch' = add_take T tip (add_make M mip batch)"
      using run pick Some by (auto simp: match_with_maker_def)
    obtain out where tip: "tip = Trans t (tk_with_applied_trade T input out t)"
      using x by (auto simp: execute_with_maker_def Let_def)
    have less: "left_weight (tr_result tip) < weight_of t"
      using input applied_less [of input t out] applied_all [of t out] unfolding tip
      by (auto simp: weight_of_def)
    have one: "batch_inv st0 S (on_take T (tr_result tip) st1) batch' \<and>
        (\<forall>i. on_take T (tr_result tip) st1 \<noteq> Idle i) \<and>
        load (mt_elems (active_fragments (on_take T (tr_result tip) st1))) \<le>
          load (mt_elems (active_fragments st1)) + left_weight (tr_result tip)"
      unfolding batch' using inv1 t tip applied_id fr(2)
      by (intro batch_inv_take [OF _ ok]) (auto simp: batch_inv_add_make from_book_add_make)
    have "batch_inv st0 S st' batch'"
      unfolding st' using one batch_inv_maker(2) [OF _ ok] by (auto simp: on_make_def split: next_state.splits)
    moreover have "active_fragments st' = active_fragments (on_take T (tr_result tip) st1)"
      unfolding st' by (simp add: on_make_def pre_add_maker_frame split: next_state.splits)
    ultimately show ?thesis using one less fr by auto
  qed
qed

end

end
