(* ===== verification/Cfmm_Pool.thy ===== *)
theory Cfmm_Pool
  imports Limit_Order
begin

text \<open>
  Constant-product pools: packages/spectrum-offchain-cardano/src/pool_math/cfmm_math.rs and the
  classic pool of data/cfmm_pool/classic_pool.rs, a maker of the liquidity book, with its deposits
  and redemptions of data/cfmm_pool.rs. The code multiplies in 128 bits, so the model does, and a
  cast to 64 bits truncates. A division by zero is a panic, \<open>None\<close>; it takes a pool with an empty
  reserve.
\<close>

type_synonym u128 = "128 word"

definition wide :: "u64 \<Rightarrow> u128" where
  "wide w = ucast w"

definition narrow :: "u128 \<Rightarrow> u64" where
  "narrow w = ucast w"

definition div_u128 :: "u128 \<Rightarrow> u128 \<Rightarrow> u128 option" where
  "div_u128 a b = (if b = 0 then None else Some (a div b))"

definition untouchable_lovelace_amount :: u64 where
  "untouchable_lovelace_amount = 3000000"

definition max_lq_cap :: u64 where
  "max_lq_cap = 0x7fffffffffffffff"

text \<open>A fee is a raw ratio of 64-bit integers.\<close>

type_synonym fee_ratio = "u64 \<times> u64"

definition classic_cfmm_output_amount ::
    "asset_class \<Rightarrow> asset_class \<Rightarrow> u64 \<Rightarrow> u64 \<Rightarrow> asset_class \<Rightarrow> u64 \<Rightarrow> fee_ratio \<Rightarrow> fee_ratio \<Rightarrow> u64 option" where
  "classic_cfmm_output_amount asset_x asset_y reserves_x reserves_y base_asset base_amount pool_fee_x pool_fee_y =
     do {
       quote_amount \<leftarrow>
         (if base_asset = asset_x
          then div_u128 (wide reserves_y * wide base_amount * wide (fst pool_fee_x))
                 (wide reserves_x * wide (snd pool_fee_x) + wide base_amount * wide (fst pool_fee_x))
          else div_u128 (wide reserves_x * wide base_amount * wide (fst pool_fee_y))
                 (wide reserves_y * wide (snd pool_fee_y) + wide base_amount * wide (fst pool_fee_y)));
       let (output_asset, liquidity) =
         (if base_asset = asset_x then (asset_y, reserves_y) else (asset_x, reserves_x));
       Some (if output_asset = Native
             then let amount_left = liquidity - narrow quote_amount
                  in if amount_left < untouchable_lovelace_amount
                     then liquidity - untouchable_lovelace_amount
                     else narrow quote_amount
             else narrow quote_amount)
     }"

definition classic_cfmm_reward_lp :: "u64 \<Rightarrow> u64 \<Rightarrow> u64 \<Rightarrow> u64 \<Rightarrow> u64 \<Rightarrow> (u64 \<times> u64 \<times> u64) option" where
  "classic_cfmm_reward_lp reserves_x reserves_y liquidity in_x_amount in_y_amount =
     do {
       min_by_x \<leftarrow> div_u128 (wide in_x_amount * wide liquidity) (wide reserves_x);
       min_by_y \<leftarrow> div_u128 (wide in_y_amount * wide liquidity) (wide reserves_y);
       (change_by_x, change_by_y) \<leftarrow>
         (if min_by_x = min_by_y then Some (0, 0)
          else if min_by_x < min_by_y
          then map_option (\<lambda>c. (0, narrow c)) (div_u128 ((min_by_y - min_by_x) * wide reserves_y) (wide liquidity))
          else map_option (\<lambda>c. (narrow c, 0)) (div_u128 ((min_by_x - min_by_y) * wide reserves_x) (wide liquidity)));
       Some (narrow (min min_by_x min_by_y), change_by_x, change_by_y)
     }"

definition classic_cfmm_shares_amount :: "u64 \<Rightarrow> u64 \<Rightarrow> u64 \<Rightarrow> u64 \<Rightarrow> (u64 \<times> u64) option" where
  "classic_cfmm_shares_amount reserves_x reserves_y liquidity burned_lq =
     do {
       x_amount \<leftarrow> div_u128 (wide burned_lq * wide reserves_x) (wide liquidity);
       y_amount \<leftarrow> div_u128 (wide burned_lq * wide reserves_y) (wide liquidity);
       Some (narrow x_amount, narrow y_amount)
     }"

subsection \<open>The classic pool\<close>

datatype classic_pool_ver = V1 | V2

record pool_validation =
  min_n2t_lovelace :: u64
  min_t2t_lovelace :: u64

record classic_pool =
  cp_id :: token
  cp_reserves_x :: u64
  cp_reserves_y :: u64
  cp_liquidity :: u64
  cp_asset_x :: asset_class
  cp_asset_y :: asset_class
  cp_asset_lq :: asset_class
  cp_lp_fee :: fee_ratio
  cp_lq_lower_bound :: u64
  cp_ver :: classic_pool_ver
  cp_marginal_cost :: ex_units
  cp_bounds :: pool_validation
  cp_stake_part_script_hash :: "hash28 option"

definition cp_output_amount :: "asset_class \<Rightarrow> u64 \<Rightarrow> classic_pool \<Rightarrow> u64 option" where
  "cp_output_amount base_asset base_amount p =
     classic_cfmm_output_amount (cp_asset_x p) (cp_asset_y p) (cp_reserves_x p) (cp_reserves_y p)
       base_asset base_amount (cp_lp_fee p) (cp_lp_fee p)"

definition cp_reward_lp :: "u64 \<Rightarrow> u64 \<Rightarrow> classic_pool \<Rightarrow> (u64 \<times> u64 \<times> u64) option" where
  "cp_reward_lp in_x_amount in_y_amount p =
     classic_cfmm_reward_lp (cp_reserves_x p) (cp_reserves_y p) (cp_liquidity p) in_x_amount in_y_amount"

definition cp_shares_amount :: "u64 \<Rightarrow> classic_pool \<Rightarrow> (u64 \<times> u64) option" where
  "cp_shares_amount burned_lq p =
     classic_cfmm_shares_amount (cp_reserves_x p) (cp_reserves_y p) (cp_liquidity p) burned_lq"

definition cp_base :: "classic_pool \<Rightarrow> asset_class" where
  "cp_base p = fst (order_canonical (cp_asset_x p) (cp_asset_y p))"

definition cp_quote :: "classic_pool \<Rightarrow> asset_class" where
  "cp_quote p = snd (order_canonical (cp_asset_x p) (cp_asset_y p))"

text \<open>The output of a trade on a side: a bid pays the quote asset, an ask the base asset.\<close>

definition cp_side_output :: "u64 on_side \<Rightarrow> classic_pool \<Rightarrow> u64 option" where
  "cp_side_output input p =
     (case input of OnBid i \<Rightarrow> cp_output_amount (cp_quote p) i p | OnAsk i \<Rightarrow> cp_output_amount (cp_base p) i p)"

definition cp_swap :: "u64 on_side \<Rightarrow> classic_pool \<Rightarrow> classic_pool option" where
  "cp_swap input p =
     map_option (\<lambda>output.
       case input of
         OnBid i \<Rightarrow>
           if cp_asset_x p = cp_base p
           then p\<lparr>cp_reserves_y := cp_reserves_y p + i, cp_reserves_x := cp_reserves_x p - output\<rparr>
           else p\<lparr>cp_reserves_x := cp_reserves_x p + i, cp_reserves_y := cp_reserves_y p - output\<rparr>
       | OnAsk i \<Rightarrow>
           if cp_asset_x p = cp_base p
           then p\<lparr>cp_reserves_x := cp_reserves_x p + i, cp_reserves_y := cp_reserves_y p - output\<rparr>
           else p\<lparr>cp_reserves_y := cp_reserves_y p + i, cp_reserves_x := cp_reserves_x p - output\<rparr>)
       (cp_side_output input p)"

text \<open>\<open>new_unsafe\<close> makes a raw ratio, which is a price as long as its denominator is not zero.\<close>

definition ratio_of :: "u64 \<Rightarrow> u64 \<Rightarrow> rat" where
  "ratio_of n d = of_nat (unat n) / of_nat (unat d)"

definition cp_static_price :: "classic_pool \<Rightarrow> price" where
  "cp_static_price p =
     (if cp_reserves_x p = cp_reserves_y p then 1
      else if cp_asset_x p = cp_base p then ratio_of (cp_reserves_y p) (cp_reserves_x p)
      else ratio_of (cp_reserves_x p) (cp_reserves_y p))"

definition cp_real_price :: "u64 on_side \<Rightarrow> classic_pool \<Rightarrow> price option option" where
  "cp_real_price input p =
     map_option (\<lambda>output. case input of OnBid i \<Rightarrow> price_new i output | OnAsk i \<Rightarrow> price_new output i)
       (cp_side_output input p)"

definition cp_quality :: "classic_pool \<Rightarrow> nat" where
  "cp_quality p = unat (cp_liquidity p)"

definition cp_is_active :: "classic_pool \<Rightarrow> bool" where
  "cp_is_active p \<longleftrightarrow>
     cp_lq_lower_bound p \<le> cp_reserves_x p * 2 \<and>
     (if cp_asset_x p = Native then min_n2t_lovelace (cp_bounds p) \<le> cp_reserves_x p
      else if cp_asset_y p = Native then min_n2t_lovelace (cp_bounds p) \<le> cp_reserves_y p
      else True)"

definition cp_reserves :: "classic_pool \<Rightarrow> reserves" where
  "cp_reserves p =
     (if cp_base p = cp_asset_x p then \<lparr> rs_base = cp_reserves_x p, rs_quote = cp_reserves_y p \<rparr>
      else \<lparr> rs_base = cp_reserves_y p, rs_quote = cp_reserves_x p \<rparr>)"

definition cp_estimated_trade :: "u64 on_side \<Rightarrow> classic_pool \<Rightarrow> available_liquidity option option" where
  "cp_estimated_trade input p =
     map_option (\<lambda>output. Some \<lparr> al_input = os_unwrap input, al_output = output \<rparr>) (cp_side_output input p)"

text \<open>
  The available liquidity is computed with decimal numbers and square roots of a third-party
  crate; \<open>decimal_liquidity\<close> is its input and output before they are capped.
\<close>

definition cp_available_liquidity_on_side ::
    "(price on_side \<Rightarrow> classic_pool \<Rightarrow> (u64 \<times> u64) option) \<Rightarrow> price on_side \<Rightarrow> classic_pool \<Rightarrow>
     available_liquidity option" where
  "cp_available_liquidity_on_side decimal_liquidity worst_price p =
     do {
       (input_amount_val, output_amount_val) \<leftarrow> decimal_liquidity worst_price p;
       let tradable_reserves_quote_int =
         (case worst_price of
            OnBid _ \<Rightarrow> if cp_base p = cp_asset_x p then cp_reserves_x p else cp_reserves_y p
          | OnAsk _ \<Rightarrow> if cp_base p = cp_asset_x p then cp_reserves_y p else cp_reserves_x p);
       remain_quote \<leftarrow> checked_sub tradable_reserves_quote_int output_amount_val;
       capped_output_amount \<leftarrow>
         (case checked_sub untouchable_lovelace_amount remain_quote of
            Some _ \<Rightarrow> checked_sub tradable_reserves_quote_int untouchable_lovelace_amount
          | None \<Rightarrow> Some output_amount_val);
       Some \<lparr> al_input = input_amount_val, al_output = capped_output_amount \<rparr>
     }"

text \<open>As a maker: an operation that panics on a pool with an empty reserve does nothing there.\<close>

definition classic_maker ::
    "(price on_side \<Rightarrow> classic_pool \<Rightarrow> (u64 \<times> u64) option) \<Rightarrow> (classic_pool, token, ex_units) maker_ops" where
  "classic_maker decimal_liquidity = \<lparr>
     mk_id = cp_id, mk_static_price = cp_static_price,
     mk_real_price = (\<lambda>input p. Option.bind (cp_real_price input p) id),
     mk_quality = cp_quality, mk_marginal_cost_hint = cp_marginal_cost, mk_liquidity = cp_reserves,
     mk_available_liquidity_on_side = cp_available_liquidity_on_side decimal_liquidity,
     mk_estimated_trade = (\<lambda>input p. Option.bind (cp_estimated_trade input p) id),
     mk_is_active = cp_is_active,
     mk_swap = (\<lambda>input p. case cp_swap input p of Some p' \<Rightarrow> p' | None \<Rightarrow> p) \<rparr>"

subsection \<open>Deposits and redemptions\<close>

datatype order_type = BalanceFn | ConstFnFeeSwitch | ConstFn | StableFn | RoyaltyConstFnV1 | RoyaltyConstFnV2

record deposit_order =
  dp_pool_nft :: token
  dp_token_x :: asset_class
  dp_token_x_amount :: u64
  dp_token_y :: asset_class
  dp_token_y_amount :: u64
  dp_token_lq :: asset_class
  dp_ex_fee :: u64
  dp_reward_pkh :: hash28
  dp_reward_stake_pkh :: "hash28 option"
  dp_collateral_ada :: u64
  dp_order_type :: order_type

text \<open>The amount a deposit brings in of one asset; the native one pays the fee and the collateral.\<close>

definition deposit_net :: "asset_class \<Rightarrow> u64 \<Rightarrow> deposit_order \<Rightarrow> u64 option" where
  "deposit_net token amount d =
     (if token = Native
      then Option.bind (checked_sub amount (dp_ex_fee d)) (\<lambda>r. checked_sub r (dp_collateral_ada d))
      else Some amount)"

definition checked_add :: "u64 \<Rightarrow> u64 \<Rightarrow> u64 option" where
  "checked_add a b = (if unat a + unat b < 2 ^ 64 then Some (a + b) else None)"

end
