(* ===== verification/Lb_Book_Spec.thy ===== *)
theory Lb_Book_Spec
  imports Lb_Batch Cfmm_Pool
begin

text \<open>
  Attempts of the liquidity book. A matchmaking attempt never loses or changes the book it was
  started on: its state stays a preview of it, and a failed attempt, or a recipe that fails later,
  gives the book back. The inner loop consumes input of takers at every turn, and the outer one
  stashes takers, which bounds them both, unless the attempt asks for a downgrade it has already
  made: then it runs forever. Takers enter through the contract \<open>taker_laws\<close>, which limit orders
  satisfy.
\<close>

text \<open>
  An attempt without optimisation that asks for a downgrade, on some preview of the book.
\<close>

definition downgrades_unoptimised ::
    "nat \<Rightarrow> ('t, 'k::linorder, 'id, 'u::{plus,zero,linorder}) taker_ops \<Rightarrow> ('m, 'id, 'u) maker_ops \<Rightarrow> 'u execution_config \<Rightarrow> ('t, 'm, 'id) idle_state \<Rightarrow> bool" where
  "downgrades_unoptimised inner T M conf st0 \<longleftrightarrow>
     (\<exists>st ev st1 batch ev1. previews T st0 st \<and>
        fill_batch inner T M conf False (st, attempt_empty) ev = Ret ((st1, batch), ev1) \<and>
        recipe_try_from T M (base_step_budget conf) batch = Some (Inl (Some (Inr DowngradeNeeded))))"

lemma recipe_result_cases:
  fixes r :: "('a list + downgrade_needed) option + 'b"
  obtains recipe where "r = Inr recipe" | "r = Inl None" | us where "r = Inl (Some (Inl us))"
    | "r = Inl (Some (Inr DowngradeNeeded))"
proof (cases r)
  case (Inl x)
  show ?thesis
  proof (cases x)
    case (Some y)
    show ?thesis
    proof (cases y)
      case (Inr d)
      then show ?thesis using Inl Some that(4) by (cases d) simp
    qed (use Inl Some that(3) in simp)
  qed (use Inl that(2) in simp)
qed (rule that(1))

lemma match_target_cases:
  assumes "match_target T M o2o opt spot t (st, batch) = Some r"
  obtains "match_with_taker T spot t (st, batch) = Some r"
    | pid fp where
        "preselect_market_maker M (tk_price T t) (tk_input T t) (tk_side T t) opt st = Some (pid, fp)"
        "match_with_maker T M t pid (fp_input fp) (st, batch) = r"
    | "r = (False, pre_add_taker T t st, batch)"
proof -
  define pm where "pm = preselect_market_maker M (tk_price T t) (tk_input T t) (tk_side T t) opt st"
  obtain c where c: "match_target T M o2o opt spot t (st, batch) =
      (if c then match_with_taker T spot t (st, batch)
       else case pm of
              Some (pid, fp) \<Rightarrow>
                if overlaps (side_wrap (tk_side T t) (tk_price T t)) (fp_price fp)
                then Some (match_with_maker T M t pid (fp_input fp) (st, batch))
                else Some (False, pre_add_taker T t st, batch)
            | None \<Rightarrow> Some (False, pre_add_taker T t st, batch))"
    unfolding match_target_def pm_def Let_def prod.case by metis
  show ?thesis
  proof (cases c)
    case True
    then show ?thesis using assms c that(1) by simp
  next
    case False
    note run = assms [unfolded c if_not_P [OF False]]
    show ?thesis
    proof (cases pm)
      case None
      then show ?thesis using run that(3) by simp
    next
      case (Some x)
      obtain pid fp where x: "x = (pid, fp)" by (metis surj_pair)
      show ?thesis
        using run that(2) [of pid fp] that(3) Some x unfolding pm_def by (simp split: if_splits)
    qed
  qed
qed

context taker_laws
begin

lemma match_target_turn:
  assumes inv: "batch_inv st0 S st batch" and ok: "book_ok T st0"
    and t: "from_book (book_elems st0 - set S) batch t"
    and run: "match_target T M o2o opt spot t (st, batch) = Some (go_on, st', batch')"
  shows "batch_inv st0 S st' batch' \<and>
    (go_on \<longrightarrow> load (mt_elems (active_fragments st')) < load (mt_elems (active_fragments st)) + weight_of t)"
proof -
  from run show ?thesis
  proof (cases rule: match_target_cases)
    case 1
    then show ?thesis by (rule match_with_taker_turn [OF inv ok t])
  next
    case (2 pid fp)
    from preselected_input [OF 2(1)] show ?thesis
      by (rule match_with_maker_turn [OF inv ok t _ 2(2)])
  next
    case 3
    then show ?thesis using batch_inv_back [OF inv ok t] by simp
  qed
qed

lemma fill_batch_inv:
  "batch_inv st0 S st batch \<Longrightarrow> book_ok T st0 \<Longrightarrow>
    fill_batch fuel T M conf opt (st, batch) ev = Ret ((st', batch'), ev') \<Longrightarrow> batch_inv st0 S st' batch'"
proof (induction fuel arbitrary: st batch ev)
  case (Suc fuel)
  note inv = Suc.prems(1) and ok = Suc.prems(2) and run = Suc.prems(3)
  show ?case
  proof (cases "(ma_execution_units_consumed batch < soft_cap conf \<and> num_takes batch < 15) \<and> spot_price M st \<noteq> None")
    case False
    then show ?thesis using run inv by (auto split: if_splits)
  next
    case True
    then obtain spot where spot: "spot_price M st = Some spot" by auto
    obtain res st1 where pick: "pick_active_taker (max_by_distance_to_spot T spot (allowed_price_range T st)) st = (res, st1)"
      by (metis surj_pair)
    note p = batch_inv_pick [OF inv ok picks_max_by_distance pick]
    show ?thesis
    proof (cases res)
      case None
      then show ?thesis using run True spot pick p by simp
    next
      case (Some t)
      then obtain go_on st2 batch2 where m: "match_target T M (o2o_allowed conf) opt spot t (st1, batch) = Some (go_on, st2, batch2)"
        and rest: "(if go_on then fill_batch fuel T M conf opt (st2, batch2) (ev @ [SpotPrice spot])
          else Ret ((st2, batch2), ev @ [SpotPrice spot])) = Ret ((st', batch'), ev')"
        using run True spot pick by (auto simp: run_bind_Ret Let_def)
      have inv1: "batch_inv st0 S st1 batch" and t: "from_book (book_elems st0 - set S) batch t" using p Some by auto
      note turn = match_target_turn [OF inv1 ok t m]
      show ?thesis
      proof (cases go_on)
        case True
        then show ?thesis using rest turn Suc.IH [of st2 batch2 "ev @ [SpotPrice spot]"] ok by simp
      qed (use rest turn in simp)
    qed
  qed
qed simp

text \<open>Fuel above the load of the active takers is enough for the inner loop.\<close>

lemma fill_batch_fuel:
  "batch_inv st0 S st batch \<Longrightarrow> book_ok T st0 \<Longrightarrow> load (mt_elems (active_fragments st)) < fuel \<Longrightarrow>
    fill_batch fuel T M conf opt (st, batch) ev \<noteq> Out_of_fuel"
proof (induction fuel arbitrary: st batch ev)
  case (Suc fuel)
  note inv = Suc.prems(1) and ok = Suc.prems(2)
  show ?case
  proof (cases "(ma_execution_units_consumed batch < soft_cap conf \<and> num_takes batch < 15) \<and> spot_price M st \<noteq> None")
    case False
    then show ?thesis by auto
  next
    case True
    then obtain spot where spot: "spot_price M st = Some spot" by auto
    obtain res st1 where pick: "pick_active_taker (max_by_distance_to_spot T spot (allowed_price_range T st)) st = (res, st1)"
      by (metis surj_pair)
    note p = batch_inv_pick [OF inv ok picks_max_by_distance pick]
    show ?thesis
    proof (cases res)
      case None
      then show ?thesis using True spot pick by simp
    next
      case (Some t)
      have inv1: "batch_inv st0 S st1 batch" and t: "from_book (book_elems st0 - set S) batch t" using p Some by auto
      show ?thesis
      proof (cases "match_target T M (o2o_allowed conf) opt spot t (st1, batch)")
        case None
        then show ?thesis using True spot pick Some by simp
      next
        case (Some r)
        obtain go_on st2 batch2 where r: "r = (go_on, st2, batch2)" by (metis surj_pair)
        note turn = match_target_turn [OF inv1 ok t Some [unfolded r]]
        have "go_on \<Longrightarrow> fill_batch fuel T M conf opt (st2, batch2) (ev @ [SpotPrice spot]) \<noteq> Out_of_fuel"
          using turn p \<open>res = Some t\<close> Suc.prems(3) ok by (intro Suc.IH) auto
        then show ?thesis using True spot pick \<open>res = Some t\<close> Some r by (simp add: Let_def)
      qed
    qed
  qed
qed simp

lemma batch_inv_empty:
  assumes "previews T st0 st" "\<forall>v. st \<noteq> Preview v"
  shows "batch_inv st0 (stashed_takers st) st attempt_empty"
  using assms previews_live [OF assms(1)] previews_active_live [OF assms]
  by (auto simp: batch_inv_def takes_from_def from_book_def attempt_empty_def)

lemma rollback_settled: "previews T st0 st \<Longrightarrow> \<forall>v. tlb_rollback T opt st \<noteq> Preview v"
  by (cases st) (auto simp: pp_rollback_def pv_rollback_def Let_def split: prod.splits if_splits)

text \<open>What a finished batch asks to stash is part of the live book.\<close>

lemma unsatisfied_live:
  assumes inv: "batch_inv st0 S st batch"
    and r: "recipe_try_from T M b batch = Some (Inl (Some (Inl us)))"
  shows "us \<noteq> [] \<and> set us \<subseteq> live_takers st \<and> (\<forall>i. st \<noteq> Idle i)"
proof -
  from r have complete: "is_complete batch"
    by (auto simp: recipe_try_from_def split: if_splits)
  from r complete obtain rc where rc: "attempt_finalized T M batch = Some (Some rc)"
    and us: "unsatisfied_fragments T rc = Some us" "us \<noteq> []"
    by (auto simp: recipe_try_from_def bind_eq_Some_conv Let_def split: if_splits option.splits)
  have "set us \<subseteq> (tr_target \<circ> snd) ` set (fr_takes rc)"
    using unsatisfied_of_iff [OF us(1) [unfolded unsatisfied_fragments_def]] by force
  also have "\<dots> = snd ` set (map (\<lambda>(i, tr). (i, tr_target tr)) (fr_takes rc))" by force
  also have "\<dots> = snd ` set (map (\<lambda>(i, tr). (i, tr_target tr)) (ma_takes batch))"
    using attempt_finalized_some [OF rc] by simp
  also have "\<dots> \<subseteq> book_elems st0 - set S" using inv by (force simp: batch_inv_def takes_from_def)
  also have "\<dots> = live_takers st" using inv previews_live [of T st0 st] by (simp add: batch_inv_def)
  finally have "set us \<subseteq> live_takers st" .
  moreover have "ma_takes batch \<noteq> []" using complete by (auto simp: is_complete_def)
  ultimately show ?thesis using inv us(2) by (simp add: batch_inv_def)
qed

lemma rollback_previews:
  assumes "book_ok T st0" "previews T st0 st" "set ts \<subseteq> live_takers st"
  shows "previews T st0 (tlb_rollback T (Stash ts) st)"
proof (cases "st = Idle st0")
  case False
  then show ?thesis using rollback_stash [OF assms] by blast
qed simp

lemma attempt_previews:
  assumes ok: "book_ok T st0"
  shows "previews T st0 st \<Longrightarrow> \<forall>v. st \<noteq> Preview v \<Longrightarrow>
    attempt fuel inner T M conf opt st = Ret (res, ev, st') \<Longrightarrow>
    previews T st0 st' \<and> (res = None \<longrightarrow> st' = Idle st0)"
proof (induction fuel arbitrary: st opt)
  case (Suc fuel)
  from Suc.prems(3) obtain st1 batch ev1 where
    fill: "fill_batch inner T M conf opt (st, attempt_empty) [LiquidityBookSizePreAttempt (tlb_size st)] = Ret ((st1, batch), ev1)"
    by (auto simp: run_bind_Ret Let_def)
  have inv: "batch_inv st0 (stashed_takers st) st1 batch"
    by (rule fill_batch_inv [OF batch_inv_empty [OF Suc.prems(1,2)] ok fill])
  then have pv: "previews T st0 st1" by (simp add: batch_inv_def)
  from Suc.prems(3) fill obtain r where r: "recipe_try_from T M (base_step_budget conf) batch = Some r"
    by (auto simp: run_bind_Ret Let_def)
  show ?case
  proof (cases r rule: recipe_result_cases)
    case 1
    then show ?thesis using Suc.prems(3) fill r pv by (auto simp: Let_def)
  next
    case 2
    then have "st' = Idle st0" using Suc.prems(3) fill r rollback_unstash [OF ok pv] by (auto simp: Let_def)
    then show ?thesis by simp
  next
    case (3 us)
    have "previews T st0 (tlb_rollback T (Stash us) st1)"
      using unsatisfied_live [OF inv r [unfolded 3]] by (intro rollback_previews [OF ok pv]) simp
    moreover have "attempt fuel inner T M conf opt (tlb_rollback T (Stash us) st1) = Ret (res, ev, st')"
      using Suc.prems(3) fill r 3 by (simp add: Let_def)
    ultimately show ?thesis using Suc.IH rollback_settled [OF pv] by blast
  next
    case 4
    have "previews T st0 (tlb_rollback T (Stash []) st1)" by (intro rollback_previews [OF ok pv]) simp
    moreover have "attempt fuel inner T M conf False (tlb_rollback T (Stash []) st1) = Ret (res, ev, st')"
      using Suc.prems(3) fill r 4 by (simp add: Let_def)
    ultimately show ?thesis using Suc.IH rollback_settled [OF pv] by blast
  qed
qed simp

lemma finite_book [simp]: "finite (book_elems st0)"
  by (simp add: book_elems_def)

lemma attempt_fuel:
  assumes ok: "book_ok T st0" and inner: "load (book_elems st0) < inner"
    and calm: "\<not> downgrades_unoptimised inner T M conf st0"
  shows "previews T st0 st \<Longrightarrow> \<forall>v. st \<noteq> Preview v \<Longrightarrow>
    card (book_elems st0 - set (stashed_takers st)) + (if opt then 1 else 0) < fuel \<Longrightarrow>
    attempt fuel inner T M conf opt st \<noteq> Out_of_fuel"
proof (induction fuel arbitrary: st opt)
  case (Suc fuel)
  let ?fill = "fill_batch inner T M conf opt (st, attempt_empty) [LiquidityBookSizePreAttempt (tlb_size st)]"
  note inv0 = batch_inv_empty [OF Suc.prems(1,2)]
  have "mt_elems (active_fragments st) \<subseteq> book_elems st0"
    using previews_active_live [OF Suc.prems(1,2)] previews_live [OF Suc.prems(1)] by auto
  then have "load (mt_elems (active_fragments st)) \<le> load (book_elems st0)" by (intro load_mono) simp_all
  then have filled: "?fill \<noteq> Out_of_fuel" using inner by (intro fill_batch_fuel [OF inv0 ok]) simp
  show ?case
  proof (cases ?fill)
    case (Ret x)
    then obtain st1 batch ev1 where fill: "?fill = Ret ((st1, batch), ev1)" by (metis surj_pair)
    have inv: "batch_inv st0 (stashed_takers st) st1 batch" by (rule fill_batch_inv [OF inv0 ok fill])
    then have pv: "previews T st0 st1" and same: "stashed_takers st1 = stashed_takers st" by (auto simp: batch_inv_def)
    show ?thesis
    proof (cases "recipe_try_from T M (base_step_budget conf) batch")
      case None
      then show ?thesis using fill by (simp add: Let_def)
    next
      case (Some r)
      show ?thesis
      proof (cases r rule: recipe_result_cases)
        case (3 us)
        note us = unsatisfied_live [OF inv Some [unfolded 3]]
        have live: "live_takers st1 = book_elems st0 - set (stashed_takers st)"
          using previews_live [OF pv] same by simp
        have sub: "set us \<subseteq> live_takers st1" and ne: "st1 \<noteq> Idle st0" using us by auto
        note rb = rollback_stash [OF ok pv sub ne]
        then have kept: "previews T st0 (tlb_rollback T (Stash us) st1)"
          "stashed_takers (tlb_rollback T (Stash us) st1) = stashed_takers st @ us"
          unfolding same by simp_all
        obtain u where "u \<in> set us" using us by (cases us) auto
        then have "book_elems st0 - set (stashed_takers st @ us) \<subset> book_elems st0 - set (stashed_takers st)"
          using sub unfolding live by auto
        then have "card (book_elems st0 - set (stashed_takers st @ us)) < card (book_elems st0 - set (stashed_takers st))"
          by (rule psubset_card_mono [rotated]) simp
        then have "attempt fuel inner T M conf opt (tlb_rollback T (Stash us) st1) \<noteq> Out_of_fuel"
          using Suc.prems(3) kept rollback_settled [OF pv] by (intro Suc.IH) auto
        then show ?thesis using fill Some 3 by (simp add: Let_def)
      next
        case 4
        have opt: "opt"
        proof (rule ccontr)
          assume "\<not> opt"
          then have "downgrades_unoptimised inner T M conf st0"
            unfolding downgrades_unoptimised_def using Suc.prems(1) fill Some 4
            by (intro exI conjI) (assumption, simp_all)
          then show False using calm by contradiction
        qed
        have kept: "previews T st0 (tlb_rollback T (Stash []) st1)"
          by (rule rollback_previews [OF ok pv]) simp
        have "stashed_takers (tlb_rollback T (Stash []) st1) = stashed_takers st"
        proof (cases "st1 = Idle st0")
          case True
          then show ?thesis using same by simp
        next
          case False
          then show ?thesis using rollback_stash [OF ok pv _ False, of "[]"] same by simp
        qed
        then have "attempt fuel inner T M conf False (tlb_rollback T (Stash []) st1) \<noteq> Out_of_fuel"
          using Suc.prems(3) kept rollback_settled [OF pv] opt by (intro Suc.IH) auto
        then show ?thesis using fill Some 4 by (simp add: Let_def)
      qed (use fill Some in \<open>simp_all add: Let_def\<close>)
    qed
  qed (use filled in simp_all)
qed simp

end

lemma fill_batch_more:
  "fill_batch n T M conf opt sb ev \<noteq> Out_of_fuel \<Longrightarrow> n \<le> m \<Longrightarrow>
    fill_batch m T M conf opt sb ev = fill_batch n T M conf opt sb ev"
proof (induction n arbitrary: m sb ev)
  case (Suc n)
  from Suc.prems(2) obtain k where m: "m = Suc k" "n \<le> k" by (cases m) auto
  obtain st batch where sb: "sb = (st, batch)" by (metis surj_pair)
  show ?case
  proof (cases "(ma_execution_units_consumed batch < soft_cap conf \<and> num_takes batch < 15) \<and> spot_price M st \<noteq> None")
    case False
    then show ?thesis using m sb by auto
  next
    case True
    then obtain spot where spot: "spot_price M st = Some spot" by auto
    obtain res st1 where pick: "pick_active_taker (max_by_distance_to_spot T spot (allowed_price_range T st)) st = (res, st1)"
      by (metis surj_pair)
    show ?thesis
    proof (cases res)
      case None
      then show ?thesis using True spot pick m sb by simp
    next
      case (Some t)
      show ?thesis
      proof (cases "match_target T M (o2o_allowed conf) opt spot t (st1, batch)")
        case None
        then show ?thesis using True spot pick Some m sb by simp
      next
        case r: (Some r)
        obtain go_on sb2 where go: "r = (go_on, sb2)" by (metis surj_pair)
        have "go_on \<Longrightarrow> fill_batch k T M conf opt sb2 (ev @ [SpotPrice spot]) =
            fill_batch n T M conf opt sb2 (ev @ [SpotPrice spot])"
          using Suc.prems(1) True spot pick Some r go sb by (intro Suc.IH m(2)) (simp add: Let_def)
        then show ?thesis using True spot pick Some r go m sb by (simp add: Let_def)
      qed
    qed
  qed
qed simp

lemma fill_batch_any:
  assumes "fill_batch n T M conf opt sb ev = Ret x"
  shows "fill_batch m T M conf opt sb ev \<in> {Ret x, Out_of_fuel}"
proof (cases "n \<le> m")
  case True
  then show ?thesis using fill_batch_more [of n T M conf opt sb ev m] assms by simp
next
  case False
  then show ?thesis using fill_batch_more [of m T M conf opt sb ev n] assms by fastforce
qed

interpretation limit: taker_laws limit_taker
  by unfold_locales
    (auto simp: limit_taker_def lo_with_applied_trade_def lo_stable_id_def Let_def split: if_splits)

text \<open>A preview that is committed is a sound book; which takers it still has is another matter.\<close>

lemma commit_sound:
  assumes "previews T st0 st" "book_ok T st0"
  obtains i where "tlb_commit T st = Idle i" "book_ok T i"
proof -
  have "mt_ok T (fold (mt_insert T) ts m)" if "mt_ok T m" for ts m
    using that by (induction ts arbitrary: m) auto
  then show ?thesis using assms that
    by (cases st) (auto simp: book_ok_def part_of_def pp_commit_def pv_commit_def reinsert_def)
qed

text \<open>
  C9. An attempt never damages the book: whatever it matched, retried or stashed, a report that its
  recipe failed restores exactly the book the attempt started from, takers, stashed or not, and
  makers alike; and an attempt that finds no recipe has restored it already. A report that
  the recipe succeeded puts the book at rest with its takers in order, each once and on its side;
  it need not have every taker that the recipe left alone.
\<close>

theorem attempt_keeps_book:
  assumes "book_ok limit_taker st0"
    and "book_attempt fuel inner limit_taker M conf (Idle st0) = Ret (res, ev, st')"
  shows "on_recipe_failed limit_taker st' = Idle st0 \<and> (res = None \<longrightarrow> st' = Idle st0) \<and>
    (\<exists>st1. on_recipe_succeeded limit_taker st' = Idle st1 \<and> book_ok limit_taker st1)"
proof -
  have "previews limit_taker st0 st' \<and> (res = None \<longrightarrow> st' = Idle st0)"
    using limit.attempt_previews [OF assms(1), of "Idle st0" fuel inner M conf True res ev st'] assms(2)
    by (simp add: book_attempt_def)
  then show ?thesis using rollback_unstash [OF assms(1)] commit_sound [OF _ assms(1)]
    unfolding on_recipe_failed_def on_recipe_succeeded_def by metis
qed

text \<open>
  C17. An attempt on a book of limit orders returns, or panics, with as much fuel for the inner loop
  as the takers have input to spend, plus one for each, and for the outer loop as many turns as
  there are takers, and two more; unless an attempt that has already given up optimised
  matchmaking asks for a downgrade again.
\<close>

theorem attempt_returns:
  assumes "book_ok limit_taker st0" "\<not> downgrades_unoptimised inner limit_taker M conf st0"
    and "(\<Sum>t \<in> book_elems st0. unat (lo_input_amount t) + 1) < inner"
  shows "book_attempt (card (book_elems st0) + 2) inner limit_taker M conf (Idle st0) \<noteq> Out_of_fuel"
proof -
  have "limit.load (book_elems st0) = (\<Sum>t \<in> book_elems st0. unat (lo_input_amount t) + 1)"
    unfolding limit.load_def limit.weight_of_def by (simp add: limit_taker_def)
  then show ?thesis
    unfolding book_attempt_def using assms by (intro limit.attempt_fuel [OF assms(1)]) auto
qed

lemma rollback_nothing:
  assumes "book_ok T st0" "previews T st0 st" "stashed_takers st = []"
  shows "tlb_rollback T (Stash []) st = Idle st0"
proof (cases "st = Idle st0")
  case False
  from rollback_pieces [OF assms(1,2) False, of "Stash []"] assms(3) obtain i where
    i: "tlb_rollback T (Stash []) st = Idle i" by (auto simp: Let_def)
  moreover have "previews T st0 (tlb_rollback T (Stash []) st)"
    using rollback_stash [OF assms(1,2) _ False, of "[]"] by simp
  ultimately show ?thesis by simp
qed simp

text \<open>An attempt that asks for the downgrade it has made starts again where it was.\<close>

lemma attempt_spins:
  assumes ok: "book_ok limit_taker st0"
    and fill: "fill_batch n limit_taker M conf False (Idle st0, attempt_empty)
      [LiquidityBookSizePreAttempt (tlb_size (Idle st0))] = Ret ((st1, batch), ev1)"
    and down: "recipe_try_from limit_taker M (base_step_budget conf) batch = Some (Inl (Some (Inr DowngradeNeeded)))"
  shows "attempt fuel inner limit_taker M conf False (Idle st0) = Out_of_fuel"
proof -
  have "limit.batch_inv st0 (stashed_takers (Idle st0)) (Idle st0) (attempt_empty :: (limit_order, 'a, token, ex_units) matchmaking_attempt)"
    by (rule limit.batch_inv_empty) simp_all
  from limit.fill_batch_inv [OF this ok fill] have "previews limit_taker st0 st1" "stashed_takers st1 = []"
    by (simp_all add: limit.batch_inv_def)
  note start = rollback_nothing [OF ok this]
  show ?thesis
  proof (induction fuel)
    case (Suc fuel)
    then show ?case using fill_batch_any [OF fill, of inner] down start by (auto simp: Let_def)
  qed simp
qed

text \<open>
  C33. A book can hang the program: when a batch matched without optimisation is still too complex
  for the budgets of its takers, the attempt retries it in the same way from the same book, so
  from the optimised attempt that asks for the downgrade no fuel is enough; it never returns.
\<close>

theorem attempt_never_returns:
  assumes "book_ok limit_taker st0"
    and "fill_batch n limit_taker M conf True (Idle st0, attempt_empty)
      [LiquidityBookSizePreAttempt (tlb_size (Idle st0))] = Ret ((st1, batch1), ev1)"
    and "recipe_try_from limit_taker M (base_step_budget conf) batch1 = Some (Inl (Some (Inr DowngradeNeeded)))"
    and "fill_batch n limit_taker M conf False (Idle st0, attempt_empty)
      [LiquidityBookSizePreAttempt (tlb_size (Idle st0))] = Ret ((st2, batch2), ev2)"
    and "recipe_try_from limit_taker M (base_step_budget conf) batch2 = Some (Inl (Some (Inr DowngradeNeeded)))"
  shows "book_attempt fuel inner limit_taker M conf (Idle st0) = Out_of_fuel"
proof (cases fuel)
  case (Suc k)
  have "limit.batch_inv st0 (stashed_takers (Idle st0)) (Idle st0) (attempt_empty :: (limit_order, 'a, token, ex_units) matchmaking_attempt)"
    by (rule limit.batch_inv_empty) simp_all
  from limit.fill_batch_inv [OF this assms(1,2)] have "previews limit_taker st0 st1" "stashed_takers st1 = []"
    by (simp_all add: limit.batch_inv_def)
  note start = rollback_nothing [OF assms(1) this]
  show ?thesis
    using fill_batch_any [OF assms(2), of inner] assms(3) start attempt_spins [OF assms(1,4,5), of k inner] Suc
    by (auto simp: book_attempt_def Let_def)
qed (simp add: book_attempt_def)

end
