(* ===== verification/Cfmm_Spec.thy ===== *)
theory Cfmm_Spec
  imports Cfmm_Pool
begin

text \<open>
  What a constant-product pool promises: a swap never lowers the product of the reserves, a
  deposit cannot be redeemed for more than it brought in; and where it breaks, on a reserve of the
  native asset below the untouchable amount.
\<close>

subsection \<open>128-bit arithmetic\<close>

lemma unat_wide [simp]: "unat (wide w) = unat w"
  proof -
  have "unat w < 2 ^ LENGTH(64)" by (rule unsigned_less)
  then have "unat w < 2 ^ 128" by (rule order_less_le_trans) simp
  then show ?thesis by (simp add: wide_def unsigned_ucast_eq take_bit_nat_eq_self)
qed

lemma unat_narrow: "unat (narrow w) = unat w mod 2 ^ 64"
  by (simp add: narrow_def unsigned_ucast_eq take_bit_eq_mod)

lemma unat_narrow_le: "unat (narrow w) \<le> unat w"
  by (simp add: unat_narrow)

lemma unat_narrow_small: "unat w < 2 ^ 64 \<Longrightarrow> unat (narrow w) = unat w"
  by (simp add: unat_narrow)

lemma u64_bound: "unat (w :: u64) < 2 ^ 64"
  using unsigned_less [of w] by simp

lemma unat_wide_mult: "unat (wide a * wide b) = unat a * unat b"
proof -
  have "unat a * unat b < 2 ^ 64 * 2 ^ 64"
    by (intro mult_strict_mono' u64_bound) simp_all
  then have "unat (wide a) * unat (wide b) < 2 ^ LENGTH(128)" by (simp add: power_add [symmetric])
  then show ?thesis by (simp only: unat_mult_lem [THEN iffD1] unat_wide)
qed

lemma div_u128_some: "div_u128 a b = Some q \<Longrightarrow> 0 < unat b \<and> unat q = unat a div unat b"
  by (auto simp: div_u128_def unat_div unat_gt_0 split: if_splits)

lemma div_u128_le: "div_u128 a b = Some q \<Longrightarrow> unat q * unat b \<le> unat a"
  using div_u128_some [of a b q] by simp

lemma checked_sub_nat: "checked_sub a b = Some c \<Longrightarrow> unat b \<le> unat a \<and> unat c = unat a - unat b"
  by (auto simp: checked_sub_def unat_sub word_le_nat_alt split: if_splits)

lemma checked_add_nat: "checked_add a b = Some c \<Longrightarrow> unat c = unat a + unat b"
  by (auto simp: checked_add_def unat_word_ariths split: if_splits)

subsection \<open>Deposits and redemptions\<close>

text \<open>The least share of the two sides; the change of the other side is what it brought too much.\<close>

lemma reward_lp_bounds:
  assumes "classic_cfmm_reward_lp x y l nx ny = Some (lq, cx, cy)"
  shows "unat lq * unat x \<le> (unat nx - unat cx) * unat l \<and> unat lq * unat y \<le> (unat ny - unat cy) * unat l"
proof -
  obtain mx my where mx: "div_u128 (wide nx * wide l) (wide x) = Some mx"
    and my: "div_u128 (wide ny * wide l) (wide y) = Some my" and lq: "lq = narrow (min mx my)"
    and change: "(if mx = my then Some (0, 0)
          else if mx < my then map_option (\<lambda>c. (0, narrow c)) (div_u128 ((my - mx) * wide y) (wide l))
          else map_option (\<lambda>c. (narrow c, 0)) (div_u128 ((mx - my) * wide x) (wide l))) = Some (cx, cy)"
    using assms by (auto simp: classic_cfmm_reward_lp_def bind_eq_Some_conv split: if_splits)
  have x: "unat mx * unat x \<le> unat nx * unat l" and y: "unat my * unat y \<le> unat ny * unat l"
    using div_u128_le [OF mx] div_u128_le [OF my] by (simp_all add: unat_wide_mult)
  have least: "unat lq \<le> unat mx" "unat lq \<le> unat my"
    using unat_narrow_le [of "min mx my"] lq by (auto simp: word_le_nat_alt min_def split: if_splits)
  have rest: "unat lq * unat r \<le> (unat n - unat (narrow c)) * unat l"
    if c: "div_u128 ((big - small) * wide r) (wide l) = Some c"
      and big: "small < big" "unat big * unat r \<le> unat n * unat l" and small: "unat lq \<le> unat small"
    for n r :: u64 and big small c :: u128
  proof -
    have d: "unat (big - small) = unat big - unat small" using big(1) by (simp add: unat_sub word_less_nat_alt word_le_nat_alt)
    have "(unat big - unat small) * unat r \<le> unat big * unat r" by (intro mult_le_mono1) simp
    also have "\<dots> \<le> unat n * unat l" by (rule big(2))
    also have "\<dots> = unat (wide n * wide l)" by (simp only: unat_wide_mult)
    also have "\<dots> < 2 ^ LENGTH(128)" by (rule unsigned_less)
    finally have "unat ((big - small) * wide r) = (unat big - unat small) * unat r"
      by (simp add: unat_word_ariths d)
    then have cl: "unat c * unat l \<le> (unat big - unat small) * unat r" using div_u128_le [OF c] by simp
    have "unat small \<le> unat big" using big(1) by (simp add: word_less_nat_alt)
    then have sum: "(unat big - unat small) * unat r + unat small * unat r = unat big * unat r"
      by (simp add: add_mult_distrib [symmetric])
    have "unat lq * unat r \<le> unat small * unat r" using small by (rule mult_le_mono1)
    then have "unat lq * unat r + unat c * unat l \<le> unat n * unat l" using cl sum big(2) by linarith
    moreover have "unat (narrow c) * unat l \<le> unat c * unat l" by (intro mult_le_mono1 unat_narrow_le)
    ultimately have "unat lq * unat r + unat (narrow c) * unat l \<le> unat n * unat l" by linarith
    then show ?thesis by (simp add: diff_mult_distrib)
  qed
  have plain: "unat lq * unat x \<le> unat nx * unat l" "unat lq * unat y \<le> unat ny * unat l"
    using least x y mult_le_mono1 [OF least(1), of "unat x"] mult_le_mono1 [OF least(2), of "unat y"] by linarith+
  consider "mx = my" | "mx < my" | "my < mx" by (metis linorder_neq_iff)
  then show ?thesis
  proof cases
    case 1
    then show ?thesis using change plain by simp
  next
    case 2
    then obtain c where "div_u128 ((my - mx) * wide y) (wide l) = Some c" "cx = 0" "cy = narrow c"
      using change less_imp_neq [OF 2] by auto
    then show ?thesis using rest [OF _ 2 y least(1)] plain by simp
  next
    case 3
    then obtain c where "div_u128 ((mx - my) * wide x) (wide l) = Some c" "cx = narrow c" "cy = 0"
      using change less_imp_neq [OF 3] order_less_not_sym [OF 3] by auto
    then show ?thesis using rest [OF _ 3 x least(2)] plain by simp
  qed
qed

lemma shares_amount_bounds:
  assumes "classic_cfmm_shares_amount x y l lq = Some (ax, ay)"
  shows "unat ax * unat l \<le> unat lq * unat x \<and> unat ay * unat l \<le> unat lq * unat y \<and> 0 < unat l"
proof -
  obtain wx wy where w: "div_u128 (wide lq * wide x) (wide l) = Some wx"
    "div_u128 (wide lq * wide y) (wide l) = Some wy" "ax = narrow wx" "ay = narrow wy"
    using assms by (auto simp: classic_cfmm_shares_amount_def bind_eq_Some_conv)
  have "unat wx * unat l \<le> unat lq * unat x" "unat wy * unat l \<le> unat lq * unat y"
    using div_u128_le [OF w(1)] div_u128_le [OF w(2)] by (simp_all add: unat_wide_mult)
  moreover have "unat ax * unat l \<le> unat wx * unat l" "unat ay * unat l \<le> unat wy * unat l"
    using w by (simp_all add: unat_narrow_le)
  moreover have "0 < unat l" using div_u128_some [OF w(1)] by simp
  ultimately show ?thesis by linarith
qed

definition sample_pool :: classic_pool where
  "sample_pool = \<lparr> cp_id = Token 9 an_zero, cp_reserves_x = 10000000, cp_reserves_y = 3700000,
     cp_liquidity = 6000000, cp_asset_x = Native, cp_asset_y = TokenClass (Token 5 an_zero),
     cp_asset_lq = TokenClass (Token 6 an_zero), cp_lp_fee = (99700, 100000), cp_lq_lower_bound = 0, cp_ver = V1,
     cp_marginal_cost = ExUnits 1 1, cp_bounds = \<lparr> min_n2t_lovelace = 1000000, min_t2t_lovelace = 1000000 \<rparr>, cp_stake_part_script_hash = None \<rparr>"

subsection \<open>Swaps\<close>

lemma swap_output_bound:
  fixes x y i n d out :: nat
  assumes "out * (x * d + i * n) \<le> y * i * n" "n \<le> d" "0 < x * d + i * n"
  shows "out * (x + i) \<le> y * i"
proof (cases "n = 0")
  case True
  then show ?thesis using assms by auto
next
  case False
  have "out * (x + i) * n \<le> out * (x * d + i * n)" using assms(2)
    by (simp add: algebra_simps mult_le_mono2)
  then have "out * (x + i) * n \<le> y * i * n" using assms(1) by linarith
  then show ?thesis using False by simp
qed

text \<open>The output of a trade that does not overflow, in and out by the side it comes from.\<close>

lemma quote_bound:
  assumes q: "div_u128 (wide y * wide i * wide n) (wide x * wide d + wide i * wide n) = Some q"
    and "n \<le> d" "unat y * unat i * unat n < 2 ^ 128" "unat x * unat d + unat i * unat n < 2 ^ 128"
  shows "unat q * (unat x + unat i) \<le> unat y * unat i \<and> unat (narrow q) = unat q \<and> unat q \<le> unat y"
proof -
  have num: "unat (wide y * wide i * wide n) = unat y * unat i * unat n"
  proof -
    have "unat (wide y * wide i) * unat (wide n) < 2 ^ LENGTH(128)"
      using assms(3) by (simp add: unat_wide_mult)
    then show ?thesis by (simp only: unat_mult_lem [THEN iffD1] unat_wide_mult unat_wide)
  qed
  have den: "unat (wide x * wide d + wide i * wide n) = unat x * unat d + unat i * unat n"
  proof -
    have "unat (wide x * wide d) + unat (wide i * wide n) < 2 ^ LENGTH(128)"
      using assms(4) by (simp add: unat_wide_mult)
    then show ?thesis by (simp only: unat_add_lem [THEN iffD1] unat_wide_mult)
  qed
  have b: "unat q * (unat x + unat i) \<le> unat y * unat i"
    using div_u128_le [OF q] div_u128_some [OF q] assms(2) unfolding num den
    by (intro swap_output_bound [of _ _ "unat d" _ "unat n"]) (auto simp: word_le_nat_alt)
  have "unat q \<le> unat y"
  proof (cases "unat i = 0")
    case True
    then have "unat q * (unat x * unat d) \<le> 0" using div_u128_le [OF q] unfolding num den by simp
    then show ?thesis using div_u128_some [OF q] True unfolding den by auto
  next
    case False
    have "unat q * unat i \<le> unat q * (unat x + unat i)" by (intro mult_le_mono2) simp
    then have "unat q * unat i \<le> unat y * unat i" using b by (rule order_trans)
    then show ?thesis using False by simp
  qed
  moreover from this have "unat q < 2 ^ 64" using u64_bound [of y] by linarith
  ultimately show ?thesis using b unat_narrow_small by blast
qed

lemma output_amount_bound:
  assumes out: "classic_cfmm_output_amount ax ay x y base i (n, d) (n, d) = Some out"
    and rs: "(r_in, r_out, a_out) = (if base = ax then (x, y, ay) else (y, x, ax))"
    and "n \<le> d" "unat r_out * unat i * unat n < 2 ^ 128" "unat r_in * unat d + unat i * unat n < 2 ^ 128"
    and cap: "a_out = Native \<Longrightarrow> untouchable_lovelace_amount \<le> r_out"
  shows "unat out * (unat r_in + unat i) \<le> unat r_out * unat i \<and> unat out \<le> unat r_out"
proof -
  obtain q where q: "div_u128 (wide r_out * wide i * wide n) (wide r_in * wide d + wide i * wide n) = Some q"
    and o_def: "out = (if a_out = Native
       then if r_out - narrow q < untouchable_lovelace_amount then r_out - untouchable_lovelace_amount else narrow q
       else narrow q)"
    using out rs by (auto simp: classic_cfmm_output_amount_def bind_eq_Some_conv Let_def split: if_splits)
  note b = quote_bound [OF q assms(3-5)]
  have "unat out \<le> unat q"
  proof (cases "a_out = Native \<and> r_out - narrow q < untouchable_lovelace_amount")
    case True
    have "unat (r_out - narrow q) = unat r_out - unat q" using b by (simp add: unat_sub word_le_nat_alt)
    then have "unat r_out - unat q < unat untouchable_lovelace_amount" using True by (simp add: word_less_nat_alt)
    moreover have "unat (r_out - untouchable_lovelace_amount) = unat r_out - unat untouchable_lovelace_amount"
      using cap True by (simp add: unat_sub)
    ultimately show ?thesis using True b unfolding o_def by simp
  qed (use b o_def in auto)
  moreover from this have "unat out * (unat r_in + unat i) \<le> unat q * (unat r_in + unat i)" by (rule mult_le_mono1)
  ultimately show ?thesis using b by linarith
qed

lemma product_kept:
  fixes x y i out :: nat
  assumes "out * (x + i) \<le> y * i" "out \<le> y"
  shows "x * y \<le> (x + i) * (y - out)"
  using assms by (simp add: diff_mult_distrib2 algebra_simps)

lemma cp_orientation:
  assumes "cp_asset_x p \<noteq> cp_asset_y p"
  shows "(cp_base p = cp_asset_x p \<and> cp_quote p = cp_asset_y p) \<or> (cp_base p = cp_asset_y p \<and> cp_quote p = cp_asset_x p)"
  by (auto simp: cp_base_def cp_quote_def order_canonical_def)

definition swap_fits :: "u64 \<Rightarrow> classic_pool \<Rightarrow> bool" where
  "swap_fits i p \<longleftrightarrow>
     (let n = unat (fst (cp_lp_fee p)); d = unat (snd (cp_lp_fee p)) in
      n \<le> d \<and> cp_asset_x p \<noteq> cp_asset_y p \<and>
      (cp_asset_x p = Native \<longrightarrow> untouchable_lovelace_amount \<le> cp_reserves_x p) \<and>
      (cp_asset_y p = Native \<longrightarrow> untouchable_lovelace_amount \<le> cp_reserves_y p) \<and>
      (\<forall>r \<in> {cp_reserves_x p, cp_reserves_y p}.
         unat r * unat i * n < 2 ^ 128 \<and> unat r * d + unat i * n < 2 ^ 128 \<and> unat r + unat i < 2 ^ 64))"

lemma side_output_bound:
  assumes "cp_output_amount base i p = Some out" "swap_fits i p"
    and rs: "(r_in, r_out) = (if base = cp_asset_x p then (cp_reserves_x p, cp_reserves_y p) else (cp_reserves_y p, cp_reserves_x p))"
  shows "unat r_in * unat r_out \<le> unat (r_in + i) * unat (r_out - out) \<and> out \<le> r_out"
proof -
  obtain n d where fee: "cp_lp_fee p = (n, d)" by (metis surj_pair)
  have fits: "n \<le> d" "unat r_out * unat i * unat n < 2 ^ 128" "unat r_in * unat d + unat i * unat n < 2 ^ 128"
    "unat r_in + unat i < 2 ^ 64"
    using assms(2) rs fee by (auto simp: swap_fits_def Let_def word_le_nat_alt split: if_splits)
  have b: "unat out * (unat r_in + unat i) \<le> unat r_out * unat i \<and> unat out \<le> unat r_out"
    by (rule output_amount_bound [where a_out = "if base = cp_asset_x p then cp_asset_y p else cp_asset_x p"])
      (use assms fits fee rs in \<open>auto simp: cp_output_amount_def swap_fits_def Let_def split: if_splits\<close>)
  have "unat (r_in + i) = unat r_in + unat i" using fits(4) by (simp add: unat_word_ariths)
  moreover have "unat (r_out - out) = unat r_out - unat out" using b by (simp add: unat_sub word_le_nat_alt)
  ultimately show ?thesis using product_kept [of "unat out" "unat r_in" "unat i" "unat r_out"] b
    by (simp add: word_le_nat_alt)
qed

text \<open>
  A swap never takes value out of a classic pool: on either side, and with the untouchable
  amount of the native asset kept back or not, the product of the reserves does not fall, and the
  pool pays at most what it holds. This needs a fee below one, distinct assets, numbers that fit
  the code's 128 bits, and a native reserve of at least the untouchable amount.
\<close>

lemma swap_keeps_product:
  assumes "cp_swap input p = Some p'" "swap_fits (os_unwrap input) p"
  shows "unat (cp_reserves_x p) * unat (cp_reserves_y p) \<le> unat (cp_reserves_x p') * unat (cp_reserves_y p') \<and>
    (\<exists>out. cp_side_output input p = Some out \<and>
      (rs_base (cp_reserves p') = rs_base (cp_reserves p) - out \<and> out \<le> rs_base (cp_reserves p) \<or>
       rs_quote (cp_reserves p') = rs_quote (cp_reserves p) - out \<and> out \<le> rs_quote (cp_reserves p)))"
proof -
  have neq: "cp_asset_x p \<noteq> cp_asset_y p" using assms(2) by (auto simp: swap_fits_def Let_def)
  obtain out where out: "cp_side_output input p = Some out" using assms(1) by (auto simp: cp_swap_def)
  note o = cp_orientation [OF neq]
  show ?thesis
  proof (cases input)
    case (OnBid i)
    have "unat r_in * unat r_out \<le> unat (r_in + i) * unat (r_out - out) \<and> out \<le> r_out"
      if "(r_in, r_out) = (if cp_quote p = cp_asset_x p then (cp_reserves_x p, cp_reserves_y p)
          else (cp_reserves_y p, cp_reserves_x p))" for r_in r_out
      using out OnBid assms(2) that by (intro side_output_bound [of "cp_quote p"]) (auto simp: cp_side_output_def)
    from this [OF prod.collapse] show ?thesis
      using o neq out OnBid assms(1)
      by (auto simp: cp_swap_def cp_reserves_def cp_base_def mult.commute split: if_splits)
  next
    case (OnAsk i)
    have "unat r_in * unat r_out \<le> unat (r_in + i) * unat (r_out - out) \<and> out \<le> r_out"
      if "(r_in, r_out) = (if cp_base p = cp_asset_x p then (cp_reserves_x p, cp_reserves_y p)
          else (cp_reserves_y p, cp_reserves_x p))" for r_in r_out
      using out OnAsk assms(2) that by (intro side_output_bound [of "cp_base p"]) (auto simp: cp_side_output_def)
    from this [OF prod.collapse] show ?thesis
      using o neq out OnAsk assms(1)
      by (auto simp: cp_swap_def cp_reserves_def cp_base_def mult.commute split: if_splits)
  qed
qed

lemma native_first [simp]: "order_canonical Native (TokenClass t) = (Native, TokenClass t)"
  by (cases t) (simp add: order_canonical_def less_asset_class_def asset_class_key_def)

text \<open>
  A pool whose reserve of the native asset is below the untouchable amount overpays instead of
  refusing: the amount it holds back is subtracted without a check, so the quoted output of a bid
  wraps around and exceeds the reserve, whatever the bid, and the swapped pool claims exactly the
  untouchable amount.
\<close>

theorem drained_pool_overpays:
  assumes "cp_asset_x p = Native" "cp_asset_y p = TokenClass t" "cp_reserves_x p < untouchable_lovelace_amount"
    and "cp_lp_fee p = (n, d)" "n \<le> d" "cp_reserves_y p \<noteq> 0" "d \<noteq> 0"
    and "unat (cp_reserves_x p) * unat i * unat n < 2 ^ 128" "unat (cp_reserves_y p) * unat d + unat i * unat n < 2 ^ 128"
  shows "\<exists>out p'. cp_side_output (OnBid i) p = Some out \<and> cp_reserves_x p < out \<and>
    cp_swap (OnBid i) p = Some p' \<and> cp_reserves_x p' = untouchable_lovelace_amount"
proof -
  let ?x = "cp_reserves_x p" and ?y = "cp_reserves_y p"
  have base: "cp_base p = Native" "cp_quote p = TokenClass t"
    using assms(1,2) by (simp_all add: cp_base_def cp_quote_def)
  have "unat (wide ?y * wide d) + unat (wide i * wide n) < 2 ^ LENGTH(128)"
    using assms(9) by (simp add: unat_wide_mult)
  then have den: "unat (wide ?y * wide d + wide i * wide n) = unat ?y * unat d + unat i * unat n"
    by (simp only: unat_add_lem [THEN iffD1] unat_wide_mult)
  have "0 < unat ?y * unat d" using assms(6,7) by (simp add: unat_gt_0)
  then have "wide ?y * wide d + wide i * wide n \<noteq> 0" using den by (metis add_is_0 less_numeral_extra(3) unat_0)
  then obtain q where q: "div_u128 (wide ?x * wide i * wide n) (wide ?y * wide d + wide i * wide n) = Some q"
    by (simp add: div_u128_def)
  have b: "unat q \<le> unat ?x" "unat (narrow q) = unat q" using quote_bound [OF q assms(5,8,9)] by auto
  then have "unat (?x - narrow q) = unat ?x - unat q" by (simp add: unat_sub word_le_nat_alt)
  then have less: "?x - narrow q < untouchable_lovelace_amount"
    using assms(3) by (simp add: word_less_nat_alt)
  define out where "out = ?x - untouchable_lovelace_amount"
  have out: "cp_side_output (OnBid i) p = Some out"
    using q less assms(1,2,4) base
    by (simp add: cp_side_output_def cp_output_amount_def classic_cfmm_output_amount_def out_def Let_def)
  have "unat out = unat ?x + 2 ^ 64 - unat untouchable_lovelace_amount"
    using assms(3) unfolding out_def
    by (simp add: unat_sub_if' word_less_nat_alt untouchable_lovelace_amount_def)
  then have "?x < out" using u64_bound [of untouchable_lovelace_amount] by (simp add: word_less_nat_alt)
  moreover have "cp_swap (OnBid i) p =
      Some (p\<lparr>cp_reserves_y := ?y + i, cp_reserves_x := untouchable_lovelace_amount\<rparr>)"
    using out base assms(1) by (simp add: cp_swap_def out_def)
  ultimately show ?thesis using out by auto
qed

theorem drained_pool_overpays_witness:
  "\<exists>out. cp_side_output (OnBid 10) (sample_pool\<lparr>cp_reserves_x := 2000000\<rparr>) = Some out \<and> 2000000 < out"
  using drained_pool_overpays [of "sample_pool\<lparr>cp_reserves_x := 2000000\<rparr>" "Token 5 an_zero" 99700 100000 10]
  by (simp add: sample_pool_def untouchable_lovelace_amount_def) blast

end
