(* ===== verification/Lb_Examples.thy ===== *)
theory Lb_Examples
  imports Lb_Book_Spec Cfmm_Spec
begin

text \<open>
  Concrete runs of the liquidity book on a limit order and a classic pool: the facts that the
  witnesses of the book's properties rest on, each computed from the definitions.
\<close>

definition poor_order :: limit_order where
  "poor_order = sample_order Native sample_token 20000 (36 / 100) 10 1"

definition poor_book_of :: "(nat \<Rightarrow> token option) \<Rightarrow> 'm \<Rightarrow> (limit_order, 'm, token) idle_state" where
  "poor_book_of q p = \<lparr> id_takers = \<lparr> ch_time_now = 0, ch_active = \<lparr> mt_asks = [poor_order], mt_bids = [] \<rparr>,
       ch_inactive = (\<lambda>_. None) \<rparr>,
     id_makers = \<lparr> mm_values = [(cp_id sample_pool, p)], mm_quality_index = q \<rparr> \<rparr>"

definition demanding_config :: "u64 \<Rightarrow> ex_units execution_config" where
  "demanding_config b = \<lparr> soft_cap = ExUnits 1000 1000, hard_cap = ExUnits 1000 1000, o2o_allowed = True,
     base_step_budget = b \<rparr>"

lemma poor_order_fields [simp]:
  "tk_side limit_taker poor_order = Ask" "tk_input limit_taker poor_order = 20000"
  "tk_output limit_taker poor_order = 0" "tk_price limit_taker poor_order = 36 / 100"
  "tk_key limit_taker poor_order = lo_key poor_order" "tk_id limit_taker poor_order = lo_stable_id poor_order"
  "tk_marginal_cost_hint limit_taker poor_order = ExUnits 1 1" "tk_min_marginal_output limit_taker poor_order = 1"
  "tk_consumable_budget limit_taker poor_order = 10" "tk_operator_fee limit_taker i poor_order = 0"
  by (simp_all add: poor_order_def sample_order_def limit_taker_def lo_price_def lo_side_def price_from_def
      lo_operator_fee_def saturating_mul_def checked_div_def)

lemma poor_book_ok: "book_ok limit_taker (poor_book_of q p)"
  by (simp add: book_ok_def mt_ok_def poor_book_of_def)

definition poor_take :: "limit_order take_in_progress" where
  "poor_take = Trans poor_order (Term \<lparr> remaining_input = 0, accumulated_output = 7363, remaining_budget = 10,
     remaining_fee = 0 \<rparr>)"

definition poor_taken :: "limit_order take_in_progress" where
  "poor_taken = Trans poor_order (Term \<lparr> remaining_input = 0, accumulated_output = 7363, remaining_budget = 0,
     remaining_fee = 0 \<rparr>)"

definition poor_make_of :: "'m \<Rightarrow> 'm \<Rightarrow> 'm make_in_progress" where
  "poor_make_of p p' = Trans p (Succ p')"

definition poor_batch_of ::
    "('m, token, ex_units) maker_ops \<Rightarrow> 'm \<Rightarrow> 'm \<Rightarrow> (limit_order, 'm, token, ex_units) matchmaking_attempt" where
  "poor_batch_of M p p' = add_take limit_taker poor_take (add_make M (poor_make_of p p') attempt_empty)"

definition poor_picked_of :: "(nat \<Rightarrow> token option) \<Rightarrow> 'm \<Rightarrow> (limit_order, 'm, token) partial_preview_state" where
  "poor_picked_of q p = \<lparr> pp_takers_preview = \<lparr> ch_time_now = 0, ch_active = \<lparr> mt_asks = [], mt_bids = [] \<rparr>,
       ch_inactive = (\<lambda>_. None) \<rparr>,
     pp_consumed_active_takers = [poor_order], pp_stashed_active_takers = [],
     pp_makers_intact = id_makers (poor_book_of q p), pp_makers_preview = id_makers (poor_book_of q p) \<rparr>"

lemma poor_pick:
  "pick_active_taker (max_by_distance_to_spot limit_taker (37 / 100) default_price_range) (Idle (poor_book_of q p)) =
    (Some poor_order, PartialPreview (poor_picked_of q p))"
  by (simp add: poor_book_of_def poor_picked_of_def max_by_distance_to_spot_def test_ask_def test_bid_def
      default_price_range_def mt_remove_def bts_remove_def move_into_partial_preview_def Let_def)

text \<open>
  A maker with a pool that one swap takes from \<open>sample_pool\<close> to \<open>swapped_pool\<close>, as far as the book sees it.
\<close>

locale sample_maker =
  fixes M :: "('m, token, ex_units) maker_ops" and p p' :: 'm
  assumes fields [simp]: "mk_id M p = cp_id sample_pool" "mk_id M p' = cp_id sample_pool"
      "mk_static_price M p = 37 / 100" "mk_static_price M p' = 3692637 / 10020000"
      "mk_is_active M p" "mk_available_liquidity_on_side M w p = None"
      "mk_real_price M (OnAsk 20000) p = Some (7363 / 20000)" "mk_swap M (OnAsk 20000) p = p'"
      "mk_liquidity M p = \<lparr> rs_base = 10000000, rs_quote = 3700000 \<rparr>"
      "mk_liquidity M p' = \<lparr> rs_base = 10020000, rs_quote = 3692637 \<rparr>"
      "mk_marginal_cost_hint M p = ExUnits 1 1"
begin

lemma poor_execution: "execute_with_maker limit_taker M poor_order p (OnAsk 20000) = (poor_take, poor_make_of p p')"
proof -
  have "tk_with_applied_trade limit_taker 20000 7363 poor_order = tr_result poor_take"
    by (simp add: poor_order_def sample_order_def limit_taker_def lo_with_applied_trade_def lo_terminal_def poor_take_def)
  moreover have "mip_loss M (poor_make_of p p') = Some (OnAsk 7363)"
    by (simp add: mip_loss_def poor_make_of_def reserves_loss_def checked_sub_def)
  ultimately show ?thesis by (simp add: execute_with_maker_def poor_make_of_def Let_def) (simp add: poor_take_def)
qed

lemma poor_batch_fields:
  "ma_takes (poor_batch_of M p p') = [(lo_stable_id poor_order, poor_take)]"
  "ma_makes (poor_batch_of M p p') = [(cp_id sample_pool, poor_make_of p p')]"
  "ma_execution_units_consumed (poor_batch_of M p p') = ExUnits 2 2" "num_takes (poor_batch_of M p p') = 1"
  by (simp_all add: poor_batch_of_def add_take_def add_make_def attempt_empty_def poor_take_def poor_make_of_def
      num_takes_def zero_ex_units_def units_empty_def plus_ex_units_def units_combine_def Let_def)

lemma poor_preselect:
  "preselect_market_maker M (9 / 25) 20000 Ask opt (PartialPreview (poor_picked_of q p)) =
    Some (cp_id sample_pool, \<lparr> fp_price = 7363 / 20000, fp_input = 20000 \<rparr>)"
  by (simp add: preselect_market_maker_def poor_picked_of_def poor_book_of_def List.map_filter_def dummy_swap_def
      try_optimized_swap_def)

lemma poor_match:
  "\<exists>v. match_target limit_taker M True opt (37 / 100) poor_order (PartialPreview (poor_picked_of q p), attempt_empty) =
      Some (True, Preview v, poor_batch_of M p p') \<and>
    pv_active_takers_preview v = \<lparr> mt_asks = [], mt_bids = [] \<rparr> \<and> pv_stashed_active_takers v = [] \<and>
    mm_values (pv_makers_preview v) = [(cp_id sample_pool, p')]"
proof -
  have none: "best_taker_price limit_taker Bid (PartialPreview (poor_picked_of q p)) = None"
    by (simp add: best_taker_price_def poor_picked_of_def)
  have "\<exists>v. match_with_maker limit_taker M poor_order (cp_id sample_pool) 20000
      (PartialPreview (poor_picked_of q p), attempt_empty) = (True, Preview v, poor_batch_of M p p') \<and>
    pv_active_takers_preview v = \<lparr> mt_asks = [], mt_bids = [] \<rparr> \<and> pv_stashed_active_takers v = [] \<and>
    mm_values (pv_makers_preview v) = [(cp_id sample_pool, p')]"
    by (simp add: match_with_maker_def poor_picked_of_def poor_book_of_def Let_def poor_execution poor_batch_of_def)
      (simp add: poor_take_def poor_make_of_def on_take_def on_make_def pre_add_maker_def mm_update_pool_def Let_def)
  then show ?thesis by (simp add: match_target_def Let_def none poor_preselect)
qed

lemma poor_fill:
  "\<exists>v ev1. fill_batch 2 limit_taker M (demanding_config b) opt (Idle (poor_book_of q p), attempt_empty) ev =
    Ret ((Preview v, poor_batch_of M p p'), ev1)"
proof -
  obtain v where m: "match_target limit_taker M True opt (37 / 100) poor_order
      (PartialPreview (poor_picked_of q p), attempt_empty) = Some (True, Preview v, poor_batch_of M p p')"
    and v: "pv_active_takers_preview v = \<lparr> mt_asks = [], mt_bids = [] \<rparr>" "pv_stashed_active_takers v = []"
    "mm_values (pv_makers_preview v) = [(cp_id sample_pool, p')]"
    using poor_match by blast
  have spots: "spot_price M (Idle (poor_book_of q p)) = Some (37 / 100)"
    "spot_price M (Preview v) = Some (3692637 / 10020000)"
    by (simp_all add: spot_price_def best_market_maker_def poor_book_of_def v)
  have "pick_active_taker (max_by_distance_to_spot limit_taker p r) (Preview v) = (None, Preview v)" for p r
    by (simp add: max_by_distance_to_spot_def v Let_def)
  moreover have "max_by_distance_to_spot limit_taker p r \<lparr> mt_asks = [], mt_bids = [] \<rparr> =
      (None, \<lparr> mt_asks = [], mt_bids = [] \<rparr>)" for p r
    by (simp add: max_by_distance_to_spot_def Let_def)
  moreover have "(0 :: ex_units) < ExUnits 1000 1000" "ExUnits 2 2 < ExUnits 1000 1000"
    by (simp_all add: less_ex_units_def zero_ex_units_def units_empty_def)
  ultimately show ?thesis
    using m poor_pick [of q p] spots poor_batch_fields
    by (simp add: numeral_2_eq_2 demanding_config_def attempt_empty_def num_takes_def Let_def)
qed

lemma poor_recipe:
  "recipe_try_from limit_taker M b (poor_batch_of M p p') =
    (if 1 / 2 \<le> (10 :: rat) / of_nat (unat (max b 1)) then Some (Inr [Inl poor_taken, Inr (poor_make_of p p')])
     else Some (Inl (Some (Inr DowngradeNeeded))))"
proof -
  have make: "make_finalized M (poor_make_of p p') = Some (Some ((poor_make_of p p'), \<lparr> ex_base = 0, ex_quote = 0 \<rparr>))"
    by (simp add: make_finalized_def poor_make_of_def checked_sub_def Let_def)
  have zero: "\<not> mip_is_zero M (poor_make_of p p')"
    by (simp add: mip_is_zero_def mip_trade_side_def poor_make_of_def reserves_trade_side_def)
  have budget: "corrected_budget 10 (- i64_of_u64 10) = (-10, 0)"
    by (simp add: corrected_budget_def i64_of_u64_def i64_add_def u64_of_i64_def)
  have tr: "take_finalized limit_taker 0 poor_take = Some poor_taken" "tr_target poor_taken = poor_order"
    "tip_added_output limit_taker poor_taken = Some 7363"
    by (simp_all add: take_finalized_def tip_removed_input_def tip_added_output_def poor_take_def poor_taken_def
        checked_sub_def Let_def tt_with_budget_corrected_def tt_with_fee_charged_def tt_with_output_added_def budget)
  have target: "tr_target poor_take = poor_order" by (simp add: poor_take_def)
  show ?thesis
    by (simp add: target recipe_try_from_def is_complete_def attempt_finalized_def poor_batch_fields make zero tr
        unsatisfied_fragments_def sort_takes_def check_recipe_complexity_def base_take_to_make_ratio_def Let_def)
qed

lemma poor_attempt:
  assumes "1 / 2 \<le> (10 :: rat) / of_nat (unat (max b 1))"
  shows "\<exists>ev st'. book_attempt 1 2 limit_taker M (demanding_config b) (Idle (poor_book_of q p)) =
    Ret (Some [Inl poor_taken, Inr (poor_make_of p p')], ev, st')"
proof -
  obtain v ev1 where fill: "fill_batch 2 limit_taker M (demanding_config b) True (Idle (poor_book_of q p), attempt_empty)
      [LiquidityBookSizePreAttempt (tlb_size (Idle (poor_book_of q p)))] = Ret ((Preview v, poor_batch_of M p p'), ev1)"
    using poor_fill by blast
  have r: "recipe_try_from limit_taker M (base_step_budget (demanding_config b)) (poor_batch_of M p p') =
      Some (Inr [Inl poor_taken, Inr (poor_make_of p p')])" using poor_recipe [of b] assms by (simp add: demanding_config_def)
  show ?thesis unfolding book_attempt_def One_nat_def attempt.simps fill run_bind_simps by (simp add: r Let_def)
qed

end

definition plain_maker :: "(classic_pool, token, ex_units) maker_ops" where
  "plain_maker = classic_maker (\<lambda>_ _. None)"

definition swapped_pool :: classic_pool where
  "swapped_pool = sample_pool\<lparr>cp_reserves_x := 10020000, cp_reserves_y := 3692637\<rparr>"

lemma pool_base [simp]: "cp_base sample_pool = Native" "cp_base swapped_pool = Native"
  by (simp_all add: cp_base_def sample_pool_def swapped_pool_def)

lemma plain_maker_fields [simp]:
  "mk_id plain_maker = cp_id" "mk_quality plain_maker = cp_quality"
  "mk_static_price plain_maker sample_pool = 37 / 100"
  "mk_static_price plain_maker swapped_pool = 3692637 / 10020000"
  "mk_is_active plain_maker sample_pool" "mk_is_active plain_maker swapped_pool"
  "mk_available_liquidity_on_side plain_maker p pool = None"
  "mk_real_price plain_maker (OnAsk 20000) sample_pool = Some (7363 / 20000)"
  "mk_swap plain_maker (OnAsk 20000) sample_pool = swapped_pool"
  "mk_liquidity plain_maker sample_pool = \<lparr> rs_base = 10000000, rs_quote = 3700000 \<rparr>"
  "mk_liquidity plain_maker swapped_pool = \<lparr> rs_base = 10020000, rs_quote = 3692637 \<rparr>"
  "mk_marginal_cost_hint plain_maker sample_pool = ExUnits 1 1"
proof -
  have out: "cp_side_output (OnAsk 20000) sample_pool = Some 7363"
    by (simp add: cp_side_output_def cp_output_amount_def classic_cfmm_output_amount_def div_u128_def)
      (simp add: sample_pool_def wide_def narrow_def)
  show "mk_real_price plain_maker (OnAsk 20000) sample_pool = Some (7363 / 20000)"
    by (simp add: plain_maker_def classic_maker_def cp_real_price_def out price_new_def)
  show "mk_swap plain_maker (OnAsk 20000) sample_pool = swapped_pool"
    by (simp add: plain_maker_def classic_maker_def cp_swap_def out swapped_pool_def) (simp add: sample_pool_def)
qed (simp_all add: plain_maker_def classic_maker_def cp_static_price_def ratio_of_def cp_is_active_def
    cp_reserves_def cp_available_liquidity_on_side_def, simp_all add: sample_pool_def swapped_pool_def)

interpretation plain: sample_maker plain_maker sample_pool swapped_pool
  by unfold_locales (simp_all, simp add: swapped_pool_def)

abbreviation poor_book :: "(limit_order, classic_pool, token) idle_state" where
  "poor_book \<equiv> poor_book_of (\<lambda>_. None) sample_pool"

abbreviation poor_batch :: "(limit_order, classic_pool, token, ex_units) matchmaking_attempt" where
  "poor_batch \<equiv> poor_batch_of plain_maker sample_pool swapped_pool"

abbreviation poor_picked :: "(limit_order, classic_pool, token) partial_preview_state" where
  "poor_picked \<equiv> poor_picked_of (\<lambda>_. None) sample_pool"

theorem attempt_keeps_book_witness:
  "\<exists>recipe ev st'. book_attempt 1 2 limit_taker plain_maker (demanding_config 1) (Idle poor_book) =
     Ret (Some recipe, ev, st') \<and> on_recipe_failed limit_taker st' = Idle poor_book"
proof -
  obtain recipe ev st' where
    "book_attempt 1 2 limit_taker plain_maker (demanding_config 1) (Idle poor_book) = Ret (Some recipe, ev, st')"
    using plain.poor_attempt [of 1 "\<lambda>_. None"] by auto
  from attempt_keeps_book [OF poor_book_ok this] this show ?thesis by blast
qed

theorem attempt_never_returns_witness:
  "\<forall>fuel inner. book_attempt fuel inner limit_taker plain_maker (demanding_config 100) (Idle poor_book) = Out_of_fuel"
proof (intro allI)
  fix fuel inner
  have down: "recipe_try_from limit_taker plain_maker (base_step_budget (demanding_config 100)) poor_batch =
      Some (Inl (Some (Inr DowngradeNeeded)))"
  proof -
    have "max (100 :: u64) 1 = 100" by (simp add: max_def word_le_nat_alt)
    then show ?thesis using plain.poor_recipe [of 100] by (auto simp: demanding_config_def)
  qed
  obtain v1 v2 ev1 ev2 where
    "fill_batch 2 limit_taker plain_maker (demanding_config 100) True (Idle poor_book, attempt_empty)
      [LiquidityBookSizePreAttempt (tlb_size (Idle poor_book))] = Ret ((Preview v1, poor_batch), ev1)"
    "fill_batch 2 limit_taker plain_maker (demanding_config 100) False (Idle poor_book, attempt_empty)
      [LiquidityBookSizePreAttempt (tlb_size (Idle poor_book))] = Ret ((Preview v2, poor_batch), ev2)"
    using plain.poor_fill by blast
  from attempt_never_returns [OF poor_book_ok this(1) down this(2) down]
  show "book_attempt fuel inner limit_taker plain_maker (demanding_config 100) (Idle poor_book) = Out_of_fuel" .
qed

text \<open>With a soft cap of nothing no batch is ever filled, so no downgrade is ever asked for.\<close>

definition idle_config :: "ex_units execution_config" where
  "idle_config = \<lparr> soft_cap = ExUnits 0 0, hard_cap = ExUnits 0 0, o2o_allowed = True, base_step_budget = 1 \<rparr>"

theorem attempt_returns_witness:
  "book_attempt 3 20002 limit_taker plain_maker idle_config (Idle poor_book) \<noteq> Out_of_fuel"
proof -
  have empty: "ma_execution_units_consumed (attempt_empty :: (limit_order, classic_pool, token, ex_units) matchmaking_attempt) = ExUnits 0 0"
    "ma_takes (attempt_empty :: (limit_order, classic_pool, token, ex_units) matchmaking_attempt) = []"
    by (simp_all add: attempt_empty_def zero_ex_units_def units_empty_def)
  have "fill_batch n limit_taker plain_maker idle_config False (st, attempt_empty) ev = Ret ((st1, batch), ev1) \<Longrightarrow>
      batch = attempt_empty" for n st ev st1 batch ev1
    using empty by (cases n) (auto simp: idle_config_def)
  moreover have "recipe_try_from limit_taker plain_maker b attempt_empty = Some (Inl None)" for b
    using empty by (simp add: recipe_try_from_def is_complete_def)
  ultimately have calm: "\<not> downgrades_unoptimised 20002 limit_taker plain_maker idle_config poor_book"
    unfolding downgrades_unoptimised_def by fastforce
  have "book_elems poor_book = {poor_order}" by (simp add: book_elems_def poor_book_of_def mt_elems_def)
  then show ?thesis using attempt_returns [OF poor_book_ok calm]
    by (simp add: poor_order_def sample_order_def numeral_3_eq_3)
qed

subsection \<open>The state automaton\<close>

text \<open>
  Rolling a preview back is an inverse of everything done to it: from a book at rest, after any
  sequence of choices of takers, additions, choices of makers, and rollbacks that stash live takers,
  a rollback that unstashes gives the very same book, with every taker on its side and in its place.
\<close>

theorem rollback_restores_book:
  assumes "book_ok T st0" "(preview_step T M)\<^sup>*\<^sup>* (Idle st0) st"
  shows "tlb_rollback T Unstash st = Idle st0"
  using rollback_unstash [OF assms(1) previews_steps [OF assms]] .

theorem rollback_restores_book_witness:
  "\<exists>st. (preview_step limit_taker plain_maker)\<^sup>*\<^sup>* (Idle poor_book) st \<and> st \<noteq> Idle poor_book \<and>
    tlb_rollback limit_taker Unstash st = Idle poor_book"
proof -
  have "preview_step limit_taker plain_maker (Idle poor_book) (PartialPreview poor_picked)"
    by (rule picked_taker [OF picks_max_by_distance poor_pick])
  then have step: "(preview_step limit_taker plain_maker)\<^sup>*\<^sup>* (Idle poor_book) (PartialPreview poor_picked)" by blast
  from rollback_restores_book [OF poor_book_ok step] step show ?thesis by blast
qed

text \<open>
  Committing a partial preview loses the stash: a taker stashed by a retry is not in the book
  after a later recipe of the same attempt is committed, if that recipe left no taker or maker
  behind; committed from a full preview the same taker is kept.
\<close>

theorem commit_forgets_stash:
  assumes "book_ok T st0" "previews T st0 (PartialPreview st)" "t \<in> set (pp_stashed_active_takers st)"
  shows "(\<exists>i. tlb_commit T (PartialPreview st) = Idle i \<and> t \<notin> book_elems i) \<and>
    (\<exists>i. tlb_commit T (Preview (the (move_into_preview T (PartialPreview st)))) = Idle i \<and> t \<in> book_elems i)"
proof
  show "\<exists>i. tlb_commit T (PartialPreview st) = Idle i \<and> t \<notin> book_elems i"
    using assms by (auto simp: pp_commit_def book_elems_def)
next
  let ?m = "ch_active (pp_takers_preview st)"
  have inj: "inj_on (skey T) (book_elems st0)" using assms(1) mt_ok_inj by (auto simp: book_ok_def book_elems_def)
  have "mt_elems (fold (mt_insert T) (pp_stashed_active_takers st) ?m) = set (pp_stashed_active_takers st) \<union> mt_elems ?m"
    using fold_insert_elems [OF inj, of "pp_stashed_active_takers st" ?m] assms(2) by (auto simp: part_of_def)
  then show "\<exists>i. tlb_commit T (Preview (the (move_into_preview T (PartialPreview st)))) = Idle i \<and> t \<in> book_elems i"
    using assms(3) by (auto simp: pv_commit_def reinsert_def book_elems_def)
qed

theorem commit_forgets_stash_witness:
  "\<exists>st. (preview_step limit_taker plain_maker)\<^sup>*\<^sup>* (Idle poor_book) st \<and>
    (\<exists>i. tlb_commit limit_taker st = Idle i \<and> poor_order \<notin> book_elems i)"
proof -
  define st where "st = tlb_rollback limit_taker (Stash [poor_order]) (PartialPreview poor_picked)"
  have one: "preview_step limit_taker plain_maker (Idle poor_book) (PartialPreview poor_picked)"
    by (rule picked_taker [OF picks_max_by_distance poor_pick])
  have two: "preview_step limit_taker plain_maker (PartialPreview poor_picked) st"
    unfolding st_def by (rule stashed) (simp add: poor_picked_of_def)
  have steps: "(preview_step limit_taker plain_maker)\<^sup>*\<^sup>* (Idle poor_book) st" using one two by (meson rtranclp.simps)
  obtain p where p: "st = PartialPreview p" "pp_stashed_active_takers p = [poor_order]"
    by (simp add: st_def pp_rollback_def poor_picked_of_def Let_def)
  have "previews limit_taker poor_book (PartialPreview p)" using previews_steps [OF poor_book_ok steps] p by simp
  from commit_forgets_stash [OF poor_book_ok this, of poor_order] steps p show ?thesis by auto
qed

end
