(* ===== verification/Limit_Order_Spec.thy ===== *)
theory Limit_Order_Spec
  imports Limit_Order
begin

text \<open>
  A recognised limit order can pay for itself, and the takers of one side are ordered as the code
  compares them.
\<close>

lemma checked_sub_unat: "checked_sub a b = Some c \<Longrightarrow> unat a = unat b + unat c"
  by (auto simp: checked_sub_def unat_sub word_le_nat_alt split: if_splits)

lemma execution_budget_exact:
  assumes "execution_budget_of conf total_ada = Some budget"
  shows "unat total_ada = unat (fst (reserved_and_tradable conf)) + unat (ld_fee conf) +
    unat (snd (reserved_and_tradable conf)) + unat budget"
  using assms by (auto simp: execution_budget_of_def bind_eq_Some_conv split: prod.splits dest!: checked_sub_unat)

lemma harden_price_covers:
  assumes "0 < p" "input \<noteq> 0"
  shows "of_nat (unat input) * p \<le> of_nat (unat input) * harden_price p input \<and>
    of_nat (unat input) * harden_price p input < of_nat (unat input) * p + 1"
proof -
  have "0 < unat input" using assms(2) by (simp add: unat_gt_0)
  then have pos: "(0 :: rat) < of_nat (unat input)" by (simp only: of_nat_0_less_iff)
  then have "0 < of_nat (unat input) * p" using assms(1) by (rule mult_pos_pos)
  then have "0 < \<lceil>of_nat (unat input) * p\<rceil>" by (simp only: zero_less_ceiling)
  then have "of_nat (unat input) * harden_price p input = of_int \<lceil>of_nat (unat input) * p\<rceil>"
    using pos by (simp add: harden_price_def Let_def)
  then show ?thesis using ceiling_correct [of "of_nat (unat input) * p"] by linarith
qed

lemma checked_div_steps:
  assumes "checked_div out least = Some possible" "checked_div budget cost = Some available" "possible \<le> available"
  shows "least \<noteq> 0 \<and> unat out div unat least * unat cost \<le> unat budget"
proof -
  have "unat possible = unat out div unat least" "unat available = unat budget div unat cost" "least \<noteq> 0"
    using assms by (auto simp: checked_div_def unat_div split: if_splits)
  moreover from this assms(3) have "unat out div unat least * unat cost \<le> unat budget div unat cost * unat cost"
    by (intro mult_le_mono1) (simp add: word_le_nat_alt)
  ultimately show ?thesis using order_trans div_times_less_eq_dividend by metis
qed

text \<open>
  C36. An output is recognised as a limit order only when it pays for itself: its lovelace is
  exactly the reserve, the fee, the lovelace to be traded and the execution budget together; it
  holds the input it offers; the budget covers every step that filling it in its smallest portions
  may take; this operator may execute it; its beacon is fresh or consumed with it; and its price is
  hardened to the next whole output, at most one unit above what was asked.
\<close>

theorem limit_order_pays_its_way:
  assumes "limit_order_try_from_ledger c repr = Some (Some lo)" "lc_read_datum c repr = Some conf"
    and "0 < ld_base_price conf" "ld_tradable_input conf \<noteq> 0"
  shows "unat (coin (output_value repr)) = unat (fst (reserved_and_tradable conf)) + unat (lo_fee lo) +
      unat (snd (reserved_and_tradable conf)) + unat (lo_execution_budget lo) \<and>
    (\<exists>held. amount_of (output_value repr) (lo_input_asset lo) = Some (Some held) \<and> lo_input_amount lo \<le> held) \<and>
    (\<exists>base_output. linear_output_relative (lo_input_amount lo) (ld_base_price conf) = Some base_output \<and>
      lo_min_marginal_output lo \<noteq> 0 \<and>
      unat base_output div unat (lo_min_marginal_output lo) * unat (lo_max_cost_per_ex_step lo) \<le>
        unat (lo_execution_budget lo)) \<and>
    (ld_permitted_executors conf = [] \<or> lc_operator_cred c \<in> set (ld_permitted_executors conf)) \<and>
    order_state c (lo_beacon lo) repr \<noteq> None \<and>
    of_nat (unat (lo_input_amount lo)) * ld_base_price conf \<le> of_nat (unat (lo_input_amount lo)) * lo_base_price lo \<and>
    of_nat (unat (lo_input_amount lo)) * lo_base_price lo < of_nat (unat (lo_input_amount lo)) * ld_base_price conf + 1"
proof -
  let ?v = "output_value repr"
  obtain held budget build received where
    held: "amount_of ?v (ld_input conf) = Some (Some held)"
    and budget: "execution_budget_of conf (coin ?v) = Some budget"
    and build: "limit_order_of c conf (order_state c (ld_beacon conf) repr) held budget = Some build"
    and lo: "lo = build received"
    using assms(1,2)
    by (auto simp: limit_order_try_from_ledger_def Let_def bind_eq_Some_conv split: if_splits option.splits)
  from build obtain base_output possible available where
    out: "linear_output_relative (ld_tradable_input conf) (ld_base_price conf) = Some base_output"
    and steps: "checked_div base_output (min (ld_min_marginal_output conf) base_output) = Some possible"
      "checked_div budget (ld_cost_per_ex_step conf) = Some available"
    by (auto simp: limit_order_of_def bind_eq_Some_conv Let_def)
  from build have valid: "ld_tradable_input conf \<le> held" "possible \<le> available"
    "ld_permitted_executors conf = [] \<or> lc_operator_cred c \<in> set (ld_permitted_executors conf)"
    "order_state c (ld_beacon conf) repr \<noteq> None"
    by (auto simp: limit_order_of_def bind_eq_Some_conv Let_def out steps split: if_splits)
  from build have fields: "lo_fee lo = ld_fee conf" "lo_execution_budget lo = budget"
    "lo_input_asset lo = ld_input conf" "lo_input_amount lo = ld_tradable_input conf"
    "lo_min_marginal_output lo = min (ld_min_marginal_output conf) base_output"
    "lo_max_cost_per_ex_step lo = ld_cost_per_ex_step conf" "lo_beacon lo = ld_beacon conf"
    "lo_base_price lo = harden_price (ld_base_price conf) (ld_tradable_input conf)"
    unfolding lo by (auto simp: limit_order_of_def bind_eq_Some_conv Let_def out steps split: if_splits)
  show ?thesis
    unfolding fields using execution_budget_exact [OF budget] held valid out
      checked_div_steps [OF steps valid(2)] harden_price_covers [OF assms(3,4)] by blast
qed

definition sample_datum :: limit_datum where
  "sample_datum = \<lparr> ld_beacon = 4, ld_input = Native, ld_tradable_input = 1000000, ld_cost_per_ex_step = 600000,
     ld_min_marginal_output = 200000, ld_output = TokenClass (Token 5 an_zero), ld_base_price = 2 / 5, ld_fee = 300000,
     ld_redeemer_address = undefined, ld_cancellation_pkh = 0, ld_permitted_executors = [] \<rparr>"

definition sample_context :: limit_context where
  "sample_context = \<lparr> lc_output_ref = OutputRef 1 0, lc_consumed_inputs = [], lc_consumed_identifiers = [Token 4 an_zero],
     lc_operator_cred = 0, lc_marginal_cost = ExUnits 1 1, lc_min_cost_per_ex_step = 100, lc_min_fee_lovelace = 100,
     lc_test_address = (\<lambda>_. True), lc_read_datum = (\<lambda>_. Some sample_datum), lc_datum_hash = (\<lambda>_. []),
     lc_blake2b224 = (\<lambda>_. 0) \<rparr>"

definition sample_output :: tx_output where
  "sample_output = ConwayFormatTxOut Byron (Value 4000000 []) None None"

lemma sample_fields [simp]:
  "lc_output_ref sample_context = OutputRef 1 0" "lc_consumed_identifiers sample_context = [Token 4 an_zero]"
  "lc_marginal_cost sample_context = ExUnits 1 1" "lc_min_cost_per_ex_step sample_context = 100"
  "lc_test_address sample_context a" "lc_read_datum sample_context r = Some sample_datum"
  "ld_beacon sample_datum = 4" "ld_input sample_datum = Native" "ld_tradable_input sample_datum = 1000000"
  "ld_cost_per_ex_step sample_datum = 600000" "ld_min_marginal_output sample_datum = 200000"
  "ld_output sample_datum = TokenClass (Token 5 an_zero)" "ld_base_price sample_datum = 2 / 5"
  "ld_fee sample_datum = 300000" "ld_permitted_executors sample_datum = []"
  "output_value sample_output = Value 4000000 []"
  by (simp_all add: sample_context_def sample_datum_def sample_output_def)

theorem limit_order_pays_its_way_witness:
  "\<exists>lo. limit_order_try_from_ledger sample_context sample_output = Some (Some lo) \<and>
    4000000 = 1500000 + unat (lo_fee lo) + 1000000 + unat (lo_execution_budget lo)"
proof -
  have "an_into_cml an_zero = Some [0]" by (simp add: an_into_cml_def an_zero_def)
  then have token: "amount_of (Value 4000000 []) (TokenClass (Token 5 an_zero)) = Some None"
    by (simp add: amount_of_def)
  have state: "order_state sample_context 4 sample_output = Some Subsequent"
    by (simp add: order_state_def Let_def)
  have budget: "execution_budget_of sample_datum 4000000 = Some 1200000"
    by (simp add: execution_budget_of_def reserved_and_tradable_def min_lovelace_def checked_sub_def)
  obtain build where build: "limit_order_of sample_context sample_datum (Some Subsequent) 4000000 1200000 = Some build"
    by (simp add: limit_order_of_def linear_output_relative_def checked_div_def Let_def word_le_nat_alt min_def)
  then obtain lo where lo: "limit_order_try_from_ledger sample_context sample_output = Some (Some lo)"
    by (simp add: limit_order_try_from_ledger_def Let_def token state budget)
  from limit_order_pays_its_way [OF lo sample_fields(6)] lo show ?thesis
    by (simp add: reserved_and_tradable_def min_lovelace_def)
qed

end
