(* ===== verification/Entity_Events.thy ===== *)
theory Entity_Events
  imports Lb_Core Collections
begin

text \<open>
  Entities of the off-chain engine and the events about them: packages/spectrum-offchain/src/domain.rs,
  domain/event.rs and domain/order.rs, and execution_engine/bundled.rs, execution_effect.rs and
  funding_effect.rs of packages/bloom-offchain. The wrappers \<open>Confirmed\<close>, \<open>Unconfirmed\<close> and \<open>Predicted\<close>
  only tag a value; the tag is the constructor of \<open>channel\<close> or the operation they are passed to.
\<close>

subsection \<open>Snapshots\<close>

text \<open>
  What the traits \<open>Stable\<close> and \<open>EntitySnapshot\<close> ask of an entity; \<open>sn_key\<close> is the conversion of its
  stable identifier to 60 bytes.
\<close>

record ('e, 'sid, 'v) snapshot_ops =
  sn_id :: "'e \<Rightarrow> 'sid"
  sn_qp :: "'e \<Rightarrow> bool"
  sn_ver :: "'e \<Rightarrow> 'v"
  sn_key :: "'sid \<Rightarrow> bytes"

datatype ('t, 'v) baked = Baked (bk_entity: 't) (bk_version: 'v)

definition bundled_map :: "('t \<Rightarrow> 't2) \<Rightarrow> ('t, 'b) bundled \<Rightarrow> ('t2, 'b) bundled" where
  "bundled_map f x = Bundled (f (bd_entity x)) (bd_bearer x)"

definition bundled_map_bearer :: "('b \<Rightarrow> 'b2) \<Rightarrow> ('t, 'b) bundled \<Rightarrow> ('t, 'b2) bundled" where
  "bundled_map_bearer f x = Bundled (bd_entity x) (f (bd_bearer x))"

text \<open>Either of two kinds of entities, baked: the snapshot of an \<open>Either<Baked<CO, V>, Baked<P, V>>\<close>.\<close>

fun either_id :: "('co \<Rightarrow> 'sid) \<Rightarrow> ('p \<Rightarrow> 'sid) \<Rightarrow> ('co, 'v) baked + ('p, 'v) baked \<Rightarrow> 'sid" where
  "either_id f g (Inl o1) = f (bk_entity o1)"
| "either_id f g (Inr p) = g (bk_entity p)"

fun either_qp :: "('co \<Rightarrow> bool) \<Rightarrow> ('p \<Rightarrow> bool) \<Rightarrow> ('co, 'v) baked + ('p, 'v) baked \<Rightarrow> bool" where
  "either_qp f g (Inl o1) = f (bk_entity o1)"
| "either_qp f g (Inr p) = g (bk_entity p)"

fun either_version :: "('co, 'v) baked + ('p, 'v) baked \<Rightarrow> 'v" where
  "either_version (Inl o1) = bk_version o1"
| "either_version (Inr p) = bk_version p"

type_synonym ('co, 'p, 'v, 'b) evolving = "(('co, 'v) baked + ('p, 'v) baked, 'b) bundled"

subsection \<open>Channels and transitions\<close>

datatype ('a, 'cx) channel = LedgerCh 'a 'cx | MempoolCh 'a | LocalTxSubmit 'a

fun ch_erased :: "('a, 'cx) channel \<Rightarrow> 'a" where
  "ch_erased (LedgerCh x _) = x"
| "ch_erased (MempoolCh x) = x"
| "ch_erased (LocalTxSubmit x) = x"

fun channel_map :: "('a \<Rightarrow> 'c) \<Rightarrow> ('a, 'cx) channel \<Rightarrow> ('c, 'cx) channel" where
  "channel_map f (LedgerCh x m) = LedgerCh (f x) m"
| "channel_map f (MempoolCh x) = MempoolCh (f x)"
| "channel_map f (LocalTxSubmit x) = LocalTxSubmit (f x)"

fun from_ledger :: "('a, 'cx) channel \<Rightarrow> bool" where
  "from_ledger (LedgerCh _ _) = True"
| "from_ledger _ = False"

fun from_mempool :: "('a, 'cx) channel \<Rightarrow> bool" where
  "from_mempool (MempoolCh _) = True"
| "from_mempool _ = False"

datatype 'a transition = Forward "('a, 'a) ior" | Backward "('a, 'a) ior"

fun is_rollback :: "'a transition \<Rightarrow> bool" where
  "is_rollback (Backward _) = True"
| "is_rollback (Forward _) = False"

fun transition_map :: "('a \<Rightarrow> 'c) \<Rightarrow> 'a transition \<Rightarrow> 'c transition" where
  "transition_map f (Forward i) = Forward (ior_bimap f f i)"
| "transition_map f (Backward i) = Backward (ior_bimap f f i)"

fun transition_inspect :: "('a \<Rightarrow> bool) \<Rightarrow> 'a transition \<Rightarrow> bool" where
  "transition_inspect f (Forward i) = ior_inspect f i"
| "transition_inspect f (Backward i) = ior_inspect f i"

fun transition_stable_id :: "('a \<Rightarrow> 'sid) \<Rightarrow> 'a transition \<Rightarrow> 'sid" where
  "transition_stable_id f (Forward i) = ior_stable_id f i"
| "transition_stable_id f (Backward i) = ior_stable_id f i"

datatype ('n, 'e) order_update = Created 'n | Eliminated 'e

fun order_update_from :: "'e + 'n \<Rightarrow> ('n, 'e) order_update" where
  "order_update_from (Inl consumed) = Eliminated consumed"
| "order_update_from (Inr produced) = Created produced"

subsection \<open>Effects of an execution\<close>

datatype ('t, 'k) execution_eff = Updated 'k 't | Eliminate 'k

fun eff_bimap :: "('t \<Rightarrow> 't2) \<Rightarrow> ('k \<Rightarrow> 'k2) \<Rightarrow> ('t, 'k) execution_eff \<Rightarrow> ('t2, 'k2) execution_eff" where
  "eff_bimap ft fk (Updated e u) = Updated (fk e) (ft u)"
| "eff_bimap ft fk (Eliminate e) = Eliminate (fk e)"

definition eff_map :: "('t \<Rightarrow> 't2) \<Rightarrow> ('t, 'k) execution_eff \<Rightarrow> ('t2, 'k) execution_eff" where
  "eff_map f = eff_bimap f id"

definition eff_map_eliminated :: "('k \<Rightarrow> 'k2) \<Rightarrow> ('t, 'k) execution_eff \<Rightarrow> ('t, 'k2) execution_eff" where
  "eff_map_eliminated f = eff_bimap id f"

fun eff_target :: "('t, 'k) execution_eff \<Rightarrow> 'k" where
  "eff_target (Updated k _) = k"
| "eff_target (Eliminate k) = k"

datatype 'b funding_event = Consumed 'b | Produced 'b

fun funding_inverse :: "'b funding_event \<Rightarrow> 'b funding_event" where
  "funding_inverse (Consumed x) = Produced x"
| "funding_inverse (Produced x) = Consumed x"

datatype ('b, 'k) funding_io = Replaced 'b 'k | Added 'b 'k | NotUsed 'b

fun funding_map_output :: "('k \<Rightarrow> 'k2) \<Rightarrow> ('b, 'k) funding_io \<Rightarrow> ('b, 'k2) funding_io" where
  "funding_map_output f (Replaced inp out) = Replaced inp (f out)"
| "funding_map_output f (Added inp out) = Added inp (f out)"
| "funding_map_output f (NotUsed inp) = NotUsed inp"

fun into_effects :: "('b, 'b) funding_io \<Rightarrow> 'b option \<times> 'b funding_event list" where
  "into_effects (Replaced consumed produced) = (None, [Consumed consumed, Produced produced])"
| "into_effects (Added unused produced) = (Some unused, [Produced produced])"
| "into_effects (NotUsed unused) = (Some unused, [])"

lemma funding_inverse_inverse [simp]: "funding_inverse (funding_inverse e) = e"
  by (cases e) auto

lemma transition_map_comp: "transition_map f (transition_map g t) = transition_map (f \<circ> g) t"
proof -
  have "ior_bimap f f (ior_bimap g g i) = ior_bimap (f \<circ> g) (f \<circ> g) i" for i
    by (cases i) auto
  then show ?thesis by (cases t) auto
qed

end
