(* ===== verification/State_Index.thy ===== *)
theory State_Index
  imports Entity_Events
begin

text \<open>
  The store of entity states of the engine, execution_engine/storage/mod.rs of packages/bloom-offchain,
  with the choice of the current state, resolver.rs. Both hash maps are maps; a key of the index is
  the prefix byte of the kind of state and the 60 bytes of the stable identifier. The tracing wrapper
  delegates every call. The abstract view is one slot per kind of state and entity, and every
  operation is the obvious one on the slots.
\<close>

definition last_confirmed_prefix :: byte where "last_confirmed_prefix = 3"
definition last_unconfirmed_prefix :: byte where "last_unconfirmed_prefix = 4"
definition last_predicted_prefix :: byte where "last_predicted_prefix = 5"
definition fallback_prefix :: byte where "fallback_prefix = 6"

definition all_state_keys :: "byte list" where
  "all_state_keys = [last_confirmed_prefix, last_unconfirmed_prefix, last_predicted_prefix, fallback_prefix]"

definition ephemeral_state_keys :: "byte list" where
  "ephemeral_state_keys = [last_unconfirmed_prefix, last_predicted_prefix, fallback_prefix]"

record ('e, 'v) state_index =
  si_store :: "'v \<Rightarrow> 'e option"
  si_index :: "bytes \<Rightarrow> 'v option"

definition si_new :: "('e, 'v) state_index" where
  "si_new = \<lparr> si_store = (\<lambda>_. None), si_index = (\<lambda>_. None) \<rparr>"

definition index_key :: "('e, 'sid, 'v) snapshot_ops \<Rightarrow> byte \<Rightarrow> 'sid \<Rightarrow> bytes" where
  "index_key S pfx sid = pfx # sn_key S sid"

definition si_put :: "('e, 'sid, 'v) snapshot_ops \<Rightarrow> byte \<Rightarrow> 'sid \<Rightarrow> 'e \<Rightarrow> ('e, 'v) state_index \<Rightarrow> ('e, 'v) state_index" where
  "si_put S pfx sid value si =
     (let bound_versions = List.map_filter (\<lambda>p. if p \<noteq> pfx then si_index si (index_key S p sid) else None) all_state_keys;
          key = index_key S pfx sid;
          store = (case si_index si key of
              Some old_ver \<Rightarrow>
                if old_ver \<notin> set bound_versions then (si_store si)(old_ver := None) else si_store si
            | None \<Rightarrow> si_store si);
          new_ver = sn_ver S value
      in \<lparr> si_store = store(new_ver \<mapsto> value), si_index = (si_index si)(key \<mapsto> new_ver) \<rparr>)"

definition si_get :: "('e, 'sid, 'v) snapshot_ops \<Rightarrow> byte \<Rightarrow> 'sid \<Rightarrow> ('e, 'v) state_index \<Rightarrow> 'e option" where
  "si_get S pfx sid si = Option.bind (si_index si (index_key S pfx sid)) (si_store si)"

definition get_last_confirmed :: "('e, 'sid, 'v) snapshot_ops \<Rightarrow> 'sid \<Rightarrow> ('e, 'v) state_index \<Rightarrow> 'e option" where
  "get_last_confirmed S = si_get S last_confirmed_prefix"

definition get_last_unconfirmed :: "('e, 'sid, 'v) snapshot_ops \<Rightarrow> 'sid \<Rightarrow> ('e, 'v) state_index \<Rightarrow> 'e option" where
  "get_last_unconfirmed S = si_get S last_unconfirmed_prefix"

definition get_last_predicted :: "('e, 'sid, 'v) snapshot_ops \<Rightarrow> 'sid \<Rightarrow> ('e, 'v) state_index \<Rightarrow> 'e option" where
  "get_last_predicted S = si_get S last_predicted_prefix"

definition get_fallback :: "('e, 'sid, 'v) snapshot_ops \<Rightarrow> 'sid \<Rightarrow> ('e, 'v) state_index \<Rightarrow> 'e option" where
  "get_fallback S = si_get S fallback_prefix"

definition put_confirmed :: "('e, 'sid, 'v) snapshot_ops \<Rightarrow> 'e \<Rightarrow> ('e, 'v) state_index \<Rightarrow> ('e, 'v) state_index" where
  "put_confirmed S e = si_put S last_confirmed_prefix (sn_id S e) e"

definition put_unconfirmed :: "('e, 'sid, 'v) snapshot_ops \<Rightarrow> 'e \<Rightarrow> ('e, 'v) state_index \<Rightarrow> ('e, 'v) state_index" where
  "put_unconfirmed S e = si_put S last_unconfirmed_prefix (sn_id S e) e"

definition put_predicted :: "('e, 'sid, 'v) snapshot_ops \<Rightarrow> 'e \<Rightarrow> ('e, 'v) state_index \<Rightarrow> ('e, 'v) state_index" where
  "put_predicted S e = si_put S last_predicted_prefix (sn_id S e) e"

definition put_fallback :: "('e, 'sid, 'v) snapshot_ops \<Rightarrow> 'e \<Rightarrow> ('e, 'v) state_index \<Rightarrow> ('e, 'v) state_index" where
  "put_fallback S e = si_put S fallback_prefix (sn_id S e) e"

definition drop_binding :: "('e, 'sid, 'v) snapshot_ops \<Rightarrow> 'sid \<Rightarrow> 'v \<Rightarrow> byte \<Rightarrow> (bytes \<Rightarrow> 'v option) \<Rightarrow> bytes \<Rightarrow> 'v option" where
  "drop_binding S sid ver pfx index =
     (if index (index_key S pfx sid) = Some ver then index(index_key S pfx sid := None) else index)"

definition invalidate_version ::
    "('e, 'sid, 'v) snapshot_ops \<Rightarrow> 'v \<Rightarrow> ('e, 'v) state_index \<Rightarrow> 'sid option \<times> ('e, 'v) state_index" where
  "invalidate_version S ver si =
     (case si_store si ver of
        None \<Rightarrow> (None, si)
      | Some entity \<Rightarrow>
          (let sid = sn_id S entity;
               removed = (si_store si)(ver := None);
               confirmed = index_key S last_confirmed_prefix sid;
               (store, index) =
                 (if si_index si confirmed = Some ver
                  then if sn_qp S entity then (removed(ver \<mapsto> entity), si_index si)
                       else (removed, (si_index si)(confirmed := None))
                  else (removed, si_index si))
           in (Some sid, \<lparr> si_store = store, si_index = fold (drop_binding S sid ver) ephemeral_state_keys index \<rparr>)))"

definition eliminate :: "('e, 'sid, 'v) snapshot_ops \<Rightarrow> 'sid \<Rightarrow> ('e, 'v) state_index \<Rightarrow> ('e, 'v) state_index" where
  "eliminate S sid si =
     fold (\<lambda>p si. case si_index si (index_key S p sid) of
         Some ver \<Rightarrow> \<lparr> si_store = (si_store si)(ver := None), si_index = (si_index si)(index_key S p sid := None) \<rparr>
       | None \<Rightarrow> si) all_state_keys si"

definition si_exists :: "'v \<Rightarrow> ('e, 'v) state_index \<Rightarrow> bool" where
  "si_exists ver si \<longleftrightarrow> si_store si ver \<noteq> None"

definition get_state :: "'v \<Rightarrow> ('e, 'v) state_index \<Rightarrow> 'e option" where
  "get_state ver si = si_store si ver"

text \<open>The current state of an entity: predicted, else unconfirmed, else fallback, else confirmed.\<close>

definition or_else :: "'a option \<Rightarrow> 'a option \<Rightarrow> 'a option" where
  "or_else a b = (case a of Some _ \<Rightarrow> a | None \<Rightarrow> b)"

definition resolve_state :: "('e, 'sid, 'v) snapshot_ops \<Rightarrow> 'sid \<Rightarrow> ('e, 'v) state_index \<Rightarrow> 'e option" where
  "resolve_state S sid si =
     or_else (or_else (or_else (get_last_predicted S sid si) (get_last_unconfirmed S sid si))
       (get_fallback S sid si)) (get_last_confirmed S sid si)"

subsection \<open>The slots\<close>

text \<open>
  The entities that ever come to the index: a version belongs to one state, and identifiers with
  the same bytes are the same entity (\<open>same_key\<close> says no more than that the model need not tell
  them apart).
\<close>

definition unique_versions :: "('e, 'sid, 'v) snapshot_ops \<Rightarrow> 'e set \<Rightarrow> bool" where
  "unique_versions S U \<longleftrightarrow> inj_on (sn_ver S) U"

definition si_ok :: "('e, 'sid, 'v) snapshot_ops \<Rightarrow> 'e set \<Rightarrow> ('e, 'v) state_index \<Rightarrow> bool" where
  "si_ok S U si \<longleftrightarrow>
     (\<forall>key v. si_index si key = Some v \<longrightarrow>
        (\<exists>p \<in> set all_state_keys. \<exists>e \<in> U. key = index_key S p (sn_id S e) \<and> si_store si v = Some e \<and> sn_ver S e = v)) \<and>
     (\<forall>v e. si_store si v = Some e \<longrightarrow>
        e \<in> U \<and> sn_ver S e = v \<and> (\<exists>p \<in> set all_state_keys. si_index si (index_key S p (sn_id S e)) = Some v))"

definition slot :: "('e, 'v) state_index \<Rightarrow> bytes \<Rightarrow> 'e option" where
  "slot si key = Option.bind (si_index si key) (si_store si)"

end
