(* ===== verification/Entity_Index.thy ===== *)
theory Entity_Index
  imports Entity_Events
begin

text \<open>
  The indexes of the event sinks, packages/bloom-offchain-cardano/src/event_sink/order_index.rs and
  entity_index.rs, and two containers of the engine, focus_set.rs and multi_pair.rs of
  packages/bloom-offchain. A reading of the clock and the delay are natural numbers; the tracing
  wrappers delegate every call.
\<close>

subsection \<open>Entries with delayed eviction\<close>

record ('k, 'val) kv_index =
  kv_store :: "'k \<Rightarrow> 'val option"
  kv_eviction_queue :: "(nat \<times> 'k) list"
  kv_eviction_delay :: nat

definition kv_new :: "nat \<Rightarrow> ('k, 'val) kv_index" where
  "kv_new eviction_delay = \<lparr> kv_store = (\<lambda>_. None), kv_eviction_queue = [], kv_eviction_delay = eviction_delay \<rparr>"

definition kv_put :: "'k \<Rightarrow> 'val \<Rightarrow> ('k, 'val) kv_index \<Rightarrow> ('k, 'val) kv_index" where
  "kv_put i value ix = ix\<lparr>kv_store := (kv_store ix)(i \<mapsto> value)\<rparr>"

definition kv_get :: "'k \<Rightarrow> ('k, 'val) kv_index \<Rightarrow> 'val option" where
  "kv_get i ix = kv_store ix i"

definition kv_exists :: "'k \<Rightarrow> ('k, 'val) kv_index \<Rightarrow> bool" where
  "kv_exists i ix \<longleftrightarrow> kv_store ix i \<noteq> None"

definition kv_register_for_eviction :: "nat \<Rightarrow> 'k \<Rightarrow> ('k, 'val) kv_index \<Rightarrow> ('k, 'val) kv_index" where
  "kv_register_for_eviction now i ix =
     ix\<lparr>kv_eviction_queue := kv_eviction_queue ix @ [(now + kv_eviction_delay ix, i)]\<rparr>"

fun evict :: "nat \<Rightarrow> (nat \<times> 'k) list \<Rightarrow> ('k \<Rightarrow> 'val option) \<Rightarrow> (nat \<times> 'k) list \<times> ('k \<Rightarrow> 'val option)" where
  "evict now [] store = ([], store)"
| "evict now ((ts, v) # queue) store =
     (if ts \<le> now then evict now queue (store(v := None)) else ((ts, v) # queue, store))"

definition kv_run_eviction :: "nat \<Rightarrow> ('k, 'val) kv_index \<Rightarrow> ('k, 'val) kv_index" where
  "kv_run_eviction now ix =
     (let (queue, store) = evict now (kv_eviction_queue ix) (kv_store ix)
      in ix\<lparr>kv_eviction_queue := queue, kv_store := store\<rparr>)"

text \<open>The index of entities also remembers the pair of every quasi-permanent entity it ever held.\<close>

record ('e, 'sid, 'v, 'pair) tradable_ops =
  tr_snapshot :: "('e, 'sid, 'v) snapshot_ops"
  tr_pair :: "'e \<Rightarrow> 'pair"

record ('e, 'sid, 'v, 'pair) entity_index =
  ei_entries :: "('v, 'e) kv_index"
  ei_permanent_pairs :: "'sid \<Rightarrow> 'pair option"

definition ei_new :: "nat \<Rightarrow> ('e, 'sid, 'v, 'pair) entity_index" where
  "ei_new eviction_delay = \<lparr> ei_entries = kv_new eviction_delay, ei_permanent_pairs = (\<lambda>_. None) \<rparr>"

definition ei_put_state ::
    "('e, 'sid, 'v, 'pair) tradable_ops \<Rightarrow> 'e \<Rightarrow> ('e, 'sid, 'v, 'pair) entity_index \<Rightarrow> ('e, 'sid, 'v, 'pair) entity_index" where
  "ei_put_state R state ix =
     (let S = tr_snapshot R;
          pairs = (if sn_qp S state then (ei_permanent_pairs ix)(sn_id S state \<mapsto> tr_pair R state)
                   else ei_permanent_pairs ix)
      in \<lparr> ei_entries = kv_put (sn_ver S state) state (ei_entries ix), ei_permanent_pairs = pairs \<rparr>)"

definition ei_get_state :: "'v \<Rightarrow> ('e, 'sid, 'v, 'pair) entity_index \<Rightarrow> 'e option" where
  "ei_get_state ver ix = kv_get ver (ei_entries ix)"

definition ei_pair_of :: "'sid \<Rightarrow> ('e, 'sid, 'v, 'pair) entity_index \<Rightarrow> 'pair option" where
  "ei_pair_of i ix = ei_permanent_pairs ix i"

definition ei_exists :: "'v \<Rightarrow> ('e, 'sid, 'v, 'pair) entity_index \<Rightarrow> bool" where
  "ei_exists ver ix \<longleftrightarrow> kv_exists ver (ei_entries ix)"

definition ei_register_for_eviction :: "nat \<Rightarrow> 'v \<Rightarrow> ('e, 'sid, 'v, 'pair) entity_index \<Rightarrow> ('e, 'sid, 'v, 'pair) entity_index" where
  "ei_register_for_eviction now ver ix = ix\<lparr>ei_entries := kv_register_for_eviction now ver (ei_entries ix)\<rparr>"

definition ei_run_eviction :: "nat \<Rightarrow> ('e, 'sid, 'v, 'pair) entity_index \<Rightarrow> ('e, 'sid, 'v, 'pair) entity_index" where
  "ei_run_eviction now ix = ix\<lparr>ei_entries := kv_run_eviction now (ei_entries ix)\<rparr>"

lemma evict_queue: "fst (evict now queue store) = dropWhile (\<lambda>(ts, _). ts \<le> now) queue"
  by (induction queue arbitrary: store) auto

lemma evict_store:
  "snd (evict now queue store) i =
     (if i \<in> snd ` set (takeWhile (\<lambda>(ts, _). ts \<le> now) queue) then None else store i)"
  by (induction queue arbitrary: store) (auto simp: image_iff, fastforce)

lemma sorted_takeWhile_le:
  "sorted (map fst q) \<Longrightarrow> set (takeWhile (\<lambda>(ts, _). ts \<le> now) q) = {x \<in> set q. fst x \<le> (now :: nat)}"
  by (induction q) (force split: prod.splits)+

text \<open>
  While the clock does not run backwards the queue is sorted by deadline, and an eviction removes
  exactly the entries with a registration that is due, also one that was put again since.
\<close>

lemma kv_run_eviction_due:
  assumes "sorted (map fst (kv_eviction_queue ix))"
  shows "kv_get i (kv_run_eviction now ix) =
      (if \<exists>ts \<le> now. (ts, i) \<in> set (kv_eviction_queue ix) then None else kv_get i ix)"
    and "kv_eviction_queue (kv_run_eviction now ix) = dropWhile (\<lambda>(ts, _). ts \<le> now) (kv_eviction_queue ix)"
proof -
  have s: "kv_store (kv_run_eviction now ix) = snd (evict now (kv_eviction_queue ix) (kv_store ix))"
    and q: "kv_eviction_queue (kv_run_eviction now ix) = fst (evict now (kv_eviction_queue ix) (kv_store ix))"
    by (simp_all add: kv_run_eviction_def split: prod.splits)
  have "i \<in> snd ` {x \<in> set (kv_eviction_queue ix). fst x \<le> now} \<longleftrightarrow> (\<exists>ts \<le> now. (ts, i) \<in> set (kv_eviction_queue ix))"
    by force
  then show "kv_get i (kv_run_eviction now ix) =
      (if \<exists>ts \<le> now. (ts, i) \<in> set (kv_eviction_queue ix) then None else kv_get i ix)"
    unfolding kv_get_def s evict_store sorted_takeWhile_le [OF assms] by simp
  show "kv_eviction_queue (kv_run_eviction now ix) = dropWhile (\<lambda>(ts, _). ts \<le> now) (kv_eviction_queue ix)"
    by (simp add: q evict_queue)
qed

lemma register_sorted:
  assumes "sorted (map fst (kv_eviction_queue ix))" "\<forall>(ts, _) \<in> set (kv_eviction_queue ix). ts \<le> now + kv_eviction_delay ix"
  shows "sorted (map fst (kv_eviction_queue (kv_register_for_eviction now i ix)))"
  using assms by (auto simp: kv_register_for_eviction_def sorted_append)

subsection \<open>Focus set and pairs\<close>

record 'a focus_set =
  fs_queue :: "'a list"
  fs_filter :: "'a set"

definition fs_new :: "'a focus_set" where
  "fs_new = \<lparr> fs_queue = [], fs_filter = {} \<rparr>"

definition fs_push_back :: "'a \<Rightarrow> 'a focus_set \<Rightarrow> 'a focus_set" where
  "fs_push_back a f =
     (if a \<in> fs_filter f then f else \<lparr> fs_queue = fs_queue f @ [a], fs_filter = insert a (fs_filter f) \<rparr>)"

definition fs_pop_front :: "'a focus_set \<Rightarrow> 'a option \<times> 'a focus_set" where
  "fs_pop_front f =
     (case fs_queue f of
        [] \<Rightarrow> (None, f)
      | a # queue \<Rightarrow> (Some a, \<lparr> fs_queue = queue, fs_filter = fs_filter f - {a} \<rparr>))"

definition fs_ok :: "'a focus_set \<Rightarrow> bool" where
  "fs_ok f \<longleftrightarrow> distinct (fs_queue f) \<and> set (fs_queue f) = fs_filter f"

lemma fs_ok_new [simp]: "fs_ok fs_new"
  by (simp add: fs_ok_def fs_new_def)

lemma fs_ok_push_back [simp]: "fs_ok f \<Longrightarrow> fs_ok (fs_push_back a f)"
  by (auto simp: fs_ok_def fs_push_back_def)

lemma fs_ok_pop_front [simp]: "fs_ok f \<Longrightarrow> fs_ok (snd (fs_pop_front f))"
  by (cases "fs_queue f") (simp_all add: fs_ok_def fs_pop_front_def, auto)

type_synonym ('pair, 'r) multi_pair = "'pair \<Rightarrow> 'r option"

text \<open>\<open>get_mut\<close> makes the resource of a new pair; what is done to it through the reference is \<open>f\<close>.\<close>

definition mp_get :: "('pair \<Rightarrow> 'r) \<Rightarrow> 'pair \<Rightarrow> ('pair, 'r) multi_pair \<Rightarrow> 'r" where
  "mp_get mk pair m = (case m pair of Some r \<Rightarrow> r | None \<Rightarrow> mk pair)"

definition with_resource_mut :: "('pair \<Rightarrow> 'r) \<Rightarrow> 'pair \<Rightarrow> ('r \<Rightarrow> 'r) \<Rightarrow> ('pair, 'r) multi_pair \<Rightarrow> ('pair, 'r) multi_pair" where
  "with_resource_mut mk pair f m = m(pair \<mapsto> f (mp_get mk pair m))"

definition mp_remove :: "'pair \<Rightarrow> ('pair, 'r) multi_pair \<Rightarrow> ('pair, 'r) multi_pair" where
  "mp_remove pair m = m(pair := None)"

end
