(* ===== verification/Engine.thy ===== *)
theory Engine
  imports State_Index Entity_Index
begin

text \<open>
  The executor, packages/bloom-offchain/src/execution_engine/mod.rs with report.rs: it keeps a book
  and a backlog per pair, the index of entity states and the funding, takes events from upstream,
  matches, emits transactions, and settles each one when its feedback arrives. The generic
  parameters of the code (book, backlog, interpreters, prover) are the components of the environment;
  the book and the backlog of the program are put in by \<open>Engine_Spec\<close>. A panic and a call that does
  not return are failures, each with its cause. What a poll finds in the channels is a list; the
  iteration order of a hash set is that of a list.
\<close>

datatype engine_failure =
    Book_not_settled | Entity_changed_kind | Missing_in_index
  | Attempt_failed | Backlog_failed | Report_failed

type_synonym 'a res = "engine_failure + 'a"

definition and_then :: "'a res \<Rightarrow> ('a \<Rightarrow> 'c res) \<Rightarrow> 'c res" where
  "and_then r f = (case r of Inl e \<Rightarrow> Inl e | Inr x \<Rightarrow> f x)"

fun fold_res :: "('a \<Rightarrow> 's \<Rightarrow> 's res) \<Rightarrow> 'a list \<Rightarrow> 's \<Rightarrow> 's res" where
  "fold_res f [] s = Inr s"
| "fold_res f (x # xs) s = and_then (f x s) (fold_res f xs)"

lemma and_then_simps [simp]: "and_then (Inl e) f = Inl e" "and_then (Inr x) f = f x"
  by (simp_all add: and_then_def)

subsection \<open>Interfaces\<close>

record ('pair, 'co, 'p, 'book, 'ev) book_ops =
  bo_make :: "'pair \<Rightarrow> 'book"
  bo_attempt :: "'book \<Rightarrow> (('co, 'p) matchmaking_recipe option \<times> 'ev \<times> 'book) option"
  bo_update_taker :: "'co \<Rightarrow> 'book \<Rightarrow> 'book option"
  bo_remove_taker :: "'co \<Rightarrow> 'book \<Rightarrow> 'book option"
  bo_update_maker :: "'p \<Rightarrow> 'book \<Rightarrow> 'book option"
  bo_remove_maker :: "'p \<Rightarrow> 'book \<Rightarrow> 'book option"
  bo_on_recipe_succeeded :: "'book \<Rightarrow> 'book"
  bo_on_recipe_failed :: "'book \<Rightarrow> 'book"

record ('pair, 'o, 'v, 'bl) backlog_ops =
  bg_make :: "'pair \<Rightarrow> 'bl"
  bg_put :: "'o \<Rightarrow> 'bl \<Rightarrow> 'bl"
  bg_try_pop :: "'bl \<Rightarrow> ('o option \<times> 'bl) option"
  bg_remove :: "'v \<Rightarrow> 'bl \<Rightarrow> 'bl"
  bg_soft_evict :: "'v \<Rightarrow> 'bl \<Rightarrow> 'bl"

type_synonym ('co, 'p, 'v, 'b) evolving_eff =
  "(('co, 'p, 'v, 'b) evolving, ('co, 'p, 'v, 'b) evolving) execution_eff"

record ('pair, 'co, 'k, 'sid, 'u, 'p, 'so, 'v, 'b, 'book, 'bl, 'ev, 'txc, 'tx, 'th, 'err) engine_env =
  en_takers :: "('co, 'k, 'sid, 'u) taker_ops"
  en_makers :: "('p, 'sid, 'u) maker_ops"
  en_co_qp :: "'co \<Rightarrow> bool"
  en_p_qp :: "'p \<Rightarrow> bool"
  en_sid_key :: "'sid \<Rightarrow> bytes"
  en_book :: "('pair, 'co, 'p, 'book, 'ev) book_ops"
  en_backlog :: "('pair, ('so, 'b) bundled, 'v, 'bl) backlog_ops"
  en_order_ref :: "'so \<Rightarrow> 'v"
  en_pool_ref :: "'so \<Rightarrow> 'sid"
  en_bearer_version :: "'b \<Rightarrow> 'v"
  en_interpret :: "('co, 'p, 'b) execution list \<Rightarrow> 'b \<Rightarrow> 'txc \<times> ('co, 'p, 'v, 'b) evolving_eff list \<times> ('b, 'b) funding_io"
  en_interpret_special :: "('p, 'b) bundled \<Rightarrow> ('so, 'b) bundled \<Rightarrow>
     ('txc \<times> (('p, 'v) baked, 'b) bundled \<times> ('so, 'b) bundled) option"
  en_prove :: "'txc \<Rightarrow> 'tx"
  en_hash :: "'tx \<Rightarrow> 'th"
  en_missing :: "'err \<Rightarrow> 'v list option"

definition evolving_ops ::
    "('pair, 'co, 'k, 'sid, 'u, 'p, 'so, 'v, 'b, 'book, 'bl, 'ev, 'txc, 'tx, 'th, 'err) engine_env \<Rightarrow>
     (('co, 'p, 'v, 'b) evolving, 'sid, 'v) snapshot_ops" where
  "evolving_ops E = \<lparr>
     sn_id = (\<lambda>e. either_id (tk_id (en_takers E)) (mk_id (en_makers E)) (bd_entity e)),
     sn_qp = (\<lambda>e. either_qp (en_co_qp E) (en_p_qp E) (bd_entity e)),
     sn_ver = (\<lambda>e. either_version (bd_entity e)),
     sn_key = en_sid_key E \<rparr>"

subsection \<open>State\<close>

datatype ('co, 'p, 'so, 'v, 'b) execution_effects =
    FromLiquidityBook "('co, 'p, 'v, 'b) evolving_eff list"
  | FromBacklog "(('p, 'v) baked, 'b) bundled" "('so, 'b) bundled"

record ('pair, 'th, 'co, 'p, 'so, 'v, 'b) effects =
  ef_tx_hash :: 'th
  ef_pair :: 'pair
  ef_consumed_versions :: "'v set"
  ef_pending_effects :: "('co, 'p, 'so, 'v, 'b) execution_effects"
  ef_funding :: "'b funding_event list"

datatype blocker = Until_synced | Until_no_rollback

record ('pair, 'th, 'co, 'p, 'so, 'v, 'b, 'book, 'bl) executor =
  ex_index :: "(('co, 'p, 'v, 'b) evolving, 'v) state_index"
  ex_multi_book :: "('pair, 'book) multi_pair"
  ex_multi_backlog :: "('pair, 'bl) multi_pair"
  ex_funding_pool :: "'b list"
  ex_pending_effects :: "('pair, 'th, 'co, 'p, 'so, 'v, 'b) effects option"
  ex_focus_set :: "'pair focus_set"
  ex_skip_filter :: "'v circular_filter"
  ex_blocker :: "blocker option"

definition executor_new :: "('pair, 'th, 'co, 'p, 'so, 'v, 'b, 'book, 'bl) executor" where
  "executor_new = \<lparr> ex_index = si_new, ex_multi_book = (\<lambda>_. None), ex_multi_backlog = (\<lambda>_. None),
     ex_funding_pool = [], ex_pending_effects = None, ex_focus_set = fs_new,
     ex_skip_filter = cf_new 256, ex_blocker = None \<rparr>"

text \<open>Through \<open>get_mut\<close>: the book of a pair, changed by an event from outside, which it may refuse.\<close>

definition the_book where
  "the_book E pair s = mp_get (bo_make (en_book E)) pair (ex_multi_book s)"

definition set_book where
  "set_book pair b s = s\<lparr>ex_multi_book := (ex_multi_book s)(pair \<mapsto> b)\<rparr>"

definition on_book where
  "on_book E pair f s =
     (case f (the_book E pair s) of Some b \<Rightarrow> Inr (set_book pair b s) | None \<Rightarrow> Inl Book_not_settled)"

definition on_backlog where
  "on_backlog E pair f s =
     s\<lparr>ex_multi_backlog := with_resource_mut (bg_make (en_backlog E)) pair f (ex_multi_backlog s)\<rparr>"

subsection \<open>Events from upstream\<close>

definition sync_backlog where
  "sync_backlog E pair update s =
     (case ch_erased update of
        Created new_order \<Rightarrow>
          if \<not> cf_contains (en_order_ref E (bd_entity new_order)) (ex_skip_filter s)
          then on_backlog E pair (bg_put (en_backlog E) new_order) s else s
      | Eliminated elim_order \<Rightarrow>
          if from_ledger update then on_backlog E pair (bg_remove (en_backlog E) (en_order_ref E elim_order)) s
          else on_backlog E pair (bg_soft_evict (en_backlog E) (en_order_ref E elim_order)) s)"

fun sync_book where
  "sync_book E pair (Left (Inl o1)) s = on_book E pair (bo_remove_taker (en_book E) (bk_entity o1)) s"
| "sync_book E pair (Left (Inr p)) s = on_book E pair (bo_remove_maker (en_book E) (bk_entity p)) s"
| "sync_book E pair (Both (Inl old) (Inl new)) s =
     and_then (on_book E pair (bo_remove_taker (en_book E) (bk_entity old)) s)
       (on_book E pair (bo_update_taker (en_book E) (bk_entity new)))"
| "sync_book E pair (Both _ (Inr new)) s = on_book E pair (bo_update_maker (en_book E) (bk_entity new)) s"
| "sync_book E pair (Both (Inr _) (Inl _)) s = Inl Entity_changed_kind"
| "sync_book E pair (Right (Inl new)) s = on_book E pair (bo_update_taker (en_book E) (bk_entity new)) s"
| "sync_book E pair (Right (Inr new)) s = on_book E pair (bo_update_maker (en_book E) (bk_entity new)) s"

fun sync_book_opt where
  "sync_book_opt E pair None s = Inr s"
| "sync_book_opt E pair (Some tr) s = sync_book E pair tr s"

fun to_transition :: "('t, 'b) bundled option \<Rightarrow> ('t, 'b) bundled option \<Rightarrow> ('t, 't) ior option" where
  "to_transition (Some elim_state) None = Some (Left (bd_entity elim_state))"
| "to_transition None (Some new_state) = Some (Right (bd_entity new_state))"
| "to_transition (Some prev) (Some next) = Some (Both (bd_entity prev) (bd_entity next))"
| "to_transition None None = None"

definition put_from where
  "put_from E update new_state index =
     (if from_ledger update then put_confirmed (evolving_ops E) new_state index
      else if from_mempool update then put_unconfirmed (evolving_ops E) new_state index
      else put_predicted (evolving_ops E) new_state index)"

text \<open>A new state, \<open>rolled_back\<close> being the version that a rollback revokes.\<close>

definition update_new_state where
  "update_new_state E update rollback rolled_back new_state s =
     (let S = evolving_ops E; ver = sn_ver S new_state; sid = sn_id S new_state
      in if cf_contains ver (ex_skip_filter s) \<and> \<not> rollback
         then (None, s\<lparr>ex_index := if from_ledger update then put_confirmed S new_state (ex_index s)
                                   else put_fallback S new_state (ex_index s)\<rparr>)
         else
           (let skip = (if cf_contains ver (ex_skip_filter s) then snd (cf_remove ver (ex_skip_filter s))
                        else ex_skip_filter s);
                state_before_update = resolve_state S sid (ex_index s);
                index1 = (case rolled_back of Some v \<Rightarrow> snd (invalidate_version S v (ex_index s)) | None \<Rightarrow> ex_index s);
                index2 = put_from E update new_state index1
            in (to_transition state_before_update (resolve_state S sid index2),
                s\<lparr>ex_index := index2, ex_skip_filter := skip\<rparr>)))"

definition update_state where
  "update_state E update s =
     (let S = evolving_ops E
      in case ch_erased update of
           Forward (Right new_state) \<Rightarrow> update_new_state E update False None new_state s
         | Forward (Both _ new_state) \<Rightarrow> update_new_state E update False None new_state s
         | Backward (Right new_state) \<Rightarrow> update_new_state E update True None new_state s
         | Backward (Both old new_state) \<Rightarrow> update_new_state E update True (Some (sn_ver S old)) new_state s
         | Forward (Left st) \<Rightarrow>
             (Some (Left (bd_entity st)),
              if from_ledger update \<or> \<not> sn_qp S st then s\<lparr>ex_index := eliminate S (sn_id S st) (ex_index s)\<rparr> else s)
         | Backward (Left st) \<Rightarrow>
             (Some (Left (bd_entity st)),
              if from_ledger update \<or> \<not> sn_qp S st then s\<lparr>ex_index := eliminate S (sn_id S st) (ex_index s)\<rparr> else s))"

definition on_pair_event where
  "on_pair_event E = (\<lambda>(pair, event) s.
     map_sum id (\<lambda>s. s\<lparr>ex_focus_set := fs_push_back pair (ex_focus_set s)\<rparr>)
       (case event of
          Inl evolving_entity \<Rightarrow>
            (let (upd, s1) = update_state E evolving_entity s in sync_book_opt E pair upd s1)
        | Inr atomic_entity \<Rightarrow> Inr (sync_backlog E pair atomic_entity s)))"

fun on_funding_event where
  "on_funding_event (Consumed funding) s = s\<lparr>ex_funding_pool := bts_remove id funding (ex_funding_pool s)\<rparr>"
| "on_funding_event (Produced funding) s = s\<lparr>ex_funding_pool := bts_insert id funding (ex_funding_pool s)\<rparr>"

subsection \<open>Feedback\<close>

definition on_entity_processed where
  "on_entity_processed ver s = s\<lparr>ex_skip_filter := snd (cf_add ver (ex_skip_filter s))\<rparr>"

definition apply_effect where
  "apply_effect E pair eff s =
     (let s1 = on_entity_processed (sn_ver (evolving_ops E) (eff_target eff)) s;
          tr = (case eff of Updated elim upd \<Rightarrow> Forward (Both elim upd) | Eliminate elim \<Rightarrow> Forward (Left elim));
          (upd, s2) = update_state E (LocalTxSubmit tr :: (_, unit) channel) s1
      in sync_book_opt E pair upd s2)"

definition on_execution_effects_success where
  "on_execution_effects_success E ef s =
     (case ef_pending_effects ef of
        FromLiquidityBook pending \<Rightarrow>
          (let b = bo_on_recipe_succeeded (en_book E) (the_book E (ef_pair ef) s)
           in fold_res (apply_effect E (ef_pair ef)) (rev pending) (set_book (ef_pair ef) b s))
      | FromBacklog new_pool consumed_ord \<Rightarrow>
          (let s1 = on_entity_processed (en_order_ref E (bd_entity consumed_ord)) s
           in Inr (snd (update_state E (LocalTxSubmit (Forward (Right (bundled_map Inr new_pool))) :: (_, unit) channel) s1))))"

definition invalidate_one where
  "invalidate_one E pair ver = (\<lambda>(missing_bearers, s).
     (let S = evolving_ops E
      in case get_state ver (ex_index s) of
           None \<Rightarrow> Inr (missing_bearers @ [ver], s)
         | Some state \<Rightarrow>
             (let before = resolve_state S (sn_id S state) (ex_index s);
                  index = snd (invalidate_version S ver (ex_index s));
                  s1 = s\<lparr>ex_index := index\<rparr>
              in map_sum id (Pair missing_bearers)
                   (sync_book_opt E pair (to_transition before (resolve_state S (sn_id S state) index)) s1))))"

definition invalidate_versions where
  "invalidate_versions E pair versions s = fold_res (invalidate_one E pair) versions ([], s)"

definition book_recipe_failed where
  "book_recipe_failed E pair s =
     set_book pair (bo_on_recipe_failed (en_book E) (the_book E pair s)) s"

fun eff_order :: "('co, 'p, 'v, 'b) evolving_eff \<Rightarrow> 'co option" where
  "eff_order eff = (case bd_entity (eff_target eff) of Inl ord \<Rightarrow> Some (bk_entity ord) | Inr _ \<Rightarrow> None)"

definition on_execution_effects_failure where
  "on_execution_effects_failure E err ef s =
     (let pair = ef_pair ef; ord_ref = (\<lambda>ord. en_order_ref E (bd_entity ord)) in
      case en_missing E err of
        Some missing_inputs \<Rightarrow>
          (let (strict, s1) =
             (case ef_pending_effects ef of
                FromLiquidityBook _ \<Rightarrow> (True, book_recipe_failed E pair s)
              | FromBacklog _ ord \<Rightarrow>
                  (False, if ord_ref ord \<in> set missing_inputs
                          then on_backlog E pair (bg_soft_evict (en_backlog E) (ord_ref ord)) s
                          else on_backlog E pair (bg_put (en_backlog E) ord) s));
             relevant_bearers = remdups (filter (\<lambda>v. v \<in> ef_consumed_versions ef) missing_inputs)
           in and_then (invalidate_versions E pair relevant_bearers s1)
                (\<lambda>(unknown_bearers, s2).
                   if unknown_bearers \<noteq> [] \<and> strict then Inl Missing_in_index else Inr s2))
      | None \<Rightarrow>
          (case ef_pending_effects ef of
             FromLiquidityBook effs \<Rightarrow>
               fold_res (\<lambda>ord. on_book E pair (bo_remove_taker (en_book E) ord))
                 (List.map_filter eff_order effs) (book_recipe_failed E pair s)
           | FromBacklog _ ord \<Rightarrow> Inr (on_backlog E pair (bg_put (en_backlog E) ord) s)))"

definition on_funding_effects_success where
  "on_funding_effects_success effs s =
     fold (\<lambda>eff s. case eff of Consumed _ \<Rightarrow> s | Produced _ \<Rightarrow> on_funding_event eff s) (rev effs) s"

definition on_funding_effects_failure where
  "on_funding_effects_failure E err effs s =
     (let missing_bearers = (case en_missing E err of Some vs \<Rightarrow> vs | None \<Rightarrow> [])
      in fold (\<lambda>eff s. case eff of
           Produced _ \<Rightarrow> s
         | Consumed funding \<Rightarrow>
             if en_bearer_version E funding \<notin> set missing_bearers then on_funding_event (Produced funding) s else s)
         (rev effs) s)"

text \<open>The first thing a poll does: settle the pending effects if their feedback is there.\<close>

fun settle_feedback where
  "settle_feedback E [] s = Inr ([], s)"
| "settle_feedback E (result # feedback) s =
     (case ex_pending_effects s of
        None \<Rightarrow> Inr (result # feedback, s)
      | Some ef \<Rightarrow>
          (let s1 = s\<lparr>ex_pending_effects := None\<rparr>
           in map_sum id (Pair feedback)
                (case result of
                   Inr () \<Rightarrow>
                     map_sum id (on_funding_effects_success (ef_funding ef)) (on_execution_effects_success E ef s1)
                 | Inl err \<Rightarrow>
                     map_sum id (on_funding_effects_failure E err (ef_funding ef))
                       (on_execution_effects_failure E err ef s1))))"

subsection \<open>Reports\<close>

record ('sid, 'v) order_execution =
  oe_id :: 'sid
  oe_version :: 'v
  oe_mean_price :: price
  oe_removed_input :: u64
  oe_added_output :: u64
  oe_fee :: u64
  oe_side :: side

record ('sid, 'v, 'th, 'pair, 'ev) execution_report =
  er_pair :: 'pair
  er_executions :: "('sid, 'v) order_execution list"
  er_events :: 'ev
  er_tx_hash :: "'th option"

definition order_execution_of ::
    "('co, 'k, 'sid, 'u) taker_ops \<Rightarrow> ('b \<Rightarrow> 'v) \<Rightarrow> ('co, 'b) take \<Rightarrow> ('sid, 'v) order_execution option" where
  "order_execution_of T bearer_version tk =
     (let target = bd_entity (tr_target tk); br = bd_bearer (tr_target tk)
      in do {
        inp \<leftarrow> take_removed_input T tk;
        out \<leftarrow> take_added_output T tk;
        fee \<leftarrow> take_consumed_fee T tk;
        if inp = 0 then None
        else Some \<lparr> oe_id = tk_id T target, oe_version = bearer_version br,
          oe_mean_price = price_from (tk_side T target) (of_nat (unat out) / of_nat (unat inp)),
          oe_removed_input = out, oe_added_output = inp, oe_fee = fee, oe_side = tk_side T target \<rparr>
      })"

fun executions_of ::
    "('co, 'k, 'sid, 'u) taker_ops \<Rightarrow> ('b \<Rightarrow> 'v) \<Rightarrow> ('co, 'p, 'b) execution list \<Rightarrow> ('sid, 'v) order_execution list option" where
  "executions_of T bv [] = Some []"
| "executions_of T bv (Inl tk # rest) =
     do { x \<leftarrow> order_execution_of T bv tk; xs \<leftarrow> executions_of T bv rest; Some (x # xs) }"
| "executions_of T bv (Inr _ # rest) = executions_of T bv rest"

definition report_new :: "'pair \<Rightarrow> 'ev \<Rightarrow> ('sid, 'v, 'th, 'pair, 'ev) execution_report" where
  "report_new pair events = \<lparr> er_pair = pair, er_executions = [], er_events = events, er_tx_hash = None \<rparr>"

subsection \<open>Matchmaking\<close>

definition on_linkage_failure where
  "on_linkage_failure E focus_pair orphans s =
     fold_res (\<lambda>fragment. on_book E focus_pair
         (case fragment of Inl taker \<Rightarrow> bo_remove_taker (en_book E) taker | Inr maker \<Rightarrow> bo_remove_maker (en_book E) maker))
       orphans (book_recipe_failed E focus_pair s)"

text \<open>A turn ends with a transaction, and a report if it comes from the book, or with nothing.\<close>

definition link_of where
  "link_of E s sid = map_option (\<lambda>e. (either_version (bd_entity e), bd_bearer e))
     (resolve_state (evolving_ops E) sid (ex_index s))"

definition try_backlog where
  "try_backlog E focus_pair s =
     (case bg_try_pop (en_backlog E) (mp_get (bg_make (en_backlog E)) focus_pair (ex_multi_backlog s)) of
        None \<Rightarrow> Inl Backlog_failed
      | Some (next_order, backlog) \<Rightarrow>
          (let s1 = on_backlog E focus_pair (\<lambda>_. backlog) s in
           case next_order of
             None \<Rightarrow> Inr (None, s1)
           | Some ord \<Rightarrow>
               (case resolve_state (evolving_ops E) (en_pool_ref E (bd_entity ord)) (ex_index s1) of
                  Some (Bundled (Inr pool) pool_bearer) \<Rightarrow>
                    (case en_interpret_special E (Bundled (bk_entity pool) pool_bearer) ord of
                       Some (txc, updated_pool, consumed_ord) \<Rightarrow>
                         (let tx = en_prove E txc;
                              ef = \<lparr> ef_tx_hash = en_hash E tx, ef_pair = focus_pair,
                                     ef_consumed_versions = {bk_version pool, en_order_ref E (bd_entity consumed_ord)},
                                     ef_pending_effects = FromBacklog updated_pool consumed_ord, ef_funding = [] \<rparr>
                          in Inr (Some (tx, None),
                               s1\<lparr>ex_pending_effects := Some ef, ex_focus_set := fs_push_back focus_pair (ex_focus_set s1)\<rparr>))
                     | None \<Rightarrow> Inr (None, s1))
                | _ \<Rightarrow> Inr (None, s1))))"

definition run_recipe where
  "run_recipe E focus_pair linked_recipe consumed_versions events funding s =
     (case executions_of (en_takers E) (en_bearer_version E) linked_recipe of
        None \<Rightarrow> Inl Report_failed
      | Some executions \<Rightarrow>
          (let (txc, matchmaking_effects, fio) = en_interpret E linked_recipe funding;
               tx = en_prove E txc;
               (maybe_unused_funding, funding_effects) = into_effects fio;
               pool1 = bts_remove id funding (ex_funding_pool s);
               pool2 = (case maybe_unused_funding of Some unused \<Rightarrow> bts_insert id unused pool1 | None \<Rightarrow> pool1);
               report = (report_new focus_pair events)\<lparr>er_executions := executions, er_tx_hash := Some (en_hash E tx)\<rparr>;
               ef = \<lparr> ef_tx_hash = en_hash E tx, ef_pair = focus_pair, ef_consumed_versions = consumed_versions,
                      ef_pending_effects = FromLiquidityBook matchmaking_effects, ef_funding = funding_effects \<rparr>
           in Inr (Some (tx, Some report),
                s\<lparr>ex_pending_effects := Some ef, ex_funding_pool := pool2,
                  ex_focus_set := fs_push_back focus_pair (ex_focus_set s)\<rparr>)))"

definition focus_turn where
  "focus_turn E focus_pair s =
     (case bo_attempt (en_book E) (the_book E focus_pair s) of
        None \<Rightarrow> Inl Attempt_failed
      | Some (maybe_recipe, events, book) \<Rightarrow>
          (let s1 = set_book focus_pair book s in
           case maybe_recipe of
             None \<Rightarrow> try_backlog E focus_pair s1
           | Some recipe \<Rightarrow>
               (case recipe_link (en_takers E) (en_makers E) (link_of E s1) recipe of
                  Inr (linked_recipe, consumed_versions) \<Rightarrow>
                    (case bts_first (ex_funding_pool s1) of
                       Some funding \<Rightarrow> run_recipe E focus_pair linked_recipe consumed_versions events funding s1
                     | None \<Rightarrow>
                         if executions_of (en_takers E) (en_bearer_version E) linked_recipe = None then Inl Report_failed
                         else try_backlog E focus_pair (book_recipe_failed E focus_pair s1))
                | Inl invalid_fragments \<Rightarrow>
                    and_then (on_linkage_failure E focus_pair invalid_fragments s1) (try_backlog E focus_pair))))"

text \<open>The matchmaking loop takes the pairs in focus until one gives a transaction.\<close>

fun matchmake where
  "matchmake E [] s = Inr (None, s)"
| "matchmake E (focus_pair # pairs) s =
     and_then (focus_turn E focus_pair (s\<lparr>ex_focus_set := snd (fs_pop_front (ex_focus_set s))\<rparr>))
       (\<lambda>(emitted, s1). case emitted of Some tx \<Rightarrow> Inr (Some tx, s1) | None \<Rightarrow> matchmake E pairs s1)"

text \<open>
  Waiting for synchronisation and for the end of a rollback: the result says whether matchmaking
  may go on.
\<close>

fun blocker_ready :: "bool \<Rightarrow> bool \<Rightarrow> blocker \<Rightarrow> bool" where
  "blocker_ready synced rollback Until_synced = synced"
| "blocker_ready synced rollback Until_no_rollback = (\<not> rollback)"

definition pass_blockers :: "bool \<Rightarrow> bool \<Rightarrow> blocker option \<Rightarrow> bool \<times> blocker option" where
  "pass_blockers synced rollback b =
     (if (case b of Some w \<Rightarrow> \<not> blocker_ready synced rollback w | None \<Rightarrow> False) then (False, b)
      else if \<not> synced then (False, Some Until_synced)
      else if rollback then (False, Some Until_no_rollback)
      else (True, None))"

definition after_events where
  "after_events E synced rollback funding feedback s =
     (let s3 = fold on_funding_event funding s;
          (go_on, b) = pass_blockers synced rollback (ex_blocker s3);
          s4 = s3\<lparr>ex_blocker := b\<rparr>
      in if go_on
         then map_sum id (\<lambda>(emitted, s5). (emitted, feedback, s5)) (matchmake E (fs_queue (ex_focus_set s4)) s4)
         else Inr (None, feedback, s4))"

definition poll_next where
  "poll_next E synced rollback feedback upstream funding s =
     and_then (settle_feedback E feedback s) (\<lambda>(feedback', s1).
       and_then (fold_res (on_pair_event E) upstream s1) (after_events E synced rollback funding feedback'))"

subsection \<open>The stream\<close>

text \<open>
  \<open>execution_part_stream\<close>: a transaction that a poll emits is submitted and its result sent to the
  feedback channel before the next poll; the report goes out if the network took the transaction.
  Meanwhile anything may arrive.
\<close>

record ('pair, 'th, 'co, 'p, 'so, 'v, 'b, 'book, 'bl, 'err, 'tx, 'sid, 'ev, 'cx) engine =
  eg_executor :: "('pair, 'th, 'co, 'p, 'so, 'v, 'b, 'book, 'bl) executor"
  eg_feedback :: "('err + unit) list"
  eg_upstream :: "('pair \<times> ((('co, 'p, 'v, 'b) evolving transition, 'cx) channel +
     ((('so, 'b) bundled, 'so) order_update, 'cx) channel)) list"
  eg_funding :: "'b funding_event list"
  eg_synced :: bool
  eg_rollback :: bool
  eg_submitted :: "'tx list"
  eg_reports :: "('sid, 'v, 'th, 'pair, 'ev) execution_report list"

datatype ('pe, 'fe, 'err) engine_action =
    Arrives 'pe | Funding_arrives 'fe | Set_synced bool | Set_rollback bool | Poll "'err + unit"

fun engine_step where
  "engine_step E (Arrives ev) g = Inr (g\<lparr>eg_upstream := eg_upstream g @ [ev]\<rparr>)"
| "engine_step E (Funding_arrives ev) g = Inr (g\<lparr>eg_funding := eg_funding g @ [ev]\<rparr>)"
| "engine_step E (Set_synced f) g = Inr (g\<lparr>eg_synced := f\<rparr>)"
| "engine_step E (Set_rollback f) g = Inr (g\<lparr>eg_rollback := f\<rparr>)"
| "engine_step E (Poll submit_result) g =
     map_sum id
       (\<lambda>(emitted, feedback, s).
          (let g1 = g\<lparr>eg_executor := s, eg_feedback := feedback, eg_upstream := [], eg_funding := []\<rparr>
           in case emitted of
                None \<Rightarrow> g1
              | Some (tx, maybe_report) \<Rightarrow>
                  g1\<lparr>eg_submitted := eg_submitted g1 @ [tx],
                     eg_reports := eg_reports g1 @
                       (case maybe_report of Some r \<Rightarrow> if isl submit_result then [] else [r] | None \<Rightarrow> []),
                     eg_feedback := eg_feedback g1 @ [submit_result]\<rparr>))
       (poll_next E (eg_synced g) (eg_rollback g) (eg_feedback g) (eg_upstream g) (eg_funding g) (eg_executor g))"

definition engine_new where
  "engine_new = \<lparr> eg_executor = executor_new, eg_feedback = [], eg_upstream = [], eg_funding = [],
     eg_synced = False, eg_rollback = False, eg_submitted = [], eg_reports = [] \<rparr>"

end
