(* ===== verification/State_Index_Spec.thy ===== *)
theory State_Index_Spec
  imports State_Index
begin

text \<open>
  The state index refines its slots: every operation of \<open>State_Index\<close> keeps the two maps
  consistent (\<open>si_ok\<close>) and acts on the slots as its name says.
\<close>

lemmas state_key_defs = all_state_keys_def ephemeral_state_keys_def last_confirmed_prefix_def
  last_unconfirmed_prefix_def last_predicted_prefix_def fallback_prefix_def

lemma index_key_inject [simp]: "index_key S p i = index_key S q j \<longleftrightarrow> p = q \<and> sn_key S i = sn_key S j"
  by (simp add: index_key_def)

lemma set_map_filter: "y \<in> set (List.map_filter f xs) \<longleftrightarrow> (\<exists>x \<in> set xs. f x = Some y)"
  by (induction xs) (auto simp: List.map_filter_simps split: option.splits)

lemma si_ok_new: "si_ok S U si_new"
  by (simp add: si_ok_def si_new_def)

lemma si_okD_index:
  assumes "si_ok S U si" "si_index si key = Some v"
  obtains p e where "p \<in> set all_state_keys" "e \<in> U" "key = index_key S p (sn_id S e)"
    "si_store si v = Some e" "sn_ver S e = v"
  using assms unfolding si_ok_def by blast

lemma si_okD_store:
  assumes "si_ok S U si" "si_store si v = Some e"
  shows "e \<in> U" "sn_ver S e = v" "\<exists>p \<in> set all_state_keys. si_index si (index_key S p (sn_id S e)) = Some v"
  using assms unfolding si_ok_def by blast+

lemma si_okI:
  assumes "\<And>key v. si_index si key = Some v \<Longrightarrow>
      \<exists>p \<in> set all_state_keys. \<exists>e \<in> U. key = index_key S p (sn_id S e) \<and> si_store si v = Some e \<and> sn_ver S e = v"
    and "\<And>v e. si_store si v = Some e \<Longrightarrow>
      e \<in> U \<and> sn_ver S e = v \<and> (\<exists>p \<in> set all_state_keys. si_index si (index_key S p (sn_id S e)) = Some v)"
  shows "si_ok S U si"
  using assms unfolding si_ok_def by blast

text \<open>Two keys bound to one version belong to one entity.\<close>

lemma same_version_same_key:
  assumes "si_ok S U si" "si_index si (index_key S p i) = Some v" "si_store si v = Some e"
  shows "sn_key S i = sn_key S (sn_id S e)"
  using si_okD_index [OF assms(1,2)] assms(3) by (metis index_key_inject option.inject)

lemma si_put_ok:
  assumes ok: "si_ok S U si" and U: "e \<in> U" "unique_versions S U" and p: "p \<in> set all_state_keys"
  shows "si_ok S U (si_put S p (sn_id S e) e si)" and
    "slot (si_put S p (sn_id S e) e si) = (slot si)(index_key S p (sn_id S e) \<mapsto> e)"
proof -
  let ?k = "index_key S p (sn_id S e)" and ?v = "sn_ver S e"
  let ?bound = "set (List.map_filter (\<lambda>q. if q \<noteq> p then si_index si (index_key S q (sn_id S e)) else None) all_state_keys)"
  let ?si = "si_put S p (sn_id S e) e si"
  have bound: "w \<in> ?bound \<longleftrightarrow> (\<exists>q \<in> set all_state_keys. q \<noteq> p \<and> si_index si (index_key S q (sn_id S e)) = Some w)" for w
    unfolding set_map_filter by (auto split: if_splits)
  have index: "si_index ?si = (si_index si)(?k \<mapsto> ?v)" by (simp add: si_put_def Let_def)
  have store: "si_store ?si w = (if w = ?v then Some e
      else if si_index si ?k = Some w \<and> w \<notin> ?bound then None else si_store si w)" for w
    by (auto simp: si_put_def Let_def split: option.splits)
  have keep: "si_store ?si w = Some e'"
    if key: "si_index si key = Some w" "key \<noteq> ?k" and e': "si_store si w = Some e'" for key w e'
  proof (cases "w = ?v")
    case True
    then have "e' = e" using si_okD_store(1,2) [OF ok e'] U unfolding unique_versions_def by (metis inj_onD)
    then show ?thesis using True by (simp add: store)
  next
    case False
    have "w \<in> ?bound" if k: "si_index si ?k = Some w"
    proof -
      have same: "sn_key S (sn_id S e) = sn_key S (sn_id S e')" by (rule same_version_same_key [OF ok k e'])
      obtain q e2 where q: "q \<in> set all_state_keys" "key = index_key S q (sn_id S e2)" "si_store si w = Some e2"
        using si_okD_index [OF ok key(1)] by metis
      then have "key = index_key S q (sn_id S e)" using same e' by simp
      then have "si_index si (index_key S q (sn_id S e)) = Some w" "q \<noteq> p" using key by auto
      then show ?thesis using q(1) unfolding bound by blast
    qed
    then show ?thesis using False e' by (auto simp: store)
  qed
  show "si_ok S U ?si"
  proof (rule si_okI)
    fix key v assume a: "si_index ?si key = Some v"
    show "\<exists>p \<in> set all_state_keys. \<exists>e \<in> U. key = index_key S p (sn_id S e) \<and> si_store ?si v = Some e \<and> sn_ver S e = v"
    proof (cases "key = ?k")
      case True then show ?thesis using a U p by (auto simp: index store)
    next
      case False
      then have b: "si_index si key = Some v" using a by (simp add: index)
      then show ?thesis using keep [OF b False] si_okD_index [OF ok b] by metis
    qed
  next
    fix v e' assume a: "si_store ?si v = Some e'"
    show "e' \<in> U \<and> sn_ver S e' = v \<and> (\<exists>q \<in> set all_state_keys. si_index ?si (index_key S q (sn_id S e')) = Some v)"
    proof (cases "v = ?v")
      case True
      then have "e' = e" using a by (simp add: store)
      then show ?thesis using True U by (intro conjI bexI [OF _ p]) (simp_all add: index)
    next
      case False
      then have b: "si_store si v = Some e'" and c: "\<not> (si_index si ?k = Some v \<and> v \<notin> ?bound)"
        using a by (auto simp: store split: if_splits)
      obtain q where q: "q \<in> set all_state_keys" "si_index si (index_key S q (sn_id S e')) = Some v"
        using si_okD_store(3) [OF ok b] by blast
      show ?thesis
      proof (cases "index_key S q (sn_id S e') = ?k")
        case True
        then have "si_index si ?k = Some v" using q(2) by (simp only:)
        then have "v \<in> ?bound" using c by blast
        then obtain q' where q': "q' \<in> set all_state_keys" "q' \<noteq> p" "si_index si (index_key S q' (sn_id S e)) = Some v"
          unfolding bound by blast
        have k': "index_key S q' (sn_id S e') = index_key S q' (sn_id S e)" using True by simp
        have "si_index ?si (index_key S q' (sn_id S e')) = Some v"
          unfolding k' index using q'(2,3) by simp
        then show ?thesis using q'(1) si_okD_store(1,2) [OF ok b] by blast
      next
        case False
        then have "si_index ?si (index_key S q (sn_id S e')) = Some v"
          using q(2) by (simp only: index fun_upd_apply if_False)
        then show ?thesis using q(1) si_okD_store(1,2) [OF ok b] by blast
      qed
    qed
  qed
  show "slot ?si = (slot si)(?k \<mapsto> e)"
  proof (rule ext)
    fix key
    show "slot ?si key = ((slot si)(?k \<mapsto> e)) key"
    proof (cases "key = ?k")
      case False
      show ?thesis
      proof (cases "si_index si key")
        case (Some w)
        then obtain e' where "si_store si w = Some e'" using si_okD_index [OF ok Some] by metis
        then show ?thesis using keep [OF Some False] Some False by (simp add: slot_def index)
      qed (use False in \<open>simp add: slot_def index\<close>)
    qed (simp add: slot_def index store)
  qed
qed

text \<open>
  A put keeps the maps consistent also if a version may come in several states, as long as these are
  states of one entity: the last one put is the one found.
\<close>

definition versions_identify :: "('e, 'sid, 'v) snapshot_ops \<Rightarrow> 'e set \<Rightarrow> bool" where
  "versions_identify S U \<longleftrightarrow>
     (\<forall>e \<in> U. \<forall>e' \<in> U. sn_ver S e = sn_ver S e' \<longrightarrow> sn_key S (sn_id S e) = sn_key S (sn_id S e'))"

lemma si_put_ok_ids:
  assumes ok: "si_ok S U si" and U: "e \<in> U" "versions_identify S U" and p: "p \<in> set all_state_keys"
  shows "si_ok S U (si_put S p (sn_id S e) e si)"
proof -
  let ?k = "index_key S p (sn_id S e)" and ?v = "sn_ver S e"
  let ?bound = "set (List.map_filter (\<lambda>q. if q \<noteq> p then si_index si (index_key S q (sn_id S e)) else None) all_state_keys)"
  let ?si = "si_put S p (sn_id S e) e si"
  have bound: "w \<in> ?bound \<longleftrightarrow> (\<exists>q \<in> set all_state_keys. q \<noteq> p \<and> si_index si (index_key S q (sn_id S e)) = Some w)" for w
    unfolding set_map_filter by (auto split: if_splits)
  have index: "si_index ?si = (si_index si)(?k \<mapsto> ?v)" by (simp add: si_put_def Let_def)
  have store: "si_store ?si w = (if w = ?v then Some e
      else if si_index si ?k = Some w \<and> w \<notin> ?bound then None else si_store si w)" for w
    by (auto simp: si_put_def Let_def split: option.splits)
  show ?thesis
  proof (rule si_okI)
    fix key v assume a: "si_index ?si key = Some v"
    show "\<exists>p \<in> set all_state_keys. \<exists>e \<in> U. key = index_key S p (sn_id S e) \<and> si_store ?si v = Some e \<and> sn_ver S e = v"
    proof (cases "key = ?k")
      case True then show ?thesis using a U p by (auto simp: index store)
    next
      case False
      then have b: "si_index si key = Some v" using a by (simp add: index)
      from si_okD_index [OF ok b] obtain q e' where q: "q \<in> set all_state_keys" "e' \<in> U"
        "key = index_key S q (sn_id S e')" "si_store si v = Some e'" "sn_ver S e' = v" .
      show ?thesis
      proof (cases "v = ?v")
        case True
        then have "sn_key S (sn_id S e') = sn_key S (sn_id S e)"
          using q(2,5) U unfolding versions_identify_def by metis
        then have "key = index_key S q (sn_id S e)" by (simp add: q(3))
        then show ?thesis using True q(1) U(1) by (auto simp: store)
      next
        case other: False
        have "v \<in> ?bound" if k: "si_index si ?k = Some v"
        proof -
          have "sn_key S (sn_id S e) = sn_key S (sn_id S e')" by (rule same_version_same_key [OF ok k q(4)])
          then have "key = index_key S q (sn_id S e)" by (simp add: q(3))
          then have "si_index si (index_key S q (sn_id S e)) = Some v" "q \<noteq> p" using b False by auto
          then show ?thesis using q(1) unfolding bound by blast
        qed
        then have "si_store ?si v = Some e'" using other q(4) by (auto simp: store)
        then show ?thesis using q by blast
      qed
    qed
  next
    fix v e' assume a: "si_store ?si v = Some e'"
    show "e' \<in> U \<and> sn_ver S e' = v \<and> (\<exists>q \<in> set all_state_keys. si_index ?si (index_key S q (sn_id S e')) = Some v)"
    proof (cases "v = ?v")
      case True
      then have "e' = e" using a by (simp add: store)
      then show ?thesis using True U by (intro conjI bexI [OF _ p]) (simp_all add: index)
    next
      case False
      then have b: "si_store si v = Some e'" and c: "si_index si ?k = Some v \<Longrightarrow> v \<in> ?bound"
        using a by (auto simp: store split: if_splits)
      obtain q where q: "q \<in> set all_state_keys" "si_index si (index_key S q (sn_id S e')) = Some v"
        using si_okD_store(3) [OF ok b] by blast
      have "\<exists>q \<in> set all_state_keys. index_key S q (sn_id S e') \<noteq> ?k \<and> si_index si (index_key S q (sn_id S e')) = Some v"
      proof (cases "index_key S q (sn_id S e') = ?k")
        case True
        then have "si_index si ?k = Some v" using q(2) by (simp only:)
        from c [OF this] obtain q' where "q' \<in> set all_state_keys" "q' \<noteq> p" "si_index si (index_key S q' (sn_id S e)) = Some v"
          unfolding bound by blast
        moreover have "index_key S q' (sn_id S e') = index_key S q' (sn_id S e)" using True by simp
        ultimately show ?thesis by (metis index_key_inject)
      qed (use q in blast)
      then have "\<exists>q \<in> set all_state_keys. si_index ?si (index_key S q (sn_id S e')) = Some v"
        unfolding index by (metis fun_upd_other)
      then show ?thesis using si_okD_store(1,2) [OF ok b] by blast
    qed
  qed
qed

lemma si_ok_mono: "si_ok S U si \<Longrightarrow> U \<subseteq> U' \<Longrightarrow> si_ok S U' si"
  unfolding si_ok_def by (meson subsetD)

lemma si_get_slot: "si_get S p i si = slot si (index_key S p i)"
  by (simp add: si_get_def slot_def)

text \<open>Dropping the bindings of a version of one entity.\<close>

lemma drop_binding_apply:
  "drop_binding S i v p index key = (if index key = Some v \<and> key = index_key S p i then None else index key)"
  by (simp add: drop_binding_def)

lemma if_None_collapse:
  "(if (if x = Some v \<and> b then None else x) = Some v \<and> c then None else (if x = Some v \<and> b then None else x)) =
     (if x = Some v \<and> (b \<or> c) then None else x)"
  by auto

lemma fold_drop_binding:
  "fold (drop_binding S i v) ps index key =
     (if index key = Some v \<and> (\<exists>p \<in> set ps. key = index_key S p i) then None else index key)"
proof (induction ps arbitrary: index)
  case (Cons p ps)
  have "fold (drop_binding S i v) (p # ps) index key =
      (if drop_binding S i v p index key = Some v \<and> (\<exists>p \<in> set ps. key = index_key S p i) then None
       else drop_binding S i v p index key)"
    using Cons.IH [of "drop_binding S i v p index"] by (simp only: fold_simps)
  then show ?case unfolding drop_binding_apply if_None_collapse by simp
qed simp

lemma invalidate_ok:
  assumes ok: "si_ok S U si" and v: "si_store si v = Some e"
  shows "si_ok S U (snd (invalidate_version S v si))" (is "si_ok S U ?si")
    and "slot (snd (invalidate_version S v si)) =
      (\<lambda>key. case slot si key of
           Some e' \<Rightarrow> if sn_ver S e' = v \<and> \<not> (sn_qp S e' \<and> key = index_key S last_confirmed_prefix (sn_id S e'))
                      then None else Some e'
         | None \<Rightarrow> None)"
    and "fst (invalidate_version S v si) = Some (sn_id S e)"
proof -
  let ?c = "index_key S last_confirmed_prefix (sn_id S e)"
  define stays where "stays \<longleftrightarrow> si_index si ?c = Some v \<and> sn_qp S e"
  have e: "e \<in> U" "sn_ver S e = v" using si_okD_store [OF ok v] by auto
  have index: "si_index ?si key = (if si_index si key = Some v \<and> \<not> (stays \<and> key = ?c) then None else si_index si key)" for key
  proof (cases "si_index si key = Some v")
    case True
    then obtain p e' where p: "p \<in> set all_state_keys" "key = index_key S p (sn_id S e')" "si_store si v = Some e'"
      using si_okD_index [OF ok] by metis
    then have "key = index_key S p (sn_id S e)" using v by simp
    then show ?thesis
      using True p(1) v unfolding stays_def
      by (cases "si_index si ?c = Some v"; cases "sn_qp S e")
        (auto simp: invalidate_version_def Let_def drop_binding_apply state_key_defs)
  next
    case False
    then show ?thesis
      using v by (cases "si_index si ?c = Some v"; cases "sn_qp S e")
        (auto simp: invalidate_version_def Let_def drop_binding_apply state_key_defs)
  qed
  have store: "si_store ?si w = (if w = v \<and> \<not> stays then None else si_store si w)" for w
    using v unfolding stays_def by (cases "si_index si ?c = Some v"; cases "sn_qp S e") (auto simp: invalidate_version_def Let_def)
  show "si_ok S U ?si"
  proof (rule si_okI)
    fix key w assume "si_index ?si key = Some w"
    then have a: "si_index si key = Some w" "w = v \<longrightarrow> stays" by (auto simp: index split: if_splits)
    then show "\<exists>p \<in> set all_state_keys. \<exists>e \<in> U. key = index_key S p (sn_id S e) \<and> si_store ?si w = Some e \<and> sn_ver S e = w"
      using si_okD_index [OF ok a(1)] store by metis
  next
    fix w e' assume "si_store ?si w = Some e'"
    then have a: "si_store si w = Some e'" "w = v \<longrightarrow> stays" by (auto simp: store split: if_splits)
    note b = si_okD_store [OF ok a(1)]
    have "\<exists>p \<in> set all_state_keys. si_index ?si (index_key S p (sn_id S e')) = Some w"
    proof (cases "w = v")
      case True
      then have "e' = e" using a v by simp
      then show ?thesis using a True by (auto simp: index stays_def state_key_defs)
    next
      case False then show ?thesis using b(3) index by (metis option.inject)
    qed
    then show "e' \<in> U \<and> sn_ver S e' = w \<and> (\<exists>p \<in> set all_state_keys. si_index ?si (index_key S p (sn_id S e')) = Some w)"
      using b by blast
  qed
  show "slot ?si = (\<lambda>key. case slot si key of
           Some e' \<Rightarrow> if sn_ver S e' = v \<and> \<not> (sn_qp S e' \<and> key = index_key S last_confirmed_prefix (sn_id S e'))
                      then None else Some e'
         | None \<Rightarrow> None)"
  proof (rule ext)
    fix key
    show "slot ?si key = (case slot si key of
           Some e' \<Rightarrow> if sn_ver S e' = v \<and> \<not> (sn_qp S e' \<and> key = index_key S last_confirmed_prefix (sn_id S e'))
                      then None else Some e'
         | None \<Rightarrow> None)"
    proof (cases "si_index si key")
      case None then show ?thesis by (simp add: slot_def index)
    next
      case (Some w)
      then obtain e' where e': "si_store si w = Some e'" "sn_ver S e' = w" using si_okD_index [OF ok] by metis
      show ?thesis
      proof (cases "w = v")
        case True
        then have "e' = e" using e' v by simp
        then show ?thesis using True Some e' v by (auto simp: slot_def index store stays_def)
      next
        case False then show ?thesis using Some e' by (auto simp: slot_def index store)
      qed
    qed
  qed
  show "fst (invalidate_version S v si) = Some (sn_id S e)"
    using v by (simp add: invalidate_version_def Let_def split: prod.splits)
qed


definition eliminate_key ::
    "('e, 'sid, 'v) snapshot_ops \<Rightarrow> 'sid \<Rightarrow> byte \<Rightarrow> ('e, 'v) state_index \<Rightarrow> ('e, 'v) state_index" where
  "eliminate_key S sid p si = (case si_index si (index_key S p sid) of
       Some ver \<Rightarrow> \<lparr> si_store = (si_store si)(ver := None), si_index = (si_index si)(index_key S p sid := None) \<rparr>
     | None \<Rightarrow> si)"

text \<open>Between two keys the store may lack versions of the entity, and of no other.\<close>

lemma eliminate_keys:
  assumes "si_ok S U si"
    and "\<forall>key. si_index si' key = (if \<exists>q \<in> Q. key = index_key S q sid then None else si_index si key)"
    and "\<forall>v. si_store si' v = (if \<exists>q \<in> Q. si_index si (index_key S q sid) = Some v then None else si_store si v)"
  shows "(\<forall>key. si_index (fold (eliminate_key S sid) ps si') key =
      (if \<exists>q \<in> Q \<union> set ps. key = index_key S q sid then None else si_index si key)) \<and>
    (\<forall>v. si_store (fold (eliminate_key S sid) ps si') v =
      (if \<exists>q \<in> Q \<union> set ps. si_index si (index_key S q sid) = Some v then None else si_store si v))"
  using assms(2,3)
proof (induction ps arbitrary: si' Q)
  case (Cons p ps)
  let ?si = "eliminate_key S sid p si'"
  have "\<forall>key. si_index ?si key = (if \<exists>q \<in> insert p Q. key = index_key S q sid then None else si_index si key)"
    using Cons.prems by (simp add: eliminate_key_def split: option.splits)
  moreover have "\<forall>v. si_store ?si v =
      (if \<exists>q \<in> insert p Q. si_index si (index_key S q sid) = Some v then None else si_store si v)"
    using Cons.prems by (auto simp: eliminate_key_def split: option.splits)
  ultimately show ?case
    using Cons.IH [of ?si "insert p Q"] by simp
qed simp

lemma eliminate_ok:
  assumes ok: "si_ok S U si"
  shows "si_ok S U (eliminate S sid si)"
    and "slot (eliminate S sid si) = (\<lambda>key. if \<exists>p \<in> set all_state_keys. key = index_key S p sid then None else slot si key)"
proof -
  let ?si = "eliminate S sid si"
  have f: "?si = fold (eliminate_key S sid) all_state_keys si"
    by (simp add: eliminate_def eliminate_key_def [abs_def])
  have index: "si_index ?si key = (if \<exists>q \<in> set all_state_keys. key = index_key S q sid then None else si_index si key)" for key
    unfolding f using eliminate_keys [OF ok, of si "{}" sid all_state_keys] by simp
  have store: "si_store ?si v =
      (if \<exists>q \<in> set all_state_keys. si_index si (index_key S q sid) = Some v then None else si_store si v)" for v
    unfolding f using eliminate_keys [OF ok, of si "{}" sid all_state_keys] by simp
  have keep: "si_store ?si v = si_store si v"
    if a: "si_index si key = Some v" "\<not> (\<exists>q \<in> set all_state_keys. key = index_key S q sid)" for key v
  proof -
    obtain p e where p: "p \<in> set all_state_keys" "key = index_key S p (sn_id S e)" "si_store si v = Some e"
      using si_okD_index [OF ok a(1)] by metis
    have "si_index si (index_key S q sid) \<noteq> Some v" if q: "q \<in> set all_state_keys" for q
    proof
      assume "si_index si (index_key S q sid) = Some v"
      then have "sn_key S sid = sn_key S (sn_id S e)" using same_version_same_key [OF ok _ p(3)] by simp
      then show False using a(2) p(1,2) by simp
    qed
    then show ?thesis by (auto simp: store)
  qed
  show "si_ok S U ?si"
  proof (rule si_okI)
    fix key v assume "si_index ?si key = Some v"
    then have a: "si_index si key = Some v" "\<not> (\<exists>q \<in> set all_state_keys. key = index_key S q sid)"
      by (auto simp: index split: if_splits)
    then show "\<exists>p \<in> set all_state_keys. \<exists>e \<in> U. key = index_key S p (sn_id S e) \<and> si_store ?si v = Some e \<and> sn_ver S e = v"
      using si_okD_index [OF ok a(1)] keep by metis
  next
    fix v e assume "si_store ?si v = Some e"
    then have a: "si_store si v = Some e" "\<not> (\<exists>q \<in> set all_state_keys. si_index si (index_key S q sid) = Some v)"
      by (auto simp: store split: if_splits)
    note b = si_okD_store [OF ok a(1)]
    then obtain p where p: "p \<in> set all_state_keys" "si_index si (index_key S p (sn_id S e)) = Some v" by blast
    have "\<not> (\<exists>q \<in> set all_state_keys. index_key S p (sn_id S e) = index_key S q sid)"
      using a(2) p by metis
    then show "e \<in> U \<and> sn_ver S e = v \<and> (\<exists>p \<in> set all_state_keys. si_index ?si (index_key S p (sn_id S e)) = Some v)"
      using b p index by metis
  qed
  show "slot ?si = (\<lambda>key. if \<exists>p \<in> set all_state_keys. key = index_key S p sid then None else slot si key)"
  proof (rule ext)
    fix key
    show "slot ?si key = (if \<exists>p \<in> set all_state_keys. key = index_key S p sid then None else slot si key)"
    proof (cases "si_index si key")
      case None then show ?thesis by (simp add: slot_def index)
    next
      case (Some v) then show ?thesis using keep [OF Some] by (auto simp: slot_def index)
    qed
  qed
qed

lemma exists_slot:
  assumes ok: "si_ok S U si"
  shows "get_state v si = Some e \<longleftrightarrow> sn_ver S e = v \<and> (\<exists>key. slot si key = Some e)"
proof
  assume "get_state v si = Some e"
  then have s: "si_store si v = Some e" by (simp add: get_state_def)
  then obtain p where "si_index si (index_key S p (sn_id S e)) = Some v" using si_okD_store(3) [OF ok s] by blast
  then have "slot si (index_key S p (sn_id S e)) = Some e" using s by (simp add: slot_def)
  then show "sn_ver S e = v \<and> (\<exists>key. slot si key = Some e)" using si_okD_store(2) [OF ok s] by blast
next
  assume a: "sn_ver S e = v \<and> (\<exists>key. slot si key = Some e)"
  then obtain key w where "si_index si key = Some w" "si_store si w = Some e"
    by (auto simp: slot_def bind_eq_Some_conv)
  then show "get_state v si = Some e" using a si_okD_store(2) [OF ok] by (auto simp: get_state_def)
qed

text \<open>
  C14. The state index is four slots per entity, for its confirmed, unconfirmed, predicted and
  fallback state. As long as a version belongs to one state, every operation keeps the two hash
  maps consistent, without a version in the store that no slot shows: a put overwrites one slot and
  no other, eliminating an entity clears exactly its slots, invalidating a version clears exactly
  the slots that hold it, except the confirmed slot of a quasi-permanent entity, a version is found
  iff some slot shows it, and the current state is the first of predicted, unconfirmed, fallback
  and confirmed.
\<close>

theorem state_index_refines_slots:
  assumes "si_ok S U si" "unique_versions S U"
  shows "(\<forall>e \<in> U. \<forall>p \<in> set all_state_keys.
        slot (si_put S p (sn_id S e) e si) = (slot si)(index_key S p (sn_id S e) \<mapsto> e) \<and>
        si_ok S U (si_put S p (sn_id S e) e si)) \<and>
     slot (eliminate S sid si) = (\<lambda>key. if \<exists>p \<in> set all_state_keys. key = index_key S p sid then None else slot si key) \<and>
     si_ok S U (eliminate S sid si) \<and>
     slot (snd (invalidate_version S v si)) =
       (\<lambda>key. case slot si key of
            Some e \<Rightarrow> if sn_ver S e = v \<and> \<not> (sn_qp S e \<and> key = index_key S last_confirmed_prefix (sn_id S e))
                      then None else Some e
          | None \<Rightarrow> None) \<and>
     si_ok S U (snd (invalidate_version S v si)) \<and>
     (\<forall>e. get_state v si = Some e \<longleftrightarrow> sn_ver S e = v \<and> (\<exists>key. slot si key = Some e)) \<and>
     resolve_state S sid si =
       or_else (or_else (or_else (slot si (index_key S last_predicted_prefix sid))
         (slot si (index_key S last_unconfirmed_prefix sid))) (slot si (index_key S fallback_prefix sid)))
         (slot si (index_key S last_confirmed_prefix sid))"
proof -
  have inv: "slot (snd (invalidate_version S v si)) =
       (\<lambda>key. case slot si key of
            Some e \<Rightarrow> if sn_ver S e = v \<and> \<not> (sn_qp S e \<and> key = index_key S last_confirmed_prefix (sn_id S e))
                      then None else Some e
          | None \<Rightarrow> None) \<and> si_ok S U (snd (invalidate_version S v si))"
  proof (cases "si_store si v")
    case None
    then have "slot si key = Some e \<Longrightarrow> sn_ver S e \<noteq> v" for key e
      using exists_slot [OF assms(1), of v e] by (auto simp: get_state_def)
    then show ?thesis using None assms(1)
      by (auto simp: invalidate_version_def fun_eq_iff split: option.splits)
  next
    case (Some e) then show ?thesis using invalidate_ok [OF assms(1) Some] by blast
  qed
  show ?thesis
    using si_put_ok [OF assms(1) _ assms(2)] eliminate_ok [OF assms(1)] inv exists_slot [OF assms(1)]
    by (simp add: resolve_state_def get_last_confirmed_def get_last_unconfirmed_def get_last_predicted_def
        get_fallback_def si_get_slot)
qed

definition pair_entities :: "(nat \<times> nat, nat, nat) snapshot_ops" where
  "pair_entities = \<lparr> sn_id = fst, sn_qp = (\<lambda>_. False), sn_ver = snd, sn_key = (\<lambda>_. []) \<rparr>"

text \<open>An unconfirmed version 8 over a confirmed version 7: invalidating it leaves version 7.\<close>

lemma state_index_refines_slots_witness:
  "resolve_state pair_entities 2 (snd (invalidate_version pair_entities 8
     (put_unconfirmed pair_entities (2, 8) (put_confirmed pair_entities (2, 7) si_new)))) = Some (2, 7)"
proof -
  let ?U = "{(2, 7), (2, 8)} :: (nat \<times> nat) set"
  have u: "unique_versions pair_entities ?U" by (simp add: unique_versions_def pair_entities_def)
  have id: "sn_id pair_entities e = fst e" "sn_ver pair_entities e = snd e" "sn_qp pair_entities e = False" for e
    by (simp_all add: pair_entities_def)
  define i1 where "i1 = si_put pair_entities last_confirmed_prefix 2 (2, 7) si_new"
  define i2 where "i2 = si_put pair_entities last_unconfirmed_prefix 2 (2, 8) i1"
  note r = state_index_refines_slots [OF _ u]
  have s1: "si_ok pair_entities ?U i1 \<and> slot i1 = (slot (si_new :: (nat \<times> nat, nat) state_index))(index_key pair_entities last_confirmed_prefix 2 \<mapsto> (2, 7))"
    using bspec [OF bspec [OF conjunct1 [OF r [OF si_ok_new]], of "(2, 7)"], of last_confirmed_prefix]
    unfolding i1_def by (simp add: id all_state_keys_def)
  then have s2: "si_ok pair_entities ?U i2 \<and> slot i2 = (slot i1)(index_key pair_entities last_unconfirmed_prefix 2 \<mapsto> (2, 8))"
    using bspec [OF bspec [OF conjunct1 [OF r [OF conjunct1 [OF s1]]], of "(2, 8)"], of last_unconfirmed_prefix]
    unfolding i2_def by (simp add: id all_state_keys_def)
  let ?i = "snd (invalidate_version pair_entities 8 i2)"
  have i2: "slot i2 = (\<lambda>key. if key = index_key pair_entities last_unconfirmed_prefix 2 then Some (2, 8)
      else if key = index_key pair_entities last_confirmed_prefix 2 then Some (2, 7) else None)"
    using s1 s2 by (simp add: fun_eq_iff slot_def si_new_def)
  from r [OF conjunct1 [OF s2]] have inv: "slot ?i = (\<lambda>key. case slot i2 key of
        Some e \<Rightarrow> if sn_ver pair_entities e = 8 \<and>
            \<not> (sn_qp pair_entities e \<and> key = index_key pair_entities last_confirmed_prefix (sn_id pair_entities e))
          then None else Some e
      | None \<Rightarrow> None) \<and> si_ok pair_entities ?U ?i" by blast
  then have s3: "slot ?i = (\<lambda>key. if key = index_key pair_entities last_confirmed_prefix 2 then Some (2, 7) else None)"
    by (auto simp: id i2 fun_eq_iff state_key_defs)
  from r [OF conjunct2 [OF inv], of 2] have "resolve_state pair_entities 2 ?i = Some (2, 7)"
    unfolding s3 by (simp add: or_else_def state_key_defs)
  then show ?thesis by (simp add: i1_def i2_def put_unconfirmed_def put_confirmed_def id)
qed

end
