(* ===== verification/Engine_Spec.thy ===== *)
theory Engine_Spec
  imports Engine State_Index_Spec Lb_Book
begin

text \<open>
  The executor does not panic on its own. Its panics are an event for a book that is not at rest,
  an entity that turned from a pool into an order, and an input of a rejected transaction that the
  index does not know. The client below shows that none of them can happen with any book that
  settles (\<open>engine_book\<close>), and the liquidity book of the program is one. What the book, the
  backlog and the report do themselves is left to their own theories: here, an attempt that
  panics is a step that fails.
\<close>

subsection \<open>Results\<close>

text \<open>A step is fine if it gives a result with the property, or a call outside the executor failed.\<close>

fun fine :: "('a \<Rightarrow> bool) \<Rightarrow> 'a res \<Rightarrow> bool" where
  "fine P (Inl e) = (e = Attempt_failed \<or> e = Backlog_failed \<or> e = Report_failed)"
| "fine P (Inr x) = P x"

lemma fine_mono: "fine P r \<Longrightarrow> (\<And>x. P x \<Longrightarrow> Q x) \<Longrightarrow> fine Q r"
  by (cases r) auto

lemma fine_and_then:
  assumes "fine P r" "\<And>x. P x \<Longrightarrow> fine Q (f x)"
  shows "fine Q (and_then r f)"
  using assms by (cases r) auto

lemma fine_map_sum [simp]: "fine P (map_sum id f r) = fine (\<lambda>x. P (f x)) r"
  by (cases r) auto

lemma fine_fold_res:
  assumes "P s" "\<And>x s. x \<in> set xs \<Longrightarrow> P s \<Longrightarrow> fine P (f x s)"
  shows "fine P (fold_res f xs s)"
  using assms
proof (induction xs arbitrary: s)
  case (Cons x xs)
  have "fine P (f x s)" using Cons.prems by simp
  then show ?case using Cons by (auto intro: fine_and_then)
qed simp

text \<open>
  The entities of a run: those that arrived and those that the transactions of the run were predicted
  to leave. Of these, states with the same version are states of the same entity, and an
  entity is an order or a pool for good.
\<close>

definition well_kinded where
  "well_kinded E U \<longleftrightarrow> versions_identify (evolving_ops E) U \<and>
     (\<forall>e \<in> U. \<forall>e' \<in> U. sn_key (evolving_ops E) (sn_id (evolving_ops E) e) = sn_key (evolving_ops E) (sn_id (evolving_ops E) e') \<longrightarrow>
        isl (bd_entity e) = isl (bd_entity e'))"

lemma well_kinded_mono: "well_kinded E U' \<Longrightarrow> U \<subseteq> U' \<Longrightarrow> well_kinded E U"
  unfolding well_kinded_def versions_identify_def by (meson subsetD)

fun new_states :: "'a transition \<Rightarrow> 'a set" where
  "new_states (Forward (Right e)) = {e}"
| "new_states (Forward (Both _ e)) = {e}"
| "new_states (Backward (Right e)) = {e}"
| "new_states (Backward (Both _ e)) = {e}"
| "new_states _ = {}"

fun event_states where
  "event_states (pair, Inl u) = new_states (ch_erased u)"
| "event_states (pair, Inr u) = {}"

fun action_states where
  "action_states (Arrives ev) = event_states ev"
| "action_states _ = {}"

fun eff_states :: "('t, 'k) execution_eff \<Rightarrow> 't set" where
  "eff_states (Updated _ u) = {u}"
| "eff_states (Eliminate _) = {}"

fun predicted_states :: "('co, 'p, 'so, 'v, 'b) execution_effects \<Rightarrow> ('co, 'p, 'v, 'b) evolving set" where
  "predicted_states (FromLiquidityBook effs) = (\<Union>eff \<in> set effs. eff_states eff)"
| "predicted_states (FromBacklog pool _) = {bundled_map Inr pool}"

definition pending_states where
  "pending_states g = (case ex_pending_effects (eg_executor g) of
     None \<Rightarrow> {} | Some ef \<Rightarrow> predicted_states (ef_pending_effects ef))"

fun kind_kept :: "('o + 'p, 'o + 'p) ior \<Rightarrow> bool" where
  "kind_kept (Both (Inr _) (Inl _)) = False"
| "kind_kept _ = True"

lemma resolve_in:
  assumes "si_ok S U index" "resolve_state S sid index = Some e"
  shows "e \<in> U \<and> sn_key S (sn_id S e) = sn_key S sid"
proof -
  obtain p where "slot index (index_key S p sid) = Some e"
    using assms(2) by (auto simp: resolve_state_def or_else_def get_last_confirmed_def get_last_unconfirmed_def
        get_last_predicted_def get_fallback_def si_get_slot split: option.splits)
  then obtain v where v: "si_index index (index_key S p sid) = Some v" "si_store index v = Some e"
    by (auto simp: slot_def bind_eq_Some_conv)
  then show ?thesis using si_okD_store(1) [OF assms(1) v(2)] same_version_same_key [OF assms(1) v] by simp
qed

lemma resolve_stored:
  assumes "si_ok S U index" "resolve_state S sid index = Some e"
  shows "get_state (sn_ver S e) index = Some e"
proof -
  obtain p where "slot index (index_key S p sid) = Some e"
    using assms(2) by (auto simp: resolve_state_def or_else_def get_last_confirmed_def get_last_unconfirmed_def
        get_last_predicted_def get_fallback_def si_get_slot split: option.splits)
  then show ?thesis using exists_slot [OF assms(1)] by blast
qed

lemma transition_kind_kept:
  assumes "well_kinded E U" "si_ok (evolving_ops E) U index" "si_ok (evolving_ops E) U index'"
    and "to_transition (resolve_state (evolving_ops E) sid index) (resolve_state (evolving_ops E) sid index') = Some tr"
  shows "kind_kept tr"
proof (cases "resolve_state (evolving_ops E) sid index"; cases "resolve_state (evolving_ops E) sid index'")
  fix e e' assume e: "resolve_state (evolving_ops E) sid index = Some e" "resolve_state (evolving_ops E) sid index' = Some e'"
  then have "isl (bd_entity e) = isl (bd_entity e')"
    using resolve_in [OF assms(2) e(1)] resolve_in [OF assms(3) e(2)] assms(1) unfolding well_kinded_def by metis
  moreover have "tr = Both (bd_entity e) (bd_entity e')" using assms(4) e by simp
  ultimately show "kind_kept tr" by (cases "bd_entity e"; cases "bd_entity e'") auto
qed (use assms(4) in auto)

lemma invalidated_others:
  assumes "w \<noteq> v"
  shows "get_state w (snd (invalidate_version S v index)) = get_state w index"
  using assms by (simp add: invalidate_version_def get_state_def Let_def split: option.split prod.split)

subsection \<open>Books that settle\<close>

locale engine_book =
  fixes E :: "('pair, 'co, 'k, 'sid, 'u, 'p, 'so, 'v, 'b::linorder, 'book, 'bl, 'ev, 'txc, 'tx, 'th, 'err) engine_env"
    and settled :: "'book \<Rightarrow> bool"
  assumes make: "settled (bo_make (en_book E) pair)"
    and attempt: "settled b \<Longrightarrow> bo_attempt (en_book E) b = Some (None, events, b') \<Longrightarrow> settled b'"
    and update_taker: "settled b \<Longrightarrow> \<exists>b'. bo_update_taker (en_book E) t b = Some b' \<and> settled b'"
    and remove_taker: "settled b \<Longrightarrow> \<exists>b'. bo_remove_taker (en_book E) t b = Some b' \<and> settled b'"
    and update_maker: "settled b \<Longrightarrow> \<exists>b'. bo_update_maker (en_book E) m b = Some b' \<and> settled b'"
    and remove_maker: "settled b \<Longrightarrow> \<exists>b'. bo_remove_maker (en_book E) m b = Some b' \<and> settled b'"
    and succeeded: "settled (bo_on_recipe_succeeded (en_book E) b)"
    and failed: "settled (bo_on_recipe_failed (en_book E) b)"
begin

definition quiet where
  "quiet U s \<longleftrightarrow> si_ok (evolving_ops E) U (ex_index s) \<and> (\<forall>pair. settled (the_book E pair s)) \<and> ex_pending_effects s = None"

lemma the_book_set_book: "the_book E pair (set_book pair' b s) = (if pair = pair' then b else the_book E pair s)"
  by (simp add: the_book_def set_book_def mp_get_def)

lemma set_book_frame [simp]:
  "ex_index (set_book pair b s) = ex_index s" "ex_pending_effects (set_book pair b s) = ex_pending_effects s"
  by (simp_all add: set_book_def)

lemma on_backlog_frame [simp]:
  "ex_index (on_backlog E pair f s) = ex_index s" "ex_pending_effects (on_backlog E pair f s) = ex_pending_effects s"
  "the_book E pair' (on_backlog E pair f s) = the_book E pair' s"
  by (simp_all add: on_backlog_def the_book_def)

lemma on_backlog_quiet [simp]: "quiet U (on_backlog E pair f s) = quiet U s"
  by (simp add: quiet_def)

lemma on_book_fine:
  assumes "quiet U s" "\<And>b. settled b \<Longrightarrow> \<exists>b'. f b = Some b' \<and> settled b'"
  shows "fine (\<lambda>s'. quiet U s' \<and> ex_index s' = ex_index s) (on_book E pair f s)"
proof -
  obtain b' where b': "f (the_book E pair s) = Some b'" "settled b'"
    using assms unfolding quiet_def by blast
  then show ?thesis using assms(1) by (simp add: on_book_def quiet_def the_book_set_book)
qed

lemmas book_update_fine = on_book_fine [OF _ remove_taker] on_book_fine [OF _ remove_maker]
  on_book_fine [OF _ update_taker] on_book_fine [OF _ update_maker]

lemma sync_book_fine:
  assumes "quiet U s" "kind_kept tr"
  shows "fine (\<lambda>s'. quiet U s' \<and> ex_index s' = ex_index s) (sync_book E pair tr s)"
proof (cases tr)
  case (Left x) then show ?thesis by (cases x) (auto intro: book_update_fine assms)
next
  case (Right x) then show ?thesis by (cases x) (auto intro: book_update_fine assms)
next
  case (Both x y)
  show ?thesis
  proof (cases x; cases y)
    fix a b assume [simp]: "x = Inl a" "y = Inl b"
    show ?thesis unfolding Both
      by (auto intro!: fine_and_then [OF book_update_fine(1) [OF assms(1)]]
          dest: book_update_fine(3) elim: fine_mono)
  next
    fix a b assume "x = Inr a" "y = Inl b"
    then show ?thesis using assms(2) Both by simp
  qed (use Both in \<open>auto intro: book_update_fine assms\<close>)
qed

lemma sync_book_opt_fine:
  assumes "quiet U s" "\<And>t. tr = Some t \<Longrightarrow> kind_kept t"
  shows "fine (\<lambda>s'. quiet U s' \<and> ex_index s' = ex_index s) (sync_book_opt E pair tr s)"
  using assms by (cases tr) (auto intro: sync_book_fine)

subsection \<open>The index\<close>

lemma put_ok:
  assumes "si_ok (evolving_ops E) U index" "well_kinded E U" "e \<in> U"
  shows "si_ok (evolving_ops E) U (put_confirmed (evolving_ops E) e index)"
    and "si_ok (evolving_ops E) U (put_unconfirmed (evolving_ops E) e index)"
    and "si_ok (evolving_ops E) U (put_predicted (evolving_ops E) e index)"
    and "si_ok (evolving_ops E) U (put_fallback (evolving_ops E) e index)"
    and "si_ok (evolving_ops E) U (put_from E update e index)"
  using si_put_ok_ids [OF assms(1,3)] assms(2)
  by (simp_all add: put_confirmed_def put_unconfirmed_def put_predicted_def put_fallback_def put_from_def
      well_kinded_def all_state_keys_def)

lemma invalidate_keeps_ok:
  assumes "si_ok S U index"
  shows "si_ok S U (snd (invalidate_version S v index))"
  using assms invalidate_ok(1) [OF assms] by (cases "si_store index v") (auto simp: invalidate_version_def)

lemma quiet_index [simp]:
  assumes "quiet U s"
  shows "quiet U (s\<lparr>ex_index := i\<rparr>) \<longleftrightarrow> si_ok (evolving_ops E) U i"
    and "quiet U (s\<lparr>ex_index := i, ex_skip_filter := f\<rparr>) \<longleftrightarrow> si_ok (evolving_ops E) U i"
    and "quiet U (s\<lparr>ex_skip_filter := f\<rparr>)"
    and "quiet U (s\<lparr>ex_focus_set := fs\<rparr>)"
    and "quiet U (s\<lparr>ex_funding_pool := fp\<rparr>)"
    and "quiet U (s\<lparr>ex_blocker := bk\<rparr>)"
  using assms by (auto simp: quiet_def the_book_def)

lemma update_new_state_quiet:
  assumes "quiet U s" "well_kinded E U" "e \<in> U" "update_new_state E update rb rolled_back e s = (tr, s')"
  shows "quiet U s' \<and> (\<forall>t. tr = Some t \<longrightarrow> kind_kept t)"
proof -
  let ?S = "evolving_ops E"
  have ok: "si_ok ?S U (ex_index s)" using assms(1) by (simp add: quiet_def)
  then have ok1: "si_ok ?S U (case rolled_back of Some v \<Rightarrow> snd (invalidate_version ?S v (ex_index s)) | None \<Rightarrow> ex_index s)"
    by (auto intro: invalidate_keeps_ok split: option.split)
  note ok2 = put_ok(5) [OF ok1 assms(2,3), of update]
  show ?thesis
    using assms(4) put_ok [OF ok assms(2,3)] ok2 assms(1)
    by (auto simp: update_new_state_def Let_def split: if_splits
        dest: transition_kind_kept [OF assms(2) ok ok2])
qed

lemma update_state_quiet:
  assumes "quiet U s" "well_kinded E U" "new_states (ch_erased update) \<subseteq> U" "update_state E update s = (tr, s')"
  shows "quiet U s' \<and> (\<forall>t. tr = Some t \<longrightarrow> kind_kept t)"
proof -
  have elim: "si_ok (evolving_ops E) U (eliminate (evolving_ops E) sid (ex_index s))" for sid
    using assms(1) eliminate_ok(1) by (auto simp: quiet_def)
  have new: "quiet U s' \<and> (\<forall>t. tr = Some t \<longrightarrow> kind_kept t)"
    if "update_new_state E update rb v e s = (tr, s')" "e \<in> U" for rb v e
    using update_new_state_quiet [OF assms(1,2) that(2,1)] .
  show ?thesis
  proof (cases "ch_erased update")
    case (Forward t)
    then show ?thesis using assms new elim
      by (cases t) (auto simp: update_state_def Let_def split: if_splits)
  next
    case (Backward t)
    then show ?thesis using assms new elim
      by (cases t) (auto simp: update_state_def Let_def split: if_splits)
  qed
qed

subsection \<open>Events, effects and feedback\<close>

lemma and_sync:
  assumes "quiet U s" "well_kinded E U" "new_states (ch_erased update) \<subseteq> U"
  shows "fine (quiet U) (let (tr, s1) = update_state E update s in sync_book_opt E pair tr s1)"
proof -
  obtain tr s1 where u: "update_state E update s = (tr, s1)" by (metis surj_pair)
  show ?thesis using update_state_quiet [OF assms u] u
    by (auto intro!: fine_mono [OF sync_book_opt_fine])
qed

lemma on_pair_event_fine:
  assumes "quiet U s" "well_kinded E U" "event_states ev \<subseteq> U"
  shows "fine (quiet U) (on_pair_event E ev s)"
proof (cases ev)
  case (Pair pair event)
  show ?thesis
  proof (cases event)
    case (Inl u)
    have "fine (quiet U) (let (tr, s1) = update_state E u s in sync_book_opt E pair tr s1)"
      using assms Pair Inl by (intro and_sync) auto
    then show ?thesis unfolding Pair Inl on_pair_event_def by (auto elim: fine_mono)
  next
    case (Inr u) then show ?thesis using assms(1) unfolding Pair Inr on_pair_event_def
      by (auto simp: sync_backlog_def split: order_update.split)
  qed
qed

lemma apply_effect_fine:
  assumes "quiet U s" "well_kinded E U" "eff_states eff \<subseteq> U"
  shows "fine (quiet U) (apply_effect E pair eff s)"
  unfolding apply_effect_def Let_def on_entity_processed_def
  using assms by (intro and_sync [unfolded Let_def]) (cases eff; simp)+

lemma settle_book:
  assumes "si_ok (evolving_ops E) U (ex_index s)" "\<forall>p. p \<noteq> pair \<longrightarrow> settled (the_book E p s)"
    "ex_pending_effects s = None" "settled b"
  shows "quiet U (set_book pair b s)"
  using assms by (auto simp: quiet_def the_book_set_book)

text \<open>What a pending transaction promises: only the book of its pair is not at rest.\<close>

definition awaiting where
  "awaiting U ef s \<longleftrightarrow> si_ok (evolving_ops E) U (ex_index s) \<and>
     (case ef_pending_effects ef of
        FromLiquidityBook effs \<Rightarrow> (\<forall>p. p \<noteq> ef_pair ef \<longrightarrow> settled (the_book E p s)) \<and>
          (\<forall>v \<in> ef_consumed_versions ef. get_state v (ex_index s) \<noteq> None)
      | FromBacklog pool _ \<Rightarrow> (\<forall>p. settled (the_book E p s)))"

lemma success_fine:
  assumes "awaiting U ef s" "ex_pending_effects s = None" "well_kinded E U"
    and "predicted_states (ef_pending_effects ef) \<subseteq> U"
  shows "fine (quiet U) (on_execution_effects_success E ef s)"
proof (cases "ef_pending_effects ef")
  case (FromLiquidityBook effs)
  have "quiet U (set_book (ef_pair ef) (bo_on_recipe_succeeded (en_book E) (the_book E (ef_pair ef) s)) s)"
    using assms FromLiquidityBook by (intro settle_book) (auto simp: awaiting_def succeeded)
  moreover have "eff \<in> set (rev effs) \<Longrightarrow> quiet U s \<Longrightarrow> fine (quiet U) (apply_effect E (ef_pair ef) eff s)" for eff s
    using assms FromLiquidityBook by (intro apply_effect_fine) (auto simp: awaiting_def)
  ultimately show ?thesis
    unfolding on_execution_effects_success_def FromLiquidityBook by (auto intro!: fine_fold_res)
next
  case (FromBacklog pool ord)
  have q: "quiet U s" "bundled_map Inr pool \<in> U" using assms FromBacklog by (auto simp: quiet_def awaiting_def)
  obtain tr s' where u: "update_state E (LocalTxSubmit (Forward (Right (bundled_map Inr pool))) :: (_, unit) channel)
      (on_entity_processed (en_order_ref E (bd_entity ord)) s) = (tr, s')" by (metis surj_pair)
  have "quiet U (on_entity_processed (en_order_ref E (bd_entity ord)) s)"
    unfolding on_entity_processed_def using q(1) by simp
  from update_state_quiet [OF this assms(3) _ u] q(2) u show ?thesis
    by (simp add: on_execution_effects_success_def FromBacklog)
qed

lemma invalidate_versions_fine:
  assumes "quiet U s" "well_kinded E U"
  shows "fine (\<lambda>(missing, s'). quiet U s') (invalidate_versions E pair vs s)"
    and "distinct vs \<Longrightarrow> \<forall>v \<in> set vs. get_state v (ex_index s) \<noteq> None \<Longrightarrow>
      fine (\<lambda>(missing, s'). quiet U s' \<and> missing = []) (invalidate_versions E pair vs s)"
proof -
  have one: "fine (\<lambda>(missing', s'). quiet U s' \<and> (get_state v (ex_index s) \<noteq> None \<longrightarrow> missing' = missing) \<and>
      (\<forall>w. w \<noteq> v \<longrightarrow> get_state w (ex_index s') = get_state w (ex_index s)))
      (invalidate_one E pair v (missing, s))" if q: "quiet U s" for v missing s
  proof (cases "get_state v (ex_index s)")
    case None then show ?thesis using q by (simp add: invalidate_one_def)
  next
    case (Some e)
    let ?S = "evolving_ops E"
    let ?i = "snd (invalidate_version ?S v (ex_index s))"
    have ok: "si_ok ?S U (ex_index s)" "si_ok ?S U ?i" using q invalidate_keeps_ok by (auto simp: quiet_def)
    have "quiet U (s\<lparr>ex_index := ?i\<rparr>)" using q ok by simp
    then have "fine (\<lambda>s'. quiet U s' \<and> ex_index s' = ?i)
        (sync_book_opt E pair (to_transition (resolve_state ?S (sn_id ?S e) (ex_index s)) (resolve_state ?S (sn_id ?S e) ?i))
          (s\<lparr>ex_index := ?i\<rparr>))"
      by (rule fine_mono [OF sync_book_opt_fine]) (auto intro: transition_kind_kept [OF assms(2) ok])
    from fine_mono [OF this] show ?thesis using Some
      by (simp add: invalidate_one_def Let_def invalidated_others)
  qed
  show "fine (\<lambda>(missing, s'). quiet U s') (invalidate_versions E pair vs s)"
    unfolding invalidate_versions_def
    by (rule fine_fold_res) (use assms(1) in \<open>auto intro: fine_mono [OF one]\<close>)
  have "fine (\<lambda>(missing, s'). quiet U s' \<and> missing = m) (fold_res (invalidate_one E pair) vs (m, s))"
    if "distinct vs" "\<forall>v \<in> set vs. get_state v (ex_index s) \<noteq> None" "quiet U s" for m s
    using that
  proof (induction vs arbitrary: s)
    case (Cons v vs)
    have "fine (\<lambda>(missing', s'). quiet U s' \<and> missing' = m \<and> (\<forall>w \<in> set vs. get_state w (ex_index s') \<noteq> None))
        (invalidate_one E pair v (m, s))"
      using Cons.prems by (intro fine_mono [OF one]) auto
    then show ?case using Cons by (auto intro!: fine_and_then)
  qed simp
  then show "distinct vs \<Longrightarrow> \<forall>v \<in> set vs. get_state v (ex_index s) \<noteq> None \<Longrightarrow>
      fine (\<lambda>(missing, s'). quiet U s' \<and> missing = []) (invalidate_versions E pair vs s)"
    unfolding invalidate_versions_def using assms(1) by blast
qed

lemma remove_takers_fine:
  assumes "quiet U s"
  shows "fine (quiet U) (fold_res (\<lambda>ord. on_book E pair (bo_remove_taker (en_book E) ord)) ords s)"
  by (rule fine_fold_res [where P = "quiet U", OF assms]) (auto intro: fine_mono [OF book_update_fine(1)])

lemma failure_fine:
  assumes "awaiting U ef s" "ex_pending_effects s = None" "well_kinded E U"
  shows "fine (quiet U) (on_execution_effects_failure E err ef s)"
proof (cases "ef_pending_effects ef")
  case (FromLiquidityBook effs)
  have q: "quiet U (book_recipe_failed E (ef_pair ef) s)"
    using assms FromLiquidityBook unfolding book_recipe_failed_def
    by (intro settle_book) (auto simp: awaiting_def failed)
  have "\<forall>v \<in> ef_consumed_versions ef. get_state v (ex_index (book_recipe_failed E (ef_pair ef) s)) \<noteq> None"
    using assms FromLiquidityBook by (simp add: awaiting_def book_recipe_failed_def)
  then have "fine (\<lambda>(missing, s'). quiet U s' \<and> missing = [])
      (invalidate_versions E (ef_pair ef) (remdups (filter (\<lambda>v. v \<in> ef_consumed_versions ef) vs))
        (book_recipe_failed E (ef_pair ef) s))" for vs
    by (intro invalidate_versions_fine(2) [OF q assms(3)]) auto
  then show ?thesis unfolding on_execution_effects_failure_def FromLiquidityBook Let_def
    by (auto split: option.split intro!: fine_and_then remove_takers_fine q)
next
  case (FromBacklog pool ord)
  then have q: "quiet U s" using assms by (auto simp: awaiting_def quiet_def)
  then show ?thesis
    unfolding on_execution_effects_failure_def FromBacklog Let_def
    by (auto split: option.split intro!: fine_and_then [OF invalidate_versions_fine(1) [OF _ assms(3)]])
qed

subsection \<open>Turns\<close>

definition executor_inv where
  "executor_inv U s \<longleftrightarrow> (case ex_pending_effects s of None \<Rightarrow> quiet U s | Some ef \<Rightarrow> awaiting U ef s)"

lemma quiet_inv: "quiet U s \<Longrightarrow> executor_inv U s"
  by (simp add: executor_inv_def quiet_def)

lemma awaiting_cong:
  assumes "ex_index s' = ex_index s" "\<And>p. the_book E p s' = the_book E p s"
  shows "awaiting U ef s' = awaiting U ef s"
  by (cases "ef_pending_effects ef") (simp_all add: awaiting_def assms)

lemma funding_event_quiet: "quiet U s \<Longrightarrow> quiet U (on_funding_event e s)"
  by (cases e) simp_all

lemma funding_quiet:
  assumes "quiet U s"
  shows "quiet U (on_funding_effects_success effs s)" "quiet U (on_funding_effects_failure E err effs s)"
    "quiet U (fold on_funding_event evs s)"
proof -
  note inv = fold_invariant [where Q = "\<lambda>_. True" and P = "quiet U", OF _ assms]
  show "quiet U (on_funding_effects_success effs s)" unfolding on_funding_effects_success_def
    by (rule inv) (auto intro: funding_event_quiet split: funding_event.split)
  show "quiet U (on_funding_effects_failure E err effs s)" unfolding on_funding_effects_failure_def Let_def
    by (rule inv) (auto intro: funding_event_quiet split: funding_event.split)
  show "quiet U (fold on_funding_event evs s)" by (rule inv) (auto intro: funding_event_quiet)
qed

lemma settle_feedback_fine:
  assumes "executor_inv U s" "well_kinded E U"
    "\<And>ef. ex_pending_effects s = Some ef \<Longrightarrow> predicted_states (ef_pending_effects ef) \<subseteq> U" "length feedback = (if ex_pending_effects s = None then 0 else 1)"
  shows "fine (\<lambda>(feedback', s'). feedback' = [] \<and> quiet U s') (settle_feedback E feedback s)"
proof (cases "ex_pending_effects s")
  case None then show ?thesis using assms by (simp add: executor_inv_def)
next
  case (Some ef)
  then obtain result where f: "feedback = [result]" using assms(4) by (auto simp: length_Suc_conv)
  let ?s = "s\<lparr>ex_pending_effects := None\<rparr>"
  have a: "awaiting U ef ?s" using assms(1) Some awaiting_cong [of ?s s U ef] by (simp add: executor_inv_def the_book_def)
  have "fine (quiet U) (case result of
      Inr () \<Rightarrow> map_sum id (on_funding_effects_success (ef_funding ef)) (on_execution_effects_success E ef ?s)
    | Inl err \<Rightarrow> map_sum id (on_funding_effects_failure E err (ef_funding ef)) (on_execution_effects_failure E err ef ?s))"
    (is "fine _ ?r")
  proof (cases result)
    case (Inl err)
    show ?thesis unfolding Inl sum.case fine_map_sum
      by (rule fine_mono [OF failure_fine [OF a _ assms(2)]]) (simp_all add: funding_quiet)
  next
    case (Inr u)
    have u: "u = ()" by simp
    show ?thesis unfolding Inr sum.case u old.unit.case fine_map_sum
      by (rule fine_mono [OF success_fine [OF a _ assms(2) assms(3) [OF Some]]]) (simp_all add: funding_quiet)
  qed
  moreover have "settle_feedback E feedback s = map_sum id (Pair []) ?r"
    unfolding f by (simp only: settle_feedback.simps Some option.case Let_def)
  ultimately show ?thesis by (simp only: fine_map_sum prod.case simp_thms)
qed

lemma link_of_stored:
  assumes "quiet U s" "link_of E s sid = Some (v, b)"
  shows "get_state v (ex_index s) \<noteq> None"
proof -
  let ?S = "evolving_ops E"
  obtain e where e: "resolve_state ?S sid (ex_index s) = Some e" "v = sn_ver ?S e"
    using assms(2) by (auto simp: link_of_def evolving_ops_def)
  then obtain p where "slot (ex_index s) (index_key ?S p sid) = Some e"
    by (auto simp: resolve_state_def or_else_def get_last_confirmed_def get_last_unconfirmed_def
        get_last_predicted_def get_fallback_def si_get_slot split: option.splits)
  then show ?thesis using exists_slot [of ?S U "ex_index s" v e] assms(1) e(2) by (auto simp: quiet_def)
qed

lemma recipe_link_stored:
  assumes "recipe_link T M lnk recipe = Inr (is, vs)" "v \<in> vs"
  obtains sid b where "lnk sid = Some (v, b)"
proof -
  have "v \<in> set vs' \<Longrightarrow> link_instructions T M lnk recipe = (is', vs', os) \<Longrightarrow> \<exists>sid b. lnk sid = Some (v, b)" for is' vs' os
    by (induction recipe arbitrary: is' vs' os rule: link_instructions.induct [of _ T M lnk])
      (auto split: prod.splits option.splits)
  then have "\<exists>sid b. lnk sid = Some (v, b)" using assms by (auto simp: recipe_link_def split: prod.splits if_splits)
  then show ?thesis using that by blast
qed

definition turned where
  "turned U = (\<lambda>(emitted, s). executor_inv U s \<and> (emitted = None \<longleftrightarrow> ex_pending_effects s = None))"

lemma turned_None [simp]: "turned U (None, s) \<longleftrightarrow> quiet U s"
  by (auto simp: turned_def executor_inv_def quiet_def)

lemma turned_Some: "turned U (Some x, s) \<longleftrightarrow> (\<exists>ef. ex_pending_effects s = Some ef \<and> awaiting U ef s)"
  by (auto simp: turned_def executor_inv_def)

lemma try_backlog_fine:
  assumes "quiet U s"
  shows "fine (turned U) (try_backlog E pair s)"
proof -
  have q: "turned U (None, on_backlog E pair f s)" for f
    using assms(1) quiet_inv [of U "on_backlog E pair f s"] by (simp add: turned_def quiet_def)
  have w: "turned U (Some out, (on_backlog E pair f s)\<lparr>ex_pending_effects := Some ef, ex_focus_set := fs\<rparr>)"
    if "ef_pending_effects ef = FromBacklog pool ord'" for out f ef fs pool ord'
    using assms(1) that by (simp add: turned_def executor_inv_def awaiting_def quiet_def the_book_def on_backlog_def)
  show ?thesis using q unfolding try_backlog_def Let_def
    by (auto intro!: w split!: option.split bundled.split sum.split prod.split)
qed

lemma linkage_failure_fine:
  assumes "si_ok (evolving_ops E) U (ex_index s)" "\<forall>p. p \<noteq> pair \<longrightarrow> settled (the_book E p s)" "ex_pending_effects s = None"
  shows "quiet U (book_recipe_failed E pair s)" "fine (quiet U) (on_linkage_failure E pair orphans s)"
proof -
  show q: "quiet U (book_recipe_failed E pair s)"
    using assms unfolding book_recipe_failed_def by (intro settle_book) (auto simp: failed)
  show "fine (quiet U) (on_linkage_failure E pair orphans s)" unfolding on_linkage_failure_def
    by (rule fine_fold_res [where P = "quiet U", OF q])
      (auto split: sum.split intro: fine_mono [OF book_update_fine(1)] fine_mono [OF book_update_fine(2)])
qed

lemma run_recipe_fine:
  assumes "si_ok (evolving_ops E) U (ex_index s)" "\<forall>p. p \<noteq> pair \<longrightarrow> settled (the_book E p s)"
    "\<forall>v \<in> versions. get_state v (ex_index s) \<noteq> None"
  shows "fine (turned U) (run_recipe E pair linked versions events funding s)"
proof (cases "executions_of (en_takers E) (en_bearer_version E) linked")
  case (Some xs)
  obtain txc effs fio where i: "en_interpret E linked funding = (txc, effs, fio)" by (metis surj_pair)
  obtain unused fe where f: "into_effects fio = (unused, fe)" by (metis surj_pair)
  then show ?thesis using assms Some i f
    by (simp add: run_recipe_def turned_def executor_inv_def awaiting_def the_book_def Let_def)
qed (simp add: run_recipe_def)

lemma focus_turn_fine:
  assumes "quiet U s"
  shows "fine (turned U) (focus_turn E pair s)"
proof (cases "bo_attempt (en_book E) (the_book E pair s)")
  case None then show ?thesis by (simp add: focus_turn_def)
next
  case (Some a)
  obtain mr events b where a: "a = (mr, events, b)" by (cases a)
  let ?s = "set_book pair b s"
  have ok: "si_ok (evolving_ops E) U (ex_index ?s)" "\<forall>p. p \<noteq> pair \<longrightarrow> settled (the_book E p ?s)" "ex_pending_effects ?s = None"
    using assms(1) by (auto simp: quiet_def the_book_set_book)
  note after = linkage_failure_fine [OF ok]
  show ?thesis
  proof (cases mr)
    case None
    then have "settled b" using Some a attempt assms(1) by (auto simp: quiet_def)
    then have "quiet U ?s" using ok assms(1) by (auto simp: quiet_def the_book_set_book)
    then show ?thesis using Some a None try_backlog_fine by (simp add: focus_turn_def)
  next
    case (Some recipe)
    have linked: "fine (turned U) (run_recipe E pair linked versions events funding ?s)"
      if l: "recipe_link (en_takers E) (en_makers E) (link_of E ?s) recipe = Inr (linked, versions)" for linked versions funding
    proof (rule run_recipe_fine [OF ok(1,2)], rule ballI)
      fix v assume "v \<in> versions"
      then obtain sid br where "link_of E ?s sid = Some (v, br)" using recipe_link_stored [OF l] by blast
      then show "get_state v (ex_index ?s) \<noteq> None"
        using link_of_stored [OF assms, of sid v br] by (simp add: link_of_def)
    qed
    show ?thesis
    proof (cases "recipe_link (en_takers E) (en_makers E) (link_of E ?s) recipe")
      case (Inl orphans)
      then show ?thesis using Some a \<open>bo_attempt _ _ = _\<close> try_backlog_fine
        by (auto simp: focus_turn_def intro!: fine_and_then [OF after(2)])
    next
      case (Inr lv)
      then show ?thesis using Some a \<open>bo_attempt _ _ = _\<close> linked try_backlog_fine [OF after(1)]
        by (cases lv) (auto simp: focus_turn_def Let_def split: option.split)
    qed
  qed
qed

lemma matchmake_fine:
  assumes "quiet U s"
  shows "fine (turned U) (matchmake E pairs s)"
  using assms
proof (induction pairs arbitrary: s)
  case Nil then show ?case by (simp add: turned_def executor_inv_def quiet_def)
next
  case (Cons pair pairs)
  have "fine (turned U) (focus_turn E pair (s\<lparr>ex_focus_set := snd (fs_pop_front (ex_focus_set s))\<rparr>))"
    by (rule focus_turn_fine [OF quiet_index(4) [OF Cons.prems]])
  then show ?case using Cons.IH
    by (auto intro!: fine_and_then split: option.split)
qed

lemma after_events_fine:
  assumes "quiet U s"
  shows "fine (\<lambda>(emitted, feedback, s'). feedback = [] \<and> turned U (emitted, s'))
     (after_events E synced rollback funding [] s)"
proof -
  obtain go_on b where b: "pass_blockers synced rollback (ex_blocker (fold on_funding_event funding s)) = (go_on, b)"
    by (metis surj_pair)
  let ?s = "fold on_funding_event funding s\<lparr>ex_blocker := b\<rparr>"
  have q: "quiet U ?s" using funding_quiet(3) [OF assms] by simp
  have m: "fine (turned U) (matchmake E pairs ?s)" for pairs
    by (rule matchmake_fine [OF q])
  show ?thesis using q b by (auto simp: after_events_def Let_def intro!: fine_mono [OF m])
qed

lemma upstream_fine:
  assumes "quiet U s" "well_kinded E U" "\<forall>ev \<in> set upstream. event_states ev \<subseteq> U" "feedback = []"
  shows "fine (\<lambda>(emitted, feedback', s'). feedback' = [] \<and> turned U (emitted, s'))
     (and_then (fold_res (on_pair_event E) upstream s) (after_events E synced rollback funding feedback))"
proof -
  have "fine (quiet U) (fold_res (on_pair_event E) upstream s)"
    by (rule fine_fold_res [where P = "quiet U", OF assms(1)])
      (rule on_pair_event_fine [OF _ assms(2)]; use assms(3) in simp)
  then show ?thesis unfolding assms(4) by (rule fine_and_then) (rule after_events_fine)
qed

lemma poll_next_fine:
  assumes "executor_inv U s" "well_kinded E U"
    and "\<And>ef. ex_pending_effects s = Some ef \<Longrightarrow> predicted_states (ef_pending_effects ef) \<subseteq> U"
    and "\<forall>ev \<in> set upstream. event_states ev \<subseteq> U"
    and "length feedback = (if ex_pending_effects s = None then 0 else 1)"
  shows "fine (\<lambda>(emitted, feedback', s'). feedback' = [] \<and> turned U (emitted, s'))
     (poll_next E synced rollback feedback upstream funding s)"
proof -
  have settle: "fine (\<lambda>(feedback', s'). feedback' = [] \<and> quiet U s') (settle_feedback E feedback s)"
    by (intro settle_feedback_fine assms)
  show ?thesis unfolding poll_next_def
  proof (rule fine_and_then [OF settle], goal_cases)
    case (1 x)
    then show ?case by (cases x) (simp only: prod.case upstream_fine [OF _ assms(2,4)] simp_thms)
  qed
qed

text \<open>
  A step of the stream keeps the invariant: one result is on its way exactly if effects are pending.
  The entities of the run grow by those that arrive and those that an emitted transaction predicts.
\<close>

definition engine_inv where
  "engine_inv U g \<longleftrightarrow> executor_inv U (eg_executor g) \<and> pending_states g \<subseteq> U \<and>
     length (eg_feedback g) = (if ex_pending_effects (eg_executor g) = None then 0 else 1) \<and>
     (\<forall>ev \<in> set (eg_upstream g). event_states ev \<subseteq> U)"

lemma engine_new_inv: "engine_inv U engine_new"
  by (simp add: engine_inv_def engine_new_def executor_new_def executor_inv_def quiet_def si_ok_new the_book_def mp_get_def
      make pending_states_def)

lemma executor_inv_mono: "executor_inv U s \<Longrightarrow> U \<subseteq> U' \<Longrightarrow> executor_inv U' s"
  by (auto simp: executor_inv_def quiet_def awaiting_def si_ok_mono split: option.splits execution_effects.splits)

lemma executor_invI:
  "quiet U s \<Longrightarrow> U \<subseteq> U' \<Longrightarrow> executor_inv U' s"
  "awaiting U ef s \<Longrightarrow> ex_pending_effects s = Some ef \<Longrightarrow> U \<subseteq> U' \<Longrightarrow> executor_inv U' s"
  using executor_inv_mono [of U s U'] by (auto simp: executor_inv_def quiet_def)

lemma engine_step_fine:
  assumes "engine_inv U g" "well_kinded E U"
  shows "fine (\<lambda>g'. engine_inv (U \<union> action_states act \<union> pending_states g') g' \<and>
     (ex_pending_effects (eg_executor g') = None \<longrightarrow> quiet U (eg_executor g'))) (engine_step E act g)"
proof (cases "\<exists>result. act = Poll result")
  case True
  then obtain result where Poll: "act = Poll result" by blast
  have pending: "predicted_states (ef_pending_effects ef) \<subseteq> U" if "ex_pending_effects (eg_executor g) = Some ef" for ef
    using assms(1) that by (auto simp: engine_inv_def pending_states_def)
  have "fine (\<lambda>(emitted, feedback', s'). feedback' = [] \<and> turned U (emitted, s'))
      (poll_next E (eg_synced g) (eg_rollback g) (eg_feedback g) (eg_upstream g) (eg_funding g) (eg_executor g))"
    by (intro poll_next_fine) (use assms pending in \<open>auto simp: engine_inv_def\<close>)
  then show ?thesis unfolding Poll engine_step.simps fine_map_sum
    by (rule fine_mono)
      (auto simp: engine_inv_def turned_def executor_inv_def [of U] intro: executor_invI split: option.split)
next
  case False
  have "engine_step E act g = Inr g' \<Longrightarrow> engine_inv (U \<union> action_states act \<union> pending_states g') g' \<and>
      (ex_pending_effects (eg_executor g') = None \<longrightarrow> quiet U (eg_executor g'))" for g'
    using assms(1) False
    by (cases act) (auto simp: engine_inv_def pending_states_def executor_inv_def [of U] intro: executor_invI)
  then show ?thesis using False by (cases act) auto
qed

end

subsection \<open>The engine with its liquidity book\<close>

fun is_idle :: "('t, 'm, 'id) tlb_state \<Rightarrow> bool" where
  "is_idle (Idle _) = True"
| "is_idle _ = False"

text \<open>The book of the program; an attempt that panics, or does not return, has no result.\<close>

definition tlb_book where
  "tlb_book fuel inner T M conf time = \<lparr>
     bo_make = (\<lambda>_. tlb_state_new time),
     bo_attempt = (\<lambda>b. case book_attempt fuel inner T M conf b of Ret r \<Rightarrow> Some r | _ \<Rightarrow> None),
     bo_update_taker = update_taker T,
     bo_remove_taker = remove_taker T,
     bo_update_maker = update_maker M,
     bo_remove_maker = remove_maker M,
     bo_on_recipe_succeeded = on_recipe_succeeded T,
     bo_on_recipe_failed = on_recipe_failed T \<rparr>"

definition tlb_engine where
  "tlb_engine fuel inner conf time E = E\<lparr>en_book := tlb_book fuel inner (en_takers E) (en_makers E) conf time\<rparr>"

lemma is_idle_iff: "is_idle st \<longleftrightarrow> (\<exists>i. st = Idle i)"
  by (cases st) auto

lemma rollback_idle: "is_idle (tlb_rollback T Unstash st)"
  by (cases st) (simp_all add: pp_rollback_def pv_rollback_def)

lemma commit_idle: "is_idle (tlb_commit T st)"
  by (cases st) simp_all

lemma attempt_without_recipe:
  "attempt fuel inner T M conf optimized st = Ret (None, events, st') \<Longrightarrow> is_idle st'"
proof (induction fuel arbitrary: optimized st)
  case (Suc fuel)
  then obtain st1 batch ev1 r where f: "fill_batch inner T M conf optimized (st, attempt_empty)
      [LiquidityBookSizePreAttempt (tlb_size st)] = Ret ((st1, batch), ev1)"
    and r: "recipe_try_from T M (base_step_budget conf) batch = Some r"
    by (auto simp: run_bind_Ret Let_def)
  show ?case using Suc f r
    by (cases r; cases "projl r"; cases "the (projl r)"; cases "projr (the (projl r))")
      (auto simp: rollback_idle)
qed simp

interpretation tlb: engine_book "tlb_engine fuel inner conf time E" is_idle
proof unfold_locales
  show "is_idle b'" if "bo_attempt (en_book (tlb_engine fuel inner conf time E)) b = Some (None, events, b')" for b b' events
    using that attempt_without_recipe
    by (auto simp: tlb_engine_def tlb_book_def book_attempt_def split: run.splits)
qed (auto simp: tlb_engine_def tlb_book_def tlb_state_new_def is_idle_iff update_taker_def remove_taker_def
    update_maker_def remove_maker_def requiring_settled_state_def
    on_recipe_succeeded_def on_recipe_failed_def commit_idle [unfolded is_idle_iff] rollback_idle [unfolded is_idle_iff])

text \<open>What the engine can get to.\<close>

inductive engine_reachable for E where
  start: "engine_reachable E {} engine_new"
| step: "engine_reachable E U g \<Longrightarrow> engine_step E act g = Inr g' \<Longrightarrow>
     engine_reachable E (U \<union> action_states act \<union> pending_states g') g'"

lemma tlb_reachable_inv:
  assumes "engine_reachable (tlb_engine fuel inner conf time E) U g" "well_kinded (tlb_engine fuel inner conf time E) U"
  shows "engine_book.engine_inv (tlb_engine fuel inner conf time E) is_idle U g"
  using assms
proof (induction rule: engine_reachable.induct)
  case start show ?case by (rule tlb.engine_new_inv)
next
  case (step U g act g')
  then have wk: "well_kinded (tlb_engine fuel inner conf time E) U" by (auto intro: well_kinded_mono)
  show ?case using tlb.engine_step_fine [OF step.IH [OF wk] wk, of act] step.hyps(2) by simp
qed

text \<open>
  C3. The executor of the engine, with the liquidity book of the program, does not panic on its own.
  Take any run: entities, backlog orders, funding, synchronisation and rollback signals arrive in any
  order, and the network answers each transaction as it likes. As long as, among the entities that
  have arrived and those that the emitted transactions were predicted to leave, a version belongs to one
  entity and an entity is an order or a pool for good, the next step never brings an
  event to a book in the middle of a recipe, a pool that turns into an order, or an input of
  a rejected transaction that the index does not know: if a step fails, then a matchmaking attempt
  panicked or did not return, the backlog failed, or a report could not be made. Whenever no
  transaction is pending, every book is at rest and no result is left in the feedback channel.
\<close>

theorem engine_never_panics:
  assumes "engine_reachable (tlb_engine fuel inner conf time E) U g" "well_kinded (tlb_engine fuel inner conf time E) U"
  shows "case engine_step (tlb_engine fuel inner conf time E) act g of
      Inl e \<Rightarrow> e \<in> {Attempt_failed, Backlog_failed, Report_failed}
    | Inr g' \<Rightarrow> ex_pending_effects (eg_executor g') = None \<longrightarrow> eg_feedback g' = [] \<and>
        (\<forall>pair. is_idle (the_book (tlb_engine fuel inner conf time E) pair (eg_executor g')))"
  using tlb.engine_step_fine [OF tlb_reachable_inv [OF assms] assms(2), of act]
  by (auto simp: tlb.engine_inv_def tlb.quiet_def split: sum.split)

text \<open>
  C25. In every state of such a run, what is stored in the index under a version is a state of that
  version, one that arrived in the run or that a transaction of the run was predicted to leave; a key is
  bound only to stored states of the entity it is made from, and nothing is stored without
  such a key; the current state of an entity is a state of that entity, found under its version; and as
  long as a transaction of the book is pending, the index knows every input it consumes.
\<close>

theorem engine_index_sound:
  assumes "engine_reachable (tlb_engine fuel inner conf time E) U g" "well_kinded (tlb_engine fuel inner conf time E) U"
  shows "si_ok (evolving_ops (tlb_engine fuel inner conf time E)) U (ex_index (eg_executor g)) \<and>
     (\<forall>sid e. resolve_state (evolving_ops (tlb_engine fuel inner conf time E)) sid (ex_index (eg_executor g)) = Some e \<longrightarrow>
        e \<in> U \<and> get_state (sn_ver (evolving_ops (tlb_engine fuel inner conf time E)) e) (ex_index (eg_executor g)) = Some e \<and>
        sn_key (evolving_ops (tlb_engine fuel inner conf time E)) (sn_id (evolving_ops (tlb_engine fuel inner conf time E)) e) =
          sn_key (evolving_ops (tlb_engine fuel inner conf time E)) sid) \<and>
     (\<forall>ef effs. ex_pending_effects (eg_executor g) = Some ef \<and> ef_pending_effects ef = FromLiquidityBook effs \<longrightarrow>
        (\<forall>v \<in> ef_consumed_versions ef. get_state v (ex_index (eg_executor g)) \<noteq> None))"
proof -
  let ?S = "evolving_ops (tlb_engine fuel inner conf time E)" and ?i = "ex_index (eg_executor g)"
  have ok: "si_ok ?S U ?i" and known: "\<forall>ef effs. ex_pending_effects (eg_executor g) = Some ef \<and>
      ef_pending_effects ef = FromLiquidityBook effs \<longrightarrow> (\<forall>v \<in> ef_consumed_versions ef. get_state v ?i \<noteq> None)"
    using tlb_reachable_inv [OF assms]
    by (auto simp: tlb.engine_inv_def tlb.executor_inv_def tlb.quiet_def tlb.awaiting_def split: option.splits)
  then show ?thesis using resolve_in [OF ok] resolve_stored [OF ok] by blast
qed

subsection \<open>Inputs of a rejected transaction\<close>

lemma on_book_index: "on_book E pair f s = Inr s' \<Longrightarrow> ex_index s' = ex_index s"
  by (auto simp: on_book_def set_book_def split: option.splits)

lemma and_then_Inr: "and_then r f = Inr y \<longleftrightarrow> (\<exists>x. r = Inr x \<and> f x = Inr y)"
  by (cases r) auto

lemma sync_book_index: "sync_book E pair tr s = Inr s' \<Longrightarrow> ex_index s' = ex_index s"
  by (induction E pair tr s rule: sync_book.induct) (auto simp: and_then_Inr dest!: on_book_index)

lemma sync_book_opt_index: "sync_book_opt E pair tr s = Inr s' \<Longrightarrow> ex_index s' = ex_index s"
  by (cases tr) (auto dest: sync_book_index)

lemma fold_res_index:
  assumes "fold_res f xs s = Inr s'" "\<And>x s s'. f x s = Inr s' \<Longrightarrow> ex_index s' = ex_index s"
  shows "ex_index s' = ex_index s"
  using assms(1) by (induction xs arbitrary: s) (auto simp: and_then_Inr dest: assms(2))

lemma invalidate_versions_index:
  "fold_res (invalidate_one E pair) vs (m, s) = Inr (m', s') \<Longrightarrow>
     ex_index s' = fold (\<lambda>v i. snd (invalidate_version (evolving_ops E) v i)) vs (ex_index s)"
proof (induction vs arbitrary: m s)
  case (Cons v vs)
  then obtain m1 s1 where one: "invalidate_one E pair v (m, s) = Inr (m1, s1)"
    and rest: "fold_res (invalidate_one E pair) vs (m1, s1) = Inr (m', s')" by (auto simp: and_then_Inr)
  have "ex_index s1 = snd (invalidate_version (evolving_ops E) v (ex_index s))"
  proof (cases "get_state v (ex_index s)")
    case None then show ?thesis using one by (simp add: invalidate_one_def invalidate_version_def get_state_def)
  next
    case (Some e) then show ?thesis using one
      by (auto simp: invalidate_one_def Let_def map_sum_def split: sum.splits dest: sync_book_opt_index)
  qed
  then show ?case using Cons.IH [OF rest] by simp
qed simp

text \<open>
  What is left of a version that is invalidated: the confirmed state of a quasi-permanent entity stays known,
  by its confirmed key; every other state goes, with every key of the entity bound to it.
\<close>

definition still_known :: "('e, 'sid, 'v) snapshot_ops \<Rightarrow> ('e, 'v) state_index \<Rightarrow> 'v \<Rightarrow> 'e option" where
  "still_known S index v = (case get_state v index of
     Some e \<Rightarrow> if sn_qp S e \<and> si_index index (index_key S last_confirmed_prefix (sn_id S e)) = Some v then Some e else None
   | None \<Rightarrow> None)"

definition key_revoked :: "('e, 'sid, 'v) snapshot_ops \<Rightarrow> ('e, 'v) state_index \<Rightarrow> 'v \<Rightarrow> bytes \<Rightarrow> bool" where
  "key_revoked S index v key \<longleftrightarrow> (case get_state v index of
     Some e \<Rightarrow> key \<in> (\<lambda>p. index_key S p (sn_id S e)) `
       (if sn_qp S e then set ephemeral_state_keys else set all_state_keys)
   | None \<Rightarrow> False)"

lemma invalidated_state: "get_state v (snd (invalidate_version S v index)) = still_known S index v"
  by (simp add: invalidate_version_def still_known_def get_state_def Let_def split: option.split)

lemma invalidated_key:
  "si_index (snd (invalidate_version S v index)) key = Some w \<longleftrightarrow>
     si_index index key = Some w \<and> \<not> (w = v \<and> key_revoked S index v key)"
proof (cases "si_store index v")
  case None then show ?thesis by (simp add: invalidate_version_def key_revoked_def get_state_def)
next
  case (Some e)
  let ?c = "index_key S last_confirmed_prefix (sn_id S e)"
  show ?thesis
    by (cases "si_index index ?c = Some v"; cases "sn_qp S e")
      (use Some in \<open>auto simp: invalidate_version_def key_revoked_def get_state_def Let_def drop_binding_apply state_key_defs\<close>)
qed

lemma invalidated_other:
  assumes "w \<noteq> v"
  shows "still_known S (snd (invalidate_version S v index)) w = still_known S index w"
    and "key_revoked S (snd (invalidate_version S v index)) w key = key_revoked S index w key"
  using assms by (auto simp: still_known_def key_revoked_def invalidated_others invalidated_key split: option.split)

lemma fold_invalidate:
  assumes "distinct vs"
  shows "get_state v (fold (\<lambda>v i. snd (invalidate_version S v i)) vs index) =
      (if v \<in> set vs then still_known S index v else get_state v index)"
    and "si_index (fold (\<lambda>v i. snd (invalidate_version S v i)) vs index) key = Some v \<longleftrightarrow>
      si_index index key = Some v \<and> \<not> (v \<in> set vs \<and> key_revoked S index v key)"
proof -
  have "get_state v (fold (\<lambda>v i. snd (invalidate_version S v i)) vs index) =
      (if v \<in> set vs then still_known S index v else get_state v index) \<and>
    (si_index (fold (\<lambda>v i. snd (invalidate_version S v i)) vs index) key = Some v \<longleftrightarrow>
      si_index index key = Some v \<and> \<not> (v \<in> set vs \<and> key_revoked S index v key))"
    using assms
  proof (induction vs arbitrary: index)
    case (Cons w vs)
    show ?case
    proof (cases "v = w")
      case True then show ?thesis using Cons by (simp add: invalidated_state invalidated_key)
    next
      case False then show ?thesis using Cons by (simp add: invalidated_other invalidated_others invalidated_key)
    qed
  qed simp
  then show "get_state v (fold (\<lambda>v i. snd (invalidate_version S v i)) vs index) =
      (if v \<in> set vs then still_known S index v else get_state v index)"
    and "si_index (fold (\<lambda>v i. snd (invalidate_version S v i)) vs index) key = Some v \<longleftrightarrow>
      si_index index key = Some v \<and> \<not> (v \<in> set vs \<and> key_revoked S index v key)" by blast+
qed

lemma funding_effects_index [simp]:
  "ex_index (on_funding_event e s) = ex_index s"
  "ex_index (on_funding_effects_failure E err effs s) = ex_index s"
proof -
  show ev: "ex_index (on_funding_event e s) = ex_index s" for e s by (cases e) simp_all
  have "ex_index (fold (\<lambda>eff s. case eff of Produced _ \<Rightarrow> s
      | Consumed funding \<Rightarrow> if en_bearer_version E funding \<notin> m then on_funding_event (Produced funding) s else s) xs s) = ex_index s"
    for m xs by (induction xs arbitrary: s) (auto split: funding_event.split)
  then show "ex_index (on_funding_effects_failure E err effs s) = ex_index s"
    by (simp add: on_funding_effects_failure_def Let_def)
qed

text \<open>
  C26. When the network rejects a transaction because inputs are missing, the engine forgets the missing
  inputs of that transaction and nothing else. A missing input that was the confirmed state of a
  quasi-permanent entity stays known as exactly that; of every other one, be it the unconfirmed, predicted
  or fallback state of a pool or any state of an order, the index afterwards knows nothing. The unconfirmed, the
  predicted and the fallback key of the entity lose a binding to a missing input in any case, the
  confirmed key loses it unless the entity is quasi-permanent, and all other bindings stay. A rejection
  that names no missing input leaves the index as it is.
\<close>

theorem rejected_inputs_forgotten:
  assumes "ex_pending_effects s = Some ef" "settle_feedback E (Inl err # feedback) s = Inr (feedback', s')"
  shows "case en_missing E err of
      None \<Rightarrow> ex_index s' = ex_index s
    | Some missing \<Rightarrow>
        (\<forall>v. get_state v (ex_index s') =
           (if v \<in> set missing \<inter> ef_consumed_versions ef then still_known (evolving_ops E) (ex_index s) v
            else get_state v (ex_index s))) \<and>
        (\<forall>key v. si_index (ex_index s') key = Some v \<longleftrightarrow> si_index (ex_index s) key = Some v \<and>
           \<not> (v \<in> set missing \<inter> ef_consumed_versions ef \<and> key_revoked (evolving_ops E) (ex_index s) v key))"
proof -
  let ?s = "s\<lparr>ex_pending_effects := None\<rparr>"
  obtain s1 where f: "on_execution_effects_failure E err ef ?s = Inr s1" and i: "ex_index s' = ex_index s1"
    using assms by (cases "on_execution_effects_failure E err ef ?s") auto
  have frame: "ex_index (book_recipe_failed E p t) = ex_index t" "ex_index (on_backlog E p h t) = ex_index t" for p h t
    by (simp_all add: book_recipe_failed_def set_book_def on_backlog_def)
  show ?thesis
  proof (cases "en_missing E err")
    case None
    have "ex_index s1 = ex_index s"
      using f None by (cases "ef_pending_effects ef")
        (auto simp: on_execution_effects_failure_def Let_def frame dest!: fold_res_index on_book_index)
    then show ?thesis using None i by simp
  next
    case (Some missing)
    let ?vs = "remdups (filter (\<lambda>v. v \<in> ef_consumed_versions ef) missing)"
    have "ex_index s1 = fold (\<lambda>v i. snd (invalidate_version (evolving_ops E) v i)) ?vs (ex_index s)"
      using f Some by (cases "ef_pending_effects ef")
        (auto simp: on_execution_effects_failure_def invalidate_versions_def Let_def frame and_then_Inr
          split: if_splits dest!: invalidate_versions_index)
    then have fold: "ex_index s' = fold (\<lambda>v i. snd (invalidate_version (evolving_ops E) v i)) ?vs (ex_index s)"
      using i by simp
    have vs: "v \<in> set ?vs \<longleftrightarrow> v \<in> set missing \<inter> ef_consumed_versions ef" for v by auto
    show ?thesis unfolding Some option.case fold
      by (simp only: fold_invalidate [OF distinct_remdups] vs simp_thms)
  qed
qed

end
