(* ===== verification/Engine_Examples.thy ===== *)
theory Engine_Examples
  imports Engine_Spec Lb_Examples
begin

text \<open>
  A concrete engine: limit orders and classic pools in the program's liquidity book, versions,
  bearers and backlog orders being numbers. Its interpreter predicts, for each instruction of a recipe, the
  state it leaves, in a box with a new number. A pool and an order arrive, the book matches them,
  and a transaction with an effect on each is on its way: the properties of the engine are
  applied to the state it is then in.
\<close>

type_synonym sample_state = "(limit_order, classic_pool, nat, nat) evolving"

fun sample_effect :: "(limit_order, classic_pool, nat) execution \<Rightarrow> (limit_order, classic_pool, nat, nat) evolving_eff" where
  "sample_effect (Inl (Trans (Bundled ord b) (Term _))) = Eliminate (Bundled (Inl (Baked ord b)) b)"
| "sample_effect (Inl (Trans (Bundled ord b) (Succ ord'))) =
     Updated (Bundled (Inl (Baked ord b)) b) (Bundled (Inl (Baked ord' (b + 10))) (b + 10))"
| "sample_effect (Inr (Trans (Bundled pool b) (Term _))) = Eliminate (Bundled (Inr (Baked pool b)) b)"
| "sample_effect (Inr (Trans (Bundled pool b) (Succ pool'))) =
     Updated (Bundled (Inr (Baked pool b)) b) (Bundled (Inr (Baked pool' (b + 10))) (b + 10))"

definition sample_engine ::
    "(unit, limit_order, rat \<times> u64 \<times> int \<times> int \<times> token, token, ex_units, classic_pool, nat, nat, nat,
      (limit_order, classic_pool, token) tlb_state, nat list, execution_event list, nat, nat, nat, nat list option) engine_env" where
  "sample_engine = \<lparr>
     en_takers = limit_taker, en_makers = plain_maker, en_co_qp = (\<lambda>_. False), en_p_qp = (\<lambda>_. True),
     en_sid_key = (\<lambda>sid. case sid of Token p _ \<Rightarrow> [ucast p]), en_book = undefined,
     en_backlog = \<lparr> bg_make = (\<lambda>_. []), bg_put = (\<lambda>ord bl. bl @ [bd_entity ord]),
       bg_try_pop = (\<lambda>bl. Some (None, bl)), bg_remove = removeAll, bg_soft_evict = removeAll \<rparr>,
     en_order_ref = id, en_pool_ref = (\<lambda>_. Token 9 an_zero), en_bearer_version = id,
     en_interpret = (\<lambda>recipe funding. (0, map sample_effect recipe, NotUsed funding)), en_interpret_special = (\<lambda>_ _. None),
     en_prove = id, en_hash = id, en_missing = id \<rparr>"

definition sample_run where
  "sample_run = tlb_engine 1 2 (demanding_config 1) 0 sample_engine"

definition order_entity :: sample_state where
  "order_entity = Bundled (Inl (Baked poor_order 7)) 7"

definition pool_entity :: sample_state where
  "pool_entity = Bundled (Inr (Baked sample_pool 8)) 8"

definition next_pool :: sample_state where
  "next_pool = Bundled (Inr (Baked swapped_pool 18)) 18"

lemma sample_ids [simp]: "en_takers sample_run = limit_taker" "en_makers sample_run = plain_maker"
  "en_sid_key sample_run = (\<lambda>sid. case sid of Token p _ \<Rightarrow> [ucast p])" "en_p_qp sample_run = (\<lambda>_. True)" "en_co_qp sample_run = (\<lambda>_. False)"
  "en_bearer_version sample_run = id" "en_missing sample_run = id" "en_prove sample_run = id" "en_hash sample_run = id"
  "en_interpret sample_run = (\<lambda>recipe funding. (0, map sample_effect recipe, NotUsed funding))"
  "en_book sample_run = tlb_book 1 2 limit_taker plain_maker (demanding_config 1) 0"
  by (simp_all add: sample_run_def tlb_engine_def sample_engine_def)

lemma sample_keys [simp]:
  "sn_key (evolving_ops sample_run) (sn_id (evolving_ops sample_run) order_entity) = [1]"
  "sn_key (evolving_ops sample_run) (sn_id (evolving_ops sample_run) pool_entity) = [9]"
  "sn_key (evolving_ops sample_run) (sn_id (evolving_ops sample_run) next_pool) = [9]"
  "sn_ver (evolving_ops sample_run) order_entity = 7" "sn_ver (evolving_ops sample_run) pool_entity = 8"
  "sn_ver (evolving_ops sample_run) next_pool = 18"
  "sn_qp (evolving_ops sample_run) order_entity = False" "sn_qp (evolving_ops sample_run) pool_entity = True"
  "sn_qp (evolving_ops sample_run) next_pool = True"
  by (simp_all add: evolving_ops_def order_entity_def pool_entity_def next_pool_def limit_taker_def
      plain_maker_def classic_maker_def sample_pool_def swapped_pool_def poor_order_def sample_order_def lo_stable_id_def)

lemma sample_well_kinded: "well_kinded sample_run {pool_entity, order_entity, next_pool}"
  by (auto simp: well_kinded_def versions_identify_def) (auto simp: pool_entity_def order_entity_def next_pool_def)

subsection \<open>A pool and an order arrive\<close>

definition pool_index :: "nat \<Rightarrow> token option" where
  "pool_index = [mk_quality plain_maker sample_pool \<mapsto> cp_id sample_pool]"

abbreviation pool_only :: "(sample_state, nat) state_index" where
  "pool_only \<equiv> \<lparr> si_store = [8 \<mapsto> pool_entity], si_index = [[3, 9] \<mapsto> 8] \<rparr>"

abbreviation pool_and_order :: "(sample_state, nat) state_index" where
  "pool_and_order \<equiv> \<lparr> si_store = [8 \<mapsto> pool_entity, 7 \<mapsto> order_entity], si_index = [[3, 9] \<mapsto> 8, [3, 1] \<mapsto> 7] \<rparr>"

lemma sample_puts:
  "put_confirmed (evolving_ops sample_run) pool_entity si_new = pool_only"
  "put_confirmed (evolving_ops sample_run) order_entity pool_only = pool_and_order"
  by (simp_all add: put_confirmed_def si_put_def Let_def index_key_def state_key_defs List.map_filter_simps si_new_def)

lemma sample_resolved:
  "resolve_state (evolving_ops sample_run) (sn_id (evolving_ops sample_run) pool_entity) si_new = None"
  "resolve_state (evolving_ops sample_run) (sn_id (evolving_ops sample_run) pool_entity) pool_only = Some pool_entity"
  "resolve_state (evolving_ops sample_run) (sn_id (evolving_ops sample_run) order_entity) pool_only = None"
  "resolve_state (evolving_ops sample_run) (sn_id (evolving_ops sample_run) order_entity) pool_and_order = Some order_entity"
  "resolve_state (evolving_ops sample_run) (sn_id (evolving_ops sample_run) pool_entity) pool_and_order = Some pool_entity"
  by (simp_all add: resolve_state_def or_else_def get_last_confirmed_def get_last_unconfirmed_def get_last_predicted_def
      get_fallback_def si_get_def index_key_def state_key_defs si_new_def)

type_synonym sample_executor =
  "(unit, nat, limit_order, classic_pool, nat, nat, nat, (limit_order, classic_pool, token) tlb_state, nat list) executor"

abbreviation ledger_event :: "sample_state \<Rightarrow> (unit \<times> ((sample_state transition, unit) channel + (((nat, nat) bundled, nat) order_update, unit) channel))" where
  "ledger_event e \<equiv> ((), Inl (LedgerCh (Forward (Right e)) ()))"

lemma sample_entities [simp]:
  "bd_entity pool_entity = Inr (Baked sample_pool 8)" "bd_entity order_entity = Inl (Baked poor_order 7)"
  "bd_bearer pool_entity = 8" "bd_bearer order_entity = 7"
  by (simp_all add: pool_entity_def order_entity_def)

definition with_pool :: sample_executor where
  "with_pool = executor_new\<lparr>ex_index := pool_only,
     ex_multi_book := [() \<mapsto> Idle \<lparr> id_takers = \<lparr> ch_time_now = 0, ch_active = \<lparr> mt_asks = [], mt_bids = [] \<rparr>, ch_inactive = (\<lambda>_. None) \<rparr>,
       id_makers = \<lparr> mm_values = [(cp_id sample_pool, sample_pool)], mm_quality_index = pool_index \<rparr> \<rparr>],
     ex_focus_set := fs_push_back () fs_new\<rparr>"

definition with_both :: sample_executor where
  "with_both = with_pool\<lparr>ex_index := pool_and_order, ex_multi_book := [() \<mapsto> Idle (poor_book_of pool_index sample_pool)]\<rparr>"

lemmas arrival_defs = on_pair_event_def update_state_def update_new_state_def Let_def put_from_def executor_new_def
  cf_contains_def cf_new_def on_book_def the_book_def set_book_def mp_get_def tlb_book_def requiring_settled_state_def

lemma poor_time [simp]: "lower_bound (tk_time_bounds limit_taker poor_order) = None"
  by (simp add: limit_taker_def)

lemma pool_arrives: "on_pair_event sample_run (ledger_event pool_entity) executor_new = Inr with_pool"
  by (simp add: arrival_defs with_pool_def sample_puts sample_resolved tlb_state_new_def idle_new_def update_maker_def
      mm_update_pool_def pool_index_def ch_new_def mm_new_def mt_new_def)

lemma order_arrives: "on_pair_event sample_run (ledger_event order_entity) with_pool = Inr with_both"
  by (simp add: arrival_defs with_pool_def with_both_def sample_puts sample_resolved update_taker_def ch_add_fragment_def poor_book_of_def
      mt_insert_def fs_push_back_def fs_new_def)

subsection \<open>The book matches them\<close>

definition sample_effects :: "(unit, nat, limit_order, classic_pool, nat, nat, nat) effects" where
  "sample_effects = \<lparr> ef_tx_hash = 0, ef_pair = (), ef_consumed_versions = {7, 8},
     ef_pending_effects = FromLiquidityBook [Eliminate order_entity, Updated pool_entity next_pool], ef_funding = [] \<rparr>"

lemma sample_links:
  assumes "ex_index s = pool_and_order"
  shows "link_of sample_run s (lo_stable_id poor_order) = Some (7, 7)" "link_of sample_run s (cp_id sample_pool) = Some (8, 8)"
proof -
  have "resolve_state (evolving_ops sample_run) (lo_stable_id poor_order) pool_and_order = Some order_entity"
    "resolve_state (evolving_ops sample_run) (cp_id sample_pool) pool_and_order = Some pool_entity"
    using sample_resolved(4,5) by (simp_all add: evolving_ops_def plain_maker_def classic_maker_def)
  then show "link_of sample_run s (lo_stable_id poor_order) = Some (7, 7)" "link_of sample_run s (cp_id sample_pool) = Some (8, 8)"
    using assms by (simp_all add: link_of_def)
qed

definition sample_linked :: "(limit_order, classic_pool, nat) execution list" where
  "sample_linked = [Inl (Trans (Bundled poor_order 7) (tr_result poor_taken)),
     Inr (Trans (Bundled sample_pool 8) (Succ swapped_pool))]"

lemma sample_recipe_linked:
  assumes "ex_index s = pool_and_order"
  shows "recipe_link limit_taker plain_maker (link_of sample_run s) [Inl poor_taken, Inr (poor_make_of sample_pool swapped_pool)] =
    Inr (sample_linked, {7, 8})"
  using sample_links [OF assms]
  by (simp add: recipe_link_def poor_make_of_def sample_linked_def poor_taken_def)

lemma sample_reported: "\<exists>xs. executions_of limit_taker id sample_linked = Some xs"
  by (simp add: sample_linked_def poor_taken_def order_execution_of_def take_removed_input_def take_added_output_def
      take_consumed_fee_def checked_sub_def Let_def)

lemma sample_effect_list: "map sample_effect sample_linked = [Eliminate order_entity, Updated pool_entity next_pool]"
  by (simp add: sample_linked_def poor_taken_def order_entity_def pool_entity_def next_pool_def)

definition sample_ready :: sample_executor where
  "sample_ready = with_both\<lparr>ex_funding_pool := [100]\<rparr>"

lemma sample_ready_fields [simp]:
  "ex_index sample_ready = pool_and_order" "ex_multi_book sample_ready = [() \<mapsto> Idle (poor_book_of pool_index sample_pool)]"
  "ex_funding_pool sample_ready = [100]" "ex_pending_effects sample_ready = None" "ex_blocker sample_ready = None"
  "ex_focus_set sample_ready = \<lparr> fs_queue = [()], fs_filter = {()} \<rparr>"
  by (simp_all add: sample_ready_def with_both_def with_pool_def executor_new_def fs_push_back_def fs_new_def)

lemma sample_turn:
  "\<exists>r st. focus_turn sample_run () (sample_ready\<lparr>ex_focus_set := fs_new\<rparr>) =
     Inr (Some (0, Some r), sample_ready\<lparr>ex_multi_book := [() \<mapsto> st], ex_pending_effects := Some sample_effects\<rparr>)"
proof -
  let ?s = "sample_ready\<lparr>ex_focus_set := fs_new\<rparr>"
  obtain ev st where a: "book_attempt 1 2 limit_taker plain_maker (demanding_config 1) (Idle (poor_book_of pool_index sample_pool)) =
      Ret (Some [Inl poor_taken, Inr (poor_make_of sample_pool swapped_pool)], ev, st)"
    using plain.poor_attempt [of 1 pool_index] by auto
  obtain xs where xs: "executions_of limit_taker id sample_linked = Some xs" using sample_reported by blast
  have b: "bo_attempt (en_book sample_run) (the_book sample_run () ?s) =
      Some (Some [Inl poor_taken, Inr (poor_make_of sample_pool swapped_pool)], ev, st)"
    using a by (simp add: the_book_def mp_get_def tlb_book_def)
  have fs: "fs_push_back () fs_new = \<lparr> fs_queue = [()], fs_filter = {()} \<rparr>" by (simp add: fs_push_back_def fs_new_def)
  have "ex_focus_set sample_ready = \<lparr> fs_queue = [()], fs_filter = {()} \<rparr>" by simp
  then have same: "sample_ready\<lparr>ex_focus_set := \<lparr> fs_queue = [()], fs_filter = {()} \<rparr>\<rparr> = sample_ready"
    "sample_ready\<lparr>ex_funding_pool := [100]\<rparr> = sample_ready"
    by (simp_all add: sample_ready_def with_both_def with_pool_def executor_new_def fs)
  show ?thesis
    unfolding focus_turn_def b option.case prod.case
    by (simp add: sample_recipe_linked set_book_def run_recipe_def xs sample_effect_list sample_effects_def fs)
      (simp add: sample_ready_def with_both_def with_pool_def executor_new_def fs bts_remove_def, rule exI, rule refl)
qed

subsection \<open>The run of the stream\<close>

type_synonym sample_stream =
  "(unit, nat, limit_order, classic_pool, nat, nat, nat, (limit_order, classic_pool, token) tlb_state, nat list,
    nat list option, nat, token, execution_event list, unit) engine"

definition sample_start :: sample_stream where
  "sample_start = engine_new\<lparr>eg_upstream := [ledger_event pool_entity, ledger_event order_entity], eg_funding := [Produced 100],
     eg_synced := True\<rparr>"

lemma sample_start_reachable: "engine_reachable sample_run {pool_entity, order_entity} sample_start"
proof -
  have none: "pending_states (engine_new\<lparr>eg_upstream := us, eg_funding := fs, eg_synced := b\<rparr> :: sample_stream) = {}" for us fs b
    by (simp add: pending_states_def engine_new_def executor_new_def)
  let ?g = "\<lambda>us fs b. engine_new\<lparr>eg_upstream := us, eg_funding := fs, eg_synced := b\<rparr> :: sample_stream"
  have start: "engine_new = ?g [] [] False" by (simp add: engine_new_def)
  have 1: "engine_reachable sample_run {pool_entity} (?g [ledger_event pool_entity] [] False)"
    using engine_reachable.step [OF engine_reachable.start, of sample_run "Arrives (ledger_event pool_entity)"] none
    by (simp add: engine_new_def)
  have 2: "engine_reachable sample_run {pool_entity, order_entity} (?g [ledger_event pool_entity, ledger_event order_entity] [] False)"
    using engine_reachable.step [OF 1, of "Arrives (ledger_event order_entity)"] none by (simp add: insert_commute engine_new_def)
  have 3: "engine_reachable sample_run {pool_entity, order_entity} (?g [ledger_event pool_entity, ledger_event order_entity] [Produced 100] False)"
    using engine_reachable.step [OF 2, of "Funding_arrives (Produced 100)"] none by (simp add: engine_new_def)
  show ?thesis
    using engine_reachable.step [OF 3, of "Set_synced True"] none by (simp add: engine_new_def sample_start_def)
qed

lemma sample_emits:
  obtains g st where "engine_step sample_run (Poll answer) sample_start = Inr g" "eg_submitted g = [0]"
    "eg_executor g = sample_ready\<lparr>ex_multi_book := [() \<mapsto> st], ex_pending_effects := Some sample_effects\<rparr>"
proof -
  obtain r st where turn: "focus_turn sample_run () (sample_ready\<lparr>ex_focus_set := fs_new\<rparr>) =
     Inr (Some (0, Some r), sample_ready\<lparr>ex_multi_book := [() \<mapsto> st], ex_pending_effects := Some sample_effects\<rparr>)"
    using sample_turn by blast
  have pop: "snd (fs_pop_front \<lparr> fs_queue = [()], fs_filter = {()} \<rparr>) = fs_new" by (simp add: fs_pop_front_def fs_new_def)
  have fund: "on_funding_event (Produced 100) with_both = sample_ready"
    by (simp add: sample_ready_def with_both_def with_pool_def executor_new_def)
  have block: "sample_ready\<lparr>ex_blocker := None\<rparr> = sample_ready"
    by (simp add: sample_ready_def with_both_def with_pool_def executor_new_def)
  have "poll_next sample_run True False [] [ledger_event pool_entity, ledger_event order_entity] [Produced 100] executor_new =
      Inr (Some (0, Some r), [], sample_ready\<lparr>ex_multi_book := [() \<mapsto> st], ex_pending_effects := Some sample_effects\<rparr>)"
    by (simp add: poll_next_def pool_arrives order_arrives after_events_def fund block pass_blockers_def pop turn del: on_funding_event.simps)
  then show ?thesis
    using that [of "sample_start\<lparr>eg_executor := sample_ready\<lparr>ex_multi_book := [() \<mapsto> st], ex_pending_effects := Some sample_effects\<rparr>,
      eg_upstream := [], eg_funding := [], eg_submitted := [0], eg_reports := (if isl answer then [] else [r]), eg_feedback := [answer]\<rparr>" st]
    by (simp add: sample_start_def engine_new_def)
qed

lemma sample_pending_reachable:
  assumes "engine_step sample_run (Poll answer) sample_start = Inr g"
    "eg_executor g = sample_ready\<lparr>ex_multi_book := mb, ex_pending_effects := Some sample_effects\<rparr>"
  shows "engine_reachable sample_run {pool_entity, order_entity, next_pool} g"
proof -
  have "pending_states g = {next_pool}" by (simp add: pending_states_def assms(2) sample_effects_def)
  then show ?thesis using engine_reachable.step [OF sample_start_reachable assms(1)] by (simp add: insert_commute)
qed

text \<open>Whatever the network answers to the transaction, the next poll does not panic.\<close>

lemma engine_never_panics_witness:
  "\<forall>answer later. \<exists>g. engine_step sample_run (Poll answer) sample_start = Inr g \<and> eg_submitted g = [0] \<and>
     (case engine_step sample_run (Poll later) g of
        Inl e \<Rightarrow> e \<in> {Attempt_failed, Backlog_failed, Report_failed}
      | Inr g' \<Rightarrow> ex_pending_effects (eg_executor g') = None \<longrightarrow> eg_feedback g' = [] \<and>
          (\<forall>pair. is_idle (the_book sample_run pair (eg_executor g'))))"
proof (intro allI)
  fix answer later
  obtain g st where g: "engine_step sample_run (Poll answer) sample_start = Inr g" "eg_submitted g = [0]"
    "eg_executor g = sample_ready\<lparr>ex_multi_book := [() \<mapsto> st], ex_pending_effects := Some sample_effects\<rparr>"
    by (rule sample_emits)
  from engine_never_panics [where E = sample_engine and fuel = 1 and inner = 2 and conf = "demanding_config 1" and time = 0, folded sample_run_def, OF sample_pending_reachable [OF g(1,3)] sample_well_kinded]
  show "\<exists>g. engine_step sample_run (Poll answer) sample_start = Inr g \<and> eg_submitted g = [0] \<and>
     (case engine_step sample_run (Poll later) g of
        Inl e \<Rightarrow> e \<in> {Attempt_failed, Backlog_failed, Report_failed}
      | Inr g' \<Rightarrow> ex_pending_effects (eg_executor g') = None \<longrightarrow> eg_feedback g' = [] \<and>
          (\<forall>pair. is_idle (the_book sample_run pair (eg_executor g'))))"
    using g(1,2) by blast
qed

lemma engine_index_sound_witness:
  "\<forall>answer. \<exists>g. engine_step sample_run (Poll answer) sample_start = Inr g \<and>
     ex_pending_effects (eg_executor g) = Some sample_effects \<and>
     get_state 7 (ex_index (eg_executor g)) = Some order_entity \<and>
     get_state 8 (ex_index (eg_executor g)) = Some pool_entity \<and>
     si_ok (evolving_ops sample_run) {pool_entity, order_entity, next_pool} (ex_index (eg_executor g))"
proof (intro allI)
  fix answer
  obtain g st where g: "engine_step sample_run (Poll answer) sample_start = Inr g" "eg_submitted g = [0]"
    "eg_executor g = sample_ready\<lparr>ex_multi_book := [() \<mapsto> st], ex_pending_effects := Some sample_effects\<rparr>"
    by (rule sample_emits)
  from engine_index_sound [where E = sample_engine and fuel = 1 and inner = 2 and conf = "demanding_config 1" and time = 0, folded sample_run_def, OF sample_pending_reachable [OF g(1,3)] sample_well_kinded]
  have "si_ok (evolving_ops sample_run) {pool_entity, order_entity, next_pool} (ex_index (eg_executor g))" by blast
  then show "\<exists>g. engine_step sample_run (Poll answer) sample_start = Inr g \<and>
     ex_pending_effects (eg_executor g) = Some sample_effects \<and>
     get_state 7 (ex_index (eg_executor g)) = Some order_entity \<and>
     get_state 8 (ex_index (eg_executor g)) = Some pool_entity \<and>
     si_ok (evolving_ops sample_run) {pool_entity, order_entity, next_pool} (ex_index (eg_executor g))"
    using g by (simp add: get_state_def)
qed

subsection \<open>A transaction whose inputs are missing\<close>

abbreviation pool_predicted :: "(sample_state, nat) state_index" where
  "pool_predicted \<equiv> \<lparr> si_store = [8 \<mapsto> pool_entity, 7 \<mapsto> order_entity, 18 \<mapsto> next_pool],
     si_index = [[3, 9] \<mapsto> 8, [3, 1] \<mapsto> 7, [5, 9] \<mapsto> 18] \<rparr>"

definition sample_pending :: sample_executor where
  "sample_pending = sample_ready\<lparr>ex_index := put_predicted (evolving_ops sample_run) next_pool pool_and_order,
     ex_pending_effects := Some (sample_effects\<lparr>ef_consumed_versions := {7, 8, 18}\<rparr>)\<rparr>"

lemma sample_predicted: "put_predicted (evolving_ops sample_run) next_pool pool_and_order = pool_predicted"
  by (simp add: put_predicted_def si_put_def Let_def index_key_def state_key_defs List.map_filter_simps)

lemma sample_invalidated:
  "snd (invalidate_version (evolving_ops sample_run) 7 pool_predicted) =
     \<lparr> si_store = [8 \<mapsto> pool_entity, 18 \<mapsto> next_pool], si_index = [[3, 9] \<mapsto> 8, [5, 9] \<mapsto> 18] \<rparr>"
  "snd (invalidate_version (evolving_ops sample_run) 8
     \<lparr> si_store = [8 \<mapsto> pool_entity, 18 \<mapsto> next_pool], si_index = [[3, 9] \<mapsto> 8, [5, 9] \<mapsto> 18] \<rparr>) =
     \<lparr> si_store = [8 \<mapsto> pool_entity, 18 \<mapsto> next_pool], si_index = [[3, 9] \<mapsto> 8, [5, 9] \<mapsto> 18] \<rparr>"
  "snd (invalidate_version (evolving_ops sample_run) 18
     \<lparr> si_store = [8 \<mapsto> pool_entity, 18 \<mapsto> next_pool], si_index = [[3, 9] \<mapsto> 8, [5, 9] \<mapsto> 18] \<rparr>) = pool_only"
  by (auto simp: invalidate_version_def drop_binding_def Let_def index_key_def state_key_defs fun_eq_iff)

lemma sample_next [simp]: "bd_entity next_pool = Inr (Baked swapped_pool 18)" "bd_bearer next_pool = 18"
  by (simp_all add: next_pool_def)

lemma sample_settles:
  "\<exists>s'. settle_feedback sample_run [Inl (Some [7, 8, 18])] sample_pending = Inr ([], s')"
proof -
  let ?p = "\<lparr> si_store = [8 \<mapsto> pool_entity, 18 \<mapsto> next_pool], si_index = [[3, 9] \<mapsto> 8, [5, 9] \<mapsto> 18] \<rparr>"
  have res: "resolve_state (evolving_ops sample_run) (sn_id (evolving_ops sample_run) order_entity) pool_predicted = Some order_entity"
    "resolve_state (evolving_ops sample_run) (sn_id (evolving_ops sample_run) order_entity) ?p = None"
    "resolve_state (evolving_ops sample_run) (sn_id (evolving_ops sample_run) pool_entity) ?p = Some next_pool"
    "resolve_state (evolving_ops sample_run) (sn_id (evolving_ops sample_run) next_pool) ?p = Some next_pool"
    "resolve_state (evolving_ops sample_run) (sn_id (evolving_ops sample_run) next_pool) pool_only = Some pool_entity"
    by (simp_all add: resolve_state_def or_else_def get_last_confirmed_def get_last_unconfirmed_def get_last_predicted_def
        get_fallback_def si_get_def index_key_def state_key_defs)
  show ?thesis
    by (simp add: sample_pending_def sample_predicted sample_effects_def on_execution_effects_failure_def invalidate_versions_def
        invalidate_one_def book_recipe_failed_def set_book_def the_book_def mp_get_def get_state_def tlb_book_def res sample_invalidated
        on_recipe_failed_def Let_def on_book_def requiring_settled_state_def remove_taker_def update_maker_def)
qed

text \<open>The order and the predicted pool are gone, with their keys; the confirmed pool stays, and is current again.\<close>

lemma rejected_inputs_forgotten_witness:
  "\<exists>s'. settle_feedback sample_run [Inl (Some [7, 8, 18])] sample_pending = Inr ([], s') \<and>
     get_state 7 (ex_index s') = None \<and> get_state 18 (ex_index s') = None \<and> get_state 8 (ex_index s') = Some pool_entity \<and>
     si_index (ex_index s') [3, 1] \<noteq> Some 7 \<and> si_index (ex_index s') [5, 9] \<noteq> Some 18 \<and> si_index (ex_index s') [3, 9] = Some 8"
proof -
  obtain s' where s': "settle_feedback sample_run [Inl (Some [7, 8, 18])] sample_pending = Inr ([], s')"
    using sample_settles by blast
  have ef: "ex_pending_effects sample_pending = Some (sample_effects\<lparr>ef_consumed_versions := {7, 8, 18}\<rparr>)"
    and i: "ex_index sample_pending = pool_predicted" by (simp_all add: sample_pending_def sample_predicted)
  have known: "still_known (evolving_ops sample_run) pool_predicted 7 = None"
    "still_known (evolving_ops sample_run) pool_predicted 18 = None"
    "still_known (evolving_ops sample_run) pool_predicted 8 = Some pool_entity"
    by (simp_all add: still_known_def get_state_def index_key_def state_key_defs)
  have revoked: "key_revoked (evolving_ops sample_run) pool_predicted 7 [3, 1]"
    "key_revoked (evolving_ops sample_run) pool_predicted 18 [5, 9]"
    "\<not> key_revoked (evolving_ops sample_run) pool_predicted 8 [3, 9]"
    by (simp_all add: key_revoked_def get_state_def index_key_def state_key_defs)
  from rejected_inputs_forgotten [OF ef s'] have
    v: "\<forall>v. get_state v (ex_index s') = (if v \<in> {7, 8, 18} then still_known (evolving_ops sample_run) pool_predicted v
      else get_state v pool_predicted)" and
    k: "\<forall>key v. si_index (ex_index s') key = Some v \<longleftrightarrow> si_index pool_predicted key = Some v \<and>
      \<not> (v \<in> {7, 8, 18} \<and> key_revoked (evolving_ops sample_run) pool_predicted v key)"
    unfolding i sample_ids id_apply option.case by simp_all
  have "si_index pool_predicted [3, 9] = Some 8" by simp
  then show ?thesis using s' v known k revoked by (intro exI [of _ s']) (simp del: state_index.simps)
qed

end
