(* ===== verification/Entity_Sink.thy ===== *)
theory Entity_Sink
  imports Entity_Index Ledger_Events "HOL-Library.Multiset"
begin

text \<open>
  The event handlers that turn transactions into updates for the engine,
  packages/bloom-offchain-cardano/src/event_sink/handler.rs, with the partitioned topics of
  packages/spectrum-offchain/src/partitioning.rs: funding boxes, entities that evolve from
  transaction to transaction, and orders that live for one. A handler gives back the event with the
  outputs it did not recognise, what it sends to its topics and its new state. A hash map is
  the list of its entries; where a handler iterates over one, or over a hash set, the hasher is
  seeded at random for each of them, and the order is a parameter of the call (\<open>hash_orders\<close>): any
  function that gives the keys back in some order. The identifiers of consumed and produced
  entities, which recognition reads as a collection, are listed in the order of their insertion.
  Recognition of an output, the comparison of addresses and the hash of a pair are parameters;
  \<open>now\<close> is a reading of the clock.
\<close>

subsection \<open>Topics and batches\<close>

definition get_by_id :: "nat \<Rightarrow> nat \<Rightarrow> nat" where
  "get_by_id n i = i mod n"

definition get_mut :: "('pair \<Rightarrow> nat) \<Rightarrow> nat \<Rightarrow> 'pair \<Rightarrow> nat" where
  "get_mut hash n key = hash key mod n"

fun push_entry :: "'k \<Rightarrow> 'val \<Rightarrow> ('k \<times> 'val list) list \<Rightarrow> ('k \<times> 'val list) list" where
  "push_entry k x [] = [(k, [x])]"
| "push_entry k x ((k', xs) # m) = (if k = k' then (k', xs @ [x]) # m else (k', xs) # push_entry k x m)"

text \<open>
  The order in which a hash container gives its keys: what \<open>f\<close> makes of them, if that is all of them.
\<close>

record ('k, 'pair) hash_orders =
  ho_ids :: "'k list \<Rightarrow> 'k list"
  ho_pairs :: "'pair list \<Rightarrow> 'pair list"

definition hash_order :: "('a list \<Rightarrow> 'a list) \<Rightarrow> 'a list \<Rightarrow> 'a list" where
  "hash_order f xs = (if mset (f xs) = mset xs then f xs else xs)"

definition hash_entries :: "('k list \<Rightarrow> 'k list) \<Rightarrow> ('k \<times> 'val list) list \<Rightarrow> ('k \<times> 'val list) list" where
  "hash_entries f m = map (\<lambda>k. (k, the (map_of m k))) (hash_order f (map fst m))"

text \<open>
  Outputs are popped from the back; those that \<open>f\<close> does not take are kept in their order.
\<close>

fun pop_outputs :: "('o \<Rightarrow> 's \<Rightarrow> 's option) \<Rightarrow> 'o list \<Rightarrow> 's \<times> 'o list \<Rightarrow> 's \<times> 'o list" where
  "pop_outputs f [] acc = acc"
| "pop_outputs f (x # xs) (s, rest) =
     (case f x s of Some s' \<Rightarrow> pop_outputs f xs (s', rest) | None \<Rightarrow> pop_outputs f xs (s, x # rest))"

record ledger_cx =
  cx_block_hash :: hash32
  cx_slot :: slot

abbreviation input_refs :: "tx_view_mut \<Rightarrow> output_ref list" where
  "input_refs tx \<equiv> map output_ref_from_input (tv_inputs tx)"

abbreviation output_ref_of :: "tx_view_mut \<Rightarrow> nat \<Rightarrow> output_ref" where
  "output_ref_of tx ix \<equiv> OutputRef (tv_hash tx) (of_nat ix)"

subsection \<open>Funding\<close>

datatype finalized_tx_out = FinalizedTxOut tx_output (fin_reference: output_ref)

definition partition_by_address :: "'addr list \<Rightarrow> 'addr \<Rightarrow> nat option" where
  "partition_by_address addrs a = find (\<lambda>i. addrs ! i = a) [0..<length addrs]"

record 'addr funding_handler =
  fh_address_of :: "tx_output \<Rightarrow> 'addr"
  fh_addresses :: "'addr list"
  fh_skip_set :: output_ref
  fh_index :: "(output_ref, nat \<times> finalized_tx_out) kv_index"

definition extract_funding_events ::
    "'addr funding_handler \<Rightarrow> tx_view_mut \<Rightarrow>
     tx_view_mut + (nat \<times> finalized_tx_out funding_event) list \<times> tx_view_mut" where
  "extract_funding_events H tx =
     (if tv_outputs tx = [] then Inl tx
      else
        (let consumed_utxos = List.map_filter (\<lambda>oref. kv_get oref (fh_index H)) (input_refs tx);
             (produced_utxos, non_processed_outputs) = pop_outputs (\<lambda>(ix, out) produced.
                 case partition_by_address (fh_addresses H) (fh_address_of H out) of
                   Some part \<Rightarrow> Some (if output_ref_of tx ix \<noteq> fh_skip_set H
                     then produced @ [(part, FinalizedTxOut out (output_ref_of tx ix))] else produced)
                 | None \<Rightarrow> None) (rev (tv_outputs tx)) ([], []);
             tx' = tx\<lparr>tv_outputs := non_processed_outputs\<rparr>;
             events = map (\<lambda>(pt, utxo). (pt, Consumed utxo)) consumed_utxos @
               map (\<lambda>(pt, utxo). (pt, Produced utxo)) produced_utxos
         in if events = [] then Inl tx' else Inr (events, tx')))"

fun index_funding_event ::
    "nat \<Rightarrow> nat \<Rightarrow> finalized_tx_out funding_event \<Rightarrow> (output_ref, nat \<times> finalized_tx_out) kv_index \<Rightarrow>
     (output_ref, nat \<times> finalized_tx_out) kv_index" where
  "index_funding_event now part (Consumed utxo) ix = kv_register_for_eviction now (fin_reference utxo) ix"
| "index_funding_event now part (Produced utxo) ix = kv_put (fin_reference utxo) (part, utxo) ix"

definition funding_updates ::
    "nat \<Rightarrow> (finalized_tx_out funding_event \<Rightarrow> finalized_tx_out funding_event) \<Rightarrow>
     (nat \<times> finalized_tx_out funding_event) list \<Rightarrow> (output_ref, nat \<times> finalized_tx_out) kv_index \<Rightarrow>
     (nat \<times> finalized_tx_out funding_event list) list \<times> (output_ref, nat \<times> finalized_tx_out) kv_index" where
  "funding_updates now turn events ix =
     fold (\<lambda>(pt, event) (events_by_part, ix).
         (push_entry pt (turn event) events_by_part, index_funding_event now pt (turn event) ix))
       events ([], kv_run_eviction now ix)"

definition funding_handle where
  "funding_handle parts H now turn tx =
     (case extract_funding_events H tx of
        Inl tx' \<Rightarrow> (tx', [], H)
      | Inr (events, tx') \<Rightarrow>
          (let (events_by_part, ix) = funding_updates now turn events (fh_index H)
           in (tx', map (\<lambda>(pt, es). (get_by_id (length (fh_addresses H)) pt, es)) (hash_entries parts events_by_part), H\<lparr>fh_index := ix\<rparr>)))"

fun funding_try_handle_ledger where
  "funding_try_handle_ledger parts H now (TxApplied tx sl bn bh) =
     (let (tx', sent, H') = funding_handle parts H now id tx in (Some (TxApplied tx' sl bn bh), sent, H'))"
| "funding_try_handle_ledger parts H now (TxUnapplied tx sl bn bh) =
     (let (tx', sent, H') = funding_handle parts H now funding_inverse tx in (Some (TxUnapplied tx' sl bn bh), sent, H'))"

fun funding_try_handle_mempool where
  "funding_try_handle_mempool parts H now (TxAccepted tx) =
     (let (tx', sent, H') = funding_handle parts H now id tx in (Some (TxAccepted tx'), sent, H'))"
| "funding_try_handle_mempool parts H now (TxDropped tx) =
     (let (tx', sent, H') = funding_handle parts H now funding_inverse tx in (Some (TxDropped tx'), sent, H'))"

subsection \<open>Evolving entities\<close>

record 'sid event_context =
  ec_output_ref :: output_ref
  ec_metadata :: "bytes option"
  ec_consumed_utxos :: "output_ref small_vec"
  ec_consumed_identifiers :: "'sid small_vec"
  ec_produced_identifiers :: "'sid small_vec"
  ec_added_payment_destinations :: "hash28 small_vec"
  ec_mints :: "token small_vec option"

record ('e, 'sid, 'v, 'pair) pair_handler =
  ph_tradable :: "('e, 'sid, 'v, 'pair) tradable_ops"
  ph_version_from :: "output_ref \<Rightarrow> 'v"
  ph_try_from_ledger :: "tx_output \<Rightarrow> 'sid event_context \<Rightarrow> 'e option"
  ph_hash :: "'pair \<Rightarrow> nat"
  ph_partitions :: nat
  ph_index :: "('e, 'sid, 'v, 'pair) entity_index"

definition consumed_entities :: "('e, 'sid, 'v, 'pair) pair_handler \<Rightarrow> output_ref list \<Rightarrow> ('sid \<times> 'e) list" where
  "consumed_entities H orefs =
     fold (\<lambda>oref consumed.
         if ei_exists (ph_version_from H oref) (ph_index H)
         then (case ei_get_state (ph_version_from H oref) (ph_index H) of
             Some entity \<Rightarrow> AList.update (sn_id (tr_snapshot (ph_tradable H)) entity) entity consumed
           | None \<Rightarrow> consumed)
         else consumed) orefs []"

fun outbound_key :: "address \<Rightarrow> hash28 option" where
  "outbound_key (Base (PubKey h) _) = Some h"
| "outbound_key (Enterprise (PubKey h)) = Some h"
| "outbound_key _ = None"

definition added_destinations :: "tx_view_mut \<Rightarrow> hash28 small_vec" where
  "added_destinations tx = sv_new (filter (\<lambda>dst. dst \<notin> set (tv_signers tx))
     (List.map_filter (\<lambda>(_, out). outbound_key (output_address out)) (tv_outputs tx)))"

definition recognise_entity where
  "recognise_entity H tx consumed = (\<lambda>(ix, out) produced.
     map_option (\<lambda>entity. AList.update (sn_id (tr_snapshot (ph_tradable H)) entity) entity produced)
       (ph_try_from_ledger H out \<lparr>
          ec_output_ref = output_ref_of tx ix, ec_metadata = tv_metadata tx,
          ec_consumed_utxos = sv_new (input_refs tx),
          ec_consumed_identifiers = sv_new (map fst consumed),
          ec_produced_identifiers = sv_new (map fst produced),
          ec_added_payment_destinations = added_destinations tx, ec_mints = tv_mints tx \<rparr>))"

definition match_states ::
    "('sid, 'pair) hash_orders \<Rightarrow> ('sid \<times> 'e) list \<Rightarrow> ('sid \<times> 'e) list \<Rightarrow> ('e, 'e) ior list" where
  "match_states ho consumed produced =
     List.map_filter (\<lambda>k. ior_try_from (map_of consumed k, map_of produced k))
       (hash_order (ho_ids ho) (remdups (map fst consumed @ map fst produced)))"

definition extract_continuous_transitions ::
    "('sid, 'pair) hash_orders \<Rightarrow> ('e, 'sid, 'v, 'pair) pair_handler \<Rightarrow> tx_view_mut \<Rightarrow> tx_view_mut + ('e, 'e) ior list \<times> tx_view_mut" where
  "extract_continuous_transitions ho H tx =
     (if tv_outputs tx = [] then Inl tx
      else
        (let consumed = consumed_entities H (input_refs tx);
             (produced, non_processed_outputs) =
               pop_outputs (recognise_entity H tx consumed) (rev (tv_outputs tx)) ([], []);
             tx' = tx\<lparr>tv_outputs := non_processed_outputs\<rparr>;
             transitions = match_states ho consumed produced
         in if transitions = [] then Inl tx' else Inr (transitions, tx')))"

fun pair_id_of :: "('e \<Rightarrow> 'pair) \<Rightarrow> ('e, 'e) ior \<Rightarrow> 'pair" where
  "pair_id_of pair (Left st) = pair st"
| "pair_id_of pair (Right st) = pair st"
| "pair_id_of pair (Both st _) = pair st"

fun index_transition ::
    "('e, 'sid, 'v, 'pair) tradable_ops \<Rightarrow> nat \<Rightarrow> ('e, 'e) ior \<Rightarrow> ('e, 'sid, 'v, 'pair) entity_index \<Rightarrow>
     ('e, 'sid, 'v, 'pair) entity_index" where
  "index_transition R now (Left consumed) ix = ei_register_for_eviction now (sn_ver (tr_snapshot R) consumed) ix"
| "index_transition R now (Right produced) ix = ei_put_state R produced ix"
| "index_transition R now (Both consumed produced) ix =
     ei_put_state R produced (ei_register_for_eviction now (sn_ver (tr_snapshot R) consumed) ix)"

text \<open>
  Each transition is indexed as \<open>to_index\<close> turns it and sent as \<open>to_send\<close> turns it; for a
  dropped transaction the two differ.
\<close>

definition pair_updates where
  "pair_updates R now to_index to_send upd transitions ix =
     fold (\<lambda>tr (updates, ix).
         (push_entry (pair_id_of (tr_pair R) (to_send tr)) (upd (to_send tr)) updates,
          index_transition R now (to_index tr) ix))
       transitions ([], ei_run_eviction now ix)"

definition pair_handle where
  "pair_handle ho H now to_index to_send upd tx =
     (case extract_continuous_transitions ho H tx of
        Inl tx' \<Rightarrow> (tx', [], H)
      | Inr (transitions, tx') \<Rightarrow>
          (let (updates, ix) = pair_updates (ph_tradable H) now to_index to_send upd transitions (ph_index H)
           in (tx', map (\<lambda>(pair, us). (get_mut (ph_hash H) (ph_partitions H) pair, pair, us)) (hash_entries (ho_pairs ho) updates),
               H\<lparr>ph_index := ix\<rparr>)))"

fun pair_try_handle_ledger where
  "pair_try_handle_ledger ho H now (TxApplied tx sl bn bh) =
     (let (tx', sent, H') = pair_handle ho H now id id
        (\<lambda>tr. LedgerCh (Forward tr) \<lparr> cx_block_hash = bh, cx_slot = sl \<rparr>) tx
      in (Some (TxApplied tx' sl bn bh), sent, H'))"
| "pair_try_handle_ledger ho H now (TxUnapplied tx sl bn bh) =
     (let (tx', sent, H') = pair_handle ho H now ior_swap ior_swap
        (\<lambda>tr. LedgerCh (Backward tr) \<lparr> cx_block_hash = bh, cx_slot = sl \<rparr>) tx
      in (Some (TxUnapplied tx' sl bn bh), sent, H'))"

fun pair_try_handle_mempool where
  "pair_try_handle_mempool ho H now (TxAccepted tx) =
     (let (tx', sent, H') = pair_handle ho H now id id (\<lambda>tr. MempoolCh (Forward tr) :: (_, ledger_cx) channel) tx
      in (Some (TxAccepted tx'), sent, H'))"
| "pair_try_handle_mempool ho H now (TxDropped tx) =
     (let (tx', sent, H') = pair_handle ho H now id ior_swap (\<lambda>tr. MempoolCh (Backward tr) :: (_, ledger_cx) channel) tx
      in (Some (TxDropped tx'), sent, H'))"

subsection \<open>Orders of one transaction\<close>

record ('ord, 'oid, 'sid) special_ops =
  sp_self_ref :: "'ord \<Rightarrow> 'oid"
  sp_pool_ref :: "'ord \<Rightarrow> 'sid"
  sp_id_from :: "output_ref \<Rightarrow> 'oid"
  sp_try_from_ledger :: "tx_output \<Rightarrow> 'sid event_context \<Rightarrow> 'ord option"

record ('ord, 'oid, 'sid, 'pair) special_handler =
  sh_ops :: "('ord, 'oid, 'sid) special_ops"
  sh_hash :: "'pair \<Rightarrow> nat"
  sh_partitions :: nat
  sh_order_index :: "('oid, 'ord) kv_index"

fun pool_ref_of :: "('ord, 'oid, 'sid) special_ops \<Rightarrow> 'ord + 'ord \<Rightarrow> 'sid" where
  "pool_ref_of R (Inl ord) = sp_pool_ref R ord"
| "pool_ref_of R (Inr ord) = sp_pool_ref R ord"

definition recognise_order where
  "recognise_order R tx = (\<lambda>(ix, out) produced.
     map_option (\<lambda>ord. AList.update (sp_self_ref R ord) ord produced)
       (sp_try_from_ledger R out \<lparr>
          ec_output_ref = output_ref_of tx ix, ec_metadata = tv_metadata tx,
          ec_consumed_utxos = sv_new (input_refs tx), ec_consumed_identifiers = sv_default,
          ec_produced_identifiers = sv_default, ec_added_payment_destinations = sv_default,
          ec_mints = tv_mints tx \<rparr>))"

definition extract_atomic_transitions ::
    "('oid, 'pair) hash_orders \<Rightarrow> ('ord, 'oid, 'sid, 'pair) special_handler \<Rightarrow> tx_view_mut \<Rightarrow> tx_view_mut + ('ord + 'ord) list \<times> tx_view_mut" where
  "extract_atomic_transitions ho H tx =
     (if tv_outputs tx = [] then Inl tx
      else
        (let R = sh_ops H;
             consumed_orders = fold (\<lambda>oref consumed.
                 case kv_get (sp_id_from R oref) (sh_order_index H) of
                   Some ord \<Rightarrow> AList.update (sp_self_ref R ord) ord consumed
                 | None \<Rightarrow> consumed) (input_refs tx) [];
             (produced_orders, non_processed_outputs) =
               pop_outputs (recognise_order R tx) (rev (tv_outputs tx)) ([], []);
             tx' = tx\<lparr>tv_outputs := non_processed_outputs\<rparr>;
             transitions = List.map_filter (\<lambda>k. case map_of consumed_orders k of
                 Some consumed \<Rightarrow> Some (Inl consumed)
               | None \<Rightarrow> map_option Inr (map_of produced_orders k))
               (hash_order (ho_ids ho) (remdups (map fst consumed_orders @ map fst produced_orders)))
         in if transitions = [] then Inl tx' else Inr (transitions, tx')))"

fun index_atomic_transition ::
    "('ord, 'oid, 'sid) special_ops \<Rightarrow> nat \<Rightarrow> 'ord + 'ord \<Rightarrow> ('oid, 'ord) kv_index \<Rightarrow> ('oid, 'ord) kv_index" where
  "index_atomic_transition R now (Inl consumed) ix = kv_register_for_eviction now (sp_self_ref R consumed) ix"
| "index_atomic_transition R now (Inr produced) ix = kv_put (sp_self_ref R produced) produced ix"

fun either_flip :: "'a + 'c \<Rightarrow> 'c + 'a" where
  "either_flip (Inl a) = Inr a"
| "either_flip (Inr a) = Inl a"

text \<open>A transition of an order whose pool is not known is dropped, also from the index.\<close>

definition special_updates where
  "special_updates R now pair_of turn upd transitions ix =
     fold (\<lambda>tr (updates, ix).
         case pair_of (pool_ref_of R tr) of
           Some pair \<Rightarrow> (push_entry pair (upd (order_update_from (turn tr))) updates,
             index_atomic_transition R now (turn tr) ix)
         | None \<Rightarrow> (updates, ix))
       transitions ([], kv_run_eviction now ix)"

definition special_handle where
  "special_handle ho H pool_index now turn upd tx =
     (case extract_atomic_transitions ho H tx of
        Inl tx' \<Rightarrow> (tx', [], H)
      | Inr (transitions, tx') \<Rightarrow>
          (let (updates, ix) = special_updates (sh_ops H) now (\<lambda>sid. ei_pair_of sid pool_index) turn upd transitions (sh_order_index H)
           in (tx', map (\<lambda>(pair, us). (get_mut (sh_hash H) (sh_partitions H) pair, pair, us)) (hash_entries (ho_pairs ho) updates),
               H\<lparr>sh_order_index := ix\<rparr>)))"

fun special_try_handle_ledger where
  "special_try_handle_ledger ho H pool_index now (TxApplied tx sl bn bh) =
     (let (tx', sent, H') = special_handle ho H pool_index now id
        (\<lambda>u. LedgerCh u \<lparr> cx_block_hash = bh, cx_slot = sl \<rparr>) tx
      in (Some (TxApplied tx' sl bn bh), sent, H'))"
| "special_try_handle_ledger ho H pool_index now (TxUnapplied tx sl bn bh) =
     (let (tx', sent, H') = special_handle ho H pool_index now either_flip
        (\<lambda>u. LedgerCh u \<lparr> cx_block_hash = bh, cx_slot = sl \<rparr>) tx
      in (Some (TxUnapplied tx' sl bn bh), sent, H'))"

fun special_try_handle_mempool where
  "special_try_handle_mempool ho H pool_index now (TxAccepted tx) =
     (let (tx', sent, H') = special_handle ho H pool_index now id (\<lambda>u. MempoolCh u :: (_, ledger_cx) channel) tx in (Some (TxAccepted tx'), sent, H'))"
| "special_try_handle_mempool ho H pool_index now (TxDropped tx) =
     (let (tx', sent, H') = special_handle ho H pool_index now either_flip (\<lambda>u. MempoolCh u :: (_, ledger_cx) channel) tx in (Some (TxDropped tx'), sent, H'))"

end
