(* ===== verification/Entity_Sink_Spec.thy ===== *)
theory Entity_Sink_Spec
  imports Entity_Sink State_Index_Spec
begin

text \<open>
  What the handlers of entities report: the transitions of a transaction, exactly; the inverse
  when the ledger takes the transaction back; and what is left in the index when a transaction is
  undone.
\<close>

subsection \<open>Extraction\<close>

lemma fold_update_map_of: "map_of (fold (\<lambda>(k, x). AList.update k x) kvs m) = map_of m ++ map_of (rev kvs)"
  by (induction kvs arbitrary: m) (auto simp: update_conv' fun_eq_iff map_add_def split: option.split)

lemma fold_map_filter: "fold (\<lambda>x s. case f x of Some y \<Rightarrow> g y s | None \<Rightarrow> s) xs s = fold g (List.map_filter f xs) s"
  by (induction xs arbitrary: s) (auto simp: List.map_filter_simps split: option.split)

lemma pop_outputs_unfold:
  assumes "\<And>x s. f x s = map_option (\<lambda>y. g y s) (h x)"
  shows "pop_outputs f xs (s, rest) =
     (fold g (List.map_filter h xs) s, rev (filter (\<lambda>x. h x = None) xs) @ rest)"
  by (induction xs arbitrary: s rest) (auto simp: assms List.map_filter_simps split: option.split)

lemma map_filter_rev: "List.map_filter f (rev xs) = rev (List.map_filter f xs)"
  by (simp add: List.map_filter_def rev_map flip: rev_filter)

text \<open>The states a transaction consumes and produces, by their stable identifiers.\<close>

definition consumed_state :: "('e, 'sid, 'v, 'pair) pair_handler \<Rightarrow> tx_view_mut \<Rightarrow> 'sid \<Rightarrow> 'e option" where
  "consumed_state H tx = map_of (rev (List.map_filter
     (\<lambda>oref. map_option (\<lambda>e. (sn_id (tr_snapshot (ph_tradable H)) e, e)) (ei_get_state (ph_version_from H oref) (ph_index H)))
     (input_refs tx)))"

definition recognised :: "('e, 'sid, 'v, 'pair) pair_handler \<Rightarrow> tx_view_mut \<Rightarrow> nat \<times> tx_output \<Rightarrow> 'e option" where
  "recognised H tx = (\<lambda>(ix, out). ph_try_from_ledger H out \<lparr>
     ec_output_ref = output_ref_of tx ix, ec_metadata = tv_metadata tx,
     ec_consumed_utxos = sv_new (input_refs tx),
     ec_consumed_identifiers = sv_new (map fst (consumed_entities H (input_refs tx))),
     ec_produced_identifiers = sv_new [],
     ec_added_payment_destinations = added_destinations tx, ec_mints = tv_mints tx \<rparr>)"

definition produced_state :: "('e, 'sid, 'v, 'pair) pair_handler \<Rightarrow> tx_view_mut \<Rightarrow> 'sid \<Rightarrow> 'e option" where
  "produced_state H tx = map_of (List.map_filter
     (\<lambda>x. map_option (\<lambda>e. (sn_id (tr_snapshot (ph_tradable H)) e, e)) (recognised H tx x)) (tv_outputs tx))"

definition ignores_produced :: "('e, 'sid, 'v, 'pair) pair_handler \<Rightarrow> bool" where
  "ignores_produced H \<longleftrightarrow> (\<forall>out cx ps. ph_try_from_ledger H out (cx\<lparr>ec_produced_identifiers := ps\<rparr>) = ph_try_from_ledger H out cx)"

lemma consumed_entities_map: "map_of (consumed_entities H (input_refs tx)) = consumed_state H tx"
proof -
  let ?S = "tr_snapshot (ph_tradable H)"
  let ?f = "\<lambda>oref. map_option (\<lambda>e. (sn_id ?S e, e)) (ei_get_state (ph_version_from H oref) (ph_index H))"
  have eq: "(\<lambda>oref m. if ei_exists (ph_version_from H oref) (ph_index H)
         then (case ei_get_state (ph_version_from H oref) (ph_index H) of
             Some entity \<Rightarrow> AList.update (sn_id ?S entity) entity m | None \<Rightarrow> m) else m) =
       (\<lambda>oref m. case ?f oref of Some y \<Rightarrow> (\<lambda>(k, e). AList.update k e) y m | None \<Rightarrow> m)"
    by (auto simp: ei_exists_def ei_get_state_def kv_exists_def kv_get_def fun_eq_iff split: option.split)
  have "consumed_entities H orefs = fold (\<lambda>(k, e). AList.update k e) (List.map_filter ?f orefs) []" for orefs
    unfolding consumed_entities_def eq by (rule fold_map_filter)
  then show ?thesis by (simp add: fold_update_map_of consumed_state_def)
qed

lemma produced_entities_map:
  assumes "ignores_produced H"
    and "pop_outputs (recognise_entity H tx (consumed_entities H (input_refs tx))) (rev (tv_outputs tx)) ([], []) = (produced, rest)"
  shows "map_of produced = produced_state H tx" "rest = filter (\<lambda>x. recognised H tx x = None) (tv_outputs tx)"
proof -
  let ?S = "tr_snapshot (ph_tradable H)"
  let ?h = "\<lambda>x. map_option (\<lambda>e. (sn_id ?S e, e)) (recognised H tx x)"
  have "recognise_entity H tx (consumed_entities H (input_refs tx)) x m =
      map_option (\<lambda>y. (\<lambda>(k, e). AList.update k e) y m) (?h x)" for x m
  proof -
    obtain ix out where x: "x = (ix, out)" by (cases x)
    have "ph_try_from_ledger H out \<lparr> ec_output_ref = output_ref_of tx ix, ec_metadata = tv_metadata tx,
          ec_consumed_utxos = sv_new (input_refs tx),
          ec_consumed_identifiers = sv_new (map fst (consumed_entities H (input_refs tx))),
          ec_produced_identifiers = sv_new (map fst m),
          ec_added_payment_destinations = added_destinations tx, ec_mints = tv_mints tx \<rparr> = recognised H tx x"
      using assms(1) unfolding ignores_produced_def x recognised_def
      by (metis (no_types, lifting) event_context.update_convs(5) prod.case)
    then show ?thesis by (simp add: recognise_entity_def x option.map_comp o_def)
  qed
  from pop_outputs_unfold [where f = "recognise_entity H tx (consumed_entities H (input_refs tx))", OF this]
  have p: "produced = fold (\<lambda>(k, e). AList.update k e) (List.map_filter ?h (rev (tv_outputs tx))) []"
    and r: "rest = rev (filter (\<lambda>x. ?h x = None) (rev (tv_outputs tx)))"
    using assms(2) by (simp_all add: prod_eq_iff)
  show "map_of produced = produced_state H tx"
    by (simp add: p fold_update_map_of produced_state_def map_filter_rev)
  show "rest = filter (\<lambda>x. recognised H tx x = None) (tv_outputs tx)" by (simp add: r rev_filter)
qed

lemma state_ids:
  "consumed_state H tx k = Some e \<Longrightarrow> sn_id (tr_snapshot (ph_tradable H)) e = k"
  "produced_state H tx k = Some e \<Longrightarrow> sn_id (tr_snapshot (ph_tradable H)) e = k"
  by (auto simp: consumed_state_def produced_state_def set_map_filter dest!: map_of_SomeD)

lemma mset_hash_order [simp]: "mset (hash_order f xs) = mset xs"
  by (simp add: hash_order_def)

lemma set_hash_order [simp]: "set (hash_order f xs) = set xs"
  by (metis mset_hash_order set_mset_mset)

lemma distinct_hash_order [simp]: "distinct (hash_order f xs) = distinct xs"
  using mset_eq_imp_distinct_iff [OF mset_hash_order] .

lemma match_states_set:
  "set (match_states ho consumed produced) = {tr. \<exists>k. ior_try_from (map_of consumed k, map_of produced k) = Some tr}"
proof -
  have "k \<in> fst ` set consumed \<union> fst ` set produced" if "ior_try_from (map_of consumed k, map_of produced k) = Some tr" for k tr
    using that by (metis UnCI ior_try_from.simps(4) map_of_eq_None_iff option.discI)
  then show ?thesis by (fastforce simp: match_states_def set_map_filter)
qed

lemma match_states_distinct:
  assumes "\<And>k e. map_of consumed k = Some e \<Longrightarrow> f e = k" "\<And>k e. map_of produced k = Some e \<Longrightarrow> f e = k"
  shows "distinct (map (ior_stable_id f) (match_states ho consumed produced))"
proof -
  have id: "ior_stable_id f tr = k" if "ior_try_from (map_of consumed k, map_of produced k) = Some tr" for k tr
    using that assms by (cases "map_of consumed k"; cases "map_of produced k") auto
  have "distinct ks \<Longrightarrow> distinct (map (ior_stable_id f)
      (List.map_filter (\<lambda>k. ior_try_from (map_of consumed k, map_of produced k)) ks))" for ks
    by (induction ks) (auto simp: List.map_filter_simps set_map_filter id split: option.split)
  from this [OF iffD2 [OF distinct_hash_order distinct_remdups]] show ?thesis by (simp add: match_states_def)
qed

text \<open>
  C6. The transitions found in a transaction are exact. When recognition does not depend on what the
  same transaction produced before, there is one transition for every entity that an input of the
  transaction holds in the index or an output is recognised as, and no other: gone if it was only
  consumed, new if it was only produced, both states otherwise. The outputs left for the next handler are
  those not recognised, in their order, and a transaction without a transition is handed on as it is.
\<close>

theorem continuous_transitions_exact:
  assumes "ignores_produced H" "tv_outputs tx \<noteq> []"
  shows "case extract_continuous_transitions ho H tx of
      Inl tx' \<Rightarrow> tx' = tx \<and> (\<forall>k. consumed_state H tx k = None \<and> produced_state H tx k = None)
    | Inr (trs, tx') \<Rightarrow> tx' = tx\<lparr>tv_outputs := filter (\<lambda>x. recognised H tx x = None) (tv_outputs tx)\<rparr> \<and>
        set trs = {tr. \<exists>k. ior_try_from (consumed_state H tx k, produced_state H tx k) = Some tr} \<and>
        distinct (map (ior_stable_id (sn_id (tr_snapshot (ph_tradable H)))) trs)"
proof -
  let ?c = "consumed_entities H (input_refs tx)"
  obtain produced rest where p: "pop_outputs (recognise_entity H tx ?c) (rev (tv_outputs tx)) ([], []) = (produced, rest)"
    by (metis surj_pair)
  note maps = consumed_entities_map [of H tx] produced_entities_map [OF assms(1) p]
  have ms: "set (match_states ho ?c produced) = {tr. \<exists>k. ior_try_from (consumed_state H tx k, produced_state H tx k) = Some tr}"
    using maps by (simp add: match_states_set)
  have ds: "distinct (map (ior_stable_id (sn_id (tr_snapshot (ph_tradable H)))) (match_states ho ?c produced))"
    by (rule match_states_distinct) (auto simp: maps dest: state_ids)
  have none: "consumed_state H tx k = None \<and> produced_state H tx k = None" if "match_states ho ?c produced = []" for k
  proof -
    have "ior_try_from (consumed_state H tx k, produced_state H tx k) \<noteq> Some tr" for tr
      using ms that by auto
    then show ?thesis by (cases "consumed_state H tx k"; cases "produced_state H tx k") auto
  qed
  have "rest = tv_outputs tx" if "match_states ho ?c produced = []"
  proof -
    have "recognised H tx x = None" if "x \<in> set (tv_outputs tx)" for x
      using none [OF \<open>match_states ho ?c produced = []\<close>] that
      by (cases "recognised H tx x") (force simp: produced_state_def map_of_eq_None_iff set_map_filter)+
    then show ?thesis unfolding maps(3) by (simp add: filter_id_conv)
  qed
  then show ?thesis using assms(2) p ms ds none maps(3)
    by (auto simp: extract_continuous_transitions_def Let_def)
qed

subsection \<open>The index after a batch of transitions\<close>

fun consumed_of :: "('e, 'e) ior \<Rightarrow> 'e list" where
  "consumed_of (Left c) = [c]"
| "consumed_of (Both c _) = [c]"
| "consumed_of (Right _) = []"

fun produced_of :: "('e, 'e) ior \<Rightarrow> 'e list" where
  "produced_of (Right p) = [p]"
| "produced_of (Both _ p) = [p]"
| "produced_of (Left _) = []"

lemma consumed_of_swap [simp]: "consumed_of (ior_swap tr) = produced_of tr" "produced_of (ior_swap tr) = consumed_of tr"
  by (cases tr; simp)+

abbreviation queue_of :: "('e, 'sid, 'v, 'pair) entity_index \<Rightarrow> (nat \<times> 'v) list" where
  "queue_of ix \<equiv> kv_eviction_queue (ei_entries ix)"

abbreviation delay_of :: "('e, 'sid, 'v, 'pair) entity_index \<Rightarrow> nat" where
  "delay_of ix \<equiv> kv_eviction_delay (ei_entries ix)"

lemmas index_defs = ei_register_for_eviction_def ei_put_state_def kv_register_for_eviction_def kv_put_def
  ei_get_state_def kv_get_def Let_def

lemma index_transition_entries:
  "delay_of (index_transition R now tr ix) = delay_of ix"
  "queue_of (index_transition R now tr ix) =
     queue_of ix @ map (\<lambda>c. (now + delay_of ix, sn_ver (tr_snapshot R) c)) (consumed_of tr)"
  "ei_get_state v (index_transition R now tr ix) =
     (case find (\<lambda>p. sn_ver (tr_snapshot R) p = v) (produced_of tr) of Some p \<Rightarrow> Some p | None \<Rightarrow> ei_get_state v ix)"
  by (cases tr; simp add: index_defs)+

lemma index_fold_queue:
  "delay_of (fold (index_transition R now) trs ix) = delay_of ix"
  "queue_of (fold (index_transition R now) trs ix) =
     queue_of ix @ map (\<lambda>c. (now + delay_of ix, sn_ver (tr_snapshot R) c)) (concat (map consumed_of trs))"
  by (induction trs arbitrary: ix) (simp_all add: index_transition_entries)

lemma index_fold_other:
  assumes "v \<notin> sn_ver (tr_snapshot R) ` set (concat (map produced_of trs))"
  shows "ei_get_state v (fold (index_transition R now) trs ix) = ei_get_state v ix"
  using assms
proof (induction trs arbitrary: ix)
  case (Cons tr trs)
  then have "find (\<lambda>p. sn_ver (tr_snapshot R) p = v) (produced_of tr) = None" by (auto simp: find_None_iff)
  then show ?case using Cons by (simp add: index_transition_entries image_Un)
qed simp

lemma index_fold_produced:
  assumes "p \<in> set (concat (map produced_of trs))" "inj_on (sn_ver (tr_snapshot R)) (set (concat (map produced_of trs)))"
  shows "ei_get_state (sn_ver (tr_snapshot R) p) (fold (index_transition R now) trs ix) = Some p"
  using assms
proof (induction trs arbitrary: ix)
  case (Cons tr trs)
  let ?v = "sn_ver (tr_snapshot R)"
  have inj: "inj_on ?v (set (concat (map produced_of trs)))" using Cons.prems(2) by (simp add: inj_on_Un)
  show ?case
  proof (cases "p \<in> set (concat (map produced_of trs))")
    case True then show ?thesis using Cons.IH [OF True inj] by simp
  next
    case False
    then have p: "produced_of tr = [p]" using Cons.prems(1) by (cases tr) auto
    have "?v p \<notin> ?v ` set (concat (map produced_of trs))"
      using False Cons.prems p unfolding inj_on_def by (auto simp: p)
    from index_fold_other [OF this] show ?thesis by (simp add: index_transition_entries p)
  qed
qed simp

lemma pair_updates_split:
  "pair_updates R now to_index to_send upd trs ix =
     (fold (\<lambda>tr. push_entry (pair_id_of (tr_pair R) (to_send tr)) (upd (to_send tr))) trs [],
      fold (index_transition R now) (map to_index trs) (ei_run_eviction now ix))"
proof -
  have "fold (\<lambda>tr (updates, ix). (push_entry (pair_id_of (tr_pair R) (to_send tr)) (upd (to_send tr)) updates,
          index_transition R now (to_index tr) ix)) trs (m, ix) =
      (fold (\<lambda>tr. push_entry (pair_id_of (tr_pair R) (to_send tr)) (upd (to_send tr))) trs m,
       fold (index_transition R now) (map to_index trs) ix)" for m ix
    by (induction trs arbitrary: m ix) auto
  then show ?thesis by (simp add: pair_updates_def)
qed

lemma run_eviction_delay [simp]: "delay_of (ei_run_eviction now ix) = delay_of ix"
  by (simp add: ei_run_eviction_def kv_run_eviction_def split: prod.split)

lemma run_eviction_get:
  assumes "sorted (map fst (queue_of ix))"
  shows "ei_get_state v (ei_run_eviction now ix) = (if \<exists>ts \<le> now. (ts, v) \<in> set (queue_of ix) then None else ei_get_state v ix)"
    and "queue_of (ei_run_eviction now ix) = dropWhile (\<lambda>(ts, _). ts \<le> now) (queue_of ix)"
proof -
  have entries: "ei_entries (ei_run_eviction now ix) = kv_run_eviction now (ei_entries ix)" by (simp add: ei_run_eviction_def)
  show "ei_get_state v (ei_run_eviction now ix) = (if \<exists>ts \<le> now. (ts, v) \<in> set (queue_of ix) then None else ei_get_state v ix)"
    using kv_run_eviction_due(1) [OF assms, of v now] entries unfolding ei_get_state_def by (simp only:)
qed (simp add: ei_run_eviction_def kv_run_eviction_due(2) [OF assms])

subsection \<open>Taking a transaction back\<close>

lemma recognise_entity_index [simp]: "recognise_entity (H\<lparr>ph_index := ix\<rparr>) = recognise_entity H"
  by (simp add: recognise_entity_def fun_eq_iff)

lemma extract_depends_on_inputs:
  assumes "\<And>oref. oref \<in> set (input_refs tx) \<Longrightarrow>
      ei_get_state (ph_version_from H oref) ix = ei_get_state (ph_version_from H oref) (ph_index H)"
  shows "extract_continuous_transitions ho (H\<lparr>ph_index := ix\<rparr>) tx = extract_continuous_transitions ho H tx"
proof -
  have ex: "ei_exists v i \<longleftrightarrow> ei_get_state v i \<noteq> None" for v i
    by (simp add: ei_exists_def ei_get_state_def kv_exists_def kv_get_def)
  have "consumed_entities (H\<lparr>ph_index := ix\<rparr>) (input_refs tx) = consumed_entities H (input_refs tx)"
    unfolding consumed_entities_def by (rule fold_cong) (use assms in \<open>auto simp: ex fun_eq_iff\<close>)
  then show ?thesis by (simp add: extract_continuous_transitions_def Let_def)
qed

lemma mset_map_filter: "mset xs = mset ys \<Longrightarrow> mset (List.map_filter f xs) = mset (List.map_filter f ys)"
  by (simp add: List.map_filter_def)

text \<open>The orders of a call decide only the order of the transitions.\<close>

lemma match_states_orders: "mset (match_states ho consumed produced) = mset (match_states ho' consumed produced)"
  unfolding match_states_def by (rule mset_map_filter) simp

lemma extract_orders:
  assumes "extract_continuous_transitions ho H tx = Inr (trs, tx')"
  obtains trs' where "extract_continuous_transitions ho' H tx = Inr (trs', tx')" "mset trs' = mset trs"
proof -
  let ?c = "consumed_entities H (input_refs tx)"
  obtain produced rest where p: "pop_outputs (recognise_entity H tx ?c) (rev (tv_outputs tx)) ([], []) = (produced, rest)"
    by (metis surj_pair)
  note o = match_states_orders [of ho' ?c produced ho]
  from o have "match_states ho' ?c produced = [] \<longleftrightarrow> match_states ho ?c produced = []"
    by (metis mset_zero_iff)
  then show ?thesis using that [of "match_states ho' ?c produced"] assms p o
    by (auto simp: extract_continuous_transitions_def Let_def split: if_splits)
qed

lemma extract_nothing_orders:
  assumes "extract_continuous_transitions ho H tx = Inl tx'"
  shows "\<exists>tx''. extract_continuous_transitions ho' H tx = Inl tx''"
proof (rule ccontr)
  assume "\<nexists>tx''. extract_continuous_transitions ho' H tx = Inl tx''"
  then obtain trs tx'' where "extract_continuous_transitions ho' H tx = Inr (trs, tx'')"
    by (cases "extract_continuous_transitions ho' H tx") auto
  from extract_orders [OF this, where ho' = ho] assms show False by auto
qed

text \<open>
  The batches of the updates of a list of transitions: one for each pair, with the updates of
  the pair, sent in whatever order.
\<close>

definition batches where
  "batches k g ts = fold (\<lambda>t. push_entry (k t) (g t)) ts []"

lemma push_entry_map_of:
  "map_of (push_entry k x m) p = (if p = k then Some (case map_of m k of Some xs \<Rightarrow> xs @ [x] | None \<Rightarrow> [x]) else map_of m p)"
  by (induction k x m rule: push_entry.induct) auto

lemma push_entry_keys:
  "set (map fst (push_entry k x m)) = insert k (set (map fst m))"
  "distinct (map fst (push_entry k x m)) = distinct (map fst m)"
proof -
  show keys: "set (map fst (push_entry k x m)) = insert k (set (map fst m))" for k :: 'a and x :: 'b and m
    by (induction k x m rule: push_entry.induct) auto
  show "distinct (map fst (push_entry k x m)) = distinct (map fst m)"
    by (induction k x m rule: push_entry.induct) (use keys in auto)
qed

lemma batches_keys: "set (map fst (batches k g ts)) = k ` set ts" "distinct (map fst (batches k g ts))"
proof -
  have "set (map fst (fold (\<lambda>t. push_entry (k t) (g t)) ts m)) = k ` set ts \<union> set (map fst m) \<and>
      distinct (map fst (fold (\<lambda>t. push_entry (k t) (g t)) ts m)) = distinct (map fst m)" for m
    by (induction ts arbitrary: m) (simp_all only: fold_simps push_entry_keys, simp_all add: insert_commute)
  then show "set (map fst (batches k g ts)) = k ` set ts" "distinct (map fst (batches k g ts))"
    by (simp_all add: batches_def)
qed

lemma batches_map_of: "p \<in> k ` set ts \<Longrightarrow> map_of (batches k g ts) p = Some (map g (filter (\<lambda>t. k t = p) ts))"
proof -
  have "(case map_of (fold (\<lambda>t. push_entry (k t) (g t)) ts m) p of Some xs \<Rightarrow> xs | None \<Rightarrow> []) =
      (case map_of m p of Some xs \<Rightarrow> xs | None \<Rightarrow> []) @ map g (filter (\<lambda>t. k t = p) ts)" for m
    by (induction ts arbitrary: m) (auto simp: push_entry_map_of split: option.split)
  from this [of "[]"] have "(case map_of (batches k g ts) p of Some xs \<Rightarrow> xs | None \<Rightarrow> []) = map g (filter (\<lambda>t. k t = p) ts)"
    by (simp add: batches_def)
  moreover assume "p \<in> k ` set ts"
  then have "map_of (batches k g ts) p \<noteq> None"
    using batches_keys(1) [of k g ts] by (metis map_of_eq_None_iff set_map)
  ultimately show ?thesis by auto
qed

definition sent_batches where
  "sent_batches hash f k g ts = map (\<lambda>(p, us). (hash p, p, us)) (hash_entries f (batches k g ts))"

lemma sent_batches_mset:
  "mset (map (\<lambda>(topic, p, us). (topic, p, mset us)) (sent_batches hash f k g ts)) =
     image_mset (\<lambda>p. (hash p, p, image_mset g (filter_mset (\<lambda>t. k t = p) (mset ts)))) (mset_set (k ` set ts))"
proof -
  have keys: "mset (hash_order f (map fst (batches k g ts))) = mset_set (k ` set ts)"
    using batches_keys [of k g ts] by (metis mset_hash_order mset_set_set)
  have "mset (map (\<lambda>(topic, p, us). (topic, p, mset us)) (sent_batches hash f k g ts)) =
      image_mset (\<lambda>p. (hash p, p, mset (the (map_of (batches k g ts) p)))) (mset (hash_order f (map fst (batches k g ts))))"
    by (simp add: sent_batches_def hash_entries_def o_def)
  also have "\<dots> = image_mset (\<lambda>p. (hash p, p, image_mset g (filter_mset (\<lambda>t. k t = p) (mset ts)))) (mset_set (k ` set ts))"
    unfolding keys by (rule image_mset_cong) (simp add: batches_map_of)
  finally show ?thesis .
qed

lemma sent_batches_all: "mset (concat (map (snd \<circ> snd) (sent_batches hash f k g ts))) = image_mset g (mset ts)"
proof -
  have one: "(\<Sum>p\<in>k ` set ts. image_mset g (filter_mset (\<lambda>t. k t = p) (mset ts))) = image_mset g (mset ts)"
  proof -
    have "(\<Sum>p\<in>A. image_mset g (filter_mset (\<lambda>t. k t = p) M)) = image_mset g M" if "finite A" "k ` set_mset M \<subseteq> A" for A M
      using that(2)
    proof (induction M)
      case (add t M)
      have "(\<Sum>p\<in>A. image_mset g (filter_mset (\<lambda>t. k t = p) (add_mset t M))) =
          (\<Sum>p\<in>A. image_mset g (filter_mset (\<lambda>t. k t = p) M) + (if k t = p then {#g t#} else {#}))"
        by (rule sum.cong) auto
      then show ?case using add that(1) by (simp add: sum.distrib)
    qed simp
    then show ?thesis by simp
  qed
  have all: "mset (concat (map (snd \<circ> snd) xs)) = (\<Sum>x\<in>#mset (map (\<lambda>(topic, p, us). (topic, p, mset us)) xs). snd (snd x))"
    for xs :: "('x \<times> 'y \<times> 'z list) list"
    by (induction xs) auto
  show ?thesis unfolding all sent_batches_mset
    using one by (simp add: image_mset.compositionality o_def sum_unfold_sum_mset)
qed

fun undone :: "('e transition, ledger_cx) channel \<Rightarrow> ('e transition, ledger_cx) channel" where
  "undone (LedgerCh (Forward tr) cx) = LedgerCh (Backward (ior_swap tr)) cx"
| "undone (LedgerCh (Backward tr) cx) = LedgerCh (Forward (ior_swap tr)) cx"
| "undone u = u"

text \<open>
  A handler between blocks: its eviction queue is sorted, the deadlines do not lie beyond the delay,
  no input of the transaction is due for eviction, and no output of it has the version of an input.
\<close>

definition steady :: "('e, 'sid, 'v, 'pair) pair_handler \<Rightarrow> nat \<Rightarrow> tx_view_mut \<Rightarrow> bool" where
  "steady H now tx \<longleftrightarrow> sorted (map fst (queue_of (ph_index H))) \<and>
     (\<forall>(ts, v) \<in> set (queue_of (ph_index H)). ts \<le> now + delay_of (ph_index H)) \<and>
     (\<forall>oref \<in> set (input_refs tx). \<forall>ts \<le> now. (ts, ph_version_from H oref) \<notin> set (queue_of (ph_index H))) \<and>
     (\<forall>out cx e. tx_hash (ec_output_ref cx) = tv_hash tx \<longrightarrow> ph_try_from_ledger H out cx = Some e \<longrightarrow>
        sn_ver (tr_snapshot (ph_tradable H)) e \<notin> ph_version_from H ` set (input_refs tx))"

text \<open>An entity that the transaction updates stays in its pair.\<close>

definition keeps_pairs :: "('e, 'sid, 'v, 'pair) pair_handler \<Rightarrow> tx_view_mut \<Rightarrow> bool" where
  "keeps_pairs H tx \<longleftrightarrow> (case extract_continuous_transitions \<lparr> ho_ids = id, ho_pairs = id \<rparr> H tx of
       Inl _ \<Rightarrow> True
     | Inr (trs, _) \<Rightarrow> list_all (\<lambda>tr. pair_id_of (tr_pair (ph_tradable H)) (ior_swap tr) = pair_id_of (tr_pair (ph_tradable H)) tr) trs)"

lemma set_alist_update: "set (AList.update k x m) \<subseteq> insert (k, x) (set m)"
  by (induction m) auto

lemma transition_states_recognised:
  assumes "extract_continuous_transitions ho H tx = Inr (trs, tx')" "tr \<in> set trs"
  shows "\<And>p. p \<in> set (produced_of tr) \<Longrightarrow> \<exists>out cx. tx_hash (ec_output_ref cx) = tv_hash tx \<and> ph_try_from_ledger H out cx = Some p"
    and "\<And>c. c \<in> set (consumed_of tr) \<Longrightarrow> \<exists>oref \<in> set (input_refs tx). ei_get_state (ph_version_from H oref) (ph_index H) = Some c"
    and "\<And>c p. tr = Both c p \<Longrightarrow> sn_id (tr_snapshot (ph_tradable H)) c = sn_id (tr_snapshot (ph_tradable H)) p"
proof -
  let ?c = "consumed_entities H (input_refs tx)" and ?id = "sn_id (tr_snapshot (ph_tradable H))"
  obtain produced rest where p: "pop_outputs (recognise_entity H tx ?c) (rev (tv_outputs tx)) ([], []) = (produced, rest)"
    by (metis surj_pair)
  have "trs = match_states ho ?c produced"
    using assms(1) p by (auto simp: extract_continuous_transitions_def Let_def split: if_splits)
  then obtain k where k: "ior_try_from (consumed_state H tx k, map_of produced k) = Some tr"
    using assms(2) consumed_entities_map [of H tx] by (auto simp: match_states_set)
  have inv: "\<forall>(k, e) \<in> set produced. ?id e = k \<and> (\<exists>out cx. tx_hash (ec_output_ref cx) = tv_hash tx \<and> ph_try_from_ledger H out cx = Some e)"
  proof -
    have "\<forall>(k, e) \<in> set (fst (pop_outputs (recognise_entity H tx ?c) xs (m, rest))). ?id e = k \<and>
        (\<exists>out cx. tx_hash (ec_output_ref cx) = tv_hash tx \<and> ph_try_from_ledger H out cx = Some e)"
      if "\<forall>(k, e) \<in> set m. ?id e = k \<and> (\<exists>out cx. tx_hash (ec_output_ref cx) = tv_hash tx \<and> ph_try_from_ledger H out cx = Some e)" for xs m rest
      using that
    proof (induction xs arbitrary: m rest)
      case (Cons x xs)
      show ?case
      proof (cases "recognise_entity H tx ?c x m")
        case None then show ?thesis using Cons by simp
      next
        case (Some m')
        then have "\<forall>(k, e) \<in> set m'. ?id e = k \<and> (\<exists>out cx. tx_hash (ec_output_ref cx) = tv_hash tx \<and> ph_try_from_ledger H out cx = Some e)"
        proof -
          obtain ix out where x: "x = (ix, out)" by (cases x)
          obtain cx e where e: "tx_hash (ec_output_ref cx) = tv_hash tx" "ph_try_from_ledger H out cx = Some e"
            "m' = AList.update (?id e) e m"
            using Some by (force simp: recognise_entity_def x)
          then show ?thesis using Cons.prems set_alist_update [of "?id e" e m] by blast
        qed
        then show ?thesis using Cons.IH Some by simp
      qed
    qed simp
    from this [of "[]" "rev (tv_outputs tx)" "[]"] show ?thesis by (simp add: p)
  qed
  have c: "\<exists>oref \<in> set (input_refs tx). ei_get_state (ph_version_from H oref) (ph_index H) = Some e"
    if "consumed_state H tx k = Some e" for e
    using that by (fastforce simp: consumed_state_def set_map_filter dest!: map_of_SomeD)
  show "\<And>p. p \<in> set (produced_of tr) \<Longrightarrow> \<exists>out cx. tx_hash (ec_output_ref cx) = tv_hash tx \<and> ph_try_from_ledger H out cx = Some p"
    and "\<And>c. c \<in> set (consumed_of tr) \<Longrightarrow> \<exists>oref \<in> set (input_refs tx). ei_get_state (ph_version_from H oref) (ph_index H) = Some c"
    and "\<And>c p. tr = Both c p \<Longrightarrow> sn_id (tr_snapshot (ph_tradable H)) c = sn_id (tr_snapshot (ph_tradable H)) p"
    using k c inv state_ids(1) [of H tx k]
    by (cases "consumed_state H tx k"; cases "map_of produced k"; fastforce dest: map_of_SomeD)+
qed

lemma same_pair_swapped:
  assumes "extract_continuous_transitions ho H tx = Inr (trs, tx')" "keeps_pairs H tx" "tr \<in> set trs"
  shows "pair_id_of (tr_pair (ph_tradable H)) (ior_swap tr) = pair_id_of (tr_pair (ph_tradable H)) tr"
proof -
  obtain trs' where trs': "extract_continuous_transitions \<lparr> ho_ids = id, ho_pairs = id \<rparr> H tx = Inr (trs', tx')" "mset trs' = mset trs"
    by (rule extract_orders [OF assms(1)])
  then show ?thesis using assms(2,3) mset_eq_setD [OF trs'(2)] by (simp add: keeps_pairs_def list_all_iff)
qed

lemma inputs_kept:
  assumes "steady H now tx" "extract_continuous_transitions ho H tx = Inr (trs, tx')" "oref \<in> set (input_refs tx)"
  shows "ei_get_state (ph_version_from H oref)
      (fold (index_transition (ph_tradable H) now) trs (ei_run_eviction now (ph_index H))) =
    ei_get_state (ph_version_from H oref) (ph_index H)"
proof -
  have "ph_version_from H oref \<notin> sn_ver (tr_snapshot (ph_tradable H)) ` set (concat (map produced_of trs))"
  proof
    assume "ph_version_from H oref \<in> sn_ver (tr_snapshot (ph_tradable H)) ` set (concat (map produced_of trs))"
    then obtain tr q where "tr \<in> set trs" "q \<in> set (produced_of tr)" "sn_ver (tr_snapshot (ph_tradable H)) q = ph_version_from H oref"
      by auto
    then show False using transition_states_recognised(1) [OF assms(2)] assms(1,3) unfolding steady_def by (metis imageI)
  qed
  from index_fold_other [OF this] show ?thesis
    using run_eviction_get(1) [of "ph_index H" "ph_version_from H oref" now] assms(1,3) by (auto simp: steady_def)
qed

lemma pair_handle_sent:
  assumes "extract_continuous_transitions ho H tx = Inr (trs, tx')"
  shows "pair_handle ho H now to_index to_send upd tx = (tx',
     sent_batches (get_mut (ph_hash H) (ph_partitions H)) (ho_pairs ho)
       (\<lambda>tr. pair_id_of (tr_pair (ph_tradable H)) (to_send tr)) (\<lambda>tr. upd (to_send tr)) trs,
     H\<lparr>ph_index := fold (index_transition (ph_tradable H) now) (map to_index trs) (ei_run_eviction now (ph_index H))\<rparr>)"
  by (simp add: pair_handle_def assms pair_updates_split sent_batches_def batches_def)

text \<open>
  C15. A block taken back is reported back: when the ledger unapplies a transaction that the
  handler applied before, with nothing in between, the handler sends exactly the inverse of what it sent
  for the application: a consumed state comes back, a produced one goes, an update is turned round,
  and the channel says that it is a rollback. If the transaction leaves every entity in
  its pair, every update goes to the topic and the pair it went to before, in one batch per pair. The order
  of the batches, and of the updates in a batch, is that of hash containers, and may differ.
\<close>

theorem unapplied_tx_reports_inverse:
  assumes "pair_try_handle_ledger ho H now (TxApplied tx sl bn bh) = (ev1, sent1, H1)"
    and "pair_try_handle_ledger ho' H1 now' (TxUnapplied tx sl bn bh) = (ev2, sent2, H2)"
    and "steady H now tx"
  shows "mset (concat (map (snd \<circ> snd) sent2)) = image_mset undone (mset (concat (map (snd \<circ> snd) sent1))) \<and>
    (keeps_pairs H tx \<longrightarrow>
       mset (map (\<lambda>(topic, pair, us). (topic, pair, mset us)) sent2) =
       image_mset (\<lambda>(topic, pair, us). (topic, pair, image_mset undone us))
         (mset (map (\<lambda>(topic, pair, us). (topic, pair, mset us)) sent1)))"
proof (cases "extract_continuous_transitions ho H tx")
  case (Inl tx')
  then have "sent1 = []" "H1 = H" using assms by (simp_all add: pair_handle_def)
  moreover obtain tx'' where "extract_continuous_transitions ho' H tx = Inl tx''"
    using extract_nothing_orders [OF Inl] by blast
  ultimately show ?thesis using assms(2) by (simp add: pair_handle_def)
next
  case (Inr x)
  then obtain trs tx' where x: "extract_continuous_transitions ho H tx = Inr (trs, tx')" by (cases x) auto
  let ?R = "ph_tradable H" and ?hash = "get_mut (ph_hash H) (ph_partitions H)"
  let ?k = "pair_id_of (tr_pair ?R)" and ?cx = "\<lparr> cx_block_hash = bh, cx_slot = sl \<rparr>"
  let ?ix = "fold (index_transition ?R now) trs (ei_run_eviction now (ph_index H))"
  have H1: "H1 = H\<lparr>ph_index := ?ix\<rparr>"
    and sent1: "sent1 = sent_batches ?hash (ho_pairs ho) ?k (\<lambda>tr. LedgerCh (Forward tr) ?cx) trs"
    using assms(1) by (auto simp: pair_handle_sent [OF x])
  obtain trs' where trs': "extract_continuous_transitions ho' H tx = Inr (trs', tx')" "mset trs' = mset trs"
    by (rule extract_orders [OF x])
  have x1: "extract_continuous_transitions ho' H1 tx = Inr (trs', tx')"
    unfolding H1 by (subst extract_depends_on_inputs) (use inputs_kept [OF assms(3) x] trs'(1) in auto)
  have sent2: "sent2 = sent_batches ?hash (ho_pairs ho') (\<lambda>tr. ?k (ior_swap tr)) (\<lambda>tr. LedgerCh (Backward (ior_swap tr)) ?cx) trs'"
    using assms(2) by (auto simp: pair_handle_sent [OF x1 [unfolded H1]] H1)
  note sets = mset_eq_setD [OF trs'(2)]
  have same: "?k (ior_swap tr) = ?k tr" if "keeps_pairs H tx" "tr \<in># mset trs" for tr
    using same_pair_swapped [OF x that(1)] that(2) by simp
  have "mset (map (\<lambda>(topic, p, us). (topic, p, mset us)) sent2) =
      image_mset (\<lambda>(topic, p, us). (topic, p, image_mset undone us))
        (mset (map (\<lambda>(topic, p, us). (topic, p, mset us)) sent1))" if keeps: "keeps_pairs H tx"
  proof -
    have keys: "(\<lambda>tr. ?k (ior_swap tr)) ` set trs = ?k ` set trs" by (rule image_cong) (use same keeps in auto)
    have sub: "filter_mset (\<lambda>tr. ?k (ior_swap tr) = p) (mset trs) = filter_mset (\<lambda>tr. ?k tr = p) (mset trs)" for p
      by (rule filter_mset_cong) (use same keeps in auto)
    show ?thesis unfolding sent1 sent2 sent_batches_mset trs'(2) sets keys sub
      by (simp add: image_mset.compositionality o_def)
  qed
  moreover have "mset (concat (map (snd \<circ> snd) sent2)) = image_mset undone (mset (concat (map (snd \<circ> snd) sent1)))"
    unfolding sent1 sent2 sent_batches_all trs'(2) by (simp add: image_mset.compositionality o_def)
  ultimately show ?thesis by blast
qed

subsection \<open>What an undone transaction leaves behind\<close>

definition versions_consistent :: "('e, 'sid, 'v, 'pair) pair_handler \<Rightarrow> bool" where
  "versions_consistent H \<longleftrightarrow> (\<forall>v e. ei_get_state v (ph_index H) = Some e \<longrightarrow> sn_ver (tr_snapshot (ph_tradable H)) e = v)"

lemma consumed_version:
  assumes "extract_continuous_transitions ho H tx = Inr (trs, tx')" "versions_consistent H" "c \<in> set (concat (map consumed_of trs))"
  obtains oref where "oref \<in> set (input_refs tx)" "sn_ver (tr_snapshot (ph_tradable H)) c = ph_version_from H oref"
    "ei_get_state (ph_version_from H oref) (ph_index H) = Some c"
proof -
  from assms(3) obtain tr where "tr \<in> set trs" "c \<in> set (consumed_of tr)" by auto
  then obtain oref where "oref \<in> set (input_refs tx)" "ei_get_state (ph_version_from H oref) (ph_index H) = Some c"
    using transition_states_recognised(2) [OF assms(1)] by blast
  then show ?thesis using that assms(2) unfolding versions_consistent_def by blast
qed

lemma consumed_inj:
  assumes "extract_continuous_transitions ho H tx = Inr (trs, tx')" "versions_consistent H"
  shows "inj_on (sn_ver (tr_snapshot (ph_tradable H))) (set (concat (map consumed_of trs)))"
  by (rule inj_onI) (metis consumed_version [OF assms] option.inject)

lemma next_queue_sorted:
  assumes "sorted (map fst q)" "\<forall>(ts, v) \<in> set q. ts \<le> deadline"
  shows "sorted (map fst (dropWhile (\<lambda>(ts, _). ts \<le> (now :: nat)) q @ map (\<lambda>c. (deadline, f c)) cs))"
proof -
  have "map fst (dropWhile (\<lambda>(ts, _). ts \<le> now) q) = dropWhile (\<lambda>ts. ts \<le> now) (map fst q)"
    by (simp add: dropWhile_map o_def case_prod_unfold)
  then have "sorted (map fst (dropWhile (\<lambda>(ts, _). ts \<le> now) q))" using sorted_dropWhile [OF assms(1)] by simp
  moreover have "sorted (map (\<lambda>_. deadline) cs)" by (induction cs) auto
  moreover have "ts \<le> deadline" if "(ts, v) \<in> set (dropWhile (\<lambda>(ts, _). ts \<le> now) q)" for ts v
    using that assms(2) set_dropWhileD [OF that] by auto
  ultimately show ?thesis by (fastforce simp: sorted_append o_def)
qed

lemma steady_queue:
  assumes "steady H now tx"
  shows "sorted (map fst (queue_of (fold (index_transition R now) trs (ei_run_eviction now (ph_index H)))))"
    and "delay_of (fold (index_transition R now) trs (ei_run_eviction now (ph_index H))) = delay_of (ph_index H)"
    and "set (queue_of (fold (index_transition R now) trs (ei_run_eviction now (ph_index H)))) \<subseteq>
       set (queue_of (ph_index H)) \<union> (\<lambda>c. (now + delay_of (ph_index H), sn_ver (tr_snapshot R) c)) ` set (concat (map consumed_of trs))"
    and "(\<lambda>c. (now + delay_of (ph_index H), sn_ver (tr_snapshot R) c)) ` set (concat (map consumed_of trs)) \<subseteq>
       set (queue_of (fold (index_transition R now) trs (ei_run_eviction now (ph_index H))))"
    and "\<forall>(ts, v) \<in> set (queue_of (fold (index_transition R now) trs (ei_run_eviction now (ph_index H)))). ts \<le> now + delay_of (ph_index H)"
proof -
  have s: "sorted (map fst (queue_of (ph_index H)))" and le: "\<forall>(ts, v) \<in> set (queue_of (ph_index H)). ts \<le> now + delay_of (ph_index H)"
    using assms by (simp_all add: steady_def)
  note q = index_fold_queue [of R now trs "ei_run_eviction now (ph_index H)"] run_eviction_get(2) [OF s, of now]
  have sub: "set (dropWhile (\<lambda>(ts, _). ts \<le> now) (queue_of (ph_index H))) \<subseteq> set (queue_of (ph_index H))"
    by (auto dest: set_dropWhileD)
  show "delay_of (fold (index_transition R now) trs (ei_run_eviction now (ph_index H))) = delay_of (ph_index H)" by (simp add: q)
  show "sorted (map fst (queue_of (fold (index_transition R now) trs (ei_run_eviction now (ph_index H)))))"
    using next_queue_sorted [OF s le, of now] by (simp add: q o_def)
  show "set (queue_of (fold (index_transition R now) trs (ei_run_eviction now (ph_index H)))) \<subseteq>
       set (queue_of (ph_index H)) \<union> (\<lambda>c. (now + delay_of (ph_index H), sn_ver (tr_snapshot R) c)) ` set (concat (map consumed_of trs))"
    using sub by (auto simp: q)
  show "(\<lambda>c. (now + delay_of (ph_index H), sn_ver (tr_snapshot R) c)) ` set (concat (map consumed_of trs)) \<subseteq>
       set (queue_of (fold (index_transition R now) trs (ei_run_eviction now (ph_index H))))" by (auto simp: q)
  show "\<forall>(ts, v) \<in> set (queue_of (fold (index_transition R now) trs (ei_run_eviction now (ph_index H)))). ts \<le> now + delay_of (ph_index H)"
    using le sub by (fastforce simp: q)
qed

text \<open>
  C37. A state that comes back is forgotten later. When the ledger takes back a transaction within the
  eviction delay of its application, every state the transaction had consumed is in the index
  again; but its registration for eviction, made when it was consumed, stands, so that the first
  eviction after the delay removes it, and a transaction that spends it then goes unnoticed.
\<close>

theorem rolled_back_state_evicted:
  assumes "pair_try_handle_ledger ho H now (TxApplied tx sl bn bh) = (ev1, sent1, H1)"
    and "pair_try_handle_ledger ho' H1 now' (TxUnapplied tx sl bn bh) = (ev2, sent2, H2)"
    and "steady H now tx" "versions_consistent H"
    and "now \<le> now'" "now' < now + delay_of (ph_index H)"
    and "extract_continuous_transitions ho H tx = Inr (trs, tx')" "c \<in> set (concat (map consumed_of trs))"
  shows "ei_get_state (sn_ver (tr_snapshot (ph_tradable H)) c) (ph_index H2) = Some c \<and>
    (\<forall>t \<ge> now + delay_of (ph_index H).
       ei_get_state (sn_ver (tr_snapshot (ph_tradable H)) c) (ei_run_eviction t (ph_index H2)) = None)"
proof -
  let ?R = "ph_tradable H" and ?d = "delay_of (ph_index H)"
  let ?v = "sn_ver (tr_snapshot ?R)"
  let ?ix = "fold (index_transition ?R now) trs (ei_run_eviction now (ph_index H))"
  have H1: "H1 = H\<lparr>ph_index := ?ix\<rparr>" using assms(1) by (auto simp: pair_handle_sent [OF assms(7)])
  obtain trs' where trs': "extract_continuous_transitions ho' H tx = Inr (trs', tx')" "mset trs' = mset trs"
    by (rule extract_orders [OF assms(7)])
  note sets = mset_eq_setD [OF trs'(2)]
  have x1: "extract_continuous_transitions ho' H1 tx = Inr (trs', tx')"
    unfolding H1 by (subst extract_depends_on_inputs) (use inputs_kept [OF assms(3,7)] trs'(1) in auto)
  let ?trs = "map ior_swap trs'"
  have H2: "ph_index H2 = fold (index_transition ?R now') ?trs (ei_run_eviction now' ?ix)"
    using assms(2) by (auto simp: pair_handle_sent [OF x1 [unfolded H1]] H1)
  have p: "set (concat (map produced_of ?trs)) = set (concat (map consumed_of trs))" by (simp add: sets)
  have again: "ei_get_state (?v c) (ph_index H2) = Some c"
    unfolding H2 by (rule index_fold_produced) (use assms(8) consumed_inj [OF assms(7,4)] in \<open>simp_all only: p\<close>)
  note q1 = steady_queue [OF assms(3), of ?R trs]
  note ev = run_eviction_get(2) [OF q1(1), of now']
  have "(now + ?d, ?v c) \<in> set (queue_of ?ix)" using q1(4) assms(8) by blast
  then have "(now + ?d, ?v c) \<in> set (dropWhile (\<lambda>(ts, _). ts \<le> now') (queue_of ?ix))"
    using assms(6) set_append [of "takeWhile (\<lambda>(ts, _). ts \<le> now') (queue_of ?ix)" "dropWhile (\<lambda>(ts, _). ts \<le> now') (queue_of ?ix)"]
    by (auto dest: set_takeWhileD)
  moreover have q2: "queue_of (ph_index H2) = dropWhile (\<lambda>(ts, _). ts \<le> now') (queue_of ?ix) @
      map (\<lambda>c. (now' + ?d, ?v c)) (concat (map consumed_of ?trs))"
    by (simp add: H2 index_fold_queue ev q1(2))
  ultimately have due: "(now + ?d, ?v c) \<in> set (queue_of (ph_index H2))" by simp
  have "\<forall>(ts, v) \<in> set (queue_of ?ix). ts \<le> now' + ?d" using q1(5) assms(5) by fastforce
  from next_queue_sorted [OF q1(1) this] have "sorted (map fst (queue_of (ph_index H2)))" unfolding q2 .
  then show ?thesis using again due run_eviction_get(1) [of "ph_index H2" "?v c"] by auto
qed

text \<open>
  A transaction that the mempool drops leaves its traces in the index. The handler tells
  the engine that the transition is undone, but indexes the transition itself once more: the
  states that the dropped transaction would have produced stay in the index and are never
  registered for eviction, and the states it would have consumed, which are still
  unspent, are removed by the first eviction after the delay.
\<close>

theorem dropped_tx_not_unindexed:
  assumes "pair_try_handle_mempool ho H now (TxAccepted tx) = (ev1, sent1, H1)"
    and "pair_try_handle_mempool ho' H1 now' (TxDropped tx) = (ev2, sent2, H2)"
    and "steady H now tx" "versions_consistent H" "now \<le> now'"
    and "extract_continuous_transitions ho H tx = Inr (trs, tx')"
    and "inj_on (sn_ver (tr_snapshot (ph_tradable H))) (set (concat (map produced_of trs)))"
  shows "(\<forall>p \<in> set (concat (map produced_of trs)). \<forall>t.
       (\<forall>ts. (ts, sn_ver (tr_snapshot (ph_tradable H)) p) \<notin> set (queue_of (ph_index H))) \<longrightarrow>
       ei_get_state (sn_ver (tr_snapshot (ph_tradable H)) p) (ei_run_eviction t (ph_index H2)) = Some p) \<and>
     (\<forall>c \<in> set (concat (map consumed_of trs)). \<forall>t \<ge> now' + delay_of (ph_index H).
       ei_get_state (sn_ver (tr_snapshot (ph_tradable H)) c) (ei_run_eviction t (ph_index H2)) = None)"
proof -
  let ?R = "ph_tradable H" and ?d = "delay_of (ph_index H)"
  let ?v = "sn_ver (tr_snapshot ?R)"
  let ?ix = "fold (index_transition ?R now) trs (ei_run_eviction now (ph_index H))"
  have H1: "H1 = H\<lparr>ph_index := ?ix\<rparr>" using assms(1) by (auto simp: pair_handle_sent [OF assms(6)])
  obtain trs' where trs': "extract_continuous_transitions ho' H tx = Inr (trs', tx')" "mset trs' = mset trs"
    by (rule extract_orders [OF assms(6)])
  have sets: "set (concat (map produced_of trs')) = set (concat (map produced_of trs))"
    "set (concat (map consumed_of trs')) = set (concat (map consumed_of trs))"
    using mset_eq_setD [OF trs'(2)] by simp_all
  have x1: "extract_continuous_transitions ho' H1 tx = Inr (trs', tx')"
    unfolding H1 by (subst extract_depends_on_inputs) (use inputs_kept [OF assms(3,6)] trs'(1) in auto)
  have H2: "ph_index H2 = fold (index_transition ?R now') trs' (ei_run_eviction now' (ph_index H1))"
    using assms(2) by (auto simp: pair_handle_sent [OF x1 [unfolded H1]] H1)
  note q1 = steady_queue [OF assms(3), of ?R trs]
  have sub: "set (dropWhile (\<lambda>(ts, _). ts \<le> now') (queue_of ?ix)) \<subseteq> set (queue_of ?ix)" by (auto dest: set_dropWhileD)
  have q2: "queue_of (ph_index H2) = dropWhile (\<lambda>(ts, _). ts \<le> now') (queue_of ?ix) @
      map (\<lambda>c. (now' + ?d, ?v c)) (concat (map consumed_of trs'))"
    by (simp add: H2 H1 index_fold_queue(2) run_eviction_get(2) [OF q1(1)] q1(2))
  have sorted: "sorted (map fst (queue_of (ph_index H2)))"
  proof -
    have "\<forall>(ts, v) \<in> set (queue_of ?ix). ts \<le> now' + ?d" using q1(5) assms(5) by fastforce
    from next_queue_sorted [OF q1(1) this] show ?thesis unfolding q2 .
  qed
  have "ei_get_state (?v p) (ei_run_eviction t (ph_index H2)) = Some p"
    if "p \<in> set (concat (map produced_of trs))" "\<forall>ts. (ts, ?v p) \<notin> set (queue_of (ph_index H))" for p t
  proof -
    have there: "ei_get_state (?v p) (ph_index H2) = Some p"
      unfolding H2 by (rule index_fold_produced) (use that(1) assms(7) in \<open>simp_all only: sets\<close>)
    have "?v p \<noteq> ?v c" if "c \<in> set (concat (map consumed_of trs))" for c
    proof -
      obtain oref where oref: "oref \<in> set (input_refs tx)" "?v c = ph_version_from H oref"
        using consumed_version [OF assms(6,4) \<open>c \<in> _\<close>] by blast
      obtain tr where "tr \<in> set trs" "p \<in> set (produced_of tr)" using \<open>p \<in> _\<close> by auto
      then have "\<exists>out cx. tx_hash (ec_output_ref cx) = tv_hash tx \<and> ph_try_from_ledger H out cx = Some p"
        using transition_states_recognised(1) [OF assms(6)] by blast
      then have "?v p \<notin> ph_version_from H ` set (input_refs tx)" using assms(3) unfolding steady_def by blast
      then show ?thesis using oref by (metis imageI)
    qed
    then have new: "?v p \<notin> ?v ` set (concat (map consumed_of trs))" by auto
    have "(ts, ?v p) \<notin> set (queue_of (ph_index H2))" for ts
    proof
      assume "(ts, ?v p) \<in> set (queue_of (ph_index H2))"
      then have "(ts, ?v p) \<in> set (queue_of ?ix) \<or> ?v p \<in> ?v ` set (concat (map consumed_of trs))"
        using sub sets(2) unfolding q2 by (auto simp del: set_concat)
      then have "(ts, ?v p) \<in> set (queue_of ?ix)" using new by blast
      then have "(ts, ?v p) \<in> set (queue_of (ph_index H))" using q1(3) new by blast
      then show False using that(2) by blast
    qed
    then show ?thesis using there run_eviction_get(1) [OF sorted] by simp
  qed
  moreover have "ei_get_state (?v c) (ei_run_eviction t (ph_index H2)) = None"
    if "c \<in> set (concat (map consumed_of trs))" "t \<ge> now' + ?d" for c t
  proof -
    have "c \<in> set (concat (map consumed_of trs'))" using that(1) by (simp only: sets)
    then have "(now' + ?d, ?v c) \<in> set (queue_of (ph_index H2))" unfolding q2 by simp
    then show ?thesis using that(2) run_eviction_get(1) [OF sorted] by auto
  qed
  ultimately show ?thesis by blast
qed

subsection \<open>An example\<close>

text \<open>The first output of a transaction is a state of entity 5, the second one of entity 6, and the
  version of a state is the reference of its output. The second call iterates the other way round.\<close>

definition sample_handler :: "(nat \<times> output_ref, nat, output_ref, nat) pair_handler" where
  "sample_handler = \<lparr>
     ph_tradable = \<lparr> tr_snapshot = \<lparr> sn_id = fst, sn_qp = (\<lambda>_. False), sn_ver = snd, sn_key = (\<lambda>_. []) \<rparr>, tr_pair = (\<lambda>_. 3) \<rparr>,
     ph_version_from = id, ph_try_from_ledger = (\<lambda>out cx. Some (5 + unat (out_index (ec_output_ref cx)), ec_output_ref cx)), ph_hash = id, ph_partitions = 2,
     ph_index = \<lparr> ei_entries = \<lparr> kv_store = [OutputRef 1 0 \<mapsto> (5, OutputRef 1 0)], kv_eviction_queue = [], kv_eviction_delay = 10 \<rparr>,
       ei_permanent_pairs = (\<lambda>_. None) \<rparr> \<rparr>"

definition sample_tx :: tx_view_mut where
  "sample_tx = \<lparr> tv_hash = 2, tv_inputs = [\<lparr> ti_transaction_id = 1, ti_index = 0 \<rparr>],
     tv_outputs = [(0, ConwayFormatTxOut (Enterprise (PubKey 7)) (Value 9 []) None None)],
     tv_metadata = None, tv_mints = None, tv_signers = [] \<rparr>"

definition sample_tx2 :: tx_view_mut where
  "sample_tx2 = sample_tx\<lparr>tv_outputs := [(0, ConwayFormatTxOut (Enterprise (PubKey 7)) (Value 9 []) None None),
     (1, ConwayFormatTxOut (Enterprise (PubKey 8)) (Value 4 []) None None)]\<rparr>"

abbreviation "inserted \<equiv> \<lparr> ho_ids = id, ho_pairs = id \<rparr>"
abbreviation "reversed \<equiv> \<lparr> ho_ids = rev, ho_pairs = rev \<rparr>"

lemma sample_extract:
  "extract_continuous_transitions inserted sample_handler sample_tx =
     Inr ([Both (5, OutputRef 1 0) (5, OutputRef 2 0)], sample_tx\<lparr>tv_outputs := []\<rparr>)"
  by (simp add: extract_continuous_transitions_def sample_handler_def sample_tx_def consumed_entities_def
      output_ref_from_input_def ei_exists_def kv_exists_def ei_get_state_def kv_get_def recognise_entity_def
      match_states_def hash_order_def List.map_filter_simps)

lemma sample_extract2:
  "extract_continuous_transitions inserted sample_handler sample_tx2 =
     Inr ([Right (6, OutputRef 2 1), Both (5, OutputRef 1 0) (5, OutputRef 2 0)], sample_tx2\<lparr>tv_outputs := []\<rparr>)"
  by (simp add: extract_continuous_transitions_def sample_handler_def sample_tx2_def sample_tx_def consumed_entities_def
      output_ref_from_input_def ei_exists_def kv_exists_def ei_get_state_def kv_get_def recognise_entity_def
      match_states_def hash_order_def List.map_filter_simps)

lemma sample_facts:
  "ignores_produced sample_handler" "steady sample_handler 0 sample_tx" "steady sample_handler 0 sample_tx2"
  "versions_consistent sample_handler" "delay_of (ph_index sample_handler) = 10" "queue_of (ph_index sample_handler) = []"
  "sn_ver (tr_snapshot (ph_tradable sample_handler)) = snd"
  by (simp_all add: ignores_produced_def steady_def versions_consistent_def sample_handler_def sample_tx2_def sample_tx_def
      output_ref_from_input_def ei_get_state_def kv_get_def) auto

lemma sample_keeps_pairs: "keeps_pairs sample_handler sample_tx2"
  unfolding keeps_pairs_def sample_extract2 by (simp add: sample_handler_def)

lemma continuous_transitions_exact_witness:
  "set [Both (5, OutputRef 1 0) (5, OutputRef 2 0)] =
     {tr. \<exists>k. ior_try_from (consumed_state sample_handler sample_tx k, produced_state sample_handler sample_tx k) = Some tr}"
  using continuous_transitions_exact [OF sample_facts(1), where ho = inserted and tx = sample_tx] by (simp add: sample_extract) (simp add: sample_tx_def)

lemma unapplied_tx_reports_inverse_witness:
  "\<exists>ev1 H1 ev2 sent2 H2.
     pair_try_handle_ledger inserted sample_handler 0 (TxApplied sample_tx2 1 1 1) = (ev1,
       [(1, 3, [LedgerCh (Forward (Right (6, OutputRef 2 1))) \<lparr> cx_block_hash = 1, cx_slot = 1 \<rparr>,
          LedgerCh (Forward (Both (5, OutputRef 1 0) (5, OutputRef 2 0))) \<lparr> cx_block_hash = 1, cx_slot = 1 \<rparr>])], H1) \<and>
     pair_try_handle_ledger reversed H1 5 (TxUnapplied sample_tx2 1 1 1) = (ev2, sent2, H2) \<and>
     mset (map (\<lambda>(topic, pair, us). (topic, pair, mset us)) sent2) =
       {# (1, 3, {# LedgerCh (Backward (Both (5, OutputRef 2 0) (5, OutputRef 1 0))) \<lparr> cx_block_hash = 1, cx_slot = 1 \<rparr>,
          LedgerCh (Backward (Left (6, OutputRef 2 1))) \<lparr> cx_block_hash = 1, cx_slot = 1 \<rparr> #}) #}"
proof -
  obtain ev1 sent1 H1 where a: "pair_try_handle_ledger inserted sample_handler 0 (TxApplied sample_tx2 1 1 1) = (ev1, sent1, H1)"
    by (metis prod_cases3)
  obtain ev2 sent2 H2 where b: "pair_try_handle_ledger reversed H1 5 (TxUnapplied sample_tx2 1 1 1) = (ev2, sent2, H2)"
    by (metis prod_cases3)
  have sent1: "sent1 = [(1, 3, [LedgerCh (Forward (Right (6, OutputRef 2 1))) \<lparr> cx_block_hash = 1, cx_slot = 1 \<rparr>,
      LedgerCh (Forward (Both (5, OutputRef 1 0) (5, OutputRef 2 0))) \<lparr> cx_block_hash = 1, cx_slot = 1 \<rparr>])]"
    using a by (simp add: pair_handle_sent [OF sample_extract2] sent_batches_def batches_def hash_entries_def hash_order_def
        get_mut_def) (simp add: sample_handler_def)
  from unapplied_tx_reports_inverse [OF a b sample_facts(3)] sample_keeps_pairs
  have "mset (map (\<lambda>(topic, pair, us). (topic, pair, mset us)) sent2) =
      image_mset (\<lambda>(topic, pair, us). (topic, pair, image_mset undone us))
        (mset (map (\<lambda>(topic, pair, us). (topic, pair, mset us)) sent1))" by blast
  then show ?thesis using a b unfolding sent1 by simp
qed

lemma rolled_back_state_evicted_witness:
  "\<exists>ev1 sent1 H1 ev2 sent2 H2.
     pair_try_handle_ledger inserted sample_handler 0 (TxApplied sample_tx 1 1 1) = (ev1, sent1, H1) \<and>
     pair_try_handle_ledger reversed H1 5 (TxUnapplied sample_tx 1 1 1) = (ev2, sent2, H2) \<and>
     ei_get_state (OutputRef 1 0) (ph_index H2) = Some (5, OutputRef 1 0) \<and>
     ei_get_state (OutputRef 1 0) (ei_run_eviction 10 (ph_index H2)) = None"
proof -
  obtain ev1 sent1 H1 where a: "pair_try_handle_ledger inserted sample_handler 0 (TxApplied sample_tx 1 1 1) = (ev1, sent1, H1)"
    by (metis prod_cases3)
  obtain ev2 sent2 H2 where b: "pair_try_handle_ledger reversed H1 5 (TxUnapplied sample_tx 1 1 1) = (ev2, sent2, H2)"
    by (metis prod_cases3)
  from rolled_back_state_evicted [OF a b sample_facts(2,4) _ _ sample_extract, of "(5, OutputRef 1 0)"]
  have "ei_get_state (OutputRef 1 0) (ph_index H2) = Some (5, OutputRef 1 0)"
    "ei_get_state (OutputRef 1 0) (ei_run_eviction 10 (ph_index H2)) = None" by (simp_all add: sample_facts)
  then show ?thesis using a b by blast
qed

lemma dropped_tx_not_unindexed_witness:
  "\<exists>ev1 sent1 H1 ev2 sent2 H2.
     pair_try_handle_mempool inserted sample_handler 0 (TxAccepted sample_tx) = (ev1, sent1, H1) \<and>
     pair_try_handle_mempool reversed H1 5 (TxDropped sample_tx) = (ev2, sent2, H2) \<and>
     ei_get_state (OutputRef 2 0) (ei_run_eviction 100 (ph_index H2)) = Some (5, OutputRef 2 0) \<and>
     ei_get_state (OutputRef 1 0) (ei_run_eviction 100 (ph_index H2)) = None"
proof -
  obtain ev1 sent1 H1 where a: "pair_try_handle_mempool inserted sample_handler 0 (TxAccepted sample_tx) = (ev1, sent1, H1)"
    by (metis prod_cases3)
  obtain ev2 sent2 H2 where b: "pair_try_handle_mempool reversed H1 5 (TxDropped sample_tx) = (ev2, sent2, H2)"
    by (metis prod_cases3)
  from dropped_tx_not_unindexed [OF a b sample_facts(2,4) _ sample_extract]
  have "ei_get_state (OutputRef 2 0) (ei_run_eviction 100 (ph_index H2)) = Some (5, OutputRef 2 0)"
    "ei_get_state (OutputRef 1 0) (ei_run_eviction 100 (ph_index H2)) = None" by (simp_all add: sample_facts)
  then show ?thesis using a b by blast
qed

end
