(* ===== verification/Box_Resolver.thy ===== *)
theory Box_Resolver
  imports Entity_Events Rocks
begin

text \<open>
  The resolver of boxes, packages/spectrum-offchain/src/box_resolver.rs: the trait of repositories of
  entity states (persistence.rs) with its in-memory (inmemory.rs), persistent (rocksdb.rs) and empty
  (noop.rs) implementations, the choice of the current state, and the process that feeds a repository
  (process.rs). The keys and values of the database are written by the crate bincode, a parameter;
  \<open>binary.rs\<close> puts them together. A repository that cannot answer panics nowhere but on a failed
  database. The tracing wrapper delegates every call.
\<close>

subsection \<open>Repositories\<close>

record ('e, 'v) traced =
  tr_state :: 'e
  tr_prev_state_id :: "'v option"

definition traced_new :: "'e \<Rightarrow> 'v option \<Rightarrow> ('e, 'v) traced" where
  "traced_new state prev_state_id = \<lparr> tr_state = state, tr_prev_state_id = prev_state_id \<rparr>"

record ('s, 'e, 'sid, 'v) entity_repo_ops =
  er_get_prediction_predecessor :: "'v \<Rightarrow> 's \<Rightarrow> 'v option"
  er_get_last_predicted :: "'sid \<Rightarrow> 's \<Rightarrow> 'e option"
  er_get_last_confirmed :: "'sid \<Rightarrow> 's \<Rightarrow> 'e option"
  er_get_last_unconfirmed :: "'sid \<Rightarrow> 's \<Rightarrow> 'e option"
  er_put_predicted :: "('e, 'v) traced \<Rightarrow> 's \<Rightarrow> 's"
  er_put_confirmed :: "'e \<Rightarrow> 's \<Rightarrow> 's"
  er_put_unconfirmed :: "'e \<Rightarrow> 's \<Rightarrow> 's"
  er_invalidate :: "'v \<Rightarrow> 'sid \<Rightarrow> 's \<Rightarrow> 's"
  er_eliminate :: "'e \<Rightarrow> 's \<Rightarrow> 's"
  er_may_exist :: "'v \<Rightarrow> 's \<Rightarrow> bool"
  er_get_state :: "'v \<Rightarrow> 's \<Rightarrow> 'e option"

subsection \<open>In memory\<close>

record ('e, 'v) memory_repo =
  mr_store :: "'v \<Rightarrow> 'e option"
  mr_index :: "bytes \<Rightarrow> 'v option"
  mr_links :: "'v \<Rightarrow> 'v option"

definition mr_new :: "('e, 'v) memory_repo" where
  "mr_new = \<lparr> mr_store = Map.empty, mr_index = Map.empty, mr_links = Map.empty \<rparr>"

definition mr_predicted_prefix :: byte where "mr_predicted_prefix = 2"
definition mr_confirmed_prefix :: byte where "mr_confirmed_prefix = 3"
definition mr_unconfirmed_prefix :: byte where "mr_unconfirmed_prefix = 4"

definition mr_index_key :: "('e, 'sid, 'v) snapshot_ops \<Rightarrow> byte \<Rightarrow> 'sid \<Rightarrow> bytes" where
  "mr_index_key S pfx sid = pfx # sn_key S sid"

definition mr_get_prediction_predecessor :: "'v \<Rightarrow> ('e, 'v) memory_repo \<Rightarrow> 'v option" where
  "mr_get_prediction_predecessor sid r = mr_links r sid"

definition mr_get_last_predicted :: "('e, 'sid, 'v) snapshot_ops \<Rightarrow> 'sid \<Rightarrow> ('e, 'v) memory_repo \<Rightarrow> 'e option" where
  "mr_get_last_predicted S sid r = Option.bind (mr_index r (mr_index_key S mr_predicted_prefix sid)) (mr_store r)"

definition mr_get_last_confirmed :: "('e, 'sid, 'v) snapshot_ops \<Rightarrow> 'sid \<Rightarrow> ('e, 'v) memory_repo \<Rightarrow> 'e option" where
  "mr_get_last_confirmed S sid r = Option.bind (mr_index r (mr_index_key S mr_confirmed_prefix sid)) (mr_store r)"

definition mr_get_last_unconfirmed :: "('e, 'sid, 'v) snapshot_ops \<Rightarrow> 'sid \<Rightarrow> ('e, 'v) memory_repo \<Rightarrow> 'e option" where
  "mr_get_last_unconfirmed S sid r = Option.bind (mr_index r (mr_index_key S mr_unconfirmed_prefix sid)) (mr_store r)"

definition mr_put_predicted :: "('e, 'sid, 'v) snapshot_ops \<Rightarrow> ('e, 'v) traced \<Rightarrow> ('e, 'v) memory_repo \<Rightarrow> ('e, 'v) memory_repo" where
  "mr_put_predicted S t r =
     (let entity = tr_state t; ver = sn_ver S entity
      in r\<lparr> mr_index := (mr_index r)(mr_index_key S mr_predicted_prefix (sn_id S entity) \<mapsto> ver),
            mr_links := (case tr_prev_state_id t of Some prev_sid \<Rightarrow> (mr_links r)(ver \<mapsto> prev_sid) | None \<Rightarrow> mr_links r),
            mr_store := (mr_store r)(ver \<mapsto> entity) \<rparr>)"

definition mr_put_confirmed :: "('e, 'sid, 'v) snapshot_ops \<Rightarrow> 'e \<Rightarrow> ('e, 'v) memory_repo \<Rightarrow> ('e, 'v) memory_repo" where
  "mr_put_confirmed S entity r =
     r\<lparr> mr_index := (mr_index r)(mr_index_key S mr_confirmed_prefix (sn_id S entity) \<mapsto> sn_ver S entity),
        mr_store := (mr_store r)(sn_ver S entity \<mapsto> entity) \<rparr>"

definition mr_put_unconfirmed :: "('e, 'sid, 'v) snapshot_ops \<Rightarrow> 'e \<Rightarrow> ('e, 'v) memory_repo \<Rightarrow> ('e, 'v) memory_repo" where
  "mr_put_unconfirmed S entity r =
     r\<lparr> mr_index := (mr_index r)(mr_index_key S mr_unconfirmed_prefix (sn_id S entity) \<mapsto> sn_ver S entity),
        mr_store := (mr_store r)(sn_ver S entity \<mapsto> entity) \<rparr>"

definition mr_invalidate :: "('e, 'sid, 'v) snapshot_ops \<Rightarrow> 'v \<Rightarrow> 'sid \<Rightarrow> ('e, 'v) memory_repo \<Rightarrow> ('e, 'v) memory_repo" where
  "mr_invalidate S sid eid r =
     (let index = (case mr_get_prediction_predecessor sid r of
            Some predecessor \<Rightarrow> (mr_index r)(mr_index_key S mr_confirmed_prefix eid \<mapsto> predecessor)
          | None \<Rightarrow> (mr_index r)(mr_index_key S mr_confirmed_prefix eid := None))
      in r\<lparr> mr_index := index(mr_index_key S mr_predicted_prefix eid := None, mr_index_key S mr_unconfirmed_prefix eid := None),
            mr_links := (mr_links r)(sid := None), mr_store := (mr_store r)(sid := None) \<rparr>)"

definition mr_eliminate :: "('e, 'sid, 'v) snapshot_ops \<Rightarrow> 'e \<Rightarrow> ('e, 'v) memory_repo \<Rightarrow> ('e, 'v) memory_repo" where
  "mr_eliminate S entity r =
     (let eid = sn_id S entity; sid = sn_ver S entity
      in r\<lparr> mr_index := (mr_index r)(mr_index_key S mr_predicted_prefix eid := None,
              mr_index_key S mr_confirmed_prefix eid := None, mr_index_key S mr_unconfirmed_prefix eid := None),
            mr_links := (mr_links r)(sid := None), mr_store := (mr_store r)(sid := None) \<rparr>)"

definition mr_may_exist :: "'v \<Rightarrow> ('e, 'v) memory_repo \<Rightarrow> bool" where
  "mr_may_exist sid r \<longleftrightarrow> mr_store r sid \<noteq> None"

definition mr_get_state :: "'v \<Rightarrow> ('e, 'v) memory_repo \<Rightarrow> 'e option" where
  "mr_get_state sid r = mr_store r sid"

definition memory_repo_ops :: "('e, 'sid, 'v) snapshot_ops \<Rightarrow> (('e, 'v) memory_repo, 'e, 'sid, 'v) entity_repo_ops" where
  "memory_repo_ops S = \<lparr> er_get_prediction_predecessor = mr_get_prediction_predecessor,
     er_get_last_predicted = mr_get_last_predicted S, er_get_last_confirmed = mr_get_last_confirmed S,
     er_get_last_unconfirmed = mr_get_last_unconfirmed S, er_put_predicted = mr_put_predicted S,
     er_put_confirmed = mr_put_confirmed S, er_put_unconfirmed = mr_put_unconfirmed S,
     er_invalidate = mr_invalidate S, er_eliminate = mr_eliminate S, er_may_exist = mr_may_exist,
     er_get_state = mr_get_state \<rparr>"

subsection \<open>On RocksDB\<close>

text \<open>
  The crate bincode writes texts, identifiers, versions and entities and reads the last two;
  \<open>key_may_exist\<close> is the filter of the database, which may answer yes for a key that is not there.
\<close>

record ('s, 'e, 'sid, 'v) bincode =
  bc_str :: "str \<Rightarrow> bytes"
  bc_sid :: "'sid \<Rightarrow> bytes"
  bc_ver :: "'v \<Rightarrow> bytes"
  bc_ver_dec :: "bytes \<Rightarrow> 'v option"
  bc_entity :: "'e \<Rightarrow> bytes"
  bc_entity_dec :: "bytes \<Rightarrow> 'e option"
  bc_key_may_exist :: "'s \<Rightarrow> bytes \<Rightarrow> bool"

definition prefixed_key :: "(str \<Rightarrow> bytes) \<Rightarrow> ('k \<Rightarrow> bytes) \<Rightarrow> str \<Rightarrow> 'k \<Rightarrow> bytes" where
  "prefixed_key str_bytes serialize pfx i = (let key_bytes = str_bytes pfx; id_bytes = serialize i in key_bytes @ id_bytes)"

definition raw_prefixed_key :: "(str \<Rightarrow> bytes) \<Rightarrow> str \<Rightarrow> bytes \<Rightarrow> bytes" where
  "raw_prefixed_key str_bytes pfx bs = str_bytes pfx @ bs"

definition ascii_text :: "string \<Rightarrow> str" where
  "ascii_text s = map (\<lambda>c. of_nat (of_char c)) s"

definition rr_state_prefix :: str where "rr_state_prefix = ascii_text ''state''"
definition rr_link_prefix :: str where "rr_link_prefix = ascii_text ''prediction:link''"
definition rr_predicted_prefix :: str where "rr_predicted_prefix = ascii_text ''predicted:last''"
definition rr_confirmed_prefix :: str where "rr_confirmed_prefix = ascii_text ''confirmed:last''"
definition rr_unconfirmed_prefix :: str where "rr_unconfirmed_prefix = ascii_text ''unconfirmed:last''"

definition rr_key :: "('s, 'e, 'sid, 'v) bincode \<Rightarrow> str \<Rightarrow> 'sid \<Rightarrow> bytes" where
  "rr_key B pfx i = prefixed_key (bc_str B) (bc_sid B) pfx i"

definition rr_ver_key :: "('s, 'e, 'sid, 'v) bincode \<Rightarrow> str \<Rightarrow> 'v \<Rightarrow> bytes" where
  "rr_ver_key B pfx v = prefixed_key (bc_str B) (bc_ver B) pfx v"

definition rr_get_prediction_predecessor :: "('s, unit) rocks \<Rightarrow> ('s, 'e, 'sid, 'v) bincode \<Rightarrow> 'v \<Rightarrow> 's \<Rightarrow> 'v option" where
  "rr_get_prediction_predecessor db B sid s = Option.bind (r_get db s () (rr_ver_key B rr_link_prefix sid)) (bc_ver_dec B)"

definition rr_get_last_predicted :: "('s, unit) rocks \<Rightarrow> ('s, 'e, 'sid, 'v) bincode \<Rightarrow> 'sid \<Rightarrow> 's \<Rightarrow> 'e option" where
  "rr_get_last_predicted db B i s =
     Option.bind (Option.bind (Option.bind (r_get db s () (rr_key B rr_predicted_prefix i)) (bc_ver_dec B))
       (\<lambda>sid. if r_get db s () (rr_ver_key B rr_link_prefix sid) \<noteq> None
              then r_get db s () (rr_ver_key B rr_state_prefix sid) else None))
       (bc_entity_dec B)"

definition rr_get_last_confirmed :: "('s, unit) rocks \<Rightarrow> ('s, 'e, 'sid, 'v) bincode \<Rightarrow> 'sid \<Rightarrow> 's \<Rightarrow> 'e option" where
  "rr_get_last_confirmed db B i s =
     Option.bind (Option.bind (Option.bind (r_get db s () (rr_key B rr_confirmed_prefix i)) (bc_ver_dec B))
       (\<lambda>sid. r_get db s () (rr_ver_key B rr_state_prefix sid))) (bc_entity_dec B)"

definition rr_get_last_unconfirmed :: "('s, unit) rocks \<Rightarrow> ('s, 'e, 'sid, 'v) bincode \<Rightarrow> 'sid \<Rightarrow> 's \<Rightarrow> 'e option" where
  "rr_get_last_unconfirmed db B i s =
     Option.bind (Option.bind (Option.bind (r_get db s () (rr_key B rr_unconfirmed_prefix i)) (bc_ver_dec B))
       (\<lambda>sid. r_get db s () (rr_ver_key B rr_state_prefix sid))) (bc_entity_dec B)"

definition rr_put_predicted ::
    "('s, unit) rocks \<Rightarrow> ('s, 'e, 'sid, 'v) bincode \<Rightarrow> ('e, 'sid, 'v) snapshot_ops \<Rightarrow> ('e, 'v) traced \<Rightarrow> 's \<Rightarrow> 's" where
  "rr_put_predicted db B S t s =
     (let entity = tr_state t; ver = sn_ver S entity;
          s1 = r_put db s () (rr_ver_key B rr_state_prefix ver) (bc_entity B entity);
          s2 = r_put db s1 () (rr_key B rr_predicted_prefix (sn_id S entity)) (bc_ver B ver)
      in case tr_prev_state_id t of
           Some prev_sid \<Rightarrow> r_put db s2 () (rr_ver_key B rr_link_prefix ver) (bc_ver B prev_sid)
         | None \<Rightarrow> s2)"

definition rr_put_confirmed ::
    "('s, unit) rocks \<Rightarrow> ('s, 'e, 'sid, 'v) bincode \<Rightarrow> ('e, 'sid, 'v) snapshot_ops \<Rightarrow> 'e \<Rightarrow> 's \<Rightarrow> 's" where
  "rr_put_confirmed db B S entity s =
     (let s1 = r_put db s () (rr_ver_key B rr_state_prefix (sn_ver S entity)) (bc_entity B entity)
      in r_put db s1 () (rr_key B rr_confirmed_prefix (sn_id S entity)) (bc_ver B (sn_ver S entity)))"

definition rr_put_unconfirmed ::
    "('s, unit) rocks \<Rightarrow> ('s, 'e, 'sid, 'v) bincode \<Rightarrow> ('e, 'sid, 'v) snapshot_ops \<Rightarrow> 'e \<Rightarrow> 's \<Rightarrow> 's" where
  "rr_put_unconfirmed db B S entity s =
     (let s1 = r_put db s () (rr_ver_key B rr_state_prefix (sn_ver S entity)) (bc_entity B entity)
      in r_put db s1 () (rr_key B rr_unconfirmed_prefix (sn_id S entity)) (bc_ver B (sn_ver S entity)))"

definition rr_invalidate :: "('s, unit) rocks \<Rightarrow> ('s, 'e, 'sid, 'v) bincode \<Rightarrow> 'v \<Rightarrow> 'sid \<Rightarrow> 's \<Rightarrow> 's" where
  "rr_invalidate db B sid eid s =
     (let s1 = (case rr_get_prediction_predecessor db B sid s of
            Some predecessor \<Rightarrow> r_put db s () (rr_key B rr_confirmed_prefix eid) (bc_ver B predecessor)
          | None \<Rightarrow> r_del db s () (rr_key B rr_confirmed_prefix eid));
          s2 = r_del db s1 () (rr_ver_key B rr_link_prefix sid)
      in r_del db s2 () (rr_key B rr_unconfirmed_prefix eid))"

definition rr_eliminate ::
    "('s, unit) rocks \<Rightarrow> ('s, 'e, 'sid, 'v) bincode \<Rightarrow> ('e, 'sid, 'v) snapshot_ops \<Rightarrow> 'e \<Rightarrow> 's \<Rightarrow> 's" where
  "rr_eliminate db B S entity s =
     (let s1 = r_del db s () (rr_ver_key B rr_link_prefix (sn_ver S entity));
          s2 = r_del db s1 () (rr_key B rr_predicted_prefix (sn_id S entity));
          s3 = r_del db s2 () (rr_key B rr_confirmed_prefix (sn_id S entity))
      in r_del db s3 () (rr_key B rr_unconfirmed_prefix (sn_id S entity)))"

definition rr_may_exist :: "('s, 'e, 'sid, 'v) bincode \<Rightarrow> 'v \<Rightarrow> 's \<Rightarrow> bool" where
  "rr_may_exist B sid s = bc_key_may_exist B s (rr_ver_key B rr_state_prefix sid)"

definition rr_get_state :: "('s, unit) rocks \<Rightarrow> ('s, 'e, 'sid, 'v) bincode \<Rightarrow> 'v \<Rightarrow> 's \<Rightarrow> 'e option" where
  "rr_get_state db B sid s = Option.bind (r_get db s () (rr_ver_key B rr_state_prefix sid)) (bc_entity_dec B)"

definition rocks_repo_ops ::
    "('s, unit) rocks \<Rightarrow> ('s, 'e, 'sid, 'v) bincode \<Rightarrow> ('e, 'sid, 'v) snapshot_ops \<Rightarrow> ('s, 'e, 'sid, 'v) entity_repo_ops" where
  "rocks_repo_ops db B S = \<lparr> er_get_prediction_predecessor = rr_get_prediction_predecessor db B,
     er_get_last_predicted = rr_get_last_predicted db B, er_get_last_confirmed = rr_get_last_confirmed db B,
     er_get_last_unconfirmed = rr_get_last_unconfirmed db B, er_put_predicted = rr_put_predicted db B S,
     er_put_confirmed = rr_put_confirmed db B S, er_put_unconfirmed = rr_put_unconfirmed db B S,
     er_invalidate = rr_invalidate db B, er_eliminate = rr_eliminate db B S, er_may_exist = rr_may_exist B,
     er_get_state = rr_get_state db B \<rparr>"

subsection \<open>Nowhere\<close>

definition noop_repo_ops :: "(unit, 'e, 'sid, 'v) entity_repo_ops" where
  "noop_repo_ops = \<lparr> er_get_prediction_predecessor = \<lambda>_ _. None, er_get_last_predicted = \<lambda>_ _. None,
     er_get_last_confirmed = \<lambda>_ _. None, er_get_last_unconfirmed = \<lambda>_ _. None, er_put_predicted = \<lambda>_ s. s,
     er_put_confirmed = \<lambda>_ s. s, er_put_unconfirmed = \<lambda>_ s. s, er_invalidate = \<lambda>_ _ s. s, er_eliminate = \<lambda>_ s. s,
     er_may_exist = \<lambda>_ _. False, er_get_state = \<lambda>_ _. None \<rparr>"

subsection \<open>The current state\<close>

text \<open>The walk along predecessors may go on forever, which is the value \<open>None\<close>.\<close>

partial_function (option) is_linking :: "('s, 'e, 'sid, 'v) entity_repo_ops \<Rightarrow> 's \<Rightarrow> 'v \<Rightarrow> 'v \<Rightarrow> bool option" where
  "is_linking R s head_sid anchoring_sid =
     (case er_get_prediction_predecessor R head_sid s of
        None \<Rightarrow> Some False
      | Some prev_state_id \<Rightarrow>
          if prev_state_id = anchoring_sid then Some True else is_linking R s prev_state_id anchoring_sid)"

definition resolve_entity_state ::
    "('s, 'e, 'sid, 'v) entity_repo_ops \<Rightarrow> ('e, 'sid, 'v) snapshot_ops \<Rightarrow> 'sid \<Rightarrow> 's \<Rightarrow> 'e option option" where
  "resolve_entity_state R S i s =
     (case (er_get_last_confirmed R i s, er_get_last_unconfirmed R i s, er_get_last_predicted R i s) of
        (Some conf, unconf, Some pred) \<Rightarrow>
          (let anchoring_point = (case unconf of Some e \<Rightarrow> e | None \<Rightarrow> conf);
               anchoring_sid = sn_ver S anchoring_point;
               predicted_sid = sn_ver S pred
           in map_option (\<lambda>valid. Some (if valid then pred else anchoring_point))
                (if predicted_sid = anchoring_sid then Some True else is_linking R s predicted_sid anchoring_sid))
      | (_, Some unconf, None) \<Rightarrow> Some (Some unconf)
      | (Some conf, _, _) \<Rightarrow> Some (Some conf)
      | _ \<Rightarrow> Some None)"

subsection \<open>Tracking\<close>

text \<open>One update of the stream; \<open>repos\<close> are the partitions and \<open>hash\<close> the partitioning hash.\<close>

definition at_partition :: "('sid \<Rightarrow> nat) \<Rightarrow> 'sid \<Rightarrow> ('s \<Rightarrow> 's) \<Rightarrow> 's list \<Rightarrow> 's list" where
  "at_partition hash i f repos = (let n = hash i mod length repos in repos[n := f (repos ! n)])"

definition pool_track ::
    "('s, 'e, 'sid, 'v) entity_repo_ops \<Rightarrow> ('e, 'sid, 'v) snapshot_ops \<Rightarrow> ('sid \<Rightarrow> nat) \<Rightarrow>
     ('e transition, 'cx) channel \<Rightarrow> 's list \<Rightarrow> 's list" where
  "pool_track R S hash upd_in_mode repos =
     (let is_confirmed = from_ledger upd_in_mode;
          put = (\<lambda>new_state. at_partition hash (sn_id S new_state)
            (if is_confirmed then er_put_confirmed R new_state else er_put_unconfirmed R new_state) repos)
      in case ch_erased upd_in_mode of
           Forward (Right new_state) \<Rightarrow> put new_state
         | Forward (Both _ new_state) \<Rightarrow> put new_state
         | Backward (Right new_state) \<Rightarrow> put new_state
         | Backward (Both _ new_state) \<Rightarrow> put new_state
         | Forward (Left st) \<Rightarrow> at_partition hash (sn_id S st) (er_eliminate R st) repos
         | Backward (Left st) \<Rightarrow> at_partition hash (sn_id S st) (er_invalidate R (sn_ver S st) (sn_id S st)) repos)"

definition pool_tracking_stream ::
    "('s, 'e, 'sid, 'v) entity_repo_ops \<Rightarrow> ('e, 'sid, 'v) snapshot_ops \<Rightarrow> ('sid \<Rightarrow> nat) \<Rightarrow>
     ('e transition, 'cx) channel list \<Rightarrow> 's list \<Rightarrow> 's list" where
  "pool_tracking_stream R S hash upstream repos = fold (pool_track R S hash) upstream repos"

subsection \<open>Blacklists\<close>

definition is_blacklisted :: "'sid list \<Rightarrow> 'sid \<Rightarrow> bool" where
  "is_blacklisted entries i = List.member entries i"

end
