(* ===== verification/Box_Resolver_Spec.thy ===== *)
theory Box_Resolver_Spec
  imports Box_Resolver
begin

text \<open>
  What the box resolver promises. The current state is the last predicted one if its chain of
  predecessors reaches the last state seen, and the last state seen otherwise; the walk along the
  chain ends when predictions build on earlier states; and the persistent repository resolves like
  the one in memory. \<open>repo_cells\<close> is what both repositories are made of, \<open>entity_repo\<close> what a
  reader of the three last states sees.
\<close>

subsection \<open>The chain of predictions\<close>

abbreviation links :: "('v \<Rightarrow> 'v option) \<Rightarrow> ('v \<times> 'v) set" where
  "links f \<equiv> {(v, p). f v = Some p}"

inductive chain_ends :: "('v \<Rightarrow> 'v option) \<Rightarrow> 'v \<Rightarrow> bool" for f where
  chain_stops: "f v = None \<Longrightarrow> chain_ends f v"
| chain_goes: "f v = Some p \<Longrightarrow> chain_ends f p \<Longrightarrow> chain_ends f v"

lemma chain_ends_rank: "(\<And>v p. f v = Some p \<Longrightarrow> rank p < (rank v :: nat)) \<Longrightarrow> chain_ends f v"
proof (induction "rank v" arbitrary: v rule: less_induct)
  case less
  then show ?case by (cases "f v") (auto intro: chain_ends.intros)
qed

lemma is_linking_True:
  assumes "(h, a) \<in> (links (\<lambda>v. er_get_prediction_predecessor R v s))\<^sup>+"
  shows "is_linking R s h a = Some True"
  using assms by (induction rule: converse_trancl_induct) (subst is_linking.simps, simp)+

lemma is_linking_False:
  assumes "chain_ends (\<lambda>v. er_get_prediction_predecessor R v s) h"
    and "(h, a) \<notin> (links (\<lambda>v. er_get_prediction_predecessor R v s))\<^sup>+"
  shows "is_linking R s h a = Some False"
  using assms
proof (induction rule: chain_ends.induct)
  case (chain_stops v)
  then show ?case by (subst is_linking.simps) simp
next
  case (chain_goes v p)
  then have "p \<noteq> a" "(p, a) \<notin> (links (\<lambda>v. er_get_prediction_predecessor R v s))\<^sup>+"
    by (auto intro: trancl_into_trancl2)
  with chain_goes show ?case by (subst is_linking.simps) simp
qed

lemma is_linking_answers:
  assumes "is_linking R s h a = Some b"
  shows "if b then (h, a) \<in> (links (\<lambda>v. er_get_prediction_predecessor R v s))\<^sup>+
    else chain_ends (\<lambda>v. er_get_prediction_predecessor R v s) h"
proof (rule is_linking.raw_induct [OF _ assms, where P = "\<lambda>R s h a b. if b
      then (h, a) \<in> (links (\<lambda>v. er_get_prediction_predecessor R v s))\<^sup>+
      else chain_ends (\<lambda>v. er_get_prediction_predecessor R v s) h"], goal_cases)
  case (1 f R s h a b)
  show ?case
  proof (cases "er_get_prediction_predecessor R h s")
    case None
    then show ?thesis using 1(2) by (auto intro: chain_stops)
  next
    case (Some p)
    show ?thesis
    proof (cases "p = a")
      case True
      then show ?thesis using 1(2) Some by auto
    next
      case False
      then show ?thesis using 1(2) 1(1) [of R s p a b] Some
        by (auto intro: chain_goes trancl_into_trancl2 split: if_splits)
    qed
  qed
qed

lemma is_linking_exact:
  "is_linking R s h a =
     (if (h, a) \<in> (links (\<lambda>v. er_get_prediction_predecessor R v s))\<^sup>+ then Some True
      else if chain_ends (\<lambda>v. er_get_prediction_predecessor R v s) h then Some False else None)"
proof (cases "(h, a) \<in> (links (\<lambda>v. er_get_prediction_predecessor R v s))\<^sup>+")
  case True
  then show ?thesis using is_linking_True [OF True] by simp
next
  case False
  show ?thesis
  proof (cases "chain_ends (\<lambda>v. er_get_prediction_predecessor R v s) h")
    case True
    then show ?thesis using is_linking_False [OF True False] False by simp
  next
    case endless: False
    have "is_linking R s h a \<noteq> Some b" for b
    proof
      assume "is_linking R s h a = Some b"
      from is_linking_answers [OF this] False endless show False by (cases b) simp_all
    qed
    then have "is_linking R s h a = None" using not_None_eq by blast
    then show ?thesis using False endless by simp
  qed
qed

text \<open>
  C38. The choice of the current state. With a confirmed and a predicted state, the predicted one is
  current if its chain of predecessors reaches the last state seen (the unconfirmed one, or else the
  confirmed one), and the last state seen is current otherwise; the resolver does not return exactly
  when the chain is endless and avoids that state. Without a predicted state the unconfirmed state comes
  before the confirmed one. A predicted state without a confirmed one resolves to nothing, even if
  an unconfirmed state is known.
\<close>
theorem resolution_exact:
  "resolve_entity_state R S i s =
     (case er_get_last_predicted R i s of
        None \<Rightarrow> Some (case er_get_last_unconfirmed R i s of Some u \<Rightarrow> Some u | None \<Rightarrow> er_get_last_confirmed R i s)
      | Some p \<Rightarrow>
          (case er_get_last_confirmed R i s of
             None \<Rightarrow> Some None
           | Some c \<Rightarrow>
               (let f = \<lambda>v. er_get_prediction_predecessor R v s;
                    a = (case er_get_last_unconfirmed R i s of Some u \<Rightarrow> u | None \<Rightarrow> c)
                in if (sn_ver S p, sn_ver S a) \<in> (links f)\<^sup>* then Some (Some p)
                   else if chain_ends f (sn_ver S p) then Some (Some a) else None)))"
  by (cases "er_get_last_predicted R i s"; cases "er_get_last_confirmed R i s"; cases "er_get_last_unconfirmed R i s")
    (simp_all add: resolve_entity_state_def is_linking_exact rtrancl_eq_or_trancl Let_def ex_bool_eq)

subsection \<open>What a reader of a repository sees\<close>

datatype mark = Confirmed_Mark | Unconfirmed_Mark | Predicted_Mark

record ('e, 'sid, 'v) repo_view =
  rv_link :: "'v \<Rightarrow> 'v option"
  rv_last :: "mark \<Rightarrow> 'sid \<Rightarrow> 'e option"

definition view_of :: "('s, 'e, 'sid, 'v) entity_repo_ops \<Rightarrow> 's \<Rightarrow> ('e, 'sid, 'v) repo_view" where
  "view_of R s = \<lparr> rv_link = (\<lambda>v. er_get_prediction_predecessor R v s),
     rv_last = (\<lambda>m i. case m of Confirmed_Mark \<Rightarrow> er_get_last_confirmed R i s
       | Unconfirmed_Mark \<Rightarrow> er_get_last_unconfirmed R i s | Predicted_Mark \<Rightarrow> er_get_last_predicted R i s) \<rparr>"

lemma resolve_by_view: "view_of R s = view_of R' s' \<Longrightarrow> resolve_entity_state R S i s = resolve_entity_state R' S i s'"
proof -
  assume v: "view_of R s = view_of R' s'"
  have "(\<lambda>v. er_get_prediction_predecessor R v s) = (\<lambda>v. er_get_prediction_predecessor R' v s')"
    using arg_cong [OF v, of rv_link] by (simp add: view_of_def)
  moreover have "rv_last (view_of R s) m i = rv_last (view_of R' s') m i" for m by (simp add: v)
  from this [of Confirmed_Mark] this [of Unconfirmed_Mark] this [of Predicted_Mark]
  have "er_get_last_confirmed R i s = er_get_last_confirmed R' i s'"
    "er_get_last_unconfirmed R i s = er_get_last_unconfirmed R' i s'"
    "er_get_last_predicted R i s = er_get_last_predicted R' i s'" by (simp_all add: view_of_def)
  ultimately show ?thesis unfolding resolution_exact by (simp only:)
qed

definition view_put :: "('e, 'sid, 'v) snapshot_ops \<Rightarrow> mark \<Rightarrow> 'e \<Rightarrow> ('e, 'sid, 'v) repo_view \<Rightarrow> ('e, 'sid, 'v) repo_view" where
  "view_put S m e w = w\<lparr> rv_last := (\<lambda>m' i. if m' = m \<and> i = sn_id S e then Some e
     else map_option (\<lambda>e'. if sn_ver S e' = sn_ver S e then e else e') (rv_last w m' i)) \<rparr>"

definition view_eliminate :: "('e, 'sid, 'v) snapshot_ops \<Rightarrow> 'e \<Rightarrow> ('e, 'sid, 'v) repo_view \<Rightarrow> ('e, 'sid, 'v) repo_view" where
  "view_eliminate S e w = \<lparr> rv_link = (rv_link w)(sn_ver S e := None),
     rv_last = (\<lambda>m i. if i = sn_id S e then None else rv_last w m i) \<rparr>"

datatype ('e, 'sid, 'v) repo_call =
    Put_Predicted 'e "'v option" | Put_Confirmed 'e | Put_Unconfirmed 'e | Invalidate 'v 'sid | Eliminate 'e

fun repo_do :: "('s, 'e, 'sid, 'v) entity_repo_ops \<Rightarrow> ('e, 'sid, 'v) repo_call \<Rightarrow> 's \<Rightarrow> 's" where
  "repo_do R (Put_Predicted e prev) s = er_put_predicted R (traced_new e prev) s"
| "repo_do R (Put_Confirmed e) s = er_put_confirmed R e s"
| "repo_do R (Put_Unconfirmed e) s = er_put_unconfirmed R e s"
| "repo_do R (Invalidate v i) s = er_invalidate R v i s"
| "repo_do R (Eliminate e) s = er_eliminate R e s"

text \<open>The calls after which both repositories agree.\<close>

fun plain_call :: "('e, 'sid, 'v) repo_call \<Rightarrow> bool" where
  "plain_call (Put_Predicted e prev) \<longleftrightarrow> prev \<noteq> None"
| "plain_call (Invalidate v i) \<longleftrightarrow> False"
| "plain_call _ \<longleftrightarrow> True"

fun view_call :: "('e, 'sid, 'v) snapshot_ops \<Rightarrow> ('e, 'sid, 'v) repo_call \<Rightarrow> ('e, 'sid, 'v) repo_view \<Rightarrow> ('e, 'sid, 'v) repo_view" where
  "view_call S (Put_Predicted e prev) w =
     (let w' = view_put S Predicted_Mark e w in w'\<lparr> rv_link := (rv_link w')(sn_ver S e := prev) \<rparr>)"
| "view_call S (Put_Confirmed e) w = view_put S Confirmed_Mark e w"
| "view_call S (Put_Unconfirmed e) w = view_put S Unconfirmed_Mark e w"
| "view_call S (Invalidate v i) w = w"
| "view_call S (Eliminate e) w = view_eliminate S e w"

locale entity_repo =
  fixes R :: "('s, 'e, 'sid, 'v) entity_repo_ops" and S :: "('e, 'sid, 'v) snapshot_ops" and ok :: "'s \<Rightarrow> bool"
  assumes call_seen: "ok s \<Longrightarrow> plain_call c \<Longrightarrow>
      ok (repo_do R c s) \<and> view_of R (repo_do R c s) = view_call S c (view_of R s)"
    and new_link: "er_get_prediction_predecessor R v (repo_do R c s) = Some p \<Longrightarrow>
      er_get_prediction_predecessor R v s = Some p \<or> (\<exists>e. c = Put_Predicted e (Some p) \<and> sn_ver S e = v)"
begin

lemma calls_seen:
  "ok s \<Longrightarrow> list_all plain_call calls \<Longrightarrow>
     ok (fold (repo_do R) calls s) \<and> view_of R (fold (repo_do R) calls s) = fold (view_call S) calls (view_of R s)"
  by (induction calls arbitrary: s) (auto simp: call_seen)

lemma link_origin:
  "er_get_prediction_predecessor R v (fold (repo_do R) calls s) = Some p \<Longrightarrow>
     er_get_prediction_predecessor R v s = Some p \<or> (\<exists>e. Put_Predicted e (Some p) \<in> set calls \<and> sn_ver S e = v)"
proof (induction calls arbitrary: s)
  case (Cons c calls)
  then show ?case using Cons(1) [of "repo_do R c s"] new_link [of v c s p] by auto
qed simp

lemma resolves:
  assumes "\<And>v. er_get_prediction_predecessor R v s = None"
    and "\<And>e p. Put_Predicted e (Some p) \<in> set calls \<Longrightarrow> rank p < (rank (sn_ver S e) :: nat)"
  shows "resolve_entity_state R S i (fold (repo_do R) calls s) \<noteq> None"
proof -
  have "chain_ends (\<lambda>v. er_get_prediction_predecessor R v (fold (repo_do R) calls s)) v" for v
    by (rule chain_ends_rank [of _ rank]) (use link_origin assms in fastforce)
  then show ?thesis by (simp add: resolution_exact Let_def split: option.split)
qed

end

subsection \<open>What both repositories are made of\<close>

locale repo_cells =
  fixes R :: "('s, 'e, 'sid, 'v) entity_repo_ops" and S :: "('e, 'sid, 'v) snapshot_ops"
    and idx :: "'s \<Rightarrow> mark \<Rightarrow> 'sid \<Rightarrow> 'v option" and store :: "'s \<Rightarrow> 'v \<Rightarrow> 'e option"
    and link :: "'s \<Rightarrow> 'v \<Rightarrow> 'v option"
  assumes version_id: "sn_ver S e = sn_ver S e' \<Longrightarrow> sn_id S e = sn_id S e'"
    and get_link: "er_get_prediction_predecessor R v s = link s v"
    and get_confirmed: "er_get_last_confirmed R i s = Option.bind (idx s Confirmed_Mark i) (store s)"
    and get_unconfirmed: "er_get_last_unconfirmed R i s = Option.bind (idx s Unconfirmed_Mark i) (store s)"
    and get_predicted: "(\<And>v. idx s Predicted_Mark i = Some v \<Longrightarrow> link s v \<noteq> None) \<Longrightarrow>
      er_get_last_predicted R i s = Option.bind (idx s Predicted_Mark i) (store s)"
    and put_confirmed: "idx (er_put_confirmed R e s) = (idx s)(Confirmed_Mark := (idx s Confirmed_Mark)(sn_id S e \<mapsto> sn_ver S e))"
      "store (er_put_confirmed R e s) = (store s)(sn_ver S e \<mapsto> e)" "link (er_put_confirmed R e s) = link s"
    and put_unconfirmed: "idx (er_put_unconfirmed R e s) = (idx s)(Unconfirmed_Mark := (idx s Unconfirmed_Mark)(sn_id S e \<mapsto> sn_ver S e))"
      "store (er_put_unconfirmed R e s) = (store s)(sn_ver S e \<mapsto> e)" "link (er_put_unconfirmed R e s) = link s"
    and put_predicted: "idx (er_put_predicted R (traced_new e prev) s) = (idx s)(Predicted_Mark := (idx s Predicted_Mark)(sn_id S e \<mapsto> sn_ver S e))"
      "store (er_put_predicted R (traced_new e prev) s) = (store s)(sn_ver S e \<mapsto> e)"
      "link (er_put_predicted R (traced_new e prev) s) = (case prev of None \<Rightarrow> link s | Some p \<Rightarrow> (link s)(sn_ver S e \<mapsto> p))"
    and eliminate: "idx (er_eliminate R e s) m i = (if i = sn_id S e then None else idx s m i)"
      "w \<noteq> sn_ver S e \<Longrightarrow> store (er_eliminate R e s) w = store s w"
      "link (er_eliminate R e s) = (link s)(sn_ver S e := None)"
    and invalidate_link: "link (er_invalidate R v i s) = (link s)(v := None)"
begin

text \<open>Every indexed version is stored under its own entity; a predicted one has a predecessor.\<close>

definition repo_ok :: "'s \<Rightarrow> bool" where
  "repo_ok s \<longleftrightarrow> (\<forall>m i v. idx s m i = Some v \<longrightarrow>
     (\<exists>e. store s v = Some e \<and> sn_id S e = i \<and> sn_ver S e = v) \<and> (m = Predicted_Mark \<longrightarrow> link s v \<noteq> None))"

lemma repo_okD:
  assumes "repo_ok s" "idx s m i = Some v"
  shows "\<exists>e. store s v = Some e \<and> sn_id S e = i \<and> sn_ver S e = v" "m = Predicted_Mark \<Longrightarrow> link s v \<noteq> None"
  using assms unfolding repo_ok_def by blast+

lemma view_cells:
  assumes "repo_ok s"
  shows "view_of R s = \<lparr> rv_link = link s, rv_last = (\<lambda>m i. Option.bind (idx s m i) (store s)) \<rparr>"
proof -
  have "er_get_last_predicted R i s = Option.bind (idx s Predicted_Mark i) (store s)" for i
    by (rule get_predicted) (use repo_okD(2) [OF assms] in blast)
  then show ?thesis by (simp add: view_of_def get_link get_confirmed get_unconfirmed fun_eq_iff split: mark.split)
qed

lemma put_cells:
  assumes ok: "repo_ok s"
    and i: "idx s' = (idx s)(m := (idx s m)(sn_id S e \<mapsto> sn_ver S e))"
    and st: "store s' = (store s)(sn_ver S e \<mapsto> e)"
    and l: "\<And>v. link s v \<noteq> None \<Longrightarrow> link s' v \<noteq> None" "m = Predicted_Mark \<Longrightarrow> link s' (sn_ver S e) \<noteq> None"
  shows "repo_ok s' \<and> view_of R s' = (view_put S m e (view_of R s))\<lparr> rv_link := link s' \<rparr>"
proof
  show ok': "repo_ok s'"
    unfolding repo_ok_def
  proof (intro allI impI)
    fix m' j v
    assume a: "idx s' m' j = Some v"
    show "(\<exists>e. store s' v = Some e \<and> sn_id S e = j \<and> sn_ver S e = v) \<and> (m' = Predicted_Mark \<longrightarrow> link s' v \<noteq> None)"
    proof (cases "m' = m \<and> j = sn_id S e")
      case True
      then show ?thesis using a l(2) by (simp add: i st)
    next
      case False
      then have b: "idx s m' j = Some v" using a by (auto simp: i split: if_splits)
      obtain e' where e': "store s v = Some e'" "sn_id S e' = j" "sn_ver S e' = v" using repo_okD(1) [OF ok b] by blast
      then have "\<exists>e. store s' v = Some e \<and> sn_id S e = j \<and> sn_ver S e = v" using version_id [of e e'] by (simp add: st)
      then show ?thesis using repo_okD(2) [OF ok b] l(1) by simp
    qed
  qed
  have "Option.bind (idx s' m' j) (store s') = (if m' = m \<and> j = sn_id S e then Some e
      else map_option (\<lambda>e'. if sn_ver S e' = sn_ver S e then e else e') (Option.bind (idx s m' j) (store s)))" for m' j
    using repo_okD(1) [OF ok, of m' j] by (cases "idx s m' j") (auto simp: i st)
  then show "view_of R s' = (view_put S m e (view_of R s))\<lparr> rv_link := link s' \<rparr>"
    by (simp add: view_cells [OF ok'] view_cells [OF ok] view_put_def fun_eq_iff)
qed

lemma eliminate_cells:
  assumes ok: "repo_ok s"
  shows "repo_ok (er_eliminate R e s) \<and> view_of R (er_eliminate R e s) = view_eliminate S e (view_of R s)"
proof
  have other: "v \<noteq> sn_ver S e" if "idx s m j = Some v" "j \<noteq> sn_id S e" for m j v
    using repo_okD(1) [OF ok that(1)] that(2) version_id by metis
  show ok': "repo_ok (er_eliminate R e s)"
    unfolding repo_ok_def using repo_okD [OF ok] other by (auto simp: eliminate split: if_splits)
  have "Option.bind (idx s m j) (store (er_eliminate R e s)) = Option.bind (idx s m j) (store s)" if "j \<noteq> sn_id S e" for m j
    using other that by (cases "idx s m j") (auto simp: eliminate(2))
  then show "view_of R (er_eliminate R e s) = view_eliminate S e (view_of R s)"
    by (auto simp: view_cells [OF ok'] view_cells [OF ok] view_eliminate_def eliminate(1,3) fun_eq_iff)
qed

end

sublocale repo_cells \<subseteq> entity_repo R S repo_ok
proof
  show "repo_ok (repo_do R c s) \<and> view_of R (repo_do R c s) = view_call S c (view_of R s)"
    if ok: "repo_ok s" and c: "plain_call c" for s c
  proof (cases c)
    case (Put_Predicted e prev)
    then obtain p where "prev = Some p" using c by auto
    with Put_Predicted show ?thesis
      using put_cells [OF ok put_predicted(1,2), of e prev] by (simp add: put_predicted(3) view_cells [OF ok] view_put_def)
  next
    case (Put_Confirmed e)
    then show ?thesis
      using put_cells [OF ok put_confirmed(1,2), of e] by (simp add: put_confirmed(3) view_cells [OF ok] view_put_def)
  next
    case (Put_Unconfirmed e)
    then show ?thesis
      using put_cells [OF ok put_unconfirmed(1,2), of e] by (simp add: put_unconfirmed(3) view_cells [OF ok] view_put_def)
  qed (use c eliminate_cells [OF ok] in auto)
  show "er_get_prediction_predecessor R v s = Some p \<or> (\<exists>e. c = Put_Predicted e (Some p) \<and> sn_ver S e = v)"
    if "er_get_prediction_predecessor R v (repo_do R c s) = Some p" for v c s p
    using that by (cases c) (auto simp: get_link put_confirmed(3) put_unconfirmed(3) put_predicted(3) eliminate(3)
        invalidate_link split: option.splits if_splits)
qed

subsection \<open>The two repositories\<close>

text \<open>Identifiers have their own keys, and a version belongs to one entity.\<close>

locale box_snapshots =
  fixes S :: "('e, 'sid, 'v) snapshot_ops"
  assumes key_inj: "sn_key S i = sn_key S j \<Longrightarrow> i = j"
    and version_one_id: "sn_ver S e = sn_ver S e' \<Longrightarrow> sn_id S e = sn_id S e'"

lemma mark_none: "m \<noteq> Predicted_Mark \<Longrightarrow> m \<noteq> Confirmed_Mark \<Longrightarrow> m = Unconfirmed_Mark"
  by (cases m) simp_all

fun mr_prefix :: "mark \<Rightarrow> byte" where
  "mr_prefix Predicted_Mark = mr_predicted_prefix"
| "mr_prefix Confirmed_Mark = mr_confirmed_prefix"
| "mr_prefix Unconfirmed_Mark = mr_unconfirmed_prefix"

declare mr_prefix.simps [simp del]

lemmas mr_marks = mr_prefix.simps [symmetric]

lemma mr_prefix_eq_iff [simp]: "mr_prefix m = mr_prefix m' \<longleftrightarrow> m = m'"
  by (cases m; cases m') (simp_all add: mr_prefix.simps mr_predicted_prefix_def mr_confirmed_prefix_def mr_unconfirmed_prefix_def)

lemmas mr_ops = memory_repo_ops_def mr_get_prediction_predecessor_def mr_get_last_predicted_def
  mr_get_last_confirmed_def mr_get_last_unconfirmed_def mr_put_predicted_def mr_put_confirmed_def
  mr_put_unconfirmed_def mr_invalidate_def mr_eliminate_def Let_def traced_new_def

context box_snapshots
begin

lemma mr_key_eq_iff: "mr_index_key S (mr_prefix m) i = mr_index_key S (mr_prefix m') j \<longleftrightarrow> m = m' \<and> i = j"
  using key_inj by (auto simp: mr_index_key_def)

end

sublocale box_snapshots \<subseteq> mem: repo_cells "memory_repo_ops S" S
    "\<lambda>r m i. mr_index r (mr_index_key S (mr_prefix m) i)" mr_store mr_links
  by unfold_locales
    (auto simp: mr_ops mr_marks mr_key_eq_iff fun_eq_iff dest: mark_none intro: version_one_id split: option.split)

fun rr_prefix :: "mark \<Rightarrow> str" where
  "rr_prefix Predicted_Mark = rr_predicted_prefix"
| "rr_prefix Confirmed_Mark = rr_confirmed_prefix"
| "rr_prefix Unconfirmed_Mark = rr_unconfirmed_prefix"

declare rr_prefix.simps [simp del]

lemmas rr_marks = rr_prefix.simps [symmetric]

lemmas rr_prefix_defs = rr_prefix.simps rr_predicted_prefix_def rr_confirmed_prefix_def rr_unconfirmed_prefix_def
  rr_state_prefix_def rr_link_prefix_def ascii_text_def

lemma rr_prefix_eq_iff: "rr_prefix m = rr_prefix m' \<longleftrightarrow> m = m'"
  by (cases m; cases m') (simp_all add: rr_prefix_defs)

lemma rr_prefix_other: "rr_prefix m \<noteq> rr_state_prefix" "rr_state_prefix \<noteq> rr_prefix m"
    "rr_prefix m \<noteq> rr_link_prefix" "rr_link_prefix \<noteq> rr_prefix m"
    "rr_state_prefix \<noteq> rr_link_prefix" "rr_link_prefix \<noteq> rr_state_prefix"
  by (cases m; simp add: rr_prefix_defs)+

locale box_rocks = rocksdb db + box_snapshots S
  for db :: "('s, unit) rocks" and S :: "('e, 'sid, 'v) snapshot_ops" +
  fixes B :: "('s, 'e, 'sid, 'v) bincode"
  assumes str_split: "length p < 2 ^ 64 \<Longrightarrow> length q < 2 ^ 64 \<Longrightarrow> bc_str B p @ x = bc_str B q @ y \<longleftrightarrow> p = q \<and> x = y"
    and sid_inj: "bc_sid B i = bc_sid B j \<Longrightarrow> i = j"
    and ver_dec: "bc_ver_dec B (bc_ver B v) = Some v"
    and entity_dec: "bc_entity_dec B (bc_entity B e) = Some e"
begin

lemma ver_inj: "bc_ver B v = bc_ver B w \<Longrightarrow> v = w"
  by (metis option.inject ver_dec)

lemma prefix_short [simp]:
  "length (rr_prefix m) < 18446744073709551616" "length rr_state_prefix < 18446744073709551616" "length rr_link_prefix < 18446744073709551616"
  by (cases m) (simp_all add: rr_prefix_defs)

lemma rr_keys:
  "rr_key B (rr_prefix m) i = rr_key B (rr_prefix m') j \<longleftrightarrow> m = m' \<and> i = j"
  "rr_ver_key B rr_state_prefix v = rr_ver_key B rr_state_prefix w \<longleftrightarrow> v = w"
  "rr_ver_key B rr_link_prefix v = rr_ver_key B rr_link_prefix w \<longleftrightarrow> v = w"
  "rr_ver_key B rr_state_prefix v \<noteq> rr_ver_key B rr_link_prefix w"
  "rr_ver_key B rr_link_prefix v \<noteq> rr_ver_key B rr_state_prefix w"
  "rr_key B (rr_prefix m) i \<noteq> rr_ver_key B rr_state_prefix v"
  "rr_key B (rr_prefix m) i \<noteq> rr_ver_key B rr_link_prefix v"
  "rr_ver_key B rr_state_prefix v \<noteq> rr_key B (rr_prefix m) i"
  "rr_ver_key B rr_link_prefix v \<noteq> rr_key B (rr_prefix m) i"
  using ver_inj sid_inj
  by (auto simp: rr_key_def rr_ver_key_def prefixed_key_def str_split rr_prefix_eq_iff rr_prefix_other)

definition rr_idx :: "'s \<Rightarrow> mark \<Rightarrow> 'sid \<Rightarrow> 'v option" where
  "rr_idx s m i = Option.bind (r_get db s () (rr_key B (rr_prefix m) i)) (bc_ver_dec B)"

definition rr_store :: "'s \<Rightarrow> 'v \<Rightarrow> 'e option" where
  "rr_store s = (\<lambda>v. Option.bind (r_get db s () (rr_ver_key B rr_state_prefix v)) (bc_entity_dec B))"

definition rr_links :: "'s \<Rightarrow> 'v \<Rightarrow> 'v option" where
  "rr_links s v = Option.bind (r_get db s () (rr_ver_key B rr_link_prefix v)) (bc_ver_dec B)"

lemmas rr_cells = rr_idx_def rr_store_def rr_links_def rocks_repo_ops_def rr_get_prediction_predecessor_def
  rr_get_last_predicted_def rr_get_last_confirmed_def rr_get_last_unconfirmed_def rr_put_predicted_def
  rr_put_confirmed_def rr_put_unconfirmed_def rr_invalidate_def rr_eliminate_def Let_def traced_new_def

end

sublocale box_rocks \<subseteq> disk: repo_cells "rocks_repo_ops db B S" S rr_idx rr_store rr_links
proof
  show "er_get_last_predicted (rocks_repo_ops db B S) i s = Option.bind (rr_idx s Predicted_Mark i) (rr_store s)"
    if "\<And>v. rr_idx s Predicted_Mark i = Some v \<Longrightarrow> rr_links s v \<noteq> None" for i s
    using that by (cases "r_get db s () (rr_key B (rr_prefix Predicted_Mark) i)")
      (auto simp: rr_cells rr_marks bind_eq_None_conv split: Option.bind_splits)
qed (auto simp: rr_cells rr_marks fun_eq_iff get_put get_del rr_keys ver_dec entity_dec dest: mark_none intro: version_one_id split: option.split)

subsection \<open>Properties of the two repositories\<close>

text \<open>A database without entries.\<close>

definition fresh_db :: "('s, unit) rocks \<Rightarrow> 's \<Rightarrow> bool" where
  "fresh_db db s \<longleftrightarrow> (\<forall>k. r_get db s () k = None)"

context box_rocks
begin

lemma fresh_ok:
  assumes "fresh_db db s"
  shows "mem.repo_ok mr_new" "disk.repo_ok s" "view_of (memory_repo_ops S) mr_new = view_of (rocks_repo_ops db B S) s"
proof -
  show ok: "mem.repo_ok mr_new" "disk.repo_ok s"
    using assms by (simp_all add: mem.repo_ok_def disk.repo_ok_def mr_new_def rr_idx_def fresh_db_def)
  show "view_of (memory_repo_ops S) mr_new = view_of (rocks_repo_ops db B S) s"
    using assms unfolding mem.view_cells [OF ok(1)] disk.view_cells [OF ok(2)]
    by (simp add: mr_new_def rr_idx_def rr_links_def fresh_db_def fun_eq_iff)
qed

lemma both_resolve:
  assumes "fresh_db db s"
    and "\<And>e p. Put_Predicted e (Some p) \<in> set calls \<Longrightarrow> rank p < (rank (sn_ver S e) :: nat)"
  shows "resolve_entity_state (memory_repo_ops S) S i (fold (repo_do (memory_repo_ops S)) calls mr_new) \<noteq> None"
    "resolve_entity_state (rocks_repo_ops db B S) S i (fold (repo_do (rocks_repo_ops db B S)) calls s) \<noteq> None"
  using mem.resolves [of mr_new calls rank i] disk.resolves [of s calls rank i] assms
  by (simp_all add: mem.get_link disk.get_link mr_new_def rr_links_def fresh_db_def)

lemma both_agree:
  assumes "fresh_db db s" "list_all plain_call calls"
  shows "view_of (memory_repo_ops S) (fold (repo_do (memory_repo_ops S)) calls mr_new) =
    view_of (rocks_repo_ops db B S) (fold (repo_do (rocks_repo_ops db B S)) calls s)"
  using mem.calls_seen [OF fresh_ok(1) [OF assms(1)] assms(2)] disk.calls_seen [OF fresh_ok(2) [OF assms(1)] assms(2)]
    fresh_ok(3) [OF assms(1)] by simp

text \<open>
  Beyond such calls they differ: a predicted state without a predecessor hides an unconfirmed one in
  memory only; and after an invalidation the persistent repository still follows another prediction
  on the same state, which the one in memory has forgotten.
\<close>

lemma unlinked_prediction:
  assumes "fresh_db db s" "sn_id S u = i" "sn_id S p = i" "sn_ver S u \<noteq> sn_ver S p"
  defines "calls \<equiv> [Put_Unconfirmed u, Put_Predicted p None]"
  shows "resolve_entity_state (memory_repo_ops S) S i (fold (repo_do (memory_repo_ops S)) calls mr_new) = Some None"
    "resolve_entity_state (rocks_repo_ops db B S) S i (fold (repo_do (rocks_repo_ops db B S)) calls s) = Some (Some u)"
  using assms by (simp_all add: resolve_entity_state_def mr_ops mr_new_def mr_marks mr_key_eq_iff rr_cells rr_marks get_put
      rr_keys ver_dec entity_dec fresh_db_def)

lemma invalidated_sibling:
  assumes "fresh_db db s" "sn_id S c = i" "sn_id S p = i" "sn_id S q = i" "distinct [sn_ver S c, sn_ver S p, sn_ver S q]"
  defines "calls \<equiv> [Put_Confirmed c, Put_Predicted p (Some (sn_ver S c)), Put_Predicted q (Some (sn_ver S c)), Invalidate (sn_ver S p) i]"
  shows "resolve_entity_state (memory_repo_ops S) S i (fold (repo_do (memory_repo_ops S)) calls mr_new) = Some (Some c)"
    "resolve_entity_state (rocks_repo_ops db B S) S i (fold (repo_do (rocks_repo_ops db B S)) calls s) = Some (Some q)"
  using assms by (auto simp: resolve_entity_state_def mr_ops mr_new_def mr_marks mr_key_eq_iff rr_cells rr_marks get_put get_del
      rr_keys ver_dec entity_dec fresh_db_def is_linking.simps ex_bool_eq)

end

subsection \<open>A reference encoding\<close>

text \<open>Entities are numbers, ten versions to an identifier; a text is preceded by its length, least byte first.\<close>

definition numbered_boxes :: "(nat, nat, nat) snapshot_ops" where
  "numbered_boxes = \<lparr> sn_id = (\<lambda>e. e div 10), sn_qp = (\<lambda>_. False), sn_ver = id, sn_key = (\<lambda>i. replicate i 1) \<rparr>"

definition ref_bincode :: "(unit assoc_store, nat, nat, nat) bincode" where
  "ref_bincode = \<lparr> bc_str = (\<lambda>s. rev (u64_to_be_bytes (of_nat (length s))) @ s), bc_sid = (\<lambda>i. replicate i 1),
     bc_ver = (\<lambda>v. replicate v 1), bc_ver_dec = (\<lambda>bs. Some (length bs)), bc_entity = (\<lambda>v. replicate v 1),
     bc_entity_dec = (\<lambda>bs. Some (length bs)), bc_key_may_exist = (\<lambda>s k. r_get assoc_rocks s () k \<noteq> None) \<rparr>"

lemma of_nat_u64_inj: "p < 2 ^ 64 \<Longrightarrow> q < 2 ^ 64 \<Longrightarrow> (of_nat p :: u64) = of_nat q \<longleftrightarrow> p = q"
proof -
  assume "p < 2 ^ 64" "q < 2 ^ 64"
  then have "unat (of_nat p :: u64) = p" "unat (of_nat q :: u64) = q" by (simp_all add: unat_of_nat)
  then show ?thesis by metis
qed

interpretation numbered: box_rocks assoc_rocks numbered_boxes ref_bincode
proof
  show "bc_str ref_bincode p @ x = bc_str ref_bincode q @ y \<longleftrightarrow> p = q \<and> x = y"
    if "length p < 2 ^ 64" "length q < 2 ^ 64" for p q x y
  proof
    assume "bc_str ref_bincode p @ x = bc_str ref_bincode q @ y"
    then have a: "u64_to_be_bytes (of_nat (length p)) = u64_to_be_bytes (of_nat (length q))" "p @ x = q @ y"
      by (simp_all add: ref_bincode_def append_eq_append_conv)
    then have "length p = length q" using of_nat_u64_inj [OF that] by (simp add: u64_to_be_bytes_eq_iff)
    then show "p = q \<and> x = y" using a(2) by simp
  qed simp
qed (auto simp: numbered_boxes_def ref_bincode_def dest: arg_cong [where f = length])

text \<open>
  C39. The resolver returns. If every prediction ranks above the state it builds on (for instance by
  the time of its creation), then after any calls, invalidations included, the resolver answers
  for every entity, on both repositories.
\<close>
theorem resolution_returns:
  assumes "box_rocks db S B" and "fresh_db db s"
    and "\<And>e p. Put_Predicted e (Some p) \<in> set calls \<Longrightarrow> rank p < (rank (sn_ver S e) :: nat)"
  shows "resolve_entity_state (memory_repo_ops S) S i (fold (repo_do (memory_repo_ops S)) calls mr_new) \<noteq> None \<and>
    resolve_entity_state (rocks_repo_ops db B S) S i (fold (repo_do (rocks_repo_ops db B S)) calls s) \<noteq> None"
  using box_rocks.both_resolve [OF assms(1,2), of calls rank i] assms(3) by blast

theorem resolution_returns_witness:
  "resolve_entity_state (memory_repo_ops numbered_boxes) numbered_boxes 1
     (fold (repo_do (memory_repo_ops numbered_boxes)) [Put_Confirmed 10, Put_Predicted 11 (Some 10), Invalidate 10 1] mr_new) \<noteq> None"
  using resolution_returns [OF numbered.box_rocks_axioms, of empty_store
      "[Put_Confirmed 10, Put_Predicted 11 (Some 10), Invalidate 10 1]" id 1]
  by (simp add: fresh_db_def get_empty_store numbered_boxes_def)

text \<open>
  C40. The two repositories agree: from an empty one, any confirmed, unconfirmed and eliminated states
  and predictions with a predecessor leave the in-memory and the persistent repository with the same
  links and the same last states, so both resolve every entity alike.
\<close>
theorem repositories_agree:
  assumes "box_rocks db S B" and "fresh_db db s" and "list_all plain_call calls"
  shows "let m = fold (repo_do (memory_repo_ops S)) calls mr_new; d = fold (repo_do (rocks_repo_ops db B S)) calls s
    in view_of (memory_repo_ops S) m = view_of (rocks_repo_ops db B S) d \<and>
       (\<forall>i. resolve_entity_state (memory_repo_ops S) S i m = resolve_entity_state (rocks_repo_ops db B S) S i d)"
  unfolding Let_def
  by (intro conjI allI) (rule box_rocks.both_agree [OF assms], rule resolve_by_view [OF box_rocks.both_agree [OF assms]])

theorem repositories_agree_witness:
  "resolve_entity_state (rocks_repo_ops assoc_rocks ref_bincode numbered_boxes) numbered_boxes 1
     (fold (repo_do (rocks_repo_ops assoc_rocks ref_bincode numbered_boxes)) [Put_Confirmed 10, Put_Predicted 11 (Some 10)] empty_store) = Some (Some 11)"
proof -
  have "resolve_entity_state (memory_repo_ops numbered_boxes) numbered_boxes 1
     (fold (repo_do (memory_repo_ops numbered_boxes)) [Put_Confirmed 10, Put_Predicted 11 (Some 10)] mr_new) = Some (Some 11)"
    by (simp add: resolve_entity_state_def mr_ops numbered_boxes_def mr_new_def mr_index_key_def is_linking.simps
        mr_predicted_prefix_def mr_confirmed_prefix_def mr_unconfirmed_prefix_def)
  then show ?thesis
    using repositories_agree [OF numbered.box_rocks_axioms, of empty_store "[Put_Confirmed 10, Put_Predicted 11 (Some 10)]"]
    by (simp add: fresh_db_def get_empty_store Let_def)
qed

end
