(* ===== verification/Plutus_Data.thy ===== *)
theory Plutus_Data
  imports Value_Ops "HOL-Library.Monad_Syntax"
begin

text \<open>
  Plutus data and what the program reads from it and writes to it:
  packages/spectrum-cardano-lib/src/plutus_data.rs, types.rs, address.rs and the conversions of
  lib.rs. The data type is the ledger library's; its record of how a value was encoded in CBOR does
  not influence what is read and is left out. A big integer is an integer.
\<close>

subsection \<open>Plutus data\<close>

datatype plutus_data =
    ConstrPd u64 "plutus_data list"
  | MapPd "(plutus_data \<times> plutus_data) list"
  | ListPd "plutus_data list"
  | IntPd int
  | BytesPd bytes

fun into_constr_pd :: "plutus_data \<Rightarrow> (u64 \<times> plutus_data list) option" where
  "into_constr_pd (ConstrPd alt fields) = Some (alt, fields)"
| "into_constr_pd _ = None"

fun into_bytes :: "plutus_data \<Rightarrow> bytes option" where
  "into_bytes (BytesPd bs) = Some bs"
| "into_bytes _ = None"

fun into_u64 :: "plutus_data \<Rightarrow> u64 option" where
  "into_u64 (IntPd i) = (if 0 \<le> i \<and> i < 2 ^ 64 then Some (of_int i) else None)"
| "into_u64 _ = None"

fun into_u128 :: "plutus_data \<Rightarrow> 128 word option" where
  "into_u128 (IntPd i) = (if 0 \<le> i \<and> i < 2 ^ 128 then Some (of_int i) else None)"
| "into_u128 _ = None"

fun into_u512 :: "plutus_data \<Rightarrow> 512 word option" where
  "into_u512 (IntPd i) = (if 0 \<le> i \<and> i < 2 ^ 512 then Some (of_int i) else None)"
| "into_u512 _ = None"

fun into_vec :: "plutus_data \<Rightarrow> plutus_data list option" where
  "into_vec (ListPd xs) = Some xs"
| "into_vec _ = None"

fun into_vec_pd :: "plutus_data \<Rightarrow> (plutus_data \<Rightarrow> 'a option) \<Rightarrow> 'a list option" where
  "into_vec_pd (ListPd xs) f = Some (List.map_filter f xs)"
| "into_vec_pd _ f = None"

fun into_pd_map :: "plutus_data \<Rightarrow> (plutus_data \<times> plutus_data) list option" where
  "into_pd_map (MapPd m) = Some m"
| "into_pd_map _ = None"

definition dummy_pd :: plutus_data where
  "dummy_pd = ListPd []"

text \<open>The fields of a constructor change in place: taking one leaves a dummy.\<close>

definition take_field :: "nat \<Rightarrow> plutus_data list \<Rightarrow> (plutus_data \<times> plutus_data list) option" where
  "take_field index fields =
     (if index < length fields then Some (fields ! index, fields[index := dummy_pd]) else None)"

text \<open>An index out of range panics.\<close>

definition set_field :: "nat \<Rightarrow> plutus_data \<Rightarrow> plutus_data list \<Rightarrow> plutus_data list option" where
  "set_field index v fields = (if index < length fields then Some (fields[index := v]) else None)"

definition update_field :: "nat \<Rightarrow> (plutus_data \<Rightarrow> plutus_data) \<Rightarrow> plutus_data list \<Rightarrow> plutus_data list" where
  "update_field index f fields = (if index < length fields then fields[index := f (fields ! index)] else fields)"

definition update_field_unsafe :: "nat \<Rightarrow> plutus_data \<Rightarrow> plutus_data list \<Rightarrow> plutus_data list" where
  "update_field_unsafe index v fields = (if index < length fields then fields[index := v] else fields)"

definition make_constr_pd_indefinite_arr :: "plutus_data list \<Rightarrow> plutus_data" where
  "make_constr_pd_indefinite_arr fields = ConstrPd 0 fields"

subsection \<open>Writing\<close>

definition u64_into_pd :: "u64 \<Rightarrow> plutus_data" where
  "u64_into_pd w = IntPd (uint w)"

definition i64_into_pd :: "64 word \<Rightarrow> plutus_data" where
  "i64_into_pd w = IntPd (sint w)"

definition u128_into_pd :: "128 word \<Rightarrow> plutus_data" where
  "u128_into_pd w = IntPd (uint w)"

definition u512_into_pd :: "512 word \<Rightarrow> plutus_data" where
  "u512_into_pd w = IntPd (uint w)"

definition bytes_into_pd :: "bytes \<Rightarrow> plutus_data" where
  "bytes_into_pd bs = BytesPd bs"

definition ratio_into_pd :: "('a \<Rightarrow> plutus_data) \<Rightarrow> 'a \<times> 'a \<Rightarrow> plutus_data" where
  "ratio_into_pd f r = ConstrPd 0 [f (fst r), f (snd r)]"

definition vec_into_pd :: "('a \<Rightarrow> plutus_data) \<Rightarrow> 'a list \<Rightarrow> plutus_data" where
  "vec_into_pd f xs = ListPd (map f xs)"

definition option_into_pd :: "('a \<Rightarrow> plutus_data) \<Rightarrow> 'a option \<Rightarrow> plutus_data" where
  "option_into_pd f x = (case x of None \<Rightarrow> ConstrPd 1 [] | Some v \<Rightarrow> ConstrPd 0 [f v])"

subsection \<open>Reading\<close>

definition bool_try_from_pd :: "plutus_data \<Rightarrow> bool option" where
  "bool_try_from_pd pd =
     Option.bind (into_constr_pd pd) (\<lambda>(alternative, _).
       if alternative = 0 then Some False else if alternative = 1 then Some True else None)"

definition option_try_from_pd :: "(plutus_data \<Rightarrow> 'a option) \<Rightarrow> plutus_data \<Rightarrow> 'a option option" where
  "option_try_from_pd f pd =
     Option.bind (into_constr_pd pd) (\<lambda>(alternative, fields).
       if alternative = 0
       then Option.bind (take_field 0 fields) (\<lambda>(x, _). map_option Some (f x))
       else if alternative = 1 then Some None else None)"

definition vec_try_from_pd :: "(plutus_data \<Rightarrow> 'a option) \<Rightarrow> plutus_data \<Rightarrow> 'a list option" where
  "vec_try_from_pd f pd = Option.bind (into_vec pd) (\<lambda>xs. those (map f xs))"

definition ratio_try_from_pd :: "plutus_data \<Rightarrow> (128 word \<times> 128 word) option" where
  "ratio_try_from_pd pd =
     do {
       (_, fields) \<leftarrow> into_constr_pd pd;
       (d, fields) \<leftarrow> take_field 1 fields;
       denom \<leftarrow> into_u128 d;
       if denom \<noteq> 0
       then do {
         (n, fields) \<leftarrow> take_field 0 fields;
         numer \<leftarrow> into_u128 n;
         Some (numer, denom)
       }
       else None
     }"

definition hash28_from_raw_bytes :: "bytes \<Rightarrow> hash28 option" where
  "hash28_from_raw_bytes bs = (if length bs = 28 then Some (word_of_nat (nat_be bs)) else None)"

definition policy_try_from_pd :: "plutus_data \<Rightarrow> hash28 option" where
  "policy_try_from_pd pd = Option.bind (into_bytes pd) hash28_from_raw_bytes"

definition token_into_pd :: "token \<Rightarrow> plutus_data option" where
  "token_into_pd t =
     map_option (\<lambda>name. ConstrPd 0 [BytesPd (hash28_bytes (tk_policy t)), BytesPd name]) (an_as_bytes (tk_name t))"

definition token_try_from_pd :: "plutus_data \<Rightarrow> token option" where
  "token_try_from_pd pd =
     do {
       (_, fields) \<leftarrow> into_constr_pd pd;
       (p, fields) \<leftarrow> take_field 0 fields;
       policy_bytes \<leftarrow> into_bytes p;
       (a, fields) \<leftarrow> take_field 1 fields;
       asset_name_bytes \<leftarrow> into_bytes a;
       if policy_bytes \<noteq> []
       then do {
         policy_id \<leftarrow> hash28_from_raw_bytes policy_bytes;
         asset_name \<leftarrow> an_try_from asset_name_bytes;
         Some (Token policy_id asset_name)
       }
       else None
     }"

definition ac_try_from_pd :: "plutus_data \<Rightarrow> asset_class option" where
  "ac_try_from_pd pd =
     do {
       (_, fields) \<leftarrow> into_constr_pd pd;
       (p, fields) \<leftarrow> take_field 0 fields;
       policy_bytes \<leftarrow> into_bytes p;
       if policy_bytes = [] then Some Native
       else do {
         policy_id \<leftarrow> hash28_from_raw_bytes policy_bytes;
         (a, fields) \<leftarrow> take_field 1 fields;
         asset_name_bytes \<leftarrow> into_bytes a;
         asset_name \<leftarrow> an_try_from asset_name_bytes;
         Some (TokenClass (Token policy_id asset_name))
       }
     }"

definition output_ref_into_pd :: "output_ref \<Rightarrow> plutus_data" where
  "output_ref_into_pd r =
     (let transaction_id = make_constr_pd_indefinite_arr [BytesPd (hash32_bytes (tx_hash r))];
          index = IntPd (uint (out_index r))
      in make_constr_pd_indefinite_arr [transaction_id, index])"

subsection \<open>Credentials and addresses\<close>

definition credential_try_from_pd :: "plutus_data \<Rightarrow> credential option" where
  "credential_try_from_pd pd =
     do {
       (alternative, fields) \<leftarrow> into_constr_pd pd;
       (x, fields) \<leftarrow> take_field 0 fields;
       f0 \<leftarrow> into_bytes x;
       if alternative = 0 then map_option PubKey (hash28_from_raw_bytes f0)
       else if alternative = 1 then map_option Script (hash28_from_raw_bytes f0)
       else None
     }"

definition credential_into_pd :: "credential \<Rightarrow> plutus_data" where
  "credential_into_pd cr =
     (case cr of PubKey h \<Rightarrow> ConstrPd 0 [BytesPd (hash28_bytes h)] | Script h \<Rightarrow> ConstrPd 1 [BytesPd (hash28_bytes h)])"

datatype inline_credential = InlineCredential credential

fun ic_script_hash :: "inline_credential \<Rightarrow> hash28 option" where
  "ic_script_hash (InlineCredential (Script h)) = Some h"
| "ic_script_hash _ = None"

definition ic_from_script_hash :: "hash28 \<Rightarrow> inline_credential" where
  "ic_from_script_hash h = InlineCredential (Script h)"

definition ic_try_from_pd :: "plutus_data \<Rightarrow> inline_credential option" where
  "ic_try_from_pd pd =
     do {
       (alternative, fields) \<leftarrow> into_constr_pd pd;
       if alternative = 0
       then do {
         (x, fields) \<leftarrow> take_field 0 fields;
         map_option InlineCredential (credential_try_from_pd x)
       }
       else None
     }"

fun ic_into_pd :: "inline_credential \<Rightarrow> plutus_data" where
  "ic_into_pd (InlineCredential cr) = ConstrPd 0 [credential_into_pd cr]"

record plutus_address =
  pa_payment_cred :: credential
  pa_stake_cred :: "inline_credential option"

definition pa_to_address :: "plutus_address \<Rightarrow> address" where
  "pa_to_address a =
     (case pa_stake_cred a of
        Some (InlineCredential stake_cred) \<Rightarrow> Base (pa_payment_cred a) stake_cred
      | None \<Rightarrow> Enterprise (pa_payment_cred a))"

definition pa_try_from_pd :: "plutus_data \<Rightarrow> plutus_address option" where
  "pa_try_from_pd pd =
     do {
       (_, fields) \<leftarrow> into_constr_pd pd;
       (p, fields) \<leftarrow> take_field 0 fields;
       payment_cred \<leftarrow> credential_try_from_pd p;
       (s, fields) \<leftarrow> take_field 1 fields;
       stake_cred \<leftarrow> option_try_from_pd ic_try_from_pd s;
       Some \<lparr> pa_payment_cred = payment_cred, pa_stake_cred = stake_cred \<rparr>
     }"

definition pa_into_pd :: "plutus_address \<Rightarrow> plutus_data" where
  "pa_into_pd a = ConstrPd 0 [credential_into_pd (pa_payment_cred a), option_into_pd ic_into_pd (pa_stake_cred a)]"

fun payment_cred :: "address \<Rightarrow> credential option" where
  "payment_cred (Base p _) = Some p"
| "payment_cred (Enterprise p) = Some p"
| "payment_cred (Ptr p) = Some p"
| "payment_cred (Reward p) = Some p"
| "payment_cred Byron = None"

fun staking_cred :: "address \<Rightarrow> credential option" where
  "staking_cred (Base _ s) = Some s"
| "staking_cred _ = None"

definition script_hash :: "address \<Rightarrow> hash28 option" where
  "script_hash a = Option.bind (payment_cred a) (\<lambda>cr. case cr of PubKey _ \<Rightarrow> None | Script h \<Rightarrow> Some h)"

fun update_staking_cred :: "credential \<Rightarrow> address \<Rightarrow> address" where
  "update_staking_cred cr (Base p _) = Base p cr"
| "update_staking_cred cr a = a"

fun update_payment_cred :: "credential \<Rightarrow> address \<Rightarrow> address" where
  "update_payment_cred cr (Base _ s) = Base cr s"
| "update_payment_cred cr (Enterprise _) = Enterprise cr"
| "update_payment_cred cr (Ptr _) = Ptr cr"
| "update_payment_cred cr (Reward _) = Reward cr"
| "update_payment_cred cr Byron = Byron"

end
