(* ===== verification/Pool_Ledger.thy ===== *)
theory Pool_Ledger
  imports Plutus_Data Cfmm_Pool
begin

text \<open>
  What the pools of packages/spectrum-offchain-cardano/src/data share on the ledger: the deployed
  scripts (deployment.rs), writing multi-asset values (spectrum-cardano-lib/src/asset_bundle.rs),
  the immutable part of a pool's output (pool.rs), and the classic pool's recognition in an output
  and its way back (cfmm_pool.rs, cfmm_pool/classic_pool.rs). An output holds its datum in
  serialised form, so reading and writing a datum takes the ledger library's two functions as
  parameters. \<open>None\<close> is the source's \<open>None\<close> where it reads and a panic where it writes.
\<close>

subsection \<open>Deployed scripts\<close>

datatype protocol_validator =
    LimitOrderWitnessV1 | LimitOrderV1 | InstantOrderWitnessV1 | InstantOrderV1 | GridOrderNative
  | ConstFnPoolV1 | ConstFnPoolFeeSwitch | ConstFnPoolFeeSwitchBiDirFee | ConstFnPoolFeeSwitchV2 | ConstFnPoolV2
  | ConstFnPoolSwap | ConstFnPoolDeposit | ConstFnPoolRedeem | ConstFnFeeSwitchPoolSwap
  | ConstFnFeeSwitchPoolDeposit | ConstFnFeeSwitchPoolRedeem | BalanceFnPoolV1 | BalanceFnPoolV2
  | BalanceFnPoolSwap | BalanceFnPoolDeposit | BalanceFnPoolRedeem | StableFnPoolT2T | StableFnPoolT2TDeposit
  | StableFnPoolT2TRedeem | DegenQuadraticPoolV1 | DegenQuadraticPoolV1T2T | RoyaltyPoolV1
  | RoyaltyPoolV1LedgerFixed | RoyaltyPoolV1Deposit | RoyaltyPoolV1Redeem | RoyaltyPoolV1RoyaltyWithdrawRequest
  | RoyaltyPoolV2 | RoyaltyPoolV2Deposit | RoyaltyPoolV2Redeem | RoyaltyPoolV2RoyaltyWithdrawRequest
  | RoyaltyPoolRoyaltyWithdraw | RoyaltyPoolRoyaltyWithdrawLedgerFixed | RoyaltyPoolRoyaltyWithdrawV2
  | RoyaltyPoolDAOV1Request | RoyaltyPoolDAOV1 | RoyaltyPoolV2DAO | RoyaltyPoolDAOV2

record deployed_validator_ref =
  vr_hash :: hash28
  vr_reference_utxo :: output_ref
  vr_cost :: ex_units
  vr_marginal_cost :: "ex_units option"

record deployed_script_info =
  si_script_hash :: hash28
  si_marginal_cost :: ex_units

definition script_info_from_ref :: "deployed_validator_ref \<Rightarrow> deployed_script_info" where
  "script_info_from_ref r = \<lparr> si_script_hash = vr_hash r,
     si_marginal_cost = (case vr_marginal_cost r of Some c \<Rightarrow> c | None \<Rightarrow> units_empty) \<rparr>"

record deployed_validator =
  dv_reference_utxo :: "output_ref \<times> tx_output"
  dv_hash :: hash28
  dv_cost :: ex_units
  dv_marginal_cost :: ex_units

definition script_info_from :: "deployed_validator \<Rightarrow> deployed_script_info" where
  "script_info_from v = \<lparr> si_script_hash = dv_hash v, si_marginal_cost = dv_marginal_cost v \<rparr>"

record deployed_validator_erased =
  de_reference_utxo :: "output_ref \<times> tx_output"
  de_hash :: hash28
  de_ex_budget :: ex_units
  de_marginal_cost :: ex_units

definition erased :: "deployed_validator \<Rightarrow> deployed_validator_erased" where
  "erased v = \<lparr> de_reference_utxo = dv_reference_utxo v, de_hash = dv_hash v, de_ex_budget = dv_cost v,
     de_marginal_cost = dv_marginal_cost v \<rparr>"

text \<open>The explorer answers the output of a reference; a reference it does not know is a panic.\<close>

definition unsafe_pull ::
    "(output_ref \<Rightarrow> (output_ref \<times> tx_output) option) \<Rightarrow> deployed_validator_ref \<Rightarrow> deployed_validator option" where
  "unsafe_pull utxo_by_ref r =
     map_option (\<lambda>u. \<lparr> dv_reference_utxo = u, dv_hash = vr_hash r, dv_cost = vr_cost r,
         dv_marginal_cost = (case vr_marginal_cost r of Some c \<Rightarrow> c | None \<Rightarrow> units_empty) \<rparr>)
       (utxo_by_ref (vr_reference_utxo r))"

text \<open>A context holds the information of every validator, \<open>Has<DeployedScriptInfo<V>>\<close> for every \<open>V\<close>.\<close>

type_synonym script_infos = "protocol_validator \<Rightarrow> deployed_script_info"

type_synonym validators = "protocol_validator \<Rightarrow> deployed_validator"

definition test_address :: "script_infos \<Rightarrow> protocol_validator \<Rightarrow> address \<Rightarrow> bool" where
  "test_address infos v addr =
     (case script_hash addr of Some this_hash \<Rightarrow> this_hash = si_script_hash (infos v) | None \<Rightarrow> False)"

subsection \<open>Values\<close>

type_synonym multi_asset = "(hash28 \<times> (bytes \<times> u64) list) list"

definition ma_set :: "hash28 \<Rightarrow> bytes \<Rightarrow> u64 \<Rightarrow> multi_asset \<Rightarrow> multi_asset" where
  "ma_set policy name v ma =
     AList.update policy (AList.update name v (case map_of ma policy of Some b \<Rightarrow> b | None \<Rightarrow> [])) ma"

definition safe_set :: "hash28 \<Rightarrow> bytes \<Rightarrow> u64 \<Rightarrow> multi_asset \<Rightarrow> multi_asset" where
  "safe_set policy name v ma =
     (if v = 0
      then (case map_of ma policy of Some b \<Rightarrow> AList.update policy (AList.delete name b) ma | None \<Rightarrow> ma)
      else ma_set policy name v ma)"

definition set_token :: "token \<Rightarrow> u64 \<Rightarrow> multi_asset \<Rightarrow> multi_asset option" where
  "set_token t v ma = map_option (\<lambda>name. ma_set (tk_policy t) name v ma) (an_into_cml (tk_name t))"

text \<open>An asset class read from a datum has a name that converts, so its amount is not a panic.\<close>

definition amount_in :: "tx_value \<Rightarrow> asset_class \<Rightarrow> u64 option" where
  "amount_in v ac = Option.bind (amount_of v ac) id"

subsection \<open>Outputs of pools\<close>

definition datum_into_pd :: "(bytes \<Rightarrow> plutus_data) \<Rightarrow> datum_option \<Rightarrow> plutus_data option" where
  "datum_into_pd decode d = (case d of InlineDatum bs \<Rightarrow> Some (decode bs) | DatumHash _ \<Rightarrow> None)"

record immutable_pool_utxo =
  ip_address :: address
  ip_value :: u64
  ip_datum_option :: "datum_option option"
  ip_script_reference :: "script_ref option"

fun output_reference :: "tx_output \<Rightarrow> script_ref option" where
  "output_reference (AlonzoFormatTxOut a v d) = None"
| "output_reference (ConwayFormatTxOut a v d s) = s"

definition immutable_pool_from :: "tx_output \<Rightarrow> immutable_pool_utxo" where
  "immutable_pool_from out =
     \<lparr> ip_address = output_address out, ip_value = coin (output_value out), ip_datum_option = output_datum out,
       ip_script_reference = output_reference out \<rparr>"

text \<open>The value of a pool: its reserves, the liquidity tokens it still holds and its identity.\<close>

definition pool_value ::
    "asset_class \<Rightarrow> u64 \<Rightarrow> asset_class \<Rightarrow> u64 \<Rightarrow> asset_class \<Rightarrow> u64 \<Rightarrow> token \<Rightarrow> u64 \<Rightarrow> tx_value option" where
  "pool_value asset_x reserves_x asset_y reserves_y asset_lq liquidity pool_id coins =
     do {
       (ma, coins) \<leftarrow>
         (if ac_is_native asset_x
          then do {
            token_y \<leftarrow> ac_into_token asset_y;
            ma \<leftarrow> set_token token_y reserves_y [];
            Some (ma, reserves_x)
          }
          else if ac_is_native asset_y
          then do {
            token_x \<leftarrow> ac_into_token asset_x;
            ma \<leftarrow> set_token token_x reserves_x [];
            Some (ma, reserves_y)
          }
          else do {
            token_x \<leftarrow> ac_into_token asset_x;
            ma \<leftarrow> set_token token_x reserves_x [];
            token_y \<leftarrow> ac_into_token asset_y;
            ma \<leftarrow> set_token token_y reserves_y ma;
            Some (ma, coins)
          });
       token_lq \<leftarrow> ac_into_token asset_lq;
       ma \<leftarrow> set_token token_lq (max_lq_cap - liquidity) ma;
       ma \<leftarrow> set_token pool_id 1 ma;
       Some (Value coins ma)
     }"

text \<open>The staking part of the address follows the pool when the pool has one.\<close>

definition pool_address :: "hash28 option \<Rightarrow> address \<Rightarrow> address" where
  "pool_address stake_part addr = (case stake_part of Some h \<Rightarrow> update_staking_cred (Script h) addr | None \<Rightarrow> addr)"

definition stake_part_of :: "address \<Rightarrow> hash28 option" where
  "stake_part_of addr =
     Option.bind (staking_cred addr) (\<lambda>cr. case cr of Script h \<Rightarrow> Some h | PubKey _ \<Rightarrow> None)"

text \<open>An inline datum is rewritten in place; a datum hash and a missing datum stay.\<close>

definition rewrite_datum ::
    "(bytes \<Rightarrow> plutus_data) \<Rightarrow> (plutus_data \<Rightarrow> bytes) \<Rightarrow> (plutus_data \<Rightarrow> plutus_data option) \<Rightarrow>
     datum_option option \<Rightarrow> datum_option option option" where
  "rewrite_datum decode encode f d =
     (case d of Some (InlineDatum bs) \<Rightarrow> map_option (\<lambda>pd. Some (InlineDatum (encode pd))) (f (decode bs))
      | _ \<Rightarrow> Some d)"

text \<open>Taking a field and reading it, as \<open>read(cpd.take_field(i)?)?\<close>.\<close>

definition read_field ::
    "nat \<Rightarrow> (plutus_data \<Rightarrow> 'a option) \<Rightarrow> plutus_data list \<Rightarrow> ('a \<times> plutus_data list) option" where
  "read_field i f cpd =
     Option.bind (take_field i cpd) (\<lambda>(pd, cpd'). map_option (\<lambda>v. (v, cpd')) (f pd))"

text \<open>Reading with a default, as \<open>cpd.take_field(i).and_then(read).unwrap_or(0)\<close>.\<close>

definition read_field_or_zero :: "nat \<Rightarrow> plutus_data list \<Rightarrow> u64" where
  "read_field_or_zero i cpd =
     (case Option.bind (take_field i cpd) (\<lambda>(pd, _). into_u64 pd) of Some w \<Rightarrow> w | None \<Rightarrow> 0)"

subsection \<open>Makers over two tradable reserves\<close>

text \<open>
  The fee-switch and the royalty pool repeat the maker of the classic pool over what is left of
  their reserves after the accrued fees. These are its operations over any two reserves; the output
  of a trade is the pool's own.
\<close>

definition pool_base :: "asset_class \<Rightarrow> asset_class \<Rightarrow> asset_class" where
  "pool_base asset_x asset_y = fst (order_canonical asset_x asset_y)"

definition pool_quote :: "asset_class \<Rightarrow> asset_class \<Rightarrow> asset_class" where
  "pool_quote asset_x asset_y = snd (order_canonical asset_x asset_y)"

definition pool_side_output ::
    "asset_class \<Rightarrow> asset_class \<Rightarrow> (asset_class \<Rightarrow> u64 \<Rightarrow> u64 option) \<Rightarrow> u64 on_side \<Rightarrow> u64 option" where
  "pool_side_output asset_x asset_y output_amount input =
     (case input of OnBid i \<Rightarrow> output_amount (pool_quote asset_x asset_y) i
      | OnAsk i \<Rightarrow> output_amount (pool_base asset_x asset_y) i)"

text \<open>Whether the traded-in amount goes to the first reserve: a bid brings the quote asset.\<close>

definition input_is_x :: "asset_class \<Rightarrow> asset_class \<Rightarrow> u64 on_side \<Rightarrow> bool" where
  "input_is_x asset_x asset_y input \<longleftrightarrow>
     (case input of OnBid _ \<Rightarrow> asset_x \<noteq> pool_base asset_x asset_y | OnAsk _ \<Rightarrow> asset_x = pool_base asset_x asset_y)"

text \<open>The part of an input that a fee keeps aside; the product is one of 64 bits.\<close>

definition accrue :: "u64 \<Rightarrow> fee_ratio \<Rightarrow> u64 option" where
  "accrue input fee = (if snd fee = 0 then None else Some ((input * fst fee) div snd fee))"

definition pool_static_price :: "asset_class \<Rightarrow> asset_class \<Rightarrow> u64 \<Rightarrow> u64 \<Rightarrow> price" where
  "pool_static_price asset_x asset_y x y =
     (if x = y then 1 else if asset_x = pool_base asset_x asset_y then ratio_of y x else ratio_of x y)"

definition pool_real_price :: "(u64 on_side \<Rightarrow> u64 option) \<Rightarrow> u64 on_side \<Rightarrow> price option option" where
  "pool_real_price side_output input =
     map_option (\<lambda>output. case input of OnBid i \<Rightarrow> price_new i output | OnAsk i \<Rightarrow> price_new output i)
       (side_output input)"

definition pool_estimated_trade ::
    "(u64 on_side \<Rightarrow> u64 option) \<Rightarrow> u64 on_side \<Rightarrow> available_liquidity option option" where
  "pool_estimated_trade side_output input =
     map_option (\<lambda>output. Some \<lparr> al_input = os_unwrap input, al_output = output \<rparr>) (side_output input)"

definition pool_is_active ::
    "asset_class \<Rightarrow> asset_class \<Rightarrow> u64 \<Rightarrow> u64 \<Rightarrow> u64 \<Rightarrow> pool_validation \<Rightarrow> bool" where
  "pool_is_active asset_x asset_y reserves_x reserves_y lq_lower_bound bounds \<longleftrightarrow>
     lq_lower_bound \<le> reserves_x * 2 \<and>
     (if ac_is_native asset_x then min_n2t_lovelace bounds \<le> reserves_x
      else if ac_is_native asset_y then min_n2t_lovelace bounds \<le> reserves_y else True)"

definition pool_reserves :: "asset_class \<Rightarrow> asset_class \<Rightarrow> u64 \<Rightarrow> u64 \<Rightarrow> reserves" where
  "pool_reserves asset_x asset_y reserves_x reserves_y =
     (if pool_base asset_x asset_y = asset_x then \<lparr> rs_base = reserves_x, rs_quote = reserves_y \<rparr>
      else \<lparr> rs_base = reserves_y, rs_quote = reserves_x \<rparr>)"

text \<open>The input and output of the decimal computation come from a third-party crate.\<close>

definition pool_available_liquidity ::
    "asset_class \<Rightarrow> asset_class \<Rightarrow> u64 \<Rightarrow> u64 \<Rightarrow> (u64 \<times> u64) option \<Rightarrow> price on_side \<Rightarrow>
     available_liquidity option" where
  "pool_available_liquidity asset_x asset_y x y decimal_liquidity worst_price =
     do {
       (input_amount_val, output_amount_val) \<leftarrow> decimal_liquidity;
       let tradable_reserves_quote_int =
         (case worst_price of OnBid _ \<Rightarrow> if pool_base asset_x asset_y = asset_x then x else y
          | OnAsk _ \<Rightarrow> if pool_base asset_x asset_y = asset_x then y else x);
       remain_quote \<leftarrow> checked_sub tradable_reserves_quote_int output_amount_val;
       capped_output_amount \<leftarrow>
         (case checked_sub untouchable_lovelace_amount remain_quote of
            Some _ \<Rightarrow> checked_sub tradable_reserves_quote_int untouchable_lovelace_amount
          | None \<Rightarrow> Some output_amount_val);
       Some \<lparr> al_input = input_amount_val, al_output = capped_output_amount \<rparr>
     }"

subsection \<open>The classic pool on the ledger\<close>

definition fee_den :: u64 where
  "fee_den = 100000"

definition legacy_fee_num_multiplier :: u64 where
  "legacy_fee_num_multiplier = 100"

record legacy_cfmm_pool_config =
  lc_pool_nft :: asset_class
  lc_asset_x :: asset_class
  lc_asset_y :: asset_class
  lc_asset_lq :: asset_class
  lc_lp_fee_num :: u64
  lc_lq_lower_bound :: u64

definition legacy_config_try_from_pd :: "plutus_data \<Rightarrow> legacy_cfmm_pool_config option" where
  "legacy_config_try_from_pd data =
     do {
       (_, cpd) \<leftarrow> into_constr_pd data;
       (pool_nft, cpd) \<leftarrow> read_field 0 ac_try_from_pd cpd;
       (asset_x, cpd) \<leftarrow> read_field 1 ac_try_from_pd cpd;
       (asset_y, cpd) \<leftarrow> read_field 2 ac_try_from_pd cpd;
       (asset_lq, cpd) \<leftarrow> read_field 3 ac_try_from_pd cpd;
       (lp_fee_num, cpd) \<leftarrow> read_field 4 into_u64 cpd;
       Some \<lparr> lc_pool_nft = pool_nft, lc_asset_x = asset_x, lc_asset_y = asset_y, lc_asset_lq = asset_lq,
         lc_lp_fee_num = lp_fee_num, lc_lq_lower_bound = read_field_or_zero 6 cpd \<rparr>
     }"

definition classic_ver_try_from_address :: "script_infos \<Rightarrow> address \<Rightarrow> classic_pool_ver option" where
  "classic_ver_try_from_address infos addr =
     (case script_hash addr of
        Some this_hash \<Rightarrow>
          if si_script_hash (infos ConstFnPoolV1) = this_hash then Some V1
          else if si_script_hash (infos ConstFnPoolV2) = this_hash then Some V2
          else None
      | None \<Rightarrow> None)"

fun classic_validator :: "classic_pool_ver \<Rightarrow> protocol_validator" where
  "classic_validator V1 = ConstFnPoolV1"
| "classic_validator V2 = ConstFnPoolV2"

definition cp_get_validator :: "validators \<Rightarrow> classic_pool \<Rightarrow> deployed_validator_erased" where
  "cp_get_validator vs p = erased (vs (classic_validator (cp_ver p)))"

text \<open>What recognising a pool needs of its context: scripts, bounds and the reading of datums.\<close>

record pool_cx =
  pc_scripts :: script_infos
  pc_bounds :: pool_validation
  pc_decode :: "bytes \<Rightarrow> plutus_data"

definition output_pd :: "pool_cx \<Rightarrow> tx_output \<Rightarrow> plutus_data option" where
  "output_pd cx out = Option.bind (output_datum out) (datum_into_pd (pc_decode cx))"

definition cp_try_from_ledger :: "pool_cx \<Rightarrow> tx_output \<Rightarrow> classic_pool option" where
  "cp_try_from_ledger cx out =
     do {
       pool_ver \<leftarrow> classic_ver_try_from_address (pc_scripts cx) (output_address out);
       pd \<leftarrow> output_pd cx out;
       conf \<leftarrow> legacy_config_try_from_pd pd;
       liquidity_neg \<leftarrow> amount_in (output_value out) (lc_asset_lq conf);
       pool_id \<leftarrow> ac_into_token (lc_pool_nft conf);
       reserves_x \<leftarrow> amount_in (output_value out) (lc_asset_x conf);
       reserves_y \<leftarrow> amount_in (output_value out) (lc_asset_y conf);
       Some \<lparr> cp_id = pool_id, cp_reserves_x = reserves_x, cp_reserves_y = reserves_y,
         cp_liquidity = max_lq_cap - liquidity_neg, cp_asset_x = lc_asset_x conf, cp_asset_y = lc_asset_y conf,
         cp_asset_lq = lc_asset_lq conf, cp_lp_fee = (lc_lp_fee_num conf * legacy_fee_num_multiplier, fee_den),
         cp_lq_lower_bound = lc_lq_lower_bound conf, cp_ver = pool_ver,
         cp_marginal_cost = si_marginal_cost (pc_scripts cx (classic_validator pool_ver)),
         cp_bounds = pc_bounds cx, cp_stake_part_script_hash = stake_part_of (output_address out) \<rparr>
     }"

definition cp_into_ledger :: "classic_pool \<Rightarrow> immutable_pool_utxo \<Rightarrow> tx_output option" where
  "cp_into_ledger p immut_pool =
     do {
       amount \<leftarrow> pool_value (cp_asset_x p) (cp_reserves_x p) (cp_asset_y p) (cp_reserves_y p) (cp_asset_lq p)
         (cp_liquidity p) (cp_id p) (ip_value immut_pool);
       Some (ConwayFormatTxOut (pool_address (cp_stake_part_script_hash p) (ip_address immut_pool)) amount
         (ip_datum_option immut_pool) (ip_script_reference immut_pool))
     }"

end
