(* ===== verification/Operation_Output.thy ===== *)
theory Operation_Output
  imports Pool_Ledger
begin

text \<open>
  The outputs of operations on pools and the errors of running them,
  packages/spectrum-offchain-cardano/src/data/operation_output.rs and data/pool.rs. Every result is
  turned into a transaction output; \<open>None\<close> is a panic, of a native asset where a token is expected
  or of an asset name that does not convert. The network a context names does not show in the
  model's addresses. The validator of the pool's own script is attached where one is needed, with
  the redeemer as a function of the places of the inputs.
\<close>

subsection \<open>Blueprints\<close>

datatype 't operation_result_outputs = SingleOutput 't | MultipleOutputs 't "'t list"

definition outputs_multiple :: "'t \<Rightarrow> 't list \<Rightarrow> 't operation_result_outputs" where
  "outputs_multiple action_result additional_outputs = MultipleOutputs action_result additional_outputs"

text \<open>A redeemer as a function of the places of the pool's and the order's input.\<close>

type_synonym redeemer_creator = "u64 \<Rightarrow> u64 \<Rightarrow> plutus_data"

record 't operation_result_blueprint =
  bp_outputs :: "'t operation_result_outputs"
  bp_witness_script :: "(deployed_validator_erased \<times> redeemer_creator) option"
  bp_order_script_validator :: deployed_validator_erased
  bp_strict_fee :: "u64 option"

definition single_output :: "'t \<Rightarrow> deployed_validator_erased \<Rightarrow> 't operation_result_blueprint" where
  "single_output out validator =
     \<lparr> bp_outputs = SingleOutput out, bp_witness_script = None, bp_order_script_validator = validator,
       bp_strict_fee = None \<rparr>"

subsection \<open>Outputs\<close>

definition requestor_address_of :: "hash28 \<Rightarrow> hash28 option \<Rightarrow> address" where
  "requestor_address_of pkh stake_pkh =
     (case stake_pkh of Some s \<Rightarrow> Base (PubKey pkh) (PubKey s) | None \<Rightarrow> Enterprise (PubKey pkh))"

definition safe_set_asset :: "asset_class \<Rightarrow> u64 \<Rightarrow> multi_asset \<Rightarrow> multi_asset option" where
  "safe_set_asset ac v ma =
     do {
       t \<leftarrow> ac_into_token ac;
       name \<leftarrow> an_into_cml (tk_name t);
       Some (safe_set (tk_policy t) name v ma)
     }"

text \<open>The assets of a pair and the lovelace it comes with.\<close>

definition charge_pair :: "asset_class \<Rightarrow> u64 \<Rightarrow> asset_class \<Rightarrow> u64 \<Rightarrow> (multi_asset \<times> u64) option" where
  "charge_pair asset_x amount_x asset_y amount_y =
     (case (ac_is_native asset_x, ac_is_native asset_y) of
        (True, False) \<Rightarrow> map_option (\<lambda>ma. (ma, amount_x)) (safe_set_asset asset_y amount_y [])
      | (False, True) \<Rightarrow> map_option (\<lambda>ma. (ma, amount_y)) (safe_set_asset asset_x amount_x [])
      | (False, False) \<Rightarrow>
          do {
            ma \<leftarrow> safe_set_asset asset_x amount_x [];
            ma \<leftarrow> safe_set_asset asset_y amount_y ma;
            Some (ma, 0)
          }
      | (True, True) \<Rightarrow> Some ([], amount_x + amount_y))"

definition plain_output :: "address \<Rightarrow> u64 \<Rightarrow> multi_asset \<Rightarrow> tx_output" where
  "plain_output addr ada ma = ConwayFormatTxOut addr (Value ada ma) None None"

record swap_output =
  so_quote_asset :: asset_class
  so_quote_amount :: u64
  so_ada_residue :: u64
  so_redeemer_pkh :: hash28
  so_redeemer_stake_pkh :: "hash28 option"

definition swap_output_into_ledger :: "swap_output \<Rightarrow> tx_output option" where
  "swap_output_into_ledger r =
     do {
       (ma, ada_from_quote) \<leftarrow>
         (if ac_is_native (so_quote_asset r) then Some ([], so_quote_amount r)
          else map_option (\<lambda>ma. (ma, 0)) (safe_set_asset (so_quote_asset r) (so_quote_amount r) []));
       Some (plain_output (requestor_address_of (so_redeemer_pkh r) (so_redeemer_stake_pkh r))
         (so_ada_residue r + ada_from_quote) ma)
     }"

record deposit_output =
  do_token_x_asset :: asset_class
  do_token_x_charge_amount :: u64
  do_token_y_asset :: asset_class
  do_token_y_charge_amount :: u64
  do_token_lq_asset :: asset_class
  do_token_lq_amount :: u64
  do_ada_residue :: u64
  do_redeemer_pkh :: hash28
  do_redeemer_stake_pkh :: "hash28 option"

definition deposit_output_into_ledger :: "deposit_output \<Rightarrow> tx_output option" where
  "deposit_output_into_ledger r =
     do {
       (ma, ada_from_charge_pair) \<leftarrow> charge_pair (do_token_x_asset r) (do_token_x_charge_amount r)
         (do_token_y_asset r) (do_token_y_charge_amount r);
       let ada = do_ada_residue r + ada_from_charge_pair;
       token_lq \<leftarrow> ac_into_token (do_token_lq_asset r);
       ma \<leftarrow> set_token token_lq (do_token_lq_amount r) ma;
       Some (plain_output (requestor_address_of (do_redeemer_pkh r) (do_redeemer_stake_pkh r)) ada ma)
     }"

record redeem_output =
  ro_token_x_asset :: asset_class
  ro_token_x_amount :: u64
  ro_token_y_asset :: asset_class
  ro_token_y_amount :: u64
  ro_ada_residue :: u64
  ro_redeemer_pkh :: hash28
  ro_redeemer_stake_pkh :: "hash28 option"

definition redeem_output_into_ledger :: "redeem_output \<Rightarrow> tx_output option" where
  "redeem_output_into_ledger r =
     map_option (\<lambda>(ma, ada_from_charge_pair).
         plain_output (requestor_address_of (ro_redeemer_pkh r) (ro_redeemer_stake_pkh r))
           (ro_ada_residue r + ada_from_charge_pair) ma)
       (charge_pair (ro_token_x_asset r) (ro_token_x_amount r) (ro_token_y_asset r) (ro_token_y_amount r))"

record royalty_withdraw_output =
  rw_token_x_asset :: asset_class
  rw_token_x_amount :: u64
  rw_token_y_asset :: asset_class
  rw_token_y_amount :: u64
  rw_ada_residue :: u64
  rw_redeemer_pkh :: hash28

definition royalty_output_into_ledger :: "royalty_withdraw_output \<Rightarrow> tx_output option" where
  "royalty_output_into_ledger r =
     map_option (\<lambda>(ma, ada_from_charge_pair).
         plain_output (Enterprise (PubKey (rw_redeemer_pkh r))) (rw_ada_residue r + ada_from_charge_pair) ma)
       (charge_pair (rw_token_x_asset r) (rw_token_x_amount r) (rw_token_y_asset r) (rw_token_y_amount r))"

record dao_requestor_output =
  dr_lovelace_qty :: u64
  dr_requestor_address :: address

record treasury_withdraw_output =
  tw_token_x_asset :: asset_class
  tw_token_x_amount :: u64
  tw_token_y_asset :: asset_class
  tw_token_y_amount :: u64
  tw_ada_residue :: u64
  tw_treasury_script_hash :: hash28

datatype dao_action_result = RequestorOutput dao_requestor_output | TreasuryWithdraw treasury_withdraw_output

definition requestor_output_into_ledger :: "dao_requestor_output \<Rightarrow> tx_output" where
  "requestor_output_into_ledger r = plain_output (dr_requestor_address r) (dr_lovelace_qty r) []"

definition treasury_output_into_ledger :: "treasury_withdraw_output \<Rightarrow> tx_output option" where
  "treasury_output_into_ledger r =
     map_option (\<lambda>(ma, ada_from_charge_pair).
         plain_output (Enterprise (Script (tw_treasury_script_hash r))) (tw_ada_residue r + ada_from_charge_pair) ma)
       (charge_pair (tw_token_x_asset r) (tw_token_x_amount r) (tw_token_y_asset r) (tw_token_y_amount r))"

fun dao_result_into_ledger :: "dao_action_result \<Rightarrow> tx_output option" where
  "dao_result_into_ledger (RequestorOutput r) = Some (requestor_output_into_ledger r)"
| "dao_result_into_ledger (TreasuryWithdraw r) = treasury_output_into_ledger r"

subsection \<open>Errors\<close>

datatype 'o apply_order_error =
    Slippage 'o u64 u64
  | LowBatcherFee 'o u64 u64
  | Incompatible 'o
  | VerificationFailed 'o str

fun apply_error_map :: "('o \<Rightarrow> 'p) \<Rightarrow> 'o apply_order_error \<Rightarrow> 'p apply_order_error" where
  "apply_error_map f (Slippage ord quote_amount expected_amount) = Slippage (f ord) quote_amount expected_amount"
| "apply_error_map f (LowBatcherFee ord batcher_fee ada_deposit) = LowBatcherFee (f ord) batcher_fee ada_deposit"
| "apply_error_map f (Incompatible ord) = Incompatible (f ord)"
| "apply_error_map f (VerificationFailed ord description) = VerificationFailed (f ord) description"

datatype 'o run_order_error = NonFatal str 'o | Fatal str 'o

fun run_order_error_from :: "'o apply_order_error \<Rightarrow> 'o run_order_error" where
  "run_order_error_from (Slippage ord _ _) = NonFatal (lit ''Price slippage'') ord"
| "run_order_error_from (LowBatcherFee ord batcher_fee ada_deposit) =
     NonFatal (lit ''Lower batcher fee. Batcher fee '' @ u64_display batcher_fee @ lit ''. Ada deposit '' @
       u64_display ada_deposit) ord"
| "run_order_error_from (Incompatible ord) = NonFatal (lit ''Math error'') ord"
| "run_order_error_from (VerificationFailed ord description) =
     Fatal (lit ''Verification failed. '' @ description) ord"

subsection \<open>Redeemers\<close>

datatype cfmm_pool_action = SwapAction | DepositAction | RedeemAction | RoyaltyWithdrawAction | DAOAction

fun action_to_plutus_data :: "cfmm_pool_action \<Rightarrow> plutus_data" where
  "action_to_plutus_data SwapAction = IntPd 2"
| "action_to_plutus_data DepositAction = IntPd 0"
| "action_to_plutus_data RedeemAction = IntPd 1"
| "action_to_plutus_data DAOAction = IntPd 3"
| "action_to_plutus_data RoyaltyWithdrawAction = IntPd 4"

record cfmm_pool_redeemer =
  cr_pool_input_index :: u64
  cr_action :: cfmm_pool_action

definition pool_redeemer_to_pd :: "cfmm_pool_redeemer \<Rightarrow> plutus_data" where
  "pool_redeemer_to_pd r =
     ConstrPd 0 [action_to_plutus_data (cr_action r), IntPd (uint (cr_pool_input_index r))]"

text \<open>The only action of an order is to apply it, the number 0.\<close>

record classical_order_redeemer =
  or_pool_input_index :: u64
  or_order_input_index :: u64
  or_output_index :: u64

definition order_redeemer_to_pd :: "classical_order_redeemer \<Rightarrow> plutus_data" where
  "order_redeemer_to_pd r =
     ConstrPd 0 [IntPd (uint (or_pool_input_index r)), IntPd (uint (or_order_input_index r)),
       IntPd (uint (or_output_index r)), IntPd 0]"

end
