(* ===== verification/Order_Requests.thy ===== *)
theory Order_Requests
  imports Operation_Output
begin

text \<open>
  The requests that are run against pools, packages/spectrum-offchain-cardano/src/data: deposits
  (deposit.rs), redemptions (redeem.rs), withdrawals of royalties (royalty_withdraw_request.rs),
  actions of the DAO (dao_request.rs) and their union (order.rs), each recognised in an output by
  its script and its datum. The cryptographic library and the serialisation of Plutus data are
  parameters. Differences of lovelace wrap where the source does not check them.
\<close>

text \<open>What the requests use of the cryptographic libraries.\<close>

record crypto_ops =
  cy_hex_encode :: "bytes \<Rightarrow> str"
  cy_signature_from_hex :: "str \<Rightarrow> bytes option"
  cy_signature_from_bytes :: "bytes \<Rightarrow> bytes option"
  cy_signature_bytes :: "bytes \<Rightarrow> bytes"
  cy_public_key :: "bytes \<Rightarrow> bytes option"
  cy_verify :: "bytes \<Rightarrow> bytes \<Rightarrow> bytes \<Rightarrow> bool"
  cy_blake2b224 :: "bytes \<Rightarrow> bytes"
  cy_to_cbor :: "plutus_data \<Rightarrow> bytes"

text \<open>What recognising a request needs of its context.\<close>

record order_cx =
  oc_output_ref :: output_ref
  oc_scripts :: script_infos
  oc_decode :: "bytes \<Rightarrow> plutus_data"
  oc_crypto :: crypto_ops
  oc_deposit_min_collateral_ada :: u64
  oc_redeem_min_collateral_ada :: u64
  oc_min_ada_in_royalty_output :: u64
  oc_dao_min_collateral_ada :: u64

definition request_pd :: "order_cx \<Rightarrow> tx_output \<Rightarrow> plutus_data option" where
  "request_pd cx out = Option.bind (output_datum out) (datum_into_pd (oc_decode cx))"

record 'o classical_order =
  co_id :: output_ref
  co_pool_id :: token
  co_order :: 'o

text \<open>An optional key hash in a constructor; anything that is none reads as \<open>None\<close>.\<close>

definition read_stake_pkh :: "plutus_data option \<Rightarrow> hash28 option" where
  "read_stake_pkh fld =
     do {
       pd \<leftarrow> fld;
       (_, cpd_spkh) \<leftarrow> into_constr_pd pd;
       (pd, _) \<leftarrow> take_field 0 cpd_spkh;
       bs \<leftarrow> into_bytes pd;
       hash28_from_raw_bytes bs
     }"

definition key_hash_try_from_pd :: "plutus_data \<Rightarrow> hash28 option" where
  "key_hash_try_from_pd pd = Option.bind (into_bytes pd) hash28_from_raw_bytes"

text \<open>Taking a field that may be missing.\<close>

definition take_any :: "nat \<Rightarrow> plutus_data list \<Rightarrow> plutus_data option \<times> plutus_data list" where
  "take_any i cpd = (case take_field i cpd of Some (pd, cpd') \<Rightarrow> (Some pd, cpd') | None \<Rightarrow> (None, cpd))"

subsection \<open>Deposits\<close>

record on_chain_deposit_config =
  dc_pool_nft :: asset_class
  dc_token_x :: asset_class
  dc_token_y :: asset_class
  dc_token_lq :: asset_class
  dc_ex_fee :: u64
  dc_reward_pkh :: hash28
  dc_reward_stake_pkh :: "hash28 option"
  dc_collateral_ada :: u64

definition deposit_config_try_from_pd :: "plutus_data \<Rightarrow> on_chain_deposit_config option" where
  "deposit_config_try_from_pd data =
     do {
       (_, cpd) \<leftarrow> into_constr_pd data;
       let (spkh, cpd) = take_any 6 cpd;
       (pool_nft, cpd) \<leftarrow> read_field 0 ac_try_from_pd cpd;
       (token_x, cpd) \<leftarrow> read_field 1 ac_try_from_pd cpd;
       (token_y, cpd) \<leftarrow> read_field 2 ac_try_from_pd cpd;
       (token_lq, cpd) \<leftarrow> read_field 3 ac_try_from_pd cpd;
       (ex_fee, cpd) \<leftarrow> read_field 4 into_u64 cpd;
       (reward_pkh, cpd) \<leftarrow> read_field 5 key_hash_try_from_pd cpd;
       (collateral_ada, cpd) \<leftarrow> read_field 7 into_u64 cpd;
       Some \<lparr> dc_pool_nft = pool_nft, dc_token_x = token_x, dc_token_y = token_y, dc_token_lq = token_lq,
         dc_ex_fee = ex_fee, dc_reward_pkh = reward_pkh, dc_reward_stake_pkh = read_stake_pkh spkh,
         dc_collateral_ada = collateral_ada \<rparr>
     }"

fun deposit_validator :: "order_type \<Rightarrow> protocol_validator" where
  "deposit_validator ConstFnFeeSwitch = ConstFnFeeSwitchPoolDeposit"
| "deposit_validator BalanceFn = BalanceFnPoolDeposit"
| "deposit_validator ConstFn = ConstFnPoolDeposit"
| "deposit_validator StableFn = StableFnPoolT2TDeposit"
| "deposit_validator RoyaltyConstFnV1 = RoyaltyPoolV1Deposit"
| "deposit_validator RoyaltyConstFnV2 = RoyaltyPoolV2Deposit"

definition deposit_order_type :: "order_cx \<Rightarrow> address \<Rightarrow> order_type option" where
  "deposit_order_type cx addr =
     (let is = (\<lambda>v. test_address (oc_scripts cx) v addr) in
      if is ConstFnFeeSwitchPoolDeposit then Some ConstFnFeeSwitch
      else if is BalanceFnPoolDeposit then Some BalanceFn
      else if is ConstFnPoolDeposit then Some ConstFn
      else if is StableFnPoolT2TDeposit then Some StableFn
      else if is RoyaltyPoolV1Deposit then Some RoyaltyConstFnV1
      else if is RoyaltyPoolV2Deposit then Some RoyaltyConstFnV2
      else None)"

definition amount_or_zero :: "tx_value \<Rightarrow> asset_class \<Rightarrow> u64" where
  "amount_or_zero v ac = (case amount_in v ac of Some a \<Rightarrow> a | None \<Rightarrow> 0)"

definition deposit_try_from_ledger :: "order_cx \<Rightarrow> tx_output \<Rightarrow> deposit_order classical_order option" where
  "deposit_try_from_ledger cx out =
     do {
       typ \<leftarrow> deposit_order_type cx (output_address out);
       let value = output_value out;
       pd \<leftarrow> request_pd cx out;
       conf \<leftarrow> deposit_config_try_from_pd pd;
       pool_nft \<leftarrow> ac_into_token (dc_pool_nft conf);
       let dep = \<lparr> dp_pool_nft = pool_nft, dp_token_x = dc_token_x conf,
         dp_token_x_amount = amount_or_zero value (dc_token_x conf), dp_token_y = dc_token_y conf,
         dp_token_y_amount = amount_or_zero value (dc_token_y conf), dp_token_lq = dc_token_lq conf,
         dp_ex_fee = dc_ex_fee conf, dp_reward_pkh = dc_reward_pkh conf,
         dp_reward_stake_pkh = dc_reward_stake_pkh conf, dp_collateral_ada = dc_collateral_ada conf,
         dp_order_type = typ \<rparr>;
       if oc_deposit_min_collateral_ada cx \<le> dc_collateral_ada conf
       then Some \<lparr> co_id = oc_output_ref cx, co_pool_id = pool_nft, co_order = dep \<rparr>
       else None
     }"

definition deposit_get_validator :: "validators \<Rightarrow> deposit_order classical_order \<Rightarrow> deployed_validator_erased" where
  "deposit_get_validator vs d = erased (vs (deposit_validator (dp_order_type (co_order d))))"

subsection \<open>Redemptions\<close>

record redeem_order =
  rd_pool_nft :: token
  rd_token_x :: asset_class
  rd_token_y :: asset_class
  rd_token_lq :: asset_class
  rd_token_lq_amount :: u64
  rd_ex_fee :: u64
  rd_reward_pkh :: hash28
  rd_reward_stake_pkh :: "hash28 option"
  rd_collateral_ada :: u64
  rd_order_type :: order_type

record on_chain_redeem_config =
  rc_pool_nft :: asset_class
  rc_token_x :: asset_class
  rc_token_y :: asset_class
  rc_token_lq :: asset_class
  rc_ex_fee :: u64
  rc_reward_pkh :: hash28
  rc_reward_stake_pkh :: "hash28 option"

definition redeem_config_try_from_pd :: "plutus_data \<Rightarrow> on_chain_redeem_config option" where
  "redeem_config_try_from_pd data =
     do {
       (_, cpd) \<leftarrow> into_constr_pd data;
       let (spkh, cpd) = take_any 6 cpd;
       (pool_nft, cpd) \<leftarrow> read_field 0 ac_try_from_pd cpd;
       (token_x, cpd) \<leftarrow> read_field 1 ac_try_from_pd cpd;
       (token_y, cpd) \<leftarrow> read_field 2 ac_try_from_pd cpd;
       (token_lq, cpd) \<leftarrow> read_field 3 ac_try_from_pd cpd;
       (ex_fee, cpd) \<leftarrow> read_field 4 into_u64 cpd;
       (reward_pkh, cpd) \<leftarrow> read_field 5 key_hash_try_from_pd cpd;
       Some \<lparr> rc_pool_nft = pool_nft, rc_token_x = token_x, rc_token_y = token_y, rc_token_lq = token_lq,
         rc_ex_fee = ex_fee, rc_reward_pkh = reward_pkh, rc_reward_stake_pkh = read_stake_pkh spkh \<rparr>
     }"

fun redeem_validator :: "order_type \<Rightarrow> protocol_validator" where
  "redeem_validator ConstFnFeeSwitch = ConstFnFeeSwitchPoolRedeem"
| "redeem_validator BalanceFn = BalanceFnPoolRedeem"
| "redeem_validator ConstFn = ConstFnPoolRedeem"
| "redeem_validator StableFn = StableFnPoolT2TRedeem"
| "redeem_validator RoyaltyConstFnV1 = RoyaltyPoolV1Redeem"
| "redeem_validator RoyaltyConstFnV2 = RoyaltyPoolV2Redeem"

definition redeem_order_type :: "order_cx \<Rightarrow> address \<Rightarrow> order_type option" where
  "redeem_order_type cx addr =
     (let is = (\<lambda>v. test_address (oc_scripts cx) v addr) in
      if is ConstFnFeeSwitchPoolRedeem then Some ConstFnFeeSwitch
      else if is BalanceFnPoolRedeem then Some BalanceFn
      else if is ConstFnPoolRedeem then Some ConstFn
      else if is RoyaltyPoolV1Redeem then Some RoyaltyConstFnV1
      else if is RoyaltyPoolV2Redeem then Some RoyaltyConstFnV2
      else if is StableFnPoolT2TRedeem then Some StableFn
      else None)"

definition redeem_try_from_ledger :: "order_cx \<Rightarrow> tx_output \<Rightarrow> redeem_order classical_order option" where
  "redeem_try_from_ledger cx out =
     do {
       typ \<leftarrow> redeem_order_type cx (output_address out);
       let value = output_value out;
       pd \<leftarrow> request_pd cx out;
       conf \<leftarrow> redeem_config_try_from_pd pd;
       token_lq_amount \<leftarrow> amount_in value (rc_token_lq conf);
       lovelace \<leftarrow> amount_in value Native;
       let collateral_ada = lovelace - rc_ex_fee conf;
       pool_nft \<leftarrow> ac_into_token (rc_pool_nft conf);
       let red = \<lparr> rd_pool_nft = pool_nft, rd_token_x = rc_token_x conf, rd_token_y = rc_token_y conf,
         rd_token_lq = rc_token_lq conf, rd_token_lq_amount = token_lq_amount, rd_ex_fee = rc_ex_fee conf,
         rd_reward_pkh = rc_reward_pkh conf, rd_reward_stake_pkh = rc_reward_stake_pkh conf,
         rd_collateral_ada = collateral_ada, rd_order_type = typ \<rparr>;
       if oc_redeem_min_collateral_ada cx \<le> collateral_ada
       then Some \<lparr> co_id = oc_output_ref cx, co_pool_id = pool_nft, co_order = red \<rparr>
       else None
     }"

definition redeem_get_validator :: "validators \<Rightarrow> redeem_order classical_order \<Rightarrow> deployed_validator_erased" where
  "redeem_get_validator vs r = erased (vs (redeem_validator (rd_order_type (co_order r))))"

subsection \<open>Withdrawals of royalties\<close>

record royalty_withdraw_request_config =
  wc_pool_nft :: token
  wc_withdraw_royalty_x :: u64
  wc_withdraw_royalty_y :: u64
  wc_royalty_pub_key_hash :: hash28
  wc_fee :: u64
  wc_signature :: str
  wc_raw_data_to_sign :: bytes
  wc_additional_bytes :: bytes

definition royalty_config_try_from_pd ::
    "crypto_ops \<Rightarrow> plutus_data \<Rightarrow> royalty_withdraw_request_config option" where
  "royalty_config_try_from_pd Y data =
     do {
       (_, cpd) \<leftarrow> into_constr_pd data;
       (signed, _) \<leftarrow> take_field 0 cpd;
       let data_to_sign = cy_to_cbor Y signed;
       ((_, royalty_data), cpd) \<leftarrow> read_field 0 into_constr_pd cpd;
       (pool_nft, royalty_data) \<leftarrow>
         read_field 0 (\<lambda>pd. Option.bind (ac_try_from_pd pd) ac_into_token) royalty_data;
       (withdraw_royalty_x, royalty_data) \<leftarrow> read_field 1 into_u64 royalty_data;
       (withdraw_royalty_y, royalty_data) \<leftarrow> read_field 2 into_u64 royalty_data;
       (royalty_pub_key_hash, royalty_data) \<leftarrow> read_field 3 key_hash_try_from_pd royalty_data;
       (fee, royalty_data) \<leftarrow> read_field 4 into_u64 royalty_data;
       (signature, cpd) \<leftarrow> read_field 1 into_bytes cpd;
       (additional_bytes, cpd) \<leftarrow> read_field 2 into_bytes cpd;
       Some \<lparr> wc_pool_nft = pool_nft, wc_withdraw_royalty_x = withdraw_royalty_x,
         wc_withdraw_royalty_y = withdraw_royalty_y, wc_royalty_pub_key_hash = royalty_pub_key_hash,
         wc_fee = fee, wc_signature = cy_hex_encode Y signature, wc_raw_data_to_sign = data_to_sign,
         wc_additional_bytes = additional_bytes \<rparr>
     }"

record withdraw_data =
  wd_pool_nft :: token
  wd_withdraw_royalty_x :: u64
  wd_withdraw_royalty_y :: u64
  wd_royalty_pub_key_hash :: hash28
  wd_ex_fee :: u64

definition withdraw_data_into_pd :: "withdraw_data \<Rightarrow> plutus_data option" where
  "withdraw_data_into_pd d =
     map_option (\<lambda>nft. ConstrPd 0 [nft, u64_into_pd (wd_withdraw_royalty_x d), u64_into_pd (wd_withdraw_royalty_y d),
         BytesPd (hash28_bytes (wd_royalty_pub_key_hash d)), u64_into_pd (wd_ex_fee d)])
       (token_into_pd (wd_pool_nft d))"

record data_to_sign =
  ds_withdraw_data :: withdraw_data
  ds_pool_nonce :: u64

definition data_to_sign_into_pd :: "data_to_sign \<Rightarrow> plutus_data option" where
  "data_to_sign_into_pd d =
     map_option (\<lambda>w. ConstrPd 0 [w, u64_into_pd (ds_pool_nonce d)]) (withdraw_data_into_pd (ds_withdraw_data d))"

record royalty_withdraw =
  ry_pool_nft :: token
  ry_withdraw_royalty_x :: u64
  ry_withdraw_royalty_y :: u64
  ry_royalty_pub_key_hash :: hash28
  ry_fee :: u64
  ry_signature :: bytes
  ry_init_ada_value :: u64
  ry_raw_data_to_sign :: bytes
  ry_additional_bytes :: bytes
  ry_requestor_address :: address
  ry_order_type :: order_type

definition into_withdraw_data :: "royalty_withdraw \<Rightarrow> withdraw_data" where
  "into_withdraw_data r =
     \<lparr> wd_pool_nft = ry_pool_nft r, wd_withdraw_royalty_x = ry_withdraw_royalty_x r,
       wd_withdraw_royalty_y = ry_withdraw_royalty_y r, wd_royalty_pub_key_hash = ry_royalty_pub_key_hash r,
       wd_ex_fee = ry_fee r \<rparr>"

text \<open>A request of another type has no validator: \<open>unreachable!\<close>, a panic.\<close>

definition royalty_get_validator ::
    "validators \<Rightarrow> royalty_withdraw classical_order \<Rightarrow> deployed_validator_erased option" where
  "royalty_get_validator vs r =
     (case ry_order_type (co_order r) of
        RoyaltyConstFnV1 \<Rightarrow> Some (erased (vs RoyaltyPoolV1RoyaltyWithdrawRequest))
      | RoyaltyConstFnV2 \<Rightarrow> Some (erased (vs RoyaltyPoolV2RoyaltyWithdrawRequest))
      | _ \<Rightarrow> None)"

definition royalty_try_from_ledger :: "order_cx \<Rightarrow> tx_output \<Rightarrow> royalty_withdraw classical_order option" where
  "royalty_try_from_ledger cx out =
     (let is_royalty_v1_fn_withdraw =
            test_address (oc_scripts cx) RoyaltyPoolV1RoyaltyWithdrawRequest (output_address out);
          is_royalty_v2_fn_withdraw =
            test_address (oc_scripts cx) RoyaltyPoolV2RoyaltyWithdrawRequest (output_address out)
      in if is_royalty_v1_fn_withdraw \<or> is_royalty_v2_fn_withdraw
         then do {
           pd \<leftarrow> request_pd cx out;
           conf \<leftarrow> royalty_config_try_from_pd (oc_crypto cx) pd;
           let init_ada_value = coin (output_value out);
           signature \<leftarrow> cy_signature_from_hex (oc_crypto cx) (wc_signature conf);
           let req = \<lparr> ry_pool_nft = wc_pool_nft conf, ry_withdraw_royalty_x = wc_withdraw_royalty_x conf,
             ry_withdraw_royalty_y = wc_withdraw_royalty_y conf,
             ry_royalty_pub_key_hash = wc_royalty_pub_key_hash conf, ry_fee = wc_fee conf,
             ry_signature = signature, ry_init_ada_value = init_ada_value,
             ry_raw_data_to_sign = wc_raw_data_to_sign conf, ry_additional_bytes = wc_additional_bytes conf,
             ry_requestor_address = output_address out,
             ry_order_type = (if is_royalty_v1_fn_withdraw then RoyaltyConstFnV1 else RoyaltyConstFnV2) \<rparr>;
           if oc_min_ada_in_royalty_output cx \<le> init_ada_value - wc_fee conf
           then Some \<lparr> co_id = oc_output_ref cx, co_pool_id = ry_pool_nft req, co_order = req \<rparr>
           else None
         }
         else None)"

subsection \<open>Actions of the DAO\<close>

datatype dao_action =
  WithdrawTreasury | ChangeStakePart | ChangeTreasuryFee | ChangeTreasuryAddress | ChangeAdminAddress | ChangePoolFee

definition dao_actions :: "dao_action list" where
  "dao_actions =
     [WithdrawTreasury, ChangeStakePart, ChangeTreasuryFee, ChangeTreasuryAddress, ChangeAdminAddress, ChangePoolFee]"

definition dao_action_from_repr :: "u64 \<Rightarrow> dao_action option" where
  "dao_action_from_repr i = (if unat i < length dao_actions then Some (dao_actions ! unat i) else None)"

definition dao_action_try_from_pd :: "plutus_data \<Rightarrow> dao_action option" where
  "dao_action_try_from_pd pd = Option.bind (into_u64 pd) dao_action_from_repr"

fun dao_action_into_pd :: "dao_action \<Rightarrow> plutus_data" where
  "dao_action_into_pd WithdrawTreasury = IntPd 0"
| "dao_action_into_pd ChangeStakePart = IntPd 1"
| "dao_action_into_pd ChangeTreasuryFee = IntPd 2"
| "dao_action_into_pd ChangeTreasuryAddress = IntPd 3"
| "dao_action_into_pd ChangeAdminAddress = IntPd 4"
| "dao_action_into_pd ChangePoolFee = IntPd 5"

record dao_request_config =
  qc_dao_action :: dao_action
  qc_pool_nft :: asset_class
  qc_pool_fee :: u64
  qc_treasury_fee :: u64
  qc_admin_address :: hash28
  qc_pool_stake_script_hash :: "hash28 option"
  qc_treasury_address :: hash28
  qc_treasury_x_abs_delta :: u64
  qc_treasury_y_abs_delta :: u64
  qc_requestor_pkh :: hash28
  qc_signatures :: "bytes list"
  qc_additional_bytes :: "bytes list"
  qc_fee :: u64

text \<open>The script hash of the first of a list of credentials.\<close>

definition first_script_hash :: "plutus_data \<Rightarrow> hash28 option" where
  "first_script_hash pd =
     Option.bind (vec_try_from_pd ic_try_from_pd pd)
       (\<lambda>creds. case creds of [] \<Rightarrow> None | cred # _ \<Rightarrow> ic_script_hash cred)"

definition dao_config_try_from_pd :: "crypto_ops \<Rightarrow> plutus_data \<Rightarrow> dao_request_config option" where
  "dao_config_try_from_pd Y data =
     do {
       (_, cpd) \<leftarrow> into_constr_pd data;
       (admin_address, cpd) \<leftarrow> read_field 4 first_script_hash cpd;
       (pool_address, cpd) \<leftarrow> read_field 5 pa_try_from_pd cpd;
       let pool_stake_cred = Option.bind (pa_stake_cred pool_address) ic_script_hash;
       (treasury_address, cpd) \<leftarrow> read_field 6 key_hash_try_from_pd cpd;
       (requestor_pkh, cpd) \<leftarrow> read_field 9 key_hash_try_from_pd cpd;
       (signatures, cpd) \<leftarrow> read_field 10
         (\<lambda>pd. into_vec_pd pd (\<lambda>raw. Option.bind (into_bytes raw) (cy_signature_from_bytes Y))) cpd;
       (additional_bytes, cpd) \<leftarrow> read_field 11 (\<lambda>pd. into_vec_pd pd into_bytes) cpd;
       (act, cpd) \<leftarrow> read_field 0 dao_action_try_from_pd cpd;
       (pool_nft, cpd) \<leftarrow> read_field 1 ac_try_from_pd cpd;
       (pool_fee, cpd) \<leftarrow> read_field 2 into_u64 cpd;
       (treasury_fee, cpd) \<leftarrow> read_field 3 into_u64 cpd;
       (treasury_x_abs_delta, cpd) \<leftarrow> read_field 7 into_u64 cpd;
       (treasury_y_abs_delta, cpd) \<leftarrow> read_field 8 into_u64 cpd;
       (fee, cpd) \<leftarrow> read_field 12 into_u64 cpd;
       Some \<lparr> qc_dao_action = act, qc_pool_nft = pool_nft, qc_pool_fee = pool_fee,
         qc_treasury_fee = treasury_fee, qc_admin_address = admin_address,
         qc_pool_stake_script_hash = pool_stake_cred, qc_treasury_address = treasury_address,
         qc_treasury_x_abs_delta = treasury_x_abs_delta, qc_treasury_y_abs_delta = treasury_y_abs_delta,
         qc_requestor_pkh = requestor_pkh, qc_signatures = signatures, qc_additional_bytes = additional_bytes,
         qc_fee = fee \<rparr>
     }"

record dao_v1_request =
  dq_dao_action :: dao_action
  dq_pool_nft :: token
  dq_pool_fee :: fee_ratio
  dq_treasury_fee :: fee_ratio
  dq_admin_address :: hash28
  dq_pool_stake_script_hash :: "hash28 option"
  dq_treasury_address :: hash28
  dq_treasury_x_abs_delta :: u64
  dq_treasury_y_abs_delta :: u64
  dq_requestor_pkh :: hash28
  dq_signatures :: "bytes list"
  dq_additional_bytes :: "bytes list"
  dq_fee :: u64
  dq_lovelace :: u64

definition dao_get_validator :: "validators \<Rightarrow> deployed_validator_erased" where
  "dao_get_validator vs = erased (vs RoyaltyPoolDAOV1Request)"

definition dao_try_from_ledger :: "order_cx \<Rightarrow> tx_output \<Rightarrow> dao_v1_request classical_order option" where
  "dao_try_from_ledger cx out =
     (if test_address (oc_scripts cx) RoyaltyPoolDAOV1Request (output_address out)
      then do {
        pd \<leftarrow> request_pd cx out;
        conf \<leftarrow> dao_config_try_from_pd (oc_crypto cx) pd;
        let init_ada_value = coin (output_value out);
        if init_ada_value < qc_fee conf then None
        else do {
          pool_nft \<leftarrow> ac_into_token (qc_pool_nft conf);
          let req = \<lparr> dq_dao_action = qc_dao_action conf, dq_pool_nft = pool_nft,
            dq_pool_fee = (qc_pool_fee conf, fee_den), dq_treasury_fee = (qc_treasury_fee conf, fee_den),
            dq_admin_address = qc_admin_address conf,
            dq_pool_stake_script_hash = qc_pool_stake_script_hash conf,
            dq_treasury_address = qc_treasury_address conf,
            dq_treasury_x_abs_delta = qc_treasury_x_abs_delta conf,
            dq_treasury_y_abs_delta = qc_treasury_y_abs_delta conf, dq_requestor_pkh = qc_requestor_pkh conf,
            dq_signatures = qc_signatures conf, dq_additional_bytes = qc_additional_bytes conf,
            dq_fee = qc_fee conf, dq_lovelace = init_ada_value \<rparr>;
          if oc_dao_min_collateral_ada cx \<le> init_ada_value - qc_fee conf
          then Some \<lparr> co_id = oc_output_ref cx, co_pool_id = pool_nft, co_order = req \<rparr>
          else None
        }
      }
      else None)"

record dao_request_data_to_sign =
  dd_dao_action :: dao_action
  dd_pool_nft :: token
  dd_pool_fee :: u64
  dd_treasury_fee :: u64
  dd_admin_address :: "inline_credential list"
  dd_pool_address :: plutus_address
  dd_treasury_address :: hash28
  dd_treasury_x_delta :: "64 word"
  dd_treasury_y_delta :: "64 word"
  dd_pool_nonce :: u64

definition dao_data_to_sign_into_pd :: "dao_request_data_to_sign \<Rightarrow> plutus_data option" where
  "dao_data_to_sign_into_pd d =
     map_option (\<lambda>nft. ConstrPd 0 [dao_action_into_pd (dd_dao_action d), nft, u64_into_pd (dd_pool_fee d),
         u64_into_pd (dd_treasury_fee d), vec_into_pd ic_into_pd (dd_admin_address d),
         pa_into_pd (dd_pool_address d), BytesPd (hash28_bytes (dd_treasury_address d)),
         i64_into_pd (dd_treasury_x_delta d), i64_into_pd (dd_treasury_y_delta d), u64_into_pd (dd_pool_nonce d)])
       (token_into_pd (dd_pool_nft d))"

subsection \<open>Requests\<close>

datatype request =
    DepositRequest "deposit_order classical_order"
  | RedeemRequest "redeem_order classical_order"
  | RoyaltyWithdrawRequest "royalty_withdraw classical_order"
  | DAOActionRequest "dao_v1_request classical_order"

fun request_weight :: "request \<Rightarrow> nat" where
  "request_weight (DepositRequest d) = unat (dp_ex_fee (co_order d))"
| "request_weight (RedeemRequest r) = unat (rd_ex_fee (co_order r))"
| "request_weight (RoyaltyWithdrawRequest w) = 0"
| "request_weight (DAOActionRequest q) = 0"

fun request_self_ref :: "request \<Rightarrow> output_ref" where
  "request_self_ref (DepositRequest d) = co_id d"
| "request_self_ref (RedeemRequest r) = co_id r"
| "request_self_ref (RoyaltyWithdrawRequest w) = co_id w"
| "request_self_ref (DAOActionRequest q) = co_id q"

fun request_pool_ref :: "request \<Rightarrow> token" where
  "request_pool_ref (DepositRequest d) = co_pool_id d"
| "request_pool_ref (RedeemRequest r) = co_pool_id r"
| "request_pool_ref (RoyaltyWithdrawRequest w) = co_pool_id w"
| "request_pool_ref (DAOActionRequest q) = co_pool_id q"

definition request_eq :: "request \<Rightarrow> request \<Rightarrow> bool" where
  "request_eq a b \<longleftrightarrow> request_self_ref a = request_self_ref b"

text \<open>The kinds are tried in turn, redemptions twice.\<close>

definition request_try_from_ledger :: "order_cx \<Rightarrow> tx_output \<Rightarrow> request option" where
  "request_try_from_ledger cx out =
     (case deposit_try_from_ledger cx out of Some d \<Rightarrow> Some (DepositRequest d) | None \<Rightarrow>
     (case redeem_try_from_ledger cx out of Some r \<Rightarrow> Some (RedeemRequest r) | None \<Rightarrow>
     (case redeem_try_from_ledger cx out of Some r \<Rightarrow> Some (RedeemRequest r) | None \<Rightarrow>
     (case royalty_try_from_ledger cx out of Some w \<Rightarrow> Some (RoyaltyWithdrawRequest w) | None \<Rightarrow>
       map_option DAOActionRequest (dao_try_from_ledger cx out)))))"

end
