(* ===== verification/Fee_Switch_Pool.thy ===== *)
theory Fee_Switch_Pool
  imports Pool_Ledger
begin

text \<open>
  The fee-switch pool, packages/spectrum-offchain-cardano/src/data/cfmm_pool/fee_switch_pool.rs: a
  constant-product pool that keeps a share of every input aside for its treasury. Its two datum
  layouts, its recognition in an output and the way back, its mathematics and its maker. The
  subtraction of two ratios is the number library's and a parameter.
\<close>

subsection \<open>Datums\<close>

record fee_switch_pool_config =
  fc_pool_nft :: asset_class
  fc_asset_x :: asset_class
  fc_asset_y :: asset_class
  fc_asset_lq :: asset_class
  fc_lp_fee_num :: u64
  fc_treasury_fee_num :: u64
  fc_treasury_x :: u64
  fc_treasury_y :: u64
  fc_lq_lower_bound :: u64

definition fee_switch_config_try_from_pd :: "plutus_data \<Rightarrow> fee_switch_pool_config option" where
  "fee_switch_config_try_from_pd data =
     do {
       (_, cpd) \<leftarrow> into_constr_pd data;
       (pool_nft, cpd) \<leftarrow> read_field 0 ac_try_from_pd cpd;
       (asset_x, cpd) \<leftarrow> read_field 1 ac_try_from_pd cpd;
       (asset_y, cpd) \<leftarrow> read_field 2 ac_try_from_pd cpd;
       (asset_lq, cpd) \<leftarrow> read_field 3 ac_try_from_pd cpd;
       (lp_fee_num, cpd) \<leftarrow> read_field 4 into_u64 cpd;
       (treasury_fee_num, cpd) \<leftarrow> read_field 5 into_u64 cpd;
       (treasury_x, cpd) \<leftarrow> read_field 6 into_u64 cpd;
       (treasury_y, cpd) \<leftarrow> read_field 7 into_u64 cpd;
       Some \<lparr> fc_pool_nft = pool_nft, fc_asset_x = asset_x, fc_asset_y = asset_y, fc_asset_lq = asset_lq,
         fc_lp_fee_num = lp_fee_num, fc_treasury_fee_num = treasury_fee_num, fc_treasury_x = treasury_x,
         fc_treasury_y = treasury_y, fc_lq_lower_bound = read_field_or_zero 9 cpd \<rparr>
     }"

record fee_switch_bidirectional_pool_config =
  bc_pool_nft :: asset_class
  bc_asset_x :: asset_class
  bc_asset_y :: asset_class
  bc_asset_lq :: asset_class
  bc_lp_fee_num_x :: u64
  bc_lp_fee_num_y :: u64
  bc_treasury_fee_num :: u64
  bc_treasury_x :: u64
  bc_treasury_y :: u64
  bc_lq_lower_bound :: u64

definition bidirectional_config_try_from_pd ::
    "plutus_data \<Rightarrow> fee_switch_bidirectional_pool_config option" where
  "bidirectional_config_try_from_pd data =
     do {
       (_, cpd) \<leftarrow> into_constr_pd data;
       (pool_nft, cpd) \<leftarrow> read_field 0 ac_try_from_pd cpd;
       (asset_x, cpd) \<leftarrow> read_field 1 ac_try_from_pd cpd;
       (asset_y, cpd) \<leftarrow> read_field 2 ac_try_from_pd cpd;
       (asset_lq, cpd) \<leftarrow> read_field 3 ac_try_from_pd cpd;
       (lp_fee_num_x, cpd) \<leftarrow> read_field 4 into_u64 cpd;
       (lp_fee_num_y, cpd) \<leftarrow> read_field 5 into_u64 cpd;
       (treasury_fee_num, cpd) \<leftarrow> read_field 6 into_u64 cpd;
       (treasury_x, cpd) \<leftarrow> read_field 7 into_u64 cpd;
       (treasury_y, cpd) \<leftarrow> read_field 8 into_u64 cpd;
       Some \<lparr> bc_pool_nft = pool_nft, bc_asset_x = asset_x, bc_asset_y = asset_y, bc_asset_lq = asset_lq,
         bc_lp_fee_num_x = lp_fee_num_x, bc_lp_fee_num_y = lp_fee_num_y,
         bc_treasury_fee_num = treasury_fee_num, bc_treasury_x = treasury_x, bc_treasury_y = treasury_y,
         bc_lq_lower_bound = read_field_or_zero 10 cpd \<rparr>
     }"

text \<open>A datum without constructor and a missing field are panics.\<close>

definition unsafe_update_pd_fee_switch :: "plutus_data \<Rightarrow> u64 \<Rightarrow> u64 \<Rightarrow> plutus_data option" where
  "unsafe_update_pd_fee_switch data treasury_x treasury_y =
     do {
       (alternative, cpd) \<leftarrow> into_constr_pd data;
       cpd \<leftarrow> set_field 6 (u64_into_pd treasury_x) cpd;
       cpd \<leftarrow> set_field 7 (u64_into_pd treasury_y) cpd;
       Some (ConstrPd alternative cpd)
     }"

subsection \<open>The pool\<close>

datatype fee_switch_pool_ver = FsV1 | FsV2 | FsBiDirV1

definition fee_switch_ver_try_from_address :: "script_infos \<Rightarrow> address \<Rightarrow> fee_switch_pool_ver option" where
  "fee_switch_ver_try_from_address infos addr =
     (case script_hash addr of
        Some this_hash \<Rightarrow>
          if si_script_hash (infos ConstFnPoolFeeSwitch) = this_hash then Some FsV1
          else if si_script_hash (infos ConstFnPoolFeeSwitchV2) = this_hash then Some FsV2
          else if si_script_hash (infos ConstFnPoolFeeSwitchBiDirFee) = this_hash then Some FsBiDirV1
          else None
      | None \<Rightarrow> None)"

fun fee_switch_validator :: "fee_switch_pool_ver \<Rightarrow> protocol_validator" where
  "fee_switch_validator FsV1 = ConstFnPoolFeeSwitch"
| "fee_switch_validator FsV2 = ConstFnPoolFeeSwitchV2"
| "fee_switch_validator FsBiDirV1 = ConstFnPoolFeeSwitchBiDirFee"

record fee_switch_pool =
  fs_id :: token
  fs_reserves_x :: u64
  fs_reserves_y :: u64
  fs_liquidity :: u64
  fs_asset_x :: asset_class
  fs_asset_y :: asset_class
  fs_asset_lq :: asset_class
  fs_lp_fee_x :: fee_ratio
  fs_lp_fee_y :: fee_ratio
  fs_treasury_fee :: fee_ratio
  fs_treasury_x :: u64
  fs_treasury_y :: u64
  fs_lq_lower_bound :: u64
  fs_ver :: fee_switch_pool_ver
  fs_marginal_cost :: ex_units
  fs_bounds :: pool_validation
  fs_nonce :: u64
  fs_stake_part_script_hash :: "hash28 option"

definition fs_get_validator :: "validators \<Rightarrow> fee_switch_pool \<Rightarrow> deployed_validator_erased" where
  "fs_get_validator vs p = erased (vs (fee_switch_validator (fs_ver p)))"

text \<open>The three checks of a pool read from the ledger; the differences wrap in a release build.\<close>

definition reserves_ok ::
    "pool_validation \<Rightarrow> asset_class \<Rightarrow> asset_class \<Rightarrow> u64 \<Rightarrow> u64 \<Rightarrow> u64 \<Rightarrow> u64 \<Rightarrow> u64 \<Rightarrow> bool" where
  "reserves_ok bounds asset_x asset_y lov reserves_x reserves_y accrued_x accrued_y \<longleftrightarrow>
     (let pure_reserves_x = reserves_x - accrued_x;
          pure_reserves_y = reserves_y - accrued_y;
          non_empty_reserves = (0 < pure_reserves_x \<and> 0 < pure_reserves_y);
          sufficient_lovelace = (ac_is_native asset_x \<or> ac_is_native asset_y \<or> min_t2t_lovelace bounds \<le> lov);
          enough_reserves = (accrued_x < reserves_x \<and> accrued_y < reserves_y)
      in non_empty_reserves \<and> sufficient_lovelace \<and> enough_reserves)"

text \<open>The pool of a datum that reads, the two branches of the match on the version.\<close>

definition fs_from_config :: "pool_cx \<Rightarrow> tx_output \<Rightarrow> fee_switch_pool_ver \<Rightarrow> fee_switch_pool_config \<Rightarrow> fee_switch_pool option" where
  "fs_from_config cx out pool_ver conf =
     (let value = output_value out; bounds = pc_bounds cx in
      do {
        liquidity_neg \<leftarrow> amount_in value (fc_asset_lq conf);
        lov \<leftarrow> amount_in value Native;
        reserves_x \<leftarrow> amount_in value (fc_asset_x conf);
        reserves_y \<leftarrow> amount_in value (fc_asset_y conf);
        if reserves_ok bounds (fc_asset_x conf) (fc_asset_y conf) lov reserves_x reserves_y
             (fc_treasury_x conf) (fc_treasury_y conf)
        then do {
          pool_id \<leftarrow> ac_into_token (fc_pool_nft conf);
          Some \<lparr> fs_id = pool_id, fs_reserves_x = reserves_x, fs_reserves_y = reserves_y,
            fs_liquidity = max_lq_cap - liquidity_neg, fs_asset_x = fc_asset_x conf,
            fs_asset_y = fc_asset_y conf, fs_asset_lq = fc_asset_lq conf,
            fs_lp_fee_x = (fc_lp_fee_num conf, fee_den), fs_lp_fee_y = (fc_lp_fee_num conf, fee_den),
            fs_treasury_fee = (fc_treasury_fee_num conf, fee_den), fs_treasury_x = fc_treasury_x conf,
            fs_treasury_y = fc_treasury_y conf, fs_lq_lower_bound = fc_lq_lower_bound conf,
            fs_ver = pool_ver, fs_marginal_cost = si_marginal_cost (pc_scripts cx (fee_switch_validator pool_ver)),
            fs_bounds = bounds, fs_nonce = 0,
            fs_stake_part_script_hash = stake_part_of (output_address out) \<rparr>
        }
        else None
      })"

definition fs_from_bidirectional_config :: "pool_cx \<Rightarrow> tx_output \<Rightarrow> fee_switch_pool_ver \<Rightarrow> fee_switch_bidirectional_pool_config \<Rightarrow> fee_switch_pool option" where
  "fs_from_bidirectional_config cx out pool_ver conf =
     (let value = output_value out; bounds = pc_bounds cx in
      do {
        liquidity_neg \<leftarrow> amount_in value (bc_asset_lq conf);
        lov \<leftarrow> amount_in value Native;
        reserves_x \<leftarrow> amount_in value (bc_asset_x conf);
        reserves_y \<leftarrow> amount_in value (bc_asset_y conf);
        if reserves_ok bounds (bc_asset_x conf) (bc_asset_y conf) lov reserves_x reserves_y
             (bc_treasury_x conf) (bc_treasury_y conf)
        then do {
          pool_id \<leftarrow> ac_into_token (bc_pool_nft conf);
          Some \<lparr> fs_id = pool_id, fs_reserves_x = reserves_x, fs_reserves_y = reserves_y,
            fs_liquidity = max_lq_cap - liquidity_neg, fs_asset_x = bc_asset_x conf,
            fs_asset_y = bc_asset_y conf, fs_asset_lq = bc_asset_lq conf,
            fs_lp_fee_x = (bc_lp_fee_num_x conf, fee_den), fs_lp_fee_y = (bc_lp_fee_num_y conf, fee_den),
            fs_treasury_fee = (bc_treasury_fee_num conf, fee_den), fs_treasury_x = bc_treasury_x conf,
            fs_treasury_y = bc_treasury_y conf, fs_lq_lower_bound = bc_lq_lower_bound conf,
            fs_ver = pool_ver, fs_marginal_cost = si_marginal_cost (pc_scripts cx (fee_switch_validator pool_ver)),
            fs_bounds = bounds, fs_nonce = 0,
            fs_stake_part_script_hash = stake_part_of (output_address out) \<rparr>
        }
        else None
      })"

definition fs_try_from_ledger :: "pool_cx \<Rightarrow> tx_output \<Rightarrow> fee_switch_pool option" where
  "fs_try_from_ledger cx out =
     do {
       pool_ver \<leftarrow> fee_switch_ver_try_from_address (pc_scripts cx) (output_address out);
       pd \<leftarrow> output_pd cx out;
       if pool_ver \<noteq> FsBiDirV1
       then do {
         conf \<leftarrow> fee_switch_config_try_from_pd pd;
         fs_from_config cx out pool_ver conf
       }
       else do {
         conf \<leftarrow> bidirectional_config_try_from_pd pd;
         fs_from_bidirectional_config cx out pool_ver conf
       }
     }"

definition fs_into_ledger ::
    "(bytes \<Rightarrow> plutus_data) \<Rightarrow> (plutus_data \<Rightarrow> bytes) \<Rightarrow> fee_switch_pool \<Rightarrow> immutable_pool_utxo \<Rightarrow>
     tx_output option" where
  "fs_into_ledger decode encode p immut_pool =
     do {
       amount \<leftarrow> pool_value (fs_asset_x p) (fs_reserves_x p) (fs_asset_y p) (fs_reserves_y p) (fs_asset_lq p)
         (fs_liquidity p) (fs_id p) (ip_value immut_pool);
       datum \<leftarrow> rewrite_datum decode encode
         (\<lambda>pd. unsafe_update_pd_fee_switch pd (fs_treasury_x p) (fs_treasury_y p)) (ip_datum_option immut_pool);
       Some (ConwayFormatTxOut (pool_address (fs_stake_part_script_hash p) (ip_address immut_pool)) amount
         datum (ip_script_reference immut_pool))
     }"

subsection \<open>Mathematics\<close>

definition fs_tradable_x :: "fee_switch_pool \<Rightarrow> u64" where
  "fs_tradable_x p = fs_reserves_x p - fs_treasury_x p"

definition fs_tradable_y :: "fee_switch_pool \<Rightarrow> u64" where
  "fs_tradable_y p = fs_reserves_y p - fs_treasury_y p"

type_synonym ratio_sub = "fee_ratio \<Rightarrow> fee_ratio \<Rightarrow> fee_ratio"

definition fs_output_amount :: "ratio_sub \<Rightarrow> fee_switch_pool \<Rightarrow> asset_class \<Rightarrow> u64 \<Rightarrow> u64 option" where
  "fs_output_amount sub p base_asset base_amount =
     classic_cfmm_output_amount (fs_asset_x p) (fs_asset_y p) (fs_tradable_x p) (fs_tradable_y p)
       base_asset base_amount (sub (fs_lp_fee_x p) (fs_treasury_fee p)) (sub (fs_lp_fee_y p) (fs_treasury_fee p))"

definition fs_reward_lp :: "fee_switch_pool \<Rightarrow> u64 \<Rightarrow> u64 \<Rightarrow> (u64 \<times> u64 \<times> u64) option" where
  "fs_reward_lp p in_x_amount in_y_amount =
     classic_cfmm_reward_lp (fs_tradable_x p) (fs_tradable_y p) (fs_liquidity p) in_x_amount in_y_amount"

definition fs_shares_amount :: "fee_switch_pool \<Rightarrow> u64 \<Rightarrow> (u64 \<times> u64) option" where
  "fs_shares_amount p burned_lq =
     classic_cfmm_shares_amount (fs_tradable_x p) (fs_tradable_y p) (fs_liquidity p) burned_lq"

subsection \<open>As a maker\<close>

definition fs_side_output :: "ratio_sub \<Rightarrow> fee_switch_pool \<Rightarrow> u64 on_side \<Rightarrow> u64 option" where
  "fs_side_output sub p input = pool_side_output (fs_asset_x p) (fs_asset_y p) (fs_output_amount sub p) input"

definition fs_swap :: "ratio_sub \<Rightarrow> u64 on_side \<Rightarrow> fee_switch_pool \<Rightarrow> fee_switch_pool option" where
  "fs_swap sub input p =
     do {
       output \<leftarrow> fs_side_output sub p input;
       let i = os_unwrap input;
       fee \<leftarrow> accrue i (fs_treasury_fee p);
       Some (if input_is_x (fs_asset_x p) (fs_asset_y p) input
         then p\<lparr>fs_reserves_x := fs_reserves_x p + i, fs_reserves_y := fs_reserves_y p - output,
                fs_treasury_x := fs_treasury_x p + fee\<rparr>
         else p\<lparr>fs_reserves_y := fs_reserves_y p + i, fs_reserves_x := fs_reserves_x p - output,
                fs_treasury_y := fs_treasury_y p + fee\<rparr>)
     }"

definition fs_static_price :: "fee_switch_pool \<Rightarrow> price" where
  "fs_static_price p = pool_static_price (fs_asset_x p) (fs_asset_y p) (fs_tradable_x p) (fs_tradable_y p)"

definition fs_real_price :: "ratio_sub \<Rightarrow> u64 on_side \<Rightarrow> fee_switch_pool \<Rightarrow> price option option" where
  "fs_real_price sub input p = pool_real_price (fs_side_output sub p) input"

definition fs_quality :: "fee_switch_pool \<Rightarrow> nat" where
  "fs_quality p = unat (fs_liquidity p)"

definition fs_marginal_cost_hint :: "fee_switch_pool \<Rightarrow> ex_units" where
  "fs_marginal_cost_hint p = fs_marginal_cost p"

definition fs_reserves :: "fee_switch_pool \<Rightarrow> reserves" where
  "fs_reserves p = pool_reserves (fs_asset_x p) (fs_asset_y p) (fs_reserves_x p) (fs_reserves_y p)"

definition fs_available_liquidity_on_side ::
    "(price on_side \<Rightarrow> fee_switch_pool \<Rightarrow> (u64 \<times> u64) option) \<Rightarrow> price on_side \<Rightarrow> fee_switch_pool \<Rightarrow>
     available_liquidity option" where
  "fs_available_liquidity_on_side decimal_liquidity worst_price p =
     pool_available_liquidity (fs_asset_x p) (fs_asset_y p) (fs_tradable_x p) (fs_tradable_y p)
       (decimal_liquidity worst_price p) worst_price"

definition fs_estimated_trade ::
    "ratio_sub \<Rightarrow> u64 on_side \<Rightarrow> fee_switch_pool \<Rightarrow> available_liquidity option option" where
  "fs_estimated_trade sub input p = pool_estimated_trade (fs_side_output sub p) input"

definition fs_is_active :: "fee_switch_pool \<Rightarrow> bool" where
  "fs_is_active p =
     pool_is_active (fs_asset_x p) (fs_asset_y p) (fs_reserves_x p) (fs_reserves_y p) (fs_lq_lower_bound p)
       (fs_bounds p)"

end
