(* ===== verification/Royalty_Pool.thy ===== *)
theory Royalty_Pool
  imports Order_Requests Fee_Switch_Pool
begin

text \<open>
  The royalty pool, packages/spectrum-offchain-cardano/src/data/cfmm_pool/royalty_pool.rs: a
  constant-product pool that keeps a treasury and one or two royalties aside. Its two datum
  layouts, its recognition in an output and the way back, its mathematics and its maker, and the
  two signed operations: the withdrawal of a royalty and the actions of the DAO.
\<close>

subsection \<open>Datums\<close>

record royalty_pool_config =
  yc_pool_nft :: asset_class
  yc_asset_x :: asset_class
  yc_asset_y :: asset_class
  yc_asset_lq :: asset_class
  yc_lp_fee_num :: u64
  yc_treasury_fee_num :: u64
  yc_royalty_fee_num :: u64
  yc_treasury_x :: u64
  yc_treasury_y :: u64
  yc_royalty_x :: u64
  yc_royalty_y :: u64
  yc_admin_address :: hash28
  yc_treasury_address :: bytes
  yc_royalty_pub_key :: bytes
  yc_nonce :: u64

text \<open>The places are those of \<open>ROYALTY_DATUM_MAPPING\<close>; the admin's credential is read first, from a copy.\<close>

definition royalty_pool_config_try_from_pd :: "plutus_data \<Rightarrow> royalty_pool_config option" where
  "royalty_pool_config_try_from_pd data =
     do {
       (_, cpd) \<leftarrow> into_constr_pd data;
       (admin_address, _) \<leftarrow> read_field 11 first_script_hash cpd;
       (pool_nft, cpd) \<leftarrow> read_field 0 ac_try_from_pd cpd;
       (asset_x, cpd) \<leftarrow> read_field 1 ac_try_from_pd cpd;
       (asset_y, cpd) \<leftarrow> read_field 2 ac_try_from_pd cpd;
       (asset_lq, cpd) \<leftarrow> read_field 3 ac_try_from_pd cpd;
       (lp_fee_num, cpd) \<leftarrow> read_field 4 into_u64 cpd;
       (treasury_fee_num, cpd) \<leftarrow> read_field 5 into_u64 cpd;
       (royalty_fee_num, cpd) \<leftarrow> read_field 6 into_u64 cpd;
       (treasury_x, cpd) \<leftarrow> read_field 7 into_u64 cpd;
       (treasury_y, cpd) \<leftarrow> read_field 8 into_u64 cpd;
       (royalty_x, cpd) \<leftarrow> read_field 9 into_u64 cpd;
       (royalty_y, cpd) \<leftarrow> read_field 10 into_u64 cpd;
       (treasury_address, cpd) \<leftarrow> read_field 12 into_bytes cpd;
       (royalty_pub_key, cpd) \<leftarrow> read_field 13 into_bytes cpd;
       (nonce, cpd) \<leftarrow> read_field 14 into_u64 cpd;
       Some \<lparr> yc_pool_nft = pool_nft, yc_asset_x = asset_x, yc_asset_y = asset_y, yc_asset_lq = asset_lq,
         yc_lp_fee_num = lp_fee_num, yc_treasury_fee_num = treasury_fee_num,
         yc_royalty_fee_num = royalty_fee_num, yc_treasury_x = treasury_x, yc_treasury_y = treasury_y,
         yc_royalty_x = royalty_x, yc_royalty_y = royalty_y, yc_admin_address = admin_address,
         yc_treasury_address = treasury_address, yc_royalty_pub_key = royalty_pub_key, yc_nonce = nonce \<rparr>
     }"

definition unsafe_update_pd_royalty ::
    "plutus_data \<Rightarrow> u64 \<Rightarrow> u64 \<Rightarrow> u64 \<Rightarrow> u64 \<Rightarrow> u64 \<Rightarrow> u64 \<Rightarrow> u64 \<Rightarrow> hash28 \<Rightarrow> hash28 \<Rightarrow> u64 \<Rightarrow>
     plutus_data option" where
  "unsafe_update_pd_royalty data lp_fee_num treasury_fee_num royalty_fee_num treasury_x treasury_y royalty_x
     royalty_y treasury_address admin_address new_nonce =
     do {
       let admin_addresses = [ic_from_script_hash admin_address];
       (alternative, cpd) \<leftarrow> into_constr_pd data;
       cpd \<leftarrow> set_field 4 (u64_into_pd lp_fee_num) cpd;
       cpd \<leftarrow> set_field 5 (u64_into_pd treasury_fee_num) cpd;
       cpd \<leftarrow> set_field 6 (u64_into_pd royalty_fee_num) cpd;
       cpd \<leftarrow> set_field 7 (u64_into_pd treasury_x) cpd;
       cpd \<leftarrow> set_field 8 (u64_into_pd treasury_y) cpd;
       cpd \<leftarrow> set_field 9 (u64_into_pd royalty_x) cpd;
       cpd \<leftarrow> set_field 10 (u64_into_pd royalty_y) cpd;
       cpd \<leftarrow> set_field 11 (vec_into_pd ic_into_pd admin_addresses) cpd;
       cpd \<leftarrow> set_field 12 (bytes_into_pd (hash28_bytes treasury_address)) cpd;
       cpd \<leftarrow> set_field 14 (u64_into_pd new_nonce) cpd;
       Some (ConstrPd alternative cpd)
     }"

record royalty_pool_v2_config =
  zc_pool_nft :: asset_class
  zc_asset_x :: asset_class
  zc_asset_y :: asset_class
  zc_asset_lq :: asset_class
  zc_lp_fee_num :: u64
  zc_treasury_fee_num :: u64
  zc_first_royalty_fee_num :: u64
  zc_second_royalty_fee_num :: u64
  zc_treasury_x :: u64
  zc_treasury_y :: u64
  zc_first_royalty_x :: u64
  zc_first_royalty_y :: u64
  zc_second_royalty_x :: u64
  zc_second_royalty_y :: u64
  zc_admin_address :: hash28
  zc_treasury_address :: bytes
  zc_first_royalty_pub_key :: bytes
  zc_second_royalty_pub_key :: bytes
  zc_nonce :: u64

text \<open>The places are those of \<open>ROYALTY_V2_DATUM_MAPPING\<close>.\<close>

definition royalty_pool_v2_config_try_from_pd :: "plutus_data \<Rightarrow> royalty_pool_v2_config option" where
  "royalty_pool_v2_config_try_from_pd data =
     do {
       (_, cpd) \<leftarrow> into_constr_pd data;
       (admin_address, _) \<leftarrow> read_field 14 first_script_hash cpd;
       (pool_nft, cpd) \<leftarrow> read_field 0 ac_try_from_pd cpd;
       (asset_x, cpd) \<leftarrow> read_field 1 ac_try_from_pd cpd;
       (asset_y, cpd) \<leftarrow> read_field 2 ac_try_from_pd cpd;
       (asset_lq, cpd) \<leftarrow> read_field 3 ac_try_from_pd cpd;
       (lp_fee_num, cpd) \<leftarrow> read_field 4 into_u64 cpd;
       (treasury_fee_num, cpd) \<leftarrow> read_field 5 into_u64 cpd;
       (first_royalty_fee_num, cpd) \<leftarrow> read_field 6 into_u64 cpd;
       (second_royalty_fee_num, cpd) \<leftarrow> read_field 7 into_u64 cpd;
       (treasury_x, cpd) \<leftarrow> read_field 8 into_u64 cpd;
       (treasury_y, cpd) \<leftarrow> read_field 9 into_u64 cpd;
       (first_royalty_x, cpd) \<leftarrow> read_field 10 into_u64 cpd;
       (first_royalty_y, cpd) \<leftarrow> read_field 11 into_u64 cpd;
       (second_royalty_x, cpd) \<leftarrow> read_field 12 into_u64 cpd;
       (second_royalty_y, cpd) \<leftarrow> read_field 13 into_u64 cpd;
       (treasury_address, cpd) \<leftarrow> read_field 15 into_bytes cpd;
       (first_royalty_pub_key, cpd) \<leftarrow> read_field 16 into_bytes cpd;
       (second_royalty_pub_key, cpd) \<leftarrow> read_field 17 into_bytes cpd;
       (nonce, cpd) \<leftarrow> read_field 18 into_u64 cpd;
       Some \<lparr> zc_pool_nft = pool_nft, zc_asset_x = asset_x, zc_asset_y = asset_y, zc_asset_lq = asset_lq,
         zc_lp_fee_num = lp_fee_num, zc_treasury_fee_num = treasury_fee_num,
         zc_first_royalty_fee_num = first_royalty_fee_num, zc_second_royalty_fee_num = second_royalty_fee_num,
         zc_treasury_x = treasury_x, zc_treasury_y = treasury_y, zc_first_royalty_x = first_royalty_x,
         zc_first_royalty_y = first_royalty_y, zc_second_royalty_x = second_royalty_x,
         zc_second_royalty_y = second_royalty_y, zc_admin_address = admin_address,
         zc_treasury_address = treasury_address, zc_first_royalty_pub_key = first_royalty_pub_key,
         zc_second_royalty_pub_key = second_royalty_pub_key, zc_nonce = nonce \<rparr>
     }"

definition unsafe_update_pd_royalty_v2 ::
    "plutus_data \<Rightarrow> u64 \<Rightarrow> u64 \<Rightarrow> u64 \<Rightarrow> u64 \<Rightarrow> u64 \<Rightarrow> u64 \<Rightarrow> u64 \<Rightarrow> u64 \<Rightarrow> u64 \<Rightarrow> u64 \<Rightarrow> hash28 \<Rightarrow> hash28 \<Rightarrow> u64 \<Rightarrow>
     plutus_data option" where
  "unsafe_update_pd_royalty_v2 data lp_fee_num treasury_fee_num first_royalty_fee_num second_royalty_fee_num
     treasury_x treasury_y first_royalty_x first_royalty_y second_royalty_x second_royalty_y treasury_address
     admin_address new_nonce =
     do {
       let admin_addresses = [ic_from_script_hash admin_address];
       (alternative, cpd) \<leftarrow> into_constr_pd data;
       cpd \<leftarrow> set_field 4 (u64_into_pd lp_fee_num) cpd;
       cpd \<leftarrow> set_field 5 (u64_into_pd treasury_fee_num) cpd;
       cpd \<leftarrow> set_field 6 (u64_into_pd first_royalty_fee_num) cpd;
       cpd \<leftarrow> set_field 7 (u64_into_pd second_royalty_fee_num) cpd;
       cpd \<leftarrow> set_field 8 (u64_into_pd treasury_x) cpd;
       cpd \<leftarrow> set_field 9 (u64_into_pd treasury_y) cpd;
       cpd \<leftarrow> set_field 10 (u64_into_pd first_royalty_x) cpd;
       cpd \<leftarrow> set_field 11 (u64_into_pd first_royalty_y) cpd;
       cpd \<leftarrow> set_field 12 (u64_into_pd second_royalty_x) cpd;
       cpd \<leftarrow> set_field 13 (u64_into_pd second_royalty_y) cpd;
       cpd \<leftarrow> set_field 14 (vec_into_pd ic_into_pd admin_addresses) cpd;
       cpd \<leftarrow> set_field 15 (bytes_into_pd (hash28_bytes treasury_address)) cpd;
       cpd \<leftarrow> set_field 18 (u64_into_pd new_nonce) cpd;
       Some (ConstrPd alternative cpd)
     }"

subsection \<open>The pool\<close>

datatype royalty_pool_ver = RyV1 | RyV1LedgerFixed | RyV2

definition royalty_ver_try_from_address :: "script_infos \<Rightarrow> address \<Rightarrow> royalty_pool_ver option" where
  "royalty_ver_try_from_address infos addr =
     (case script_hash addr of
        Some this_hash \<Rightarrow>
          if si_script_hash (infos RoyaltyPoolV1) = this_hash then Some RyV1
          else if si_script_hash (infos RoyaltyPoolV1LedgerFixed) = this_hash then Some RyV1LedgerFixed
          else if si_script_hash (infos RoyaltyPoolV2) = this_hash then Some RyV2
          else None
      | None \<Rightarrow> None)"

fun royalty_pool_validator :: "royalty_pool_ver \<Rightarrow> protocol_validator" where
  "royalty_pool_validator RyV1 = RoyaltyPoolV1"
| "royalty_pool_validator RyV1LedgerFixed = RoyaltyPoolV1LedgerFixed"
| "royalty_pool_validator RyV2 = RoyaltyPoolV2"

record royalty_pool =
  rp_id :: token
  rp_reserves_x :: u64
  rp_reserves_y :: u64
  rp_liquidity :: u64
  rp_asset_x :: asset_class
  rp_asset_y :: asset_class
  rp_asset_lq :: asset_class
  rp_lp_fee :: fee_ratio
  rp_treasury_fee :: fee_ratio
  rp_treasury_x :: u64
  rp_treasury_y :: u64
  rp_first_royalty_fee :: fee_ratio
  rp_second_royalty_fee :: fee_ratio
  rp_first_royalty_x :: u64
  rp_first_royalty_y :: u64
  rp_second_royalty_x :: u64
  rp_second_royalty_y :: u64
  rp_lq_lower_bound :: u64
  rp_admin_address :: hash28
  rp_treasury_address :: hash28
  rp_first_royalty_pub_key :: bytes
  rp_second_royalty_pub_key :: bytes
  rp_ver :: royalty_pool_ver
  rp_marginal_cost :: ex_units
  rp_bounds :: pool_validation
  rp_nonce :: u64
  rp_stake_part_script_hash :: "hash28 option"

definition rp_get_validator :: "validators \<Rightarrow> royalty_pool \<Rightarrow> deployed_validator_erased" where
  "rp_get_validator vs p = erased (vs (royalty_pool_validator (rp_ver p)))"

definition public_key_try_from :: "bytes \<Rightarrow> bytes option" where
  "public_key_try_from bs = (if length bs = 32 then Some bs else None)"

text \<open>The pool of a datum that reads, the two branches of the match on the version.\<close>

definition rp_from_config :: "pool_cx \<Rightarrow> tx_output \<Rightarrow> royalty_pool_ver \<Rightarrow> royalty_pool_config \<Rightarrow> royalty_pool option" where
  "rp_from_config cx out pool_ver conf =
     (let value = output_value out; bounds = pc_bounds cx in
      do {
        liquidity_neg \<leftarrow> amount_in value (yc_asset_lq conf);
        lov \<leftarrow> amount_in value Native;
        reserves_x \<leftarrow> amount_in value (yc_asset_x conf);
        reserves_y \<leftarrow> amount_in value (yc_asset_y conf);
        if reserves_ok bounds (yc_asset_x conf) (yc_asset_y conf) lov reserves_x reserves_y
             (yc_treasury_x conf + yc_royalty_x conf) (yc_treasury_y conf + yc_royalty_y conf)
        then do {
          pool_id \<leftarrow> ac_into_token (yc_pool_nft conf);
          treasury_address \<leftarrow> hash28_from_raw_bytes (yc_treasury_address conf);
          first_key \<leftarrow> public_key_try_from (yc_royalty_pub_key conf);
          Some \<lparr> rp_id = pool_id, rp_reserves_x = reserves_x, rp_reserves_y = reserves_y,
            rp_liquidity = max_lq_cap - liquidity_neg, rp_asset_x = yc_asset_x conf,
            rp_asset_y = yc_asset_y conf, rp_asset_lq = yc_asset_lq conf,
            rp_lp_fee = (yc_lp_fee_num conf, fee_den), rp_treasury_fee = (yc_treasury_fee_num conf, fee_den),
            rp_treasury_x = yc_treasury_x conf, rp_treasury_y = yc_treasury_y conf,
            rp_first_royalty_fee = (yc_royalty_fee_num conf, fee_den), rp_second_royalty_fee = (0, 100),
            rp_first_royalty_x = yc_royalty_x conf, rp_first_royalty_y = yc_royalty_y conf,
            rp_second_royalty_x = 0, rp_second_royalty_y = 0, rp_lq_lower_bound = 0,
            rp_admin_address = yc_admin_address conf, rp_treasury_address = treasury_address,
            rp_first_royalty_pub_key = first_key, rp_second_royalty_pub_key = replicate 32 0,
            rp_ver = pool_ver, rp_marginal_cost = si_marginal_cost (pc_scripts cx (royalty_pool_validator pool_ver)), rp_bounds = bounds,
            rp_nonce = yc_nonce conf, rp_stake_part_script_hash = stake_part_of (output_address out) \<rparr>
        }
        else None
      })"

definition rp_from_v2_config :: "pool_cx \<Rightarrow> tx_output \<Rightarrow> royalty_pool_ver \<Rightarrow> royalty_pool_v2_config \<Rightarrow> royalty_pool option" where
  "rp_from_v2_config cx out pool_ver conf =
     (let value = output_value out; bounds = pc_bounds cx in
      do {
        liquidity_neg \<leftarrow> amount_in value (zc_asset_lq conf);
        lov \<leftarrow> amount_in value Native;
        reserves_x \<leftarrow> amount_in value (zc_asset_x conf);
        reserves_y \<leftarrow> amount_in value (zc_asset_y conf);
        if reserves_ok bounds (zc_asset_x conf) (zc_asset_y conf) lov reserves_x reserves_y
             (zc_treasury_x conf + zc_first_royalty_x conf + zc_second_royalty_x conf)
             (zc_treasury_y conf + zc_first_royalty_y conf + zc_second_royalty_y conf)
        then do {
          pool_id \<leftarrow> ac_into_token (zc_pool_nft conf);
          treasury_address \<leftarrow> hash28_from_raw_bytes (zc_treasury_address conf);
          first_key \<leftarrow> public_key_try_from (zc_first_royalty_pub_key conf);
          second_key \<leftarrow> public_key_try_from (zc_second_royalty_pub_key conf);
          Some \<lparr> rp_id = pool_id, rp_reserves_x = reserves_x, rp_reserves_y = reserves_y,
            rp_liquidity = max_lq_cap - liquidity_neg, rp_asset_x = zc_asset_x conf,
            rp_asset_y = zc_asset_y conf, rp_asset_lq = zc_asset_lq conf,
            rp_lp_fee = (zc_lp_fee_num conf, fee_den), rp_treasury_fee = (zc_treasury_fee_num conf, fee_den),
            rp_treasury_x = zc_treasury_x conf, rp_treasury_y = zc_treasury_y conf,
            rp_first_royalty_fee = (zc_first_royalty_fee_num conf, fee_den),
            rp_second_royalty_fee = (zc_second_royalty_fee_num conf, fee_den),
            rp_first_royalty_x = zc_first_royalty_x conf, rp_first_royalty_y = zc_first_royalty_y conf,
            rp_second_royalty_x = zc_second_royalty_x conf, rp_second_royalty_y = zc_second_royalty_y conf,
            rp_lq_lower_bound = 0, rp_admin_address = zc_admin_address conf,
            rp_treasury_address = treasury_address, rp_first_royalty_pub_key = first_key,
            rp_second_royalty_pub_key = second_key, rp_ver = pool_ver, rp_marginal_cost = si_marginal_cost (pc_scripts cx (royalty_pool_validator pool_ver)),
            rp_bounds = bounds, rp_nonce = zc_nonce conf, rp_stake_part_script_hash = stake_part_of (output_address out) \<rparr>
        }
        else None
      })"

definition rp_try_from_ledger :: "pool_cx \<Rightarrow> tx_output \<Rightarrow> royalty_pool option" where
  "rp_try_from_ledger cx out =
     do {
       pool_ver \<leftarrow> royalty_ver_try_from_address (pc_scripts cx) (output_address out);
       pd \<leftarrow> output_pd cx out;
       if pool_ver \<noteq> RyV2
       then do {
         conf \<leftarrow> royalty_pool_config_try_from_pd pd;
         rp_from_config cx out pool_ver conf
       }
       else do {
         conf \<leftarrow> royalty_pool_v2_config_try_from_pd pd;
         rp_from_v2_config cx out pool_ver conf
       }
     }"

text \<open>The datum that carries a royalty pool's state.\<close>

definition rp_update_pd :: "royalty_pool \<Rightarrow> plutus_data \<Rightarrow> plutus_data option" where
  "rp_update_pd p pd =
     (if rp_ver p \<noteq> RyV2
      then unsafe_update_pd_royalty pd (fst (rp_lp_fee p)) (fst (rp_treasury_fee p))
        (fst (rp_first_royalty_fee p)) (rp_treasury_x p) (rp_treasury_y p) (rp_first_royalty_x p)
        (rp_first_royalty_y p) (rp_treasury_address p) (rp_admin_address p) (rp_nonce p)
      else unsafe_update_pd_royalty_v2 pd (fst (rp_lp_fee p)) (fst (rp_treasury_fee p))
        (fst (rp_first_royalty_fee p)) (fst (rp_second_royalty_fee p)) (rp_treasury_x p) (rp_treasury_y p)
        (rp_first_royalty_x p) (rp_first_royalty_y p) (rp_second_royalty_x p) (rp_second_royalty_y p)
        (rp_treasury_address p) (rp_admin_address p) (rp_nonce p))"

definition rp_into_ledger ::
    "(bytes \<Rightarrow> plutus_data) \<Rightarrow> (plutus_data \<Rightarrow> bytes) \<Rightarrow> royalty_pool \<Rightarrow> immutable_pool_utxo \<Rightarrow>
     tx_output option" where
  "rp_into_ledger decode encode p immut_pool =
     do {
       amount \<leftarrow> pool_value (rp_asset_x p) (rp_reserves_x p) (rp_asset_y p) (rp_reserves_y p) (rp_asset_lq p)
         (rp_liquidity p) (rp_id p) (ip_value immut_pool);
       datum \<leftarrow> rewrite_datum decode encode (rp_update_pd p) (ip_datum_option immut_pool);
       Some (ConwayFormatTxOut (pool_address (rp_stake_part_script_hash p) (ip_address immut_pool)) amount
         datum (ip_script_reference immut_pool))
     }"

subsection \<open>Mathematics\<close>

definition rp_tradable_x :: "royalty_pool \<Rightarrow> u64" where
  "rp_tradable_x p = rp_reserves_x p - rp_treasury_x p - rp_first_royalty_x p - rp_second_royalty_x p"

definition rp_tradable_y :: "royalty_pool \<Rightarrow> u64" where
  "rp_tradable_y p = rp_reserves_y p - rp_treasury_y p - rp_first_royalty_y p - rp_second_royalty_y p"

definition rp_trade_fee :: "ratio_sub \<Rightarrow> royalty_pool \<Rightarrow> fee_ratio" where
  "rp_trade_fee sub p =
     sub (sub (sub (rp_lp_fee p) (rp_treasury_fee p)) (rp_first_royalty_fee p)) (rp_second_royalty_fee p)"

definition rp_output_amount :: "ratio_sub \<Rightarrow> royalty_pool \<Rightarrow> asset_class \<Rightarrow> u64 \<Rightarrow> u64 option" where
  "rp_output_amount sub p base_asset base_amount =
     classic_cfmm_output_amount (rp_asset_x p) (rp_asset_y p) (rp_tradable_x p) (rp_tradable_y p)
       base_asset base_amount (rp_trade_fee sub p) (rp_trade_fee sub p)"

definition rp_reward_lp :: "royalty_pool \<Rightarrow> u64 \<Rightarrow> u64 \<Rightarrow> (u64 \<times> u64 \<times> u64) option" where
  "rp_reward_lp p in_x_amount in_y_amount =
     classic_cfmm_reward_lp (rp_tradable_x p) (rp_tradable_y p) (rp_liquidity p) in_x_amount in_y_amount"

definition rp_shares_amount :: "royalty_pool \<Rightarrow> u64 \<Rightarrow> (u64 \<times> u64) option" where
  "rp_shares_amount p burned_lq =
     classic_cfmm_shares_amount (rp_tradable_x p) (rp_tradable_y p) (rp_liquidity p) burned_lq"

subsection \<open>As a maker\<close>

definition rp_side_output :: "ratio_sub \<Rightarrow> royalty_pool \<Rightarrow> u64 on_side \<Rightarrow> u64 option" where
  "rp_side_output sub p input = pool_side_output (rp_asset_x p) (rp_asset_y p) (rp_output_amount sub p) input"

definition rp_swap :: "ratio_sub \<Rightarrow> u64 on_side \<Rightarrow> royalty_pool \<Rightarrow> royalty_pool option" where
  "rp_swap sub input p =
     do {
       output \<leftarrow> rp_side_output sub p input;
       let i = os_unwrap input;
       treasury \<leftarrow> accrue i (rp_treasury_fee p);
       first_royalty \<leftarrow> accrue i (rp_first_royalty_fee p);
       second_royalty \<leftarrow> accrue i (rp_second_royalty_fee p);
       Some (if input_is_x (rp_asset_x p) (rp_asset_y p) input
         then p\<lparr>rp_reserves_x := rp_reserves_x p + i, rp_reserves_y := rp_reserves_y p - output,
                rp_treasury_x := rp_treasury_x p + treasury,
                rp_first_royalty_x := rp_first_royalty_x p + first_royalty,
                rp_second_royalty_x := rp_second_royalty_x p + second_royalty\<rparr>
         else p\<lparr>rp_reserves_y := rp_reserves_y p + i, rp_reserves_x := rp_reserves_x p - output,
                rp_treasury_y := rp_treasury_y p + treasury,
                rp_first_royalty_y := rp_first_royalty_y p + first_royalty,
                rp_second_royalty_y := rp_second_royalty_y p + second_royalty\<rparr>)
     }"

definition rp_static_price :: "royalty_pool \<Rightarrow> price" where
  "rp_static_price p = pool_static_price (rp_asset_x p) (rp_asset_y p) (rp_tradable_x p) (rp_tradable_y p)"

definition rp_real_price :: "ratio_sub \<Rightarrow> u64 on_side \<Rightarrow> royalty_pool \<Rightarrow> price option option" where
  "rp_real_price sub input p = pool_real_price (rp_side_output sub p) input"

definition rp_quality :: "royalty_pool \<Rightarrow> nat" where
  "rp_quality p = unat (rp_liquidity p)"

definition rp_marginal_cost_hint :: "royalty_pool \<Rightarrow> ex_units" where
  "rp_marginal_cost_hint p = rp_marginal_cost p"

definition rp_reserves :: "royalty_pool \<Rightarrow> reserves" where
  "rp_reserves p = pool_reserves (rp_asset_x p) (rp_asset_y p) (rp_reserves_x p) (rp_reserves_y p)"

definition rp_available_liquidity_on_side ::
    "(price on_side \<Rightarrow> royalty_pool \<Rightarrow> (u64 \<times> u64) option) \<Rightarrow> price on_side \<Rightarrow> royalty_pool \<Rightarrow>
     available_liquidity option" where
  "rp_available_liquidity_on_side decimal_liquidity worst_price p =
     pool_available_liquidity (rp_asset_x p) (rp_asset_y p) (rp_tradable_x p) (rp_tradable_y p)
       (decimal_liquidity worst_price p) worst_price"

definition rp_estimated_trade ::
    "ratio_sub \<Rightarrow> u64 on_side \<Rightarrow> royalty_pool \<Rightarrow> available_liquidity option option" where
  "rp_estimated_trade sub input p = pool_estimated_trade (rp_side_output sub p) input"

definition rp_is_active :: "royalty_pool \<Rightarrow> bool" where
  "rp_is_active p =
     pool_is_active (rp_asset_x p) (rp_asset_y p) (rp_reserves_x p) (rp_reserves_y p) (rp_lq_lower_bound p)
       (rp_bounds p)"

end
