(* ===== verification/Royalty_Orders.thy ===== *)
theory Royalty_Orders
  imports Royalty_Pool
begin

text \<open>
  The two signed operations of the royalty pool,
  packages/spectrum-offchain-cardano/src/data/cfmm_pool/royalty_pool.rs: the withdrawal of an
  accrued royalty, signed by the owner of the royalty, and an action of the DAO, signed by a
  threshold of its members. A panic is \<open>None\<close>, an error of the operation is \<open>Inl\<close>.
\<close>

type_synonym ('o, 'p, 'r) applied = "('o apply_order_error + 'p \<times> 'r operation_result_blueprint) option"

text \<open>A failed checked operation makes the order incompatible.\<close>

definition or_incompatible :: "'o \<Rightarrow> 'a option \<Rightarrow> 'o apply_order_error + 'a" where
  "or_incompatible ord r = (case r of Some a \<Rightarrow> Inr a | None \<Rightarrow> Inl (Incompatible ord))"

definition aiken_bool :: "bool \<Rightarrow> plutus_data" where
  "aiken_bool b = (if b then ConstrPd 1 [] else ConstrPd 0 [])"

subsection \<open>Withdrawal of a royalty\<close>

text \<open>Whether the signature is of the message or of its hash.\<close>

definition signed_form :: "crypto_ops \<Rightarrow> bytes \<Rightarrow> bytes \<Rightarrow> bytes \<Rightarrow> bytes \<Rightarrow> bool option" where
  "signed_form Y key message hashed_message signature =
     (if cy_verify Y key message signature then Some False
      else if cy_verify Y key hashed_message signature then Some True
      else None)"

definition messages_to_sign :: "crypto_ops \<Rightarrow> royalty_withdraw \<Rightarrow> u64 \<Rightarrow> (bytes \<times> bytes) option" where
  "messages_to_sign Y req pool_nonce =
     do {
       pd \<leftarrow> data_to_sign_into_pd \<lparr> ds_withdraw_data = into_withdraw_data req, ds_pool_nonce = pool_nonce \<rparr>;
       let message_to_sign = ry_additional_bytes req @ cy_to_cbor Y pd;
       let hashed_message_to_sign = ry_additional_bytes req @ cy_blake2b224 Y (cy_to_cbor Y pd);
       Some (message_to_sign, hashed_message_to_sign)
     }"

definition withdraw_first :: "royalty_withdraw \<Rightarrow> royalty_pool \<Rightarrow> royalty_pool option" where
  "withdraw_first req p =
     do {
       royalty_x \<leftarrow> checked_sub (rp_first_royalty_x p) (ry_withdraw_royalty_x req);
       royalty_y \<leftarrow> checked_sub (rp_first_royalty_y p) (ry_withdraw_royalty_y req);
       reserves_x \<leftarrow> checked_sub (rp_reserves_x p) (ry_withdraw_royalty_x req);
       reserves_y \<leftarrow> checked_sub (rp_reserves_y p) (ry_withdraw_royalty_y req);
       Some (p\<lparr>rp_first_royalty_x := royalty_x, rp_first_royalty_y := royalty_y,
         rp_reserves_x := reserves_x, rp_reserves_y := reserves_y, rp_nonce := rp_nonce p + 1\<rparr>)
     }"

definition withdraw_second :: "royalty_withdraw \<Rightarrow> royalty_pool \<Rightarrow> royalty_pool option" where
  "withdraw_second req p =
     do {
       royalty_x \<leftarrow> checked_sub (rp_second_royalty_x p) (ry_withdraw_royalty_x req);
       royalty_y \<leftarrow> checked_sub (rp_second_royalty_y p) (ry_withdraw_royalty_y req);
       reserves_x \<leftarrow> checked_sub (rp_reserves_x p) (ry_withdraw_royalty_x req);
       reserves_y \<leftarrow> checked_sub (rp_reserves_y p) (ry_withdraw_royalty_y req);
       Some (p\<lparr>rp_second_royalty_x := royalty_x, rp_second_royalty_y := royalty_y,
         rp_reserves_x := reserves_x, rp_reserves_y := reserves_y, rp_nonce := rp_nonce p + 1\<rparr>)
     }"

definition royalty_output_of :: "royalty_withdraw \<Rightarrow> royalty_pool \<Rightarrow> royalty_withdraw_output" where
  "royalty_output_of req p =
     \<lparr> rw_token_x_asset = rp_asset_x p, rw_token_x_amount = ry_withdraw_royalty_x req,
       rw_token_y_asset = rp_asset_y p, rw_token_y_amount = ry_withdraw_royalty_y req,
       rw_ada_residue = ry_init_ada_value req - ry_fee req,
       rw_redeemer_pkh = ry_royalty_pub_key_hash req \<rparr>"

fun royalty_withdraw_validator :: "royalty_pool_ver \<Rightarrow> protocol_validator" where
  "royalty_withdraw_validator RyV1 = RoyaltyPoolRoyaltyWithdraw"
| "royalty_withdraw_validator RyV1LedgerFixed = RoyaltyPoolRoyaltyWithdrawLedgerFixed"
| "royalty_withdraw_validator RyV2 = RoyaltyPoolRoyaltyWithdrawV2"

definition apply_royalty_withdraw ::
    "crypto_ops \<Rightarrow> validators \<Rightarrow> u64 \<Rightarrow> royalty_withdraw classical_order \<Rightarrow> royalty_pool \<Rightarrow>
     (royalty_withdraw classical_order, royalty_pool, royalty_withdraw_output) applied" where
  "apply_royalty_withdraw Y vs transaction_fee royalty_withdraw p =
     (let req = co_order royalty_withdraw in
      do {
        order_validator \<leftarrow> royalty_get_validator vs royalty_withdraw;
        let pool_order_validator = erased (vs (royalty_withdraw_validator (rp_ver p)));
        (message, hashed_message) \<leftarrow> messages_to_sign Y req (rp_nonce p);
        let blueprint = (\<lambda>redeemer. \<lparr> bp_outputs = SingleOutput (royalty_output_of req p),
          bp_witness_script = Some (pool_order_validator, redeemer), bp_order_script_validator = order_validator,
          bp_strict_fee = Some transaction_fee \<rparr>);
        if rp_ver p \<noteq> RyV2
        then do {
          public_key \<leftarrow> cy_public_key Y (rp_first_royalty_pub_key p);
          Some (case signed_form Y public_key message hashed_message (ry_signature req) of
              None \<Rightarrow> Inl (VerificationFailed royalty_withdraw (lit ''signature_is_incorrect''))
            | Some hashed \<Rightarrow>
                map_sum id (\<lambda>p'. (p', blueprint
                    (if rp_ver p = RyV1
                     then (\<lambda>pool_ix order_ix. ConstrPd 0 [IntPd (uint pool_ix), IntPd (uint order_ix)])
                     else (\<lambda>pool_ix order_ix.
                       ConstrPd 0 [IntPd (uint pool_ix), IntPd (uint order_ix), aiken_bool hashed]))))
                  (or_incompatible royalty_withdraw (withdraw_first req p)))
        }
        else do {
          first_key \<leftarrow> cy_public_key Y (rp_first_royalty_pub_key p);
          second_key \<leftarrow> cy_public_key Y (rp_second_royalty_pub_key p);
          let verified =
            (case signed_form Y first_key message hashed_message (ry_signature req) of
               Some hashed \<Rightarrow> Some (0 :: int, hashed)
             | None \<Rightarrow> map_option (Pair 1) (signed_form Y second_key message hashed_message (ry_signature req)));
          Some (case verified of
              None \<Rightarrow> Inl (VerificationFailed royalty_withdraw (lit ''signature is incorrect for both keys''))
            | Some (public_key_idx, hashed) \<Rightarrow>
                map_sum id (\<lambda>p'. (p', blueprint (\<lambda>pool_ix order_ix.
                    ConstrPd 0 [IntPd (uint pool_ix), IntPd (uint order_ix), IntPd public_key_idx,
                      aiken_bool hashed])))
                  (or_incompatible royalty_withdraw
                    (if public_key_idx = 0 then withdraw_first req p else withdraw_second req p)))
        }
      })"

subsection \<open>Actions of the DAO\<close>

record dao_cx =
  dx_public_keys :: "bytes list"
  dx_signature_threshold :: u64
  dx_execution_fee :: u64

definition dao_data_to_sign ::
    "validators \<Rightarrow> dao_v1_request \<Rightarrow> royalty_pool \<Rightarrow> dao_request_data_to_sign" where
  "dao_data_to_sign vs req p =
     \<lparr> dd_dao_action = dq_dao_action req, dd_pool_nft = dq_pool_nft req, dd_pool_fee = fst (dq_pool_fee req),
       dd_treasury_fee = fst (dq_treasury_fee req),
       dd_admin_address = [ic_from_script_hash (dq_admin_address req)],
       dd_pool_address = \<lparr> pa_payment_cred =
           Script (dv_hash (vs (if rp_ver p = RyV2 then RoyaltyPoolV1 else RoyaltyPoolV2))),
         pa_stake_cred = map_option ic_from_script_hash (dq_pool_stake_script_hash req) \<rparr>,
       dd_treasury_address = dq_treasury_address req,
       dd_treasury_x_delta = - dq_treasury_x_abs_delta req, dd_treasury_y_delta = - dq_treasury_y_abs_delta req,
       dd_pool_nonce = rp_nonce p \<rparr>"

text \<open>The signatures that verify, each with the key and the message at its place.\<close>

definition correct_signatures :: "crypto_ops \<Rightarrow> bytes list \<Rightarrow> bytes list \<Rightarrow> bytes list \<Rightarrow> nat" where
  "correct_signatures Y signatures public_keys messages =
     length (filter (\<lambda>((signature, public_key_raw), message).
         case cy_public_key Y public_key_raw of
           Some public_key \<Rightarrow> cy_verify Y public_key message signature
         | None \<Rightarrow> False)
       (zip (zip signatures public_keys) messages))"

definition withdraw_treasury :: "dao_v1_request \<Rightarrow> royalty_pool \<Rightarrow> royalty_pool option" where
  "withdraw_treasury req p =
     do {
       reserves_x \<leftarrow> checked_sub (rp_reserves_x p) (dq_treasury_x_abs_delta req);
       treasury_x \<leftarrow> checked_sub (rp_treasury_x p) (dq_treasury_x_abs_delta req);
       reserves_y \<leftarrow> checked_sub (rp_reserves_y p) (dq_treasury_y_abs_delta req);
       treasury_y \<leftarrow> checked_sub (rp_treasury_y p) (dq_treasury_y_abs_delta req);
       Some (p\<lparr>rp_reserves_x := reserves_x, rp_treasury_x := treasury_x, rp_reserves_y := reserves_y,
         rp_treasury_y := treasury_y\<rparr>)
     }"

definition perform_action :: "dao_v1_request \<Rightarrow> royalty_pool \<Rightarrow> royalty_pool option" where
  "perform_action req p =
     (case dq_dao_action req of
        WithdrawTreasury \<Rightarrow> withdraw_treasury req p
      | ChangeStakePart \<Rightarrow> Some (p\<lparr>rp_stake_part_script_hash := dq_pool_stake_script_hash req\<rparr>)
      | ChangeTreasuryFee \<Rightarrow> Some (p\<lparr>rp_treasury_fee := dq_treasury_fee req\<rparr>)
      | ChangeTreasuryAddress \<Rightarrow> Some (p\<lparr>rp_treasury_address := dq_treasury_address req\<rparr>)
      | ChangeAdminAddress \<Rightarrow> Some (p\<lparr>rp_admin_address := dq_admin_address req\<rparr>)
      | ChangePoolFee \<Rightarrow> Some (p\<lparr>rp_lp_fee := dq_pool_fee req\<rparr>))"

definition dao_redeemer :: "crypto_ops \<Rightarrow> dao_v1_request \<Rightarrow> redeemer_creator" where
  "dao_redeemer Y req pool_ix order_ix =
     ConstrPd 0 [dao_action_into_pd (dq_dao_action req), u64_into_pd pool_ix, u64_into_pd 0,
       ListPd (map (\<lambda>s. BytesPd (cy_signature_bytes Y s)) (dq_signatures req)),
       ListPd (map BytesPd (dq_additional_bytes req))]"

definition apply_dao_action ::
    "crypto_ops \<Rightarrow> validators \<Rightarrow> dao_cx \<Rightarrow> dao_v1_request classical_order \<Rightarrow> royalty_pool \<Rightarrow>
     (dao_v1_request classical_order, royalty_pool, dao_action_result) applied" where
  "apply_dao_action Y vs cx dao_request p =
     (let req = co_order dao_request;
          validator = dao_get_validator vs;
          dao_validator = erased (vs (if rp_ver p = RyV1 then RoyaltyPoolDAOV1 else RoyaltyPoolV2DAO))
      in do {
        pd \<leftarrow> dao_data_to_sign_into_pd (dao_data_to_sign vs req p);
        let messages = map (\<lambda>additional. additional @ cy_to_cbor Y pd) (dq_additional_bytes req);
        let qty = correct_signatures Y (dq_signatures req) (dx_public_keys cx) messages;
        Some (if qty < unat (dx_signature_threshold cx)
          then Inl (VerificationFailed dao_request
            (lit ''Incorrect signature threshold. Correct signatures qty: '' @ dec_digits qty @
             lit ''. Threshold: '' @ u64_display (dx_signature_threshold cx)))
          else or_incompatible dao_request
            (do {
              p' \<leftarrow> perform_action req p;
              lovelace_qty \<leftarrow> checked_sub (dq_lovelace req) (dq_fee req);
              let requestor = RequestorOutput \<lparr> dr_lovelace_qty = lovelace_qty,
                dr_requestor_address = Enterprise (PubKey (dq_requestor_pkh req)) \<rparr>;
              let p' = p'\<lparr>rp_nonce := rp_nonce p' + 1\<rparr>;
              let treasury = TreasuryWithdraw \<lparr> tw_token_x_asset = rp_asset_x p',
                tw_token_x_amount = dq_treasury_x_abs_delta req, tw_token_y_asset = rp_asset_y p',
                tw_token_y_amount = dq_treasury_y_abs_delta req, tw_ada_residue = 0,
                tw_treasury_script_hash = rp_treasury_address p' \<rparr>;
              Some (p', \<lparr> bp_outputs = (if dq_dao_action req = WithdrawTreasury
                  then outputs_multiple requestor [treasury] else SingleOutput requestor),
                bp_witness_script = Some (dao_validator, dao_redeemer Y req),
                bp_order_script_validator = validator, bp_strict_fee = Some (dx_execution_fee cx) \<rparr>)
            }))
      })"

end
