(* ===== verification/Const_Fn_Pool.thy ===== *)
theory Const_Fn_Pool
  imports Royalty_Orders
begin

text \<open>
  The union of the constant-product pools, \<open>ConstFnPool\<close> of
  packages/spectrum-offchain-cardano/src/data/cfmm_pool.rs: each operation is that of the pool it
  holds, and the four requests are applied to it. Running a request against a pool is that of
  data/pool.rs and data/order.rs up to the transaction builder of the ledger library: the new
  pool, the outputs in their order and the redeemers.
\<close>

datatype const_fn_pool = Classic classic_pool | FeeSwitch fee_switch_pool | Royalty royalty_pool

fun cf_asset_x :: "const_fn_pool \<Rightarrow> asset_class" where
  "cf_asset_x (Classic p) = cp_asset_x p"
| "cf_asset_x (FeeSwitch p) = fs_asset_x p"
| "cf_asset_x (Royalty p) = rp_asset_x p"

fun cf_asset_y :: "const_fn_pool \<Rightarrow> asset_class" where
  "cf_asset_y (Classic p) = cp_asset_y p"
| "cf_asset_y (FeeSwitch p) = fs_asset_y p"
| "cf_asset_y (Royalty p) = rp_asset_y p"

record pool_asset_mapping =
  am_asset_to_deduct_from :: asset_class
  am_asset_to_add_to :: asset_class

definition cf_asset_mapping :: "side \<Rightarrow> const_fn_pool \<Rightarrow> pool_asset_mapping" where
  "cf_asset_mapping s p =
     (let x = cf_asset_x p; y = cf_asset_y p; base = pool_base x y in
      if base = x
      then (case s of Bid \<Rightarrow> \<lparr> am_asset_to_deduct_from = x, am_asset_to_add_to = y \<rparr>
            | Ask \<Rightarrow> \<lparr> am_asset_to_deduct_from = y, am_asset_to_add_to = x \<rparr>)
      else (case s of Bid \<Rightarrow> \<lparr> am_asset_to_deduct_from = y, am_asset_to_add_to = x \<rparr>
            | Ask \<Rightarrow> \<lparr> am_asset_to_deduct_from = x, am_asset_to_add_to = y \<rparr>))"

fun cf_unsafe_datum_update :: "const_fn_pool \<Rightarrow> plutus_data \<Rightarrow> plutus_data option" where
  "cf_unsafe_datum_update (FeeSwitch p) pd = unsafe_update_pd_fee_switch pd (fs_treasury_x p) (fs_treasury_y p)"
| "cf_unsafe_datum_update (Royalty p) pd = rp_update_pd p pd"
| "cf_unsafe_datum_update (Classic p) pd = Some pd"

fun cf_output_amount :: "ratio_sub \<Rightarrow> const_fn_pool \<Rightarrow> asset_class \<Rightarrow> u64 \<Rightarrow> u64 option" where
  "cf_output_amount sub (Classic p) a n = cp_output_amount a n p"
| "cf_output_amount sub (FeeSwitch p) a n = fs_output_amount sub p a n"
| "cf_output_amount sub (Royalty p) a n = rp_output_amount sub p a n"

fun cf_reward_lp :: "const_fn_pool \<Rightarrow> u64 \<Rightarrow> u64 \<Rightarrow> (u64 \<times> u64 \<times> u64) option" where
  "cf_reward_lp (Classic p) in_x in_y = cp_reward_lp in_x in_y p"
| "cf_reward_lp (FeeSwitch p) in_x in_y = fs_reward_lp p in_x in_y"
| "cf_reward_lp (Royalty p) in_x in_y = rp_reward_lp p in_x in_y"

fun cf_shares_amount :: "const_fn_pool \<Rightarrow> u64 \<Rightarrow> (u64 \<times> u64) option" where
  "cf_shares_amount (Classic p) lq = cp_shares_amount lq p"
| "cf_shares_amount (FeeSwitch p) lq = fs_shares_amount p lq"
| "cf_shares_amount (Royalty p) lq = rp_shares_amount p lq"

fun cf_get_validator :: "validators \<Rightarrow> const_fn_pool \<Rightarrow> deployed_validator_erased" where
  "cf_get_validator vs (Classic p) = cp_get_validator vs p"
| "cf_get_validator vs (FeeSwitch p) = fs_get_validator vs p"
| "cf_get_validator vs (Royalty p) = rp_get_validator vs p"

fun cf_swap :: "ratio_sub \<Rightarrow> u64 on_side \<Rightarrow> const_fn_pool \<Rightarrow> const_fn_pool option" where
  "cf_swap sub input (Classic p) = map_option Classic (cp_swap input p)"
| "cf_swap sub input (FeeSwitch p) = map_option FeeSwitch (fs_swap sub input p)"
| "cf_swap sub input (Royalty p) = map_option Royalty (rp_swap sub input p)"

fun cf_static_price :: "const_fn_pool \<Rightarrow> price" where
  "cf_static_price (Classic p) = cp_static_price p"
| "cf_static_price (FeeSwitch p) = fs_static_price p"
| "cf_static_price (Royalty p) = rp_static_price p"

fun cf_real_price :: "ratio_sub \<Rightarrow> u64 on_side \<Rightarrow> const_fn_pool \<Rightarrow> price option option" where
  "cf_real_price sub input (Classic p) = cp_real_price input p"
| "cf_real_price sub input (FeeSwitch p) = fs_real_price sub input p"
| "cf_real_price sub input (Royalty p) = rp_real_price sub input p"

fun cf_quality :: "const_fn_pool \<Rightarrow> nat" where
  "cf_quality (Classic p) = cp_quality p"
| "cf_quality (FeeSwitch p) = fs_quality p"
| "cf_quality (Royalty p) = rp_quality p"

fun cf_marginal_cost_hint :: "const_fn_pool \<Rightarrow> ex_units" where
  "cf_marginal_cost_hint (Classic p) = cp_marginal_cost p"
| "cf_marginal_cost_hint (FeeSwitch p) = fs_marginal_cost_hint p"
| "cf_marginal_cost_hint (Royalty p) = rp_marginal_cost_hint p"

fun cf_is_active :: "const_fn_pool \<Rightarrow> bool" where
  "cf_is_active (Classic p) = cp_is_active p"
| "cf_is_active (FeeSwitch p) = fs_is_active p"
| "cf_is_active (Royalty p) = rp_is_active p"

fun cf_reserves :: "const_fn_pool \<Rightarrow> reserves" where
  "cf_reserves (Classic p) = cp_reserves p"
| "cf_reserves (FeeSwitch p) = fs_reserves p"
| "cf_reserves (Royalty p) = rp_reserves p"

record decimal_liquidities =
  dl_classic :: "price on_side \<Rightarrow> classic_pool \<Rightarrow> (u64 \<times> u64) option"
  dl_fee_switch :: "price on_side \<Rightarrow> fee_switch_pool \<Rightarrow> (u64 \<times> u64) option"
  dl_royalty :: "price on_side \<Rightarrow> royalty_pool \<Rightarrow> (u64 \<times> u64) option"

fun cf_available_liquidity_on_side ::
    "decimal_liquidities \<Rightarrow> price on_side \<Rightarrow> const_fn_pool \<Rightarrow> available_liquidity option" where
  "cf_available_liquidity_on_side D w (Classic p) = cp_available_liquidity_on_side (dl_classic D) w p"
| "cf_available_liquidity_on_side D w (FeeSwitch p) = fs_available_liquidity_on_side (dl_fee_switch D) w p"
| "cf_available_liquidity_on_side D w (Royalty p) = rp_available_liquidity_on_side (dl_royalty D) w p"

fun cf_estimated_trade ::
    "ratio_sub \<Rightarrow> u64 on_side \<Rightarrow> const_fn_pool \<Rightarrow> available_liquidity option option" where
  "cf_estimated_trade sub input (Classic p) = cp_estimated_trade input p"
| "cf_estimated_trade sub input (FeeSwitch p) = fs_estimated_trade sub input p"
| "cf_estimated_trade sub input (Royalty p) = rp_estimated_trade sub input p"

fun cf_stable_id :: "const_fn_pool \<Rightarrow> token" where
  "cf_stable_id (Classic p) = cp_id p"
| "cf_stable_id (FeeSwitch p) = fs_id p"
| "cf_stable_id (Royalty p) = rp_id p"

definition cf_is_quasi_permanent :: "const_fn_pool \<Rightarrow> bool" where
  "cf_is_quasi_permanent p = True"

definition cf_try_from_ledger :: "pool_cx \<Rightarrow> tx_output \<Rightarrow> const_fn_pool option" where
  "cf_try_from_ledger cx out =
     (case cp_try_from_ledger cx out of Some p \<Rightarrow> Some (Classic p) | None \<Rightarrow>
     (case fs_try_from_ledger cx out of Some p \<Rightarrow> Some (FeeSwitch p) | None \<Rightarrow>
       map_option Royalty (rp_try_from_ledger cx out)))"

fun cf_into_ledger ::
    "(bytes \<Rightarrow> plutus_data) \<Rightarrow> (plutus_data \<Rightarrow> bytes) \<Rightarrow> const_fn_pool \<Rightarrow> immutable_pool_utxo \<Rightarrow>
     tx_output option" where
  "cf_into_ledger decode encode (Classic p) immut_pool = cp_into_ledger p immut_pool"
| "cf_into_ledger decode encode (FeeSwitch p) immut_pool = fs_into_ledger decode encode p immut_pool"
| "cf_into_ledger decode encode (Royalty p) immut_pool = rp_into_ledger decode encode p immut_pool"

text \<open>As a maker of the liquidity book; an operation that panics does nothing there.\<close>

definition const_fn_maker ::
    "ratio_sub \<Rightarrow> decimal_liquidities \<Rightarrow> (const_fn_pool, token, ex_units) maker_ops" where
  "const_fn_maker sub D = \<lparr>
     mk_id = cf_stable_id, mk_static_price = cf_static_price,
     mk_real_price = (\<lambda>input p. Option.bind (cf_real_price sub input p) id),
     mk_quality = cf_quality, mk_marginal_cost_hint = cf_marginal_cost_hint, mk_liquidity = cf_reserves,
     mk_available_liquidity_on_side = cf_available_liquidity_on_side D,
     mk_estimated_trade = (\<lambda>input p. Option.bind (cf_estimated_trade sub input p) id),
     mk_is_active = cf_is_active,
     mk_swap = (\<lambda>input p. case cf_swap sub input p of Some p' \<Rightarrow> p' | None \<Rightarrow> p) \<rparr>"

subsection \<open>Reserves that deposits and redemptions change\<close>

text \<open>The two reserves and the liquidity, \<open>AbsolutePoolReserves\<close>.\<close>

fun cf_pool_reserves :: "const_fn_pool \<Rightarrow> u64 \<times> u64 \<times> u64" where
  "cf_pool_reserves (Classic p) = (cp_reserves_x p, cp_reserves_y p, cp_liquidity p)"
| "cf_pool_reserves (FeeSwitch p) = (fs_reserves_x p, fs_reserves_y p, fs_liquidity p)"
| "cf_pool_reserves (Royalty p) = (rp_reserves_x p, rp_reserves_y p, rp_liquidity p)"

fun cf_set_reserves :: "u64 \<times> u64 \<times> u64 \<Rightarrow> const_fn_pool \<Rightarrow> const_fn_pool" where
  "cf_set_reserves (x, y, lq) (Classic p) =
     Classic (p\<lparr>cp_reserves_x := x, cp_reserves_y := y, cp_liquidity := lq\<rparr>)"
| "cf_set_reserves (x, y, lq) (FeeSwitch p) =
     FeeSwitch (p\<lparr>fs_reserves_x := x, fs_reserves_y := y, fs_liquidity := lq\<rparr>)"
| "cf_set_reserves (x, y, lq) (Royalty p) =
     Royalty (p\<lparr>rp_reserves_x := x, rp_reserves_y := y, rp_liquidity := lq\<rparr>)"

definition cf_apply_deposit ::
    "validators \<Rightarrow> deposit_order classical_order \<Rightarrow> const_fn_pool \<Rightarrow>
     (deposit_order classical_order, const_fn_pool, deposit_output) applied" where
  "cf_apply_deposit vs dep p =
     (let ord = co_order dep;
          validator = deposit_get_validator vs dep;
          (reserves_x, reserves_y, reserves_lq) = cf_pool_reserves p
      in Some (or_incompatible dep
        (do {
          net_x \<leftarrow> deposit_net (dp_token_x ord) (dp_token_x_amount ord) ord;
          net_y \<leftarrow> deposit_net (dp_token_y ord) (dp_token_y_amount ord) ord;
          (unlocked_lq, change_x, change_y) \<leftarrow> cf_reward_lp p net_x net_y;
          added_x \<leftarrow> checked_add reserves_x net_x;
          new_x \<leftarrow> checked_sub added_x change_x;
          added_y \<leftarrow> checked_add reserves_y net_y;
          new_y \<leftarrow> checked_sub added_y change_y;
          new_lq \<leftarrow> checked_add reserves_lq unlocked_lq;
          Some (cf_set_reserves (new_x, new_y, new_lq) p, single_output \<lparr> do_token_x_asset = dp_token_x ord,
            do_token_x_charge_amount = change_x, do_token_y_asset = dp_token_y ord,
            do_token_y_charge_amount = change_y, do_token_lq_asset = dp_token_lq ord,
            do_token_lq_amount = unlocked_lq, do_ada_residue = dp_collateral_ada ord,
            do_redeemer_pkh = dp_reward_pkh ord, do_redeemer_stake_pkh = dp_reward_stake_pkh ord \<rparr> validator)
        })))"

definition cf_apply_redeem ::
    "validators \<Rightarrow> redeem_order classical_order \<Rightarrow> const_fn_pool \<Rightarrow>
     (redeem_order classical_order, const_fn_pool, redeem_output) applied" where
  "cf_apply_redeem vs red p =
     (let ord = co_order red;
          validator = redeem_get_validator vs red;
          (reserves_x, reserves_y, reserves_lq) = cf_pool_reserves p
      in Some (or_incompatible red
        (do {
          (x_amount, y_amount) \<leftarrow> cf_shares_amount p (rd_token_lq_amount ord);
          new_x \<leftarrow> checked_sub reserves_x x_amount;
          new_y \<leftarrow> checked_sub reserves_y y_amount;
          new_lq \<leftarrow> checked_sub reserves_lq (rd_token_lq_amount ord);
          Some (cf_set_reserves (new_x, new_y, new_lq) p, single_output \<lparr> ro_token_x_asset = rd_token_x ord,
            ro_token_x_amount = x_amount, ro_token_y_asset = rd_token_y ord, ro_token_y_amount = y_amount,
            ro_ada_residue = rd_collateral_ada ord, ro_redeemer_pkh = rd_reward_pkh ord,
            ro_redeemer_stake_pkh = rd_reward_stake_pkh ord \<rparr> validator)
        })))"

definition on_royalty_pool ::
    "'o \<Rightarrow> (royalty_pool \<Rightarrow> ('o, royalty_pool, 'r) applied) \<Rightarrow> const_fn_pool \<Rightarrow> ('o, const_fn_pool, 'r) applied" where
  "on_royalty_pool ord f p =
     (case p of Royalty r \<Rightarrow> map_option (map_sum id (\<lambda>(r', bp). (Royalty r', bp))) (f r)
      | _ \<Rightarrow> Some (Inl (Incompatible ord)))"

definition cf_apply_royalty_withdraw ::
    "crypto_ops \<Rightarrow> validators \<Rightarrow> u64 \<Rightarrow> royalty_withdraw classical_order \<Rightarrow> const_fn_pool \<Rightarrow>
     (royalty_withdraw classical_order, const_fn_pool, royalty_withdraw_output) applied" where
  "cf_apply_royalty_withdraw Y vs transaction_fee ord p =
     on_royalty_pool ord (apply_royalty_withdraw Y vs transaction_fee ord) p"

definition cf_apply_dao_action ::
    "crypto_ops \<Rightarrow> validators \<Rightarrow> dao_cx \<Rightarrow> dao_v1_request classical_order \<Rightarrow> const_fn_pool \<Rightarrow>
     (dao_v1_request classical_order, const_fn_pool, dao_action_result) applied" where
  "cf_apply_dao_action Y vs cx ord p = on_royalty_pool ord (apply_dao_action Y vs cx ord) p"

end
