(* ===== verification/Pool_Spec.thy ===== *)
theory Pool_Spec
  imports Const_Fn_Pool
begin

text \<open>
  The pools on the ledger: what writing a pool's value and datum leaves to be read, and that every
  constant-product pool the program reads from an output is read back exactly after the program
  has written its next state to the next output of the pool. The bidirectional fee-switch pool is
  the exception: its treasury is written over other fields of its datum.
\<close>

subsection \<open>Values\<close>

lemma set_token_amount:
  assumes "set_token t v ma = Some ma'" "an_wf (tk_name t)" "ac_ok ac"
  shows "amount_in (Value c ma') ac = (if ac = TokenClass t then Some v else amount_in (Value c ma) ac)"
  using assms(3)
proof (cases ac rule: ac_ok_cases)
  case 1
  then show ?thesis by (simp add: amount_in_def)
next
  case (2 p n name)
  obtain q m where t: "t = Token q m" by (cases t)
  obtain nm where nm: "an_into_cml m = Some nm" and ma': "ma' = ma_set q nm v ma"
    using assms(1) t by (auto simp: set_token_def)
  have eq: "nm = name \<longleftrightarrow> m = n"
    using an_into_cml_inj [of m n] assms(2) 2 nm t by auto
  show ?thesis
    using eq by (cases "nm = name")
      (auto simp: amount_in_def 2(1) amount_of_token [OF 2(3)] ma' ma_set_def t split: option.splits)
qed

lemma set_token_some: "an_wf (tk_name t) \<Longrightarrow> \<exists>ma'. set_token t v ma = Some ma'"
  using an_into_cml_some [of "tk_name t"] by (auto simp: set_token_def)

definition pool_assets_ok :: "asset_class \<Rightarrow> asset_class \<Rightarrow> asset_class \<Rightarrow> token \<Rightarrow> bool" where
  "pool_assets_ok ax ay alq pid \<longleftrightarrow>
     ac_ok ax \<and> ac_ok ay \<and> ac_ok alq \<and> an_wf (tk_name pid) \<and> alq \<noteq> Native \<and>
     distinct [ax, ay, alq, TokenClass pid]"

lemma pool_value_exact:
  assumes ok: "pool_assets_ok ax ay alq pid"
  shows "\<exists>v. pool_value ax rx ay ry alq lq pid coins = Some v \<and>
    amount_in v ax = Some rx \<and> amount_in v ay = Some ry \<and> amount_in v alq = Some (max_lq_cap - lq) \<and>
    amount_in v Native = Some (if ax = Native then rx else if ay = Native then ry else coins)"
proof -
  have wf: "ac_ok (TokenClass pid)" using ok by (simp add: pool_assets_ok_def)
  obtain tlq where alq: "alq = TokenClass tlq" using ok by (cases alq) (auto simp: pool_assets_ok_def)
  note rules = set_token_amount [OF _ _, where c = c for c]
  have native: "amount_in (Value c ma) Native = Some c" for c ma by (simp add: amount_in_def)
  have fin: "\<exists>v. do { ma \<leftarrow> set_token tlq (max_lq_cap - lq) ma; ma \<leftarrow> set_token pid 1 ma; Some (Value c ma) } = Some v \<and>
      amount_in v alq = Some (max_lq_cap - lq) \<and>
      (\<forall>ac. ac_ok ac \<longrightarrow> ac \<noteq> alq \<longrightarrow> ac \<noteq> TokenClass pid \<longrightarrow> amount_in v ac = amount_in (Value c ma) ac)" for c ma
  proof -
    obtain ma1 where 1: "set_token tlq (max_lq_cap - lq) ma = Some ma1"
      using set_token_some [of tlq] ok alq by (auto simp: pool_assets_ok_def)
    obtain ma2 where 2: "set_token pid 1 ma1 = Some ma2"
      using set_token_some [of pid] ok by (auto simp: pool_assets_ok_def)
    show ?thesis
      using set_token_amount [OF 1, where c = c] set_token_amount [OF 2, where c = c] ok alq
      by (auto simp: 1 2 pool_assets_ok_def)
  qed
  have tok: "\<exists>ma. set_token t r m = Some ma" if "TokenClass t \<in> {ax, ay}" for t r m
    using set_token_some [of t] that ok by (auto simp: pool_assets_ok_def)
  consider (x) t where "ax = Native" "ay = TokenClass t" | (y) t where "ax = TokenClass t" "ay = Native"
    | (xy) t u where "ax = TokenClass t" "ay = TokenClass u" "t \<noteq> u"
    using ok by (cases ax; cases ay) (auto simp: pool_assets_ok_def)
  then show ?thesis
  proof cases
    case x
    obtain ma where ma: "set_token t ry [] = Some ma" using tok x by blast
    have "amount_in (Value rx ma) ay = Some ry"
      using set_token_amount [OF ma] ok x by (simp add: pool_assets_ok_def)
    then show ?thesis
      using fin [of ma rx] ok x
      by (auto simp: pool_value_def ac_is_native_def alq ma native pool_assets_ok_def)
  next
    case y
    obtain ma where ma: "set_token t rx [] = Some ma" using tok y by blast
    have "amount_in (Value ry ma) ax = Some rx"
      using set_token_amount [OF ma] ok y by (simp add: pool_assets_ok_def)
    then show ?thesis
      using fin [of ma ry] ok y
      by (auto simp: pool_value_def ac_is_native_def alq ma native pool_assets_ok_def)
  next
    case xy
    obtain ma where ma: "set_token t rx [] = Some ma" using tok xy by blast
    obtain ma2 where ma2: "set_token u ry ma = Some ma2" using tok xy by blast
    have "amount_in (Value coins ma2) ax = Some rx" "amount_in (Value coins ma2) ay = Some ry"
      using set_token_amount [OF ma] set_token_amount [OF ma2] ok xy by (simp_all add: pool_assets_ok_def)
    then show ?thesis
      using fin [of ma2 coins] ok xy
      by (auto simp: pool_value_def ac_is_native_def alq ma ma2 native pool_assets_ok_def)
  qed
qed

subsection \<open>Addresses and datums\<close>

lemma script_hash_pool_address [simp]: "script_hash (pool_address s a) = script_hash a"
  by (cases a) (auto simp: pool_address_def script_hash_def split: option.splits)

lemma stake_part_kept [simp]: "stake_part_of (pool_address (stake_part_of a) a) = stake_part_of a"
  by (cases a) (auto simp: pool_address_def stake_part_of_def split: option.splits credential.splits)

lemma read_field_iff:
  "read_field i f cpd = Some (v, cpd') \<longleftrightarrow> i < length cpd \<and> f (cpd ! i) = Some v \<and> cpd' = cpd[i := dummy_pd]"
  by (auto simp: read_field_def take_field_def)

lemma into_u64_into_pd [simp]: "into_u64 (u64_into_pd w) = Some w"
  using unsigned_less [of w] by (simp add: u64_into_pd_def)

lemma hash28_read_back [simp]: "hash28_from_raw_bytes (hash28_bytes h) = Some h"
  by (simp add: hash28_from_raw_bytes_def length_hash28_bytes nat_be_hash28)

lemma into_bytes_into_pd [simp]: "into_bytes (bytes_into_pd bs) = Some bs"
  by (simp add: bytes_into_pd_def)

lemma first_script_hash_read_back [simp]:
  "first_script_hash (vec_into_pd ic_into_pd [ic_from_script_hash h]) = Some h"
  by (simp add: first_script_hash_def vec_try_from_pd_def vec_into_pd_def ic_try_from_pd_def
      ic_from_script_hash_def credential_into_pd_def credential_try_from_pd_def take_field_def)

lemma ac_try_from_pd_ok: "ac_try_from_pd pd = Some ac \<Longrightarrow> ac_ok ac"
  by (auto simp: ac_try_from_pd_def bind_eq_Some_conv an_wf_def split: if_splits)

lemma legacy_config_iff:
  "legacy_config_try_from_pd pd = Some c \<longleftrightarrow>
    (\<exists>a cpd. pd = ConstrPd a cpd \<and> 4 < length cpd \<and> ac_try_from_pd (cpd ! 0) = Some (lc_pool_nft c) \<and>
      ac_try_from_pd (cpd ! 1) = Some (lc_asset_x c) \<and> ac_try_from_pd (cpd ! 2) = Some (lc_asset_y c) \<and>
      ac_try_from_pd (cpd ! 3) = Some (lc_asset_lq c) \<and> into_u64 (cpd ! 4) = Some (lc_lp_fee_num c) \<and>
      lc_lq_lower_bound c = read_field_or_zero 6 cpd)"
  by (cases pd; cases c)
    (auto simp: legacy_config_try_from_pd_def bind_eq_Some_conv read_field_iff read_field_or_zero_def take_field_def)

lemma fee_switch_config_iff:
  "fee_switch_config_try_from_pd pd = Some c \<longleftrightarrow>
    (\<exists>a cpd. pd = ConstrPd a cpd \<and> 7 < length cpd \<and> ac_try_from_pd (cpd ! 0) = Some (fc_pool_nft c) \<and>
      ac_try_from_pd (cpd ! 1) = Some (fc_asset_x c) \<and> ac_try_from_pd (cpd ! 2) = Some (fc_asset_y c) \<and>
      ac_try_from_pd (cpd ! 3) = Some (fc_asset_lq c) \<and> into_u64 (cpd ! 4) = Some (fc_lp_fee_num c) \<and>
      into_u64 (cpd ! 5) = Some (fc_treasury_fee_num c) \<and> into_u64 (cpd ! 6) = Some (fc_treasury_x c) \<and>
      into_u64 (cpd ! 7) = Some (fc_treasury_y c) \<and> fc_lq_lower_bound c = read_field_or_zero 9 cpd)"
  by (cases pd; cases c)
    (auto simp: fee_switch_config_try_from_pd_def bind_eq_Some_conv read_field_iff read_field_or_zero_def take_field_def)

lemma bidirectional_config_iff:
  "bidirectional_config_try_from_pd pd = Some c \<longleftrightarrow>
    (\<exists>a cpd. pd = ConstrPd a cpd \<and> 8 < length cpd \<and> ac_try_from_pd (cpd ! 0) = Some (bc_pool_nft c) \<and>
      ac_try_from_pd (cpd ! 1) = Some (bc_asset_x c) \<and> ac_try_from_pd (cpd ! 2) = Some (bc_asset_y c) \<and>
      ac_try_from_pd (cpd ! 3) = Some (bc_asset_lq c) \<and> into_u64 (cpd ! 4) = Some (bc_lp_fee_num_x c) \<and>
      into_u64 (cpd ! 5) = Some (bc_lp_fee_num_y c) \<and> into_u64 (cpd ! 6) = Some (bc_treasury_fee_num c) \<and>
      into_u64 (cpd ! 7) = Some (bc_treasury_x c) \<and> into_u64 (cpd ! 8) = Some (bc_treasury_y c) \<and>
      bc_lq_lower_bound c = read_field_or_zero 10 cpd)"
  by (cases pd; cases c)
    (auto simp: bidirectional_config_try_from_pd_def bind_eq_Some_conv read_field_iff read_field_or_zero_def take_field_def)

lemma royalty_config_iff:
  "royalty_pool_config_try_from_pd pd = Some c \<longleftrightarrow>
    (\<exists>a cpd. pd = ConstrPd a cpd \<and> 14 < length cpd \<and> ac_try_from_pd (cpd ! 0) = Some (yc_pool_nft c) \<and>
      ac_try_from_pd (cpd ! 1) = Some (yc_asset_x c) \<and> ac_try_from_pd (cpd ! 2) = Some (yc_asset_y c) \<and>
      ac_try_from_pd (cpd ! 3) = Some (yc_asset_lq c) \<and> into_u64 (cpd ! 4) = Some (yc_lp_fee_num c) \<and>
      into_u64 (cpd ! 5) = Some (yc_treasury_fee_num c) \<and> into_u64 (cpd ! 6) = Some (yc_royalty_fee_num c) \<and>
      into_u64 (cpd ! 7) = Some (yc_treasury_x c) \<and> into_u64 (cpd ! 8) = Some (yc_treasury_y c) \<and>
      into_u64 (cpd ! 9) = Some (yc_royalty_x c) \<and> into_u64 (cpd ! 10) = Some (yc_royalty_y c) \<and>
      first_script_hash (cpd ! 11) = Some (yc_admin_address c) \<and>
      into_bytes (cpd ! 12) = Some (yc_treasury_address c) \<and> into_bytes (cpd ! 13) = Some (yc_royalty_pub_key c) \<and>
      into_u64 (cpd ! 14) = Some (yc_nonce c))"
  by (cases pd; cases c) (auto simp: royalty_pool_config_try_from_pd_def bind_eq_Some_conv read_field_iff)

lemma royalty_v2_config_iff:
  "royalty_pool_v2_config_try_from_pd pd = Some c \<longleftrightarrow>
    (\<exists>a cpd. pd = ConstrPd a cpd \<and> 18 < length cpd \<and> ac_try_from_pd (cpd ! 0) = Some (zc_pool_nft c) \<and>
      ac_try_from_pd (cpd ! 1) = Some (zc_asset_x c) \<and> ac_try_from_pd (cpd ! 2) = Some (zc_asset_y c) \<and>
      ac_try_from_pd (cpd ! 3) = Some (zc_asset_lq c) \<and> into_u64 (cpd ! 4) = Some (zc_lp_fee_num c) \<and>
      into_u64 (cpd ! 5) = Some (zc_treasury_fee_num c) \<and> into_u64 (cpd ! 6) = Some (zc_first_royalty_fee_num c) \<and>
      into_u64 (cpd ! 7) = Some (zc_second_royalty_fee_num c) \<and>
      into_u64 (cpd ! 8) = Some (zc_treasury_x c) \<and> into_u64 (cpd ! 9) = Some (zc_treasury_y c) \<and>
      into_u64 (cpd ! 10) = Some (zc_first_royalty_x c) \<and> into_u64 (cpd ! 11) = Some (zc_first_royalty_y c) \<and>
      into_u64 (cpd ! 12) = Some (zc_second_royalty_x c) \<and> into_u64 (cpd ! 13) = Some (zc_second_royalty_y c) \<and>
      first_script_hash (cpd ! 14) = Some (zc_admin_address c) \<and>
      into_bytes (cpd ! 15) = Some (zc_treasury_address c) \<and>
      into_bytes (cpd ! 16) = Some (zc_first_royalty_pub_key c) \<and>
      into_bytes (cpd ! 17) = Some (zc_second_royalty_pub_key c) \<and> into_u64 (cpd ! 18) = Some (zc_nonce c))"
  by (cases pd; cases c) (auto simp: royalty_pool_v2_config_try_from_pd_def bind_eq_Some_conv read_field_iff)

lemma update_fee_switch_some:
  "7 < length cpd \<Longrightarrow> unsafe_update_pd_fee_switch (ConstrPd a cpd) tx ty =
    Some (ConstrPd a (cpd[6 := u64_into_pd tx, 7 := u64_into_pd ty]))"
  by (simp add: unsafe_update_pd_fee_switch_def set_field_def)

lemma update_royalty_some:
  "14 < length cpd \<Longrightarrow> unsafe_update_pd_royalty (ConstrPd a cpd) lf tf rf tx ty rx ry ta aa n =
    Some (ConstrPd a (cpd[4 := u64_into_pd lf, 5 := u64_into_pd tf, 6 := u64_into_pd rf, 7 := u64_into_pd tx,
      8 := u64_into_pd ty, 9 := u64_into_pd rx, 10 := u64_into_pd ry,
      11 := vec_into_pd ic_into_pd [ic_from_script_hash aa], 12 := bytes_into_pd (hash28_bytes ta),
      14 := u64_into_pd n]))"
  by (simp add: unsafe_update_pd_royalty_def set_field_def)

lemma update_royalty_v2_some:
  "18 < length cpd \<Longrightarrow> unsafe_update_pd_royalty_v2 (ConstrPd a cpd) lf tf rf sf tx ty rx ry sx sy ta aa n =
    Some (ConstrPd a (cpd[4 := u64_into_pd lf, 5 := u64_into_pd tf, 6 := u64_into_pd rf, 7 := u64_into_pd sf,
      8 := u64_into_pd tx, 9 := u64_into_pd ty, 10 := u64_into_pd rx, 11 := u64_into_pd ry,
      12 := u64_into_pd sx, 13 := u64_into_pd sy, 14 := vec_into_pd ic_into_pd [ic_from_script_hash aa],
      15 := bytes_into_pd (hash28_bytes ta), 18 := u64_into_pd n]))"
  by (simp add: unsafe_update_pd_royalty_v2_def set_field_def)

subsection \<open>Writing the next state\<close>

definition assets_distinct :: "asset_class \<Rightarrow> asset_class \<Rightarrow> asset_class \<Rightarrow> token \<Rightarrow> bool" where
  "assets_distinct ax ay alq pid \<longleftrightarrow> alq \<noteq> Native \<and> distinct [ax, ay, alq, TokenClass pid]"

lemma pool_assets_okI:
  "assets_distinct ax ay alq pid \<Longrightarrow> ac_try_from_pd p1 = Some ax \<Longrightarrow> ac_try_from_pd p2 = Some ay \<Longrightarrow>
    ac_try_from_pd p3 = Some alq \<Longrightarrow> ac_try_from_pd p4 = Some (TokenClass pid) \<Longrightarrow> pool_assets_ok ax ay alq pid"
  using ac_try_from_pd_ok [of p1 ax] ac_try_from_pd_ok [of p2 ay] ac_try_from_pd_ok [of p3 alq]
    ac_try_from_pd_ok [of p4 "TokenClass pid"]
  by (auto simp: assets_distinct_def pool_assets_ok_def)

lemma ac_into_token_iff: "ac_into_token ac = Some t \<longleftrightarrow> ac = TokenClass t"
  by (cases ac) auto

lemma output_pd_some:
  "output_pd cx out = Some pd \<longleftrightarrow> (\<exists>bs. output_datum out = Some (InlineDatum bs) \<and> pd = pc_decode cx bs)"
  by (cases "output_datum out"; cases "the (output_datum out)") (auto simp: output_pd_def datum_into_pd_def)

lemma classic_read_back:
  assumes rd: "cp_try_from_ledger cx out = Some p"
    and dist: "assets_distinct (cp_asset_x p) (cp_asset_y p) (cp_asset_lq p) (cp_id p)"
    and p': "p' = p\<lparr>cp_reserves_x := rx, cp_reserves_y := ry, cp_liquidity := lq\<rparr>"
  shows "\<exists>out'. cp_into_ledger p' (immutable_pool_from out) = Some out' \<and> cp_try_from_ledger cx out' = Some p' \<and>
    script_hash (output_address out') = script_hash (output_address out)"
proof -
  obtain pd conf where pd: "output_pd cx out = Some pd" and conf: "legacy_config_try_from_pd pd = Some conf"
    using rd by (auto simp: cp_try_from_ledger_def bind_eq_Some_conv)
  have as: "lc_asset_x conf = cp_asset_x p" "lc_asset_y conf = cp_asset_y p" "lc_asset_lq conf = cp_asset_lq p"
      "lc_pool_nft conf = TokenClass (cp_id p)"
    using rd pd conf by (auto simp: cp_try_from_ledger_def bind_eq_Some_conv ac_into_token_iff)
  have "pool_assets_ok (cp_asset_x p) (cp_asset_y p) (cp_asset_lq p) (cp_id p)"
    using conf as by (auto simp: legacy_config_iff intro: pool_assets_okI [OF dist])
  from pool_value_exact [OF this, of rx ry lq "coin (output_value out)"] obtain v where
    v: "pool_value (cp_asset_x p) rx (cp_asset_y p) ry (cp_asset_lq p) lq (cp_id p) (coin (output_value out)) = Some v"
    and am: "amount_in v (cp_asset_x p) = Some rx" "amount_in v (cp_asset_y p) = Some ry"
      "amount_in v (cp_asset_lq p) = Some (max_lq_cap - lq)" by blast
  define out' where "out' = ConwayFormatTxOut (pool_address (cp_stake_part_script_hash p) (output_address out)) v
    (output_datum out) (output_reference out)"
  have stake: "cp_stake_part_script_hash p = stake_part_of (output_address out)"
    using rd by (auto simp: cp_try_from_ledger_def bind_eq_Some_conv)
  have "cp_into_ledger p' (immutable_pool_from out) = Some out'"
    by (simp add: cp_into_ledger_def p' immutable_pool_from_def v out'_def)
  moreover have "output_pd cx out' = Some pd" using pd by (simp add: output_pd_def out'_def)
  then have "cp_try_from_ledger cx out' = Some p'"
    using rd pd conf am as stake
    by (cases p) (auto simp: cp_try_from_ledger_def out'_def p' bind_eq_Some_conv classic_ver_try_from_address_def)
  ultimately show ?thesis by (auto simp: out'_def)
qed

lemma fs_from_config_iff:
  "fs_from_config cx out ver c = Some p \<longleftrightarrow>
    ac_into_token (fc_pool_nft c) = Some (fs_id p) \<and>
    amount_in (output_value out) (fc_asset_lq c) = Some (max_lq_cap - fs_liquidity p) \<and>
    amount_in (output_value out) (fc_asset_x c) = Some (fs_reserves_x p) \<and>
    amount_in (output_value out) (fc_asset_y c) = Some (fs_reserves_y p) \<and>
    reserves_ok (pc_bounds cx) (fc_asset_x c) (fc_asset_y c) (coin (output_value out)) (fs_reserves_x p)
      (fs_reserves_y p) (fc_treasury_x c) (fc_treasury_y c) \<and>
    fs_asset_x p = fc_asset_x c \<and> fs_asset_y p = fc_asset_y c \<and> fs_asset_lq p = fc_asset_lq c \<and>
    fs_lp_fee_x p = (fc_lp_fee_num c, fee_den) \<and> fs_lp_fee_y p = (fc_lp_fee_num c, fee_den) \<and>
    fs_treasury_fee p = (fc_treasury_fee_num c, fee_den) \<and> fs_treasury_x p = fc_treasury_x c \<and>
    fs_treasury_y p = fc_treasury_y c \<and> fs_lq_lower_bound p = fc_lq_lower_bound c \<and> fs_ver p = ver \<and>
    fs_marginal_cost p = si_marginal_cost (pc_scripts cx (fee_switch_validator ver)) \<and>
    fs_bounds p = pc_bounds cx \<and> fs_nonce p = 0 \<and>
    fs_stake_part_script_hash p = stake_part_of (output_address out)"
  by (cases p) (auto simp: fs_from_config_def Let_def bind_eq_Some_conv amount_in_def [of _ Native])

lemma fee_switch_read_back:
  assumes law: "\<And>pd. pc_decode cx (encode pd) = pd"
    and rd: "fs_try_from_ledger cx out = Some p" and ver: "fs_ver p \<noteq> FsBiDirV1"
    and dist: "assets_distinct (fs_asset_x p) (fs_asset_y p) (fs_asset_lq p) (fs_id p)"
    and p': "p' = p\<lparr>fs_reserves_x := rx, fs_reserves_y := ry, fs_liquidity := lq, fs_treasury_x := tx, fs_treasury_y := ty\<rparr>"
    and solvent: "tx < rx" "ty < ry"
  shows "\<exists>out'. fs_into_ledger (pc_decode cx) encode p' (immutable_pool_from out) = Some out' \<and>
    fs_try_from_ledger cx out' = Some p' \<and> script_hash (output_address out') = script_hash (output_address out)"
proof -
  obtain pd where pd: "output_pd cx out = Some pd"
    and pv: "fee_switch_ver_try_from_address (pc_scripts cx) (output_address out) = Some (fs_ver p)"
    using rd by (auto simp: fs_try_from_ledger_def bind_eq_Some_conv fs_from_config_iff
        fs_from_bidirectional_config_def Let_def split: if_splits)
  obtain conf where conf: "fee_switch_config_try_from_pd pd = Some conf" and fc: "fs_from_config cx out (fs_ver p) conf = Some p"
    using rd pd pv ver by (auto simp: fs_try_from_ledger_def bind_eq_Some_conv)
  obtain a cpd where cpd: "pd = ConstrPd a cpd" "7 < length cpd" using conf by (auto simp: fee_switch_config_iff)
  obtain bs where bs: "output_datum out = Some (InlineDatum bs)" "pc_decode cx bs = ConstrPd a cpd"
    using pd cpd by (auto simp: output_pd_some)
  define pd' where "pd' = ConstrPd a (cpd[6 := u64_into_pd tx, 7 := u64_into_pd ty])"
  have conf': "fee_switch_config_try_from_pd pd' = Some (conf\<lparr>fc_treasury_x := tx, fc_treasury_y := ty\<rparr>)"
    using conf cpd by (auto simp: fee_switch_config_iff pd'_def read_field_or_zero_def take_field_def)
  have "pool_assets_ok (fs_asset_x p) (fs_asset_y p) (fs_asset_lq p) (fs_id p)"
    using conf fc dist by (auto simp: fee_switch_config_iff fs_from_config_iff ac_into_token_iff intro: pool_assets_okI)
  from pool_value_exact [OF this, of rx ry lq "coin (output_value out)"] obtain v where
    v: "pool_value (fs_asset_x p) rx (fs_asset_y p) ry (fs_asset_lq p) lq (fs_id p) (coin (output_value out)) = Some v"
    and am: "amount_in v (fs_asset_x p) = Some rx" "amount_in v (fs_asset_y p) = Some ry"
      "amount_in v (fs_asset_lq p) = Some (max_lq_cap - lq)"
    and lov: "amount_in v Native = Some (if fs_asset_x p = Native then rx else if fs_asset_y p = Native then ry
        else coin (output_value out))" by blast
  define out' where "out' = ConwayFormatTxOut (pool_address (fs_stake_part_script_hash p) (output_address out)) v
    (Some (InlineDatum (encode pd'))) (output_reference out)"
  have "fs_into_ledger (pc_decode cx) encode p' (immutable_pool_from out) = Some out'"
    using cpd by (simp add: fs_into_ledger_def p' immutable_pool_from_def v out'_def bs rewrite_datum_def
        update_fee_switch_some pd'_def)
  moreover have "fs_from_config cx out' (fs_ver p) (conf\<lparr>fc_treasury_x := tx, fc_treasury_y := ty\<rparr>) = Some p'"
    using fc am lov solvent
    by (auto simp: fs_from_config_iff p' out'_def amount_in_def [of _ Native] reserves_ok_def Let_def ac_is_native_def
        word_greater_zero_iff)
  then have "fs_try_from_ledger cx out' = Some p'"
    using pv ver conf' by (simp add: fs_try_from_ledger_def fee_switch_ver_try_from_address_def out'_def output_pd_def
        datum_into_pd_def law)
  ultimately show ?thesis by (auto simp: out'_def)
qed

lemma rp_from_config_iff:
  "rp_from_config cx out ver c = Some p \<longleftrightarrow>
    ac_into_token (yc_pool_nft c) = Some (rp_id p) \<and>
    amount_in (output_value out) (yc_asset_lq c) = Some (max_lq_cap - rp_liquidity p) \<and>
    amount_in (output_value out) (yc_asset_x c) = Some (rp_reserves_x p) \<and>
    amount_in (output_value out) (yc_asset_y c) = Some (rp_reserves_y p) \<and>
    reserves_ok (pc_bounds cx) (yc_asset_x c) (yc_asset_y c) (coin (output_value out)) (rp_reserves_x p)
      (rp_reserves_y p) (yc_treasury_x c + yc_royalty_x c) (yc_treasury_y c + yc_royalty_y c) \<and>
    hash28_from_raw_bytes (yc_treasury_address c) = Some (rp_treasury_address p) \<and>
    public_key_try_from (yc_royalty_pub_key c) = Some (rp_first_royalty_pub_key p) \<and>
    rp_asset_x p = yc_asset_x c \<and> rp_asset_y p = yc_asset_y c \<and> rp_asset_lq p = yc_asset_lq c \<and>
    rp_lp_fee p = (yc_lp_fee_num c, fee_den) \<and> rp_treasury_fee p = (yc_treasury_fee_num c, fee_den) \<and>
    rp_treasury_x p = yc_treasury_x c \<and> rp_treasury_y p = yc_treasury_y c \<and>
    rp_first_royalty_fee p = (yc_royalty_fee_num c, fee_den) \<and> rp_second_royalty_fee p = (0, 100) \<and>
    rp_first_royalty_x p = yc_royalty_x c \<and> rp_first_royalty_y p = yc_royalty_y c \<and>
    rp_second_royalty_x p = 0 \<and> rp_second_royalty_y p = 0 \<and> rp_lq_lower_bound p = 0 \<and>
    rp_admin_address p = yc_admin_address c \<and> rp_second_royalty_pub_key p = replicate 32 0 \<and> rp_ver p = ver \<and>
    rp_marginal_cost p = si_marginal_cost (pc_scripts cx (royalty_pool_validator ver)) \<and>
    rp_bounds p = pc_bounds cx \<and> rp_nonce p = yc_nonce c \<and>
    rp_stake_part_script_hash p = stake_part_of (output_address out)"
  by (cases p) (auto simp: rp_from_config_def Let_def bind_eq_Some_conv amount_in_def [of _ Native])

lemma rp_from_v2_config_iff:
  "rp_from_v2_config cx out ver c = Some p \<longleftrightarrow>
    ac_into_token (zc_pool_nft c) = Some (rp_id p) \<and>
    amount_in (output_value out) (zc_asset_lq c) = Some (max_lq_cap - rp_liquidity p) \<and>
    amount_in (output_value out) (zc_asset_x c) = Some (rp_reserves_x p) \<and>
    amount_in (output_value out) (zc_asset_y c) = Some (rp_reserves_y p) \<and>
    reserves_ok (pc_bounds cx) (zc_asset_x c) (zc_asset_y c) (coin (output_value out)) (rp_reserves_x p)
      (rp_reserves_y p) (zc_treasury_x c + zc_first_royalty_x c + zc_second_royalty_x c)
      (zc_treasury_y c + zc_first_royalty_y c + zc_second_royalty_y c) \<and>
    hash28_from_raw_bytes (zc_treasury_address c) = Some (rp_treasury_address p) \<and>
    public_key_try_from (zc_first_royalty_pub_key c) = Some (rp_first_royalty_pub_key p) \<and>
    public_key_try_from (zc_second_royalty_pub_key c) = Some (rp_second_royalty_pub_key p) \<and>
    rp_asset_x p = zc_asset_x c \<and> rp_asset_y p = zc_asset_y c \<and> rp_asset_lq p = zc_asset_lq c \<and>
    rp_lp_fee p = (zc_lp_fee_num c, fee_den) \<and> rp_treasury_fee p = (zc_treasury_fee_num c, fee_den) \<and>
    rp_treasury_x p = zc_treasury_x c \<and> rp_treasury_y p = zc_treasury_y c \<and>
    rp_first_royalty_fee p = (zc_first_royalty_fee_num c, fee_den) \<and>
    rp_second_royalty_fee p = (zc_second_royalty_fee_num c, fee_den) \<and>
    rp_first_royalty_x p = zc_first_royalty_x c \<and> rp_first_royalty_y p = zc_first_royalty_y c \<and>
    rp_second_royalty_x p = zc_second_royalty_x c \<and> rp_second_royalty_y p = zc_second_royalty_y c \<and>
    rp_lq_lower_bound p = 0 \<and> rp_admin_address p = zc_admin_address c \<and> rp_ver p = ver \<and>
    rp_marginal_cost p = si_marginal_cost (pc_scripts cx (royalty_pool_validator ver)) \<and>
    rp_bounds p = pc_bounds cx \<and> rp_nonce p = zc_nonce c \<and>
    rp_stake_part_script_hash p = stake_part_of (output_address out)"
  by (cases p) (auto simp: rp_from_v2_config_def Let_def bind_eq_Some_conv amount_in_def [of _ Native])

text \<open>A royalty pool of either layout, with the fields its datum carries.\<close>

definition rp_next :: "royalty_pool \<Rightarrow> royalty_pool \<Rightarrow> bool" where
  "rp_next p p' \<longleftrightarrow>
     p' = p\<lparr>rp_reserves_x := rp_reserves_x p', rp_reserves_y := rp_reserves_y p', rp_liquidity := rp_liquidity p',
       rp_lp_fee := rp_lp_fee p', rp_treasury_fee := rp_treasury_fee p', rp_treasury_x := rp_treasury_x p',
       rp_treasury_y := rp_treasury_y p', rp_first_royalty_x := rp_first_royalty_x p',
       rp_first_royalty_y := rp_first_royalty_y p', rp_second_royalty_x := rp_second_royalty_x p',
       rp_second_royalty_y := rp_second_royalty_y p', rp_admin_address := rp_admin_address p',
       rp_treasury_address := rp_treasury_address p', rp_nonce := rp_nonce p'\<rparr> \<and>
     snd (rp_lp_fee p') = fee_den \<and> snd (rp_treasury_fee p') = fee_den \<and>
     (rp_ver p \<noteq> RyV2 \<longrightarrow> rp_second_royalty_x p' = 0 \<and> rp_second_royalty_y p' = 0) \<and>
     rp_treasury_x p' + rp_first_royalty_x p' + rp_second_royalty_x p' < rp_reserves_x p' \<and>
     rp_treasury_y p' + rp_first_royalty_y p' + rp_second_royalty_y p' < rp_reserves_y p'"

lemma royalty_read_back_v1:
  assumes law: "\<And>pd. pc_decode cx (encode pd) = pd"
    and pd: "output_pd cx out = Some pd" and conf: "royalty_pool_config_try_from_pd pd = Some conf"
    and fc: "rp_from_config cx out (rp_ver p) conf = Some p" and ver: "rp_ver p \<noteq> RyV2"
    and nxt: "rp_next p p'"
    and v: "pool_value (rp_asset_x p) (rp_reserves_x p') (rp_asset_y p) (rp_reserves_y p') (rp_asset_lq p)
      (rp_liquidity p') (rp_id p) (coin (output_value out)) = Some v"
    and am: "amount_in v (rp_asset_x p) = Some (rp_reserves_x p')" "amount_in v (rp_asset_y p) = Some (rp_reserves_y p')"
      "amount_in v (rp_asset_lq p) = Some (max_lq_cap - rp_liquidity p')"
      "amount_in v Native = Some (if rp_asset_x p = Native then rp_reserves_x p'
        else if rp_asset_y p = Native then rp_reserves_y p' else coin (output_value out))"
  shows "\<exists>pd' conf'. rewrite_datum (pc_decode cx) encode (rp_update_pd p') (output_datum out) =
      Some (Some (InlineDatum (encode pd'))) \<and> royalty_pool_config_try_from_pd pd' = Some conf' \<and>
    (\<forall>d r. rp_from_config cx (ConwayFormatTxOut (pool_address (rp_stake_part_script_hash p) (output_address out)) v d r)
      (rp_ver p) conf' = Some p')"
proof -
  obtain a cpd where cpd: "pd = ConstrPd a cpd" "14 < length cpd" using conf by (auto simp: royalty_config_iff)
  obtain bs where bs: "output_datum out = Some (InlineDatum bs)" "pc_decode cx bs = ConstrPd a cpd"
    using pd cpd by (auto simp: output_pd_some)
  have ver': "rp_ver p' \<noteq> RyV2" "rp_ver p' = rp_ver p" using ver nxt by (cases p'; cases p; simp add: rp_next_def)+
  define pd' where "pd' = ConstrPd a (cpd[4 := u64_into_pd (fst (rp_lp_fee p')), 5 := u64_into_pd (fst (rp_treasury_fee p')),
    6 := u64_into_pd (fst (rp_first_royalty_fee p')), 7 := u64_into_pd (rp_treasury_x p'),
    8 := u64_into_pd (rp_treasury_y p'), 9 := u64_into_pd (rp_first_royalty_x p'),
    10 := u64_into_pd (rp_first_royalty_y p'), 11 := vec_into_pd ic_into_pd [ic_from_script_hash (rp_admin_address p')],
    12 := bytes_into_pd (hash28_bytes (rp_treasury_address p')), 14 := u64_into_pd (rp_nonce p')])"
  define conf' where "conf' = conf\<lparr>yc_lp_fee_num := fst (rp_lp_fee p'), yc_treasury_fee_num := fst (rp_treasury_fee p'),
    yc_royalty_fee_num := fst (rp_first_royalty_fee p'), yc_treasury_x := rp_treasury_x p',
    yc_treasury_y := rp_treasury_y p', yc_royalty_x := rp_first_royalty_x p', yc_royalty_y := rp_first_royalty_y p',
    yc_admin_address := rp_admin_address p', yc_treasury_address := hash28_bytes (rp_treasury_address p'),
    yc_nonce := rp_nonce p'\<rparr>"
  have 1: "rewrite_datum (pc_decode cx) encode (rp_update_pd p') (output_datum out) = Some (Some (InlineDatum (encode pd')))"
    using cpd ver' by (simp add: rewrite_datum_def bs rp_update_pd_def update_royalty_some pd'_def)
  have 2: "royalty_pool_config_try_from_pd pd' = Some conf'"
    using conf cpd unfolding royalty_config_iff pd'_def conf'_def by auto
  have 3: "rp_from_config cx (ConwayFormatTxOut (pool_address (rp_stake_part_script_hash p) (output_address out)) v d r)
      (rp_ver p) conf' = Some p'" for d r
    using fc nxt am ver unfolding rp_from_config_iff
    by (cases p; cases p') (auto simp: rp_next_def conf'_def amount_in_def [of _ Native] reserves_ok_def Let_def
        ac_is_native_def word_greater_zero_iff)
  show ?thesis using 1 2 3 by blast
qed

lemma royalty_read_back_v2:
  assumes law: "\<And>pd. pc_decode cx (encode pd) = pd"
    and pd: "output_pd cx out = Some pd" and conf: "royalty_pool_v2_config_try_from_pd pd = Some conf"
    and fc: "rp_from_v2_config cx out (rp_ver p) conf = Some p" and ver: "rp_ver p = RyV2"
    and nxt: "rp_next p p'"
    and v: "pool_value (rp_asset_x p) (rp_reserves_x p') (rp_asset_y p) (rp_reserves_y p') (rp_asset_lq p)
      (rp_liquidity p') (rp_id p) (coin (output_value out)) = Some v"
    and am: "amount_in v (rp_asset_x p) = Some (rp_reserves_x p')" "amount_in v (rp_asset_y p) = Some (rp_reserves_y p')"
      "amount_in v (rp_asset_lq p) = Some (max_lq_cap - rp_liquidity p')"
      "amount_in v Native = Some (if rp_asset_x p = Native then rp_reserves_x p'
        else if rp_asset_y p = Native then rp_reserves_y p' else coin (output_value out))"
  shows "\<exists>pd' conf'. rewrite_datum (pc_decode cx) encode (rp_update_pd p') (output_datum out) =
      Some (Some (InlineDatum (encode pd'))) \<and> royalty_pool_v2_config_try_from_pd pd' = Some conf' \<and>
    (\<forall>d r. rp_from_v2_config cx (ConwayFormatTxOut (pool_address (rp_stake_part_script_hash p) (output_address out)) v d r)
      (rp_ver p) conf' = Some p')"
proof -
  obtain a cpd where cpd: "pd = ConstrPd a cpd" "18 < length cpd" using conf by (auto simp: royalty_v2_config_iff)
  obtain bs where bs: "output_datum out = Some (InlineDatum bs)" "pc_decode cx bs = ConstrPd a cpd"
    using pd cpd by (auto simp: output_pd_some)
  have ver': "rp_ver p' = RyV2" using ver nxt by (cases p'; cases p; simp add: rp_next_def)
  define pd' where "pd' = ConstrPd a (cpd[4 := u64_into_pd (fst (rp_lp_fee p')), 5 := u64_into_pd (fst (rp_treasury_fee p')),
    6 := u64_into_pd (fst (rp_first_royalty_fee p')), 7 := u64_into_pd (fst (rp_second_royalty_fee p')),
    8 := u64_into_pd (rp_treasury_x p'), 9 := u64_into_pd (rp_treasury_y p'),
    10 := u64_into_pd (rp_first_royalty_x p'), 11 := u64_into_pd (rp_first_royalty_y p'),
    12 := u64_into_pd (rp_second_royalty_x p'), 13 := u64_into_pd (rp_second_royalty_y p'),
    14 := vec_into_pd ic_into_pd [ic_from_script_hash (rp_admin_address p')],
    15 := bytes_into_pd (hash28_bytes (rp_treasury_address p')), 18 := u64_into_pd (rp_nonce p')])"
  define conf' where "conf' = conf\<lparr>zc_lp_fee_num := fst (rp_lp_fee p'), zc_treasury_fee_num := fst (rp_treasury_fee p'),
    zc_first_royalty_fee_num := fst (rp_first_royalty_fee p'),
    zc_second_royalty_fee_num := fst (rp_second_royalty_fee p'), zc_treasury_x := rp_treasury_x p',
    zc_treasury_y := rp_treasury_y p', zc_first_royalty_x := rp_first_royalty_x p',
    zc_first_royalty_y := rp_first_royalty_y p', zc_second_royalty_x := rp_second_royalty_x p',
    zc_second_royalty_y := rp_second_royalty_y p', zc_admin_address := rp_admin_address p',
    zc_treasury_address := hash28_bytes (rp_treasury_address p'), zc_nonce := rp_nonce p'\<rparr>"
  have 1: "rewrite_datum (pc_decode cx) encode (rp_update_pd p') (output_datum out) = Some (Some (InlineDatum (encode pd')))"
    using cpd ver' by (simp add: rewrite_datum_def bs rp_update_pd_def update_royalty_v2_some pd'_def)
  have 2: "royalty_pool_v2_config_try_from_pd pd' = Some conf'"
    using conf cpd unfolding royalty_v2_config_iff pd'_def conf'_def by auto
  have 3: "rp_from_v2_config cx (ConwayFormatTxOut (pool_address (rp_stake_part_script_hash p) (output_address out)) v d r)
      (rp_ver p) conf' = Some p'" for d r
    using fc nxt am ver unfolding rp_from_v2_config_iff
    by (cases p; cases p') (auto simp: rp_next_def conf'_def amount_in_def [of _ Native] reserves_ok_def Let_def
        ac_is_native_def word_greater_zero_iff)
  show ?thesis using 1 2 3 by blast
qed

lemma royalty_read_back:
  assumes law: "\<And>pd. pc_decode cx (encode pd) = pd"
    and rd: "rp_try_from_ledger cx out = Some p"
    and dist: "assets_distinct (rp_asset_x p) (rp_asset_y p) (rp_asset_lq p) (rp_id p)"
    and nxt: "rp_next p p'"
  shows "\<exists>out'. rp_into_ledger (pc_decode cx) encode p' (immutable_pool_from out) = Some out' \<and>
    rp_try_from_ledger cx out' = Some p' \<and> script_hash (output_address out') = script_hash (output_address out)"
proof -
  obtain pd where pd: "output_pd cx out = Some pd"
    and pv: "royalty_ver_try_from_address (pc_scripts cx) (output_address out) = Some (rp_ver p)"
    using rd by (auto simp: rp_try_from_ledger_def bind_eq_Some_conv rp_from_config_iff rp_from_v2_config_iff split: if_splits)
  have "pool_assets_ok (rp_asset_x p) (rp_asset_y p) (rp_asset_lq p) (rp_id p)"
    using rd dist by (auto simp: rp_try_from_ledger_def bind_eq_Some_conv rp_from_config_iff rp_from_v2_config_iff
        royalty_config_iff royalty_v2_config_iff ac_into_token_iff split: if_splits intro: pool_assets_okI)
  from pool_value_exact [OF this, of "rp_reserves_x p'" "rp_reserves_y p'" "rp_liquidity p'" "coin (output_value out)"]
  obtain v where v: "pool_value (rp_asset_x p) (rp_reserves_x p') (rp_asset_y p) (rp_reserves_y p') (rp_asset_lq p)
      (rp_liquidity p') (rp_id p) (coin (output_value out)) = Some v"
    and am: "amount_in v (rp_asset_x p) = Some (rp_reserves_x p')" "amount_in v (rp_asset_y p) = Some (rp_reserves_y p')"
      "amount_in v (rp_asset_lq p) = Some (max_lq_cap - rp_liquidity p')"
      "amount_in v Native = Some (if rp_asset_x p = Native then rp_reserves_x p'
        else if rp_asset_y p = Native then rp_reserves_y p' else coin (output_value out))" by blast
  have same: "rp_asset_x p' = rp_asset_x p" "rp_asset_y p' = rp_asset_y p" "rp_asset_lq p' = rp_asset_lq p"
      "rp_id p' = rp_id p" "rp_stake_part_script_hash p' = rp_stake_part_script_hash p"
    using nxt by (cases p; cases p'; simp add: rp_next_def)+
  define o' where "o' d = ConwayFormatTxOut (pool_address (rp_stake_part_script_hash p) (output_address out)) v d
    (output_reference out)" for d
  have into: "rp_into_ledger (pc_decode cx) encode p' (immutable_pool_from out) = Some (o' d)"
    if "rewrite_datum (pc_decode cx) encode (rp_update_pd p') (output_datum out) = Some d" for d
    using that by (simp add: rp_into_ledger_def same immutable_pool_from_def v o'_def)
  have pv': "royalty_ver_try_from_address (pc_scripts cx) (output_address (o' d)) = Some (rp_ver p)" for d
    using pv by (simp add: royalty_ver_try_from_address_def o'_def)
  have pd': "output_pd cx (o' (Some (InlineDatum (encode pd')))) = Some pd'" for pd'
    by (simp add: output_pd_def o'_def datum_into_pd_def law)
  have "\<exists>d. rp_into_ledger (pc_decode cx) encode p' (immutable_pool_from out) = Some (o' d) \<and>
    rp_try_from_ledger cx (o' d) = Some p'"
  proof (cases "rp_ver p = RyV2")
    case True
    obtain conf where conf: "royalty_pool_v2_config_try_from_pd pd = Some conf"
      and fc: "rp_from_v2_config cx out (rp_ver p) conf = Some p"
      using rd pd pv True by (auto simp: rp_try_from_ledger_def bind_eq_Some_conv)
    from royalty_read_back_v2 [OF law pd conf fc True nxt v am] obtain pd1 c1 where
      1: "rewrite_datum (pc_decode cx) encode (rp_update_pd p') (output_datum out) = Some (Some (InlineDatum (encode pd1)))"
      "royalty_pool_v2_config_try_from_pd pd1 = Some c1"
      "rp_from_v2_config cx (o' (Some (InlineDatum (encode pd1)))) (rp_ver p) c1 = Some p'"
      unfolding o'_def by blast
    have "rp_try_from_ledger cx (o' (Some (InlineDatum (encode pd1)))) = Some p'"
      using 1 by (simp add: rp_try_from_ledger_def pv' pd' True)
    then show ?thesis using into [OF 1(1)] by blast
  next
    case False
    obtain conf where conf: "royalty_pool_config_try_from_pd pd = Some conf"
      and fc: "rp_from_config cx out (rp_ver p) conf = Some p"
      using rd pd pv False by (auto simp: rp_try_from_ledger_def bind_eq_Some_conv)
    from royalty_read_back_v1 [OF law pd conf fc False nxt v am] obtain pd1 c1 where
      1: "rewrite_datum (pc_decode cx) encode (rp_update_pd p') (output_datum out) = Some (Some (InlineDatum (encode pd1)))"
      "royalty_pool_config_try_from_pd pd1 = Some c1"
      "rp_from_config cx (o' (Some (InlineDatum (encode pd1)))) (rp_ver p) c1 = Some p'"
      unfolding o'_def by blast
    have "rp_try_from_ledger cx (o' (Some (InlineDatum (encode pd1)))) = Some p'"
      using 1 False by (simp add: rp_try_from_ledger_def pv' pd')
    then show ?thesis using into [OF 1(1)] by blast
  qed
  then show ?thesis by (auto simp: o'_def)
qed

end
