(* ===== verification/Pool_Roundtrip.thy ===== *)
theory Pool_Roundtrip
  imports Pool_Spec "HOL-Library.Countable"
begin

text \<open>
  The round trip of the constant-product pools over the ledger: the next state of a pool, written to
  the next output of the pool, is what the program reads from that output. The one kind of pool for
  which this fails, the bidirectional fee-switch pool, and what it reads instead.
\<close>

subsection \<open>A sample of the datum codec\<close>

text \<open>
  Any injective encoding has a decoding; the samples use one that numbers the finitely built data.
\<close>

instance word :: (len) countable
  by (rule countable_classI [of unat]) (simp add: word_unat_eq_iff)

instance plutus_data :: countable by countable_datatype

definition sample_encode :: "plutus_data \<Rightarrow> bytes" where
  "sample_encode pd = replicate (to_nat pd) 0"

definition sample_decode :: "bytes \<Rightarrow> plutus_data" where
  "sample_decode bs = from_nat (length bs)"

lemma sample_codec [simp]: "sample_decode (sample_encode pd) = pd"
  by (simp add: sample_decode_def sample_encode_def)

subsection \<open>Next states\<close>

text \<open>
  What a trade, a deposit, a redemption, a withdrawal or a DAO action may change: the reserves, the
  liquidity and the fields that the datum of the kind carries, as long as what is owed stays below
  the reserves.
\<close>

definition cp_next :: "classic_pool \<Rightarrow> classic_pool \<Rightarrow> bool" where
  "cp_next p p' \<longleftrightarrow>
     p' = p\<lparr>cp_reserves_x := cp_reserves_x p', cp_reserves_y := cp_reserves_y p', cp_liquidity := cp_liquidity p'\<rparr>"

definition fs_next :: "fee_switch_pool \<Rightarrow> fee_switch_pool \<Rightarrow> bool" where
  "fs_next p p' \<longleftrightarrow>
     p' = p\<lparr>fs_reserves_x := fs_reserves_x p', fs_reserves_y := fs_reserves_y p', fs_liquidity := fs_liquidity p',
       fs_treasury_x := fs_treasury_x p', fs_treasury_y := fs_treasury_y p'\<rparr> \<and>
     fs_treasury_x p' < fs_reserves_x p' \<and> fs_treasury_y p' < fs_reserves_y p'"

fun cf_next :: "const_fn_pool \<Rightarrow> const_fn_pool \<Rightarrow> bool" where
  "cf_next (Classic p) (Classic p') \<longleftrightarrow> cp_next p p'"
| "cf_next (FeeSwitch p) (FeeSwitch p') \<longleftrightarrow> fs_next p p'"
| "cf_next (Royalty p) (Royalty p') \<longleftrightarrow> rp_next p p'"
| "cf_next _ _ \<longleftrightarrow> False"

fun cf_assets_distinct :: "const_fn_pool \<Rightarrow> bool" where
  "cf_assets_distinct (Classic p) = assets_distinct (cp_asset_x p) (cp_asset_y p) (cp_asset_lq p) (cp_id p)"
| "cf_assets_distinct (FeeSwitch p) = assets_distinct (fs_asset_x p) (fs_asset_y p) (fs_asset_lq p) (fs_id p)"
| "cf_assets_distinct (Royalty p) = assets_distinct (rp_asset_x p) (rp_asset_y p) (rp_asset_lq p) (rp_id p)"

fun one_directional :: "const_fn_pool \<Rightarrow> bool" where
  "one_directional (FeeSwitch p) \<longleftrightarrow> fs_ver p \<noteq> FsBiDirV1"
| "one_directional _ \<longleftrightarrow> True"

text \<open>The deployed pool scripts differ, so an address names one kind of pool.\<close>

definition pool_scripts_distinct :: "script_infos \<Rightarrow> bool" where
  "pool_scripts_distinct infos \<longleftrightarrow>
     distinct (map (\<lambda>v. si_script_hash (infos v))
       [ConstFnPoolV1, ConstFnPoolV2, ConstFnPoolFeeSwitch, ConstFnPoolFeeSwitchV2, ConstFnPoolFeeSwitchBiDirFee,
        RoyaltyPoolV1, RoyaltyPoolV1LedgerFixed, RoyaltyPoolV2])"

lemma kinds_exclude_each_other:
  assumes "pool_scripts_distinct infos"
  shows "fee_switch_ver_try_from_address infos addr = Some v \<Longrightarrow> classic_ver_try_from_address infos addr = None"
    and "royalty_ver_try_from_address infos addr = Some w \<Longrightarrow> classic_ver_try_from_address infos addr = None"
    and "royalty_ver_try_from_address infos addr = Some w \<Longrightarrow> fee_switch_ver_try_from_address infos addr = None"
  using assms
  by (auto simp: pool_scripts_distinct_def classic_ver_try_from_address_def fee_switch_ver_try_from_address_def
      royalty_ver_try_from_address_def split: option.splits if_splits)

lemma try_from_ledger_ver:
  "fs_try_from_ledger cx out = Some p \<Longrightarrow> \<exists>v. fee_switch_ver_try_from_address (pc_scripts cx) (output_address out) = Some v"
  "rp_try_from_ledger cx out = Some q \<Longrightarrow> \<exists>v. royalty_ver_try_from_address (pc_scripts cx) (output_address out) = Some v"
  by (auto simp: fs_try_from_ledger_def rp_try_from_ledger_def bind_eq_Some_conv)

lemma no_ver_no_pool:
  "classic_ver_try_from_address (pc_scripts cx) (output_address out) = None \<Longrightarrow> cp_try_from_ledger cx out = None"
  "fee_switch_ver_try_from_address (pc_scripts cx) (output_address out) = None \<Longrightarrow> fs_try_from_ledger cx out = None"
  by (auto simp: fs_try_from_ledger_def cp_try_from_ledger_def)

lemma cf_try_from_ledger_iff:
  assumes "pool_scripts_distinct (pc_scripts cx)"
  shows "cf_try_from_ledger cx out = Some p \<longleftrightarrow>
    (case p of Classic q \<Rightarrow> cp_try_from_ledger cx out = Some q | FeeSwitch q \<Rightarrow> fs_try_from_ledger cx out = Some q
     | Royalty q \<Rightarrow> rp_try_from_ledger cx out = Some q)"
proof -
  have fs: "cp_try_from_ledger cx out = None" if "fs_try_from_ledger cx out = Some q" for q
    using try_from_ledger_ver(1) [OF that] kinds_exclude_each_other(1) [OF assms] no_ver_no_pool(1) by blast
  have rp: "cp_try_from_ledger cx out = None \<and> fs_try_from_ledger cx out = None" if "rp_try_from_ledger cx out = Some q" for q
    using try_from_ledger_ver(2) [OF that] kinds_exclude_each_other(2,3) [OF assms] no_ver_no_pool by blast
  show ?thesis
    using fs rp by (cases p) (auto simp: cf_try_from_ledger_def split: option.splits)
qed

text \<open>
  C20. Reading, changing and writing a pool is lossless: when the program has read a classic, a
  one-directional fee-switch or a royalty pool from an output, with four different assets, and has
  brought it to any next state, it can write that state over the output and reads exactly the same
  state, every reserve, fee, accrued amount, address, key and the nonce, from what it wrote. Datums
  decode to what was encoded and the deployed pool scripts have different hashes. Bidirectional
  fee-switch pools are left out because the program does not have the property for them: it writes
  their treasuries to other fields than it reads them from (\<^verbatim>\<open>bidirectional_treasury_misplaced\<close>).
\<close>

theorem pool_state_roundtrip:
  assumes "\<And>pd. pc_decode cx (encode pd) = pd"
    and "pool_scripts_distinct (pc_scripts cx)"
    and "cf_try_from_ledger cx out = Some p"
    and "cf_assets_distinct p"
    and "one_directional p" "cf_next p p'"
  shows "\<exists>out'. cf_into_ledger (pc_decode cx) encode p' (immutable_pool_from out) = Some out' \<and>
    cf_try_from_ledger cx out' = Some p'"
proof -
  note rd = cf_try_from_ledger_iff [OF assms(2)]
  consider (c) q q' where "p = Classic q" "p' = Classic q'" "cp_next q q'"
    | (f) q q' where "p = FeeSwitch q" "p' = FeeSwitch q'" "fs_ver q \<noteq> FsBiDirV1" "fs_next q q'"
    | (r) q q' where "p = Royalty q" "p' = Royalty q'" "rp_next q q'"
    using assms(5,6) by (cases p; cases p') auto
  then show ?thesis
  proof cases
    case c
    from classic_read_back [OF _ _ c(3) [unfolded cp_next_def], of cx out] show ?thesis
      using assms(3,4) c(1,2) by (auto simp: rd)
  next
    case f
    from fee_switch_read_back [OF assms(1) _ f(3) _ conjunct1 [OF f(4) [unfolded fs_next_def]], of out] show ?thesis
      using assms(3,4) f by (auto simp: rd fs_next_def)
  next
    case r
    from royalty_read_back [OF assms(1) _ _ r(3), of out] show ?thesis
      using assms(3,4) r by (auto simp: rd)
  qed
qed


subsection \<open>Bidirectional fee-switch pools\<close>

lemma fs_from_bidirectional_config_iff:
  "fs_from_bidirectional_config cx out ver c = Some p \<longleftrightarrow>
    ac_into_token (bc_pool_nft c) = Some (fs_id p) \<and>
    amount_in (output_value out) (bc_asset_lq c) = Some (max_lq_cap - fs_liquidity p) \<and>
    amount_in (output_value out) (bc_asset_x c) = Some (fs_reserves_x p) \<and>
    amount_in (output_value out) (bc_asset_y c) = Some (fs_reserves_y p) \<and>
    reserves_ok (pc_bounds cx) (bc_asset_x c) (bc_asset_y c) (coin (output_value out)) (fs_reserves_x p)
      (fs_reserves_y p) (bc_treasury_x c) (bc_treasury_y c) \<and>
    fs_asset_x p = bc_asset_x c \<and> fs_asset_y p = bc_asset_y c \<and> fs_asset_lq p = bc_asset_lq c \<and>
    fs_lp_fee_x p = (bc_lp_fee_num_x c, fee_den) \<and> fs_lp_fee_y p = (bc_lp_fee_num_y c, fee_den) \<and>
    fs_treasury_fee p = (bc_treasury_fee_num c, fee_den) \<and> fs_treasury_x p = bc_treasury_x c \<and>
    fs_treasury_y p = bc_treasury_y c \<and> fs_lq_lower_bound p = bc_lq_lower_bound c \<and> fs_ver p = ver \<and>
    fs_marginal_cost p = si_marginal_cost (pc_scripts cx (fee_switch_validator ver)) \<and>
    fs_bounds p = pc_bounds cx \<and> fs_nonce p = 0 \<and>
    fs_stake_part_script_hash p = stake_part_of (output_address out)"
  by (cases p) (auto simp: fs_from_bidirectional_config_def Let_def bind_eq_Some_conv amount_in_def [of _ Native])

text \<open>
  The treasury of a bidirectional fee-switch pool is written to the wrong fields: when such a
  pool has changed its reserves and treasuries and is written over its output, what is read from
  there has the treasury of the first asset as its treasury fee, the treasury of the second asset as
  that of the first, and for the second asset the amount from before the change.
\<close>

theorem bidirectional_treasury_misplaced:
  assumes "\<And>pd. pc_decode cx (encode pd) = pd"
    and "fs_try_from_ledger cx out = Some p" "fs_ver p = FsBiDirV1"
    and "assets_distinct (fs_asset_x p) (fs_asset_y p) (fs_asset_lq p) (fs_id p)"
    and "fs_next p p'" and "fs_treasury_y p' < fs_reserves_x p'" "fs_treasury_y p < fs_reserves_y p'"
  shows "\<exists>out'. fs_into_ledger (pc_decode cx) encode p' (immutable_pool_from out) = Some out' \<and>
    fs_try_from_ledger cx out' = Some (p'\<lparr>fs_treasury_fee := (fs_treasury_x p', fee_den),
      fs_treasury_x := fs_treasury_y p', fs_treasury_y := fs_treasury_y p\<rparr>)"
proof -
  obtain pd conf where pd: "output_pd cx out = Some pd" and conf: "bidirectional_config_try_from_pd pd = Some conf"
    and pv: "fee_switch_ver_try_from_address (pc_scripts cx) (output_address out) = Some FsBiDirV1"
    and fc: "fs_from_bidirectional_config cx out FsBiDirV1 conf = Some p"
    using assms(2,3) by (auto simp: fs_try_from_ledger_def bind_eq_Some_conv fs_from_config_iff split: if_splits)
  obtain a cpd where cpd: "pd = ConstrPd a cpd" "8 < length cpd" using conf by (auto simp: bidirectional_config_iff)
  obtain bs where bs: "output_datum out = Some (InlineDatum bs)" "pc_decode cx bs = ConstrPd a cpd"
    using pd cpd by (auto simp: output_pd_some)
  define pd' where "pd' = ConstrPd a (cpd[6 := u64_into_pd (fs_treasury_x p'), 7 := u64_into_pd (fs_treasury_y p')])"
  define conf' where "conf' = conf\<lparr>bc_treasury_fee_num := fs_treasury_x p', bc_treasury_x := fs_treasury_y p'\<rparr>"
  have conf': "bidirectional_config_try_from_pd pd' = Some conf'"
    using conf cpd by (auto simp: bidirectional_config_iff pd'_def conf'_def read_field_or_zero_def take_field_def)
  have "pool_assets_ok (fs_asset_x p) (fs_asset_y p) (fs_asset_lq p) (fs_id p)"
    using conf fc assms(4)
    by (auto simp: bidirectional_config_iff fs_from_bidirectional_config_iff ac_into_token_iff intro: pool_assets_okI)
  from pool_value_exact [OF this, of "fs_reserves_x p'" "fs_reserves_y p'" "fs_liquidity p'" "coin (output_value out)"]
  obtain v where v: "pool_value (fs_asset_x p) (fs_reserves_x p') (fs_asset_y p) (fs_reserves_y p') (fs_asset_lq p)
      (fs_liquidity p') (fs_id p) (coin (output_value out)) = Some v"
    and am: "amount_in v (fs_asset_x p) = Some (fs_reserves_x p')" "amount_in v (fs_asset_y p) = Some (fs_reserves_y p')"
      "amount_in v (fs_asset_lq p) = Some (max_lq_cap - fs_liquidity p')"
      "amount_in v Native = Some (if fs_asset_x p = Native then fs_reserves_x p'
        else if fs_asset_y p = Native then fs_reserves_y p' else coin (output_value out))" by blast
  define out' where "out' = ConwayFormatTxOut (pool_address (fs_stake_part_script_hash p) (output_address out)) v
    (Some (InlineDatum (encode pd'))) (output_reference out)"
  have same: "fs_asset_x p' = fs_asset_x p" "fs_asset_y p' = fs_asset_y p" "fs_asset_lq p' = fs_asset_lq p"
      "fs_id p' = fs_id p" "fs_stake_part_script_hash p' = fs_stake_part_script_hash p"
    using assms(5) by (cases p; cases p'; simp add: fs_next_def)+
  have "fs_into_ledger (pc_decode cx) encode p' (immutable_pool_from out) = Some out'"
    using cpd by (simp add: fs_into_ledger_def same immutable_pool_from_def v out'_def bs rewrite_datum_def
        update_fee_switch_some pd'_def)
  moreover have "fs_from_bidirectional_config cx out' FsBiDirV1 conf' = Some (p'\<lparr>fs_treasury_fee := (fs_treasury_x p', fee_den),
      fs_treasury_x := fs_treasury_y p', fs_treasury_y := fs_treasury_y p\<rparr>)"
    using fc am assms(5-7) unfolding fs_from_bidirectional_config_iff
    by (cases p; cases p') (auto simp: fs_next_def conf'_def out'_def amount_in_def [of _ Native] reserves_ok_def Let_def
        ac_is_native_def word_greater_zero_iff)
  then have "fs_try_from_ledger cx out' = Some (p'\<lparr>fs_treasury_fee := (fs_treasury_x p', fee_den),
      fs_treasury_x := fs_treasury_y p', fs_treasury_y := fs_treasury_y p\<rparr>)"
    using pv conf' by (simp add: fs_try_from_ledger_def fee_switch_ver_try_from_address_def out'_def output_pd_def
        datum_into_pd_def assms(1))
  ultimately show ?thesis by blast
qed

subsection \<open>Sample pools\<close>

definition sample_token_pd :: "byte \<Rightarrow> plutus_data" where
  "sample_token_pd c = ConstrPd 0 [BytesPd (replicate 28 0), BytesPd [c]]"

definition sample_token :: "byte \<Rightarrow> token" where
  "sample_token c = Token 0 (AssetName 1 (pad32 [c]))"

fun sample_script_hash :: "protocol_validator \<Rightarrow> hash28" where
  "sample_script_hash ConstFnPoolV1 = 1"
| "sample_script_hash ConstFnPoolV2 = 2"
| "sample_script_hash ConstFnPoolFeeSwitch = 3"
| "sample_script_hash ConstFnPoolFeeSwitchV2 = 4"
| "sample_script_hash ConstFnPoolFeeSwitchBiDirFee = 5"
| "sample_script_hash RoyaltyPoolV1 = 6"
| "sample_script_hash RoyaltyPoolV1LedgerFixed = 7"
| "sample_script_hash RoyaltyPoolV2 = 8"
| "sample_script_hash _ = 0"

definition sample_pool_cx :: pool_cx where
  "sample_pool_cx = \<lparr> pc_scripts = (\<lambda>v. \<lparr> si_script_hash = sample_script_hash v, si_marginal_cost = units_empty \<rparr>),
     pc_bounds = \<lparr> min_n2t_lovelace = 0, min_t2t_lovelace = 0 \<rparr>, pc_decode = sample_decode \<rparr>"

definition sample_pool_out :: "hash28 \<Rightarrow> u64 list \<Rightarrow> tx_output" where
  "sample_pool_out h nums = ConwayFormatTxOut (Base (Script h) (Script 99))
     (Value 5000000 [(0, [([1], 7000000), ([2], max_lq_cap - 1000), ([3], 1)])])
     (Some (InlineDatum (sample_encode (ConstrPd 0
       ([sample_token_pd 3, ConstrPd 0 [BytesPd [], BytesPd []], sample_token_pd 1, sample_token_pd 2] @
        map u64_into_pd nums))))) None"

definition sample_fee_switch :: "fee_switch_pool_ver \<Rightarrow> u64 \<Rightarrow> u64 \<Rightarrow> u64 \<Rightarrow> u64 \<Rightarrow> u64 \<Rightarrow> fee_switch_pool" where
  "sample_fee_switch ver rx ry fee tx ty = \<lparr> fs_id = sample_token 3, fs_reserves_x = rx, fs_reserves_y = ry, fs_liquidity = 1000,
     fs_asset_x = Native, fs_asset_y = TokenClass (sample_token 1), fs_asset_lq = TokenClass (sample_token 2),
     fs_lp_fee_x = (99700, fee_den), fs_lp_fee_y = (99700, fee_den), fs_treasury_fee = (fee, fee_den),
     fs_treasury_x = tx, fs_treasury_y = ty, fs_lq_lower_bound = 0, fs_ver = ver, fs_marginal_cost = units_empty,
     fs_bounds = \<lparr> min_n2t_lovelace = 0, min_t2t_lovelace = 0 \<rparr>, fs_nonce = 0,
     fs_stake_part_script_hash = Some 99 \<rparr>"

lemma sample_name [simp]: "an_into_cml (AssetName 1 (pad32 [c])) = Some [c]"
  by (simp add: an_into_cml_def pad32_def)

lemma sample_token_reads [simp]:
  "ac_try_from_pd (sample_token_pd c) = Some (TokenClass (sample_token c))"
  "ac_try_from_pd (ConstrPd 0 [BytesPd [], BytesPd []]) = Some Native"
  "sample_token c = sample_token d \<longleftrightarrow> c = d"
proof -
  have "nat_be (replicate n 0) = 0" for n by (induct n) (simp_all add: nat_be_def)
  then show "ac_try_from_pd (sample_token_pd c) = Some (TokenClass (sample_token c))"
    by (simp add: ac_try_from_pd_def sample_token_pd_def sample_token_def take_field_def hash28_from_raw_bytes_def
        an_try_from_def)
qed (simp_all add: ac_try_from_pd_def sample_token_def take_field_def pad32_def)

lemma sample_amounts [simp]:
  "output_value (sample_pool_out h nums) = Value 5000000 [(0, [([1], 7000000), ([2], max_lq_cap - 1000), ([3], 1)])]"
  "output_address (sample_pool_out h nums) = Base (Script h) (Script 99)"
  "amount_in (Value c [(0, [([1], x1), ([2], x2), ([3], x3)])]) (TokenClass (sample_token 1)) = Some x1"
  "amount_in (Value c [(0, [([1], x1), ([2], x2), ([3], x3)])]) (TokenClass (sample_token 2)) = Some x2"
  by (simp_all add: amount_in_def amount_of_def sample_token_def sample_pool_out_def)

lemma sample_datum [simp]:
  "output_pd sample_pool_cx (sample_pool_out h nums) =
     Some (ConstrPd 0 ([sample_token_pd 3, ConstrPd 0 [BytesPd [], BytesPd []], sample_token_pd 1, sample_token_pd 2] @
        map u64_into_pd nums))"
  by (simp add: output_pd_def sample_pool_out_def sample_pool_cx_def datum_into_pd_def)

lemma sample_reads:
  "fs_try_from_ledger sample_pool_cx (sample_pool_out 4 [99700, 300, 100, 200, 0, 0]) =
     Some (sample_fee_switch FsV2 5000000 7000000 300 100 200)" (is ?A)
  "fs_try_from_ledger sample_pool_cx (sample_pool_out 5 [99700, 99700, 300, 100, 200, 0, 0]) =
     Some (sample_fee_switch FsBiDirV1 5000000 7000000 300 100 200)" (is ?B)
proof -
  note ver = fee_switch_ver_try_from_address_def script_hash_def sample_pool_cx_def
  have v2: "fee_switch_ver_try_from_address (pc_scripts sample_pool_cx) (Base (Script 4) (Script 99)) = Some FsV2"
    and bi: "fee_switch_ver_try_from_address (pc_scripts sample_pool_cx) (Base (Script 5) (Script 99)) = Some FsBiDirV1"
    by (simp_all add: ver)
  note sel = sample_fee_switch_def sample_pool_cx_def reserves_ok_def Let_def stake_part_of_def ac_is_native_def
    amount_in_def [of _ Native]
  have conf_v2: "fs_from_config sample_pool_cx (sample_pool_out 4 nums) FsV2
      \<lparr>fc_pool_nft = TokenClass (sample_token 3), fc_asset_x = Native, fc_asset_y = TokenClass (sample_token 1),
       fc_asset_lq = TokenClass (sample_token 2), fc_lp_fee_num = 99700, fc_treasury_fee_num = 300,
       fc_treasury_x = 100, fc_treasury_y = 200, fc_lq_lower_bound = 0\<rparr> =
    Some (sample_fee_switch FsV2 5000000 7000000 300 100 200)" for nums
    unfolding fs_from_config_iff by (simp add: sel)
  have conf_bi: "fs_from_bidirectional_config sample_pool_cx (sample_pool_out 5 nums) FsBiDirV1
      \<lparr>bc_pool_nft = TokenClass (sample_token 3), bc_asset_x = Native, bc_asset_y = TokenClass (sample_token 1),
       bc_asset_lq = TokenClass (sample_token 2), bc_lp_fee_num_x = 99700, bc_lp_fee_num_y = 99700,
       bc_treasury_fee_num = 300, bc_treasury_x = 100, bc_treasury_y = 200, bc_lq_lower_bound = 0\<rparr> =
    Some (sample_fee_switch FsBiDirV1 5000000 7000000 300 100 200)" for nums
    unfolding fs_from_bidirectional_config_iff by (simp add: sel)
  note reads = read_field_def take_field_def read_field_or_zero_def
  show ?A
    by (simp add: fs_try_from_ledger_def v2 fee_switch_config_try_from_pd_def reads conf_v2)
  show ?B
    by (simp add: fs_try_from_ledger_def bi bidirectional_config_try_from_pd_def reads conf_bi)
qed

theorem pool_state_roundtrip_witness:
  "\<exists>out'. cf_into_ledger (pc_decode sample_pool_cx) sample_encode
      (FeeSwitch (sample_fee_switch FsV2 6000000 6000000 300 3100 200))
      (immutable_pool_from (sample_pool_out 4 [99700, 300, 100, 200, 0, 0])) = Some out' \<and>
    cf_try_from_ledger sample_pool_cx out' = Some (FeeSwitch (sample_fee_switch FsV2 6000000 6000000 300 3100 200))"
proof (rule pool_state_roundtrip [where p = "FeeSwitch (sample_fee_switch FsV2 5000000 7000000 300 100 200)"])
  show dist: "pool_scripts_distinct (pc_scripts sample_pool_cx)"
    by (simp add: pool_scripts_distinct_def sample_pool_cx_def)
  show "cf_try_from_ledger sample_pool_cx (sample_pool_out 4 [99700, 300, 100, 200, 0, 0]) =
      Some (FeeSwitch (sample_fee_switch FsV2 5000000 7000000 300 100 200))"
    by (simp add: cf_try_from_ledger_iff [OF dist] sample_reads)
qed (simp_all add: sample_pool_cx_def sample_fee_switch_def fs_next_def assets_distinct_def)


theorem bidirectional_treasury_misplaced_witness:
  "\<exists>out'. fs_into_ledger (pc_decode sample_pool_cx) sample_encode
      (sample_fee_switch FsBiDirV1 6000000 6000000 300 3100 200)
      (immutable_pool_from (sample_pool_out 5 [99700, 99700, 300, 100, 200, 0, 0])) = Some out' \<and>
    fs_try_from_ledger sample_pool_cx out' = Some (sample_fee_switch FsBiDirV1 6000000 6000000 3100 200 200)"
  using bidirectional_treasury_misplaced [of sample_pool_cx sample_encode, OF _ sample_reads(2),
      of "sample_fee_switch FsBiDirV1 6000000 6000000 300 3100 200"]
  by (simp add: sample_fee_switch_def fs_next_def assets_distinct_def sample_pool_cx_def)

end
