(* ===== verification/Pool_Trades.thy ===== *)
theory Pool_Trades
  imports Pool_Roundtrip Cfmm_Spec
begin

text \<open>
  Trades with the constant-product pools of every kind. The difference of fees comes from a
  third-party crate of rational numbers: it enters as a function that is exact on fees, fractions of
  at most one with a denominator that divides the common one.
\<close>

subsection \<open>Fees\<close>

declare of_nat_unat [simp del]

definition fee_like :: "fee_ratio \<Rightarrow> bool" where
  "fee_like r \<longleftrightarrow> snd r \<noteq> 0 \<and> unat (snd r) dvd 100000 \<and> fst r \<le> snd r"

definition fee_val :: "fee_ratio \<Rightarrow> rat" where
  "fee_val r = of_nat (unat (fst r)) / of_nat (unat (snd r))"

definition exact_sub :: "ratio_sub \<Rightarrow> bool" where
  "exact_sub sub \<longleftrightarrow> (\<forall>a b. fee_like a \<longrightarrow> fee_like b \<longrightarrow> fee_val b \<le> fee_val a \<longrightarrow>
     fee_like (sub a b) \<and> fee_val (sub a b) = fee_val a - fee_val b)"

lemma exact_subD:
  assumes "exact_sub sub" "fee_like a" "fee_like b" "fee_val b \<le> fee_val a"
  shows "fee_like (sub a b)" "fee_val (sub a b) = fee_val a - fee_val b"
  using assms unfolding exact_sub_def by blast+

lemma fee_like_bounds:
  assumes "fee_like r"
  shows "0 < unat (snd r)" "unat (snd r) \<le> 100000" "unat (fst r) \<le> unat (snd r)" "0 \<le> fee_val r" "fee_val r \<le> 1"
proof -
  show 1: "0 < unat (snd r)" using assms by (simp add: fee_like_def unat_gt_0)
  show "unat (snd r) \<le> 100000" using assms by (intro dvd_imp_le) (auto simp: fee_like_def)
  show 2: "unat (fst r) \<le> unat (snd r)" using assms by (simp add: fee_like_def word_le_nat_alt)
  show "0 \<le> fee_val r" by (simp add: fee_val_def)
  show "fee_val r \<le> 1" using 1 2 by (simp add: fee_val_def)
qed

lemma accrue_bound:
  assumes "accrue i r = Some a" "fee_like r" "unat i * 100000 < 2 ^ 64"
  shows "of_nat (unat a) \<le> of_nat (unat i) * fee_val r" "unat a \<le> unat i"
proof -
  note b = fee_like_bounds [OF assms(2)]
  have le: "unat i * unat (fst r) \<le> unat i * 100000" using b by (intro mult_le_mono2) linarith
  then have "unat (i * fst r) = unat i * unat (fst r)"
    using le_less_trans [OF le assms(3)] by (intro unat_mult_lem [THEN iffD1]) simp
  then have a: "unat a = unat i * unat (fst r) div unat (snd r)"
    using assms(1,2) by (auto simp: accrue_def fee_like_def unat_div)
  have "unat a * unat (snd r) \<le> unat i * unat (fst r)" unfolding a by simp
  then have "of_nat (unat a) * of_nat (unat (snd r)) \<le> (of_nat (unat i) * of_nat (unat (fst r)) :: rat)"
    by (simp flip: of_nat_mult)
  then show le: "of_nat (unat a) \<le> of_nat (unat i) * fee_val r"
    using b(1) by (simp add: fee_val_def pos_le_divide_eq)
  have "of_nat (unat i) * fee_val r \<le> of_nat (unat i) * 1" using b by (intro mult_left_mono) auto
  then have "of_nat (unat a) \<le> (of_nat (unat i) :: rat)" using le by linarith
  then show "unat a \<le> unat i" by simp
qed

subsection \<open>One direction of a trade\<close>

lemma out_within:
  fixes x y i n d j out :: nat
  assumes "out * (x * d + i * n) \<le> y * (i * n)" "i * n \<le> j * d" "0 < d" "0 < x" "0 < y"
  shows "out * (x + j) \<le> y * j" "out < y"
proof -
  have "out < y"
  proof (rule ccontr)
    assume "\<not> out < y"
    then have "y * (x * d + i * n) \<le> out * (x * d + i * n)" by (intro mult_le_mono1) simp
    then have "y * (x * d + i * n) \<le> y * (i * n)" using assms(1) by (rule order_trans)
    then have "y * (x * d) + y * (i * n) \<le> y * (i * n)" by (simp only: distrib_left)
    then have "y * (x * d) = 0" by linarith
    then show False using assms by simp
  qed
  have "out * (x * d) \<le> (y - out) * (i * n)"
    using assms(1) \<open>out < y\<close> by (simp add: distrib_left diff_mult_distrib)
  also have "\<dots> \<le> (y - out) * (j * d)" using assms(2) by (intro mult_le_mono2)
  finally have "d * (out * x) \<le> d * ((y - out) * j)" by (simp add: algebra_simps)
  then have "out * x \<le> (y - out) * j" using assms(3) by simp
  then have "out * x + out * j \<le> (y - out) * j + out * j" by simp
  also have "\<dots> = y * j" using \<open>out < y\<close> by (simp flip: distrib_right)
  finally show "out * (x + j) \<le> y * j" by (simp add: distrib_left)
  show "out < y" by fact
qed

lemma quote_exact:
  assumes q: "div_u128 (wide y * wide i * wide n) (wide x * wide d + wide i * wide n) = Some q"
    and "unat y * unat i * unat n < 2 ^ 128" "unat x * unat d + unat i * unat n < 2 ^ 128"
  shows "unat q * (unat x * unat d + unat i * unat n) \<le> unat y * (unat i * unat n)"
proof -
  have "unat (wide y * wide i) * unat (wide n) < 2 ^ LENGTH(128)" using assms(2) by (simp add: unat_wide_mult)
  then have num: "unat (wide y * wide i * wide n) = unat y * unat i * unat n"
    by (simp only: unat_mult_lem [THEN iffD1] unat_wide_mult unat_wide)
  have "unat (wide x * wide d) + unat (wide i * wide n) < 2 ^ LENGTH(128)" using assms(3) by (simp add: unat_wide_mult)
  then have den: "unat (wide x * wide d + wide i * wide n) = unat x * unat d + unat i * unat n"
    by (simp only: unat_add_lem [THEN iffD1] unat_wide_mult)
  show ?thesis using div_u128_le [OF q] unfolding num den by (simp add: mult.assoc)
qed

lemma one_way:
  assumes out: "classic_cfmm_output_amount ax ay x y base i fx fy = Some out"
    and rs: "(r_in, r_out, a_out, fee) = (if base = ax then (x, y, ay, fx) else (y, x, ax, fy))"
    and fee: "fee_like fee" and small: "unat r_out * unat i * 100000 < 2 ^ 128"
    and cap: "a_out = Native \<Longrightarrow> untouchable_lovelace_amount \<le> r_out"
    and j: "of_nat (unat i) * fee_val fee \<le> of_nat j"
    and pos: "0 < unat r_in" "0 < unat r_out"
  shows "unat out * (unat r_in + j) \<le> unat r_out * j" "unat out < unat r_out"
proof -
  obtain n d where nd: "fee = (n, d)" by (metis surj_pair)
  note b = fee_like_bounds [OF fee, unfolded nd fst_conv snd_conv]
  obtain q where q: "div_u128 (wide r_out * wide i * wide n) (wide r_in * wide d + wide i * wide n) = Some q"
    and o_def: "out = (if a_out = Native
       then if r_out - narrow q < untouchable_lovelace_amount then r_out - untouchable_lovelace_amount else narrow q
       else narrow q)"
    using out rs nd by (auto simp: classic_cfmm_output_amount_def bind_eq_Some_conv Let_def split: if_splits)
  have f1: "unat r_out * unat i * unat n < 2 ^ 128"
  proof -
    have "unat r_out * unat i * unat n \<le> unat r_out * unat i * 100000" using b by (intro mult_le_mono2) linarith
    then show ?thesis using small by linarith
  qed
  have f2: "unat r_in * unat d + unat i * unat n < 2 ^ 128"
  proof -
    have "unat r_in * unat d \<le> 2 ^ 64 * 100000" "unat i * unat n \<le> 2 ^ 64 * 100000"
      using b u64_bound [of r_in] u64_bound [of i] by (intro mult_le_mono; linarith)+
    then show ?thesis by simp
  qed
  have "of_nat (unat i) * of_nat (unat n) \<le> (of_nat j * of_nat (unat d) :: rat)"
    using j b(1) by (simp add: nd fee_val_def pos_divide_le_eq)
  then have j': "unat i * unat n \<le> j * unat d" by (simp flip: of_nat_mult)
  note w = out_within [OF quote_exact [OF q f1 f2] j' b(1) pos]
  have "unat (narrow q) = unat q" using w(2) u64_bound [of r_out] by (intro unat_narrow_small) linarith
  have le: "unat out \<le> unat q"
  proof (cases "a_out = Native \<and> r_out - narrow q < untouchable_lovelace_amount")
    case True
    have "unat (r_out - narrow q) = unat r_out - unat q"
      using w(2) \<open>unat (narrow q) = unat q\<close> by (simp add: unat_sub word_le_nat_alt)
    then have "unat r_out - unat q < unat untouchable_lovelace_amount" using True by (simp add: word_less_nat_alt)
    moreover have "unat (r_out - untouchable_lovelace_amount) = unat r_out - unat untouchable_lovelace_amount"
      using cap True by (simp add: unat_sub)
    ultimately show ?thesis using True unfolding o_def by simp
  qed (use \<open>unat (narrow q) = unat q\<close> o_def in auto)
  then have "unat out * (unat r_in + j) \<le> unat q * (unat r_in + j)" by (rule mult_le_mono1)
  then show "unat out * (unat r_in + j) \<le> unat r_out * j" using w(1) by linarith
  show "unat out < unat r_out" using le w(2) by linarith
qed

subsection \<open>Trades of a pool\<close>

lemma side_output_oriented:
  assumes "ax \<noteq> ay"
  shows "pool_side_output ax ay f input = f (if input_is_x ax ay input then ax else ay) (os_unwrap input)"
  using assms by (cases input) (auto simp: pool_side_output_def input_is_x_def pool_base_def pool_quote_def order_canonical_def)

text \<open>What a pool owes of an asset stays below what it holds, and the numbers fit their width.\<close>

definition pool_fits :: "asset_class \<Rightarrow> asset_class \<Rightarrow> u64 \<Rightarrow> u64 \<Rightarrow> nat \<Rightarrow> nat \<Rightarrow> u64 \<Rightarrow> bool" where
  "pool_fits ax ay rx ry owed_x owed_y i \<longleftrightarrow>
     ax \<noteq> ay \<and> owed_x < unat rx \<and> owed_y < unat ry \<and>
     (ax = Native \<longrightarrow> owed_x + 3000000 \<le> unat rx) \<and> (ay = Native \<longrightarrow> owed_y + 3000000 \<le> unat ry) \<and>
     unat i * 100000 < 2 ^ 64 \<and> unat rx + unat i < 2 ^ 64 \<and> unat ry + unat i < 2 ^ 64"

definition rp_owed_x :: "royalty_pool \<Rightarrow> nat" where
  "rp_owed_x p = unat (rp_treasury_x p) + unat (rp_first_royalty_x p) + unat (rp_second_royalty_x p)"

definition rp_owed_y :: "royalty_pool \<Rightarrow> nat" where
  "rp_owed_y p = unat (rp_treasury_y p) + unat (rp_first_royalty_y p) + unat (rp_second_royalty_y p)"

fun cf_trade_fits :: "u64 \<Rightarrow> const_fn_pool \<Rightarrow> bool" where
  "cf_trade_fits i (Classic p) \<longleftrightarrow> swap_fits i p"
| "cf_trade_fits i (FeeSwitch p) \<longleftrightarrow>
     pool_fits (fs_asset_x p) (fs_asset_y p) (fs_reserves_x p) (fs_reserves_y p) (unat (fs_treasury_x p)) (unat (fs_treasury_y p)) i \<and>
     fee_like (fs_lp_fee_x p) \<and> fee_like (fs_lp_fee_y p) \<and> fee_like (fs_treasury_fee p) \<and>
     fee_val (fs_treasury_fee p) \<le> fee_val (fs_lp_fee_x p) \<and> fee_val (fs_treasury_fee p) \<le> fee_val (fs_lp_fee_y p)"
| "cf_trade_fits i (Royalty p) \<longleftrightarrow>
     pool_fits (rp_asset_x p) (rp_asset_y p) (rp_reserves_x p) (rp_reserves_y p) (rp_owed_x p) (rp_owed_y p) i \<and>
     fee_like (rp_lp_fee p) \<and> fee_like (rp_treasury_fee p) \<and> fee_like (rp_first_royalty_fee p) \<and>
     fee_like (rp_second_royalty_fee p) \<and>
     fee_val (rp_treasury_fee p) + fee_val (rp_first_royalty_fee p) + fee_val (rp_second_royalty_fee p) \<le> fee_val (rp_lp_fee p) \<and>
     (rp_ver p \<noteq> RyV2 \<longrightarrow> fst (rp_second_royalty_fee p) = 0)"

fun cf_tradable :: "const_fn_pool \<Rightarrow> u64 \<times> u64" where
  "cf_tradable (Classic p) = (cp_reserves_x p, cp_reserves_y p)"
| "cf_tradable (FeeSwitch p) = (fs_tradable_x p, fs_tradable_y p)"
| "cf_tradable (Royalty p) = (rp_tradable_x p, rp_tradable_y p)"

lemma unat_plus_small: "unat a + unat b < 2 ^ 64 \<Longrightarrow> unat (a + b :: u64) = unat a + unat b"
  by (intro unat_add_lem [THEN iffD1]) simp

lemma unat_minus_le: "unat b \<le> unat a \<Longrightarrow> unat (a - b :: u64) = unat a - unat b"
  by (simp add: unat_sub word_le_nat_alt)

lemma gain_side:
  assumes "unat r + unat i < 2 ^ 64" "unat owed < unat r" "unat a \<le> unat i"
  shows "unat (r + i - (owed + a) :: u64) = unat r + unat i - unat owed - unat a" "owed + a < r + i"
proof -
  have u: "unat (r + i) = unat r + unat i" "unat (owed + a) = unat owed + unat a"
    using assms by (auto intro!: unat_plus_small)
  then show "owed + a < r + i" using assms by (simp add: word_less_nat_alt)
  show "unat (r + i - (owed + a)) = unat r + unat i - unat owed - unat a"
    using u assms by (subst unat_minus_le) auto
qed

lemma pay_side:
  assumes "unat out < unat r - unat owed"
  shows "unat (r - out - owed :: u64) = unat r - unat owed - unat out" "owed < r - out"
proof -
  have u: "unat (r - out) = unat r - unat out" using assms by (intro unat_minus_le) simp
  then show "owed < r - out" using assms by (simp add: word_less_nat_alt)
  show "unat (r - out - owed) = unat r - unat owed - unat out" using u assms by (subst unat_minus_le) auto
qed

text \<open>A trade over two tradable reserves of which a part \<open>a\<close> of the input is set aside.\<close>

lemma pool_trade:
  assumes fits: "pool_fits ax ay rx ry owed_x owed_y i"
    and tr: "unat tx = unat rx - owed_x" "unat ty = unat ry - owed_y"
    and out: "classic_cfmm_output_amount ax ay tx ty (if is_x then ax else ay) i fx fy = Some out"
    and fee: "fee_like (if is_x then fx else fy)"
    and a: "a \<le> unat i" "of_nat (unat i) * fee_val (if is_x then fx else fy) \<le> (of_nat (unat i) - of_nat a :: rat)"
  shows "is_x \<Longrightarrow> unat tx * unat ty \<le> (unat rx + unat i - owed_x - a) * (unat ty - unat out) \<and> unat out < unat ty"
    and "\<not> is_x \<Longrightarrow> unat tx * unat ty \<le> (unat tx - unat out) * (unat ry + unat i - owed_y - a) \<and> unat out < unat tx"
proof -
  note f = fits [unfolded pool_fits_def]
  have neq: "ay \<noteq> ax" using f by auto
  have pos: "0 < unat tx" "0 < unat ty" using f tr by auto
  have small: "unat r * unat i * 100000 < 2 ^ 128" for r :: u64
  proof -
    have "unat r * (unat i * 100000) < 2 ^ 64 * 2 ^ 64" using u64_bound [of r] f by (intro mult_strict_mono) auto
    then show ?thesis by (simp add: mult.assoc)
  qed
  have cap: "untouchable_lovelace_amount \<le> tx" if "ax = Native"
    using f tr that by (auto simp: word_le_nat_alt untouchable_lovelace_amount_def)
  have cap': "untouchable_lovelace_amount \<le> ty" if "ay = Native"
    using f tr that by (auto simp: word_le_nat_alt untouchable_lovelace_amount_def)
  have j: "of_nat (unat i) * fee_val (if is_x then fx else fy) \<le> (of_nat (unat i - a) :: rat)"
    using a by (simp add: of_nat_diff)
  show "unat tx * unat ty \<le> (unat rx + unat i - owed_x - a) * (unat ty - unat out) \<and> unat out < unat ty" if is_x
  proof -
    have w: "unat out * (unat tx + (unat i - a)) \<le> unat ty * (unat i - a)" "unat out < unat ty"
      using one_way [where r_in = tx and r_out = ty and a_out = ay and fee = fx and j = "unat i - a", OF out _ _ small]
        that fee cap' j pos by simp_all
    have "unat rx + unat i - owed_x - a = unat tx + (unat i - a)" using a(1) tr f by simp
    then show ?thesis using product_kept [OF w(1)] w(2) by simp
  qed
  show "unat tx * unat ty \<le> (unat tx - unat out) * (unat ry + unat i - owed_y - a) \<and> unat out < unat tx" if "\<not> is_x"
  proof -
    have w: "unat out * (unat ty + (unat i - a)) \<le> unat tx * (unat i - a)" "unat out < unat tx"
      using one_way [where r_in = ty and r_out = tx and a_out = ax and fee = fy and j = "unat i - a", OF out _ _ small]
        that fee cap j pos neq by simp_all
    have "unat ry + unat i - owed_y - a = unat ty + (unat i - a)" using a(1) tr f by simp
    then show ?thesis using product_kept [OF w(1)] w(2) by (simp add: mult.commute)
  qed
qed


lemma fs_trade:
  assumes sub: "exact_sub sub" and sw: "fs_swap sub input p = Some p'" and fits: "cf_trade_fits (os_unwrap input) (FeeSwitch p)"
  shows "fs_next p p' \<and> unat (fs_tradable_x p) * unat (fs_tradable_y p) \<le> unat (fs_tradable_x p') * unat (fs_tradable_y p')"
proof -
  define i where "i = os_unwrap input"
  define is_x where "is_x = input_is_x (fs_asset_x p) (fs_asset_y p) input"
  note fits = fits [unfolded cf_trade_fits.simps, folded i_def]
  have pf: "pool_fits (fs_asset_x p) (fs_asset_y p) (fs_reserves_x p) (fs_reserves_y p) (unat (fs_treasury_x p)) (unat (fs_treasury_y p)) i"
    using fits by blast
  note pf' = pf [unfolded pool_fits_def]
  obtain out fee where out: "fs_side_output sub p input = Some out" and fee: "accrue i (fs_treasury_fee p) = Some fee"
    using sw by (auto simp: fs_swap_def bind_eq_Some_conv Let_def i_def)
  have oa: "fs_output_amount sub p (if is_x then fs_asset_x p else fs_asset_y p) i = Some out"
    using out side_output_oriented [of "fs_asset_x p" "fs_asset_y p" "fs_output_amount sub p" input] pf'
    by (simp add: fs_side_output_def is_x_def i_def)
  let ?fx = "sub (fs_lp_fee_x p) (fs_treasury_fee p)" and ?fy = "sub (fs_lp_fee_y p) (fs_treasury_fee p)"
  have fl: "fee_like ?fx" "fee_like ?fy" "fee_val ?fx = fee_val (fs_lp_fee_x p) - fee_val (fs_treasury_fee p)"
      "fee_val ?fy = fee_val (fs_lp_fee_y p) - fee_val (fs_treasury_fee p)"
    using fits exact_subD [OF sub] by blast+
  have a: "of_nat (unat fee) \<le> of_nat (unat i) * fee_val (fs_treasury_fee p)" "unat fee \<le> unat i"
    using accrue_bound [OF fee] fits pf' by auto
  have "fee_val (if is_x then ?fx else ?fy) \<le> 1 - fee_val (fs_treasury_fee p)"
    using fl fits fee_like_bounds(5) [of "fs_lp_fee_x p"] fee_like_bounds(5) [of "fs_lp_fee_y p"] by simp
  then have "of_nat (unat i) * fee_val (if is_x then ?fx else ?fy) \<le> of_nat (unat i) * (1 - fee_val (fs_treasury_fee p))"
    by (intro mult_left_mono) auto
  then have j: "of_nat (unat i) * fee_val (if is_x then ?fx else ?fy) \<le> of_nat (unat i) - of_nat (unat fee)"
    using a(1) by (simp add: algebra_simps)
  have tx: "unat (fs_tradable_x p) = unat (fs_reserves_x p) - unat (fs_treasury_x p)"
    and ty: "unat (fs_tradable_y p) = unat (fs_reserves_y p) - unat (fs_treasury_y p)"
    using pf' by (simp_all add: fs_tradable_x_def fs_tradable_y_def unat_minus_le)
  have fee': "fee_like (if is_x then ?fx else ?fy)" using fl by simp
  note w = pool_trade [OF pf tx ty oa [unfolded fs_output_amount_def] fee' a(2) j]
  have p': "p' = (if is_x
      then p\<lparr>fs_reserves_x := fs_reserves_x p + i, fs_reserves_y := fs_reserves_y p - out, fs_treasury_x := fs_treasury_x p + fee\<rparr>
      else p\<lparr>fs_reserves_y := fs_reserves_y p + i, fs_reserves_x := fs_reserves_x p - out, fs_treasury_y := fs_treasury_y p + fee\<rparr>)"
    using sw out fee by (auto simp: fs_swap_def i_def is_x_def Let_def)
  show ?thesis
  proof (cases is_x)
    case True
    note w = w(1) [OF True, unfolded tx ty]
    have "unat (fs_reserves_x p) + unat i < 2 ^ 64" "unat (fs_treasury_x p) < unat (fs_reserves_x p)" using pf' by auto
    note g = gain_side [OF this a(2)] pay_side [OF w [THEN conjunct2]]
    have "fs_next p p'" using g by (simp add: p' True fs_next_def)
    moreover have "fs_tradable_x p' = fs_reserves_x p + i - (fs_treasury_x p + fee)"
      "fs_tradable_y p' = fs_reserves_y p - out - fs_treasury_y p"
      by (simp_all add: p' True fs_tradable_x_def fs_tradable_y_def)
    ultimately show ?thesis using w unfolding tx ty by (simp add: g)
  next
    case False
    note w = w(2) [OF False, unfolded tx ty]
    have "unat (fs_reserves_y p) + unat i < 2 ^ 64" "unat (fs_treasury_y p) < unat (fs_reserves_y p)" using pf' by auto
    note g = gain_side [OF this a(2)] pay_side [OF w [THEN conjunct2]]
    have "fs_next p p'" using g by (simp add: p' False fs_next_def)
    moreover have "fs_tradable_y p' = fs_reserves_y p + i - (fs_treasury_y p + fee)"
      "fs_tradable_x p' = fs_reserves_x p - out - fs_treasury_x p"
      by (simp_all add: p' False fs_tradable_x_def fs_tradable_y_def)
    ultimately show ?thesis using w unfolding tx ty by (simp add: g)
  qed
qed

text \<open>The accrued amounts of a royalty pool as one.\<close>

lemma rp_owed:
  assumes "rp_owed_x p < unat (rp_reserves_x p)" "rp_owed_y p < unat (rp_reserves_y p)"
  shows "unat (rp_treasury_x p + rp_first_royalty_x p + rp_second_royalty_x p) = rp_owed_x p"
    "unat (rp_treasury_y p + rp_first_royalty_y p + rp_second_royalty_y p) = rp_owed_y p"
    "unat (rp_tradable_x p) = unat (rp_reserves_x p) - rp_owed_x p"
    "unat (rp_tradable_y p) = unat (rp_reserves_y p) - rp_owed_y p"
proof -
  have sum: "unat (a + b + c) = unat a + unat b + unat c" if "unat a + unat b + unat c < 2 ^ 64" for a b c :: u64
    using that by (subst unat_plus_small; subst unat_plus_small) auto
  show x: "unat (rp_treasury_x p + rp_first_royalty_x p + rp_second_royalty_x p) = rp_owed_x p"
    and y: "unat (rp_treasury_y p + rp_first_royalty_y p + rp_second_royalty_y p) = rp_owed_y p"
    using assms u64_bound [of "rp_reserves_x p"] u64_bound [of "rp_reserves_y p"] unfolding rp_owed_x_def rp_owed_y_def
    by (subst sum; simp)+
  have "rp_tradable_x p = rp_reserves_x p - (rp_treasury_x p + rp_first_royalty_x p + rp_second_royalty_x p)"
    "rp_tradable_y p = rp_reserves_y p - (rp_treasury_y p + rp_first_royalty_y p + rp_second_royalty_y p)"
    by (simp_all add: rp_tradable_x_def rp_tradable_y_def)
  then show "unat (rp_tradable_x p) = unat (rp_reserves_x p) - rp_owed_x p"
    "unat (rp_tradable_y p) = unat (rp_reserves_y p) - rp_owed_y p"
    using assms x y by (simp_all add: unat_minus_le)
qed

lemma rp_trade:
  assumes sub: "exact_sub sub" and sw: "rp_swap sub input p = Some p'" and fits: "cf_trade_fits (os_unwrap input) (Royalty p)"
    and wf: "rp_next p p"
  shows "rp_next p p' \<and> unat (rp_tradable_x p) * unat (rp_tradable_y p) \<le> unat (rp_tradable_x p') * unat (rp_tradable_y p')"
proof -
  define i where "i = os_unwrap input"
  define is_x where "is_x = input_is_x (rp_asset_x p) (rp_asset_y p) input"
  note fits = fits [unfolded cf_trade_fits.simps, folded i_def]
  have pf: "pool_fits (rp_asset_x p) (rp_asset_y p) (rp_reserves_x p) (rp_reserves_y p) (rp_owed_x p) (rp_owed_y p) i"
    using fits by blast
  note pf' = pf [unfolded pool_fits_def]
  obtain out t f s where out: "rp_side_output sub p input = Some out" and acc: "accrue i (rp_treasury_fee p) = Some t"
      "accrue i (rp_first_royalty_fee p) = Some f" "accrue i (rp_second_royalty_fee p) = Some s"
    using sw by (auto simp: rp_swap_def bind_eq_Some_conv Let_def i_def)
  let ?fee = "rp_trade_fee sub p"
  have oa: "classic_cfmm_output_amount (rp_asset_x p) (rp_asset_y p) (rp_tradable_x p) (rp_tradable_y p)
      (if is_x then rp_asset_x p else rp_asset_y p) i ?fee ?fee = Some out"
    using out side_output_oriented [of "rp_asset_x p" "rp_asset_y p" "rp_output_amount sub p" input] pf'
    by (simp add: rp_side_output_def rp_output_amount_def is_x_def i_def)
  note nn = fee_like_bounds(4)
  have fl: "fee_like ?fee \<and> fee_val ?fee = fee_val (rp_lp_fee p) - fee_val (rp_treasury_fee p) -
      fee_val (rp_first_royalty_fee p) - fee_val (rp_second_royalty_fee p)"
    using fits nn [of "rp_treasury_fee p"] nn [of "rp_first_royalty_fee p"] nn [of "rp_second_royalty_fee p"]
    unfolding rp_trade_fee_def by (simp add: exact_subD [OF sub])
  have a: "of_nat (unat t) \<le> of_nat (unat i) * fee_val (rp_treasury_fee p)"
    "of_nat (unat f) \<le> of_nat (unat i) * fee_val (rp_first_royalty_fee p)"
    "of_nat (unat s) \<le> of_nat (unat i) * fee_val (rp_second_royalty_fee p)"
    using accrue_bound acc fits pf' by auto
  let ?a = "unat t + unat f + unat s"
  let ?v = "fee_val (rp_treasury_fee p) + fee_val (rp_first_royalty_fee p) + fee_val (rp_second_royalty_fee p)"
  have sum: "of_nat ?a \<le> of_nat (unat i) * ?v" using a by (simp add: distrib_left)
  have v1: "?v \<le> 1" using fits fee_like_bounds(5) [of "rp_lp_fee p"] by simp
  then have "of_nat (unat i) * ?v \<le> of_nat (unat i) * 1" by (intro mult_left_mono) auto
  then have "of_nat ?a \<le> (of_nat (unat i) :: rat)" using sum by linarith
  then have ai: "?a \<le> unat i" by (simp only: of_nat_le_iff)
  have "fee_val ?fee \<le> 1 - ?v" using fl fits fee_like_bounds(5) [of "rp_lp_fee p"] by simp
  then have "of_nat (unat i) * fee_val ?fee \<le> of_nat (unat i) * (1 - ?v)" by (intro mult_left_mono) auto
  then have j: "of_nat (unat i) * fee_val ?fee \<le> of_nat (unat i) - of_nat ?a"
    using sum by (simp add: algebra_simps)
  have A: "unat (t + f + s) = ?a"
    using ai u64_bound [of i] by (subst unat_plus_small; subst unat_plus_small) auto
  have s0: "s = 0" if "rp_ver p \<noteq> RyV2" using acc(3) fits that by (auto simp: accrue_def split: if_splits)
  note ow = rp_owed [of p, OF conjunct1 [OF conjunct2 [OF pf']] conjunct1 [OF conjunct2 [OF conjunct2 [OF pf']]]]
  have fee': "fee_like (if is_x then ?fee else ?fee)" using fl by simp
  note w = pool_trade [OF pf ow(3,4) oa fee' ai, unfolded if_cancel, OF j]
  have p': "p' = (if is_x
      then p\<lparr>rp_reserves_x := rp_reserves_x p + i, rp_reserves_y := rp_reserves_y p - out, rp_treasury_x := rp_treasury_x p + t,
        rp_first_royalty_x := rp_first_royalty_x p + f, rp_second_royalty_x := rp_second_royalty_x p + s\<rparr>
      else p\<lparr>rp_reserves_y := rp_reserves_y p + i, rp_reserves_x := rp_reserves_x p - out, rp_treasury_y := rp_treasury_y p + t,
        rp_first_royalty_y := rp_first_royalty_y p + f, rp_second_royalty_y := rp_second_royalty_y p + s\<rparr>)"
    using sw out acc by (auto simp: rp_swap_def i_def is_x_def Let_def)
  let ?ox = "rp_treasury_x p + rp_first_royalty_x p + rp_second_royalty_x p"
  let ?oy = "rp_treasury_y p + rp_first_royalty_y p + rp_second_royalty_y p"
  note wf' = wf [unfolded rp_next_def]
  show ?thesis
  proof (cases is_x)
    case True
    note w = w(1) [OF True, unfolded ow]
    have "unat (rp_reserves_x p) + unat i < 2 ^ 64" "unat ?ox < unat (rp_reserves_x p)" "unat (t + f + s) \<le> unat i"
      "unat out < unat (rp_reserves_y p) - unat ?oy" using pf' ow w A ai by auto
    note g = gain_side [OF this(1-3)] pay_side [OF this(4)]
    have "rp_next p p'" using g(2,4) wf' s0 by (simp add: p' True rp_next_def algebra_simps)
    moreover have "rp_tradable_x p' = rp_reserves_x p + i - (?ox + (t + f + s))" "rp_tradable_y p' = rp_reserves_y p - out - ?oy"
      by (simp_all add: p' True rp_tradable_x_def rp_tradable_y_def)
    ultimately show ?thesis using w unfolding ow by (simp add: g ow A)
  next
    case False
    note w = w(2) [OF False, unfolded ow]
    have "unat (rp_reserves_y p) + unat i < 2 ^ 64" "unat ?oy < unat (rp_reserves_y p)" "unat (t + f + s) \<le> unat i"
      "unat out < unat (rp_reserves_x p) - unat ?ox" using pf' ow w A ai by auto
    note g = gain_side [OF this(1-3)] pay_side [OF this(4)]
    have "rp_next p p'" using g(2,4) wf' s0 by (simp add: p' False rp_next_def algebra_simps)
    moreover have "rp_tradable_y p' = rp_reserves_y p + i - (?oy + (t + f + s))" "rp_tradable_x p' = rp_reserves_x p - out - ?ox"
      by (simp_all add: p' False rp_tradable_x_def rp_tradable_y_def)
    ultimately show ?thesis using w unfolding ow by (simp add: g ow A)
  qed
qed

text \<open>
  C19. A trade never takes value out of a pool: whatever the kind of a constant-product pool and the
  side of the trade, the product of the tradable reserves, what is left of the reserves after the
  accrued treasury and royalties, does not fall, and the traded pool is a next state of the pool:
  only reserves and accrued amounts change and what is owed of an asset stays below what is held.
  The fees are fractions and those kept aside sum to at most the pool's, the numbers fit their
  width, and a native reserve holds the untouchable amount.
\<close>

theorem trade_keeps_product:
  assumes "exact_sub sub" and "cf_swap sub input p = Some p'"
    and "cf_trade_fits (os_unwrap input) p" and "cf_next p p"
  shows "cf_next p p' \<and> unat (fst (cf_tradable p)) * unat (snd (cf_tradable p)) \<le>
    unat (fst (cf_tradable p')) * unat (snd (cf_tradable p'))"
proof (cases p)
  case (Classic q)
  then obtain q' where q': "p' = Classic q'" "cp_swap input q = Some q'" using assms(2) by auto
  then have "cp_next q q'" by (cases input; cases "cp_asset_x q = cp_base q") (auto simp: cp_swap_def cp_next_def)
  then show ?thesis using Classic q' assms(3) swap_keeps_product [OF q'(2)] by simp
next
  case (FeeSwitch q)
  then show ?thesis using assms fs_trade [OF assms(1)] by auto
next
  case (Royalty q)
  then show ?thesis using assms rp_trade [OF assms(1)] by auto
qed

subsection \<open>A concrete difference\<close>

definition plain_sub :: ratio_sub where
  "plain_sub a b = (fst a * (100000 div snd a) - fst b * (100000 div snd b), 100000)"

lemma scaled_fee:
  assumes "fee_like r"
  shows "of_nat (unat (fst r * (100000 div snd r))) = fee_val r * 100000" "unat (fst r * (100000 div snd r)) \<le> 100000"
proof -
  note b = fee_like_bounds [OF assms]
  have k: "unat (snd r) * unat (100000 div snd r) = 100000"
    using assms by (simp add: fee_like_def unat_div)
  have le: "unat (fst r) * unat (100000 div snd r) \<le> 100000"
    using mult_le_mono1 [OF b(3), of "unat (100000 div snd r)"] k by simp
  then have m: "unat (fst r * (100000 div snd r)) = unat (fst r) * unat (100000 div snd r)"
    by (intro unat_mult_lem [THEN iffD1]) simp
  show "unat (fst r * (100000 div snd r)) \<le> 100000" using le m by simp
  have "of_nat (unat (snd r)) * of_nat (unat (100000 div snd r)) = (100000 :: rat)"
    using arg_cong [OF k, of "of_nat :: nat \<Rightarrow> rat"] by (simp only: of_nat_mult of_nat_numeral)
  then show "of_nat (unat (fst r * (100000 div snd r))) = fee_val r * 100000"
    using b(1) unfolding m fee_val_def by (simp only: of_nat_mult) (simp add: field_simps)
qed

lemma plain_sub_exact: "exact_sub plain_sub"
  unfolding exact_sub_def
proof (intro allI impI)
  fix a b assume a: "fee_like a" and b: "fee_like b" and le: "fee_val b \<le> fee_val a"
  let ?x = "fst a * (100000 div snd a)" and ?y = "fst b * (100000 div snd b)"
  have "of_nat (unat ?y) \<le> (of_nat (unat ?x) :: rat)" unfolding scaled_fee [OF a] scaled_fee [OF b] using le by simp
  then have yx: "unat ?y \<le> unat ?x" by simp
  then have d: "unat (?x - ?y) = unat ?x - unat ?y" by (rule unat_minus_le)
  then have "?x - ?y \<le> 100000" using scaled_fee(2) [OF a] by (simp add: word_le_nat_alt)
  then have "fee_like (plain_sub a b)" by (simp add: fee_like_def plain_sub_def)
  moreover have "fee_val (plain_sub a b) = fee_val a - fee_val b"
    using yx unfolding plain_sub_def by (subst fee_val_def) (simp add: d of_nat_diff scaled_fee [OF a] scaled_fee [OF b]
        diff_divide_distrib)
  ultimately show "fee_like (plain_sub a b) \<and> fee_val (plain_sub a b) = fee_val a - fee_val b" ..
qed

text \<open>The pool and trade of the test \<open>treasury_x_test\<close> of cfmm_pool.rs.\<close>

definition tested_pool :: fee_switch_pool where
  "tested_pool = (sample_fee_switch FsV2 1632109645 1472074052 10 11500 2909)
     \<lparr>fs_lp_fee_x := (99970, 100000), fs_lp_fee_y := (99970, 100000)\<rparr>"

lemma treasury_x_test:
  "\<exists>p'. fs_swap plain_sub (OnAsk 900000000) tested_pool = Some p' \<and> fs_treasury_x p' = 101500"
  by (simp add: fs_swap_def fs_side_output_def pool_side_output_def pool_base_def fs_output_amount_def
      classic_cfmm_output_amount_def div_u128_def tested_pool_def sample_fee_switch_def plain_sub_def wide_def
      fs_tradable_x_def fs_tradable_y_def accrue_def input_is_x_def fee_den_def Let_def)

theorem trade_keeps_product_witness:
  "\<exists>p'. cf_swap plain_sub (OnAsk 900000000) (FeeSwitch tested_pool) = Some p' \<and> cf_next (FeeSwitch tested_pool) p' \<and>
    1632098145 * 1472071143 \<le> unat (fst (cf_tradable p')) * unat (snd (cf_tradable p'))"
proof -
  obtain q where q: "fs_swap plain_sub (OnAsk 900000000) tested_pool = Some q" using treasury_x_test by blast
  then have "cf_swap plain_sub (OnAsk 900000000) (FeeSwitch tested_pool) = Some (FeeSwitch q)" by simp
  moreover have "cf_trade_fits (os_unwrap (OnAsk 900000000)) (FeeSwitch tested_pool)"
    by (simp add: tested_pool_def sample_fee_switch_def pool_fits_def fee_like_def fee_den_def fee_val_def)
  moreover have "cf_next (FeeSwitch tested_pool) (FeeSwitch tested_pool)"
    by (simp add: fs_next_def tested_pool_def sample_fee_switch_def)
  ultimately show ?thesis
    using trade_keeps_product [OF plain_sub_exact, of "OnAsk 900000000" "FeeSwitch tested_pool" "FeeSwitch q"]
    by (simp add: tested_pool_def sample_fee_switch_def fs_tradable_x_def fs_tradable_y_def)
qed

end
