(* ===== verification/Pool_Orders_Spec.thy ===== *)
theory Pool_Orders_Spec
  imports Pool_Trades
begin

text \<open>
  Requests on the constant-product pools: what a deposit followed by a redemption, a withdrawal of
  royalties and an action of the DAO may do to a pool of any kind.
\<close>

subsection \<open>Deposits and redemptions\<close>

fun cf_owed :: "const_fn_pool \<Rightarrow> nat \<times> nat" where
  "cf_owed (Classic p) = (0, 0)"
| "cf_owed (FeeSwitch p) = (unat (fs_treasury_x p), unat (fs_treasury_y p))"
| "cf_owed (Royalty p) = (rp_owed_x p, rp_owed_y p)"

definition cf_solvent :: "const_fn_pool \<Rightarrow> bool" where
  "cf_solvent p \<longleftrightarrow> fst (cf_owed p) < unat (fst (cf_pool_reserves p)) \<and>
     snd (cf_owed p) < unat (fst (snd (cf_pool_reserves p)))"

lemma cf_tradable_unat:
  assumes "cf_solvent p" "cf_pool_reserves p = (x, y, l)"
  shows "unat (fst (cf_tradable p)) = unat x - fst (cf_owed p)" "unat (snd (cf_tradable p)) = unat y - snd (cf_owed p)"
  using assms rp_owed
  by (cases p; auto simp: cf_solvent_def fs_tradable_x_def fs_tradable_y_def unat_minus_le)+

lemma cf_shares_of_tradable:
  "cf_reward_lp p nx ny =
    classic_cfmm_reward_lp (fst (cf_tradable p)) (snd (cf_tradable p)) (snd (snd (cf_pool_reserves p))) nx ny"
  "cf_shares_amount p lq =
    classic_cfmm_shares_amount (fst (cf_tradable p)) (snd (cf_tradable p)) (snd (snd (cf_pool_reserves p))) lq"
  by (cases p; simp add: cp_reward_lp_def fs_reward_lp_def rp_reward_lp_def cp_shares_amount_def fs_shares_amount_def
      rp_shares_amount_def)+

lemma cf_set_reserves_simps [simp]:
  "cf_pool_reserves (cf_set_reserves (x, y, l) p) = (x, y, l)" "cf_owed (cf_set_reserves (x, y, l) p) = cf_owed p"
  by (cases p; simp add: rp_owed_x_def rp_owed_y_def)+

text \<open>The change of a deposit is a part of it.\<close>

lemma reward_lp_change:
  assumes "classic_cfmm_reward_lp x y l nx ny = Some (lq, cx, cy)"
  shows "unat cx \<le> unat nx" "unat cy \<le> unat ny"
proof -
  have part: "unat (narrow c) \<le> unat n"
    if "div_u128 (wide n * wide l) (wide r) = Some big" "div_u128 ((big - small) * wide r) (wide l) = Some c" "small < big"
    for n r :: u64 and big small c :: u128
  proof -
    have "unat (big - small) \<le> unat big" using that(3) by (simp add: unat_sub word_le_nat_alt word_less_nat_alt)
    then have "unat (big - small) * unat r \<le> unat big * unat r" by (rule mult_le_mono1)
    moreover have "unat big * unat r \<le> unat n * unat l" using div_u128_le [OF that(1)] by (simp add: unat_wide_mult)
    moreover have "unat ((big - small) * wide r) \<le> unat (big - small) * unat r" by (simp add: unat_word_ariths)
    ultimately have "unat c * unat l \<le> unat n * unat l" using div_u128_le [OF that(2)] unfolding unat_wide by linarith
    moreover have "0 < unat l" using div_u128_some [OF that(2)] by simp
    ultimately show ?thesis using unat_narrow_le [of c] by simp
  qed
  obtain mx my where m: "div_u128 (wide nx * wide l) (wide x) = Some mx" "div_u128 (wide ny * wide l) (wide y) = Some my"
    and change: "(if mx = my then Some (0, 0)
          else if mx < my then map_option (\<lambda>c. (0, narrow c)) (div_u128 ((my - mx) * wide y) (wide l))
          else map_option (\<lambda>c. (narrow c, 0)) (div_u128 ((mx - my) * wide x) (wide l))) = Some (cx, cy)"
    using assms by (auto simp: classic_cfmm_reward_lp_def bind_eq_Some_conv split: if_splits)
  consider "mx = my" | "mx < my" | "my < mx" by (metis linorder_neq_iff)
  then have "unat cx \<le> unat nx \<and> unat cy \<le> unat ny"
  proof cases
    case 2
    then show ?thesis using change part [OF m(2) _ 2] less_imp_neq [OF 2] by auto
  next
    case 3
    then show ?thesis using change part [OF m(1) _ 3] less_imp_neq [OF 3] order_less_not_sym [OF 3] by auto
  qed (use change in simp)
  then show "unat cx \<le> unat nx" "unat cy \<le> unat ny" by auto
qed

lemma cf_deposit_some:
  assumes "cf_apply_deposit vs dep p = Some (Inr (p', bp))" "cf_pool_reserves p = (x, y, l)"
  shows "\<exists>net_x net_y lq cx cy x' y' l'.
    deposit_net (dp_token_x (co_order dep)) (dp_token_x_amount (co_order dep)) (co_order dep) = Some net_x \<and>
    deposit_net (dp_token_y (co_order dep)) (dp_token_y_amount (co_order dep)) (co_order dep) = Some net_y \<and>
    cf_reward_lp p net_x net_y = Some (lq, cx, cy) \<and> p' = cf_set_reserves (x', y', l') p \<and>
    unat x' = unat x + unat net_x - unat cx \<and> unat y' = unat y + unat net_y - unat cy \<and>
    unat l' = unat l + unat lq \<and>
    (\<exists>out. bp_outputs bp = SingleOutput out \<and> do_token_lq_amount out = lq \<and>
      do_token_x_charge_amount out = cx \<and> do_token_y_charge_amount out = cy)"
  using assms
  by (fastforce simp: cf_apply_deposit_def Let_def or_incompatible_def bind_eq_Some_conv single_output_def
      dest: checked_add_nat checked_sub_nat split: option.splits prod.splits)

lemma cf_redeem_some:
  assumes "cf_apply_redeem vs red p = Some (Inr (p', bp))" "cf_pool_reserves p = (x, y, l)"
  shows "\<exists>ax ay x' y' l'. cf_shares_amount p (rd_token_lq_amount (co_order red)) = Some (ax, ay) \<and>
    p' = cf_set_reserves (x', y', l') p \<and> unat x' + unat ax = unat x \<and> unat y' + unat ay = unat y \<and>
    unat l' + unat (rd_token_lq_amount (co_order red)) = unat l \<and>
    (\<exists>out. bp_outputs bp = SingleOutput out \<and> ro_token_x_amount out = ax \<and> ro_token_y_amount out = ay)"
  using assms
  by (fastforce simp: cf_apply_redeem_def Let_def or_incompatible_def bind_eq_Some_conv single_output_def
      dest: checked_sub_nat split: option.splits prod.splits)

lemma no_gain:
  fixes a n c t t' l lq :: nat
  assumes "a * (l + lq) \<le> lq * t'" "0 < l + lq" "lq * t \<le> (n - c) * l" "t' = t + n - c" "c \<le> n"
  shows "a \<le> n - c"
proof -
  have "lq * t' = lq * t + lq * (n - c)" using assms(4,5) by (simp flip: add_mult_distrib2)
  then have "a * (l + lq) \<le> (n - c) * (l + lq)" using assms(1,3) by (simp add: algebra_simps)
  then show ?thesis using assms(2) by (simp only: mult_le_cancel2)
qed

text \<open>
  C21. No order of a deposit and a redemption makes a profit from a pool of any kind: whoever
  deposits and then redeems the very shares the deposit unlocked is paid, of each asset, at most
  what the deposit left in the pool, and the pool is left with all its liquidity, what it owed and
  no smaller reserves, whatever the amounts, although shares and change are rounded and truncated
  to 64 bits. The pool holds more than the treasury and royalties it owes.
\<close>

theorem deposit_redeem_no_gain:
  assumes "cf_apply_deposit vs dep p = Some (Inr (p', bp))"
    and "cf_apply_redeem vs red p' = Some (Inr (p'', bp'))"
    and "bp_outputs bp = SingleOutput out" "rd_token_lq_amount (co_order red) = do_token_lq_amount out"
    and "cf_solvent p"
  shows "\<exists>net_x net_y paid.
    deposit_net (dp_token_x (co_order dep)) (dp_token_x_amount (co_order dep)) (co_order dep) = Some net_x \<and>
    deposit_net (dp_token_y (co_order dep)) (dp_token_y_amount (co_order dep)) (co_order dep) = Some net_y \<and>
    bp_outputs bp' = SingleOutput paid \<and>
    unat (ro_token_x_amount paid) + unat (do_token_x_charge_amount out) \<le> unat net_x \<and>
    unat (ro_token_y_amount paid) + unat (do_token_y_charge_amount out) \<le> unat net_y \<and>
    cf_owed p'' = cf_owed p \<and> snd (snd (cf_pool_reserves p'')) = snd (snd (cf_pool_reserves p)) \<and>
    fst (cf_pool_reserves p) \<le> fst (cf_pool_reserves p'') \<and>
    fst (snd (cf_pool_reserves p)) \<le> fst (snd (cf_pool_reserves p''))"
proof -
  obtain x y l where r: "cf_pool_reserves p = (x, y, l)" by (metis surj_pair)
  from cf_deposit_some [OF assms(1) r] obtain nx ny lq cx cy x' y' l' where
    net: "deposit_net (dp_token_x (co_order dep)) (dp_token_x_amount (co_order dep)) (co_order dep) = Some nx"
    "deposit_net (dp_token_y (co_order dep)) (dp_token_y_amount (co_order dep)) (co_order dep) = Some ny"
    and reward: "cf_reward_lp p nx ny = Some (lq, cx, cy)" and p': "p' = cf_set_reserves (x', y', l') p"
    and s: "unat x' = unat x + unat nx - unat cx" "unat y' = unat y + unat ny - unat cy" "unat l' = unat l + unat lq"
    and out: "do_token_lq_amount out = lq" "do_token_x_charge_amount out = cx" "do_token_y_charge_amount out = cy"
    using assms(3) by auto
  have r': "cf_pool_reserves p' = (x', y', l')" by (simp add: p')
  from cf_redeem_some [OF assms(2) r'] obtain ax ay x2 y2 l2 paid where
    shares: "cf_shares_amount p' lq = Some (ax, ay)" and p2: "p'' = cf_set_reserves (x2, y2, l2) p'"
    and s2: "unat x2 + unat ax = unat x'" "unat y2 + unat ay = unat y'" "unat l2 + unat lq = unat l'"
    and paid: "bp_outputs bp' = SingleOutput paid" "ro_token_x_amount paid = ax" "ro_token_y_amount paid = ay"
    using assms(4) out by auto
  note c = reward_lp_change [OF reward [unfolded cf_shares_of_tradable]]
  note b = reward_lp_bounds [OF reward [unfolded cf_shares_of_tradable]] shares_amount_bounds [OF shares [unfolded cf_shares_of_tradable]]
  have sv: "fst (cf_owed p) < unat x" "snd (cf_owed p) < unat y" using assms(5) r by (auto simp: cf_solvent_def)
  have "fst (cf_owed p) < unat x'" "snd (cf_owed p) < unat y'" using sv s c by linarith+
  then have "cf_solvent p'" by (simp add: cf_solvent_def p')
  note t = cf_tradable_unat [OF assms(5) r] cf_tradable_unat [OF this r']
  have tx: "unat (fst (cf_tradable p')) = unat (fst (cf_tradable p)) + unat nx - unat cx"
    using t(1,3) s(1) sv(1) c(1) unfolding p' cf_set_reserves_simps by linarith
  have ty: "unat (snd (cf_tradable p')) = unat (snd (cf_tradable p)) + unat ny - unat cy"
    using t(2,4) s(2) sv(2) c(2) unfolding p' cf_set_reserves_simps by linarith
  have l: "snd (snd (cf_pool_reserves p)) = l" "snd (snd (cf_pool_reserves p')) = l'" by (simp_all add: r r')
  note b = b(1) [THEN conjunct1] b(1) [THEN conjunct2] b(2) [THEN conjunct1] b(2) [THEN conjunct2, THEN conjunct1]
    b(2) [THEN conjunct2, THEN conjunct2]
  note b = b [unfolded l s(3)]
  have gx: "unat ax \<le> unat nx - unat cx" by (rule no_gain [OF b(3,5,1) tx c(1)])
  have gy: "unat ay \<le> unat ny - unat cy" by (rule no_gain [OF b(4,5,2) ty c(2)])
  have "l2 = l" using s(3) s2(3) by (simp add: word_unat_eq_iff)
  moreover have "x \<le> x2" "y \<le> y2" using s s2 gx gy c by (simp_all add: word_le_nat_alt)
  moreover have "unat ax + unat cx \<le> unat nx" "unat ay + unat cy \<le> unat ny" using gx gy c by linarith+
  ultimately show ?thesis using net paid out by (simp add: r p2 p')
qed

subsection \<open>A sample\<close>

definition sample_validators :: validators where
  "sample_validators v = \<lparr> dv_reference_utxo = (OutputRef 0 0, sample_pool_out 0 []), dv_hash = sample_script_hash v,
     dv_cost = units_empty, dv_marginal_cost = units_empty \<rparr>"

definition liquid_pool :: const_fn_pool where
  "liquid_pool = FeeSwitch (tested_pool\<lparr>fs_liquidity := 1500000000\<rparr>)"

definition liquid_deposit :: "deposit_order classical_order" where
  "liquid_deposit = \<lparr> co_id = OutputRef 7 0, co_pool_id = sample_token 3, co_order = \<lparr> dp_pool_nft = sample_token 3,
     dp_token_x = Native, dp_token_x_amount = 1500, dp_token_y = TokenClass (sample_token 1), dp_token_y_amount = 370,
     dp_token_lq = TokenClass (sample_token 2), dp_ex_fee = 300, dp_reward_pkh = 1, dp_reward_stake_pkh = None,
     dp_collateral_ada = 200, dp_order_type = ConstFnFeeSwitch \<rparr> \<rparr>"

definition liquid_redeem :: "redeem_order classical_order" where
  "liquid_redeem = \<lparr> co_id = OutputRef 8 0, co_pool_id = sample_token 3, co_order = \<lparr> rd_pool_nft = sample_token 3,
     rd_token_x = Native, rd_token_y = TokenClass (sample_token 1), rd_token_lq = TokenClass (sample_token 2),
     rd_token_lq_amount = 377, rd_ex_fee = 300, rd_reward_pkh = 1, rd_reward_stake_pkh = None,
     rd_collateral_ada = 200, rd_order_type = ConstFnFeeSwitch \<rparr> \<rparr>"

lemma liquid_run:
  "\<exists>p' bp out p'' bp'. cf_apply_deposit sample_validators liquid_deposit liquid_pool = Some (Inr (p', bp)) \<and>
    cf_apply_redeem sample_validators liquid_redeem p' = Some (Inr (p'', bp')) \<and>
    bp_outputs bp = SingleOutput out \<and> do_token_lq_amount out = 377 \<and> do_token_x_charge_amount out = 589"
proof -
  have tr: "cf_tradable liquid_pool = (1632098145, 1472071143)"
    "cf_pool_reserves liquid_pool = (1632109645, 1472074052, 1500000000)"
    by (simp_all add: liquid_pool_def tested_pool_def sample_fee_switch_def fs_tradable_x_def fs_tradable_y_def)
  let ?d = "co_order liquid_deposit"
  have net: "deposit_net (dp_token_x ?d) (dp_token_x_amount ?d) ?d = Some 1000"
    "deposit_net (dp_token_y ?d) (dp_token_y_amount ?d) ?d = Some 370"
    by (simp_all add: liquid_deposit_def deposit_net_def checked_sub_def)
  have reward: "cf_reward_lp liquid_pool 1000 370 = Some (377, 589, 0)"
    by (simp add: cf_shares_of_tradable tr classic_cfmm_reward_lp_def div_u128_def wide_def narrow_def)
  define p' where "p' = cf_set_reserves (1632110056, 1472074422, 1500000377) liquid_pool"
  obtain bp out where d: "cf_apply_deposit sample_validators liquid_deposit liquid_pool = Some (Inr (p', bp))"
      "bp_outputs bp = SingleOutput out" "do_token_lq_amount out = 377" "do_token_x_charge_amount out = 589"
    using net by (simp add: cf_apply_deposit_def Let_def tr reward checked_add_def checked_sub_def or_incompatible_def
        single_output_def p'_def)
  have "cf_tradable p' = (1632098556, 1472071513)"
    by (simp add: p'_def liquid_pool_def tested_pool_def sample_fee_switch_def fs_tradable_x_def fs_tradable_y_def)
  then have "cf_shares_amount p' 377 = Some (410, 369)"
    by (simp add: cf_shares_of_tradable p'_def classic_cfmm_shares_amount_def div_u128_def wide_def narrow_def)
  then obtain p'' bp' where "cf_apply_redeem sample_validators liquid_redeem p' = Some (Inr (p'', bp'))"
    by (simp add: cf_apply_redeem_def liquid_redeem_def p'_def checked_sub_def or_incompatible_def)
  then show ?thesis using d by blast
qed

theorem deposit_redeem_no_gain_witness:
  "\<exists>p' bp p'' bp' paid. cf_apply_deposit sample_validators liquid_deposit liquid_pool = Some (Inr (p', bp)) \<and>
    cf_apply_redeem sample_validators liquid_redeem p' = Some (Inr (p'', bp')) \<and>
    bp_outputs bp' = SingleOutput paid \<and> unat (ro_token_x_amount paid) + 589 \<le> 1000"
proof -
  obtain p' bp out p'' bp' where r: "cf_apply_deposit sample_validators liquid_deposit liquid_pool = Some (Inr (p', bp))"
    "cf_apply_redeem sample_validators liquid_redeem p' = Some (Inr (p'', bp'))"
    "bp_outputs bp = SingleOutput out" "do_token_lq_amount out = 377" "do_token_x_charge_amount out = 589"
    using liquid_run by blast
  have "cf_solvent liquid_pool" by (simp add: cf_solvent_def liquid_pool_def tested_pool_def sample_fee_switch_def)
  moreover have "deposit_net (dp_token_x (co_order liquid_deposit)) (dp_token_x_amount (co_order liquid_deposit))
      (co_order liquid_deposit) = Some 1000"
    by (simp add: liquid_deposit_def deposit_net_def checked_sub_def)
  ultimately show ?thesis using deposit_redeem_no_gain [OF r(1-3)] r by (auto simp: liquid_redeem_def)
qed

subsection \<open>Withdrawals of royalties\<close>

definition signed_by :: "crypto_ops \<Rightarrow> bytes \<Rightarrow> royalty_withdraw \<Rightarrow> plutus_data \<Rightarrow> bool" where
  "signed_by Y key req pd \<longleftrightarrow>
     cy_verify Y key (ry_additional_bytes req @ cy_to_cbor Y pd) (ry_signature req) \<or>
     cy_verify Y key (ry_additional_bytes req @ cy_blake2b224 Y (cy_to_cbor Y pd)) (ry_signature req)"

lemma signed_form_some:
  "signed_form Y key m h sig = Some b \<Longrightarrow> cy_verify Y key m sig \<or> cy_verify Y key h sig"
  by (auto simp: signed_form_def split: if_splits)

lemma or_incompatible_Inr: "map_sum f g (or_incompatible ord r) = Inr b \<longleftrightarrow> (\<exists>a. r = Some a \<and> b = g a)"
  by (cases r) (auto simp: or_incompatible_def)

lemma apply_royalty_withdraw_some:
  assumes "apply_royalty_withdraw Y vs fee ord q = Some (Inr (q', bp))"
  shows "\<exists>pd key snd_holder.
    data_to_sign_into_pd \<lparr> ds_withdraw_data = into_withdraw_data (co_order ord), ds_pool_nonce = rp_nonce q \<rparr> = Some pd \<and>
    cy_public_key Y (if snd_holder then rp_second_royalty_pub_key q else rp_first_royalty_pub_key q) = Some key \<and>
    (snd_holder \<longrightarrow> rp_ver q = RyV2) \<and> signed_by Y key (co_order ord) pd \<and>
    (if snd_holder then withdraw_second (co_order ord) q else withdraw_first (co_order ord) q) = Some q' \<and>
    bp_outputs bp = SingleOutput (royalty_output_of (co_order ord) q) \<and> bp_strict_fee bp = Some fee"
proof -
  let ?req = "co_order ord"
  obtain v m h where v: "royalty_get_validator vs ord = Some v" and mh: "messages_to_sign Y ?req (rp_nonce q) = Some (m, h)"
    using assms by (auto simp: apply_royalty_withdraw_def Let_def bind_eq_Some_conv)
  obtain pd where pd: "data_to_sign_into_pd \<lparr> ds_withdraw_data = into_withdraw_data ?req, ds_pool_nonce = rp_nonce q \<rparr> = Some pd"
    and m: "m = ry_additional_bytes ?req @ cy_to_cbor Y pd" "h = ry_additional_bytes ?req @ cy_blake2b224 Y (cy_to_cbor Y pd)"
    using mh by (auto simp: messages_to_sign_def Let_def bind_eq_Some_conv)
  have sb: "signed_by Y key ?req pd" if "signed_form Y key m h (ry_signature ?req) = Some b" for key b
    using signed_form_some [OF that] by (simp add: signed_by_def m)
  note run = assms [unfolded apply_royalty_withdraw_def Let_def v mh]
  show ?thesis
  proof (cases "rp_ver q = RyV2")
    case True
    obtain k1 k2 where k: "cy_public_key Y (rp_first_royalty_pub_key q) = Some k1"
        "cy_public_key Y (rp_second_royalty_pub_key q) = Some k2"
      using run True by (auto simp: bind_eq_Some_conv)
    show ?thesis
    proof (cases "signed_form Y k1 m h (ry_signature ?req)")
      case (Some b)
      have "withdraw_first ?req q = Some q'" "bp_outputs bp = SingleOutput (royalty_output_of ?req q)" "bp_strict_fee bp = Some fee"
        using run True k Some by (auto simp: or_incompatible_Inr)
      then show ?thesis using pd k sb [OF Some] by (intro exI [of _ pd] exI [of _ k1] exI [of _ False]) simp
    next
      case None
      obtain b where b: "signed_form Y k2 m h (ry_signature ?req) = Some b"
        using run True k None by (cases "signed_form Y k2 m h (ry_signature ?req)") auto
      have "withdraw_second ?req q = Some q'" "bp_outputs bp = SingleOutput (royalty_output_of ?req q)" "bp_strict_fee bp = Some fee"
        using run True k None b by (auto simp: or_incompatible_Inr)
      then show ?thesis using True pd k sb [OF b] by (intro exI [of _ pd] exI [of _ k2] exI [of _ True]) simp
    qed
  next
    case False
    obtain k where k: "cy_public_key Y (rp_first_royalty_pub_key q) = Some k"
      using run False by (auto simp: bind_eq_Some_conv)
    obtain b where b: "signed_form Y k m h (ry_signature ?req) = Some b"
      using run False k by (cases "signed_form Y k m h (ry_signature ?req)") auto
    have "withdraw_first ?req q = Some q'" "bp_outputs bp = SingleOutput (royalty_output_of ?req q)" "bp_strict_fee bp = Some fee"
      using run False k b by (auto simp: or_incompatible_Inr)
    then show ?thesis using pd k sb [OF b] by (intro exI [of _ pd] exI [of _ k] exI [of _ False]) simp
  qed
qed

lemma checked_sub_owed:
  assumes "checked_sub a w = Some a'"
  shows "a' = a - w" "unat a' + unat w = unat a"
  using checked_sub_nat [OF assms] assms by (auto simp: checked_sub_def split: if_splits)

lemma withdrawal_next:
  assumes w: "(if second then withdraw_second req q else withdraw_first req q) = Some q'" "second \<longrightarrow> rp_ver q = RyV2"
    and ok: "rp_next q q" "rp_owed_x q < unat (rp_reserves_x q)" "rp_owed_y q < unat (rp_reserves_y q)"
  shows "rp_next q q' \<and> rp_tradable_x q' = rp_tradable_x q \<and> rp_tradable_y q' = rp_tradable_y q \<and>
    rp_owed_x q' + unat (ry_withdraw_royalty_x req) = rp_owed_x q \<and> rp_owed_y q' + unat (ry_withdraw_royalty_y req) = rp_owed_y q \<and>
    unat (rp_reserves_x q') + unat (ry_withdraw_royalty_x req) = unat (rp_reserves_x q) \<and>
    unat (rp_reserves_y q') + unat (ry_withdraw_royalty_y req) = unat (rp_reserves_y q)"
proof -
  have ow: "rp_owed_x q' + unat (ry_withdraw_royalty_x req) = rp_owed_x q" "rp_owed_y q' + unat (ry_withdraw_royalty_y req) = rp_owed_y q"
    and rs: "unat (rp_reserves_x q') + unat (ry_withdraw_royalty_x req) = unat (rp_reserves_x q)"
      "unat (rp_reserves_y q') + unat (ry_withdraw_royalty_y req) = unat (rp_reserves_y q)"
    using w by (auto simp: withdraw_first_def withdraw_second_def bind_eq_Some_conv rp_owed_x_def rp_owed_y_def split: if_splits dest!: checked_sub_owed)
  have lt: "rp_owed_x q' < unat (rp_reserves_x q')" "rp_owed_y q' < unat (rp_reserves_y q')" using ok ow rs by linarith+
  have tr: "rp_tradable_x q' = rp_tradable_x q" "rp_tradable_y q' = rp_tradable_y q"
    using rp_owed(3,4) [OF lt] rp_owed(3,4) [OF ok(2,3)] ow rs by (simp_all add: word_unat_eq_iff)
  have "rp_next q q'"
    using w ok(1) rp_owed(1,2) [OF lt] lt
    by (auto simp: withdraw_first_def withdraw_second_def bind_eq_Some_conv rp_next_def word_less_nat_alt split: if_splits)
  then show ?thesis using tr ow rs by blast
qed

lemma on_royalty_pool_Inr:
  "on_royalty_pool ord f p = Some (Inr (p', bp)) \<longleftrightarrow> (\<exists>q q'. p = Royalty q \<and> p' = Royalty q' \<and> f q = Some (Inr (q', bp)))"
proof -
  have "map_sum id (\<lambda>(r', bp). (Royalty r', bp)) r = Inr (p', bp) \<longleftrightarrow> (\<exists>q'. r = Inr (q', bp) \<and> p' = Royalty q')"
    for r :: "'a apply_order_error + royalty_pool \<times> 'b operation_result_blueprint"
    by (cases r) auto
  then show ?thesis by (cases p) (auto simp: on_royalty_pool_def)
qed

text \<open>
  C22. Royalties are only paid to their holder, from what is owed to the holder: when a pool applies
  a withdrawal it is a royalty pool, the request carries a signature by one of the pool's royalty
  keys, the second one only for pools of version 2, of the amounts, the request's own data and the
  current nonce, plain or hashed; the royalties owed to that holder fall by exactly the requested
  amounts, those of the other and the treasury stay, the reserves fall by the same amounts, so what
  can be traded is unchanged, the nonce grows, so the signature cannot be used twice in a row, and
  the output pays exactly these amounts. The new state is one that is written to the ledger and
  read back.
\<close>

theorem royalty_withdrawal_authorised:
  assumes "cf_apply_royalty_withdraw Y vs fee ord p = Some (Inr (p', bp))"
    and "cf_next p p" "cf_solvent p"
  shows "\<exists>q q' pd key second. p = Royalty q \<and> p' = Royalty q' \<and>
    data_to_sign_into_pd \<lparr> ds_withdraw_data = into_withdraw_data (co_order ord), ds_pool_nonce = rp_nonce q \<rparr> = Some pd \<and>
    cy_public_key Y (if second then rp_second_royalty_pub_key q else rp_first_royalty_pub_key q) = Some key \<and>
    (second \<longrightarrow> rp_ver q = RyV2) \<and> signed_by Y key (co_order ord) pd \<and>
    unat (rp_first_royalty_x q') = unat (rp_first_royalty_x q) - (if second then 0 else unat (ry_withdraw_royalty_x (co_order ord))) \<and>
    unat (rp_first_royalty_y q') = unat (rp_first_royalty_y q) - (if second then 0 else unat (ry_withdraw_royalty_y (co_order ord))) \<and>
    rp_treasury_x q' = rp_treasury_x q \<and> rp_treasury_y q' = rp_treasury_y q \<and>
    rp_owed_x q' + unat (ry_withdraw_royalty_x (co_order ord)) = rp_owed_x q \<and>
    rp_owed_y q' + unat (ry_withdraw_royalty_y (co_order ord)) = rp_owed_y q \<and>
    rp_nonce q' = rp_nonce q + 1 \<and> cf_tradable p' = cf_tradable p \<and>
    bp_outputs bp = SingleOutput (royalty_output_of (co_order ord) q) \<and> cf_next p p' \<and> cf_solvent p'"
proof -
  obtain q q' where p: "p = Royalty q" "p' = Royalty q'" and ap: "apply_royalty_withdraw Y vs fee ord q = Some (Inr (q', bp))"
    using assms(1) by (auto simp: cf_apply_royalty_withdraw_def on_royalty_pool_Inr)
  have ok: "rp_next q q" "rp_owed_x q < unat (rp_reserves_x q)" "rp_owed_y q < unat (rp_reserves_y q)"
    using assms(2,3) p by (auto simp: cf_solvent_def)
  from apply_royalty_withdraw_some [OF ap] obtain pd key second where
    1: "data_to_sign_into_pd \<lparr> ds_withdraw_data = into_withdraw_data (co_order ord), ds_pool_nonce = rp_nonce q \<rparr> = Some pd"
      "cy_public_key Y (if second then rp_second_royalty_pub_key q else rp_first_royalty_pub_key q) = Some key"
      "signed_by Y key (co_order ord) pd" "bp_outputs bp = SingleOutput (royalty_output_of (co_order ord) q)"
    and w: "(if second then withdraw_second (co_order ord) q else withdraw_first (co_order ord) q) = Some q'"
    and v2: "second \<longrightarrow> rp_ver q = RyV2" by blast
  note n = withdrawal_next [OF w v2 ok]
  have 2: "unat (rp_first_royalty_x q') = unat (rp_first_royalty_x q) - (if second then 0 else unat (ry_withdraw_royalty_x (co_order ord)))"
    "unat (rp_first_royalty_y q') = unat (rp_first_royalty_y q) - (if second then 0 else unat (ry_withdraw_royalty_y (co_order ord)))"
    "rp_treasury_x q' = rp_treasury_x q" "rp_treasury_y q' = rp_treasury_y q" "rp_nonce q' = rp_nonce q + 1"
    using w by (auto simp: withdraw_first_def withdraw_second_def bind_eq_Some_conv split: if_splits dest: checked_sub_nat)
  have "cf_solvent p'" using n ok by (simp add: cf_solvent_def p)
  moreover have "cf_next p p'" "cf_tradable p' = cf_tradable p" using n by (simp_all add: p)
  ultimately show ?thesis
    using p 1 2 v2 n by (intro exI [of _ q] exI [of _ q'] exI [of _ pd] exI [of _ key] exI [of _ second]) blast
qed

subsection \<open>Actions of the DAO\<close>

text \<open>The members whose signature, at their place in the request, verifies with their key.\<close>

definition signing_members :: "crypto_ops \<Rightarrow> dao_cx \<Rightarrow> dao_v1_request \<Rightarrow> plutus_data \<Rightarrow> nat set" where
  "signing_members Y cx req pd =
     {k. k < length (dx_public_keys cx) \<and> k < length (dq_signatures req) \<and> k < length (dq_additional_bytes req) \<and>
       (\<exists>key. cy_public_key Y (dx_public_keys cx ! k) = Some key \<and>
         cy_verify Y key (dq_additional_bytes req ! k @ cy_to_cbor Y pd) (dq_signatures req ! k))}"

lemma correct_signatures_members:
  "correct_signatures Y (dq_signatures req) (dx_public_keys cx) (map (\<lambda>a. a @ cy_to_cbor Y pd) (dq_additional_bytes req)) =
    card (signing_members Y cx req pd)"
  unfolding correct_signatures_def length_filter_conv_card signing_members_def
  by (rule arg_cong [where f = card]) (auto split: option.splits)

lemma apply_dao_action_some:
  assumes "apply_dao_action Y vs cx ord q = Some (Inr (q', bp))"
  shows "\<exists>pd r. dao_data_to_sign_into_pd (dao_data_to_sign vs (co_order ord) q) = Some pd \<and>
    unat (dx_signature_threshold cx) \<le> card (signing_members Y cx (co_order ord) pd) \<and>
    perform_action (co_order ord) q = Some r \<and> q' = r\<lparr>rp_nonce := rp_nonce r + 1\<rparr> \<and>
    dq_fee (co_order ord) \<le> dq_lovelace (co_order ord)"
  using assms
  by (auto simp: apply_dao_action_def Let_def bind_eq_Some_conv or_incompatible_def correct_signatures_members checked_sub_def
      split: option.splits if_splits)

lemma perform_action_next:
  assumes r: "perform_action req q = Some r" and fees: "snd (dq_pool_fee req) = fee_den" "snd (dq_treasury_fee req) = fee_den"
    and ok: "rp_next q q" "rp_owed_x q < unat (rp_reserves_x q)" "rp_owed_y q < unat (rp_reserves_y q)"
    and q': "q' = r\<lparr>rp_nonce := rp_nonce r + 1\<rparr>"
  shows "rp_tradable_x q' = rp_tradable_x q \<and> rp_tradable_y q' = rp_tradable_y q \<and>
    rp_owed_x q' < unat (rp_reserves_x q') \<and> rp_owed_y q' < unat (rp_reserves_y q') \<and>
    unat (rp_treasury_x q') + (if dq_dao_action req = WithdrawTreasury then unat (dq_treasury_x_abs_delta req) else 0) =
      unat (rp_treasury_x q) \<and>
    unat (rp_treasury_y q') + (if dq_dao_action req = WithdrawTreasury then unat (dq_treasury_y_abs_delta req) else 0) =
      unat (rp_treasury_y q) \<and>
    (rp_stake_part_script_hash q' = rp_stake_part_script_hash q \<longrightarrow> rp_next q q')"
proof (cases "dq_dao_action req = WithdrawTreasury")
  case True
  then obtain x tx y ty where s: "checked_sub (rp_reserves_x q) (dq_treasury_x_abs_delta req) = Some x"
      "checked_sub (rp_treasury_x q) (dq_treasury_x_abs_delta req) = Some tx"
      "checked_sub (rp_reserves_y q) (dq_treasury_y_abs_delta req) = Some y"
      "checked_sub (rp_treasury_y q) (dq_treasury_y_abs_delta req) = Some ty"
    and q'': "q' = q\<lparr>rp_reserves_x := x, rp_treasury_x := tx, rp_reserves_y := y, rp_treasury_y := ty, rp_nonce := rp_nonce q + 1\<rparr>"
    using r q' by (auto simp: perform_action_def withdraw_treasury_def bind_eq_Some_conv)
  note d = checked_sub_owed(2) [OF s(1)] checked_sub_owed(2) [OF s(2)] checked_sub_owed(2) [OF s(3)] checked_sub_owed(2) [OF s(4)]
  have ow: "rp_owed_x q' + unat (dq_treasury_x_abs_delta req) = rp_owed_x q" "rp_owed_y q' + unat (dq_treasury_y_abs_delta req) = rp_owed_y q"
    using d by (simp_all add: q'' rp_owed_x_def rp_owed_y_def)
  have rs: "unat (rp_reserves_x q') + unat (dq_treasury_x_abs_delta req) = unat (rp_reserves_x q)"
    "unat (rp_reserves_y q') + unat (dq_treasury_y_abs_delta req) = unat (rp_reserves_y q)"
    using d by (simp_all add: q'')
  have lt: "rp_owed_x q' < unat (rp_reserves_x q')" "rp_owed_y q' < unat (rp_reserves_y q')" using ok(2,3) ow rs by linarith+
  have "rp_tradable_x q' = rp_tradable_x q" "rp_tradable_y q' = rp_tradable_y q"
    using rp_owed(3,4) [OF lt] rp_owed(3,4) [OF ok(2,3)] ow rs by (simp_all add: word_unat_eq_iff)
  moreover have "rp_next q q'" using ok(1) rp_owed(1,2) [OF lt] lt by (simp add: q'' rp_next_def word_less_nat_alt)
  ultimately show ?thesis using lt d True by (simp add: q'')
next
  case False
  then show ?thesis
    using r q' ok fees
    by (cases "dq_dao_action req")
      (auto simp: perform_action_def rp_next_def rp_owed_x_def rp_owed_y_def rp_tradable_x_def rp_tradable_y_def)
qed

text \<open>
  C23. The DAO acts only with enough of its members: when a pool applies an action it is a royalty
  pool, at least the threshold of the members signed the data of the action with the current nonce,
  each at their place, and the request pays its fee; a withdrawal takes exactly the requested
  amounts from the treasury and from the reserves and any other action takes nothing, so in every
  case what can be traded, and the royalties and their keys, are unchanged and the pool still holds
  more than it owes. Unless the action changes the stake part of the address, the new state is one
  that is written to the ledger and read back.
\<close>

theorem dao_action_authorised:
  assumes "cf_apply_dao_action Y vs cx ord p = Some (Inr (p', bp))"
    and "snd (dq_pool_fee (co_order ord)) = fee_den" "snd (dq_treasury_fee (co_order ord)) = fee_den"
    and "cf_next p p" "cf_solvent p"
  shows "\<exists>q q' pd. p = Royalty q \<and> p' = Royalty q' \<and>
    dao_data_to_sign_into_pd (dao_data_to_sign vs (co_order ord) q) = Some pd \<and>
    unat (dx_signature_threshold cx) \<le> card (signing_members Y cx (co_order ord) pd) \<and>
    dq_fee (co_order ord) \<le> dq_lovelace (co_order ord) \<and> cf_tradable p' = cf_tradable p \<and> cf_solvent p' \<and>
    unat (rp_treasury_x q') +
      (if dq_dao_action (co_order ord) = WithdrawTreasury then unat (dq_treasury_x_abs_delta (co_order ord)) else 0) =
      unat (rp_treasury_x q) \<and>
    unat (rp_treasury_y q') +
      (if dq_dao_action (co_order ord) = WithdrawTreasury then unat (dq_treasury_y_abs_delta (co_order ord)) else 0) =
      unat (rp_treasury_y q) \<and>
    (rp_first_royalty_x q', rp_first_royalty_y q', rp_second_royalty_x q', rp_second_royalty_y q') =
      (rp_first_royalty_x q, rp_first_royalty_y q, rp_second_royalty_x q, rp_second_royalty_y q) \<and>
    (rp_first_royalty_pub_key q', rp_second_royalty_pub_key q') = (rp_first_royalty_pub_key q, rp_second_royalty_pub_key q) \<and>
    rp_nonce q' = rp_nonce q + 1 \<and>
    (rp_stake_part_script_hash q' = rp_stake_part_script_hash q \<longrightarrow> cf_next p p')"
proof -
  obtain q q' where p: "p = Royalty q" "p' = Royalty q'" and ap: "apply_dao_action Y vs cx ord q = Some (Inr (q', bp))"
    using assms(1) by (auto simp: cf_apply_dao_action_def on_royalty_pool_Inr)
  have ok: "rp_next q q" "rp_owed_x q < unat (rp_reserves_x q)" "rp_owed_y q < unat (rp_reserves_y q)"
    using assms(4,5) p by (auto simp: cf_solvent_def)
  from apply_dao_action_some [OF ap] obtain pd r where
    1: "dao_data_to_sign_into_pd (dao_data_to_sign vs (co_order ord) q) = Some pd"
      "unat (dx_signature_threshold cx) \<le> card (signing_members Y cx (co_order ord) pd)"
      "dq_fee (co_order ord) \<le> dq_lovelace (co_order ord)"
    and r: "perform_action (co_order ord) q = Some r" and q': "q' = r\<lparr>rp_nonce := rp_nonce r + 1\<rparr>" by blast
  note n = perform_action_next [OF r assms(2,3) ok q']
  have "(rp_first_royalty_x r, rp_first_royalty_y r, rp_second_royalty_x r, rp_second_royalty_y r) =
      (rp_first_royalty_x q, rp_first_royalty_y q, rp_second_royalty_x q, rp_second_royalty_y q) \<and>
    (rp_first_royalty_pub_key r, rp_second_royalty_pub_key r) = (rp_first_royalty_pub_key q, rp_second_royalty_pub_key q) \<and>
    rp_nonce r = rp_nonce q"
    using r by (auto simp: perform_action_def withdraw_treasury_def bind_eq_Some_conv split: dao_action.splits)
  then show ?thesis using p 1 n by (simp add: q' cf_solvent_def)
qed

subsection \<open>A sample\<close>

definition sample_crypto :: crypto_ops where
  "sample_crypto = \<lparr> cy_hex_encode = id, cy_signature_from_hex = Some, cy_signature_from_bytes = Some,
     cy_signature_bytes = id, cy_public_key = Some, cy_verify = (\<lambda>key msg sig. sig = key), cy_blake2b224 = rev,
     cy_to_cbor = sample_encode \<rparr>"

definition sample_royalty :: royalty_pool where
  "sample_royalty = \<lparr> rp_id = sample_token 3, rp_reserves_x = 5000000, rp_reserves_y = 7000000, rp_liquidity = 1000,
     rp_asset_x = Native, rp_asset_y = TokenClass (sample_token 1), rp_asset_lq = TokenClass (sample_token 2),
     rp_lp_fee = (99700, fee_den), rp_treasury_fee = (10, fee_den), rp_treasury_x = 600, rp_treasury_y = 700,
     rp_first_royalty_fee = (5, fee_den), rp_second_royalty_fee = (5, fee_den), rp_first_royalty_x = 100,
     rp_first_royalty_y = 200, rp_second_royalty_x = 300, rp_second_royalty_y = 400, rp_lq_lower_bound = 0,
     rp_admin_address = 5, rp_treasury_address = 6, rp_first_royalty_pub_key = replicate 32 1,
     rp_second_royalty_pub_key = replicate 32 2, rp_ver = RyV2, rp_marginal_cost = units_empty,
     rp_bounds = \<lparr> min_n2t_lovelace = 0, min_t2t_lovelace = 0 \<rparr>, rp_nonce = 41, rp_stake_part_script_hash = Some 99 \<rparr>"

definition sample_withdraw :: "royalty_withdraw classical_order" where
  "sample_withdraw = \<lparr> co_id = OutputRef 7 0, co_pool_id = sample_token 3, co_order = \<lparr> ry_pool_nft = sample_token 3,
     ry_withdraw_royalty_x = 250, ry_withdraw_royalty_y = 400, ry_royalty_pub_key_hash = 9, ry_fee = 1000,
     ry_signature = replicate 32 2, ry_init_ada_value = 3000, ry_raw_data_to_sign = [], ry_additional_bytes = [],
     ry_requestor_address = Byron, ry_order_type = RoyaltyConstFnV2 \<rparr> \<rparr>"

definition sample_dao_cx :: dao_cx where
  "sample_dao_cx = \<lparr> dx_public_keys = [[1], [2], [3]], dx_signature_threshold = 2, dx_execution_fee = 500 \<rparr>"

definition sample_dao_request :: "dao_v1_request classical_order" where
  "sample_dao_request = \<lparr> co_id = OutputRef 7 0, co_pool_id = sample_token 3, co_order = \<lparr> dq_dao_action = WithdrawTreasury,
     dq_pool_nft = sample_token 3, dq_pool_fee = (99700, fee_den), dq_treasury_fee = (10, fee_den), dq_admin_address = 5,
     dq_pool_stake_script_hash = None, dq_treasury_address = 6, dq_treasury_x_abs_delta = 600, dq_treasury_y_abs_delta = 50,
     dq_requestor_pkh = 8, dq_signatures = [[1], [9], [3]], dq_additional_bytes = [[], [], []], dq_fee = 10,
     dq_lovelace = 20 \<rparr> \<rparr>"

lemma sample_token_into_pd [simp]: "token_into_pd (sample_token c) = Some (ConstrPd 0 [BytesPd (hash28_bytes 0), BytesPd [c]])"
  by (simp add: token_into_pd_def sample_token_def an_as_bytes_def pad32_def)

lemma sample_royalty_sound: "cf_next (Royalty sample_royalty) (Royalty sample_royalty)" "cf_solvent (Royalty sample_royalty)"
  by (simp_all add: rp_next_def sample_royalty_def cf_solvent_def rp_owed_x_def rp_owed_y_def)

theorem royalty_withdrawal_authorised_witness:
  "\<exists>q' bp. cf_apply_royalty_withdraw sample_crypto sample_validators 700 sample_withdraw (Royalty sample_royalty) =
      Some (Inr (Royalty q', bp)) \<and> rp_first_royalty_x q' = 100 \<and> rp_nonce q' = 42 \<and>
    rp_owed_x q' = 750 \<and> rp_owed_y q' = 900"
proof -
  obtain q' bp where run: "cf_apply_royalty_withdraw sample_crypto sample_validators 700 sample_withdraw (Royalty sample_royalty) =
      Some (Inr (Royalty q', bp))"
    by (simp add: cf_apply_royalty_withdraw_def on_royalty_pool_def apply_royalty_withdraw_def royalty_get_validator_def
        messages_to_sign_def data_to_sign_into_pd_def withdraw_data_into_pd_def into_withdraw_data_def signed_form_def
        or_incompatible_def withdraw_second_def checked_sub_def sample_crypto_def sample_royalty_def sample_withdraw_def Let_def
        replicate_eq_replicate)
  from royalty_withdrawal_authorised [OF run sample_royalty_sound] obtain key second where
    k: "cy_public_key sample_crypto (if second then rp_second_royalty_pub_key sample_royalty
        else rp_first_royalty_pub_key sample_royalty) = Some key"
    and sg: "\<exists>pd. signed_by sample_crypto key (co_order sample_withdraw) pd"
    and f: "unat (rp_first_royalty_x q') = unat (rp_first_royalty_x sample_royalty) -
        (if second then 0 else unat (ry_withdraw_royalty_x (co_order sample_withdraw)))"
    and rest: "rp_nonce q' = rp_nonce sample_royalty + 1"
      "rp_owed_x q' + unat (ry_withdraw_royalty_x (co_order sample_withdraw)) = rp_owed_x sample_royalty"
      "rp_owed_y q' + unat (ry_withdraw_royalty_y (co_order sample_withdraw)) = rp_owed_y sample_royalty"
    by auto
  have second
    using k sg by (auto simp: sample_crypto_def sample_royalty_def sample_withdraw_def signed_by_def replicate_eq_replicate
        split: if_splits)
  then have "unat (rp_first_royalty_x q') = 100" using f by (simp add: sample_royalty_def)
  then have "rp_first_royalty_x q' = 100" by (simp add: word_unat_eq_iff)
  then show ?thesis
    using run rest by (auto simp: sample_royalty_def sample_withdraw_def rp_owed_x_def rp_owed_y_def)
qed

theorem dao_action_authorised_witness:
  "\<exists>q' bp. cf_apply_dao_action sample_crypto sample_validators sample_dao_cx sample_dao_request (Royalty sample_royalty) =
      Some (Inr (Royalty q', bp)) \<and> unat (rp_treasury_x q') = 0 \<and> unat (rp_treasury_y q') = 650"
proof -
  obtain q' bp where run: "cf_apply_dao_action sample_crypto sample_validators sample_dao_cx sample_dao_request
      (Royalty sample_royalty) = Some (Inr (Royalty q', bp))"
    by (simp add: cf_apply_dao_action_def on_royalty_pool_def apply_dao_action_def dao_data_to_sign_into_pd_def
        dao_data_to_sign_def correct_signatures_def or_incompatible_def perform_action_def withdraw_treasury_def
        checked_sub_def sample_crypto_def sample_dao_cx_def sample_royalty_def sample_dao_request_def Let_def)
  from dao_action_authorised [OF run _ _ sample_royalty_sound] show ?thesis
    using run by (auto simp: sample_dao_request_def sample_royalty_def)
qed

end
