(* ===== verification/Tx_Blueprint.thy ===== *)
theory Tx_Blueprint
  imports Operation_Output Entity_Events
begin

text \<open>
  The blueprint of a transaction, packages/bloom-offchain-cardano/src/execution_engine/
  execution_state.rs, with the witnesses of scripts of packages/spectrum-offchain-cardano/src/script.rs
  and the mutating accessors of outputs of packages/spectrum-cardano-lib/src/transaction.rs.

  The transaction builder is the ledger library's. It is known by the calls that were made to it: a
  builder is the list of these calls, whether it accepts another one is a parameter, and so is the
  fee it estimates. A call it does not accept is a panic, as are the other unwraps of the source:
  \<open>None\<close>.
\<close>

subsection \<open>The ledger library\<close>

datatype finalized_tx_out = FinalizedTxOut (fo_output: tx_output) (fo_reference: output_ref)

datatype redeemer_tag = SpendTag | RewardTag

datatype builder_call =
    AddReferenceInput output_ref tx_output
  | AddScriptInput output_ref tx_output hash28 plutus_data "hash28 list"
  | AddKeyInput output_ref tx_output
  | AddOutput tx_output
  | AddWithdrawal hash28 plutus_data
  | SetExunits redeemer_tag u64 ex_units
  | AddCollateral output_ref tx_output
  | AddAuxiliaryData u64 bytes

type_synonym builder = "builder_call list"

definition constant_tx_builder :: builder where
  "constant_tx_builder = []"

text \<open>
  The functions of the library: reading and writing a datum, checked arithmetic of values, and the
  builder. \<open>ll_inputs\<close> lists the outputs its inputs spend, \<open>ll_build\<close> gives the hash and the outputs
  of the transaction.
\<close>

record ledger_lib =
  ll_decode :: "bytes \<Rightarrow> plutus_data"
  ll_encode :: "plutus_data \<Rightarrow> bytes"
  ll_checked_add :: "tx_value \<Rightarrow> tx_value \<Rightarrow> tx_value option"
  ll_checked_sub :: "tx_value \<Rightarrow> tx_value \<Rightarrow> tx_value option"
  ll_accepts :: "builder \<Rightarrow> builder_call \<Rightarrow> bool"
  ll_min_fee :: "builder \<Rightarrow> u64 option"
  ll_inputs :: "builder \<Rightarrow> tx_output list"
  ll_build :: "builder \<Rightarrow> address \<Rightarrow> (hash32 \<times> tx_output list) option"

definition try_call :: "ledger_lib \<Rightarrow> builder_call \<Rightarrow> builder \<Rightarrow> builder option" where
  "try_call L c txb = (if ll_accepts L txb c then Some (txb @ [c]) else None)"

definition call :: "builder_call \<Rightarrow> builder \<Rightarrow> builder" where
  "call c txb = txb @ [c]"

subsection \<open>Changing an output\<close>

fun update_value :: "tx_value \<Rightarrow> tx_output \<Rightarrow> tx_output" where
  "update_value v (AlonzoFormatTxOut a _ d) = AlonzoFormatTxOut a v d"
| "update_value v (ConwayFormatTxOut a _ d s) = ConwayFormatTxOut a v d s"

fun update_address :: "address \<Rightarrow> tx_output \<Rightarrow> tx_output" where
  "update_address a (AlonzoFormatTxOut _ v d) = AlonzoFormatTxOut a v d"
| "update_address a (ConwayFormatTxOut _ v d s) = ConwayFormatTxOut a v d s"

fun null_datum :: "tx_output \<Rightarrow> tx_output" where
  "null_datum (AlonzoFormatTxOut a v _) = AlonzoFormatTxOut a v None"
| "null_datum (ConwayFormatTxOut a v _ s) = ConwayFormatTxOut a v None s"

text \<open>Rewriting the datum through \<open>data_mut\<close>, which only an inline datum has.\<close>

fun with_data_mut ::
    "ledger_lib \<Rightarrow> (plutus_data \<Rightarrow> plutus_data option) \<Rightarrow> tx_output \<Rightarrow> tx_output option" where
  "with_data_mut L f (ConwayFormatTxOut a v (Some (InlineDatum bs)) s) =
     map_option (\<lambda>pd. ConwayFormatTxOut a v (Some (InlineDatum (ll_encode L pd))) s) (f (ll_decode L bs))"
| "with_data_mut L f out = Some out"

definition sub_asset :: "ledger_lib \<Rightarrow> asset_class \<Rightarrow> u64 \<Rightarrow> tx_output \<Rightarrow> tx_output option" where
  "sub_asset L asset amount out =
     do {
       v \<leftarrow> ac_into_value asset amount;
       updated_value \<leftarrow> ll_checked_sub L (output_value out) v;
       Some (update_value updated_value out)
     }"

definition add_asset :: "ledger_lib \<Rightarrow> asset_class \<Rightarrow> u64 \<Rightarrow> tx_output \<Rightarrow> tx_output option" where
  "add_asset L asset amount out =
     do {
       v \<leftarrow> ac_into_value asset amount;
       updated_value \<leftarrow> ll_checked_add L (output_value out) v;
       Some (update_value updated_value out)
     }"

subsection \<open>Delayed costs and redeemers\<close>

type_synonym inputs_ordering = "output_ref \<Rightarrow> nat option"

definition index_of :: "output_ref \<Rightarrow> inputs_ordering \<Rightarrow> nat option" where
  "index_of input inputs = inputs input"

datatype delayed_script_cost = ReadyCost ex_units | DelayedCost "nat \<Rightarrow> ex_units"

fun cost_compute :: "delayed_script_cost \<Rightarrow> nat \<Rightarrow> ex_units" where
  "cost_compute (ReadyCost c) self_index = c"
| "cost_compute (DelayedCost closure) self_index = closure self_index"

datatype delayed_redeemer = ReadyRedeemer plutus_data | DelayedRedeemer "inputs_ordering \<Rightarrow> plutus_data option"

fun redeemer_compute :: "delayed_redeemer \<Rightarrow> inputs_ordering \<Rightarrow> plutus_data option" where
  "redeemer_compute (ReadyRedeemer pd) inputs = Some pd"
| "redeemer_compute (DelayedRedeemer closure) inputs = closure inputs"

record script_witness =
  sw_hash :: hash28
  sw_cost :: delayed_script_cost

subsection \<open>The blueprint\<close>

record script_input_blueprint =
  ib_reference :: output_ref
  ib_utxo :: tx_output
  ib_script :: script_witness
  ib_redeemer :: delayed_redeemer
  ib_required_signers :: "hash28 list"

text \<open>Hash sets and maps are lists in the order of first insertion.\<close>

record tx_blueprint =
  tb_script_io :: "(script_input_blueprint \<times> tx_output) list"
  tb_reference_inputs :: "(output_ref \<times> tx_output) list"
  tb_witness_scripts :: "(deployed_validator_erased \<times> (plutus_data \<times> u64)) list"

definition blueprint_new :: tx_blueprint where
  "blueprint_new = \<lparr> tb_script_io = [], tb_reference_inputs = [], tb_witness_scripts = [] \<rparr>"

definition add_io :: "script_input_blueprint \<Rightarrow> tx_output \<Rightarrow> tx_blueprint \<Rightarrow> tx_blueprint" where
  "add_io input output b = b\<lparr>tb_script_io := tb_script_io b @ [(input, output)]\<rparr>"

definition add_ref_input :: "output_ref \<times> tx_output \<Rightarrow> tx_blueprint \<Rightarrow> tx_blueprint" where
  "add_ref_input utxo b =
     (if utxo \<in> set (tb_reference_inputs b) then b
      else b\<lparr>tb_reference_inputs := tb_reference_inputs b @ [utxo]\<rparr>)"

text \<open>Validators are the same when their hashes are.\<close>

fun add_witness_to ::
    "deployed_validator_erased \<Rightarrow> plutus_data \<Rightarrow> (deployed_validator_erased \<times> (plutus_data \<times> u64)) list \<Rightarrow>
     (deployed_validator_erased \<times> (plutus_data \<times> u64)) list" where
  "add_witness_to wit redeemer [] = [(wit, (redeemer, 1))]"
| "add_witness_to wit redeemer ((w, (r, sf)) # ws) =
     (if de_hash w = de_hash wit then (w, (r, sf + 1)) # ws else (w, (r, sf)) # add_witness_to wit redeemer ws)"

definition add_witness :: "deployed_validator_erased \<Rightarrow> plutus_data \<Rightarrow> tx_blueprint \<Rightarrow> tx_blueprint" where
  "add_witness wit redeemer b = b\<lparr>tb_witness_scripts := add_witness_to wit redeemer (tb_witness_scripts b)\<rparr>"

subsection \<open>Projection onto the builder\<close>

definition min_safe_lovelace_value :: u64 where
  "min_safe_lovelace_value = 1000000"

datatype tx_io = ScriptIo script_input_blueprint tx_output | OperatorIo "finalized_tx_out option" tx_output

definition operator_output :: "address \<Rightarrow> tx_value \<Rightarrow> tx_output" where
  "operator_output addr v = ConwayFormatTxOut addr v None None"

text \<open>
  What becomes of the operator's interest: nothing, an output of its own, or, when it is too little
  for one, an addition to the operator's funding.
\<close>

definition settle_interest ::
    "address \<Rightarrow> finalized_tx_out \<Rightarrow> u64 \<Rightarrow> (tx_io list \<times> (finalized_tx_out, tx_output) funding_io) option" where
  "settle_interest operator_address operator_funding operator_interest =
     (if 0 < operator_interest then
        if min_safe_lovelace_value \<le> operator_interest then
          (let out = operator_output operator_address (Value operator_interest [])
           in Some ([OperatorIo None out],
                if operator_address = output_address (fo_output operator_funding)
                then Added operator_funding out else NotUsed operator_funding))
        else
          map_option (\<lambda>value.
              let out = operator_output (output_address (fo_output operator_funding)) value
              in ([OperatorIo (Some operator_funding) out], Replaced operator_funding out))
            (add_unsafe Native operator_interest (output_value (fo_output operator_funding)))
      else Some ([], NotUsed operator_funding))"

definition reference_le :: "output_ref \<Rightarrow> output_ref \<Rightarrow> bool" where
  "reference_le r s \<longleftrightarrow> (tx_hash r, out_index r) \<le> (tx_hash s, out_index s)"

text \<open>The comparison of the source is not greater.\<close>

fun io_not_greater :: "tx_io \<Rightarrow> tx_io \<Rightarrow> bool" where
  "io_not_greater (ScriptIo l _) (ScriptIo r _) = reference_le (ib_reference l) (ib_reference r)"
| "io_not_greater (ScriptIo l _) (OperatorIo (Some r) _) = reference_le (ib_reference l) (fo_reference r)"
| "io_not_greater (OperatorIo (Some l) _) (ScriptIo r _) = reference_le (fo_reference l) (ib_reference r)"
| "io_not_greater _ (OperatorIo None _) = True"
| "io_not_greater _ _ = False"

text \<open>A stable sort by comparison.\<close>

fun insert_io :: "tx_io \<Rightarrow> tx_io list \<Rightarrow> tx_io list" where
  "insert_io x [] = [x]"
| "insert_io x (y # ys) = (if io_not_greater x y then x # y # ys else y # insert_io x ys)"

definition sort_io :: "tx_io list \<Rightarrow> tx_io list" where
  "sort_io ios = foldr insert_io ios []"

fun io_reference :: "tx_io \<Rightarrow> output_ref option" where
  "io_reference (ScriptIo i _) = Some (ib_reference i)"
| "io_reference (OperatorIo (Some i) _) = Some (fo_reference i)"
| "io_reference (OperatorIo None _) = None"

definition ordering_of :: "tx_io list \<Rightarrow> inputs_ordering" where
  "ordering_of ios =
     map_of (rev (List.map_filter (\<lambda>(ix, io). map_option (\<lambda>r. (r, ix)) (io_reference io)) (enumerate 0 ios)))"

fun project_io :: "ledger_lib \<Rightarrow> inputs_ordering \<Rightarrow> nat \<times> tx_io \<Rightarrow> builder \<Rightarrow> builder option" where
  "project_io L inputs (ix, ScriptIo i out) txb =
     do {
       redeemer \<leftarrow> redeemer_compute (ib_redeemer i) inputs;
       txb \<leftarrow> try_call L (AddScriptInput (ib_reference i) (ib_utxo i) (sw_hash (ib_script i)) redeemer
                (ib_required_signers i)) txb;
       txb \<leftarrow> try_call L (AddOutput out) txb;
       Some (call (SetExunits SpendTag (of_nat ix) (cost_compute (sw_cost (ib_script i)) ix)) txb)
     }"
| "project_io L inputs (ix, OperatorIo (Some i) out) txb =
     do {
       txb \<leftarrow> try_call L (AddKeyInput (fo_reference i) (fo_output i)) txb;
       try_call L (AddOutput out) txb
     }"
| "project_io L inputs (ix, OperatorIo None out) txb = try_call L (AddOutput out) txb"

fun project_ios :: "ledger_lib \<Rightarrow> inputs_ordering \<Rightarrow> (nat \<times> tx_io) list \<Rightarrow> builder \<Rightarrow> builder option" where
  "project_ios L inputs [] txb = Some txb"
| "project_ios L inputs (x # xs) txb = Option.bind (project_io L inputs x txb) (project_ios L inputs xs)"

definition project_witness :: "deployed_validator_erased \<times> (plutus_data \<times> u64) \<Rightarrow> builder \<Rightarrow> builder" where
  "project_witness = (\<lambda>(wit, (rdmr, scaling_factor)) txb.
     call (SetExunits RewardTag 0 (de_ex_budget wit + ex_units_scale scaling_factor (de_marginal_cost wit)))
       (call (AddWithdrawal (de_hash wit) rdmr)
         (call (AddReferenceInput (fst (de_reference_utxo wit)) (snd (de_reference_utxo wit))) txb)))"

definition project_onto_builder ::
    "ledger_lib \<Rightarrow> tx_blueprint \<Rightarrow> builder \<Rightarrow> address \<Rightarrow> finalized_tx_out \<Rightarrow> u64 \<Rightarrow>
     (builder \<times> (finalized_tx_out, tx_output) funding_io) option" where
  "project_onto_builder L b txb operator_address operator_funding operator_interest =
     do {
       (operator_io, funding_io) \<leftarrow> settle_interest operator_address operator_funding operator_interest;
       let all_io = sort_io (map (\<lambda>(i, out). ScriptIo i out) (tb_script_io b) @ operator_io);
       let txb = fold (\<lambda>(ref_in, ref_utxo). call (AddReferenceInput ref_in ref_utxo)) (tb_reference_inputs b) txb;
       txb \<leftarrow> project_ios L (ordering_of all_io) (enumerate 0 all_io) txb;
       Some (fold project_witness (tb_witness_scripts b) txb, funding_io)
     }"

subsection \<open>The state of an execution\<close>

record execution_state =
  es_tx_blueprint :: tx_blueprint
  es_reserved_tx_fee :: u64
  es_operator_interest :: u64

definition execution_state_new :: execution_state where
  "execution_state_new =
     \<lparr> es_tx_blueprint = blueprint_new, es_reserved_tx_fee = 0, es_operator_interest = 0 \<rparr>"

definition add_tx_fee :: "u64 \<Rightarrow> execution_state \<Rightarrow> execution_state" where
  "add_tx_fee amount st = st\<lparr>es_reserved_tx_fee := es_reserved_tx_fee st + amount\<rparr>"

definition add_operator_interest :: "u64 \<Rightarrow> execution_state \<Rightarrow> execution_state" where
  "add_operator_interest amount st = st\<lparr>es_operator_interest := es_operator_interest st + amount\<rparr>"

definition with_blueprint :: "(tx_blueprint \<Rightarrow> tx_blueprint) \<Rightarrow> execution_state \<Rightarrow> execution_state" where
  "with_blueprint f st = st\<lparr>es_tx_blueprint := f (es_tx_blueprint st)\<rparr>"

end
