(* ===== verification/Cardano_Exec.thy ===== *)
theory Cardano_Exec
  imports Tx_Blueprint Limit_Order Const_Fn_Pool Lb_Book
begin

text \<open>
  The execution of a recipe as a transaction, packages/bloom-offchain-cardano/src/execution_engine/
  interpreter.rs, with the execution of limit orders and of constant-product pools of instances.rs.
  Every instruction adds an input and an output to the blueprint. The orders reserve a fee for the
  transaction, which is balanced against the estimate until the two agree; this loop has no bound in
  the code, so it has fuel.
\<close>

subsection \<open>Instructions\<close>

text \<open>What is selected from the context. The redeemer address of an order is that in the network of the context.\<close>

record exec_context =
  xc_validators :: validators
  xc_operator_cred :: hash28
  xc_reward_address :: address
  xc_collateral :: "output_ref \<times> tx_output"

type_synonym 't effect_preview =
  "(('t, tx_output) bundled, ('t, finalized_tx_out) bundled) execution_eff"

type_synonym ('i, 't) batch_exec =
  "'i \<Rightarrow> execution_state \<Rightarrow> (execution_state \<times> 't effect_preview) option"

definition exec_redeemer :: plutus_data where
  "exec_redeemer = ConstrPd 1 []"

definition unsafe_update_limit_datum :: "u64 \<Rightarrow> u64 \<Rightarrow> plutus_data \<Rightarrow> plutus_data option" where
  "unsafe_update_limit_datum tradable_input fee data =
     do {
       (alt, cpd) \<leftarrow> into_constr_pd data;
       cpd \<leftarrow> set_field 3 (u64_into_pd tradable_input) cpd;
       cpd \<leftarrow> set_field 8 (u64_into_pd fee) cpd;
       Some (ConstrPd alt cpd)
     }"

definition limit_order_input ::
    "exec_context \<Rightarrow> limit_order \<Rightarrow> finalized_tx_out \<Rightarrow> script_input_blueprint" where
  "limit_order_input C ord src =
     (let v = erased (xc_validators C LimitOrderV1)
      in \<lparr> ib_reference = fo_reference src, ib_utxo = fo_output src,
           ib_script = \<lparr> sw_hash = de_hash v, sw_cost = ReadyCost (de_ex_budget v) \<rparr>,
           ib_redeemer = ReadyRedeemer exec_redeemer,
           ib_required_signers = (if lo_requires_executor_sig ord then [xc_operator_cred C] else []) \<rparr>)"

definition limit_exec ::
    "ledger_lib \<Rightarrow> exec_context \<Rightarrow> ((limit_order, finalized_tx_out) take, limit_order) batch_exec" where
  "limit_exec L C tr state =
     do {
       removed_input \<leftarrow> take_removed_input limit_taker tr;
       added_output \<leftarrow> take_added_output limit_taker tr;
       consumed_budget \<leftarrow> take_consumed_budget limit_taker tr;
       consumed_fee \<leftarrow> take_consumed_fee limit_taker tr;
       let ord = bd_entity (tr_target tr);
       let src = bd_bearer (tr_target tr);
       candidate \<leftarrow> sub_asset L (lo_fee_asset ord) (consumed_budget + consumed_fee) (fo_output src);
       candidate \<leftarrow> sub_asset L (lo_input_asset ord) removed_input candidate;
       candidate \<leftarrow> add_asset L (lo_output_asset ord) added_output candidate;
       (residual_order, effect) \<leftarrow> (case tr_result tr of
           Succ next \<Rightarrow>
             map_option (\<lambda>out. (out, Updated (tr_target tr) (Bundled next out)))
               (with_data_mut L (unsafe_update_limit_datum (lo_input_amount next) (lo_fee next)) candidate)
         | Term _ \<Rightarrow> Some (update_address (lo_redeemer_address ord) (null_datum candidate), Eliminate (tr_target tr)));
       let state = add_operator_interest consumed_fee (add_tx_fee consumed_budget state);
       Some (with_blueprint (\<lambda>b.
           add_ref_input (de_reference_utxo (erased (xc_validators C LimitOrderV1)))
             (add_io (limit_order_input C ord src) residual_order
               (add_witness (erased (xc_validators C LimitOrderWitnessV1)) (ListPd []) b))) state, effect)
     }"

definition const_fn_input ::
    "exec_context \<Rightarrow> const_fn_pool \<Rightarrow> finalized_tx_out \<Rightarrow> script_input_blueprint" where
  "const_fn_input C pool src =
     (let v = cf_get_validator (xc_validators C) pool
      in \<lparr> ib_reference = fo_reference src, ib_utxo = fo_output src,
           ib_script = \<lparr> sw_hash = de_hash v,
             sw_cost = DelayedCost (\<lambda>self_index. de_ex_budget v + ex_units_scale (of_nat self_index) (de_marginal_cost v)) \<rparr>,
           ib_redeemer = DelayedRedeemer (\<lambda>inputs.
             map_option (\<lambda>i. pool_redeemer_to_pd \<lparr> cr_pool_input_index = of_nat i, cr_action = SwapAction \<rparr>)
               (index_of (fo_reference src) inputs)),
           ib_required_signers = [] \<rparr>)"

definition const_fn_exec ::
    "ledger_lib \<Rightarrow> exec_context \<Rightarrow> (const_fn_pool, token, ex_units) maker_ops \<Rightarrow>
     ((const_fn_pool, finalized_tx_out) make, const_fn_pool) batch_exec" where
  "const_fn_exec L C M tr state =
     do {
       side \<leftarrow> make_trade_side M tr;
       removed_liquidity \<leftarrow> make_loss M tr;
       added_liquidity \<leftarrow> make_gain M tr;
       let pool = bd_entity (tr_target tr);
       let src = bd_bearer (tr_target tr);
       let mapping = cf_asset_mapping side pool;
       produced_out \<leftarrow> sub_asset L (am_asset_to_deduct_from mapping) removed_liquidity (fo_output src);
       produced_out \<leftarrow> add_asset L (am_asset_to_add_to mapping) added_liquidity produced_out;
       transition \<leftarrow> (case tr_result tr of Succ next \<Rightarrow> Some next | Term _ \<Rightarrow> None);
       updated_output \<leftarrow> with_data_mut L (cf_unsafe_datum_update transition) produced_out;
       Some (with_blueprint (\<lambda>b.
           add_ref_input (de_reference_utxo (cf_get_validator (xc_validators C) pool))
             (add_io (const_fn_input C pool src) updated_output b)) state,
         Updated (tr_target tr) (Bundled transition updated_output))
     }"

subsection \<open>Executing the instructions\<close>

type_synonym ('t, 'm) linked_recipe = "('t, 'm, finalized_tx_out) execution list"

definition either_effect ::
    "('t \<Rightarrow> 'e) \<Rightarrow> 't effect_preview \<Rightarrow> 'e effect_preview" where
  "either_effect f = eff_bimap (bundled_map f) (bundled_map f)"

fun execute ::
    "(('t, finalized_tx_out) take, 't) batch_exec \<Rightarrow> (('m, finalized_tx_out) make, 'm) batch_exec \<Rightarrow>
     execution_state \<Rightarrow> ('t + 'm) effect_preview list \<Rightarrow> ('t, 'm) linked_recipe \<Rightarrow>
     (execution_state \<times> ('t + 'm) effect_preview list) option" where
  "execute X Y state effects [] = Some (state, effects)"
| "execute X Y state effects (Inl tr # instructions) =
     do {
       (new_state, result) \<leftarrow> X tr state;
       execute X Y new_state (effects @ [either_effect Inl result]) instructions
     }"
| "execute X Y state effects (Inr tr # instructions) =
     do {
       (new_state, result) \<leftarrow> Y tr state;
       execute X Y new_state (effects @ [either_effect Inr result]) instructions
     }"

subsection \<open>Balancing the fee\<close>

text \<open>A ratio is in lowest terms; a zero denominator is a panic.\<close>

definition ratio_new :: "u64 \<Rightarrow> u64 \<Rightarrow> (u64 \<times> u64) option" where
  "ratio_new numer denom =
     (if denom = 0 then None
      else let g = gcd (unat numer) (unat denom) in Some (of_nat (unat numer div g), of_nat (unat denom div g)))"

fun scale_budgets ::
    "('t, 'k, 'id, 'u) taker_ops \<Rightarrow> u64 \<times> u64 \<Rightarrow> int \<Rightarrow> ('t, 'm, 'b) execution list \<Rightarrow>
     (int \<times> ('t, 'm, 'b) execution list) option" where
  "scale_budgets T factor fee_mismatch [] = Some (fee_mismatch, [])"
| "scale_budgets T factor fee_mismatch (Inl tk # instructions) =
     do {
       (delta, tk) \<leftarrow> take_scale_consumed_budget T factor tk;
       (fee_mismatch, instructions) \<leftarrow> scale_budgets T factor (i64_add fee_mismatch delta) instructions;
       Some (fee_mismatch, Inl tk # instructions)
     }"
| "scale_budgets T factor fee_mismatch (Inr mk # instructions) =
     do {
       (fee_mismatch, instructions) \<leftarrow> scale_budgets T factor fee_mismatch instructions;
       Some (fee_mismatch, Inr mk # instructions)
     }"

fun correct_budgets ::
    "('t, 'k, 'id, 'u) taker_ops \<Rightarrow> int \<Rightarrow> ('t, 'm, 'b) execution list \<Rightarrow> ('t, 'm, 'b) execution list" where
  "correct_budgets T fee_mismatch [] = []"
| "correct_budgets T fee_mismatch (Inl tk # instructions) =
     (if fee_mismatch \<noteq> 0
      then let (delta, tk) = take_correct_consumed_budget T (- fee_mismatch) tk
           in Inl tk # correct_budgets T (i64_add fee_mismatch delta) instructions
      else Inl tk # instructions)"
| "correct_budgets T fee_mismatch (Inr mk # instructions) =
     Inr mk # correct_budgets T fee_mismatch instructions"

definition balance_fee ::
    "('t, 'k, 'id, 'u) taker_ops \<Rightarrow> int \<Rightarrow> u64 \<times> u64 \<Rightarrow> ('t, 'm, 'b) execution list \<Rightarrow>
     ('t, 'm, 'b) execution list option" where
  "balance_fee T fee_mismatch rescale_factor instructions =
     map_option (\<lambda>(mismatch, is). correct_budgets T mismatch is)
       (scale_budgets T rescale_factor fee_mismatch instructions)"

definition additional_fee :: u64 where
  "additional_fee = 40000"

record ('t, 'k, 'id, 'm) interpreter =
  in_ledger :: ledger_lib
  in_context :: exec_context
  in_takers :: "('t, 'k, 'id, ex_units) taker_ops"
  in_exec_take :: "(('t, finalized_tx_out) take, 't) batch_exec"
  in_exec_make :: "(('m, finalized_tx_out) make, 'm) batch_exec"

text \<open>A blueprint becomes a builder with the collateral, and the fee of the transaction is estimated.\<close>

definition attempt_recipe ::
    "('t, 'k, 'id, 'm) interpreter \<Rightarrow> finalized_tx_out \<Rightarrow> ('t, 'm) linked_recipe \<Rightarrow> u64 \<Rightarrow>
     (builder \<times> ('t + 'm) effect_preview list \<times> (finalized_tx_out, tx_output) funding_io \<times> u64 \<times> u64) option" where
  "attempt_recipe I funding instructions accumulated_residue =
     do {
       (state, effects) \<leftarrow> execute (in_exec_take I) (in_exec_make I) execution_state_new [] instructions;
       (tx_builder, funding_io) \<leftarrow> project_onto_builder (in_ledger I) (es_tx_blueprint state) constant_tx_builder
          (xc_reward_address (in_context I)) funding (es_operator_interest state + accumulated_residue);
       tx_builder \<leftarrow> try_call (in_ledger I)
          (AddCollateral (fst (xc_collateral (in_context I))) (snd (xc_collateral (in_context I)))) tx_builder;
       min_fee \<leftarrow> ll_min_fee (in_ledger I) tx_builder;
       Some (tx_builder, effects, funding_io, es_reserved_tx_fee state, min_fee + additional_fee)
     }"

fun execute_recipe ::
    "nat \<Rightarrow> ('t, 'k, 'id, 'm) interpreter \<Rightarrow> finalized_tx_out \<Rightarrow> bool \<Rightarrow> ('t, 'm) linked_recipe \<Rightarrow> u64 \<Rightarrow>
     (builder \<times> ('t + 'm) effect_preview list \<times> (finalized_tx_out, tx_output) funding_io) run" where
  "execute_recipe 0 I funding take_residual_fee instructions accumulated_residue = Out_of_fuel"
| "execute_recipe (Suc fuel) I funding take_residual_fee instructions accumulated_residue =
     (case attempt_recipe I funding instructions accumulated_residue of
        None \<Rightarrow> Panicked
      | Some (tx_builder, effects, funding_io, reserved_tx_fee, estimated_fee) \<Rightarrow>
          (let updated_tx_fee = reserved_tx_fee - accumulated_residue;
               fee_mismatch = i64_add (i64_of_u64 updated_tx_fee) (- i64_of_u64 estimated_fee)
           in if fee_mismatch \<noteq> 0 then
                if take_residual_fee \<and> 0 < fee_mismatch then
                  execute_recipe fuel I funding False instructions (accumulated_residue + u64_of_i64 \<bar>fee_mismatch\<bar>)
                else
                  (case Option.bind (ratio_new estimated_fee reserved_tx_fee)
                       (\<lambda>fee_rescale_factor. balance_fee (in_takers I) fee_mismatch fee_rescale_factor instructions) of
                     None \<Rightarrow> Panicked
                   | Some corrected_recipe \<Rightarrow> execute_recipe fuel I funding False corrected_recipe 0)
              else Ret (tx_builder, effects, funding_io)))"

subsection \<open>The interpreter\<close>

fun first_position :: "('a \<Rightarrow> bool) \<Rightarrow> 'a list \<Rightarrow> nat option" where
  "first_position f [] = None"
| "first_position f (x # xs) = (if f x then Some 0 else map_option Suc (first_position f xs))"

text \<open>
  The input of every order in the transaction with the number of its instruction, each cut to a byte
  in the metadata. An order whose output is not an input is a panic.
\<close>

fun order_of_execution ::
    "tx_output list \<Rightarrow> (nat \<times> ('t + 'm) effect_preview) list \<Rightarrow> (nat \<times> nat) list option" where
  "order_of_execution inputs [] = Some []"
| "order_of_execution inputs ((seq_num, eff) # effects) =
     (case bd_entity (eff_target eff) of
        Inl _ \<Rightarrow>
          do {
            input_ix \<leftarrow> first_position ((=) (fo_output (bd_bearer (eff_target eff)))) inputs;
            rest \<leftarrow> order_of_execution inputs effects;
            Some ((input_ix, seq_num) # rest)
          }
      | Inr _ \<Rightarrow> order_of_execution inputs effects)"

definition ordering_key :: u64 where
  "ordering_key = 0"

definition with_metadata :: "(nat \<times> nat) list \<Rightarrow> builder \<Rightarrow> builder" where
  "with_metadata order tx_builder =
     call (AddAuxiliaryData ordering_key (concat (map (\<lambda>(ix, seq_num). [of_nat ix, of_nat seq_num]) order))) tx_builder"

definition bake :: "'v \<Rightarrow> 't + 'm \<Rightarrow> ('t, 'v) baked + ('m, 'v) baked" where
  "bake v = map_sum (\<lambda>tk. Baked tk v) (\<lambda>mk. Baked mk v)"

text \<open>The reference of an output is its first position among the outputs of the transaction.\<close>

definition output_reference :: "hash32 \<Rightarrow> tx_output list \<Rightarrow> tx_output \<Rightarrow> output_ref option" where
  "output_reference th outputs out =
     map_option (\<lambda>ix. OutputRef th (of_nat ix)) (first_position ((=) out) outputs)"

type_synonym ('t, 'm) finalized_effect =
  "(('t, 'm, output_ref, finalized_tx_out) evolving, ('t, 'm, output_ref, finalized_tx_out) evolving) execution_eff"

definition finalize_consumed ::
    "('t + 'm, finalized_tx_out) bundled \<Rightarrow> ('t, 'm, output_ref, finalized_tx_out) evolving" where
  "finalize_consumed c = bundled_map (bake (fo_reference (bd_bearer c))) c"

fun finalize_effect ::
    "hash32 \<Rightarrow> tx_output list \<Rightarrow> ('t + 'm) effect_preview \<Rightarrow> ('t, 'm) finalized_effect option" where
  "finalize_effect th outputs (Updated c p) =
     map_option (\<lambda>out_ref. Updated (finalize_consumed c)
         (bundled_map_bearer (\<lambda>out. FinalizedTxOut out out_ref) (bundled_map (bake out_ref) p)))
       (output_reference th outputs (bd_bearer p))"
| "finalize_effect th outputs (Eliminate c) = Some (Eliminate (finalize_consumed c))"

fun finalize_funding ::
    "hash32 \<Rightarrow> tx_output list \<Rightarrow> (finalized_tx_out, tx_output) funding_io \<Rightarrow>
     (finalized_tx_out, finalized_tx_out) funding_io option" where
  "finalize_funding th outputs (Replaced inp out) =
     map_option (\<lambda>r. Replaced inp (FinalizedTxOut out r)) (output_reference th outputs out)"
| "finalize_funding th outputs (Added inp out) =
     map_option (\<lambda>r. Added inp (FinalizedTxOut out r)) (output_reference th outputs out)"
| "finalize_funding th outputs (NotUsed inp) = Some (NotUsed inp)"

record ('t, 'm) execution_result =
  er_txc :: "hash32 \<times> tx_output list"
  er_matchmaking_effects :: "('t, 'm) finalized_effect list"
  er_funding_io :: "(finalized_tx_out, finalized_tx_out) funding_io"

definition finish_recipe ::
    "('t, 'k, 'id, 'm) interpreter \<Rightarrow>
     builder \<times> ('t + 'm) effect_preview list \<times> (finalized_tx_out, tx_output) funding_io \<Rightarrow>
     ('t, 'm) execution_result option" where
  "finish_recipe I = (\<lambda>(tx_builder, effects, funding_io_preview).
     do {
       order \<leftarrow> order_of_execution (ll_inputs (in_ledger I) tx_builder) (enumerate 0 effects);
       (th, tx_outputs) \<leftarrow> ll_build (in_ledger I) (with_metadata order tx_builder) (xc_reward_address (in_context I));
       finalized_effects \<leftarrow> those (map (finalize_effect th tx_outputs) effects);
       finalized_funding_io \<leftarrow> finalize_funding th tx_outputs funding_io_preview;
       Some \<lparr> er_txc = (th, tx_outputs), er_matchmaking_effects = finalized_effects,
              er_funding_io = finalized_funding_io \<rparr>
     })"

definition run_interpreter ::
    "nat \<Rightarrow> ('t, 'k, 'id, 'm) interpreter \<Rightarrow> bool \<Rightarrow> ('t, 'm) linked_recipe \<Rightarrow> finalized_tx_out \<Rightarrow>
     ('t, 'm) execution_result run" where
  "run_interpreter fuel I take_residual_fee instructions funding =
     run_bind (execute_recipe fuel I funding take_residual_fee instructions 0) (\<lambda>r. run_of (finish_recipe I r))"

definition cardano_interpreter ::
    "ledger_lib \<Rightarrow> exec_context \<Rightarrow> (const_fn_pool, token, ex_units) maker_ops \<Rightarrow>
     (limit_order, rat \<times> u64 \<times> int \<times> int \<times> token, token, const_fn_pool) interpreter" where
  "cardano_interpreter L C M = \<lparr> in_ledger = L, in_context = C, in_takers = limit_taker,
     in_exec_take = limit_exec L C, in_exec_make = const_fn_exec L C M \<rparr>"

end
