(* ===== verification/Lb_Conservation.thy ===== *)
theory Lb_Conservation
  imports Lb_Book_Spec
begin

text \<open>
  Matchmaking conserves assets: what the takers and makers of a recipe give up of an asset is what
  others of them receive. The amounts of every execution and of the final rebalancing are followed
  through an attempt, for takers and makers that keep the contracts \<open>conserving_takers\<close> and
  \<open>conserving_makers\<close>.
\<close>

subsection \<open>Flows\<close>

text \<open>
  An asset of a pair is named by the side whose takers pay with it: asks pay with the base asset,
  bids with the quote asset. The flow of a transition is how much of the asset leaves the entity.
\<close>

definition paid_by :: "side \<Rightarrow> reserves \<Rightarrow> u64" where
  "paid_by s r = (case s of Ask \<Rightarrow> rs_base r | Bid \<Rightarrow> rs_quote r)"

definition left_input :: "('t, 'k, 'id, 'u) taker_ops \<Rightarrow> ('t, terminal_take) next_state \<Rightarrow> u64" where
  "left_input T r = next_fold (tk_input T) remaining_input r"

definition total_output :: "('t, 'k, 'id, 'u) taker_ops \<Rightarrow> ('t, terminal_take) next_state \<Rightarrow> u64" where
  "total_output T r = next_fold (tk_output T) accumulated_output r"

definition take_flow :: "('t, 'k, 'id, 'u) taker_ops \<Rightarrow> side \<Rightarrow> 't take_in_progress \<Rightarrow> u64" where
  "take_flow T s tr =
     (if tk_side T (tr_target tr) = s then tk_input T (tr_target tr) - left_input T (tr_result tr)
      else tk_output T (tr_target tr) - total_output T (tr_result tr))"

definition make_flow :: "('m, 'id, 'u) maker_ops \<Rightarrow> side \<Rightarrow> 'm make_in_progress \<Rightarrow> u64" where
  "make_flow M s tr =
     (case tr_result tr of
        Succ m \<Rightarrow> paid_by s (mk_liquidity M (tr_target tr)) - paid_by s (mk_liquidity M m)
      | Term _ \<Rightarrow> 0)"

definition takes_flow :: "('t, 'k, 'id, 'u) taker_ops \<Rightarrow> side \<Rightarrow> ('id \<times> 't take_in_progress) list \<Rightarrow> u64" where
  "takes_flow T s takes = (\<Sum>x \<leftarrow> takes. take_flow T s (snd x))"

definition makes_flow :: "('m, 'id, 'u) maker_ops \<Rightarrow> side \<Rightarrow> ('id \<times> 'm make_in_progress) list \<Rightarrow> u64" where
  "makes_flow M s makes = (\<Sum>x \<leftarrow> makes. make_flow M s (snd x))"

definition recipe_flow ::
    "('t, 'k, 'id, 'u) taker_ops \<Rightarrow> ('m, 'id, 'u) maker_ops \<Rightarrow> side \<Rightarrow> ('t, 'm) matchmaking_recipe \<Rightarrow> u64" where
  "recipe_flow T M s recipe =
     (\<Sum>i \<leftarrow> recipe. case i of Inl tr \<Rightarrow> take_flow T s tr | Inr tr \<Rightarrow> make_flow M s tr)"

lemma delete_absent: "k \<notin> fst ` set xs \<Longrightarrow> AList.delete k xs = xs"
  by (induction xs) (auto simp: AList.delete_eq)

lemma sum_list_delete:
  fixes f :: "'v \<Rightarrow> 'w::ab_group_add"
  assumes "distinct (map fst xs)"
  shows "(\<Sum>x \<leftarrow> AList.delete k xs. f (snd x)) =
    (\<Sum>x \<leftarrow> xs. f (snd x)) - (case map_of xs k of Some v \<Rightarrow> f v | None \<Rightarrow> 0)"
  using assms
proof (induction xs)
  case (Cons x xs)
  obtain a b where x: "x = (a, b)" by (metis surj_pair)
  show ?case
  proof (cases "a = k")
    case True
    then have "AList.delete k xs = xs" "map_of xs k = None"
      using Cons.prems x by (auto simp: map_of_eq_None_iff delete_absent)
    then show ?thesis using x True by (simp add: AList.delete_eq)
  qed (use Cons x in \<open>simp add: AList.delete_eq\<close>)
qed simp

lemma map_of_delete_snoc:
  "map_of (AList.delete k xs @ [(k, v)]) i = (if i = k then Some v else map_of xs i)"
  by (auto simp: map_add_def delete_conv' split: option.splits)

lemma distinct_delete_snoc:
  "distinct (map fst xs) \<Longrightarrow> distinct (map fst (AList.delete k xs @ [(k, v)]))"
  by (simp add: AList.delete_eq distinct_map_filter) (auto)

subsection \<open>The contracts\<close>

locale conserving_takers = taker_laws T
  for T :: "('t, 'k::linorder, 'id, 'u::{plus,zero,linorder}) taker_ops" +
  assumes applied_side: "tk_with_applied_trade T i out t = Succ t' \<Longrightarrow> tk_side T t' = tk_side T t"
    and applied_left: "left_input T (tk_with_applied_trade T i out t) = tk_input T t - i"
    and applied_total: "total_output T (tk_with_applied_trade T i out t) = tk_output T t + out"
    and output_added: "tk_input T (tk_with_output_added T e t) = tk_input T t"
      "tk_output T (tk_with_output_added T e t) = tk_output T t + e"
    and fee_charged: "tk_input T (tk_with_fee_charged T f t) = tk_input T t"
      "tk_output T (tk_with_fee_charged T f t) = tk_output T t"
    and corrected: "tk_input T (snd (tk_with_budget_corrected T d t)) = tk_input T t"
      "tk_output T (snd (tk_with_budget_corrected T d t)) = tk_output T t"
    and terminated: "left_input T (tk_try_terminate T t) = tk_input T t"
      "total_output T (tk_try_terminate T t) = tk_output T t"

text \<open>
  A maker that is good for an amount takes inputs up to it: an input is added to the reserve of its
  side and the other reserve does not grow.
\<close>

locale conserving_makers =
  fixes M :: "('m, 'id, 'u::{plus,zero,linorder}) maker_ops" and good :: "nat \<Rightarrow> 'm \<Rightarrow> bool"
  assumes good_less: "good n m \<Longrightarrow> k \<le> n \<Longrightarrow> good k m"
    and swap_good: "good n m \<Longrightarrow> unat i \<le> n \<Longrightarrow> good (n - unat i) (mk_swap M (side_wrap s i) m)"
    and swap_id: "mk_id M (mk_swap M input m) = mk_id M m"
    and swap_gain: "good n m \<Longrightarrow>
      paid_by s (mk_liquidity M (mk_swap M (side_wrap s i) m)) = paid_by s (mk_liquidity M m) + i"
    and swap_fits: "good n m \<Longrightarrow> unat i \<le> n \<Longrightarrow> unat (paid_by s (mk_liquidity M m)) + unat i < 2 ^ 64"
    and swap_loss: "good n m \<Longrightarrow> unat i \<le> n \<Longrightarrow>
      paid_by (side_not s) (mk_liquidity M (mk_swap M (side_wrap s i) m)) \<le> paid_by (side_not s) (mk_liquidity M m)"
    and swap_nothing: "good n m \<Longrightarrow>
      paid_by (side_not s) (mk_liquidity M (mk_swap M (side_wrap s 0) m)) = paid_by (side_not s) (mk_liquidity M m)"


locale conserving_market = conserving_takers T + conserving_makers M good
  for T :: "('t, 'k::linorder, 'id, 'u::{plus,zero,linorder}) taker_ops"
    and M :: "('m, 'id, 'u) maker_ops" and good :: "nat \<Rightarrow> 'm \<Rightarrow> bool"

subsection \<open>What the operations do to the makers\<close>

lemma pick_active_pools: "pick_active_taker f st = (res, st') \<Longrightarrow> pools st' = pools st"
  by (cases st) (auto simp: Let_def move_into_partial_preview_def split: prod.splits option.splits)

lemma pre_add_taker_pools: "pools (pre_add_taker T t st) = pools st"
  by (cases st) (simp_all add: pre_add_taker.simps Let_def split: option.splits)

lemma on_take_pools: "pools (on_take T r st) = pools st"
  by (simp add: on_take_def pre_add_taker_pools split: next_state.splits)

lemma pre_add_maker_pools: "pools (pre_add_maker T M m st) = mm_update_pool M m (pools st)"
  by (cases st) (simp_all add: pre_add_maker_def Let_def)

lemma pick_maker_pools:
  "pick_maker_by_id pid st = (m, st') \<Longrightarrow>
    m = map_of (mm_values (pools st)) pid \<and> mm_values (pools st') = AList.delete pid (mm_values (pools st))"
  by (cases st) (auto simp: Let_def move_into_partial_preview_def)

lemma update_fresh: "k \<notin> fst ` set xs \<Longrightarrow> AList.update k v xs = xs @ [(k, v)]"
  by (induction xs) auto

lemma delete_fresh: "k \<notin> fst ` set (AList.delete k xs)"
  by (auto simp: AList.delete_eq)

subsection \<open>Takes\<close>

definition succs :: "('t, 'x) next_state \<Rightarrow> 't set" where
  "succs r = (case r of Succ t \<Rightarrow> {t} | Term _ \<Rightarrow> {})"

lemma on_take_actives:
  "mt_elems (active_fragments (on_take T r st)) \<subseteq> mt_elems (active_fragments st) \<union> succs r"
  using pre_add_taker_frame [of T _ st] by (auto simp: on_take_def succs_def split: next_state.splits)

context conserving_takers
begin

text \<open>
  An active taker that takes part in a batch is the present state of its take there.
\<close>

definition linked :: "('t, 'm, 'id, 'u) matchmaking_attempt \<Rightarrow> 't set \<Rightarrow> bool" where
  "linked batch A \<longleftrightarrow> distinct (map fst (ma_takes batch)) \<and> inj_on (tk_id T) A \<and>
     (\<forall>t \<in> A. \<forall>tr. map_of (ma_takes batch) (tk_id T t) = Some tr \<longrightarrow>
        tr_result tr = Succ t \<and> tk_side T (tr_target tr) = tk_side T t)"

lemma linked_less: "linked batch A \<Longrightarrow> B \<subseteq> A \<Longrightarrow> linked batch B"
  by (auto simp: linked_def intro: inj_on_subset)

lemma combine_flow:
  assumes "tr_result e = Succ (tr_target tr)" "tk_side T (tr_target e) = tk_side T (tr_target tr)"
  shows "take_flow T s (combine e tr) = take_flow T s e + take_flow T s tr"
  using assms by (simp add: take_flow_def combine_def left_input_def total_output_def)

lemma add_take_flow:
  assumes "linked batch A" "tr_target tr \<in> A"
  shows "takes_flow T s (ma_takes (add_take T tr batch)) = takes_flow T s (ma_takes batch) + take_flow T s tr"
proof -
  have d: "distinct (map fst (ma_takes batch))" using assms(1) by (simp add: linked_def)
  have c: "take_flow T s (combine e tr) = take_flow T s e + take_flow T s tr"
    if "map_of (ma_takes batch) (tk_id T (tr_target tr)) = Some e" for e
    using assms that by (intro combine_flow) (auto simp: linked_def)
  show ?thesis
    unfolding takes_flow_def add_take_takes
    by (auto simp: sum_list_delete [OF d] c split: option.splits)
qed

lemma linked_add_take:
  assumes link: "linked batch (insert (tr_target tr) A)" and new: "tr_target tr \<notin> A"
    and succ: "\<And>t'. tr_result tr = Succ t' \<Longrightarrow>
      tk_id T t' = tk_id T (tr_target tr) \<and> tk_side T t' = tk_side T (tr_target tr)"
  shows "linked (add_take T tr batch) (A \<union> succs (tr_result tr))"
proof -
  let ?t = "tr_target tr"
  have d: "distinct (map fst (ma_takes batch))" and inj: "inj_on (tk_id T) (insert ?t A)"
    and l: "\<forall>t \<in> insert ?t A. \<forall>tr. map_of (ma_takes batch) (tk_id T t) = Some tr \<longrightarrow>
        tr_result tr = Succ t \<and> tk_side T (tr_target tr) = tk_side T t"
    using link by (auto simp: linked_def)
  have other: "tk_id T t \<noteq> tk_id T ?t" if "t \<in> A" for t
    using inj new that by (metis inj_onD insertI1 insertI2)
  then have notin: "tk_id T ?t \<notin> tk_id T ` A" by (metis imageE)
  have inj': "inj_on (tk_id T) (A \<union> succs (tr_result tr))"
    using inj_on_subset [OF inj subset_insertI] notin succ
    by (cases "tr_result tr") (auto simp: succs_def)
  have "tr_result tr2 = Succ t \<and> tk_side T (tr_target tr2) = tk_side T t"
    if t: "t \<in> A \<union> succs (tr_result tr)" and m: "map_of (ma_takes (add_take T tr batch)) (tk_id T t) = Some tr2" for t tr2
  proof (cases "t \<in> A")
    case True
    then show ?thesis using m other [OF True] l unfolding add_take_takes map_of_delete_snoc by auto
  next
    case False
    then have r: "tr_result tr = Succ t" using t by (auto simp: succs_def split: next_state.splits)
    then show ?thesis
      using m succ [OF r] l unfolding add_take_takes map_of_delete_snoc
      by (auto simp: combine_def split: option.splits)
  qed
  then show ?thesis
    using inj' distinct_delete_snoc [OF d] unfolding linked_def add_take_takes by blast
qed

end

subsection \<open>Makes\<close>

context conserving_makers
begin

text \<open>An available maker that takes part in a batch is the present state of its make there.\<close>

definition makers_linked ::
    "('t, 'm, 'id, 'u) matchmaking_attempt \<Rightarrow> nat \<Rightarrow> ('id \<times> 'm) list \<Rightarrow> bool" where
  "makers_linked batch n ms \<longleftrightarrow> distinct (map fst ms) \<and> distinct (map fst (ma_makes batch)) \<and>
     (\<forall>x \<in> set ms. fst x = mk_id M (snd x) \<and> good n (snd x) \<and>
        (\<forall>tr. map_of (ma_makes batch) (fst x) = Some tr \<longrightarrow> tr_result tr = Succ (snd x))) \<and>
     (\<forall>x \<in> set (ma_makes batch). good 0 (tr_target (snd x)))"

lemma makers_linked_less: "makers_linked batch n ms \<Longrightarrow> k \<le> n \<Longrightarrow> makers_linked batch k ms"
  using good_less by (fastforce simp: makers_linked_def)

lemma add_make_makes:
  "ma_makes (add_make M tr batch) = AList.delete (mk_id M (tr_target tr)) (ma_makes batch) @
    [(mk_id M (tr_target tr), case map_of (ma_makes batch) (mk_id M (tr_target tr)) of
        None \<Rightarrow> tr | Some e \<Rightarrow> combine e tr)]"
  "ma_takes (add_make M tr batch) = ma_takes batch"
  by (simp_all add: add_make_def Let_def split: option.splits)

lemma combine_make_flow:
  "tr_result e = Succ (tr_target tr) \<Longrightarrow> tr_result tr = Succ m \<Longrightarrow>
    make_flow M s (combine e tr) = make_flow M s e + make_flow M s tr"
  by (simp add: make_flow_def combine_def)

lemma makers_linked_swap:
  assumes linked: "makers_linked batch n ms" and m: "map_of ms pid = Some m" and i: "unat i \<le> n"
    and mip: "mip = Trans m (Succ (mk_swap M (side_wrap s i) m))"
  shows "makers_linked (add_make M mip batch) (n - unat i)
      (AList.update (mk_id M (mk_swap M (side_wrap s i) m)) (mk_swap M (side_wrap s i) m) (AList.delete pid ms))"
    and "makes_flow M d (ma_makes (add_make M mip batch)) = makes_flow M d (ma_makes batch) + make_flow M d mip"
proof -
  let ?m = "mk_swap M (side_wrap s i) m"
  have dist: "distinct (map fst ms)" "distinct (map fst (ma_makes batch))"
    using linked by (auto simp: makers_linked_def)
  have "(pid, m) \<in> set ms" using m by (rule map_of_SomeD)
  then have pid: "pid = mk_id M m" and gm: "good n m"
    and link: "\<forall>tr. map_of (ma_makes batch) pid = Some tr \<longrightarrow> tr_result tr = Succ m"
    using linked by (auto simp: makers_linked_def)
  have upd: "AList.update (mk_id M ?m) ?m (AList.delete pid ms) = AList.delete pid ms @ [(pid, ?m)]"
    using delete_fresh [of pid ms] by (simp add: swap_id pid update_fresh)
  define e where "e = (case map_of (ma_makes batch) pid of None \<Rightarrow> mip | Some e \<Rightarrow> combine e mip)"
  have makes: "ma_makes (add_make M mip batch) = AList.delete pid (ma_makes batch) @ [(pid, e)]"
    unfolding add_make_makes e_def pid mip trans.sel by (rule refl)
  have e: "tr_result e = Succ ?m"
    by (simp add: e_def combine_def mip split: option.splits)
  have target: "good 0 (tr_target e)"
  proof (cases "map_of (ma_makes batch) pid")
    case None
    then show ?thesis using good_less [OF gm, of 0] by (simp add: e_def mip)
  next
    case (Some x)
    have "good 0 (tr_target x)" using linked map_of_SomeD [OF Some] by (auto simp: makers_linked_def)
    then show ?thesis using Some by (simp add: e_def combine_def)
  qed
  have old: "fst x = mk_id M (snd x) \<and> good (n - unat i) (snd x) \<and>
      (\<forall>tr. map_of (ma_makes (add_make M mip batch)) (fst x) = Some tr \<longrightarrow> tr_result tr = Succ (snd x))"
    if x: "x \<in> set (AList.delete pid ms)" for x
  proof -
    have x': "x \<in> set ms" "fst x \<noteq> pid" using x by (auto simp: AList.delete_eq)
    then show ?thesis
      using linked good_less [of n "snd x" "n - unat i"] unfolding makes map_of_delete_snoc
      by (auto simp: makers_linked_def)
  qed
  have new: "map_of (ma_makes (add_make M mip batch)) pid = Some tr \<Longrightarrow> tr_result tr = Succ ?m" for tr
    unfolding makes map_of_delete_snoc using e by simp
  have targets: "\<forall>x \<in> set (ma_makes (add_make M mip batch)). good 0 (tr_target (snd x))"
    using linked target unfolding makes by (auto simp: makers_linked_def AList.delete_eq)
  have all: "\<forall>x \<in> set (AList.delete pid ms @ [(pid, ?m)]). fst x = mk_id M (snd x) \<and> good (n - unat i) (snd x) \<and>
      (\<forall>tr. map_of (ma_makes (add_make M mip batch)) (fst x) = Some tr \<longrightarrow> tr_result tr = Succ (snd x))"
  proof
    fix x
    assume "x \<in> set (AList.delete pid ms @ [(pid, ?m)])"
    then consider "x \<in> set (AList.delete pid ms)" | "x = (pid, ?m)" by auto
    then show "fst x = mk_id M (snd x) \<and> good (n - unat i) (snd x) \<and>
      (\<forall>tr. map_of (ma_makes (add_make M mip batch)) (fst x) = Some tr \<longrightarrow> tr_result tr = Succ (snd x))"
    proof cases
      case 2
      then show ?thesis using new swap_good [OF gm i] by (simp add: pid swap_id)
    qed (rule old)
  qed
  show "makers_linked (add_make M mip batch) (n - unat i)
      (AList.update (mk_id M ?m) ?m (AList.delete pid ms))"
    unfolding makers_linked_def upd
    by (intro conjI all targets distinct_delete_snoc dist) (simp only: makes distinct_delete_snoc dist)
  have "make_flow M d (combine x mip) = make_flow M d x + make_flow M d mip"
    if "map_of (ma_makes batch) pid = Some x" for x
    using link that by (intro combine_make_flow) (auto simp: mip)
  then show "makes_flow M d (ma_makes (add_make M mip batch)) = makes_flow M d (ma_makes batch) + make_flow M d mip"
    by (cases "map_of (ma_makes batch) pid")
      (simp_all add: makes makes_flow_def sum_list_delete [OF dist(2)] e_def)
qed

text \<open>What a maker pays for an input is what the taker is given.\<close>

lemma swap_pays:
  assumes gm: "good n m" and i: "unat i \<le> n"
  shows "(case mip_loss M (Trans m (Succ (mk_swap M (side_wrap s i) m))) of Some v \<Rightarrow> os_unwrap v | None \<Rightarrow> 0) =
    make_flow M (side_not s) (Trans m (Succ (mk_swap M (side_wrap s i) m)))"
    "make_flow M s (Trans m (Succ (mk_swap M (side_wrap s i) m))) = - i"
proof -
  let ?m = "mk_swap M (side_wrap s i) m"
  note gain = swap_gain [OF gm, of s i] and fits = swap_fits [OF gm i, of s] and loss = swap_loss [OF gm i, of s]
  show "make_flow M s (Trans m (Succ ?m)) = - i" by (simp add: make_flow_def gain)
  have grows: "i \<noteq> 0 \<Longrightarrow> paid_by s (mk_liquidity M m) < paid_by s (mk_liquidity M ?m)"
    using fits unat_gt_0 [of i] by (simp add: gain word_less_nat_alt unat_add_lem [THEN iffD1])
  show "(case mip_loss M (Trans m (Succ ?m)) of Some v \<Rightarrow> os_unwrap v | None \<Rightarrow> 0) =
    make_flow M (side_not s) (Trans m (Succ ?m))"
  proof (cases s)
    case Ask
    then show ?thesis
      using gain grows loss swap_nothing [OF gm, of Ask]
      by (cases "i = 0") (auto simp: mip_loss_def reserves_loss_def make_flow_def paid_by_def checked_sub_def)
  next
    case Bid
    then show ?thesis
      using loss by (simp add: mip_loss_def reserves_loss_def make_flow_def paid_by_def checked_sub_def)
  qed
qed

end

subsection \<open>A batch in progress\<close>

lemma add_take_makes [simp]: "ma_makes (add_take T tr batch) = ma_makes batch"
  by (simp add: add_take_def Let_def split: option.splits)

lemma try_pick_fr_side:
  "try_pick_fr T sd test m = (Some c, m') \<Longrightarrow> mt_ok T m \<Longrightarrow> tk_side T c = sd"
  by (cases sd) (auto simp: try_pick_fr_def mt_ok_def split: list.splits if_splits)

context conserving_market
begin

definition batch_flow :: "side \<Rightarrow> ('t, 'm, 'id, 'u) matchmaking_attempt \<Rightarrow> u64" where
  "batch_flow s batch = takes_flow T s (ma_takes batch) + makes_flow M s (ma_makes batch)"

text \<open>The takers in hand, \<open>H\<close>, are those picked and not yet matched.\<close>

definition flow_inv :: "('t, 'm, 'id) tlb_state \<Rightarrow> ('t, 'm, 'id, 'u) matchmaking_attempt \<Rightarrow> 't set \<Rightarrow> bool" where
  "flow_inv st batch H \<longleftrightarrow>
     linked batch (mt_elems (active_fragments st) \<union> H) \<and> mt_elems (active_fragments st) \<inter> H = {} \<and> finite H \<and>
     makers_linked batch (load (mt_elems (active_fragments st) \<union> H)) (mm_values (pools st)) \<and>
     (\<forall>s. batch_flow s batch = 0)"

lemma flow_inv_less:
  assumes "flow_inv st batch H" "K \<subseteq> H"
  shows "flow_inv st batch K"
proof -
  have sub: "mt_elems (active_fragments st) \<union> K \<subseteq> mt_elems (active_fragments st) \<union> H" using assms(2) by auto
  moreover have "finite H" using assms(1) by (simp add: flow_inv_def)
  ultimately have "load (mt_elems (active_fragments st) \<union> K) \<le> load (mt_elems (active_fragments st) \<union> H)"
    by (intro load_mono) auto
  then show ?thesis
    using assms linked_less [OF _ sub] makers_linked_less finite_subset unfolding flow_inv_def by blast
qed

lemma flow_pick:
  assumes "flow_inv st batch H" "mt_ok T (active_fragments st)" "picks T f" "pick_active_taker f st = (res, st')"
  shows "flow_inv st' batch (set_option res \<union> H)"
proof -
  have p: "mt_elems (active_fragments st) = mt_elems (active_fragments st') \<union> set_option res"
    "mt_elems (active_fragments st') \<inter> set_option res = {}"
    using picksD [OF assms(3,2), of res "active_fragments st'"] pick_active_taker_frame [OF assms(4)] by auto
  then have "mt_elems (active_fragments st) \<union> H = mt_elems (active_fragments st') \<union> (set_option res \<union> H)" by auto
  moreover have "mt_elems (active_fragments st') \<inter> (set_option res \<union> H) = {}"
    using p assms(1) by (auto simp: flow_inv_def)
  ultimately show ?thesis
    using assms(1) pick_active_pools [OF assms(4)] by (simp add: flow_inv_def)
qed

lemma flow_back:
  assumes "flow_inv st batch {t}"
  shows "flow_inv (pre_add_taker T t st) batch {}"
proof -
  have sub: "mt_elems (active_fragments (pre_add_taker T t st)) \<subseteq> mt_elems (active_fragments st) \<union> {t}"
    using pre_add_taker_frame [of T t st] by auto
  then have "load (mt_elems (active_fragments (pre_add_taker T t st))) \<le> load (mt_elems (active_fragments st) \<union> {t})"
    by (intro load_mono) auto
  then show ?thesis
    using assms linked_less [OF _ sub] makers_linked_less by (auto simp: flow_inv_def pre_add_taker_pools)
qed

lemma load_succs: "finite A \<Longrightarrow> load (A \<union> succs r) \<le> load A + left_weight r"
  using load_insert by (auto simp: succs_def left_weight_def split: next_state.splits)

lemma makers_linked_takes: "ma_makes b' = ma_makes b \<Longrightarrow> makers_linked b' n ms = makers_linked b n ms"
  by (simp add: makers_linked_def)

lemma match_with_taker_flow:
  assumes inv: "flow_inv st batch {t}" and ok: "mt_ok T (active_fragments st)"
    and run: "match_with_taker T spot t (st, batch) = Some (go_on, st', batch')"
  shows "flow_inv st' batch' {}"
proof -
  obtain res st1 where pick: "try_pick_taker T (side_not (tk_side T t)) (\<lambda>_. True) st = (res, st1)"
    by (metis surj_pair)
  note fl = flow_pick [OF inv ok picks_try_pick_fr pick [unfolded try_pick_taker_def]]
  let ?A = "mt_elems (active_fragments st1)"
  show ?thesis
  proof (cases res)
    case None
    then show ?thesis using run pick flow_inv_less [OF fl, of "{}"] by (simp add: match_with_taker_def)
  next
    case (Some c)
    have "try_pick_fr T (side_not (tk_side T t)) (\<lambda>_. True) (active_fragments st) = (Some c, active_fragments st1)"
      using pick_active_taker_frame [OF pick [unfolded try_pick_taker_def]] Some by simp
    then have side: "tk_side T c = side_not (tk_side T t)" using ok by (rule try_pick_fr_side)
    from run pick Some obtain ta tb where x: "execute_with_taker T t c (\<lambda>ask bid. settle_price T ask bid (Some spot)) = Some (ta, tb)"
      and st': "st' = on_take T (tr_result tb) (on_take T (tr_result ta) st1)"
      and batch': "batch' = add_take T tb (add_take T ta batch)"
      by (auto simp: match_with_taker_def bind_eq_Some_conv)
    define ask bid where "ask = (case tk_side T t of Ask \<Rightarrow> t | Bid \<Rightarrow> c)"
      and "bid = (case tk_side T t of Ask \<Rightarrow> c | Bid \<Rightarrow> t)"
    have ab: "(case tk_side T t of Ask \<Rightarrow> (t, c) | Bid \<Rightarrow> (c, t)) = (ask, bid)"
      by (cases "tk_side T t") (simp_all add: ask_def bid_def)
    have sides: "tk_side T ask = Ask" "tk_side T bid = Bid" and pair: "{ask, bid} = {t, c}"
      using side by (cases "tk_side T t"; auto simp: ask_def bid_def)+
    obtain quote base where q: "traded_amounts (tk_input T ask) (tk_input T bid) (settle_price T ask bid (Some spot)) = Some (quote, base)"
      and ta: "ta = Trans ask (tk_with_applied_trade T base quote ask)"
      and tb: "tb = Trans bid (tk_with_applied_trade T quote base bid)"
      using x unfolding execute_with_taker_def ab by (auto simp: Let_def bind_eq_Some_conv)
    have held: "set_option res \<union> {t} = {ask, bid}" and whole: "?A \<union> {ask, bid} = insert ask (insert bid ?A)"
      using pair Some by auto
    have link: "linked batch (insert ask (insert bid ?A))" and disj: "?A \<inter> {ask, bid} = {}"
      and makers: "makers_linked batch (load (?A \<union> {ask, bid})) (mm_values (pools st1))"
      and zero: "\<forall>s. batch_flow s batch = 0"
      using fl unfolding flow_inv_def held whole by simp_all
    have neq: "ask \<noteq> bid" using sides by auto
    have ids: "tk_id T ask \<noteq> tk_id T bid" using link neq by (auto simp: linked_def dest: inj_onD)
    note succ = applied_id applied_side
    have one: "linked (add_take T ta batch) (insert bid (?A \<union> succs (tr_result ta)))"
      using linked_add_take [of batch ta "insert bid ?A"] link disj neq succ by (auto simp: ta)
    have new: "bid \<notin> ?A \<union> succs (tr_result ta)"
      using disj ids succ(1) [of base quote ask] by (auto simp: ta succs_def split: next_state.splits)
    have two: "linked batch' (?A \<union> succs (tr_result ta) \<union> succs (tr_result tb))"
      unfolding batch' using linked_add_take [of "add_take T ta batch" tb "?A \<union> succs (tr_result ta)"] one new succ
      by (auto simp: tb)
    have sub: "mt_elems (active_fragments st') \<subseteq> ?A \<union> succs (tr_result ta) \<union> succs (tr_result tb)"
      using on_take_actives [of T "tr_result ta" st1] on_take_actives [of T "tr_result tb" "on_take T (tr_result ta) st1"]
      unfolding st' by blast
    have fin: "finite (succs r)" for r :: "('t, terminal_take) next_state" by (simp add: succs_def split: next_state.splits)
    have "load (mt_elems (active_fragments st')) \<le> load (?A \<union> succs (tr_result ta) \<union> succs (tr_result tb))"
      using sub fin by (intro load_mono) auto
    also have "\<dots> \<le> load ?A + left_weight (tr_result ta) + left_weight (tr_result tb)"
      using load_succs [of "?A \<union> succs (tr_result ta)" "tr_result tb"] load_succs [of ?A "tr_result ta"] fin by auto
    also have "\<dots> \<le> load ?A + weight_of ask + weight_of bid"
      using traded_amounts_le [OF q] applied_le [of base ask quote] applied_le [of quote bid base] by (simp add: ta tb)
    also have "\<dots> = load (?A \<union> {ask, bid})"
      using disj neq load_disjoint [of ?A bid] load_disjoint [of "insert bid ?A" ask]
      by (simp add: insert_commute)
    finally have "makers_linked batch' (load (mt_elems (active_fragments st'))) (mm_values (pools st'))"
      using makers_linked_less [OF makers]
      unfolding st' batch' on_take_pools by (simp add: makers_linked_takes [of batch' batch] batch' makers_linked_def)
    moreover have "batch_flow s batch' = 0" for s
    proof -
      have "take_flow T s ta + take_flow T s tb = 0"
        using sides by (cases s) (simp_all add: take_flow_def ta tb applied_left applied_total)
      moreover have "takes_flow T s (ma_takes batch') = takes_flow T s (ma_takes batch) + (take_flow T s ta + take_flow T s tb)"
        unfolding batch' using add_take_flow [OF link, of ta s] add_take_flow [OF one, of tb s] by (simp add: ta tb)
      ultimately show ?thesis using zero by (simp add: batch_flow_def batch')
    qed
    ultimately show ?thesis using linked_less [OF two sub] by (simp add: flow_inv_def)
  qed
qed

lemma match_with_maker_flow:
  assumes inv: "flow_inv st batch {t}" and input: "input \<le> tk_input T t"
    and run: "match_with_maker T M t pid input (st, batch) = (go_on, st', batch')"
  shows "flow_inv st' batch' {}"
proof -
  obtain res st1 where pick: "pick_maker_by_id pid st = (res, st1)" by (metis surj_pair)
  let ?A = "mt_elems (active_fragments st)"
  note pools = pick_maker_pools [OF pick]
  have A: "mt_elems (active_fragments st1) = ?A" using pick_maker_frame [OF pick] by simp
  have link: "linked batch (insert t ?A)" and new: "t \<notin> ?A" and zero: "\<forall>s. batch_flow s batch = 0"
    and makers: "makers_linked batch (load (insert t ?A)) (mm_values (pools st))"
    using inv by (auto simp: flow_inv_def)
  show ?thesis
  proof (cases res)
    case None
    then have "map_of (mm_values (pools st)) pid = None" using pools by simp
    then have "AList.delete pid (mm_values (pools st)) = mm_values (pools st)"
      by (simp add: map_of_eq_None_iff delete_absent)
    then have "flow_inv st1 batch {t}" using inv A pools by (simp add: flow_inv_def)
    then show ?thesis using None run pick flow_inv_less [of st1 batch "{t}" "{}"] by (simp add: match_with_maker_def)
  next
    case (Some m)
    have m: "map_of (mm_values (pools st)) pid = Some m" using pools Some by simp
    define s where "s = tk_side T t"
    define mip :: "'m make_in_progress" where "mip = Trans m (Succ (mk_swap M (side_wrap s input) m))"
    define tip where "tip = Trans t (tk_with_applied_trade T input (make_flow M (side_not s) mip) t)"
    have le': "unat input \<le> unat (tk_input T t)" using input by (simp add: word_le_nat_alt)
    have le: "unat input \<le> load (insert t ?A)"
      using input load_disjoint [of ?A t] new by (simp add: weight_of_def word_le_nat_alt)
    have gm: "good (load (insert t ?A)) m"
      using makers map_of_SomeD [OF m] by (auto simp: makers_linked_def)
    have x: "execute_with_maker T M t m (side_wrap s input) = (tip, mip)"
      using swap_pays(1) [OF gm le, of s] by (simp add: execute_with_maker_def tip_def mip_def Let_def)
    have st': "st' = on_make T M (tr_result mip) (on_take T (tr_result tip) st1)"
      and batch': "batch' = add_take T tip (add_make M mip batch)"
      using run pick Some x by (auto simp: match_with_maker_def s_def)
    note swap = makers_linked_swap [OF makers m le mip_def]
    have lw: "left_weight (tr_result tip) \<le> weight_of t - unat input"
      using le' applied_input [of input "make_flow M (side_not s) mip" t]
      by (auto simp: tip_def left_weight_def weight_of_def unat_sub word_le_nat_alt split: next_state.splits)
    have link1: "linked (add_make M mip batch) (insert t ?A)" using link by (simp add: linked_def add_make_makes)
    have link2: "linked batch' (?A \<union> succs (tr_result tip))"
      unfolding batch' using linked_add_take [of "add_make M mip batch" tip ?A] link1 new applied_id applied_side
      by (simp add: tip_def)
    have act: "active_fragments st' = active_fragments (on_take T (tr_result tip) st1)"
      unfolding st' by (simp add: on_make_def pre_add_maker_frame split: next_state.splits)
    have sub: "mt_elems (active_fragments st') \<subseteq> ?A \<union> succs (tr_result tip)"
      unfolding act using on_take_actives [of T "tr_result tip" st1] A by simp
    have fin: "finite (succs (tr_result tip))" by (simp add: succs_def split: next_state.splits)
    have "load (mt_elems (active_fragments st')) \<le> load (?A \<union> succs (tr_result tip))"
      using sub fin by (intro load_mono) auto
    also have "\<dots> \<le> load ?A + left_weight (tr_result tip)" by (rule load_succs) simp
    also have "\<dots> \<le> load (insert t ?A) - unat input"
      using lw load_disjoint [of ?A t] new input by (simp add: weight_of_def word_le_nat_alt)
    finally have "makers_linked batch' (load (mt_elems (active_fragments st'))) (mm_values (pools st'))"
      using makers_linked_less [OF swap(1)] pools
      unfolding batch' st' mip_def
      by (simp add: makers_linked_takes [of "add_take T tip b" b for b] on_make_def pre_add_maker_pools on_take_pools
          mm_update_pool_def Let_def)
    moreover have "batch_flow d batch' = 0" for d
    proof -
      have "take_flow T d tip + make_flow M d mip = 0"
        using swap_pays(2) [OF gm le, of s]
        by (cases "d = s") (auto simp: take_flow_def tip_def mip_def applied_left applied_total s_def,
            metis (full_types) side_not.simps side.exhaust)
      moreover have "takes_flow T d (ma_takes batch') = takes_flow T d (ma_takes batch) + take_flow T d tip"
        unfolding batch' using add_take_flow [OF link1, of tip d] by (simp add: add_make_makes(2) tip_def)
      ultimately have "batch_flow d batch' = batch_flow d batch"
        using swap(2) [of d] by (simp add: batch_flow_def batch' algebra_simps)
      then show ?thesis using zero by simp
    qed
    ultimately show ?thesis using linked_less [OF link2 sub] by (simp add: flow_inv_def)
  qed
qed

end

subsection \<open>The final rebalancing\<close>

fun excess_of :: "side \<Rightarrow> excess \<Rightarrow> u64" where
  "excess_of Ask e = ex_base e"
| "excess_of Bid e = ex_quote e"

lemma excess_taken:
  "(case d of Bid \<Rightarrow> (ex_base e, e\<lparr>ex_base := 0\<rparr>) | Ask \<Rightarrow> (ex_quote e, e\<lparr>ex_quote := 0\<rparr>)) = (x, e') \<Longrightarrow>
    x = excess_of (side_not d) e \<and> excess_of (side_not d) e' = 0 \<and> excess_of d e' = excess_of d e"
  by (cases d) auto

context conserving_makers
begin

lemma make_finalized_flow:
  assumes "good 0 (tr_target tr)" "make_finalized M tr = Some (Some (tr', e))"
  shows "make_flow M s tr' = make_flow M s tr + excess_of s e"
proof -
  note gain = swap_gain [OF assms(1), of Ask, simplified] swap_gain [OF assms(1), of Bid, simplified]
  show ?thesis
    using assms(2) gain
    by (cases s) (auto simp: make_finalized_def make_flow_def Let_def checked_sub_def paid_by_def bind_eq_Some_conv
        split: next_state.splits if_splits option.splits)
qed

lemma finalize_makes_flow:
  "finalize_makes M makes acc = Some (Some (fms, e)) \<Longrightarrow> \<forall>x \<in> set makes. good 0 (tr_target (snd x)) \<Longrightarrow>
    makes_flow M s fms + excess_of s acc = makes_flow M s makes + excess_of s e"
proof (induction makes arbitrary: acc fms e)
  case (Cons x makes)
  obtain mid made where x: "x = (mid, made)" by (metis surj_pair)
  from Cons.prems(1) obtain fm e1 fms1 where
    f: "make_finalized M made = Some (Some (fm, e1))"
    "finalize_makes M makes \<lparr> ex_base = ex_base acc + ex_base e1, ex_quote = ex_quote acc + ex_quote e1 \<rparr> =
      Some (Some (fms1, e))" "fms = (mid, fm) # fms1"
    by (auto simp: x split: option.splits)
  have one: "make_flow M s fm = make_flow M s made + excess_of s e1"
    using Cons.prems(2) f(1) by (intro make_finalized_flow) (auto simp: x)
  have "excess_of s \<lparr> ex_base = ex_base acc + ex_base e1, ex_quote = ex_quote acc + ex_quote e1 \<rparr> =
      excess_of s acc + excess_of s e1" by (cases s) simp_all
  then show ?case using Cons.IH [OF f(2)] Cons.prems(2) one by (simp add: x f(3) makes_flow_def algebra_simps)
qed (simp add: makes_flow_def)

end

context conserving_takers
begin

lemma take_finalized_flow:
  assumes "take_finalized T x tr = Some tr'"
  shows "take_flow T s tr' = take_flow T s tr - (if tk_side T (tr_target tr) = s then 0 else x)"
proof -
  have same: "left_input T (tr_result tr') = left_input T (tr_result tr) \<and>
      total_output T (tr_result tr') = total_output T (tr_result tr) + x"
  proof (cases "tr_result tr")
    case (Succ t)
    then show ?thesis
      using assms terminated
      by (auto simp: take_finalized_def bind_eq_Some_conv Let_def output_added fee_charged corrected)
        (simp_all add: left_input_def total_output_def)
  next
    case (Term t)
    then show ?thesis
      using assms
      by (auto simp: take_finalized_def bind_eq_Some_conv left_input_def total_output_def Let_def
          tt_with_budget_corrected_def tt_with_fee_charged_def tt_with_output_added_def case_prod_beta)
  qed
  have "tr_target tr' = tr_target tr" using assms by (auto simp: take_finalized_def bind_eq_Some_conv Let_def)
  then show ?thesis using same by (simp add: take_flow_def)
qed

lemma finalize_takes_flow:
  "finalize_takes T takes e = Some (fts, rest) \<Longrightarrow>
    takes_flow T s fts + excess_of s e = takes_flow T s takes + excess_of s rest"
proof (induction takes arbitrary: e fts)
  case (Cons y takes)
  obtain tid taken where y: "y = (tid, taken)" by (metis surj_pair)
  let ?d = "tk_side T (tr_target taken)"
  obtain x e' where xe: "(case ?d of Bid \<Rightarrow> (ex_base e, e\<lparr>ex_base := 0\<rparr>) | Ask \<Rightarrow> (ex_quote e, e\<lparr>ex_quote := 0\<rparr>)) = (x, e')"
    by (metis surj_pair)
  from Cons.prems obtain ft fts' where
    f: "take_finalized T x taken = Some ft" "finalize_takes T takes e' = Some (fts', rest)" "fts = (tid, ft) # fts'"
    by (auto simp: y xe bind_eq_Some_conv)
  note ex = excess_taken [OF xe] and flow = take_finalized_flow [OF f(1), of s]
  have "s = ?d \<or> s = side_not ?d" by (cases s; cases ?d) auto
  then have "excess_of s e = excess_of s e' + (if ?d = s then 0 else x)" using ex by auto
  then show ?case
    using Cons.IH [OF f(2)] flow by (cases "?d = s") (simp_all add: y f(3) takes_flow_def algebra_simps)
qed (simp add: takes_flow_def)

end

subsection \<open>Attempts\<close>

lemma rollback_pools: "previews T st0 st \<Longrightarrow> pools (tlb_rollback T opt st) = id_makers st0"
  by (cases st) (auto simp: pp_rollback_def pv_rollback_def Let_def split: stashing_option.splits)

context conserving_market
begin

lemma recipe_flow_zero:
  assumes zero: "\<forall>s. batch_flow s batch = 0" and good: "\<forall>x \<in> set (ma_makes batch). good 0 (tr_target (snd x))"
    and r: "recipe_try_from T M b batch = Some (Inr recipe)"
  shows "recipe_flow T M s recipe = 0"
proof -
  from r obtain rc where rc: "attempt_finalized T M batch = Some (Some rc)"
    by (auto simp: recipe_try_from_def split: if_splits option.splits)
  then obtain takes where takes: "sort_takes T (fr_ordering rc) (map snd (fr_takes rc)) = Some takes"
    and recipe: "recipe = map Inl takes @ map Inr (map snd (fr_makes rc))"
    using r by (auto simp: recipe_try_from_def bind_eq_Some_conv Let_def split: if_splits)
  obtain makes e fts rest where
    fm: "finalize_makes M (ma_makes batch) \<lparr> ex_base = 0, ex_quote = 0 \<rparr> = Some (Some (makes, e))"
    and ft: "finalize_takes T (ma_takes batch) e = Some (fts, rest)"
    and rest: "ex_base rest = 0" "ex_quote rest = 0" and rc': "fr_takes rc = fts" "fr_makes rc = makes"
    using rc by (auto simp: attempt_finalized_def split: option.splits prod.splits if_splits)
  have "excess_of s rest = 0" "excess_of s \<lparr> ex_base = 0, ex_quote = 0 \<rparr> = 0" using rest by (cases s; simp)+
  then have m: "makes_flow M s makes = makes_flow M s (ma_makes batch) + excess_of s e"
    and t: "takes_flow T s fts + excess_of s e = takes_flow T s (ma_takes batch)"
    using finalize_makes_flow [OF fm good, of s] finalize_takes_flow [OF ft, of s] by simp_all
  have "takes_flow T s fts + makes_flow M s makes = takes_flow T s fts + excess_of s e + makes_flow M s (ma_makes batch)"
    by (simp add: m algebra_simps)
  also have "\<dots> = batch_flow s batch" by (simp add: t batch_flow_def)
  finally have flows: "takes_flow T s fts + makes_flow M s makes = 0" using zero by simp
  have "(\<Sum>tr \<leftarrow> takes. take_flow T s tr) = sum_mset (image_mset (take_flow T s) (mset takes))"
    by (simp flip: sum_mset_sum_list)
  also have "\<dots> = takes_flow T s fts"
    unfolding sort_takes_mset [OF takes] rc' takes_flow_def by (simp flip: sum_mset_sum_list add: image_mset.compositionality comp_def)
  finally have "(\<Sum>tr \<leftarrow> takes. take_flow T s tr) = takes_flow T s fts" .
  then show ?thesis
    using flows by (simp add: recipe_flow_def recipe rc' makes_flow_def comp_def)
qed

lemma match_target_flow:
  assumes inv: "flow_inv st batch {t}" and ok: "mt_ok T (active_fragments st)"
    and run: "match_target T M o2o opt spot t (st, batch) = Some (go_on, st', batch')"
  shows "flow_inv st' batch' {}"
  using run
proof (cases rule: match_target_cases)
  case 1
  then show ?thesis by (rule match_with_taker_flow [OF inv ok])
next
  case (2 pid fp)
  have "fp_input fp \<le> tk_input T t" using preselected_input [OF 2(1)] by auto
  then show ?thesis using 2(2) by (rule match_with_maker_flow [OF inv])
next
  case 3
  then show ?thesis using flow_back [OF inv] by simp
qed

lemma fill_batch_flow:
  "flow_inv st batch {} \<Longrightarrow> batch_inv st0 S st batch \<Longrightarrow> book_ok T st0 \<Longrightarrow>
    fill_batch fuel T M conf opt (st, batch) ev = Ret ((st', batch'), ev') \<Longrightarrow> flow_inv st' batch' {}"
proof (induction fuel arbitrary: st batch ev)
  case (Suc fuel)
  note flow = Suc.prems(1) and inv = Suc.prems(2) and ok = Suc.prems(3) and run = Suc.prems(4)
  have mt: "mt_ok T (active_fragments s)" if "batch_inv st0 S s b" for s and b :: "('t, 'm, 'id, 'u) matchmaking_attempt"
    using that previews_active_ok [OF ok] by (simp add: batch_inv_def)
  show ?case
  proof (cases "(ma_execution_units_consumed batch < soft_cap conf \<and> num_takes batch < 15) \<and> spot_price M st \<noteq> None")
    case False
    then show ?thesis using run flow by (auto split: if_splits)
  next
    case True
    then obtain spot where spot: "spot_price M st = Some spot" by auto
    obtain res st1 where pick: "pick_active_taker (max_by_distance_to_spot T spot (allowed_price_range T st)) st = (res, st1)"
      by (metis surj_pair)
    note p = batch_inv_pick [OF inv ok picks_max_by_distance pick]
    note fl = flow_pick [OF flow mt [OF inv] picks_max_by_distance pick]
    show ?thesis
    proof (cases res)
      case None
      then show ?thesis using run True spot pick fl by simp
    next
      case (Some t)
      then obtain go_on st2 batch2 where m: "match_target T M (o2o_allowed conf) opt spot t (st1, batch) = Some (go_on, st2, batch2)"
        and rest: "(if go_on then fill_batch fuel T M conf opt (st2, batch2) (ev @ [SpotPrice spot])
          else Ret ((st2, batch2), ev @ [SpotPrice spot])) = Ret ((st', batch'), ev')"
        using run True spot pick by (auto simp: run_bind_Ret Let_def)
      have inv1: "batch_inv st0 S st1 batch" and t: "from_book (book_elems st0 - set S) batch t"
        and fl1: "flow_inv st1 batch {t}" using p fl Some by auto
      have next1: "batch_inv st0 S st2 batch2" "flow_inv st2 batch2 {}"
        using match_target_turn [OF inv1 ok t m] match_target_flow [OF fl1 mt [OF inv1] m] by auto
      show ?thesis
      proof (cases go_on)
        case True
        then show ?thesis using rest Suc.IH [OF next1(2,1) ok] by simp
      qed (use rest next1 in simp)
    qed
  qed
qed simp

text \<open>A book whose takers have distinct identifiers and whose makers are good for all their input.\<close>

definition sound_book :: "('t, 'm, 'id) idle_state \<Rightarrow> bool" where
  "sound_book st0 \<longleftrightarrow> book_ok T st0 \<and> inj_on (tk_id T) (book_elems st0) \<and>
     distinct (map fst (mm_values (id_makers st0))) \<and>
     (\<forall>x \<in> set (mm_values (id_makers st0)). fst x = mk_id M (snd x) \<and> good (load (book_elems st0)) (snd x))"

lemma flow_inv_start:
  assumes "sound_book st0" "previews T st0 st" "\<forall>v. st \<noteq> Preview v" "pools st = id_makers st0"
  shows "flow_inv st attempt_empty {}"
proof -
  have sub: "mt_elems (active_fragments st) \<subseteq> book_elems st0"
    using previews_active_live [OF assms(2,3)] previews_live [OF assms(2)] by auto
  then have "load (mt_elems (active_fragments st)) \<le> load (book_elems st0)" by (intro load_mono) simp_all
  moreover have "makers_linked attempt_empty (load (book_elems st0)) (mm_values (pools st))"
    using assms(1,4) by (auto simp: makers_linked_def sound_book_def attempt_empty_def)
  ultimately have "makers_linked attempt_empty (load (mt_elems (active_fragments st))) (mm_values (pools st))"
    by (rule makers_linked_less [rotated])
  moreover have "linked attempt_empty (mt_elems (active_fragments st))"
    using assms(1) inj_on_subset [OF _ sub] by (auto simp: linked_def sound_book_def attempt_empty_def)
  ultimately show ?thesis
    by (simp add: flow_inv_def batch_flow_def attempt_empty_def takes_flow_def makes_flow_def)
qed

lemma attempt_flow:
  assumes sound: "sound_book st0"
  shows "previews T st0 st \<Longrightarrow> \<forall>v. st \<noteq> Preview v \<Longrightarrow> pools st = id_makers st0 \<Longrightarrow>
    attempt fuel inner T M conf opt st = Ret (Some recipe, ev, st') \<Longrightarrow> recipe_flow T M s recipe = 0"
proof (induction fuel arbitrary: st opt)
  case (Suc fuel)
  have ok: "book_ok T st0" using sound by (simp add: sound_book_def)
  from Suc.prems(4) obtain st1 batch ev1 where
    fill: "fill_batch inner T M conf opt (st, attempt_empty) [LiquidityBookSizePreAttempt (tlb_size st)] = Ret ((st1, batch), ev1)"
    by (auto simp: run_bind_Ret Let_def)
  note inv0 = batch_inv_empty [OF Suc.prems(1,2)]
  have inv: "batch_inv st0 (stashed_takers st) st1 batch" by (rule fill_batch_inv [OF inv0 ok fill])
  have flow: "flow_inv st1 batch {}"
    by (rule fill_batch_flow [OF flow_inv_start [OF sound Suc.prems(1-3)] inv0 ok fill])
  have pv: "previews T st0 st1" using inv by (simp add: batch_inv_def)
  from Suc.prems(4) fill obtain r where r: "recipe_try_from T M (base_step_budget conf) batch = Some r"
    by (auto simp: run_bind_Ret Let_def)
  note again = rollback_settled [OF pv] rollback_pools [OF pv]
  show ?case
  proof (cases r rule: recipe_result_cases)
    case (1 rc)
    then have "rc = recipe" using Suc.prems(4) fill r by (simp add: Let_def)
    then show ?thesis
      using r 1 flow by (intro recipe_flow_zero [of batch "base_step_budget conf"]) (auto simp: flow_inv_def makers_linked_def)
  next
    case 2
    then show ?thesis using Suc.prems(4) fill r by (simp add: Let_def)
  next
    case (3 us)
    have "previews T st0 (tlb_rollback T (Stash us) st1)"
      using unsatisfied_live [OF inv r [unfolded 3]] by (intro rollback_previews [OF ok pv]) simp
    moreover have "attempt fuel inner T M conf opt (tlb_rollback T (Stash us) st1) = Ret (Some recipe, ev, st')"
      using Suc.prems(4) fill r 3 by (simp add: Let_def)
    ultimately show ?thesis using Suc.IH again by blast
  next
    case 4
    have "previews T st0 (tlb_rollback T (Stash []) st1)" by (intro rollback_previews [OF ok pv]) simp
    moreover have "attempt fuel inner T M conf False (tlb_rollback T (Stash []) st1) = Ret (Some recipe, ev, st')"
      using Suc.prems(4) fill r 4 by (simp add: Let_def)
    ultimately show ?thesis using Suc.IH again by blast
  qed
qed simp

lemma recipe_conserves:
  "sound_book st0 \<Longrightarrow> book_attempt fuel inner T M conf (Idle st0) = Ret (Some recipe, ev, st') \<Longrightarrow>
    recipe_flow T M s recipe = 0"
  by (rule attempt_flow [where st = "Idle st0"]) (auto simp: book_attempt_def)

end

end
