(* ===== verification/Pool_Maker.thy ===== *)
theory Pool_Maker
  imports Pool_Trades Lb_Conservation Lb_Examples
begin

text \<open>
  The constant-product pools as makers of the liquidity book: a pool with room for an amount keeps
  the contract of \<open>Lb_Conservation\<close>, whatever its kind. With limit orders as takers, matchmaking
  conserves both assets of a pair.
\<close>

subsection \<open>Room for input\<close>

declare of_nat_unat [simp del]

definition pool_room :: "asset_class \<Rightarrow> asset_class \<Rightarrow> u64 \<Rightarrow> u64 \<Rightarrow> nat \<Rightarrow> nat \<Rightarrow> nat \<Rightarrow> bool" where
  "pool_room ax ay rx ry owed_x owed_y n \<longleftrightarrow>
     ax \<noteq> ay \<and> owed_x < unat rx \<and> owed_y < unat ry \<and>
     (ax = Native \<longrightarrow> owed_x + 3000000 \<le> unat rx) \<and> (ay = Native \<longrightarrow> owed_y + 3000000 \<le> unat ry) \<and>
     n * 100000 < 2 ^ 64 \<and> unat rx + n < 2 ^ 64 \<and> unat ry + n < 2 ^ 64"

fun cf_good :: "ratio_sub \<Rightarrow> nat \<Rightarrow> const_fn_pool \<Rightarrow> bool" where
  "cf_good sub n (Classic p) \<longleftrightarrow>
     pool_room (cp_asset_x p) (cp_asset_y p) (cp_reserves_x p) (cp_reserves_y p) 0 0 n \<and> fee_like (cp_lp_fee p)"
| "cf_good sub n (FeeSwitch p) \<longleftrightarrow> exact_sub sub \<and>
     pool_room (fs_asset_x p) (fs_asset_y p) (fs_reserves_x p) (fs_reserves_y p) (unat (fs_treasury_x p)) (unat (fs_treasury_y p)) n \<and>
     fee_like (fs_lp_fee_x p) \<and> fee_like (fs_lp_fee_y p) \<and> fee_like (fs_treasury_fee p) \<and>
     fee_val (fs_treasury_fee p) \<le> fee_val (fs_lp_fee_x p) \<and> fee_val (fs_treasury_fee p) \<le> fee_val (fs_lp_fee_y p)"
| "cf_good sub n (Royalty p) \<longleftrightarrow> exact_sub sub \<and>
     pool_room (rp_asset_x p) (rp_asset_y p) (rp_reserves_x p) (rp_reserves_y p) (rp_owed_x p) (rp_owed_y p) n \<and>
     fee_like (rp_lp_fee p) \<and> fee_like (rp_treasury_fee p) \<and> fee_like (rp_first_royalty_fee p) \<and>
     fee_like (rp_second_royalty_fee p) \<and>
     fee_val (rp_treasury_fee p) + fee_val (rp_first_royalty_fee p) + fee_val (rp_second_royalty_fee p) \<le> fee_val (rp_lp_fee p)"

lemma cf_good_less: "cf_good sub n p \<Longrightarrow> k \<le> n \<Longrightarrow> cf_good sub k p"
  by (cases p) (auto simp: pool_room_def)

lemma den_nonzero:
  assumes "fee_like fee" "0 < unat r"
  shows "wide r * wide (snd fee) + wide i * wide (fst fee) \<noteq> 0"
proof -
  note b = fee_like_bounds [OF assms(1)]
  have "unat r * unat (snd fee) \<le> 2 ^ 64 * 100000" "unat i * unat (fst fee) \<le> 2 ^ 64 * 100000"
    using b u64_bound [of r] u64_bound [of i] by (intro mult_le_mono; linarith)+
  then have "unat (wide r * wide (snd fee)) + unat (wide i * wide (fst fee)) < 2 ^ LENGTH(128)"
    by (simp add: unat_wide_mult)
  then have "unat (wide r * wide (snd fee) + wide i * wide (fst fee)) = unat r * unat (snd fee) + unat i * unat (fst fee)"
    by (simp only: unat_add_lem [THEN iffD1] unat_wide_mult)
  then show ?thesis using assms(2) b(1) by (metis add_is_0 mult_is_0 not_less0 unat_0)
qed

lemma output_amount_some:
  assumes "fee_like fx" "fee_like fy" "0 < unat x" "0 < unat y"
  shows "\<exists>out. classic_cfmm_output_amount ax ay x y base i fx fy = Some out"
  using den_nonzero [OF assms(1,3), of i] den_nonzero [OF assms(2,4), of i]
  by (simp add: classic_cfmm_output_amount_def div_u128_def Let_def)

lemma output_amount_cap:
  assumes out: "classic_cfmm_output_amount ax ay x y base i fx fy = Some out"
    and rs: "(r_out, a_out) = (if base = ax then (y, ay) else (x, ax))"
    and cap: "a_out = Native \<Longrightarrow> untouchable_lovelace_amount \<le> r_out"
  shows "a_out = Native \<Longrightarrow> untouchable_lovelace_amount \<le> r_out - out" "i = 0 \<Longrightarrow> out = 0"
  using assms
  by (auto simp: classic_cfmm_output_amount_def bind_eq_Some_conv Let_def div_u128_def wide_def narrow_def not_less
      split: if_splits)

text \<open>A trade of part of the room leaves the rest of it.\<close>

lemma room_trade:
  assumes room: "pool_room ax ay rx ry owed_x owed_y n"
    and tr: "unat tx = unat rx - owed_x" "unat ty = unat ry - owed_y"
    and out: "classic_cfmm_output_amount ax ay tx ty (if is_x then ax else ay) i fx fy = Some out"
    and fee: "fee_like fx" "fee_like fy" and i: "unat i \<le> n" and a: "a \<le> unat i"
  shows "is_x \<Longrightarrow> unat out < unat ry \<and> (i = 0 \<longrightarrow> out = 0) \<and>
      pool_room ax ay (rx + i) (ry - out) (owed_x + a) owed_y (n - unat i)"
    and "\<not> is_x \<Longrightarrow> unat out < unat rx \<and> (i = 0 \<longrightarrow> out = 0) \<and>
      pool_room ax ay (rx - out) (ry + i) owed_x (owed_y + a) (n - unat i)"
proof -
  note f = room [unfolded pool_room_def]
  have neq: "ay \<noteq> ax" and pos: "0 < unat tx" "0 < unat ty" using f tr by auto
  have small: "unat r * unat i * 100000 < 2 ^ 128" for r :: u64
  proof -
    have "unat r * (unat i * 100000) < 2 ^ 64 * 2 ^ 64"
      using u64_bound [of r] f i by (intro mult_strict_mono) auto
    then show ?thesis by (simp add: mult.assoc)
  qed
  have cap: "untouchable_lovelace_amount \<le> tx" if "ax = Native"
    using f tr that by (auto simp: word_le_nat_alt untouchable_lovelace_amount_def)
  have cap': "untouchable_lovelace_amount \<le> ty" if "ay = Native"
    using f tr that by (auto simp: word_le_nat_alt untouchable_lovelace_amount_def)
  have j: "of_nat (unat i) * fee_val fee \<le> (of_nat (unat i) :: rat)" if "fee_like fee" for fee
    using mult_left_mono [OF fee_like_bounds(5) [OF that] of_nat_0_le_iff, of "unat i"] by simp
  have left: "3000000 \<le> unat r - unat out"
    if "untouchable_lovelace_amount \<le> r - out" "unat out < unat r" for r :: u64
    using that unat_minus_le [of out r] by (simp add: word_le_nat_alt untouchable_lovelace_amount_def)
  have sums: "unat (rx + i) = unat rx + unat i" "unat (ry + i) = unat ry + unat i"
    using f i by (auto intro!: unat_plus_small)
  show "unat out < unat ry \<and> (i = 0 \<longrightarrow> out = 0) \<and>
      pool_room ax ay (rx + i) (ry - out) (owed_x + a) owed_y (n - unat i)" if is_x
  proof -
    have less: "unat out < unat ty"
      using one_way(2) [where r_in = tx and r_out = ty and a_out = ay and fee = fx and j = "unat i", OF out _ fee(1) small]
        that cap' j [OF fee(1)] pos by simp
    note c = output_amount_cap [where r_out = ty and a_out = ay, OF out _ cap']
    have "ay = Native \<Longrightarrow> 3000000 \<le> unat ty - unat out" using c(1) that less left [of ty] by simp
    moreover have "unat (ry - out) = unat ry - unat out" using less tr by (intro unat_minus_le) simp
    ultimately show ?thesis
      using less tr f i a sums c(2) that unfolding pool_room_def by auto
  qed
  show "unat out < unat rx \<and> (i = 0 \<longrightarrow> out = 0) \<and>
      pool_room ax ay (rx - out) (ry + i) owed_x (owed_y + a) (n - unat i)" if "\<not> is_x"
  proof -
    have less: "unat out < unat tx"
      using one_way(2) [where r_in = ty and r_out = tx and a_out = ax and fee = fy and j = "unat i", OF out _ fee(2) small]
        that cap j [OF fee(2)] pos neq by simp
    note c = output_amount_cap [where r_out = tx and a_out = ax, OF out _ cap]
    have "ax = Native \<Longrightarrow> 3000000 \<le> unat tx - unat out" using c(1) that neq less left [of tx] by simp
    moreover have "unat (rx - out) = unat rx - unat out" using less tr by (intro unat_minus_le) simp
    ultimately show ?thesis
      using less tr f i a sums c(2) that neq unfolding pool_room_def by auto
  qed
qed

subsection \<open>Swaps of every kind\<close>

text \<open>What a swap does to the reserves, and to the room when the input is within it.\<close>

definition swap_shape ::
    "ratio_sub \<Rightarrow> nat \<Rightarrow> u64 on_side \<Rightarrow> const_fn_pool \<Rightarrow> const_fn_pool \<Rightarrow> u64 \<Rightarrow> bool" where
  "swap_shape sub n input p p' out \<longleftrightarrow>
     (let i = os_unwrap input; (x, y, lq) = cf_pool_reserves p; (x', y', lq') = cf_pool_reserves p';
          is_x = input_is_x (cf_asset_x p) (cf_asset_y p) input
      in cf_swap sub input p = Some p' \<and> cf_stable_id p' = cf_stable_id p \<and>
         cf_asset_x p' = cf_asset_x p \<and> cf_asset_y p' = cf_asset_y p \<and> cf_asset_x p \<noteq> cf_asset_y p \<and>
         unat x + n < 2 ^ 64 \<and> unat y + n < 2 ^ 64 \<and>
         (x', y') = (if is_x then (x + i, y - out) else (x - out, y + i)) \<and>
         (unat i \<le> n \<longrightarrow> cf_good sub (n - unat i) p' \<and> unat out < unat (if is_x then y else x) \<and> (i = 0 \<longrightarrow> out = 0)))"

lemma cp_side_output_oriented:
  "cp_asset_x p \<noteq> cp_asset_y p \<Longrightarrow> cp_side_output input p =
    cp_output_amount (if input_is_x (cp_asset_x p) (cp_asset_y p) input then cp_asset_x p else cp_asset_y p) (os_unwrap input) p"
  by (cases input) (auto simp: cp_side_output_def input_is_x_def pool_base_def cp_base_def cp_quote_def order_canonical_def)

lemma classic_shape:
  assumes "cf_good sub n (Classic p)"
  shows "\<exists>p' out. swap_shape sub n input (Classic p) p' out"
proof -
  define i where "i = os_unwrap input"
  define is_x where "is_x = input_is_x (cp_asset_x p) (cp_asset_y p) input"
  have room: "pool_room (cp_asset_x p) (cp_asset_y p) (cp_reserves_x p) (cp_reserves_y p) 0 0 n" and fee: "fee_like (cp_lp_fee p)"
    using assms by auto
  note room' = room [unfolded pool_room_def]
  obtain out where out: "classic_cfmm_output_amount (cp_asset_x p) (cp_asset_y p) (cp_reserves_x p) (cp_reserves_y p)
      (if is_x then cp_asset_x p else cp_asset_y p) i (cp_lp_fee p) (cp_lp_fee p) = Some out"
    using output_amount_some [OF fee fee] room' by fastforce
  define p' where "p' = (if is_x then p\<lparr>cp_reserves_x := cp_reserves_x p + i, cp_reserves_y := cp_reserves_y p - out\<rparr>
    else p\<lparr>cp_reserves_y := cp_reserves_y p + i, cp_reserves_x := cp_reserves_x p - out\<rparr>)"
  have "cp_side_output input p = Some out"
    using cp_side_output_oriented [of p input] room' out by (simp add: cp_output_amount_def is_x_def i_def)
  then have "cp_swap input p = Some p'"
    by (cases input) (auto simp: cp_swap_def p'_def is_x_def i_def input_is_x_def pool_base_def cp_base_def)
  moreover note room_trade [OF room _ _ out fee fee, of 0]
  ultimately show ?thesis
    using room' fee unfolding swap_shape_def
    by (intro exI [of _ "Classic p'"] exI [of _ out]) (auto simp: p'_def is_x_def i_def)
qed

lemma fee_switch_shape:
  assumes "cf_good sub n (FeeSwitch p)"
  shows "\<exists>p' out. swap_shape sub n input (FeeSwitch p) p' out"
proof -
  define i where "i = os_unwrap input"
  define is_x where "is_x = input_is_x (fs_asset_x p) (fs_asset_y p) input"
  let ?fx = "sub (fs_lp_fee_x p) (fs_treasury_fee p)" and ?fy = "sub (fs_lp_fee_y p) (fs_treasury_fee p)"
  have sub: "exact_sub sub" and fees: "fee_like (fs_lp_fee_x p)" "fee_like (fs_lp_fee_y p)" "fee_like (fs_treasury_fee p)"
      "fee_val (fs_treasury_fee p) \<le> fee_val (fs_lp_fee_x p)" "fee_val (fs_treasury_fee p) \<le> fee_val (fs_lp_fee_y p)"
    and room: "pool_room (fs_asset_x p) (fs_asset_y p) (fs_reserves_x p) (fs_reserves_y p)
      (unat (fs_treasury_x p)) (unat (fs_treasury_y p)) n"
    using assms by auto
  note room' = room [unfolded pool_room_def]
  have fl: "fee_like ?fx" "fee_like ?fy" using fees exact_subD(1) [OF sub] by blast+
  have tx: "unat (fs_tradable_x p) = unat (fs_reserves_x p) - unat (fs_treasury_x p)"
    and ty: "unat (fs_tradable_y p) = unat (fs_reserves_y p) - unat (fs_treasury_y p)"
    using room' by (simp_all add: fs_tradable_x_def fs_tradable_y_def unat_minus_le)
  obtain out where out: "classic_cfmm_output_amount (fs_asset_x p) (fs_asset_y p) (fs_tradable_x p) (fs_tradable_y p)
      (if is_x then fs_asset_x p else fs_asset_y p) i ?fx ?fy = Some out"
    using output_amount_some [OF fl] room' tx ty by fastforce
  obtain fee where fee: "accrue i (fs_treasury_fee p) = Some fee" using fees(3) by (auto simp: accrue_def fee_like_def)
  define p' where "p' = (if is_x
      then p\<lparr>fs_reserves_x := fs_reserves_x p + i, fs_reserves_y := fs_reserves_y p - out, fs_treasury_x := fs_treasury_x p + fee\<rparr>
      else p\<lparr>fs_reserves_y := fs_reserves_y p + i, fs_reserves_x := fs_reserves_x p - out, fs_treasury_y := fs_treasury_y p + fee\<rparr>)"
  have "fs_side_output sub p input = Some out"
    using side_output_oriented [of "fs_asset_x p" "fs_asset_y p" "fs_output_amount sub p" input] room' out
    by (simp add: fs_side_output_def fs_output_amount_def is_x_def i_def)
  then have "fs_swap sub input p = Some p'" using fee by (simp add: fs_swap_def p'_def is_x_def i_def Let_def)
  moreover have "cf_good sub (n - unat i) (FeeSwitch p') \<and> unat out < unat (if is_x then fs_reserves_y p else fs_reserves_x p) \<and>
      (i = 0 \<longrightarrow> out = 0)" if le: "unat i \<le> n"
  proof -
    have a: "unat fee \<le> unat i" using accrue_bound(2) [OF fee fees(3)] room' le by simp
    have sum: "unat (t + fee) = unat t + unat fee" if "unat t < unat r" "unat r + n < 2 ^ 64" for t r :: u64
      using that a le by (intro unat_plus_small) simp
    show ?thesis
      using room_trade [OF room tx ty out fl le a] sub fees room' sum [of "fs_treasury_x p" "fs_reserves_x p"]
        sum [of "fs_treasury_y p" "fs_reserves_y p"]
      by (cases is_x) (simp_all add: p'_def)
  qed
  ultimately show ?thesis
    using room' unfolding swap_shape_def
    by (intro exI [of _ "FeeSwitch p'"] exI [of _ out]) (auto simp: p'_def is_x_def i_def)
qed

lemma royalty_accrued:
  assumes fees: "fee_like (rp_lp_fee p)" "fee_like (rp_treasury_fee p)" "fee_like (rp_first_royalty_fee p)"
      "fee_like (rp_second_royalty_fee p)"
      "fee_val (rp_treasury_fee p) + fee_val (rp_first_royalty_fee p) + fee_val (rp_second_royalty_fee p) \<le> fee_val (rp_lp_fee p)"
    and acc: "accrue i (rp_treasury_fee p) = Some t" "accrue i (rp_first_royalty_fee p) = Some f"
      "accrue i (rp_second_royalty_fee p) = Some s"
    and small: "unat i * 100000 < 2 ^ 64"
  shows "unat t + unat f + unat s \<le> unat i"
proof -
  let ?v = "fee_val (rp_treasury_fee p) + fee_val (rp_first_royalty_fee p) + fee_val (rp_second_royalty_fee p)"
  have "of_nat (unat t + unat f + unat s) \<le> of_nat (unat i) * ?v"
    using accrue_bound(1) [OF acc(1) fees(2) small] accrue_bound(1) [OF acc(2) fees(3) small]
      accrue_bound(1) [OF acc(3) fees(4) small] by (simp add: distrib_left)
  also have "\<dots> \<le> of_nat (unat i) * 1"
    using fees fee_like_bounds(5) [OF fees(1)] by (intro mult_left_mono) auto
  finally show ?thesis by (simp only: mult_1_right of_nat_le_iff)
qed

lemma royalty_shape:
  assumes "cf_good sub n (Royalty p)"
  shows "\<exists>p' out. swap_shape sub n input (Royalty p) p' out"
proof -
  define i where "i = os_unwrap input"
  define is_x where "is_x = input_is_x (rp_asset_x p) (rp_asset_y p) input"
  let ?fee = "rp_trade_fee sub p"
  have sub: "exact_sub sub" and fees: "fee_like (rp_lp_fee p)" "fee_like (rp_treasury_fee p)" "fee_like (rp_first_royalty_fee p)"
      "fee_like (rp_second_royalty_fee p)"
      "fee_val (rp_treasury_fee p) + fee_val (rp_first_royalty_fee p) + fee_val (rp_second_royalty_fee p) \<le> fee_val (rp_lp_fee p)"
    and room: "pool_room (rp_asset_x p) (rp_asset_y p) (rp_reserves_x p) (rp_reserves_y p) (rp_owed_x p) (rp_owed_y p) n"
    using assms by auto
  note room' = room [unfolded pool_room_def]
  have fl: "fee_like ?fee"
    using fees fee_like_bounds(4) [OF fees(2)] fee_like_bounds(4) [OF fees(3)] fee_like_bounds(4) [OF fees(4)]
    unfolding rp_trade_fee_def by (simp add: exact_subD [OF sub])
  have "rp_owed_x p < unat (rp_reserves_x p)" "rp_owed_y p < unat (rp_reserves_y p)" using room' by auto
  note ow = rp_owed [OF this]
  obtain out where out: "classic_cfmm_output_amount (rp_asset_x p) (rp_asset_y p) (rp_tradable_x p) (rp_tradable_y p)
      (if is_x then rp_asset_x p else rp_asset_y p) i ?fee ?fee = Some out"
    using output_amount_some [OF fl fl] room' ow by fastforce
  obtain t f s where acc: "accrue i (rp_treasury_fee p) = Some t" "accrue i (rp_first_royalty_fee p) = Some f"
      "accrue i (rp_second_royalty_fee p) = Some s"
    using fees by (auto simp: accrue_def fee_like_def)
  define p' where "p' = (if is_x
      then p\<lparr>rp_reserves_x := rp_reserves_x p + i, rp_reserves_y := rp_reserves_y p - out, rp_treasury_x := rp_treasury_x p + t,
        rp_first_royalty_x := rp_first_royalty_x p + f, rp_second_royalty_x := rp_second_royalty_x p + s\<rparr>
      else p\<lparr>rp_reserves_y := rp_reserves_y p + i, rp_reserves_x := rp_reserves_x p - out, rp_treasury_y := rp_treasury_y p + t,
        rp_first_royalty_y := rp_first_royalty_y p + f, rp_second_royalty_y := rp_second_royalty_y p + s\<rparr>)"
  have "rp_side_output sub p input = Some out"
    using side_output_oriented [of "rp_asset_x p" "rp_asset_y p" "rp_output_amount sub p" input] room' out
    by (simp add: rp_side_output_def rp_output_amount_def is_x_def i_def)
  then have "rp_swap sub input p = Some p'" using acc by (simp add: rp_swap_def p'_def is_x_def i_def Let_def)
  moreover have "cf_good sub (n - unat i) (Royalty p') \<and> unat out < unat (if is_x then rp_reserves_y p else rp_reserves_x p) \<and>
      (i = 0 \<longrightarrow> out = 0)" if le: "unat i \<le> n"
  proof -
    have a: "unat t + unat f + unat s \<le> unat i" using royalty_accrued [OF fees acc] room' le by simp
    have owed: "rp_owed_x p' = rp_owed_x p + (if is_x then unat t + unat f + unat s else 0)"
      "rp_owed_y p' = rp_owed_y p + (if is_x then 0 else unat t + unat f + unat s)"
      using room' a le by (auto simp: p'_def rp_owed_x_def rp_owed_y_def unat_plus_small)
    show ?thesis
      using room_trade [OF room ow(3,4) out fl fl le a] sub fees owed
      by (cases is_x) (simp_all add: p'_def)
  qed
  ultimately show ?thesis
    using room' unfolding swap_shape_def
    by (intro exI [of _ "Royalty p'"] exI [of _ out]) (auto simp: p'_def is_x_def i_def)
qed

lemma cf_shape: "cf_good sub n p \<Longrightarrow> \<exists>p' out. swap_shape sub n input p p' out"
  using classic_shape fee_switch_shape royalty_shape by (cases p) blast+

subsection \<open>The contracts are kept\<close>

lemma paid_by_reserves:
  "paid_by s (cf_reserves p) =
    (if input_is_x (cf_asset_x p) (cf_asset_y p) (side_wrap s i) then fst (cf_pool_reserves p)
     else fst (snd (cf_pool_reserves p)))"
  by (cases p; cases s) (auto simp: paid_by_def input_is_x_def cp_reserves_def fs_reserves_def rp_reserves_def
      pool_reserves_def cp_base_def pool_base_def)

lemma input_is_x_not: "input_is_x ax ay (side_wrap (side_not s) j) \<longleftrightarrow> \<not> input_is_x ax ay (side_wrap s i)"
  by (cases s) (auto simp: input_is_x_def)

interpretation limit: conserving_takers limit_taker
  by unfold_locales
    (auto simp: limit_taker_def lo_with_applied_trade_def lo_terminal_def lo_side_def left_input_def total_output_def
      lo_with_output_added_def lo_with_fee_charged_def lo_with_budget_corrected_def lo_try_terminate_def Let_def
      split: if_splits prod.splits)

lemma cf_swap_laws:
  assumes "cf_good sub n p"
  shows "paid_by s (cf_reserves (mk_swap (const_fn_maker sub D) (side_wrap s i) p)) = paid_by s (cf_reserves p) + i"
    and "unat i \<le> n \<Longrightarrow> cf_good sub (n - unat i) (mk_swap (const_fn_maker sub D) (side_wrap s i) p) \<and>
      unat (paid_by s (cf_reserves p)) + unat i < 2 ^ 64 \<and>
      paid_by (side_not s) (cf_reserves (mk_swap (const_fn_maker sub D) (side_wrap s i) p)) \<le>
        paid_by (side_not s) (cf_reserves p)"
    and "i = 0 \<Longrightarrow> paid_by (side_not s) (cf_reserves (mk_swap (const_fn_maker sub D) (side_wrap s i) p)) =
      paid_by (side_not s) (cf_reserves p)"
proof -
  obtain p' out where sh: "swap_shape sub n (side_wrap s i) p p' out" using cf_shape [OF assms] by blast
  obtain x y lq x' y' lq' where r: "cf_pool_reserves p = (x, y, lq)" "cf_pool_reserves p' = (x', y', lq')"
    by (metis prod_cases3)
  let ?is_x = "input_is_x (cf_asset_x p) (cf_asset_y p) (side_wrap s i)"
  have sw: "mk_swap (const_fn_maker sub D) (side_wrap s i) p = p'"
    and same: "cf_asset_x p' = cf_asset_x p" "cf_asset_y p' = cf_asset_y p"
    and new: "(x', y') = (if ?is_x then (x + i, y - out) else (x - out, y + i))"
    and fits: "unat x + n < 2 ^ 64" "unat y + n < 2 ^ 64"
    and room: "unat i \<le> n \<Longrightarrow> cf_good sub (n - unat i) p' \<and> unat out < unat (if ?is_x then y else x) \<and> (i = 0 \<longrightarrow> out = 0)"
    using sh by (simp_all add: swap_shape_def r const_fn_maker_def Let_def split: if_splits)
  note p = paid_by_reserves [of s p i] paid_by_reserves [of s p' i, unfolded same]
    paid_by_reserves [of "side_not s" p i, unfolded input_is_x_not [of _ _ s i i]]
    paid_by_reserves [of "side_not s" p' i, unfolded same input_is_x_not [of _ _ s i i]]
  show "paid_by s (cf_reserves (mk_swap (const_fn_maker sub D) (side_wrap s i) p)) = paid_by s (cf_reserves p) + i"
    using new unfolding sw p r by (auto split: if_splits)
  have sub: "r - out \<le> r" if "unat out < unat r" for r :: u64
    using that unat_minus_le [of out r] by (simp add: word_le_nat_alt)
  show "cf_good sub (n - unat i) (mk_swap (const_fn_maker sub D) (side_wrap s i) p) \<and>
      unat (paid_by s (cf_reserves p)) + unat i < 2 ^ 64 \<and>
      paid_by (side_not s) (cf_reserves (mk_swap (const_fn_maker sub D) (side_wrap s i) p)) \<le>
        paid_by (side_not s) (cf_reserves p)" if "unat i \<le> n"
    using new room [OF that] fits that sub unfolding sw p r by (auto split: if_splits)
  show "paid_by (side_not s) (cf_reserves (mk_swap (const_fn_maker sub D) (side_wrap s i) p)) =
      paid_by (side_not s) (cf_reserves p)" if "i = 0"
    using new room that unfolding sw p r by (auto split: if_splits)
qed

lemma cf_swap_id: "cf_swap sub input p = Some p' \<Longrightarrow> cf_stable_id p' = cf_stable_id p"
  by (cases p; cases input) (auto simp: cp_swap_def fs_swap_def rp_swap_def bind_eq_Some_conv Let_def split: if_splits)

interpretation market: conserving_market limit_taker "const_fn_maker sub D" "cf_good sub"
proof
  fix n p k i s input
  show "cf_good sub n p \<Longrightarrow> k \<le> n \<Longrightarrow> cf_good sub k p" by (rule cf_good_less)
  show "mk_id (const_fn_maker sub D) (mk_swap (const_fn_maker sub D) input p) = mk_id (const_fn_maker sub D) p"
    by (simp add: const_fn_maker_def cf_swap_id split: option.splits)
  have liquidity: "mk_liquidity (const_fn_maker sub D) = cf_reserves" by (simp add: const_fn_maker_def)
  assume g: "cf_good sub n p"
  note laws = cf_swap_laws [OF g, where D = D]
  show "paid_by s (mk_liquidity (const_fn_maker sub D) (mk_swap (const_fn_maker sub D) (side_wrap s i) p)) =
      paid_by s (mk_liquidity (const_fn_maker sub D) p) + i"
    unfolding liquidity by (rule laws(1))
  show "paid_by (side_not s) (mk_liquidity (const_fn_maker sub D) (mk_swap (const_fn_maker sub D) (side_wrap s 0) p)) =
      paid_by (side_not s) (mk_liquidity (const_fn_maker sub D) p)"
    unfolding liquidity by (rule laws(3)) simp
  assume i: "unat i \<le> n"
  show "cf_good sub (n - unat i) (mk_swap (const_fn_maker sub D) (side_wrap s i) p)"
    "unat (paid_by s (mk_liquidity (const_fn_maker sub D) p)) + unat i < 2 ^ 64"
    "paid_by (side_not s) (mk_liquidity (const_fn_maker sub D) (mk_swap (const_fn_maker sub D) (side_wrap s i) p)) \<le>
      paid_by (side_not s) (mk_liquidity (const_fn_maker sub D) p)"
    unfolding liquidity using laws(2) [OF i] by blast+
qed

subsection \<open>Conservation\<close>

text \<open>
  C4. Matchmaking conserves assets. In a recipe for a pair, made by an attempt on a book of limit
  orders and constant-product pools of every kind, what the takers and makers give up of the base
  asset, and likewise of the quote asset, is what others of them receive, to the unit: amounts
  are neither lost nor made up by partial fills, repeated swaps with a pool, the rebalancing of
  these into one swap, or the distribution of its excess. The orders of the book have different
  identifiers, and its pools hold what they owe and have room for the input of all of its orders.
\<close>

theorem recipe_conserves_assets:
  assumes "book_ok limit_taker b" "inj_on lo_stable_id (book_elems b)"
    and "distinct (map fst (mm_values (id_makers b)))"
    and "\<forall>(pid, p) \<in> set (mm_values (id_makers b)). pid = cf_stable_id p \<and>
      cf_good sub (\<Sum>t \<in> book_elems b. unat (lo_input_amount t) + 1) p"
    and "book_attempt fuel inner limit_taker (const_fn_maker sub D) conf (Idle b) = Ret (Some recipe, ev, st')"
  shows "recipe_flow limit_taker (const_fn_maker sub D) s recipe = 0"
proof (rule market.recipe_conserves [OF _ assms(5)])
  have "limit.load (book_elems b) = (\<Sum>t \<in> book_elems b. unat (lo_input_amount t) + 1)"
    unfolding limit.load_def limit.weight_of_def by (simp add: limit_taker_def)
  moreover have "tk_id limit_taker = lo_stable_id" "mk_id (const_fn_maker sub D) = cf_stable_id"
    by (simp_all add: limit_taker_def const_fn_maker_def)
  ultimately show "market.sound_book sub D b"
    using assms(1-4) unfolding market.sound_book_def by fastforce
qed

definition plain_market :: "(const_fn_pool, token, ex_units) maker_ops" where
  "plain_market = const_fn_maker plain_sub
     \<lparr> dl_classic = \<lambda>_ _. None, dl_fee_switch = \<lambda>_ _. None, dl_royalty = \<lambda>_ _. None \<rparr>"

lemma plain_market_classic:
  "mk_id plain_market (Classic q) = cp_id q" "mk_static_price plain_market (Classic q) = mk_static_price plain_maker q"
  "mk_is_active plain_market (Classic q) = mk_is_active plain_maker q"
  "mk_available_liquidity_on_side plain_market w (Classic q) = None"
  "mk_real_price plain_market input (Classic q) = mk_real_price plain_maker input q"
  "mk_swap plain_market input (Classic q) = Classic (mk_swap plain_maker input q)"
  "mk_liquidity plain_market (Classic q) = mk_liquidity plain_maker q"
  "mk_marginal_cost_hint plain_market (Classic q) = mk_marginal_cost_hint plain_maker q"
  by (simp_all add: plain_market_def plain_maker_def const_fn_maker_def classic_maker_def
      cp_available_liquidity_on_side_def split: option.splits)

interpretation open_market: sample_maker plain_market "Classic sample_pool" "Classic swapped_pool"
  by unfold_locales (simp_all add: plain_market_classic, simp_all add: swapped_pool_def)

theorem recipe_conserves_assets_witness:
  "\<exists>recipe ev st'. book_attempt 1 2 limit_taker plain_market (demanding_config 1) (Idle (poor_book_of (\<lambda>_. None) (Classic sample_pool))) =
     Ret (Some recipe, ev, st') \<and> recipe \<noteq> [] \<and> (\<forall>s. recipe_flow limit_taker plain_market s recipe = 0)"
proof -
  let ?b = "poor_book_of (\<lambda>_. None) (Classic sample_pool)"
  obtain recipe ev st' where run:
    "book_attempt 1 2 limit_taker plain_market (demanding_config 1) (Idle ?b) = Ret (Some recipe, ev, st')" "recipe \<noteq> []"
    using open_market.poor_attempt [of 1 "\<lambda>_. None"] by fastforce
  have elems: "book_elems ?b = {poor_order}" by (simp add: book_elems_def poor_book_of_def mt_elems_def)
  have "cf_good plain_sub 20001 (Classic sample_pool)"
    by (simp add: pool_room_def sample_pool_def fee_like_def)
  then have "\<forall>(pid, p) \<in> set (mm_values (id_makers ?b)). pid = cf_stable_id p \<and>
      cf_good plain_sub (\<Sum>t \<in> book_elems ?b. unat (lo_input_amount t) + 1) p"
    unfolding elems by (simp add: poor_book_of_def poor_order_def sample_order_def)
  from recipe_conserves_assets [OF poor_book_ok _ _ this run(1) [unfolded plain_market_def]] run show ?thesis
    unfolding plain_market_def elems by (auto simp: poor_book_of_def)
qed

end
