(* ===== verification/Cardano_Exec_Spec.thy ===== *)
theory Cardano_Exec_Spec
  imports Cardano_Exec Pool_Maker
begin

text \<open>
  The execution of recipes: a finished transaction spends what it creates and the fee, the fee is
  balanced exactly whenever the budgets of the orders suffice, and the loop that balances it ends
  just then.
\<close>

subsection \<open>What a builder spends and creates\<close>

fun spent_by :: "builder_call \<Rightarrow> tx_output option" where
  "spent_by (AddScriptInput _ utxo _ _ _) = Some utxo"
| "spent_by (AddKeyInput _ utxo) = Some utxo"
| "spent_by _ = None"

fun created_by :: "builder_call \<Rightarrow> tx_output option" where
  "created_by (AddOutput out) = Some out"
| "created_by _ = None"

definition holds :: "asset_class \<Rightarrow> tx_output \<Rightarrow> u64" where
  "holds a out = held (output_value out) a"

definition total_spent :: "builder \<Rightarrow> asset_class \<Rightarrow> nat" where
  "total_spent txb a = (\<Sum>out \<leftarrow> List.map_filter spent_by txb. unat (holds a out))"

definition total_created :: "builder \<Rightarrow> asset_class \<Rightarrow> nat" where
  "total_created txb a = (\<Sum>out \<leftarrow> List.map_filter created_by txb. unat (holds a out))"

definition call_net :: "asset_class \<Rightarrow> builder_call \<Rightarrow> u64" where
  "call_net a c = (case spent_by c of Some out \<Rightarrow> holds a out | None \<Rightarrow> 0) -
     (case created_by c of Some out \<Rightarrow> holds a out | None \<Rightarrow> 0)"

definition builder_net :: "asset_class \<Rightarrow> builder \<Rightarrow> u64" where
  "builder_net a txb = (\<Sum>c \<leftarrow> txb. call_net a c)"

lemma builder_net_totals: "builder_net a txb = of_nat (total_spent txb a) - of_nat (total_created txb a)"
  by (induction txb)
    (auto simp: builder_net_def total_spent_def total_created_def call_net_def map_filter_simps split: option.splits)

lemma builder_net_call [simp]: "builder_net a (call c txb) = builder_net a txb + call_net a c"
  by (simp add: builder_net_def call_def)

lemma builder_net_try: "try_call L c txb = Some txb' \<Longrightarrow> builder_net a txb' = builder_net a txb + call_net a c"
  by (auto simp: builder_net_def try_call_def split: if_splits)

definition io_net :: "asset_class \<Rightarrow> tx_io \<Rightarrow> u64" where
  "io_net a io = (case io of ScriptIo i out \<Rightarrow> holds a (ib_utxo i) - holds a out
     | OperatorIo (Some i) out \<Rightarrow> holds a (fo_output i) - holds a out
     | OperatorIo None out \<Rightarrow> - holds a out)"

lemma project_io_net:
  "project_io L inputs x txb = Some txb' \<Longrightarrow> builder_net a txb' = builder_net a txb + io_net a (snd x)"
  by (induction L inputs x txb rule: project_io.induct)
    (auto simp: bind_eq_Some_conv io_net_def call_net_def builder_net_try)

lemma project_ios_net:
  "project_ios L inputs xs txb = Some txb' \<Longrightarrow>
    builder_net a txb' = builder_net a txb + (\<Sum>x \<leftarrow> xs. io_net a (snd x))"
  by (induction xs arbitrary: txb) (auto simp: bind_eq_Some_conv project_io_net)

lemma insert_io_sum: "(\<Sum>x \<leftarrow> insert_io y xs. f x) = f y + (\<Sum>x \<leftarrow> xs. (f x :: u64))"
  by (induction xs) (auto simp: algebra_simps)

lemma sort_io_sum: "(\<Sum>x \<leftarrow> sort_io xs. f x) = (\<Sum>x \<leftarrow> xs. (f x :: u64))"
  by (induction xs) (auto simp: sort_io_def insert_io_sum)

lemma project_witness_net [simp]: "builder_net a (project_witness w txb) = builder_net a txb"
  by (simp add: project_witness_def call_net_def split: prod.splits)

lemma witnesses_net [simp]: "builder_net a (fold project_witness ws txb) = builder_net a txb"
  by (induction ws arbitrary: txb) auto

lemma ref_inputs_net [simp]:
  "builder_net a (fold (\<lambda>(ref_in, ref_utxo). call (AddReferenceInput ref_in ref_utxo)) rs txb) = builder_net a txb"
  by (induction rs arbitrary: txb) (auto simp: call_net_def)

lemma output_value_operator [simp]: "output_value (operator_output addr v) = v"
  by (simp add: operator_output_def)

lemma held_add:
  "ac_ok ac \<Longrightarrow> ac_ok a \<Longrightarrow> add_unsafe ac amt v = Some v' \<Longrightarrow> held v' a = held v a + (if a = ac then amt else 0)"
  using amount_of_add [of ac a amt v v'] by (simp add: held_def)

lemma settle_interest_net:
  assumes "settle_interest addr funding interest = Some (ios, fio)" "ac_ok a"
  shows "(\<Sum>io \<leftarrow> ios. io_net a io) = - (if a = Native then interest else 0)"
proof -
  have out: "holds a (operator_output x (Value interest [])) = (if a = Native then interest else 0)" for x
    by (cases a) (auto simp: holds_def held_def amount_of_def split: token.splits option.splits)
  consider "interest = 0" | "0 < interest" "min_safe_lovelace_value \<le> interest"
    | "0 < interest" "\<not> min_safe_lovelace_value \<le> interest" by (auto simp: word_gt_0)
  then show ?thesis
  proof cases
    case 2
    then have "ios = [OperatorIo None (operator_output addr (Value interest []))]"
      using assms(1) by (simp add: settle_interest_def Let_def split: if_splits)
    then show ?thesis by (simp only: io_net_def out list.map sum_list.Cons sum_list.Nil tx_io.case option.case add_0_right)
  next
    case 3
    then obtain v x where v: "add_unsafe Native interest (output_value (fo_output funding)) = Some v"
      "ios = [OperatorIo (Some funding) (operator_output x v)]"
      using assms(1) by (auto simp only: settle_interest_def Let_def if_True if_False map_option_eq_Some)
    have "holds a (operator_output x v) = holds a (fo_output funding) + (if a = Native then interest else 0)"
      using held_add [OF _ assms(2) v(1)] by (simp add: holds_def)
    then show ?thesis by (simp add: v(2) io_net_def)
  qed (use assms(1) in \<open>simp add: settle_interest_def\<close>)
qed

definition blueprint_net :: "asset_class \<Rightarrow> tx_blueprint \<Rightarrow> u64" where
  "blueprint_net a b = (\<Sum>(i, out) \<leftarrow> tb_script_io b. holds a (ib_utxo i) - holds a out)"

lemma project_onto_builder_net:
  assumes "project_onto_builder L b txb addr funding interest = Some (txb', fio)" "ac_ok a"
  shows "builder_net a txb' = builder_net a txb + blueprint_net a b - (if a = Native then interest else 0)"
proof -
  let ?ios = "\<lambda>ios. sort_io (map (\<lambda>(i, out). ScriptIo i out) (tb_script_io b) @ ios)"
  let ?start = "fold (\<lambda>(ref_in, ref_utxo). call (AddReferenceInput ref_in ref_utxo)) (tb_reference_inputs b) txb"
  obtain ios fio' where s: "settle_interest addr funding interest = Some (ios, fio')"
    using assms(1) by (cases "settle_interest addr funding interest") (auto simp: project_onto_builder_def)
  obtain txb2 where p: "project_ios L (ordering_of (?ios ios)) (enumerate 0 (?ios ios)) ?start = Some txb2"
    using assms(1) by (cases "project_ios L (ordering_of (?ios ios)) (enumerate 0 (?ios ios)) ?start")
      (simp_all add: project_onto_builder_def s Let_def)
  have t: "txb' = fold project_witness (tb_witness_scripts b) txb2"
    using assms(1) by (simp add: project_onto_builder_def s p Let_def)
  have "(\<Sum>x \<leftarrow> enumerate n xs. io_net a (snd x)) = (\<Sum>x \<leftarrow> xs. io_net a x)" for n xs
    by (induction xs arbitrary: n) auto
  moreover have "(\<Sum>x \<leftarrow> map (\<lambda>(i, out). ScriptIo i out) (tb_script_io b). io_net a x) = blueprint_net a b"
    by (auto simp: blueprint_net_def io_net_def intro!: arg_cong [where f = sum_list])
  ultimately show ?thesis
    using project_ios_net [OF p, of a] settle_interest_net [OF s assms(2)]
    unfolding t by (simp add: sort_io_sum)
qed

subsection \<open>What instructions add\<close>

text \<open>
  The ledger library's checked addition and subtraction of values change what is held of the one
  asset of the second value, as far as asset names are well formed.
\<close>

definition value_laws :: "ledger_lib \<Rightarrow> bool" where
  "value_laws L \<longleftrightarrow> (\<forall>v w v' asset n a. ac_ok asset \<longrightarrow> ac_ok a \<longrightarrow> ac_into_value asset n = Some w \<longrightarrow>
     (ll_checked_add L v w = Some v' \<longrightarrow> held v' a = held v a + (if a = asset then n else 0)) \<and>
     (ll_checked_sub L v w = Some v' \<longrightarrow> held v' a = held v a - (if a = asset then n else 0)))"

lemma output_value_updates [simp]:
  "output_value (update_value v out) = v" "output_value (update_address addr out) = output_value out"
  "output_value (null_datum out) = output_value out"
  by (cases out; simp)+

lemma with_data_mut_value: "with_data_mut L f out = Some out' \<Longrightarrow> output_value out' = output_value out"
  by (induction L f out rule: with_data_mut.induct) auto

lemma add_asset_holds:
  assumes "value_laws L" "ac_ok asset" "ac_ok a" "add_asset L asset n out = Some out'"
  shows "holds a out' = holds a out + (if a = asset then n else 0)"
proof -
  obtain v w where "ac_into_value asset n = Some v" "ll_checked_add L (output_value out) v = Some w" "out' = update_value w out"
    using assms(4) by (auto simp: add_asset_def bind_eq_Some_conv)
  then show ?thesis using assms(1-3) unfolding value_laws_def holds_def by (metis output_value_updates(1))
qed

lemma sub_asset_holds:
  assumes "value_laws L" "ac_ok asset" "ac_ok a" "sub_asset L asset n out = Some out'"
  shows "holds a out' = holds a out - (if a = asset then n else 0)"
proof -
  obtain v w where "ac_into_value asset n = Some v" "ll_checked_sub L (output_value out) v = Some w" "out' = update_value w out"
    using assms(4) by (auto simp: sub_asset_def bind_eq_Some_conv)
  then show ?thesis using assms(1-3) unfolding value_laws_def holds_def by (metis output_value_updates(1))
qed

text \<open>The instructions of a recipe concern one pair, and orders pay their fees in the native asset.\<close>

definition order_of_pair :: "asset_class \<Rightarrow> asset_class \<Rightarrow> limit_order \<Rightarrow> bool" where
  "order_of_pair base quote ord \<longleftrightarrow>
     order_canonical (lo_input_asset ord) (lo_output_asset ord) = (base, quote) \<and> lo_fee_asset ord = Native"

definition pool_of_pair :: "asset_class \<Rightarrow> asset_class \<Rightarrow> const_fn_pool \<Rightarrow> bool" where
  "pool_of_pair base quote p \<longleftrightarrow> order_canonical (cf_asset_x p) (cf_asset_y p) = (base, quote)"

fun of_pair :: "asset_class \<Rightarrow> asset_class \<Rightarrow> (limit_order, const_fn_pool, 'b) execution \<Rightarrow> bool" where
  "of_pair base quote (Inl tr) = order_of_pair base quote (bd_entity (tr_target tr))"
| "of_pair base quote (Inr tr) = pool_of_pair base quote (bd_entity (tr_target tr))"

definition pair_ok :: "asset_class \<Rightarrow> asset_class \<Rightarrow> bool" where
  "pair_ok base quote \<longleftrightarrow> base \<noteq> quote \<and> ac_ok base \<and> ac_ok quote"

fun unlinked :: "('t, 'm, 'b) execution \<Rightarrow> ('t, 'm) instruction" where
  "unlinked (Inl tr) = Inl (trans_map_target bd_entity tr)"
| "unlinked (Inr tr) = Inr (trans_map_target bd_entity tr)"

definition linked_flow ::
    "('m, token, ex_units) maker_ops \<Rightarrow> side \<Rightarrow> (limit_order, 'm, 'b) execution list \<Rightarrow> u64" where
  "linked_flow M s es = recipe_flow limit_taker M s (map unlinked es)"

definition pair_flow :: "asset_class \<Rightarrow> asset_class \<Rightarrow> asset_class \<Rightarrow> (side \<Rightarrow> u64) \<Rightarrow> u64" where
  "pair_flow base quote a f = (if a = base then f Ask else 0) + (if a = quote then f Bid else 0)"

text \<open>What a state has of an asset beyond the fees it owes.\<close>

definition state_net :: "asset_class \<Rightarrow> execution_state \<Rightarrow> u64" where
  "state_net a st = blueprint_net a (es_tx_blueprint st) -
     (if a = Native then es_reserved_tx_fee st + es_operator_interest st else 0)"

lemma blueprint_net_simps [simp]:
  "blueprint_net a (add_ref_input r b) = blueprint_net a b"
  "blueprint_net a (add_io i out b) = blueprint_net a b + (holds a (ib_utxo i) - holds a out)"
  "blueprint_net a (add_witness w rd b) = blueprint_net a b"
  by (simp_all add: blueprint_net_def add_ref_input_def add_io_def add_witness_def)

lemma order_assets:
  assumes "order_of_pair base quote ord"
  shows "lo_input_asset ord = (case lo_side ord of Ask \<Rightarrow> base | Bid \<Rightarrow> quote)"
    "lo_output_asset ord = (case lo_side ord of Ask \<Rightarrow> quote | Bid \<Rightarrow> base)" "lo_fee_asset ord = Native"
  using assms by (auto simp: order_of_pair_def lo_side_def side_of_def order_canonical_def split: if_splits)

lemma limit_exec_net:
  assumes laws: "value_laws L" and pair: "pair_ok base quote" "order_of_pair base quote (bd_entity (tr_target tr))"
    and a: "ac_ok a" and run: "limit_exec L C tr state = Some (state', eff)"
  shows "state_net a state' = state_net a state +
    pair_flow base quote a (\<lambda>s. take_flow limit_taker s (trans_map_target bd_entity tr))"
proof -
  let ?o = "bd_entity (tr_target tr)" and ?src = "fo_output (bd_bearer (tr_target tr))"
  obtain removed added budget fee where am: "take_removed_input limit_taker tr = Some removed"
      "take_added_output limit_taker tr = Some added" "take_consumed_budget limit_taker tr = Some budget"
      "take_consumed_fee limit_taker tr = Some fee"
    using run by (auto simp: limit_exec_def bind_eq_Some_conv)
  obtain c1 where c1: "sub_asset L (lo_fee_asset ?o) (budget + fee) ?src = Some c1"
    using run by (auto simp: limit_exec_def am Let_def bind_eq_Some_conv)
  obtain c2 where c2: "sub_asset L (lo_input_asset ?o) removed c1 = Some c2"
    using run by (auto simp: limit_exec_def am c1 Let_def bind_eq_Some_conv)
  obtain c3 where c3: "add_asset L (lo_output_asset ?o) added c2 = Some c3"
    using run by (auto simp: limit_exec_def am c1 c2 Let_def bind_eq_Some_conv)
  define made where "made = (case tr_result tr of
           Succ next \<Rightarrow>
             map_option (\<lambda>out. (out, Updated (tr_target tr) (Bundled next out)))
               (with_data_mut L (unsafe_update_limit_datum (lo_input_amount next) (lo_fee next)) c3)
         | Term _ \<Rightarrow> Some (update_address (lo_redeemer_address ?o) (null_datum c3), Eliminate (tr_target tr)))"
  obtain out eff' where out: "made = Some (out, eff')"
    using run by (auto simp: limit_exec_def am c1 c2 c3 made_def Let_def bind_eq_Some_conv)
  have v: "output_value out = output_value c3"
    using out by (auto simp: made_def with_data_mut_value split: next_state.splits)
  have st: "state' = with_blueprint (\<lambda>b.
           add_ref_input (de_reference_utxo (erased (xc_validators C LimitOrderV1)))
             (add_io (limit_order_input C ?o (bd_bearer (tr_target tr))) out
               (add_witness (erased (xc_validators C LimitOrderWitnessV1)) (ListPd []) b)))
        (add_operator_interest fee (add_tx_fee budget state))"
    using run out by (simp add: limit_exec_def am c1 c2 c3 made_def [symmetric] Let_def)
  note assets = order_assets [OF pair(2)]
  have ok: "ac_ok (lo_fee_asset ?o)" "ac_ok (lo_input_asset ?o)" "ac_ok (lo_output_asset ?o)"
    using pair(1) by (auto simp: assets pair_ok_def split: side.splits)
  have "holds a out = holds a ?src - (if a = Native then budget + fee else 0) -
      (if a = lo_input_asset ?o then removed else 0) + (if a = lo_output_asset ?o then added else 0)"
    using sub_asset_holds [OF laws ok(1) a c1] sub_asset_holds [OF laws ok(2) a c2]
      add_asset_holds [OF laws ok(3) a c3] by (simp add: holds_def v assets(3))
  moreover have "take_flow limit_taker s (trans_map_target bd_entity tr) =
      (if lo_side ?o = s then removed else - added)" for s
    using am(1,2) by (auto simp: take_flow_def trans_map_target_def limit_taker_def take_removed_input_def
        take_added_output_def checked_sub_def left_input_def total_output_def split: if_splits)
  ultimately show ?thesis
    using pair(1) unfolding st assets
    by (cases "lo_side ?o") (auto simp: state_net_def with_blueprint_def add_operator_interest_def add_tx_fee_def
        limit_order_input_def pair_flow_def pair_ok_def Let_def)
qed

lemma pool_assets:
  assumes "pool_of_pair base quote p"
  shows "am_asset_to_deduct_from (cf_asset_mapping side p) = (case side of Bid \<Rightarrow> base | Ask \<Rightarrow> quote)"
    "am_asset_to_add_to (cf_asset_mapping side p) = (case side of Bid \<Rightarrow> quote | Ask \<Rightarrow> base)"
  using assms by (auto simp: pool_of_pair_def cf_asset_mapping_def pool_base_def order_canonical_def Let_def
      split: if_splits side.splits)

lemma const_fn_exec_net:
  assumes laws: "value_laws L" and pair: "pair_ok base quote" "pool_of_pair base quote (bd_entity (tr_target tr))"
    and a: "ac_ok a" and run: "const_fn_exec L C (const_fn_maker sub D) tr state = Some (state', eff)"
  shows "state_net a state' = state_net a state +
    pair_flow base quote a (\<lambda>s. make_flow (const_fn_maker sub D) s (trans_map_target bd_entity tr))"
proof -
  let ?M = "const_fn_maker sub D" and ?p = "bd_entity (tr_target tr)" and ?src = "fo_output (bd_bearer (tr_target tr))"
  obtain sd loss gain where am: "make_trade_side ?M tr = Some sd" "make_loss ?M tr = Some loss" "make_gain ?M tr = Some gain"
    using run by (auto simp: const_fn_exec_def bind_eq_Some_conv)
  let ?m = "cf_asset_mapping sd ?p"
  obtain c1 where c1: "sub_asset L (am_asset_to_deduct_from ?m) loss ?src = Some c1"
    using run by (auto simp: const_fn_exec_def am Let_def bind_eq_Some_conv)
  obtain c2 where c2: "add_asset L (am_asset_to_add_to ?m) gain c1 = Some c2"
    using run by (auto simp: const_fn_exec_def am c1 Let_def bind_eq_Some_conv)
  obtain q where q: "tr_result tr = Succ q" using am(1) by (auto simp: make_trade_side_def split: next_state.splits)
  obtain out where out: "with_data_mut L (cf_unsafe_datum_update q) c2 = Some out"
    using run by (auto simp: const_fn_exec_def am c1 c2 q Let_def bind_eq_Some_conv)
  have st: "state' = with_blueprint (\<lambda>b.
           add_ref_input (de_reference_utxo (cf_get_validator (xc_validators C) ?p))
             (add_io (const_fn_input C ?p (bd_bearer (tr_target tr))) out b)) state"
    using run by (simp add: const_fn_exec_def am c1 c2 q out Let_def)
  note assets = pool_assets [OF pair(2), of sd]
  have ok: "ac_ok (am_asset_to_deduct_from ?m)" "ac_ok (am_asset_to_add_to ?m)"
    using pair(1) by (auto simp: assets pair_ok_def split: side.splits)
  have "holds a out = holds a ?src - (if a = am_asset_to_deduct_from ?m then loss else 0) +
      (if a = am_asset_to_add_to ?m then gain else 0)"
    using sub_asset_holds [OF laws ok(1) a c1] add_asset_holds [OF laws ok(2) a c2]
    by (simp add: holds_def with_data_mut_value [OF out])
  moreover have "make_flow ?M s (trans_map_target bd_entity tr) = (if sd = s then - gain else loss)" for s
    using am by (auto simp: make_flow_def trans_map_target_def make_trade_side_def make_loss_def make_gain_def q
        reserves_trade_side_def reserves_loss_def reserves_gain_def checked_sub_def paid_by_def split: if_splits side.splits)
  ultimately show ?thesis
    using pair(1) unfolding st assets
    by (cases sd) (auto simp: state_net_def with_blueprint_def const_fn_input_def pair_flow_def pair_ok_def Let_def)
qed

lemma execute_net:
  assumes "value_laws L" "pair_ok base quote" "\<forall>e \<in> set es. of_pair base quote e" "ac_ok a"
    "execute (limit_exec L C) (const_fn_exec L C (const_fn_maker sub D)) state effects es = Some (state', effects')"
  shows "state_net a state' = state_net a state +
    pair_flow base quote a (\<lambda>s. linked_flow (const_fn_maker sub D) s es)"
  using assms(3,5)
proof (induction es arbitrary: state effects)
  case Nil
  then show ?case by (simp add: pair_flow_def linked_flow_def recipe_flow_def)
next
  case (Cons e es)
  show ?case
  proof (cases e)
    case (Inl tr)
    then obtain state2 eff where s: "limit_exec L C tr state = Some (state2, eff)"
      using Cons.prems(2) by (auto simp: bind_eq_Some_conv)
    show ?thesis
      using Cons.IH [of state2] Cons.prems limit_exec_net [OF assms(1,2) _ assms(4) s]
      by (simp add: Inl s linked_flow_def recipe_flow_def pair_flow_def)
  next
    case (Inr tr)
    then obtain state2 eff where s: "const_fn_exec L C (const_fn_maker sub D) tr state = Some (state2, eff)"
      using Cons.prems(2) by (auto simp: bind_eq_Some_conv)
    show ?thesis
      using Cons.IH [of state2] Cons.prems const_fn_exec_net [OF assms(1,2) _ assms(4) s]
      by (simp add: Inr s linked_flow_def recipe_flow_def pair_flow_def)
  qed
qed

text \<open>Where the flows of a recipe vanish, a builder is left with the reserved fee less the residue.\<close>

lemma attempt_recipe_net:
  assumes "value_laws L" "pair_ok base quote" "\<forall>e \<in> set es. of_pair base quote e" "ac_ok a"
    "\<And>s. linked_flow (const_fn_maker sub D) s es = 0"
    "attempt_recipe (cardano_interpreter L C (const_fn_maker sub D)) funding es residue =
       Some (txb, effects, fio, reserved, estimated)"
  shows "builder_net a txb = (if a = Native then reserved - residue else 0)"
    and "\<exists>m. ll_min_fee L txb = Some m \<and> estimated = m + additional_fee"
proof -
  obtain state effects' where e: "execute (limit_exec L C) (const_fn_exec L C (const_fn_maker sub D))
      execution_state_new [] es = Some (state, effects')"
    using assms(6) by (auto simp: attempt_recipe_def cardano_interpreter_def bind_eq_Some_conv)
  obtain txb2 fio2 where p: "project_onto_builder L (es_tx_blueprint state) constant_tx_builder (xc_reward_address C)
      funding (es_operator_interest state + residue) = Some (txb2, fio2)"
    using assms(6) by (auto simp: attempt_recipe_def cardano_interpreter_def e bind_eq_Some_conv)
  have c: "try_call L (AddCollateral (fst (xc_collateral C)) (snd (xc_collateral C))) txb2 = Some txb"
    and r: "reserved = es_reserved_tx_fee state" "\<exists>m. ll_min_fee L txb = Some m \<and> estimated = m + additional_fee"
    using assms(6) by (auto simp: attempt_recipe_def cardano_interpreter_def e p bind_eq_Some_conv)
  show "\<exists>m. ll_min_fee L txb = Some m \<and> estimated = m + additional_fee" by (rule r(2))
  have new: "state_net a execution_state_new = 0"
    by (simp add: state_net_def execution_state_new_def blueprint_net_def blueprint_new_def)
  have s: "state_net a state = 0"
    using execute_net [OF assms(1-4) e] by (simp add: new pair_flow_def assms(5))
  have "blueprint_net a (es_tx_blueprint state) =
      (if a = Native then es_reserved_tx_fee state + es_operator_interest state else 0)"
    using s unfolding state_net_def by (simp only: right_minus_eq)
  moreover have "builder_net a constant_tx_builder = 0" by (simp add: builder_net_def constant_tx_builder_def)
  moreover note project_onto_builder_net [OF p assms(4)] builder_net_try [OF c, of a]
  ultimately show "builder_net a txb = (if a = Native then reserved - residue else 0)"
    by (simp add: r(1) call_net_def)
qed

subsection \<open>Corrections of budgets\<close>

text \<open>They concern budgets only: the entities and what these trade stay.\<close>

definition same_trade :: "('t, 'k, 'id, 'u) taker_ops \<Rightarrow> ('t, 'b) take \<Rightarrow> ('t, 'b) take \<Rightarrow> bool" where
  "same_trade T tr tr' \<longleftrightarrow> tr_target tr' = tr_target tr \<and>
     left_input T (tr_result tr') = left_input T (tr_result tr) \<and>
     total_output T (tr_result tr') = total_output T (tr_result tr)"

fun same_execution :: "('t, 'k, 'id, 'u) taker_ops \<Rightarrow> ('t, 'm, 'b) execution \<Rightarrow> ('t, 'm, 'b) execution \<Rightarrow> bool" where
  "same_execution T (Inl tr) (Inl tr') \<longleftrightarrow> same_trade T tr tr'"
| "same_execution T (Inr tr) (Inr tr') \<longleftrightarrow> tr' = tr"
| "same_execution T _ _ \<longleftrightarrow> False"

lemma same_trade_refl [simp]: "same_trade T tr tr"
  by (simp add: same_trade_def)

lemma same_execution_refl [simp]: "same_execution T e e"
  by (cases e) auto

lemma same_executions_refl [simp]: "list_all2 (same_execution T) es es"
  by (simp add: list_all2_conv_all_nth)

lemma same_execution_trans: "same_execution T a b \<Longrightarrow> same_execution T b c \<Longrightarrow> same_execution T a c"
  by (cases a; cases b; cases c) (auto simp: same_trade_def)

context conserving_takers
begin

lemma correct_same: "same_trade T tr (snd (take_correct_consumed_budget T d tr))"
  using corrected [of "- d"]
  by (auto simp: same_trade_def take_correct_consumed_budget_def left_input_def total_output_def
      tt_with_budget_corrected_def corrected_budget_def Let_def case_prod_beta split: next_state.splits)

lemma scale_same: "scale_budgets T factor mismatch es = Some (m, es') \<Longrightarrow> list_all2 (same_execution T) es es'"
proof (induction es arbitrary: mismatch m es')
  case (Cons e es)
  show ?case
  proof (cases e)
    case (Inl tk)
    then obtain d tk' m2 es2 where "take_scale_consumed_budget T factor tk = Some (d, tk')"
        "scale_budgets T factor (i64_add mismatch d) es = Some (m2, es2)" "es' = Inl tk' # es2"
      using Cons.prems by (auto simp: bind_eq_Some_conv)
    moreover from this(1) obtain d' where "tk' = snd (take_correct_consumed_budget T d' tk)"
      by (auto simp: take_scale_consumed_budget_def bind_eq_Some_conv Let_def) (metis snd_conv)
    ultimately show ?thesis using Cons.IH correct_same [of tk d'] by (simp add: Inl)
  next
    case (Inr mk)
    then show ?thesis using Cons by (auto simp: bind_eq_Some_conv)
  qed
qed simp

lemma correct_budgets_same: "list_all2 (same_execution T) es (correct_budgets T mismatch es)"
proof (induction es arbitrary: mismatch)
  case (Cons e es)
  then show ?case
    by (cases e) (simp_all add: case_prod_beta correct_same)
qed simp

lemma balance_fee_same: "balance_fee T mismatch factor es = Some es' \<Longrightarrow> list_all2 (same_execution T) es es'"
proof -
  assume "balance_fee T mismatch factor es = Some es'"
  then obtain m es2 where "scale_budgets T factor mismatch es = Some (m, es2)" "es' = correct_budgets T m es2"
    by (auto simp: balance_fee_def)
  then show ?thesis
    using list_all2_trans [of "same_execution T" "same_execution T" "same_execution T" es es2]
      same_execution_trans scale_same correct_budgets_same by blast
qed

end

lemma same_flow:
  "list_all2 (same_execution limit_taker) es es' \<Longrightarrow> linked_flow M s es' = linked_flow M s es"
proof (induction rule: list_all2_induct)
  case (Cons e es e' es')
  then show ?case
    by (cases e; cases e') (auto simp: linked_flow_def recipe_flow_def same_trade_def take_flow_def trans_map_target_def)
qed simp

lemma same_pair:
  "list_all2 (same_execution limit_taker) es es' \<Longrightarrow> \<forall>e \<in> set es. of_pair base quote e \<Longrightarrow>
    \<forall>e \<in> set es'. of_pair base quote e"
proof (induction rule: list_all2_induct)
  case (Cons e es e' es')
  then show ?case by (cases e; cases e') (auto simp: same_trade_def)
qed simp

subsection \<open>Finished transactions are balanced\<close>

lemma i64_add_diff_zero: "i64_add (i64_of_u64 x) (- i64_of_u64 y) = 0 \<longleftrightarrow> x = y"
proof -
  have "i64_add (i64_of_u64 x) (- i64_of_u64 y) = sint (x - y)"
    by (simp add: i64_add_def i64_of_u64_def sint_word_ariths)
  then show ?thesis by (simp add: signed_eq_0_iff)
qed

lemma execute_recipe_net:
  assumes "value_laws L" "pair_ok base quote" "ac_ok a"
    and "\<forall>e \<in> set es. of_pair base quote e" "\<And>s. linked_flow (const_fn_maker sub D) s es = 0"
    and "execute_recipe fuel (cardano_interpreter L C (const_fn_maker sub D)) funding residual es residue = Ret (txb, effects, fio)"
  shows "\<exists>m. ll_min_fee L txb = Some m \<and> builder_net a txb = (if a = Native then m + additional_fee else 0)"
  using assms(4-6)
proof (induction fuel arbitrary: residual es residue)
  case (Suc fuel)
  let ?I = "cardano_interpreter L C (const_fn_maker sub D)"
  obtain txb' effects' fio' reserved est where at: "attempt_recipe ?I funding es residue = Some (txb', effects', fio', reserved, est)"
    using Suc.prems(3) by (cases "attempt_recipe ?I funding es residue") auto
  note net = attempt_recipe_net [OF assms(1,2) Suc.prems(1) assms(3) Suc.prems(2) at]
  define mismatch where "mismatch = i64_add (i64_of_u64 (reserved - residue)) (- i64_of_u64 est)"
  note run = Suc.prems(3) [unfolded execute_recipe.simps at option.case prod.case Let_def, folded mismatch_def]
  show ?case
  proof (cases "mismatch = 0")
    case True
    then have "reserved - residue = est" unfolding mismatch_def i64_add_diff_zero .
    then show ?thesis using run net True by auto
  next
    case False
    show ?thesis
    proof (cases "residual \<and> 0 < mismatch")
      case True
      then show ?thesis using run False Suc.IH [OF Suc.prems(1,2)] by simp
    next
      case no: False
      then obtain factor es' where b: "balance_fee limit_taker mismatch factor es = Some es'"
        and r: "execute_recipe fuel ?I funding False es' 0 = Ret (txb, effects, fio)"
        using run False by (auto simp: cardano_interpreter_def split: option.splits bind_splits)
      note same = limit.balance_fee_same [OF b]
      show ?thesis
        using Suc.IH [OF same_pair [OF same Suc.prems(1)] _ r] same_flow [OF same] Suc.prems(2) by simp
    qed
  qed
qed simp

lemma link_unlinked:
  "link_instructions T M lnk recipe = (es, vs, []) \<Longrightarrow> map unlinked es = recipe"
  by (induction T M lnk recipe arbitrary: es vs rule: link_instructions.induct)
    (auto simp: trans_map_target_def Let_def split: prod.splits option.splits)

lemma recipe_link_flow:
  "recipe_link limit_taker M lnk recipe = Inr (es, vs) \<Longrightarrow> linked_flow M s es = recipe_flow limit_taker M s recipe"
  by (auto simp: recipe_link_def linked_flow_def link_unlinked Let_def split: prod.splits if_splits)

text \<open>
  C5. Transactions are balanced. When the execution of a linked recipe for a pair returns, its transaction
  spends of every asset what it creates and, of the native asset, the fee estimated for it: what
  orders and pools give up is paid out to others, to the operator, or as the fee, whatever rounds of
  balancing the fee it took, and whether the operator's interest got an output of its own, was added
  to the funding, or grew by a residual fee. The flows of the recipe vanish, as they do for recipes
  of the liquidity book, and totals do not overflow.
\<close>

theorem execution_balanced:
  assumes "value_laws L" "pair_ok base quote" "ac_ok a"
    and "\<forall>e \<in> set es. of_pair base quote e" "recipe_link limit_taker (const_fn_maker sub D) lnk recipe = Inr (es, vs)"
    and "\<forall>s. recipe_flow limit_taker (const_fn_maker sub D) s recipe = 0"
    and "execute_recipe fuel (cardano_interpreter L C (const_fn_maker sub D)) funding residual es 0 = Ret (txb, effects, fio)"
    and "ll_min_fee L txb = Some min_fee"
    and "total_spent txb a < 2 ^ 64" "total_created txb a + unat min_fee + unat additional_fee < 2 ^ 64"
  shows "total_spent txb a = total_created txb a + (if a = Native then unat min_fee + unat additional_fee else 0)"
proof -
  let ?n = "total_created txb a + (if a = Native then unat min_fee + unat additional_fee else 0)"
  have "of_nat (total_spent txb a) - of_nat (total_created txb a) = (if a = Native then min_fee + additional_fee else 0)"
    using execute_recipe_net [OF assms(1-4) _ assms(7)] recipe_link_flow [OF assms(5)] assms(6,8) by (auto simp: builder_net_totals)
  then have "(of_nat (total_spent txb a) :: u64) = of_nat ?n"
    by (simp add: algebra_simps of_nat_unat split: if_splits)
  then have "unat (of_nat (total_spent txb a) :: u64) = unat (of_nat ?n :: u64)" by (rule arg_cong)
  moreover have "?n < 2 ^ 64" using assms(10) by (auto split: if_splits)
  ultimately show ?thesis using assms(9) by (simp only: unat_of_nat) (simp add: take_bit_eq_mod)
qed


subsection \<open>The fee is balanced exactly\<close>

text \<open>What instructions consume of the budgets of their takers, and these budgets.\<close>

definition left_budget :: "('t, 'k, 'id, 'u) taker_ops \<Rightarrow> ('t, 'b) take \<Rightarrow> u64" where
  "left_budget T tr = next_fold (tk_budget T) remaining_budget (tr_result tr)"

definition full_budget :: "('t, 'k, 'id, 'u) taker_ops \<Rightarrow> ('t, 'b) take \<Rightarrow> u64" where
  "full_budget T tr = tk_budget T (bd_entity (tr_target tr))"

definition total_consumed :: "('t, 'k, 'id, 'u) taker_ops \<Rightarrow> ('t, 'm, 'b) execution list \<Rightarrow> nat" where
  "total_consumed T es = (\<Sum>e \<leftarrow> es. case e of Inl tr \<Rightarrow> unat (full_budget T tr) - unat (left_budget T tr) | Inr _ \<Rightarrow> 0)"

definition total_budget :: "('t, 'k, 'id, 'u) taker_ops \<Rightarrow> ('t, 'm, 'b) execution list \<Rightarrow> nat" where
  "total_budget T es = (\<Sum>e \<leftarrow> es. case e of Inl tr \<Rightarrow> unat (full_budget T tr) | Inr _ \<Rightarrow> 0)"

definition within_budget :: "('t, 'k, 'id, 'u) taker_ops \<Rightarrow> ('t, 'm, 'b) execution list \<Rightarrow> bool" where
  "within_budget T es \<longleftrightarrow> (\<forall>tr. Inl tr \<in> set es \<longrightarrow> left_budget T tr \<le> full_budget T tr)"

lemma total_simps [simp]:
  "total_consumed T [] = 0" "total_budget T [] = 0"
  "total_consumed T (Inl tr # es) = unat (full_budget T tr) - unat (left_budget T tr) + total_consumed T es"
  "total_consumed T (Inr mk # es) = total_consumed T es"
  "total_budget T (Inl tr # es) = unat (full_budget T tr) + total_budget T es"
  "total_budget T (Inr mk # es) = total_budget T es"
  by (simp_all add: total_consumed_def total_budget_def)

lemma within_simps [simp]:
  "within_budget T []"
  "within_budget T (Inl tr # es) \<longleftrightarrow> left_budget T tr \<le> full_budget T tr \<and> within_budget T es"
  "within_budget T (Inr mk # es) \<longleftrightarrow> within_budget T es"
  by (auto simp: within_budget_def)

lemma consumed_le_budget: "total_consumed T es \<le> total_budget T es"
proof (induction es)
  case (Cons e es)
  then show ?case by (cases e) auto
qed simp

lemma i64_add_small: "- (2 ^ 63) \<le> a + b \<Longrightarrow> a + b < 2 ^ 63 \<Longrightarrow> i64_add a b = a + b"
  unfolding i64_add_def by (rule signed_take_bit_int_eq_self)

lemma u64_as_int: "unat w < n \<Longrightarrow> \<exists>i. uint w = i \<and> int (unat w) = i \<and> 0 \<le> i \<and> i < int n"
  by (intro exI [of _ "int (unat w)"] conjI uint_nat) (simp_all only: of_nat_0_le_iff of_nat_less_iff)

lemma i64_diff_bounds:
  "a < 2 ^ 63 \<Longrightarrow> b < 2 ^ 63 \<Longrightarrow> - (2 ^ 63) \<le> int a + - int b"
  "a < 2 ^ 63 \<Longrightarrow> b < 2 ^ 63 \<Longrightarrow> int a + - int b < 2 ^ 63"
  by simp_all

lemma scale_bounds:
  "r \<le> B \<Longrightarrow> B < 2 ^ 62 \<Longrightarrow> e < 2 ^ 62 \<Longrightarrow> int r - int e + int B < 2 ^ 63"
  "r \<le> B \<Longrightarrow> B < 2 ^ 62 \<Longrightarrow> e < 2 ^ 62 \<Longrightarrow> - (2 ^ 63) \<le> int r - int e - int r"
  by simp_all

lemma i64_of_u64_small:
  assumes "unat w < 2 ^ 63" shows "i64_of_u64 w = int (unat w)"
proof -
  obtain i where i: "uint w = i" "int (unat w) = i" "0 \<le> i" "i < int (2 ^ 63)" using u64_as_int [OF assms] by blast
  have "i64_of_u64 w = signed_take_bit 63 i" using i(1) by (simp add: i64_of_u64_def sint_uint)
  moreover have "signed_take_bit 63 i = i" using i(3,4) by (intro signed_take_bit_int_eq_self) simp_all
  ultimately show ?thesis unfolding i(2) by simp
qed

lemma corrected_budget_small:
  assumes b: "unat b < 2 ^ 62" and d: "- (2 ^ 62) \<le> d" "d < 2 ^ 62"
  shows "corrected_budget b d = (max (int (unat b) + d) 0 - int (unat b), word_of_int (max (int (unat b) + d) 0))"
proof -
  obtain i where i: "int (unat b) = i" "0 \<le> i" "i < int (2 ^ 62)" using u64_as_int [OF b] by blast
  have "i64_of_u64 b = i" unfolding i(1) [symmetric] using b by (intro i64_of_u64_small) simp
  moreover have "i64_add i d = i + d" "i64_add (max (i + d) 0) (- i) = max (i + d) 0 + - i"
    using i(2,3) d by (intro i64_add_small; simp)+
  ultimately show ?thesis by (simp only: corrected_budget_def Let_def u64_of_i64_def i(1) add_uminus_conv_diff)
qed
locale budgeted_takers = conserving_takers T
  for T :: "('t, 'k::linorder, 'id, 'u::{plus,zero,linorder}) taker_ops" +
  assumes corrected_delta: "fst (tk_with_budget_corrected T d t) = fst (corrected_budget (tk_budget T t) d)"
    and corrected_left: "tk_budget T (snd (tk_with_budget_corrected T d t)) = snd (corrected_budget (tk_budget T t) d)"
begin

text \<open>A correction consumes as much more or less as the budget allows.\<close>

lemma correct_small:
  assumes "take_correct_consumed_budget T d tr = (got, tr')" "unat (left_budget T tr) < 2 ^ 62" "- (2 ^ 62) < d" "d \<le> 2 ^ 62"
  shows "got = int (unat (left_budget T tr)) - max (int (unat (left_budget T tr)) - d) 0"
    and "left_budget T tr' = word_of_int (max (int (unat (left_budget T tr)) - d) 0)"
    and "full_budget T tr' = full_budget T tr"
proof -
  have c: "corrected_budget (left_budget T tr) (- d) =
      (max (int (unat (left_budget T tr)) - d) 0 - int (unat (left_budget T tr)),
       word_of_int (max (int (unat (left_budget T tr)) - d) 0))"
    using corrected_budget_small [OF assms(2), of "- d"] assms(3,4) by simp
  have "got = - fst (corrected_budget (left_budget T tr) (- d)) \<and>
      left_budget T tr' = snd (corrected_budget (left_budget T tr) (- d)) \<and> full_budget T tr' = full_budget T tr"
    using assms(1) corrected_delta [of "- d"] corrected_left [of "- d"]
    by (cases "tr_result tr") (auto simp: take_correct_consumed_budget_def left_budget_def full_budget_def
        tt_with_budget_corrected_def case_prod_beta)
  then show "got = int (unat (left_budget T tr)) - max (int (unat (left_budget T tr)) - d) 0"
    "left_budget T tr' = word_of_int (max (int (unat (left_budget T tr)) - d) 0)"
    "full_budget T tr' = full_budget T tr"
    unfolding c by (simp_all only: fst_conv snd_conv minus_diff_eq)
qed

lemma left_small:
  assumes "left_budget T tr' = word_of_int (max (int r - d) 0)" "max (int r - d) 0 = int n" "n < 2 ^ 62"
  shows "unat (left_budget T tr') = n"
proof -
  have "left_budget T tr' = of_nat n" unfolding assms(1,2) by simp
  then show ?thesis using assms(3) by (simp add: unat_of_nat take_bit_nat_eq_self)
qed

lemma scaled_left:
  "r \<le> B \<Longrightarrow> c = B - r \<Longrightarrow> max (int r - (int n - int c)) 0 = int (B - min n B)"
  by auto

lemma scaled_left_diff:
  "r \<le> B \<Longrightarrow> c = B - r \<Longrightarrow> int r - int (B - min n B) = int (min n B) - int c"
  by auto

lemma scale_small:
  assumes within: "left_budget T tr \<le> full_budget T tr" and full: "unat (full_budget T tr) < 2 ^ 62"
    and c: "c = unat (full_budget T tr) - unat (left_budget T tr)" and new: "new = c * unat num div unat den"
    and bounds: "den \<noteq> 0" "c * unat num < 2 ^ 64" "new < 2 ^ 62"
  shows "\<exists>tr'. take_scale_consumed_budget T (num, den) tr = Some (int (min new (unat (full_budget T tr))) - int c, tr') \<and>
    full_budget T tr' = full_budget T tr \<and> unat (left_budget T tr') = unat (full_budget T tr) - min new (unat (full_budget T tr))"
proof -
  let ?B = "unat (full_budget T tr)" and ?r = "unat (left_budget T tr)"
  have r: "?r \<le> ?B" using within by (simp only: word_le_nat_alt)
  define old where "old = full_budget T tr - left_budget T tr"
  have old: "unat old = c" using within unfolding old_def c by (simp only: unat_minus_le word_le_nat_alt)
  have consumed: "take_consumed_budget T tr = Some old"
    using within by (simp add: take_consumed_budget_def left_budget_def full_budget_def old_def checked_sub_def)
  define w where "w = old * num div den"
  have w: "unat w = new"
    using bounds(2) unfolding w_def new by (simp add: unat_div unat_word_ariths old)
  have delta: "i64_add (i64_of_u64 w) (- i64_of_u64 old) = int new - int c"
    using bounds(3) c full w old by (simp add: i64_of_u64_small i64_add_small)
  obtain got tr' where tr': "take_correct_consumed_budget T (int new - int c) tr = (got, tr')" by (metis surj_pair)
  have "c < 2 ^ 62" using c full by simp
  then have small: "- (2 ^ 62) < int new - int c" "int new - int c \<le> 2 ^ 62" using bounds(3) by simp_all
  have "?r < 2 ^ 62" using r full by simp
  note cs = correct_small [OF tr' this small]
  note m = scaled_left [OF r c, of new]
  have "got = int (min new ?B) - int c" unfolding cs(1) m by (rule scaled_left_diff [OF r c])
  moreover have "unat (left_budget T tr') = ?B - min new ?B" using left_small [OF cs(2) m] full by simp
  ultimately show ?thesis
    using tr' cs(3) bounds(1) by (simp add: take_scale_consumed_budget_def consumed checked_div_def delta w_def [symmetric])
qed

lemma scale_budgets_sum:
  assumes "within_budget T es" "den \<noteq> 0" "total_budget T es < 2 ^ 62" "total_consumed T es * unat num < 2 ^ 64"
    and "total_consumed T es * unat num div unat den < 2 ^ 62"
    and "mismatch + int (total_budget T es) < 2 ^ 63" "- (2 ^ 63) \<le> mismatch - int (total_consumed T es)"
  shows "\<exists>es'. scale_budgets T (num, den) mismatch es =
      Some (mismatch + int (total_consumed T es') - int (total_consumed T es), es') \<and>
    within_budget T es' \<and> total_budget T es' = total_budget T es \<and>
    total_consumed T es' * unat den \<le> total_consumed T es * unat num"
  using assms(1,3-)
proof (induction es arbitrary: mismatch)
  case (Cons e es)
  show ?case
  proof (cases e)
    case (Inl tr)
    define B where "B = unat (full_budget T tr)"
    define c where "c = B - unat (left_budget T tr)"
    define new where "new = c * unat num div unat den"
    define got where "got = min new B"
    note prems = Cons.prems [unfolded Inl total_simps within_simps, folded B_def, folded c_def]
    have le: "c * unat num \<le> (c + total_consumed T es) * unat num" "total_consumed T es * unat num \<le> (c + total_consumed T es) * unat num"
      by simp_all
    then have new: "c * unat num < 2 ^ 64" "new < 2 ^ 62" "total_consumed T es * unat num < 2 ^ 64"
      "total_consumed T es * unat num div unat den < 2 ^ 62"
      using prems(3,4) unfolding new_def by (meson le_less_trans div_le_mono)+
    have full: "unat (full_budget T tr) < 2 ^ 62" using prems(2) unfolding B_def by simp
    have cdef: "c = unat (full_budget T tr) - unat (left_budget T tr)" by (simp only: c_def B_def)
    obtain tr' where tr': "take_scale_consumed_budget T (num, den) tr = Some (int got - int c, tr')"
      "full_budget T tr' = full_budget T tr" "unat (left_budget T tr') = B - got"
      using scale_small [OF _ full cdef new_def assms(2) new(1,2)] prems(1) unfolding got_def B_def by blast
    have cB: "c \<le> B" "got \<le> B" by (simp_all add: c_def got_def)
    have rest: "total_consumed T es \<le> total_budget T es" by (rule consumed_le_budget)
    have add: "i64_add mismatch (int got - int c) = mismatch + (int got - int c)"
      using prems(5,6) cB rest by (intro i64_add_small) simp_all
    obtain es' where es': "scale_budgets T (num, den) (mismatch + (int got - int c)) es =
        Some (mismatch + (int got - int c) + int (total_consumed T es') - int (total_consumed T es), es')"
      "within_budget T es'" "total_budget T es' = total_budget T es"
      "total_consumed T es' * unat den \<le> total_consumed T es * unat num"
      using Cons.IH [of "mismatch + (int got - int c)"] prems new cB by fastforce
    have left: "unat (full_budget T tr') - unat (left_budget T tr') = got"
      unfolding tr'(2,3) B_def [symmetric] using cB by simp
    have within: "left_budget T tr' \<le> full_budget T tr'"
      unfolding word_le_nat_alt tr'(2,3) B_def [symmetric] by simp
    have "got * unat den \<le> c * unat num"
      unfolding got_def new_def using div_times_less_eq_dividend [of "c * unat num" "unat den"]
      by (meson le_trans min.cobounded1 mult_le_mono1)
    then have "(got + total_consumed T es') * unat den \<le> (c + total_consumed T es) * unat num"
      using es'(4) by (simp add: distrib_right)
    then show ?thesis
      unfolding Inl scale_budgets.simps tr'(1) bind.bind_lunit prod.case add es'(1) total_simps B_def [symmetric] c_def [symmetric]
      by (intro exI [of _ "Inl tr' # es'"]) (simp add: left [unfolded tr'(2)] within [unfolded tr'(2)] tr'(2) es'(2,3) B_def)
  next
    case (Inr mk)
    then obtain es' where "scale_budgets T (num, den) mismatch es =
        Some (mismatch + int (total_consumed T es') - int (total_consumed T es), es')"
      "within_budget T es'" "total_budget T es' = total_budget T es"
      "total_consumed T es' * unat den \<le> total_consumed T es * unat num"
      using Cons.IH [of mismatch] Cons.prems by auto
    then show ?thesis unfolding Inr by (intro exI [of _ "Inr mk # es'"]) simp
  qed
qed simp

lemma correct_budgets_sum:
  assumes "within_budget T es" "total_budget T es < 2 ^ 62" "k < 2 ^ 62"
  shows "total_consumed T (correct_budgets T (- int k) es) = min (total_consumed T es + k) (total_budget T es) \<and>
    within_budget T (correct_budgets T (- int k) es) \<and>
    total_budget T (correct_budgets T (- int k) es) = total_budget T es"
  using assms
proof (induction es arbitrary: k)
  case (Cons e es)
  show ?case
  proof (cases e)
    case (Inl tr)
    show ?thesis
    proof (cases "k = 0")
      case True
      then show ?thesis using Cons.prems consumed_le_budget [of T es] by (simp add: Inl)
    next
      case False
      define B where "B = unat (full_budget T tr)"
      define r where "r = unat (left_budget T tr)"
      note prems = Cons.prems [unfolded Inl total_simps within_simps word_le_nat_alt, folded B_def r_def]
      obtain got tr' where tr': "take_correct_consumed_budget T (int k) tr = (got, tr')" by (metis surj_pair)
      have small: "unat (left_budget T tr) < 2 ^ 62" "- (2 ^ 62) < int k" "int k \<le> 2 ^ 62"
        using prems unfolding r_def [symmetric] by simp_all
      note cs = correct_small [OF tr' small, folded r_def]
      have m: "max (int r - int k) 0 = int (r - min k r)" by auto
      have left: "unat (left_budget T tr') = r - min k r"
        using left_small [OF cs(2) m] small(1) unfolding r_def [symmetric] by simp
      have got: "got = int (min k r)" unfolding cs(1) by auto
      have step: "i64_add (- int k) got = - int (k - min k r)"
        unfolding got using prems(3) by (subst i64_add_small) auto
      have IH: "total_consumed T (correct_budgets T (- int (k - min k r)) es) =
          min (total_consumed T es + (k - min k r)) (total_budget T es) \<and>
        within_budget T (correct_budgets T (- int (k - min k r)) es) \<and>
        total_budget T (correct_budgets T (- int (k - min k r)) es) = total_budget T es"
        using prems by (intro Cons.IH) auto
      have eq: "correct_budgets T (- int k) (Inl tr # es) = Inl tr' # correct_budgets T (- int (k - min k r)) es"
        using False by (simp add: tr' step)
      have "B - (r - min k r) + min (total_consumed T es + (k - min k r)) (total_budget T es) =
          min (B - r + total_consumed T es + k) (B + total_budget T es)"
        using prems(1) consumed_le_budget [of T es] by (auto simp: min_def)
      moreover have "r - min k r \<le> B" using prems(1) by auto
      ultimately show ?thesis
        using IH prems(1) unfolding eq Inl total_simps within_simps word_le_nat_alt cs(3) left
        by (simp add: B_def [symmetric] r_def [symmetric])
    qed
  next
    case (Inr mk)
    then show ?thesis using Cons by simp
  qed
qed simp

lemma balance_sum:
  assumes within: "within_budget T es" and r: "total_consumed T es = unat reserved" "0 < unat reserved"
    and b: "total_budget T es < 2 ^ 62" "unat est < 2 ^ 62" "unat reserved * unat est < 2 ^ 64"
  shows "\<exists>factor es'. ratio_new est reserved = Some factor \<and>
    balance_fee T (i64_add (i64_of_u64 reserved) (- i64_of_u64 est)) factor es = Some es' \<and>
    total_consumed T es' = min (unat est) (total_budget T es) \<and> within_budget T es' \<and>
    total_budget T es' = total_budget T es"
proof -
  define e where "e = unat est"
  define g where "g = gcd e (unat reserved)"
  define num where "num = e div g"
  define den where "den = unat reserved div g"
  have g: "0 < g" "num * g = e" "den * g = unat reserved"
    using r(2) by (simp_all add: g_def num_def den_def gcd_pos_nat)
  have "num \<le> e" "den \<le> unat reserved" unfolding num_def den_def by (rule div_le_dividend)+
  then have small: "num < 2 ^ 64" "den < 2 ^ 64" "num \<le> e"
    using b(2) u64_bound [of reserved] unfolding e_def [symmetric] by simp_all
  have words: "unat (of_nat num :: u64) = num" "unat (of_nat den :: u64) = den"
    using small by (simp_all only: unat_of_nat) (simp_all add: take_bit_eq_mod)
  have den: "0 < den" using g(3) r(2) by (cases "den = 0") auto
  then have den0: "(of_nat den :: u64) \<noteq> 0" using words(2) by (metis unat_0 less_irrefl)
  have ratio: "ratio_new est reserved = Some (of_nat num, of_nat den)"
    using r(2) by (auto simp: ratio_new_def Let_def num_def den_def g_def e_def)
  have "unat reserved * num \<le> unat reserved * e" using small(3) by simp
  then have prod: "total_consumed T es * unat (of_nat num :: u64) < 2 ^ 64"
    using b(3) unfolding words r(1) e_def by linarith
  have "unat reserved * num div den = e"
    using den g(2) unfolding g(3) [symmetric] by (simp add: mult.assoc mult.commute [of g])
  then have quot: "total_consumed T es * unat (of_nat num :: u64) div unat (of_nat den :: u64) < 2 ^ 62"
    using b(2) unfolding words r(1) e_def by simp
  have rb: "unat reserved \<le> total_budget T es" using consumed_le_budget [of T es] r(1) by simp
  have mismatch: "i64_add (i64_of_u64 reserved) (- i64_of_u64 est) = int (unat reserved) - int e"
  proof -
    have small: "unat reserved < 2 ^ 63" "unat est < 2 ^ 63" using rb b(1,2) by simp_all
    from i64_add_small [OF i64_diff_bounds [OF this]] show ?thesis
      unfolding i64_of_u64_small [OF small(1)] i64_of_u64_small [OF small(2)] e_def by simp
  qed
  have "e < 2 ^ 62" using b(2) by (simp only: e_def)
  from scale_bounds [OF rb b(1) this] obtain es2 where es2: "scale_budgets T (of_nat num, of_nat den) (int (unat reserved) - int e) es =
      Some (int (unat reserved) - int e + int (total_consumed T es2) - int (total_consumed T es), es2)"
    "within_budget T es2" "total_budget T es2 = total_budget T es" "total_consumed T es2 * den \<le> unat reserved * num"
    using scale_budgets_sum [OF within den0 b(1) prod quot] unfolding words r(1) by blast
  have "total_consumed T es2 * den \<le> e * den" using es2(4) g(2) unfolding g(3) [symmetric] by (simp add: mult.assoc mult.commute)
  then have c: "total_consumed T es2 \<le> e" using den by simp
  define k where "k = e - total_consumed T es2"
  have m: "int (unat reserved) - int e + int (total_consumed T es2) - int (total_consumed T es) = - int k"
    using c unfolding k_def r(1) by simp
  have "k < 2 ^ 62" using b(2) unfolding k_def e_def by linarith
  then have "total_consumed T (correct_budgets T (- int k) es2) = min e (total_budget T es) \<and>
      within_budget T (correct_budgets T (- int k) es2) \<and> total_budget T (correct_budgets T (- int k) es2) = total_budget T es"
    using correct_budgets_sum [OF es2(2) _ , of k] b(1) c unfolding es2(3) k_def by simp
  moreover have "balance_fee T (int (unat reserved) - int e) (of_nat num, of_nat den) es = Some (correct_budgets T (- int k) es2)"
    unfolding balance_fee_def es2(1) m by simp
  ultimately show ?thesis using ratio unfolding mismatch e_def [symmetric] by blast
qed

end

interpretation limit_budget: budgeted_takers limit_taker
  by unfold_locales (auto simp: limit_taker_def lo_with_budget_corrected_def case_prod_beta)

text \<open>
  C13. The fee is balanced exactly. Where orders reserve a fee that is not the estimated one, the
  correction makes them consume the estimate, to the unit, if their budgets suffice, and all of their
  budgets otherwise; it neither panics nor changes what is traded. The budgets and the estimate are
  small enough for the 64-bit products of the scaling.
\<close>

theorem balance_fee_exact:
  fixes es :: "(limit_order, 'm, 'b) execution list"
  assumes "within_budget limit_taker es" "total_consumed limit_taker es = unat reserved" "0 < reserved"
    and "total_budget limit_taker es < 2 ^ 62" "unat est < 2 ^ 62" "unat reserved * unat est < 2 ^ 64"
    and "ratio_new est reserved = Some factor"
  shows "\<exists>es'. balance_fee limit_taker (i64_add (i64_of_u64 reserved) (- i64_of_u64 est)) factor es = Some es' \<and>
    total_consumed limit_taker es' = min (unat est) (total_budget limit_taker es) \<and>
    list_all2 (same_execution limit_taker) es es'"
  using limit_budget.balance_sum [OF assms(1,2) _ assms(4-6)] assms(3,7) limit.balance_fee_same
  by (fastforce simp: word_less_nat_alt)

subsection \<open>When the execution of a recipe ends\<close>

lemma limit_exec_reserved:
  assumes "limit_exec L C tr state = Some (state', eff)"
  shows "es_reserved_tx_fee state' = es_reserved_tx_fee state + (full_budget limit_taker tr - left_budget limit_taker tr)"
    and "left_budget limit_taker tr \<le> full_budget limit_taker tr"
proof -
  obtain budget where b: "take_consumed_budget limit_taker tr = Some budget"
    and r: "es_reserved_tx_fee state' = es_reserved_tx_fee state + budget"
    using assms by (auto simp: limit_exec_def bind_eq_Some_conv with_blueprint_def add_operator_interest_def
        add_tx_fee_def Let_def)
  then show "left_budget limit_taker tr \<le> full_budget limit_taker tr"
    "es_reserved_tx_fee state' = es_reserved_tx_fee state + (full_budget limit_taker tr - left_budget limit_taker tr)"
    by (auto simp: take_consumed_budget_def left_budget_def full_budget_def checked_sub_def split: if_splits)
qed

lemma const_fn_exec_reserved:
  "const_fn_exec L C M tr state = Some (state', eff) \<Longrightarrow> es_reserved_tx_fee state' = es_reserved_tx_fee state"
  by (auto simp: const_fn_exec_def bind_eq_Some_conv with_blueprint_def Let_def)

lemma execute_reserved:
  "execute (limit_exec L C) (const_fn_exec L C M) state effects es = Some (state', effects') \<Longrightarrow>
    es_reserved_tx_fee state' = es_reserved_tx_fee state + of_nat (total_consumed limit_taker es) \<and>
    within_budget limit_taker es"
proof (induction es arbitrary: state effects)
  case (Cons e es)
  show ?case
  proof (cases e)
    case (Inl tr)
    then obtain state2 eff where s: "limit_exec L C tr state = Some (state2, eff)"
      "execute (limit_exec L C) (const_fn_exec L C M) state2 (effects @ [either_effect Inl eff]) es = Some (state', effects')"
      using Cons.prems by (auto simp: bind_eq_Some_conv)
    have "full_budget limit_taker tr - left_budget limit_taker tr =
        of_nat (unat (full_budget limit_taker tr) - unat (left_budget limit_taker tr))"
      using limit_exec_reserved(2) [OF s(1)] by (simp add: word_le_nat_alt of_nat_diff of_nat_unat)
    then show ?thesis using Cons.IH [OF s(2)] limit_exec_reserved [OF s(1)] by (simp add: Inl)
  next
    case (Inr tr)
    then obtain state2 eff where s: "const_fn_exec L C M tr state = Some (state2, eff)"
      "execute (limit_exec L C) (const_fn_exec L C M) state2 (effects @ [either_effect Inr eff]) es = Some (state', effects')"
      using Cons.prems by (auto simp: bind_eq_Some_conv)
    then show ?thesis using Cons.IH [OF s(2)] const_fn_exec_reserved [OF s(1)] by (simp add: Inr)
  qed
qed simp

lemma attempt_recipe_reserved:
  assumes "attempt_recipe (cardano_interpreter L C M) funding es residue = Some (txb, effects, fio, reserved, est)"
    and "\<forall>txb m. ll_min_fee L txb = Some m \<longrightarrow> m = min_fee" "total_budget limit_taker es < 2 ^ 62"
  shows "unat reserved = total_consumed limit_taker es" "within_budget limit_taker es" "est = min_fee + additional_fee"
proof -
  obtain state effects' where e: "execute (limit_exec L C) (const_fn_exec L C M) execution_state_new [] es = Some (state, effects')"
    using assms(1) by (auto simp: attempt_recipe_def cardano_interpreter_def bind_eq_Some_conv)
  have r: "reserved = es_reserved_tx_fee state" "\<exists>txb m. ll_min_fee L txb = Some m \<and> est = m + additional_fee"
    using assms(1) by (auto simp: attempt_recipe_def cardano_interpreter_def e bind_eq_Some_conv)
  show "within_budget limit_taker es" "est = min_fee + additional_fee" using execute_reserved [OF e] r(2) assms(2) by auto
  have "reserved = of_nat (total_consumed limit_taker es)"
    using execute_reserved [OF e] r(1) by (simp add: execution_state_new_def)
  moreover have "total_consumed limit_taker es < 2 ^ 64" using consumed_le_budget [of limit_taker es] assms(3) by simp
  ultimately show "unat reserved = total_consumed limit_taker es"
    by (simp add: unat_of_nat take_bit_nat_eq_self)
qed

lemma i64_add_diff: "i64_add (i64_of_u64 x) (- i64_of_u64 y) = sint (x - y)"
  by (simp add: i64_add_def i64_of_u64_def sint_word_ariths)

lemma i64_less:
  assumes "unat x < unat y" "unat y < 2 ^ 62"
  shows "i64_add (i64_of_u64 x) (- i64_of_u64 y) < 0"
proof -
  have small: "unat x < 2 ^ 63" "unat y < 2 ^ 63" using assms by simp_all
  show ?thesis
    unfolding i64_of_u64_small [OF small(1)] i64_of_u64_small [OF small(2)] i64_add_small [OF i64_diff_bounds [OF small]]
    using assms(1) by (simp only: add_uminus_conv_diff diff_less_0_iff_less of_nat_less_iff)
qed

lemma next_round:
  assumes "attempt_recipe (cardano_interpreter L C M) funding es residue = Some (txb, effects, fio, reserved, est)"
    and "\<forall>txb m. ll_min_fee L txb = Some m \<longrightarrow> m = min_fee"
    and "total_budget limit_taker es < 2 ^ 62" "unat est < 2 ^ 62" "total_budget limit_taker es * unat est < 2 ^ 64" "reserved \<noteq> 0"
  shows "\<exists>factor es'. ratio_new est reserved = Some factor \<and>
    balance_fee limit_taker (i64_add (i64_of_u64 reserved) (- i64_of_u64 est)) factor es = Some es' \<and>
    total_consumed limit_taker es' = min (unat est) (total_budget limit_taker es) \<and>
    total_budget limit_taker es' = total_budget limit_taker es"
proof -
  note r = attempt_recipe_reserved [OF assms(1-3)]
  have "unat reserved * unat est \<le> total_budget limit_taker es * unat est"
    unfolding r(1) by (intro mult_le_mono1 consumed_le_budget)
  then have "unat reserved * unat est < 2 ^ 64" using assms(5) by linarith
  then show ?thesis
    using limit_budget.balance_sum [OF r(2) r(1) [symmetric] _ assms(3,4)] assms(6) by (auto simp: unat_gt_0)
qed

lemma in_takers_cardano [simp]: "in_takers (cardano_interpreter L C M) = limit_taker"
  by (simp add: cardano_interpreter_def)

lemma last_round:
  assumes "attempt_recipe I funding es residue = Some (txb, effects, fio, reserved, est)" "reserved - residue = est"
  shows "execute_recipe (Suc fuel) I funding residual es residue = Ret (txb, effects, fio)"
  unfolding execute_recipe.simps assms(1) option.case prod.case Let_def assms(2) i64_add_diff by simp

lemma last_round_ends:
  assumes "\<And>txb eff fio r e. attempt_recipe I funding es residue = Some (txb, eff, fio, r, e) \<Longrightarrow> r - residue = e"
  shows "execute_recipe (Suc fuel) I funding residual es residue \<noteq> Out_of_fuel"
proof (cases "attempt_recipe I funding es residue")
  case (Some x)
  then obtain txb eff fio r e where x: "attempt_recipe I funding es residue = Some (txb, eff, fio, r, e)"
    by (metis prod_cases5)
  show ?thesis unfolding last_round [OF x assms [OF x]] by simp
qed simp

text \<open>The two second rounds, with a residual fee and with balanced budgets.\<close>

lemma residual_round_ends:
  assumes "attempt_recipe (cardano_interpreter L C M) funding es 0 = Some (txb, eff, fio, r, est)"
    and "\<forall>txb m. ll_min_fee L txb = Some m \<longrightarrow> m = min_fee" "total_budget limit_taker es < 2 ^ 62"
  shows "execute_recipe (Suc fuel) (cardano_interpreter L C M) funding residual es (r - est) \<noteq> Out_of_fuel"
proof (rule last_round_ends)
  fix txb eff fio r' e'
  assume at': "attempt_recipe (cardano_interpreter L C M) funding es (r - est) = Some (txb, eff, fio, r', e')"
  have "unat r' = unat r" and e: "e' = est"
    using attempt_recipe_reserved [OF at' assms(2,3)] attempt_recipe_reserved [OF assms] by simp_all
  from this(1) have "r' = r" by (rule unsigned_word_eqI)
  then show "r' - (r - est) = e'" by (simp add: e)
qed

lemma balanced_round_ends:
  assumes "total_consumed limit_taker es = unat (min_fee + additional_fee)"
    and "\<forall>txb m. ll_min_fee L txb = Some m \<longrightarrow> m = min_fee" "total_budget limit_taker es < 2 ^ 62"
  shows "execute_recipe (Suc fuel) (cardano_interpreter L C M) funding residual es 0 \<noteq> Out_of_fuel"
proof (rule last_round_ends)
  fix txb eff fio r' e'
  assume at': "attempt_recipe (cardano_interpreter L C M) funding es 0 = Some (txb, eff, fio, r', e')"
  have "unat r' = unat e'" using attempt_recipe_reserved [OF at' assms(2,3)] assms(1) by simp
  then have "r' = e'" by (rule unsigned_word_eqI)
  then show "r' - 0 = e'" by simp
qed

text \<open>
  C18. Balancing the fee ends. If the estimated fee does not depend on the amounts in the transaction
  and the budgets of the orders together cover it, executing a recipe takes two rounds at most:
  with that much fuel it returns, or a call of the ledger library fails, whether a residual fee is
  taken or not.
\<close>

theorem execution_ends:
  assumes "\<forall>txb m. ll_min_fee L txb = Some m \<longrightarrow> m = min_fee" "est = min_fee + additional_fee"
    and "unat est \<le> total_budget limit_taker es" "total_budget limit_taker es < 2 ^ 62"
    and "total_budget limit_taker es * unat est < 2 ^ 64" "2 \<le> fuel"
  shows "execute_recipe fuel (cardano_interpreter L C M) funding residual es 0 \<noteq> Out_of_fuel"
proof -
  let ?I = "cardano_interpreter L C M"
  obtain n where fuel: "fuel = Suc (Suc n)" using assms(6) by (metis Suc_le_D numeral_2_eq_2 Suc_le_mono)
  show ?thesis
  proof (cases "attempt_recipe ?I funding es 0")
    case None
    then show ?thesis by (simp add: fuel)
  next
    case (Some x)
    then obtain txb eff fio r e where "attempt_recipe ?I funding es 0 = Some (txb, eff, fio, r, e)"
      by (metis prod_cases5)
    moreover from this have "e = est" using attempt_recipe_reserved(3) [OF _ assms(1,4)] assms(2) by metis
    ultimately have at: "attempt_recipe ?I funding es 0 = Some (txb, eff, fio, r, est)" by simp
    define mismatch where "mismatch = i64_add (i64_of_u64 r) (- i64_of_u64 est)"
    note round = execute_recipe.simps(2) [of "Suc n" ?I funding residual es 0, unfolded at option.case prod.case Let_def
      diff_zero mismatch_def [symmetric]]
    consider (exact) "mismatch = 0" | (residual) "mismatch \<noteq> 0" "residual \<and> 0 < mismatch"
      | (nothing) "mismatch \<noteq> 0" "\<not> (residual \<and> 0 < mismatch)" "r = 0"
      | (balance) "mismatch \<noteq> 0" "\<not> (residual \<and> 0 < mismatch)" "r \<noteq> 0" by blast
    then show ?thesis
    proof cases
      case residual
      then have "0 + u64_of_i64 \<bar>mismatch\<bar> = r - est" by (simp add: mismatch_def i64_add_diff u64_of_i64_def)
      then show ?thesis
        using residual residual_round_ends [OF at assms(1,4)] unfolding fuel round by (auto simp del: execute_recipe.simps)
    next
      case balance
      have "unat est < 2 ^ 62" using assms(3,4) by (rule le_less_trans)
      from next_round [OF at assms(1,4) this assms(5) balance(3)] obtain factor es' where
        b: "ratio_new est r = Some factor" "balance_fee limit_taker mismatch factor es = Some es'"
        "total_consumed limit_taker es' = unat est" "total_budget limit_taker es' = total_budget limit_taker es"
        using assms(3) unfolding mismatch_def by (auto simp: min_absorb1)
      then show ?thesis
        using balance balanced_round_ends [OF b(3) [unfolded assms(2)] assms(1)] assms(4)
        unfolding fuel round by (auto simp del: execute_recipe.simps)
    qed (unfold fuel round, auto simp del: execute_recipe.simps simp: ratio_new_def)
  qed
qed

text \<open>
  C31. An estimate beyond the budgets is never settled. If the estimated fee, whatever the transaction,
  exceeds the budgets of all orders together, executing the recipe does not return: every round
  finds a mismatch, takes all of the budgets, and starts again. The code sets no bound to this.
\<close>

theorem execution_never_returns:
  assumes "\<forall>txb m. ll_min_fee L txb = Some m \<longrightarrow> m = min_fee" "est = min_fee + additional_fee"
    and "total_budget limit_taker es < unat est" "unat est < 2 ^ 62" "total_budget limit_taker es * unat est < 2 ^ 64"
  shows "execute_recipe fuel (cardano_interpreter L C M) funding residual es 0 \<noteq> Ret r"
  using assms(3,5)
proof (induction fuel arbitrary: residual es)
  case (Suc fuel)
  let ?I = "cardano_interpreter L C M"
  show ?case
  proof (cases "attempt_recipe ?I funding es 0")
    case (Some x)
    have budget: "total_budget limit_taker es < 2 ^ 62" using Suc.prems(1) assms(4) by (rule less_trans)
    obtain txb eff fio rs e where "attempt_recipe ?I funding es 0 = Some (txb, eff, fio, rs, e)"
      using Some by (metis prod_cases5)
    moreover from this have "e = est" using attempt_recipe_reserved(3) [OF _ assms(1) budget] assms(2) by metis
    ultimately have at: "attempt_recipe ?I funding es 0 = Some (txb, eff, fio, rs, est)" by simp
    define mismatch where "mismatch = i64_add (i64_of_u64 rs) (- i64_of_u64 est)"
    note round = execute_recipe.simps(2) [of fuel ?I funding residual es 0, unfolded at option.case prod.case Let_def
      diff_zero mismatch_def [symmetric]]
    have "unat rs < unat est"
      using attempt_recipe_reserved(1) [OF at assms(1) budget] consumed_le_budget [of limit_taker es] Suc.prems(1) by simp
    from i64_less [OF this] assms(4) have neg: "mismatch < 0" by (simp add: mismatch_def)
    show ?thesis
    proof (cases "rs = 0")
      case True
      then show ?thesis using neg unfolding round by (simp add: ratio_new_def)
    next
      case False
      obtain factor es' where b: "ratio_new est rs = Some factor" "balance_fee limit_taker mismatch factor es = Some es'"
        "total_budget limit_taker es' = total_budget limit_taker es"
        using next_round [OF at assms(1) budget assms(4) Suc.prems(2) False] unfolding mismatch_def by blast
      then show ?thesis
        using neg Suc.IH [of es' False] Suc.prems unfolding round by (simp del: execute_recipe.simps)
    qed
  qed simp
qed simp

end
