(* ===== verification/Cardano_Exec_Examples.thy ===== *)
theory Cardano_Exec_Examples
  imports Cardano_Exec_Spec
begin

text \<open>
  A limit order executed against a pool, over a ledger library whose values and builder are concrete:
  the runs that the witnesses of the execution's properties rest on.
\<close>

subsection \<open>A ledger library\<close>

definition entry :: "tx_value \<Rightarrow> hash28 \<Rightarrow> bytes \<Rightarrow> u64" where
  "entry v p n = (case map_of (multiasset v) p of Some b \<Rightarrow> (case map_of b n of Some a \<Rightarrow> a | None \<Rightarrow> 0) | None \<Rightarrow> 0)"

definition set_entry :: "hash28 \<Rightarrow> bytes \<Rightarrow> u64 \<Rightarrow> tx_value \<Rightarrow> tx_value" where
  "set_entry p n a v = Value (coin v) (AList.update p
     (AList.update n a (case map_of (multiasset v) p of Some b \<Rightarrow> b | None \<Rightarrow> [])) (multiasset v))"

definition entries :: "tx_value \<Rightarrow> (hash28 \<times> bytes \<times> u64) list" where
  "entries v = concat (map (\<lambda>(p, b). map (\<lambda>(n, a). (p, n, a)) b) (multiasset v))"

definition plain_add :: "tx_value \<Rightarrow> tx_value \<Rightarrow> tx_value option" where
  "plain_add v w =
     (if unat (coin v) + unat (coin w) < 2 ^ 64
      then Some (fold (\<lambda>(p, n, a) u. set_entry p n (entry u p n + a) u) (entries w)
             (Value (coin v + coin w) (multiasset v)))
      else None)"

definition plain_sub_value :: "tx_value \<Rightarrow> tx_value \<Rightarrow> tx_value option" where
  "plain_sub_value v w =
     (if coin w \<le> coin v \<and> (\<forall>(p, n, a) \<in> set (entries w). a \<le> entry v p n)
      then Some (fold (\<lambda>(p, n, a) u. set_entry p n (entry u p n - a) u) (entries w)
             (Value (coin v - coin w) (multiasset v)))
      else None)"

definition plain_ledger :: "u64 \<Rightarrow> ledger_lib" where
  "plain_ledger fee = \<lparr> ll_decode = (\<lambda>_. ListPd []), ll_encode = (\<lambda>_. []), ll_checked_add = plain_add,
     ll_checked_sub = plain_sub_value, ll_accepts = (\<lambda>_ _. True), ll_min_fee = (\<lambda>_. Some fee),
     ll_inputs = List.map_filter spent_by, ll_build = (\<lambda>txb _. Some (0, List.map_filter created_by txb)) \<rparr>"

lemma held_entry:
  "an_into_cml n = Some name \<Longrightarrow> held v (TokenClass (Token p n)) = entry v p name"
  by (auto simp: held_def amount_of_token entry_def split: option.splits)

lemma entry_set: "entry (set_entry p n a v) q m = (if q = p \<and> m = n then a else entry v q m)"
  by (auto simp: entry_def set_entry_def split: option.splits)

lemma coin_set [simp]: "coin (set_entry p n a v) = coin v"
  by (simp add: set_entry_def)

lemma held_native [simp]: "held v Native = coin v"
  by (simp add: held_def)

lemma held_set:
  assumes "an_wf n" "an_into_cml n = Some name" "ac_ok a"
  shows "held (set_entry p name x v) a = (if a = TokenClass (Token p n) then x else held v a)"
  using assms(3)
proof (cases a rule: ac_ok_cases)
  case q: (2 q m nm)
  have "nm = name \<longleftrightarrow> m = n" using an_into_cml_inj [OF q(2) assms(1)] assms(2) q(3) by simp
  then show ?thesis by (simp add: q(1) held_entry [OF q(3)] entry_set)
qed simp

lemma held_coin: "ac_ok a \<Longrightarrow> held (Value c (multiasset v)) a = (if a = Native then c else held v a)"
  by (cases a) (simp_all add: held_def)

lemma entry_coin [simp]: "entry (Value c (multiasset v)) p n = entry v p n"
  by (simp add: entry_def)

lemma plain_ledger_laws: "value_laws (plain_ledger fee)"
proof -
  have "(plain_add v w = Some v' \<longrightarrow> held v' a = held v a + (if a = asset then x else 0)) \<and>
      (plain_sub_value v w = Some v' \<longrightarrow> held v' a = held v a - (if a = asset then x else 0))"
    if ok: "ac_ok asset" "ac_ok a" and w: "ac_into_value asset x = Some w" for v w v' asset x a
    using ok(1)
  proof (cases asset rule: ac_ok_cases)
    case 1
    then have "w = Value x []" using w by simp
    then show ?thesis
      using 1 ok(2) by (auto simp: plain_add_def plain_sub_value_def entries_def held_coin split: if_splits)
  next
    case (2 p n name)
    then have "w = Value 0 [(p, [(name, x)])]" using w by simp
    then show ?thesis
      using ok(2) 2 by (auto simp: plain_add_def plain_sub_value_def entries_def held_set held_coin held_entry entry_coin entry_set
          split: if_splits)
  qed
  then show ?thesis unfolding value_laws_def plain_ledger_def by simp
qed

subsection \<open>A recipe\<close>

text \<open>The order spends 20000 of the native asset for 7363 of a token, with a budget of 600000 and a fee of 1000.\<close>

definition rich_order :: limit_order where
  "rich_order = poor_order\<lparr>lo_execution_budget := 600000, lo_fee := 1000, lo_redeemer_address := Enterprise (PubKey 7)\<rparr>"

definition rich_take :: "limit_order take_in_progress" where
  "rich_take = Trans rich_order (Term \<lparr> remaining_input = 0, accumulated_output = 7363, remaining_budget = 100000,
     remaining_fee = 700 \<rparr>)"

definition rich_recipe :: "(limit_order, const_fn_pool) matchmaking_recipe" where
  "rich_recipe = [Inl rich_take, Inr (poor_make_of (Classic sample_pool) (Classic swapped_pool))]"

definition order_src :: finalized_tx_out where
  "order_src = FinalizedTxOut (ConwayFormatTxOut (Enterprise (Script 3)) (Value 2620000 []) None None) (OutputRef 1 0)"

definition pool_src :: finalized_tx_out where
  "pool_src = FinalizedTxOut (ConwayFormatTxOut (Enterprise (Script 4)) (Value 10000000 [(5, [([0], 3700000)])]) None None) (OutputRef 2 0)"

definition funding_src :: finalized_tx_out where
  "funding_src = FinalizedTxOut (ConwayFormatTxOut (Enterprise (PubKey 8)) (Value 5000000 []) None None) (OutputRef 3 0)"

definition sample_link :: "token \<Rightarrow> (output_ref \<times> finalized_tx_out) option" where
  "sample_link sid = (if sid = lo_stable_id rich_order then Some (OutputRef 1 0, order_src)
     else if sid = cp_id sample_pool then Some (OutputRef 2 0, pool_src) else None)"

definition rich_linked :: "u64 \<Rightarrow> (limit_order, const_fn_pool) linked_recipe" where
  "rich_linked left = [Inl (Trans (Bundled rich_order order_src) (Term \<lparr> remaining_input = 0, accumulated_output = 7363,
       remaining_budget = left, remaining_fee = 700 \<rparr>)),
     Inr (Trans (Bundled (Classic sample_pool) pool_src) (Succ (Classic swapped_pool)))]"

definition exec_validators :: validators where
  "exec_validators v = \<lparr> dv_reference_utxo = (OutputRef 0 0, fo_output funding_src), dv_hash = 6,
     dv_cost = ExUnits 100 200, dv_marginal_cost = ExUnits 10 20 \<rparr>"

definition sample_context :: exec_context where
  "sample_context = \<lparr> xc_validators = exec_validators, xc_operator_cred = 8, xc_reward_address = Enterprise (PubKey 9),
     xc_collateral = (OutputRef 4 0, fo_output funding_src) \<rparr>"

abbreviation sample_interpreter where
  "sample_interpreter fee \<equiv> cardano_interpreter (plain_ledger fee) sample_context plain_market"

lemma rich_order_fields [simp]:
  "lo_input_amount rich_order = 20000" "lo_output_amount rich_order = 0" "lo_fee rich_order = 1000"
  "lo_execution_budget rich_order = 600000" "lo_input_asset rich_order = Native" "lo_fee_asset rich_order = Native"
  "lo_output_asset rich_order = TokenClass (Token 5 an_zero)" "lo_redeemer_address rich_order = Enterprise (PubKey 7)"
  "lo_requires_executor_sig rich_order = False" "lo_side rich_order = Ask" "lo_stable_id rich_order = Token 1 an_zero"
  by (simp_all add: rich_order_def poor_order_def sample_order_def Lb_Trade_Spec.sample_token_def lo_side_def side_of_def
      order_canonical_def lo_stable_id_def less_asset_class_def asset_class_key_def)

lemma name_zero [simp]: "an_into_cml an_zero = Some [0]"
  by (simp add: an_into_cml_def an_zero_def)

definition order_out :: "u64 \<Rightarrow> tx_output" where
  "order_out left = ConwayFormatTxOut (Enterprise (PubKey 7)) (Value (1999700 + left) [(5, [([0], 7363)])]) None None"

definition pool_out :: tx_output where
  "pool_out = ConwayFormatTxOut (Enterprise (Script 4)) (Value 10020000 [(5, [([0], 3692637)])]) None None"

definition executed_take :: "u64 \<Rightarrow> execution_state \<Rightarrow> execution_state" where
  "executed_take left st = with_blueprint (\<lambda>b.
       add_ref_input (OutputRef 0 0, fo_output funding_src)
         (add_io (limit_order_input sample_context rich_order order_src) (order_out left)
           (add_witness (erased (exec_validators LimitOrderWitnessV1)) (ListPd []) b)))
     (add_operator_interest 300 (add_tx_fee (600000 - left) st))"

abbreviation linked_take :: "u64 \<Rightarrow> (limit_order, finalized_tx_out) take" where
  "linked_take left \<equiv> Trans (Bundled rich_order order_src)
     (Term \<lparr> remaining_input = 0, accumulated_output = 7363, remaining_budget = left, remaining_fee = 700 \<rparr>)"

lemma linked_take_amounts:
  assumes "left \<in> {100000, 143675}"
  shows "take_removed_input limit_taker (linked_take left) = Some 20000"
    "take_added_output limit_taker (linked_take left) = Some 7363"
    "take_consumed_budget limit_taker (linked_take left) = Some (600000 - left)"
    "take_consumed_fee limit_taker (linked_take left) = Some 300"
  using assms by (auto simp: take_removed_input_def take_added_output_def take_consumed_budget_def
      take_consumed_fee_def limit_taker_def checked_sub_def)

lemma take_executed:
  assumes "left \<in> {100000, 143675}"
  shows "limit_exec (plain_ledger fee) sample_context (linked_take left) st =
    Some (executed_take left st, Eliminate (Bundled rich_order order_src))"
proof -
  have "sub_asset (plain_ledger fee) Native (600000 - left + 300) (fo_output order_src) =
      Some (ConwayFormatTxOut (Enterprise (Script 3)) (Value (2019700 + left) []) None None)"
    using assms by (auto simp: sub_asset_def plain_ledger_def plain_sub_value_def entries_def order_src_def)
  moreover have "sub_asset (plain_ledger fee) Native 20000
        (ConwayFormatTxOut (Enterprise (Script 3)) (Value (2019700 + left) []) None None) =
      Some (ConwayFormatTxOut (Enterprise (Script 3)) (Value (1999700 + left) []) None None)"
    using assms by (auto simp: sub_asset_def plain_ledger_def plain_sub_value_def entries_def)
  moreover have "add_asset (plain_ledger fee) (TokenClass (Token 5 an_zero)) 7363
        (ConwayFormatTxOut (Enterprise (Script 3)) (Value (1999700 + left) []) None None) =
      Some (ConwayFormatTxOut (Enterprise (Script 3)) (Value (1999700 + left) [(5, [([0], 7363)])]) None None)"
    using assms by (auto simp: add_asset_def plain_ledger_def plain_add_def entries_def set_entry_def entry_def)
  ultimately show ?thesis
    by (simp add: limit_exec_def linked_take_amounts [OF assms] executed_take_def sample_context_def
        exec_validators_def erased_def order_out_def)
qed

definition executed_make :: "execution_state \<Rightarrow> execution_state" where
  "executed_make = with_blueprint (\<lambda>b.
       add_ref_input (OutputRef 0 0, fo_output funding_src)
         (add_io (const_fn_input sample_context (Classic sample_pool) pool_src) pool_out b))"

lemma make_executed:
  "const_fn_exec (plain_ledger fee) sample_context plain_market
     (Trans (Bundled (Classic sample_pool) pool_src) (Succ (Classic swapped_pool))) st =
   Some (executed_make st, Updated (Bundled (Classic sample_pool) pool_src) (Bundled (Classic swapped_pool) pool_out))"
proof -
  let ?tr = "Trans (Bundled (Classic sample_pool) pool_src) (Succ (Classic swapped_pool)) :: (const_fn_pool, finalized_tx_out) make"
  have am: "make_trade_side plain_market ?tr = Some Ask" "make_loss plain_market ?tr = Some 7363"
    "make_gain plain_market ?tr = Some 20000"
    by (simp_all add: make_trade_side_def make_loss_def make_gain_def plain_market_classic reserves_trade_side_def
        reserves_loss_def reserves_gain_def checked_sub_def)
  have mapping: "cf_asset_mapping Ask (Classic sample_pool) =
      \<lparr> am_asset_to_deduct_from = TokenClass (Token 5 an_zero), am_asset_to_add_to = Native \<rparr>"
    by (simp add: cf_asset_mapping_def pool_base_def order_canonical_def less_asset_class_def asset_class_key_def
        sample_pool_def)
  have "sub_asset (plain_ledger fee) (TokenClass (Token 5 an_zero)) 7363 (fo_output pool_src) =
      Some (ConwayFormatTxOut (Enterprise (Script 4)) (Value 10000000 [(5, [([0], 3692637)])]) None None)"
    by (simp add: sub_asset_def plain_ledger_def plain_sub_value_def entries_def set_entry_def entry_def pool_src_def)
  moreover have "add_asset (plain_ledger fee) Native 20000
        (ConwayFormatTxOut (Enterprise (Script 4)) (Value 10000000 [(5, [([0], 3692637)])]) None None) = Some pool_out"
    by (simp add: add_asset_def plain_ledger_def plain_add_def entries_def pool_out_def)
  ultimately show ?thesis
    by (simp add: const_fn_exec_def am mapping executed_make_def Let_def)
      (simp add: pool_out_def sample_context_def exec_validators_def erased_def cp_get_validator_def)
qed

definition funding_out :: tx_output where
  "funding_out = operator_output (Enterprise (PubKey 8)) (Value 5000300 [])"

definition rich_effects :: "(limit_order + const_fn_pool) effect_preview list" where
  "rich_effects = [Eliminate (Bundled (Inl rich_order) order_src),
     Updated (Bundled (Inr (Classic sample_pool)) pool_src) (Bundled (Inr (Classic swapped_pool)) pool_out)]"

lemma rich_execute:
  assumes "left \<in> {100000, 143675}"
  shows "execute (limit_exec (plain_ledger fee) sample_context) (const_fn_exec (plain_ledger fee) sample_context plain_market)
      execution_state_new [] (rich_linked left) =
    Some (executed_make (executed_take left execution_state_new), rich_effects)"
  by (simp add: rich_linked_def take_executed [OF assms] make_executed rich_effects_def either_effect_def bundled_map_def)

lemma rich_state:
  "es_reserved_tx_fee (executed_make (executed_take left execution_state_new)) = 600000 - left"
  "es_operator_interest (executed_make (executed_take left execution_state_new)) = 300"
  "tb_script_io (es_tx_blueprint (executed_make (executed_take left execution_state_new))) =
    [(limit_order_input sample_context rich_order order_src, order_out left),
     (const_fn_input sample_context (Classic sample_pool) pool_src, pool_out)]"
  by (simp_all add: executed_make_def executed_take_def with_blueprint_def add_operator_interest_def add_tx_fee_def
      execution_state_new_def blueprint_new_def add_ref_input_def add_io_def add_witness_def)

lemma rich_interest:
  "settle_interest (Enterprise (PubKey 9)) funding_src 300 =
    Some ([OperatorIo (Some funding_src) funding_out], Replaced funding_src funding_out)"
  by (simp add: settle_interest_def min_safe_lovelace_value_def funding_src_def add_unsafe_def funding_out_def word_less_nat_alt word_le_nat_alt Let_def)

lemma rich_sorted:
  "sort_io [ScriptIo (limit_order_input sample_context rich_order order_src) o1,
     ScriptIo (const_fn_input sample_context (Classic sample_pool) pool_src) o2, OperatorIo (Some funding_src) o3] =
   [ScriptIo (limit_order_input sample_context rich_order order_src) o1,
     ScriptIo (const_fn_input sample_context (Classic sample_pool) pool_src) o2, OperatorIo (Some funding_src) o3]"
  by (simp add: sort_io_def reference_le_def limit_order_input_def const_fn_input_def order_src_def pool_src_def
      funding_src_def Let_def)

text \<open>The outputs a builder spends and those it creates.\<close>

definition builder_io :: "builder \<Rightarrow> tx_output list \<times> tx_output list" where
  "builder_io txb = (List.map_filter spent_by txb, List.map_filter created_by txb)"

lemma builder_io_simps [simp]:
  "builder_io [] = ([], [])"
  "builder_io (txb @ cs) = (fst (builder_io txb) @ fst (builder_io cs), snd (builder_io txb) @ snd (builder_io cs))"
  "builder_io (c # cs) = ((case spent_by c of Some x \<Rightarrow> [x] | None \<Rightarrow> []) @ fst (builder_io cs),
     (case created_by c of Some x \<Rightarrow> [x] | None \<Rightarrow> []) @ snd (builder_io cs))"
  by (simp_all add: builder_io_def List.map_filter_def split: option.splits)

lemma builder_io_refs:
  "builder_io (fold (\<lambda>(ref_in, ref_utxo). call (AddReferenceInput ref_in ref_utxo)) rs txb) = builder_io txb"
  by (induction rs arbitrary: txb) (auto simp: call_def)

lemma builder_io_witnesses: "builder_io (fold project_witness ws txb) = builder_io txb"
  by (induction ws arbitrary: txb) (auto simp: project_witness_def call_def)

lemma plain_try [simp]: "try_call (plain_ledger fee) c txb = Some (txb @ [c])"
  by (simp add: try_call_def plain_ledger_def)

lemma rich_projected:
  "\<exists>txb'. project_ios (plain_ledger fee)
      (ordering_of [ScriptIo (limit_order_input sample_context rich_order order_src) o1,
        ScriptIo (const_fn_input sample_context (Classic sample_pool) pool_src) o2, OperatorIo (Some funding_src) o3])
      (enumerate 0 [ScriptIo (limit_order_input sample_context rich_order order_src) o1,
        ScriptIo (const_fn_input sample_context (Classic sample_pool) pool_src) o2, OperatorIo (Some funding_src) o3]) txb =
      Some txb' \<and>
    builder_io txb' = (fst (builder_io txb) @ [fo_output order_src, fo_output pool_src, fo_output funding_src],
      snd (builder_io txb) @ [o1, o2, o3])"
  by (simp add: limit_order_input_def const_fn_input_def ordering_of_def index_of_def List.map_filter_def
      order_src_def pool_src_def funding_src_def call_def Let_def)

lemma sample_context_fields:
  "xc_reward_address sample_context = Enterprise (PubKey 9)" "xc_collateral sample_context = (OutputRef 4 0, fo_output funding_src)"
  by (simp_all add: sample_context_def)

lemma rich_attempt:
  assumes "left \<in> {100000, 143675}"
  shows "\<exists>txb. attempt_recipe (sample_interpreter fee) funding_src (rich_linked left) 0 =
      Some (txb, rich_effects, Replaced funding_src funding_out, 600000 - left, fee + 40000) \<and>
    builder_io txb = ([fo_output order_src, fo_output pool_src, fo_output funding_src], [order_out left, pool_out, funding_out])"
proof -
  let ?b = "es_tx_blueprint (executed_make (executed_take left execution_state_new))"
  define txb0 where "txb0 = fold (\<lambda>(ref_in, ref_utxo). call (AddReferenceInput ref_in ref_utxo)) (tb_reference_inputs ?b) constant_tx_builder"
  have io0: "builder_io txb0 = ([], [])"
    unfolding txb0_def builder_io_refs by (simp add: builder_io_def constant_tx_builder_def map_filter_simps)
  from rich_projected [of fee "order_out left" pool_out funding_out txb0] obtain txb1 where
    p: "project_ios (plain_ledger fee)
      (ordering_of [ScriptIo (limit_order_input sample_context rich_order order_src) (order_out left),
        ScriptIo (const_fn_input sample_context (Classic sample_pool) pool_src) pool_out, OperatorIo (Some funding_src) funding_out])
      (enumerate 0 [ScriptIo (limit_order_input sample_context rich_order order_src) (order_out left),
        ScriptIo (const_fn_input sample_context (Classic sample_pool) pool_src) pool_out, OperatorIo (Some funding_src) funding_out]) txb0 =
      Some txb1"
    and io1: "builder_io txb1 = ([fo_output order_src, fo_output pool_src, fo_output funding_src], [order_out left, pool_out, funding_out])"
    unfolding io0 fst_conv snd_conv append_Nil by blast
  have "project_onto_builder (plain_ledger fee) ?b constant_tx_builder (Enterprise (PubKey 9)) funding_src 300 =
      Some (fold project_witness (tb_witness_scripts ?b) txb1, Replaced funding_src funding_out)"
    unfolding project_onto_builder_def rich_interest rich_state txb0_def [symmetric]
    by (simp only: bind.bind_lunit prod.case list.map append.simps rich_sorted p Let_def)
  moreover have "es_operator_interest (executed_make (executed_take left execution_state_new)) + 0 = 300"
    by (simp add: rich_state)
  moreover have "ll_min_fee (plain_ledger fee) txb = Some fee" for txb by (simp add: plain_ledger_def)
  ultimately show ?thesis
    using io1 builder_io_witnesses [of "tb_witness_scripts ?b" txb1]
    by (simp add: attempt_recipe_def cardano_interpreter_def rich_execute [OF assms] sample_context_fields rich_state(1)
        additional_fee_def)
qed

text \<open>The order overpays the estimate of 456325 by 43675; one correction gives that back to its budget.\<close>

lemma rich_ratio: "ratio_new 456325 500000 = Some (18253, 20000)"
proof -
  have "gcd (456325 :: nat) 500000 = 25"
    by (simp add: gcd_red_nat [of 456325 500000] gcd_red_nat [of 500000 456325] gcd_red_nat [of 456325 43675] gcd_red_nat [of 43675 19575] gcd_red_nat
        [of 19575 4525] gcd_red_nat [of 4525 1475] gcd_red_nat [of 1475 100] gcd_red_nat [of 100 75] gcd_red_nat [of 75 25])
  then show ?thesis by (simp add: ratio_new_def Let_def)
qed

lemma rich_balanced:
  "balance_fee limit_taker (i64_add (i64_of_u64 500000) (- i64_of_u64 456325)) (18253, 20000) (rich_linked 100000) =
    Some (rich_linked 143675)"
  by (simp add: balance_fee_def rich_linked_def take_scale_consumed_budget_def linked_take_amounts checked_div_def
      take_correct_consumed_budget_def tt_with_budget_corrected_def corrected_budget_def i64_add_def i64_of_u64_def u64_of_i64_def)

lemma rich_run:
  "\<exists>txb. execute_recipe 2 (sample_interpreter 416325) funding_src residual (rich_linked 100000) 0 =
      Ret (txb, rich_effects, Replaced funding_src funding_out) \<and>
    builder_io txb = ([fo_output order_src, fo_output pool_src, fo_output funding_src], [order_out 143675, pool_out, funding_out])"
  if "\<not> residual"
proof -
  obtain txb0 where a0: "attempt_recipe (sample_interpreter 416325) funding_src (rich_linked 100000) 0 =
      Some (txb0, rich_effects, Replaced funding_src funding_out, 500000, 456325)"
    using rich_attempt [of 100000 416325] by auto
  obtain txb where a: "attempt_recipe (sample_interpreter 416325) funding_src (rich_linked 143675) 0 =
      Some (txb, rich_effects, Replaced funding_src funding_out, 456325, 456325)"
    and io: "builder_io txb = ([fo_output order_src, fo_output pool_src, fo_output funding_src], [order_out 143675, pool_out, funding_out])"
    using rich_attempt [of 143675 416325] by auto
  have "(500000 :: u64) - 456325 \<noteq> 0" by simp
  then have m: "i64_add (i64_of_u64 500000) (- i64_of_u64 456325) \<noteq> 0" unfolding i64_add_diff by simp
  have "execute_recipe 2 (sample_interpreter 416325) funding_src residual (rich_linked 100000) 0 =
      execute_recipe 1 (sample_interpreter 416325) funding_src False (rich_linked 143675) 0"
    using that m by (simp add: numeral_2_eq_2 a0 rich_ratio rich_balanced del: execute_recipe.simps(2))
      (subst execute_recipe.simps(2), simp add: a0 rich_ratio rich_balanced)
  then show ?thesis using last_round [OF a] io by (simp del: execute_recipe.simps)
qed

lemma rich_link:
  "recipe_link limit_taker plain_market sample_link rich_recipe = Inr (rich_linked 100000, {OutputRef 1 0, OutputRef 2 0})"
  by (simp add: recipe_link_def rich_recipe_def rich_take_def poor_make_of_def sample_link_def limit_taker_def
      plain_market_classic rich_linked_def sample_pool_def Let_def)

lemma rich_flow: "recipe_flow limit_taker plain_market s rich_recipe = 0"
  by (cases s) (simp_all add: recipe_flow_def rich_recipe_def rich_take_def poor_make_of_def take_flow_def make_flow_def
      limit_taker_def left_input_def total_output_def paid_by_def plain_market_classic)

lemma rich_pair: "\<forall>e \<in> set (rich_linked left). of_pair Native (TokenClass (Token 5 an_zero)) e"
  by (simp add: rich_linked_def order_of_pair_def pool_of_pair_def order_canonical_def less_asset_class_def
      asset_class_key_def sample_pool_def)

lemma zero_wf: "an_wf an_zero"
proof -
  have "an_try_from [0] = Some an_zero" by (simp add: an_try_from_def pad32_def an_zero_def numeral_eq_Suc)
  then show ?thesis by (auto simp: an_wf_def)
qed

theorem execution_balanced_witness:
  "\<exists>txb effects fio. execute_recipe 2 (sample_interpreter 416325) funding_src False (rich_linked 100000) 0 = Ret (txb, effects, fio) \<and>
    total_created txb Native = 17163675 \<and> total_spent txb Native = total_created txb Native + 456325"
proof -
  obtain txb where run: "execute_recipe 2 (sample_interpreter 416325) funding_src False (rich_linked 100000) 0 =
      Ret (txb, rich_effects, Replaced funding_src funding_out)"
    and io: "builder_io txb = ([fo_output order_src, fo_output pool_src, fo_output funding_src], [order_out 143675, pool_out, funding_out])"
    using rich_run [of False] by auto
  have totals: "total_spent txb Native = 17620000" "total_created txb Native = 17163675"
    using io by (simp_all add: builder_io_def total_spent_def total_created_def holds_def order_src_def pool_src_def
        funding_src_def order_out_def pool_out_def funding_out_def)
  have "pair_ok Native (TokenClass (Token 5 an_zero))" by (simp add: pair_ok_def zero_wf)
  note balanced = execution_balanced [OF plain_ledger_laws this _ rich_pair
      rich_link [unfolded plain_market_def] _ run [unfolded plain_market_def], where a = Native and min_fee = 416325]
  have "total_spent txb Native = total_created txb Native + 456325"
    using balanced rich_flow totals by (simp add: plain_ledger_def additional_fee_def plain_market_def)
  then show ?thesis using run totals by blast
qed

definition tested_take :: "hash28 \<Rightarrow> (limit_order, unit) take" where
  "tested_take b = Trans (Bundled (sample_order Native (TokenClass (Token 5 an_zero)) 10 1 250000 b) ())
     (Succ (sample_order Native (TokenClass (Token 5 an_zero)) 10 1 0 b))"

theorem balance_fee_exact_witness:
  "\<exists>es'. balance_fee limit_taker (i64_add (i64_of_u64 500000) (- i64_of_u64 456325)) (18253, 20000)
      ([Inl (tested_take 1), Inl (tested_take 2)] :: (limit_order, unit, unit) execution list) = Some es' \<and>
    total_consumed limit_taker es' = 456325"
proof -
  have f: "full_budget limit_taker (tested_take b) = 250000" "left_budget limit_taker (tested_take b) = 0" for b
    by (simp_all add: full_budget_def left_budget_def tested_take_def limit_taker_def sample_order_def)
  show ?thesis
    using balance_fee_exact [of "[Inl (tested_take 1), Inl (tested_take 2)]" 500000 456325 "(18253, 20000)"]
    by (auto simp: f rich_ratio)
qed

lemma rich_budget: "total_budget limit_taker (rich_linked left) = 600000"
  by (simp add: rich_linked_def full_budget_def limit_taker_def)

lemma plain_fee: "\<forall>txb m. ll_min_fee (plain_ledger fee) txb = Some m \<longrightarrow> m = fee"
  by (simp add: plain_ledger_def)

theorem execution_ends_witness:
  "execute_recipe 2 (sample_interpreter 416325) funding_src True (rich_linked 100000) 0 \<noteq> Out_of_fuel"
  using execution_ends [OF plain_fee refl, of 416325 "rich_linked 100000" 2]
  by (simp add: rich_budget additional_fee_def del: execute_recipe.simps)

theorem execution_never_returns_witness:
  "\<forall>fuel r. execute_recipe fuel (sample_interpreter 900000) funding_src False (rich_linked 100000) 0 \<noteq> Ret r"
  using execution_never_returns [OF plain_fee refl, of "rich_linked 100000" 900000]
  by (simp add: rich_budget additional_fee_def del: execute_recipe.simps)

end
