(* ===== verification/Spec2Isabelle.thy ===== *)
theory Spec2Isabelle
  imports Pipeline Chain_Sync_Spec Assets Collections Tx_Store Kv_Store Backlog_Spec Atomic_Flow Lb_Examples Limit_Order_Spec Engine_Examples
    Entity_Sink_Spec Box_Resolver_Spec Pool_Orders_Spec Cardano_Exec_Examples
begin

text \<open>
  A verification development of the Cardano UTxO monitor: an indexer of unspent outputs with an
  HTTP interface, and the off-chain execution libraries it is built with. Paths are relative to
  src/; packages/ stands for src/packages/.

  The program. A node is followed over two protocols. The chain-sync client and its block cache
  (packages/cardano-chain-sync) turn the node's roll-forward and roll-backward messages into
  ledger events; the mempool client (packages/cardano-mempool-sync) turns polled transactions into
  mempool events, and the tracker of packages/spectrum-offchain-cardano takes back the ones that
  the ledger does not confirm in time. Both streams end in the handler of src/handler.rs, which
  writes the UTxO index of src/index.rs, a set of column families in RocksDB; src/server.rs answers
  queries from the same tables. The off-chain libraries follow the same events: sinks recognise
  orders and pools in transactions and report their transitions
  (packages/bloom-offchain-cardano/event_sink), the engine of packages/bloom-offchain keeps an
  index of their states, a backlog and a liquidity book per trading pair, matches orders against
  pools and settles every transaction by the feedback of the network, and the pools of
  packages/spectrum-offchain-cardano say what a trade, a deposit or a signed request does to them.

  Conventions. A Rust integer is a word of its width where it can wrap or is an index, and a
  natural number or an integer where the code multiplies in wider types or cannot overflow; a
  panic is \<open>None\<close> or an outcome of its own and an error a left injection; the few panics left out
  (a channel with no receiver, an allocation) are named where they would be.
  Strings are their UTF-8 bytes. A \<open>BTreeMap\<close> is a strictly sorted association list, a \<open>HashMap\<close> a
  map, or an association list where it is iterated over and the order is a parameter of the call or does
  not show. Third-party code is a parameter:
  RocksDB (the record and the locale of \<open>Rocks\<close>), serialisers, hashes and signatures, the CBOR
  library, exact differences of ratios, the priority queue. What is asked of such a parameter is a
  locale or a named hypothesis, and \<open>Codec\<close>, \<open>Reference_Env\<close>, \<open>Pool_Roundtrip\<close> and
  \<open>Engine_Examples\<close> hold concrete ones that meet it. Concurrency is a step relation or an explicit
  sequence of steps.

  Shared theories. \<open>Prelude\<close>: bytes, big-endian keys, decimal texts, folds and paging.
  \<open>Cardano_Types\<close>: output references, addresses, outputs. \<open>Assets\<close>, \<open>Value_Ops\<close> and \<open>Plutus_Data\<close>:
  packages/spectrum-cardano-lib. \<open>Collections\<close>: packages/spectrum-offchain/data. \<open>Rocks\<close>: the
  database interface, interpreted on association lists.

  The index. \<open>Utxo_Index\<close> has the tables, \<open>apply\<close> and \<open>unapply\<close>, \<open>Utxo_Query\<close> the paging loops of
  \<open>get_utxos\<close>. \<open>Utxo_Index_Laws\<close> and \<open>Utxo_Index_Inv\<close> give the effect of every write on every column
  family and the invariant that the secondary indexes list exactly the unspent outputs;
  \<open>Utxo_Query_Laws\<close>, \<open>Utxo_Unit_Query\<close> and \<open>Utxo_All_Query\<close> the answers of the three kinds of query;
  \<open>Utxo_Spec\<close> the refinement of an abstract ledger. \<open>Server\<close> and \<open>Server_Spec\<close> are the HTTP handlers,
  which meet the index through the contract \<open>utxo_resolver\<close>.

  The streams. \<open>Ledger_Events\<close> holds events, transaction views and the index handler;
  \<open>Ledger_Cache\<close>, \<open>Chain_Sync\<close> and \<open>Atomic_Flow\<close> the ledger stream; \<open>Mempool\<close>, \<open>Tx_Tracker\<close> and
  \<open>Tx_Store\<close> the mempool stream and what is pending; \<open>Event_Handlers\<close> the handlers of main. In
  \<open>Handler_Spec\<close> the database is a state machine over events and queries, and \<open>Pipeline\<close> puts all
  processes of src/main.rs into one step relation with their queues. A rollback is a loop with no
  bound in the code: it has fuel, and one round more than there are cached blocks above the point
  is shown to be enough.

  Stores. \<open>Kv_Store\<close>, \<open>Backlog_Store\<close>, \<open>Backlog\<close> with \<open>Backlog_Spec\<close>, and \<open>Box_Resolver\<close> with
  \<open>Box_Resolver_Spec\<close> are packages/spectrum-offchain: key-value stores, backlogs of orders and the
  choice of the current state of an entity from what was confirmed, seen and predicted. The
  resolver's walk along predictions has fuel; it is shown to end when predictions build on earlier
  states, and to be in a loop otherwise.

  The engine. \<open>Lb_Types\<close>, \<open>Lb_State\<close>, \<open>Lb_Core\<close> and \<open>Lb_Book\<close> follow the four parts of
  packages/bloom-offchain/src/execution_engine/liquidity_book; \<open>Lb_State_Spec\<close>, \<open>Lb_Trade_Spec\<close>,
  \<open>Lb_Batch\<close> and \<open>Lb_Book_Spec\<close> are about picks and previews, trades and recipes, one turn of an
  attempt, and whole attempts. Takers and makers are records of the operations of their traits;
  \<open>taker_laws\<close> is the contract of takers, which \<open>Limit_Order\<close> satisfies. An attempt is two nested
  unbounded loops with fuel for each: the inner one consumes input of takers and the outer one
  stashes them, which gives the bound of \<open>attempt_returns\<close>; the one way to run forever is
  \<open>attempt_never_returns\<close>. \<open>Entity_Events\<close>, \<open>State_Index\<close>, \<open>Entity_Index\<close> and \<open>Engine\<close> are the
  executor, which uses the book through the contract \<open>engine_book\<close>; \<open>Entity_Sink\<close> is what feeds it.

  Conservation. \<open>Lb_Conservation\<close> follows the amounts of every execution through an attempt, under
  the contracts \<open>conserving_takers\<close> and \<open>conserving_makers\<close>; \<open>Pool_Maker\<close> shows that limit orders
  and the constant-product pools of all kinds keep them, so that a recipe neither loses nor makes
  up an asset.

  Transactions. \<open>Tx_Blueprint\<close> and \<open>Cardano_Exec\<close> are packages/bloom-offchain-cardano/src/
  execution_engine: the blueprint of a transaction and its projection onto the builder of the
  ledger library, the execution of limit orders and constant-product pools, the balancing of the
  fee, and the effects reported to the engine. The builder is the list of the calls made to it; its
  estimate of the fee, the arithmetic of values and the finished transaction are parameters.
  \<open>Cardano_Exec_Spec\<close> shows that a transaction spends what it creates and its fee, that balancing
  reaches the estimate to the unit under the contract \<open>budgeted_takers\<close>, and when the loop that
  balances, which has fuel, ends: two rounds are enough if the budgets cover the estimate, and no
  number is otherwise. \<open>Cardano_Exec_Examples\<close> has a concrete library and a run.

  The pools. \<open>Cfmm_Pool\<close> has the shared mathematics and the classic pool, \<open>Fee_Switch_Pool\<close> and
  \<open>Royalty_Pool\<close> the other kinds, \<open>Const_Fn_Pool\<close> their union; \<open>Pool_Ledger\<close>, \<open>Operation_Output\<close> and
  \<open>Order_Requests\<close> their deployment, outputs and requests, \<open>Royalty_Orders\<close> the signed operations.
  \<open>Pool_Spec\<close> and \<open>Pool_Roundtrip\<close> show that a written pool is read back, the
  bidirectional fee-switch pool excepted, \<open>Pool_Trades\<close> that trades
  keep the product of the reserves and what the pool owes, \<open>Pool_Orders_Spec\<close> what requests may do.

  The properties, in the order of their importance, are numbered C1 to C40 in the theories. Their
  lemma groups are: the ledger refined by the index and the exactness of queries (\<open>Utxo_Spec\<close>,
  \<open>Handler_Spec\<close>, \<open>Server_Spec\<close>); forks, rollbacks and interleavings (\<open>Chain_Sync_Spec\<close>,
  \<open>Pipeline\<close>, \<open>Tx_Tracker\<close>); the engine, which does not panic on its own, and its state index
  (\<open>Engine_Spec\<close>, \<open>State_Index_Spec\<close>, \<open>Entity_Sink_Spec\<close>); the liquidity book (\<open>Lb_Book_Spec\<close>,
  \<open>Lb_Trade_Spec\<close>) and its transactions (\<open>Pool_Maker\<close>, \<open>Cardano_Exec_Spec\<close>); the stores (\<open>Backlog_Spec\<close>, \<open>Box_Resolver_Spec\<close>); the pools and the
  orders (\<open>Limit_Order_Spec\<close>, \<open>Pool_Trades\<close>, \<open>Pool_Roundtrip\<close>, \<open>Pool_Orders_Spec\<close>).

  Not modelled. The quadratic, balance and stable pools, whose mathematics is on decimals and
  256-bit integers of third-party crates, and their part in a transaction; the transaction of a
  request against a pool beyond its outputs and redeemers; grid, instant and ad-hoc orders; the wire
  protocols, the submission of transactions and the explorer client, which are input and output;
  configuration, logging, display, UDP reports and derive macros. Where a modelled operation is
  handed to one of these, the theory of its component says so. Arithmetic on ratios is exact: the
  intermediate overflow of 128-bit ratios is out of the model.
\<close>

end
